(* ===== verification/Prelude.thy ===== *)
theory Prelude
  imports Main "HOL-Library.Char_ord" "HOL-Library.List_Lexorder"
begin

text \<open>
  Shared vocabulary of the development: the lemma collections, results with
  error values, SQL-style operations on tables kept as lists of rows, and the
  string operations of the Go standard library that the components use
  (\<open>strings.Split\<close>, \<open>strings.Join\<close>, \<open>strings.TrimSpace\<close>, \<open>strings.ReplaceAll\<close>,
  \<open>sort.Strings\<close>).
\<close>

section \<open>Lemma collections\<close>

named_theorems tab_simps \<open>equations of table updates and lookups\<close>
named_theorems frame_simps \<open>which tables an operation leaves alone\<close>
named_theorems repo_defs \<open>definitions of the repository operations\<close>

section \<open>Type names\<close>

text \<open>Instants and durations are nanosecond counts; a nullable timestamp is an option.\<close>

type_synonym time = int
type_synonym duration = int
type_synonym uid = string

section \<open>Results\<close>

text \<open>A Go function that returns a value and an error is a sum, \<open>Inl\<close> the error.\<close>

definition bindR :: "'e + 'a \<Rightarrow> ('a \<Rightarrow> 'e + 'b) \<Rightarrow> 'e + 'b" where
  "bindR m k = (case m of Inl e \<Rightarrow> Inl e | Inr x \<Rightarrow> k x)"

lemma bindR_simps [simp]:
  "bindR (Inl e) k = Inl e" "bindR (Inr x) k = k x"
  by (simp_all add: bindR_def)

lemma bindR_Inr_iff: "bindR m k = Inr y \<longleftrightarrow> (\<exists>x. m = Inr x \<and> k x = Inr y)"
  by (cases m) auto

fun foldR :: "('a \<Rightarrow> 's \<Rightarrow> 'e + 's) \<Rightarrow> 'a list \<Rightarrow> 's \<Rightarrow> 'e + 's" where
  "foldR f [] s = Inr s"
| "foldR f (x # xs) s = bindR (f x s) (foldR f xs)"

lemma foldR_append: "foldR f (xs @ ys) s = bindR (foldR f xs s) (foldR f ys)"
  by (induction xs arbitrary: s) (auto simp: bindR_def split: sum.splits)

lemma foldR_cong [fundef_cong]:
  "xs = ys \<Longrightarrow> (\<And>x s. x \<in> set ys \<Longrightarrow> f x s = g x s) \<Longrightarrow> s = t \<Longrightarrow> foldR f xs s = foldR g ys t"
proof (induction ys arbitrary: xs s t)
  case (Cons y ys)
  have "foldR f ys u = foldR g ys u" for u
    by (rule Cons.IH) (simp_all add: Cons.prems(2))
  then have "foldR f ys = foldR g ys" by (rule ext)
  with Cons.prems show ?case by simp
qed simp

lemma foldR_invariant:
  "foldR f xs s = Inr t \<Longrightarrow> I s \<Longrightarrow>
   (\<And>x s s'. x \<in> set xs \<Longrightarrow> I s \<Longrightarrow> f x s = Inr s' \<Longrightarrow> I s') \<Longrightarrow> I t"
proof (induction xs arbitrary: s)
  case (Cons x xs)
  from Cons.prems(1) obtain s' where s': "f x s = Inr s'" "foldR f xs s' = Inr t" by (auto simp: bindR_Inr_iff)
  have "I s'" using Cons.prems(3) [OF _ Cons.prems(2) s'(1)] by simp
  with s'(2) show ?case by (rule Cons.IH) (use Cons.prems(3) in auto)
qed simp

text \<open>A check that returns no value: every element passes it.\<close>

lemma foldR_unit_iff: "foldR (\<lambda>x _. f x) xs u = Inr () \<longleftrightarrow> (\<forall>x \<in> set xs. f x = Inr ())"
  by (induction xs arbitrary: u) (auto simp: bindR_Inr_iff)

section \<open>Tables\<close>

text \<open>
  A table is the list of its rows. \<open>update_where p f\<close> is
  \<open>UPDATE t SET f WHERE p\<close>, \<open>count_where p\<close> its number of affected rows,
  \<open>first_where p\<close> is \<open>SELECT ... LIMIT 1\<close>.
\<close>

definition update_where :: "('r \<Rightarrow> bool) \<Rightarrow> ('r \<Rightarrow> 'r) \<Rightarrow> 'r list \<Rightarrow> 'r list" where
  "update_where p f t = map (\<lambda>r. if p r then f r else r) t"

definition count_where :: "('r \<Rightarrow> bool) \<Rightarrow> 'r list \<Rightarrow> nat" where
  "count_where p t = length (filter p t)"

definition first_where :: "('r \<Rightarrow> bool) \<Rightarrow> 'r list \<Rightarrow> 'r option" where
  "first_where p t = find p t"

lemma update_where_Nil [tab_simps, simp]: "update_where p f [] = []"
  by (simp add: update_where_def)

lemma update_where_Cons [tab_simps]:
  "update_where p f (r # t) = (if p r then f r else r) # update_where p f t"
  by (simp add: update_where_def)

lemma length_update_where [tab_simps, simp]: "length (update_where p f t) = length t"
  by (simp add: update_where_def)

lemma set_update_where: "set (update_where p f t) = (\<lambda>r. if p r then f r else r) ` set t"
  by (auto simp: update_where_def)

lemma map_update_where_key:
  "(\<And>r. p r \<Longrightarrow> k (f r) = k r) \<Longrightarrow> map k (update_where p f t) = map k t"
  by (induction t) (auto simp: update_where_Cons)

lemma update_where_none:
  "(\<And>r. r \<in> set t \<Longrightarrow> \<not> p r) \<Longrightarrow> update_where p f t = t"
  by (induction t) (auto simp: update_where_Cons)

lemma count_where_0_iff: "count_where p t = 0 \<longleftrightarrow> (\<forall>r \<in> set t. \<not> p r)"
  by (auto simp: count_where_def filter_empty_conv)

lemma count_where_pos: "r \<in> set t \<Longrightarrow> p r \<Longrightarrow> count_where p t \<noteq> 0"
  by (auto simp: count_where_0_iff)

lemma first_where_Nil [tab_simps, simp]: "first_where p [] = None"
  by (simp add: first_where_def)

lemma first_where_Cons [tab_simps]:
  "first_where p (r # t) = (if p r then Some r else first_where p t)"
  by (simp add: first_where_def)

lemma first_where_SomeD: "first_where p t = Some r \<Longrightarrow> r \<in> set t \<and> p r"
  by (auto simp: first_where_def find_Some_iff)

lemma first_where_None_iff: "first_where p t = None \<longleftrightarrow> (\<forall>r \<in> set t. \<not> p r)"
  by (auto simp: first_where_def find_None_iff)

text \<open>Rows found by primary key.\<close>

definition by_key :: "('r \<Rightarrow> uid) \<Rightarrow> uid \<Rightarrow> 'r list \<Rightarrow> 'r option" where
  "by_key k x t = first_where (\<lambda>r. k r = x) t"

lemma by_key_Nil [tab_simps, simp]: "by_key k x [] = None"
  by (simp add: by_key_def)

lemma by_key_Cons [tab_simps]: "by_key k x (r # t) = (if k r = x then Some r else by_key k x t)"
  by (simp add: by_key_def first_where_Cons)

lemma by_key_SomeD: "by_key k x t = Some r \<Longrightarrow> r \<in> set t \<and> k r = x"
  by (auto simp: by_key_def dest: first_where_SomeD)

lemma by_key_None_iff: "by_key k x t = None \<longleftrightarrow> x \<notin> k ` set t"
  by (auto simp: by_key_def first_where_None_iff)

lemma by_key_distinct: "distinct (map k t) \<Longrightarrow> r \<in> set t \<Longrightarrow> by_key k (k r) t = Some r"
  by (induction t) (auto simp: by_key_Cons image_iff)

lemma by_key_iff: "distinct (map k t) \<Longrightarrow> by_key k x t = Some r \<longleftrightarrow> r \<in> set t \<and> k r = x"
  by (metis by_key_SomeD by_key_distinct)

lemma by_key_update_where:
  assumes "\<And>r. p r \<Longrightarrow> k (f r) = k r"
  shows "by_key k x (update_where p f t) =
    map_option (\<lambda>r. if p r then f r else r) (by_key k x t)"
  by (induction t) (auto simp: tab_simps assms)

text \<open>A fenced update names one row by key, so it touches at most that row.\<close>

lemma update_where_key_other:
  assumes "\<And>r. p r \<Longrightarrow> k r = x" "\<And>r. p r \<Longrightarrow> k (f r) = k r" "y \<noteq> x"
  shows "by_key k y (update_where p f t) = by_key k y t"
  using assms by (induction t) (auto simp: tab_simps)

lemma count_where_by_key:
  assumes "distinct (map k t)" "\<And>r. p r \<Longrightarrow> k r = x"
  shows "count_where p t = (case by_key k x t of None \<Rightarrow> 0 | Some r \<Rightarrow> if p r then 1 else 0)"
  using assms(1)
proof (induction t)
  case Nil
  then show ?case by (simp add: count_where_def)
next
  case (Cons r t)
  have none: "count_where p t = 0" if "k r = x"
  proof -
    have "\<not> p r'" if "r' \<in> set t" for r'
    proof
      assume "p r'"
      then have "k r' = k r" using assms(2) \<open>k r = x\<close> by simp
      moreover have "k r \<notin> k ` set t" using Cons.prems by simp
      ultimately show False using that by (metis imageI)
    qed
    then show ?thesis by (simp add: count_where_0_iff)
  qed
  show ?case
    using Cons none assms(2) by (auto simp: count_where_def by_key_Cons)
qed

section \<open>Ordered output\<close>

text \<open>
  \<open>ORDER BY\<close> with ties left in table order; \<open>sort.Strings\<close> of a duplicate-free
  key set.
\<close>

definition order_by :: "('r \<Rightarrow> 'k::linorder) \<Rightarrow> 'r list \<Rightarrow> 'r list" where
  "order_by k t = sort_key k t"

lemma set_order_by [simp]: "set (order_by k t) = set t"
  by (simp add: order_by_def)

lemma length_order_by [simp]: "length (order_by k t) = length t"
  by (simp add: order_by_def)

lemma sorted_order_by: "sorted (map k (order_by k t))"
  by (simp add: order_by_def)

definition sort_strings :: "string list \<Rightarrow> string list" where
  "sort_strings xs = sort xs"

lemma set_sort_strings [simp]: "set (sort_strings xs) = set xs"
  by (simp add: sort_strings_def)

lemma distinct_sort_strings [simp]: "distinct (sort_strings xs) = distinct xs"
  by (simp add: sort_strings_def)

lemma sorted_sort_strings [simp]: "sorted (sort_strings xs)"
  by (simp add: sort_strings_def)

section \<open>Strings\<close>

text \<open>\<open>strings.Split(s, sep)\<close> for a one-character separator: never empty.\<close>

fun split_on :: "char \<Rightarrow> string \<Rightarrow> string list" where
  "split_on c [] = [[]]"
| "split_on c (x # xs) =
     (if x = c then [] # split_on c xs
      else case split_on c xs of [] \<Rightarrow> [[x]] | p # ps \<Rightarrow> (x # p) # ps)"

text \<open>\<open>strings.Join(parts, sep)\<close> for a one-character separator.\<close>

fun join_with :: "char \<Rightarrow> string list \<Rightarrow> string" where
  "join_with c [] = []"
| "join_with c [p] = p"
| "join_with c (p # ps) = p @ c # join_with c ps"

lemma split_on_nonempty [simp]: "split_on c s \<noteq> []"
  by (induction s) (auto split: list.splits)

lemma split_on_no_sep: "c \<notin> set s \<Longrightarrow> split_on c s = [s]"
  by (induction s) auto

lemma split_on_append_sep:
  "c \<notin> set p \<Longrightarrow> split_on c (p @ c # s) = p # split_on c s"
  by (induction p) auto

lemma split_on_join:
  "ps \<noteq> [] \<Longrightarrow> (\<And>p. p \<in> set ps \<Longrightarrow> c \<notin> set p) \<Longrightarrow> split_on c (join_with c ps) = ps"
proof (induction c ps rule: join_with.induct)
  case (1 c)
  then show ?case by simp
next
  case (2 c p)
  then show ?case by (simp add: split_on_no_sep)
next
  case (3 c p q ps)
  then show ?case by (simp add: split_on_append_sep)
qed

lemma join_with_snoc: "ps \<noteq> [] \<Longrightarrow> join_with c (ps @ [p]) = join_with c ps @ c # p"
  by (induction c ps rule: join_with.induct) auto

text \<open>White space as \<open>strings.TrimSpace\<close> sees it in one-byte characters.\<close>

definition is_space :: "char \<Rightarrow> bool" where
  "is_space c \<longleftrightarrow> c \<in> {CHR '' '', CHR 0x09, CHR 0x0A, CHR 0x0B, CHR 0x0C, CHR 0x0D}"

definition trim_space :: "string \<Rightarrow> string" where
  "trim_space s = rev (dropWhile is_space (rev (dropWhile is_space s)))"

lemma trim_space_Nil [simp]: "trim_space [] = []"
  by (simp add: trim_space_def)

text \<open>\<open>fmt\<close>'s \<open>%q\<close> on printable text.\<close>

definition quoted :: "string \<Rightarrow> string" where
  "quoted s = CHR 0x22 # concat (map (\<lambda>c. if c = CHR 0x22 \<or> c = CHR 0x5C then [CHR 0x5C, c] else [c]) s) @ [CHR 0x22]"

text \<open>\<open>strings.HasPrefix\<close>, and \<open>strings.ReplaceAll\<close> for a non-empty pattern.\<close>

fun has_prefix :: "string \<Rightarrow> string \<Rightarrow> bool" where
  "has_prefix s [] = True"
| "has_prefix [] (y # ys) = False"
| "has_prefix (x # xs) (y # ys) = (x = y \<and> has_prefix xs ys)"

lemma has_prefix_iff: "has_prefix s p \<longleftrightarrow> (\<exists>t. s = p @ t)"
  by (induction s p rule: has_prefix.induct) auto

fun replace_all :: "string \<Rightarrow> string \<Rightarrow> string \<Rightarrow> string" where
  "replace_all [] old new = []"
| "replace_all (x # xs) old new =
     (if old \<noteq> [] \<and> has_prefix (x # xs) old
      then new @ replace_all (drop (length old - 1) xs) old new
      else x # replace_all xs old new)"

text \<open>\<open>strings.Contains\<close>.\<close>

fun contains_sub :: "string \<Rightarrow> string \<Rightarrow> bool" where
  "contains_sub [] p = (p = [])"
| "contains_sub (x # xs) p = (has_prefix (x # xs) p \<or> contains_sub xs p)"

lemma contains_sub_iff: "contains_sub s p \<longleftrightarrow> (\<exists>a b. s = a @ p @ b)"
proof (induction s)
  case Nil
  then show ?case by auto
next
  case (Cons x xs)
  show ?case
  proof
    assume "contains_sub (x # xs) p"
    then show "\<exists>a b. x # xs = a @ p @ b"
    proof (cases "has_prefix (x # xs) p")
      case True
      then obtain t where "x # xs = p @ t" by (auto simp: has_prefix_iff)
      then have "x # xs = [] @ p @ t" by simp
      then show ?thesis by blast
    next
      case False
      with \<open>contains_sub (x # xs) p\<close> Cons.IH obtain a b where "xs = a @ p @ b" by auto
      then have "x # xs = (x # a) @ p @ b" by simp
      then show ?thesis by blast
    qed
  next
    assume "\<exists>a b. x # xs = a @ p @ b"
    then obtain a b where ab: "x # xs = a @ p @ b" by blast
    show "contains_sub (x # xs) p"
    proof (cases a)
      case Nil
      with ab have "has_prefix (x # xs) p" by (auto simp: has_prefix_iff)
      then show ?thesis by simp
    next
      case (Cons y ys)
      with ab have "xs = ys @ p @ b" by simp
      with Cons.IH show ?thesis by auto
    qed
  qed
qed

lemma replace_all_absent: "\<not> contains_sub s old \<Longrightarrow> replace_all s old new = s"
  by (induction s old new rule: replace_all.induct) auto

end
