(* ===== verification/Status.thy ===== *)
theory Status
  imports Prelude
begin

text \<open>
  The lifecycle statuses: \<open>internal/workflow/model/status.go\<close> and the parallel
  statuses at the end of \<open>internal/workflow/model/parallel.go\<close>. The Go types are
  strings with named constants; the model has a datatype per type and the stored
  string of every constant. \<open>Valid*\<close> is the check on an arbitrary string.
\<close>

section \<open>Workflow instances\<close>

datatype WorkflowStatus =
    WorkflowWaiting | WorkflowRunning | WorkflowPaused | WorkflowFinished | WorkflowFailed | WorkflowStopped

fun workflow_str :: "WorkflowStatus \<Rightarrow> string" where
  "workflow_str WorkflowWaiting = ''waiting''"
| "workflow_str WorkflowRunning = ''running''"
| "workflow_str WorkflowPaused = ''paused''"
| "workflow_str WorkflowFinished = ''finished''"
| "workflow_str WorkflowFailed = ''failed''"
| "workflow_str WorkflowStopped = ''stopped''"

definition ValidWorkflowStatus :: "string \<Rightarrow> bool" where
  "ValidWorkflowStatus s \<longleftrightarrow>
     s \<in> {''waiting'', ''running'', ''paused'', ''finished'', ''failed'', ''stopped''}"

fun CanWorkflowTransition :: "WorkflowStatus \<Rightarrow> WorkflowStatus \<Rightarrow> bool" where
  "CanWorkflowTransition WorkflowWaiting to \<longleftrightarrow>
     to = WorkflowRunning \<or> to = WorkflowPaused \<or> to = WorkflowStopped"
| "CanWorkflowTransition WorkflowRunning to \<longleftrightarrow>
     to = WorkflowWaiting \<or> to = WorkflowPaused \<or> to = WorkflowStopped \<or>
     to = WorkflowFinished \<or> to = WorkflowFailed"
| "CanWorkflowTransition WorkflowPaused to \<longleftrightarrow> to = WorkflowWaiting \<or> to = WorkflowStopped"
| "CanWorkflowTransition _ to \<longleftrightarrow> False"

definition terminal_workflow :: "WorkflowStatus \<Rightarrow> bool" where
  "terminal_workflow s \<longleftrightarrow> s \<in> {WorkflowFinished, WorkflowFailed, WorkflowStopped}"

section \<open>Nodes\<close>

datatype NodeStatus = NodeWaiting | NodeRunning | NodeFinished | NodeFailed | NodeStopped

fun node_str :: "NodeStatus \<Rightarrow> string" where
  "node_str NodeWaiting = ''waiting''"
| "node_str NodeRunning = ''running''"
| "node_str NodeFinished = ''finished''"
| "node_str NodeFailed = ''failed''"
| "node_str NodeStopped = ''stopped''"

definition ValidNodeStatus :: "string \<Rightarrow> bool" where
  "ValidNodeStatus s \<longleftrightarrow> s \<in> {''waiting'', ''running'', ''finished'', ''failed'', ''stopped''}"

fun CanNodeTransition :: "NodeStatus \<Rightarrow> NodeStatus \<Rightarrow> bool" where
  "CanNodeTransition NodeWaiting to \<longleftrightarrow> to = NodeRunning \<or> to = NodeStopped"
| "CanNodeTransition NodeRunning to \<longleftrightarrow> to = NodeFinished \<or> to = NodeFailed \<or> to = NodeStopped"
| "CanNodeTransition _ to \<longleftrightarrow> False"

definition terminal_node :: "NodeStatus \<Rightarrow> bool" where
  "terminal_node s \<longleftrightarrow> s \<in> {NodeFinished, NodeFailed, NodeStopped}"

section \<open>Waiting reasons\<close>

datatype WaitingReason =
    ReasonRunnable | ReasonInput | ReasonParallel | ReasonPaused | ReasonDelay

fun reason_str :: "WaitingReason \<Rightarrow> string" where
  "reason_str ReasonRunnable = []"
| "reason_str ReasonInput = ''input''"
| "reason_str ReasonParallel = ''parallel''"
| "reason_str ReasonPaused = ''paused''"
| "reason_str ReasonDelay = ''delay''"

definition ValidWaitingReason :: "string \<Rightarrow> bool" where
  "ValidWaitingReason r \<longleftrightarrow>
     r = [] \<or> r = ''input'' \<or> r = ''parallel'' \<or> r = ''paused'' \<or> r = ''delay''"

section \<open>Parallel executions and branches\<close>

datatype ParallelExecutionStatus =
    ParallelWaitingForBranches | ParallelReadyToJoin | ParallelExecutionCompleted
  | ParallelExecutionFailed | ParallelExecutionCancelled

fun execution_str :: "ParallelExecutionStatus \<Rightarrow> string" where
  "execution_str ParallelWaitingForBranches = ''waiting_for_branches''"
| "execution_str ParallelReadyToJoin = ''ready_to_join''"
| "execution_str ParallelExecutionCompleted = ''completed''"
| "execution_str ParallelExecutionFailed = ''failed''"
| "execution_str ParallelExecutionCancelled = ''cancelled''"

definition ValidParallelExecutionStatus :: "string \<Rightarrow> bool" where
  "ValidParallelExecutionStatus s \<longleftrightarrow>
     s \<in> {''waiting_for_branches'', ''ready_to_join'', ''completed'', ''failed'', ''cancelled''}"

fun CanParallelExecutionTransition ::
  "ParallelExecutionStatus \<Rightarrow> ParallelExecutionStatus \<Rightarrow> bool" where
  "CanParallelExecutionTransition ParallelWaitingForBranches to \<longleftrightarrow>
     to = ParallelReadyToJoin \<or> to = ParallelExecutionFailed \<or> to = ParallelExecutionCancelled"
| "CanParallelExecutionTransition ParallelReadyToJoin to \<longleftrightarrow>
     to = ParallelExecutionCompleted \<or> to = ParallelExecutionFailed \<or> to = ParallelExecutionCancelled"
| "CanParallelExecutionTransition _ to \<longleftrightarrow> False"

definition terminal_execution :: "ParallelExecutionStatus \<Rightarrow> bool" where
  "terminal_execution s \<longleftrightarrow>
     s \<in> {ParallelExecutionCompleted, ParallelExecutionFailed, ParallelExecutionCancelled}"

datatype ParallelBranchStatus =
    BranchPending | BranchRunning | BranchWaiting | BranchCompleted | BranchFailed | BranchCancelled

fun branch_str :: "ParallelBranchStatus \<Rightarrow> string" where
  "branch_str BranchPending = ''pending''"
| "branch_str BranchRunning = ''running''"
| "branch_str BranchWaiting = ''waiting''"
| "branch_str BranchCompleted = ''completed''"
| "branch_str BranchFailed = ''failed''"
| "branch_str BranchCancelled = ''cancelled''"

definition ValidParallelBranchStatus :: "string \<Rightarrow> bool" where
  "ValidParallelBranchStatus s \<longleftrightarrow>
     s \<in> {''pending'', ''running'', ''waiting'', ''completed'', ''failed'', ''cancelled''}"

fun CanParallelBranchTransition :: "ParallelBranchStatus \<Rightarrow> ParallelBranchStatus \<Rightarrow> bool" where
  "CanParallelBranchTransition BranchPending to \<longleftrightarrow>
     to = BranchRunning \<or> to = BranchFailed \<or> to = BranchCancelled"
| "CanParallelBranchTransition BranchRunning to \<longleftrightarrow>
     to = BranchWaiting \<or> to = BranchCompleted \<or> to = BranchFailed \<or> to = BranchCancelled"
| "CanParallelBranchTransition BranchWaiting to \<longleftrightarrow>
     to = BranchRunning \<or> to = BranchFailed \<or> to = BranchCancelled"
| "CanParallelBranchTransition _ to \<longleftrightarrow> False"

definition terminal_branch :: "ParallelBranchStatus \<Rightarrow> bool" where
  "terminal_branch s \<longleftrightarrow> s \<in> {BranchCompleted, BranchFailed, BranchCancelled}"

section \<open>What the four tables share\<close>

text \<open>
  A lifecycle: terminal statuses have no successor, every other status has a
  terminal successor, and no status is its own successor. A chain of allowed
  transitions that starts in a terminal status is empty.
\<close>

locale lifecycle =
  fixes can :: "'s \<Rightarrow> 's \<Rightarrow> bool" and terminal :: "'s \<Rightarrow> bool"
  assumes stuck: "terminal s \<Longrightarrow> \<not> can s t"
    and live: "\<not> terminal s \<Longrightarrow> \<exists>t. can s t \<and> terminal t"
    and irrefl: "\<not> can s s"
begin

lemma terminal_iff: "terminal s \<longleftrightarrow> (\<forall>t. \<not> can s t)"
  using stuck live by blast

lemma terminal_forever: "can\<^sup>*\<^sup>* s t \<Longrightarrow> terminal s \<Longrightarrow> t = s"
  by (induction rule: converse_rtranclp_induct) (auto simp: stuck)

lemma first_terminal_wins:
  "can\<^sup>*\<^sup>* s t \<Longrightarrow> terminal t \<Longrightarrow> can\<^sup>*\<^sup>* t u \<Longrightarrow> u = t"
  using terminal_forever by blast

end

interpretation workflow: lifecycle CanWorkflowTransition terminal_workflow
proof
  fix s t
  show "terminal_workflow s \<Longrightarrow> \<not> CanWorkflowTransition s t"
    by (cases s) (auto simp: terminal_workflow_def)
  show "\<not> terminal_workflow s \<Longrightarrow> \<exists>t. CanWorkflowTransition s t \<and> terminal_workflow t"
    by (cases s) (auto simp: terminal_workflow_def)
  show "\<not> CanWorkflowTransition s s" by (cases s) auto
qed

interpretation node: lifecycle CanNodeTransition terminal_node
proof
  fix s t
  show "terminal_node s \<Longrightarrow> \<not> CanNodeTransition s t"
    by (cases s) (auto simp: terminal_node_def)
  show "\<not> terminal_node s \<Longrightarrow> \<exists>t. CanNodeTransition s t \<and> terminal_node t"
    by (cases s) (auto simp: terminal_node_def)
  show "\<not> CanNodeTransition s s" by (cases s) auto
qed

interpretation execution: lifecycle CanParallelExecutionTransition terminal_execution
proof
  fix s t
  show "terminal_execution s \<Longrightarrow> \<not> CanParallelExecutionTransition s t"
    by (cases s) (auto simp: terminal_execution_def)
  show "\<not> terminal_execution s \<Longrightarrow> \<exists>t. CanParallelExecutionTransition s t \<and> terminal_execution t"
    by (cases s) (auto simp: terminal_execution_def)
  show "\<not> CanParallelExecutionTransition s s" by (cases s) auto
qed

interpretation branch: lifecycle CanParallelBranchTransition terminal_branch
proof
  fix s t
  show "terminal_branch s \<Longrightarrow> \<not> CanParallelBranchTransition s t"
    by (cases s) (auto simp: terminal_branch_def)
  show "\<not> terminal_branch s \<Longrightarrow> \<exists>t. CanParallelBranchTransition s t \<and> terminal_branch t"
    by (cases s) (auto simp: terminal_branch_def)
  show "\<not> CanParallelBranchTransition s s" by (cases s) auto
qed

section \<open>Stored strings\<close>

lemma workflow_str_inj: "workflow_str s = workflow_str t \<longleftrightarrow> s = t"
  by (cases s; cases t) auto

lemma node_str_inj: "node_str s = node_str t \<longleftrightarrow> s = t"
  by (cases s; cases t) auto

lemma reason_str_inj: "reason_str s = reason_str t \<longleftrightarrow> s = t"
  by (cases s; cases t) auto

lemma execution_str_inj: "execution_str s = execution_str t \<longleftrightarrow> s = t"
  by (cases s; cases t) auto

lemma branch_str_inj: "branch_str s = branch_str t \<longleftrightarrow> s = t"
  by (cases s; cases t) auto

lemma ValidWorkflowStatus_iff: "ValidWorkflowStatus x \<longleftrightarrow> (\<exists>s. x = workflow_str s)"
proof
  assume "ValidWorkflowStatus x"
  then show "\<exists>s. x = workflow_str s"
    unfolding ValidWorkflowStatus_def by (metis empty_iff insert_iff workflow_str.simps)
next
  assume "\<exists>s. x = workflow_str s"
  then obtain s where "x = workflow_str s" ..
  then show "ValidWorkflowStatus x" by (cases s) (simp_all add: ValidWorkflowStatus_def)
qed

lemma ValidNodeStatus_iff: "ValidNodeStatus x \<longleftrightarrow> (\<exists>s. x = node_str s)"
proof
  assume "ValidNodeStatus x"
  then show "\<exists>s. x = node_str s"
    unfolding ValidNodeStatus_def by (metis empty_iff insert_iff node_str.simps)
next
  assume "\<exists>s. x = node_str s"
  then obtain s where "x = node_str s" ..
  then show "ValidNodeStatus x" by (cases s) (simp_all add: ValidNodeStatus_def)
qed

lemma ValidWaitingReason_iff: "ValidWaitingReason x \<longleftrightarrow> (\<exists>s. x = reason_str s)"
proof
  assume "ValidWaitingReason x"
  then show "\<exists>s. x = reason_str s"
    unfolding ValidWaitingReason_def by (metis reason_str.simps)
next
  assume "\<exists>s. x = reason_str s"
  then obtain s where "x = reason_str s" ..
  then show "ValidWaitingReason x" by (cases s) (simp_all add: ValidWaitingReason_def)
qed

lemma ValidParallelExecutionStatus_iff:
  "ValidParallelExecutionStatus x \<longleftrightarrow> (\<exists>s. x = execution_str s)"
proof
  assume "ValidParallelExecutionStatus x"
  then show "\<exists>s. x = execution_str s"
    unfolding ValidParallelExecutionStatus_def by (metis empty_iff insert_iff execution_str.simps)
next
  assume "\<exists>s. x = execution_str s"
  then obtain s where "x = execution_str s" ..
  then show "ValidParallelExecutionStatus x" by (cases s) (simp_all add: ValidParallelExecutionStatus_def)
qed

lemma ValidParallelBranchStatus_iff:
  "ValidParallelBranchStatus x \<longleftrightarrow> (\<exists>s. x = branch_str s)"
proof
  assume "ValidParallelBranchStatus x"
  then show "\<exists>s. x = branch_str s"
    unfolding ValidParallelBranchStatus_def by (metis empty_iff insert_iff branch_str.simps)
next
  assume "\<exists>s. x = branch_str s"
  then obtain s where "x = branch_str s" ..
  then show "ValidParallelBranchStatus x" by (cases s) (simp_all add: ValidParallelBranchStatus_def)
qed

end
