(* ===== verification/Json.thy ===== *)
theory Json
  imports Prelude
begin

text \<open>
  Decoded JSON values as the Go code handles them (\<open>any\<close> after
  \<open>json.Unmarshal\<close>), and Go maps with string keys. A Go map has no order; it is
  kept as an association list with strictly ascending keys, the order
  \<open>json.Marshal\<close> writes and \<open>sort.Strings\<close> gives, so that equal maps are equal
  lists. \<open>JUnsupported\<close> is a Go value \<open>json.Marshal\<close> rejects (a NaN, a function).
  Integral numbers are \<open>JInt\<close>; any other number is \<open>JDec\<close> with the text
  \<open>json.Marshal\<close> prints for it.
\<close>

section \<open>Values\<close>

datatype json =
    JNull
  | JBool bool
  | JInt int
  | JDec string
  | JStr string
  | JArr "json list"
  | JObj "(string \<times> json) list"
  | JUnsupported

type_synonym gomap = "(string \<times> json) list"

text \<open>A byte string that is empty (\<open>None\<close>) or holds one JSON document.\<close>

type_synonym raw = "json option"

text \<open>\<open>jsonCol(raw, fallback)\<close> of the mappers.\<close>

definition jsonCol :: "raw \<Rightarrow> json \<Rightarrow> raw" where
  "jsonCol r fallback = (case r of None \<Rightarrow> Some fallback | Some j \<Rightarrow> Some j)"

lemma jsonCol_simps [simp]: "jsonCol None j = Some j" "jsonCol (Some i) j = Some i"
  by (simp_all add: jsonCol_def)

section \<open>Maps\<close>

abbreviation keys_of :: "(string \<times> 'v) list \<Rightarrow> string list" where
  "keys_of m \<equiv> map fst m"

definition wf_map :: "(string \<times> 'v) list \<Rightarrow> bool" where
  "wf_map m \<longleftrightarrow> sorted_wrt (<) (keys_of m)"

fun map_put :: "string \<Rightarrow> 'v \<Rightarrow> (string \<times> 'v) list \<Rightarrow> (string \<times> 'v) list" where
  "map_put k v [] = [(k, v)]"
| "map_put k v ((k', v') # m) =
     (if k < k' then (k, v) # (k', v') # m
      else if k = k' then (k, v) # m
      else (k', v') # map_put k v m)"

definition map_del :: "string \<Rightarrow> (string \<times> 'v) list \<Rightarrow> (string \<times> 'v) list" where
  "map_del k m = filter (\<lambda>(k', _). k' \<noteq> k) m"

lemma wf_map_Nil [simp]: "wf_map []"
  by (simp add: wf_map_def)

lemma wf_map_Cons [simp]: "wf_map ((k, v) # m) \<longleftrightarrow> (\<forall>k' \<in> set (keys_of m). k < k') \<and> wf_map m"
  by (auto simp: wf_map_def)

lemma wf_map_distinct: "wf_map m \<Longrightarrow> distinct (keys_of m)"
  by (simp add: wf_map_def strict_sorted_iff)

lemma set_keys_map_put [simp]: "set (keys_of (map_put k v m)) = insert k (set (keys_of m))"
  by (induction k v m rule: map_put.induct) auto

lemma fst_set_map_put [simp]: "fst ` set (map_put k v m) = insert k (fst ` set m)"
  using set_keys_map_put [of k v m] by simp

lemma wf_map_put [simp]: "wf_map m \<Longrightarrow> wf_map (map_put k v m)"
  by (induction k v m rule: map_put.induct) (auto simp: not_less_iff_gr_or_eq)

lemma map_of_map_put [simp]: "wf_map m \<Longrightarrow> map_of (map_put k v m) = (map_of m)(k \<mapsto> v)"
proof (induction k v m rule: map_put.induct)
  case (1 k v)
  then show ?case by (simp add: fun_eq_iff)
next
  case (2 k v k' v' m)
  then show ?case by (cases "k < k'"; cases "k = k'") (auto simp: fun_eq_iff)
qed

lemma wf_map_del [simp]: "wf_map m \<Longrightarrow> wf_map (map_del k m)"
  by (induction m) (auto simp: map_del_def)

lemma map_of_map_del [simp]: "map_of (map_del k m) = (map_of m)(k := None)"
  by (induction m) (auto simp: map_del_def fun_eq_iff)

lemma map_of_None_keys: "map_of m k = None \<longleftrightarrow> k \<notin> set (keys_of m)"
  by (simp add: map_of_eq_None_iff)

text \<open>Two well-formed maps with the same bindings are the same list.\<close>

lemma wf_map_ext:
  assumes "wf_map m" "wf_map n" "map_of m = map_of n"
  shows "m = n"
proof -
  have "dom (map_of m) = dom (map_of n)" using assms(3) by simp
  then have "set (keys_of m) = set (keys_of n)"
    by (simp add: dom_map_of_conv_image_fst)
  moreover have "sorted (keys_of m)" "sorted (keys_of n)" "distinct (keys_of m)" "distinct (keys_of n)"
    using assms(1,2) by (simp_all add: wf_map_def strict_sorted_iff)
  ultimately have keys: "keys_of m = keys_of n" by (simp add: sorted_distinct_set_unique)
  have "map snd m = map snd n"
  proof (rule nth_equalityI)
    show len: "length (map snd m) = length (map snd n)"
      using arg_cong [OF keys, of length] by simp
    fix i assume i: "i < length (map snd m)"
    then have im: "i < length m" and "i < length n" using len by auto
    have "map_of m (fst (m ! i)) = Some (snd (m ! i))"
      using im wf_map_distinct [OF assms(1)] by simp
    moreover have "map_of n (fst (n ! i)) = Some (snd (n ! i))"
      using \<open>i < length n\<close> wf_map_distinct [OF assms(2)] by simp
    moreover have "fst (m ! i) = fst (n ! i)"
      using keys im \<open>i < length n\<close> by (metis nth_map)
    ultimately show "map snd m ! i = map snd n ! i"
      using assms(3) im \<open>i < length n\<close> by simp
  qed
  with keys show ?thesis by (metis zip_map_fst_snd)
qed

section \<open>Well-formed and serializable values\<close>

fun wf_json :: "json \<Rightarrow> bool" where
  "wf_json (JArr xs) = list_all wf_json xs"
| "wf_json (JObj m) = (wf_map m \<and> list_all (\<lambda>(k, v). wf_json v) m)"
| "wf_json j = True"

fun json_clean :: "json \<Rightarrow> bool" where
  "json_clean (JArr xs) = list_all json_clean xs"
| "json_clean (JObj m) = list_all (\<lambda>(k, v). json_clean v) m"
| "json_clean JUnsupported = False"
| "json_clean j = True"

abbreviation wf_ctx :: "gomap \<Rightarrow> bool" where
  "wf_ctx m \<equiv> wf_json (JObj m)"

abbreviation clean_ctx :: "gomap \<Rightarrow> bool" where
  "clean_ctx m \<equiv> json_clean (JObj m)"

lemma wf_ctx_lookup: "wf_ctx m \<Longrightarrow> map_of m k = Some v \<Longrightarrow> wf_json v"
  by (force simp: list_all_iff dest: map_of_SomeD)

lemma clean_ctx_lookup: "clean_ctx m \<Longrightarrow> map_of m k = Some v \<Longrightarrow> json_clean v"
  by (force simp: list_all_iff dest: map_of_SomeD)

lemma set_map_put_subset: "set (map_put k v m) \<subseteq> insert (k, v) (set m)"
  by (induction k v m rule: map_put.induct) auto

lemma wf_ctx_put: "wf_ctx m \<Longrightarrow> wf_json v \<Longrightarrow> wf_ctx (map_put k v m)"
  using set_map_put_subset [of k v m] by (fastforce simp: list_all_iff)

lemma clean_ctx_put: "clean_ctx m \<Longrightarrow> json_clean v \<Longrightarrow> clean_ctx (map_put k v m)"
  using set_map_put_subset [of k v m] by (fastforce simp: list_all_iff)

lemma wf_ctx_del: "wf_ctx m \<Longrightarrow> wf_ctx (map_del k m)"
  by (auto simp: list_all_iff map_del_def intro: wf_map_del [unfolded map_del_def])

lemma size_lookup: "map_of m k = Some v \<Longrightarrow> size v < size (JObj m)"
proof -
  assume "map_of m k = Some v"
  then have "(k, v) \<in> set m" by (rule map_of_SomeD)
  then have "size v < Suc (size_list (size_prod (\<lambda>_. 0) size) m)"
    by (induction m) auto
  then show ?thesis by simp
qed

text \<open>
  \<open>json.Marshal\<close> on a value: the bytes, or an error on a value it cannot encode.
  The document it writes is the value itself, so \<open>json.Unmarshal\<close> reads it back.
\<close>

definition marshal :: "json \<Rightarrow> string + raw" where
  "marshal v = (if json_clean v then Inr (Some v) else Inl ''value is not JSON-serializable'')"

lemma marshal_Inr_iff: "marshal v = Inr r \<longleftrightarrow> json_clean v \<and> r = Some v"
  by (auto simp: marshal_def)

end
