(* ===== verification/ContextPath.thy ===== *)
theory ContextPath
  imports Json
begin

text \<open>
  \<open>pkg/contextpath/contextpath.go\<close>: parsing of relative paths such as
  \<open>user.items[0]\<close> and reading and writing of values at them. A segment is a map
  key or an array index. \<open>Set\<close> mutates nested maps in place, so on an error the
  model also returns the value with the maps it had created by then.
\<close>

section \<open>Paths\<close>

datatype segment = SKey string | SIndex nat

datatype path_error =
    EmptyPath
  | EmptySegment string
  | InvalidSegment string string
  | InvalidIndex string string
  | PathNotFound string
  | NotArray string
  | NotMap
  | IndexOutOfRange nat nat
  | CannotDescend

definition is_word :: "char \<Rightarrow> bool" where
  "is_word c \<longleftrightarrow> (let n = of_char c :: nat in
     65 \<le> n \<and> n \<le> 90 \<or> 97 \<le> n \<and> n \<le> 122 \<or> 48 \<le> n \<and> n \<le> 57 \<or> n = 95)"

definition is_digit :: "char \<Rightarrow> bool" where
  "is_digit c \<longleftrightarrow> (let n = of_char c :: nat in 48 \<le> n \<and> n \<le> 57)"

text \<open>\<open>keyRe\<close>: one or more word characters.\<close>

definition ValidKey :: "string \<Rightarrow> bool" where
  "ValidKey s \<longleftrightarrow> s \<noteq> [] \<and> list_all is_word s"

text \<open>\<open>tokenRe\<close>: a key, optionally followed by one bracketed decimal index.\<close>

definition match_token :: "string \<Rightarrow> (string \<times> string option) option" where
  "match_token s =
     (let k = takeWhile is_word s; r = dropWhile is_word s
      in if k = [] then None
         else case r of
           [] \<Rightarrow> Some (k, None)
         | c # r' \<Rightarrow>
             if c = CHR ''['' then
               (let d = takeWhile is_digit r'; e = dropWhile is_digit r'
                in if d \<noteq> [] \<and> e = '']'' then Some (k, Some d) else None)
             else None)"

definition nat_of_digits :: "string \<Rightarrow> nat" where
  "nat_of_digits s = foldl (\<lambda>n c. 10 * n + (of_char c - 48)) 0 s"

text \<open>\<open>strconv.Atoi\<close> on digits: an error past the 64-bit signed range.\<close>

definition atoi :: "string \<Rightarrow> nat option" where
  "atoi s = (let n = nat_of_digits s in if n < 2 ^ 63 then Some n else None)"

fun parse_parts :: "string \<Rightarrow> string list \<Rightarrow> path_error + segment list" where
  "parse_parts path [] = Inr []"
| "parse_parts path (part # parts) =
     (if part = [] then Inl (EmptySegment path)
      else case match_token part of
        None \<Rightarrow> Inl (InvalidSegment part path)
      | Some (k, None) \<Rightarrow> bindR (parse_parts path parts) (\<lambda>out. Inr (SKey k # out))
      | Some (k, Some d) \<Rightarrow>
          (case atoi d of
            None \<Rightarrow> Inl (InvalidIndex d path)
          | Some i \<Rightarrow> bindR (parse_parts path parts) (\<lambda>out. Inr (SKey k # SIndex i # out))))"

definition Parse :: "string \<Rightarrow> path_error + segment list" where
  "Parse path =
     (if trim_space path = [] then Inl EmptyPath
      else parse_parts path (split_on CHR ''.'' path))"

section \<open>Reading\<close>

fun getPath :: "json \<Rightarrow> segment list \<Rightarrow> path_error + json" where
  "getPath v [] = Inr v"
| "getPath (JObj m) (SIndex i # p) = Inl (PathNotFound ''not an array'')"
| "getPath (JObj m) (SKey k # p) =
     (case map_of m k of None \<Rightarrow> Inl (PathNotFound k) | Some next \<Rightarrow> getPath next p)"
| "getPath (JArr xs) (SKey k # p) = Inl (PathNotFound k)"
| "getPath (JArr xs) (SIndex i # p) =
     (if i < length xs then getPath (xs ! i) p else Inl (PathNotFound ''out of range''))"
| "getPath v (s # p) = Inl (PathNotFound ''cannot descend'')"

text \<open>
  \<open>Get\<close>: a path into the reserved \<open>env\<close> root that names a denied variable is
  refused as missing. \<open>denied\<close> is \<open>envsnapshot.IsDenied\<close> with the operator's
  startup patterns.
\<close>

definition Get :: "(string \<Rightarrow> bool) \<Rightarrow> gomap \<Rightarrow> string \<Rightarrow> path_error + json" where
  "Get denied ctx path =
     bindR (Parse path) (\<lambda>p.
       case p of
         SKey r # SKey k # rest \<Rightarrow>
           if r = ''env'' \<and> denied k then Inl (PathNotFound k) else getPath (JObj ctx) p
       | _ \<Rightarrow> getPath (JObj ctx) p)"

section \<open>Writing\<close>

primrec setPath :: "segment list \<Rightarrow> json \<Rightarrow> json \<Rightarrow> json \<times> path_error option" where
  "setPath [] val v = (v, Some EmptyPath)"
| "setPath (seg # p) val v =
     (case v of
        JObj m \<Rightarrow>
          (case seg of
             SIndex i \<Rightarrow> (v, Some (NotArray ''index''))
           | SKey k \<Rightarrow>
               (if p = [] then (JObj (map_put k val m), None)
                else
                  let next = (case map_of m k of
                                Some n \<Rightarrow> n
                              | None \<Rightarrow> (case p of
                                    SIndex i # _ \<Rightarrow> JArr (replicate (i + 1) JNull)
                                  | _ \<Rightarrow> JObj []));
                      r = setPath p val next
                  in (JObj (map_put k (fst r) m), snd r)))
      | JArr xs \<Rightarrow>
          (case seg of
             SKey k \<Rightarrow> (v, Some NotMap)
           | SIndex i \<Rightarrow>
               (if length xs \<le> i then (v, Some (IndexOutOfRange i (length xs)))
                else if p = [] then (JArr (xs[i := val]), None)
                else let r = setPath p val (xs ! i) in (JArr (xs[i := fst r]), snd r)))
      | _ \<Rightarrow> (v, Some CannotDescend))"

definition Set :: "gomap \<Rightarrow> string \<Rightarrow> json \<Rightarrow> json \<times> path_error option" where
  "Set ctx path val =
     (case Parse path of
        Inl e \<Rightarrow> (JObj ctx, Some e)
      | Inr p \<Rightarrow> setPath p val (JObj ctx))"

section \<open>Lemmas\<close>

lemma is_word_dot: "\<not> is_word CHR ''.''"
  by (simp add: is_word_def Let_def)

lemma is_word_not_space: "is_word c \<Longrightarrow> \<not> is_space c"
  by (auto simp: is_word_def is_space_def Let_def)

lemma ValidKey_no_dot: "ValidKey k \<Longrightarrow> CHR ''.'' \<notin> set k"
  using is_word_dot by (auto simp: ValidKey_def list_all_iff)

lemma ValidKey_nonempty: "ValidKey k \<Longrightarrow> k \<noteq> []"
  by (simp add: ValidKey_def)

lemma match_token_key: "ValidKey k \<Longrightarrow> match_token k = Some (k, None)"
proof -
  assume "ValidKey k"
  then have w: "\<forall>x \<in> set k. is_word x" and "k \<noteq> []"
    by (auto simp: ValidKey_def list_all_iff)
  from w have "takeWhile is_word k = k" "dropWhile is_word k = []"
    by (simp_all add: takeWhile_eq_all_conv dropWhile_eq_Nil_conv)
  then show ?thesis using \<open>k \<noteq> []\<close> unfolding match_token_def Let_def by (simp only:) simp
qed

lemma parse_parts_keys:
  "list_all ValidKey ks \<Longrightarrow> parse_parts path ks = Inr (map SKey ks)"
  by (induction ks) (auto simp: match_token_key dest: ValidKey_nonempty)

lemma trim_space_word:
  assumes "s \<noteq> []" "is_word (hd s)"
  shows "trim_space s \<noteq> []"
proof -
  have "dropWhile is_space s = s"
    using assms is_word_not_space by (cases s) auto
  moreover have "\<exists>x \<in> set (rev s). \<not> is_space x"
    using assms is_word_not_space by (cases s) auto
  then have "dropWhile is_space (rev s) \<noteq> []" by (simp add: dropWhile_eq_Nil_conv)
  ultimately show ?thesis by (simp add: trim_space_def)
qed

lemma hd_join_with: "ps \<noteq> [] \<Longrightarrow> hd ps \<noteq> [] \<Longrightarrow> hd (join_with c ps) = hd (hd ps)"
  by (induction c ps rule: join_with.induct) auto

lemma join_with_nonempty: "ps \<noteq> [] \<Longrightarrow> hd ps \<noteq> [] \<Longrightarrow> join_with c ps \<noteq> []"
  by (induction c ps rule: join_with.induct) auto

text \<open>Printing a list of valid keys with dots and parsing it gives the keys back.\<close>

lemma Parse_join:
  assumes "ks \<noteq> []" "list_all ValidKey ks"
  shows "Parse (join_with CHR ''.'' ks) = Inr (map SKey ks)"
proof -
  have k: "hd ks \<noteq> []" "is_word (hd (hd ks))"
    using assms by (cases ks; cases "hd ks"; auto simp: ValidKey_def)+
  then have "trim_space (join_with CHR ''.'' ks) \<noteq> []"
    using assms(1) by (intro trim_space_word join_with_nonempty) (simp_all add: hd_join_with)
  moreover have "split_on CHR ''.'' (join_with CHR ''.'' ks) = ks"
    using assms ValidKey_no_dot by (intro split_on_join) (auto simp: list_all_iff)
  ultimately show ?thesis using assms(2) by (simp add: Parse_def parse_parts_keys)
qed

text \<open>A token that matches starts with a valid key.\<close>

lemma match_token_SomeD: "match_token s = Some (k, d) \<Longrightarrow> ValidKey k"
  by (auto simp: match_token_def Let_def ValidKey_def list_all_iff
      dest: set_takeWhileD split: if_splits list.splits)

text \<open>What is written can be read back (along a path that parses).\<close>

lemma getPath_setPath:
  "snd (setPath p val v) = None \<Longrightarrow> wf_json v \<Longrightarrow> getPath (fst (setPath p val v)) p = Inr val"
proof (induction p arbitrary: v)
  case Nil
  then show ?case by simp
next
  case (Cons seg p)
  show ?case
  proof (cases v)
    case (JObj m)
    with Cons.prems obtain k where seg: "seg = SKey k" by (cases seg) auto
    define n where "n = (case map_of m k of Some n \<Rightarrow> n
        | None \<Rightarrow> (case p of SIndex i # _ \<Rightarrow> JArr (replicate (i + 1) JNull) | _ \<Rightarrow> JObj []))"
    have wfm: "wf_map m" using Cons.prems(2) JObj by simp
    show ?thesis
    proof (cases "p = []")
      case True
      with JObj seg wfm show ?thesis by simp
    next
      case False
      have "wf_json n"
        using Cons.prems(2) JObj wf_ctx_lookup [of m k]
        by (auto simp: n_def list_all_iff split: option.splits list.splits segment.splits)
      moreover have "snd (setPath p val n) = None"
        using Cons.prems(1) JObj seg False by (simp add: n_def Let_def)
      ultimately have "getPath (fst (setPath p val n)) p = Inr val" by (rule Cons.IH [rotated])
      with JObj seg False wfm show ?thesis by (simp add: n_def Let_def)
    qed
  next
    case (JArr xs)
    with Cons.prems obtain i where seg: "seg = SIndex i" by (cases seg) auto
    with Cons.prems JArr have i: "i < length xs" by (auto split: if_splits)
    show ?thesis
    proof (cases "p = []")
      case True
      with JArr seg i show ?thesis by simp
    next
      case False
      have "wf_json (xs ! i)" using Cons.prems(2) JArr i by (simp add: list_all_length)
      moreover have "snd (setPath p val (xs ! i)) = None"
        using Cons.prems(1) JArr seg False i by (simp add: Let_def)
      ultimately have "getPath (fst (setPath p val (xs ! i))) p = Inr val"
        by (rule Cons.IH [rotated])
      with JArr seg False i show ?thesis by (simp add: Let_def)
    qed
  qed (use Cons.prems in auto)
qed

lemma setPath_keys_existing:
  "map_of m k = Some n \<Longrightarrow> p \<noteq> [] \<Longrightarrow>
   setPath (SKey k # p) val (JObj m) =
     (JObj (map_put k (fst (setPath p val n)) m), snd (setPath p val n))"
  by (simp add: Let_def)

section \<open>Properties\<close>

text \<open>
  Writing a value at a path and reading the same path back returns the value,
  for every path that \<open>Set\<close> accepts (missing maps and arrays created on the way
  included), unless the path names a denied variable of the reserved \<open>env\<close> root.
\<close>

theorem Get_Set:
  assumes set: "Set ctx path val = (JObj ctx', None)"
    and wf: "wf_ctx ctx"
    and env: "\<And>k rest. Parse path = Inr (SKey ''env'' # SKey k # rest) \<Longrightarrow> \<not> denied k"
  shows "Get denied ctx' path = Inr val"
proof -
  obtain p where p: "Parse path = Inr p"
    using set by (cases "Parse path") (auto simp: Set_def)
  with set have "setPath p val (JObj ctx) = (JObj ctx', None)" by (simp add: Set_def)
  with wf getPath_setPath [of p val "JObj ctx"] have "getPath (JObj ctx') p = Inr val" by simp
  with p env show ?thesis by (auto simp: Get_def split: list.splits segment.splits)
qed

lemma Parse_a_b: "Parse ''a.b'' = Inr [SKey ''a'', SKey ''b'']"
  using Parse_join [of "[''a'', ''b'']"] by (simp add: ValidKey_def is_word_def Let_def)

lemma Get_Set_witness:
  "Get (\<lambda>k. k = ''TOKEN'') [(''a'', JObj [(''b'', JInt 1)])] ''a.b'' = Inr (JInt 1)"
proof (rule Get_Set [where ctx = "[]"])
  show "Set [] ''a.b'' (JInt 1) = (JObj [(''a'', JObj [(''b'', JInt 1)])], None)"
    by (simp add: Set_def Parse_a_b Let_def)
qed (simp_all add: Parse_a_b)

end
