(* ===== verification/ContextDiff.thy ===== *)
theory ContextDiff
  imports ContextPath "HOL-Library.Multiset"
begin

text \<open>
  \<open>pkg/contextdiff/diff.go\<close>: \<open>DiffMaps\<close> computes the changes between two
  contexts as values to set at dotted paths and paths to unset, \<open>Apply\<close> replays
  them. \<open>Set\<close> is a Go map from path to the marshalled value; the model keeps the
  value, with the check that it can be marshalled.
\<close>

section \<open>The diff and its computation\<close>

record diff =
  d_set :: gomap
  d_unset :: "string list"

datatype diff_error =
    AmbiguousKey string
  | InvalidKey string
  | MarshalFailed string
  | UnsetMissing string
  | UnsetFailed string
  | SetFailed string path_error
  | DiffPath path_error
  | CloneFailed
  | TopLevelNotKey string
  | NullDiff

definition plainTopLevelKey :: "string \<Rightarrow> bool" where
  "plainTopLevelKey key \<longleftrightarrow> list_all (\<lambda>c. c \<noteq> CHR ''.'' \<and> c \<noteq> CHR ''['' \<and> c \<noteq> CHR '']'') key"

definition jsonEqual :: "json \<Rightarrow> json \<Rightarrow> bool" where
  "jsonEqual l r \<longleftrightarrow> json_clean l \<and> json_clean r \<and> l = r"

definition union_keys :: "gomap \<Rightarrow> gomap \<Rightarrow> string list" where
  "union_keys b a = sort_strings (remdups (keys_of b @ keys_of a))"

lemma size_option_lookup:
  "size_option size (map_of (m :: gomap) k) < Suc (Suc (size_list (size_prod (\<lambda>_. 0) size) m))"
  using size_lookup [of m k] by (cases "map_of m k") auto

function (sequential)
  diffValue :: "diff \<Rightarrow> string \<Rightarrow> json option \<Rightarrow> json option \<Rightarrow> diff_error + diff"
  and diffKeys :: "diff \<Rightarrow> string \<Rightarrow> gomap \<Rightarrow> gomap \<Rightarrow> string list \<Rightarrow> diff_error + diff" where
  "diffValue d path before None = Inr (d\<lparr>d_unset := d_unset d @ [path]\<rparr>)"
| "diffValue d path (Some (JObj b)) (Some (JObj a)) = diffKeys d path b a (union_keys b a)"
| "diffValue d path before (Some after) =
     (if before \<noteq> None \<and> jsonEqual (the before) after then Inr d
      else if json_clean after then Inr (d\<lparr>d_set := map_put path after (d_set d)\<rparr>)
      else Inl (MarshalFailed path))"
| "diffKeys d path b a [] = Inr d"
| "diffKeys d path b a (key # ks) =
     (if \<not> ValidKey key then Inl (InvalidKey key)
      else bindR (diffValue d (path @ ''.'' @ key) (map_of b key) (map_of a key))
        (\<lambda>d'. diffKeys d' path b a ks))"
  by pat_completeness auto
termination
  by (relation "measures
    [case_sum (\<lambda>(d, p, b, a). size_option size a) (\<lambda>(d, p, b, a, ks). size_option size (Some (JObj a))),
     case_sum (\<lambda>_. 1) (\<lambda>_. 0),
     case_sum (\<lambda>_. 0) (\<lambda>(d, p, b, a, ks). length ks)]") (auto simp: size_option_lookup)

fun diffTop :: "gomap \<Rightarrow> gomap \<Rightarrow> string list \<Rightarrow> diff \<Rightarrow> diff_error + diff" where
  "diffTop before after [] d = Inr d"
| "diffTop before after (key # ks) d =
     (if \<not> plainTopLevelKey key then Inl (AmbiguousKey key)
      else bindR (diffValue d key (map_of before key) (map_of after key)) (diffTop before after ks))"

definition DiffMaps :: "gomap \<Rightarrow> gomap \<Rightarrow> diff_error + diff" where
  "DiffMaps before after =
     bindR (diffTop before after (union_keys before after) \<lparr>d_set = [], d_unset = []\<rparr>)
       (\<lambda>d. Inr (d\<lparr>d_unset := sort_strings (d_unset d)\<rparr>))"

section \<open>Replay\<close>

fun deleteParsed :: "json \<Rightarrow> segment list \<Rightarrow> diff_error + json" where
  "deleteParsed v [] = Inl (UnsetFailed ''empty unset path'')"
| "deleteParsed (JObj m) (SIndex i # p) = Inl (UnsetFailed ''not an array'')"
| "deleteParsed (JObj m) (SKey k # p) =
     (case map_of m k of
        None \<Rightarrow> Inl (UnsetMissing k)
      | Some next \<Rightarrow>
          if p = [] then Inr (JObj (map_del k m))
          else bindR (deleteParsed next p) (\<lambda>n. Inr (JObj (map_put k n m))))"
| "deleteParsed (JArr xs) (SKey k # p) = Inl (UnsetFailed ''not a map'')"
| "deleteParsed (JArr xs) (SIndex i # p) =
     (if length xs \<le> i then Inl (UnsetMissing ''out of range'')
      else if p = [] then Inl (UnsetFailed ''cannot unset array element'')
      else bindR (deleteParsed (xs ! i) p) (\<lambda>n. Inr (JArr (xs[i := n]))))"
| "deleteParsed v p = Inl (UnsetMissing ''cannot descend'')"

definition as_map :: "json \<Rightarrow> gomap" where
  "as_map v = (case v of JObj m \<Rightarrow> m | _ \<Rightarrow> [])"

definition deletePath :: "string \<Rightarrow> gomap \<Rightarrow> diff_error + gomap" where
  "deletePath path ctx =
     (if plainTopLevelKey path then
        (if map_of ctx path = None then Inl (UnsetMissing path) else Inr (map_del path ctx))
      else case Parse path of
        Inl e \<Rightarrow> Inl (DiffPath e)
      | Inr p \<Rightarrow>
          (if p = [] then Inl (UnsetFailed ''empty unset path'')
           else bindR (deleteParsed (JObj ctx) p) (\<lambda>v. Inr (as_map v))))"

definition setNested :: "gomap \<Rightarrow> string \<Rightarrow> json \<Rightarrow> diff_error + gomap" where
  "setNested ctx path v =
     (case Parse path of
        Inl e \<Rightarrow> Inl (SetFailed path e)
      | Inr p \<Rightarrow>
          (case p of
             SIndex i # _ \<Rightarrow> Inl (TopLevelNotKey path)
           | _ \<Rightarrow>
               (case ContextPath.Set ctx path v of
                  (_, Some e) \<Rightarrow> Inl (SetFailed path e)
                | (ctx', None) \<Rightarrow> Inr (as_map ctx'))))"

definition applySet :: "string \<times> json \<Rightarrow> gomap \<Rightarrow> diff_error + gomap" where
  "applySet pv out =
     (if plainTopLevelKey (fst pv) then Inr (map_put (fst pv) (snd pv) out)
      else setNested out (fst pv) (snd pv))"

definition cloneMap :: "gomap \<Rightarrow> diff_error + gomap" where
  "cloneMap base = (if json_clean (JObj base) then Inr base else Inl CloneFailed)"

definition Apply :: "gomap \<Rightarrow> diff \<Rightarrow> diff_error + gomap" where
  "Apply base d =
     bindR (cloneMap base) (\<lambda>out.
     bindR (foldR deletePath (d_unset d) out) (foldR applySet (d_set d)))"

definition Empty :: "diff \<Rightarrow> bool" where
  "Empty d \<longleftrightarrow> d_set d = [] \<and> d_unset d = []"

section \<open>Edits\<close>

text \<open>
  The abstract content of a diff: a list of edits, each a non-empty list of keys with
  \<open>Some v\<close> to set or \<open>None\<close> to unset. \<open>edits b a\<close> is the specification of
  \<open>DiffMaps\<close>; \<open>run_edits\<close> applies edits in list order.
\<close>

type_synonym edit = "string list \<times> json option"

fun edit_at :: "string list \<Rightarrow> json option \<Rightarrow> gomap \<Rightarrow> gomap option" where
  "edit_at [] e m = None"
| "edit_at [k] (Some v) m = Some (map_put k v m)"
| "edit_at [k] None m = (if map_of m k = None then None else Some (map_del k m))"
| "edit_at (k # p) e m =
     (case map_of m k of
        Some (JObj m') \<Rightarrow> map_option (\<lambda>n. map_put k (JObj n) m) (edit_at p e m')
      | _ \<Rightarrow> None)"

fun run_edits :: "edit list \<Rightarrow> gomap \<Rightarrow> gomap option" where
  "run_edits [] m = Some m"
| "run_edits ((p, e) # es) m = Option.bind (edit_at p e m) (run_edits es)"

definition sub_edits :: "string \<Rightarrow> edit list \<Rightarrow> edit list" where
  "sub_edits k es = map (\<lambda>(p, e). (tl p, e)) (filter (\<lambda>(p, e). p \<noteq> [] \<and> hd p = k) es)"

lemma sub_edits_simps [simp]:
  "sub_edits k [] = []"
  "sub_edits k ((j # p, e) # es) = (if j = k then (p, e) # sub_edits k es else sub_edits k es)"
  "sub_edits k (es @ fs) = sub_edits k es @ sub_edits k fs"
  by (auto simp: sub_edits_def)

lemma edit_at_wf: "wf_map m \<Longrightarrow> edit_at p e m = Some n \<Longrightarrow> wf_map n"
  by (induction p e m rule: edit_at.induct)
    (auto split: if_splits option.splits json.splits)

lemma edit_at_other:
  "wf_map m \<Longrightarrow> edit_at (k # p) e m = Some n \<Longrightarrow> j \<noteq> k \<Longrightarrow> map_of n j = map_of m j"
  by (cases p; cases e) (auto split: if_splits option.splits json.splits)

text \<open>
  What the value under \<open>k\<close> becomes, when the edits under \<open>k\<close> are one edit of
  \<open>k\<close> itself, or all go below an object.
\<close>

definition key_result :: "edit list \<Rightarrow> json option \<Rightarrow> json option option" where
  "key_result es v =
     (case es of
        [] \<Rightarrow> Some v
      | [([], Some w)] \<Rightarrow> Some (Some w)
      | [([], None)] \<Rightarrow> (if v = None then None else Some None)
      | _ \<Rightarrow> (case v of Some (JObj m) \<Rightarrow> map_option (\<lambda>n. Some (JObj n)) (run_edits es m) | _ \<Rightarrow> None))"

lemma key_result_step:
  assumes wf: "wf_map m"
    and kr: "key_result ((p, e) # es) (map_of m k) = Some w"
  shows "\<exists>n. edit_at (k # p) e m = Some n \<and> key_result es (map_of n k) = Some w"
proof (cases p)
  case Nil
  with kr have "es = []"
    by (auto simp: key_result_def split: list.splits option.splits json.splits)
  with Nil kr wf show ?thesis
    by (cases e) (auto simp: key_result_def split: if_splits)
next
  case (Cons q qs)
  with kr obtain m' n' where m': "map_of m k = Some (JObj m')"
    and run: "run_edits ((p, e) # es) m' = Some n'" and w: "w = Some (JObj n')"
    by (auto simp: key_result_def split: list.splits option.splits json.splits)
  from run obtain m'' where m'': "edit_at p e m' = Some m''" and rest: "run_edits es m'' = Some n'"
    by (auto simp: Option.bind_eq_Some_conv)
  have step: "edit_at (k # p) e m = Some (map_put k (JObj m'') m)"
    using Cons m' m'' by (cases e) auto
  have "key_result es (Some (JObj m'')) = Some w"
  proof (cases es)
    case Nil
    with rest w show ?thesis by (simp add: key_result_def)
  next
    case (Cons x xs)
    obtain p' e' where x: "x = (p', e')" by (cases x)
    from rest Cons x have "p' \<noteq> []" by (auto simp: Option.bind_eq_Some_conv)
    then obtain z zs where "p' = z # zs" by (cases p') auto
    with rest w Cons x show ?thesis by (simp add: key_result_def)
  qed
  with step wf show ?thesis by auto
qed

lemma run_edits_keys:
  assumes "wf_map m"
    and "\<And>p e. (p, e) \<in> set es \<Longrightarrow> p \<noteq> []"
    and "\<And>k. \<exists>w. key_result (sub_edits k es) (map_of m k) = Some w"
  shows "\<exists>n. run_edits es m = Some n \<and> wf_map n \<and>
    (\<forall>k. key_result (sub_edits k es) (map_of m k) = Some (map_of n k))"
  using assms
proof (induction es arbitrary: m)
  case Nil
  then show ?case by (simp add: key_result_def)
next
  case (Cons pe es)
  obtain k p e where pe: "pe = (k # p, e)"
    using Cons.prems(2) by (cases pe; cases "fst pe") fastforce+
  obtain w where w: "key_result (sub_edits k (pe # es)) (map_of m k) = Some w"
    using Cons.prems(3) by blast
  then obtain n where n: "edit_at (k # p) e m = Some n"
    and kn: "key_result (sub_edits k es) (map_of n k) = Some w"
    using key_result_step [OF Cons.prems(1), of p e "sub_edits k es" k w] pe by auto
  have wfn: "wf_map n" using edit_at_wf [OF Cons.prems(1) n] .
  have other: "map_of n j = map_of m j" if "j \<noteq> k" for j
    using edit_at_other [OF Cons.prems(1) n that] .
  have same: "key_result (sub_edits j (pe # es)) (map_of m j) = key_result (sub_edits j es) (map_of n j)" for j
    using w kn other pe by (cases "j = k") auto
  have "\<exists>r. run_edits es n = Some r \<and> wf_map r \<and>
      (\<forall>j. key_result (sub_edits j es) (map_of n j) = Some (map_of r j))"
  proof (rule Cons.IH [OF wfn])
    show "q \<noteq> []" if "(q, f) \<in> set es" for q f using Cons.prems(2) that by auto
    show "\<exists>w. key_result (sub_edits j es) (map_of n j) = Some w" for j
      using Cons.prems(3) [of j] same [of j] by simp
  qed
  with n pe same show ?case by auto
qed


function (sequential) edits :: "json option \<Rightarrow> json option \<Rightarrow> edit list" where
  "edits b None = [([], None)]"
| "edits (Some (JObj b)) (Some (JObj a)) =
     concat (map (\<lambda>k. map (\<lambda>(p, e). (k # p, e)) (edits (map_of b k) (map_of a k))) (union_keys b a))"
| "edits b (Some a) = (if b = Some a then [] else [([], Some a)])"
  by pat_completeness auto
termination
  by (relation "measure (\<lambda>(b, a). size_option size a)") (auto simp: size_option_lookup)

lemma set_union_keys [simp]: "set (union_keys b a) = set (keys_of b) \<union> set (keys_of a)"
  by (simp add: union_keys_def)

lemma distinct_union_keys [simp]: "distinct (union_keys b a)"
  by (simp add: union_keys_def)

lemma sub_edits_prefix:
  "sub_edits k (map (\<lambda>(p, e). (j # p, e)) es) = (if j = k then es else [])"
  by (induction es) auto

lemma sub_edits_concat:
  "distinct ks \<Longrightarrow>
   sub_edits k (concat (map (\<lambda>j. map (\<lambda>(p, e). (j # p, e)) (f j)) ks)) = (if k \<in> set ks then f k else [])"
  by (induction ks) (auto simp: sub_edits_prefix)

lemma mset_sub_edits:
  "mset es = mset fs \<Longrightarrow> mset (sub_edits k es) = mset (sub_edits k fs)"
  by (simp add: sub_edits_def)

lemma key_result_objects:
  assumes "run_edits es b = Some a" "\<And>p e. (p, e) \<in> set es \<Longrightarrow> p \<noteq> []"
  shows "key_result es (Some (JObj b)) = Some (Some (JObj a))"
proof (cases es)
  case Nil
  with assms(1) show ?thesis by (simp add: key_result_def)
next
  case (Cons x xs)
  obtain p e where x: "x = (p, e)" by (cases x)
  with assms(2) Cons obtain z zs where "p = z # zs" by (cases p) auto
  with assms(1) Cons x show ?thesis by (simp add: key_result_def)
qed

text \<open>The edits between two values turn the first into the second, in any order.\<close>

lemma edits_correct:
  assumes "mset es = mset (edits b a)" "b \<noteq> None \<or> a \<noteq> None"
    and "\<And>v. b = Some v \<Longrightarrow> wf_json v" "\<And>v. a = Some v \<Longrightarrow> wf_json v"
  shows "key_result es b = Some a"
  using assms
proof (induction b a arbitrary: es rule: edits.induct)
  case (1 b)
  then show ?case by (auto simp: key_result_def)
next
  case (2 b a)
  let ?E = "edits (Some (JObj b)) (Some (JObj a))"
  have wfb: "wf_ctx b" and wfa: "wf_ctx a" using "2.prems"(3,4) by auto
  have ne: "p \<noteq> []" if "(p, e) \<in> set es" for p e
  proof -
    have "(p, e) \<in> set ?E" using that "2.prems"(1) by (metis set_mset_mset)
    then show ?thesis by auto
  qed
  have kr: "key_result (sub_edits k es) (map_of b k) = Some (map_of a k)" for k
  proof (cases "k \<in> set (union_keys b a)")
    case True
    have "mset (sub_edits k es) = mset (edits (map_of b k) (map_of a k))"
      using mset_sub_edits [OF "2.prems"(1), of k] True by (simp add: sub_edits_concat)
    moreover have "map_of b k \<noteq> None \<or> map_of a k \<noteq> None"
      using True by (auto simp: map_of_None_keys)
    ultimately show ?thesis
      using "2.IH" [OF True] wf_ctx_lookup [OF wfb] wf_ctx_lookup [OF wfa] by blast
  next
    case False
    then have "mset (sub_edits k es) = {#}"
      using mset_sub_edits [OF "2.prems"(1), of k] by (simp add: sub_edits_concat)
    moreover have "map_of b k = None" "map_of a k = None"
      using False by (simp_all add: map_of_None_keys)
    ultimately show ?thesis by (simp add: key_result_def)
  qed
  obtain n where n: "run_edits es b = Some n" "wf_map n"
    and nk: "\<forall>k. key_result (sub_edits k es) (map_of b k) = Some (map_of n k)"
    using run_edits_keys [of b es] ne kr wfb by auto
  have "map_of n = map_of a" using nk kr by (auto simp: fun_eq_iff)
  then have "n = a" using n(2) wfa by (intro wf_map_ext) auto
  with n(1) ne show ?case by (intro key_result_objects) auto
qed (auto simp: key_result_def split: if_splits)

section \<open>Edits as path strings\<close>

fun push :: "diff \<Rightarrow> (string \<times> json option) list \<Rightarrow> diff" where
  "push d [] = d"
| "push d ((s, None) # r) = push (d\<lparr>d_unset := d_unset d @ [s]\<rparr>) r"
| "push d ((s, Some v) # r) = push (d\<lparr>d_set := map_put s v (d_set d)\<rparr>) r"

definition render :: "string \<Rightarrow> edit \<Rightarrow> string \<times> json option" where
  "render path pe = (foldl (\<lambda>s k. s @ ''.'' @ k) path (fst pe), snd pe)"

lemma push_append [simp]: "push d (xs @ ys) = push (push d xs) ys"
  by (induction d xs rule: push.induct) auto

lemma render_Cons: "render path (k # p, e) = render (path @ ''.'' @ k) (p, e)"
  by (simp add: render_def)

lemma render_prefix:
  "map (render path) (map (\<lambda>(p, e). (k # p, e)) es) = map (render (path @ ''.'' @ k)) es"
  by (auto simp: render_Cons)

lemma foldl_join: "foldl (\<lambda>s k. s @ ''.'' @ k) path p = join_with CHR ''.'' (path # p)"
proof (induction p rule: rev_induct)
  case Nil
  then show ?case by simp
next
  case (snoc x p)
  then show ?case using join_with_snoc [of "path # p" "CHR ''.''" x] by simp
qed

definition valid_edits :: "edit list \<Rightarrow> bool" where
  "valid_edits es \<longleftrightarrow> (\<forall>(p, e) \<in> set es. list_all ValidKey p)"

lemma valid_edits_simps [simp]:
  "valid_edits []" "valid_edits (es @ fs) \<longleftrightarrow> valid_edits es \<and> valid_edits fs"
  "valid_edits [([], e)]"
  "valid_edits (map (\<lambda>(p, e). (k # p, e)) es) \<longleftrightarrow> es = [] \<or> ValidKey k \<and> valid_edits es"
  by (cases es; force simp: valid_edits_def)+

text \<open>\<open>diffValue\<close> records exactly the edits, below the given path.\<close>

lemma diffValue_edits:
  "diffValue d path b a = Inr d' \<Longrightarrow> (\<And>v. b = Some v \<Longrightarrow> json_clean v) \<Longrightarrow>
     d' = push d (map (render path) (edits b a)) \<and> valid_edits (edits b a)"
  "diffKeys d path bo ao ks = Inr d' \<Longrightarrow> clean_ctx bo \<Longrightarrow>
     d' = push d (concat (map (\<lambda>k. map (render (path @ ''.'' @ k)) (edits (map_of bo k) (map_of ao k))) ks)) \<and>
     (\<forall>k \<in> set ks. ValidKey k \<and> valid_edits (edits (map_of bo k) (map_of ao k)))"
proof (induction d path b a and d path bo ao ks arbitrary: d' and d' rule: diffValue_diffKeys.induct)
  case (1 d path before)
  then show ?case by (auto simp: render_def)
next
  case (2 d path b a)
  have "clean_ctx b" using "2.prems"(2) by blast
  from "2.IH" [of d'] this "2.prems"(1)
  have d': "d' = push d (concat (map (\<lambda>k. map (render (path @ ''.'' @ k))
      (edits (map_of b k) (map_of a k))) (union_keys b a)))"
    and val: "\<forall>k \<in> set (union_keys b a). ValidKey k \<and> valid_edits (edits (map_of b k) (map_of a k))"
    by simp_all
  have "map (render path) (edits (Some (JObj b)) (Some (JObj a))) =
      concat (map (\<lambda>k. map (render (path @ ''.'' @ k)) (edits (map_of b k) (map_of a k))) (union_keys b a))"
    by (simp add: map_concat comp_def render_prefix [unfolded map_map comp_def])
  moreover have "valid_edits (edits (Some (JObj b)) (Some (JObj a)))"
    using val by (force simp: valid_edits_def)
  ultimately show ?case using d' by simp
next
  case (5 d path b a key ks)
  from "5.prems"(1) have v: "ValidKey key" by (auto split: if_splits)
  with "5.prems"(1) obtain d1 where d1: "diffValue d (path @ ''.'' @ key) (map_of b key) (map_of a key) = Inr d1"
    and rest: "diffKeys d1 path b a ks = Inr d'"
    by (auto simp: bindR_Inr_iff)
  from "5.IH"(1) [OF _ d1] v clean_ctx_lookup [OF "5.prems"(2)]
  have "d1 = push d (map (render (path @ ''.'' @ key)) (edits (map_of b key) (map_of a key)))"
    and "valid_edits (edits (map_of b key) (map_of a key))" by auto
  with "5.IH"(2) [OF _ rest "5.prems"(2)] v show ?case by simp
qed (auto simp: jsonEqual_def render_def split: if_splits)


lemma diffTop_edits:
  "diffTop b a ks d = Inr d' \<Longrightarrow> clean_ctx b \<Longrightarrow>
     d' = push d (concat (map (\<lambda>k. map (render k) (edits (map_of b k) (map_of a k))) ks)) \<and>
     (\<forall>k \<in> set ks. valid_edits (edits (map_of b k) (map_of a k)))"
proof (induction b a ks d rule: diffTop.induct)
  case (2 b a k ks d)
  then obtain d1 where d1: "diffValue d k (map_of b k) (map_of a k) = Inr d1"
    and rest: "diffTop b a ks d1 = Inr d'" by (auto simp: bindR_Inr_iff split: if_splits)
  have plain: "\<not> \<not> plainTopLevelKey k" using "2.prems"(1) by (auto split: if_splits)
  from diffValue_edits(1) [OF d1] clean_ctx_lookup [OF "2.prems"(2)]
  have "d1 = push d (map (render k) (edits (map_of b k) (map_of a k)))"
    and "valid_edits (edits (map_of b k) (map_of a k))" by auto
  with "2.IH" [OF plain rest "2.prems"(2)] show ?case by simp
qed simp

definition spell :: "edit \<Rightarrow> string \<times> json option" where
  "spell pe = (join_with CHR ''.'' (fst pe), snd pe)"

definition unspell :: "string \<times> json option \<Rightarrow> edit" where
  "unspell se = (split_on CHR ''.'' (fst se), snd se)"

lemma render_spell: "render k (p, e) = spell (k # p, e)"
  using foldl_join [of k p] by (simp add: render_def spell_def)

definition good_edit :: "edit \<Rightarrow> bool" where
  "good_edit pe \<longleftrightarrow> fst pe \<noteq> [] \<and> list_all ValidKey (fst pe)"

lemma unspell_spell: "good_edit pe \<Longrightarrow> unspell (spell pe) = pe"
  using ValidKey_no_dot
  by (cases pe) (auto simp: unspell_def spell_def good_edit_def list_all_iff intro!: split_on_join)

lemma map_unspell_spell: "list_all good_edit es \<Longrightarrow> map unspell (map spell es) = es"
  by (induction es) (auto simp: unspell_spell)

lemma map_fst_prefix: "map fst (map (\<lambda>(p, e). (k # p, e)) es) = map ((#) k) (map fst es)"
  by auto

lemma distinct_prefixed:
  "distinct ks \<Longrightarrow> (\<And>k. k \<in> set ks \<Longrightarrow> distinct (map fst (f k))) \<Longrightarrow>
   distinct (map fst (concat (map (\<lambda>k. map (\<lambda>(p, e). (k # p, e)) (f k)) ks)))"
proof (induction ks)
  case (Cons k ks)
  have "distinct (map ((#) k) (map fst (f k)))"
    using Cons.prems(2) [of k] by (simp only: distinct_map inj_on_def) auto
  moreover have "hd p = k" if "p \<in> set (map ((#) k) (map fst (f k)))" for p
    using that by auto
  moreover have "hd p \<in> set ks"
    if "p \<in> set (map fst (concat (map (\<lambda>k. map (\<lambda>(p, e). (k # p, e)) (f k)) ks)))" for p
    using that by auto
  ultimately show ?case
    using Cons.IH Cons.prems
    by (simp only: list.map concat.simps map_append distinct_append map_fst_prefix) fastforce
qed simp

lemma distinct_edits: "distinct (map fst (edits b a))"
proof (induction b a rule: edits.induct)
  case (2 b a)
  then show ?case unfolding edits.simps by (intro distinct_prefixed) auto
qed auto

lemma mset_map_put: "s \<notin> set (keys_of m) \<Longrightarrow> mset (map_put s v m) = add_mset (s, v) (mset m)"
  by (induction s v m rule: map_put.induct) auto

definition unset_entries :: "diff \<Rightarrow> (string \<times> json option) list" where
  "unset_entries d = map (\<lambda>s. (s, None)) (d_unset d)"

definition set_entries :: "diff \<Rightarrow> (string \<times> json option) list" where
  "set_entries d = map (\<lambda>(s, v). (s, Some v)) (d_set d)"

lemma fst_set_entries: "fst ` set (set_entries d) = set (keys_of (d_set d))"
  by (force simp: set_entries_def)

lemma mset_push:
  "distinct (map fst L) \<Longrightarrow> set (map fst L) \<inter> set (keys_of (d_set d)) = {} \<Longrightarrow>
   mset (unset_entries (push d L)) + mset (set_entries (push d L)) =
     mset (unset_entries d) + mset (set_entries d) + mset L"
proof (induction d L rule: push.induct)
  case (2 d s r)
  then show ?case by (simp add: unset_entries_def set_entries_def)
next
  case (3 d s v r)
  then have "s \<notin> set (keys_of (d_set d))" by simp
  then have "mset (set_entries (d\<lparr>d_set := map_put s v (d_set d)\<rparr>)) = add_mset (s, Some v) (mset (set_entries d))"
    by (simp add: set_entries_def mset_map_put)
  with 3 show ?case by (auto simp: unset_entries_def)
qed simp

text \<open>The string operations do what the edits do.\<close>

lemma plain_ValidKey: "ValidKey k \<Longrightarrow> plainTopLevelKey k"
  by (auto simp: ValidKey_def plainTopLevelKey_def list_all_iff is_word_def Let_def)

lemma plain_join: "good_edit (ks, e) \<Longrightarrow> plainTopLevelKey (join_with CHR ''.'' ks) \<longleftrightarrow> length ks = 1"
  by (cases "(CHR ''.'', ks)" rule: join_with.cases)
    (auto simp: good_edit_def plain_ValidKey, auto simp: plainTopLevelKey_def)

lemma edit_at_deep:
  "edit_at (k # q # qs) e m = Some n \<longleftrightarrow>
   (\<exists>m' n'. map_of m k = Some (JObj m') \<and> edit_at (q # qs) e m' = Some n' \<and> n = map_put k (JObj n') m)"
  by (auto split: option.splits json.splits)

lemma deleteParsed_edit:
  "edit_at ks None m = Some n \<Longrightarrow> deleteParsed (JObj m) (map SKey ks) = Inr (JObj n)"
proof (induction ks arbitrary: m n)
  case (Cons k ks)
  then show ?case
  proof (cases ks)
    case Nil
    with Cons.prems show ?thesis by (auto split: if_splits)
  next
    case (Cons q qs)
    with Cons.prems obtain m' n' where "map_of m k = Some (JObj m')"
      and e: "edit_at ks None m' = Some n'" and "n = map_put k (JObj n') m"
      using edit_at_deep by (metis (no_types))
    moreover have "deleteParsed (JObj m') (map SKey ks) = Inr (JObj n')" using Cons.IH [OF e] .
    ultimately show ?thesis using Cons by simp
  qed
qed simp

lemma setPath_edit:
  "edit_at ks (Some v) m = Some n \<Longrightarrow> setPath (map SKey ks) v (JObj m) = (JObj n, None)"
proof (induction ks arbitrary: m n)
  case (Cons k ks)
  then show ?case
  proof (cases ks)
    case Nil
    with Cons.prems show ?thesis by auto
  next
    case (Cons q qs)
    with Cons.prems obtain m' n' where "map_of m k = Some (JObj m')"
      and e: "edit_at ks (Some v) m' = Some n'" and "n = map_put k (JObj n') m"
      using edit_at_deep by (metis (no_types))
    moreover have "setPath (map SKey ks) v (JObj m') = (JObj n', None)" using Cons.IH [OF e] .
    ultimately show ?thesis using Cons by (simp add: Let_def)
  qed
qed simp

lemma deletePath_edit:
  assumes "good_edit (ks, None)" "edit_at ks None m = Some n"
  shows "deletePath (join_with CHR ''.'' ks) m = Inr n"
proof (cases "length ks = 1")
  case True
  then obtain k where "ks = [k]" by (auto simp: length_Suc_conv)
  with assms plain_join [OF assms(1)] show ?thesis by (auto simp: deletePath_def split: if_splits)
next
  case False
  with assms plain_join [OF assms(1)] Parse_join [of ks] deleteParsed_edit [OF assms(2)]
  show ?thesis by (simp add: deletePath_def good_edit_def as_map_def)
qed

lemma applySet_edit:
  assumes "good_edit (ks, Some v)" "edit_at ks (Some v) m = Some n"
  shows "applySet (join_with CHR ''.'' ks, v) m = Inr n"
proof (cases "length ks = 1")
  case True
  then obtain k where "ks = [k]" by (auto simp: length_Suc_conv)
  with assms plain_join [OF assms(1)] show ?thesis by (auto simp: applySet_def)
next
  case False
  obtain k ks' where "ks = k # ks'" using assms(1) by (cases ks) (auto simp: good_edit_def)
  with False assms plain_join [OF assms(1)] Parse_join [of ks] setPath_edit [OF assms(2)]
  show ?thesis
    by (simp add: applySet_def setNested_def good_edit_def as_map_def ContextPath.Set_def)
qed

lemma foldR_deletePath:
  "run_edits (map unspell (map (\<lambda>s. (s, None)) us)) m = Some n \<Longrightarrow>
   (\<And>s. s \<in> set us \<Longrightarrow> \<exists>ks. s = join_with CHR ''.'' ks \<and> good_edit (ks, None)) \<Longrightarrow>
   foldR deletePath us m = Inr n"
proof (induction us arbitrary: m)
  case (Cons s us)
  obtain ks where s: "s = join_with CHR ''.'' ks" and g: "good_edit (ks, None)"
    using Cons.prems(2) [of s] by auto
  have u: "unspell (s, None) = (ks, None)" using unspell_spell [OF g] s by (simp add: spell_def)
  with Cons.prems(1) obtain m1 where "edit_at ks None m = Some m1"
    and "run_edits (map unspell (map (\<lambda>s. (s, None)) us)) m1 = Some n"
    by (auto simp: Option.bind_eq_Some_conv)
  with Cons.IH [of m1] Cons.prems(2) deletePath_edit [OF g, of m m1] s show ?case by simp
qed simp

lemma foldR_applySet:
  "run_edits (map unspell (map (\<lambda>(s, v). (s, Some v)) ss)) m = Some n \<Longrightarrow>
   (\<And>s v. (s, v) \<in> set ss \<Longrightarrow> \<exists>ks. s = join_with CHR ''.'' ks \<and> good_edit (ks, Some v)) \<Longrightarrow>
   foldR applySet ss m = Inr n"
proof (induction ss arbitrary: m)
  case (Cons sv ss)
  obtain s v where sv: "sv = (s, v)" by (cases sv)
  obtain ks where s: "s = join_with CHR ''.'' ks" and g: "good_edit (ks, Some v)"
    using Cons.prems(2) [of s v] sv by auto
  have u: "unspell (s, Some v) = (ks, Some v)" using unspell_spell [OF g] s by (simp add: spell_def)
  with Cons.prems(1) sv obtain m1 where "edit_at ks (Some v) m = Some m1"
    and "run_edits (map unspell (map (\<lambda>(s, v). (s, Some v)) ss)) m1 = Some n"
    by (auto simp: Option.bind_eq_Some_conv)
  with Cons.IH [of m1] Cons.prems(2) applySet_edit [OF g, of m m1] s sv show ?case by simp
qed simp

lemma run_edits_append: "run_edits (xs @ ys) m = Option.bind (run_edits xs m) (run_edits ys)"
  by (induction xs arbitrary: m) (auto split: option.splits Option.bind_splits)


lemma map_render_spell:
  "map (render k) es = map spell (map (\<lambda>(p, e). (k # p, e)) es)"
  by (auto simp: render_spell)

lemma DiffMaps_edits:
  assumes diff: "DiffMaps b a = Inr d" and clean: "clean_ctx b"
    and keys: "list_all ValidKey (keys_of b)" "list_all ValidKey (keys_of a)"
  defines "E \<equiv> edits (Some (JObj b)) (Some (JObj a))"
  shows "list_all good_edit E"
    and "mset (unset_entries d) + mset (set_entries d) = mset (map spell E)"
proof -
  let ?d0 = "\<lparr>d_set = [], d_unset = []\<rparr>"
  let ?ks = "union_keys b a"
  obtain d1 where d1: "diffTop b a ?ks ?d0 = Inr d1" and d: "d = d1\<lparr>d_unset := sort_strings (d_unset d1)\<rparr>"
    using diff by (auto simp: DiffMaps_def bindR_Inr_iff)
  have push: "d1 = push ?d0 (concat (map (\<lambda>k. map (render k) (edits (map_of b k) (map_of a k))) ?ks))"
    and val: "\<forall>k \<in> set ?ks. valid_edits (edits (map_of b k) (map_of a k))"
    using diffTop_edits [OF d1 clean] by auto
  have E: "E = concat (map (\<lambda>k. map (\<lambda>(p, e). (k # p, e)) (edits (map_of b k) (map_of a k))) ?ks)"
    by (simp add: E_def)
  have vk: "ValidKey k" if "k \<in> set ?ks" for k using keys that by (auto simp: list_all_iff)
  show good: "list_all good_edit E"
    using vk val unfolding E list_all_iff good_edit_def valid_edits_def by force
  have L: "concat (map (\<lambda>k. map (render k) (edits (map_of b k) (map_of a k))) ?ks) = map spell E"
    unfolding E map_concat map_render_spell list.map_comp comp_def ..
  have "distinct (map fst E)" unfolding E_def by (rule distinct_edits)
  moreover have inj: "inj_on (join_with CHR ''.'') (set (map fst E))"
  proof (rule inj_onI)
    fix p q assume p: "p \<in> set (map fst E)" and q: "q \<in> set (map fst E)"
      and eq: "join_with CHR ''.'' p = join_with CHR ''.'' q"
    obtain e f where "(p, e) \<in> set E" "(q, f) \<in> set E" using p q by auto
    then have "good_edit (p, e)" "good_edit (q, e)" using good by (auto simp: list_all_iff good_edit_def)
    then show "p = q" using unspell_spell [of "(p, e)"] unspell_spell [of "(q, e)"] eq
      by (auto simp: spell_def unspell_def)
  qed
  ultimately have "distinct (map (join_with CHR ''.'') (map fst E))" by (simp only: distinct_map)
  then have "distinct (map fst (map spell E))" by (simp add: spell_def comp_def)
  then have "mset (unset_entries d1) + mset (set_entries d1) = mset (map spell E)"
    using mset_push [of "map spell E" ?d0] by (simp add: push L unset_entries_def set_entries_def)
  then show "mset (unset_entries d) + mset (set_entries d) = mset (map spell E)"
    by (simp add: d unset_entries_def set_entries_def sort_strings_def)
qed

lemma Apply_DiffMaps_eq:
  assumes diff: "DiffMaps b a = Inr d"
    and wf: "wf_ctx b" "wf_ctx a" and clean: "clean_ctx b"
    and keys: "list_all ValidKey (keys_of b)" "list_all ValidKey (keys_of a)"
  shows "Apply b d = Inr a"
proof -
  define E where "E = edits (Some (JObj b)) (Some (JObj a))"
  define S where "S = unset_entries d @ set_entries d"
  have good: "list_all good_edit E" and ms: "mset S = mset (map spell E)"
    using DiffMaps_edits [OF diff clean keys] by (simp_all add: E_def S_def)
  have img: "\<exists>pe \<in> set E. se = spell pe" if "se \<in> set S" for se
  proof -
    have "se \<in> set (map spell E)" using that ms by (metis set_mset_mset)
    then show ?thesis by auto
  qed
  have split: "\<exists>ks. fst se = join_with CHR ''.'' ks \<and> good_edit (ks, snd se)" if "se \<in> set S" for se
    using img [OF that] good by (auto simp: list_all_iff spell_def)
  have msE: "mset (map unspell S) = mset E"
  proof -
    have "mset (map unspell S) = image_mset unspell (mset (map spell E))" using ms by simp
    also have "\<dots> = mset E" using map_unspell_spell [OF good] by (simp flip: mset_map)
    finally show ?thesis .
  qed
  have kr: "key_result (map unspell S) (Some (JObj b)) = Some (Some (JObj a))"
    using edits_correct [OF msE [unfolded E_def]] wf by simp
  have "p \<noteq> []" if "(p, e) \<in> set (map unspell S)" for p e
  proof -
    have "(p, e) \<in> set E" using that msE by (metis set_mset_mset)
    then show ?thesis using good by (auto simp: list_all_iff good_edit_def)
  qed
  then have "run_edits (map unspell S) b = Some a"
    using kr by (auto simp: key_result_def split: list.splits option.splits)
  then obtain m where m: "run_edits (map unspell (unset_entries d)) b = Some m"
    and r: "run_edits (map unspell (set_entries d)) m = Some a"
    by (auto simp: S_def run_edits_append Option.bind_eq_Some_conv simp del: map_map)
  have "foldR deletePath (d_unset d) b = Inr m"
    using m split by (intro foldR_deletePath) (force simp: unset_entries_def S_def)+
  moreover have "foldR applySet (d_set d) m = Inr a"
    using r split by (intro foldR_applySet) (force simp: set_entries_def S_def)+
  ultimately show ?thesis using clean by (simp add: Apply_def cloneMap_def)
qed


section \<open>Properties\<close>


lemma DiffMaps_nested:
  "DiffMaps [(''a'', JObj [(''x'', JInt 1), (''y'', JInt 2)])] [(''a'', JObj [(''y'', JInt 3)]), (''b'', JNull)] =
     Inr \<lparr>d_set = [(''a.y'', JInt 3), (''b'', JNull)], d_unset = [''a.x'']\<rparr>"
  by code_simp


text \<open>
  The path-safety condition is needed: \<open>DiffMaps\<close> itself accepts a top-level key with a
  dash, as in a node identifier, and returns a diff with a path below it that \<open>Apply\<close> refuses.
\<close>

theorem Apply_DiffMaps_dashed_key:
  "\<exists>d e. DiffMaps [(''n-1'', JObj [(''x'', JInt 1)])] [(''n-1'', JObj [(''x'', JInt 2)])] = Inr d \<and>
     Apply [(''n-1'', JObj [(''x'', JInt 1)])] d = Inl e"
proof -
  have "DiffMaps [(''n-1'', JObj [(''x'', JInt 1)])] [(''n-1'', JObj [(''x'', JInt 2)])] =
      Inr \<lparr>d_set = [(''n-1.x'', JInt 2)], d_unset = []\<rparr>"
    by code_simp
  moreover have "Apply [(''n-1'', JObj [(''x'', JInt 1)])] \<lparr>d_set = [(''n-1.x'', JInt 2)], d_unset = []\<rparr> =
      Inl (SetFailed ''n-1.x'' (InvalidSegment ''n-1'' ''n-1.x''))"
    by code_simp
  ultimately show ?thesis by blast
qed

end
