(* ===== verification/Cursor.thy ===== *)
theory Cursor
  imports Json
begin

text \<open>
  \<open>internal/workflow/model/state.go\<close>: the durable execution cursor (\<open>Frame\<close>), the
  execution counters that limit cycles, and the engine-wide limits.
  \<open>contextmode.go\<close>: the optional context mode of a definition.

  Decoding follows \<open>json.Unmarshal\<close> into the struct: an absent or null field
  leaves the zero value, a value of another kind is an error, unknown keys are
  ignored. Keys are compared exactly (\<open>encoding/json\<close> also accepts another case
  of the same letters; the columns only hold what \<open>JSON()\<close> wrote).
\<close>

section \<open>Decoding of fields\<close>

datatype decode_error = DecodeFailed string | FrameMissingNode

definition dec_string :: "json option \<Rightarrow> decode_error + string" where
  "dec_string f = (case f of
      None \<Rightarrow> Inr [] | Some JNull \<Rightarrow> Inr [] | Some (JStr s) \<Rightarrow> Inr s
    | _ \<Rightarrow> Inl (DecodeFailed ''string''))"

definition dec_int :: "json option \<Rightarrow> decode_error + int" where
  "dec_int f = (case f of
      None \<Rightarrow> Inr 0 | Some JNull \<Rightarrow> Inr 0
    | Some (JInt i) \<Rightarrow> if - (2 ^ 63) \<le> i \<and> i < 2 ^ 63 then Inr i else Inl (DecodeFailed ''int'')
    | _ \<Rightarrow> Inl (DecodeFailed ''int''))"

fun dec_each :: "(json option \<Rightarrow> decode_error + 'a) \<Rightarrow> json list \<Rightarrow> decode_error + 'a list" where
  "dec_each f [] = Inr []"
| "dec_each f (j # js) = bindR (f (Some j)) (\<lambda>x. bindR (dec_each f js) (\<lambda>xs. Inr (x # xs)))"

definition dec_list :: "(json option \<Rightarrow> decode_error + 'a) \<Rightarrow> json option \<Rightarrow> decode_error + 'a list" where
  "dec_list f v = (case v of
      None \<Rightarrow> Inr [] | Some JNull \<Rightarrow> Inr [] | Some (JArr js) \<Rightarrow> dec_each f js
    | _ \<Rightarrow> Inl (DecodeFailed ''array''))"

fun dec_fields ::
  "(json option \<Rightarrow> decode_error + 'a) \<Rightarrow> gomap \<Rightarrow> decode_error + (string \<times> 'a) list" where
  "dec_fields f [] = Inr []"
| "dec_fields f ((k, j) # m) =
     bindR (f (Some j)) (\<lambda>x. bindR (dec_fields f m) (\<lambda>xs. Inr ((k, x) # xs)))"

definition dec_map ::
  "(json option \<Rightarrow> decode_error + 'a) \<Rightarrow> json option \<Rightarrow> decode_error + (string \<times> 'a) list" where
  "dec_map f v = (case v of
      None \<Rightarrow> Inr [] | Some JNull \<Rightarrow> Inr [] | Some (JObj m) \<Rightarrow> dec_fields f m
    | _ \<Rightarrow> Inl (DecodeFailed ''object''))"

definition dec_struct :: "json \<Rightarrow> decode_error + gomap" where
  "dec_struct v = (case v of JNull \<Rightarrow> Inr [] | JObj m \<Rightarrow> Inr m | _ \<Rightarrow> Inl (DecodeFailed ''struct''))"

section \<open>Frame\<close>

record Frame =
  CurrentNodeID :: uid
  GroupStack :: "uid list"

definition NewFrame :: "uid \<Rightarrow> Frame" where
  "NewFrame startNodeID = \<lparr>CurrentNodeID = startNodeID, GroupStack = []\<rparr>"

definition InGroup :: "Frame \<Rightarrow> bool" where
  "InGroup f \<longleftrightarrow> GroupStack f \<noteq> []"

definition CurrentGroupID :: "Frame \<Rightarrow> uid" where
  "CurrentGroupID f = (if GroupStack f = [] then [] else last (GroupStack f))"

definition FrameJSON :: "Frame \<Rightarrow> json" where
  "FrameJSON f = JObj ((''current_node_id'', JStr (CurrentNodeID f)) #
     (if GroupStack f = [] then [] else [(''group_stack'', JArr (map JStr (GroupStack f)))]))"

definition ParseFrame :: "raw \<Rightarrow> decode_error + Frame" where
  "ParseFrame r =
     (case r of
        None \<Rightarrow> Inr \<lparr>CurrentNodeID = [], GroupStack = []\<rparr>
      | Some v \<Rightarrow>
          bindR (dec_struct v) (\<lambda>m.
          bindR (dec_string (map_of m ''current_node_id'')) (\<lambda>cur.
          bindR (dec_list dec_string (map_of m ''group_stack'')) (\<lambda>st.
            if cur = [] then Inl FrameMissingNode
            else Inr \<lparr>CurrentNodeID = cur, GroupStack = st\<rparr>))))"

lemma Frame_eta [simp]: "\<lparr>CurrentNodeID = CurrentNodeID f, GroupStack = GroupStack f\<rparr> = (f :: Frame)"
  by simp

section \<open>Limits and counters\<close>

record Limits =
  MaxPerNodeExecutions :: int
  MaxTotalExecutions :: int
  DefaultNodeTimeout :: duration
  ConditionTimeout :: duration
  LeaseDuration :: duration
  ClaimBatchSize :: nat
  MaxActiveBranchesPerInstance :: nat
  MaxParallelDepth :: nat

definition seconds :: "int \<Rightarrow> duration" where
  "seconds n = n * 1000000000"

definition DefaultLimits :: Limits where
  "DefaultLimits = \<lparr>MaxPerNodeExecutions = 1000, MaxTotalExecutions = 10000,
     DefaultNodeTimeout = seconds 30, ConditionTimeout = seconds 5, LeaseDuration = seconds 30,
     ClaimBatchSize = 10, MaxActiveBranchesPerInstance = 0, MaxParallelDepth = 0\<rparr>"

record Counters =
  Total :: int
  Nodes :: "(uid \<times> int) list"

datatype limit_error = NodeLimitExceeded uid int | TotalLimitExceeded int

definition node_count :: "Counters \<Rightarrow> uid \<Rightarrow> int" where
  "node_count c n = (case map_of (Nodes c) n of None \<Rightarrow> 0 | Some k \<Rightarrow> k)"

definition Record :: "Limits \<Rightarrow> uid \<Rightarrow> Counters \<Rightarrow> limit_error + Counters" where
  "Record limits nodeID c =
     (if MaxPerNodeExecutions limits > 0 \<and> node_count c nodeID + 1 > MaxPerNodeExecutions limits
      then Inl (NodeLimitExceeded nodeID (MaxPerNodeExecutions limits))
      else if MaxTotalExecutions limits > 0 \<and> Total c + 1 > MaxTotalExecutions limits
      then Inl (TotalLimitExceeded (MaxTotalExecutions limits))
      else Inr \<lparr>Total = Total c + 1, Nodes = map_put nodeID (node_count c nodeID + 1) (Nodes c)\<rparr>)"

definition CountersJSON :: "Counters \<Rightarrow> json" where
  "CountersJSON c = JObj
     ((if Nodes c = [] then [] else [(''nodes'', JObj (map (\<lambda>(k, n). (k, JInt n)) (Nodes c)))]) @
      [(''total'', JInt (Total c))])"

definition ParseCounters :: "raw \<Rightarrow> decode_error + Counters" where
  "ParseCounters r =
     (case r of
        None \<Rightarrow> Inr \<lparr>Total = 0, Nodes = []\<rparr>
      | Some v \<Rightarrow>
          bindR (dec_struct v) (\<lambda>m.
          bindR (dec_int (map_of m ''total'')) (\<lambda>t.
          bindR (dec_map dec_int (map_of m ''nodes'')) (\<lambda>ns.
            Inr \<lparr>Total = t, Nodes = ns\<rparr>))))"

section \<open>Context mode\<close>

definition ContextModeFull :: string where
  "ContextModeFull = ''full''"

definition ContextModeLean :: string where
  "ContextModeLean = ''lean''"

definition to_lower_char :: "char \<Rightarrow> char" where
  "to_lower_char c = (let n = of_char c :: nat in if 65 \<le> n \<and> n \<le> 90 then char_of (n + 32) else c)"

definition to_lower :: "string \<Rightarrow> string" where
  "to_lower s = map to_lower_char s"

datatype mode_error = ModeDecode decode_error | ModeInvalid string

definition ParseContextMode :: "raw \<Rightarrow> mode_error + string option" where
  "ParseContextMode content =
     (case content of
        None \<Rightarrow> Inr None
      | Some v \<Rightarrow>
          (case dec_struct v of
             Inl e \<Rightarrow> Inl (ModeDecode e)
           | Inr m \<Rightarrow>
               (case map_of m ''context_mode'' of
                  None \<Rightarrow> Inr None
                | Some JNull \<Rightarrow> Inr None
                | Some (JStr s) \<Rightarrow>
                    (let mode = to_lower (trim_space s)
                     in if mode \<noteq> ContextModeFull \<and> mode \<noteq> ContextModeLean then Inl (ModeInvalid s)
                        else Inr (Some mode))
                | Some _ \<Rightarrow> Inl (ModeDecode (DecodeFailed ''string'')))))"

section \<open>Lemmas\<close>

lemma dec_simps [simp]:
  "dec_string None = Inr []" "dec_string (Some (JStr x)) = Inr x"
  "dec_int None = Inr 0"
  by (simp_all add: dec_string_def dec_int_def)

lemma dec_each_strings: "dec_each dec_string (map JStr xs) = Inr xs"
  by (induction xs) simp_all

lemma ParseFrame_FrameJSON:
  "ParseFrame (Some (FrameJSON f)) = (if CurrentNodeID f = [] then Inl FrameMissingNode else Inr f)"
  by (cases f) (auto simp: ParseFrame_def FrameJSON_def dec_struct_def dec_list_def dec_each_strings)

definition int64 :: "int \<Rightarrow> bool" where
  "int64 i \<longleftrightarrow> - (2 ^ 63) \<le> i \<and> i < 2 ^ 63"

lemma dec_fields_ints:
  "list_all (\<lambda>(k, n). int64 n) ns \<Longrightarrow> dec_fields dec_int (map (\<lambda>(k, n). (k, JInt n)) ns) = Inr ns"
  by (induction ns) (auto simp: dec_int_def int64_def)

lemma ParseCounters_CountersJSON:
  "int64 (Total c) \<Longrightarrow> list_all (\<lambda>(k, n). int64 n) (Nodes c) \<Longrightarrow>
   ParseCounters (Some (CountersJSON c)) = Inr c"
  by (cases c) (auto simp: ParseCounters_def CountersJSON_def dec_struct_def dec_map_def
      dec_fields_ints, auto simp: dec_int_def int64_def)

lemma node_count_Record:
  "Record l n c = Inr c' \<Longrightarrow> wf_map (Nodes c) \<Longrightarrow>
   node_count c' k = node_count c k + (if k = n then 1 else 0)"
  by (auto simp: Record_def node_count_def split: if_splits)

lemma Total_Record: "Record l n c = Inr c' \<Longrightarrow> Total c' = Total c + 1"
  by (auto simp: Record_def split: if_splits)

lemma wf_Record: "Record l n c = Inr c' \<Longrightarrow> wf_map (Nodes c) \<Longrightarrow> wf_map (Nodes c')"
  by (auto simp: Record_def split: if_splits)

definition zero_counters :: Counters where
  "zero_counters = \<lparr>Total = 0, Nodes = []\<rparr>"

text \<open>Whether every count of a run of executions is within the caps.\<close>

definition within_limits :: "Limits \<Rightarrow> uid list \<Rightarrow> bool" where
  "within_limits l ns \<longleftrightarrow>
     (MaxTotalExecutions l \<le> 0 \<or> int (length ns) \<le> MaxTotalExecutions l) \<and>
     (MaxPerNodeExecutions l \<le> 0 \<or>
        list_all (\<lambda>n. int (count_list ns n) \<le> MaxPerNodeExecutions l) ns)"

definition counts :: "uid list \<Rightarrow> Counters \<Rightarrow> bool" where
  "counts ns c \<longleftrightarrow> wf_map (Nodes c) \<and> Total c = int (length ns) \<and>
     (\<forall>k. node_count c k = int (count_list ns k))"

lemma per_node_caps:
  "0 < M \<Longrightarrow> list_all (\<lambda>n. int (count_list ns n) \<le> M) ns \<longleftrightarrow> (\<forall>k. int (count_list ns k) \<le> M)"
proof -
  assume M: "0 < M"
  have "int (count_list ns k) \<le> M" if "list_all (\<lambda>n. int (count_list ns n) \<le> M) ns" for k
    using that M by (cases "k \<in> set ns") (auto simp: list_all_iff count_list_0_iff)
  then show ?thesis by (auto simp: list_all_iff)
qed

lemma within_limits_snoc:
  "within_limits l (ns @ [n]) \<longleftrightarrow> within_limits l ns \<and>
     (MaxTotalExecutions l \<le> 0 \<or> int (length ns) + 1 \<le> MaxTotalExecutions l) \<and>
     (MaxPerNodeExecutions l \<le> 0 \<or> int (count_list ns n) + 1 \<le> MaxPerNodeExecutions l)"
proof (cases "0 < MaxPerNodeExecutions l")
  case True
  define M where "M = MaxPerNodeExecutions l"
  have "(\<forall>k. int (count_list (ns @ [n]) k) \<le> M) \<longleftrightarrow>
      (\<forall>k. int (count_list ns k) \<le> M) \<and> int (count_list ns n) + 1 \<le> M"
  proof (intro iffI conjI allI)
    assume L: "\<forall>k. int (count_list (ns @ [n]) k) \<le> M"
    show "int (count_list ns k) \<le> M" for k using spec [OF L, of k] by (auto split: if_splits)
    show "int (count_list ns n) + 1 \<le> M" using spec [OF L, of n] by simp
  next
    fix k assume "(\<forall>k. int (count_list ns k) \<le> M) \<and> int (count_list ns n) + 1 \<le> M"
    then show "int (count_list (ns @ [n]) k) \<le> M" by auto
  qed
  with True show ?thesis
    unfolding within_limits_def M_def [symmetric] by (subst (1 2) per_node_caps) (auto simp: M_def)
next
  case False
  then show ?thesis by (auto simp: within_limits_def)
qed

lemma Record_step:
  assumes "counts ns c"
  shows "(\<exists>c'. Record l n c = Inr c' \<and> counts (ns @ [n]) c') \<and>
      (MaxTotalExecutions l \<le> 0 \<or> int (length ns) + 1 \<le> MaxTotalExecutions l) \<and>
      (MaxPerNodeExecutions l \<le> 0 \<or> int (count_list ns n) + 1 \<le> MaxPerNodeExecutions l) \<or>
    (\<exists>e. Record l n c = Inl e) \<and>
      \<not> ((MaxTotalExecutions l \<le> 0 \<or> int (length ns) + 1 \<le> MaxTotalExecutions l) \<and>
      (MaxPerNodeExecutions l \<le> 0 \<or> int (count_list ns n) + 1 \<le> MaxPerNodeExecutions l))"
proof (cases "Record l n c")
  case (Inl e)
  with assms show ?thesis by (auto simp: Record_def counts_def split: if_splits)
next
  case (Inr c')
  with assms have "counts (ns @ [n]) c'"
    using node_count_Record [OF Inr] Total_Record [OF Inr] wf_Record [OF Inr] by (simp add: counts_def)
  with Inr assms show ?thesis by (auto simp: Record_def counts_def split: if_splits)
qed


lemma foldR_Record:
  "counts ms c \<Longrightarrow> within_limits l ms \<Longrightarrow>
   (case foldR (Record l) ns c of
      Inl e \<Rightarrow> \<not> within_limits l (ms @ ns)
    | Inr c' \<Rightarrow> within_limits l (ms @ ns) \<and> counts (ms @ ns) c')"
proof (induction ns arbitrary: ms c)
  case (Cons n ns)
  have mono: "within_limits l (ms @ [n])" if "within_limits l ((ms @ [n]) @ ns)"
    using that by (induction ns rule: rev_induct) (simp_all add: within_limits_snoc flip: append_assoc)
  have split: "ms @ n # ns = (ms @ [n]) @ ns" by simp
  let ?fits = "(MaxTotalExecutions l \<le> 0 \<or> int (length ms) + 1 \<le> MaxTotalExecutions l) \<and>
      (MaxPerNodeExecutions l \<le> 0 \<or> int (count_list ms n) + 1 \<le> MaxPerNodeExecutions l)"
  from Record_step [OF Cons.prems(1), of l n]
  consider (ok) c' where "Record l n c = Inr c'" "counts (ms @ [n]) c'" ?fits
    | (full) e where "Record l n c = Inl e" "\<not> ?fits" by blast
  then show ?case
  proof cases
    case ok
    then have "within_limits l (ms @ [n])" using Cons.prems(2) by (simp add: within_limits_snoc)
    with Cons.IH [OF ok(2)] ok(1) show ?thesis unfolding split by (simp only: foldR.simps bindR_simps)
  next
    case full
    then have "\<not> within_limits l (ms @ [n])" by (simp add: within_limits_snoc)
    with full(1) mono show ?thesis unfolding split by auto
  qed
qed simp

section \<open>Properties\<close>

text \<open>
  The cycle limit is exact: counting a sequence of node executions from fresh counters
  succeeds if and only if the sequence respects both caps (a cap of zero or less is disabled),
  and then the counters hold the length of the sequence and the number of executions of every node.
\<close>

theorem Record_exact:
  "case foldR (Record limits) ns zero_counters of
     Inl e \<Rightarrow> \<not> within_limits limits ns
   | Inr c \<Rightarrow> within_limits limits ns \<and> Total c = int (length ns) \<and>
       (\<forall>k. node_count c k = int (count_list ns k))"
proof -
  have "counts [] zero_counters" "within_limits limits []"
    by (simp_all add: counts_def zero_counters_def node_count_def within_limits_def) linarith
  from foldR_Record [OF this, of ns] show ?thesis by (auto simp: counts_def split: sum.splits)
qed

text \<open>
  A persisted cursor reads back as it was written, except that a finished cursor (no
  current node) is refused; so a frame read from a row always names a node.
\<close>

theorem ParseFrame_roundtrip:
  "ParseFrame (Some (FrameJSON f)) = (if CurrentNodeID f = [] then Inl FrameMissingNode else Inr f)"
  by (rule ParseFrame_FrameJSON)

end
