(* ===== verification/Notify.thy ===== *)
theory Notify
  imports Cursor
begin

text \<open>
  \<open>internal/workflow/model/statusupdate.go\<close>: the \<open>status_update\<close> block of a
  workflow definition, which configures the transports that receive status events.
  \<open>url.Parse\<close> (an absolute http or https address with a host) and
  \<open>time.ParseDuration\<close> are the functions of the record \<open>golib\<close>.
\<close>

record golib =
  lib_http_url :: "string \<Rightarrow> bool"
  lib_duration :: "string \<Rightarrow> duration option"

section \<open>Configuration\<close>

record HTTPStatusUpdateConfig =
  su_url :: string
  su_method :: string
  su_headers :: "(string \<times> string) list"
  su_max_retry :: int
  su_retry_delay :: duration

record RetryConfig =
  rc_max_retry :: int
  rc_retry_delay :: duration

record StatusUpdateConfig =
  su_http :: "HTTPStatusUpdateConfig option"
  su_redis :: "RetryConfig option"
  su_rabbit :: "RetryConfig option"

datatype transport = TransportHTTP | TransportRedis | TransportRabbitMQ

fun transport_str :: "transport \<Rightarrow> string" where
  "transport_str TransportHTTP = ''http''"
| "transport_str TransportRedis = ''redis''"
| "transport_str TransportRabbitMQ = ''rabbitmq''"

definition defaultStatusUpdateMaxRetry :: int where
  "defaultStatusUpdateMaxRetry = 3"

definition defaultStatusUpdateRetryDelay :: duration where
  "defaultStatusUpdateRetryDelay = seconds 5"

definition statusUpdateMethods :: "string list" where
  "statusUpdateMethods = [''GET'', ''POST'', ''PUT'', ''PATCH'', ''DELETE'', ''HEAD'']"

section \<open>Parsing\<close>

datatype status_update_error =
    SUDecode decode_error
  | SUNoTransport
  | SUNegativeRetry string
  | SUBadDelay string
  | SUBadURL string
  | SUBadMethod string
  | SUEmptyHeader
  | SUHeaderNewline string

definition to_upper :: "string \<Rightarrow> string" where
  "to_upper s = map (\<lambda>c. let n = of_char c :: nat in if 97 \<le> n \<and> n \<le> 122 then char_of (n - 32) else c) s"

text \<open>Pointer fields keep an absent or null value apart from a zero one.\<close>

definition dec_opt ::
  "(json option \<Rightarrow> decode_error + 'a) \<Rightarrow> json option \<Rightarrow> decode_error + 'a option" where
  "dec_opt f v = (case v of None \<Rightarrow> Inr None | Some JNull \<Rightarrow> Inr None
     | Some j \<Rightarrow> bindR (f (Some j)) (\<lambda>x. Inr (Some x)))"

definition lift_dec :: "decode_error + 'a \<Rightarrow> status_update_error + 'a" where
  "lift_dec r = (case r of Inl e \<Rightarrow> Inl (SUDecode e) | Inr x \<Rightarrow> Inr x)"

definition retry_fields ::
  "golib \<Rightarrow> string \<Rightarrow> int option \<Rightarrow> string option \<Rightarrow> status_update_error + int \<times> duration" where
  "retry_fields lib name mr rd =
     bindR (case mr of None \<Rightarrow> Inr defaultStatusUpdateMaxRetry
              | Some n \<Rightarrow> if n < 0 then Inl (SUNegativeRetry name) else Inr n) (\<lambda>maxRetry.
     bindR (case rd of None \<Rightarrow> Inr defaultStatusUpdateRetryDelay
              | Some s \<Rightarrow> (case lib_duration lib s of
                   None \<Rightarrow> Inl (SUBadDelay name)
                 | Some d \<Rightarrow> if d \<le> 0 then Inl (SUBadDelay name) else Inr d)) (\<lambda>retryDelay.
     Inr (maxRetry, retryDelay)))"

definition parseStatusUpdateRetry :: "golib \<Rightarrow> string \<Rightarrow> gomap \<Rightarrow> status_update_error + RetryConfig" where
  "parseStatusUpdateRetry lib name m =
     bindR (lift_dec (dec_opt dec_int (map_of m ''max_retry''))) (\<lambda>mr.
     bindR (lift_dec (dec_opt dec_string (map_of m ''retry_delay''))) (\<lambda>rd.
     bindR (retry_fields lib name mr rd) (\<lambda>(n, d).
     Inr \<lparr>rc_max_retry = n, rc_retry_delay = d\<rparr>)))"

definition has_newline :: "string \<Rightarrow> bool" where
  "has_newline s \<longleftrightarrow> list_ex (\<lambda>c. c = CHR 0x0D \<or> c = CHR 0x0A) s"

fun check_headers :: "(string \<times> string) list \<Rightarrow> status_update_error + unit" where
  "check_headers [] = Inr ()"
| "check_headers ((k, v) # hs) =
     (if trim_space k = [] then Inl SUEmptyHeader
      else if has_newline k \<or> has_newline v then Inl (SUHeaderNewline k)
      else check_headers hs)"

definition parseHTTPStatusUpdate :: "golib \<Rightarrow> gomap \<Rightarrow> status_update_error + HTTPStatusUpdateConfig" where
  "parseHTTPStatusUpdate lib m =
     bindR (lift_dec (dec_string (map_of m ''url''))) (\<lambda>url.
     bindR (lift_dec (dec_opt dec_string (map_of m ''method''))) (\<lambda>method.
     bindR (lift_dec (dec_map dec_string (map_of m ''headers''))) (\<lambda>headers.
     bindR (lift_dec (dec_opt dec_int (map_of m ''max_retry''))) (\<lambda>mr.
     bindR (lift_dec (dec_opt dec_string (map_of m ''retry_delay''))) (\<lambda>rd.
       if \<not> lib_http_url lib url then Inl (SUBadURL url)
       else let meth = (case method of None \<Rightarrow> ''POST'' | Some s \<Rightarrow> to_upper s) in
         if meth \<notin> set statusUpdateMethods then Inl (SUBadMethod meth)
         else bindR (check_headers headers) (\<lambda>_.
           bindR (retry_fields lib ''http'' mr rd) (\<lambda>(n, d).
           Inr \<lparr>su_url = url, su_method = meth, su_headers = headers,
                su_max_retry = n, su_retry_delay = d\<rparr>)))))))"

text \<open>A transport block is a struct behind a pointer: absent or null is nil.\<close>

definition block_of :: "gomap \<Rightarrow> string \<Rightarrow> status_update_error + gomap option" where
  "block_of m k = (case map_of m k of None \<Rightarrow> Inr None | Some JNull \<Rightarrow> Inr None
     | Some v \<Rightarrow> bindR (lift_dec (dec_struct v)) (\<lambda>b. Inr (Some b)))"

definition opt_parse :: "('a \<Rightarrow> 'e + 'b) \<Rightarrow> 'a option \<Rightarrow> 'e + 'b option" where
  "opt_parse f v = (case v of None \<Rightarrow> Inr None | Some x \<Rightarrow> bindR (f x) (\<lambda>y. Inr (Some y)))"

definition parse_status_block :: "golib \<Rightarrow> gomap \<Rightarrow> status_update_error + StatusUpdateConfig" where
  "parse_status_block lib m =
     bindR (block_of m ''http'') (\<lambda>h.
     bindR (block_of m ''redis'') (\<lambda>rd.
     bindR (block_of m ''rabbitmq'') (\<lambda>rb.
       if h = None \<and> rd = None \<and> rb = None then Inl SUNoTransport
       else
         bindR (opt_parse (parseHTTPStatusUpdate lib) h) (\<lambda>h'.
         bindR (opt_parse (parseStatusUpdateRetry lib ''redis'') rd) (\<lambda>rd'.
         bindR (opt_parse (parseStatusUpdateRetry lib ''rabbitmq'') rb) (\<lambda>rb'.
         Inr \<lparr>su_http = h', su_redis = rd', su_rabbit = rb'\<rparr>))))))"

definition ParseStatusUpdate :: "golib \<Rightarrow> raw \<Rightarrow> status_update_error + StatusUpdateConfig option" where
  "ParseStatusUpdate lib content =
     (case content of
        None \<Rightarrow> Inr None
      | Some v \<Rightarrow>
          bindR (lift_dec (dec_struct v)) (\<lambda>wf.
            if map_of wf ''status_update'' = None \<or> map_of wf ''status_update'' = Some JNull then Inr None
            else
              bindR (lift_dec (dec_struct (the (map_of wf ''status_update'')))) (\<lambda>m.
              bindR (parse_status_block lib m) (\<lambda>c. Inr (Some c)))))"

section \<open>Use\<close>

definition Transports :: "StatusUpdateConfig \<Rightarrow> transport list" where
  "Transports c =
     (if su_http c \<noteq> None then [TransportHTTP] else []) @
     (if su_redis c \<noteq> None then [TransportRedis] else []) @
     (if su_rabbit c \<noteq> None then [TransportRabbitMQ] else [])"

fun RetryPolicy :: "StatusUpdateConfig \<Rightarrow> transport \<Rightarrow> (int \<times> duration) option" where
  "RetryPolicy c TransportHTTP = map_option (\<lambda>h. (su_max_retry h, su_retry_delay h)) (su_http c)"
| "RetryPolicy c TransportRedis = map_option (\<lambda>r. (rc_max_retry r, rc_retry_delay r)) (su_redis c)"
| "RetryPolicy c TransportRabbitMQ = map_option (\<lambda>r. (rc_max_retry r, rc_retry_delay r)) (su_rabbit c)"

section \<open>Lemmas\<close>

lemma distinct_Transports [simp]: "distinct (Transports c)"
  by (simp add: Transports_def)

lemma RetryPolicy_iff: "RetryPolicy c t \<noteq> None \<longleftrightarrow> t \<in> set (Transports c)"
  by (cases t) (auto simp: Transports_def)

lemma retry_fields_bounds: "retry_fields lib name mr rd = Inr (n, d) \<Longrightarrow> 0 \<le> n \<and> 0 < d"
  by (auto simp: retry_fields_def bindR_Inr_iff defaultStatusUpdateMaxRetry_def
      defaultStatusUpdateRetryDelay_def seconds_def split: option.splits if_splits)

lemma parseStatusUpdateRetry_bounds:
  "parseStatusUpdateRetry lib name m = Inr c \<Longrightarrow> 0 \<le> rc_max_retry c \<and> 0 < rc_retry_delay c"
  by (auto simp: parseStatusUpdateRetry_def bindR_Inr_iff dest: retry_fields_bounds)

lemma parseHTTPStatusUpdate_bounds:
  "parseHTTPStatusUpdate lib m = Inr c \<Longrightarrow>
   0 \<le> su_max_retry c \<and> 0 < su_retry_delay c \<and> lib_http_url lib (su_url c) \<and>
   su_method c \<in> set statusUpdateMethods"
  unfolding parseHTTPStatusUpdate_def bindR_Inr_iff Let_def
  by (auto simp: bindR_Inr_iff dest: retry_fields_bounds split: if_splits)

lemma opt_parse_Inr:
  "opt_parse f v = Inr r \<longleftrightarrow> (v = None \<and> r = None) \<or> (\<exists>x y. v = Some x \<and> f x = Inr y \<and> r = Some y)"
  by (auto simp: opt_parse_def bindR_Inr_iff split: option.splits)

section \<open>Properties\<close>

text \<open>
  A definition that parses either configures no notification at all, or at least one
  transport, each transport it lists having a retry policy with a non-negative number of
  retries and a positive delay.
\<close>

theorem ParseStatusUpdate_policies:
  assumes "ParseStatusUpdate lib content = Inr (Some c)"
  shows "Transports c \<noteq> [] \<and>
    (\<forall>t. t \<in> set (Transports c) \<longrightarrow> (\<exists>n d. RetryPolicy c t = Some (n, d) \<and> 0 \<le> n \<and> 0 < d))"
proof -
  from assms obtain m where "parse_status_block lib m = Inr c"
    by (auto simp: ParseStatusUpdate_def bindR_Inr_iff split: option.splits if_splits)
  then obtain h rd rb h' rd' rb' where
    some: "\<not> (h = None \<and> rd = None \<and> rb = None)"
    and h: "opt_parse (parseHTTPStatusUpdate lib) h = Inr h'"
    and rd: "opt_parse (parseStatusUpdateRetry lib ''redis'') rd = Inr rd'"
    and rb: "opt_parse (parseStatusUpdateRetry lib ''rabbitmq'') rb = Inr rb'"
    and c: "c = \<lparr>su_http = h', su_redis = rd', su_rabbit = rb'\<rparr>"
    unfolding parse_status_block_def bindR_Inr_iff
    by (elim exE conjE) (simp add: bindR_Inr_iff split: if_split_asm, blast)
  have "Transports c \<noteq> []"
    using some h rd rb by (auto simp: c Transports_def opt_parse_Inr)
  moreover have "\<exists>n d. RetryPolicy c t = Some (n, d) \<and> 0 \<le> n \<and> 0 < d" if "t \<in> set (Transports c)" for t
    using that h rd rb parseHTTPStatusUpdate_bounds [of lib] parseStatusUpdateRetry_bounds [of lib]
    by (cases t) (auto simp: c Transports_def opt_parse_Inr)
  ultimately show ?thesis by blast
qed

definition sample_lib :: golib where
  "sample_lib = \<lparr>lib_http_url = (\<lambda>s. has_prefix s ''https://''),
     lib_duration = (\<lambda>s. if s = ''1s'' then Some (seconds 1) else None)\<rparr>"

lemma ParseStatusUpdate_policies_witness:
  "RetryPolicy \<lparr>su_http = None, su_redis = Some \<lparr>rc_max_retry = 3, rc_retry_delay = seconds 1\<rparr>,
     su_rabbit = None\<rparr> TransportRedis \<noteq> None"
proof -
  have "ParseStatusUpdate sample_lib (Some (JObj [(''status_update'',
      JObj [(''redis'', JObj [(''retry_delay'', JStr ''1s'')])])])) =
    Inr (Some \<lparr>su_http = None, su_redis = Some \<lparr>rc_max_retry = 3, rc_retry_delay = seconds 1\<rparr>,
      su_rabbit = None\<rparr>)"
    by (simp add: ParseStatusUpdate_def parse_status_block_def lift_dec_def dec_struct_def block_of_def opt_parse_def
        parseStatusUpdateRetry_def retry_fields_def dec_opt_def defaultStatusUpdateMaxRetry_def
        sample_lib_def seconds_def)
  from ParseStatusUpdate_policies [OF this] show ?thesis by (simp add: Transports_def)
qed

end
