(* ===== verification/Content.thy ===== *)
theory Content
  imports Notify
begin

text \<open>
  The typed content of nodes and workflows, \<open>internal/workflow/model/nodecontent.go\<close>
  (types only) and \<open>workflowcontent.go\<close>. Pointers that may be nil are options; a Go
  map is an association list with ascending keys. The recursive part of a node (its
  group) is separated from its flat fields. Validation is in \<open>Validate\<close>.
\<close>

section \<open>Node types\<close>

datatype NodeType =
    NTScript | NTConditions | NTInput | NTGroup | NTExternalCall | NTOutput | NTPoller
  | NTParallelStart | NTParallelEnd | NTDelay | NTOther string

fun type_str :: "NodeType \<Rightarrow> string" where
  "type_str NTScript = ''script''"
| "type_str NTConditions = ''conditions''"
| "type_str NTInput = ''input''"
| "type_str NTGroup = ''group''"
| "type_str NTExternalCall = ''external_call''"
| "type_str NTOutput = ''output''"
| "type_str NTPoller = ''poller''"
| "type_str NTParallelStart = ''parallel_start''"
| "type_str NTParallelEnd = ''parallel_end''"
| "type_str NTDelay = ''delay''"
| "type_str (NTOther s) = s"

text \<open>\<open>custom\<close> is the registry lookup \<open>LookupCustomType\<close>, filled at start-up.\<close>

definition ValidNodeType :: "(string \<Rightarrow> bool) \<Rightarrow> NodeType \<Rightarrow> bool" where
  "ValidNodeType custom t = (case t of NTOther s \<Rightarrow> custom s | _ \<Rightarrow> True)"

section \<open>Limits\<close>

record ParallelLimits =
  MaxDepth :: int
  MaxBranchesPerParallel :: int

definition DefaultParallelLimits :: ParallelLimits where
  "DefaultParallelLimits = \<lparr>MaxDepth = 4, MaxBranchesPerParallel = 32\<rparr>"

definition effectiveParallelLimits :: "ParallelLimits \<Rightarrow> ParallelLimits" where
  "effectiveParallelLimits l =
     \<lparr>MaxDepth = (if MaxDepth l \<le> 0 then MaxDepth DefaultParallelLimits else MaxDepth l),
      MaxBranchesPerParallel =
        (if MaxBranchesPerParallel l \<le> 0 then MaxBranchesPerParallel DefaultParallelLimits
         else MaxBranchesPerParallel l)\<rparr>"

section \<open>Nodes\<close>

record Condition =
  cond_script :: string
  cond_key :: string

record HookScript =
  hook_script :: string
  hook_timeout :: duration

record FailureRoute =
  fr_next :: uid
  fr_output :: string

record HTTPConfig =
  http_url :: string
  http_method :: string
  http_headers :: "(string \<times> string) list"
  http_body :: raw

record ExecutionConfig =
  exec_command :: "string list"
  exec_stdin :: string

record PollerHTTPConfig =
  ph_url :: string
  ph_method :: string
  ph_headers :: "(string \<times> string) list"
  ph_body :: raw
  ph_delay :: duration
  ph_request_timeout :: duration
  ph_max_attempts :: int
  ph_until :: string

record PollerRedisConfig =
  pr_method :: string
  pr_key :: string
  pr_channel :: string
  pr_delay :: duration
  pr_request_timeout :: duration
  pr_max_attempts :: int
  pr_max_wait :: duration
  pr_until :: string

record PollerRabbitMQConfig =
  pq_queue :: string
  pq_max_wait :: duration
  pq_until :: string

record node_fields =
  nType :: NodeType
  nID :: uid
  nDefinitionID :: uid
  nName :: string
  nTimeout :: duration
  nDelay :: duration
  nInputData :: "string option"
  nScript :: string
  nConditions :: "Condition list"
  nChannel :: string
  nContextPath :: string
  nValidation :: "string option"
  nFormID :: string
  nAllowedRoles :: "string list"
  nRecordActor :: bool
  nPublic :: bool
  nHTTP :: "HTTPConfig option"
  nExecution :: "ExecutionConfig option"
  nOutputProperty :: string
  nNextNode :: uid
  nOnFailure :: "FailureRoute option"
  nMetadata :: "gomap option"
  nPreScript :: "HookScript option"
  nPostScript :: "HookScript option"
  nPreScriptSet :: bool
  nPostScriptSet :: bool
  nStartDelay :: duration
  nStartDelaySet :: bool
  nRetryOnRecovery :: bool
  nPollerHTTP :: "PollerHTTPConfig option"
  nPollerRedis :: "PollerRedisConfig option"
  nPollerRabbitMQ :: "PollerRabbitMQConfig option"
  nParallelBranches :: "(string \<times> uid) list option"
  nParallelEndNodeID :: uid
  nCombiningScript :: string
  nCustomConfig :: raw
  nPredicateTimeout :: duration

datatype NodeContent = NodeContent (nfields: node_fields) (group_of: "GroupContent option")
and GroupContent =
  GroupContent (gStart: uid) (gKeys: "(string \<times> uid) list option") (gNodes: "NodeContent list")

abbreviation node_id :: "NodeContent \<Rightarrow> uid" where
  "node_id n \<equiv> nID (nfields n)"

abbreviation node_type :: "NodeContent \<Rightarrow> NodeType" where
  "node_type n \<equiv> nType (nfields n)"

definition children :: "NodeContent \<Rightarrow> NodeContent list" where
  "children n = (case group_of n of None \<Rightarrow> [] | Some g \<Rightarrow> gNodes g)"

definition ArrivalWait :: "NodeContent \<Rightarrow> duration" where
  "ArrivalWait n = (if node_type n = NTDelay then nDelay (nfields n) else nStartDelay (nfields n))"

text \<open>A script node with every other field zero, for concrete inputs.\<close>

definition plain_node :: "NodeType \<Rightarrow> uid \<Rightarrow> node_fields" where
  "plain_node t i =
     \<lparr>nType = t, nID = i, nDefinitionID = [], nName = [], nTimeout = 0, nDelay = 0,
      nInputData = None, nScript = [], nConditions = [], nChannel = [], nContextPath = [],
      nValidation = None, nFormID = [], nAllowedRoles = [], nRecordActor = False, nPublic = False,
      nHTTP = None, nExecution = None, nOutputProperty = [], nNextNode = [], nOnFailure = None,
      nMetadata = None, nPreScript = None, nPostScript = None, nPreScriptSet = False,
      nPostScriptSet = False, nStartDelay = 0, nStartDelaySet = False, nRetryOnRecovery = False,
      nPollerHTTP = None, nPollerRedis = None, nPollerRabbitMQ = None, nParallelBranches = None,
      nParallelEndNodeID = [], nCombiningScript = [], nCustomConfig = None, nPredicateTimeout = 0\<rparr>"

section \<open>Workflows\<close>

record WorkflowContent =
  wStartNodeID :: uid
  wKeys :: "(string \<times> uid) list"
  wNodes :: "NodeContent list"
  wContextMode :: "string option"
  wStatusUpdate :: "StatusUpdateConfig option"

section \<open>Trees\<close>

text \<open>All nodes of a tree in document order, each group node before its children.\<close>

fun tree_nodes :: "NodeContent \<Rightarrow> NodeContent list"
and group_nodes :: "GroupContent \<Rightarrow> NodeContent list" where
  "tree_nodes (NodeContent f None) = [NodeContent f None]"
| "tree_nodes (NodeContent f (Some g)) = NodeContent f (Some g) # group_nodes g"
| "group_nodes (GroupContent s k ns) = concat (map tree_nodes ns)"

definition forest_nodes :: "NodeContent list \<Rightarrow> NodeContent list" where
  "forest_nodes ns = concat (map tree_nodes ns)"

lemma forest_nodes_simps [simp]:
  "forest_nodes [] = []" "forest_nodes (n # ns) = tree_nodes n @ forest_nodes ns"
  by (simp_all add: forest_nodes_def)

lemma group_nodes_forest: "group_nodes (GroupContent s k ns) = forest_nodes ns"
  by (simp add: forest_nodes_def)

lemma tree_nodes_children: "tree_nodes n = n # forest_nodes (children n)"
proof (cases n)
  case (NodeContent f g)
  show ?thesis
  proof (cases g)
    case (Some h)
    then show ?thesis using NodeContent by (cases h) (simp add: children_def forest_nodes_def)
  qed (simp add: NodeContent children_def)
qed

lemma size_children:
  "c \<in> set (children n) \<Longrightarrow> size c < size n"
proof (cases n)
  case (NodeContent f g)
  assume c: "c \<in> set (children n)"
  with NodeContent obtain h where g: "g = Some h" by (cases g) (auto simp: children_def)
  obtain s k ns where h: "h = GroupContent s k ns" by (cases h)
  from c NodeContent g h have "c \<in> set ns" by (simp add: children_def)
  then have "size c < Suc (size_list size ns)" by (induction ns) auto
  then show ?thesis using NodeContent g h by simp
qed

lemma forest_nodes_mem: "n \<in> set ns \<Longrightarrow> n \<in> set (forest_nodes ns)"
  by (induction ns) (auto simp: tree_nodes_children)

text \<open>Induction over a node and its children.\<close>

lemma node_induct [case_names node]:
  assumes "\<And>n. (\<And>c. c \<in> set (children n) \<Longrightarrow> P c) \<Longrightarrow> P n"
  shows "P (n :: NodeContent)"
proof (induction "size n" arbitrary: n rule: less_induct)
  case less
  show ?case by (rule assms) (use less size_children in blast)
qed

lemma children_in_forest:
  "n \<in> set (forest_nodes ns) \<Longrightarrow> c \<in> set (children n) \<Longrightarrow> c \<in> set (forest_nodes ns)"
proof -
  have tree: "n \<in> set (tree_nodes m) \<Longrightarrow> c \<in> set (children n) \<Longrightarrow> c \<in> set (tree_nodes m)" for m n c
  proof (induction m rule: node_induct)
    case (node m)
    show ?case
    proof (cases "n = m")
      case True
      with node.prems show ?thesis by (simp add: tree_nodes_children forest_nodes_mem)
    next
      case False
      with node.prems(1) obtain d where d: "d \<in> set (children m)" "n \<in> set (tree_nodes d)"
        by (subst (asm) tree_nodes_children) (auto simp: forest_nodes_def)
      with node.IH node.prems(2) have "c \<in> set (tree_nodes d)" by blast
      with d(1) show ?thesis
        by (subst tree_nodes_children) (auto simp: forest_nodes_def)
    qed
  qed
  assume "n \<in> set (forest_nodes ns)" "c \<in> set (children n)"
  with tree show ?thesis by (auto simp: forest_nodes_def)
qed

end
