(* ===== verification/Kernel.thy ===== *)
theory Kernel
  imports Content
begin

text \<open>
  \<open>internal/workflow/kernel/machine.go\<close> and \<open>groups.go\<close> (the cursor machine and the
  post hooks of exited groups) over \<open>internal/workflow/engine/graph.go\<close> (the index of a
  materialized node tree, which implements \<open>kernel.Graph\<close>).
\<close>

section \<open>The workflow graph\<close>

datatype graph_error =
    UnknownNode uid
  | NotAGroup uid
  | ExitGroup uid graph_error

record workflowGraph =
  byID :: "uid \<rightharpoonup> NodeContent"
  keysByNode :: "uid \<rightharpoonup> (string \<times> uid) list"
  stackByNode :: "uid \<rightharpoonup> uid list"

text \<open>What the walk of \<open>buildGraph\<close> writes, in order: a node, the keys and the groups around it.\<close>

type_synonym graph_entry = "NodeContent \<times> (string \<times> uid) list \<times> uid list"

definition group_keys :: "GroupContent \<Rightarrow> (string \<times> uid) list" where
  "group_keys g = (case gKeys g of None \<Rightarrow> [] | Some k \<Rightarrow> k)"

lemma size_group_nodes:
  "n \<in> set ns \<Longrightarrow> group_of n = Some g \<Longrightarrow> size_list size (gNodes g) < size_list size ns"
proof (induction ns)
  case (Cons m ns)
  show ?case
  proof (cases "n = m")
    case True
    with Cons.prems show ?thesis by (cases m; cases g) auto
  next
    case False
    with Cons show ?thesis by simp
  qed
qed simp

function walk_entries :: "(string \<times> uid) list \<Rightarrow> uid list \<Rightarrow> NodeContent list \<Rightarrow> graph_entry list" where
  "walk_entries keys ancestors ns =
     concat (map (\<lambda>n. (n, keys, ancestors) #
       (case group_of n of
          None \<Rightarrow> []
        | Some g \<Rightarrow> walk_entries (group_keys g) (ancestors @ [node_id n]) (gNodes g))) ns)"
  by pat_completeness auto
termination
  by (relation "measure (\<lambda>(k, a, ns). size_list size ns)") (auto intro: size_group_nodes)

declare walk_entries.simps [simp del]

definition add_entry :: "graph_entry \<Rightarrow> workflowGraph \<Rightarrow> workflowGraph" where
  "add_entry e g =
     (case e of (n, keys, ancestors) \<Rightarrow>
        g\<lparr>byID := (byID g)(node_id n \<mapsto> n),
          keysByNode := (keysByNode g)(node_id n \<mapsto> keys),
          stackByNode := (stackByNode g)(node_id n \<mapsto> ancestors)\<rparr>)"

definition buildGraph :: "WorkflowContent \<Rightarrow> workflowGraph" where
  "buildGraph wc = fold add_entry (walk_entries (wKeys wc) [] (wNodes wc))
     \<lparr>byID = Map.empty, keysByNode = Map.empty, stackByNode = Map.empty\<rparr>"

definition Node :: "workflowGraph \<Rightarrow> uid \<Rightarrow> graph_error + NodeContent" where
  "Node g i = (case byID g i of None \<Rightarrow> Inl (UnknownNode i) | Some n \<Rightarrow> Inr n)"

definition TypeOf :: "workflowGraph \<Rightarrow> uid \<Rightarrow> graph_error + NodeType" where
  "TypeOf g i = bindR (Node g i) (\<lambda>n. Inr (node_type n))"

definition NextOf :: "workflowGraph \<Rightarrow> uid \<Rightarrow> graph_error + uid" where
  "NextOf g i = bindR (Node g i) (\<lambda>n. Inr (nNextNode (nfields n)))"

definition StartOf :: "workflowGraph \<Rightarrow> uid \<Rightarrow> graph_error + uid" where
  "StartOf g i = bindR (Node g i) (\<lambda>n.
     case group_of n of None \<Rightarrow> Inl (NotAGroup i) | Some h \<Rightarrow> Inr (gStart h))"

definition KeyTarget :: "workflowGraph \<Rightarrow> uid \<Rightarrow> string \<Rightarrow> uid option" where
  "KeyTarget g i key = (case keysByNode g i of None \<Rightarrow> None | Some ks \<Rightarrow> map_of ks key)"

definition groupStack :: "workflowGraph \<Rightarrow> uid \<Rightarrow> graph_error + uid list" where
  "groupStack g i = (case stackByNode g i of None \<Rightarrow> Inl (UnknownNode i) | Some st \<Rightarrow> Inr st)"

section \<open>The cursor machine\<close>

text \<open>
  \<open>EnterGroup\<close> and \<open>Advance\<close> take the methods of the \<open>Graph\<close> interface they call. Both
  change the frame in place, so the model returns it, on an error too. The group stack is
  outermost first; \<open>pop_groups\<close> works on it reversed.
\<close>

definition EnterGroup ::
  "(uid \<Rightarrow> graph_error + uid) \<Rightarrow> Frame \<Rightarrow> uid \<Rightarrow> Frame \<times> (graph_error + uid)" where
  "EnterGroup start_of frame groupID =
     (case start_of groupID of
        Inl e \<Rightarrow> (frame, Inl e)
      | Inr start \<Rightarrow>
          (frame\<lparr>GroupStack := GroupStack frame @ [groupID], CurrentNodeID := start\<rparr>, Inr start))"

fun pop_groups ::
  "(uid \<Rightarrow> graph_error + uid) \<Rightarrow> uid \<Rightarrow> uid list \<Rightarrow> uid list \<Rightarrow>
   uid list \<times> uid list \<times> (graph_error + uid)" where
  "pop_groups next_of next [] exited = ([], exited, Inr next)"
| "pop_groups next_of next (g # rest) exited =
     (if next \<noteq> [] then (g # rest, exited, Inr next)
      else case next_of g of
        Inl e \<Rightarrow> (rest, exited @ [g], Inl (ExitGroup g e))
      | Inr next' \<Rightarrow> pop_groups next_of next' rest (exited @ [g]))"

definition Advance ::
  "(uid \<Rightarrow> graph_error + uid) \<Rightarrow> Frame \<Rightarrow> uid \<Rightarrow> Frame \<times> uid list \<times> (graph_error + bool)" where
  "Advance next_of frame next =
     (case pop_groups next_of next (rev (GroupStack frame)) [] of
        (rest, exited, Inl e) \<Rightarrow> (frame\<lparr>GroupStack := rev rest\<rparr>, exited, Inl e)
      | (rest, exited, Inr next') \<Rightarrow>
          (frame\<lparr>GroupStack := rev rest, CurrentNodeID := next'\<rparr>, exited, Inr (next' = [])))"

text \<open>
  Post hooks of the exited groups. \<open>run_post\<close> is the sandboxed hook runner; the returned
  context is the last one a hook completed.
\<close>

fun RunExitedGroupPosts ::
  "(NodeContent \<Rightarrow> 'c \<Rightarrow> 'e + 'c) \<Rightarrow> (uid \<Rightarrow> 'e + NodeContent) \<Rightarrow> uid list \<Rightarrow> 'c \<Rightarrow> 'c \<times> 'e option" where
  "RunExitedGroupPosts run_post lookup [] c = (c, None)"
| "RunExitedGroupPosts run_post lookup (gid # exited) c =
     (case lookup gid of
        Inl e \<Rightarrow> (c, Some e)
      | Inr n \<Rightarrow>
          (case run_post n c of
             Inl e \<Rightarrow> (c, Some e)
           | Inr c' \<Rightarrow> RunExitedGroupPosts run_post lookup exited c'))"

section \<open>The interface\<close>

text \<open>
  What the cursor machine relies on: in a good graph a link of a node leads to a node with
  the same groups around it, a group's start has that group added, and every group around a
  node is itself a node whose groups are the ones outside it.
\<close>

locale cursor_graph =
  fixes good :: "'g \<Rightarrow> bool"
    and next_of :: "'g \<Rightarrow> uid \<Rightarrow> graph_error + uid"
    and start_of :: "'g \<Rightarrow> uid \<Rightarrow> graph_error + uid"
    and stack_of :: "'g \<Rightarrow> uid \<Rightarrow> graph_error + uid list"
  assumes next_known: "good g \<Longrightarrow> stack_of g n = Inr st \<Longrightarrow> \<exists>m. next_of g n = Inr m"
    and next_scope: "good g \<Longrightarrow> stack_of g n = Inr st \<Longrightarrow> next_of g n = Inr m \<Longrightarrow> m \<noteq> [] \<Longrightarrow>
      stack_of g m = Inr st"
    and start_scope: "good g \<Longrightarrow> stack_of g n = Inr st \<Longrightarrow> start_of g n = Inr m \<Longrightarrow>
      stack_of g m = Inr (st @ [n])"
    and stack_prefix: "good g \<Longrightarrow> stack_of g n = Inr (st @ [p] @ rest) \<Longrightarrow> stack_of g p = Inr st"
    and no_empty: "good g \<Longrightarrow> stack_of g n = Inr st \<Longrightarrow> n \<noteq> []"
begin

definition at_node :: "'g \<Rightarrow> Frame \<Rightarrow> bool" where
  "at_node g f \<longleftrightarrow> stack_of g (CurrentNodeID f) = Inr (GroupStack f)"

text \<open>A link that may be followed from a node with the groups \<open>st\<close> around it.\<close>

definition link :: "'g \<Rightarrow> uid list \<Rightarrow> uid \<Rightarrow> bool" where
  "link g st m \<longleftrightarrow> m = [] \<or> stack_of g m = Inr st"

lemma pop_groups_ok:
  assumes "good g"
  shows "link g (rev rst) m \<Longrightarrow> (\<And>st p rest. rev rst = st @ [p] @ rest \<Longrightarrow> stack_of g p = Inr st) \<Longrightarrow>
    \<exists>k m'. pop_groups (next_of g) m rst ex = (drop k rst, ex @ take k rst, Inr m') \<and>
      k \<le> length rst \<and> (m' = [] \<longrightarrow> k = length rst) \<and> link g (rev (drop k rst)) m'"
proof (induction rst arbitrary: m ex)
  case Nil
  then show ?case by simp
next
  case (Cons p rst)
  show ?case
  proof (cases "m = []")
    case False
    with Cons.prems(1) show ?thesis by (intro exI [of _ 0]) simp
  next
    case True
    have p: "stack_of g p = Inr (rev rst)" using Cons.prems(2) [of "rev rst" p "[]"] by simp
    then obtain m1 where m1: "next_of g p = Inr m1" using next_known [OF assms] by blast
    have l: "link g (rev rst) m1" using next_scope [OF assms p m1] by (auto simp: link_def)
    have pre: "stack_of g q = Inr st" if "rev rst = st @ [q] @ rest" for st q rest
      using Cons.prems(2) [of st q "rest @ [p]"] that by simp
    have "\<exists>k m'. pop_groups (next_of g) m1 rst (ex @ [p]) = (drop k rst, (ex @ [p]) @ take k rst, Inr m') \<and>
      k \<le> length rst \<and> (m' = [] \<longrightarrow> k = length rst) \<and> link g (rev (drop k rst)) m'"
      by (rule Cons.IH [OF l]) (rule pre)
    then obtain k m' where
      "pop_groups (next_of g) m1 rst (ex @ [p]) = (drop k rst, (ex @ [p]) @ take k rst, Inr m')"
      "k \<le> length rst" "m' = [] \<longrightarrow> k = length rst" "link g (rev (drop k rst)) m'"
      by blast
    with True m1 show ?thesis by (intro exI [of _ "Suc k"]) simp
  qed
qed

text \<open>
  \<open>Advance\<close> from a cursor on a node never fails: the groups it reports as exited are the
  innermost ones, innermost first, it leaves the cursor on a node with the remaining groups
  around it, and it is done only at top level.
\<close>

lemma Advance_ok:
  assumes good: "good g" and at: "at_node g f" and l: "link g (GroupStack f) m"
  shows "\<exists>f' ex done. Advance (next_of g) f m = (f', ex, Inr done) \<and>
    GroupStack f = GroupStack f' @ rev ex \<and>
    (if done then GroupStack f' = [] \<and> CurrentNodeID f' = [] else at_node g f')"
proof -
  have pre: "stack_of g p = Inr st" if "rev (rev (GroupStack f)) = st @ [p] @ rest" for st p rest
    using stack_prefix [OF good, of "CurrentNodeID f" st p rest] at that by (simp add: at_node_def)
  let ?rs = "rev (GroupStack f)"
  have l': "link g (rev ?rs) m" using l by simp
  have "\<exists>k m'. pop_groups (next_of g) m ?rs [] = (drop k ?rs, [] @ take k ?rs, Inr m') \<and>
      k \<le> length ?rs \<and> (m' = [] \<longrightarrow> k = length ?rs) \<and> link g (rev (drop k ?rs)) m'"
    by (rule pop_groups_ok [OF good l']) (rule pre)
  then obtain k m' where k: "pop_groups (next_of g) m ?rs [] = (drop k ?rs, take k ?rs, Inr m')"
    and le: "k \<le> length ?rs" and dn: "m' = [] \<longrightarrow> k = length ?rs"
    and lk: "link g (rev (drop k ?rs)) m'" by auto
  have "GroupStack f = rev (drop k (rev (GroupStack f))) @ rev (take k (rev (GroupStack f)))"
    by (metis append_take_drop_id rev_append rev_rev_ident)
  moreover have "rev (drop k (rev (GroupStack f))) = []" if "m' = []" using dn that by simp
  ultimately show ?thesis
    using k lk by (auto simp: Advance_def at_node_def link_def)
qed

lemma EnterGroup_ok:
  assumes "good g" "at_node g f" "EnterGroup (start_of g) f (CurrentNodeID f) = (f', Inr n)"
  shows "at_node g f' \<and> CurrentNodeID f' = n \<and> GroupStack f' = GroupStack f @ [CurrentNodeID f]"
  using assms start_scope [OF assms(1), of "CurrentNodeID f"]
  by (auto simp: EnterGroup_def at_node_def split: sum.splits)

end


section \<open>Graphs of validated workflows\<close>

text \<open>
  \<open>scope_ok\<close>: every link, failure route and key of a scope leads to a node of the same
  scope, and every group starts at one of its children.
\<close>

definition link_ok :: "NodeContent list \<Rightarrow> uid \<Rightarrow> bool" where
  "link_ok sibs i \<longleftrightarrow> i = [] \<or> i \<in> set (map node_id sibs)"

function scope_ok :: "(string \<times> uid) list \<Rightarrow> NodeContent list \<Rightarrow> bool" where
  "scope_ok keys ns \<longleftrightarrow>
     list_all (\<lambda>(_, t). link_ok ns t) keys \<and>
     list_all (\<lambda>n. link_ok ns (nNextNode (nfields n)) \<and>
       (case nOnFailure (nfields n) of None \<Rightarrow> True | Some r \<Rightarrow> fr_next r \<in> set (map node_id ns)) \<and>
       (case group_of n of None \<Rightarrow> True
        | Some g \<Rightarrow> gStart g \<in> set (map node_id (gNodes g)) \<and> scope_ok (group_keys g) (gNodes g))) ns"
  by pat_completeness auto
termination
  by (relation "measure (\<lambda>(k, ns). size_list size ns)") (auto intro: size_group_nodes)

declare scope_ok.simps [simp del]

definition workflow_ok :: "WorkflowContent \<Rightarrow> bool" where
  "workflow_ok wc \<longleftrightarrow> scope_ok (wKeys wc) (wNodes wc) \<and>
     wStartNodeID wc \<in> set (map node_id (wNodes wc)) \<and>
     distinct (map node_id (forest_nodes (wNodes wc))) \<and>
     list_all (\<lambda>n. node_id n \<noteq> []) (forest_nodes (wNodes wc))"

lemma walk_entries_mem:
  "e \<in> set (walk_entries keys anc ns) \<longleftrightarrow>
   (\<exists>n \<in> set ns. e = (n, keys, anc) \<or>
      (\<exists>g. group_of n = Some g \<and> e \<in> set (walk_entries (group_keys g) (anc @ [node_id n]) (gNodes g))))"
proof -
  have *: "e \<in> set (case x of None \<Rightarrow> [] | Some g \<Rightarrow> F g) \<longleftrightarrow> (\<exists>g. x = Some g \<and> e \<in> set (F g))"
    for x :: "GroupContent option" and F by (cases x) auto
  show ?thesis by (subst walk_entries.simps) (simp add: * Bex_def, metis)
qed

lemma walk_entries_nodes: "map fst (walk_entries keys anc ns) = forest_nodes ns"
proof (induction keys anc ns rule: walk_entries.induct)
  case (1 keys anc ns)
  let ?F = "\<lambda>n. (n, keys, anc) # (case group_of n of None \<Rightarrow> []
      | Some g \<Rightarrow> walk_entries (group_keys g) (anc @ [node_id n]) (gNodes g))"
  have "map fst (?F n) = tree_nodes n" if "n \<in> set ns" for n
  proof (cases "group_of n")
    case None
    then show ?thesis using tree_nodes_children [of n] by (simp add: children_def)
  next
    case (Some g)
    with 1 [OF that Some] show ?thesis using tree_nodes_children [of n] by (simp add: children_def)
  qed
  then have "map (\<lambda>n. map fst (?F n)) ns = map tree_nodes ns" by simp
  then show ?case
    unfolding walk_entries.simps [of keys anc ns] map_concat forest_nodes_def map_map comp_def
    by (rule arg_cong)
qed

definition on_entry :: "graph_entry list \<Rightarrow> uid list \<Rightarrow> uid \<Rightarrow> bool" where
  "on_entry E st i \<longleftrightarrow> (\<exists>m k. (m, k, st) \<in> set E \<and> node_id m = i)"

lemma on_entry_top: "i \<in> set (map node_id ns) \<Longrightarrow> on_entry (walk_entries keys anc ns) anc i"
  unfolding on_entry_def by (subst walk_entries_mem) auto

lemma on_entry_group:
  "n \<in> set ns \<Longrightarrow> group_of n = Some g \<Longrightarrow>
   on_entry (walk_entries (group_keys g) (anc @ [node_id n]) (gNodes g)) st i \<Longrightarrow>
   on_entry (walk_entries keys anc ns) st i"
  unfolding on_entry_def by (subst walk_entries_mem) blast

text \<open>The links of an entry lead to entries with the same groups around them.\<close>

lemma entry_links:
  "scope_ok keys ns \<Longrightarrow> (n, k, st) \<in> set (walk_entries keys anc ns) \<Longrightarrow>
   (\<forall>m. m \<in> insert (nNextNode (nfields n)) (insert (case nOnFailure (nfields n) of None \<Rightarrow> [] | Some r \<Rightarrow> fr_next r) (snd ` set k)) \<longrightarrow>
      m = [] \<or> on_entry (walk_entries keys anc ns) st m) \<and>
   (\<forall>g. group_of n = Some g \<longrightarrow> on_entry (walk_entries keys anc ns) (st @ [node_id n]) (gStart g))"
proof (induction keys anc ns rule: walk_entries.induct)
  case (1 keys anc ns)
  let ?E = "walk_entries keys anc ns"
  from "1.prems"(2) obtain p where p: "p \<in> set ns"
    and e: "(n, k, st) = (p, keys, anc) \<or> (\<exists>g. group_of p = Some g \<and>
      (n, k, st) \<in> set (walk_entries (group_keys g) (anc @ [node_id p]) (gNodes g)))"
    by (subst (asm) walk_entries_mem) blast
  from e show ?case
  proof (elim disjE exE conjE)
    assume "(n, k, st) = (p, keys, anc)"
    then have [simp]: "n = p" "k = keys" "st = anc" by auto
    have ok: "link_ok ns (nNextNode (nfields p))"
      "case nOnFailure (nfields p) of None \<Rightarrow> True | Some r \<Rightarrow> fr_next r \<in> set (map node_id ns)"
      "\<And>key t. (key, t) \<in> set keys \<Longrightarrow> link_ok ns t"
      "\<And>g. group_of p = Some g \<Longrightarrow> gStart g \<in> set (map node_id (gNodes g))"
      using "1.prems"(1) p by (subst (asm) scope_ok.simps, force simp: list_all_iff)+
    have "on_entry ?E (st @ [node_id n]) (gStart g)" if "group_of n = Some g" for g
      using on_entry_group [OF p, of g anc "anc @ [node_id p]" "gStart g" keys] that ok(4) [of g]
      by (simp add: on_entry_top)
    moreover have "m = [] \<or> on_entry ?E st m"
      if "m \<in> insert (nNextNode (nfields n)) (insert (case nOnFailure (nfields n) of None \<Rightarrow> [] | Some r \<Rightarrow> fr_next r) (snd ` set k))" for m
      using that ok(1,2,3) on_entry_top [of _ ns keys anc]
      by (auto simp: link_ok_def split: option.splits) blast+
    ultimately show ?case by blast
  next
    fix g assume g: "group_of p = Some g"
      and e': "(n, k, st) \<in> set (walk_entries (group_keys g) (anc @ [node_id p]) (gNodes g))"
    have "scope_ok (group_keys g) (gNodes g)"
      using "1.prems"(1) p g by (subst (asm) scope_ok.simps) (auto simp: list_all_iff)
    from "1.IH" [OF p g this e'] on_entry_group [OF p g, of anc _ _ keys] show ?case by blast
  qed
qed

lemma entry_prefix:
  "(n, k, st) \<in> set (walk_entries keys anc ns) \<Longrightarrow>
   \<exists>rest. st = anc @ rest \<and>
     (\<forall>a p b. rest = a @ [p] @ b \<longrightarrow> on_entry (walk_entries keys anc ns) (anc @ a) p)"
proof (induction keys anc ns rule: walk_entries.induct)
  case (1 keys anc ns)
  let ?E = "walk_entries keys anc ns"
  from "1.prems" obtain q where q: "q \<in> set ns"
    and e: "(n, k, st) = (q, keys, anc) \<or> (\<exists>g. group_of q = Some g \<and>
      (n, k, st) \<in> set (walk_entries (group_keys g) (anc @ [node_id q]) (gNodes g)))"
    by (subst (asm) walk_entries_mem) blast
  from e show ?case
  proof (elim disjE exE conjE)
    fix g assume g: "group_of q = Some g"
      and e': "(n, k, st) \<in> set (walk_entries (group_keys g) (anc @ [node_id q]) (gNodes g))"
    from "1.IH" [OF q g e'] obtain rest where st: "st = (anc @ [node_id q]) @ rest"
      and pre: "\<And>a p b. rest = a @ [p] @ b \<Longrightarrow>
        on_entry (walk_entries (group_keys g) (anc @ [node_id q]) (gNodes g)) ((anc @ [node_id q]) @ a) p"
      by blast
    have "on_entry ?E (anc @ a) p" if "node_id q # rest = a @ [p] @ b" for a p b
    proof (cases a)
      case Nil
      with that q on_entry_top [of p ns keys anc] show ?thesis by auto
    next
      case (Cons x a')
      with that have "rest = a' @ [p] @ b" "x = node_id q" by auto
      from on_entry_group [OF q g pre [OF this(1)]] Cons \<open>x = node_id q\<close> show ?thesis by simp
    qed
    with st show ?case by (intro exI [of _ "node_id q # rest"]) simp
  qed auto
qed

text \<open>With distinct identifiers the maps of the graph hold exactly the entries.\<close>

lemma fold_add_entry:
  "distinct (map (\<lambda>e. node_id (fst e)) E) \<Longrightarrow>
   byID (fold add_entry E g) i = (case find (\<lambda>e. node_id (fst e) = i) E of None \<Rightarrow> byID g i | Some (n, k, st) \<Rightarrow> Some n) \<and>
   keysByNode (fold add_entry E g) i = (case find (\<lambda>e. node_id (fst e) = i) E of None \<Rightarrow> keysByNode g i | Some (n, k, st) \<Rightarrow> Some k) \<and>
   stackByNode (fold add_entry E g) i = (case find (\<lambda>e. node_id (fst e) = i) E of None \<Rightarrow> stackByNode g i | Some (n, k, st) \<Rightarrow> Some st)"
proof (induction E arbitrary: g)
  case (Cons e E)
  have none: "find (\<lambda>e. node_id (fst e) = i) E = None" if "node_id (fst e) = i"
  proof -
    have "i \<notin> (\<lambda>e. node_id (fst e)) ` set E" using Cons.prems that by simp
    then show ?thesis unfolding find_None_iff by blast
  qed
  show ?case
    using Cons none by (cases e) (auto simp: add_entry_def split: option.splits)
qed simp

lemma find_distinct:
  "distinct (map k xs) \<Longrightarrow> find (\<lambda>x. k x = i) xs = Some x \<longleftrightarrow> x \<in> set xs \<and> k x = i"
  by (induction xs) auto

lemma graph_lookup:
  assumes "workflow_ok wc"
  defines "E \<equiv> walk_entries (wKeys wc) [] (wNodes wc)" and "g \<equiv> buildGraph wc"
  shows "stackByNode g i = Some st \<longleftrightarrow> on_entry E st i"
    and "(n, k, st) \<in> set E \<Longrightarrow> byID g (node_id n) = Some n \<and> keysByNode g (node_id n) = Some k \<and>
      stackByNode g (node_id n) = Some st"
    and "byID g i = Some n \<Longrightarrow> \<exists>k st. (n, k, st) \<in> set E \<and> node_id n = i"
    and "keysByNode g i = Some k \<Longrightarrow> \<exists>n st. (n, k, st) \<in> set E \<and> node_id n = i"
proof -
  have "distinct (map node_id (map fst E))"
    using assms(1) by (simp add: E_def walk_entries_nodes workflow_ok_def)
  then have d: "distinct (map (\<lambda>e. node_id (fst e)) E)" by (simp add: comp_def)
  note f = fold_add_entry [OF d, of "\<lparr>byID = Map.empty, keysByNode = Map.empty, stackByNode = Map.empty\<rparr>"]
  note fd = find_distinct [OF d]
  show "stackByNode g i = Some st \<longleftrightarrow> on_entry E st i"
    using f [of i] fd [of i]
    by (auto simp: g_def buildGraph_def E_def [symmetric] on_entry_def split: option.splits) metis+
  show "(n, k, st) \<in> set E \<Longrightarrow> byID g (node_id n) = Some n \<and> keysByNode g (node_id n) = Some k \<and>
      stackByNode g (node_id n) = Some st"
    using f [of "node_id n"] fd [of "node_id n" "(n, k, st)"]
    by (simp add: g_def buildGraph_def E_def [symmetric])
  show "byID g i = Some n \<Longrightarrow> \<exists>k st. (n, k, st) \<in> set E \<and> node_id n = i"
    using f [of i] fd [of i]
    by (auto simp: g_def buildGraph_def E_def [symmetric] split: option.splits) metis+
  show "keysByNode g i = Some k \<Longrightarrow> \<exists>n st. (n, k, st) \<in> set E \<and> node_id n = i"
    using f [of i] fd [of i]
    by (auto simp: g_def buildGraph_def E_def [symmetric] split: option.splits) metis+
qed

lemma groupStack_Inr_iff: "groupStack g i = Inr st \<longleftrightarrow> stackByNode g i = Some st"
  by (simp add: groupStack_def split: option.splits)

lemma groupStack_lookup:
  "workflow_ok wc \<Longrightarrow> groupStack (buildGraph wc) i = Inr st \<longleftrightarrow>
   on_entry (walk_entries (wKeys wc) [] (wNodes wc)) st i"
  by (simp add: groupStack_Inr_iff graph_lookup(1))

lemma groupStack_start: "workflow_ok wc \<Longrightarrow> groupStack (buildGraph wc) (wStartNodeID wc) = Inr []"
  by (simp add: groupStack_lookup on_entry_top workflow_ok_def)

definition graph_good :: "workflowGraph \<Rightarrow> bool" where
  "graph_good g \<longleftrightarrow> (\<exists>wc. workflow_ok wc \<and> g = buildGraph wc)"

lemma graph_good_cases:
  assumes "graph_good g" "groupStack g i = Inr st"
  obtains E n k where "\<And>j s. groupStack g j = Inr s \<longleftrightarrow> on_entry E s j"
    "byID g i = Some n" "keysByNode g i = Some k" "i \<noteq> []"
    "\<And>m. m \<in> insert (nNextNode (nfields n)) (insert (case nOnFailure (nfields n) of None \<Rightarrow> [] | Some r \<Rightarrow> fr_next r) (snd ` set k)) \<Longrightarrow>
      m = [] \<or> on_entry E st m"
    "\<And>h. group_of n = Some h \<Longrightarrow> on_entry E (st @ [i]) (gStart h)"
    "\<And>a p b. st = a @ [p] @ b \<Longrightarrow> on_entry E a p"
proof -
  obtain wc where wc: "workflow_ok wc" and g: "g = buildGraph wc" using assms(1) by (auto simp: graph_good_def)
  define E where "E = walk_entries (wKeys wc) [] (wNodes wc)"
  note lk = graph_lookup [OF wc, folded E_def g] and dom = groupStack_lookup [OF wc, folded E_def g]
  have "on_entry E st i" using assms(2) dom by blast
  then obtain n k where e: "(n, k, st) \<in> set E" and i: "node_id n = i" by (auto simp: on_entry_def)
  have "n \<in> set (forest_nodes (wNodes wc))"
    using imageI [OF e, of fst] unfolding E_def by (simp flip: walk_entries_nodes [of "wKeys wc" "[]"])
  then have ne: "i \<noteq> []" using wc i by (auto simp: workflow_ok_def list_all_iff)
  have sc: "scope_ok (wKeys wc) (wNodes wc)" using wc by (simp add: workflow_ok_def)
  note ln = entry_links [OF sc e [unfolded E_def], folded E_def]
  have pr: "on_entry E a p" if "st = a @ [p] @ b" for a p b
    using entry_prefix [OF e [unfolded E_def], folded E_def] that by auto
  show ?thesis
    by (rule that [OF dom _ _ ne _ _ pr]) (use lk(2) [OF e] i ln in blast)+
qed

interpretation kg: cursor_graph graph_good NextOf StartOf groupStack
proof
  fix g n st m p rest
  assume good: "graph_good g"
  { assume st: "groupStack g n = Inr st"
    from good st obtain E nc k where
      dom: "\<And>j s. groupStack g j = Inr s \<longleftrightarrow> on_entry E s j"
      and nc: "byID g n = Some nc" and ne: "n \<noteq> []"
      and nx: "\<And>m. m = nNextNode (nfields nc) \<Longrightarrow> m = [] \<or> on_entry E st m"
      and gs: "\<And>h. group_of nc = Some h \<Longrightarrow> on_entry E (st @ [n]) (gStart h)"
      by (rule graph_good_cases) blast
    show "\<exists>m. NextOf g n = Inr m" using nc by (simp add: NextOf_def Node_def)
    show "n \<noteq> []" by (rule ne)
    show "NextOf g n = Inr m \<Longrightarrow> m \<noteq> [] \<Longrightarrow> groupStack g m = Inr st"
      using nc nx [of m] dom [of m st] by (auto simp: NextOf_def Node_def)
    show "StartOf g n = Inr m \<Longrightarrow> groupStack g m = Inr (st @ [n])"
      using nc gs dom [of m "st @ [n]"]
      by (auto simp: StartOf_def Node_def split: option.splits) }
  assume st: "groupStack g n = Inr (st @ [p] @ rest)"
  from good st show "groupStack g p = Inr st"
    by (rule graph_good_cases) blast
qed

section \<open>Reachable cursors\<close>

text \<open>
  A link the engine may follow from a node: its next node, the target of one of the keys in
  its scope (a condition's choice, possibly empty), or its failure route.
\<close>

definition choice :: "workflowGraph \<Rightarrow> uid \<Rightarrow> uid \<Rightarrow> bool" where
  "choice g i m \<longleftrightarrow> m = [] \<or> NextOf g i = Inr m \<or> (\<exists>key. KeyTarget g i key = Some m) \<or>
     (\<exists>n r. Node g i = Inr n \<and> nOnFailure (nfields n) = Some r \<and> fr_next r = m)"

inductive cursor_reach :: "workflowGraph \<Rightarrow> uid \<Rightarrow> Frame \<Rightarrow> bool" for g start where
  start: "cursor_reach g start (NewFrame start)"
| enter: "cursor_reach g start f \<Longrightarrow> EnterGroup (StartOf g) f (CurrentNodeID f) = (f', Inr n) \<Longrightarrow>
    cursor_reach g start f'"
| advance: "cursor_reach g start f \<Longrightarrow> choice g (CurrentNodeID f) m \<Longrightarrow>
    Advance (NextOf g) f m = (f', ex, Inr False) \<Longrightarrow> cursor_reach g start f'"

lemma choice_link:
  assumes "graph_good g" "kg.at_node g f" "choice g (CurrentNodeID f) m"
  shows "kg.link g (GroupStack f) m"
proof -
  have st: "groupStack g (CurrentNodeID f) = Inr (GroupStack f)" using assms(2) by (simp add: kg.at_node_def)
  from assms(1) st obtain E nc k where
    dom: "\<And>j s. groupStack g j = Inr s \<longleftrightarrow> on_entry E s j"
    and nc: "byID g (CurrentNodeID f) = Some nc" and k: "keysByNode g (CurrentNodeID f) = Some k"
    and ln: "\<And>m. m \<in> insert (nNextNode (nfields nc)) (insert (case nOnFailure (nfields nc) of None \<Rightarrow> [] | Some r \<Rightarrow> fr_next r) (snd ` set k)) \<Longrightarrow>
      m = [] \<or> on_entry E (GroupStack f) m"
    by (rule graph_good_cases) blast
  have "m = [] \<or> m \<in> insert (nNextNode (nfields nc)) (insert (case nOnFailure (nfields nc) of None \<Rightarrow> [] | Some r \<Rightarrow> fr_next r) (snd ` set k))"
    using assms(3) nc k
    by (auto simp: choice_def NextOf_def Node_def KeyTarget_def dest!: map_of_SomeD) force
  with ln [of m] dom [of m "GroupStack f"] show ?thesis by (auto simp: kg.link_def)
qed

lemma cursor_reach_at_node:
  assumes good: "graph_good g" and start: "groupStack g start = Inr []"
  shows "cursor_reach g start f \<Longrightarrow> kg.at_node g f"
proof (induction rule: cursor_reach.induct)
  case start
  show ?case using assms(2) by (simp add: kg.at_node_def NewFrame_def)
next
  case (enter f f' n)
  then show ?case using kg.EnterGroup_ok [OF good] by blast
next
  case (advance f m f' ex)
  then show ?case using kg.Advance_ok [OF good advance.IH choice_link [OF good advance.IH advance.hyps(2)]]
    by (auto split: if_splits)
qed

section \<open>Cursors of a well-scoped workflow\<close>

definition sample_workflow :: WorkflowContent where
  "sample_workflow = \<lparr>wStartNodeID = ''s'', wKeys = [],
     wNodes = [NodeContent ((plain_node NTScript ''s'')\<lparr>nNextNode := ''g''\<rparr>) None,
               NodeContent (plain_node NTGroup ''g'')
                 (Some (GroupContent ''c'' None [NodeContent (plain_node NTScript ''c'') None]))],
     wContextMode = None, wStatusUpdate = None\<rparr>"

lemma sample_workflow_ok: "workflow_ok sample_workflow"
  by code_simp

lemma sample_reach: "cursor_reach (buildGraph sample_workflow) (wStartNodeID sample_workflow)
    \<lparr>CurrentNodeID = ''c'', GroupStack = [''g'']\<rparr>"
proof -
  let ?g = "buildGraph sample_workflow"
  have "cursor_reach ?g ''s'' (NewFrame ''s'')" by (rule cursor_reach.start)
  moreover have "NextOf ?g ''s'' = Inr ''g''" by code_simp
  then have "choice ?g (CurrentNodeID (NewFrame ''s'')) ''g''" by (simp add: choice_def NewFrame_def)
  moreover have "Advance (NextOf ?g) (NewFrame ''s'') ''g'' = (NewFrame ''g'', [], Inr False)" by code_simp
  ultimately have "cursor_reach ?g ''s'' (NewFrame ''g'')" by (rule cursor_reach.advance)
  moreover have "EnterGroup (StartOf ?g) (NewFrame ''g'') (CurrentNodeID (NewFrame ''g'')) =
      (\<lparr>CurrentNodeID = ''c'', GroupStack = [''g'']\<rparr>, Inr ''c'')" by code_simp
  ultimately have "cursor_reach ?g ''s'' \<lparr>CurrentNodeID = ''c'', GroupStack = [''g'']\<rparr>"
    by (rule cursor_reach.enter)
  then show ?thesis by (simp add: sample_workflow_def)
qed

text \<open>Reachable cursors stand on nodes of the graph.\<close>

lemma cursor_reach_integrity:
  assumes "workflow_ok wc" "cursor_reach (buildGraph wc) (wStartNodeID wc) f"
  shows "groupStack (buildGraph wc) (CurrentNodeID f) = Inr (GroupStack f) \<and>
    (\<exists>n. Node (buildGraph wc) (CurrentNodeID f) = Inr n \<and> node_id n = CurrentNodeID f)"
proof -
  have good: "graph_good (buildGraph wc)" using assms(1) by (auto simp: graph_good_def)
  from cursor_reach_at_node [OF good groupStack_start [OF assms(1)] assms(2)]
  have st: "groupStack (buildGraph wc) (CurrentNodeID f) = Inr (GroupStack f)" by (simp add: kg.at_node_def)
  then obtain n where n: "byID (buildGraph wc) (CurrentNodeID f) = Some n"
    using good by (metis graph_good_cases)
  with st graph_lookup(3) [OF assms(1) n] show ?thesis by (auto simp: Node_def)
qed

text \<open>Advancing from a reachable cursor never fails.\<close>

lemma Advance_total:
  assumes "workflow_ok wc" "cursor_reach (buildGraph wc) (wStartNodeID wc) f"
    and "choice (buildGraph wc) (CurrentNodeID f) m"
  shows "\<exists>f' ex done. Advance (NextOf (buildGraph wc)) f m = (f', ex, Inr done) \<and>
    GroupStack f = GroupStack f' @ rev ex \<and> (done \<longleftrightarrow> CurrentNodeID f' = []) \<and>
    (CurrentNodeID f' = [] \<longrightarrow> GroupStack f' = [])"
proof -
  have good: "graph_good (buildGraph wc)" using assms(1) by (auto simp: graph_good_def)
  have at: "kg.at_node (buildGraph wc) f"
    using cursor_reach_at_node [OF good groupStack_start [OF assms(1)] assms(2)] .
  obtain f' ex dn where A: "Advance (NextOf (buildGraph wc)) f m = (f', ex, Inr dn)"
    and S: "GroupStack f = GroupStack f' @ rev ex"
    and D: "if dn then GroupStack f' = [] \<and> CurrentNodeID f' = [] else kg.at_node (buildGraph wc) f'"
    using kg.Advance_ok [OF good at choice_link [OF good at assms(3)]] by blast
  have "CurrentNodeID f' \<noteq> []" if "\<not> dn"
    using D that kg.no_empty [OF good] by (auto simp: kg.at_node_def)
  with A S D show ?thesis by (cases dn) auto
qed

end
