(* ===== verification/Validate.thy ===== *)
theory Validate
  imports Kernel
begin

text \<open>
  Validation of a workflow tree: \<open>ValidateWorkflowContent\<close> and its helpers of
  \<open>internal/workflow/model/workflowcontent.go\<close>, and the checks on parallel blocks of
  \<open>internal/workflow/model/parallel.go\<close> (pairing of start and end nodes, the abstract walk
  over the paths of every branch, nesting depth, the interior of parallel regions).

  The work lists of the Go loops are stacks; a list here has the top first. The loops carry
  fuel, the number of iterations they may still make: \<open>WalkDiverged\<close> stands for a
  loop that would still be running. A Go map iterated in unspecified order is iterated in key
  order; that only decides which of several errors is reported. \<open>valid_id\<close> is
  \<open>ids.Valid\<close>, a call of the uuid package.
\<close>

section \<open>Errors\<close>

datatype val_error =
    BadContextMode string
  | BadStartNode
  | NoNodes
  | BadNodeID
  | DuplicateNode uid
  | StartNotFound uid
  | EmptyKeyName string
  | KeyOutOfScope string string
  | DuplicateIn uid string
  | NextOutOfScope uid uid
  | FailureOutOfScope uid uid
  | ConditionKeyUndefined string uid
  | BranchTargetsStart uid string
  | BranchTargetOutOfScope uid string uid
  | EndOutOfScope uid uid
  | EndNotParallelEnd uid uid
  | EndPairedTwice uid uid uid
  | EndNotPaired uid
  | ExitsUnknownGroup uid string uid
  | NeverLeadsToEnd uid string uid uid
  | ReachesUnknownNode uid string uid
  | LoopsBackToStart uid string
  | NilGroup uid
  | NoPathToEnd uid string uid
  | NestedInOwnBranches uid
  | NestsTooDeep uid int
  | WalkDiverged

section \<open>Scopes, links and keys\<close>

text \<open>\<open>walkIDs\<close>: \<open>seen\<close> maps an identifier to the owner it was found in.\<close>

function walkIDs :: "NodeContent \<Rightarrow> string \<Rightarrow> (uid \<times> string) list \<Rightarrow> val_error + (uid \<times> string) list" where
  "walkIDs nc owner seen =
     (case map_of seen (node_id nc) of
        Some prev \<Rightarrow> Inl (DuplicateIn (node_id nc) prev)
      | None \<Rightarrow> foldR (\<lambda>child. walkIDs child (node_id nc)) (children nc) ((node_id nc, owner) # seen))"
  by pat_completeness auto
termination
  by (relation "measure (\<lambda>(nc, owner, seen). size nc)") (auto dest: size_children)

declare walkIDs.simps [simp del]

fun validateKeys :: "(string \<times> uid) list \<Rightarrow> uid list \<Rightarrow> string \<Rightarrow> val_error + unit" where
  "validateKeys [] siblings scope = Inr ()"
| "validateKeys ((key, target) # keys) siblings scope =
     (if trim_space key = [] then Inl (EmptyKeyName scope)
      else if target \<noteq> [] \<and> target \<notin> set siblings then Inl (KeyOutOfScope key scope)
      else validateKeys keys siblings scope)"

definition undefined_condition :: "NodeContent \<Rightarrow> (string \<times> uid) list \<Rightarrow> Condition option" where
  "undefined_condition nc keys =
     (if node_type nc = NTConditions
      then find (\<lambda>c. cond_key c \<noteq> [] \<and> map_of keys (cond_key c) = None) (nConditions (nfields nc))
      else None)"

definition own_links :: "NodeContent \<Rightarrow> uid list \<Rightarrow> (string \<times> uid) list \<Rightarrow> val_error + unit" where
  "own_links nc siblings keys =
     (let f = nfields nc in
      if nNextNode f \<noteq> [] \<and> nNextNode f \<notin> set siblings
      then Inl (NextOutOfScope (nNextNode f) (nID f))
      else if nOnFailure f \<noteq> None \<and> fr_next (the (nOnFailure f)) \<notin> set siblings
      then Inl (FailureOutOfScope (fr_next (the (nOnFailure f))) (nID f))
      else case undefined_condition nc keys of
        Some c \<Rightarrow> Inl (ConditionKeyUndefined (cond_key c) (nID f))
      | None \<Rightarrow> Inr ())"

function validateLinks :: "NodeContent \<Rightarrow> uid list \<Rightarrow> (string \<times> uid) list \<Rightarrow> val_error + unit" where
  "validateLinks nc siblings keys =
     bindR (own_links nc siblings keys) (\<lambda>_.
     case group_of nc of
       None \<Rightarrow> Inr ()
     | Some g \<Rightarrow>
         if nDefinitionID (nfields nc) \<noteq> [] \<and> gNodes g = [] then Inr ()
         else
           bindR (validateKeys (group_keys g) (map node_id (gNodes g)) (node_id nc)) (\<lambda>_.
           foldR (\<lambda>child _. validateLinks child (map node_id (gNodes g)) (group_keys g))
             (gNodes g) ()))"
  by pat_completeness auto
termination
  by (relation "measure (\<lambda>(nc, s, k). size nc)") (auto intro!: size_children simp: children_def)

declare validateLinks.simps [simp del]

section \<open>Parallel scopes\<close>

definition parallelUnresolved :: "NodeContent \<Rightarrow> bool" where
  "parallelUnresolved nc \<longleftrightarrow> nDefinitionID (nfields nc) \<noteq> [] \<and>
     (node_type nc = NTParallelStart \<and> nParallelBranches (nfields nc) = None \<or>
      node_type nc = NTParallelEnd \<and> nCombiningScript (nfields nc) = [])"

definition branches_of :: "NodeContent \<Rightarrow> (string \<times> uid) list" where
  "branches_of nc = (case nParallelBranches (nfields nc) of None \<Rightarrow> [] | Some b \<Rightarrow> b)"

definition node_by_id :: "NodeContent list \<Rightarrow> uid \<Rightarrow> NodeContent option" where
  "node_by_id ns i = map_of (rev (map (\<lambda>n. (node_id n, n)) ns)) i"

definition check_target :: "NodeContent list \<Rightarrow> uid \<Rightarrow> string \<times> uid \<Rightarrow> val_error + unit" where
  "check_target ns start nt =
     (if snd nt = start then Inl (BranchTargetsStart start (fst nt))
      else if node_by_id ns (snd nt) = None then Inl (BranchTargetOutOfScope start (fst nt) (snd nt))
      else Inr ())"

text \<open>One resolved start: \<open>paired\<close> maps an end node to the start that claimed it.\<close>

definition pair_start ::
  "NodeContent list \<Rightarrow> NodeContent \<Rightarrow> (uid \<times> uid) list \<Rightarrow> val_error + (uid \<times> uid) list" where
  "pair_start ns nc paired =
     (if node_type nc \<noteq> NTParallelStart \<or> parallelUnresolved nc then Inr paired
      else
        bindR (foldR (\<lambda>nt _. check_target ns (node_id nc) nt) (branches_of nc) ()) (\<lambda>_.
        let e = nParallelEndNodeID (nfields nc) in
        case node_by_id ns e of
          None \<Rightarrow> Inl (EndOutOfScope (node_id nc) e)
        | Some en \<Rightarrow>
            if node_type en \<noteq> NTParallelEnd then Inl (EndNotParallelEnd (node_id nc) e)
            else case map_of paired e of
              Some prev \<Rightarrow> Inl (EndPairedTwice e prev (node_id nc))
            | None \<Rightarrow> Inr ((e, node_id nc) # paired)))"

definition check_end :: "(uid \<times> uid) list \<Rightarrow> NodeContent \<Rightarrow> val_error + unit" where
  "check_end paired nc =
     (if node_type nc \<noteq> NTParallelEnd \<or> parallelUnresolved nc then Inr ()
      else if map_of paired (node_id nc) = None then Inl (EndNotPaired (node_id nc))
      else Inr ())"

function validateParallelScope :: "NodeContent list \<Rightarrow> val_error + unit" where
  "validateParallelScope ns =
     bindR (foldR (pair_start ns) ns []) (\<lambda>paired.
     bindR (foldR (\<lambda>nc _. check_end paired nc) ns ()) (\<lambda>_.
     foldR (\<lambda>nc _. case group_of nc of None \<Rightarrow> Inr () | Some g \<Rightarrow> validateParallelScope (gNodes g)) ns ()))"
  by pat_completeness auto
termination
  by (relation "measure (\<lambda>ns. size_list size ns)") (auto intro: size_group_nodes)

declare validateParallelScope.simps [simp del]

section \<open>The tree index\<close>

record parallelTreeIndex =
  ix_byID :: "uid \<rightharpoonup> NodeContent"
  ix_scope :: "uid \<rightharpoonup> uid"
  ix_keys :: "uid \<rightharpoonup> (string \<times> uid) list"
  ix_base :: "uid \<rightharpoonup> uid list"

function index_walk ::
  "NodeContent list \<Rightarrow> uid \<Rightarrow> uid list \<Rightarrow> (string \<times> uid) list \<Rightarrow> parallelTreeIndex \<Rightarrow> parallelTreeIndex" where
  "index_walk ns scopeID stack keys idx =
     fold (\<lambda>nc ix.
       let ix' = ix\<lparr>ix_byID := (ix_byID ix)(node_id nc \<mapsto> nc),
                    ix_scope := (ix_scope ix)(node_id nc \<mapsto> scopeID),
                    ix_base := (ix_base ix)(node_id nc \<mapsto> stack)\<rparr>
       in case group_of nc of
            None \<Rightarrow> ix'
          | Some g \<Rightarrow> index_walk (gNodes g) (node_id nc) (stack @ [node_id nc]) (group_keys g) ix')
       ns (idx\<lparr>ix_keys := (ix_keys idx)(scopeID \<mapsto> keys)\<rparr>)"
  by pat_completeness auto
termination
  by (relation "measure (\<lambda>(ns, s, st, k, idx). size_list size ns)") (auto intro: size_group_nodes)

declare index_walk.simps [simp del]

definition indexParallelTree :: "WorkflowContent \<Rightarrow> parallelTreeIndex" where
  "indexParallelTree wc = index_walk (wNodes wc) [] [] (wKeys wc)
     \<lparr>ix_byID = Map.empty, ix_scope = Map.empty, ix_keys = Map.empty, ix_base = Map.empty\<rparr>"

definition base_of :: "parallelTreeIndex \<Rightarrow> uid \<Rightarrow> uid list" where
  "base_of idx i = (case ix_base idx i of None \<Rightarrow> [] | Some st \<Rightarrow> st)"

text \<open>\<open>idx.keys[idx.scope[id]]\<close>, with Go's zero values for missing keys.\<close>

definition scope_keys :: "parallelTreeIndex \<Rightarrow> uid \<Rightarrow> (string \<times> uid) list" where
  "scope_keys idx i =
     (let sc = (case ix_scope idx i of None \<Rightarrow> [] | Some s \<Rightarrow> s)
      in case ix_keys idx sc of None \<Rightarrow> [] | Some k \<Rightarrow> k)"

definition resolved_starts :: "NodeContent list \<Rightarrow> NodeContent list" where
  "resolved_starts ns =
     filter (\<lambda>nc. node_type nc = NTParallelStart \<and> \<not> parallelUnresolved nc) (forest_nodes ns)"

definition parallelOpaque :: "NodeContent \<Rightarrow> bool" where
  "parallelOpaque nc \<longleftrightarrow> nDefinitionID (nfields nc) \<noteq> [] \<and>
     (case node_type nc of
        NTConditions \<Rightarrow> nConditions (nfields nc) = []
      | NTGroup \<Rightarrow> children nc = []
      | NTParallelStart \<Rightarrow> nParallelBranches (nfields nc) = None
      | _ \<Rightarrow> False)"

section \<open>Walking a branch\<close>

type_synonym cursor = "uid \<times> uid list"

text \<open>
  The closure \<open>advance\<close> of \<open>walkBranch\<close>: \<open>climb\<close> pops groups (the stack reversed) while
  there is no target and the stack is longer than the start's own.
\<close>

fun climb :: "(uid \<rightharpoonup> NodeContent) \<Rightarrow> nat \<Rightarrow> uid \<Rightarrow> uid list \<Rightarrow> uid + uid \<times> uid list" where
  "climb nodes base next [] = Inr (next, [])"
| "climb nodes base next (g # rest) =
     (if next = [] \<and> base < length (g # rest) then
        (case nodes g of
           None \<Rightarrow> Inl g
         | Some n \<Rightarrow> climb nodes base (nNextNode (nfields n)) rest)
      else Inr (next, g # rest))"

definition walk_advance ::
  "parallelTreeIndex \<Rightarrow> NodeContent \<Rightarrow> string \<Rightarrow> uid \<Rightarrow> uid list \<Rightarrow> uid \<Rightarrow> val_error + cursor" where
  "walk_advance idx s branch from stack next =
     (case climb (ix_byID idx) (length (base_of idx (node_id s))) next (rev stack) of
        Inl g \<Rightarrow> Inl (ExitsUnknownGroup (node_id s) branch g)
      | Inr (next', rest) \<Rightarrow>
          if next' = [] then Inl (NeverLeadsToEnd (node_id s) branch from (nParallelEndNodeID (nfields s)))
          else Inr (next', rev rest))"

fun condition_moves ::
  "(uid \<Rightarrow> val_error + cursor) \<Rightarrow> (string \<times> uid) list \<Rightarrow> uid \<Rightarrow> Condition list \<Rightarrow> val_error + cursor list" where
  "condition_moves adv keys i [] = Inr []"
| "condition_moves adv keys i (c # cs) =
     bindR (if cond_key c = [] then adv []
            else case map_of keys (cond_key c) of
              None \<Rightarrow> Inl (ConditionKeyUndefined (cond_key c) i)
            | Some t \<Rightarrow> adv t) (\<lambda>m.
     bindR (condition_moves adv keys i cs) (\<lambda>ms. Inr (m # ms)))"

text \<open>The cursors pushed for one node, in the order they are appended.\<close>

definition type_moves ::
  "parallelTreeIndex \<Rightarrow> NodeContent \<Rightarrow> string \<Rightarrow> NodeContent \<Rightarrow> uid list \<Rightarrow> val_error + cursor list" where
  "type_moves idx s branch nc stack =
     (case node_type nc of
        NTParallelStart \<Rightarrow>
          if node_id nc = node_id s then Inl (LoopsBackToStart (node_id s) branch)
          else Inr [(nParallelEndNodeID (nfields nc), stack)]
      | NTConditions \<Rightarrow>
          condition_moves (walk_advance idx s branch (node_id nc) stack)
            (scope_keys idx (node_id nc)) (node_id nc) (nConditions (nfields nc))
      | NTGroup \<Rightarrow>
          (case group_of nc of
             None \<Rightarrow> Inl (NilGroup (node_id nc))
           | Some g \<Rightarrow> Inr [(gStart g, stack @ [node_id nc])])
      | _ \<Rightarrow> bindR (walk_advance idx s branch (node_id nc) stack (nNextNode (nfields nc))) (\<lambda>m. Inr [m]))"

definition walk_moves ::
  "parallelTreeIndex \<Rightarrow> NodeContent \<Rightarrow> string \<Rightarrow> NodeContent \<Rightarrow> uid list \<Rightarrow> val_error + cursor list" where
  "walk_moves idx s branch nc stack =
     bindR (type_moves idx s branch nc stack) (\<lambda>ms.
     case nOnFailure (nfields nc) of
       None \<Rightarrow> Inr ms
     | Some r \<Rightarrow> bindR (walk_advance idx s branch (node_id nc) stack (fr_next r)) (\<lambda>m. Inr (ms @ [m])))"

type_synonym parents = "uid \<Rightarrow> uid list"

definition appendParallelParent :: "uid list \<Rightarrow> uid \<Rightarrow> uid list" where
  "appendParallelParent ps p = (if p \<in> set ps then ps else ps @ [p])"

definition note_parent :: "NodeContent \<Rightarrow> NodeContent \<Rightarrow> parents \<Rightarrow> parents" where
  "note_parent s nc ps =
     (if node_type nc = NTParallelStart \<and> node_id nc \<noteq> node_id s
      then ps(node_id nc := appendParallelParent (ps (node_id nc)) (node_id s))
      else ps)"

fun walk_loop ::
  "nat \<Rightarrow> parallelTreeIndex \<Rightarrow> NodeContent \<Rightarrow> string \<Rightarrow> cursor list \<Rightarrow> cursor list \<Rightarrow> bool \<Rightarrow> parents \<Rightarrow>
   val_error + cursor list \<times> bool \<times> parents" where
  "walk_loop fuel idx s branch [] visited reached ps = Inr (visited, reached, ps)"
| "walk_loop 0 idx s branch (c # work) visited reached ps = Inl WalkDiverged"
| "walk_loop (Suc fuel) idx s branch (c # work) visited reached ps =
     (if fst c = nParallelEndNodeID (nfields s) then walk_loop fuel idx s branch work visited True ps
      else if c \<in> set visited then walk_loop fuel idx s branch work visited reached ps
      else case ix_byID idx (fst c) of
        None \<Rightarrow> Inl (ReachesUnknownNode (node_id s) branch (fst c))
      | Some nc \<Rightarrow>
          if parallelOpaque nc then walk_loop fuel idx s branch work (c # visited) reached ps
          else bindR (walk_moves idx s branch nc (snd c)) (\<lambda>ms.
            walk_loop fuel idx s branch (rev ms @ work) (c # visited) reached (note_parent s nc ps)))"

definition walkBranch ::
  "nat \<Rightarrow> parallelTreeIndex \<Rightarrow> NodeContent \<Rightarrow> string \<times> uid \<Rightarrow> parents \<Rightarrow> val_error + parents" where
  "walkBranch fuel idx s nt ps =
     bindR (walk_loop fuel idx s (fst nt) [(snd nt, base_of idx (node_id s))] [] False ps)
       (\<lambda>(visited, reached, ps').
          if \<not> reached then Inl (NoPathToEnd (node_id s) (fst nt) (nParallelEndNodeID (nfields s)))
          else Inr ps')"

definition validateStartConvergence ::
  "nat \<Rightarrow> parallelTreeIndex \<Rightarrow> NodeContent \<Rightarrow> parents \<Rightarrow> val_error + parents" where
  "validateStartConvergence fuel idx s ps = foldR (walkBranch fuel idx s) (branches_of s) ps"

section \<open>Nesting depth\<close>

fun compute_depth ::
  "nat \<Rightarrow> parents \<Rightarrow> uid list \<Rightarrow> uid \<Rightarrow> (uid \<times> int) list \<Rightarrow> val_error + int \<times> (uid \<times> int) list" where
  "compute_depth fuel ps visiting i depth =
     (case map_of depth i of
        Some d \<Rightarrow> Inr (d, depth)
      | None \<Rightarrow>
          if i \<in> set visiting then Inl (NestedInOwnBranches i)
          else case fuel of
            0 \<Rightarrow> Inl WalkDiverged
          | Suc f \<Rightarrow>
              bindR (foldR (\<lambda>p (d, depth).
                  bindR (compute_depth f ps (i # visiting) p depth) (\<lambda>(pd, depth').
                  Inr (max d (pd + 1), depth'))) (ps i) (1, depth)) (\<lambda>(d, depth').
              Inr (d, (i, d) # depth')))"

declare compute_depth.simps [simp del]

definition check_depth ::
  "nat \<Rightarrow> parents \<Rightarrow> int \<Rightarrow> NodeContent \<Rightarrow> (uid \<times> int) list \<Rightarrow> val_error + (uid \<times> int) list" where
  "check_depth fuel ps maxDepth s depth =
     bindR (compute_depth fuel ps [] (node_id s) depth) (\<lambda>(d, depth').
     if maxDepth < d then Inl (NestsTooDeep (node_id s) d) else Inr depth')"

definition validateParallelDepth :: "NodeContent list \<Rightarrow> parents \<Rightarrow> int \<Rightarrow> val_error + unit" where
  "validateParallelDepth starts ps maxDepth =
     bindR (foldR (check_depth (Suc (length starts)) ps maxDepth) starts []) (\<lambda>_. Inr ())"

section \<open>The whole validation\<close>

text \<open>
  The fuel of one branch walk: every node of the tree is expanded at most once and pushes at
  most one cursor per condition and two more.
\<close>

definition out_degree :: "NodeContent \<Rightarrow> nat" where
  "out_degree nc = length (nConditions (nfields nc)) + 2"

definition walk_fuel :: "WorkflowContent \<Rightarrow> nat" where
  "walk_fuel wc = Suc (sum_list (map out_degree (forest_nodes (wNodes wc))))"

definition validateParallelConvergence :: "WorkflowContent \<Rightarrow> ParallelLimits \<Rightarrow> val_error + unit" where
  "validateParallelConvergence wc limits =
     (let idx = indexParallelTree wc; starts = resolved_starts (wNodes wc) in
      bindR (foldR (validateStartConvergence (walk_fuel wc) idx) starts (\<lambda>_. [])) (\<lambda>ps.
      validateParallelDepth starts ps (MaxDepth limits)))"

definition validateParallelScopes :: "WorkflowContent \<Rightarrow> ParallelLimits \<Rightarrow> val_error + unit" where
  "validateParallelScopes wc limits =
     (let limits' = effectiveParallelLimits limits in
      bindR (validateParallelScope (wNodes wc)) (\<lambda>_. validateParallelConvergence wc limits'))"

fun check_siblings :: "(uid \<Rightarrow> bool) \<Rightarrow> uid list \<Rightarrow> NodeContent list \<Rightarrow> val_error + unit" where
  "check_siblings valid_id seen [] = Inr ()"
| "check_siblings valid_id seen (nc # ns) =
     (if \<not> valid_id (node_id nc) then Inl BadNodeID
      else if node_id nc \<in> set seen then Inl (DuplicateNode (node_id nc))
      else check_siblings valid_id (node_id nc # seen) ns)"

definition ValidateWorkflowContent ::
  "(uid \<Rightarrow> bool) \<Rightarrow> WorkflowContent \<Rightarrow> ParallelLimits \<Rightarrow> val_error + unit" where
  "ValidateWorkflowContent valid_id wc limits =
     (if wContextMode wc \<notin> {None, Some ContextModeFull, Some ContextModeLean}
      then Inl (BadContextMode (the (wContextMode wc)))
      else if \<not> valid_id (wStartNodeID wc) then Inl BadStartNode
      else if wNodes wc = [] then Inl NoNodes
      else
        let siblings = map node_id (wNodes wc) in
        bindR (check_siblings valid_id [] (wNodes wc)) (\<lambda>_.
        if wStartNodeID wc \<notin> set siblings then Inl (StartNotFound (wStartNodeID wc))
        else
          bindR (validateKeys (wKeys wc) siblings ''workflow'') (\<lambda>_.
          bindR (foldR (\<lambda>nc. walkIDs nc ''workflow'') (wNodes wc) []) (\<lambda>_.
          bindR (foldR (\<lambda>nc _. validateLinks nc siblings (wKeys wc)) (wNodes wc) ()) (\<lambda>_.
          validateParallelScopes wc limits)))))"

end
