(* ===== verification/ParallelSafety.thy ===== *)
theory ParallelSafety
  imports Validate
begin

text \<open>
  What validation guarantees: a validated tree satisfies \<open>workflow_ok\<close> (so the cursor
  theorems of \<open>Kernel\<close> apply to it), the branch walks end within their fuel, and no path
  that starts at a branch of a validated parallel block can leave the block other than
  through its end node.
\<close>

section \<open>From validation to well-scoped trees\<close>

text \<open>
  What the parser guarantees of every group of a tree (\<open>parseRawNode\<close>: a group lists its
  start among its children, and identifiers are not empty).
\<close>

definition parsed_tree :: "WorkflowContent \<Rightarrow> bool" where
  "parsed_tree wc \<longleftrightarrow>
     list_all (\<lambda>n. node_id n \<noteq> [] \<and>
       (case group_of n of None \<Rightarrow> True | Some g \<Rightarrow> gStart g \<in> set (map node_id (gNodes g))))
     (forest_nodes (wNodes wc))"

definition adds_ids :: "NodeContent list \<Rightarrow> (uid \<times> string) list \<Rightarrow> (uid \<times> string) list \<Rightarrow> bool" where
  "adds_ids ns s s' \<longleftrightarrow> map fst s' = rev (map node_id ns) @ map fst s \<and>
     (distinct (map fst s) \<longrightarrow> distinct (map fst s'))"

lemma adds_ids_append: "adds_ids ms s s1 \<Longrightarrow> adds_ids ns s1 s' \<Longrightarrow> adds_ids (ms @ ns) s s'"
  unfolding adds_ids_def by (metis append_assoc map_append rev_append)

lemma foldR_adds_ids:
  "(\<And>c s s'. c \<in> set cs \<Longrightarrow> f c s = Inr s' \<Longrightarrow> adds_ids (tree_nodes c) s s') \<Longrightarrow>
   foldR f cs s = Inr s' \<Longrightarrow> adds_ids (forest_nodes cs) s s'"
proof (induction cs arbitrary: s)
  case Nil
  then show ?case by (simp add: adds_ids_def)
next
  case (Cons c cs)
  from Cons.prems(2) obtain s1 where s1: "f c s = Inr s1" "foldR f cs s1 = Inr s'"
    by (auto simp: bindR_Inr_iff)
  have "adds_ids (tree_nodes c) s s1" using Cons.prems(1) [OF _ s1(1)] by simp
  moreover have "adds_ids (forest_nodes cs) s1 s'" by (rule Cons.IH [OF Cons.prems(1) s1(2)]) auto
  ultimately show ?case unfolding forest_nodes_simps by (rule adds_ids_append)
qed

lemma walkIDs_tree: "walkIDs nc owner seen = Inr seen' \<Longrightarrow> adds_ids (tree_nodes nc) seen seen'"
proof (induction nc owner seen arbitrary: seen' rule: walkIDs.induct)
  case (1 nc owner seen)
  from "1.prems" have none: "map_of seen (node_id nc) = None"
    and run: "foldR (\<lambda>child. walkIDs child (node_id nc)) (children nc) ((node_id nc, owner) # seen) = Inr seen'"
    by (subst (asm) walkIDs.simps, auto split: option.splits)+
  have "adds_ids (forest_nodes (children nc)) ((node_id nc, owner) # seen) seen'"
    by (rule foldR_adds_ids [OF "1.IH" [OF none] run])
  moreover have "adds_ids [nc] seen ((node_id nc, owner) # seen)"
    using none by (simp add: adds_ids_def map_of_eq_None_iff)
  ultimately show ?case unfolding tree_nodes_children [of nc]
    using adds_ids_append [of "[nc]"] by fastforce
qed

lemma walkIDs_forest:
  "foldR (\<lambda>nc. walkIDs nc owner) ns [] = Inr s' \<Longrightarrow> distinct (map node_id (forest_nodes ns))"
proof -
  assume "foldR (\<lambda>nc. walkIDs nc owner) ns [] = Inr s'"
  then have "adds_ids (forest_nodes ns) [] s'"
    by (rule foldR_adds_ids [rotated]) (rule walkIDs_tree)
  then have "map fst s' = rev (map node_id (forest_nodes ns)) \<and> distinct (map fst s')"
    unfolding adds_ids_def list.map(1) append_Nil2 distinct.simps(1) by blast
  then show ?thesis by (metis distinct_rev)
qed

lemma validateKeys_ok:
  "validateKeys keys (map node_id ns) scope = Inr () \<Longrightarrow> list_all (\<lambda>(_, t). link_ok ns t) keys"
  by (induction keys) (auto simp: link_ok_def split: if_splits)

lemma own_links_ok:
  "own_links nc (map node_id ns) keys = Inr () \<Longrightarrow>
   link_ok ns (nNextNode (nfields nc)) \<and>
   (case nOnFailure (nfields nc) of None \<Rightarrow> True | Some r \<Rightarrow> fr_next r \<in> set (map node_id ns)) \<and>
   undefined_condition nc keys = None"
  by (auto simp: own_links_def Let_def link_ok_def split: if_splits option.splits)

lemma validateLinks_scope:
  "foldR (\<lambda>nc _. validateLinks nc (map node_id ns) keys) ns () = Inr () \<Longrightarrow>
   validateKeys keys (map node_id ns) sc = Inr () \<Longrightarrow>
   list_all (\<lambda>n. case group_of n of None \<Rightarrow> True | Some g \<Rightarrow> gStart g \<in> set (map node_id (gNodes g)))
     (forest_nodes ns) \<Longrightarrow>
   scope_ok keys ns"
proof (induction keys ns arbitrary: sc rule: scope_ok.induct)
  case (1 keys ns)
  have each: "validateLinks n (map node_id ns) keys = Inr ()" if "n \<in> set ns" for n
    using "1.prems"(1) that by (simp add: foldR_unit_iff)
  have own: "own_links n (map node_id ns) keys = Inr ()" if "n \<in> set ns" for n
    using each [OF that] by (subst (asm) validateLinks.simps) (auto simp: bindR_Inr_iff)
  have grp: "gStart g \<in> set (map node_id (gNodes g)) \<and> scope_ok (group_keys g) (gNodes g)"
    if n: "n \<in> set ns" and g: "group_of n = Some g" for n g
  proof
    show start: "gStart g \<in> set (map node_id (gNodes g))"
      using "1.prems"(3) forest_nodes_mem [OF n] g by (auto simp: list_all_iff)
    then have "gNodes g \<noteq> []" by auto
    with each [OF n] g have k: "validateKeys (group_keys g) (map node_id (gNodes g)) (node_id n) = Inr ()"
      and l: "foldR (\<lambda>nc _. validateLinks nc (map node_id (gNodes g)) (group_keys g)) (gNodes g) () = Inr ()"
      by (subst (asm) validateLinks.simps, auto simp: bindR_Inr_iff)+
    have "set (forest_nodes (gNodes g)) \<subseteq> set (tree_nodes n)"
      using g by (subst tree_nodes_children) (auto simp: children_def)
    also have "\<dots> \<subseteq> set (forest_nodes ns)" using n by (auto simp: forest_nodes_def)
    finally have sub: "set (forest_nodes (gNodes g)) \<subseteq> set (forest_nodes ns)" .
    show "scope_ok (group_keys g) (gNodes g)"
      by (rule "1.IH" [OF n g l k]) (use "1.prems"(3) sub in \<open>auto simp: list_all_iff\<close>)
  qed
  show ?case
    using validateKeys_ok [OF "1.prems"(2)] own_links_ok [OF own] grp
    by (subst scope_ok.simps) (auto simp: list_all_iff split: option.splits)
qed

lemma Validate_parts:
  assumes "ValidateWorkflowContent valid_id wc limits = Inr ()"
  shows "wStartNodeID wc \<in> set (map node_id (wNodes wc))"
    and "validateKeys (wKeys wc) (map node_id (wNodes wc)) ''workflow'' = Inr ()"
    and "\<exists>seen. foldR (\<lambda>nc. walkIDs nc ''workflow'') (wNodes wc) [] = Inr seen"
    and "foldR (\<lambda>nc _. validateLinks nc (map node_id (wNodes wc)) (wKeys wc)) (wNodes wc) () = Inr ()"
    and "validateParallelScopes wc limits = Inr ()"
  using assms unfolding ValidateWorkflowContent_def
  by (auto simp: Let_def bindR_Inr_iff split: if_split_asm)

lemma workflow_ok_parts:
  assumes "wStartNodeID wc \<in> set (map node_id (wNodes wc))"
    and "validateKeys (wKeys wc) (map node_id (wNodes wc)) ''workflow'' = Inr ()"
    and "\<exists>seen. foldR (\<lambda>nc. walkIDs nc ''workflow'') (wNodes wc) [] = Inr seen"
    and "foldR (\<lambda>nc _. validateLinks nc (map node_id (wNodes wc)) (wKeys wc)) (wNodes wc) () = Inr ()"
    and p: "parsed_tree wc"
  shows "workflow_ok wc"
proof -
  from assms(3) have "distinct (map node_id (forest_nodes (wNodes wc)))" using walkIDs_forest by blast
  moreover have "scope_ok (wKeys wc) (wNodes wc)"
    by (rule validateLinks_scope [OF assms(4,2)]) (use p in \<open>auto simp: parsed_tree_def list_all_iff\<close>)
  ultimately show ?thesis
    using assms(1) p by (auto simp: workflow_ok_def parsed_tree_def list_all_iff)
qed

lemma Validate_workflow_ok:
  assumes "ValidateWorkflowContent valid_id wc limits = Inr ()" "parsed_tree wc"
  shows "workflow_ok wc"
  using workflow_ok_parts [OF Validate_parts(1-4) [OF assms(1)] assms(2)] .

section \<open>The index is the graph\<close>

lemma index_walk_graph:
  "ix_byID idx = byID g \<Longrightarrow> ix_base idx = stackByNode g \<Longrightarrow>
   ix_byID (index_walk ns sc st k idx) = byID (fold add_entry (walk_entries k st ns) g) \<and>
   ix_base (index_walk ns sc st k idx) = stackByNode (fold add_entry (walk_entries k st ns) g)"
proof (induction ns sc st k idx arbitrary: g rule: index_walk.induct)
  case (1 ns sc st k idx)
  let ?step = "\<lambda>nc ix. let ix' = ix\<lparr>ix_byID := (ix_byID ix)(node_id nc \<mapsto> nc),
      ix_scope := (ix_scope ix)(node_id nc \<mapsto> sc), ix_base := (ix_base ix)(node_id nc \<mapsto> st)\<rparr>
    in case group_of nc of None \<Rightarrow> ix'
      | Some h \<Rightarrow> index_walk (gNodes h) (node_id nc) (st @ [node_id nc]) (group_keys h) ix'"
  let ?ent = "\<lambda>n. (n, k, st) # (case group_of n of None \<Rightarrow> []
      | Some h \<Rightarrow> walk_entries (group_keys h) (st @ [node_id n]) (gNodes h))"
  have fold: "ix_byID i = byID h \<Longrightarrow> ix_base i = stackByNode h \<Longrightarrow> set ms \<subseteq> set ns \<Longrightarrow>
      ix_byID (fold ?step ms i) = byID (fold add_entry (concat (map ?ent ms)) h) \<and>
      ix_base (fold ?step ms i) = stackByNode (fold add_entry (concat (map ?ent ms)) h)" for ms i h
  proof (induction ms arbitrary: i h)
    case (Cons n ms)
    have n: "n \<in> set ns" using Cons.prems(3) by simp
    let ?i = "i\<lparr>ix_byID := (ix_byID i)(node_id n \<mapsto> n), ix_scope := (ix_scope i)(node_id n \<mapsto> sc),
        ix_base := (ix_base i)(node_id n \<mapsto> st)\<rparr>"
    let ?h = "add_entry (n, k, st) h"
    have "ix_byID (?step n i) = byID (fold add_entry (?ent n) h) \<and>
        ix_base (?step n i) = stackByNode (fold add_entry (?ent n) h)"
    proof (cases "group_of n")
      case None
      with Cons.prems show ?thesis by (simp add: add_entry_def Let_def)
    next
      case (Some q)
      have "ix_byID ?i = byID ?h" "ix_base ?i = stackByNode ?h"
        using Cons.prems by (simp_all add: add_entry_def)
      from "1.IH" [OF n refl Some this] Some show ?thesis by (simp add: Let_def)
    qed
    note one = this
    have A: "fold ?step (n # ms) i = fold ?step ms (?step n i)" by (simp only: fold_simps)
    have B: "fold add_entry (concat (map ?ent (n # ms))) h =
        fold add_entry (concat (map ?ent ms)) (fold add_entry (?ent n) h)"
      by (simp only: list.map concat.simps fold_append comp_apply)
    show ?case unfolding A B
      by (rule Cons.IH) (use one Cons.prems(3) in \<open>simp_all only: set_simps insert_subset\<close>)
  qed simp
  show ?case
    unfolding index_walk.simps [of ns sc st k idx] walk_entries.simps [of k st ns]
    by (rule fold) (use "1.prems" in simp_all)
qed

lemma index_graph:
  "ix_byID (indexParallelTree wc) = byID (buildGraph wc)"
  "ix_base (indexParallelTree wc) = stackByNode (buildGraph wc)"
  using index_walk_graph [of "\<lparr>ix_byID = Map.empty, ix_scope = Map.empty, ix_keys = Map.empty, ix_base = Map.empty\<rparr>"
      "\<lparr>byID = Map.empty, keysByNode = Map.empty, stackByNode = Map.empty\<rparr>" "wNodes wc" "[]" "[]" "wKeys wc"]
  by (simp_all add: indexParallelTree_def buildGraph_def)


text \<open>The keys the index gives a node are the keys of its scope in the graph.\<close>

definition ids_of :: "NodeContent list \<Rightarrow> uid set" where
  "ids_of ns = node_id ` set (forest_nodes ns)"

definition keys_done :: "graph_entry list \<Rightarrow> uid set \<Rightarrow> parallelTreeIndex \<Rightarrow> bool" where
  "keys_done E S idx \<longleftrightarrow> (\<forall>n k st. (n, k, st) \<in> set E \<longrightarrow>
     (\<exists>s \<in> S. ix_scope idx (node_id n) = Some s \<and> ix_keys idx s = Some k))"

definition same_outside :: "uid set \<Rightarrow> parallelTreeIndex \<Rightarrow> parallelTreeIndex \<Rightarrow> bool" where
  "same_outside S idx idx' \<longleftrightarrow>
     (\<forall>j. j \<notin> S \<longrightarrow> ix_scope idx' j = ix_scope idx j \<and> ix_keys idx' j = ix_keys idx j)"

lemma ids_of_simps [simp]:
  "ids_of [] = {}" "ids_of (n # ns) = insert (node_id n) (ids_of (children n)) \<union> ids_of ns"
  by (auto simp: ids_of_def tree_nodes_children [of n])

lemma distinct_forest_Cons:
  "distinct (map node_id (forest_nodes (n # ns))) \<longleftrightarrow>
     node_id n \<notin> ids_of (children n) \<union> ids_of ns \<and> ids_of (children n) \<inter> ids_of ns = {} \<and>
     distinct (map node_id (forest_nodes (children n))) \<and> distinct (map node_id (forest_nodes ns))"
  by (auto simp: tree_nodes_children [of n] ids_of_def)

lemma keys_done_mono:
  assumes "keys_done E S idx" "same_outside T idx idx'" "S \<inter> T = {}" "S \<subseteq> S'"
    and "\<And>n k st. (n, k, st) \<in> set E \<Longrightarrow> node_id n \<notin> T"
  shows "keys_done E S' idx'"
  unfolding keys_done_def
proof (intro allI impI)
  fix n k st assume e: "(n, k, st) \<in> set E"
  then obtain s where s: "s \<in> S" "ix_scope idx (node_id n) = Some s" "ix_keys idx s = Some k"
    using assms(1) unfolding keys_done_def by blast
  then have "ix_scope idx' (node_id n) = Some s" "ix_keys idx' s = Some k"
    using assms(2,3) assms(5) [OF e] unfolding same_outside_def by auto
  with s(1) assms(4) show "\<exists>s \<in> S'. ix_scope idx' (node_id n) = Some s \<and> ix_keys idx' s = Some k" by blast
qed

lemma entry_ids: "(n, k, st) \<in> set (walk_entries keys anc ns) \<Longrightarrow> node_id n \<in> ids_of ns"
proof -
  assume "(n, k, st) \<in> set (walk_entries keys anc ns)"
  from imageI [OF this, of fst] have "n \<in> set (map fst (walk_entries keys anc ns))" by simp
  then show ?thesis unfolding walk_entries_nodes ids_of_def by blast
qed

definition tree_entries :: "(string \<times> uid) list \<Rightarrow> uid list \<Rightarrow> NodeContent \<Rightarrow> graph_entry list" where
  "tree_entries k st n = (n, k, st) # (case group_of n of None \<Rightarrow> []
     | Some g \<Rightarrow> walk_entries (group_keys g) (st @ [node_id n]) (gNodes g))"

definition index_node :: "uid \<Rightarrow> uid list \<Rightarrow> NodeContent \<Rightarrow> parallelTreeIndex \<Rightarrow> parallelTreeIndex" where
  "index_node sc st nc ix =
     (let ix' = ix\<lparr>ix_byID := (ix_byID ix)(node_id nc \<mapsto> nc), ix_scope := (ix_scope ix)(node_id nc \<mapsto> sc),
                  ix_base := (ix_base ix)(node_id nc \<mapsto> st)\<rparr>
      in case group_of nc of None \<Rightarrow> ix'
       | Some g \<Rightarrow> index_walk (gNodes g) (node_id nc) (st @ [node_id nc]) (group_keys g) ix')"

lemma index_walk_nodes:
  "index_walk ns sc st k idx = fold (index_node sc st) ns (idx\<lparr>ix_keys := (ix_keys idx)(sc \<mapsto> k)\<rparr>)"
  unfolding index_walk.simps [of ns sc st k idx] index_node_def [abs_def] ..

lemma walk_entries_trees: "walk_entries k st ns = concat (map (tree_entries k st) ns)"
  unfolding walk_entries.simps [of k st ns] tree_entries_def [abs_def] ..

lemma tree_entries_ids: "(m, k', st') \<in> set (tree_entries k st n) \<Longrightarrow>
    node_id m \<in> insert (node_id n) (ids_of (children n))"
  by (auto simp: tree_entries_def children_def split: option.splits dest: entry_ids)

lemma index_walk_keys:
  "distinct (map node_id (forest_nodes ns)) \<Longrightarrow> sc \<notin> ids_of ns \<Longrightarrow>
   keys_done (walk_entries k st ns) (insert sc (ids_of ns)) (index_walk ns sc st k idx) \<and>
   same_outside (insert sc (ids_of ns)) idx (index_walk ns sc st k idx) \<and>
   ix_scope (index_walk ns sc st k idx) sc = ix_scope idx sc \<and>
   ix_keys (index_walk ns sc st k idx) sc = Some k"
proof (induction ns sc st k idx rule: index_walk.induct)
  case (1 ns sc st k idx)
  have node: "keys_done (tree_entries k st n) (insert sc (insert (node_id n) (ids_of (children n)))) (index_node sc st n i) \<and>
      same_outside (insert (node_id n) (ids_of (children n))) i (index_node sc st n i)"
    if n: "n \<in> set ns" and d: "distinct (map node_id (forest_nodes (children n)))"
      and fresh: "node_id n \<notin> ids_of (children n)"
      and sc: "sc \<noteq> node_id n" "sc \<notin> ids_of (children n)" and k: "ix_keys i sc = Some k" for n i
  proof (cases "group_of n")
    case None
    with k show ?thesis
      by (auto simp: index_node_def tree_entries_def keys_done_def same_outside_def)
  next
    case (Some g)
    then have ch: "children n = gNodes g" by (simp add: children_def)
    let ?i = "i\<lparr>ix_byID := (ix_byID i)(node_id n \<mapsto> n), ix_scope := (ix_scope i)(node_id n \<mapsto> sc),
        ix_base := (ix_base i)(node_id n \<mapsto> st)\<rparr>"
    let ?r = "index_walk (gNodes g) (node_id n) (st @ [node_id n]) (group_keys g) ?i"
    have r: "index_node sc st n i = ?r" using Some by (simp add: index_node_def Let_def)
    from "1.IH" [OF n refl Some] d fresh ch
    have kd: "keys_done (walk_entries (group_keys g) (st @ [node_id n]) (gNodes g)) (insert (node_id n) (ids_of (gNodes g))) ?r"
      and so: "same_outside (insert (node_id n) (ids_of (gNodes g))) ?i ?r"
      and own: "ix_scope ?r (node_id n) = Some sc" by auto
    have "ix_keys ?r sc = Some k" using so sc k ch by (simp add: same_outside_def)
    with kd own Some have "keys_done (tree_entries k st n) (insert sc (insert (node_id n) (ids_of (children n)))) ?r"
      unfolding keys_done_def tree_entries_def ch by fastforce
    moreover have "same_outside (insert (node_id n) (ids_of (children n))) i ?r"
      using so unfolding same_outside_def ch by auto
    ultimately show ?thesis unfolding r by blast
  qed
  have fold: "distinct (map node_id (forest_nodes ms)) \<Longrightarrow> sc \<notin> ids_of ms \<Longrightarrow> set ms \<subseteq> set ns \<Longrightarrow>
      ix_keys i sc = Some k \<Longrightarrow>
      keys_done (concat (map (tree_entries k st) ms)) (insert sc (ids_of ms)) (fold (index_node sc st) ms i) \<and>
      same_outside (ids_of ms) i (fold (index_node sc st) ms i)" for ms i
  proof (induction ms arbitrary: i)
    case Nil
    then show ?case by (simp add: keys_done_def same_outside_def)
  next
    case (Cons n ms)
    let ?T = "insert (node_id n) (ids_of (children n))"
    let ?i = "index_node sc st n i"
    let ?r = "fold (index_node sc st) ms ?i"
    note dd = Cons.prems(1) [unfolded distinct_forest_Cons]
    have nd: "keys_done (tree_entries k st n) (insert sc ?T) ?i" and so: "same_outside ?T i ?i"
      using node [of n i] dd Cons.prems(2-4) by auto
    have "ix_keys ?i sc = Some k" using so Cons.prems(2,4) by (simp add: same_outside_def)
    with Cons.IH [of ?i] dd Cons.prems(2,3)
    have kd: "keys_done (concat (map (tree_entries k st) ms)) (insert sc (ids_of ms)) ?r"
      and so2: "same_outside (ids_of ms) ?i ?r" by auto
    have "keys_done (tree_entries k st n) (insert sc (ids_of (n # ms))) ?r"
    proof (rule keys_done_mono [OF nd so2])
      show "insert sc ?T \<inter> ids_of ms = {}" using dd Cons.prems(2) by auto
      show "insert sc ?T \<subseteq> insert sc (ids_of (n # ms))" by auto
      show "node_id m \<notin> ids_of ms" if "(m, k', st') \<in> set (tree_entries k st n)" for m k' st'
        using tree_entries_ids [OF that] dd by auto
    qed
    with kd so so2 show ?case
      unfolding keys_done_def same_outside_def by (auto, blast+)
  qed
  have "ix_keys (idx\<lparr>ix_keys := (ix_keys idx)(sc \<mapsto> k)\<rparr>) sc = Some k" by simp
  from fold [OF "1.prems" subset_refl this] "1.prems"(2) show ?case
    unfolding index_walk_nodes walk_entries_trees same_outside_def by auto
qed


lemma index_scope_keys:
  assumes ok: "workflow_ok wc" and k: "keysByNode (buildGraph wc) i = Some k"
  shows "scope_keys (indexParallelTree wc) i = k"
proof -
  let ?E = "walk_entries (wKeys wc) [] (wNodes wc)"
  have d: "distinct (map node_id (forest_nodes (wNodes wc)))" and ne: "[] \<notin> ids_of (wNodes wc)"
    using ok by (auto simp: workflow_ok_def ids_of_def list_all_iff)
  have kd: "keys_done ?E (insert [] (ids_of (wNodes wc))) (indexParallelTree wc)"
    using index_walk_keys [OF d ne] unfolding indexParallelTree_def by blast
  obtain n st where e: "(n, k, st) \<in> set ?E" "node_id n = i"
    using graph_lookup(4) [OF ok k] by blast
  with kd show ?thesis unfolding keys_done_def scope_keys_def by (metis option.simps(5))
qed

section \<open>Parallel blocks stay in their scope\<close>

definition resolved_start :: "NodeContent \<Rightarrow> bool" where
  "resolved_start n \<longleftrightarrow> node_type n = NTParallelStart \<and> \<not> parallelUnresolved n"

lemma node_by_id_mem: "node_by_id ns i = Some n \<Longrightarrow> n \<in> set ns \<and> node_id n = i"
  by (auto simp: node_by_id_def dest!: map_of_SomeD)

lemma pair_start_ok:
  "pair_start ns n paired = Inr paired' \<Longrightarrow> resolved_start n \<Longrightarrow>
   (\<forall>(name, t) \<in> set (branches_of n). t \<in> set (map node_id ns)) \<and>
   nParallelEndNodeID (nfields n) \<in> set (map node_id ns)"
proof -
  assume p: "pair_start ns n paired = Inr paired'" and r: "resolved_start n"
  then have p': "bindR (foldR (\<lambda>nt _. check_target ns (node_id n) nt) (branches_of n) ()) (\<lambda>_.
        let e = nParallelEndNodeID (nfields n) in
        case node_by_id ns e of None \<Rightarrow> Inl (EndOutOfScope (node_id n) e)
        | Some en \<Rightarrow> if node_type en \<noteq> NTParallelEnd then Inl (EndNotParallelEnd (node_id n) e)
            else case map_of paired e of Some prev \<Rightarrow> Inl (EndPairedTwice e prev (node_id n))
              | None \<Rightarrow> Inr ((e, node_id n) # paired)) = Inr paired'"
    by (simp add: pair_start_def resolved_start_def)
  then have "foldR (\<lambda>nt _. check_target ns (node_id n) nt) (branches_of n) () = Inr ()"
    unfolding bindR_Inr_iff by auto
  moreover from p' have e: "node_by_id ns (nParallelEndNodeID (nfields n)) \<noteq> None"
    unfolding bindR_Inr_iff Let_def by (auto split: option.splits)
  moreover have "node_by_id ns (snd nt) \<noteq> None" if "check_target ns (node_id n) nt = Inr ()" for nt
    using that by (simp add: check_target_def split: if_split_asm)
  ultimately have "\<forall>nt \<in> set (branches_of n). node_by_id ns (snd nt) \<noteq> None"
    unfolding foldR_unit_iff by blast
  moreover have "i \<in> set (map node_id ns)" if "node_by_id ns i \<noteq> None" for i
    using that node_by_id_mem [of ns i] by force
  ultimately show ?thesis using e by auto
qed

lemma foldR_each:
  "foldR f xs s = Inr t \<Longrightarrow> x \<in> set xs \<Longrightarrow> \<exists>u v. f x u = Inr v"
  by (induction xs arbitrary: s) (auto simp: bindR_Inr_iff)

lemma entry_blocks:
  "validateParallelScope ns = Inr () \<Longrightarrow> (n, k, st) \<in> set (walk_entries keys anc ns) \<Longrightarrow>
   resolved_start n \<Longrightarrow>
   (\<forall>(name, t) \<in> set (branches_of n). on_entry (walk_entries keys anc ns) st t) \<and>
   on_entry (walk_entries keys anc ns) st (nParallelEndNodeID (nfields n))"
proof (induction keys anc ns rule: walk_entries.induct)
  case (1 keys anc ns)
  let ?E = "walk_entries keys anc ns"
  from "1.prems"(1) obtain paired where pr: "foldR (pair_start ns) ns [] = Inr paired"
    and sub: "\<And>n g. n \<in> set ns \<Longrightarrow> group_of n = Some g \<Longrightarrow> validateParallelScope (gNodes g) = Inr ()"
    by (subst (asm) validateParallelScope.simps)
      (fastforce simp: bindR_Inr_iff foldR_unit_iff split: option.splits)
  from "1.prems"(2) obtain p where p: "p \<in> set ns"
    and e: "(n, k, st) = (p, keys, anc) \<or> (\<exists>g. group_of p = Some g \<and>
      (n, k, st) \<in> set (walk_entries (group_keys g) (anc @ [node_id p]) (gNodes g)))"
    by (subst (asm) walk_entries_mem) blast
  from e show ?case
  proof (elim disjE exE conjE)
    assume "(n, k, st) = (p, keys, anc)"
    moreover obtain u v where "pair_start ns p u = Inr v" using foldR_each [OF pr p] by blast
    ultimately show ?case
      using pair_start_ok [of ns p u v] "1.prems"(3) on_entry_top [of _ ns keys anc] by fastforce
  next
    fix g assume g: "group_of p = Some g"
      and e': "(n, k, st) \<in> set (walk_entries (group_keys g) (anc @ [node_id p]) (gNodes g))"
    from "1.IH" [OF p g sub [OF p g] e' "1.prems"(3)] on_entry_group [OF p g, of anc _ _ keys]
    show ?case by blast
  qed
qed

text \<open>What the walk needs to know of a tree.\<close>

definition blocks_ok :: "WorkflowContent \<Rightarrow> bool" where
  "blocks_ok wc \<longleftrightarrow> workflow_ok wc \<and> validateParallelScope (wNodes wc) = Inr ()"

lemma blocks_graph:
  assumes "blocks_ok wc" "byID (buildGraph wc) i = Some n" "resolved_start n" "groupStack (buildGraph wc) i = Inr st"
  shows "(name, t) \<in> set (branches_of n) \<Longrightarrow> groupStack (buildGraph wc) t = Inr st"
    and "groupStack (buildGraph wc) (nParallelEndNodeID (nfields n)) = Inr st"
proof -
  have ok: "workflow_ok wc" and v: "validateParallelScope (wNodes wc) = Inr ()"
    using assms(1) by (auto simp: blocks_ok_def)
  obtain k st' where e: "(n, k, st') \<in> set (walk_entries (wKeys wc) [] (wNodes wc))" and i: "node_id n = i"
    using graph_lookup(3) [OF ok assms(2)] by blast
  have "st' = st" using graph_lookup(2) [OF ok e] i assms(4) by (simp add: groupStack_Inr_iff)
  from entry_blocks [OF v e assms(3)] this
  show "(name, t) \<in> set (branches_of n) \<Longrightarrow> groupStack (buildGraph wc) t = Inr st"
    and "groupStack (buildGraph wc) (nParallelEndNodeID (nfields n)) = Inr st"
    by (auto simp: groupStack_lookup [OF ok])
qed

section \<open>The walk and the machine\<close>

lemma climb_pop:
  "climb (byID g) b next rst = Inr (m, rest) \<Longrightarrow> m \<noteq> [] \<Longrightarrow>
   \<exists>ex'. pop_groups (NextOf g) next rst ex = (rest, ex', Inr m)"
proof (induction rst arbitrary: "next" ex)
  case (Cons q rst)
  then show ?case
    by (auto simp: NextOf_def Node_def split: if_splits option.splits)
qed simp

lemma climb_suffix: "climb nodes b next rst = Inr (m, rest) \<Longrightarrow> \<exists>xs. rst = xs @ rest \<and> min b (length rst) \<le> length rest"
proof (induction rst arbitrary: "next")
  case (Cons q rst)
  show ?case
  proof (cases "next = [] \<and> b < length (q # rst)")
    case True
    with Cons.prems obtain n where "climb nodes b (nNextNode (nfields n)) rst = Inr (m, rest)"
      by (auto split: option.splits)
    from Cons.IH [OF this] obtain xs where "rst = xs @ rest" "min b (length rst) \<le> length rest" by blast
    with True show ?thesis by (intro exI [of _ "q # xs"]) auto
  next
    case False
    with Cons.prems show ?thesis by auto
  qed
qed simp

lemma walk_advance_Advance:
  assumes "walk_advance (indexParallelTree wc) s b from stack m = Inr c"
  shows "\<exists>ex. Advance (NextOf (buildGraph wc)) \<lparr>CurrentNodeID = i, GroupStack = stack\<rparr> m =
    (\<lparr>CurrentNodeID = fst c, GroupStack = snd c\<rparr>, ex, Inr False) \<and> fst c \<noteq> []"
proof -
  from assms obtain m' rest where
    cl: "climb (byID (buildGraph wc)) (length (base_of (indexParallelTree wc) (node_id s))) m (rev stack) = Inr (m', rest)"
    and c: "m' \<noteq> []" "c = (m', rev rest)"
    by (auto simp: walk_advance_def index_graph split: sum.splits if_splits)
  obtain ex where "pop_groups (NextOf (buildGraph wc)) m (rev stack) [] = (rest, ex, Inr m')"
    using climb_pop [OF cl c(1)] by blast
  with c show ?thesis by (auto simp: Advance_def)
qed


section \<open>Steps inside a parallel block\<close>

text \<open>
  The links the engine may follow out of a node once it has run: a condition node takes the
  target of one of its conditions' keys (or none), an ordinary node its next node, and a node
  with a failure route may take that instead.
\<close>

definition own_link :: "workflowGraph \<Rightarrow> NodeContent \<Rightarrow> uid \<Rightarrow> bool" where
  "own_link g n m \<longleftrightarrow>
     node_type n = NTConditions \<and> (\<exists>c \<in> set (nConditions (nfields n)).
        if cond_key c = [] then m = [] else KeyTarget g (node_id n) (cond_key c) = Some m) \<or>
     node_type n \<notin> {NTConditions, NTGroup, NTParallelStart} \<and> m = nNextNode (nfields n)"

definition route :: "workflowGraph \<Rightarrow> NodeContent \<Rightarrow> uid \<Rightarrow> bool" where
  "route g n m \<longleftrightarrow> own_link g n m \<or> (\<exists>r. nOnFailure (nfields n) = Some r \<and> m = fr_next r)"

definition enters_or_joins :: "workflowGraph \<Rightarrow> NodeContent \<Rightarrow> Frame \<Rightarrow> Frame \<Rightarrow> bool" where
  "enters_or_joins g n f f' \<longleftrightarrow>
     node_type n = NTGroup \<and> (\<exists>x. EnterGroup (StartOf g) f (CurrentNodeID f) = (f', Inr x)) \<or>
     node_type n = NTParallelStart \<and> f' = f\<lparr>CurrentNodeID := nParallelEndNodeID (nfields n)\<rparr>"

text \<open>
  One step of a cursor inside the block of the start node \<open>s\<close>, as the engine moves it: enter a
  group, resume behind a nested block at its end node, or advance along a link. Nothing moves
  past the block's own end node.
\<close>

definition region_step :: "workflowGraph \<Rightarrow> NodeContent \<Rightarrow> Frame \<Rightarrow> Frame \<Rightarrow> bool" where
  "region_step g s f f' \<longleftrightarrow> CurrentNodeID f \<noteq> nParallelEndNodeID (nfields s) \<and>
     (\<exists>n. Node g (CurrentNodeID f) = Inr n \<and> \<not> parallelOpaque n \<and>
       (enters_or_joins g n f f' \<or> (\<exists>m ex. route g n m \<and> Advance (NextOf g) f m = (f', ex, Inr False))))"

abbreviation frame_of :: "cursor \<Rightarrow> Frame" where
  "frame_of c \<equiv> \<lparr>CurrentNodeID = fst c, GroupStack = snd c\<rparr>"

lemma condition_moves_iff:
  "condition_moves adv keys i cs = Inr ms \<Longrightarrow>
   set ms = {m. \<exists>c \<in> set cs. (if cond_key c = [] then adv []
     else case map_of keys (cond_key c) of None \<Rightarrow> Inl (ConditionKeyUndefined (cond_key c) i) | Some t \<Rightarrow> adv t) = Inr m} \<and>
   (\<forall>c \<in> set cs. \<exists>m. (if cond_key c = [] then adv []
     else case map_of keys (cond_key c) of None \<Rightarrow> Inl (ConditionKeyUndefined (cond_key c) i) | Some t \<Rightarrow> adv t) = Inr m) \<and>
   length ms = length cs"
proof (induction cs arbitrary: ms)
  case (Cons c cs)
  then obtain m ms' where m: "(if cond_key c = [] then adv []
      else case map_of keys (cond_key c) of None \<Rightarrow> Inl (ConditionKeyUndefined (cond_key c) i) | Some t \<Rightarrow> adv t) = Inr m"
    and ms': "condition_moves adv keys i cs = Inr ms'" "ms = m # ms'"
    unfolding condition_moves.simps bindR_Inr_iff by blast
  from Cons.IH [OF ms'(1)] m ms'(2) show ?case by auto
qed simp

text \<open>The cursors a node pushes are exactly the steps of the machine.\<close>

lemma type_moves_steps:
  assumes ok: "workflow_ok wc" and n: "byID (buildGraph wc) i = Some n"
    and ms: "type_moves (indexParallelTree wc) s b n st = Inr ms"
  defines "f \<equiv> \<lparr>CurrentNodeID = i, GroupStack = st\<rparr>" and "g \<equiv> buildGraph wc"
  shows "c \<in> set ms \<longleftrightarrow> enters_or_joins g n f (frame_of c) \<or>
      (\<exists>m ex. own_link g n m \<and> Advance (NextOf g) f m = (frame_of c, ex, Inr False))"
    and "own_link g n m \<Longrightarrow> \<exists>c ex. Advance (NextOf g) f m = (frame_of c, ex, Inr False)"
    and "length ms \<le> length (nConditions (nfields n)) + 1"
proof -
  let ?idx = "indexParallelTree wc"
  obtain k st' where e: "(n, k, st') \<in> set (walk_entries (wKeys wc) [] (wNodes wc))" and i: "node_id n = i"
    using graph_lookup(3) [OF ok n] by blast
  have k: "keysByNode g i = Some k" using graph_lookup(2) [OF ok e] i by (simp add: g_def)
  have sk: "scope_keys ?idx i = k" by (rule index_scope_keys [OF ok k [unfolded g_def]])
  have kt: "KeyTarget g i key = map_of k key" for key using k by (simp add: KeyTarget_def)
  let ?adv = "walk_advance ?idx s b i st"
  have adv: "\<exists>ex. Advance (NextOf g) f m = (frame_of c, ex, Inr False)" if "?adv m = Inr c" for m c
    using walk_advance_Advance [OF that, of i] unfolding f_def g_def by blast
  have adv_eq: "c = c'" if "?adv m = Inr c" "Advance (NextOf g) f m = (frame_of c', ex, Inr False)" for m c c' ex
    using adv [OF that(1)] that(2) by (auto simp: prod_eq_iff)
  have "(\<forall>c. c \<in> set ms \<longleftrightarrow> enters_or_joins g n f (frame_of c) \<or>
      (\<exists>m ex. own_link g n m \<and> Advance (NextOf g) f m = (frame_of c, ex, Inr False))) \<and>
    (\<forall>m. own_link g n m \<longrightarrow> (\<exists>c ex. Advance (NextOf g) f m = (frame_of c, ex, Inr False))) \<and>
    length ms \<le> length (nConditions (nfields n)) + 1" (is "?A \<and> ?B \<and> ?C")
  proof -
    consider (group) "node_type n = NTGroup" | (start) "node_type n = NTParallelStart"
      | (cond) "node_type n = NTConditions" | (other) "node_type n \<notin> {NTConditions, NTGroup, NTParallelStart}"
      by blast
    then show ?thesis
    proof cases
      case group
      with ms n i show ?thesis
        by (auto simp: type_moves_def enters_or_joins_def own_link_def EnterGroup_def StartOf_def Node_def
            prod_eq_iff f_def g_def split: option.splits)
    next
      case start
      with ms show ?thesis
        by (auto simp: type_moves_def enters_or_joins_def own_link_def f_def prod_eq_iff split: if_splits)
    next
      case cond
      with ms i sk have "condition_moves ?adv k i (nConditions (nfields n)) = Inr ms"
        by (simp add: type_moves_def)
      note cm = condition_moves_iff [OF this]
      define link where "link cd m \<longleftrightarrow> (if cond_key cd = [] then m = [] else map_of k (cond_key cd) = Some m)"
        for cd :: Condition and m
      have ol: "own_link g n m \<longleftrightarrow> (\<exists>cd \<in> set (nConditions (nfields n)). link cd m)" for m
        using cond kt i by (simp add: own_link_def link_def)
      define res where "res cd = (if cond_key cd = [] then ?adv [] else case map_of k (cond_key cd) of
          None \<Rightarrow> Inl (ConditionKeyUndefined (cond_key cd) i) | Some t \<Rightarrow> ?adv t)" for cd :: Condition
      have res: "res cd = Inr c \<longleftrightarrow> (\<exists>m. link cd m \<and> ?adv m = Inr c)" for cd c
        by (auto simp: res_def link_def split: option.splits)
      have uniq: "m = m'" if "link cd m" "link cd m'" for cd m m'
        using that by (auto simp: link_def split: if_splits)
      have mem: "c \<in> set ms \<longleftrightarrow> (\<exists>cd \<in> set (nConditions (nfields n)). res cd = Inr c)" for c
        using cm by (auto simp: res_def)
      have tot: "\<exists>c. res cd = Inr c" if "cd \<in> set (nConditions (nfields n))" for cd
        using cm that by (auto simp: res_def)
      have noej: "\<not> enters_or_joins g n f f'" for f' using cond by (simp add: enters_or_joins_def)
      have ?B using ol tot res uniq adv by metis
      moreover have ?A
      proof
        fix c
        have "\<exists>cd \<in> set (nConditions (nfields n)). res cd = Inr c"
          if l: "own_link g n m" and A: "Advance (NextOf g) f m = (frame_of c, ex, Inr False)" for m ex
        proof -
          obtain cd where cd: "cd \<in> set (nConditions (nfields n))" "link cd m" using l ol by blast
          then obtain c' where "res cd = Inr c'" using tot by blast
          then have "?adv m = Inr c'" using res uniq cd(2) by metis
          from adv_eq [OF this A] \<open>res cd = Inr c'\<close> cd(1) show ?thesis by blast
        qed
        then show "c \<in> set ms \<longleftrightarrow> enters_or_joins g n f (frame_of c) \<or>
            (\<exists>m ex. own_link g n m \<and> Advance (NextOf g) f m = (frame_of c, ex, Inr False))"
          unfolding mem ol using noej res adv by blast
      qed
      ultimately show ?thesis using cm by simp
    next
      case other
      with ms i obtain c where c: "?adv (nNextNode (nfields n)) = Inr c" "ms = [c]"
        by (cases "node_type n") (auto simp: type_moves_def bindR_Inr_iff)
      have "own_link g n m \<longleftrightarrow> m = nNextNode (nfields n)" for m using other by (simp add: own_link_def)
      moreover have "\<not> enters_or_joins g n f f'" for f' using other by (simp add: enters_or_joins_def)
      ultimately show ?thesis using adv [OF c(1)] adv_eq [OF c(1)] c(2) by auto
    qed
  qed
  then show "c \<in> set ms \<longleftrightarrow> enters_or_joins g n f (frame_of c) \<or>
      (\<exists>m ex. own_link g n m \<and> Advance (NextOf g) f m = (frame_of c, ex, Inr False))"
    and "own_link g n m \<Longrightarrow> \<exists>c ex. Advance (NextOf g) f m = (frame_of c, ex, Inr False)"
    and "length ms \<le> length (nConditions (nfields n)) + 1" by blast+
qed

text \<open>With the failure route: all moves of a node, and none of them ends the workflow.\<close>

lemma walk_moves_steps:
  assumes ok: "workflow_ok wc" and n: "byID (buildGraph wc) i = Some n"
    and ms: "walk_moves (indexParallelTree wc) s b n st = Inr ms"
  defines "f \<equiv> \<lparr>CurrentNodeID = i, GroupStack = st\<rparr>" and "g \<equiv> buildGraph wc"
  shows "c \<in> set ms \<longleftrightarrow> enters_or_joins g n f (frame_of c) \<or>
      (\<exists>m ex. route g n m \<and> Advance (NextOf g) f m = (frame_of c, ex, Inr False))"
    and "route g n m \<Longrightarrow> \<exists>c ex. Advance (NextOf g) f m = (frame_of c, ex, Inr False)"
    and "length ms \<le> out_degree n"
proof -
  from ms obtain ts where ts: "type_moves (indexParallelTree wc) s b n st = Inr ts"
    and rest: "case nOnFailure (nfields n) of None \<Rightarrow> ms = ts
      | Some r \<Rightarrow> \<exists>m. walk_advance (indexParallelTree wc) s b (node_id n) st (fr_next r) = Inr m \<and> ms = ts @ [m]"
    by (auto simp: walk_moves_def bindR_Inr_iff split: option.splits)
  note T = type_moves_steps [OF ok n ts, folded f_def g_def]
  have "(\<forall>c. c \<in> set ms \<longleftrightarrow> enters_or_joins g n f (frame_of c) \<or>
      (\<exists>m ex. route g n m \<and> Advance (NextOf g) f m = (frame_of c, ex, Inr False))) \<and>
    (\<forall>m. route g n m \<longrightarrow> (\<exists>c ex. Advance (NextOf g) f m = (frame_of c, ex, Inr False))) \<and>
    length ms \<le> out_degree n"
  proof (cases "nOnFailure (nfields n)")
    case None
    then have "route g n m \<longleftrightarrow> own_link g n m" for m by (simp add: route_def)
    with T rest None show ?thesis by (auto simp: out_degree_def)
  next
    case (Some r)
    with rest obtain c' where c': "walk_advance (indexParallelTree wc) s b (node_id n) st (fr_next r) = Inr c'"
      and "ms = ts @ [c']" by auto
    moreover obtain ex where "Advance (NextOf g) f (fr_next r) = (frame_of c', ex, Inr False)"
      using walk_advance_Advance [OF c', of i] unfolding f_def g_def by blast
    moreover have "route g n m \<longleftrightarrow> own_link g n m \<or> m = fr_next r" for m using Some by (auto simp: route_def)
    ultimately show ?thesis using T by (auto simp: out_degree_def prod_eq_iff)
  qed
  then show "c \<in> set ms \<longleftrightarrow> enters_or_joins g n f (frame_of c) \<or>
      (\<exists>m ex. route g n m \<and> Advance (NextOf g) f m = (frame_of c, ex, Inr False))"
    and "route g n m \<Longrightarrow> \<exists>c ex. Advance (NextOf g) f m = (frame_of c, ex, Inr False)"
    and "length ms \<le> out_degree n" by blast+
qed


section \<open>The walk explores the block\<close>

definition closed ::
  "parallelTreeIndex \<Rightarrow> NodeContent \<Rightarrow> string \<Rightarrow> cursor list \<Rightarrow> cursor list \<Rightarrow> bool" where
  "closed idx s b V W \<longleftrightarrow> (\<forall>c \<in> set V. fst c \<noteq> nParallelEndNodeID (nfields s) \<and>
     (\<exists>n. ix_byID idx (fst c) = Some n \<and> (parallelOpaque n \<or>
       (\<exists>ms. walk_moves idx s b n (snd c) = Inr ms \<and>
         (\<forall>m \<in> set ms. fst m = nParallelEndNodeID (nfields s) \<or> m \<in> set V \<union> set W)))))"

lemma closed_mono:
  "closed idx s b V W \<Longrightarrow> (\<And>m. m \<in> set W \<Longrightarrow> fst m = nParallelEndNodeID (nfields s) \<or> m \<in> set V \<union> set W') \<Longrightarrow>
   closed idx s b V W'"
proof -
  assume cl: "closed idx s b V W"
    and W: "\<And>m. m \<in> set W \<Longrightarrow> fst m = nParallelEndNodeID (nfields s) \<or> m \<in> set V \<union> set W'"
  have "fst m = nParallelEndNodeID (nfields s) \<or> m \<in> set V \<union> set W'"
    if "fst m = nParallelEndNodeID (nfields s) \<or> m \<in> set V \<union> set W" for m
    using that W [of m] by blast
  then have imp: "(\<forall>m \<in> set ms. fst m = nParallelEndNodeID (nfields s) \<or> m \<in> set V \<union> set W) \<Longrightarrow>
      (\<forall>m \<in> set ms. fst m = nParallelEndNodeID (nfields s) \<or> m \<in> set V \<union> set W')" for ms
    by (intro ballI) (drule (1) bspec)
  show ?thesis
    unfolding closed_def
  proof
    fix c assume "c \<in> set V"
    with cl obtain n where "fst c \<noteq> nParallelEndNodeID (nfields s)" "ix_byID idx (fst c) = Some n"
      and "parallelOpaque n \<or> (\<exists>ms. walk_moves idx s b n (snd c) = Inr ms \<and>
         (\<forall>m \<in> set ms. fst m = nParallelEndNodeID (nfields s) \<or> m \<in> set V \<union> set W))"
      unfolding closed_def by blast
    then show "fst c \<noteq> nParallelEndNodeID (nfields s) \<and> (\<exists>n. ix_byID idx (fst c) = Some n \<and>
        (parallelOpaque n \<or> (\<exists>ms. walk_moves idx s b n (snd c) = Inr ms \<and>
         (\<forall>m \<in> set ms. fst m = nParallelEndNodeID (nfields s) \<or> m \<in> set V \<union> set W'))))"
      using imp by auto
  qed
qed

lemma walk_loop_closed:
  "walk_loop fuel idx s b W V r ps = Inr (V', r', ps') \<Longrightarrow> closed idx s b V W \<Longrightarrow>
   closed idx s b V' [] \<and> set V \<subseteq> set V' \<and>
   (\<forall>c \<in> set W. fst c = nParallelEndNodeID (nfields s) \<or> c \<in> set V')"
proof (induction fuel idx s b W V r ps rule: walk_loop.induct)
  case (3 fuel idx s b c work V r ps)
  let ?fin = "nParallelEndNodeID (nfields s)"
  consider (at_end) "fst c = ?fin" | (seen) "fst c \<noteq> ?fin" "c \<in> set V"
    | (opaque) n where "fst c \<noteq> ?fin" "c \<notin> set V" "ix_byID idx (fst c) = Some n" "parallelOpaque n"
    | (expand) n ms where "fst c \<noteq> ?fin" "c \<notin> set V" "ix_byID idx (fst c) = Some n" "\<not> parallelOpaque n"
        "walk_moves idx s b n (snd c) = Inr ms"
    using "3.prems"(1) by (auto simp: bindR_Inr_iff split: if_splits option.splits)
  then show ?case
  proof cases
    case at_end
    with "3.prems" "3.IH"(1) [OF at_end] closed_mono [of idx s b V "c # work" work] show ?thesis by auto
  next
    case seen
    with "3.prems" "3.IH"(2) [OF seen] closed_mono [of idx s b V "c # work" work] show ?thesis by auto
  next
    case opaque
    have "closed idx s b (c # V) work"
      using "3.prems"(2) opaque unfolding closed_def by fastforce
    with "3.prems" "3.IH"(3) [OF opaque] opaque show ?thesis by auto
  next
    case expand
    have "closed idx s b (c # V) (rev ms @ work)"
      using "3.prems"(2) expand unfolding closed_def by fastforce
    with "3.prems" "3.IH"(4) [OF expand(1-4), of ms] expand show ?thesis by auto
  qed
qed auto

lemma walk_loop_reached:
  "walk_loop fuel idx s b W V r ps = Inr (V', r', ps') \<Longrightarrow> r' \<Longrightarrow> (\<And>c. c \<in> set W \<Longrightarrow> R c) \<Longrightarrow>
   (\<And>c n ms m. R c \<Longrightarrow> fst c \<noteq> nParallelEndNodeID (nfields s) \<Longrightarrow> ix_byID idx (fst c) = Some n \<Longrightarrow>
      \<not> parallelOpaque n \<Longrightarrow> walk_moves idx s b n (snd c) = Inr ms \<Longrightarrow> m \<in> set ms \<Longrightarrow> R m) \<Longrightarrow>
   r \<or> (\<exists>c. R c \<and> fst c = nParallelEndNodeID (nfields s))"
proof (induction fuel idx s b W V r ps rule: walk_loop.induct)
  case (3 fuel idx s b c work V r ps)
  let ?fin = "nParallelEndNodeID (nfields s)"
  consider (at_end) "fst c = ?fin" | (seen) "fst c \<noteq> ?fin" "c \<in> set V"
    | (opaque) n where "fst c \<noteq> ?fin" "c \<notin> set V" "ix_byID idx (fst c) = Some n" "parallelOpaque n"
    | (expand) n ms where "fst c \<noteq> ?fin" "c \<notin> set V" "ix_byID idx (fst c) = Some n" "\<not> parallelOpaque n"
        "walk_moves idx s b n (snd c) = Inr ms"
    using "3.prems"(1) by (auto simp: bindR_Inr_iff split: if_splits option.splits)
  then show ?case
  proof cases
    case at_end
    with "3.prems"(3) [of c] show ?thesis by (metis list.set_intros(1))
  next
    case seen
    then show ?thesis by (intro "3.IH"(2)) (use "3.prems" in auto)
  next
    case opaque
    then show ?thesis by (intro "3.IH"(3)) (use "3.prems" in auto)
  next
    case expand
    have R: "R m" if "m \<in> set ms" for m
      using "3.prems"(4) [OF "3.prems"(3) [of c] expand(1,3,4,5) that] by simp
    from expand R show ?thesis by (intro "3.IH"(4) [where x = ms]) (use "3.prems" in auto)
  qed
qed auto

lemma closed_region:
  assumes ok: "workflow_ok wc" and cl: "closed (indexParallelTree wc) s b V []"
    and start: "fst c = nParallelEndNodeID (nfields s) \<or> c \<in> set V"
    and reach: "(region_step (buildGraph wc) s)\<^sup>*\<^sup>* (frame_of c) f"
  shows "CurrentNodeID f = nParallelEndNodeID (nfields s) \<or> (CurrentNodeID f, GroupStack f) \<in> set V"
  using reach
proof (induction rule: rtranclp_induct)
  case base
  with start show ?case by auto
next
  case (step f f')
  let ?fin = "nParallelEndNodeID (nfields s)" and ?g = "buildGraph wc"
  from step.hyps(2) obtain n where ne: "CurrentNodeID f \<noteq> ?fin" and n: "Node ?g (CurrentNodeID f) = Inr n"
    and no: "\<not> parallelOpaque n"
    and mv: "enters_or_joins ?g n f f' \<or> (\<exists>m ex. route ?g n m \<and> Advance (NextOf ?g) f m = (f', ex, Inr False))"
    by (auto simp: region_step_def)
  have nb: "byID ?g (CurrentNodeID f) = Some n" using n by (simp add: Node_def split: option.splits)
  have "(CurrentNodeID f, GroupStack f) \<in> set V" using step.IH ne by simp
  with cl nb no obtain ms where ms: "walk_moves (indexParallelTree wc) s b n (GroupStack f) = Inr ms"
    and all: "\<forall>m \<in> set ms. fst m = ?fin \<or> m \<in> set V"
    unfolding closed_def index_graph by fastforce
  have f: "\<lparr>CurrentNodeID = CurrentNodeID f, GroupStack = GroupStack f\<rparr> = f"
    and f': "\<lparr>CurrentNodeID = CurrentNodeID f', GroupStack = GroupStack f'\<rparr> = f'" by simp_all
  have "(CurrentNodeID f', GroupStack f') \<in> set ms"
    using walk_moves_steps(1) [OF ok nb ms, of "(CurrentNodeID f', GroupStack f')"] mv
    by (simp add: f f')
  with all show ?case by fastforce
qed

text \<open>Every cursor inside a block stands on a node and keeps the groups of the start.\<close>

lemma region_at_node:
  assumes bo: "blocks_ok wc" and at: "kg.at_node (buildGraph wc) f"
    and step: "region_step (buildGraph wc) s f f'"
  shows "kg.at_node (buildGraph wc) f'"
proof -
  let ?g = "buildGraph wc"
  have ok: "workflow_ok wc" using bo by (simp add: blocks_ok_def)
  then have good: "graph_good ?g" by (auto simp: graph_good_def)
  from step obtain n where n: "Node ?g (CurrentNodeID f) = Inr n" and no: "\<not> parallelOpaque n"
    and mv: "enters_or_joins ?g n f f' \<or> (\<exists>m ex. route ?g n m \<and> Advance (NextOf ?g) f m = (f', ex, Inr False))"
    by (auto simp: region_step_def)
  have nb: "byID ?g (CurrentNodeID f) = Some n" using n by (simp add: Node_def split: option.splits)
  have i: "node_id n = CurrentNodeID f" using graph_lookup(3) [OF ok nb] by blast
  from mv show ?thesis
  proof (elim disjE exE conjE)
    assume "enters_or_joins ?g n f f'"
    then show ?thesis
    proof (unfold enters_or_joins_def, elim disjE conjE exE)
      fix x assume "EnterGroup (StartOf ?g) f (CurrentNodeID f) = (f', Inr x)"
      with kg.EnterGroup_ok [OF good at] show ?thesis by blast
    next
      assume "node_type n = NTParallelStart" and f': "f' = f\<lparr>CurrentNodeID := nParallelEndNodeID (nfields n)\<rparr>"
      then have "resolved_start n" using no by (auto simp: resolved_start_def parallelUnresolved_def parallelOpaque_def)
      with blocks_graph(2) [OF bo nb] at f' show ?thesis by (simp add: kg.at_node_def)
    qed
  next
    fix m ex assume r: "route ?g n m" and A: "Advance (NextOf ?g) f m = (f', ex, Inr False)"
    have "choice ?g (CurrentNodeID f) m"
      using r n i unfolding choice_def route_def own_link_def
      by (auto simp: NextOf_def split: if_splits)
    from kg.Advance_ok [OF good at choice_link [OF good at this]] A show ?thesis by auto
  qed
qed


lemma walk_advance_prefix:
  assumes "walk_advance idx s b i st m = Inr c" "base = base_of idx (node_id s)" "\<exists>x. st = base @ x"
  shows "\<exists>y. snd c = base @ y"
proof -
  from assms(1) obtain m' rest where cl: "climb (ix_byID idx) (length base) m (rev st) = Inr (m', rest)"
    and c: "snd c = rev rest"
    by (auto simp: walk_advance_def assms(2) split: sum.splits if_splits)
  obtain xs where xs: "rev st = xs @ rest" and len: "min (length base) (length (rev st)) \<le> length rest"
    using climb_suffix [OF cl] by blast
  obtain x where x: "st = base @ x" using assms(3) by blast
  have "rev rest @ rev xs = base @ x" using xs x by (metis rev_append rev_rev_ident)
  moreover have "length base \<le> length (rev rest)" using len x by simp
  ultimately show ?thesis using c by (metis append_eq_append_conv_if append_take_drop_id)
qed

lemma walk_moves_prefix:
  assumes "walk_moves idx s b n st = Inr ms" "m \<in> set ms" "base = base_of idx (node_id s)" "\<exists>x. st = base @ x"
  shows "\<exists>y. snd m = base @ y"
proof -
  from assms(1) obtain ts where ts: "type_moves idx s b n st = Inr ts"
    and rest: "m \<in> set ts \<or> (\<exists>t. walk_advance idx s b (node_id n) st t = Inr m)"
    using assms(2) by (auto simp: walk_moves_def bindR_Inr_iff split: option.splits, blast)
  from rest show ?thesis
  proof (elim disjE exE)
    fix t assume "walk_advance idx s b (node_id n) st t = Inr m"
    then show ?thesis using walk_advance_prefix assms(3,4) by blast
  next
    assume m: "m \<in> set ts"
    consider (adv) t where "walk_advance idx s b (node_id n) st t = Inr m" | (stay) "snd m = st"
      | (enter) "snd m = st @ [node_id n]"
    proof (cases "node_type n = NTConditions")
      case True
      with ts have "condition_moves (walk_advance idx s b (node_id n) st) (scope_keys idx (node_id n))
          (node_id n) (nConditions (nfields n)) = Inr ts" by (simp add: type_moves_def)
      from condition_moves_iff [OF this] m adv show ?thesis
        by (auto split: if_splits option.splits)
    next
      case False
      with ts m that show ?thesis
        by (cases "node_type n") (auto simp: type_moves_def bindR_Inr_iff split: if_splits option.splits)
    qed
    then show ?thesis
    proof cases
      case adv
      then show ?thesis using walk_advance_prefix assms(3,4) by blast
    qed (use assms(4) in auto)
  qed
qed

section \<open>The walk ends\<close>

lemma condition_moves_error:
  "condition_moves adv keys i cs = Inl e \<Longrightarrow> (\<exists>t. adv t = Inl e) \<or> (\<exists>k. e = ConditionKeyUndefined k i)"
  by (induction cs) (auto simp: bindR_def split: if_splits option.splits sum.splits)

text \<open>
  The iterations still needed: one per cursor on the stack, and the out-degree of every node
  whose (only possible) cursor has not been visited.
\<close>

definition unvisited :: "workflowGraph \<Rightarrow> cursor list \<Rightarrow> NodeContent list \<Rightarrow> nat" where
  "unvisited g V ns = sum_list (map out_degree
     (filter (\<lambda>n. \<not> (\<exists>st. groupStack g (node_id n) = Inr st \<and> (node_id n, st) \<in> set V)) ns))"

lemma unvisited_visit:
  assumes "distinct (map node_id ns)" "n \<in> set ns" "groupStack g (node_id n) = Inr st" "(node_id n, st) \<notin> set V"
  shows "unvisited g ((node_id n, st) # V) ns + out_degree n = unvisited g V ns"
  using assms
proof (induction ns)
  case (Cons m ns)
  show ?case
  proof (cases "m = n")
    case True
    have "filter (\<lambda>n'. \<not> (\<exists>st'. groupStack g (node_id n') = Inr st' \<and> (node_id n', st') \<in> set ((node_id n, st) # V))) ns =
      filter (\<lambda>n'. \<not> (\<exists>st'. groupStack g (node_id n') = Inr st' \<and> (node_id n', st') \<in> set V)) ns"
    proof (rule filter_cong [OF refl])
      fix x assume "x \<in> set ns"
      then have "node_id x \<in> set (map node_id ns)" by simp
      then have "node_id x \<noteq> node_id n" using Cons.prems(1) True by auto
      then show "(\<not> (\<exists>st'. groupStack g (node_id x) = Inr st' \<and> (node_id x, st') \<in> set ((node_id n, st) # V))) =
          (\<not> (\<exists>st'. groupStack g (node_id x) = Inr st' \<and> (node_id x, st') \<in> set V))" by auto
    qed
    with True Cons.prems(3,4) show ?thesis by (simp add: unvisited_def)
  next
    case False
    then have "node_id m \<noteq> node_id n" using Cons.prems(1,2) by auto
    with Cons False show ?thesis by (auto simp: unvisited_def)
  qed
qed simp

lemma unvisited_mono: "unvisited g (c # V) ns \<le> unvisited g V ns"
  by (induction ns) (auto simp: unvisited_def)

lemma walk_loop_fuel:
  assumes bo: "blocks_ok wc" and s: "nType (nfields s) = NTParallelStart"
  defines "g \<equiv> buildGraph wc" and "ns \<equiv> forest_nodes (wNodes wc)"
  shows "idx = indexParallelTree wc \<Longrightarrow>
    (\<And>c. c \<in> set W \<Longrightarrow> kg.at_node g (frame_of c)) \<Longrightarrow>
    length W + unvisited g V ns \<le> fuel \<Longrightarrow> walk_loop fuel idx s b W V r ps \<noteq> Inl WalkDiverged"
proof (induction fuel idx s b W V r ps rule: walk_loop.induct)
  case (3 fuel idx s b c work V r ps)
  have ok: "workflow_ok wc" using bo by (simp add: blocks_ok_def)
  have d: "distinct (map node_id ns)" using ok by (simp add: workflow_ok_def ns_def)
  have at: "groupStack g (fst c) = Inr (snd c)" using "3.prems"(2) [of c] by (simp add: kg.at_node_def)
  show ?case
  proof (cases "fst c = nParallelEndNodeID (nfields s)")
    case True
    with "3.IH"(1) [OF True] "3.prems" show ?thesis by simp
  next
    case ne: False
    show ?thesis
    proof (cases "c \<in> set V")
      case True
      with "3.IH"(2) [OF ne True] "3.prems" ne show ?thesis by simp
    next
      case nv: False
      show ?thesis
      proof (cases "ix_byID idx (fst c)")
        case None
        with ne nv show ?thesis by simp
      next
        case (Some n)
        then have nb: "byID g (fst c) = Some n" by (simp add: "3.prems"(1) index_graph g_def)
        then obtain k st' where "(n, k, st') \<in> set (walk_entries (wKeys wc) [] (wNodes wc))" and i: "node_id n = fst c"
          using graph_lookup(3) [OF ok, of "fst c" n] unfolding g_def by blast
        then have "n \<in> set ns" unfolding ns_def
          using imageI [of "(n, k, st')" _ fst] by (simp flip: walk_entries_nodes [of "wKeys wc" "[]"])
        from unvisited_visit [OF d this, of g "snd c" V] at i nv
        have vis: "unvisited g (c # V) ns + out_degree n = unvisited g V ns" by simp
        show ?thesis
        proof (cases "parallelOpaque n")
          case True
          have "walk_loop fuel idx s b work (c # V) r ps \<noteq> Inl WalkDiverged"
            by (rule "3.IH"(3) [OF ne nv Some True]) (use "3.prems" vis in auto)
          with ne nv Some True show ?thesis by simp
        next
          case no: False
          show ?thesis
          proof (cases "walk_moves idx s b n (snd c)")
            case (Inl e)
            have "e \<noteq> WalkDiverged"
              using Inl by (auto simp: walk_moves_def type_moves_def walk_advance_def bindR_def
                  split: option.splits sum.splits if_splits NodeType.splits dest!: condition_moves_error)
            with Inl ne nv Some no show ?thesis by simp
          next
            case (Inr ms)
            note M = walk_moves_steps [OF ok nb [unfolded g_def] Inr [unfolded "3.prems"(1)], folded g_def]
            have "kg.at_node g (frame_of m)" if "m \<in> set ms" for m
            proof -
              have "region_step g s (frame_of c) (frame_of m)"
                using M(1) [of m] that nb no ne by (auto simp: region_step_def Node_def)
              from region_at_node [OF bo _ this [unfolded g_def]] "3.prems"(2) [of c] show ?thesis
                by (simp add: g_def)
            qed
            then have "walk_loop fuel idx s b (rev ms @ work) (c # V) r (note_parent s n ps) \<noteq> Inl WalkDiverged"
              by (intro "3.IH"(4) [OF ne nv Some no]) (use "3.prems" vis M(3) in auto)
            with ne nv Some no Inr show ?thesis by simp
          qed
        qed
      qed
    qed
  qed
qed auto


section \<open>No check diverges\<close>

lemma foldR_error: "foldR f xs s = Inl e \<Longrightarrow> \<exists>x \<in> set xs. \<exists>u. f x u = Inl e"
  by (induction xs arbitrary: s) (auto simp: bindR_def split: sum.splits)

lemma bindR_Inl_iff: "bindR m k = Inl e \<longleftrightarrow> m = Inl e \<or> (\<exists>x. m = Inr x \<and> k x = Inl e)"
  by (cases m) auto

lemma validateKeys_not_diverged: "validateKeys keys sibs sc \<noteq> Inl WalkDiverged"
  by (induction keys) (auto split: if_splits)

lemma check_siblings_not_diverged: "check_siblings valid_id seen ns \<noteq> Inl WalkDiverged"
  by (induction ns arbitrary: seen) auto

lemma walkIDs_not_diverged: "walkIDs nc owner seen \<noteq> Inl WalkDiverged"
proof (induction nc owner seen rule: walkIDs.induct)
  case (1 nc owner seen)
  then show ?case by (subst walkIDs.simps) (auto split: option.splits dest!: foldR_error)
qed

lemma validateLinks_not_diverged: "validateLinks nc sibs keys \<noteq> Inl WalkDiverged"
proof (induction nc sibs keys rule: validateLinks.induct)
  case (1 nc sibs keys)
  show ?case
  proof
    assume "validateLinks nc sibs keys = Inl WalkDiverged"
    then have "own_links nc sibs keys = Inl WalkDiverged \<or>
        (own_links nc sibs keys = Inr () \<and> (\<exists>g. group_of nc = Some g \<and> \<not> (nDefinitionID (nfields nc) \<noteq> [] \<and> gNodes g = []) \<and>
          validateKeys (group_keys g) (map node_id (gNodes g)) (node_id nc) = Inr () \<and>
          foldR (\<lambda>child _. validateLinks child (map node_id (gNodes g)) (group_keys g)) (gNodes g) () = Inl WalkDiverged))"
      by (subst (asm) validateLinks.simps)
        (auto simp: bindR_Inl_iff validateKeys_not_diverged split: option.splits if_splits)
    then show False
      using "1.IH" by (auto simp: own_links_def Let_def split: if_splits option.splits dest!: foldR_error)
  qed
qed

lemma validateParallelScope_not_diverged: "validateParallelScope ns \<noteq> Inl WalkDiverged"
proof (induction ns rule: validateParallelScope.induct)
  case (1 ns)
  have p: "pair_start ns n paired \<noteq> Inl WalkDiverged" for n paired
    by (auto simp: pair_start_def check_target_def bindR_Inl_iff Let_def
        split: option.splits if_splits dest!: foldR_error)
  have c: "check_end paired n \<noteq> Inl WalkDiverged" for n paired by (simp add: check_end_def)
  show ?case
  proof
    assume "validateParallelScope ns = Inl WalkDiverged"
    then show False
      by (subst (asm) validateParallelScope.simps)
        (auto simp: bindR_Inl_iff p c dest!: foldR_error split: option.splits intro: "1.IH" [THEN notE])
  qed
qed

lemma walk_loop_parents:
  "walk_loop fuel idx s b W V r ps = Inr (V', r', ps') \<Longrightarrow> (\<And>i. set (ps i) \<subseteq> S) \<Longrightarrow> node_id s \<in> S \<Longrightarrow>
   set (ps' i) \<subseteq> S"
proof (induction fuel idx s b W V r ps rule: walk_loop.induct)
  case (3 fuel idx s b c work V r ps)
  have note_parent: "set (note_parent s n ps i) \<subseteq> S" for n i
    using "3.prems"(2,3) by (auto simp: note_parent_def appendParallelParent_def)
  consider (at_end) "fst c = nParallelEndNodeID (nfields s)" | (seen) "fst c \<noteq> nParallelEndNodeID (nfields s)" "c \<in> set V"
    | (opaque) n where "fst c \<noteq> nParallelEndNodeID (nfields s)" "c \<notin> set V" "ix_byID idx (fst c) = Some n" "parallelOpaque n"
    | (expand) n ms where "fst c \<noteq> nParallelEndNodeID (nfields s)" "c \<notin> set V" "ix_byID idx (fst c) = Some n" "\<not> parallelOpaque n"
        "walk_moves idx s b n (snd c) = Inr ms"
    using "3.prems"(1) by (auto simp: bindR_Inr_iff split: if_splits option.splits)
  then show ?case
  proof cases
    case at_end
    show ?thesis by (rule "3.IH"(1) [OF at_end]) (use "3.prems" at_end in auto)
  next
    case seen
    show ?thesis by (rule "3.IH"(2) [OF seen]) (use "3.prems" seen in auto)
  next
    case opaque
    show ?thesis by (rule "3.IH"(3) [OF opaque]) (use "3.prems" opaque in auto)
  next
    case expand
    show ?thesis by (rule "3.IH"(4) [OF expand(1-4), of ms]) (use "3.prems" expand note_parent in auto)
  qed
qed auto

lemma compute_depth_not_diverged:
  "(\<And>i. set (ps i) \<subseteq> S) \<Longrightarrow> finite S \<Longrightarrow> i \<in> S \<Longrightarrow> distinct visiting \<Longrightarrow> set visiting \<subseteq> S \<Longrightarrow>
   card S < fuel + length visiting + 1 \<Longrightarrow> compute_depth fuel ps visiting i depth \<noteq> Inl WalkDiverged"
proof (induction fuel arbitrary: visiting i depth)
  case 0
  have "card (set visiting) = length visiting" using "0.prems"(4) by (rule distinct_card)
  then have "card S \<le> card (set visiting)" using "0.prems"(6) by simp
  then have "set visiting = S" using "0.prems"(2,5) by (simp add: card_seteq)
  with "0.prems"(3) have "i \<in> set visiting" by simp
  then show ?case by (subst compute_depth.simps) (simp split: option.splits)
next
  case (Suc f)
  show ?case
  proof
    assume A: "compute_depth (Suc f) ps visiting i depth = Inl WalkDiverged"
    then have nv: "i \<notin> set visiting"
      and F: "foldR (\<lambda>p (d, depth). bindR (compute_depth f ps (i # visiting) p depth) (\<lambda>(pd, depth').
          Inr (max d (pd + 1), depth'))) (ps i) (1, depth) = Inl WalkDiverged"
      by (subst (asm) compute_depth.simps, auto simp: bindR_Inl_iff split: option.splits if_splits)+
    from foldR_error [OF F] obtain p dep where "p \<in> set (ps i)"
      "compute_depth f ps (i # visiting) p dep = Inl WalkDiverged"
      by (auto simp: bindR_Inl_iff split: prod.splits)
    moreover have "compute_depth f ps (i # visiting) p dep \<noteq> Inl WalkDiverged"
      by (rule Suc.IH) (use Suc.prems nv \<open>p \<in> set (ps i)\<close> in auto)
    ultimately show False by blast
  qed
qed

lemma start_entry:
  assumes ok: "workflow_ok wc" and s: "s \<in> set (resolved_starts (wNodes wc))"
  shows "resolved_start s" "\<exists>st. byID (buildGraph wc) (node_id s) = Some s \<and>
    groupStack (buildGraph wc) (node_id s) = Inr st \<and> base_of (indexParallelTree wc) (node_id s) = st"
proof -
  show "resolved_start s" using s by (auto simp: resolved_starts_def resolved_start_def)
  have "s \<in> set (map fst (walk_entries (wKeys wc) [] (wNodes wc)))"
    using s by (auto simp: walk_entries_nodes resolved_starts_def)
  then obtain k st where e: "(s, k, st) \<in> set (walk_entries (wKeys wc) [] (wNodes wc))" by auto
  from graph_lookup(2) [OF ok e]
  show "\<exists>st. byID (buildGraph wc) (node_id s) = Some s \<and>
    groupStack (buildGraph wc) (node_id s) = Inr st \<and> base_of (indexParallelTree wc) (node_id s) = st"
    by (simp add: groupStack_def base_of_def index_graph)
qed

lemma walkBranch_not_diverged:
  assumes bo: "blocks_ok wc" and s: "s \<in> set (resolved_starts (wNodes wc))" and nt: "nt \<in> set (branches_of s)"
  shows "walkBranch (walk_fuel wc) (indexParallelTree wc) s nt ps \<noteq> Inl WalkDiverged"
proof -
  have ok: "workflow_ok wc" using bo by (simp add: blocks_ok_def)
  obtain st where st: "byID (buildGraph wc) (node_id s) = Some s" "groupStack (buildGraph wc) (node_id s) = Inr st"
    "base_of (indexParallelTree wc) (node_id s) = st" using start_entry [OF ok s] by blast
  have rs: "resolved_start s" using start_entry(1) [OF ok s] .
  have "groupStack (buildGraph wc) (snd nt) = Inr st"
    using blocks_graph(1) [OF bo st(1) rs st(2), of "fst nt" "snd nt"] nt by simp
  then have at: "kg.at_node (buildGraph wc) (frame_of (snd nt, st))" by (simp add: kg.at_node_def)
  have fuel: "length [(snd nt, st)] + unvisited (buildGraph wc) [] (forest_nodes (wNodes wc)) \<le> walk_fuel wc"
    by (simp add: walk_fuel_def unvisited_def)
  have "walk_loop (walk_fuel wc) (indexParallelTree wc) s (fst nt) [(snd nt, st)] [] False ps \<noteq> Inl WalkDiverged"
    by (rule walk_loop_fuel [OF bo _ refl _ fuel]) (use rs at in \<open>auto simp: resolved_start_def\<close>)
  then show ?thesis by (auto simp: walkBranch_def bindR_Inl_iff st(3) split: prod.splits if_splits)
qed

lemma branch_parents:
  assumes "walkBranch fuel idx s nt ps = Inr ps'" "\<And>i. set (ps i) \<subseteq> S" "node_id s \<in> S"
  shows "set (ps' i) \<subseteq> S"
  using assms walk_loop_parents [where S = S]
  by (auto simp: walkBranch_def bindR_Inr_iff split: if_splits) blast

lemma convergence_parents:
  assumes "foldR (validateStartConvergence fuel idx) starts (\<lambda>_. []) = Inr ps"
  shows "set (ps i) \<subseteq> set (map node_id starts)"
proof -
  let ?I = "\<lambda>ps. \<forall>i. set (ps i) \<subseteq> set (map node_id starts)"
  have "?I ps"
  proof (rule foldR_invariant [OF assms])
    show "?I ps'" if "s \<in> set starts" "?I p" "validateStartConvergence fuel idx s p = Inr ps'" for s p ps'
      using that(3) unfolding validateStartConvergence_def
      by (rule foldR_invariant) (use that branch_parents in \<open>auto 0 3\<close>)
  qed simp
  then show ?thesis by blast
qed

lemma Validate_not_diverged:
  assumes p: "parsed_tree wc"
  shows "ValidateWorkflowContent valid_id wc limits \<noteq> Inl WalkDiverged"
proof
  assume A: "ValidateWorkflowContent valid_id wc limits = Inl WalkDiverged"
  let ?sibs = "map node_id (wNodes wc)"
  have walk: "\<not> foldR (\<lambda>nc. walkIDs nc ''workflow'') (wNodes wc) [] = Inl WalkDiverged"
    using foldR_error [of "\<lambda>nc. walkIDs nc ''workflow''"] walkIDs_not_diverged by blast
  have link: "\<not> foldR (\<lambda>nc _. validateLinks nc ?sibs (wKeys wc)) (wNodes wc) () = Inl WalkDiverged"
    using foldR_error [of "\<lambda>nc _. validateLinks nc ?sibs (wKeys wc)"] validateLinks_not_diverged by blast
  from A walk link have parts: "wStartNodeID wc \<in> set ?sibs"
    "validateKeys (wKeys wc) ?sibs ''workflow'' = Inr ()"
    "\<exists>seen. foldR (\<lambda>nc. walkIDs nc ''workflow'') (wNodes wc) [] = Inr seen"
    "foldR (\<lambda>nc _. validateLinks nc ?sibs (wKeys wc)) (wNodes wc) () = Inr ()"
    and D: "validateParallelScopes wc limits = Inl WalkDiverged"
    unfolding ValidateWorkflowContent_def
    by (auto simp: Let_def bindR_Inl_iff validateKeys_not_diverged check_siblings_not_diverged
        split: if_split_asm)
  have ok: "workflow_ok wc" using parts p by (rule workflow_ok_parts)
  from D have bo: "blocks_ok wc"
    and C: "validateParallelConvergence wc (effectiveParallelLimits limits) = Inl WalkDiverged"
    using ok validateParallelScope_not_diverged
    by (auto simp: validateParallelScopes_def Let_def bindR_Inl_iff blocks_ok_def)
  let ?starts = "resolved_starts (wNodes wc)" and ?idx = "indexParallelTree wc"
  have "\<not> foldR (validateStartConvergence (walk_fuel wc) ?idx) ?starts (\<lambda>_. []) = Inl WalkDiverged"
  proof
    assume "foldR (validateStartConvergence (walk_fuel wc) ?idx) ?starts (\<lambda>_. []) = Inl WalkDiverged"
    from foldR_error [OF this] obtain s ps where "s \<in> set ?starts"
      "foldR (walkBranch (walk_fuel wc) ?idx s) (branches_of s) ps = Inl WalkDiverged"
      by (auto simp: validateStartConvergence_def)
    from foldR_error [OF this(2)] walkBranch_not_diverged [OF bo this(1)] show False by blast
  qed
  with C obtain ps where ps: "foldR (validateStartConvergence (walk_fuel wc) ?idx) ?starts (\<lambda>_. []) = Inr ps"
    and E: "foldR (check_depth (Suc (length ?starts)) ps (MaxDepth (effectiveParallelLimits limits))) ?starts [] = Inl WalkDiverged"
    by (auto simp: validateParallelConvergence_def validateParallelDepth_def Let_def bindR_Inl_iff)
  from foldR_error [OF E] obtain s dep where s: "s \<in> set ?starts"
    and c: "compute_depth (Suc (length ?starts)) ps [] (node_id s) dep = Inl WalkDiverged"
    by (auto simp: check_depth_def bindR_Inl_iff split: prod.splits if_splits)
  have "card (set (map node_id ?starts)) \<le> length ?starts" by (metis card_length length_map)
  with compute_depth_not_diverged [of ps "set (map node_id ?starts)" "node_id s" "[]" "Suc (length ?starts)" dep]
    convergence_parents [OF ps] s c show False by simp
qed


section \<open>Properties\<close>

text \<open>A workflow with a parallel block whose branches are a group and a condition.\<close>

definition sample_block :: NodeContent where
  "sample_block = NodeContent ((plain_node NTParallelStart ''p'')\<lparr>
     nParallelBranches := Some [(''a'', ''g''), (''b'', ''q'')], nParallelEndNodeID := ''e''\<rparr>) None"

definition parallel_workflow :: WorkflowContent where
  "parallel_workflow = \<lparr>wStartNodeID = ''p'', wKeys = [(''ok'', ''e'')],
     wNodes = [sample_block,
       NodeContent ((plain_node NTGroup ''g'')\<lparr>nNextNode := ''e''\<rparr>)
         (Some (GroupContent ''c'' None [NodeContent (plain_node NTScript ''c'') None])),
       NodeContent ((plain_node NTConditions ''q'')\<lparr>nConditions :=
         [\<lparr>cond_script = ''x'', cond_key = ''ok''\<rparr>]\<rparr>) None,
       NodeContent ((plain_node NTParallelEnd ''e'')\<lparr>nCombiningScript := ''m''\<rparr>) None],
     wContextMode = None, wStatusUpdate = None\<rparr>"

lemma parallel_workflow_valid:
  "ValidateWorkflowContent (\<lambda>i. i \<noteq> []) parallel_workflow DefaultParallelLimits = Inr ()"
  by code_simp

lemma parallel_workflow_parsed: "parsed_tree parallel_workflow"
  by code_simp

text \<open>
  C33. Validation always returns: on every tree the parser can build, the walks over the branches
  of parallel blocks and the depth computation end within the fuel the model gives them (one
  expansion per node), although both loops follow cyclic links.
\<close>

theorem Validate_terminates:
  assumes "parsed_tree wc"
  shows "ValidateWorkflowContent valid_id wc limits \<noteq> Inl WalkDiverged"
  by (rule Validate_not_diverged [OF assms])

lemma Validate_terminates_witness:
  "ValidateWorkflowContent (\<lambda>i. i \<noteq> []) parallel_workflow DefaultParallelLimits \<noteq> Inl WalkDiverged"
  by (rule Validate_terminates [OF parallel_workflow_parsed])


lemma sample_workflow_valid:
  "ValidateWorkflowContent (\<lambda>i. i \<noteq> []) sample_workflow DefaultParallelLimits = Inr ()"
  by code_simp

lemma sample_workflow_parsed: "parsed_tree sample_workflow"
  by code_simp




text \<open>The walk of one branch of a validated workflow, and what it explored.\<close>

lemma validated_walk:
  assumes v: "ValidateWorkflowContent valid_id wc limits = Inr ()" and p: "parsed_tree wc"
    and s: "s \<in> set (resolved_starts (wNodes wc))" and nt: "nt \<in> set (branches_of s)"
  obtains base V r' ps ps' where "blocks_ok wc" "workflow_ok wc" "resolved_start s"
    "byID (buildGraph wc) (node_id s) = Some s" "groupStack (buildGraph wc) (node_id s) = Inr base"
    "base_of (indexParallelTree wc) (node_id s) = base"
    "walk_loop (walk_fuel wc) (indexParallelTree wc) s (fst nt) [(snd nt, base)] [] False ps = Inr (V, True, ps')"
proof -
  have ok: "workflow_ok wc" by (rule Validate_workflow_ok [OF v p])
  have pv: "validateParallelScopes wc limits = Inr ()" by (rule Validate_parts(5) [OF v])
  then have bo: "blocks_ok wc" using ok by (auto simp: validateParallelScopes_def Let_def bindR_Inr_iff blocks_ok_def)
  obtain base where st: "byID (buildGraph wc) (node_id s) = Some s" "groupStack (buildGraph wc) (node_id s) = Inr base"
    "base_of (indexParallelTree wc) (node_id s) = base" using start_entry(2) [OF ok s] by blast
  from pv obtain pz where "foldR (validateStartConvergence (walk_fuel wc) (indexParallelTree wc))
      (resolved_starts (wNodes wc)) (\<lambda>_. []) = Inr pz"
    by (auto simp: validateParallelScopes_def validateParallelConvergence_def Let_def bindR_Inr_iff)
  from foldR_each [OF this s] obtain u w where
    "foldR (walkBranch (walk_fuel wc) (indexParallelTree wc) s) (branches_of s) u = Inr w"
    by (auto simp: validateStartConvergence_def)
  from foldR_each [OF this nt] obtain u' w' where
    "walkBranch (walk_fuel wc) (indexParallelTree wc) s nt u' = Inr w'" by blast
  then obtain V ps' where "walk_loop (walk_fuel wc) (indexParallelTree wc) s (fst nt) [(snd nt, base)] [] False u' =
      Inr (V, True, ps')"
    by (auto simp: walkBranch_def st(3) bindR_Inr_iff split: if_splits)
  with that bo ok start_entry(1) [OF ok s] st show ?thesis by blast
qed

text \<open>
  C19. Parallel blocks are closed: in a validated workflow no path that starts at a branch of a
  resolved parallel start can leave the block except at its end node. Every cursor the engine can
  reach from a branch target keeps the groups around the start node (exactly those at the end node),
  and before the end node every link the engine may follow leads on to a node, never to the end of
  the workflow.
\<close>

theorem parallel_block_contained:
  assumes v: "ValidateWorkflowContent valid_id wc limits = Inr ()" and p: "parsed_tree wc"
    and s: "s \<in> set (resolved_starts (wNodes wc))" and b: "(name, target) \<in> set (branches_of s)"
    and base: "groupStack (buildGraph wc) (node_id s) = Inr base"
    and reach: "(region_step (buildGraph wc) s)\<^sup>*\<^sup>* \<lparr>CurrentNodeID = target, GroupStack = base\<rparr> f"
  shows "(\<exists>inner. GroupStack f = base @ inner) \<and>
    (if CurrentNodeID f = nParallelEndNodeID (nfields s) then GroupStack f = base
     else \<exists>n. Node (buildGraph wc) (CurrentNodeID f) = Inr n \<and>
       (parallelOpaque n \<or> (\<forall>m. route (buildGraph wc) n m \<longrightarrow>
          (\<exists>f' ex. Advance (NextOf (buildGraph wc)) f m = (f', ex, Inr False)))))"
proof -
  let ?g = "buildGraph wc" and ?fin = "nParallelEndNodeID (nfields s)"
  obtain V r' ps ps' where bo: "blocks_ok wc" and ok: "workflow_ok wc" and rs: "resolved_start s"
    and sb: "byID ?g (node_id s) = Some s" and bs: "base_of (indexParallelTree wc) (node_id s) = base"
    and walk: "walk_loop (walk_fuel wc) (indexParallelTree wc) s name [(target, base)] [] False ps = Inr (V, True, ps')"
    by (rule validated_walk [OF v p s b]) (use base in auto)
  have cl0: "closed (indexParallelTree wc) s name [] [(target, base)]" by (simp add: closed_def)
  have cl: "closed (indexParallelTree wc) s name V []"
    and st: "fst (target, base) = ?fin \<or> (target, base) \<in> set V"
    using walk_loop_closed [OF walk cl0] by auto
  have in_V: "CurrentNodeID h = ?fin \<or> (CurrentNodeID h, GroupStack h) \<in> set V"
    if "(region_step ?g s)\<^sup>*\<^sup>* \<lparr>CurrentNodeID = target, GroupStack = base\<rparr> h" for h
    using closed_region [OF ok cl st] that by simp
  have at: "kg.at_node ?g f \<and> (\<exists>inner. GroupStack f = base @ inner)"
    using reach
  proof (induction rule: rtranclp_induct)
    case base
    show ?case using blocks_graph(1) [OF bo sb rs assms(5) b] by (simp add: kg.at_node_def)
  next
    case (step h h')
    from step.hyps(2) obtain n where ne: "CurrentNodeID h \<noteq> ?fin" and n: "Node ?g (CurrentNodeID h) = Inr n"
      and no: "\<not> parallelOpaque n"
      and mv: "enters_or_joins ?g n h h' \<or> (\<exists>m ex. route ?g n m \<and> Advance (NextOf ?g) h m = (h', ex, Inr False))"
      by (auto simp: region_step_def)
    have nb: "byID ?g (CurrentNodeID h) = Some n" using n by (simp add: Node_def split: option.splits)
    from in_V [OF step.hyps(1)] ne cl nb no obtain ms where
      ms: "walk_moves (indexParallelTree wc) s name n (GroupStack h) = Inr ms"
      unfolding closed_def index_graph by fastforce
    have "(CurrentNodeID h', GroupStack h') \<in> set ms"
      using walk_moves_steps(1) [OF ok nb ms, of "(CurrentNodeID h', GroupStack h')"] mv by simp
    from walk_moves_prefix [OF ms this bs [symmetric]] step.IH region_at_node [OF bo _ step.hyps(2)]
    show ?case by simp
  qed
  have "GroupStack f = base" if "CurrentNodeID f = ?fin"
    using at that blocks_graph(2) [OF bo sb rs assms(5)] by (simp add: kg.at_node_def)
  moreover have "\<exists>n. Node ?g (CurrentNodeID f) = Inr n \<and> (parallelOpaque n \<or> (\<forall>m. route ?g n m \<longrightarrow>
      (\<exists>f' ex. Advance (NextOf ?g) f m = (f', ex, Inr False))))" if ne: "CurrentNodeID f \<noteq> ?fin"
  proof -
    from in_V [OF reach] ne cl obtain n where n: "byID ?g (CurrentNodeID f) = Some n"
      and o: "parallelOpaque n \<or> (\<exists>ms. walk_moves (indexParallelTree wc) s name n (GroupStack f) = Inr ms)"
      unfolding closed_def index_graph by fastforce
    have "\<exists>f' ex. Advance (NextOf ?g) f m = (f', ex, Inr False)"
      if "walk_moves (indexParallelTree wc) s name n (GroupStack f) = Inr ms" "route ?g n m" for ms m
      using walk_moves_steps(2) [OF ok n that] by auto
    with n o show ?thesis by (auto simp: Node_def)
  qed
  ultimately show ?thesis using at by auto
qed

lemma parallel_block_contained_witness:
  "\<exists>n. Node (buildGraph parallel_workflow) ''c'' = Inr n \<and> (parallelOpaque n \<or>
     (\<forall>m. route (buildGraph parallel_workflow) n m \<longrightarrow> (\<exists>f' ex.
        Advance (NextOf (buildGraph parallel_workflow)) \<lparr>CurrentNodeID = ''c'', GroupStack = [''g'']\<rparr> m = (f', ex, Inr False))))"
proof -
  let ?g = "buildGraph parallel_workflow"
  have s: "sample_block \<in> set (resolved_starts (wNodes parallel_workflow))"
    by (simp add: resolved_starts_def parallel_workflow_def sample_block_def plain_node_def parallelUnresolved_def)
  have b: "(''a'', ''g'') \<in> set (branches_of sample_block)" by (simp add: branches_of_def sample_block_def)
  have base: "groupStack ?g (node_id sample_block) = Inr []" by code_simp
  have "region_step ?g sample_block \<lparr>CurrentNodeID = ''g'', GroupStack = []\<rparr> \<lparr>CurrentNodeID = ''c'', GroupStack = [''g'']\<rparr>"
  proof -
    obtain n where n: "Node ?g ''g'' = Inr n" "node_type n = NTGroup" "nDefinitionID (nfields n) = []"
    proof -
      have "(case Node ?g ''g'' of Inl _ \<Rightarrow> False
        | Inr n \<Rightarrow> node_type n = NTGroup \<and> nDefinitionID (nfields n) = [])" by code_simp
      then show ?thesis using that by (auto split: sum.splits)
    qed
    have "EnterGroup (StartOf ?g) \<lparr>CurrentNodeID = ''g'', GroupStack = []\<rparr> ''g'' =
        (\<lparr>CurrentNodeID = ''c'', GroupStack = [''g'']\<rparr>, Inr ''c'')" by code_simp
    with n show ?thesis
      by (auto simp: region_step_def enters_or_joins_def parallelOpaque_def sample_block_def)
  qed
  then have "(region_step ?g sample_block)\<^sup>*\<^sup>* \<lparr>CurrentNodeID = ''g'', GroupStack = []\<rparr>
      \<lparr>CurrentNodeID = ''c'', GroupStack = [''g'']\<rparr>" by (rule r_into_rtranclp)
  from parallel_block_contained [OF parallel_workflow_valid parallel_workflow_parsed s b base this]
  show ?thesis by (simp add: sample_block_def)
qed

text \<open>
  Every branch can reach its join: from the target of every branch of a validated parallel
  block some path of the engine's steps leads to the block's end node, in the groups of the start.
\<close>

theorem parallel_branch_reaches_end:
  assumes v: "ValidateWorkflowContent valid_id wc limits = Inr ()" and p: "parsed_tree wc"
    and s: "s \<in> set (resolved_starts (wNodes wc))" and b: "(name, target) \<in> set (branches_of s)"
    and base: "groupStack (buildGraph wc) (node_id s) = Inr base"
  shows "\<exists>f. (region_step (buildGraph wc) s)\<^sup>*\<^sup>* \<lparr>CurrentNodeID = target, GroupStack = base\<rparr> f \<and>
    CurrentNodeID f = nParallelEndNodeID (nfields s)"
proof -
  let ?g = "buildGraph wc" and ?fin = "nParallelEndNodeID (nfields s)"
  let ?R = "\<lambda>c. (region_step ?g s)\<^sup>*\<^sup>* \<lparr>CurrentNodeID = target, GroupStack = base\<rparr> (frame_of c)"
  obtain V r' ps ps' where ok: "workflow_ok wc"
    and walk: "walk_loop (walk_fuel wc) (indexParallelTree wc) s name [(target, base)] [] False ps = Inr (V, True, ps')"
    by (rule validated_walk [OF v p s b]) (use base in auto)
  have "False \<or> (\<exists>c. ?R c \<and> fst c = ?fin)"
  proof (rule walk_loop_reached [OF walk TrueI])
    show "?R c" if "c \<in> set [(target, base)]" for c using that by simp
    fix c n ms m
    assume R: "?R c" and ne: "fst c \<noteq> ?fin" and n: "ix_byID (indexParallelTree wc) (fst c) = Some n"
      and no: "\<not> parallelOpaque n" and ms: "walk_moves (indexParallelTree wc) s name n (snd c) = Inr ms"
      and m: "m \<in> set ms"
    from n have nb: "byID ?g (fst c) = Some n" by (simp add: index_graph)
    have "region_step ?g s (frame_of c) (frame_of m)"
      using walk_moves_steps(1) [OF ok nb ms, of m] m ne nb no by (auto simp: region_step_def Node_def)
    with R show "?R m" by simp
  qed
  then show ?thesis by auto
qed

lemma parallel_branch_reaches_end_witness:
  "\<exists>f. (region_step (buildGraph parallel_workflow) sample_block)\<^sup>*\<^sup>* \<lparr>CurrentNodeID = ''q'', GroupStack = []\<rparr> f \<and>
    CurrentNodeID f = ''e''"
proof -
  have s: "sample_block \<in> set (resolved_starts (wNodes parallel_workflow))"
    by (simp add: resolved_starts_def parallel_workflow_def sample_block_def plain_node_def parallelUnresolved_def)
  have b: "(''b'', ''q'') \<in> set (branches_of sample_block)" by (simp add: branches_of_def sample_block_def)
  have base: "groupStack (buildGraph parallel_workflow) (node_id sample_block) = Inr []" by code_simp
  from parallel_branch_reaches_end [OF parallel_workflow_valid parallel_workflow_parsed s b base]
  show ?thesis by (simp add: sample_block_def)
qed

end
