(* ===== verification/Store.thy ===== *)
theory Store
  imports Status ContextDiff Kernel
begin

text \<open>
  The persistence model of \<open>internal/workflow/repository\<close>: one record per table
  of \<open>models.go\<close>, the mappers of \<open>mappers.go\<close> that fill empty JSON columns, and
  the database as the tables an instance owns.

  A nullable column is an option. The domain structs of \<open>model/entities.go\<close>
  write an absent identifier as the empty string and an absent time as the zero
  time; \<open>uuidPtr\<close> and \<open>strVal\<close> translate, so one record serves both. Statuses are
  the datatypes of \<open>Status\<close>, whose stored strings are distinct. A table is the
  list of its rows in insertion order.
\<close>

section \<open>Errors\<close>

text \<open>
  The sentinels of the repository package. \<open>ErrRecordNotFound\<close> is GORM's own
  error where the code returns it unmapped, \<open>ErrUniqueViolation\<close> a violated
  primary key or unique index, \<open>ErrEmptySlice\<close> GORM's error on creating no rows.
\<close>

datatype repo_err =
    ErrInstanceNotFound | ErrLeaseLost | ErrRevisionConflict | ErrStatusConflict
  | ErrNodeInstanceNotFound | ErrDeliveryNotFound
  | ErrParallelExecutionNotFound | ErrParallelBranchNotFound
  | ErrStatusUpdateClaimLost | ErrHistoryGap | ErrHistoryTooDeep | ErrHistoryMismatch
  | ErrRecordNotFound | ErrUniqueViolation | ErrEmptySlice | ErrStatusUpdateConfig status_update_error

section \<open>Rows\<close>

definition uuidPtr :: "string \<Rightarrow> uid option" where
  "uuidPtr s = (if s = [] then None else Some s)"

definition strVal :: "uid option \<Rightarrow> string" where
  "strVal p = (case p of None \<Rightarrow> [] | Some s \<Rightarrow> s)"

lemma strVal_uuidPtr [simp]: "strVal (uuidPtr s) = s"
  by (simp add: strVal_def uuidPtr_def)

record WorkflowInstanceModel =
  wm_id :: uid
  wm_definition :: uid
  wm_context_mode :: string
  wm_debug :: bool
  wm_status :: WorkflowStatus
  wm_reason :: WaitingReason
  wm_pause_requested :: bool
  wm_termination_pending :: bool
  wm_current_group :: "uid option"
  wm_current_node :: "uid option"
  wm_frame :: raw
  wm_context :: raw
  wm_counters :: raw
  wm_form_snapshot :: raw
  wm_migrated_from :: "uid option"
  wm_superseded_by :: "uid option"
  wm_revision :: int
  wm_leased_by :: string
  wm_lease_expiry :: "time option"
  wm_run_at :: "time option"
  wm_error :: string
  wm_started_at :: "time option"
  wm_finished_at :: "time option"
  wm_created_by :: uid
  wm_updated_by :: uid
  wm_created_at :: time
  wm_updated_at :: time

record NodeContextHistoryModel =
  hm_id :: uid
  hm_instance :: uid
  hm_occurrence :: string
  hm_node :: string
  hm_attempt :: int
  hm_is_anchor :: bool
  hm_snapshot :: raw
  hm_diff :: raw
  hm_superseded :: bool
  hm_created_at :: time

record NodeInstanceModel =
  nm_id :: uid
  nm_instance :: uid
  nm_branch :: "uid option"
  nm_node :: uid
  nm_definition :: "uid option"
  nm_name :: string
  nm_type :: string
  nm_attempt :: int
  nm_status :: NodeStatus
  nm_input :: raw
  nm_output :: raw
  nm_error :: string
  nm_context_before :: raw
  nm_context_after :: raw
  nm_recovery_policy :: string
  nm_recovery_result :: string
  nm_started_at :: "time option"
  nm_finished_at :: "time option"
  nm_stopped_at :: "time option"
  nm_cancelled :: bool
  nm_created_at :: time
  nm_updated_at :: time

record WorkflowInstanceEventModel =
  em_id :: uid
  em_instance :: uid
  em_type :: string
  em_data :: raw
  em_created_by :: uid
  em_created_at :: time

record InputDeliveryModel =
  dm_id :: uid
  dm_instance :: uid
  dm_node_instance :: uid
  dm_key :: string
  dm_payload :: raw
  dm_accepted :: bool
  dm_error :: string
  dm_created_at :: time

record StatusUpdateOutboxModel =
  om_id :: uid
  om_instance :: uid
  om_definition :: uid
  om_revision :: int
  om_event_index :: int
  om_transport :: string
  om_payload :: raw
  om_attempts :: int
  om_next_attempt_at :: time
  om_claimed_by :: string
  om_claim_expiry :: "time option"
  om_delivered_at :: "time option"
  om_dead_at :: "time option"
  om_last_error :: string
  om_created_at :: time
  om_updated_at :: time

record ParallelExecutionModel =
  xm_id :: uid
  xm_instance :: uid
  xm_parent_branch :: "uid option"
  xm_depth :: int
  xm_start_node :: uid
  xm_end_node :: uid
  xm_status :: ParallelExecutionStatus
  xm_branch_count :: int
  xm_completed_count :: int
  xm_created_at :: time
  xm_updated_at :: time

record ParallelBranchModel =
  bm_id :: uid
  bm_execution :: uid
  bm_instance :: uid
  bm_name :: string
  bm_index :: int
  bm_start_node :: uid
  bm_frame :: raw
  bm_context :: raw
  bm_counters :: raw
  bm_status :: ParallelBranchStatus
  bm_reason :: WaitingReason
  bm_revision :: int
  bm_leased_by :: string
  bm_lease_expiry :: "time option"
  bm_run_at :: "time option"
  bm_error :: string
  bm_created_at :: time
  bm_updated_at :: time

section \<open>Mappers\<close>

text \<open>What a mapper changes on the way in: an empty JSON value becomes the column's default.\<close>

definition empty_obj :: json where
  "empty_obj = JObj []"

definition WorkflowInstanceToModel :: "WorkflowInstanceModel \<Rightarrow> WorkflowInstanceModel" where
  "WorkflowInstanceToModel w = w
     \<lparr>wm_frame := jsonCol (wm_frame w) empty_obj,
      wm_context := jsonCol (wm_context w) empty_obj,
      wm_counters := jsonCol (wm_counters w) empty_obj\<rparr>"

definition NodeContextHistoryToModel :: "NodeContextHistoryModel \<Rightarrow> NodeContextHistoryModel" where
  "NodeContextHistoryToModel h = h
     \<lparr>hm_snapshot := jsonCol (hm_snapshot h) JNull, hm_diff := jsonCol (hm_diff h) JNull\<rparr>"

definition NodeInstanceToModel :: "NodeInstanceModel \<Rightarrow> NodeInstanceModel" where
  "NodeInstanceToModel n = n
     \<lparr>nm_input := jsonCol (nm_input n) JNull,
      nm_output := jsonCol (nm_output n) JNull,
      nm_context_before := jsonCol (nm_context_before n) JNull,
      nm_context_after := jsonCol (nm_context_after n) JNull\<rparr>"

definition WorkflowInstanceEventToModel :: "WorkflowInstanceEventModel \<Rightarrow> WorkflowInstanceEventModel" where
  "WorkflowInstanceEventToModel e = e\<lparr>em_data := jsonCol (em_data e) empty_obj\<rparr>"

definition InputDeliveryToModel :: "InputDeliveryModel \<Rightarrow> InputDeliveryModel" where
  "InputDeliveryToModel d = d\<lparr>dm_payload := jsonCol (dm_payload d) empty_obj\<rparr>"

definition ParallelBranchToModel :: "ParallelBranchModel \<Rightarrow> ParallelBranchModel" where
  "ParallelBranchToModel b = b
     \<lparr>bm_frame := jsonCol (bm_frame b) empty_obj,
      bm_context := jsonCol (bm_context b) empty_obj,
      bm_counters := jsonCol (bm_counters b) empty_obj\<rparr>"

section \<open>The database\<close>

text \<open>
  \<open>definitions\<close> holds the content column of the immutable workflow definitions.
  \<open>next_id\<close> counts the identifiers generated so far: \<open>newRepoID\<close> draws a fresh
  UUID each time, here the value of the runtime's generator at the counter.
\<close>

record db =
  instances :: "WorkflowInstanceModel list"
  node_instances :: "NodeInstanceModel list"
  executions :: "ParallelExecutionModel list"
  branches :: "ParallelBranchModel list"
  deliveries :: "InputDeliveryModel list"
  events :: "WorkflowInstanceEventModel list"
  history :: "NodeContextHistoryModel list"
  outbox :: "StatusUpdateOutboxModel list"
  definitions :: "(uid \<times> raw) list"
  next_id :: nat

text \<open>
  What the repository takes from outside: the UUID generator, the Go library
  functions of the configuration parser, the JSON text of a \<open>time.Time\<close>, and the
  order in which a \<open>range\<close> over a map visits its entries.
\<close>

record runtime =
  rt_newid :: "nat \<Rightarrow> uid"
  rt_lib :: golib
  rt_time :: "time \<Rightarrow> string"
  rt_range :: "gomap \<Rightarrow> gomap"

definition newRepoID :: "runtime \<Rightarrow> db \<Rightarrow> uid \<times> db" where
  "newRepoID rt d = (rt_newid rt (next_id d), d\<lparr>next_id := Suc (next_id d)\<rparr>)"

text \<open>\<open>tx.Create\<close> on a table with a unique key.\<close>

definition create :: "('r \<Rightarrow> 'k) \<Rightarrow> 'r \<Rightarrow> 'r list \<Rightarrow> repo_err + 'r list" where
  "create key r t = (if key r \<in> key ` set t then Inl ErrUniqueViolation else Inr (t @ [r]))"

lemma create_Inr_iff: "create key r t = Inr t' \<longleftrightarrow> key r \<notin> key ` set t \<and> t' = t @ [r]"
  by (auto simp: create_def)

text \<open>A table with a primary key and a further unique index.\<close>

definition create_unique :: "('r \<Rightarrow> 'k) \<Rightarrow> ('r \<Rightarrow> 'l) \<Rightarrow> 'r \<Rightarrow> 'r list \<Rightarrow> repo_err + 'r list" where
  "create_unique key index r t =
     (if key r \<in> key ` set t \<or> index r \<in> index ` set t then Inl ErrUniqueViolation else Inr (t @ [r]))"

lemma create_unique_Inr_iff:
  "create_unique key index r t = Inr t' \<longleftrightarrow>
   key r \<notin> key ` set t \<and> index r \<notin> index ` set t \<and> t' = t @ [r]"
  by (auto simp: create_unique_def)

abbreviation find_instance :: "uid \<Rightarrow> db \<Rightarrow> WorkflowInstanceModel option" where
  "find_instance i d \<equiv> by_key wm_id i (instances d)"

abbreviation find_node_instance :: "uid \<Rightarrow> db \<Rightarrow> NodeInstanceModel option" where
  "find_node_instance i d \<equiv> by_key nm_id i (node_instances d)"

abbreviation find_execution :: "uid \<Rightarrow> db \<Rightarrow> ParallelExecutionModel option" where
  "find_execution i d \<equiv> by_key xm_id i (executions d)"

abbreviation find_branch :: "uid \<Rightarrow> db \<Rightarrow> ParallelBranchModel option" where
  "find_branch i d \<equiv> by_key bm_id i (branches d)"

text \<open>The comparisons of nullable times: SQL's comparison with NULL is not true.\<close>

definition expired :: "time \<Rightarrow> time option \<Rightarrow> bool" where
  "expired now t = (case t of None \<Rightarrow> False | Some e \<Rightarrow> e < now)"

definition unleased :: "time \<Rightarrow> time option \<Rightarrow> bool" where
  "unleased now t = (t = None \<or> expired now t)"

definition due :: "time \<Rightarrow> time option \<Rightarrow> bool" where
  "due now t = (case t of None \<Rightarrow> True | Some e \<Rightarrow> e \<le> now)"

text \<open>The unique keys the schema declares.\<close>

definition outbox_key :: "StatusUpdateOutboxModel \<Rightarrow> uid \<times> string \<times> int \<times> int" where
  "outbox_key o' = (om_instance o', om_transport o', om_revision o', om_event_index o')"

definition delivery_key :: "InputDeliveryModel \<Rightarrow> uid \<times> string" where
  "delivery_key r = (dm_instance r, dm_key r)"

definition branch_key :: "ParallelBranchModel \<Rightarrow> uid \<times> string" where
  "branch_key b = (bm_execution b, bm_name b)"

definition wf_keys :: "db \<Rightarrow> bool" where
  "wf_keys d \<longleftrightarrow>
     distinct (map wm_id (instances d)) \<and> distinct (map nm_id (node_instances d)) \<and>
     distinct (map xm_id (executions d)) \<and> distinct (map bm_id (branches d)) \<and>
     distinct (map delivery_key (deliveries d)) \<and> distinct (map outbox_key (outbox d)) \<and>
     distinct (map branch_key (branches d))"

lemma update_fix: "by_key k x (update_where (\<lambda>r. k r = x) f t) = map_option f (by_key k x t)"
  if "\<And>r. k (f r) = k r"
  using that by (induction t) (auto simp: tab_simps)

text \<open>\<open>UPDATE ... WHERE id = x AND q\<close> read back by key.\<close>

lemma by_key_fenced_update:
  assumes "\<And>r. k (f r) = k r"
  shows "by_key k y (update_where (\<lambda>r. k r = x \<and> q r) f t) =
    map_option (\<lambda>r. if k r = x \<and> q r then f r else r) (by_key k y t)"
  using assms by (induction t) (auto simp: tab_simps)

lemma by_key_append: "by_key k x (t @ u) = (case by_key k x t of None \<Rightarrow> by_key k x u | Some r \<Rightarrow> Some r)"
  by (induction t) (auto simp: tab_simps)

lemma by_key_mem: "distinct (map k t) \<Longrightarrow> r \<in> set t \<Longrightarrow> k r = x \<Longrightarrow> by_key k x t = Some r"
  using by_key_distinct [of k t r] by simp

end
