(* ===== verification/Outbox.thy ===== *)
theory Outbox
  imports Store "HOL-Library.Product_Lexorder"
begin

text \<open>
  The transactional outbox of status updates:
  \<open>internal/workflow/repository/status_update.go\<close> and the delivery step of
  \<open>internal/workflow/statusupdate/dispatcher.go\<close>. The parsed configuration is
  looked up in the definitions table each time; the cache in front of it is
  transparent (theory \<open>DefCache\<close>), because definitions are immutable.
\<close>

section \<open>Transition events\<close>

record statusWithReason =
  sr_status :: WorkflowStatus
  sr_reason :: WaitingReason

definition transitionEvents :: "statusWithReason \<Rightarrow> statusWithReason \<Rightarrow> string list" where
  "transitionEvents frm to =
     (if sr_status frm = WorkflowPaused \<and> sr_status to = WorkflowWaiting then [''resumed'']
      else if sr_status to = WorkflowWaiting \<and> sr_reason to = ReasonInput then [''waiting_for_input'']
      else if sr_status to = WorkflowPaused then [''paused'']
      else if sr_status to = WorkflowFinished then [''finished'']
      else if sr_status to = WorkflowFailed then [''failed'']
      else if sr_status to = WorkflowStopped then [''stopped'']
      else [])"

abbreviation with_reason :: "WorkflowStatus \<Rightarrow> WaitingReason \<Rightarrow> statusWithReason" where
  "with_reason s r \<equiv> \<lparr>sr_status = s, sr_reason = r\<rparr>"

section \<open>Redaction\<close>

definition statusUpdateSecretMask :: string where
  "statusUpdateSecretMask = ''********''"

fun redact_values :: "gomap \<Rightarrow> string \<Rightarrow> string" where
  "redact_values [] msg = msg"
| "redact_values ((k, v) # m) msg =
     (case v of
        JStr p \<Rightarrow>
          if p = [] then statusUpdateSecretMask
          else redact_values m (replace_all msg p statusUpdateSecretMask)
      | _ \<Rightarrow> statusUpdateSecretMask)"

definition redactStatusUpdateError :: "(gomap \<Rightarrow> gomap) \<Rightarrow> raw \<Rightarrow> string \<Rightarrow> string" where
  "redactStatusUpdateError rng contextRaw errMsg =
     (if errMsg = [] then []
      else case contextRaw of
        Some (JObj obj) \<Rightarrow>
          (case map_of obj ''secret'' of
             None \<Rightarrow> errMsg
           | Some (JObj values) \<Rightarrow> redact_values (rng values) errMsg
           | Some _ \<Rightarrow> statusUpdateSecretMask)
      | _ \<Rightarrow> statusUpdateSecretMask)"

section \<open>Enqueue\<close>

definition StatusUpdateEventType :: string where
  "StatusUpdateEventType = ''workflow.status_changed''"

text \<open>\<open>StatusUpdateEventPayload\<close> as the JSON object it marshals to, keys ascending.\<close>

definition event_payload ::
  "runtime \<Rightarrow> uid \<Rightarrow> string \<Rightarrow> time \<Rightarrow> uid \<Rightarrow> uid \<Rightarrow> statusWithReason \<Rightarrow> statusWithReason \<Rightarrow>
   int \<Rightarrow> string \<Rightarrow> json" where
  "event_payload rt eventID ev at def inst frm to rv err = JObj
     [(''error'', JStr err), (''event'', JStr ev),
      (''from_status'', JStr (workflow_str (sr_status frm))),
      (''from_waiting_reason'', JStr (reason_str (sr_reason frm))),
      (''id'', JStr eventID), (''occurred_at'', JStr (rt_time rt at)), (''revision'', JInt rv),
      (''to_status'', JStr (workflow_str (sr_status to))),
      (''to_waiting_reason'', JStr (reason_str (sr_reason to))),
      (''type'', JStr StatusUpdateEventType),
      (''workflow_definition_id'', JStr def), (''workflow_instance_id'', JStr inst)]"

text \<open>\<open>tx.Create\<close> of an outbox row: a fresh id under the unique event index.\<close>

definition create_outbox ::
  "runtime \<Rightarrow> uid \<Rightarrow> uid \<Rightarrow> int \<Rightarrow> nat \<Rightarrow> json \<Rightarrow> time \<Rightarrow> transport \<Rightarrow> db \<Rightarrow> repo_err + db" where
  "create_outbox rt inst def rv i payload at tr d =
     (let (x, d1) = newRepoID rt d
      in bindR (create_unique om_id outbox_key
           \<lparr>om_id = x, om_instance = inst, om_definition = def, om_revision = rv,
            om_event_index = int i, om_transport = transport_str tr, om_payload = Some payload,
            om_attempts = 0, om_next_attempt_at = at, om_claimed_by = [], om_claim_expiry = None,
            om_delivered_at = None, om_dead_at = None, om_last_error = [],
            om_created_at = at, om_updated_at = at\<rparr> (outbox d1))
         (\<lambda>t. Inr (d1\<lparr>outbox := t\<rparr>)))"

definition enqueue_event ::
  "runtime \<Rightarrow> uid \<Rightarrow> uid \<Rightarrow> int \<Rightarrow> statusWithReason \<Rightarrow> statusWithReason \<Rightarrow> string \<Rightarrow> raw \<Rightarrow> time \<Rightarrow>
   transport list \<Rightarrow> nat \<times> string \<Rightarrow> db \<Rightarrow> repo_err + db" where
  "enqueue_event rt inst def rv frm to errMsg contextRaw at trs ie d =
     (let (eventID, d1) = newRepoID rt d;
          payload = event_payload rt eventID (snd ie) at def inst frm to rv
            (redactStatusUpdateError (rt_range rt) contextRaw errMsg)
      in foldR (create_outbox rt inst def rv (fst ie) payload at) trs d1)"

definition enqueueStatusUpdateTx ::
  "runtime \<Rightarrow> uid \<Rightarrow> uid \<Rightarrow> int \<Rightarrow> statusWithReason \<Rightarrow> statusWithReason \<Rightarrow> string list \<Rightarrow> string \<Rightarrow>
   raw \<Rightarrow> time \<Rightarrow> db \<Rightarrow> repo_err + db" where
  "enqueueStatusUpdateTx rt inst def rv frm to evs errMsg contextRaw at d =
     (if evs = [] \<or> def = [] then Inr d
      else case map_of (definitions d) def of
        None \<Rightarrow> Inl ErrRecordNotFound
      | Some content \<Rightarrow>
          (case ParseStatusUpdate (rt_lib rt) content of
             Inl e \<Rightarrow> Inl (ErrStatusUpdateConfig e)
           | Inr None \<Rightarrow> Inr d
           | Inr (Some cfg) \<Rightarrow>
               foldR (enqueue_event rt inst def rv frm to errMsg contextRaw at (Transports cfg))
                 (List.enumerate 0 evs) d))"

section \<open>Claim, deliver, fail\<close>

record PendingStatusUpdate =
  ps_id :: uid
  ps_logical :: string
  ps_instance :: uid
  ps_definition :: uid
  ps_transport :: string
  ps_payload :: raw

definition resolved :: "StatusUpdateOutboxModel \<Rightarrow> bool" where
  "resolved r \<longleftrightarrow> om_delivered_at r \<noteq> None \<or> om_dead_at r \<noteq> None"

definition earlier :: "StatusUpdateOutboxModel \<Rightarrow> StatusUpdateOutboxModel \<Rightarrow> bool" where
  "earlier o2 r \<longleftrightarrow>
     om_instance o2 = om_instance r \<and> om_transport o2 = om_transport r \<and>
     (om_revision o2 < om_revision r \<or>
      om_revision o2 = om_revision r \<and> om_event_index o2 < om_event_index r)"

definition claimable_update ::
  "time \<Rightarrow> StatusUpdateOutboxModel list \<Rightarrow> StatusUpdateOutboxModel \<Rightarrow> bool" where
  "claimable_update now t r \<longleftrightarrow>
     om_delivered_at r = None \<and> om_dead_at r = None \<and> om_next_attempt_at r \<le> now \<and>
     (om_claimed_by r = [] \<or> expired now (om_claim_expiry r)) \<and>
     \<not> (\<exists>o2 \<in> set t. earlier o2 r \<and> \<not> resolved o2)"

definition logicalEventID :: "raw \<Rightarrow> string" where
  "logicalEventID payload =
     (case payload of
        Some (JObj obj) \<Rightarrow> (case map_of obj ''id'' of Some (JStr s) \<Rightarrow> s | _ \<Rightarrow> [])
      | _ \<Rightarrow> [])"

definition pending_of :: "StatusUpdateOutboxModel \<Rightarrow> PendingStatusUpdate" where
  "pending_of r =
     \<lparr>ps_id = om_id r, ps_logical = logicalEventID (om_payload r), ps_instance = om_instance r,
      ps_definition = om_definition r, ps_transport = om_transport r, ps_payload = om_payload r\<rparr>"

text \<open>\<open>locked\<close> are the rows another transaction holds: \<open>SKIP LOCKED\<close> passes over them.\<close>

definition ClaimNextStatusUpdates ::
  "(uid \<Rightarrow> bool) \<Rightarrow> time \<Rightarrow> time \<Rightarrow> string \<Rightarrow> duration \<Rightarrow> nat \<Rightarrow> db \<Rightarrow> PendingStatusUpdate list \<times> db" where
  "ClaimNextStatusUpdates locked dbnow now worker lease limit d =
     (let rows = take limit (order_by (\<lambda>r. (om_next_attempt_at r, om_created_at r))
            (filter (\<lambda>r. claimable_update dbnow (outbox d) r \<and> \<not> locked (om_id r)) (outbox d)));
          save = update_where (\<lambda>r. om_id r \<in> om_id ` set rows)
            (\<lambda>r. r\<lparr>om_claimed_by := worker, om_claim_expiry := Some (now + lease),
                   om_updated_at := now\<rparr>)
      in (map pending_of rows, d\<lparr>outbox := save (outbox d)\<rparr>))"

definition MarkStatusUpdateDelivered :: "time \<Rightarrow> uid \<Rightarrow> string \<Rightarrow> db \<Rightarrow> repo_err + db" where
  "MarkStatusUpdateDelivered now ev worker d =
     (let p = (\<lambda>r. om_id r = ev \<and> om_claimed_by r = worker)
      in if count_where p (outbox d) = 0 then Inl ErrStatusUpdateClaimLost
         else Inr (d\<lparr>outbox := update_where p
                (\<lambda>r. r\<lparr>om_delivered_at := Some now, om_claimed_by := [], om_claim_expiry := None,
                       om_updated_at := now\<rparr>) (outbox d)\<rparr>))"

definition fail_row :: "time \<Rightarrow> duration \<Rightarrow> int \<Rightarrow> string \<Rightarrow> StatusUpdateOutboxModel \<Rightarrow> StatusUpdateOutboxModel" where
  "fail_row now retryDelay maxRetry errMsg r =
     (let m = r\<lparr>om_attempts := om_attempts r + 1, om_last_error := errMsg, om_claimed_by := [],
                om_claim_expiry := None, om_updated_at := now\<rparr>
      in if om_attempts m > maxRetry
         then m\<lparr>om_dead_at := Some now, om_next_attempt_at := now\<rparr>
         else m\<lparr>om_next_attempt_at := now + retryDelay\<rparr>)"

definition FailStatusUpdate ::
  "time \<Rightarrow> uid \<Rightarrow> string \<Rightarrow> duration \<Rightarrow> int \<Rightarrow> string \<Rightarrow> db \<Rightarrow> repo_err + db" where
  "FailStatusUpdate now ev worker retryDelay maxRetry errMsg d =
     (case first_where (\<lambda>r. om_id r = ev \<and> om_claimed_by r = worker) (outbox d) of
        None \<Rightarrow> Inl ErrStatusUpdateClaimLost
      | Some m \<Rightarrow>
          Inr (d\<lparr>outbox := update_where (\<lambda>r. om_id r = om_id m)
                 (\<lambda>_. fail_row now retryDelay maxRetry errMsg m) (outbox d)\<rparr>))"

text \<open>
  \<open>Dispatcher.deliver\<close>. The loader resolves a definition's configuration (an error
  text on failure), a publisher returns the error text of a failed delivery.
\<close>

definition transport_of :: "string \<Rightarrow> transport option" where
  "transport_of s = find (\<lambda>t. transport_str t = s) [TransportHTTP, TransportRedis, TransportRabbitMQ]"

type_synonym publisher = "StatusUpdateConfig \<Rightarrow> PendingStatusUpdate \<Rightarrow> string option"

definition deliver ::
  "(uid \<Rightarrow> string + StatusUpdateConfig option) \<Rightarrow> (string \<Rightarrow> publisher option) \<Rightarrow> time \<Rightarrow> string \<Rightarrow>
   PendingStatusUpdate \<Rightarrow> db \<Rightarrow> repo_err + db" where
  "deliver loader publishers now worker ev d =
     (let dead = (\<lambda>msg. FailStatusUpdate now (ps_id ev) worker 0 0 msg d)
      in case loader (ps_definition ev) of
           Inl e \<Rightarrow> dead (''load status_update config: '' @ e)
         | Inr None \<Rightarrow> dead ''status_update not configured''
         | Inr (Some cfg) \<Rightarrow>
             (case publishers (ps_transport ev) of
                None \<Rightarrow> dead (''unknown status transport '' @ ps_transport ev)
              | Some publish \<Rightarrow>
                  (case Option.bind (transport_of (ps_transport ev)) (RetryPolicy cfg) of
                     None \<Rightarrow> dead (''status_update transport '' @ ps_transport ev @ '' not configured'')
                   | Some (maxRetry, retryDelay) \<Rightarrow>
                       (case publish cfg ev of
                          Some e \<Rightarrow> FailStatusUpdate now (ps_id ev) worker retryDelay maxRetry e d
                        | None \<Rightarrow> MarkStatusUpdateDelivered now (ps_id ev) worker d))))"

section \<open>What an enqueue adds\<close>

text \<open>A row fresh from \<open>create_outbox\<close>.\<close>

definition new_row :: "uid \<Rightarrow> uid \<Rightarrow> int \<Rightarrow> time \<Rightarrow> StatusUpdateOutboxModel \<Rightarrow> bool" where
  "new_row inst def rv at r \<longleftrightarrow>
     om_instance r = inst \<and> om_definition r = def \<and> om_revision r = rv \<and> om_attempts r = 0 \<and>
     om_claimed_by r = [] \<and> om_claim_expiry r = None \<and> om_delivered_at r = None \<and>
     om_dead_at r = None \<and> om_next_attempt_at r = at"

lemma create_outbox_adds:
  assumes "create_outbox rt inst def rv i payload at tr d = Inr d'"
  shows "\<exists>r n. d' = d\<lparr>outbox := outbox d @ [r], next_id := n\<rparr> \<and> new_row inst def rv at r \<and>
    om_event_index r = int i \<and> om_transport r = transport_str tr \<and> om_payload r = Some payload \<and>
    outbox_key r \<notin> outbox_key ` set (outbox d) \<and> om_id r \<notin> om_id ` set (outbox d)"
proof -
  from assms obtain r where
    "d' = d\<lparr>next_id := Suc (next_id d), outbox := outbox d @ [r]\<rparr>" and r: "new_row inst def rv at r"
    "om_event_index r = int i" "om_transport r = transport_str tr" "om_payload r = Some payload"
    "outbox_key r \<notin> outbox_key ` set (outbox d)" "om_id r \<notin> om_id ` set (outbox d)"
    by (auto simp: create_outbox_def newRepoID_def bindR_Inr_iff create_unique_Inr_iff new_row_def)
  then have "d' = d\<lparr>outbox := outbox d @ [r], next_id := Suc (next_id d)\<rparr>" by simp
  with r show ?thesis by blast
qed

lemma create_outbox_all_adds:
  "foldR (create_outbox rt inst def rv i payload at) trs d = Inr d' \<Longrightarrow>
   \<exists>rows n. d' = d\<lparr>outbox := outbox d @ rows, next_id := n\<rparr> \<and> (\<forall>r \<in> set rows. new_row inst def rv at r) \<and>
     map (\<lambda>r. (om_event_index r, om_transport r, om_payload r)) rows =
       map (\<lambda>tr. (int i, transport_str tr, Some payload)) trs"
proof (induction trs arbitrary: d)
  case Nil
  then have "d' = d\<lparr>outbox := outbox d @ [], next_id := next_id d\<rparr>" by simp
  then show ?case by fastforce
next
  case (Cons tr trs)
  then obtain d1 where d1: "create_outbox rt inst def rv i payload at tr d = Inr d1"
    and rest: "foldR (create_outbox rt inst def rv i payload at) trs d1 = Inr d'"
    by (auto simp: bindR_Inr_iff)
  obtain r n where r: "d1 = d\<lparr>outbox := outbox d @ [r], next_id := n\<rparr>" "new_row inst def rv at r"
    "om_event_index r = int i" "om_transport r = transport_str tr" "om_payload r = Some payload"
    using create_outbox_adds [OF d1] by blast
  obtain rows m where rows: "d' = d1\<lparr>outbox := outbox d1 @ rows, next_id := m\<rparr>"
    "\<forall>r \<in> set rows. new_row inst def rv at r"
    "map (\<lambda>r. (om_event_index r, om_transport r, om_payload r)) rows =
       map (\<lambda>tr. (int i, transport_str tr, Some payload)) trs"
    using Cons.IH [OF rest] by blast
  have "d' = d\<lparr>outbox := outbox d @ (r # rows), next_id := m\<rparr>" using r(1) rows(1) by simp
  moreover have "\<forall>x \<in> set (r # rows). new_row inst def rv at x" using r(2) rows(2) by simp
  ultimately show ?case using r rows(3) by fastforce
qed

text \<open>One event: the rows of its transports share the payload, whose id is the event's.\<close>

lemma enqueue_event_adds:
  assumes "enqueue_event rt inst def rv frm to err ctx at trs (i, ev) d = Inr d'"
  shows "\<exists>rows n x. d' = d\<lparr>outbox := outbox d @ rows, next_id := n\<rparr> \<and>
    (\<forall>r \<in> set rows. new_row inst def rv at r \<and> logicalEventID (om_payload r) = x) \<and>
    map (\<lambda>r. (om_event_index r, om_transport r)) rows = map (\<lambda>tr. (int i, transport_str tr)) trs"
proof -
  define x where "x = fst (newRepoID rt d)"
  define d1 where "d1 = snd (newRepoID rt d)"
  define payload where "payload = event_payload rt x ev at def inst frm to rv
    (redactStatusUpdateError (rt_range rt) ctx err)"
  have "foldR (create_outbox rt inst def rv i payload at) trs d1 = Inr d'"
    using assms by (simp add: enqueue_event_def x_def d1_def payload_def Let_def case_prod_beta)
  from create_outbox_all_adds [OF this] obtain rows n where rows:
    "d' = d1\<lparr>outbox := outbox d1 @ rows, next_id := n\<rparr>" "\<forall>r \<in> set rows. new_row inst def rv at r"
    and m: "map (\<lambda>r. (om_event_index r, om_transport r, om_payload r)) rows =
      map (\<lambda>tr. (int i, transport_str tr, Some payload)) trs"
    by blast
  from m have "\<forall>r \<in> set rows. om_payload r = Some payload"
    by (induction rows arbitrary: trs) (auto simp: Cons_eq_map_conv)
  then have "\<forall>r \<in> set rows. logicalEventID (om_payload r) = x"
    by (simp add: payload_def event_payload_def logicalEventID_def)
  moreover have "map (\<lambda>r. (om_event_index r, om_transport r)) rows = map (\<lambda>tr. (int i, transport_str tr)) trs"
    using arg_cong [OF m, of "map (\<lambda>(a, b, c). (a, b))"] by (simp add: comp_def)
  moreover have "d' = d\<lparr>outbox := outbox d @ rows, next_id := n\<rparr>"
    using rows(1) by (simp add: d1_def newRepoID_def)
  ultimately show ?thesis using rows(2) by blast
qed

lemma enqueue_events_add:
  "foldR (enqueue_event rt inst def rv frm to err ctx at trs) ies d = Inr d' \<Longrightarrow>
   \<exists>rows n. d' = d\<lparr>outbox := outbox d @ rows, next_id := n\<rparr> \<and> (\<forall>r \<in> set rows. new_row inst def rv at r) \<and>
     map (\<lambda>r. (om_event_index r, om_transport r)) rows =
       concat (map (\<lambda>(i, ev). map (\<lambda>tr. (int i, transport_str tr)) trs) ies)"
proof (induction ies arbitrary: d)
  case Nil
  then have "d' = d\<lparr>outbox := outbox d @ [], next_id := next_id d\<rparr>" by simp
  then show ?case by fastforce
next
  case (Cons ie ies)
  obtain i ev where ie: "ie = (i, ev)" by (cases ie)
  from Cons.prems obtain d1 where d1: "enqueue_event rt inst def rv frm to err ctx at trs (i, ev) d = Inr d1"
    and rest: "foldR (enqueue_event rt inst def rv frm to err ctx at trs) ies d1 = Inr d'"
    by (auto simp: bindR_Inr_iff ie)
  obtain rows n where r: "d1 = d\<lparr>outbox := outbox d @ rows, next_id := n\<rparr>"
    "\<forall>r \<in> set rows. new_row inst def rv at r"
    "map (\<lambda>r. (om_event_index r, om_transport r)) rows = map (\<lambda>tr. (int i, transport_str tr)) trs"
    using enqueue_event_adds [OF d1] by blast
  obtain rows' m where r': "d' = d1\<lparr>outbox := outbox d1 @ rows', next_id := m\<rparr>"
    "\<forall>r \<in> set rows'. new_row inst def rv at r"
    "map (\<lambda>r. (om_event_index r, om_transport r)) rows' =
       concat (map (\<lambda>(i, ev). map (\<lambda>tr. (int i, transport_str tr)) trs) ies)"
    using Cons.IH [OF rest] by blast
  have "d' = d\<lparr>outbox := outbox d @ (rows @ rows'), next_id := m\<rparr>" using r(1) r'(1) by simp
  moreover have "\<forall>x \<in> set (rows @ rows'). new_row inst def rv at x" using r(2) r'(2) by auto
  moreover have "map (\<lambda>r. (om_event_index r, om_transport r)) (rows @ rows') =
    concat (map (\<lambda>(i, ev). map (\<lambda>tr. (int i, transport_str tr)) trs) (ie # ies))"
    using r(3) r'(3) by (simp add: ie)
  ultimately show ?case by blast
qed

lemma enqueue_adds:
  assumes "enqueueStatusUpdateTx rt inst def rv frm to evs err ctx at d = Inr d'"
  obtains rows n where "d' = d\<lparr>outbox := outbox d @ rows, next_id := n\<rparr>"
    "\<forall>r \<in> set rows. new_row inst def rv at r"
proof -
  show thesis
  proof (cases "evs = [] \<or> def = []")
    case True
    with assms show thesis
      by (intro that [of "next_id d" "[]"]) (simp_all add: enqueueStatusUpdateTx_def)
  next
    case False
    with assms obtain content where
      "(case ParseStatusUpdate (rt_lib rt) content of
          Inl e \<Rightarrow> Inl (ErrStatusUpdateConfig e)
        | Inr None \<Rightarrow> Inr d
        | Inr (Some cfg) \<Rightarrow>
            foldR (enqueue_event rt inst def rv frm to err ctx at (Transports cfg))
              (List.enumerate 0 evs) d) = Inr d'"
      by (simp add: enqueueStatusUpdateTx_def split: option.split_asm)
    then consider "Inr d = (Inr d' :: repo_err + db)"
      | trs where "foldR (enqueue_event rt inst def rv frm to err ctx at trs) (List.enumerate 0 evs) d = Inr d'"
      by (simp split: option.split_asm sum.split_asm)
    then show thesis
    proof cases
      case 1
      then show thesis by (intro that [of "next_id d" "[]"]) simp_all
    next
      case 2
      from enqueue_events_add [OF this] show thesis using that by blast
    qed
  qed
qed


text \<open>Both unique keys of the table survive an enqueue.\<close>

definition outbox_keys :: "db \<Rightarrow> bool" where
  "outbox_keys d \<longleftrightarrow> distinct (map om_id (outbox d)) \<and> distinct (map outbox_key (outbox d))"

lemma create_outbox_keys: "create_outbox rt inst def rv i payload at tr d = Inr d' \<Longrightarrow> outbox_keys d \<Longrightarrow> outbox_keys d'"
  by (drule create_outbox_adds) (auto simp: outbox_keys_def)

lemma enqueue_event_keys:
  assumes "enqueue_event rt inst def rv frm to err ctx at trs ie d = Inr d'" "outbox_keys d"
  shows "outbox_keys d'"
proof (rule foldR_invariant [where I = outbox_keys])
  show "foldR (create_outbox rt inst def rv (fst ie) (event_payload rt (fst (newRepoID rt d)) (snd ie) at def inst frm to rv
      (redactStatusUpdateError (rt_range rt) ctx err)) at) trs (snd (newRepoID rt d)) = Inr d'"
    using assms(1) by (simp add: enqueue_event_def Let_def case_prod_beta)
  show "outbox_keys (snd (newRepoID rt d))"
    using assms(2) by (simp add: newRepoID_def outbox_keys_def)
qed (rule create_outbox_keys)

lemma enqueue_keys:
  assumes "enqueueStatusUpdateTx rt inst def rv frm to evs err ctx at d = Inr d'" "outbox_keys d"
  shows "outbox_keys d'"
proof -
  have *: "outbox_keys d'" if "foldR (enqueue_event rt inst def rv frm to err ctx at trs) ies d = Inr d'" for trs ies
    by (rule foldR_invariant [where I = outbox_keys, OF that assms(2)]) (simp add: enqueue_event_keys)
  show ?thesis
    using assms * unfolding enqueueStatusUpdateTx_def
    by (simp split: if_split_asm option.split_asm sum.split_asm)
qed

section \<open>Strict order\<close>

text \<open>
  The transactions that touch the outbox. A status change enqueues at a revision
  above every earlier one of its instance, because it commits together with the
  increment of that revision. Worker names are not empty.
\<close>

inductive outbox_step :: "runtime \<Rightarrow> db \<Rightarrow> db \<Rightarrow> bool" for rt where
  step_enqueue:
    "enqueueStatusUpdateTx rt inst def rv frm to evs err ctx at d = Inr d' \<Longrightarrow>
     (\<And>r. r \<in> set (outbox d) \<Longrightarrow> om_instance r = inst \<Longrightarrow> om_revision r < rv) \<Longrightarrow>
     outbox_step rt d d'"
| step_claim:
    "worker \<noteq> [] \<Longrightarrow>
     outbox_step rt d (snd (ClaimNextStatusUpdates locked dbnow now worker lease limit d))"
| step_mark:
    "worker \<noteq> [] \<Longrightarrow> MarkStatusUpdateDelivered now ev worker d = Inr d' \<Longrightarrow> outbox_step rt d d'"
| step_fail:
    "worker \<noteq> [] \<Longrightarrow> FailStatusUpdate now ev worker delay maxRetry msg d = Inr d' \<Longrightarrow>
     outbox_step rt d d'"

definition in_order :: "db \<Rightarrow> bool" where
  "in_order d \<longleftrightarrow>
     (\<forall>r \<in> set (outbox d). om_claimed_by r \<noteq> [] \<or> om_delivered_at r \<noteq> None \<longrightarrow>
        (\<forall>o2 \<in> set (outbox d). earlier o2 r \<longrightarrow> resolved o2))"

lemma in_orderD:
  "in_order d \<Longrightarrow> r \<in> set (outbox d) \<Longrightarrow> om_claimed_by r \<noteq> [] \<or> om_delivered_at r \<noteq> None \<Longrightarrow>
   o2 \<in> set (outbox d) \<Longrightarrow> earlier o2 r \<Longrightarrow> resolved o2"
  unfolding in_order_def by blast

text \<open>Rewriting a row keeps the order when no resolved row is reopened and every
  row that becomes claimed or delivered was already allowed to.\<close>

lemma in_order_update:
  assumes "in_order d"
    and "\<And>r. r \<in> set (outbox d) \<Longrightarrow> (om_instance (f r), om_transport (f r), om_revision (f r), om_event_index (f r)) =
      (om_instance r, om_transport r, om_revision r, om_event_index r)"
    and "\<And>r. r \<in> set (outbox d) \<Longrightarrow> resolved r \<Longrightarrow> resolved (f r)"
    and "\<And>r o2. r \<in> set (outbox d) \<Longrightarrow> om_claimed_by (f r) \<noteq> [] \<or> om_delivered_at (f r) \<noteq> None \<Longrightarrow>
      o2 \<in> set (outbox d) \<Longrightarrow> earlier o2 r \<Longrightarrow> resolved o2"
  shows "in_order (d\<lparr>outbox := map f (outbox d)\<rparr>)"
  unfolding in_order_def
proof (intro ballI impI)
  fix r o2
  assume "r \<in> set (outbox (d\<lparr>outbox := map f (outbox d)\<rparr>))" "om_claimed_by r \<noteq> [] \<or> om_delivered_at r \<noteq> None"
    "o2 \<in> set (outbox (d\<lparr>outbox := map f (outbox d)\<rparr>))" "earlier o2 r"
  then obtain r0 o0 where "r = f r0" "r0 \<in> set (outbox d)" "o2 = f o0" "o0 \<in> set (outbox d)" by auto
  moreover have "earlier o0 r0"
    using \<open>earlier o2 r\<close> calculation assms(2) [of r0] assms(2) [of o0] by (simp add: earlier_def)
  ultimately show "resolved o2" using assms(3) [of o0] assms(4) [of r0 o0]
    \<open>om_claimed_by r \<noteq> [] \<or> om_delivered_at r \<noteq> None\<close> by simp
qed


lemma in_order_enqueue:
  assumes "enqueueStatusUpdateTx rt inst def rv frm to evs err ctx at d = Inr d'"
    "\<And>r. r \<in> set (outbox d) \<Longrightarrow> om_instance r = inst \<Longrightarrow> om_revision r < rv" "in_order d"
  shows "in_order d'"
proof -
  obtain rows n where d': "d' = d\<lparr>outbox := outbox d @ rows, next_id := n\<rparr>"
    and new: "\<forall>r \<in> set rows. new_row inst def rv at r"
    using enqueue_adds [OF assms(1)] .
  have "\<not> earlier o2 r" if "o2 \<in> set rows" "r \<in> set (outbox d)" for o2 r
    using new that assms(2) [of r] by (fastforce simp: earlier_def new_row_def)
  with assms(3) new show ?thesis
    unfolding in_order_def d' by (fastforce simp: new_row_def)
qed

lemma in_order_claim:
  assumes "in_order d" "outbox_keys d"
  shows "in_order (snd (ClaimNextStatusUpdates locked dbnow now worker lease limit d))"
proof -
  define rows where "rows = take limit (order_by (\<lambda>r. (om_next_attempt_at r, om_created_at r))
    (filter (\<lambda>r. claimable_update dbnow (outbox d) r \<and> \<not> locked (om_id r)) (outbox d)))"
  define f where "f = (\<lambda>r :: StatusUpdateOutboxModel. if om_id r \<in> om_id ` set rows
    then r\<lparr>om_claimed_by := worker, om_claim_expiry := Some (now + lease), om_updated_at := now\<rparr> else r)"
  have rows: "r \<in> set (outbox d) \<and> claimable_update dbnow (outbox d) r" if "r \<in> set rows" for r
    using that unfolding rows_def by (auto dest!: in_set_takeD)
  have claimed: "claimable_update dbnow (outbox d) r" if "r \<in> set (outbox d)" "om_id r \<in> om_id ` set rows" for r
  proof -
    from that(2) obtain r' where "r' \<in> set rows" "om_id r' = om_id r" by auto
    with rows that(1) assms(2) have "r' = r"
      by (metis by_key_distinct option.inject outbox_keys_def)
    with \<open>r' \<in> set rows\<close> rows show ?thesis by blast
  qed
  have "in_order (d\<lparr>outbox := map f (outbox d)\<rparr>)"
  proof (rule in_order_update [OF assms(1)])
    fix r o2
    assume "r \<in> set (outbox d)" "om_claimed_by (f r) \<noteq> [] \<or> om_delivered_at (f r) \<noteq> None"
      "o2 \<in> set (outbox d)" "earlier o2 r"
    then show "resolved o2"
      using claimed [of r] in_orderD [OF assms(1), of r o2]
      by (cases "om_id r \<in> om_id ` set rows") (auto simp: f_def claimable_update_def)
  qed (auto simp: f_def resolved_def)
  then show ?thesis
    by (simp add: ClaimNextStatusUpdates_def Let_def update_where_def f_def rows_def)
qed

lemma in_order_mark:
  assumes "MarkStatusUpdateDelivered now ev worker d = Inr d'" "worker \<noteq> []" "in_order d"
  shows "in_order d'"
proof -
  define f where "f = (\<lambda>r :: StatusUpdateOutboxModel. if om_id r = ev \<and> om_claimed_by r = worker
    then r\<lparr>om_delivered_at := Some now, om_claimed_by := [], om_claim_expiry := None, om_updated_at := now\<rparr>
    else r)"
  have "in_order (d\<lparr>outbox := map f (outbox d)\<rparr>)"
  proof (rule in_order_update [OF assms(3)])
    fix r o2
    assume "r \<in> set (outbox d)" "om_claimed_by (f r) \<noteq> [] \<or> om_delivered_at (f r) \<noteq> None"
      "o2 \<in> set (outbox d)" "earlier o2 r"
    then show "resolved o2"
      using in_orderD [OF assms(3), of r o2] assms(2)
      by (cases "om_id r = ev \<and> om_claimed_by r = worker") (auto simp: f_def)
  qed (auto simp: f_def resolved_def)
  then show ?thesis
    using assms(1) by (simp add: MarkStatusUpdateDelivered_def Let_def update_where_def f_def split: if_splits)
qed

lemma fail_row_simps [simp]:
  "om_instance (fail_row now delay n msg r) = om_instance r"
  "om_transport (fail_row now delay n msg r) = om_transport r"
  "om_revision (fail_row now delay n msg r) = om_revision r"
  "om_event_index (fail_row now delay n msg r) = om_event_index r"
  "om_id (fail_row now delay n msg r) = om_id r"
  "om_claimed_by (fail_row now delay n msg r) = []"
  "om_claim_expiry (fail_row now delay n msg r) = None"
  "om_delivered_at (fail_row now delay n msg r) = om_delivered_at r"
  "om_attempts (fail_row now delay n msg r) = om_attempts r + 1"
  "om_dead_at (fail_row now delay n msg r) = (if om_attempts r + 1 > n then Some now else om_dead_at r)"
  "om_next_attempt_at (fail_row now delay n msg r) = (if om_attempts r + 1 > n then now else now + delay)"
  "om_last_error (fail_row now delay n msg r) = msg"
  by (simp_all add: fail_row_def Let_def)

lemma FailStatusUpdate_Inr:
  assumes "FailStatusUpdate now ev worker delay n msg d = Inr d'" "outbox_keys d"
  shows "\<exists>m \<in> set (outbox d). om_id m = ev \<and> om_claimed_by m = worker \<and>
    d' = d\<lparr>outbox := map (\<lambda>r. if om_id r = ev then fail_row now delay n msg r else r) (outbox d)\<rparr>"
proof -
  from assms(1) obtain m where m: "first_where (\<lambda>r. om_id r = ev \<and> om_claimed_by r = worker) (outbox d) = Some m"
    and d': "d' = d\<lparr>outbox := update_where (\<lambda>r. om_id r = om_id m) (\<lambda>_. fail_row now delay n msg m) (outbox d)\<rparr>"
    by (auto simp: FailStatusUpdate_def split: option.splits)
  from first_where_SomeD [OF m] have mem: "m \<in> set (outbox d)" "om_id m = ev" "om_claimed_by m = worker" by auto
  have "r = m" if "r \<in> set (outbox d)" "om_id r = ev" for r
    using by_key_distinct [of om_id "outbox d" r] by_key_distinct [of om_id "outbox d" m] that mem assms(2)
    by (simp add: outbox_keys_def)
  then have "map (\<lambda>r. if om_id r = ev then fail_row now delay n msg m else r) (outbox d) =
      map (\<lambda>r. if om_id r = ev then fail_row now delay n msg r else r) (outbox d)"
    by (intro map_cong refl) auto
  then have "d' = d\<lparr>outbox := map (\<lambda>r. if om_id r = ev then fail_row now delay n msg r else r) (outbox d)\<rparr>"
    unfolding d' update_where_def mem(2) by (rule arg_cong)
  with mem show ?thesis by blast
qed

lemma in_order_fail:
  assumes "FailStatusUpdate now ev worker delay n msg d = Inr d'" "in_order d" "outbox_keys d"
  shows "in_order d'"
proof -
  obtain m where d': "d' = d\<lparr>outbox := map (\<lambda>r. if om_id r = ev then fail_row now delay n msg r else r) (outbox d)\<rparr>"
    using FailStatusUpdate_Inr [OF assms(1, 3)] by blast
  show ?thesis
    unfolding d'
  proof (rule in_order_update [OF assms(2)])
    fix r o2
    assume "r \<in> set (outbox d)" "o2 \<in> set (outbox d)" "earlier o2 r"
      "om_claimed_by (if om_id r = ev then fail_row now delay n msg r else r) \<noteq> [] \<or>
       om_delivered_at (if om_id r = ev then fail_row now delay n msg r else r) \<noteq> None"
    then show "resolved o2"
      using in_orderD [OF assms(2), of r o2] by (auto split: if_splits)
  qed (auto simp: resolved_def)
qed

lemma outbox_keys_map:
  "outbox_keys d \<Longrightarrow> (\<And>r. om_id (f r) = om_id r \<and> outbox_key (f r) = outbox_key r) \<Longrightarrow>
   outbox_keys (d\<lparr>outbox := map f (outbox d)\<rparr>)"
  by (simp add: outbox_keys_def comp_def)

lemma outbox_step_inv:
  assumes "outbox_step rt d d'" "in_order d \<and> outbox_keys d"
  shows "in_order d' \<and> outbox_keys d'"
  using assms
proof cases
  case step_enqueue
  show ?thesis
    using in_order_enqueue [OF step_enqueue] enqueue_keys [OF step_enqueue(1)] assms(2) by blast
next
  case (step_claim worker locked dbnow now lease limit)
  with assms(2) show ?thesis
    using in_order_claim by (auto simp: ClaimNextStatusUpdates_def Let_def update_where_def outbox_key_def intro!: outbox_keys_map)
next
  case (step_mark worker now ev)
  with assms(2) have "in_order d'" using in_order_mark by blast
  with step_mark assms(2) show ?thesis
    by (auto simp: MarkStatusUpdateDelivered_def Let_def update_where_def outbox_key_def
        split: if_splits intro!: outbox_keys_map)
next
  case (step_fail worker now ev delay maxRetry msg)
  with assms(2) have "in_order d'" using in_order_fail by blast
  with step_fail assms(2) FailStatusUpdate_Inr [of now ev worker delay maxRetry msg d d'] show ?thesis
    by (auto simp: outbox_key_def intro!: outbox_keys_map)
qed

lemma outbox_reach_inv:
  "(outbox_step rt)\<^sup>*\<^sup>* d0 d \<Longrightarrow> in_order d0 \<and> outbox_keys d0 \<Longrightarrow> in_order d \<and> outbox_keys d"
  by (induction rule: rtranclp_induct) (use outbox_step_inv in blast)+

section \<open>Properties\<close>

text \<open>
  C34. Status updates of one instance and transport are delivered in order: in
  every state the outbox transactions reach from an empty outbox, a row that is
  claimed by a worker or already delivered has no earlier row (lower revision, or
  the same revision and a lower event index) of its instance and transport that is
  still undelivered and not dead-lettered.
\<close>

theorem outbox_in_order:
  assumes "(outbox_step rt)\<^sup>*\<^sup>* d0 d" "outbox d0 = []"
    and "r \<in> set (outbox d)" "om_claimed_by r \<noteq> [] \<or> om_delivered_at r \<noteq> None"
    and "o2 \<in> set (outbox d)" "earlier o2 r"
  shows "resolved o2"
proof -
  have "in_order d0 \<and> outbox_keys d0" using assms(2) by (simp add: in_order_def outbox_keys_def)
  with outbox_reach_inv [OF assms(1)] have "in_order d" by blast
  from in_orderD [OF this assms(3, 4, 5, 6)] show ?thesis .
qed


subsection \<open>A run\<close>

definition sample_rt :: runtime where
  "sample_rt = \<lparr>rt_newid = (\<lambda>n. replicate (Suc n) CHR ''u''), rt_lib = sample_lib,
     rt_time = (\<lambda>t. ''2026-01-01T00:00:00Z''), rt_range = (\<lambda>m. m)\<rparr>"

definition sample_content :: json where
  "sample_content = JObj [(''status_update'',
     JObj [(''rabbitmq'', JObj [(''retry_delay'', JStr ''1s'')]), (''redis'', JObj [(''retry_delay'', JStr ''1s'')])])]"

definition empty_db :: db where
  "empty_db = \<lparr>instances = [], node_instances = [], executions = [], branches = [], deliveries = [],
     events = [], history = [], outbox = [], definitions = [(''def'', Some sample_content)], next_id = 0\<rparr>"

abbreviation (input) run_enqueue :: "int \<Rightarrow> db \<Rightarrow> repo_err + db" where
  "run_enqueue rv \<equiv> enqueueStatusUpdateTx sample_rt ''inst'' ''def'' rv
     (with_reason WorkflowRunning ReasonRunnable) (with_reason WorkflowPaused ReasonRunnable)
     [''paused''] [] None 0"

definition outbox_run :: "db list" where
  "outbox_run =
     (let d1 = projr (run_enqueue 1 empty_db);
          d2 = projr (run_enqueue 2 d1);
          d3 = snd (ClaimNextStatusUpdates (\<lambda>_. False) 5 5 ''w'' 10 1 d2);
          d4 = projr (MarkStatusUpdateDelivered 6 ''uu'' ''w'' d3);
          d5 = snd (ClaimNextStatusUpdates (\<lambda>_. False) 7 7 ''w'' 10 9 d4)
      in [d1, d2, d3, d4, d5])"


lemma outbox_run_reaches: "(outbox_step sample_rt)\<^sup>*\<^sup>* empty_db (outbox_run ! 4)"
proof -
  define d1 where "d1 = projr (run_enqueue 1 empty_db)"
  define d2 where "d2 = projr (run_enqueue 2 d1)"
  define d3 where "d3 = snd (ClaimNextStatusUpdates (\<lambda>_. False) 5 5 ''w'' 10 1 d2)"
  define d4 where "d4 = projr (MarkStatusUpdateDelivered 6 ''uu'' ''w'' d3)"
  have e1: "run_enqueue 1 empty_db = Inr d1" unfolding d1_def by code_simp
  have e2: "run_enqueue 2 d1 = Inr d2" unfolding d2_def d1_def by code_simp
  have e4: "MarkStatusUpdateDelivered 6 ''uu'' ''w'' d3 = Inr d4" unfolding d4_def d3_def d2_def d1_def by code_simp
  have "outbox_step sample_rt empty_db d1" by (rule step_enqueue [OF e1]) (simp add: empty_db_def)
  moreover have "\<forall>r \<in> set (outbox d1). om_revision r < 2" unfolding d1_def by code_simp
  then have "outbox_step sample_rt d1 d2" by (intro step_enqueue [OF e2]) simp
  moreover have "outbox_step sample_rt d2 d3" unfolding d3_def by (rule step_claim) simp
  moreover have "outbox_step sample_rt d3 d4" by (rule step_mark [OF _ e4]) simp
  moreover have "outbox_step sample_rt d4 (snd (ClaimNextStatusUpdates (\<lambda>_. False) 7 7 ''w'' 10 9 d4))"
    by (rule step_claim) simp
  moreover have "outbox_run ! 4 = snd (ClaimNextStatusUpdates (\<lambda>_. False) 7 7 ''w'' 10 9 d4)"
    by (simp add: outbox_run_def Let_def d1_def d2_def d3_def d4_def)
  ultimately show ?thesis by (simp add: converse_rtranclp_into_rtranclp)
qed

lemma outbox_in_order_witness:
  "earlier (outbox (outbox_run ! 4) ! 0) (outbox (outbox_run ! 4) ! 2) \<and>
   om_claimed_by (outbox (outbox_run ! 4) ! 2) = ''w'' \<and> resolved (outbox (outbox_run ! 4) ! 0)"
proof -
  have m: "outbox (outbox_run ! 4) ! 0 \<in> set (outbox (outbox_run ! 4))"
    "outbox (outbox_run ! 4) ! 2 \<in> set (outbox (outbox_run ! 4))" by code_simp+
  have e: "earlier (outbox (outbox_run ! 4) ! 0) (outbox (outbox_run ! 4) ! 2)" by code_simp
  have c: "om_claimed_by (outbox (outbox_run ! 4) ! 2) = ''w''" by code_simp
  have "resolved (outbox (outbox_run ! 4) ! 0)"
    by (rule outbox_in_order [OF outbox_run_reaches _ m(2) _ m(1) e]) (simp_all add: empty_db_def c)
  with e c show ?thesis by blast
qed

text \<open>
  One status change fans out to one row per event and configured transport, in
  that order, each undelivered, unclaimed and due at once; the rows are appended
  to the outbox and no other table changes.
\<close>

theorem enqueue_fanout:
  assumes "evs \<noteq> []" "def \<noteq> []" "map_of (definitions d) def = Some content"
    and "ParseStatusUpdate (rt_lib rt) content = Inr (Some cfg)"
    and "enqueueStatusUpdateTx rt inst def rv frm to evs err ctx at d = Inr d'"
  shows "\<exists>rows n. d' = d\<lparr>outbox := outbox d @ rows, next_id := n\<rparr> \<and>
    (\<forall>r \<in> set rows. new_row inst def rv at r) \<and>
    map (\<lambda>r. (om_event_index r, om_transport r)) rows =
      concat (map (\<lambda>i. map (\<lambda>tr. (int i, transport_str tr)) (Transports cfg)) [0..<length evs])"
proof -
  have "foldR (enqueue_event rt inst def rv frm to err ctx at (Transports cfg)) (List.enumerate 0 evs) d = Inr d'"
    using assms by (simp add: enqueueStatusUpdateTx_def)
  from enqueue_events_add [OF this] obtain rows n where
    "d' = d\<lparr>outbox := outbox d @ rows, next_id := n\<rparr>" "\<forall>r \<in> set rows. new_row inst def rv at r"
    and m: "map (\<lambda>r. (om_event_index r, om_transport r)) rows =
      concat (map (\<lambda>(i, ev). map (\<lambda>tr. (int i, transport_str tr)) (Transports cfg)) (List.enumerate 0 evs))"
    by blast
  moreover have "map (\<lambda>(i, ev). map (\<lambda>tr. (int i, transport_str tr)) (Transports cfg)) (List.enumerate 0 evs) =
    map (\<lambda>i. map (\<lambda>tr. (int i, transport_str tr)) (Transports cfg)) [0..<length evs]"
    by (rule nth_equalityI) (simp_all add: nth_enumerate_eq)
  ultimately show ?thesis by auto
qed

lemma enqueue_fanout_witness:
  "\<exists>rows n. outbox_run ! 0 = empty_db\<lparr>outbox := outbox empty_db @ rows, next_id := n\<rparr> \<and>
     map (\<lambda>r. (om_event_index r, om_transport r)) rows = [(0, ''redis''), (0, ''rabbitmq'')]"
proof -
  define cfg where "cfg = \<lparr>su_http = None, su_redis = Some \<lparr>rc_max_retry = 3, rc_retry_delay = seconds 1\<rparr>,
      su_rabbit = Some \<lparr>rc_max_retry = 3, rc_retry_delay = seconds 1\<rparr>\<rparr>"
  have p: "ParseStatusUpdate (rt_lib sample_rt) (Some sample_content) = Inr (Some cfg)"
    unfolding cfg_def by code_simp
  have e: "run_enqueue 1 empty_db = Inr (outbox_run ! 0)" by code_simp
  have d: "map_of (definitions empty_db) ''def'' = Some (Some sample_content)" by code_simp
  from enqueue_fanout [OF _ _ d p e] show ?thesis by (auto simp: cfg_def Transports_def)
qed

text \<open>
  A failed attempt is recorded only for the row its worker still claims; it
  counts one attempt, releases the claim, and dead-letters the row exactly when the
  attempts exceed \<open>maxRetry\<close>, else schedules it \<open>retryDelay\<close> later. Every other row
  and table is unchanged.
\<close>

theorem FailStatusUpdate_exact:
  assumes "outbox_keys d"
  shows "FailStatusUpdate now ev worker delay maxRetry msg d =
    (case by_key om_id ev (outbox d) of
       Some r \<Rightarrow>
         if om_claimed_by r = worker
         then Inr (d\<lparr>outbox := map (\<lambda>r'. if om_id r' = ev
                then r'\<lparr>om_attempts := om_attempts r + 1, om_last_error := msg, om_claimed_by := [],
                     om_claim_expiry := None, om_updated_at := now,
                     om_dead_at := (if om_attempts r + 1 > maxRetry then Some now else om_dead_at r),
                     om_next_attempt_at := (if om_attempts r + 1 > maxRetry then now else now + delay)\<rparr>
                else r') (outbox d)\<rparr>)
         else Inl ErrStatusUpdateClaimLost
     | None \<Rightarrow> Inl ErrStatusUpdateClaimLost)"
proof (cases "FailStatusUpdate now ev worker delay maxRetry msg d")
  case (Inl e)
  then have e: "e = ErrStatusUpdateClaimLost" "first_where (\<lambda>r. om_id r = ev \<and> om_claimed_by r = worker) (outbox d) = None"
    by (auto simp: FailStatusUpdate_def split: option.splits)
  then have "\<not> (\<exists>r. by_key om_id ev (outbox d) = Some r \<and> om_claimed_by r = worker)"
    by (auto simp: first_where_None_iff dest: by_key_SomeD)
  with Inl e show ?thesis by (auto split: option.splits)
next
  case (Inr d')
  from FailStatusUpdate_Inr [OF Inr assms] obtain m where
    m: "m \<in> set (outbox d)" "om_id m = ev" "om_claimed_by m = worker"
    and d': "d' = d\<lparr>outbox := map (\<lambda>r. if om_id r = ev then fail_row now delay maxRetry msg r else r) (outbox d)\<rparr>"
    by blast
  have dist: "distinct (map om_id (outbox d))" using assms by (simp add: outbox_keys_def)
  have k: "by_key om_id ev (outbox d) = Some m" using by_key_mem [OF dist m(1, 2)] .
  have "r = m" if "r \<in> set (outbox d)" "om_id r = ev" for r
    using by_key_mem [OF dist that] k by simp
  then have "map (\<lambda>r. if om_id r = ev then fail_row now delay maxRetry msg r else r) (outbox d) =
    map (\<lambda>r'. if om_id r' = ev
                then r'\<lparr>om_attempts := om_attempts m + 1, om_last_error := msg, om_claimed_by := [],
                     om_claim_expiry := None, om_updated_at := now,
                     om_dead_at := (if om_attempts m + 1 > maxRetry then Some now else om_dead_at m),
                     om_next_attempt_at := (if om_attempts m + 1 > maxRetry then now else now + delay)\<rparr>
                else r') (outbox d)"
    by (intro map_cong refl) (auto simp: fail_row_def Let_def)
  with Inr k m(3) d' show ?thesis by simp
qed

lemma FailStatusUpdate_exact_witness:
  "\<exists>d'. FailStatusUpdate 9 ''uuu'' ''w'' 5 0 ''boom'' (outbox_run ! 4) = Inr d' \<and>
     om_dead_at (outbox d' ! 1) = Some 9 \<and> om_attempts (outbox d' ! 1) = 1"
proof -
  have k: "outbox_keys (outbox_run ! 4)" unfolding outbox_keys_def by code_simp
  have r: "by_key om_id ''uuu'' (outbox (outbox_run ! 4)) = Some (outbox (outbox_run ! 4) ! 1)" by code_simp
  have c: "om_claimed_by (outbox (outbox_run ! 4) ! Suc 0) = ''w''"
    "om_attempts (outbox (outbox_run ! 4) ! Suc 0) = 0" "length (outbox (outbox_run ! 4)) = 4"
    "om_id (outbox (outbox_run ! 4) ! Suc 0) = ''uuu''" by code_simp+
  show ?thesis
    by (subst FailStatusUpdate_exact [OF k]) (simp add: r c)
qed


section \<open>Redaction\<close>

lemma replace_all_prefix:
  assumes "has_prefix (replace_all s old (replicate n CHR ''*'')) p" "CHR ''*'' \<notin> set p" "0 < n"
  shows "has_prefix s p"
  using assms
proof (induction s old "replicate n CHR ''*''" arbitrary: p rule: replace_all.induct)
  case (1 old)
  then show ?case by simp
next
  case (2 x xs old)
  show ?case
  proof (cases p)
    case Nil
    then show ?thesis by simp
  next
    case (Cons y ys)
    show ?thesis
    proof (cases "old \<noteq> [] \<and> has_prefix (x # xs) old")
      case True
      with 2(3-5) Cons show ?thesis by (cases n) auto
    next
      case False
      with 2(3) Cons have "y = x" "has_prefix (replace_all xs old (replicate n CHR ''*'')) ys"
        by (auto split: if_splits)
      with 2(2) [OF False, of ys] 2(4, 5) Cons show ?thesis by simp
    qed
  qed
qed

lemma contains_after_stars:
  "contains_sub (replicate n CHR ''*'' @ s) p \<Longrightarrow> CHR ''*'' \<notin> set p \<Longrightarrow> p \<noteq> [] \<Longrightarrow> contains_sub s p"
proof (induction n)
  case (Suc n)
  then show ?case by (cases p) auto
qed simp

lemma contains_sub_drop: "contains_sub (drop k s) p \<Longrightarrow> contains_sub s p"
proof (induction s arbitrary: k)
  case (Cons x xs)
  then show ?case by (cases k) auto
qed simp

text \<open>Masking makes no new occurrence of a text without the mask's character.\<close>

lemma replace_all_contains:
  assumes "contains_sub (replace_all s old (replicate n CHR ''*'')) p" "CHR ''*'' \<notin> set p" "p \<noteq> []" "0 < n"
  shows "contains_sub s p"
  using assms
proof (induction s old "replicate n CHR ''*''" rule: replace_all.induct)
  case (1 old)
  then show ?case by simp
next
  case (2 x xs old)
  show ?case
  proof (cases "old \<noteq> [] \<and> has_prefix (x # xs) old")
    case True
    with 2(3) have "contains_sub (replicate n CHR ''*'' @ replace_all (drop (length old - 1) xs) old (replicate n CHR ''*'')) p"
      by simp
    then have "contains_sub (replace_all (drop (length old - 1) xs) old (replicate n CHR ''*'')) p"
      using 2(4, 5) by (rule contains_after_stars)
    with 2(1) [OF True] 2(4-6) have "contains_sub (drop (length old - 1) xs) p" by blast
    then have "contains_sub xs p" by (rule contains_sub_drop)
    then show ?thesis by simp
  next
    case False
    with 2(3) have "has_prefix (replace_all (x # xs) old (replicate n CHR ''*'')) p \<or>
        contains_sub (replace_all xs old (replicate n CHR ''*'')) p" by auto
    then show ?thesis
      using replace_all_prefix [OF _ 2(4, 6), of "x # xs" old] 2(2) [OF False _ 2(4-6)] by auto
  qed
qed

text \<open>And a masked text is gone.\<close>

lemma replace_all_removes:
  assumes "old \<noteq> []" "CHR ''*'' \<notin> set old" "0 < n"
  shows "\<not> contains_sub (replace_all s old (replicate n CHR ''*'')) old"
  using assms
proof (induction s old "replicate n CHR ''*''" rule: replace_all.induct)
  case (1 old)
  then show ?case by simp
next
  case (2 x xs old)
  show ?case
  proof (cases "has_prefix (x # xs) old")
    case True
    then have "\<not> contains_sub (replace_all (drop (length old - 1) xs) old (replicate n CHR ''*'')) old"
      using 2(1, 3-5) by blast
    with True show ?thesis using contains_after_stars [OF _ 2(4, 3)] 2(3) by auto
  next
    case False
    then have "\<not> contains_sub (replace_all xs old (replicate n CHR ''*'')) old" using 2(2-5) by blast
    moreover have "\<not> has_prefix (replace_all (x # xs) old (replicate n CHR ''*'')) old"
      using replace_all_prefix [OF _ 2(4, 5)] False by blast
    ultimately show ?thesis using False by auto
  qed
qed

lemma mask_stars: "statusUpdateSecretMask = replicate 8 CHR ''*''"
  by (simp add: statusUpdateSecretMask_def numeral_eq_Suc)

lemma mask_no_secret: "p \<noteq> [] \<Longrightarrow> CHR ''*'' \<notin> set p \<Longrightarrow> \<not> contains_sub statusUpdateSecretMask p"
  using contains_after_stars [of 8 "[]" p] by (auto simp: mask_stars)

lemma redact_values_no_new:
  "contains_sub (redact_values m msg) p \<Longrightarrow> p \<noteq> [] \<Longrightarrow> CHR ''*'' \<notin> set p \<Longrightarrow> contains_sub msg p"
proof (induction m msg rule: redact_values.induct)
  case (2 k v m msg)
  show ?case
  proof (cases v)
    case (JStr q)
    with 2 have "q \<noteq> []" using mask_no_secret [of p] by (auto split: if_splits)
    with 2 JStr have "contains_sub (replace_all msg q statusUpdateSecretMask) p" by auto
    then show ?thesis using replace_all_contains [of msg q 8 p] 2(3, 4) by (simp add: mask_stars)
  qed (use 2 mask_no_secret [of p] in auto)
qed simp

lemma redact_values_removes:
  "(k, JStr p) \<in> set m \<Longrightarrow> p \<noteq> [] \<Longrightarrow> CHR ''*'' \<notin> set p \<Longrightarrow> \<not> contains_sub (redact_values m msg) p"
proof (induction m msg rule: redact_values.induct)
  case (2 k' v m msg)
  consider "v = JStr p" | q where "v = JStr q" "q \<noteq> []" "(k, JStr p) \<in> set m"
    | "redact_values ((k', v) # m) msg = statusUpdateSecretMask"
    using 2(2) by (cases v; cases "v = JStr []") auto
  then show ?case
  proof cases
    case 1
    then show ?thesis
      using redact_values_no_new [of m _ p] replace_all_removes [of p 8 msg] 2(3, 4) by (auto simp: mask_stars)
  next
    case 2
    then show ?thesis using "2.IH" "2.prems" by auto
  next
    case 3
    then show ?thesis using mask_no_secret [OF "2.prems"(2, 3)] by simp
  qed
qed simp

text \<open>
  No secret crosses the delivery boundary: whatever the order in which the
  runtime visits the secrets, the redacted error of a context with a secret map
  contains no secret value that is free of the mask's own character.
\<close>

theorem redact_hides_secrets:
  assumes "map_of obj ''secret'' = Some (JObj values)" "(k, JStr p) \<in> set values"
    and "p \<noteq> []" "CHR ''*'' \<notin> set p" "set (rng values) = set values"
  shows "\<not> contains_sub (redactStatusUpdateError rng (Some (JObj obj)) msg) p"
proof -
  have "\<not> contains_sub (redact_values (rng values) msg) p"
    by (rule redact_values_removes [of k]) (use assms in auto)
  with assms show ?thesis by (auto simp: redactStatusUpdateError_def)
qed

lemma redact_hides_secrets_witness:
  "\<not> contains_sub (redactStatusUpdateError rev
     (Some (JObj [(''secret'', JObj [(''api'', JStr ''k1''), (''db'', JStr ''pw'')])]))
     ''login pw with k1 refused'') ''pw''"
  by (rule redact_hides_secrets [of _ "[(''api'', JStr ''k1''), (''db'', JStr ''pw'')]" "''db''"]) auto

text \<open>
  The redaction depends on the map order when one secret begins another:
  visited first, the shorter secret leaves the rest of the longer one in the
  message.
\<close>

theorem redact_leaks_suffix:
  "redactStatusUpdateError (\<lambda>m. m)
     (Some (JObj [(''secret'', JObj [(''a'', JStr ''abc''), (''b'', JStr ''abcdef'')])])) ''bad key abcdef'' =
   ''bad key ********def'' \<and>
   redactStatusUpdateError rev
     (Some (JObj [(''secret'', JObj [(''a'', JStr ''abc''), (''b'', JStr ''abcdef'')])])) ''bad key abcdef'' =
   ''bad key ********''"
  by code_simp

end
