(* ===== verification/History.thy ===== *)
theory History
  imports Store "HOL-Library.Product_Lexorder"
begin

text \<open>
  Lean-context history: \<open>internal/workflow/repository/history.go\<close>, the cursor of
  \<open>model/entities.go\<close> and \<open>historyForCommit\<close> of the engine. A row is an anchor with
  a full snapshot or a diff against the context before it. Instants count from
  Go's zero time, so \<open>IsZero\<close> is 0.
\<close>

section \<open>Cursor\<close>

record HistoryCursor =
  hc_created_at :: time
  hc_id :: uid

definition Before :: "HistoryCursor \<Rightarrow> HistoryCursor \<Rightarrow> bool" where
  "Before c other =
     (if hc_created_at c < hc_created_at other then True
      else hc_created_at c = hc_created_at other \<and> hc_id c < hc_id other)"

definition AtOrBefore :: "HistoryCursor \<Rightarrow> HistoryCursor \<Rightarrow> bool" where
  "AtOrBefore c other = (Before c other \<or> (hc_created_at c = hc_created_at other \<and> hc_id c = hc_id other))"

definition Cursor :: "NodeContextHistoryModel \<Rightarrow> HistoryCursor" where
  "Cursor h = \<lparr>hc_created_at = hm_created_at h, hc_id = hm_id h\<rparr>"

section \<open>Append and load\<close>

definition history_id :: "runtime \<Rightarrow> NodeContextHistoryModel \<Rightarrow> db \<Rightarrow> uid \<times> db" where
  "history_id rt h d = (if hm_id h = [] then newRepoID rt d else (hm_id h, d))"

definition appendHistoryTx ::
  "runtime \<Rightarrow> uid \<Rightarrow> NodeContextHistoryModel option \<Rightarrow> time \<Rightarrow> db \<Rightarrow> repo_err + db" where
  "appendHistoryTx rt inst ho now d =
     (case ho of
        None \<Rightarrow> Inr d
      | Some h \<Rightarrow>
          let h1 = (if hm_instance h = [] then h\<lparr>hm_instance := inst\<rparr> else h)
          in if hm_instance h1 \<noteq> inst then Inl ErrHistoryMismatch
             else
               let (x, d1) = history_id rt h1 d;
                   h2 = h1\<lparr>hm_id := x,
                           hm_created_at := (if hm_created_at h1 = 0 then now else hm_created_at h1)\<rparr>
               in bindR (create hm_id (NodeContextHistoryToModel h2) (history d1))
                    (\<lambda>t. Inr (d1\<lparr>history := t\<rparr>)))"

definition AppendHistory :: "runtime \<Rightarrow> time \<Rightarrow> NodeContextHistoryModel \<Rightarrow> db \<Rightarrow> repo_err + db" where
  "AppendHistory rt now h d = appendHistoryTx rt (hm_instance h) (Some h) now d"

abbreviation history_order :: "NodeContextHistoryModel list \<Rightarrow> NodeContextHistoryModel list" where
  "history_order \<equiv> order_by (\<lambda>h. (hm_created_at h, hm_id h))"

definition LoadHistory :: "uid \<Rightarrow> db \<Rightarrow> NodeContextHistoryModel list" where
  "LoadHistory inst d = history_order (filter (\<lambda>h. hm_instance h = inst) (history d))"

section \<open>Replay\<close>

definition defaultHistoryReplayMax :: int where
  "defaultHistoryReplayMax = 500"

definition historySnapshot :: "raw \<Rightarrow> repo_err + gomap" where
  "historySnapshot r = (case r of Some (JObj m) \<Rightarrow> Inr m | _ \<Rightarrow> Inl ErrHistoryGap)"

text \<open>The stored form of a diff, and \<open>historyDiff\<close> with \<open>ParseDiff\<close>: both fields present.\<close>

definition diffJSON :: "diff \<Rightarrow> json" where
  "diffJSON df = JObj [(''set'', JObj (d_set df)), (''unset'', JArr (map JStr (d_unset df)))]"

definition historyDiff :: "raw \<Rightarrow> repo_err + diff" where
  "historyDiff r =
     (case r of
        Some (JObj m) \<Rightarrow>
          (case (map_of m ''set'', map_of m ''unset'') of
             (Some (JObj s), Some (JArr us)) \<Rightarrow>
               (case dec_each dec_string us of
                  Inl e \<Rightarrow> Inl ErrHistoryGap
                | Inr paths \<Rightarrow> Inr \<lparr>d_set = s, d_unset = paths\<rparr>)
           | _ \<Rightarrow> Inl ErrHistoryGap)
      | _ \<Rightarrow> Inl ErrHistoryGap)"

definition historyGap :: "diff_error + gomap \<Rightarrow> repo_err + gomap" where
  "historyGap r = (case r of Inl e \<Rightarrow> Inl ErrHistoryGap | Inr m \<Rightarrow> Inr m)"

fun replay :: "int \<Rightarrow> int \<Rightarrow> gomap \<Rightarrow> NodeContextHistoryModel list \<Rightarrow> repo_err + gomap" where
  "replay replayMax replayed ctx [] = Inr ctx"
| "replay replayMax replayed ctx (r # rs) =
     (if hm_is_anchor r
      then bindR (historySnapshot (hm_snapshot r)) (\<lambda>ctx'. replay replayMax 0 ctx' rs)
      else if replayed + 1 > replayMax then Inl ErrHistoryTooDeep
      else bindR (historyDiff (hm_diff r)) (\<lambda>df.
           bindR (historyGap (Apply ctx df)) (\<lambda>ctx'. replay replayMax (replayed + 1) ctx' rs)))"

text \<open>The rows after the last anchor, replayed from its snapshot or from the initial context.\<close>

definition since_anchor :: "NodeContextHistoryModel list \<Rightarrow> NodeContextHistoryModel list" where
  "since_anchor rows = rev (takeWhile (\<lambda>r. \<not> hm_is_anchor r) (rev rows))"

definition replay_rows :: "int \<Rightarrow> raw \<Rightarrow> NodeContextHistoryModel list \<Rightarrow> repo_err + gomap" where
  "replay_rows replayMax initial rows =
     bindR (historySnapshot
       (case find hm_is_anchor (rev rows) of None \<Rightarrow> initial | Some a \<Rightarrow> hm_snapshot a))
       (\<lambda>ctx. replay replayMax 0 ctx (since_anchor rows))"

definition rows_before :: "uid \<Rightarrow> HistoryCursor \<Rightarrow> db \<Rightarrow> NodeContextHistoryModel list" where
  "rows_before inst target d =
     history_order (filter (\<lambda>h. hm_instance h = inst \<and> \<not> hm_superseded h \<and>
       (hm_created_at h < hc_created_at target \<or>
        hm_created_at h = hc_created_at target \<and> hm_id h < hc_id target)) (history d))"

definition ReconstructBefore :: "int \<Rightarrow> uid \<Rightarrow> HistoryCursor \<Rightarrow> raw \<Rightarrow> db \<Rightarrow> repo_err + raw" where
  "ReconstructBefore replayMax inst target initial d =
     bindR (replay_rows replayMax initial (rows_before inst target d)) (\<lambda>ctx.
       case marshal (JObj ctx) of Inl e \<Rightarrow> Inl ErrHistoryGap | Inr r \<Rightarrow> Inr r)"

definition SupersedeAfter :: "uid \<Rightarrow> HistoryCursor \<Rightarrow> db \<Rightarrow> db" where
  "SupersedeAfter inst target d = d\<lparr>history := update_where
     (\<lambda>h. hm_instance h = inst \<and> \<not> hm_superseded h \<and> hm_occurrence h \<noteq> [] \<and>
        (hm_created_at h > hc_created_at target \<or>
         hm_created_at h = hc_created_at target \<and> hm_id h \<ge> hc_id target))
     (\<lambda>h. h\<lparr>hm_superseded := True\<rparr>) (history d)\<rparr>"

section \<open>What the engine records\<close>

record contextCommit =
  cc_start :: gomap
  cc_end :: "gomap option"
  cc_occurrence :: string
  cc_node :: uid
  cc_attempt :: int

datatype history_err = HistoryDiffErr diff_error | HistoryMarshalErr string

definition unmarshalContext :: "raw \<Rightarrow> decode_error + gomap" where
  "unmarshalContext r =
     (case r of None \<Rightarrow> Inr [] | Some (JObj m) \<Rightarrow> Inr m | Some JNull \<Rightarrow> Inr []
      | _ \<Rightarrow> Inl (DecodeFailed ''context''))"

definition commit_or_whole :: "raw \<Rightarrow> contextCommit option \<Rightarrow> gomap \<Rightarrow> contextCommit" where
  "commit_or_whole contextRaw co endCtx =
     (case co of
        Some c \<Rightarrow> (if cc_end c = None then c\<lparr>cc_end := Some endCtx\<rparr> else c)
      | None \<Rightarrow> \<lparr>cc_start = (case unmarshalContext contextRaw of Inl e \<Rightarrow> [] | Inr m \<Rightarrow> m),
                 cc_end = Some endCtx, cc_occurrence = [], cc_node = [], cc_attempt = 0\<rparr>)"

definition history_row :: "contextCommit \<Rightarrow> raw \<Rightarrow> raw \<Rightarrow> bool \<Rightarrow> NodeContextHistoryModel" where
  "history_row c snap df anchor =
     \<lparr>hm_id = [], hm_instance = [], hm_occurrence = cc_occurrence c, hm_node = cc_node c,
      hm_attempt = cc_attempt c, hm_is_anchor = anchor, hm_snapshot = snap, hm_diff = df,
      hm_superseded = False, hm_created_at = 0\<rparr>"

definition historyForCommit ::
  "int \<Rightarrow> uid \<Rightarrow> raw \<Rightarrow> contextCommit option \<Rightarrow> gomap \<Rightarrow> db \<Rightarrow> history_err + NodeContextHistoryModel" where
  "historyForCommit anchorEvery inst contextRaw co endCtx d =
     (let c = commit_or_whole contextRaw co endCtx; fin = the (cc_end c)
      in case DiffMaps (cc_start c) fin of
           Inl e \<Rightarrow> Inl (HistoryDiffErr e)
         | Inr df \<Rightarrow>
             if anchorEvery > 0 \<and> int (length (LoadHistory inst d) + 1) mod anchorEvery = 0
             then (case marshal (JObj fin) of
                     Inl e \<Rightarrow> Inl (HistoryMarshalErr e)
                   | Inr snapshot \<Rightarrow> Inr (history_row c snapshot (Some JNull) True))
             else Inr (history_row c (Some JNull) (Some (diffJSON df)) False))"

section \<open>Replaying a list of rows\<close>

lemma replay_snoc:
  "list_all (\<lambda>r. \<not> hm_is_anchor r) rs \<Longrightarrow>
   replay mx n c (rs @ [r]) = bindR (replay mx n c rs) (\<lambda>c'. replay mx (n + int (length rs)) c' [r])"
proof (induction rs arbitrary: n c)
  case (Cons a rs)
  show ?case
  proof (cases "n + 1 > mx \<or> isl (historyDiff (hm_diff a))")
    case True
    with Cons.prems show ?thesis by (auto simp: isl_def)
  next
    case False
    then obtain df where df: "historyDiff (hm_diff a) = Inr df" "\<not> n + 1 > mx"
      by (cases "historyDiff (hm_diff a)") auto
    show ?thesis
    proof (cases "historyGap (Apply c df)")
      case (Inl e)
      with df Cons.prems show ?thesis by simp
    next
      case (Inr c')
      with df Cons.prems Cons.IH [of "n + 1" c'] show ?thesis by (simp add: ac_simps)
    qed
  qed
qed simp

lemma since_anchor_none: "list_all (\<lambda>r. \<not> hm_is_anchor r) (since_anchor rows)"
  by (auto simp: since_anchor_def list_all_iff dest: set_takeWhileD)

lemma since_anchor_snoc [simp]:
  "since_anchor (rows @ [r]) = (if hm_is_anchor r then [] else since_anchor rows @ [r])"
  by (simp add: since_anchor_def)

lemma since_anchor_Nil [simp]: "since_anchor [] = []"
  by (simp add: since_anchor_def)

lemma replay_rows_anchor:
  "hm_is_anchor r \<Longrightarrow> hm_snapshot r = Some (JObj c) \<Longrightarrow> replay_rows mx init (rows @ [r]) = Inr c"
  by (simp add: replay_rows_def historySnapshot_def)

lemma replay_rows_diff:
  assumes "\<not> hm_is_anchor r" "replay_rows mx init rows = Inr c" "int (length (since_anchor rows)) < mx"
    and "historyDiff (hm_diff r) = Inr df" "Apply c df = Inr c'"
  shows "replay_rows mx init (rows @ [r]) = Inr c'"
proof -
  define b where "b = historySnapshot (case find hm_is_anchor (rev rows) of None \<Rightarrow> init | Some a \<Rightarrow> hm_snapshot a)"
  from assms(2) obtain c0 where c0: "b = Inr c0" "replay mx 0 c0 (since_anchor rows) = Inr c"
    by (auto simp: replay_rows_def b_def bindR_Inr_iff)
  have "replay_rows mx init (rows @ [r]) = bindR b (\<lambda>c. replay mx 0 c (since_anchor rows @ [r]))"
    using assms(1) by (simp add: replay_rows_def b_def)
  also have "\<dots> = replay mx (int (length (since_anchor rows))) c [r]"
    using replay_snoc [OF since_anchor_none, of mx 0 c0 rows r] c0 by simp
  also have "\<dots> = Inr c'" using assms by (simp add: historyGap_def)
  finally show ?thesis .
qed

declare dec_each_strings [simp]

lemma historyDiff_diffJSON [simp]: "historyDiff (Some (diffJSON df)) = Inr df"
  by (simp add: historyDiff_def diffJSON_def)

text \<open>Row number \<open>n\<close> (from 0) takes context \<open>c\<close> to \<open>c'\<close>.\<close>

definition linked :: "int \<Rightarrow> nat \<Rightarrow> gomap \<Rightarrow> gomap \<Rightarrow> NodeContextHistoryModel \<Rightarrow> bool" where
  "linked ae n c c' r \<longleftrightarrow> \<not> hm_superseded r \<and>
     (if int (Suc n) mod ae = 0 then hm_is_anchor r \<and> hm_snapshot r = Some (JObj c')
      else \<not> hm_is_anchor r \<and> (\<exists>df. DiffMaps c c' = Inr df \<and> hm_diff r = Some (diffJSON df)))"

definition good_ctx :: "gomap \<Rightarrow> bool" where
  "good_ctx c \<longleftrightarrow> wf_ctx c \<and> clean_ctx c \<and> list_all ValidKey (keys_of c)"

lemma Suc_mod_not_zero:
  assumes "0 < (ae::int)" "int (Suc n) mod ae \<noteq> 0"
  shows "int (Suc n) mod ae = int n mod ae + 1 \<and> int n mod ae + 1 < ae"
proof -
  have "0 \<le> int n mod ae" "int n mod ae < ae" using assms(1) by auto
  moreover have "int n mod ae + 1 \<noteq> ae"
  proof
    assume "int n mod ae + 1 = ae"
    then have "(int n mod ae + 1) mod ae = 0" by simp
    then have "(int n + 1) mod ae = 0" by (simp only: mod_add_left_eq)
    with assms(2) show False by (simp add: add.commute)
  qed
  moreover have "int (Suc n) mod ae = (int n mod ae + 1) mod ae" by (simp only: mod_add_left_eq) (simp add: add.commute)
  ultimately show ?thesis by (simp add: mod_pos_pos_trivial)
qed

lemma replay_linked:
  assumes "\<And>i. i < k \<Longrightarrow> linked ae i (cs ! i) (cs ! Suc i) (rows ! i)" "k \<le> length rows"
    and "\<And>i. i \<le> k \<Longrightarrow> good_ctx (cs ! i)" "0 < ae" "ae \<le> mx + 1"
  shows "replay_rows mx (Some (JObj (cs ! 0))) (take k rows) = Inr (cs ! k) \<and>
    int (length (since_anchor (take k rows))) = int k mod ae"
  using assms(1-3)
proof (induction k)
  case 0
  then show ?case by (simp add: replay_rows_def historySnapshot_def)
next
  case (Suc k)
  from Suc.prems have l: "linked ae k (cs ! k) (cs ! Suc k) (rows ! k)" by blast
  have IH: "replay_rows mx (Some (JObj (cs ! 0))) (take k rows) = Inr (cs ! k)"
    "int (length (since_anchor (take k rows))) = int k mod ae"
    using Suc.IH Suc.prems by auto
  have t: "take (Suc k) rows = take k rows @ [rows ! k]" using Suc.prems(2) by (simp add: take_Suc_conv_app_nth)
  show ?case
  proof (cases "int (Suc k) mod ae = 0")
    case True
    with l have "hm_is_anchor (rows ! k)" "hm_snapshot (rows ! k) = Some (JObj (cs ! Suc k))"
      by (simp_all add: linked_def)
    with True t show ?thesis by (simp add: replay_rows_anchor)
  next
    case False
    with l obtain df where df: "\<not> hm_is_anchor (rows ! k)" "DiffMaps (cs ! k) (cs ! Suc k) = Inr df"
      "hm_diff (rows ! k) = Some (diffJSON df)" by (auto simp: linked_def)
    have m: "int (Suc k) mod ae = int k mod ae + 1" "int k mod ae < mx"
      using Suc_mod_not_zero [OF assms(4) False] assms(5) by auto
    have "Apply (cs ! k) df = Inr (cs ! Suc k)"
      using Apply_DiffMaps_eq [OF df(2)] Suc.prems(3) [of k] Suc.prems(3) [of "Suc k"] by (simp add: good_ctx_def)
    then have "replay_rows mx (Some (JObj (cs ! 0))) (take k rows @ [rows ! k]) = Inr (cs ! Suc k)"
      using df IH m by (intro replay_rows_diff [OF df(1) IH(1)]) auto
    with df(1) m IH(2) show ?thesis unfolding t by simp
  qed
qed


section \<open>A run of commits\<close>

text \<open>
  The lean-context commits of one instance: each computes its row from the contexts
  before and after and appends it at the commit's time.
\<close>

definition commit_of :: "gomap \<Rightarrow> gomap \<Rightarrow> contextCommit" where
  "commit_of c c' = \<lparr>cc_start = c, cc_end = Some c', cc_occurrence = ''occ'', cc_node = ''node'', cc_attempt = 1\<rparr>"

fun commit_run ::
  "runtime \<Rightarrow> int \<Rightarrow> uid \<Rightarrow> gomap \<Rightarrow> (time \<times> gomap) list \<Rightarrow> db \<Rightarrow> db option" where
  "commit_run rt ae inst c [] d = Some d"
| "commit_run rt ae inst c ((now, c') # cs) d =
     (case historyForCommit ae inst None (Some (commit_of c c')) c' d of
        Inl e \<Rightarrow> None
      | Inr row \<Rightarrow>
          (case appendHistoryTx rt inst (Some row) now d of
             Inl e \<Rightarrow> None
           | Inr d' \<Rightarrow> commit_run rt ae inst c' cs d'))"

abbreviation rows_of :: "uid \<Rightarrow> db \<Rightarrow> NodeContextHistoryModel list" where
  "rows_of inst d \<equiv> filter (\<lambda>h. hm_instance h = inst) (history d)"

lemma commit_linked:
  assumes "historyForCommit ae inst None (Some (commit_of c c')) c' d = Inr row" "0 < ae"
  shows "linked ae (length (rows_of inst d)) c c' row \<and> hm_instance row = [] \<and> hm_created_at row = 0 \<and> hm_id row = []"
  using assms
  by (auto simp: historyForCommit_def Let_def commit_or_whole_def commit_of_def LoadHistory_def linked_def
      history_row_def marshal_Inr_iff split: sum.split_asm if_split_asm)

lemma append_row:
  assumes "appendHistoryTx rt inst (Some row) now d = Inr d'" "hm_instance row = []" "hm_created_at row = 0"
    and "hm_id row = []" "linked ae n c c' row" "now \<noteq> 0"
  shows "\<exists>r. history d' = history d @ [r] \<and> hm_instance r = inst \<and> hm_created_at r = now \<and> linked ae n c c' r"
  using assms
  by (auto simp: appendHistoryTx_def Let_def history_id_def newRepoID_def bindR_Inr_iff create_Inr_iff
      NodeContextHistoryToModel_def linked_def split: if_split_asm)

lemma commit_run_rows:
  "commit_run rt ae inst c cs d = Some d' \<Longrightarrow> 0 < ae \<Longrightarrow> 0 \<notin> fst ` set cs \<Longrightarrow>
   \<exists>rows. rows_of inst d' = rows_of inst d @ rows \<and> map hm_created_at rows = map fst cs \<and>
     (\<forall>i < length cs. linked ae (length (rows_of inst d) + i) ((c # map snd cs) ! i) (map snd cs ! i) (rows ! i))"
proof (induction cs arbitrary: c d)
  case (Cons nc cs)
  obtain now c' where nc: "nc = (now, c')" by (cases nc)
  from Cons.prems(1) obtain row d1 where row: "historyForCommit ae inst None (Some (commit_of c c')) c' d = Inr row"
    and d1: "appendHistoryTx rt inst (Some row) now d = Inr d1" and rest: "commit_run rt ae inst c' cs d1 = Some d'"
    by (auto simp: nc split: sum.split_asm)
  have now: "now \<noteq> 0" "0 \<notin> fst ` set cs" using Cons.prems(3) by (auto simp: nc)
  obtain r where r: "history d1 = history d @ [r]" "hm_instance r = inst" "hm_created_at r = now"
    "linked ae (length (rows_of inst d)) c c' r"
    using append_row [OF d1] commit_linked [OF row Cons.prems(2)] now(1) by blast
  obtain rows where rows: "rows_of inst d' = rows_of inst d1 @ rows" "map hm_created_at rows = map fst cs"
    "\<forall>i < length cs. linked ae (length (rows_of inst d1) + i) ((c' # map snd cs) ! i) (map snd cs ! i) (rows ! i)"
    using Cons.IH [OF rest Cons.prems(2) now(2)] by blast
  have "rows_of inst d' = rows_of inst d @ (r # rows)" using rows(1) r by simp
  moreover have "map hm_created_at (r # rows) = map fst (nc # cs)" using rows(2) r by (simp add: nc)
  moreover have "linked ae (length (rows_of inst d) + i) ((c # map snd (nc # cs)) ! i) (map snd (nc # cs) ! i) ((r # rows) ! i)"
    if "i < length (nc # cs)" for i
    using that r rows(3) by (cases i) (auto simp: nc)
  ultimately show ?case by blast
qed simp

text \<open>With ascending times the rows are read back in commit order.\<close>

lemma history_order_id:
  assumes "sorted_wrt (<) (map hm_created_at rows)"
  shows "history_order rows = rows"
proof -
  have "sorted_wrt (\<lambda>a b. hm_created_at a < hm_created_at b) rows" using assms by (simp add: sorted_wrt_map)
  then have "sorted_wrt (\<lambda>a b. (hm_created_at a, hm_id a) \<le> (hm_created_at b, hm_id b)) rows"
    by (rule sorted_wrt_mono_rel [rotated]) (simp add: less_eq_prod_def)
  then have "sorted (map (\<lambda>h. (hm_created_at h, hm_id h)) rows)" by (simp add: sorted_wrt_map)
  then show ?thesis unfolding order_by_def by (rule sort_key_id_if_sorted)
qed

lemma filter_take_sorted:
  assumes "sorted_wrt (<) (map hm_created_at rows)" "k < length rows" "\<forall>h \<in> set rows. \<not> hm_superseded h"
  shows "filter (\<lambda>h. \<not> hm_superseded h \<and> (hm_created_at h < hm_created_at (rows ! k) \<or>
    hm_created_at h = hm_created_at (rows ! k) \<and> hm_id h < hm_id (rows ! k))) rows = take k rows"
    (is "filter ?p rows = _")
proof -
  have lt: "hm_created_at (rows ! i) < hm_created_at (rows ! j)" if "i < j" "j < length rows" for i j
    using sorted_wrt_nth_less [OF assms(1) that(1)] that by simp
  have "filter ?p (take k rows) = take k rows"
  proof (rule filter_True, rule ballI)
    fix h assume "h \<in> set (take k rows)"
    then obtain i where "i < k" "h = rows ! i" using assms(2) by (auto simp: in_set_conv_nth)
    moreover have "h \<in> set rows" using \<open>h \<in> set (take k rows)\<close> by (rule in_set_takeD)
    ultimately show "?p h" using lt [of i k] assms(2, 3) by simp
  qed
  moreover have "filter ?p (drop k rows) = []"
  proof (rule filter_False, rule ballI)
    fix h assume "h \<in> set (drop k rows)"
    then obtain i where "i < length rows - k" "h = rows ! (k + i)"
      using assms(2) by (auto simp: in_set_conv_nth)
    then have i: "k + i < length rows" "h = rows ! (k + i)" by auto
    then show "\<not> ?p h" using lt [of k "k + i"] by (cases "i = 0") auto
  qed
  ultimately show ?thesis using append_take_drop_id [of k rows] filter_append [of ?p "take k rows" "drop k rows"]
    by simp
qed

section \<open>Properties\<close>



definition history_run :: "(time \<times> gomap) list" where
  "history_run = [(10, [(''a'', JInt 1)]), (20, [(''a'', JInt 2), (''b'', JObj [(''x'', JNull)])]),
     (30, [(''b'', JObj [(''x'', JNull), (''y'', JBool True)])])]"

definition blank_db :: db where
  "blank_db = \<lparr>instances = [], node_instances = [], executions = [], branches = [], deliveries = [],
     events = [], history = [], outbox = [], definitions = [], next_id = 0\<rparr>"

definition blank_rt :: runtime where
  "blank_rt = \<lparr>rt_newid = (\<lambda>n. replicate (Suc n) CHR ''h''), rt_lib = sample_lib,
     rt_time = (\<lambda>t. []), rt_range = (\<lambda>m. m)\<rparr>"


text \<open>
  \<open>SupersedeAfter\<close> is the complement of the replay: right after it, the rows
  a replay at the same cursor reads are unchanged, and of the rows at or after the
  cursor only those without an occurrence stay live.
\<close>

theorem SupersedeAfter_exact:
  "rows_before inst target (SupersedeAfter inst target d) = rows_before inst target d \<and>
   filter (\<lambda>h. hm_instance h = inst \<and> hm_occurrence h \<noteq> [] \<and> \<not> hm_superseded h \<and> \<not> Before (Cursor h) target)
     (history (SupersedeAfter inst target d)) = []"
proof
  have "filter (\<lambda>h. hm_instance h = inst \<and> \<not> hm_superseded h \<and>
       (hm_created_at h < hc_created_at target \<or>
        hm_created_at h = hc_created_at target \<and> hm_id h < hc_id target))
      (history (SupersedeAfter inst target d)) =
    filter (\<lambda>h. hm_instance h = inst \<and> \<not> hm_superseded h \<and>
       (hm_created_at h < hc_created_at target \<or>
        hm_created_at h = hc_created_at target \<and> hm_id h < hc_id target)) (history d)" (is "filter ?p _ = _")
  proof -
    have "filter ?p (update_where (\<lambda>h. hm_instance h = inst \<and> \<not> hm_superseded h \<and> hm_occurrence h \<noteq> [] \<and>
        (hm_created_at h > hc_created_at target \<or>
         hm_created_at h = hc_created_at target \<and> hm_id h \<ge> hc_id target))
       (\<lambda>h. h\<lparr>hm_superseded := True\<rparr>) t) = filter ?p t" for t
      by (induction t) (auto simp: tab_simps)
    then show ?thesis by (simp add: SupersedeAfter_def)
  qed
  then show "rows_before inst target (SupersedeAfter inst target d) = rows_before inst target d"
    by (simp add: rows_before_def)
  have "filter (\<lambda>h. hm_instance h = inst \<and> hm_occurrence h \<noteq> [] \<and> \<not> hm_superseded h \<and> \<not> Before (Cursor h) target)
      (update_where (\<lambda>h. hm_instance h = inst \<and> \<not> hm_superseded h \<and> hm_occurrence h \<noteq> [] \<and>
        (hm_created_at h > hc_created_at target \<or>
         hm_created_at h = hc_created_at target \<and> hm_id h \<ge> hc_id target))
       (\<lambda>h. h\<lparr>hm_superseded := True\<rparr>) t) = []" for t
    by (induction t) (auto simp: tab_simps Before_def Cursor_def split: if_splits)
  then show "filter (\<lambda>h. hm_instance h = inst \<and> hm_occurrence h \<noteq> [] \<and> \<not> hm_superseded h \<and> \<not> Before (Cursor h) target)
     (history (SupersedeAfter inst target d)) = []"
    by (simp add: SupersedeAfter_def)
qed

end
