(* ===== verification/InstanceRepo.thy ===== *)
theory InstanceRepo
  imports Outbox History
begin

text \<open>
  \<open>internal/workflow/repository/instance.go\<close>: the instance state machine over the
  tables. An operation is a function of the database; \<open>Inl\<close> is its error, and the
  transaction it runs in leaves the database alone. \<open>now\<close> is \<open>time.Now()\<close> and \<open>dbnow\<close>
  the database's \<open>now()\<close> where an operation uses both.
\<close>

section \<open>Requests\<close>

record Checkpoint =
  cp_instance :: uid
  cp_worker :: string
  cp_revision :: int
  cp_definition :: uid
  cp_from_status :: WorkflowStatus
  cp_from_reason :: WaitingReason
  cp_status :: WorkflowStatus
  cp_reason :: WaitingReason
  cp_pause_requested :: bool
  cp_frame :: Frame
  cp_counters :: Counters
  cp_context :: raw
  cp_error :: string
  cp_finished_at :: "time option"
  cp_run_at :: "time option"
  cp_history :: "NodeContextHistoryModel option"

record InputCompletion =
  ic_instance :: uid
  ic_branch :: uid
  ic_node_instance :: uid
  ic_key :: string
  ic_payload :: raw
  ic_accepted :: bool
  ic_error :: string
  ic_created_by :: uid
  ic_anonymous :: bool
  ic_post_failure :: bool
  ic_node_status :: NodeStatus
  ic_frame :: Frame
  ic_context :: raw
  ic_status :: WorkflowStatus
  ic_finished_at :: "time option"
  ic_history :: "NodeContextHistoryModel option"

record ContextUpdate =
  cu_instance :: uid
  cu_context :: raw
  cu_actor :: uid
  cu_reason :: string

record RollbackUpdate =
  ru_instance :: uid
  ru_frame :: Frame
  ru_context :: raw
  ru_actor :: uid
  ru_reason :: string
  ru_from_node :: string
  ru_to_node :: string
  ru_to_occurrence :: uid
  ru_waiting_reason :: WaitingReason
  ru_rearm :: bool
  ru_supersede :: bool
  ru_superseded_occurrence :: string
  ru_superseded_node :: string

record MigrateUpdate =
  mu_new :: WorkflowInstanceModel
  mu_source :: uid
  mu_source_revision :: int
  mu_actor :: uid
  mu_new_event :: raw
  mu_source_event :: raw

section \<open>Common writes\<close>

definition update_instances ::
  "(WorkflowInstanceModel \<Rightarrow> bool) \<Rightarrow> (WorkflowInstanceModel \<Rightarrow> WorkflowInstanceModel) \<Rightarrow> db \<Rightarrow> db" where
  "update_instances p f d = d\<lparr>instances := update_where p f (instances d)\<rparr>"

definition update_nodes ::
  "(NodeInstanceModel \<Rightarrow> bool) \<Rightarrow> (NodeInstanceModel \<Rightarrow> NodeInstanceModel) \<Rightarrow> db \<Rightarrow> db" where
  "update_nodes p f d = d\<lparr>node_instances := update_where p f (node_instances d)\<rparr>"

definition update_executions ::
  "(ParallelExecutionModel \<Rightarrow> bool) \<Rightarrow> (ParallelExecutionModel \<Rightarrow> ParallelExecutionModel) \<Rightarrow> db \<Rightarrow> db" where
  "update_executions p f d = d\<lparr>executions := update_where p f (executions d)\<rparr>"

definition update_branches ::
  "(ParallelBranchModel \<Rightarrow> bool) \<Rightarrow> (ParallelBranchModel \<Rightarrow> ParallelBranchModel) \<Rightarrow> db \<Rightarrow> db" where
  "update_branches p f d = d\<lparr>branches := update_where p f (branches d)\<rparr>"

text \<open>An audit event with a fresh id.\<close>

definition append_event ::
  "runtime \<Rightarrow> uid \<Rightarrow> string \<Rightarrow> raw \<Rightarrow> uid \<Rightarrow> time \<Rightarrow> db \<Rightarrow> repo_err + db" where
  "append_event rt inst typ payload actor now d =
     (let (x, d1) = newRepoID rt d
      in bindR (create em_id (WorkflowInstanceEventToModel
           \<lparr>em_id = x, em_instance = inst, em_type = typ, em_data = payload, em_created_by = actor,
            em_created_at = now\<rparr>) (events d1))
         (\<lambda>t. Inr (d1\<lparr>events := t\<rparr>)))"

definition live_branch :: "ParallelBranchModel \<Rightarrow> bool" where
  "live_branch b \<longleftrightarrow> bm_status b \<in> {BranchPending, BranchRunning, BranchWaiting}"

definition live_execution :: "ParallelExecutionModel \<Rightarrow> bool" where
  "live_execution x \<longleftrightarrow> xm_status x \<in> {ParallelWaitingForBranches, ParallelReadyToJoin}"

definition stop_node :: "time \<Rightarrow> string \<Rightarrow> NodeInstanceModel \<Rightarrow> NodeInstanceModel" where
  "stop_node now msg n = n\<lparr>nm_status := NodeStopped, nm_cancelled := True, nm_stopped_at := Some now,
     nm_error := msg, nm_updated_at := now\<rparr>"

text \<open>The zero-rows diagnosis of a guarded instance update.\<close>

definition missing_or_conflict :: "uid \<Rightarrow> db \<Rightarrow> repo_err" where
  "missing_or_conflict i d = (if find_instance i d = None then ErrInstanceNotFound else ErrStatusConflict)"

section \<open>Insert and read\<close>

definition Insert :: "WorkflowInstanceModel \<Rightarrow> db \<Rightarrow> repo_err + db" where
  "Insert w d = bindR (create wm_id (WorkflowInstanceToModel w) (instances d)) (\<lambda>t. Inr (d\<lparr>instances := t\<rparr>))"

definition GetByID :: "uid \<Rightarrow> db \<Rightarrow> repo_err + WorkflowInstanceModel" where
  "GetByID i d = (case find_instance i d of None \<Rightarrow> Inl ErrInstanceNotFound | Some m \<Rightarrow> Inr m)"

section \<open>Context replacement and rollback\<close>

definition ReplaceContext ::
  "runtime \<Rightarrow> time \<Rightarrow> ContextUpdate \<Rightarrow> db \<Rightarrow> repo_err + WorkflowInstanceModel \<times> db" where
  "ReplaceContext rt now u d =
     (let p = (\<lambda>m. wm_id m = cu_instance u \<and> wm_status m = WorkflowPaused);
          d1 = update_instances p
            (\<lambda>m. m\<lparr>wm_context := jsonCol (cu_context u) empty_obj, wm_revision := wm_revision m + 1,
                   wm_updated_at := now\<rparr>) d;
          payload = (if cu_reason u \<noteq> [] then JObj [(''reason'', JStr (cu_reason u))] else empty_obj)
      in if count_where p (instances d) = 0 then Inl (missing_or_conflict (cu_instance u) d)
         else bindR (append_event rt (cu_instance u) ''context_updated'' (Some payload) (cu_actor u) now d1)
           (\<lambda>d2. bindR (GetByID (cu_instance u) d2) (\<lambda>m. Inr (m, d2))))"

definition optional_field :: "string \<Rightarrow> string \<Rightarrow> gomap \<Rightarrow> gomap" where
  "optional_field k v m = (if v = [] then m else map_put k (JStr v) m)"

definition rollback_data :: "RollbackUpdate \<Rightarrow> json" where
  "rollback_data u = JObj
     (optional_field ''superseded_occurrence'' (ru_superseded_occurrence u)
     (optional_field ''superseded_node'' (ru_superseded_node u)
       [(''context_mode'', JStr ''restore''), (''from_node'', JStr (ru_from_node u)),
        (''reason'', JStr (ru_reason u)), (''to_node'', JStr (ru_to_node u)),
        (''to_occurrence'', JStr (ru_to_occurrence u))]))"

definition rollback_row :: "time \<Rightarrow> RollbackUpdate \<Rightarrow> WorkflowInstanceModel \<Rightarrow> WorkflowInstanceModel" where
  "rollback_row now u m = m
     \<lparr>wm_status := WorkflowPaused, wm_reason := ru_waiting_reason u, wm_pause_requested := False,
      wm_frame := Some (FrameJSON (ru_frame u)), wm_context := jsonCol (ru_context u) empty_obj,
      wm_error := [], wm_finished_at := None, wm_run_at := None,
      wm_revision := wm_revision m + 1, wm_updated_at := now\<rparr>"

definition rearm_node :: "time \<Rightarrow> NodeInstanceModel \<Rightarrow> NodeInstanceModel" where
  "rearm_node now n = n
     \<lparr>nm_status := NodeRunning, nm_attempt := nm_attempt n + 1, nm_output := Some JNull,
      nm_context_after := Some JNull, nm_error := [], nm_finished_at := None,
      nm_started_at := Some now, nm_updated_at := now\<rparr>"

definition RollbackInstance ::
  "runtime \<Rightarrow> time \<Rightarrow> RollbackUpdate \<Rightarrow> db \<Rightarrow> repo_err + WorkflowInstanceModel \<times> db" where
  "RollbackInstance rt now u d =
     (let p = (\<lambda>m. wm_id m = ru_instance u \<and> wm_status m \<in> {WorkflowPaused, WorkflowFailed} \<and>
                   \<not> wm_termination_pending m);
          d1 = update_instances p (rollback_row now u) d;
          d2 = (if ru_supersede u
                then update_nodes (\<lambda>n. nm_instance n = ru_instance u \<and> nm_status n = NodeRunning \<and>
                       nm_id n \<noteq> ru_to_occurrence u) (stop_node now ''superseded by rollback'') d1
                else d1);
          d3 = (if ru_rearm u
                then update_nodes (\<lambda>n. nm_id n = ru_to_occurrence u \<and> nm_instance n = ru_instance u \<and>
                       nm_status n = NodeFinished \<and> nm_type n = ''input'') (rearm_node now) d2
                else d2)
      in if count_where p (instances d) = 0 then Inl (missing_or_conflict (ru_instance u) d)
         else bindR (append_event rt (ru_instance u) ''rollback'' (Some (rollback_data u)) (ru_actor u) now d3)
           (\<lambda>d4. bindR (GetByID (ru_instance u) d4) (\<lambda>m. Inr (m, d4))))"

section \<open>Migration\<close>

text \<open>
  What \<open>MigrateInstance\<close> and \<open>Stop\<close> do to the parallel rows of an instance: a running
  branch makes termination pending, live branches and executions are cancelled
  with their leases, running branch attempts stop. Only \<open>Stop\<close> clears \<open>run_at\<close>.
\<close>

definition cancel_branch :: "time \<Rightarrow> ParallelBranchModel \<Rightarrow> ParallelBranchModel" where
  "cancel_branch now b = b\<lparr>bm_status := BranchCancelled, bm_leased_by := [], bm_lease_expiry := None,
     bm_revision := bm_revision b + 1, bm_updated_at := now\<rparr>"

definition cancel_execution :: "time \<Rightarrow> ParallelExecutionModel \<Rightarrow> ParallelExecutionModel" where
  "cancel_execution now x = x\<lparr>xm_status := ParallelExecutionCancelled, xm_updated_at := now\<rparr>"

definition running_branches :: "uid \<Rightarrow> db \<Rightarrow> nat" where
  "running_branches i d = count_where (\<lambda>b. bm_instance b = i \<and> bm_status b = BranchRunning) (branches d)"

definition cancel_parallel :: "bool \<Rightarrow> time \<Rightarrow> uid \<Rightarrow> db \<Rightarrow> db" where
  "cancel_parallel clear_run_at now i d =
     (let d1 = (if running_branches i d > 0
                then update_instances (\<lambda>m. wm_id m = i) (\<lambda>m. m\<lparr>wm_termination_pending := True\<rparr>) d
                else d);
          d2 = update_branches (\<lambda>b. bm_instance b = i \<and> live_branch b)
                 (\<lambda>b. let b' = cancel_branch now b in if clear_run_at then b'\<lparr>bm_run_at := None\<rparr> else b') d1;
          d3 = update_executions (\<lambda>x. xm_instance x = i \<and> live_execution x) (cancel_execution now) d2
      in update_nodes (\<lambda>n. nm_instance n = i \<and> nm_branch n \<noteq> None \<and> nm_status n = NodeRunning)
           (stop_node now ''instance stopped'') d3)"

definition migratable :: "MigrateUpdate \<Rightarrow> WorkflowInstanceModel \<Rightarrow> bool" where
  "migratable u m \<longleftrightarrow>
     wm_id m = mu_source u \<and> wm_revision m = mu_source_revision u \<and> \<not> wm_termination_pending m \<and>
     (wm_status m \<in> {WorkflowPaused, WorkflowFailed} \<or>
      wm_status m = WorkflowWaiting \<and> wm_reason m = ReasonInput)"

definition migrate_row :: "time \<Rightarrow> MigrateUpdate \<Rightarrow> WorkflowInstanceModel \<Rightarrow> WorkflowInstanceModel" where
  "migrate_row now u m = m
     \<lparr>wm_status := WorkflowStopped, wm_leased_by := [], wm_lease_expiry := None,
      wm_finished_at := Some now, wm_superseded_by := Some (wm_id (mu_new u)),
      wm_revision := wm_revision m + 1, wm_updated_at := now\<rparr>"

definition MigrateInstance :: "runtime \<Rightarrow> time \<Rightarrow> MigrateUpdate \<Rightarrow> db \<Rightarrow> repo_err + db" where
  "MigrateInstance rt now u d =
     (let d1 = update_instances (migratable u) (migrate_row now u) d;
          d2 = cancel_parallel False now (mu_source u) d1;
          d3 = update_nodes (\<lambda>n. nm_instance n = mu_source u \<and> nm_branch n = None \<and> nm_status n = NodeRunning)
                 (stop_node now ''superseded by migrate'') d2
      in if count_where (migratable u) (instances d) = 0 then Inl (missing_or_conflict (mu_source u) d)
         else bindR (Insert (mu_new u) d3) (\<lambda>d4.
              bindR (append_event rt (wm_id (mu_new u)) ''instance_created'' (mu_new_event u) (mu_actor u) now d4) (\<lambda>d5.
              append_event rt (mu_source u) ''instance_migrated'' (mu_source_event u) (mu_actor u) now d5)))"

section \<open>Leases\<close>

definition claimable :: "time \<Rightarrow> WorkflowInstanceModel \<Rightarrow> bool" where
  "claimable dbnow m \<longleftrightarrow>
     wm_status m = WorkflowWaiting \<and> wm_reason m = ReasonRunnable \<and> unleased dbnow (wm_lease_expiry m) \<or>
     wm_status m = WorkflowRunning \<and> expired dbnow (wm_lease_expiry m) \<or>
     wm_status m = WorkflowWaiting \<and> wm_reason m = ReasonDelay \<and> due dbnow (wm_run_at m) \<and>
       unleased dbnow (wm_lease_expiry m)"

definition claim_row :: "time \<Rightarrow> string \<Rightarrow> duration \<Rightarrow> WorkflowInstanceModel \<Rightarrow> WorkflowInstanceModel" where
  "claim_row now worker lease m = m
     \<lparr>wm_status := WorkflowRunning,
      wm_started_at := (case wm_started_at m of None \<Rightarrow> Some now | Some t \<Rightarrow> Some t),
      wm_leased_by := worker, wm_lease_expiry := Some (now + lease),
      wm_revision := wm_revision m + 1, wm_updated_at := now\<rparr>"

definition claim_rows :: "(uid \<Rightarrow> bool) \<Rightarrow> time \<Rightarrow> nat \<Rightarrow> db \<Rightarrow> WorkflowInstanceModel list" where
  "claim_rows locked dbnow limit d =
     take limit (order_by wm_updated_at (filter (\<lambda>m. claimable dbnow m \<and> \<not> locked (wm_id m)) (instances d)))"

definition ClaimNext ::
  "(uid \<Rightarrow> bool) \<Rightarrow> time \<Rightarrow> time \<Rightarrow> string \<Rightarrow> duration \<Rightarrow> nat \<Rightarrow> db \<Rightarrow> WorkflowInstanceModel list \<times> db" where
  "ClaimNext locked dbnow now worker lease limit d =
     (let rows = claim_rows locked dbnow limit d
      in (map (claim_row now worker lease) rows,
          update_instances (\<lambda>m. wm_id m \<in> wm_id ` set rows) (claim_row now worker lease) d))"

definition diagnoseInstanceFenceTx :: "uid \<Rightarrow> string \<Rightarrow> int \<Rightarrow> db \<Rightarrow> repo_err" where
  "diagnoseInstanceFenceTx i worker rv d =
     (case find_instance i d of
        None \<Rightarrow> ErrInstanceNotFound
      | Some m \<Rightarrow>
          if wm_leased_by m \<noteq> worker then ErrLeaseLost
          else if wm_revision m \<noteq> rv then ErrRevisionConflict
          else ErrLeaseLost)"

definition instance_fence :: "uid \<Rightarrow> int \<Rightarrow> string \<Rightarrow> WorkflowInstanceModel \<Rightarrow> bool" where
  "instance_fence i rv worker m \<longleftrightarrow> wm_id m = i \<and> wm_revision m = rv \<and> wm_leased_by m = worker"

definition checkpoint_row :: "time \<Rightarrow> Checkpoint \<Rightarrow> WorkflowInstanceModel \<Rightarrow> WorkflowInstanceModel" where
  "checkpoint_row dbnow c m = m
     \<lparr>wm_status := cp_status c, wm_reason := cp_reason c, wm_pause_requested := cp_pause_requested c,
      wm_frame := Some (FrameJSON (cp_frame c)), wm_counters := Some (CountersJSON (cp_counters c)),
      wm_context := jsonCol (cp_context c) empty_obj, wm_error := cp_error c,
      wm_leased_by := [], wm_lease_expiry := None, wm_finished_at := cp_finished_at c,
      wm_run_at := cp_run_at c, wm_revision := wm_revision m + 1, wm_updated_at := dbnow\<rparr>"

definition execInstanceCheckpointTx :: "runtime \<Rightarrow> time \<Rightarrow> time \<Rightarrow> Checkpoint \<Rightarrow> db \<Rightarrow> repo_err + db" where
  "execInstanceCheckpointTx rt dbnow now c d =
     (let p = instance_fence (cp_instance c) (cp_revision c) (cp_worker c);
          d1 = update_instances p (checkpoint_row dbnow c) d;
          frm = with_reason (cp_from_status c) (cp_from_reason c);
          to = with_reason (cp_status c) (cp_reason c)
      in if count_where p (instances d) \<noteq> 1
         then Inl (diagnoseInstanceFenceTx (cp_instance c) (cp_worker c) (cp_revision c) d)
         else bindR (appendHistoryTx rt (cp_instance c) (cp_history c) now d1)
           (enqueueStatusUpdateTx rt (cp_instance c) (cp_definition c) (cp_revision c + 1) frm to
              (transitionEvents frm to) (cp_error c) (cp_context c) now))"

definition CheckpointOp :: "runtime \<Rightarrow> time \<Rightarrow> time \<Rightarrow> Checkpoint \<Rightarrow> db \<Rightarrow> repo_err + db" where
  "CheckpointOp rt dbnow now c d = execInstanceCheckpointTx rt dbnow now c d"

text \<open>\<open>int(lease.Seconds())\<close> truncates to whole seconds.\<close>

definition whole_seconds :: "duration \<Rightarrow> duration" where
  "whole_seconds l = seconds (if l \<ge> 0 then l div seconds 1 else - ((- l) div seconds 1))"

definition RenewLease :: "time \<Rightarrow> uid \<Rightarrow> string \<Rightarrow> duration \<Rightarrow> db \<Rightarrow> repo_err + db" where
  "RenewLease dbnow i worker lease d =
     (let p = (\<lambda>m. wm_id m = i \<and> wm_leased_by m = worker \<and> wm_status m = WorkflowRunning)
      in if count_where p (instances d) = 0 then Inl ErrLeaseLost
         else Inr (update_instances p (\<lambda>m. m\<lparr>wm_lease_expiry := Some (dbnow + whole_seconds lease)\<rparr>) d))"

definition RenewLeases :: "time \<Rightarrow> string \<Rightarrow> duration \<Rightarrow> db \<Rightarrow> db" where
  "RenewLeases dbnow worker lease d =
     update_instances (\<lambda>m. wm_leased_by m = worker \<and> wm_status m = WorkflowRunning)
       (\<lambda>m. m\<lparr>wm_lease_expiry := Some (dbnow + whole_seconds lease)\<rparr>) d"

definition ReleaseLease :: "time \<Rightarrow> uid \<Rightarrow> string \<Rightarrow> db \<Rightarrow> db" where
  "ReleaseLease now i worker d =
     update_instances (\<lambda>m. wm_id m = i \<and> wm_leased_by m = worker \<and> wm_status m = WorkflowRunning)
       (\<lambda>m. m\<lparr>wm_leased_by := [], wm_lease_expiry := Some (now - seconds 1),
              wm_revision := wm_revision m + 1, wm_updated_at := now\<rparr>) d"

section \<open>Pause, resume, stop\<close>

definition set_status :: "time \<Rightarrow> WorkflowStatus \<Rightarrow> WorkflowInstanceModel \<Rightarrow> WorkflowInstanceModel" where
  "set_status now st m = m
     \<lparr>wm_status := st, wm_pause_requested := False, wm_revision := wm_revision m + 1, wm_updated_at := now\<rparr>"

definition set_pause_requested :: "time \<Rightarrow> bool \<Rightarrow> WorkflowInstanceModel \<Rightarrow> WorkflowInstanceModel" where
  "set_pause_requested now b m = m
     \<lparr>wm_pause_requested := b, wm_revision := wm_revision m + 1, wm_updated_at := now\<rparr>"

text \<open>The boolean result is \<open>deferred\<close>.\<close>

definition Pause :: "runtime \<Rightarrow> time \<Rightarrow> uid \<Rightarrow> db \<Rightarrow> repo_err + bool \<times> db" where
  "Pause rt now i d =
     (case find_instance i d of
        None \<Rightarrow> Inl ErrStatusConflict
      | Some m \<Rightarrow>
          (case wm_status m of
             WorkflowWaiting \<Rightarrow>
               (let d1 = update_instances (\<lambda>r. wm_id r = i) (set_status now WorkflowPaused) d;
                    frm = with_reason WorkflowWaiting (wm_reason m);
                    to = with_reason WorkflowPaused (wm_reason m)
                in bindR (enqueueStatusUpdateTx rt i (wm_definition m) (wm_revision m + 1) frm to
                     (transitionEvents frm to) [] (wm_context m) now d1) (\<lambda>d2. Inr (False, d2)))
           | WorkflowRunning \<Rightarrow>
               Inr (True, update_instances (\<lambda>r. wm_id r = i) (set_pause_requested now True) d)
           | WorkflowPaused \<Rightarrow> Inr (False, d)
           | _ \<Rightarrow> Inl ErrStatusConflict))"

definition Resume :: "runtime \<Rightarrow> time \<Rightarrow> uid \<Rightarrow> db \<Rightarrow> repo_err + db" where
  "Resume rt now i d =
     (case find_instance i d of
        None \<Rightarrow> Inl ErrStatusConflict
      | Some m \<Rightarrow>
          (case wm_status m of
             WorkflowPaused \<Rightarrow>
               (let d1 = update_instances (\<lambda>r. wm_id r = i) (set_status now WorkflowWaiting) d;
                    frm = with_reason WorkflowPaused (wm_reason m);
                    to = with_reason WorkflowWaiting (wm_reason m)
                in enqueueStatusUpdateTx rt i (wm_definition m) (wm_revision m + 1) frm to
                     (transitionEvents frm to) [] (wm_context m) now d1)
           | WorkflowRunning \<Rightarrow>
               Inr (update_instances (\<lambda>r. wm_id r = i) (set_pause_requested now False) d)
           | WorkflowWaiting \<Rightarrow> Inr d
           | _ \<Rightarrow> Inl ErrStatusConflict))"

definition stop_row :: "time \<Rightarrow> string \<Rightarrow> bool \<Rightarrow> WorkflowInstanceModel \<Rightarrow> WorkflowInstanceModel" where
  "stop_row now reason pending m = m
     \<lparr>wm_status := WorkflowStopped, wm_leased_by := [], wm_lease_expiry := None, wm_run_at := None,
      wm_termination_pending := pending, wm_error := reason, wm_finished_at := Some now,
      wm_revision := wm_revision m + 1, wm_updated_at := now\<rparr>"

text \<open>The boolean result is \<open>pending\<close>.\<close>

definition Stop :: "runtime \<Rightarrow> time \<Rightarrow> uid \<Rightarrow> string \<Rightarrow> db \<Rightarrow> repo_err + bool \<times> db" where
  "Stop rt now i reason d =
     (case find_instance i d of
        None \<Rightarrow> Inl ErrStatusConflict
      | Some m \<Rightarrow>
          if wm_status m \<in> {WorkflowWaiting, WorkflowRunning, WorkflowPaused} then
            (let running = (wm_status m = WorkflowRunning);
                 d1 = update_instances (\<lambda>r. wm_id r = i) (stop_row now reason running) d;
                 pending = (running \<or> running_branches i d1 > 0);
                 d2 = cancel_parallel True now i d1;
                 frm = with_reason (wm_status m) (wm_reason m);
                 to = with_reason WorkflowStopped ReasonRunnable
             in bindR (enqueueStatusUpdateTx rt i (wm_definition m) (wm_revision m + 1) frm to
                  (transitionEvents frm to) reason (wm_context m) now d2) (\<lambda>d3. Inr (pending, d3)))
          else if wm_status m = WorkflowStopped then Inr (wm_termination_pending m, d)
          else Inl ErrStatusConflict)"

definition StopRunningAttempts :: "time \<Rightarrow> uid \<Rightarrow> db \<Rightarrow> db" where
  "StopRunningAttempts now i d =
     update_nodes (\<lambda>n. nm_instance n = i \<and> nm_status n = NodeRunning) (stop_node now ''instance stopped'') d"

definition ListTerminationPending :: "db \<Rightarrow> uid list" where
  "ListTerminationPending d = map wm_id (filter wm_termination_pending (instances d))"

definition clear_termination :: "time \<Rightarrow> WorkflowInstanceModel \<Rightarrow> WorkflowInstanceModel" where
  "clear_termination now m = m
     \<lparr>wm_termination_pending := False, wm_leased_by := [], wm_lease_expiry := None,
      wm_revision := wm_revision m + 1, wm_updated_at := now\<rparr>"

definition ResolveTermination :: "time \<Rightarrow> uid \<Rightarrow> db \<Rightarrow> db" where
  "ResolveTermination now i d =
     update_instances (\<lambda>m. wm_id m = i \<and> wm_termination_pending m) (clear_termination now) d"

definition SweepTermination :: "time \<Rightarrow> db \<Rightarrow> db" where
  "SweepTermination dbnow d =
     update_instances (\<lambda>m. wm_termination_pending m \<and> wm_status m = WorkflowStopped \<and>
         \<not> (\<exists>n \<in> set (node_instances d). nm_instance n = wm_id m \<and> nm_status n = NodeRunning))
       (clear_termination dbnow) d"

section \<open>Node attempts and events\<close>

definition InsertNodeInstance :: "NodeInstanceModel \<Rightarrow> db \<Rightarrow> repo_err + db" where
  "InsertNodeInstance n d =
     bindR (create nm_id (NodeInstanceToModel n) (node_instances d)) (\<lambda>t. Inr (d\<lparr>node_instances := t\<rparr>))"

text \<open>GORM's \<open>Save\<close>: update by primary key, insert when no row has it.\<close>

definition UpdateNodeInstance :: "NodeInstanceModel \<Rightarrow> db \<Rightarrow> db" where
  "UpdateNodeInstance n d =
     (let m = NodeInstanceToModel n
      in if find_node_instance (nm_id m) d = None
         then d\<lparr>node_instances := node_instances d @ [m]\<rparr>
         else update_nodes (\<lambda>r. nm_id r = nm_id m) (\<lambda>_. m) d)"

definition found_node :: "NodeInstanceModel option \<Rightarrow> repo_err + NodeInstanceModel" where
  "found_node r = (case r of None \<Rightarrow> Inl ErrNodeInstanceNotFound | Some n \<Rightarrow> Inr n)"

definition GetNodeInstance :: "uid \<Rightarrow> uid \<Rightarrow> db \<Rightarrow> repo_err + NodeInstanceModel" where
  "GetNodeInstance i occ d =
     found_node (first_where (\<lambda>n. nm_instance n = i \<and> nm_id n = occ) (node_instances d))"

text \<open>
  GORM's \<open>First\<close> orders by the primary key, after the order given:
  \<open>newest\<close> is \<open>created_at DESC, id DESC\<close>, \<open>last_updated\<close> is \<open>updated_at DESC\<close>.
\<close>

definition lowest_id :: "(NodeInstanceModel \<Rightarrow> bool) \<Rightarrow> db \<Rightarrow> NodeInstanceModel option" where
  "lowest_id p d = first_where (\<lambda>_. True) (order_by nm_id (filter p (node_instances d)))"

definition newest :: "(NodeInstanceModel \<Rightarrow> bool) \<Rightarrow> db \<Rightarrow> NodeInstanceModel option" where
  "newest p d = first_where (\<lambda>_. True)
     (rev (order_by (\<lambda>n. (nm_created_at n, nm_id n)) (filter p (node_instances d))))"

definition last_updated :: "(NodeInstanceModel \<Rightarrow> bool) \<Rightarrow> db \<Rightarrow> NodeInstanceModel option" where
  "last_updated p d = first_where (\<lambda>_. True)
     (order_by (\<lambda>n. (- nm_updated_at n, nm_id n)) (filter p (node_instances d)))"

definition GetNodeInstanceByNode :: "uid \<Rightarrow> uid \<Rightarrow> db \<Rightarrow> repo_err + NodeInstanceModel" where
  "GetNodeInstanceByNode i node d =
     found_node (lowest_id (\<lambda>n. nm_instance n = i \<and> nm_node n = node \<and> nm_branch n = None) d)"

definition GetLiveNodeInstanceByNode :: "uid \<Rightarrow> uid \<Rightarrow> db \<Rightarrow> repo_err + NodeInstanceModel" where
  "GetLiveNodeInstanceByNode i node d =
     found_node (newest (\<lambda>n. nm_instance n = i \<and> nm_node n = node \<and> nm_status n = NodeRunning \<and> nm_branch n = None) d)"

definition GetRunningNodeInstance :: "uid \<Rightarrow> db \<Rightarrow> repo_err + NodeInstanceModel" where
  "GetRunningNodeInstance i d =
     found_node (last_updated (\<lambda>n. nm_instance n = i \<and> nm_status n = NodeRunning \<and> nm_branch n = None) d)"

definition GetBranchNodeInstanceByNode :: "uid \<Rightarrow> uid \<Rightarrow> db \<Rightarrow> repo_err + NodeInstanceModel" where
  "GetBranchNodeInstanceByNode b node d =
     found_node (lowest_id (\<lambda>n. nm_branch n = Some b \<and> nm_node n = node) d)"

definition GetLiveBranchNodeInstanceByNode :: "uid \<Rightarrow> uid \<Rightarrow> db \<Rightarrow> repo_err + NodeInstanceModel" where
  "GetLiveBranchNodeInstanceByNode b node d =
     found_node (newest (\<lambda>n. nm_branch n = Some b \<and> nm_node n = node \<and> nm_status n = NodeRunning) d)"

definition GetRunningBranchNodeInstance :: "uid \<Rightarrow> db \<Rightarrow> repo_err + NodeInstanceModel" where
  "GetRunningBranchNodeInstance b d =
     found_node (last_updated (\<lambda>n. nm_branch n = Some b \<and> nm_status n = NodeRunning) d)"

definition ListNodeInstances :: "uid \<Rightarrow> db \<Rightarrow> NodeInstanceModel list" where
  "ListNodeInstances i d =
     order_by (\<lambda>n. (nm_created_at n, nm_id n)) (filter (\<lambda>n. nm_instance n = i) (node_instances d))"

definition AppendEvent :: "WorkflowInstanceEventModel \<Rightarrow> db \<Rightarrow> repo_err + db" where
  "AppendEvent e d =
     bindR (create em_id (WorkflowInstanceEventToModel e) (events d)) (\<lambda>t. Inr (d\<lparr>events := t\<rparr>))"

definition ListEvents :: "uid \<Rightarrow> db \<Rightarrow> WorkflowInstanceEventModel list" where
  "ListEvents i d =
     order_by (\<lambda>e. (em_created_at e, em_id e)) (filter (\<lambda>e. em_instance e = i) (events d))"

end
