(* ===== verification/ParallelRepo.thy ===== *)
theory ParallelRepo
  imports InstanceRepo
begin

text \<open>
  \<open>internal/workflow/repository/parallel.go\<close>: durable fork and join. An execution
  counts the branches that arrived; the transaction that counts the last one
  makes it ready to join and wakes its owner, the parent branch or the instance.
\<close>

section \<open>Requests\<close>

record ForkBranch =
  fb_name :: string
  fb_index :: int
  fb_start_node :: uid
  fb_frame :: Frame
  fb_context :: raw

record ForkParallel =
  fp_instance :: uid
  fp_definition :: uid
  fp_worker :: string
  fp_revision :: int
  fp_parent_branch :: "uid option"
  fp_depth :: int
  fp_start_node :: uid
  fp_end_node :: uid
  fp_frame :: Frame
  fp_counters :: Counters
  fp_context :: raw
  fp_branches :: "ForkBranch list"
  fp_debug :: bool

record BranchCheckpoint =
  bc_branch :: uid
  bc_worker :: string
  bc_revision :: int
  bc_status :: ParallelBranchStatus
  bc_reason :: WaitingReason
  bc_frame :: Frame
  bc_counters :: Counters
  bc_context :: raw
  bc_error :: string
  bc_run_at :: "time option"

record BranchCompletion =
  bn_branch :: uid
  bn_worker :: string
  bn_revision :: int
  bn_frame :: Frame
  bn_counters :: Counters
  bn_context :: raw

record JoinCheckpoint =
  jc_checkpoint :: Checkpoint
  jc_execution :: uid

record JoinBranchCheckpoint =
  jb_checkpoint :: BranchCheckpoint
  jb_execution :: uid

section \<open>Fenced branch writes\<close>

definition branch_fence :: "uid \<Rightarrow> int \<Rightarrow> string \<Rightarrow> ParallelBranchModel \<Rightarrow> bool" where
  "branch_fence i rv worker b \<longleftrightarrow> bm_id b = i \<and> bm_revision b = rv \<and> bm_leased_by b = worker"

definition branch_row :: "time \<Rightarrow> BranchCheckpoint \<Rightarrow> ParallelBranchModel \<Rightarrow> ParallelBranchModel" where
  "branch_row dbnow c b = b
     \<lparr>bm_status := bc_status c, bm_reason := bc_reason c, bm_frame := Some (FrameJSON (bc_frame c)),
      bm_counters := Some (CountersJSON (bc_counters c)),
      bm_context := jsonCol (bc_context c) empty_obj, bm_error := bc_error c,
      bm_leased_by := [], bm_lease_expiry := None, bm_run_at := bc_run_at c,
      bm_revision := bm_revision b + 1, bm_updated_at := dbnow\<rparr>"

text \<open>\<open>diagnoseParallelFence\<close> on the lease and revision of the named row.\<close>

definition diagnoseParallelFence :: "repo_err \<Rightarrow> string \<Rightarrow> int \<Rightarrow> (string \<times> int) option \<Rightarrow> repo_err" where
  "diagnoseParallelFence notFound worker rv row =
     (case row of
        None \<Rightarrow> notFound
      | Some (leasedBy, revision) \<Rightarrow>
          if leasedBy \<noteq> worker then ErrLeaseLost
          else if revision \<noteq> rv then ErrRevisionConflict
          else ErrLeaseLost)"

definition branch_lease :: "uid \<Rightarrow> db \<Rightarrow> (string \<times> int) option" where
  "branch_lease i d = map_option (\<lambda>b. (bm_leased_by b, bm_revision b)) (find_branch i d)"

definition instance_lease :: "uid \<Rightarrow> db \<Rightarrow> (string \<times> int) option" where
  "instance_lease i d = map_option (\<lambda>m. (wm_leased_by m, wm_revision m)) (find_instance i d)"

definition CheckpointBranch :: "time \<Rightarrow> BranchCheckpoint \<Rightarrow> db \<Rightarrow> repo_err + db" where
  "CheckpointBranch dbnow c d =
     (let p = branch_fence (bc_branch c) (bc_revision c) (bc_worker c)
      in if count_where p (branches d) \<noteq> 1
         then Inl (diagnoseParallelFence ErrParallelBranchNotFound (bc_worker c) (bc_revision c)
                (branch_lease (bc_branch c) d))
         else Inr (update_branches p (branch_row dbnow c) d))"

definition RenewBranchLease :: "time \<Rightarrow> uid \<Rightarrow> string \<Rightarrow> duration \<Rightarrow> db \<Rightarrow> repo_err + db" where
  "RenewBranchLease dbnow i worker lease d =
     (let p = (\<lambda>b. bm_id b = i \<and> bm_leased_by b = worker \<and> bm_status b = BranchRunning)
      in if count_where p (branches d) = 0 then Inl ErrLeaseLost
         else Inr (update_branches p (\<lambda>b. b\<lparr>bm_lease_expiry := Some (dbnow + whole_seconds lease)\<rparr>) d))"

definition RenewBranchLeases :: "time \<Rightarrow> string \<Rightarrow> duration \<Rightarrow> db \<Rightarrow> db" where
  "RenewBranchLeases dbnow worker lease d =
     update_branches (\<lambda>b. bm_leased_by b = worker \<and> bm_status b = BranchRunning)
       (\<lambda>b. b\<lparr>bm_lease_expiry := Some (dbnow + whole_seconds lease)\<rparr>) d"

section \<open>Fork\<close>

definition fork_parent_row :: "time \<Rightarrow> ForkParallel \<Rightarrow> WorkflowInstanceModel \<Rightarrow> WorkflowInstanceModel" where
  "fork_parent_row dbnow f m = m
     \<lparr>wm_status := (if fp_debug f then WorkflowPaused else WorkflowWaiting), wm_reason := ReasonParallel,
      wm_frame := Some (FrameJSON (fp_frame f)), wm_counters := Some (CountersJSON (fp_counters f)),
      wm_context := jsonCol (fp_context f) empty_obj,
      wm_leased_by := [], wm_lease_expiry := None, wm_run_at := None,
      wm_revision := wm_revision m + 1, wm_updated_at := dbnow\<rparr>"

definition fork_branch_checkpoint :: "ForkParallel \<Rightarrow> uid \<Rightarrow> BranchCheckpoint" where
  "fork_branch_checkpoint f b =
     \<lparr>bc_branch = b, bc_worker = fp_worker f, bc_revision = fp_revision f, bc_status = BranchWaiting,
      bc_reason = ReasonParallel, bc_frame = fp_frame f, bc_counters = fp_counters f,
      bc_context = fp_context f, bc_error = [], bc_run_at = None\<rparr>"

text \<open>Parking the forking scope: the parent branch, or the instance.\<close>

definition fork_park :: "time \<Rightarrow> ForkParallel \<Rightarrow> db \<Rightarrow> repo_err + db" where
  "fork_park dbnow f d =
     (case fp_parent_branch f of
        Some b \<Rightarrow> CheckpointBranch dbnow (fork_branch_checkpoint f b) d
      | None \<Rightarrow>
          let p = instance_fence (fp_instance f) (fp_revision f) (fp_worker f)
          in if count_where p (instances d) \<noteq> 1
             then Inl (diagnoseParallelFence ErrInstanceNotFound (fp_worker f) (fp_revision f)
                    (instance_lease (fp_instance f) d))
             else Inr (update_instances p (fork_parent_row dbnow f) d))"

definition fork_execution :: "time \<Rightarrow> uid \<Rightarrow> ForkParallel \<Rightarrow> ParallelExecutionModel" where
  "fork_execution now x f =
     \<lparr>xm_id = x, xm_instance = fp_instance f, xm_parent_branch = fp_parent_branch f, xm_depth = fp_depth f,
      xm_start_node = fp_start_node f, xm_end_node = fp_end_node f,
      xm_status = ParallelWaitingForBranches, xm_branch_count = int (length (fp_branches f)),
      xm_completed_count = 0, xm_created_at = now, xm_updated_at = now\<rparr>"

definition fork_branch :: "time \<Rightarrow> uid \<Rightarrow> uid \<Rightarrow> ForkParallel \<Rightarrow> ForkBranch \<Rightarrow> ParallelBranchModel" where
  "fork_branch now x i f b =
     \<lparr>bm_id = i, bm_execution = x, bm_instance = fp_instance f, bm_name = fb_name b,
      bm_index = fb_index b, bm_start_node = fb_start_node b, bm_frame = Some (FrameJSON (fb_frame b)),
      bm_context = fb_context b, bm_counters = None,
      bm_status = (if fp_debug f then BranchWaiting else BranchPending),
      bm_reason = (if fp_debug f then ReasonPaused else ReasonRunnable),
      bm_revision = 0, bm_leased_by = [], bm_lease_expiry = None, bm_run_at = None, bm_error = [],
      bm_created_at = now, bm_updated_at = now\<rparr>"

fun fork_branches ::
  "runtime \<Rightarrow> time \<Rightarrow> uid \<Rightarrow> ForkParallel \<Rightarrow> ForkBranch list \<Rightarrow> db \<Rightarrow> ParallelBranchModel list \<times> db" where
  "fork_branches rt now x f [] d = ([], d)"
| "fork_branches rt now x f (b # bs) d =
     (let (i, d1) = newRepoID rt d; (rows, d2) = fork_branches rt now x f bs d1
      in (fork_branch now x i f b # rows, d2))"

fun create_branches :: "ParallelBranchModel list \<Rightarrow> db \<Rightarrow> repo_err + db" where
  "create_branches [] d = Inr d"
| "create_branches (b # bs) d =
     bindR (create_unique bm_id branch_key (ParallelBranchToModel b) (branches d))
       (\<lambda>t. create_branches bs (d\<lparr>branches := t\<rparr>))"

definition Fork ::
  "runtime \<Rightarrow> time \<Rightarrow> time \<Rightarrow> ForkParallel \<Rightarrow> db \<Rightarrow>
   repo_err + (ParallelExecutionModel \<times> ParallelBranchModel list) \<times> db" where
  "Fork rt dbnow now f d =
     (let (x, d1) = newRepoID rt d;
          ex = fork_execution now x f;
          (rows, d2) = fork_branches rt now x f (fp_branches f) d1
      in bindR (fork_park dbnow f d2) (\<lambda>d3.
         bindR (create xm_id ex (executions d3)) (\<lambda>xt.
         bindR (if rows = [] then Inl ErrEmptySlice else create_branches rows (d3\<lparr>executions := xt\<rparr>)) (\<lambda>d4.
         if fp_parent_branch f \<noteq> None then Inr ((ex, rows), d4)
         else
           let frm = with_reason WorkflowRunning ReasonRunnable;
               to = with_reason (if fp_debug f then WorkflowPaused else WorkflowWaiting) ReasonParallel
           in bindR (enqueueStatusUpdateTx rt (fp_instance f) (fp_definition f) (fp_revision f + 1) frm to
                (transitionEvents frm to) [] (fp_context f) now d4) (\<lambda>d5. Inr ((ex, rows), d5))))))"

section \<open>Reads and claims\<close>

definition GetExecution :: "uid \<Rightarrow> db \<Rightarrow> repo_err + ParallelExecutionModel" where
  "GetExecution i d = (case find_execution i d of None \<Rightarrow> Inl ErrParallelExecutionNotFound | Some x \<Rightarrow> Inr x)"

definition GetBranch :: "uid \<Rightarrow> db \<Rightarrow> repo_err + ParallelBranchModel" where
  "GetBranch i d = (case find_branch i d of None \<Rightarrow> Inl ErrParallelBranchNotFound | Some b \<Rightarrow> Inr b)"

definition ListExecutions :: "uid \<Rightarrow> db \<Rightarrow> ParallelExecutionModel list" where
  "ListExecutions i d =
     order_by (\<lambda>x. (xm_created_at x, xm_id x)) (filter (\<lambda>x. xm_instance x = i) (executions d))"

definition ListBranches :: "uid \<Rightarrow> db \<Rightarrow> ParallelBranchModel list" where
  "ListBranches x d = order_by bm_index (filter (\<lambda>b. bm_execution b = x) (branches d))"

definition ListBranchIDs :: "uid \<Rightarrow> db \<Rightarrow> uid list" where
  "ListBranchIDs i d = map bm_id (filter (\<lambda>b. bm_instance b = i) (branches d))"

definition CountActiveBranches :: "uid \<Rightarrow> db \<Rightarrow> nat" where
  "CountActiveBranches i d = count_where (\<lambda>b. bm_instance b = i \<and> live_branch b) (branches d)"

definition claimable_branch :: "time \<Rightarrow> ParallelBranchModel \<Rightarrow> bool" where
  "claimable_branch dbnow b \<longleftrightarrow>
     bm_status b = BranchPending \<or>
     bm_status b = BranchWaiting \<and> bm_reason b = ReasonRunnable \<and> unleased dbnow (bm_lease_expiry b) \<or>
     bm_status b = BranchRunning \<and> expired dbnow (bm_lease_expiry b) \<or>
     bm_status b = BranchWaiting \<and> bm_reason b = ReasonDelay \<and> due dbnow (bm_run_at b) \<and>
       unleased dbnow (bm_lease_expiry b)"

definition claim_branch_row :: "time \<Rightarrow> string \<Rightarrow> duration \<Rightarrow> ParallelBranchModel \<Rightarrow> ParallelBranchModel" where
  "claim_branch_row now worker lease b = b
     \<lparr>bm_status := BranchRunning, bm_leased_by := worker, bm_lease_expiry := Some (now + lease),
      bm_revision := bm_revision b + 1, bm_updated_at := now\<rparr>"

definition claim_branch_rows :: "(uid \<Rightarrow> bool) \<Rightarrow> time \<Rightarrow> nat \<Rightarrow> db \<Rightarrow> ParallelBranchModel list" where
  "claim_branch_rows locked dbnow limit d =
     take limit (order_by bm_updated_at
       (filter (\<lambda>b. claimable_branch dbnow b \<and> \<not> locked (bm_id b)) (branches d)))"

definition ClaimNextBranches ::
  "(uid \<Rightarrow> bool) \<Rightarrow> time \<Rightarrow> time \<Rightarrow> string \<Rightarrow> duration \<Rightarrow> nat \<Rightarrow> db \<Rightarrow> ParallelBranchModel list \<times> db" where
  "ClaimNextBranches locked dbnow now worker lease limit d =
     (let rows = claim_branch_rows locked dbnow limit d
      in (map (claim_branch_row now worker lease) rows,
          update_branches (\<lambda>b. bm_id b \<in> bm_id ` set rows) (claim_branch_row now worker lease) d))"

section \<open>Arrival at the join\<close>

definition parallelBranchTerminal :: "ParallelBranchStatus \<Rightarrow> bool" where
  "parallelBranchTerminal s \<longleftrightarrow> s = BranchCompleted \<or> s = BranchFailed \<or> s = BranchCancelled"

definition parallelExecutionTerminal :: "ParallelExecutionStatus \<Rightarrow> bool" where
  "parallelExecutionTerminal s \<longleftrightarrow>
     s = ParallelExecutionCompleted \<or> s = ParallelExecutionFailed \<or> s = ParallelExecutionCancelled"

definition complete_row :: "time \<Rightarrow> BranchCompletion \<Rightarrow> ParallelBranchModel \<Rightarrow> ParallelBranchModel" where
  "complete_row now c b = b
     \<lparr>bm_status := BranchCompleted, bm_frame := Some (FrameJSON (bn_frame c)),
      bm_counters := Some (CountersJSON (bn_counters c)), bm_context := jsonCol (bn_context c) empty_obj,
      bm_leased_by := [], bm_lease_expiry := None,
      bm_revision := bm_revision b + 1, bm_updated_at := now\<rparr>"

text \<open>Waking the owner of an execution that became ready to join.\<close>

definition wake_owner :: "time \<Rightarrow> ParallelExecutionModel \<Rightarrow> db \<Rightarrow> db" where
  "wake_owner dbnow ex d =
     (case xm_parent_branch ex of
        Some o' \<Rightarrow>
          update_branches (\<lambda>b. bm_id b = o' \<and> bm_status b = BranchWaiting \<and> bm_reason b = ReasonParallel)
            (\<lambda>b. b\<lparr>bm_reason := ReasonRunnable, bm_updated_at := dbnow\<rparr>) d
      | None \<Rightarrow>
          update_instances (\<lambda>m. wm_id m = xm_instance ex \<and>
              wm_status m \<in> {WorkflowWaiting, WorkflowPaused} \<and> wm_reason m = ReasonParallel)
            (\<lambda>m. m\<lparr>wm_reason := ReasonRunnable, wm_updated_at := dbnow\<rparr>) d)"

definition count_arrival :: "time \<Rightarrow> ParallelExecutionModel \<Rightarrow> ParallelExecutionModel \<Rightarrow> ParallelExecutionModel" where
  "count_arrival now ex x =
     (let completed = xm_completed_count ex + 1;
          x' = x\<lparr>xm_completed_count := completed, xm_updated_at := now\<rparr>
      in if completed \<ge> xm_branch_count ex then x'\<lparr>xm_status := ParallelReadyToJoin\<rparr> else x')"

text \<open>The boolean result is \<open>ready\<close>.\<close>

definition CompleteBranch :: "time \<Rightarrow> time \<Rightarrow> BranchCompletion \<Rightarrow> db \<Rightarrow> repo_err + bool \<times> db" where
  "CompleteBranch dbnow now c d =
     (case find_branch (bn_branch c) d of
        None \<Rightarrow> Inl ErrParallelBranchNotFound
      | Some b \<Rightarrow>
          if bm_status b = BranchCompleted then Inr (False, d)
          else if bm_leased_by b \<noteq> bn_worker c then Inl ErrLeaseLost
          else if bm_revision b \<noteq> bn_revision c then Inl ErrRevisionConflict
          else if bm_status b \<noteq> BranchRunning \<and> bm_status b \<noteq> BranchWaiting then Inl ErrStatusConflict
          else
            let d1 = update_branches (\<lambda>r. bm_id r = bn_branch c) (complete_row now c) d
            in (case find_execution (bm_execution b) d1 of
                  None \<Rightarrow> Inl ErrParallelExecutionNotFound
                | Some ex \<Rightarrow>
                    if xm_status ex \<noteq> ParallelWaitingForBranches then Inr (False, d1)
                    else
                      let ready = (xm_completed_count ex + 1 \<ge> xm_branch_count ex);
                          d2 = update_executions (\<lambda>x. xm_id x = xm_id ex) (count_arrival now ex) d1
                      in Inr (ready, if ready then wake_owner dbnow ex d2 else d2)))"

section \<open>Failure\<close>

text \<open>
  \<open>cancelExecutionSubtreeTx\<close>: level by level, the live branches of the executions
  are cancelled, then the live executions nested under any of their branches. Each
  round cancels a live execution, so the loop ends.
\<close>

definition branch_ids_of :: "uid list \<Rightarrow> db \<Rightarrow> uid list" where
  "branch_ids_of ids d = map bm_id (filter (\<lambda>b. bm_execution b \<in> set ids) (branches d))"

definition nested_live :: "uid list \<Rightarrow> db \<Rightarrow> uid list" where
  "nested_live bs d = map xm_id (filter (\<lambda>x. xm_parent_branch x \<in> Some ` set bs \<and> live_execution x) (executions d))"

definition cancel_level :: "time \<Rightarrow> uid list \<Rightarrow> db \<Rightarrow> db" where
  "cancel_level now ids = update_branches (\<lambda>b. bm_execution b \<in> set ids \<and> live_branch b) (cancel_branch now)"

definition cancel_nested :: "time \<Rightarrow> uid list \<Rightarrow> db \<Rightarrow> db" where
  "cancel_nested now ids = update_executions (\<lambda>x. xm_id x \<in> set ids) (cancel_execution now)"

definition live_count :: "db \<Rightarrow> nat" where
  "live_count d = count_where live_execution (executions d)"

lemma live_count_update:
  assumes "\<And>x. \<not> live_execution (f x)" "\<exists>x \<in> set (executions d). p x \<and> live_execution x"
  shows "live_count (update_executions p f d) < live_count d"
proof -
  have le: "count_where live_execution (update_where p f t) \<le> count_where live_execution t" for t
    using assms(1) by (induction t) (auto simp: tab_simps count_where_def)
  have "count_where live_execution (update_where p f t) < count_where live_execution t"
    if "\<exists>x \<in> set t. p x \<and> live_execution x" for t
    using that
  proof (induction t)
    case (Cons x t)
    then show ?case using assms(1) [of x] le [of t] by (auto simp: tab_simps count_where_def)
  qed simp
  with assms(2) show ?thesis by (simp add: live_count_def update_executions_def)
qed

lemma not_live_cancelled [simp]: "\<not> live_execution (cancel_execution now x)"
  by (simp add: live_execution_def cancel_execution_def)

lemma executions_update_branches [simp]: "executions (update_branches p f d) = executions d"
  by (simp add: update_branches_def)

lemma nested_live_nonempty:
  assumes "nested_live bs d \<noteq> []"
  shows "\<exists>x \<in> set (executions d). xm_id x \<in> set (nested_live bs d) \<and> live_execution x"
proof -
  from assms obtain i where "i \<in> set (nested_live bs d)" by (cases "nested_live bs d") auto
  then show ?thesis by (auto simp: nested_live_def)
qed

lemma live_count_cancel_nested:
  "nested_live bs d \<noteq> [] \<Longrightarrow> live_count (cancel_nested now (nested_live bs d) d) < live_count d"
  unfolding cancel_nested_def by (rule live_count_update [OF not_live_cancelled nested_live_nonempty])

function cancelExecutionSubtreeTx :: "time \<Rightarrow> uid list \<Rightarrow> db \<Rightarrow> db" where
  "cancelExecutionSubtreeTx now ids d =
     (let d1 = cancel_level now ids d; ids' = nested_live (branch_ids_of ids d) d1
      in if ids' = [] then d1 else cancelExecutionSubtreeTx now ids' (cancel_nested now ids' d1))"
  by pat_completeness auto
termination
proof (relation "measure (\<lambda>(now, ids, d). live_count d)")
  fix now :: time and ids d d1 ids'
  assume a: "d1 = cancel_level now ids d" "ids' = nested_live (branch_ids_of ids d) d1" "ids' \<noteq> []"
  then have "live_count (cancel_nested now ids' d1) < live_count d1" by (simp add: live_count_cancel_nested)
  also have "live_count d1 = live_count d" using a(1) by (simp add: live_count_def cancel_level_def)
  finally show "((now, ids', cancel_nested now ids' d1), (now, ids, d)) \<in> measure (\<lambda>(now, ids, d). live_count d)"
    by simp
qed simp

declare cancelExecutionSubtreeTx.simps [simp del]

definition fail_branch_row :: "time \<Rightarrow> string \<Rightarrow> ParallelBranchModel \<Rightarrow> ParallelBranchModel" where
  "fail_branch_row now msg b = b\<lparr>bm_status := BranchFailed, bm_error := msg, bm_leased_by := [],
     bm_lease_expiry := None, bm_revision := bm_revision b + 1, bm_updated_at := now\<rparr>"

definition fail_execution_row :: "time \<Rightarrow> ParallelExecutionModel \<Rightarrow> ParallelExecutionModel" where
  "fail_execution_row now x = x\<lparr>xm_status := ParallelExecutionFailed, xm_updated_at := now\<rparr>"

definition fail_branch :: "time \<Rightarrow> string \<Rightarrow> uid \<Rightarrow> db \<Rightarrow> db" where
  "fail_branch now msg i = update_branches (\<lambda>b. bm_id b = i) (fail_branch_row now msg)"

text \<open>An execution fails and everything live below it is cancelled.\<close>

definition fail_execution_tree :: "time \<Rightarrow> uid \<Rightarrow> db \<Rightarrow> db" where
  "fail_execution_tree now i d =
     cancelExecutionSubtreeTx now [i] (update_executions (\<lambda>x. xm_id x = i) (fail_execution_row now) d)"

lemma executions_cancel_level [simp]: "executions (cancel_level now ids d) = executions d"
  by (simp add: cancel_level_def)

lemma live_count_cancel_subtree: "live_count (cancelExecutionSubtreeTx now ids d) \<le> live_count d"
proof (induction now ids d rule: cancelExecutionSubtreeTx.induct)
  case (1 now ids d)
  define d1 where "d1 = cancel_level now ids d"
  define ids' where "ids' = nested_live (branch_ids_of ids d) d1"
  have e: "live_count d1 = live_count d" by (simp add: d1_def live_count_def)
  show ?case
  proof (cases "ids' = []")
    case True
    then show ?thesis using e
      by (subst cancelExecutionSubtreeTx.simps) (simp add: Let_def d1_def [symmetric] ids'_def [symmetric])
  next
    case False
    then have "live_count (cancel_nested now ids' d1) < live_count d1"
      unfolding ids'_def by (rule live_count_cancel_nested)
    moreover have "live_count (cancelExecutionSubtreeTx now ids' (cancel_nested now ids' d1)) \<le>
        live_count (cancel_nested now ids' d1)"
      by (rule "1.IH" [OF d1_def ids'_def False])
    ultimately show ?thesis using False e
      by (subst cancelExecutionSubtreeTx.simps) (simp add: Let_def d1_def [symmetric] ids'_def [symmetric])
  qed
qed

lemma executions_fail_branch [simp]: "executions (fail_branch now msg i d) = executions d"
  by (simp add: fail_branch_def)

lemma live_count_fail_tree:
  assumes "find_execution i d = Some x" "live_execution x"
  shows "live_count (fail_execution_tree now i d) < live_count d"
proof -
  have "live_count (update_executions (\<lambda>x. xm_id x = i) (fail_execution_row now) d) < live_count d"
    using by_key_SomeD [OF assms(1)] assms(2)
    by (intro live_count_update) (auto simp: live_execution_def fail_execution_row_def)
  then show ?thesis
    using live_count_cancel_subtree [of now "[i]"] unfolding fail_execution_tree_def by (rule order.strict_trans1 [rotated])
qed

lemma live_not_terminal: "live_execution x \<longleftrightarrow> \<not> parallelExecutionTerminal (xm_status x)"
  by (cases "xm_status x") (simp_all add: live_execution_def parallelExecutionTerminal_def)

text \<open>
  The climb through nested owners; the result is the execution it stopped at. Each
  round fails a live execution.
\<close>

function climb_failure :: "time \<Rightarrow> string \<Rightarrow> ParallelExecutionModel \<Rightarrow> db \<Rightarrow> ParallelExecutionModel \<times> db" where
  "climb_failure now msg ex d =
     (case xm_parent_branch ex of
        None \<Rightarrow> (ex, d)
      | Some o' \<Rightarrow>
          (case find_branch o' d of
             None \<Rightarrow> (ex, d)
           | Some owner \<Rightarrow>
               if parallelBranchTerminal (bm_status owner) then (ex, d)
               else
                 let d1 = fail_branch now msg (bm_id owner) d
                 in (case find_execution (bm_execution owner) d1 of
                       None \<Rightarrow> (ex, d1)
                     | Some parentEx \<Rightarrow>
                         if parallelExecutionTerminal (xm_status parentEx) then (ex, d1)
                         else climb_failure now msg parentEx (fail_execution_tree now (xm_id parentEx) d1))))"
  by pat_completeness auto
termination
proof (relation "measure (\<lambda>(now, msg, ex, d). live_count d)")
  fix now :: time and msg ex d o' owner d1 parentEx
  assume "d1 = fail_branch now msg (bm_id owner) d" "find_execution (bm_execution owner) d1 = Some parentEx"
    "\<not> parallelExecutionTerminal (xm_status parentEx)"
  then have "live_count (fail_execution_tree now (xm_id parentEx) d1) < live_count d1"
    using by_key_SomeD [of xm_id "bm_execution owner" "executions d1" parentEx]
    by (intro live_count_fail_tree [where x = parentEx]) (simp_all add: live_not_terminal)
  also have "live_count d1 = live_count d" using \<open>d1 = _\<close> by (simp add: live_count_def)
  finally show "((now, msg, parentEx, fail_execution_tree now (xm_id parentEx) d1), (now, msg, ex, d)) \<in>
      measure (\<lambda>(now, msg, ex, d). live_count d)" by simp
qed simp

declare climb_failure.simps [simp del]

definition branch_failure_text :: "string \<Rightarrow> string \<Rightarrow> string" where
  "branch_failure_text name msg = ''parallel branch '' @ [CHR 0x22] @ name @ [CHR 0x22] @ '' failed: '' @ msg"

definition fail_parent_row :: "time \<Rightarrow> string \<Rightarrow> WorkflowInstanceModel \<Rightarrow> WorkflowInstanceModel" where
  "fail_parent_row dbnow msg m = m
     \<lparr>wm_status := WorkflowFailed, wm_error := msg, wm_finished_at := Some dbnow,
      wm_revision := wm_revision m + 1, wm_updated_at := dbnow\<rparr>"

definition parked_parent :: "uid \<Rightarrow> WorkflowInstanceModel \<Rightarrow> bool" where
  "parked_parent i m \<longleftrightarrow>
     wm_id m = i \<and> wm_status m \<in> {WorkflowWaiting, WorkflowPaused} \<and> wm_reason m = ReasonParallel"

text \<open>The last step of the cascade: a parked top-level parent fails with the leaf's error.\<close>

definition fail_parent ::
  "runtime \<Rightarrow> time \<Rightarrow> time \<Rightarrow> uid \<Rightarrow> string \<Rightarrow> db \<Rightarrow> repo_err + bool \<times> db" where
  "fail_parent rt dbnow now i parentErr d =
     (if count_where (parked_parent i) (instances d) \<noteq> 1 then Inr (False, d)
      else
        let pre = the (find_instance i d);
            d1 = update_instances (parked_parent i) (fail_parent_row dbnow parentErr) d;
            m = the (find_instance i d1);
            frm = with_reason (wm_status pre) ReasonParallel;
            to = with_reason WorkflowFailed ReasonRunnable
        in bindR (enqueueStatusUpdateTx rt i (wm_definition m) (wm_revision m) frm to
             (transitionEvents frm to) parentErr (wm_context m) now d1) (\<lambda>d2. Inr (True, d2)))"

text \<open>The boolean result is \<open>failedParent\<close>.\<close>

definition failBranchCascadeTx ::
  "runtime \<Rightarrow> time \<Rightarrow> time \<Rightarrow> ParallelBranchModel \<Rightarrow> string \<Rightarrow> db \<Rightarrow> repo_err + bool \<times> db" where
  "failBranchCascadeTx rt dbnow now leaf errMsg d =
     (let d1 = fail_branch now errMsg (bm_id leaf) d
      in case find_execution (bm_execution leaf) d1 of
           None \<Rightarrow> Inl ErrParallelExecutionNotFound
         | Some ex \<Rightarrow>
             if parallelExecutionTerminal (xm_status ex) then Inr (False, d1)
             else
               let (ex1, d2) = climb_failure now errMsg ex (fail_execution_tree now (xm_id ex) d1)
               in fail_parent rt dbnow now (xm_instance ex1) (branch_failure_text (bm_name leaf) errMsg) d2)"

definition FailBranch ::
  "runtime \<Rightarrow> time \<Rightarrow> time \<Rightarrow> uid \<Rightarrow> string \<Rightarrow> int \<Rightarrow> string \<Rightarrow> db \<Rightarrow> repo_err + bool \<times> db" where
  "FailBranch rt dbnow now i worker rv errMsg d =
     (case find_branch i d of
        None \<Rightarrow> Inl ErrParallelBranchNotFound
      | Some leaf \<Rightarrow>
          if parallelBranchTerminal (bm_status leaf) then Inr (False, d)
          else if bm_leased_by leaf \<noteq> worker then Inl ErrLeaseLost
          else if bm_revision leaf \<noteq> rv then Inl ErrRevisionConflict
          else if bm_status leaf \<noteq> BranchRunning \<and> bm_status leaf \<noteq> BranchWaiting then Inl ErrStatusConflict
          else failBranchCascadeTx rt dbnow now leaf errMsg d)"

definition FailExecution :: "time \<Rightarrow> uid \<Rightarrow> db \<Rightarrow> repo_err + db" where
  "FailExecution now i d =
     (case find_execution i d of
        None \<Rightarrow> Inl ErrParallelExecutionNotFound
      | Some ex \<Rightarrow>
          if xm_status ex \<noteq> ParallelWaitingForBranches \<and> xm_status ex \<noteq> ParallelReadyToJoin then Inr d
          else Inr (update_executions (\<lambda>x. xm_id x = xm_id ex) (fail_execution_row now) d))"

section \<open>Join\<close>

definition complete_execution :: "time \<Rightarrow> uid \<Rightarrow> db \<Rightarrow> db" where
  "complete_execution now i =
     update_executions (\<lambda>x. xm_id x = i)
       (\<lambda>x. x\<lparr>xm_status := ParallelExecutionCompleted, xm_updated_at := now\<rparr>)"

text \<open>The part the two joins share: lock a ready execution, commit the owner, complete.\<close>

definition join_ready :: "time \<Rightarrow> uid \<Rightarrow> (db \<Rightarrow> repo_err + db) \<Rightarrow> db \<Rightarrow> repo_err + db" where
  "join_ready now i commit d =
     (case find_execution i d of
        None \<Rightarrow> Inl ErrParallelExecutionNotFound
      | Some ex \<Rightarrow>
          if xm_status ex \<noteq> ParallelReadyToJoin then Inl ErrStatusConflict
          else bindR (commit d) (\<lambda>d1. Inr (complete_execution now (xm_id ex) d1)))"

definition JoinParallel :: "runtime \<Rightarrow> time \<Rightarrow> time \<Rightarrow> JoinCheckpoint \<Rightarrow> db \<Rightarrow> repo_err + db" where
  "JoinParallel rt dbnow now j =
     join_ready now (jc_execution j) (execInstanceCheckpointTx rt dbnow now (jc_checkpoint j))"

definition JoinBranchParallel :: "time \<Rightarrow> time \<Rightarrow> JoinBranchCheckpoint \<Rightarrow> db \<Rightarrow> repo_err + db" where
  "JoinBranchParallel dbnow now j =
     join_ready now (jb_execution j) (CheckpointBranch dbnow (jb_checkpoint j))"

definition WakePausedBranch :: "time \<Rightarrow> uid \<Rightarrow> db \<Rightarrow> repo_err + db" where
  "WakePausedBranch dbnow i d =
     (let p = (\<lambda>b. bm_id b = i \<and> bm_status b = BranchWaiting \<and> bm_reason b = ReasonPaused)
      in if count_where p (branches d) \<noteq> 1
         then Inl (if find_branch i d = None then ErrParallelBranchNotFound else ErrStatusConflict)
         else Inr (update_branches p (\<lambda>b. b\<lparr>bm_reason := ReasonRunnable, bm_updated_at := dbnow\<rparr>) d))"

end
