(* ===== verification/InputRepo.thy ===== *)
theory InputRepo
  imports ParallelRepo
begin

text \<open>
  Input deliveries of \<open>internal/workflow/repository/instance.go\<close>. A delivery is
  recorded once per instance and idempotency key; an accepted one finishes the node
  attempt and moves the parked cursor of the instance or of a branch in the same
  transaction. A repeated key returns the delivery recorded first.
\<close>

section \<open>Deliveries\<close>

definition inputReceivedData :: "uid \<Rightarrow> uid \<Rightarrow> bool \<Rightarrow> json" where
  "inputReceivedData node branch anonymous = JObj
     (optional_field ''branch_id'' branch
     ((if anonymous then map_put ''delivered_by'' (JStr ''anonymous'') else id)
       [(''node_instance_id'', JStr node)]))"

definition delivery_of :: "uid \<Rightarrow> time \<Rightarrow> InputCompletion \<Rightarrow> InputDeliveryModel" where
  "delivery_of x now c =
     \<lparr>dm_id = x, dm_instance = ic_instance c, dm_node_instance = ic_node_instance c, dm_key = ic_key c,
      dm_payload = ic_payload c, dm_accepted = ic_accepted c, dm_error = ic_error c, dm_created_at = now\<rparr>"

text \<open>
  \<open>Create\<close> with \<open>ON CONFLICT (workflow_instance_id, idempotency_key) DO NOTHING\<close>:
  \<open>None\<close> when no row was written. The other unique index is on the node occurrence
  and the key.
\<close>

definition insert_delivery :: "InputDeliveryModel \<Rightarrow> db \<Rightarrow> repo_err + db option" where
  "insert_delivery r d =
     (if delivery_key r \<in> delivery_key ` set (deliveries d) then Inr None
      else if dm_id r \<in> dm_id ` set (deliveries d) \<or>
              (dm_node_instance r, dm_key r) \<in> (\<lambda>q. (dm_node_instance q, dm_key q)) ` set (deliveries d)
      then Inl ErrUniqueViolation
      else Inr (Some (d\<lparr>deliveries := deliveries d @ [InputDeliveryToModel r]\<rparr>)))"

definition getDelivery :: "uid \<Rightarrow> string \<Rightarrow> db \<Rightarrow> repo_err + InputDeliveryModel" where
  "getDelivery inst key d =
     (case first_where (\<lambda>_. True) (order_by (\<lambda>r. (dm_created_at r, dm_id r))
        (filter (\<lambda>r. dm_instance r = inst \<and> dm_key r = key) (deliveries d))) of
        None \<Rightarrow> Inl ErrDeliveryNotFound
      | Some r \<Rightarrow> Inr r)"

text \<open>
  The shape of the four accepting transactions: the lock step, the delivery row,
  then the rest; an existing key ends the transaction and returns the recorded row.
\<close>

definition deliver_once ::
  "InputCompletion \<Rightarrow> InputDeliveryModel \<Rightarrow> (db \<Rightarrow> repo_err + 'l) \<Rightarrow> ('l \<Rightarrow> db \<Rightarrow> repo_err + db) \<Rightarrow> db \<Rightarrow>
   repo_err + InputDeliveryModel \<times> db" where
  "deliver_once c r lock body d =
     bindR (lock d) (\<lambda>l.
     bindR (insert_delivery r d) (\<lambda>o'.
       case o' of
         None \<Rightarrow> bindR (getDelivery (ic_instance c) (ic_key c) d) (\<lambda>q. Inr (q, d))
       | Some d1 \<Rightarrow> bindR (body l d1) (\<lambda>d2. Inr (r, d2))))"

definition lock_instance :: "uid \<Rightarrow> db \<Rightarrow> repo_err + WorkflowInstanceModel" where
  "lock_instance i d = (case find_instance i d of None \<Rightarrow> Inl ErrRecordNotFound | Some m \<Rightarrow> Inr m)"

definition lock_branch :: "InputCompletion \<Rightarrow> db \<Rightarrow> repo_err + ParallelBranchModel" where
  "lock_branch c d =
     bindR (GetBranch (ic_branch c) d) (\<lambda>b.
       if bm_instance b \<noteq> ic_instance c then Inl ErrStatusConflict else Inr b)"

text \<open>An update that must touch a row.\<close>

definition must_update_nodes ::
  "(NodeInstanceModel \<Rightarrow> bool) \<Rightarrow> (NodeInstanceModel \<Rightarrow> NodeInstanceModel) \<Rightarrow> db \<Rightarrow> repo_err + db" where
  "must_update_nodes p f d =
     (if count_where p (node_instances d) = 0 then Inl ErrStatusConflict else Inr (update_nodes p f d))"

definition must_update_instances ::
  "(WorkflowInstanceModel \<Rightarrow> bool) \<Rightarrow> (WorkflowInstanceModel \<Rightarrow> WorkflowInstanceModel) \<Rightarrow> db \<Rightarrow> repo_err + db" where
  "must_update_instances p f d =
     (if count_where p (instances d) = 0 then Inl ErrStatusConflict else Inr (update_instances p f d))"

definition must_update_branches ::
  "(ParallelBranchModel \<Rightarrow> bool) \<Rightarrow> (ParallelBranchModel \<Rightarrow> ParallelBranchModel) \<Rightarrow> db \<Rightarrow> repo_err + db" where
  "must_update_branches p f d =
     (if count_where p (branches d) = 0 then Inl ErrStatusConflict else Inr (update_branches p f d))"

definition finish_node :: "time \<Rightarrow> InputCompletion \<Rightarrow> NodeInstanceModel \<Rightarrow> NodeInstanceModel" where
  "finish_node now c n = n
     \<lparr>nm_status := NodeFinished, nm_output := jsonCol (ic_payload c) JNull,
      nm_context_after := jsonCol (ic_context c) JNull, nm_finished_at := Some now, nm_updated_at := now\<rparr>"

definition fail_node :: "time \<Rightarrow> InputCompletion \<Rightarrow> NodeInstanceModel \<Rightarrow> NodeInstanceModel" where
  "fail_node now c n = n
     \<lparr>nm_status := ic_node_status c, nm_output := jsonCol (ic_payload c) JNull,
      nm_context_after := jsonCol (ic_context c) JNull, nm_error := ic_error c,
      nm_finished_at := Some now, nm_updated_at := now\<rparr>"

definition input_parked :: "uid \<Rightarrow> WorkflowInstanceModel \<Rightarrow> bool" where
  "input_parked i m \<longleftrightarrow> wm_id m = i \<and> wm_status m = WorkflowWaiting \<and> wm_reason m = ReasonInput"

definition branch_input_parked :: "uid \<Rightarrow> ParallelBranchModel \<Rightarrow> bool" where
  "branch_input_parked i b \<longleftrightarrow> bm_id b = i \<and> bm_status b = BranchWaiting \<and> bm_reason b = ReasonInput"

section \<open>The instance cursor\<close>

definition deliver_row :: "time \<Rightarrow> InputCompletion \<Rightarrow> WorkflowInstanceModel \<Rightarrow> WorkflowInstanceModel" where
  "deliver_row now c m = m
     \<lparr>wm_status := ic_status c, wm_reason := ReasonRunnable, wm_frame := Some (FrameJSON (ic_frame c)),
      wm_context := jsonCol (ic_context c) empty_obj, wm_finished_at := ic_finished_at c,
      wm_revision := wm_revision m + 1, wm_updated_at := now\<rparr>"

definition deliver_body ::
  "runtime \<Rightarrow> time \<Rightarrow> InputCompletion \<Rightarrow> WorkflowInstanceModel \<Rightarrow> db \<Rightarrow> repo_err + db" where
  "deliver_body rt now c m d =
     (let i = ic_instance c; frm = with_reason WorkflowWaiting ReasonInput;
          to = with_reason (ic_status c) ReasonRunnable
      in bindR (must_update_nodes (\<lambda>n. nm_id n = ic_node_instance c \<and> nm_status n = NodeRunning)
           (finish_node now c) d) (\<lambda>d1.
         bindR (must_update_instances (input_parked i) (deliver_row now c) d1) (\<lambda>d2.
         bindR (appendHistoryTx rt i (ic_history c) now d2) (\<lambda>d3.
         bindR (enqueueStatusUpdateTx rt i (wm_definition m) (wm_revision m + 1) frm to
           (''input_received'' # transitionEvents frm to) [] (ic_context c) now d3) (\<lambda>d4.
         bindR (append_event rt i ''input_received''
           (Some (inputReceivedData (ic_node_instance c) [] (ic_anonymous c))) (ic_created_by c) now d4) (\<lambda>d5.
         if ic_status c = WorkflowFinished
         then append_event rt i ''workflow_finished'' (Some empty_obj) (ic_created_by c) now d5
         else Inr d5))))))"

definition fail_input_row :: "time \<Rightarrow> InputCompletion \<Rightarrow> WorkflowInstanceModel \<Rightarrow> WorkflowInstanceModel" where
  "fail_input_row now c m = m
     \<lparr>wm_status := WorkflowFailed, wm_reason := ReasonRunnable,
      wm_context := jsonCol (ic_context c) empty_obj, wm_error := ic_error c, wm_finished_at := Some now,
      wm_revision := wm_revision m + 1, wm_updated_at := now\<rparr>"

definition error_data :: "string \<Rightarrow> json" where
  "error_data e = JObj [(''error'', JStr e)]"

definition fail_body ::
  "runtime \<Rightarrow> time \<Rightarrow> InputCompletion \<Rightarrow> WorkflowInstanceModel \<Rightarrow> db \<Rightarrow> repo_err + db" where
  "fail_body rt now c m d =
     (let i = ic_instance c; frm = with_reason WorkflowWaiting ReasonInput;
          to = with_reason WorkflowFailed ReasonRunnable
      in bindR (must_update_nodes (\<lambda>n. nm_id n = ic_node_instance c \<and> nm_status n = NodeRunning)
           (fail_node now c) d) (\<lambda>d1.
         bindR (must_update_instances (input_parked i) (fail_input_row now c) d1) (\<lambda>d2.
         bindR (appendHistoryTx rt i (ic_history c) now d2) (\<lambda>d3.
         bindR (enqueueStatusUpdateTx rt i (wm_definition m) (wm_revision m + 1) frm to
           (''input_received'' # transitionEvents frm to) (ic_error c) (ic_context c) now d3) (\<lambda>d4.
         bindR (append_event rt i ''input_received''
           (Some (inputReceivedData (ic_node_instance c) [] (ic_anonymous c))) (ic_created_by c) now d4) (\<lambda>d5.
         append_event rt i ''workflow_failed'' (Some (error_data (ic_error c))) (ic_created_by c) now d5))))))"

section \<open>A branch cursor\<close>

text \<open>\<open>strconv.Itoa\<close>.\<close>

fun digits :: "nat \<Rightarrow> string" where
  "digits n = (if n < 10 then [char_of (48 + n)] else digits (n div 10) @ [char_of (48 + n mod 10)])"

declare digits.simps [simp del]

definition Itoa :: "int \<Rightarrow> string" where
  "Itoa i = (if i < 0 then CHR ''-'' # digits (nat (- i)) else digits (nat i))"

definition branch_deliver_body ::
  "runtime \<Rightarrow> time \<Rightarrow> InputCompletion \<Rightarrow> ParallelBranchModel \<Rightarrow> db \<Rightarrow> repo_err + db" where
  "branch_deliver_body rt now c b d =
     (if bm_status b \<noteq> BranchWaiting \<or> bm_reason b \<noteq> ReasonInput then Inl ErrStatusConflict
      else
        bindR (must_update_nodes (\<lambda>n. nm_id n = ic_node_instance c \<and> nm_branch n = Some (ic_branch c) \<and>
            nm_status n = NodeRunning) (finish_node now c) d) (\<lambda>d1.
        bindR (must_update_branches (branch_input_parked (ic_branch c))
            (\<lambda>b. b\<lparr>bm_frame := Some (FrameJSON (ic_frame c)), bm_context := jsonCol (ic_context c) empty_obj,
                   bm_reason := ReasonRunnable, bm_updated_at := now\<rparr>) d1) (\<lambda>d2.
        append_event rt (ic_instance c) ''input_received''
          (Some (inputReceivedData (ic_node_instance c) (ic_branch c) (ic_anonymous c)))
          (ic_created_by c) now d2)))"

definition branch_failed_data :: "InputCompletion \<Rightarrow> ParallelBranchModel \<Rightarrow> json" where
  "branch_failed_data c b = JObj
     [(''branch_id'', JStr (ic_branch c)), (''branch_index'', JStr (Itoa (bm_index b))),
      (''branch_name'', JStr (bm_name b)), (''error'', JStr (ic_error c)),
      (''parallel_execution_id'', JStr (bm_execution b)), (''start_node_id'', JStr (bm_start_node b))]"

definition append_events ::
  "runtime \<Rightarrow> uid \<Rightarrow> uid \<Rightarrow> time \<Rightarrow> (string \<times> json) list \<Rightarrow> db \<Rightarrow> repo_err + db" where
  "append_events rt inst actor now evs =
     foldR (\<lambda>(typ, payload). append_event rt inst typ (Some payload) actor now) evs"

definition branch_fail_body ::
  "runtime \<Rightarrow> time \<Rightarrow> time \<Rightarrow> InputCompletion \<Rightarrow> ParallelBranchModel \<Rightarrow> db \<Rightarrow> repo_err + db" where
  "branch_fail_body rt dbnow now c b d =
     (if bm_status b \<noteq> BranchWaiting \<or> bm_reason b \<noteq> ReasonInput then Inl ErrStatusConflict
      else
        bindR (must_update_nodes (\<lambda>n. nm_id n = ic_node_instance c \<and> nm_branch n = Some (ic_branch c) \<and>
            nm_status n = NodeRunning) (fail_node now c) d) (\<lambda>d1.
        bindR (failBranchCascadeTx rt dbnow now b (ic_error c) d1) (\<lambda>(failedParent, d2).
        append_events rt (ic_instance c) (ic_created_by c) now
          ([(''input_received'', inputReceivedData (ic_node_instance c) (ic_branch c) (ic_anonymous c)),
            (''parallel_branch_failed'', branch_failed_data c b)] @
           (if failedParent
            then [(''parallel_failed'', JObj [(''error'', JStr (ic_error c)),
                     (''parallel_execution_id'', JStr (bm_execution b))]),
                  (''workflow_failed'', error_data (ic_error c))]
            else [])) d2)))"

section \<open>DeliverInput\<close>

definition reject_delivery :: "InputCompletion \<Rightarrow> InputDeliveryModel \<Rightarrow> db \<Rightarrow> repo_err + InputDeliveryModel \<times> db" where
  "reject_delivery c r d = deliver_once c r (\<lambda>_. Inr ()) (\<lambda>_. Inr) d"

definition deliverInstanceInput where
  "deliverInstanceInput rt now c r d = deliver_once c r (lock_instance (ic_instance c)) (deliver_body rt now c) d"

definition failInput where
  "failInput rt now c r d = deliver_once c r (lock_instance (ic_instance c)) (fail_body rt now c) d"

definition deliverBranchInput where
  "deliverBranchInput rt now c r d = deliver_once c r (lock_branch c) (branch_deliver_body rt now c) d"

definition failBranchInput where
  "failBranchInput rt dbnow now c r d = deliver_once c r (lock_branch c) (branch_fail_body rt dbnow now c) d"

definition DeliverInput ::
  "runtime \<Rightarrow> time \<Rightarrow> time \<Rightarrow> InputCompletion \<Rightarrow> db \<Rightarrow> repo_err + InputDeliveryModel \<times> db" where
  "DeliverInput rt dbnow now c d0 =
     (let (x, d) = newRepoID rt d0; r = delivery_of x now c
      in if \<not> ic_accepted c then reject_delivery c r d
         else if ic_post_failure c then
           (if ic_branch c \<noteq> [] then failBranchInput rt dbnow now c r d else failInput rt now c r d)
         else if ic_branch c \<noteq> [] then deliverBranchInput rt now c r d
         else deliverInstanceInput rt now c r d)"

definition GetDeliveryByKey :: "uid \<Rightarrow> string \<Rightarrow> db \<Rightarrow> repo_err + InputDeliveryModel" where
  "GetDeliveryByKey inst key d = getDelivery inst key d"

end
