(* ===== verification/Evolution.thy ===== *)
theory Evolution
  imports InputRepo
begin

text \<open>
  How the repository operations rewrite the instance, execution and branch tables,
  row by row: one lemma per operation (\<open>*_tables\<close>) gives the tables after it, the
  other tables aside; the relations say what a row may become.
\<close>

section \<open>Frames of the shared steps\<close>

definition core :: "db \<Rightarrow> WorkflowInstanceModel list \<times> NodeInstanceModel list \<times>
    ParallelExecutionModel list \<times> ParallelBranchModel list" where
  "core d = (instances d, node_instances d, executions d, branches d)"

lemma core_eqD:
  assumes "core d' = core d"
  shows "instances d' = instances d" "node_instances d' = node_instances d"
    "executions d' = executions d" "branches d' = branches d"
  using assms by (simp_all add: core_def)

lemma core_newRepoID [simp]: "core (snd (newRepoID rt d)) = core d"
  by (simp add: newRepoID_def core_def)

lemma core_enqueue: "enqueueStatusUpdateTx rt i df rv frm to evs err ctx at d = Inr d' \<Longrightarrow> core d' = core d"
  by (erule enqueue_adds) (simp add: core_def)

lemma core_append_event: "append_event rt i typ payload actor now d = Inr d' \<Longrightarrow> core d' = core d"
  by (auto simp: append_event_def newRepoID_def bindR_Inr_iff core_def)

lemma core_appendHistory: "appendHistoryTx rt i h now d = Inr d' \<Longrightarrow> core d' = core d"
  by (auto simp: appendHistoryTx_def Let_def history_id_def newRepoID_def bindR_Inr_iff core_def
      split: option.split_asm if_split_asm)

lemma core_append_events: "append_events rt i actor now evs d = Inr d' \<Longrightarrow> core d' = core d"
  unfolding append_events_def
  by (rule foldR_invariant [where I = "\<lambda>s. core s = core d"]) (auto dest: core_append_event)

lemmas core_intros = core_enqueue core_append_event core_appendHistory core_append_events

lemma tables_updates [simp]:
  "instances (update_instances p f d) = update_where p f (instances d)"
  "executions (update_instances p f d) = executions d"
  "branches (update_instances p f d) = branches d"
  "instances (update_nodes q g d) = instances d"
  "executions (update_nodes q g d) = executions d"
  "branches (update_nodes q g d) = branches d"
  "instances (update_executions u h d) = instances d"
  "executions (update_executions u h d) = update_where u h (executions d)"
  "branches (update_executions u h d) = branches d"
  "instances (update_branches v k d) = instances d"
  "branches (update_branches v k d) = update_where v k (branches d)"
  by (simp_all add: update_instances_def update_nodes_def update_executions_def update_branches_def)

section \<open>Rows\<close>

text \<open>
  \<open>list_all2 R\<close> pairs the rows before and after; an update relates every row it
  touches and leaves the others.
\<close>

lemma list_all2_update_where:
  "(\<And>r. r \<in> set t \<Longrightarrow> p r \<Longrightarrow> R r (f r)) \<Longrightarrow> (\<And>r. R r r) \<Longrightarrow> list_all2 R t (update_where p f t)"
  by (induction t) (auto simp: tab_simps)

lemma list_all2_same: "(\<And>r. R r r) \<Longrightarrow> list_all2 R t t"
  by (simp add: list_all2_refl)

text \<open>
  An instance row: a lease only while running, and always with an expiry then;
  termination is pending only once stopped. What
  the repository may write over a status: the transitions of the table, an input
  delivery that finishes or fails a parked instance, a branch failure that fails a
  parked parent, a rollback and a migration of a failed instance.
\<close>

definition inst_ok :: "WorkflowInstanceModel \<Rightarrow> bool" where
  "inst_ok m \<longleftrightarrow>
     (if wm_status m = WorkflowRunning then wm_lease_expiry m \<noteq> None
      else wm_leased_by m = [] \<and> wm_lease_expiry m = None) \<and>
     (wm_termination_pending m \<longrightarrow> wm_status m = WorkflowStopped)"

definition may_write :: "WorkflowStatus \<Rightarrow> WorkflowStatus \<Rightarrow> bool" where
  "may_write s s' \<longleftrightarrow> CanWorkflowTransition s s' \<or>
     (s, s') \<in> {(WorkflowWaiting, WorkflowFinished), (WorkflowWaiting, WorkflowFailed),
       (WorkflowPaused, WorkflowFailed), (WorkflowFailed, WorkflowPaused), (WorkflowFailed, WorkflowStopped)}"

definition inst_next :: "WorkflowInstanceModel \<Rightarrow> WorkflowInstanceModel \<Rightarrow> bool" where
  "inst_next m m' \<longleftrightarrow> wm_id m' = wm_id m \<and> wm_definition m' = wm_definition m \<and>
     wm_created_by m' = wm_created_by m \<and> wm_context_mode m' = wm_context_mode m \<and>
     (inst_ok m \<longrightarrow> inst_ok m' \<and>
        (wm_status m' = wm_status m \<and> wm_revision m \<le> wm_revision m' \<or>
         may_write (wm_status m) (wm_status m') \<and> wm_revision m < wm_revision m'))"

lemma inst_next_refl [simp]: "inst_next m m"
  by (simp add: inst_next_def)

text \<open>A branch row: its identity stays, an arrival is not undone, a lease only while running.\<close>

definition branch_ok :: "ParallelBranchModel \<Rightarrow> bool" where
  "branch_ok b \<longleftrightarrow>
     (if bm_status b = BranchRunning then bm_lease_expiry b \<noteq> None
      else bm_leased_by b = [] \<and> bm_lease_expiry b = None)"

definition branch_ident :: "ParallelBranchModel \<Rightarrow> ParallelBranchModel \<Rightarrow> bool" where
  "branch_ident b b' \<longleftrightarrow> bm_id b' = bm_id b \<and> bm_execution b' = bm_execution b \<and>
     bm_instance b' = bm_instance b \<and> bm_name b' = bm_name b \<and> bm_index b' = bm_index b \<and>
     bm_revision b \<le> bm_revision b'"

definition branch_next :: "ParallelBranchModel \<Rightarrow> ParallelBranchModel \<Rightarrow> bool" where
  "branch_next b b' \<longleftrightarrow> branch_ident b b' \<and>
     (branch_ok b \<longrightarrow> branch_ok b' \<and>
        (bm_status b' = bm_status b \<or>
         CanParallelBranchTransition (bm_status b) (bm_status b') \<and> bm_revision b < bm_revision b'))"

text \<open>The failing and cancelling writes: at most once per row.\<close>

definition branch_end :: "ParallelBranchModel \<Rightarrow> ParallelBranchModel \<Rightarrow> bool" where
  "branch_end b b' \<longleftrightarrow> branch_ident b b' \<and> (branch_ok b \<longrightarrow> branch_ok b') \<and>
     (bm_status b' = bm_status b \<or>
      live_branch b \<and> bm_status b' \<in> {BranchFailed, BranchCancelled} \<and> bm_revision b < bm_revision b')"

lemma branch_end_trans: "branch_end a b \<Longrightarrow> branch_end b c \<Longrightarrow> branch_end a c"
  unfolding branch_end_def branch_ident_def live_branch_def by auto

lemma branch_end_next: "branch_end b b' \<Longrightarrow> branch_next b b'"
  unfolding branch_end_def branch_next_def live_branch_def by auto

lemma branch_refl [simp]: "branch_next b b" "branch_end b b" "branch_ident b b"
  by (simp_all add: branch_next_def branch_end_def branch_ident_def)

text \<open>An execution row: its counts change only when a branch arrives.\<close>

definition exec_ident :: "ParallelExecutionModel \<Rightarrow> ParallelExecutionModel \<Rightarrow> bool" where
  "exec_ident x x' \<longleftrightarrow> xm_id x' = xm_id x \<and> xm_instance x' = xm_instance x \<and>
     xm_parent_branch x' = xm_parent_branch x \<and> xm_branch_count x' = xm_branch_count x"

definition exec_end :: "ParallelExecutionModel \<Rightarrow> ParallelExecutionModel \<Rightarrow> bool" where
  "exec_end x x' \<longleftrightarrow> exec_ident x x' \<and> xm_completed_count x' = xm_completed_count x \<and>
     (xm_status x' = xm_status x \<or>
      live_execution x \<and> xm_status x' \<in> {ParallelExecutionFailed, ParallelExecutionCancelled})"

definition exec_next :: "ParallelExecutionModel \<Rightarrow> ParallelExecutionModel \<Rightarrow> bool" where
  "exec_next x x' \<longleftrightarrow> exec_ident x x' \<and>
     (xm_status x' = xm_status x \<or> CanParallelExecutionTransition (xm_status x) (xm_status x'))"

lemma exec_end_trans: "exec_end a b \<Longrightarrow> exec_end b c \<Longrightarrow> exec_end a c"
  unfolding exec_end_def exec_ident_def live_execution_def by auto

lemma exec_end_next: "exec_end x x' \<Longrightarrow> exec_next x x'"
  unfolding exec_end_def exec_next_def live_execution_def by auto

lemma exec_refl [simp]: "exec_end x x" "exec_next x x" "exec_ident x x"
  by (simp_all add: exec_end_def exec_next_def exec_ident_def)

text \<open>
  A commit's fence matches running rows only: it names a holder, and only running rows
  have one, or it was read off a running row whose revision has not moved since.
\<close>

definition running_fence :: "uid \<Rightarrow> int \<Rightarrow> string \<Rightarrow> db \<Rightarrow> bool" where
  "running_fence i rv w d \<longleftrightarrow> (\<forall>m \<in> set (instances d). instance_fence i rv w m \<longrightarrow> wm_status m = WorkflowRunning)"

definition running_branch_fence :: "uid \<Rightarrow> int \<Rightarrow> string \<Rightarrow> db \<Rightarrow> bool" where
  "running_branch_fence i rv w d \<longleftrightarrow>
     (\<forall>b \<in> set (branches d). branch_fence i rv w b \<longrightarrow> bm_status b = BranchRunning)"

definition fork_fence :: "ForkParallel \<Rightarrow> db \<Rightarrow> bool" where
  "fork_fence f d \<longleftrightarrow>
     (case fp_parent_branch f of
        None \<Rightarrow> running_fence (fp_instance f) (fp_revision f) (fp_worker f) d
      | Some b \<Rightarrow> running_branch_fence b (fp_revision f) (fp_worker f) d)"

abbreviation checkpoint_fence :: "Checkpoint \<Rightarrow> db \<Rightarrow> bool" where
  "checkpoint_fence c \<equiv> running_fence (cp_instance c) (cp_revision c) (cp_worker c)"

abbreviation branch_checkpoint_fence :: "BranchCheckpoint \<Rightarrow> db \<Rightarrow> bool" where
  "branch_checkpoint_fence c \<equiv> running_branch_fence (bc_branch c) (bc_revision c) (bc_worker c)"

abbreviation completion_fence :: "BranchCompletion \<Rightarrow> db \<Rightarrow> bool" where
  "completion_fence c \<equiv> running_branch_fence (bn_branch c) (bn_revision c) (bn_worker c)"

section \<open>Instance rows\<close>

lemma inst_next_claim: "claimable dbnow m \<Longrightarrow> inst_next m (claim_row now w lease m)"
  by (auto simp: claimable_def inst_next_def inst_ok_def may_write_def claim_row_def split: if_splits)

lemma inst_next_checkpoint:
  "wm_status m = WorkflowRunning \<Longrightarrow> CanWorkflowTransition WorkflowRunning (cp_status c) \<Longrightarrow>
   inst_next m (checkpoint_row dbnow c m)"
  by (auto simp: inst_next_def inst_ok_def may_write_def checkpoint_row_def split: if_splits)

lemma inst_next_fork:
  "wm_status m = WorkflowRunning \<Longrightarrow> inst_next m (fork_parent_row dbnow f m)"
  by (auto simp: inst_next_def inst_ok_def may_write_def fork_parent_row_def split: if_splits)

lemma inst_next_renew:
  "wm_status m = WorkflowRunning \<Longrightarrow> inst_next m (m\<lparr>wm_lease_expiry := Some e\<rparr>)"
  by (simp add: inst_next_def inst_ok_def)

lemma inst_next_release:
  "wm_status m = WorkflowRunning \<Longrightarrow>
   inst_next m (m\<lparr>wm_leased_by := [], wm_lease_expiry := Some e, wm_revision := wm_revision m + 1, wm_updated_at := now\<rparr>)"
  by (simp add: inst_next_def inst_ok_def)

lemma inst_next_set_status:
  "wm_status m = WorkflowWaiting \<and> st = WorkflowPaused \<or> wm_status m = WorkflowPaused \<and> st = WorkflowWaiting \<Longrightarrow>
   inst_next m (set_status now st m)"
  by (auto simp: inst_next_def inst_ok_def may_write_def set_status_def)

lemma inst_next_pause_requested: "inst_next m (set_pause_requested now b m)"
  by (simp add: inst_next_def inst_ok_def set_pause_requested_def)

lemma inst_next_stop:
  "wm_status m \<in> {WorkflowWaiting, WorkflowRunning, WorkflowPaused} \<Longrightarrow> inst_next m (stop_row now reason pending m)"
  by (auto simp: inst_next_def inst_ok_def may_write_def stop_row_def)

lemma inst_next_clear: "wm_termination_pending m \<Longrightarrow> inst_next m (clear_termination now m)"
  by (auto simp: inst_next_def inst_ok_def clear_termination_def)

lemma inst_next_context:
  "inst_next m (m\<lparr>wm_context := c, wm_revision := wm_revision m + 1, wm_updated_at := now\<rparr>)"
  by (simp add: inst_next_def inst_ok_def)

lemma inst_next_rollback:
  "wm_status m \<in> {WorkflowPaused, WorkflowFailed} \<Longrightarrow> \<not> wm_termination_pending m \<Longrightarrow> inst_next m (rollback_row now u m)"
  by (auto simp: inst_next_def inst_ok_def may_write_def rollback_row_def)

lemma inst_next_migrate: "migratable u m \<Longrightarrow> inst_next m (migrate_row now u m)"
  by (auto simp: migratable_def inst_next_def inst_ok_def may_write_def migrate_row_def)

lemma inst_next_wake: "inst_next m (m\<lparr>wm_reason := r, wm_updated_at := now\<rparr>)"
  by (simp add: inst_next_def inst_ok_def)

lemma inst_next_fail_parent: "parked_parent i m \<Longrightarrow> inst_next m (fail_parent_row dbnow msg m)"
  by (auto simp: parked_parent_def inst_next_def inst_ok_def may_write_def fail_parent_row_def)

lemma inst_next_deliver:
  "input_parked i m \<Longrightarrow> ic_status c \<in> {WorkflowWaiting, WorkflowPaused, WorkflowFinished} \<Longrightarrow> inst_next m (deliver_row now c m)"
  by (auto simp: input_parked_def inst_next_def inst_ok_def may_write_def deliver_row_def)

lemma inst_next_fail_input: "input_parked i m \<Longrightarrow> inst_next m (fail_input_row now c m)"
  by (auto simp: input_parked_def inst_next_def inst_ok_def may_write_def fail_input_row_def)

lemma inst_next_flag:
  "inst_next a b \<Longrightarrow> wm_status b = WorkflowStopped \<Longrightarrow> inst_next a (b\<lparr>wm_termination_pending := True\<rparr>)"
  by (auto simp: inst_next_def inst_ok_def)

lemmas inst_next_rows = inst_next_claim inst_next_checkpoint inst_next_fork inst_next_renew inst_next_release
  inst_next_set_status inst_next_pause_requested inst_next_stop inst_next_clear inst_next_context
  inst_next_rollback inst_next_migrate inst_next_wake inst_next_fail_parent inst_next_deliver inst_next_fail_input

section \<open>Branch and execution rows\<close>

lemma branch_next_claim: "claimable_branch dbnow b \<Longrightarrow> branch_next b (claim_branch_row now w lease b)"
  by (auto simp: claimable_branch_def branch_next_def branch_ident_def branch_ok_def claim_branch_row_def)

lemma branch_next_checkpoint:
  "bm_status b = BranchRunning \<Longrightarrow> bc_status c \<in> {BranchWaiting, BranchCancelled} \<Longrightarrow>
   branch_next b (branch_row dbnow c b)"
  by (auto simp: branch_next_def branch_ident_def branch_ok_def branch_row_def split: if_splits)

lemma branch_next_renew: "bm_status b = BranchRunning \<Longrightarrow> branch_next b (b\<lparr>bm_lease_expiry := Some e\<rparr>)"
  by (simp add: branch_next_def branch_ident_def branch_ok_def)

lemma branch_next_wake: "branch_next b (b\<lparr>bm_reason := r, bm_updated_at := now\<rparr>)"
  by (simp add: branch_next_def branch_ident_def branch_ok_def)

lemma branch_next_deliver:
  "branch_next b (b\<lparr>bm_frame := fr, bm_context := c, bm_reason := r, bm_updated_at := now\<rparr>)"
  by (simp add: branch_next_def branch_ident_def branch_ok_def)

lemma branch_next_complete:
  "bm_status b = BranchRunning \<Longrightarrow> branch_next b (complete_row now c b)"
  by (auto simp: branch_next_def branch_ident_def branch_ok_def complete_row_def split: if_splits)

lemma branch_end_cancel:
  "live_branch b \<Longrightarrow> branch_end b (cancel_branch now b)"
  "live_branch b \<Longrightarrow> branch_end b ((cancel_branch now b)\<lparr>bm_run_at := None\<rparr>)"
  by (simp_all add: branch_end_def branch_ident_def branch_ok_def cancel_branch_def)

lemma branch_end_fail: "live_branch b \<Longrightarrow> branch_end b (fail_branch_row now msg b)"
  by (simp add: branch_end_def branch_ident_def branch_ok_def fail_branch_row_def)

lemma exec_end_cancel: "live_execution x \<Longrightarrow> exec_end x (cancel_execution now x)"
  by (simp add: exec_end_def exec_ident_def cancel_execution_def)

lemma exec_end_fail: "live_execution x \<Longrightarrow> exec_end x (fail_execution_row now x)"
  by (simp add: exec_end_def exec_ident_def fail_execution_row_def)

lemma exec_next_complete:
  "xm_status x = ParallelReadyToJoin \<Longrightarrow>
   exec_next x (x\<lparr>xm_status := ParallelExecutionCompleted, xm_updated_at := now\<rparr>)"
  by (simp add: exec_next_def exec_ident_def)

lemma exec_next_arrival: "xm_status x = ParallelWaitingForBranches \<Longrightarrow> exec_next x (count_arrival now x x)"
  by (simp add: exec_next_def exec_ident_def count_arrival_def Let_def)

lemma live_not_terminal_branch: "live_branch b \<longleftrightarrow> \<not> parallelBranchTerminal (bm_status b)"
  by (cases "bm_status b") (simp_all add: live_branch_def parallelBranchTerminal_def)

end
