(* ===== verification/System.thy ===== *)
theory System
  imports Evolution
begin

text \<open>
  Every repository operation against the row relations of \<open>Evolution\<close>: the
  instance, branch and execution tables only ever change as those allow. The cascade
  of a branch failure is the interesting case.
\<close>

section \<open>Tables evolve\<close>

text \<open>The old rows evolve by \<open>R\<close>, new rows satisfying \<open>N\<close> follow them.\<close>

definition rows_next :: "('r \<Rightarrow> 'r \<Rightarrow> bool) \<Rightarrow> ('r \<Rightarrow> bool) \<Rightarrow> 'r list \<Rightarrow> 'r list \<Rightarrow> bool" where
  "rows_next R N t t' \<longleftrightarrow> (\<exists>u new. t' = u @ new \<and> list_all2 R t u \<and> list_all N new)"

lemma rows_next_same: "list_all2 R t t' \<Longrightarrow> rows_next R N t t'"
  unfolding rows_next_def by (intro exI [of _ t'] exI [of _ "[]"]) simp

lemma rows_next_append: "list_all2 R t u \<Longrightarrow> list_all N new \<Longrightarrow> rows_next R N t (u @ new)"
  unfolding rows_next_def by blast

lemma rows_next_mem:
  assumes "rows_next R N t t'" "r \<in> set t"
  shows "\<exists>r' \<in> set t'. R r r'"
proof -
  from assms(1) obtain u new where u: "t' = u @ new" "list_all2 R t u" by (auto simp: rows_next_def)
  from assms(2) obtain i where i: "i < length t" "r = t ! i" by (auto simp: in_set_conv_nth)
  with u(2) have "R r (u ! i)" "i < length u" by (auto simp: list_all2_conv_all_nth)
  with u(1) show ?thesis by (auto intro!: bexI [of _ "u ! i"])
qed

definition evolves :: "db \<Rightarrow> db \<Rightarrow> bool" where
  "evolves d d' \<longleftrightarrow>
     rows_next inst_next inst_ok (instances d) (instances d') \<and>
     rows_next branch_next branch_ok (branches d) (branches d') \<and>
     rows_next exec_next (\<lambda>_. True) (executions d) (executions d')"

lemma evolvesI:
  "list_all2 inst_next (instances d) (instances d') \<Longrightarrow> list_all2 branch_next (branches d) (branches d') \<Longrightarrow>
   list_all2 exec_next (executions d) (executions d') \<Longrightarrow> evolves d d'"
  by (simp add: evolves_def rows_next_same)

lemma same_rows [simp]:
  "list_all2 inst_next t t" "list_all2 branch_next u u" "list_all2 branch_end u u"
  "list_all2 exec_next v v" "list_all2 exec_end v v"
  by (simp_all add: list_all2_same)

lemma evolves_refl [simp]: "evolves d d"
  by (simp add: evolvesI)

lemma evolves_core: "core d' = core e \<Longrightarrow> evolves d e \<Longrightarrow> evolves d d'"
  using core_eqD [of d' e] by (simp add: evolves_def)

lemma evolves_instances:
  "(\<And>m. m \<in> set (instances d) \<Longrightarrow> p m \<Longrightarrow> inst_next m (f m)) \<Longrightarrow> evolves d (update_instances p f d)"
  by (intro evolvesI) (simp_all add: list_all2_update_where)

lemma evolves_branches:
  "(\<And>b. b \<in> set (branches d) \<Longrightarrow> p b \<Longrightarrow> branch_next b (f b)) \<Longrightarrow> evolves d (update_branches p f d)"
  by (intro evolvesI) (simp_all add: list_all2_update_where)

lemma evolves_nodes [simp]: "evolves d (update_nodes p f d)"
  by (intro evolvesI) simp_all

text \<open>Rows found by key.\<close>

definition distinct_ids :: "db \<Rightarrow> bool" where
  "distinct_ids d \<longleftrightarrow> distinct (map wm_id (instances d)) \<and> distinct (map xm_id (executions d)) \<and>
     distinct (map bm_id (branches d))"

lemma found_instance:
  "find_instance i d = Some m \<Longrightarrow> distinct_ids d \<Longrightarrow> r \<in> set (instances d) \<Longrightarrow> wm_id r = i \<Longrightarrow> r = m"
  by (simp add: distinct_ids_def by_key_mem)

lemma found_branch:
  "find_branch i d = Some b \<Longrightarrow> distinct_ids d \<Longrightarrow> r \<in> set (branches d) \<Longrightarrow> bm_id r = i \<Longrightarrow> r = b"
  by (simp add: distinct_ids_def by_key_mem)

lemma found_execution:
  "find_execution i d = Some x \<Longrightarrow> distinct_ids d \<Longrightarrow> r \<in> set (executions d) \<Longrightarrow> xm_id r = i \<Longrightarrow> r = x"
  by (simp add: distinct_ids_def by_key_mem)

section \<open>The failure cascade\<close>

definition ends :: "db \<Rightarrow> db \<Rightarrow> bool" where
  "ends d d' \<longleftrightarrow> instances d' = instances d \<and> list_all2 branch_end (branches d) (branches d') \<and>
     list_all2 exec_end (executions d) (executions d')"

lemma ends_refl [simp]: "ends d d"
  by (simp add: ends_def)

lemma ends_trans: "ends d e \<Longrightarrow> ends e f \<Longrightarrow> ends d f"
  unfolding ends_def
  using list_all2_trans [of branch_end branch_end branch_end] list_all2_trans [of exec_end exec_end exec_end]
    branch_end_trans exec_end_trans by metis

lemma list_all2_map_eq: "list_all2 R t u \<Longrightarrow> (\<And>a b. R a b \<Longrightarrow> k b = k a) \<Longrightarrow> map k u = map k t"
  by (induction rule: list_all2_induct) auto

lemma ends_distinct: "ends d d' \<Longrightarrow> distinct_ids d \<Longrightarrow> distinct_ids d'"
  unfolding ends_def distinct_ids_def
  using list_all2_map_eq [of branch_end "branches d" "branches d'" bm_id]
    list_all2_map_eq [of exec_end "executions d" "executions d'" xm_id]
  by (auto simp: branch_end_def branch_ident_def exec_end_def exec_ident_def)

lemma ends_evolves: "ends d d' \<Longrightarrow> evolves d d'"
  unfolding ends_def
  by (auto intro!: evolvesI elim: list_all2_mono branch_end_next exec_end_next)

lemma ends_cancel_level: "ends d (cancel_level now ids d)"
  by (auto simp: ends_def cancel_level_def intro!: list_all2_update_where branch_end_cancel)

lemma ends_cancel_nested:
  assumes "distinct_ids d"
  shows "ends d (cancel_nested now (nested_live bs d) d)"
proof -
  have "exec_end x (cancel_execution now x)" if "x \<in> set (executions d)" "xm_id x \<in> set (nested_live bs d)" for x
  proof -
    from that(2) obtain y where "y \<in> set (executions d)" "live_execution y" "xm_id y = xm_id x"
      by (auto simp: nested_live_def)
    moreover from this that(1) assms have "y = x"
      by (metis by_key_mem distinct_ids_def option.inject)
    ultimately show ?thesis by (simp add: exec_end_cancel)
  qed
  then show ?thesis by (simp add: ends_def cancel_nested_def list_all2_update_where)
qed

lemma ends_cancel_subtree: "distinct_ids d \<Longrightarrow> ends d (cancelExecutionSubtreeTx now ids d)"
proof (induction now ids d rule: cancelExecutionSubtreeTx.induct)
  case (1 now ids d)
  define d1 where "d1 = cancel_level now ids d"
  define ids' where "ids' = nested_live (branch_ids_of ids d) d1"
  have e1: "ends d d1" by (simp add: d1_def ends_cancel_level)
  have dist: "distinct_ids d1" using e1 1(2) by (rule ends_distinct)
  show ?case
  proof (cases "ids' = []")
    case True
    then show ?thesis using e1
      by (subst cancelExecutionSubtreeTx.simps) (simp add: Let_def d1_def [symmetric] ids'_def [symmetric])
  next
    case False
    have e2: "ends d1 (cancel_nested now ids' d1)" unfolding ids'_def using dist by (rule ends_cancel_nested)
    have "ends (cancel_nested now ids' d1) (cancelExecutionSubtreeTx now ids' (cancel_nested now ids' d1))"
      by (rule "1.IH" [OF d1_def ids'_def False]) (rule ends_distinct [OF e2 dist])
    with e1 e2 have "ends d (cancelExecutionSubtreeTx now ids' (cancel_nested now ids' d1))"
      by (blast intro: ends_trans)
    with False show ?thesis
      by (subst cancelExecutionSubtreeTx.simps) (simp add: Let_def d1_def [symmetric] ids'_def [symmetric])
  qed
qed

lemma ends_fail_branch:
  assumes "find_branch i d = Some b" "live_branch b" "distinct_ids d"
  shows "ends d (fail_branch now msg i d)"
proof -
  have "branch_end r (fail_branch_row now msg r)" if "r \<in> set (branches d)" "bm_id r = i" for r
    using found_branch [OF assms(1, 3) that] assms(2) by (simp add: branch_end_fail)
  then show ?thesis by (simp add: ends_def fail_branch_def list_all2_update_where)
qed

lemma ends_fail_tree:
  assumes "find_execution i d = Some x" "live_execution x" "distinct_ids d"
  shows "ends d (fail_execution_tree now i d)"
proof -
  have "exec_end r (fail_execution_row now r)" if "r \<in> set (executions d)" "xm_id r = i" for r
    using found_execution [OF assms(1, 3) that] assms(2) by (simp add: exec_end_fail)
  then have e: "ends d (update_executions (\<lambda>x. xm_id x = i) (fail_execution_row now) d)"
    by (simp add: ends_def list_all2_update_where)
  with assms(3) show ?thesis
    unfolding fail_execution_tree_def by (blast intro: ends_trans ends_cancel_subtree ends_distinct)
qed

lemma ends_climb: "distinct_ids d \<Longrightarrow> climb_failure now msg ex d = (tp, d') \<Longrightarrow> ends d d'"
proof (induction now msg ex d rule: climb_failure.induct)
  case (1 now msg ex d)
  show ?case
  proof (cases "xm_parent_branch ex")
    case None
    with 1(3) show ?thesis by (simp add: climb_failure.simps [of now msg ex])
  next
    case (Some o')
    show ?thesis
    proof (cases "find_branch o' d")
      case None
      with Some 1(3) show ?thesis by (simp add: climb_failure.simps [of now msg ex])
    next
      case own: (Some owner)
      show ?thesis
      proof (cases "parallelBranchTerminal (bm_status owner)")
        case True
        with Some own 1(3) show ?thesis by (simp add: climb_failure.simps [of now msg ex])
      next
        case live: False
        define d1 where "d1 = fail_branch now msg (bm_id owner) d"
        have "bm_id owner = o'" using by_key_SomeD [OF own] by simp
        then have e1: "ends d d1" unfolding d1_def
          using own live 1(2) by (intro ends_fail_branch) (auto simp: live_not_terminal_branch)
        have dist: "distinct_ids d1" using e1 1(2) by (rule ends_distinct)
        show ?thesis
        proof (cases "find_execution (bm_execution owner) d1")
          case None
          with Some own live 1(3) e1 show ?thesis
            by (simp add: climb_failure.simps [of now msg ex] Let_def d1_def [symmetric])
        next
          case pex: (Some parentEx)
          show ?thesis
          proof (cases "parallelExecutionTerminal (xm_status parentEx)")
            case True
            with Some own live pex 1(3) e1 show ?thesis
              by (simp add: climb_failure.simps [of now msg ex] Let_def d1_def [symmetric])
          next
            case False
            have "xm_id parentEx = bm_execution owner" using by_key_SomeD [OF pex] by simp
            then have e2: "ends d1 (fail_execution_tree now (xm_id parentEx) d1)"
              using pex False dist by (intro ends_fail_tree) (auto simp: live_not_terminal)
            have "climb_failure now msg parentEx (fail_execution_tree now (xm_id parentEx) d1) = (tp, d')"
              using Some own live pex False 1(3)
              by (simp add: climb_failure.simps [of now msg ex] Let_def d1_def [symmetric])
            from "1.IH" [OF Some own live d1_def pex False ends_distinct [OF e2 dist] this] e1 e2
            show ?thesis by (blast intro: ends_trans)
          qed
        qed
      qed
    qed
  qed
qed

section \<open>Quiet operations\<close>

text \<open>No branch arrives and no execution is created: counts and arrivals stay.\<close>

definition branch_quiet :: "ParallelBranchModel \<Rightarrow> ParallelBranchModel \<Rightarrow> bool" where
  "branch_quiet b b' \<longleftrightarrow> branch_next b b' \<and>
     (branch_ok b \<longrightarrow> (bm_status b' = BranchCompleted \<longleftrightarrow> bm_status b = BranchCompleted))"

definition exec_quiet :: "ParallelExecutionModel \<Rightarrow> ParallelExecutionModel \<Rightarrow> bool" where
  "exec_quiet x x' \<longleftrightarrow> exec_next x x' \<and> xm_completed_count x' = xm_completed_count x \<and>
     (xm_status x' = xm_status x \<or> \<not> live_execution x')"

lemma quiet_refl [simp]: "branch_quiet b b" "exec_quiet x x"
  by (simp_all add: branch_quiet_def exec_quiet_def)

lemma branch_end_quiet: "branch_end b b' \<Longrightarrow> branch_quiet b b'"
  unfolding branch_quiet_def
  using branch_end_next [of b b'] by (auto simp: branch_end_def live_branch_def)

lemma exec_end_quiet: "exec_end x x' \<Longrightarrow> exec_quiet x x'"
  unfolding exec_quiet_def
  using exec_end_next [of x x'] by (auto simp: exec_end_def live_execution_def)

definition quiet :: "db \<Rightarrow> db \<Rightarrow> bool" where
  "quiet d d' \<longleftrightarrow> rows_next inst_next inst_ok (instances d) (instances d') \<and>
     (distinct (map wm_id (instances d)) \<longrightarrow> distinct (map wm_id (instances d'))) \<and>
     list_all2 branch_quiet (branches d) (branches d') \<and> list_all2 exec_quiet (executions d) (executions d')"

lemma inst_next_ids: "list_all2 inst_next t u \<Longrightarrow> map wm_id u = map wm_id t"
  by (erule list_all2_map_eq) (simp add: inst_next_def)

lemma quietI:
  "list_all2 inst_next (instances d) (instances d') \<Longrightarrow> list_all2 branch_quiet (branches d) (branches d') \<Longrightarrow>
   list_all2 exec_quiet (executions d) (executions d') \<Longrightarrow> quiet d d'"
  by (simp add: quiet_def rows_next_same inst_next_ids)

lemma quiet_rows [simp]: "list_all2 branch_quiet u u" "list_all2 exec_quiet v v"
  by (simp_all add: list_all2_same)

lemma quiet_evolves: "quiet d d' \<Longrightarrow> evolves d d'"
  unfolding quiet_def evolves_def
  by (auto intro!: rows_next_same elim!: list_all2_mono simp: branch_quiet_def exec_quiet_def)

lemma quiet_core: "core d' = core e \<Longrightarrow> quiet d e \<Longrightarrow> quiet d d'"
  using core_eqD [of d' e] by (simp add: quiet_def)

lemma quiet_same: "core d' = core d \<Longrightarrow> quiet d d'"
  by (rule quiet_core [of d' d d]) (simp_all add: quietI)

lemma quiet_refl_db [simp]: "quiet d d"
  by (simp add: quiet_same)

lemma quiet_instances:
  "(\<And>m. m \<in> set (instances d) \<Longrightarrow> p m \<Longrightarrow> inst_next m (f m)) \<Longrightarrow> quiet d (update_instances p f d)"
  by (intro quietI) (simp_all add: list_all2_update_where)

lemma quiet_branches:
  "(\<And>b. b \<in> set (branches d) \<Longrightarrow> p b \<Longrightarrow> branch_quiet b (f b)) \<Longrightarrow> quiet d (update_branches p f d)"
  by (intro quietI) (simp_all add: list_all2_update_where)

lemma quiet_executions:
  "(\<And>x. x \<in> set (executions d) \<Longrightarrow> p x \<Longrightarrow> exec_quiet x (f x)) \<Longrightarrow> quiet d (update_executions p f d)"
  by (intro quietI) (simp_all add: list_all2_update_where)

lemma ends_quiet: "ends d d' \<Longrightarrow> quiet d d'"
  unfolding ends_def by (auto intro!: quietI elim!: list_all2_mono branch_end_quiet exec_end_quiet)

subsection \<open>Rows of branches\<close>

lemma branch_quiet_claim: "claimable_branch dbnow b \<Longrightarrow> branch_quiet b (claim_branch_row now w lease b)"
  using branch_next_claim [of dbnow b]
  by (auto simp: branch_quiet_def claimable_branch_def claim_branch_row_def)

lemma branch_quiet_checkpoint:
  "bm_status b = BranchRunning \<Longrightarrow> bc_status c \<in> {BranchWaiting, BranchCancelled} \<Longrightarrow> branch_quiet b (branch_row dbnow c b)"
  using branch_next_checkpoint [of b c]
  by (auto simp: branch_quiet_def branch_fence_def branch_ok_def branch_row_def)

lemma branch_quiet_renew: "bm_status b = BranchRunning \<Longrightarrow> branch_quiet b (b\<lparr>bm_lease_expiry := Some e\<rparr>)"
  by (simp add: branch_quiet_def branch_next_renew)

lemma branch_quiet_wake: "branch_quiet b (b\<lparr>bm_reason := r, bm_updated_at := now\<rparr>)"
  by (simp add: branch_quiet_def branch_next_wake)

lemma branch_quiet_deliver:
  "branch_quiet b (b\<lparr>bm_frame := fr, bm_context := c, bm_reason := r, bm_updated_at := now\<rparr>)"
  by (simp add: branch_quiet_def branch_next_deliver)

section \<open>Instance operations\<close>

lemma quiet_then_insert:
  assumes "quiet d e" "Insert w e = Inr f" "inst_ok w"
  shows "quiet d f"
proof -
  from assms(2) have f: "f = e\<lparr>instances := instances e @ [WorkflowInstanceToModel w]\<rparr>"
    and new: "wm_id (WorkflowInstanceToModel w) \<notin> wm_id ` set (instances e)"
    by (auto simp: Insert_def bindR_Inr_iff create_Inr_iff)
  have "inst_ok (WorkflowInstanceToModel w)"
    using assms(3) by (simp add: inst_ok_def WorkflowInstanceToModel_def)
  then have "rows_next inst_next inst_ok (instances d) (instances e @ [WorkflowInstanceToModel w])"
    if "rows_next inst_next inst_ok (instances d) (instances e)"
    using that by (force simp: rows_next_def)
  with assms(1) new show ?thesis unfolding f quiet_def by auto
qed

lemma Insert_quiet: "Insert w d = Inr d' \<Longrightarrow> inst_ok w \<Longrightarrow> quiet d d'"
  by (rule quiet_then_insert [of d d]) simp_all

lemma ReplaceContext_quiet: "ReplaceContext rt now u d = Inr (m, d') \<Longrightarrow> quiet d d'"
  by (auto simp: ReplaceContext_def Let_def bindR_Inr_iff split: if_split_asm
      dest!: core_append_event elim!: quiet_core intro!: quiet_instances inst_next_context)

lemma ClaimNext_quiet:
  assumes "distinct_ids d"
  shows "quiet d (snd (ClaimNext locked dbnow now w lease limit d))"
proof -
  have "inst_next m (claim_row now w lease m)"
    if "m \<in> set (instances d)" "wm_id m \<in> wm_id ` set (claim_rows locked dbnow limit d)" for m
  proof -
    from that(2) obtain r where r: "r \<in> set (claim_rows locked dbnow limit d)" "wm_id r = wm_id m" by auto
    then have "r \<in> set (instances d)" "claimable dbnow r"
      by (auto simp: claim_rows_def dest!: in_set_takeD)
    with r(2) that(1) assms have "r = m" by (metis by_key_mem distinct_ids_def option.inject)
    with \<open>claimable dbnow r\<close> show ?thesis by (simp add: inst_next_claim)
  qed
  then show ?thesis by (simp add: ClaimNext_def Let_def quiet_instances)
qed

lemma Checkpoint_core:
  assumes "execInstanceCheckpointTx rt dbnow now c d = Inr d'"
  shows "core d' = core (update_instances (instance_fence (cp_instance c) (cp_revision c) (cp_worker c))
      (checkpoint_row dbnow c) d)"
    and "count_where (instance_fence (cp_instance c) (cp_revision c) (cp_worker c)) (instances d) = 1"
  using assms
  by (auto simp: execInstanceCheckpointTx_def Let_def bindR_Inr_iff split: if_split_asm
      dest!: core_enqueue core_appendHistory)

lemma Checkpoint_quiet:
  assumes "CheckpointOp rt dbnow now c d = Inr d'" "checkpoint_fence c d"
    "CanWorkflowTransition WorkflowRunning (cp_status c)"
  shows "quiet d d'"
proof (rule quiet_core [OF Checkpoint_core(1)])
  show "execInstanceCheckpointTx rt dbnow now c d = Inr d'" using assms(1) by (simp add: CheckpointOp_def)
  show "quiet d (update_instances (instance_fence (cp_instance c) (cp_revision c) (cp_worker c)) (checkpoint_row dbnow c) d)"
    using assms(2, 3) by (auto simp: running_fence_def intro!: quiet_instances inst_next_checkpoint)
qed

lemma RenewLease_quiet: "RenewLease dbnow i w lease d = Inr d' \<Longrightarrow> quiet d d'"
  by (auto simp: RenewLease_def Let_def split: if_split_asm intro!: quiet_instances inst_next_renew)

lemma RenewLeases_quiet: "quiet d (RenewLeases dbnow w lease d)"
  by (auto simp: RenewLeases_def intro!: quiet_instances inst_next_renew)

lemma ReleaseLease_quiet: "quiet d (ReleaseLease now i w d)"
  by (auto simp: ReleaseLease_def intro!: quiet_instances inst_next_release)

lemma ResolveTermination_quiet: "quiet d (ResolveTermination now i d)"
  by (auto simp: ResolveTermination_def intro!: quiet_instances inst_next_clear)

lemma SweepTermination_quiet: "quiet d (SweepTermination dbnow d)"
  by (auto simp: SweepTermination_def intro!: quiet_instances inst_next_clear)

lemma core_bind_enqueue:
  "bindR (enqueueStatusUpdateTx rt i df rv frm to evs err ctx at e) (\<lambda>s. Inr (x, s)) = Inr (y, d') \<Longrightarrow>
   core d' = core e \<and> y = x"
  by (auto simp: bindR_Inr_iff dest: core_enqueue)

lemma Pause_quiet:
  assumes "Pause rt now i d = Inr (b, d')" "distinct_ids d"
  shows "quiet d d'"
proof -
  from assms(1) obtain m where m: "find_instance i d = Some m" by (auto simp: Pause_def split: option.split_asm)
  have st: "wm_status r = wm_status m" if "r \<in> set (instances d)" "wm_id r = i" for r
    using found_instance [OF m assms(2) that] by simp
  show ?thesis
  proof (cases "wm_status m")
    case WorkflowWaiting
    with assms(1) m have "core d' = core (update_instances (\<lambda>r. wm_id r = i) (set_status now WorkflowPaused) d)"
      by (auto simp: Pause_def Let_def dest!: core_bind_enqueue)
    then show ?thesis
      by (rule quiet_core) (use st WorkflowWaiting in \<open>auto intro!: quiet_instances inst_next_set_status\<close>)
  next
    case WorkflowRunning
    with assms(1) m show ?thesis
      by (auto simp: Pause_def intro!: quiet_instances inst_next_pause_requested)
  qed (use assms(1) m in \<open>auto simp: Pause_def intro!: quiet_same\<close>)
qed

lemma Resume_quiet:
  assumes "Resume rt now i d = Inr d'" "distinct_ids d"
  shows "quiet d d'"
proof -
  from assms(1) obtain m where m: "find_instance i d = Some m" by (auto simp: Resume_def split: option.split_asm)
  have st: "wm_status r = wm_status m" if "r \<in> set (instances d)" "wm_id r = i" for r
    using found_instance [OF m assms(2) that] by simp
  show ?thesis
  proof (cases "wm_status m")
    case WorkflowPaused
    with assms(1) m have "core d' = core (update_instances (\<lambda>r. wm_id r = i) (set_status now WorkflowWaiting) d)"
      by (auto simp: Resume_def Let_def dest!: core_enqueue)
    then show ?thesis
      by (rule quiet_core) (use st WorkflowPaused in \<open>auto intro!: quiet_instances inst_next_set_status\<close>)
  next
    case WorkflowRunning
    with assms(1) m show ?thesis
      by (auto simp: Resume_def intro!: quiet_instances inst_next_pause_requested)
  qed (use assms(1) m in \<open>auto simp: Resume_def intro!: quiet_same\<close>)
qed

text \<open>Cancelling the parallel rows after the instance row was stopped.\<close>

lemma cancel_parallel_tables:
  "branches (cancel_parallel clr now i e) = update_where (\<lambda>b. bm_instance b = i \<and> live_branch b)
     (\<lambda>b. if clr then (cancel_branch now b)\<lparr>bm_run_at := None\<rparr> else cancel_branch now b) (branches e)"
  "executions (cancel_parallel clr now i e) =
     update_where (\<lambda>x. xm_instance x = i \<and> live_execution x) (cancel_execution now) (executions e)"
  "instances (cancel_parallel clr now i e) =
     (if running_branches i e > 0
      then update_where (\<lambda>m. wm_id m = i) (\<lambda>m. m\<lparr>wm_termination_pending := True\<rparr>) (instances e)
      else instances e)"
  by (simp_all add: cancel_parallel_def Let_def)

lemma quiet_stopped_parallel:
  assumes stop: "e = update_instances p f d" "\<And>m. m \<in> set (instances d) \<Longrightarrow> p m \<Longrightarrow> inst_next m (f m)"
    and st: "\<And>m. m \<in> set (instances d) \<Longrightarrow> p m \<Longrightarrow> wm_status (f m) = WorkflowStopped"
    and flag: "\<And>m. m \<in> set (instances d) \<Longrightarrow> wm_id m = i \<Longrightarrow> p m"
  shows "quiet d (cancel_parallel clr now i e)"
proof (rule quietI)
  have "list_all2 inst_next t
      (update_where (\<lambda>m. wm_id m = i) (\<lambda>m. m\<lparr>wm_termination_pending := True\<rparr>) (update_where p f t))"
    if "set t \<subseteq> set (instances d)" for t
    using that
  proof (induction t)
    case (Cons m t)
    show ?case
    proof (cases "p m")
      case True
      with Cons.prems stop(2) [of m] st [of m] Cons.IH show ?thesis
        by (auto simp: tab_simps intro: inst_next_flag)
    next
      case False
      with Cons.prems flag [of m] Cons.IH show ?thesis by (auto simp: tab_simps)
    qed
  qed simp
  moreover have "list_all2 inst_next (instances d) (update_where p f (instances d))"
    using stop(2) by (simp add: list_all2_update_where)
  ultimately show "list_all2 inst_next (instances d) (instances (cancel_parallel clr now i e))"
    unfolding cancel_parallel_tables stop(1) by simp
  show "list_all2 branch_quiet (branches d) (branches (cancel_parallel clr now i e))"
    unfolding cancel_parallel_tables stop(1) tables_updates
    by (rule list_all2_update_where) (auto intro!: branch_end_quiet branch_end_cancel)
  show "list_all2 exec_quiet (executions d) (executions (cancel_parallel clr now i e))"
    unfolding cancel_parallel_tables stop(1) tables_updates
    by (rule list_all2_update_where) (auto intro!: exec_end_quiet exec_end_cancel)
qed

lemma Stop_quiet:
  assumes "Stop rt now i reason d = Inr (b, d')" "distinct_ids d"
  shows "quiet d d'"
proof -
  from assms(1) obtain m where m: "find_instance i d = Some m" by (auto simp: Stop_def split: option.split_asm)
  have st: "wm_status r = wm_status m" if "r \<in> set (instances d)" "wm_id r = i" for r
    using found_instance [OF m assms(2) that] by simp
  show ?thesis
  proof (cases "wm_status m \<in> {WorkflowWaiting, WorkflowRunning, WorkflowPaused}")
    case True
    define e where "e = update_instances (\<lambda>r. wm_id r = i) (stop_row now reason (wm_status m = WorkflowRunning)) d"
    from True assms(1) m have "core d' = core (cancel_parallel True now i e)"
      by (auto simp: Stop_def Let_def e_def dest!: core_bind_enqueue)
    then show ?thesis
    proof (rule quiet_core)
      show "quiet d (cancel_parallel True now i e)"
      proof (rule quiet_stopped_parallel [OF e_def])
        fix r assume "r \<in> set (instances d)" "wm_id r = i"
        with st True show "inst_next r (stop_row now reason (wm_status m = WorkflowRunning) r)"
          by (intro inst_next_stop) simp
      qed (simp_all add: stop_row_def)
    qed
  next
    case False
    with assms(1) m show ?thesis by (auto simp: Stop_def split: if_split_asm)
  qed
qed

lemma Rollback_quiet:
  assumes "RollbackInstance rt now u d = Inr (m, d')"
  shows "quiet d d'"
proof -
  define p where "p = (\<lambda>m :: WorkflowInstanceModel. wm_id m = ru_instance u \<and> wm_status m \<in> {WorkflowPaused, WorkflowFailed} \<and>
    \<not> wm_termination_pending m)"
  from assms obtain e where e: "core d' = core e" "instances e = update_where p (rollback_row now u) (instances d)"
    "branches e = branches d" "executions e = executions d"
    by (auto simp: RollbackInstance_def Let_def bindR_Inr_iff p_def split: if_split_asm dest!: core_append_event)
  have "quiet d e"
    by (rule quietI) (auto simp: e(2-4) p_def intro!: list_all2_update_where inst_next_rollback)
  with e(1) show ?thesis by (rule quiet_core)
qed

lemma count_where_nonzero: "count_where p t \<noteq> 0 \<Longrightarrow> \<exists>r \<in> set t. p r"
  unfolding count_where_0_iff by blast

lemma Migrate_quiet:
  assumes "MigrateInstance rt now u d = Inr d'" "distinct_ids d" "inst_ok (mu_new u)"
  shows "quiet d d'"
proof -
  define e where "e = update_instances (migratable u) (migrate_row now u) d"
  define f where "f = update_nodes (\<lambda>n. nm_instance n = mu_source u \<and> nm_branch n = None \<and> nm_status n = NodeRunning)
    (stop_node now ''superseded by migrate'') (cancel_parallel False now (mu_source u) e)"
  from assms(1) have some: "count_where (migratable u) (instances d) \<noteq> 0"
    by (auto simp: MigrateInstance_def Let_def split: if_split_asm)
  from assms(1) obtain g where g: "Insert (mu_new u) f = Inr g" "core d' = core g"
    by (auto simp: MigrateInstance_def Let_def bindR_Inr_iff e_def [symmetric] f_def [symmetric]
        split: if_split_asm dest!: core_append_event)
  obtain m where "m \<in> set (instances d)" "migratable u m" using count_where_nonzero [OF some] by blast
  then have "migratable u r" if "r \<in> set (instances d)" "wm_id r = mu_source u" for r
    using by_key_mem [of wm_id "instances d" r "mu_source u"] by_key_mem [of wm_id "instances d" m "mu_source u"]
      that assms(2) by (simp add: distinct_ids_def migratable_def)
  then have q: "quiet d (cancel_parallel False now (mu_source u) e)"
    by (intro quiet_stopped_parallel [OF e_def inst_next_migrate]) (simp_all add: migrate_row_def)
  then have "quiet d f" by (simp add: f_def quiet_def)
  from quiet_then_insert [OF this g(1) assms(3)] show ?thesis by (rule quiet_core [OF g(2)])
qed

section \<open>Input deliveries\<close>

lemma insert_delivery_core: "insert_delivery r d = Inr (Some d1) \<Longrightarrow> core d1 = core d"
  by (auto simp: insert_delivery_def core_def split: if_split_asm)

lemma deliver_once_quiet:
  assumes "deliver_once c r lock body d = Inr (q, d')"
    and "\<And>l d1. lock d = Inr l \<Longrightarrow> core d1 = core d \<Longrightarrow> body l d1 = Inr d' \<Longrightarrow> quiet d d'"
  shows "quiet d d'"
  using assms(1)
  by (auto simp: deliver_once_def bindR_Inr_iff split: option.split_asm
      intro: assms(2) insert_delivery_core)

lemma quiet_from_core:
  "core e = core d \<Longrightarrow> quiet e d' \<Longrightarrow> quiet d d'"
  using core_eqD [of e d] by (simp add: quiet_def)

lemma deliver_body_quiet:
  assumes "deliver_body rt now c m d = Inr d'" "ic_status c \<in> {WorkflowWaiting, WorkflowPaused, WorkflowFinished}"
  shows "quiet d d'"
proof -
  define e where "e = update_instances (input_parked (ic_instance c)) (deliver_row now c)
    (update_nodes (\<lambda>n. nm_id n = ic_node_instance c \<and> nm_status n = NodeRunning) (finish_node now c) d)"
  from assms(1) have "core d' = core e"
    by (auto simp: deliver_body_def Let_def bindR_Inr_iff must_update_nodes_def must_update_instances_def e_def
        split: if_split_asm dest!: core_append_event core_enqueue core_appendHistory)
  moreover have "quiet d e"
    by (rule quietI) (use assms(2) in \<open>auto simp: e_def intro!: list_all2_update_where inst_next_deliver\<close>)
  ultimately show ?thesis by (rule quiet_core)
qed

lemma fail_body_quiet:
  assumes "fail_body rt now c m d = Inr d'"
  shows "quiet d d'"
proof -
  define e where "e = update_instances (input_parked (ic_instance c)) (fail_input_row now c)
    (update_nodes (\<lambda>n. nm_id n = ic_node_instance c \<and> nm_status n = NodeRunning) (fail_node now c) d)"
  from assms(1) have "core d' = core e"
    by (auto simp: fail_body_def Let_def bindR_Inr_iff must_update_nodes_def must_update_instances_def e_def
        split: if_split_asm dest!: core_append_event core_enqueue core_appendHistory)
  moreover have "quiet d e"
    by (rule quietI) (auto simp: e_def intro!: list_all2_update_where inst_next_fail_input)
  ultimately show ?thesis by (rule quiet_core)
qed

lemma branch_deliver_body_quiet:
  assumes "branch_deliver_body rt now c b d = Inr d'"
  shows "quiet d d'"
proof -
  from assms obtain e where "core d' = core e" "instances e = instances d" "executions e = executions d"
    "branches e = update_where (branch_input_parked (ic_branch c))
            (\<lambda>b. b\<lparr>bm_frame := Some (FrameJSON (ic_frame c)), bm_context := jsonCol (ic_context c) empty_obj,
                   bm_reason := ReasonRunnable, bm_updated_at := now\<rparr>) (branches d)"
    by (auto simp: branch_deliver_body_def bindR_Inr_iff must_update_nodes_def must_update_branches_def
        split: if_split_asm dest!: core_append_event)
  moreover from this have "quiet d e"
    by (intro quietI) (auto intro!: list_all2_update_where branch_quiet_deliver)
  ultimately show ?thesis by (blast intro: quiet_core)
qed

section \<open>Branch operations\<close>

lemma fail_parent_quiet:
  assumes "fail_parent rt dbnow now i msg e = Inr (b, d')" "ends d e"
  shows "quiet d d'"
proof -
  have q: "quiet d e" using assms(2) by (rule ends_quiet)
  have "quiet d (update_instances (parked_parent i) (fail_parent_row dbnow msg) e)"
    using assms(2) unfolding ends_def
    by (auto intro!: quietI list_all2_update_where inst_next_fail_parent
        elim!: list_all2_mono branch_end_quiet exec_end_quiet)
  moreover have "d' = e \<or> core d' = core (update_instances (parked_parent i) (fail_parent_row dbnow msg) e)"
    using assms(1) by (auto simp: fail_parent_def Let_def split: if_split_asm dest!: core_bind_enqueue)
  ultimately show ?thesis using q quiet_core by blast
qed

lemma cascade_quiet:
  assumes "failBranchCascadeTx rt dbnow now leaf msg d = Inr (b, d')" "distinct_ids d"
    and leaf: "find_branch (bm_id leaf) d = Some leaf" "live_branch leaf"
  shows "quiet d d'"
proof -
  define d1 where "d1 = fail_branch now msg (bm_id leaf) d"
  have e1: "ends d d1" unfolding d1_def using leaf assms(2) by (rule ends_fail_branch)
  have dist: "distinct_ids d1" using e1 assms(2) by (rule ends_distinct)
  from assms(1) obtain ex where ex: "find_execution (bm_execution leaf) d1 = Some ex"
    by (auto simp: failBranchCascadeTx_def Let_def d1_def split: option.split_asm)
  show ?thesis
  proof (cases "parallelExecutionTerminal (xm_status ex)")
    case True
    with assms(1) ex have "d' = d1" by (simp add: failBranchCascadeTx_def Let_def d1_def)
    with e1 show ?thesis by (simp add: ends_quiet)
  next
    case False
    have "xm_id ex = bm_execution leaf" using by_key_SomeD [OF ex] by simp
    then have e2: "ends d1 (fail_execution_tree now (xm_id ex) d1)"
      using ex False dist by (intro ends_fail_tree) (auto simp: live_not_terminal)
    obtain tp d2 where tp: "climb_failure now msg ex (fail_execution_tree now (xm_id ex) d1) = (tp, d2)"
      by (cases "climb_failure now msg ex (fail_execution_tree now (xm_id ex) d1)")
    have "ends (fail_execution_tree now (xm_id ex) d1) d2"
      using ends_distinct [OF e2 dist] tp by (rule ends_climb)
    with e1 e2 have "ends d d2" by (blast intro: ends_trans)
    moreover have "fail_parent rt dbnow now (xm_instance tp) (branch_failure_text (bm_name leaf) msg) d2 = Inr (b, d')"
      using assms(1) ex False tp by (simp add: failBranchCascadeTx_def Let_def d1_def)
    ultimately show ?thesis using fail_parent_quiet by blast
  qed
qed

lemma FailBranch_quiet:
  assumes "FailBranch rt dbnow now i w rv msg d = Inr (b, d')" "distinct_ids d"
  shows "quiet d d'"
proof -
  from assms(1) obtain leaf where leaf: "find_branch i d = Some leaf"
    by (auto simp: FailBranch_def split: option.split_asm)
  then have id: "bm_id leaf = i" using by_key_SomeD by fastforce
  from assms(1) leaf consider "d' = d"
    | "live_branch leaf" "failBranchCascadeTx rt dbnow now leaf msg d = Inr (b, d')"
    by (auto simp: FailBranch_def live_not_terminal_branch split: if_split_asm)
  then show ?thesis
    using cascade_quiet [of rt dbnow now leaf msg d b d'] assms(2) leaf id by cases auto
qed

lemma branch_fail_body_quiet:
  assumes "branch_fail_body rt dbnow now c b d = Inr d'" "distinct_ids d" "find_branch (bm_id b) d = Some b"
  shows "quiet d d'"
proof -
  define d1 where "d1 = update_nodes (\<lambda>n. nm_id n = ic_node_instance c \<and> nm_branch n = Some (ic_branch c) \<and>
            nm_status n = NodeRunning) (fail_node now c) d"
  from assms(1) obtain fp d2 where "failBranchCascadeTx rt dbnow now b (ic_error c) d1 = Inr (fp, d2)"
    and c: "core d' = core d2" and live: "live_branch b"
    by (auto simp: branch_fail_body_def bindR_Inr_iff must_update_nodes_def d1_def live_branch_def
        split: if_split_asm dest!: core_append_events)
  then have "quiet d1 d2"
    using assms(2, 3) by (intro cascade_quiet) (simp_all add: d1_def distinct_ids_def)
  then have "quiet d d2" by (simp add: quiet_def d1_def)
  with c show ?thesis by (rule quiet_core)
qed

lemma lock_branch_found: "lock_branch c d = Inr b \<Longrightarrow> find_branch (ic_branch c) d = Some b \<and> bm_id b = ic_branch c"
  by (auto simp: lock_branch_def GetBranch_def bindR_Inr_iff split: option.split_asm if_split_asm dest: by_key_SomeD)

lemma DeliverInput_quiet:
  assumes "DeliverInput rt dbnow now c d0 = Inr (q, d')" "distinct_ids d0"
    and "ic_status c \<in> {WorkflowWaiting, WorkflowPaused, WorkflowFinished}"
  shows "quiet d0 d'"
proof -
  define d where "d = snd (newRepoID rt d0)"
  have c: "core d = core d0" by (simp add: d_def)
  have dist: "distinct_ids e" if "core e = core d" for e
    using assms(2) c that core_eqD [of e d0] by (simp add: distinct_ids_def)
  from assms(1) obtain r where "reject_delivery c r d = Inr (q, d') \<or> failBranchInput rt dbnow now c r d = Inr (q, d') \<or>
      failInput rt now c r d = Inr (q, d') \<or> deliverBranchInput rt now c r d = Inr (q, d') \<or>
      deliverInstanceInput rt now c r d = Inr (q, d')"
    by (auto simp: DeliverInput_def Let_def d_def case_prod_beta split: if_split_asm)
  then have "quiet d d'"
  proof (elim disjE)
    assume "reject_delivery c r d = Inr (q, d')"
    then show ?thesis
      unfolding reject_delivery_def by (rule deliver_once_quiet) (auto intro: quiet_same)
  next
    assume "failBranchInput rt dbnow now c r d = Inr (q, d')"
    then show ?thesis
      unfolding failBranchInput_def
    proof (rule deliver_once_quiet)
      fix b d1 assume a: "lock_branch c d = Inr b" "core d1 = core d" "branch_fail_body rt dbnow now c b d1 = Inr d'"
      have "find_branch (bm_id b) d1 = Some b"
        using lock_branch_found [OF a(1)] core_eqD [OF a(2)] by simp
      from branch_fail_body_quiet [OF a(3) dist [OF a(2)] this] a(2) show "quiet d d'" by (blast intro: quiet_from_core)
    qed
  next
    assume "failInput rt now c r d = Inr (q, d')"
    then show ?thesis
      unfolding failInput_def by (rule deliver_once_quiet) (blast intro: quiet_from_core fail_body_quiet)
  next
    assume "deliverBranchInput rt now c r d = Inr (q, d')"
    then show ?thesis
      unfolding deliverBranchInput_def
      by (rule deliver_once_quiet) (blast intro: quiet_from_core branch_deliver_body_quiet)
  next
    assume "deliverInstanceInput rt now c r d = Inr (q, d')"
    then show ?thesis
      unfolding deliverInstanceInput_def
      by (rule deliver_once_quiet) (use assms(3) in \<open>blast intro: quiet_from_core deliver_body_quiet\<close>)
  qed
  with c show ?thesis by (rule quiet_from_core)
qed

lemma CheckpointBranch_quiet:
  assumes "CheckpointBranch dbnow c d = Inr d'" "branch_checkpoint_fence c d"
    "bc_status c \<in> {BranchWaiting, BranchCancelled}"
  shows "quiet d d'"
proof -
  from assms(1) have d': "d' = update_branches (branch_fence (bc_branch c) (bc_revision c) (bc_worker c)) (branch_row dbnow c) d"
    by (auto simp: CheckpointBranch_def Let_def split: if_split_asm)
  show ?thesis unfolding d'
    using assms(2, 3) by (intro quiet_branches branch_quiet_checkpoint) (auto simp: running_branch_fence_def)
qed

lemma RenewBranchLease_quiet: "RenewBranchLease dbnow i w lease d = Inr d' \<Longrightarrow> quiet d d'"
  by (auto simp: RenewBranchLease_def Let_def split: if_split_asm intro!: quiet_branches branch_quiet_renew)

lemma RenewBranchLeases_quiet: "quiet d (RenewBranchLeases dbnow w lease d)"
  by (auto simp: RenewBranchLeases_def intro!: quiet_branches branch_quiet_renew)

lemma WakePausedBranch_quiet: "WakePausedBranch dbnow i d = Inr d' \<Longrightarrow> quiet d d'"
  by (auto simp: WakePausedBranch_def Let_def split: if_split_asm intro!: quiet_branches branch_quiet_wake)

lemma ClaimNextBranches_quiet:
  assumes "distinct_ids d"
  shows "quiet d (snd (ClaimNextBranches locked dbnow now w lease limit d))"
proof -
  have "branch_quiet b (claim_branch_row now w lease b)"
    if "b \<in> set (branches d)" "bm_id b \<in> bm_id ` set (claim_branch_rows locked dbnow limit d)" for b
  proof -
    from that(2) obtain r where r: "r \<in> set (claim_branch_rows locked dbnow limit d)" "bm_id r = bm_id b" by auto
    then have "r \<in> set (branches d)" "claimable_branch dbnow r"
      by (auto simp: claim_branch_rows_def dest!: in_set_takeD)
    with r(2) that(1) assms have "r = b" by (metis by_key_mem distinct_ids_def option.inject)
    with \<open>claimable_branch dbnow r\<close> show ?thesis by (simp add: branch_quiet_claim)
  qed
  then show ?thesis by (simp add: ClaimNextBranches_def Let_def quiet_branches)
qed

lemma FailExecution_quiet:
  assumes "FailExecution now i d = Inr d'" "distinct_ids d"
  shows "quiet d d'"
proof -
  from assms(1) obtain ex where ex: "find_execution i d = Some ex" by (auto simp: FailExecution_def split: option.split_asm)
  have id: "xm_id ex = i" using by_key_SomeD [OF ex] by simp
  show ?thesis
  proof (cases "live_execution ex")
    case True
    have "exec_quiet r (fail_execution_row now r)" if "r \<in> set (executions d)" "xm_id r = i" for r
      using found_execution [OF ex assms(2) that] True by (simp add: exec_end_quiet exec_end_fail)
    moreover have "d' = update_executions (\<lambda>x. xm_id x = i) (fail_execution_row now) d"
      using assms(1) ex True id by (auto simp: FailExecution_def live_execution_def)
    ultimately show ?thesis by (simp add: quiet_executions)
  next
    case False
    with assms(1) ex show ?thesis by (simp add: FailExecution_def live_execution_def)
  qed
qed

text \<open>A join: the owner's commit, then the execution from ready to completed.\<close>

lemma join_ready_quiet:
  assumes "join_ready now i commit d = Inr d'" "distinct_ids d"
    and "\<And>e. commit d = Inr e \<Longrightarrow> quiet d e \<and> executions e = executions d"
  shows "quiet d d'"
proof -
  from assms(1) obtain ex e where ex: "find_execution i d = Some ex" "xm_status ex = ParallelReadyToJoin"
    and e: "commit d = Inr e" "d' = complete_execution now (xm_id ex) e"
    by (auto simp: join_ready_def bindR_Inr_iff split: option.split_asm if_split_asm)
  have id: "xm_id ex = i" using by_key_SomeD [OF ex(1)] by simp
  have q: "quiet d e" "executions e = executions d" using assms(3) [OF e(1)] by auto
  have "exec_quiet r (r\<lparr>xm_status := ParallelExecutionCompleted, xm_updated_at := now\<rparr>)"
    if "r \<in> set (executions d)" "xm_id r = i" for r
    using found_execution [OF ex(1) assms(2) that] ex(2) exec_next_complete [of r now]
    by (simp add: exec_quiet_def live_execution_def)
  then have "list_all2 exec_quiet (executions d) (executions d')"
    unfolding e(2) complete_execution_def tables_updates q(2) id by (simp add: list_all2_update_where)
  with q(1) show ?thesis by (simp add: quiet_def e(2) complete_execution_def)
qed

lemma JoinParallel_quiet:
  assumes "JoinParallel rt dbnow now j d = Inr d'" "distinct_ids d" "checkpoint_fence (jc_checkpoint j) d"
    "CanWorkflowTransition WorkflowRunning (cp_status (jc_checkpoint j))"
  shows "quiet d d'"
  using assms(1, 2) unfolding JoinParallel_def
proof (rule join_ready_quiet)
  fix e assume e: "execInstanceCheckpointTx rt dbnow now (jc_checkpoint j) d = Inr e"
  then have "quiet d e" using assms(3, 4) by (intro Checkpoint_quiet) (simp_all add: CheckpointOp_def)
  moreover have "executions e = executions d" using core_eqD(3) [OF Checkpoint_core(1) [OF e]] by simp
  ultimately show "quiet d e \<and> executions e = executions d" by blast
qed

lemma JoinBranchParallel_quiet:
  assumes "JoinBranchParallel dbnow now j d = Inr d'" "distinct_ids d" "branch_checkpoint_fence (jb_checkpoint j) d"
    "bc_status (jb_checkpoint j) \<in> {BranchWaiting, BranchCancelled}"
  shows "quiet d d'"
  using assms(1, 2) unfolding JoinBranchParallel_def
proof (rule join_ready_quiet)
  fix e assume e: "CheckpointBranch dbnow (jb_checkpoint j) d = Inr e"
  then have "quiet d e" using assms(3, 4) by (rule CheckpointBranch_quiet)
  moreover from e have "executions e = executions d"
    by (auto simp: CheckpointBranch_def Let_def split: if_split_asm)
  ultimately show "quiet d e \<and> executions e = executions d" by blast
qed

end
