(* ===== verification/Barrier.thy ===== *)
theory Barrier
  imports System
begin

text \<open>
  The join barrier: the invariant that ties the counters of an execution to its
  branches, kept by every repository operation, and the step relation of the whole
  repository with its reachable states.
\<close>

section \<open>The invariant\<close>

definition members :: "db \<Rightarrow> uid \<Rightarrow> nat" where
  "members d x = count_where (\<lambda>b. bm_execution b = x) (branches d)"

definition arrived :: "db \<Rightarrow> uid \<Rightarrow> nat" where
  "arrived d x = count_where (\<lambda>b. bm_execution b = x \<and> bm_status b = BranchCompleted) (branches d)"

definition barrier_row :: "db \<Rightarrow> ParallelExecutionModel \<Rightarrow> bool" where
  "barrier_row d x \<longleftrightarrow>
     xm_branch_count x = int (members d (xm_id x)) \<and> 0 < members d (xm_id x) \<and>
     (live_execution x \<longrightarrow> xm_completed_count x = int (arrived d (xm_id x))) \<and>
     (xm_status x = ParallelWaitingForBranches \<longrightarrow> xm_completed_count x < xm_branch_count x) \<and>
     (xm_status x = ParallelReadyToJoin \<longrightarrow> xm_completed_count x = xm_branch_count x)"

definition sys_inv :: "db \<Rightarrow> bool" where
  "sys_inv d \<longleftrightarrow> distinct_ids d \<and> list_all inst_ok (instances d) \<and> list_all branch_ok (branches d) \<and>
     list_all (barrier_row d) (executions d) \<and>
     bm_execution ` set (branches d) \<subseteq> xm_id ` set (executions d)"

text \<open>Both counts depend on the pairs of execution and arrival only.\<close>

definition marks :: "db \<Rightarrow> (uid \<times> bool) list" where
  "marks d = map (\<lambda>b. (bm_execution b, bm_status b = BranchCompleted)) (branches d)"

lemma counts_by_marks:
  "members d x = count_where (\<lambda>(e, c). e = x) (marks d)"
  "arrived d x = count_where (\<lambda>(e, c). e = x \<and> c) (marks d)"
  by (simp_all add: members_def arrived_def marks_def count_where_def filter_map comp_def)

lemma quiet_marks:
  assumes "quiet d d'" "list_all branch_ok (branches d)"
  shows "marks d' = marks d"
proof -
  have "list_all2 branch_quiet (branches d) (branches d')" using assms(1) by (simp add: quiet_def)
  then show ?thesis
    using assms(2) unfolding marks_def
    by (induction rule: list_all2_induct) (auto simp: branch_quiet_def branch_next_def branch_ident_def)
qed

lemma rows_next_list_all:
  assumes "rows_next R N t t'" "\<And>a b. R a b \<Longrightarrow> N a \<Longrightarrow> N b" "list_all N t"
  shows "list_all N t'"
proof -
  from assms(1) obtain u new where "t' = u @ new" "list_all2 R t u" "list_all N new" by (auto simp: rows_next_def)
  moreover from this(2) assms(3) have "list_all N u"
    by (induction rule: list_all2_induct) (auto intro: assms(2))
  ultimately show ?thesis by simp
qed

lemma evolves_ok:
  assumes "evolves d d'" "list_all inst_ok (instances d)" "list_all branch_ok (branches d)"
  shows "list_all inst_ok (instances d') \<and> list_all branch_ok (branches d')"
  using assms rows_next_list_all [of inst_next inst_ok] rows_next_list_all [of branch_next branch_ok]
  by (auto simp: evolves_def inst_next_def branch_next_def)

lemma barrier_row_quiet:
  assumes "exec_quiet x x'" "barrier_row d x" "marks d' = marks d"
  shows "barrier_row d' x'"
  using assms
  by (auto simp: barrier_row_def counts_by_marks exec_quiet_def exec_next_def exec_ident_def live_execution_def)

lemma quiet_distinct: "quiet d d' \<Longrightarrow> distinct_ids d \<Longrightarrow> distinct_ids d'"
  unfolding quiet_def distinct_ids_def
  using list_all2_map_eq [of branch_quiet "branches d" "branches d'" bm_id]
    list_all2_map_eq [of exec_quiet "executions d" "executions d'" xm_id]
  by (auto simp: branch_quiet_def branch_next_def branch_ident_def exec_quiet_def exec_next_def exec_ident_def)

lemma quiet_inv:
  assumes "quiet d d'" "sys_inv d"
  shows "sys_inv d'"
proof -
  have m: "marks d' = marks d" using assms by (simp add: quiet_marks sys_inv_def)
  have rows: "list_all2 exec_quiet (executions d) (executions d')" using assms(1) by (simp add: quiet_def)
  have "list_all (barrier_row d) (executions d)" using assms(2) by (simp add: sys_inv_def)
  with rows have "list_all (barrier_row d') (executions d')"
    by (induction rule: list_all2_induct) (auto intro: barrier_row_quiet [OF _ _ m])
  moreover have "map xm_id (executions d') = map xm_id (executions d)"
    using rows by (rule list_all2_map_eq) (simp add: exec_quiet_def exec_next_def exec_ident_def)
  then have "xm_id ` set (executions d') = xm_id ` set (executions d)" by (metis set_map)
  moreover have "bm_execution ` set (branches d') = bm_execution ` set (branches d)"
    using arg_cong [OF m, of "\<lambda>l. fst ` set l"] by (simp add: marks_def image_image)
  ultimately show ?thesis
    using assms(2) quiet_distinct [OF assms(1)] evolves_ok [OF quiet_evolves [OF assms(1)]]
    by (simp add: sys_inv_def)
qed


section \<open>Arrival of a branch\<close>

lemma count_where_update:
  assumes "distinct (map k t)" "r \<in> set t" "k r = i" "\<not> p r" "p (f r)" "\<And>a. k a \<noteq> i \<Longrightarrow> g a = a" "g r = f r"
  shows "count_where p (map g t) = Suc (count_where p t)"
  using assms
proof (induction t)
  case (Cons a t)
  show ?case
  proof (cases "k a = i")
    case True
    with Cons.prems have "a = r" by (auto simp: image_iff)
    moreover have "k b \<noteq> i" if "b \<in> set t" for b
    proof
      assume "k b = i"
      with that True have "k a \<in> k ` set t" by (metis imageI)
      with Cons.prems(1) show False by simp
    qed
    then have "map g t = t" using Cons.prems(6) by (simp add: map_idI)
    ultimately show ?thesis using Cons.prems by (simp add: count_where_def)
  next
    case False
    with Cons show ?thesis by (auto simp: count_where_def)
  qed
qed simp

lemma arrival_counts:
  assumes "distinct_ids d" "find_branch i d = Some b" "bm_status b \<noteq> BranchCompleted"
  shows "members (update_branches (\<lambda>r. bm_id r = i) (complete_row now c) d) x = members d x"
    and "arrived (update_branches (\<lambda>r. bm_id r = i) (complete_row now c) d) x =
      (if bm_execution b = x then Suc (arrived d x) else arrived d x)"
proof -
  have b: "b \<in> set (branches d)" "bm_id b = i" using by_key_SomeD [OF assms(2)] by auto
  have "count_where (\<lambda>b. bm_execution b = x) (update_where (\<lambda>r. bm_id r = i) (complete_row now c) t) =
    count_where (\<lambda>b. bm_execution b = x) t" for t
    by (induction t) (auto simp: tab_simps count_where_def complete_row_def)
  then show "members (update_branches (\<lambda>r. bm_id r = i) (complete_row now c) d) x = members d x"
    by (simp add: members_def)
  show "arrived (update_branches (\<lambda>r. bm_id r = i) (complete_row now c) d) x =
      (if bm_execution b = x then Suc (arrived d x) else arrived d x)"
  proof (cases "bm_execution b = x")
    case True
    then have "count_where (\<lambda>b. bm_execution b = x \<and> bm_status b = BranchCompleted)
        (map (\<lambda>r. if bm_id r = i then complete_row now c r else r) (branches d)) =
      Suc (count_where (\<lambda>b. bm_execution b = x \<and> bm_status b = BranchCompleted) (branches d))"
      using assms b by (intro count_where_update [where k = bm_id and r = b and f = "complete_row now c"])
        (auto simp: distinct_ids_def complete_row_def)
    with True show ?thesis by (simp add: arrived_def update_where_def)
  next
    case False
    have "count_where (\<lambda>b. bm_execution b = x \<and> bm_status b = BranchCompleted)
        (update_where (\<lambda>r. bm_id r = i) (complete_row now c) t) =
      count_where (\<lambda>b. bm_execution b = x \<and> bm_status b = BranchCompleted) t" if "set t \<subseteq> set (branches d)" for t
      using that
    proof (induction t)
      case (Cons r t)
      then show ?case
        using False found_branch [OF assms(2, 1), of r] by (auto simp: tab_simps count_where_def complete_row_def)
    qed simp
    with False show ?thesis by (simp add: arrived_def)
  qed
qed

text \<open>What a committed arrival does to the execution it belongs to.\<close>

lemma CompleteBranch_cases:
  assumes "CompleteBranch dbnow now c d = Inr (ready, d')"
  obtains b where "find_branch (bn_branch c) d = Some b" "bm_status b = BranchCompleted" "d' = d" "\<not> ready"
  | b ex where "find_branch (bn_branch c) d = Some b" "bm_leased_by b = bn_worker c" "bm_revision b = bn_revision c"
      "bm_status b = BranchRunning \<or> bm_status b = BranchWaiting"
      "find_execution (bm_execution b) d = Some ex" "xm_status ex \<noteq> ParallelWaitingForBranches"
      "d' = update_branches (\<lambda>r. bm_id r = bn_branch c) (complete_row now c) d" "\<not> ready"
  | b ex where "find_branch (bn_branch c) d = Some b" "bm_leased_by b = bn_worker c" "bm_revision b = bn_revision c"
      "bm_status b = BranchRunning \<or> bm_status b = BranchWaiting"
      "find_execution (bm_execution b) d = Some ex" "xm_status ex = ParallelWaitingForBranches"
      "ready = (xm_completed_count ex + 1 \<ge> xm_branch_count ex)"
      "d' = (let d2 = update_executions (\<lambda>x. xm_id x = xm_id ex) (count_arrival now ex)
                (update_branches (\<lambda>r. bm_id r = bn_branch c) (complete_row now c) d)
             in if ready then wake_owner dbnow ex d2 else d2)"
proof -
  from assms obtain b where b: "find_branch (bn_branch c) d = Some b"
    by (auto simp: CompleteBranch_def split: option.split_asm)
  show thesis
  proof (cases "bm_status b = BranchCompleted")
    case True
    with assms b show thesis by (intro that(1) [OF b]) (simp_all add: CompleteBranch_def)
  next
    case False
    with assms b have g: "bm_leased_by b = bn_worker c" "bm_revision b = bn_revision c"
      "bm_status b = BranchRunning \<or> bm_status b = BranchWaiting"
      by (auto simp: CompleteBranch_def split: if_split_asm)
    then have ng: "(bm_status b \<noteq> BranchRunning \<and> bm_status b \<noteq> BranchWaiting) = False" by auto
    from assms b False g ng obtain ex where ex: "find_execution (bm_execution b) d = Some ex"
      by (auto simp: CompleteBranch_def Let_def split: option.split_asm if_split_asm)
    show thesis
    proof (cases "xm_status ex = ParallelWaitingForBranches")
      case True
      with assms b False g ex show thesis
        by (intro that(3) [OF b g ex]) (auto simp: CompleteBranch_def Let_def ng)
    next
      case False
      with assms b \<open>bm_status b \<noteq> BranchCompleted\<close> g ex show thesis
        by (intro that(2) [OF b g ex]) (simp_all add: CompleteBranch_def Let_def ng)
    qed
  qed
qed


lemma wake_owner_quiet: "quiet d (wake_owner dbnow ex d)"
  by (auto simp: wake_owner_def split: option.split
      intro!: quiet_branches branch_quiet_wake quiet_instances inst_next_wake)

text \<open>The branch row alone: identities and leases stay well formed.\<close>

lemma arrival_branches:
  assumes "sys_inv d" "find_branch (bn_branch c) d = Some b" "bm_leased_by b = bn_worker c"
    and "bm_revision b = bn_revision c" "completion_fence c d"
  shows "list_all2 branch_next (branches d)
    (branches (update_branches (\<lambda>r. bm_id r = bn_branch c) (complete_row now c) d))"
proof -
  have "branch_next r (complete_row now c r)" if "r \<in> set (branches d)" "bm_id r = bn_branch c" for r
    using found_branch [OF assms(2) _ that] assms that
    by (auto simp: sys_inv_def running_branch_fence_def branch_fence_def intro!: branch_next_complete)
  then show ?thesis by (simp add: list_all2_update_where)
qed

lemma branch_next_inv:
  assumes "sys_inv d" "list_all2 branch_next (branches d) (branches e)"
    and "instances e = instances d" "executions e = executions d"
  shows "distinct_ids e \<and> list_all inst_ok (instances e) \<and> list_all branch_ok (branches e) \<and>
    bm_execution ` set (branches e) \<subseteq> xm_id ` set (executions e)"
proof -
  have ids: "map bm_id (branches e) = map bm_id (branches d)"
    using assms(2) by (rule list_all2_map_eq) (simp add: branch_next_def branch_ident_def)
  have "map bm_execution (branches e) = map bm_execution (branches d)"
    using assms(2) by (rule list_all2_map_eq) (simp add: branch_next_def branch_ident_def)
  then have "bm_execution ` set (branches e) = bm_execution ` set (branches d)" by (metis set_map)
  moreover have "list_all branch_ok (branches e)"
    using rows_next_list_all [OF rows_next_same [OF assms(2)], of branch_ok] assms(1)
    by (auto simp: branch_next_def sys_inv_def)
  ultimately show ?thesis
    using assms(1) ids by (simp add: sys_inv_def distinct_ids_def assms(3, 4))
qed

lemma arrived_le_members: "arrived d x \<le> members d x"
proof -
  have "count_where (\<lambda>r. bm_execution r = x \<and> bm_status r = BranchCompleted) t \<le> count_where (\<lambda>r. bm_execution r = x) t" for t
    by (induction t) (auto simp: count_where_def)
  then show ?thesis by (simp add: arrived_def members_def)
qed

lemma arrived_less_members:
  assumes "b \<in> set (branches d)" "bm_status b \<noteq> BranchCompleted"
  shows "arrived d (bm_execution b) < members d (bm_execution b)"
proof -
  have le: "count_where (\<lambda>r. bm_execution r = x \<and> bm_status r = BranchCompleted) t \<le> count_where (\<lambda>r. bm_execution r = x) t" for x t
    by (induction t) (auto simp: count_where_def)
  have "count_where (\<lambda>r. bm_execution r = bm_execution b \<and> bm_status r = BranchCompleted) t <
      count_where (\<lambda>r. bm_execution r = bm_execution b) t" if "b \<in> set t" for t
    using that
  proof (induction t)
    case (Cons r t)
    then show ?case using assms(2) le [of "bm_execution b" t] by (auto simp: count_where_def less_Suc_eq_le)
  qed simp
  with assms(1) show ?thesis by (simp add: arrived_def members_def)
qed

lemma CompleteBranch_inv:
  assumes "CompleteBranch dbnow now c d = Inr (ready, d')" "completion_fence c d" "sys_inv d"
  shows "sys_inv d'"
proof -
  define d1 where "d1 = update_branches (\<lambda>r. bm_id r = bn_branch c) (complete_row now c) d"
  have dist: "distinct_ids d" using assms(3) by (simp add: sys_inv_def)
  have rows: "barrier_row d x" if "x \<in> set (executions d)" for x
    using assms(3) that by (simp add: sys_inv_def list_all_iff)
  from assms(1) show ?thesis
  proof (cases rule: CompleteBranch_cases)
    case (1 b)
    with assms(3) show ?thesis by simp
  next
    case (2 b ex)
    have base: "distinct_ids d1 \<and> list_all inst_ok (instances d1) \<and> list_all branch_ok (branches d1) \<and>
        bm_execution ` set (branches d1) \<subseteq> xm_id ` set (executions d1)"
      using arrival_branches [OF assms(3) 2(1, 2, 3) assms(2)] assms(3) by (intro branch_next_inv [of d]) (simp_all add: d1_def)
    have nc: "bm_status b \<noteq> BranchCompleted" using 2(4) by auto
    have bmem: "b \<in> set (branches d)" and exmem: "ex \<in> set (executions d)" "xm_id ex = bm_execution b"
      using by_key_SomeD [OF 2(1)] by_key_SomeD [OF 2(5)] by auto
    have "\<not> live_execution ex"
      using rows [OF exmem(1)] arrived_less_members [OF bmem nc] 2(6) exmem(2)
      by (auto simp: barrier_row_def live_execution_def)
    then have "barrier_row d1 x" if "x \<in> set (executions d)" for x
      using rows [OF that] found_execution [OF 2(5) dist that] arrival_counts [OF dist 2(1) nc]
      by (auto simp: barrier_row_def d1_def live_execution_def)
    with base show ?thesis by (simp add: 2(7) d1_def [symmetric] sys_inv_def list_all_iff) (simp add: d1_def)
  next
    case (3 b ex)
    define d2 where "d2 = update_executions (\<lambda>x. xm_id x = xm_id ex) (count_arrival now ex) d1"
    have base: "distinct_ids d1 \<and> list_all inst_ok (instances d1) \<and> list_all branch_ok (branches d1) \<and>
        bm_execution ` set (branches d1) \<subseteq> xm_id ` set (executions d1)"
      using arrival_branches [OF assms(3) 3(1, 2, 3) assms(2)] assms(3) by (intro branch_next_inv [of d]) (simp_all add: d1_def)
    have nc: "bm_status b \<noteq> BranchCompleted" using 3(4) by auto
    have exmem: "ex \<in> set (executions d)" "xm_id ex = bm_execution b" using by_key_SomeD [OF 3(5)] by auto
    have counts: "members d2 x = members d x" "arrived d2 x = (if bm_execution b = x then Suc (arrived d x) else arrived d x)" for x
      using arrival_counts [OF dist 3(1) nc] by (simp_all add: d2_def d1_def members_def arrived_def)
    have ids: "map xm_id (executions d2) = map xm_id (executions d)"
      by (simp add: d2_def d1_def map_update_where_key count_arrival_def Let_def)
    have "barrier_row d2 y" if "y \<in> set (executions d2)" for y
    proof -
      from that obtain x where x: "x \<in> set (executions d)" "y = (if xm_id x = xm_id ex then count_arrival now ex x else x)"
        by (auto simp: d2_def d1_def set_update_where)
      show ?thesis
      proof (cases "xm_id x = xm_id ex")
        case True
        with found_execution [OF 3(5) dist x(1)] exmem(2) have "x = ex" by simp
        with True x(2) have "y = count_arrival now ex ex" by simp
        with rows [OF exmem(1)] 3(6) exmem(2) show ?thesis
          by (auto simp: barrier_row_def counts count_arrival_def Let_def live_execution_def)
      next
        case False
        with rows [OF x(1)] x(2) exmem(2) show ?thesis by (auto simp: barrier_row_def counts)
      qed
    qed
    moreover have "distinct_ids d2" using base ids by (simp add: distinct_ids_def d2_def d1_def)
    moreover have "xm_id ` set (executions d2) = xm_id ` set (executions d)" using ids by (metis set_map)
    ultimately have "sys_inv d2" using base by (simp add: sys_inv_def list_all_iff d2_def d1_def)
    moreover have "d' = (if ready then wake_owner dbnow ex d2 else d2)" using 3(8) by (simp add: d2_def d1_def Let_def)
    ultimately show ?thesis using quiet_inv [OF wake_owner_quiet] by auto
  qed
qed


text \<open>A named worker's fence can only match a running row.\<close>

lemma named_fences:
  assumes "sys_inv d" "w \<noteq> []"
  shows "running_fence i rv w d" "running_branch_fence i rv w d"
  using assms
  by (auto simp: sys_inv_def list_all_iff running_fence_def running_branch_fence_def instance_fence_def
      branch_fence_def inst_ok_def branch_ok_def split: if_splits)

lemma named_fork_fence: "sys_inv d \<Longrightarrow> fp_worker f \<noteq> [] \<Longrightarrow> fork_fence f d"
  by (simp add: fork_fence_def named_fences split: option.split)

section \<open>Fork\<close>

definition new_branch :: "uid \<Rightarrow> ParallelBranchModel \<Rightarrow> bool" where
  "new_branch x b \<longleftrightarrow> bm_execution b = x \<and> bm_status b \<in> {BranchPending, BranchWaiting} \<and> branch_ok b"

lemma fork_branches_rows:
  "fork_branches rt now x f bs d = (rows, d') \<Longrightarrow> core d' = core d \<and> length rows = length bs \<and> list_all (new_branch x) rows"
  by (induction bs arbitrary: d rows d')
    (auto simp: newRepoID_def core_def fork_branch_def new_branch_def branch_ok_def split: prod.split_asm)

lemma create_branches_tables:
  "create_branches rows d = Inr d' \<Longrightarrow> distinct (map bm_id (branches d)) \<Longrightarrow>
   d' = d\<lparr>branches := branches d @ map ParallelBranchToModel rows\<rparr> \<and>
   distinct (map bm_id (branches d @ map ParallelBranchToModel rows))"
proof (induction rows arbitrary: d)
  case (Cons b rows)
  define d1 where "d1 = d\<lparr>branches := branches d @ [ParallelBranchToModel b]\<rparr>"
  from Cons.prems have u: "bm_id (ParallelBranchToModel b) \<notin> bm_id ` set (branches d)"
    and r: "create_branches rows d1 = Inr d'"
    by (auto simp: bindR_Inr_iff create_unique_Inr_iff d1_def)
  have "distinct (map bm_id (branches d1))" using u Cons.prems(2) by (auto simp: d1_def)
  from Cons.IH [OF r this] have "d' = d1\<lparr>branches := branches d1 @ map ParallelBranchToModel rows\<rparr>"
    and dist: "distinct (map bm_id (branches d1 @ map ParallelBranchToModel rows))" by blast+
  then have "d' = d\<lparr>branches := branches d @ map ParallelBranchToModel (b # rows)\<rparr>" by (simp add: d1_def)
  moreover have "branches d1 @ map ParallelBranchToModel rows = branches d @ map ParallelBranchToModel (b # rows)"
    by (simp add: d1_def)
  ultimately show ?case using dist by metis
qed simp

lemma new_branch_ToModel: "new_branch x b \<Longrightarrow> new_branch x (ParallelBranchToModel b)"
  by (simp add: new_branch_def ParallelBranchToModel_def branch_ok_def)

lemma fork_park_quiet:
  assumes "fork_park dbnow f d = Inr d'" "fork_fence f d"
  shows "quiet d d'"
proof (cases "fp_parent_branch f")
  case (Some b)
  with assms show ?thesis
    by (auto simp: fork_park_def fork_branch_checkpoint_def fork_fence_def elim: CheckpointBranch_quiet)
next
  case None
  with assms show ?thesis
    by (auto simp: fork_park_def fork_fence_def running_fence_def Let_def split: if_split_asm
        intro!: quiet_instances inst_next_fork)
qed

lemma Fork_tables:
  assumes "Fork rt dbnow now f d = Inr ((ex, rows), d')" "distinct_ids d" "fork_fence f d"
  obtains e where "quiet d e" "xm_id ex \<notin> xm_id ` set (executions e)" "instances d' = instances e"
    "executions d' = executions e @ [ex]" "branches d' = branches e @ map ParallelBranchToModel rows"
    "distinct (map bm_id (branches d'))" "rows \<noteq> []" "list_all (new_branch (xm_id ex)) rows"
    "xm_branch_count ex = int (length rows)" "xm_completed_count ex = 0" "xm_status ex = ParallelWaitingForBranches"
    "xm_instance ex = fp_instance f" "xm_parent_branch ex = fp_parent_branch f"
proof -
  define x where "x = fst (newRepoID rt d)"
  define d1 where "d1 = snd (newRepoID rt d)"
  obtain rows' d2 where fb: "fork_branches rt now x f (fp_branches f) d1 = (rows', d2)"
    by (cases "fork_branches rt now x f (fp_branches f) d1")
  have c2: "core d2 = core d" "length rows' = length (fp_branches f)" "list_all (new_branch x) rows'"
    using fork_branches_rows [OF fb] by (auto simp: d1_def)
  from assms(1) obtain e xt d4 where e: "fork_park dbnow f d2 = Inr e"
    and xt: "create xm_id (fork_execution now x f) (executions e) = Inr xt" and ne: "rows' \<noteq> []"
    and d4: "create_branches rows' (e\<lparr>executions := xt\<rparr>) = Inr d4"
    and res: "core d' = core d4" "ex = fork_execution now x f" "rows = rows'"
    by (auto simp: Fork_def x_def [symmetric] d1_def [symmetric] fb case_prod_beta Let_def bindR_Inr_iff
        prod_eq_iff split: if_split_asm dest: core_enqueue simp flip: x_def d1_def)
  have "fork_fence f d2" using assms(3) core_eqD [OF c2(1)]
    by (simp add: fork_fence_def running_fence_def running_branch_fence_def split: option.splits)
  from fork_park_quiet [OF e this] c2(1) have q: "quiet d e" by (rule quiet_from_core [rotated])
  have "distinct (map bm_id (branches (e\<lparr>executions := xt\<rparr>)))"
    using quiet_distinct [OF q assms(2)] by (simp add: distinct_ids_def)
  from create_branches_tables [OF d4 this]
  have d4': "d4 = e\<lparr>executions := xt, branches := branches e @ map ParallelBranchToModel rows'\<rparr>"
    and dist: "distinct (map bm_id (branches e @ map ParallelBranchToModel rows'))" by simp_all
  have xt': "xt = executions e @ [ex]" "xm_id ex \<notin> xm_id ` set (executions e)"
    using xt res(2) by (auto simp: create_Inr_iff)
  have ex: "xm_id ex = x" "xm_branch_count ex = int (length (fp_branches f))" "xm_completed_count ex = 0"
    "xm_status ex = ParallelWaitingForBranches" "xm_instance ex = fp_instance f"
    "xm_parent_branch ex = fp_parent_branch f"
    using res(2) by (simp_all add: fork_execution_def)
  have tabs: "instances d' = instances e" "executions d' = executions e @ [ex]"
    "branches d' = branches e @ map ParallelBranchToModel rows"
    using core_eqD [OF res(1)] d4' xt'(1) res(3) by simp_all
  show thesis
    by (rule that [OF q xt'(2) tabs]) (use dist tabs(3) ne res(3) c2 ex in simp_all)
qed

lemma new_rows_counts:
  assumes "list_all (new_branch x) rows"
  shows "count_where (\<lambda>b. bm_execution b = y) (map ParallelBranchToModel rows) = (if y = x then length rows else 0)"
    and "count_where (\<lambda>b. bm_execution b = y \<and> bm_status b = BranchCompleted) (map ParallelBranchToModel rows) = 0"
  using assms
  by (induction rows) (auto simp: count_where_def new_branch_def ParallelBranchToModel_def filter_map comp_def)

lemma no_members: "bm_execution ` set (branches d) \<subseteq> X \<Longrightarrow> x \<notin> X \<Longrightarrow> members d x = 0"
  by (auto simp: members_def count_where_def filter_empty_conv)

lemma Fork_inv:
  assumes "Fork rt dbnow now f d = Inr ((ex, rows), d')" "fork_fence f d" "sys_inv d"
  shows "sys_inv d'"
proof -
  have dist: "distinct_ids d" using assms(3) by (simp add: sys_inv_def)
  from Fork_tables [OF assms(1) dist assms(2)] obtain e where q: "quiet d e"
    and fresh: "xm_id ex \<notin> xm_id ` set (executions e)"
    and tabs: "instances d' = instances e" "executions d' = executions e @ [ex]"
      "branches d' = branches e @ map ParallelBranchToModel rows"
    and ids: "distinct (map bm_id (branches d'))" and rows: "rows \<noteq> []" "list_all (new_branch (xm_id ex)) rows"
    and ex: "xm_branch_count ex = int (length rows)" "xm_completed_count ex = 0"
      "xm_status ex = ParallelWaitingForBranches" by metis
  have inv: "sys_inv e" using quiet_inv [OF q assms(3)] .
  have counts: "members d' y = members e y + (if y = xm_id ex then length rows else 0)" "arrived d' y = arrived e y" for y
    using new_rows_counts [OF rows(2), of y] unfolding count_where_def by (simp_all add: members_def arrived_def tabs count_where_def)
  have m0: "members e (xm_id ex) = 0" using inv fresh by (intro no_members) (auto simp: sys_inv_def)
  have "barrier_row d' ex"
    using m0 rows(1) ex counts arrived_le_members [of e "xm_id ex"] by (auto simp: barrier_row_def)
  moreover have "barrier_row d' x" if "x \<in> set (executions e)" for x
  proof -
    from that fresh have "xm_id x \<noteq> xm_id ex" by (metis imageI)
    moreover have "barrier_row e x" using that inv by (simp add: sys_inv_def list_all_iff)
    ultimately show ?thesis by (auto simp: barrier_row_def counts)
  qed
  moreover have "list_all branch_ok (map ParallelBranchToModel rows)"
    using rows(2) by (auto simp: list_all_iff new_branch_def branch_ok_def ParallelBranchToModel_def)
  moreover have "bm_execution ` set (branches d') \<subseteq> xm_id ` set (executions d')"
    using rows(2) inv by (auto simp: tabs sys_inv_def list_all_iff new_branch_def ParallelBranchToModel_def)
  moreover have "distinct_ids d'" using inv fresh ids by (simp add: sys_inv_def distinct_ids_def tabs)
  ultimately show ?thesis using inv unfolding sys_inv_def tabs list_all_append by (simp add: list_all_iff)
qed

section \<open>Both operations evolve the tables\<close>

lemma Fork_evolves:
  assumes "Fork rt dbnow now f d = Inr ((ex, rows), d')" "fork_fence f d" "sys_inv d"
  shows "evolves d d'"
proof -
  have dist: "distinct_ids d" using assms(3) by (simp add: sys_inv_def)
  from Fork_tables [OF assms(1) dist assms(2)] obtain e where q: "quiet d e"
    and tabs: "instances d' = instances e" "executions d' = executions e @ [ex]"
      "branches d' = branches e @ map ParallelBranchToModel rows"
    and rows: "list_all (new_branch (xm_id ex)) rows" by metis
  have "list_all branch_ok (map ParallelBranchToModel rows)"
    using rows by (auto simp: list_all_iff new_branch_def branch_ok_def ParallelBranchToModel_def)
  with q show ?thesis
    unfolding evolves_def quiet_def tabs
    by (auto intro!: rows_next_append elim!: list_all2_mono simp: branch_quiet_def exec_quiet_def)
qed

lemma list_all2_update_right:
  "list_all2 R t u \<Longrightarrow> (\<And>a b. R a b \<Longrightarrow> R a (f b)) \<Longrightarrow> list_all2 R t (update_where p f u)"
  by (induction rule: list_all2_induct) (auto simp: tab_simps)

lemma branch_next_then_wake: "branch_next a b \<Longrightarrow> branch_next a (b\<lparr>bm_reason := r, bm_updated_at := now\<rparr>)"
  by (simp add: branch_next_def branch_ident_def branch_ok_def)

lemma wake_owner_evolves:
  assumes "evolves d e" "instances e = instances d" "list_all2 branch_next (branches d) (branches e)"
    and "list_all2 exec_next (executions d) (executions e)"
  shows "evolves d (wake_owner dbnow ex e)"
  using assms
  by (auto simp: wake_owner_def split: option.split
      intro!: evolvesI list_all2_update_right branch_next_then_wake list_all2_update_where inst_next_wake)

lemma CompleteBranch_evolves:
  assumes "CompleteBranch dbnow now c d = Inr (ready, d')" "completion_fence c d" "sys_inv d"
  shows "evolves d d'"
proof -
  have dist: "distinct_ids d" using assms(3) by (simp add: sys_inv_def)
  from assms(1) show ?thesis
  proof (cases rule: CompleteBranch_cases)
    case (1 b)
    then show ?thesis by simp
  next
    case (2 b ex)
    then show ?thesis
      using arrival_branches [OF assms(3) 2(1, 2, 3) assms(2)] by (intro evolvesI) simp_all
  next
    case (3 b ex)
    define d2 where "d2 = update_executions (\<lambda>x. xm_id x = xm_id ex) (count_arrival now ex)
                (update_branches (\<lambda>r. bm_id r = bn_branch c) (complete_row now c) d)"
    have "exec_next x (count_arrival now ex x)" if "x \<in> set (executions d)" "xm_id x = xm_id ex" for x
    proof -
      from found_execution [OF 3(5) dist that(1)] that(2) by_key_SomeD [OF 3(5)] have "x = ex" by simp
      with 3(6) show ?thesis by (simp add: exec_next_arrival)
    qed
    then have x2: "list_all2 exec_next (executions d) (executions d2)"
      by (simp add: d2_def list_all2_update_where)
    have b2: "list_all2 branch_next (branches d) (branches d2)"
      using arrival_branches [OF assms(3) 3(1, 2, 3) assms(2)] by (simp add: d2_def)
    have i2: "instances d2 = instances d" by (simp add: d2_def)
    have e2: "evolves d d2" using x2 b2 by (intro evolvesI) (simp_all add: i2)
    have "d' = (if ready then wake_owner dbnow ex d2 else d2)" using 3(8) by (simp add: d2_def Let_def)
    then show ?thesis using e2 wake_owner_evolves [OF e2 i2 b2 x2] by simp
  qed
qed

end
