(* ===== verification/Steps.thy ===== *)
theory Steps
  imports Barrier
begin

text \<open>
  The repository as a step relation: one rule per operation that writes, each with
  the arguments its callers pass (a commit's fence only matches running rows, an engine
  checkpoint is a transition out of running, a stored instance is well formed). Reachable databases
  satisfy the invariant, and what a row of one becomes later is bounded by the row
  relations.
\<close>

section \<open>The step relation\<close>

inductive repo_step :: "db \<Rightarrow> db \<Rightarrow> bool" where
  insert: "Insert w d = Inr d' \<Longrightarrow> inst_ok w \<Longrightarrow> repo_step d d'"
| replace_context: "ReplaceContext rt now u d = Inr (m, d') \<Longrightarrow> repo_step d d'"
| rollback: "RollbackInstance rt now ru d = Inr (m, d') \<Longrightarrow> repo_step d d'"
| migrate: "MigrateInstance rt now mu d = Inr d' \<Longrightarrow> inst_ok (mu_new mu) \<Longrightarrow> repo_step d d'"
| claim: "repo_step d (snd (ClaimNext locked dbnow now w lease limit d))"
| checkpoint: "CheckpointOp rt dbnow now c d = Inr d' \<Longrightarrow> checkpoint_fence c d \<Longrightarrow>
    CanWorkflowTransition WorkflowRunning (cp_status c) \<Longrightarrow> repo_step d d'"
| renew: "RenewLease dbnow i w lease d = Inr d' \<Longrightarrow> repo_step d d'"
| renew_all: "repo_step d (RenewLeases dbnow w lease d)"
| release: "repo_step d (ReleaseLease now i w d)"
| pause: "Pause rt now i d = Inr (b, d') \<Longrightarrow> repo_step d d'"
| resume: "Resume rt now i d = Inr d' \<Longrightarrow> repo_step d d'"
| stop: "Stop rt now i reason d = Inr (b, d') \<Longrightarrow> repo_step d d'"
| stop_attempts: "repo_step d (StopRunningAttempts now i d)"
| resolve: "repo_step d (ResolveTermination now i d)"
| sweep: "repo_step d (SweepTermination dbnow d)"
| insert_node: "InsertNodeInstance n d = Inr d' \<Longrightarrow> repo_step d d'"
| update_node: "repo_step d (UpdateNodeInstance n d)"
| append: "AppendEvent e d = Inr d' \<Longrightarrow> repo_step d d'"
| append_history: "AppendHistory rt now h d = Inr d' \<Longrightarrow> repo_step d d'"
| supersede: "repo_step d (SupersedeAfter i cursor d)"
| deliver: "DeliverInput rt dbnow now ic d = Inr (q, d') \<Longrightarrow> ic_status ic \<in> {WorkflowWaiting, WorkflowPaused, WorkflowFinished} \<Longrightarrow>
    repo_step d d'"
| fork: "Fork rt dbnow now f d = Inr (x, d') \<Longrightarrow> fork_fence f d \<Longrightarrow> repo_step d d'"
| claim_branches: "repo_step d (snd (ClaimNextBranches locked dbnow now w lease limit d))"
| checkpoint_branch: "CheckpointBranch dbnow bc d = Inr d' \<Longrightarrow> branch_checkpoint_fence bc d \<Longrightarrow>
    bc_status bc \<in> {BranchWaiting, BranchCancelled} \<Longrightarrow> repo_step d d'"
| renew_branch: "RenewBranchLease dbnow i w lease d = Inr d' \<Longrightarrow> repo_step d d'"
| renew_branches: "repo_step d (RenewBranchLeases dbnow w lease d)"
| complete: "CompleteBranch dbnow now bn d = Inr (r, d') \<Longrightarrow> completion_fence bn d \<Longrightarrow> repo_step d d'"
| fail_branch: "FailBranch rt dbnow now i w rv msg d = Inr (b, d') \<Longrightarrow> repo_step d d'"
| fail_execution: "FailExecution now i d = Inr d' \<Longrightarrow> repo_step d d'"
| join: "JoinParallel rt dbnow now j d = Inr d' \<Longrightarrow> checkpoint_fence (jc_checkpoint j) d \<Longrightarrow>
    CanWorkflowTransition WorkflowRunning (cp_status (jc_checkpoint j)) \<Longrightarrow> repo_step d d'"
| join_branch: "JoinBranchParallel dbnow now jb d = Inr d' \<Longrightarrow> branch_checkpoint_fence (jb_checkpoint jb) d \<Longrightarrow>
    bc_status (jb_checkpoint jb) \<in> {BranchWaiting, BranchCancelled} \<Longrightarrow> repo_step d d'"
| wake: "WakePausedBranch dbnow i d = Inr d' \<Longrightarrow> repo_step d d'"
| claim_updates: "repo_step d (snd (ClaimNextStatusUpdates locked dbnow now w lease limit d))"
| mark_delivered: "MarkStatusUpdateDelivered now ev w d = Inr d' \<Longrightarrow> repo_step d d'"
| fail_update: "FailStatusUpdate now ev w retry most msg d = Inr d' \<Longrightarrow> repo_step d d'"

lemma frames:
  "instances (StopRunningAttempts now i d) = instances d"
  "executions (StopRunningAttempts now i d) = executions d"
  "branches (StopRunningAttempts now i d) = branches d"
  "instances (SupersedeAfter i cursor d) = instances d"
  "executions (SupersedeAfter i cursor d) = executions d"
  "branches (SupersedeAfter i cursor d) = branches d"
  "instances (UpdateNodeInstance n d) = instances d"
  "executions (UpdateNodeInstance n d) = executions d"
  "branches (UpdateNodeInstance n d) = branches d"
  by (simp_all add: StopRunningAttempts_def SupersedeAfter_def UpdateNodeInstance_def Let_def)

lemma quiet_nodes: "instances d' = instances d \<Longrightarrow> executions d' = executions d \<Longrightarrow> branches d' = branches d \<Longrightarrow> quiet d d'"
  by (simp add: quietI)

lemma outbox_frames:
  "core (snd (ClaimNextStatusUpdates locked dbnow now w lease limit d)) = core d"
  "MarkStatusUpdateDelivered now ev w d = Inr d' \<Longrightarrow> core d' = core d"
  "FailStatusUpdate now ev w retry most msg d = Inr d' \<Longrightarrow> core d' = core d"
  by (auto simp: ClaimNextStatusUpdates_def MarkStatusUpdateDelivered_def FailStatusUpdate_def core_def Let_def
      split: option.split_asm if_split_asm)

lemma AppendHistory_quiet: "AppendHistory rt now h d = Inr d' \<Longrightarrow> quiet d d'"
  by (rule quiet_nodes)
    (auto simp: AppendHistory_def appendHistoryTx_def history_id_def newRepoID_def bindR_Inr_iff Let_def
      split: if_split_asm prod.split_asm)

lemma repo_step_cases:
  assumes "repo_step d d'" "distinct_ids d"
  obtains "quiet d d'"
  | rt dbnow now f x where "Fork rt dbnow now f d = Inr (x, d')" "fork_fence f d"
  | dbnow now bn r where "CompleteBranch dbnow now bn d = Inr (r, d')" "completion_fence bn d"
  using assms(1)
proof (cases rule: repo_step.cases)
  case (deliver rt dbnow now ic r)
  then show thesis by (intro that(1) DeliverInput_quiet [OF _ assms(2)])
next
  case (fork rt dbnow now f x)
  then show thesis by (intro that(2))
next
  case (complete dbnow now bn r)
  then show thesis by (intro that(3))
next
  case (insert_node n)
  then show thesis by (intro that(1) quiet_nodes) (auto simp: InsertNodeInstance_def bindR_Inr_iff)
next
  case (append e)
  then show thesis by (intro that(1) quiet_nodes) (auto simp: AppendEvent_def bindR_Inr_iff)
qed (rule that(1), use assms(2) in \<open>auto intro: AppendHistory_quiet Insert_quiet ReplaceContext_quiet Rollback_quiet Migrate_quiet
      ClaimNext_quiet Checkpoint_quiet RenewLease_quiet RenewLeases_quiet ReleaseLease_quiet Pause_quiet
      Resume_quiet Stop_quiet ResolveTermination_quiet SweepTermination_quiet ClaimNextBranches_quiet
      CheckpointBranch_quiet RenewBranchLease_quiet RenewBranchLeases_quiet FailBranch_quiet
      FailExecution_quiet JoinParallel_quiet JoinBranchParallel_quiet WakePausedBranch_quiet
      quiet_nodes frames quiet_same outbox_frames\<close>)+

lemma repo_step_preserves:
  assumes "repo_step d d'" "sys_inv d"
  shows "evolves d d' \<and> sys_inv d'"
proof -
  have "distinct_ids d" using assms(2) by (simp add: sys_inv_def)
  with assms(1) show ?thesis
  proof (cases rule: repo_step_cases)
    case 1
    then show ?thesis using quiet_evolves quiet_inv assms(2) by blast
  next
    case (2 rt dbnow now f x)
    then show ?thesis using Fork_evolves Fork_inv assms(2) by (metis prod.collapse)
  next
    case (3 dbnow now bn r)
    then show ?thesis using CompleteBranch_evolves CompleteBranch_inv assms(2) by blast
  qed
qed

section \<open>Reachable databases\<close>

abbreviation repo_steps :: "db \<Rightarrow> db \<Rightarrow> bool" where
  "repo_steps \<equiv> repo_step\<^sup>*\<^sup>*"

text \<open>A fresh database: no rows in the three tables.\<close>

definition fresh_db :: "db \<Rightarrow> bool" where
  "fresh_db d \<longleftrightarrow> instances d = [] \<and> executions d = [] \<and> branches d = []"

lemma fresh_inv: "fresh_db d \<Longrightarrow> sys_inv d"
  by (simp add: fresh_db_def sys_inv_def distinct_ids_def)

lemma repo_steps_inv: "repo_steps d d' \<Longrightarrow> sys_inv d \<Longrightarrow> sys_inv d'"
  by (induction rule: rtranclp_induct) (simp_all add: repo_step_preserves)

end
