(* ===== verification/Sample.thy ===== *)
theory Sample
  imports Steps
begin

text \<open>
  One concrete run of the repository: an instance is inserted and claimed, forks two
  branches, both are claimed and arrive, the join is committed and the instance is
  stopped. The witnesses evaluate facts about its databases.
\<close>

definition start_db :: db where
  "start_db = empty_db\<lparr>definitions := [(''def'', Some (JObj []))]\<rparr>"

definition sample_wf :: WorkflowInstanceModel where
  "sample_wf =
     \<lparr>wm_id = ''wf'', wm_definition = ''def'', wm_context_mode = ''full'', wm_debug = False,
      wm_status = WorkflowWaiting, wm_reason = ReasonRunnable, wm_pause_requested = False,
      wm_termination_pending = False, wm_current_group = None, wm_current_node = None,
      wm_frame = Some (FrameJSON (NewFrame ''par'')), wm_context = None, wm_counters = None,
      wm_form_snapshot = None, wm_migrated_from = None, wm_superseded_by = None, wm_revision = 0,
      wm_leased_by = [], wm_lease_expiry = None, wm_run_at = None, wm_error = [], wm_started_at = None,
      wm_finished_at = None, wm_created_by = ''user'', wm_updated_by = ''user'', wm_created_at = 0,
      wm_updated_at = 0\<rparr>"

definition no_counts :: Counters where
  "no_counts = \<lparr>Total = 0, Nodes = []\<rparr>"

definition sample_fork :: ForkParallel where
  "sample_fork =
     \<lparr>fp_instance = ''wf'', fp_definition = ''def'', fp_worker = ''w1'', fp_revision = 1, fp_parent_branch = None,
      fp_depth = 1, fp_start_node = ''par'', fp_end_node = ''join'', fp_frame = NewFrame ''par'',
      fp_counters = no_counts, fp_context = None,
      fp_branches =
        [\<lparr>fb_name = ''left'', fb_index = 0, fb_start_node = ''l'', fb_frame = NewFrame ''l'', fb_context = None\<rparr>,
         \<lparr>fb_name = ''right'', fb_index = 1, fb_start_node = ''r'', fb_frame = NewFrame ''r'', fb_context = None\<rparr>],
      fp_debug = False\<rparr>"

definition sample_arrival :: "uid \<Rightarrow> BranchCompletion" where
  "sample_arrival b =
     \<lparr>bn_branch = b, bn_worker = ''w1'', bn_revision = 1, bn_frame = NewFrame ''join'',
      bn_counters = no_counts, bn_context = None\<rparr>"

definition sample_checkpoint :: "int \<Rightarrow> Checkpoint" where
  "sample_checkpoint rv =
     \<lparr>cp_instance = ''wf'', cp_worker = ''w1'', cp_revision = rv, cp_definition = ''def'',
      cp_from_status = WorkflowRunning, cp_from_reason = ReasonRunnable, cp_status = WorkflowWaiting,
      cp_reason = ReasonRunnable, cp_pause_requested = False, cp_frame = NewFrame ''next'',
      cp_counters = no_counts, cp_context = None, cp_error = [], cp_finished_at = None, cp_run_at = None,
      cp_history = None\<rparr>"

definition none_locked :: "uid \<Rightarrow> bool" where
  "none_locked = (\<lambda>_. False)"

definition db_inserted :: db where
  "db_inserted = projr (Insert sample_wf start_db)"

definition db_claimed :: db where
  "db_claimed = snd (ClaimNext none_locked 1 1 ''w1'' 30 5 db_inserted)"

definition db_forked :: db where
  "db_forked = snd (projr (Fork sample_rt 2 2 sample_fork db_claimed))"

definition db_branches :: db where
  "db_branches = snd (ClaimNextBranches none_locked 3 3 ''w1'' 30 5 db_forked)"

definition db_left :: db where
  "db_left = snd (projr (CompleteBranch 4 4 (sample_arrival ''uu'') db_branches))"

definition db_ready :: db where
  "db_ready = snd (projr (CompleteBranch 5 5 (sample_arrival ''uuu'') db_left))"

definition db_reclaimed :: db where
  "db_reclaimed = snd (ClaimNext none_locked 6 6 ''w1'' 30 5 db_ready)"

definition sample_join :: JoinCheckpoint where
  "sample_join = \<lparr>jc_checkpoint = sample_checkpoint 3, jc_execution = ''u''\<rparr>"

definition db_joined :: db where
  "db_joined = projr (JoinParallel sample_rt 7 7 sample_join db_reclaimed)"

definition db_stopped :: db where
  "db_stopped = snd (projr (Stop sample_rt 8 ''wf'' ''done'' db_joined))"

lemma run_results:
  "Insert sample_wf start_db = Inr db_inserted"
  "Fork sample_rt 2 2 sample_fork db_claimed = Inr (fst (projr (Fork sample_rt 2 2 sample_fork db_claimed)), db_forked)"
  "CompleteBranch 4 4 (sample_arrival ''uu'') db_branches = Inr (False, db_left)"
  "CompleteBranch 5 5 (sample_arrival ''uuu'') db_left = Inr (True, db_ready)"
  "JoinParallel sample_rt 7 7 sample_join db_reclaimed = Inr db_joined"
  "Stop sample_rt 8 ''wf'' ''done'' db_joined = Inr (False, db_stopped)"
  by code_simp+

lemma start_fresh: "fresh_db start_db"
  by (simp add: fresh_db_def start_db_def empty_db_def)

lemma run_steps:
  "repo_step start_db db_inserted" "repo_step db_inserted db_claimed" "repo_step db_claimed db_forked"
  "repo_step db_forked db_branches" "repo_step db_branches db_left" "repo_step db_left db_ready"
  "repo_step db_ready db_reclaimed" "repo_step db_reclaimed db_joined" "repo_step db_joined db_stopped"
proof -
  show "repo_step start_db db_inserted"
    by (rule repo_step.insert [OF run_results(1)]) (simp add: inst_ok_def sample_wf_def)
  show "repo_step db_inserted db_claimed" unfolding db_claimed_def by (rule repo_step.claim)
  show "repo_step db_claimed db_forked"
    by (rule repo_step.fork [OF run_results(2)]) code_simp
  show "repo_step db_forked db_branches" unfolding db_branches_def by (rule repo_step.claim_branches)
  show "repo_step db_branches db_left"
    by (rule repo_step.complete [OF run_results(3)]) code_simp
  show "repo_step db_left db_ready"
    by (rule repo_step.complete [OF run_results(4)]) code_simp
  show "repo_step db_ready db_reclaimed" unfolding db_reclaimed_def by (rule repo_step.claim)
  show "repo_step db_reclaimed db_joined"
    by (rule repo_step.join [OF run_results(5)]) code_simp+
  show "repo_step db_joined db_stopped" by (rule repo_step.stop [OF run_results(6)])
qed

lemma run_reaches:
  "repo_steps start_db db_claimed" "repo_steps db_claimed db_forked" "repo_steps start_db db_branches"
  "repo_steps start_db db_left" "repo_steps start_db db_ready" "repo_steps start_db db_joined"
  "repo_steps db_joined db_stopped"
  using run_steps by (meson rtranclp.rtrancl_into_rtrancl rtranclp.rtrancl_refl)+

end
