(* ===== verification/Lifecycle.thy ===== *)
theory Lifecycle
  imports Sample
begin

text \<open>
  What holds of every reachable repository: rows are well formed, statuses follow the
  tables, revisions only grow, terminal statuses stay.
\<close>

section \<open>Rows over many steps\<close>

definition inst_later :: "WorkflowInstanceModel \<Rightarrow> WorkflowInstanceModel \<Rightarrow> bool" where
  "inst_later m m' \<longleftrightarrow> wm_id m' = wm_id m \<and> wm_definition m' = wm_definition m \<and>
     wm_created_by m' = wm_created_by m \<and> wm_context_mode m' = wm_context_mode m \<and>
     wm_revision m \<le> wm_revision m' \<and> (wm_status m' \<noteq> wm_status m \<longrightarrow> wm_revision m < wm_revision m') \<and>
     (wm_status m \<in> {WorkflowFinished, WorkflowStopped} \<longrightarrow> wm_status m' = wm_status m)"

lemma inst_next_later: "inst_next m m' \<Longrightarrow> inst_ok m \<Longrightarrow> inst_later m m'"
  by (auto simp: inst_next_def inst_later_def may_write_def)

lemma inst_later_trans: "inst_later a b \<Longrightarrow> inst_later b c \<Longrightarrow> inst_later a c"
  by (auto simp: inst_later_def)

definition branch_later :: "ParallelBranchModel \<Rightarrow> ParallelBranchModel \<Rightarrow> bool" where
  "branch_later b b' \<longleftrightarrow> branch_ident b b' \<and>
     (bm_status b \<in> {BranchCompleted, BranchFailed, BranchCancelled} \<longrightarrow> bm_status b' = bm_status b)"

lemma branch_next_later: "branch_next b b' \<Longrightarrow> branch_ok b \<Longrightarrow> branch_later b b'"
  by (auto simp: branch_next_def branch_later_def)

lemma branch_later_trans: "branch_later a b \<Longrightarrow> branch_later b c \<Longrightarrow> branch_later a c"
  by (auto simp: branch_later_def branch_ident_def)

definition exec_later :: "ParallelExecutionModel \<Rightarrow> ParallelExecutionModel \<Rightarrow> bool" where
  "exec_later x x' \<longleftrightarrow> exec_ident x x' \<and> (\<not> live_execution x \<longrightarrow> xm_status x' = xm_status x) \<and>
     (xm_status x = ParallelReadyToJoin \<longrightarrow> xm_status x' \<noteq> ParallelWaitingForBranches)"

lemma exec_next_later: "exec_next x x' \<Longrightarrow> exec_later x x'"
  by (cases "xm_status x") (auto simp: exec_next_def exec_later_def live_execution_def)

lemma exec_later_trans: "exec_later a b \<Longrightarrow> exec_later b c \<Longrightarrow> exec_later a c"
  by (cases "xm_status a"; cases "xm_status b") (auto simp: exec_later_def exec_ident_def live_execution_def)

lemma evolves_rows:
  assumes "evolves d d'" "sys_inv d"
  shows "m \<in> set (instances d) \<Longrightarrow> \<exists>m' \<in> set (instances d'). inst_next m m' \<and> inst_later m m'"
    and "b \<in> set (branches d) \<Longrightarrow> \<exists>b' \<in> set (branches d'). branch_next b b' \<and> branch_later b b'"
    and "x \<in> set (executions d) \<Longrightarrow> \<exists>x' \<in> set (executions d'). exec_next x x' \<and> exec_later x x'"
proof -
  show "m \<in> set (instances d) \<Longrightarrow> \<exists>m' \<in> set (instances d'). inst_next m m' \<and> inst_later m m'"
    using assms rows_next_mem [of inst_next inst_ok "instances d" "instances d'" m]
    by (auto simp: evolves_def sys_inv_def list_all_iff intro: inst_next_later)
  show "b \<in> set (branches d) \<Longrightarrow> \<exists>b' \<in> set (branches d'). branch_next b b' \<and> branch_later b b'"
    using assms rows_next_mem [of branch_next branch_ok "branches d" "branches d'" b]
    by (auto simp: evolves_def sys_inv_def list_all_iff intro: branch_next_later)
  show "x \<in> set (executions d) \<Longrightarrow> \<exists>x' \<in> set (executions d'). exec_next x x' \<and> exec_later x x'"
    using assms rows_next_mem [of exec_next "\<lambda>_. True" "executions d" "executions d'" x]
    by (auto simp: evolves_def intro: exec_next_later)
qed

lemma steps_later:
  assumes "repo_steps d d'" "sys_inv d" "\<And>r. R r r" "\<And>a b c. R a b \<Longrightarrow> R b c \<Longrightarrow> R a c"
    and "\<And>e f r. evolves e f \<Longrightarrow> sys_inv e \<Longrightarrow> r \<in> set (rows e) \<Longrightarrow> \<exists>r' \<in> set (rows f). R r r'"
    and "r \<in> set (rows d)"
  shows "\<exists>r' \<in> set (rows d'). R r r'"
  using assms(1)
proof (induction rule: rtranclp_induct)
  case base
  from assms(3, 6) show ?case by blast
next
  case (step e f)
  have inv: "sys_inv e" using repo_steps_inv [OF step.hyps(1) assms(2)] .
  then have ev: "evolves e f" using repo_step_preserves step.hyps(2) by blast
  from step.IH obtain r1 where r1: "r1 \<in> set (rows e)" "R r r1" by blast
  from assms(5) [OF ev inv r1(1)] obtain r2 where "r2 \<in> set (rows f)" "R r1 r2" by blast
  with assms(4) [OF r1(2)] show ?case by blast
qed

lemma steps_rows:
  assumes "repo_steps d d'" "sys_inv d"
  shows "m \<in> set (instances d) \<Longrightarrow> \<exists>m' \<in> set (instances d'). inst_later m m'"
    and "b \<in> set (branches d) \<Longrightarrow> \<exists>b' \<in> set (branches d'). branch_later b b'"
    and "x \<in> set (executions d) \<Longrightarrow> \<exists>x' \<in> set (executions d'). exec_later x x'"
proof -
  show "\<exists>m' \<in> set (instances d'). inst_later m m'" if "m \<in> set (instances d)"
    by (rule steps_later [OF assms, where R = inst_later and rows = instances, OF _ inst_later_trans _ that])
      (auto simp: inst_later_def [of r r for r] dest: evolves_rows(1))
  show "\<exists>b' \<in> set (branches d'). branch_later b b'" if "b \<in> set (branches d)"
    by (rule steps_later [OF assms, where R = branch_later and rows = branches, OF _ branch_later_trans _ that])
      (auto simp: branch_later_def [of r r for r] dest: evolves_rows(2))
  show "\<exists>x' \<in> set (executions d'). exec_later x x'" if "x \<in> set (executions d)"
    by (rule steps_later [OF assms, where R = exec_later and rows = executions, OF _ exec_later_trans _ that])
      (auto simp: exec_later_def [of r r for r] dest: evolves_rows(3))
qed

lemma reachable_inv: "fresh_db d0 \<Longrightarrow> repo_steps d0 d \<Longrightarrow> sys_inv d"
  using repo_steps_inv fresh_inv by blast

text \<open>
  C26. In every reachable repository: an instance or branch row is leased only while it
  is running, and a running one always has a lease expiry, so it can be reclaimed;
  termination is pending only on a stopped instance; ids are unique.
\<close>

theorem rows_well_formed:
  assumes "fresh_db d0" "repo_steps d0 d"
  shows "distinct (map wm_id (instances d)) \<and>
    list_all (\<lambda>m. (wm_status m = WorkflowRunning \<longleftrightarrow> wm_lease_expiry m \<noteq> None) \<and>
      (wm_leased_by m \<noteq> [] \<longrightarrow> wm_status m = WorkflowRunning) \<and>
      (wm_termination_pending m \<longrightarrow> wm_status m = WorkflowStopped)) (instances d) \<and>
    distinct (map bm_id (branches d)) \<and>
    list_all (\<lambda>b. (bm_status b = BranchRunning \<longleftrightarrow> bm_lease_expiry b \<noteq> None) \<and>
      (bm_leased_by b \<noteq> [] \<longrightarrow> bm_status b = BranchRunning)) (branches d)"
  using reachable_inv [OF assms]
  by (auto simp: sys_inv_def distinct_ids_def list_all_iff inst_ok_def branch_ok_def split: if_splits)

lemma rows_well_formed_witness:
  "list_all (\<lambda>m. wm_status m = WorkflowRunning \<longleftrightarrow> wm_lease_expiry m \<noteq> None) (instances db_branches) \<and>
   length (branches db_branches) = 2"
proof -
  have "length (branches db_branches) = 2" by code_simp
  with rows_well_formed [OF start_fresh run_reaches(3)] show ?thesis by (simp add: list_all_iff)
qed

text \<open>
  C25. One repository operation rewrites the status of an instance only along the edges
  of \<open>CanWorkflowTransition\<close> or one of the five the repository adds (an input delivery
  finishing or failing a parked run, a branch failure failing a paused parent, a
  rollback of a failed run, a migration of a failed run); branches and executions
  follow their tables exactly.
\<close>

theorem status_transitions:
  assumes "fresh_db d0" "repo_steps d0 d" "repo_step d d'"
  shows "(\<forall>m \<in> set (instances d). \<exists>m' \<in> set (instances d'). wm_id m' = wm_id m \<and>
      (wm_status m' = wm_status m \<or> CanWorkflowTransition (wm_status m) (wm_status m') \<or>
       (wm_status m, wm_status m') \<in> {(WorkflowWaiting, WorkflowFinished), (WorkflowWaiting, WorkflowFailed),
         (WorkflowPaused, WorkflowFailed), (WorkflowFailed, WorkflowPaused), (WorkflowFailed, WorkflowStopped)})) \<and>
    (\<forall>b \<in> set (branches d). \<exists>b' \<in> set (branches d'). bm_id b' = bm_id b \<and>
      (bm_status b' = bm_status b \<or> CanParallelBranchTransition (bm_status b) (bm_status b'))) \<and>
    (\<forall>x \<in> set (executions d). \<exists>x' \<in> set (executions d'). xm_id x' = xm_id x \<and>
      (xm_status x' = xm_status x \<or> CanParallelExecutionTransition (xm_status x) (xm_status x')))"
proof -
  have inv: "sys_inv d" using reachable_inv [OF assms(1, 2)] .
  have ev: "evolves d d'" using repo_step_preserves [OF assms(3) inv] by blast
  have ok: "m \<in> set (instances d) \<Longrightarrow> inst_ok m" "b \<in> set (branches d) \<Longrightarrow> branch_ok b" for m b
    using inv by (auto simp: sys_inv_def list_all_iff)
  have "\<exists>m' \<in> set (instances d'). wm_id m' = wm_id m \<and> (wm_status m' = wm_status m \<or> may_write (wm_status m) (wm_status m'))"
    if "m \<in> set (instances d)" for m
    using evolves_rows(1) [OF ev inv that] ok(1) [OF that] by (auto simp: inst_next_def)
  moreover have "\<exists>b' \<in> set (branches d'). bm_id b' = bm_id b \<and>
      (bm_status b' = bm_status b \<or> CanParallelBranchTransition (bm_status b) (bm_status b'))"
    if "b \<in> set (branches d)" for b
    using evolves_rows(2) [OF ev inv that] ok(2) [OF that] unfolding branch_next_def branch_ident_def by blast
  moreover have "\<exists>x' \<in> set (executions d'). xm_id x' = xm_id x \<and>
      (xm_status x' = xm_status x \<or> CanParallelExecutionTransition (xm_status x) (xm_status x'))"
    if "x \<in> set (executions d)" for x
    using evolves_rows(3) [OF ev inv that] unfolding exec_next_def exec_ident_def by blast
  ultimately show ?thesis unfolding may_write_def by simp
qed

lemma status_transitions_witness:
  "\<exists>m' \<in> set (instances db_forked). wm_id m' = ''wf'' \<and>
     (wm_status m' = WorkflowRunning \<or> CanWorkflowTransition WorkflowRunning (wm_status m'))"
proof -
  have m: "hd (instances db_claimed) \<in> set (instances db_claimed)" "wm_id (hd (instances db_claimed)) = ''wf''"
    "wm_status (hd (instances db_claimed)) = WorkflowRunning" by code_simp+
  from status_transitions [OF start_fresh run_reaches(1) run_steps(3)] m show ?thesis by force
qed

text \<open>
  C27. Over any number of operations an instance keeps its id, definition, owner and context mode, its
  revision never decreases, a different status means a greater revision, and a
  finished or stopped instance stays so for good.
\<close>

theorem instance_history_monotone:
  assumes "fresh_db d0" "repo_steps d0 d" "repo_steps d d'" "m \<in> set (instances d)"
  shows "\<exists>m' \<in> set (instances d'). wm_id m' = wm_id m \<and> wm_definition m' = wm_definition m \<and>
     wm_created_by m' = wm_created_by m \<and> wm_context_mode m' = wm_context_mode m \<and>
    wm_revision m \<le> wm_revision m' \<and> (wm_status m' = wm_status m \<or> wm_revision m < wm_revision m') \<and>
    (wm_status m = WorkflowFinished \<or> wm_status m = WorkflowStopped \<longrightarrow> wm_status m' = wm_status m)"
  using steps_rows(1) [OF assms(3) reachable_inv [OF assms(1, 2)] assms(4)]
  by (auto simp: inst_later_def)

lemma instance_history_monotone_witness:
  "\<exists>m' \<in> set (instances db_stopped). wm_id m' = ''wf'' \<and> 4 \<le> wm_revision m'"
proof -
  have m: "hd (instances db_joined) \<in> set (instances db_joined)" "wm_id (hd (instances db_joined)) = ''wf''"
    "wm_revision (hd (instances db_joined)) = 4" by code_simp+
  from instance_history_monotone [OF start_fresh run_reaches(6, 7) m(1)] m(2, 3) show ?thesis by metis
qed

end
