(* ===== verification/JoinSpec.thy ===== *)
theory JoinSpec
  imports Lifecycle
begin

text \<open>
  The join barrier as a counter: an execution counts its missing arrivals down to
  ready, and every repository operation is a step of that counter or leaves it alone.
\<close>

section \<open>The specification\<close>

datatype barrier = Absent | Counting nat | Ready | Closed

inductive barrier_step :: "barrier \<Rightarrow> barrier \<Rightarrow> bool" where
  forked: "0 < n \<Longrightarrow> barrier_step Absent (Counting n)"
| arrived: "0 < n \<Longrightarrow> barrier_step (Counting (Suc n)) (Counting n)"
| last_arrived: "barrier_step (Counting 1) Ready"
| resolved: "b \<in> {Ready} \<union> range Counting \<Longrightarrow> barrier_step b Closed"

inductive_cases barrier_step_ClosedE: "barrier_step Closed b"
inductive_cases barrier_step_ReadyE: "barrier_step Ready b"

text \<open>The counter is read off the branch rows, the phase off the execution row.\<close>

definition barrier_of :: "db \<Rightarrow> uid \<Rightarrow> barrier" where
  "barrier_of d x =
     (case find_execution x d of
        None \<Rightarrow> Absent
      | Some ex \<Rightarrow>
          if xm_status ex = ParallelWaitingForBranches then Counting (members d x - arrived d x)
          else if xm_status ex = ParallelReadyToJoin then Ready
          else Closed)"

lemma barrier_of_cong:
  "executions d' = executions d \<Longrightarrow> members d' x = members d x \<Longrightarrow> arrived d' x = arrived d x \<Longrightarrow>
   barrier_of d' x = barrier_of d x"
  by (simp add: barrier_of_def split: option.split)

section \<open>Quiet operations\<close>

lemma by_key_list_all2:
  assumes "list_all2 R t u" "\<And>a b. R a b \<Longrightarrow> k b = k a"
  shows "rel_option R (by_key k x t) (by_key k x u)"
  using assms(1)
proof (induction rule: list_all2_induct)
  case (Cons a as b bs)
  with assms(2) [OF Cons.hyps(1)] show ?case by (simp add: by_key_Cons)
qed simp

lemma barrier_quiet:
  assumes "quiet d d'" "sys_inv d"
  shows "barrier_of d' x = barrier_of d x \<or> barrier_step (barrier_of d x) (barrier_of d' x)"
proof -
  have m: "marks d' = marks d" using assms by (simp add: quiet_marks sys_inv_def)
  have "list_all2 exec_quiet (executions d) (executions d')" using assms(1) by (simp add: quiet_def)
  then have "rel_option exec_quiet (find_execution x d) (find_execution x d')"
    by (rule by_key_list_all2) (simp add: exec_quiet_def exec_next_def exec_ident_def)
  then show ?thesis
    by (cases rule: option.rel_cases)
      (auto simp: barrier_of_def counts_by_marks m exec_quiet_def exec_next_def live_execution_def
        intro!: barrier_step.resolved)
qed

section \<open>Fork and arrival\<close>

lemma barrier_fork:
  assumes "Fork rt dbnow now f d = Inr ((ex, rows), d')" "fork_fence f d" "sys_inv d"
  shows "barrier_of d' x = barrier_of d x \<or> barrier_step (barrier_of d x) (barrier_of d' x)"
proof -
  have dist: "distinct_ids d" using assms(3) by (simp add: sys_inv_def)
  from Fork_tables [OF assms(1) dist assms(2)] obtain e where q: "quiet d e"
    and fresh: "xm_id ex \<notin> xm_id ` set (executions e)"
    and tabs: "executions d' = executions e @ [ex]" "branches d' = branches e @ map ParallelBranchToModel rows"
    and rows: "rows \<noteq> []" "list_all (new_branch (xm_id ex)) rows"
    and st: "xm_status ex = ParallelWaitingForBranches" by metis
  have inv: "sys_inv e" using quiet_inv [OF q assms(3)] .
  have find: "find_execution y d' = (if y = xm_id ex then Some ex else find_execution y e)" for y
  proof -
    have "by_key xm_id y (t @ [ex]) = (if y = xm_id ex then Some ex else by_key xm_id y t)"
      if "xm_id ex \<notin> xm_id ` set t" for t using that by (induction t) (auto simp: by_key_Cons)
    with fresh tabs(1) show ?thesis by simp
  qed
  have counts: "members d' y = members e y + (if y = xm_id ex then length rows else 0)" "arrived d' y = arrived e y" for y
    using new_rows_counts [OF rows(2), of y] unfolding count_where_def by (simp_all add: members_def arrived_def tabs count_where_def)
  show ?thesis
  proof (cases "x = xm_id ex")
    case False
    then have "barrier_of d' x = barrier_of e x" by (simp add: barrier_of_def find counts split: option.split)
    with barrier_quiet [OF q assms(3)] show ?thesis by simp
  next
    case True
    have "members e x = 0" using inv fresh True by (intro no_members) (auto simp: sys_inv_def)
    with arrived_le_members [of e x] have new: "barrier_of d' x = Counting (length rows)"
      using True st by (simp add: barrier_of_def find counts)
    have "find_execution x e = None" using fresh True by (simp add: by_key_None_iff)
    then have "barrier_of e x = Absent" by (simp add: barrier_of_def)
    with barrier_quiet [OF q assms(3), of x] have "barrier_of d x = Absent"
      by (auto elim: barrier_step.cases)
    with new rows(1) show ?thesis by (simp add: barrier_step.forked)
  qed
qed

lemma marks_wake_owner: "marks (wake_owner dbnow ex d) = marks d"
proof -
  have "map (\<lambda>b. (bm_execution b, bm_status b = BranchCompleted))
      (update_where p (\<lambda>b. b\<lparr>bm_reason := r, bm_updated_at := t\<rparr>) u) =
    map (\<lambda>b. (bm_execution b, bm_status b = BranchCompleted)) u" for p r t and u :: "ParallelBranchModel list"
    by (induction u) (auto simp: tab_simps)
  then show ?thesis by (simp add: marks_def wake_owner_def update_branches_def split: option.split)
qed

lemma executions_wake_owner: "executions (wake_owner dbnow ex d) = executions d"
  by (simp add: wake_owner_def split: option.split)

lemma resolved_before_arrival:
  assumes "sys_inv d" "find_branch i d = Some b" "bm_status b \<noteq> BranchCompleted"
    and "find_execution (bm_execution b) d = Some ex" "xm_status ex \<noteq> ParallelWaitingForBranches"
  shows "\<not> live_execution ex"
proof -
  have m: "b \<in> set (branches d)" "ex \<in> set (executions d)" "xm_id ex = bm_execution b"
    using by_key_SomeD [OF assms(2)] by_key_SomeD [OF assms(4)] by auto
  then have "barrier_row d ex" using assms(1) by (simp add: sys_inv_def list_all_iff)
  then show ?thesis
    using arrived_less_members [OF m(1) assms(3)] m(3) assms(5) by (auto simp: barrier_row_def live_execution_def)
qed

text \<open>A counted arrival: which execution, its counter before and after, and \<open>ready\<close>.\<close>

lemma counted_arrival:
  assumes "sys_inv d" "find_branch (bn_branch c) d = Some b" "bm_status b \<noteq> BranchCompleted"
    and "find_execution (bm_execution b) d = Some ex" "xm_status ex = ParallelWaitingForBranches"
    and "ready = (xm_completed_count ex + 1 \<ge> xm_branch_count ex)"
    and "d' = (let d2 = update_executions (\<lambda>x. xm_id x = xm_id ex) (count_arrival now ex)
                (update_branches (\<lambda>r. bm_id r = bn_branch c) (complete_row now c) d)
             in if ready then wake_owner dbnow ex d2 else d2)"
  obtains n where "barrier_of d (bm_execution b) = Counting (Suc n)"
    "barrier_of d' (bm_execution b) = (if n = 0 then Ready else Counting n)" "ready \<longleftrightarrow> n = 0"
    "\<And>x. x \<noteq> bm_execution b \<Longrightarrow> barrier_of d' x = barrier_of d x"
proof -
  define d2 where "d2 = update_executions (\<lambda>x. xm_id x = xm_id ex) (count_arrival now ex)
                (update_branches (\<lambda>r. bm_id r = bn_branch c) (complete_row now c) d)"
  have dist: "distinct_ids d" using assms(1) by (simp add: sys_inv_def)
  have bmem: "b \<in> set (branches d)" using by_key_SomeD [OF assms(2)] by simp
  have exmem: "ex \<in> set (executions d)" "xm_id ex = bm_execution b" using by_key_SomeD [OF assms(4)] by auto
  then have row: "barrier_row d ex" using assms(1) by (simp add: sys_inv_def list_all_iff)
  have counts: "members d2 x = members d x" "arrived d2 x = (if bm_execution b = x then Suc (arrived d x) else arrived d x)" for x
    using arrival_counts [OF dist assms(2, 3)] by (simp_all add: d2_def members_def arrived_def)
  have find: "find_execution x d2 =
      (if x = bm_execution b then Some (count_arrival now ex ex) else find_execution x d)" for x
    using exmem(2) assms(4) by_key_SomeD [of xm_id x "executions d"]
    by (cases "find_execution x d") (auto simp: d2_def by_key_update_where count_arrival_def Let_def)
  have "barrier_of d' = barrier_of d2"
    using assms(7) marks_wake_owner [of dbnow ex d2] executions_wake_owner [of dbnow ex d2]
    by (auto simp: d2_def [symmetric] Let_def counts_by_marks intro!: ext barrier_of_cong)
  moreover obtain n where n: "members d (bm_execution b) - arrived d (bm_execution b) = Suc n"
    using arrived_less_members [OF bmem assms(3)] by (metis Suc_diff_Suc)
  moreover have "ready \<longleftrightarrow> n = 0"
    using row n assms(5, 6) exmem(2) by (auto simp: barrier_row_def live_execution_def)
  ultimately show thesis
    using assms(4, 5, 6) row exmem(2)
    by (intro that [of n]) (auto simp: barrier_of_def find counts count_arrival_def Let_def split: option.split)
qed

lemma barrier_complete:
  assumes "CompleteBranch dbnow now c d = Inr (ready, d')" "sys_inv d"
  shows "barrier_of d' x = barrier_of d x \<or> barrier_step (barrier_of d x) (barrier_of d' x)"
  using assms(1)
proof (cases rule: CompleteBranch_cases)
  case (1 b)
  then show ?thesis by simp
next
  case (2 b ex)
  have nc: "bm_status b \<noteq> BranchCompleted" using 2(4) by auto
  have dist: "distinct_ids d" using assms(2) by (simp add: sys_inv_def)
  have "\<not> live_execution ex" using resolved_before_arrival [OF assms(2) 2(1) nc 2(5, 6)] .
  with 2(5) arrival_counts [OF dist 2(1) nc] have "barrier_of d' x = barrier_of d x"
    unfolding 2(7) by (cases "x = bm_execution b") (auto simp: barrier_of_def live_execution_def split: option.split)
  then show ?thesis ..
next
  case (3 b ex)
  have nc: "bm_status b \<noteq> BranchCompleted" using 3(4) by auto
  obtain n where n: "barrier_of d (bm_execution b) = Counting (Suc n)"
    "barrier_of d' (bm_execution b) = (if n = 0 then Ready else Counting n)"
    "\<And>x. x \<noteq> bm_execution b \<Longrightarrow> barrier_of d' x = barrier_of d x"
    using counted_arrival [OF assms(2) 3(1) nc 3(5, 6, 7, 8)] by metis
  then show ?thesis
    using barrier_step.last_arrived barrier_step.arrived [of n]
    by (cases "x = bm_execution b") (auto split: if_splits)
qed

text \<open>
  C22. The repository refines the counter: whatever operation runs, every execution
  keeps its counter or makes one step of the specification, so arrivals are counted
  one at a time, the last one and no other makes the execution ready, and a resolved
  execution stays closed.
\<close>

theorem barrier_refinement:
  assumes "fresh_db d0" "repo_steps d0 d" "repo_step d d'"
  shows "barrier_of d' x = barrier_of d x \<or> barrier_step (barrier_of d x) (barrier_of d' x)"
proof -
  have inv: "sys_inv d" using reachable_inv [OF assms(1, 2)] .
  then have "distinct_ids d" by (simp add: sys_inv_def)
  with assms(3) show ?thesis
  proof (cases rule: repo_step_cases)
    case 1
    then show ?thesis using inv by (rule barrier_quiet)
  next
    case (2 rt dbnow now f y)
    then show ?thesis using inv barrier_fork by (metis prod.collapse)
  next
    case (3 dbnow now bn r)
    then show ?thesis using inv barrier_complete by blast
  qed
qed

lemma barrier_refinement_witness:
  "barrier_of db_left ''u'' = Counting 1 \<and> barrier_of db_ready ''u'' = Ready \<and>
   barrier_step (barrier_of db_left ''u'') (barrier_of db_ready ''u'')"
proof -
  have v: "barrier_of db_left ''u'' = Counting 1" "barrier_of db_ready ''u'' = Ready" by code_simp+
  from barrier_refinement [OF start_fresh run_reaches(4) run_steps(6), of "''u''"] v show ?thesis by simp
qed

text \<open>
  C24. The join barrier: an unresolved execution is ready to join exactly when all of
  its branches have completed, it has at least one branch, and its two counters are
  the numbers of its branch rows and of the completed ones.
\<close>

theorem join_barrier:
  assumes "fresh_db d0" "repo_steps d0 d" "x \<in> set (executions d)"
    and "xm_status x = ParallelWaitingForBranches \<or> xm_status x = ParallelReadyToJoin"
  shows "(xm_status x = ParallelReadyToJoin \<longleftrightarrow>
      (\<forall>b \<in> set (branches d). bm_execution b = xm_id x \<longrightarrow> bm_status b = BranchCompleted)) \<and>
    xm_branch_count x = int (length (filter (\<lambda>b. bm_execution b = xm_id x) (branches d))) \<and>
    xm_completed_count x =
      int (length (filter (\<lambda>b. bm_execution b = xm_id x \<and> bm_status b = BranchCompleted) (branches d))) \<and>
    0 < xm_branch_count x"
proof -
  have row: "barrier_row d x" using reachable_inv [OF assms(1, 2)] assms(3) by (simp add: sys_inv_def list_all_iff)
  have "arrived d (xm_id x) = members d (xm_id x) \<longleftrightarrow>
      (\<forall>b \<in> set (branches d). bm_execution b = xm_id x \<longrightarrow> bm_status b = BranchCompleted)"
  proof
    assume eq: "arrived d (xm_id x) = members d (xm_id x)"
    show "\<forall>b \<in> set (branches d). bm_execution b = xm_id x \<longrightarrow> bm_status b = BranchCompleted"
      using arrived_less_members [of _ d] eq by fastforce
  next
    assume "\<forall>b \<in> set (branches d). bm_execution b = xm_id x \<longrightarrow> bm_status b = BranchCompleted"
    then show "arrived d (xm_id x) = members d (xm_id x)"
      unfolding arrived_def members_def count_where_def by (intro arg_cong [where f = length] filter_cong) auto
  qed
  with row assms(4) show ?thesis
    unfolding arrived_def members_def count_where_def barrier_row_def live_execution_def by auto
qed

lemma join_barrier_witness:
  "list_all (\<lambda>b. bm_status b = BranchCompleted) (filter (\<lambda>b. bm_execution b = ''u'') (branches db_ready)) \<and>
   length (branches db_ready) = 2"
proof -
  have x: "hd (executions db_ready) \<in> set (executions db_ready)" "xm_id (hd (executions db_ready)) = ''u''"
    "xm_status (hd (executions db_ready)) = ParallelReadyToJoin" "length (branches db_ready) = 2" by code_simp+
  have "xm_status (hd (executions db_ready)) = ParallelWaitingForBranches \<or>
      xm_status (hd (executions db_ready)) = ParallelReadyToJoin" using x(3) by simp
  from join_barrier [OF start_fresh run_reaches(5) x(1) this] x(2, 3, 4) show ?thesis by (simp add: list_all_iff)
qed

end
