(* ===== verification/Fencing.thy ===== *)
theory Fencing
  imports JoinSpec
begin

text \<open>
  Leases and revisions as fences. The contract of a fenced commit is a locale; it is
  interpreted on the three commits of an instance (checkpoint, join, fork) and on the
  three of a branch. Then claims: what they return, and that they exclude each other
  while the lease runs.
\<close>

section \<open>The contract of a fenced commit\<close>

text \<open>
  \<open>lease i d\<close> is the holder and the revision of row \<open>i\<close>. A commit is accepted only for
  the holder at its revision and advances the revision; revisions never go back.
\<close>

locale fenced_commit =
  fixes inv :: "db \<Rightarrow> bool"
    and later :: "db \<Rightarrow> db \<Rightarrow> bool"
    and lease :: "uid \<Rightarrow> db \<Rightarrow> (string \<times> int) option"
    and commit :: "'c \<Rightarrow> db \<Rightarrow> repo_err + db"
    and legal :: "'c \<Rightarrow> bool"
    and target :: "'c \<Rightarrow> uid"
    and holder :: "'c \<Rightarrow> string"
    and revision :: "'c \<Rightarrow> int"
  assumes accepted: "inv d \<Longrightarrow> commit c d = Inr d' \<Longrightarrow> lease (target c) d = Some (holder c, revision c)"
    and advances: "inv d \<Longrightarrow> commit c d = Inr d' \<Longrightarrow> lease (target c) d' = Some ([], revision c + 1)"
    and keeps: "inv d \<Longrightarrow> commit c d = Inr d' \<Longrightarrow> legal c \<Longrightarrow> inv d'"
    and later_inv: "later d d' \<Longrightarrow> inv d \<Longrightarrow> inv d'"
    and grows: "later d d' \<Longrightarrow> inv d \<Longrightarrow> lease i d = Some (w, r) \<Longrightarrow> \<exists>w' r'. lease i d' = Some (w', r') \<and> r \<le> r'"
begin

lemma stale:
  assumes "inv d" "lease (target c) d = Some (w, r)" "revision c < r"
  shows "\<exists>e. commit c d = Inl e"
  using accepted [OF assms(1), of c] assms(2, 3) by (cases "commit c d") auto

lemma foreign:
  assumes "inv d" "lease (target c) d = Some (w, r)" "holder c \<noteq> w"
  shows "\<exists>e. commit c d = Inl e"
  using accepted [OF assms(1), of c] assms(2, 3) by (cases "commit c d") auto

lemma stale_later:
  assumes "inv d" "later d d'" "lease (target c) d = Some (w, r)" "revision c < r"
  shows "\<exists>e. commit c d' = Inl e"
  using grows [OF assms(2, 1, 3)] later_inv [OF assms(2, 1)] stale assms(4) by fastforce

lemma once:
  assumes "inv d" "commit c d = Inr d1" "legal c" "later d1 d2"
    and "target c' = target c" "revision c' \<le> revision c"
  shows "\<exists>e. commit c' d2 = Inl e"
proof (rule stale_later [OF keeps [OF assms(1-3)] assms(4)])
  show "lease (target c') d1 = Some ([], revision c + 1)" using advances [OF assms(1, 2)] assms(5) by simp
  show "revision c' < revision c + 1" using assms(6) by simp
qed

end

section \<open>Commits of an instance\<close>

text \<open>The three ways a worker gives a claimed instance back, with the clocks they read.\<close>

datatype instance_commit =
    Checkpointing runtime time time Checkpoint
  | Joining runtime time time JoinCheckpoint
  | Forking runtime time time ForkParallel

fun commit_instance :: "instance_commit \<Rightarrow> db \<Rightarrow> repo_err + db" where
  "commit_instance (Checkpointing rt dbnow now c) d = CheckpointOp rt dbnow now c d"
| "commit_instance (Joining rt dbnow now j) d = JoinParallel rt dbnow now j d"
| "commit_instance (Forking rt dbnow now f) d =
     (if fp_parent_branch f = None then bindR (Fork rt dbnow now f d) (\<lambda>(r, d'). Inr d') else Inl ErrStatusConflict)"

fun commit_target :: "instance_commit \<Rightarrow> uid \<times> string \<times> int" where
  "commit_target (Checkpointing _ _ _ c) = (cp_instance c, cp_worker c, cp_revision c)"
| "commit_target (Joining _ _ _ j) =
     (cp_instance (jc_checkpoint j), cp_worker (jc_checkpoint j), cp_revision (jc_checkpoint j))"
| "commit_target (Forking _ _ _ f) = (fp_instance f, fp_worker f, fp_revision f)"

definition commit_id :: "instance_commit \<Rightarrow> uid" where "commit_id c = fst (commit_target c)"
definition commit_worker :: "instance_commit \<Rightarrow> string" where "commit_worker c = fst (snd (commit_target c))"
definition commit_revision :: "instance_commit \<Rightarrow> int" where "commit_revision c = snd (snd (commit_target c))"

text \<open>What the engine passes: a named worker and a transition out of running.\<close>

fun commit_legal :: "instance_commit \<Rightarrow> bool" where
  "commit_legal (Checkpointing _ _ _ c) \<longleftrightarrow> cp_worker c \<noteq> [] \<and> CanWorkflowTransition WorkflowRunning (cp_status c)"
| "commit_legal (Joining _ _ _ j) \<longleftrightarrow> cp_worker (jc_checkpoint j) \<noteq> [] \<and>
     CanWorkflowTransition WorkflowRunning (cp_status (jc_checkpoint j))"
| "commit_legal (Forking _ _ _ f) \<longleftrightarrow> fp_worker f \<noteq> []"

lemma fence_lease:
  assumes "count_where (instance_fence i rv w) (instances d) = 1" "distinct_ids d"
  shows "\<exists>m. find_instance i d = Some m \<and> wm_revision m = rv \<and> wm_leased_by m = w"
proof -
  have "count_where (instance_fence i rv w) (instances d) =
      (case find_instance i d of None \<Rightarrow> 0 | Some r \<Rightarrow> if instance_fence i rv w r then 1 else 0)"
    using assms(2) by (intro count_where_by_key) (simp_all add: distinct_ids_def instance_fence_def)
  from trans [OF sym [OF this] assms(1)] show ?thesis
    by (cases "find_instance i d") (auto simp: instance_fence_def split: if_split_asm)
qed

text \<open>A fenced update read back: the row at the next revision, without a holder.\<close>

lemma fenced_row:
  assumes "instances d' = update_where (instance_fence i rv w) f (instances d)" "distinct_ids d"
    and "count_where (instance_fence i rv w) (instances d) = 1"
    and "\<And>m. wm_id (f m) = wm_id m \<and> wm_leased_by (f m) = [] \<and> wm_revision (f m) = wm_revision m + 1"
  shows "instance_lease i d = Some (w, rv)" "instance_lease i d' = Some ([], rv + 1)"
proof -
  from fence_lease [OF assms(3, 2)] obtain m where
    m: "find_instance i d = Some m" "wm_revision m = rv" "wm_leased_by m = w" by blast
  then have id: "wm_id m = i" using by_key_SomeD by fastforce
  have "find_instance i d' = map_option (\<lambda>r. if instance_fence i rv w r then f r else r) (find_instance i d)"
    unfolding assms(1) using assms(4) by (intro by_key_update_where) simp
  with m id assms(4) show "instance_lease i d = Some (w, rv)" "instance_lease i d' = Some ([], rv + 1)"
    by (auto simp: instance_lease_def instance_fence_def)
qed

lemma checkpoint_row_fields:
  "wm_id (checkpoint_row t c m) = wm_id m \<and> wm_leased_by (checkpoint_row t c m) = [] \<and>
   wm_revision (checkpoint_row t c m) = wm_revision m + 1"
  by (simp add: checkpoint_row_def)

lemma fork_row_fields:
  "wm_id (fork_parent_row t f m) = wm_id m \<and> wm_leased_by (fork_parent_row t f m) = [] \<and>
   wm_revision (fork_parent_row t f m) = wm_revision m + 1"
  by (simp add: fork_parent_row_def)

lemma create_branches_instances: "create_branches rows d = Inr d' \<Longrightarrow> instances d' = instances d"
  by (induction rows arbitrary: d) (auto simp: bindR_Inr_iff)

lemma fork_branches_core: "fork_branches rt now x f bs d = (rows, d') \<Longrightarrow> core d' = core d"
  using fork_branches_rows by blast

lemma Fork_instance:
  assumes "Fork rt dbnow now f d = Inr (r, d')" "fp_parent_branch f = None"
  shows "instances d' = update_where (instance_fence (fp_instance f) (fp_revision f) (fp_worker f))
      (fork_parent_row dbnow f) (instances d)"
    and "count_where (instance_fence (fp_instance f) (fp_revision f) (fp_worker f)) (instances d) = 1"
proof -
  define x where "x = fst (newRepoID rt d)"
  define d1 where "d1 = snd (newRepoID rt d)"
  obtain rows' d2 where fb: "fork_branches rt now x f (fp_branches f) d1 = (rows', d2)"
    by (cases "fork_branches rt now x f (fp_branches f) d1")
  have c2: "instances d2 = instances d"
    using fork_branches_core [OF fb] core_newRepoID [of rt d] by (simp add: core_def d1_def)
  from assms(1) obtain e xt d4 where e: "fork_park dbnow f d2 = Inr e"
    and d4: "create_branches rows' (e\<lparr>executions := xt\<rparr>) = Inr d4" and res: "core d' = core d4"
    by (auto simp: Fork_def x_def [symmetric] d1_def [symmetric] fb case_prod_beta Let_def bindR_Inr_iff
        prod_eq_iff split: if_split_asm dest: core_enqueue simp flip: x_def d1_def)
  have "instances d' = instances e" using core_eqD(1) [OF res] create_branches_instances [OF d4] by simp
  with e assms(2) c2 show "instances d' = update_where (instance_fence (fp_instance f) (fp_revision f) (fp_worker f))
      (fork_parent_row dbnow f) (instances d)"
    "count_where (instance_fence (fp_instance f) (fp_revision f) (fp_worker f)) (instances d) = 1"
    by (auto simp: fork_park_def Let_def split: if_split_asm)
qed

lemma JoinParallel_commit:
  assumes "JoinParallel rt dbnow now j d = Inr d'"
  obtains e where "execInstanceCheckpointTx rt dbnow now (jc_checkpoint j) d = Inr e" "instances d' = instances e"
  using assms by (auto simp: JoinParallel_def join_ready_def bindR_Inr_iff complete_execution_def split: option.split_asm if_split_asm)

lemma commit_instance_row:
  assumes "commit_instance c d = Inr d'"
  obtains f where "instances d' =
      update_where (instance_fence (commit_id c) (commit_revision c) (commit_worker c)) f (instances d)"
    "count_where (instance_fence (commit_id c) (commit_revision c) (commit_worker c)) (instances d) = 1"
    "\<And>m. wm_id (f m) = wm_id m \<and> wm_leased_by (f m) = [] \<and> wm_revision (f m) = wm_revision m + 1"
proof (cases c)
  case (Checkpointing rt dbnow now p)
  with assms have "execInstanceCheckpointTx rt dbnow now p d = Inr d'" by (simp add: CheckpointOp_def)
  from core_eqD(1) [OF Checkpoint_core(1) [OF this]] Checkpoint_core(2) [OF this] Checkpointing show thesis
    by (intro that [of "checkpoint_row dbnow p"])
      (simp_all add: commit_id_def commit_revision_def commit_worker_def checkpoint_row_fields)
next
  case (Joining rt dbnow now j)
  with assms obtain e where e: "execInstanceCheckpointTx rt dbnow now (jc_checkpoint j) d = Inr e"
    "instances d' = instances e" by (auto elim: JoinParallel_commit)
  from core_eqD(1) [OF Checkpoint_core(1) [OF e(1)]] Checkpoint_core(2) [OF e(1)] e(2) Joining show thesis
    by (intro that [of "checkpoint_row dbnow (jc_checkpoint j)"])
      (simp_all add: commit_id_def commit_revision_def commit_worker_def checkpoint_row_fields)
next
  case (Forking rt dbnow now f)
  with assms obtain r where r: "Fork rt dbnow now f d = Inr (r, d')" "fp_parent_branch f = None"
    by (auto simp: bindR_Inr_iff split: if_split_asm)
  from Fork_instance [OF r] Forking show thesis
    by (intro that [of "fork_parent_row dbnow f"])
      (simp_all add: commit_id_def commit_revision_def commit_worker_def fork_row_fields)
qed

lemma commit_instance_step:
  assumes "commit_instance c d = Inr d'" "commit_legal c" "sys_inv d"
  shows "repo_step d d'"
  using assms named_fences [OF assms(3)] named_fork_fence [OF assms(3)]
  by (cases c) (auto simp: bindR_Inr_iff split: if_split_asm
      intro: repo_step.checkpoint repo_step.join repo_step.fork)

lemma instance_lease_grows:
  assumes "repo_steps d d'" "sys_inv d" "instance_lease i d = Some (w, r)"
  shows "\<exists>w' r'. instance_lease i d' = Some (w', r') \<and> r \<le> r'"
proof -
  from assms(3) obtain m where m: "m \<in> set (instances d)" "wm_id m = i" "wm_revision m = r"
    by (auto simp: instance_lease_def dest: by_key_SomeD)
  from steps_rows(1) [OF assms(1, 2) m(1)] obtain m' where
    m': "m' \<in> set (instances d')" "inst_later m m'" by blast
  have "sys_inv d'" using repo_steps_inv assms(1, 2) by blast
  then have "find_instance i d' = Some m'"
    using m' m(2) by (intro by_key_mem) (auto simp: sys_inv_def distinct_ids_def inst_later_def)
  with m' m(3) show ?thesis by (auto simp: instance_lease_def inst_later_def)
qed

interpretation icommit: fenced_commit sys_inv repo_steps instance_lease commit_instance commit_legal
  commit_id commit_worker commit_revision
proof
  fix d d' :: db and c :: instance_commit
  assume inv: "sys_inv d" and ok: "commit_instance c d = Inr d'"
  then have dist: "distinct_ids d" by (simp add: sys_inv_def)
  from ok show "instance_lease (commit_id c) d = Some (commit_worker c, commit_revision c)"
    by (rule commit_instance_row) (rule fenced_row(1) [OF _ dist])
  from ok show "instance_lease (commit_id c) d' = Some ([], commit_revision c + 1)"
    by (rule commit_instance_row) (rule fenced_row(2) [OF _ dist])
  show "sys_inv d'" if "commit_legal c"
    using repo_step_preserves [OF commit_instance_step [OF ok that inv] inv] by simp
next
  show "sys_inv d'" if "repo_steps d d'" "sys_inv d" for d d' using repo_steps_inv that by blast
  show "\<exists>w' r'. instance_lease i d' = Some (w', r') \<and> r \<le> r'"
    if "repo_steps d d'" "sys_inv d" "instance_lease i d = Some (w, r)" for d d' i w r
    using instance_lease_grows that by blast
qed

section \<open>Commits of a branch\<close>

datatype branch_commit =
    BranchCheckpointing time BranchCheckpoint
  | BranchJoining time time JoinBranchCheckpoint

fun commit_branch :: "branch_commit \<Rightarrow> db \<Rightarrow> repo_err + db" where
  "commit_branch (BranchCheckpointing dbnow c) d = CheckpointBranch dbnow c d"
| "commit_branch (BranchJoining dbnow now j) d = JoinBranchParallel dbnow now j d"

fun branch_request :: "branch_commit \<Rightarrow> BranchCheckpoint" where
  "branch_request (BranchCheckpointing _ c) = c"
| "branch_request (BranchJoining _ _ j) = jb_checkpoint j"

definition branch_commit_legal :: "branch_commit \<Rightarrow> bool" where
  "branch_commit_legal c \<longleftrightarrow> bc_worker (branch_request c) \<noteq> [] \<and> bc_status (branch_request c) = BranchWaiting"

lemma CheckpointBranch_lease:
  assumes "CheckpointBranch dbnow c d = Inr d'" "distinct_ids d"
  shows "branch_lease (bc_branch c) d = Some (bc_worker c, bc_revision c)"
    "branch_lease (bc_branch c) d' = Some ([], bc_revision c + 1)"
proof -
  let ?p = "branch_fence (bc_branch c) (bc_revision c) (bc_worker c)"
  from assms(1) have n: "count_where ?p (branches d) = 1" and d': "d' = update_branches ?p (branch_row dbnow c) d"
    by (auto simp: CheckpointBranch_def Let_def split: if_split_asm)
  have "count_where ?p (branches d) =
      (case find_branch (bc_branch c) d of None \<Rightarrow> 0 | Some r \<Rightarrow> if ?p r then 1 else 0)"
    using assms(2) by (intro count_where_by_key) (simp_all add: distinct_ids_def branch_fence_def)
  from trans [OF sym [OF this] n] obtain b where b: "find_branch (bc_branch c) d = Some b" "?p b"
    by (cases "find_branch (bc_branch c) d") (auto split: if_split_asm)
  have "find_branch (bc_branch c) d' = map_option (\<lambda>r. if ?p r then branch_row dbnow c r else r) (find_branch (bc_branch c) d)"
    unfolding d' by (simp add: by_key_update_where branch_row_def)
  with b show "branch_lease (bc_branch c) d = Some (bc_worker c, bc_revision c)"
    "branch_lease (bc_branch c) d' = Some ([], bc_revision c + 1)"
    by (simp_all add: branch_lease_def branch_fence_def branch_row_def)
qed

lemma commit_branch_checkpoint:
  assumes "commit_branch c d = Inr d'"
  obtains dbnow e where "CheckpointBranch dbnow (branch_request c) d = Inr e" "branches d' = branches e"
  using assms
  by (cases c) (auto simp: JoinBranchParallel_def join_ready_def bindR_Inr_iff complete_execution_def
      split: option.split_asm if_split_asm)

lemma branch_lease_grows:
  assumes "repo_steps d d'" "sys_inv d" "branch_lease i d = Some (w, r)"
  shows "\<exists>w' r'. branch_lease i d' = Some (w', r') \<and> r \<le> r'"
proof -
  from assms(3) obtain b where b: "b \<in> set (branches d)" "bm_id b = i" "bm_revision b = r"
    by (auto simp: branch_lease_def dest: by_key_SomeD)
  from steps_rows(2) [OF assms(1, 2) b(1)] obtain b' where
    b': "b' \<in> set (branches d')" "branch_later b b'" by blast
  have "sys_inv d'" using repo_steps_inv assms(1, 2) by blast
  then have "find_branch i d' = Some b'"
    using b' b(2) by (intro by_key_mem) (auto simp: sys_inv_def distinct_ids_def branch_later_def branch_ident_def)
  with b' b(3) show ?thesis by (auto simp: branch_lease_def branch_later_def branch_ident_def)
qed

interpretation bcommit: fenced_commit sys_inv repo_steps branch_lease commit_branch branch_commit_legal
  "\<lambda>c. bc_branch (branch_request c)" "\<lambda>c. bc_worker (branch_request c)" "\<lambda>c. bc_revision (branch_request c)"
proof
  fix d d' :: db and c :: branch_commit
  assume inv: "sys_inv d" and ok: "commit_branch c d = Inr d'"
  then have dist: "distinct_ids d" by (simp add: sys_inv_def)
  from ok obtain dbnow e where e: "CheckpointBranch dbnow (branch_request c) d = Inr e" "branches d' = branches e"
    by (rule commit_branch_checkpoint)
  note l = CheckpointBranch_lease [OF e(1) dist]
  from l(1) show "branch_lease (bc_branch (branch_request c)) d =
      Some (bc_worker (branch_request c), bc_revision (branch_request c))" .
  from l(2) e(2) show "branch_lease (bc_branch (branch_request c)) d' = Some ([], bc_revision (branch_request c) + 1)"
    by (simp add: branch_lease_def)
  show "sys_inv d'" if "branch_commit_legal c"
  proof -
    have "repo_step d d'" using ok that named_fences(2) [OF inv]
      by (cases c) (auto simp: branch_commit_legal_def intro: repo_step.checkpoint_branch repo_step.join_branch)
    with inv show ?thesis using repo_step_preserves by blast
  qed
next
  show "sys_inv d'" if "repo_steps d d'" "sys_inv d" for d d' using repo_steps_inv that by blast
  show "\<exists>w' r'. branch_lease i d' = Some (w', r') \<and> r \<le> r'"
    if "repo_steps d d'" "sys_inv d" "branch_lease i d = Some (w, r)" for d d' i w r
    using branch_lease_grows that by blast
qed

end
