(* ===== verification/Leases.thy ===== *)
theory Leases
  imports Fencing
begin

text \<open>
  What the fences and leases give: a revision admits one commit, a worker that lost
  its instance cannot write it, a claim excludes others while it lasts, a lapsed one
  does not block the instance.
\<close>

section \<open>One commit per revision\<close>

text \<open>
  C23. Once a worker has committed an instance at a revision (a checkpoint, a join or a
  fork), no commit of any kind at that or an earlier revision is ever accepted again,
  whatever happens in between.
\<close>

theorem one_commit_per_revision:
  assumes "fresh_db d0" "repo_steps d0 d"
    and "commit_instance c d = Inr d1" "commit_legal c" "repo_steps d1 d2"
    and "commit_id c' = commit_id c" "commit_revision c' \<le> commit_revision c"
  shows "\<exists>e. commit_instance c' d2 = Inl e"
  using icommit.once [OF reachable_inv [OF assms(1, 2)] assms(3-7)] .

definition join_commit :: instance_commit where
  "join_commit = Joining sample_rt 7 7 sample_join"

lemma one_commit_per_revision_witness:
  "\<exists>e. commit_instance (Checkpointing sample_rt 9 9 (sample_checkpoint 3)) db_stopped = Inl e"
proof (rule one_commit_per_revision [OF start_fresh])
  show "repo_steps start_db db_reclaimed" using run_reaches(5) run_steps(7) by (rule rtranclp.rtrancl_into_rtrancl)
  show "commit_instance join_commit db_reclaimed = Inr db_joined" using run_results(5) by (simp add: join_commit_def)
  show "repo_steps db_joined db_stopped" by (rule run_reaches(7))
qed (simp_all add: join_commit_def sample_join_def sample_checkpoint_def commit_id_def commit_revision_def)

text \<open>
  The same fence holds for a branch: after one checkpoint or nested join of it at
  a revision, every later one at that or an earlier revision is refused.
\<close>

theorem one_branch_commit_per_revision:
  assumes "fresh_db d0" "repo_steps d0 d"
    and "commit_branch c d = Inr d1" "branch_commit_legal c" "repo_steps d1 d2"
    and "bc_branch (branch_request c') = bc_branch (branch_request c)"
    and "bc_revision (branch_request c') \<le> bc_revision (branch_request c)"
  shows "\<exists>e. commit_branch c' d2 = Inl e"
  using bcommit.once [OF reachable_inv [OF assms(1, 2)] assms(3-7)] .

definition sample_branch_checkpoint :: BranchCheckpoint where
  "sample_branch_checkpoint =
     \<lparr>bc_branch = ''uu'', bc_worker = ''w1'', bc_revision = 1, bc_status = BranchWaiting, bc_reason = ReasonInput,
      bc_frame = NewFrame ''l'', bc_counters = no_counts, bc_context = None, bc_error = [], bc_run_at = None\<rparr>"

lemma one_branch_commit_per_revision_witness:
  "\<exists>e. commit_branch (BranchCheckpointing 5 sample_branch_checkpoint)
     (projr (CheckpointBranch 4 sample_branch_checkpoint db_branches)) = Inl e"
proof (rule one_branch_commit_per_revision [OF start_fresh run_reaches(3)])
  show "commit_branch (BranchCheckpointing 4 sample_branch_checkpoint) db_branches =
      Inr (projr (CheckpointBranch 4 sample_branch_checkpoint db_branches))" by code_simp
qed (simp_all add: sample_branch_checkpoint_def branch_commit_legal_def)

section \<open>Commits that are refused\<close>

text \<open>A commit at a revision the row has left, now or later.\<close>

lemma stale_commit:
  assumes "sys_inv d" "instance_lease i d = Some (w, r)" "repo_steps d d2" "commit_id c = i" "commit_revision c < r"
  shows "\<exists>e. commit_instance c d2 = Inl e"
  using icommit.stale_later [OF assms(1, 3), of c] assms(2, 4, 5) by blast

lemma update_lease:
  assumes "find_instance i d = Some m" "\<And>m. wm_id (f m) = wm_id m"
  shows "instance_lease i (update_instances (\<lambda>r. wm_id r = i) f d) = Some (wm_leased_by (f m), wm_revision (f m))"
  using assms by_key_SomeD [OF assms(1)] by (simp add: instance_lease_def by_key_update_where)

lemma core_instance_lease: "core d' = core d \<Longrightarrow> instance_lease i d' = instance_lease i d"
  using core_eqD(1) [of d' d] by (simp add: instance_lease_def)

lemma cancel_parallel_lease: "instance_lease j (cancel_parallel clr now i e) = instance_lease j e"
  by (simp add: instance_lease_def cancel_parallel_tables by_key_update_where option.map_comp comp_def if_distrib cong: if_cong)

lemma Stop_live:
  assumes "Stop rt now i reason d = Inr (b, d')" "find_instance i d = Some m" "wm_status m \<noteq> WorkflowStopped"
  shows "core d' = core (cancel_parallel True now i
      (update_instances (\<lambda>r. wm_id r = i) (stop_row now reason (wm_status m = WorkflowRunning)) d))"
    "wm_status m \<in> {WorkflowWaiting, WorkflowRunning, WorkflowPaused}"
  using assms by (auto simp: Stop_def Let_def dest: core_bind_enqueue split: if_split_asm)

text \<open>
  C29. A stop fences the running worker: after \<open>Stop\<close> succeeds on an instance that was
  not stopped, every commit prepared at or before the revision it had fails, now and
  after any further operations.
\<close>

theorem stop_fences_worker:
  assumes "fresh_db d0" "repo_steps d0 d" "find_instance i d = Some m" "wm_status m \<noteq> WorkflowStopped"
    and "Stop rt now i reason d = Inr (pending, d1)" "repo_steps d1 d2"
    and "commit_id c = i" "commit_revision c \<le> wm_revision m"
  shows "\<exists>e. commit_instance c d2 = Inl e"
proof -
  have inv: "sys_inv d" using reachable_inv [OF assms(1, 2)] .
  have "sys_inv d1" using repo_step_preserves [OF repo_step.stop [OF assms(5)] inv] by simp
  moreover have "instance_lease i d1 = Some ([], wm_revision m + 1)"
    using core_instance_lease [OF Stop_live(1) [OF assms(5, 3, 4)]] assms(3)
    by (simp add: cancel_parallel_lease update_lease stop_row_def)
  ultimately show ?thesis using assms(6-8) by (intro stale_commit) auto
qed

lemma stop_fences_worker_witness:
  "\<exists>e. commit_instance (Checkpointing sample_rt 4 4 (sample_checkpoint 1))
     (snd (projr (Stop sample_rt 3 ''wf'' ''enough'' db_claimed))) = Inl e"
proof (rule stop_fences_worker [OF start_fresh run_reaches(1)])
  show "find_instance ''wf'' db_claimed = Some (hd (instances db_claimed))" by code_simp
  show "wm_status (hd (instances db_claimed)) \<noteq> WorkflowStopped" by code_simp
  show "Stop sample_rt 3 ''wf'' ''enough'' db_claimed =
      Inr (True, snd (projr (Stop sample_rt 3 ''wf'' ''enough'' db_claimed)))" by code_simp
  show "commit_revision (Checkpointing sample_rt 4 4 (sample_checkpoint 1)) \<le> wm_revision (hd (instances db_claimed))"
    by code_simp
qed (simp_all add: commit_id_def sample_checkpoint_def)

text \<open>
  \<open>Checkpoint\<close> on every branch: an unknown instance, a lost lease and a moved
  revision are told apart, and otherwise the row is rewritten and the history row and
  status updates of the transition are appended; the diagnosis never finds the fence
  intact.
\<close>

theorem Checkpoint_exact:
  assumes "distinct (map wm_id (instances d))"
  shows "CheckpointOp rt dbnow now c d =
    (case find_instance (cp_instance c) d of
       None \<Rightarrow> Inl ErrInstanceNotFound
     | Some m \<Rightarrow>
         if wm_leased_by m \<noteq> cp_worker c then Inl ErrLeaseLost
         else if wm_revision m \<noteq> cp_revision c then Inl ErrRevisionConflict
         else bindR (appendHistoryTx rt (cp_instance c) (cp_history c) now
                (update_instances (\<lambda>r. wm_id r = cp_instance c) (checkpoint_row dbnow c) d))
              (enqueueStatusUpdateTx rt (cp_instance c) (cp_definition c) (cp_revision c + 1)
                (with_reason (cp_from_status c) (cp_from_reason c)) (with_reason (cp_status c) (cp_reason c))
                (transitionEvents (with_reason (cp_from_status c) (cp_from_reason c))
                  (with_reason (cp_status c) (cp_reason c)))
                (cp_error c) (cp_context c) now))"
proof -
  let ?p = "instance_fence (cp_instance c) (cp_revision c) (cp_worker c)"
  have n: "count_where ?p (instances d) =
      (case find_instance (cp_instance c) d of None \<Rightarrow> 0 | Some r \<Rightarrow> if ?p r then 1 else 0)"
    using assms by (intro count_where_by_key) (simp_all add: instance_fence_def)
  show ?thesis
  proof (cases "find_instance (cp_instance c) d")
    case None
    with n show ?thesis
      by (simp add: CheckpointOp_def execInstanceCheckpointTx_def Let_def diagnoseInstanceFenceTx_def)
  next
    case (Some m)
    then have id: "wm_id m = cp_instance c" using by_key_SomeD by fastforce
    show ?thesis
    proof (cases "?p m")
      case True
      have "wm_id r = cp_instance c \<longleftrightarrow> ?p r" if "r \<in> set (instances d)" for r
        using by_key_mem [OF assms that] Some True by (auto simp: instance_fence_def)
      then have "update_instances (\<lambda>r. wm_id r = cp_instance c) (checkpoint_row dbnow c) d =
          update_instances ?p (checkpoint_row dbnow c) d"
        by (simp add: update_instances_def update_where_def cong: map_cong)
      with n Some True show ?thesis
        by (simp add: CheckpointOp_def execInstanceCheckpointTx_def Let_def instance_fence_def)
    next
      case False
      with n Some id show ?thesis
        by (simp add: CheckpointOp_def execInstanceCheckpointTx_def Let_def diagnoseInstanceFenceTx_def
            instance_fence_def)
    qed
  qed
qed

lemma Checkpoint_exact_witness:
  "CheckpointOp sample_rt 9 9 (sample_checkpoint 0) db_claimed = Inl ErrRevisionConflict"
proof -
  have v: "distinct (map wm_id (instances db_claimed))"
    "find_instance ''wf'' db_claimed = Some (hd (instances db_claimed))"
    "wm_leased_by (hd (instances db_claimed)) = ''w1''" "wm_revision (hd (instances db_claimed)) = 1"
    by code_simp+
  show ?thesis by (simp add: Checkpoint_exact [OF v(1)] sample_checkpoint_def v)
qed

end
