(* ===== verification/Claims.thy ===== *)
theory Claims
  imports Leases
begin

text \<open>
  Claims of \<open>ClaimNext\<close>: what is returned and written, exclusion while a lease runs,
  reclaiming after it lapses, and the heartbeat.
\<close>

section \<open>What a claim returns\<close>

lemma claim_rows_facts:
  assumes "distinct (map wm_id (instances d))"
  shows "set (claim_rows locked dbnow limit d) \<subseteq> {m \<in> set (instances d). claimable dbnow m \<and> \<not> locked (wm_id m)}"
    and "distinct (map wm_id (claim_rows locked dbnow limit d))"
    and "length (claim_rows locked dbnow limit d) =
      min limit (count_where (\<lambda>m. claimable dbnow m \<and> \<not> locked (wm_id m)) (instances d))"
proof -
  let ?u = "filter (\<lambda>m. claimable dbnow m \<and> \<not> locked (wm_id m)) (instances d)"
  show "set (claim_rows locked dbnow limit d) \<subseteq> {m \<in> set (instances d). claimable dbnow m \<and> \<not> locked (wm_id m)}"
    by (auto simp: claim_rows_def order_by_def dest: in_set_takeD)
  have "inj_on wm_id (set (instances d))" "distinct (instances d)" using assms by (simp_all add: distinct_map)
  then have "distinct (map wm_id (sort_key wm_updated_at ?u))"
    by (simp add: distinct_map inj_on_def)
  then show "distinct (map wm_id (claim_rows locked dbnow limit d))"
    by (simp add: claim_rows_def order_by_def take_map [symmetric])
  show "length (claim_rows locked dbnow limit d) =
      min limit (count_where (\<lambda>m. claimable dbnow m \<and> \<not> locked (wm_id m)) (instances d))"
    by (simp add: claim_rows_def order_by_def count_where_def)
qed

lemma claimed_row:
  assumes "distinct (map wm_id (instances d))" "m \<in> set (claim_rows locked dbnow limit d)"
  shows "find_instance (wm_id m) (snd (ClaimNext locked dbnow now w lease limit d)) = Some (claim_row now w lease m)"
proof -
  have "find_instance (wm_id m) d = Some m"
    using claim_rows_facts(1) [OF assms(1)] assms by (intro by_key_mem) auto
  with assms(2) show ?thesis
    by (simp add: ClaimNext_def Let_def by_key_update_where claim_row_def)
qed

lemma unclaimed_row:
  assumes "i \<notin> wm_id ` set (claim_rows locked dbnow limit d)"
  shows "find_instance i (snd (ClaimNext locked dbnow now w lease limit d)) = find_instance i d"
  using assms by_key_SomeD [of wm_id i "instances d"]
  by (cases "find_instance i d") (auto simp: ClaimNext_def Let_def by_key_update_where claim_row_def)

lemma sorted_take_le:
  assumes "sorted (map k xs)" "x \<in> set (take n xs)" "y \<in> set xs" "y \<notin> set (take n xs)"
  shows "k x \<le> k y"
proof -
  have "y \<in> set (drop n xs)" using assms(3, 4) by (metis Un_iff append_take_drop_id set_append)
  moreover have "sorted (map k (take n xs @ drop n xs))" using assms(1) by simp
  ultimately show ?thesis using assms(2) by (simp only: map_append sorted_append) auto
qed

text \<open>
  \<open>ClaimNext\<close> returns as many instances as the limit and the claimable, unlocked
  rows allow, each once; each was claimable and is now running, leased to the worker
  until \<open>now + lease\<close> at the next revision, exactly as returned; no other row changes,
  and no row left behind is older than a returned one.
\<close>

theorem ClaimNext_exact:
  assumes "distinct (map wm_id (instances d))" "ClaimNext locked dbnow now w lease limit d = (rows, d')"
  shows "length rows = min limit (count_where (\<lambda>m. claimable dbnow m \<and> \<not> locked (wm_id m)) (instances d)) \<and>
    distinct (map wm_id rows) \<and>
    (\<forall>r \<in> set rows. find_instance (wm_id r) d' = Some r \<and> wm_status r = WorkflowRunning \<and> wm_leased_by r = w \<and>
       wm_lease_expiry r = Some (now + lease) \<and>
       (\<exists>m \<in> set (instances d). claimable dbnow m \<and> \<not> locked (wm_id m) \<and> r = claim_row now w lease m \<and>
         (\<forall>m' \<in> set (instances d). claimable dbnow m' \<and> \<not> locked (wm_id m') \<and> wm_id m' \<notin> wm_id ` set rows \<longrightarrow>
           wm_updated_at m \<le> wm_updated_at m'))) \<and>
    (\<forall>i. i \<notin> wm_id ` set rows \<longrightarrow> find_instance i d' = find_instance i d)"
proof -
  let ?c = "claim_rows locked dbnow limit d"
  let ?u = "filter (\<lambda>m. claimable dbnow m \<and> \<not> locked (wm_id m)) (instances d)"
  have rows: "rows = map (claim_row now w lease) ?c" and d': "d' = snd (ClaimNext locked dbnow now w lease limit d)"
    using assms(2) by (auto simp: ClaimNext_def Let_def)
  have ids: "map wm_id rows = map wm_id ?c" by (simp add: rows claim_row_def comp_def)
  then have idset: "wm_id ` set rows = wm_id ` set ?c" by (metis set_map)
  note f = claim_rows_facts [OF assms(1), of locked dbnow limit]
  have oldest: "wm_updated_at m \<le> wm_updated_at m'"
    if "m \<in> set ?c" "m' \<in> set (instances d)" "claimable dbnow m'" "\<not> locked (wm_id m')" "wm_id m' \<notin> wm_id ` set rows" for m m'
  proof (rule sorted_take_le [where xs = "sort_key wm_updated_at ?u" and n = limit])
    show "m \<in> set (take limit (sort_key wm_updated_at ?u))" using that(1) by (simp add: claim_rows_def order_by_def)
    show "m' \<notin> set (take limit (sort_key wm_updated_at ?u))"
      using that(5) unfolding idset by (auto simp: claim_rows_def order_by_def)
  qed (use that in simp_all)
  have "find_instance (wm_id r) d' = Some r \<and> wm_status r = WorkflowRunning \<and> wm_leased_by r = w \<and>
      wm_lease_expiry r = Some (now + lease) \<and>
      (\<exists>m \<in> set (instances d). claimable dbnow m \<and> \<not> locked (wm_id m) \<and> r = claim_row now w lease m \<and>
         (\<forall>m' \<in> set (instances d). claimable dbnow m' \<and> \<not> locked (wm_id m') \<and> wm_id m' \<notin> wm_id ` set rows \<longrightarrow>
           wm_updated_at m \<le> wm_updated_at m'))"
    if "r \<in> set rows" for r
  proof -
    from that obtain m where m: "m \<in> set ?c" "r = claim_row now w lease m" by (auto simp: rows)
    have "find_instance (wm_id r) d' = Some r"
      using claimed_row [OF assms(1) m(1)] by (simp add: d' m(2)) (simp add: claim_row_def)
    moreover have "m \<in> set (instances d)" "claimable dbnow m" "\<not> locked (wm_id m)" using f(1) m(1) by auto
    ultimately show ?thesis using m oldest by (auto simp: claim_row_def)
  qed
  moreover have "find_instance i d' = find_instance i d" if "i \<notin> wm_id ` set rows" for i
    using that unclaimed_row unfolding d' idset by blast
  moreover have "length rows = min limit (count_where (\<lambda>m. claimable dbnow m \<and> \<not> locked (wm_id m)) (instances d))"
    using f(3) by (simp add: rows)
  moreover have "distinct (map wm_id rows)" using f(2) by (simp add: ids)
  ultimately show ?thesis by blast
qed

lemma ClaimNext_exact_witness:
  "length (fst (ClaimNext none_locked 1 1 ''w1'' 30 5 db_inserted)) = 1"
proof -
  have v: "distinct (map wm_id (instances db_inserted))"
    "count_where (\<lambda>m. claimable 1 m \<and> \<not> none_locked (wm_id m)) (instances db_inserted) = 1"
    by code_simp+
  from ClaimNext_exact [OF v(1) prod.collapse [symmetric], of none_locked 1 1 "''w1''" 30 5] v(2)
  show ?thesis by simp
qed

section \<open>Exclusion and recovery\<close>

text \<open>
  C31. While a claim's lease runs no other claim returns the instance: a second
  \<open>ClaimNext\<close>, whatever worker and locks, that reads the clock at or before
  \<open>now + lease\<close> returns none of the rows of the first.
\<close>

theorem claims_exclude:
  assumes "distinct (map wm_id (instances d))"
    and "ClaimNext locked dbnow now w lease limit d = (rows, d1)"
    and "ClaimNext locked2 dbnow2 now2 w2 lease2 limit2 d1 = (rows2, d2)"
    and "dbnow2 \<le> now + lease"
  shows "wm_id ` set rows \<inter> wm_id ` set rows2 = {}"
proof -
  let ?c = "claim_rows locked dbnow limit d" and ?c2 = "claim_rows locked2 dbnow2 limit2 d1"
  have d1: "d1 = snd (ClaimNext locked dbnow now w lease limit d)" using assms(2) by simp
  have rows: "rows = map (claim_row now w lease) ?c" "rows2 = map (claim_row now2 w2 lease2) ?c2"
    using assms(2, 3) by (auto simp: ClaimNext_def Let_def)
  have dist: "distinct (map wm_id (instances d1))"
    using assms(1) by (simp add: d1 ClaimNext_def Let_def map_update_where_key claim_row_def)
  have False if m: "m \<in> set ?c" and n: "n \<in> set ?c2" and eq: "wm_id n = wm_id m" for m n
  proof -
    have "find_instance (wm_id m) d1 = Some (claim_row now w lease m)" using claimed_row [OF assms(1) m] by (simp add: d1)
    moreover have "n \<in> set (instances d1)" "claimable dbnow2 n" using claim_rows_facts(1) [OF dist] n by auto
    moreover from this(1) have "find_instance (wm_id m) d1 = Some n" using dist eq by (intro by_key_mem) simp_all
    ultimately show False
      using assms(4) by (auto simp: claimable_def claim_row_def expired_def)
  qed
  then show ?thesis unfolding rows by (auto simp: claim_row_def) metis
qed

lemma claims_exclude_witness:
  "''wf'' \<notin> wm_id ` set (fst (ClaimNext none_locked 31 31 ''w2'' 30 5 db_claimed))"
proof -
  have v: "distinct (map wm_id (instances db_inserted))"
    "''wf'' \<in> wm_id ` set (fst (ClaimNext none_locked 1 1 ''w1'' 30 5 db_inserted))" by code_simp+
  have "ClaimNext none_locked 1 1 ''w1'' 30 5 db_inserted =
      (fst (ClaimNext none_locked 1 1 ''w1'' 30 5 db_inserted), db_claimed)" by (simp add: db_claimed_def)
  from claims_exclude [OF v(1) this prod.collapse [symmetric], of 31 none_locked 31 "''w2''" 30 5] v(2)
  show ?thesis by auto
qed

text \<open>
  A crashed worker does not block its instance: in every reachable repository each
  running instance has a time from which every \<open>ClaimNext\<close> with enough room that does
  not skip it hands it to the calling worker, at a revision the old worker does not hold.
\<close>

theorem lapsed_lease_reclaimed:
  assumes "fresh_db d0" "repo_steps d0 d" "m \<in> set (instances d)" "wm_status m = WorkflowRunning"
  shows "\<exists>t. \<forall>dbnow > t. \<forall>locked now w lease limit. \<not> locked (wm_id m) \<longrightarrow> length (instances d) \<le> limit \<longrightarrow>
    claim_row now w lease m \<in> set (fst (ClaimNext locked dbnow now w lease limit d)) \<and>
    wm_revision (claim_row now w lease m) = wm_revision m + 1"
proof -
  have "inst_ok m" using reachable_inv [OF assms(1, 2)] assms(3) by (simp add: sys_inv_def list_all_iff)
  with assms(4) obtain t where t: "wm_lease_expiry m = Some t" by (auto simp: inst_ok_def)
  have "claim_row now w lease m \<in> set (fst (ClaimNext locked dbnow now w lease limit d))"
    if "t < dbnow" "\<not> locked (wm_id m)" "length (instances d) \<le> limit" for dbnow locked now w lease limit
  proof -
    have "length (filter (\<lambda>m. claimable dbnow m \<and> \<not> locked (wm_id m)) (instances d)) \<le> limit"
      using that(3) length_filter_le le_trans by blast
    moreover have "claimable dbnow m" using assms(4) t that(1) by (simp add: claimable_def expired_def)
    ultimately have "m \<in> set (claim_rows locked dbnow limit d)"
      using assms(3) that(2) by (simp add: claim_rows_def order_by_def)
    then show ?thesis by (simp add: ClaimNext_def Let_def)
  qed
  then show ?thesis by (intro exI [of _ t]) (simp add: claim_row_def)
qed

lemma lapsed_lease_reclaimed_witness:
  "\<exists>t. claim_row 9 ''w2'' 30 (hd (instances db_claimed)) \<in>
     set (fst (ClaimNext none_locked (t + 1) 9 ''w2'' 30 1 db_claimed))"
proof -
  have v: "hd (instances db_claimed) \<in> set (instances db_claimed)"
    "wm_status (hd (instances db_claimed)) = WorkflowRunning" "length (instances db_claimed) \<le> 1" by code_simp+
  from lapsed_lease_reclaimed [OF start_fresh run_reaches(1) v(1, 2)] obtain t where
    "\<forall>dbnow > t. \<forall>locked now w lease limit. \<not> locked (wm_id (hd (instances db_claimed))) \<longrightarrow>
      length (instances db_claimed) \<le> limit \<longrightarrow>
      claim_row now w lease (hd (instances db_claimed)) \<in> set (fst (ClaimNext locked dbnow now w lease limit db_claimed)) \<and>
      wm_revision (claim_row now w lease (hd (instances db_claimed))) = wm_revision (hd (instances db_claimed)) + 1" ..
  from this [rule_format, of "t + 1" none_locked 1 9 "''w2''" 30] v(3) show ?thesis by (auto simp: none_locked_def)
qed

section \<open>Heartbeat\<close>

lemma fold_update_where:
  assumes "\<And>r. k (f r) = k r" "\<And>r. p (f r) = p r" "\<And>r. f (f r) = f r"
  shows "fold (\<lambda>i. update_where (\<lambda>r. k r = i \<and> p r) f) t u = update_where (\<lambda>r. k r \<in> set t \<and> p r) f u"
proof (induction t arbitrary: u)
  case Nil
  then show ?case by (simp add: update_where_def)
next
  case (Cons i t)
  have "update_where (\<lambda>r. k r \<in> set t \<and> p r) f (update_where (\<lambda>r. k r = i \<and> p r) f u) =
      update_where (\<lambda>r. k r \<in> set (i # t) \<and> p r) f u"
    using assms by (auto simp: update_where_def)
  with Cons show ?case by simp
qed

text \<open>
  The batched heartbeat is the per-instance one: \<open>RenewLeases\<close> is \<open>RenewLease\<close> of
  every instance in turn with the same worker and lease, the refusals ignored.
\<close>

theorem RenewLeases_each:
  "RenewLeases dbnow w lease d =
    fold (\<lambda>i s. case RenewLease dbnow i w lease s of Inl _ \<Rightarrow> s | Inr s' \<Rightarrow> s') (map wm_id (instances d)) d"
proof -
  let ?f = "\<lambda>m :: WorkflowInstanceModel. m\<lparr>wm_lease_expiry := Some (dbnow + whole_seconds lease)\<rparr>"
  let ?p = "\<lambda>m :: WorkflowInstanceModel. wm_leased_by m = w \<and> wm_status m = WorkflowRunning"
  have one: "(case RenewLease dbnow i w lease s of Inl _ \<Rightarrow> s | Inr s' \<Rightarrow> s') =
      s\<lparr>instances := update_where (\<lambda>m. wm_id m = i \<and> ?p m) ?f (instances s)\<rparr>" for i s
  proof (cases "count_where (\<lambda>m. wm_id m = i \<and> ?p m) (instances s) = 0")
    case True
    then have "update_where (\<lambda>m. wm_id m = i \<and> ?p m) ?f (instances s) = instances s"
      by (auto simp: count_where_0_iff update_where_def intro!: map_idI)
    with True show ?thesis by (simp add: RenewLease_def Let_def)
  next
    case False
    then show ?thesis by (simp add: RenewLease_def Let_def update_instances_def)
  qed
  have rows: "fold (\<lambda>i s. s\<lparr>instances := update_where (\<lambda>m. wm_id m = i \<and> ?p m) ?f (instances s)\<rparr>) t s =
      s\<lparr>instances := fold (\<lambda>i. update_where (\<lambda>m. wm_id m = i \<and> ?p m) ?f) t (instances s)\<rparr>" for t s
    by (induction t arbitrary: s) simp_all
  have all: "fold (\<lambda>i. update_where (\<lambda>m. wm_id m = i \<and> ?p m) ?f) t u =
      update_where (\<lambda>m. wm_id m \<in> set t \<and> ?p m) ?f u" for t u
    by (rule fold_update_where) simp_all
  have "update_where (\<lambda>m. wm_id m \<in> set (map wm_id (instances d)) \<and> ?p m) ?f (instances d) =
      update_where ?p ?f (instances d)"
    by (auto simp: update_where_def)
  then show ?thesis unfolding one rows all by (simp add: RenewLeases_def update_instances_def)
qed

end
