(* ===== verification/Cascade.thy ===== *)
theory Cascade
  imports Claims
begin

text \<open>
  How far a failure, a stop and a pause reach: the cascade under a failed branch, the
  rows a stop settles, the commits a pause request refuses.
\<close>

section \<open>Executions below an execution\<close>

text \<open>
  \<open>nested d ids y\<close>: execution \<open>y\<close> is one of \<open>ids\<close> or is live and forked, through live
  executions, by a branch below them.
\<close>

inductive nested :: "db \<Rightarrow> uid list \<Rightarrow> uid \<Rightarrow> bool" for d ids where
  root: "i \<in> set ids \<Longrightarrow> nested d ids i"
| child: "nested d ids i \<Longrightarrow> b \<in> set (branches d) \<Longrightarrow> bm_execution b = i \<Longrightarrow> x \<in> set (executions d) \<Longrightarrow>
    live_execution x \<Longrightarrow> xm_parent_branch x = Some (bm_id b) \<Longrightarrow> nested d ids (xm_id x)"

definition settled :: "db \<Rightarrow> uid \<Rightarrow> bool" where
  "settled d i \<longleftrightarrow> (\<forall>b \<in> set (branches d). bm_execution b = i \<longrightarrow> \<not> live_branch b)"

definition resolved_execution :: "db \<Rightarrow> uid \<Rightarrow> bool" where
  "resolved_execution d i \<longleftrightarrow> (\<forall>x \<in> set (executions d). xm_id x = i \<longrightarrow> \<not> live_execution x)"

lemma list_all2_source: "list_all2 R t u \<Longrightarrow> r' \<in> set u \<Longrightarrow> \<exists>r \<in> set t. R r r'"
  by (induction rule: list_all2_induct) auto

lemma list_all2_image: "list_all2 R t u \<Longrightarrow> r \<in> set t \<Longrightarrow> \<exists>r' \<in> set u. R r r'"
  by (induction rule: list_all2_induct) auto

lemma branch_end_live: "branch_end b b' \<Longrightarrow> live_branch b' \<Longrightarrow> live_branch b"
  by (auto simp: branch_end_def live_branch_def)

lemma exec_end_live: "exec_end x x' \<Longrightarrow> live_execution x' \<Longrightarrow> live_execution x"
  by (auto simp: exec_end_def live_execution_def)

lemma ends_settled: "ends d d' \<Longrightarrow> settled d i \<Longrightarrow> settled d' i"
  unfolding settled_def ends_def
  by (metis branch_end_live branch_end_def branch_ident_def list_all2_source)

lemma ends_resolved: "ends d d' \<Longrightarrow> resolved_execution d i \<Longrightarrow> resolved_execution d' i"
  unfolding resolved_execution_def ends_def
  by (metis exec_end_live exec_end_def exec_ident_def list_all2_source)

text \<open>After one round the rest of the subtree hangs below the next level.\<close>

lemma nested_next_level:
  assumes "nested d ids y" "d1 = cancel_level now ids d" "ids' = nested_live (branch_ids_of ids d) d1"
  shows "y \<in> set ids \<or> nested (cancel_nested now ids' d1) ids' y"
  using assms(1)
proof (induction rule: nested.induct)
  case (root i)
  then show ?case by simp
next
  case (child i b x)
  let ?d2 = "cancel_nested now ids' d1"
  have ex: "executions d1 = executions d" by (simp add: assms(2))
  show ?case
  proof (cases "xm_id x \<in> set ids'")
    case True
    then show ?thesis by (simp add: nested.root)
  next
    case new: False
    have "i \<notin> set ids"
    proof
      assume "i \<in> set ids"
      with child.hyps have "xm_id x \<in> set ids'"
        by (auto simp: assms(3) nested_live_def branch_ids_of_def ex intro!: image_eqI)
      with new show False by simp
    qed
    with child.IH have n: "nested ?d2 ids' i" by simp
    have "x \<in> set (executions ?d2)"
      using child.hyps(4) new by (auto simp: cancel_nested_def ex set_update_where)
    moreover obtain b' where "b' \<in> set (branches ?d2)" "branch_end b b'"
      using child.hyps(2) list_all2_image [of branch_end "branches d" "branches d1" b] ends_cancel_level [of d now ids]
      by (auto simp: ends_def assms(2) cancel_nested_def)
    ultimately have "nested ?d2 ids' (xm_id x)"
      using n child.hyps(3, 5, 6) by (intro nested.child [OF n, of b']) (auto simp: branch_end_def branch_ident_def)
    then show ?thesis ..
  qed
qed

lemma settled_level: "i \<in> set ids \<Longrightarrow> settled (cancel_level now ids d) i"
  by (auto simp: settled_def cancel_level_def set_update_where live_branch_def cancel_branch_def)

lemma resolved_level: "i \<in> set ids \<Longrightarrow> resolved_execution (cancel_nested now ids d) i"
  by (auto simp: resolved_execution_def cancel_nested_def set_update_where live_execution_def cancel_execution_def)

lemma cancel_subtree_complete:
  "distinct_ids d \<Longrightarrow> nested d ids y \<Longrightarrow>
   settled (cancelExecutionSubtreeTx now ids d) y \<and>
   (y \<notin> set ids \<longrightarrow> resolved_execution (cancelExecutionSubtreeTx now ids d) y)"
proof (induction now ids d arbitrary: y rule: cancelExecutionSubtreeTx.induct)
  case (1 now ids d)
  define d1 where "d1 = cancel_level now ids d"
  define ids' where "ids' = nested_live (branch_ids_of ids d) d1"
  define d2 where "d2 = cancel_nested now ids' d1"
  have e1: "ends d d1" by (simp add: d1_def ends_cancel_level)
  have dist1: "distinct_ids d1" using e1 1(2) by (rule ends_distinct)
  have e2: "ends d1 d2" unfolding d2_def ids'_def using dist1 by (rule ends_cancel_nested)
  have dist2: "distinct_ids d2" using e2 dist1 by (rule ends_distinct)
  have res: "cancelExecutionSubtreeTx now ids d = (if ids' = [] then d1 else cancelExecutionSubtreeTx now ids' d2)"
    by (subst cancelExecutionSubtreeTx.simps) (simp add: Let_def d1_def ids'_def d2_def)
  have below: "y \<in> set ids \<or> nested d2 ids' y"
    using nested_next_level [OF 1(3) d1_def ids'_def] by (simp add: d2_def)
  show ?case
  proof (cases "ids' = []")
    case True
    have "nested d2 ids' i \<Longrightarrow> False" for i
      by (induction rule: nested.induct) (simp_all add: True)
    with below have "y \<in> set ids" by blast
    then show ?thesis by (simp add: res True d1_def settled_level)
  next
    case False
    have e3: "ends d2 (cancelExecutionSubtreeTx now ids' d2)" using dist2 by (rule ends_cancel_subtree)
    show ?thesis
    proof (cases "y \<in> set ids")
      case True
      then have "settled d1 y" by (simp add: d1_def settled_level)
      then have "settled (cancelExecutionSubtreeTx now ids' d2) y" by (rule ends_settled [OF e3 ends_settled [OF e2]])
      with True False show ?thesis by (simp add: res)
    next
      case new: False
      with below have n: "nested d2 ids' y" by blast
      have "settled (cancelExecutionSubtreeTx now ids' d2) y \<and>
          (y \<notin> set ids' \<longrightarrow> resolved_execution (cancelExecutionSubtreeTx now ids' d2) y)"
        using "1.IH" [OF d1_def ids'_def False] dist2 n by (simp add: d2_def)
      moreover have "resolved_execution (cancelExecutionSubtreeTx now ids' d2) y" if "y \<in> set ids'"
        using ends_resolved [OF e3] resolved_level [OF that, of now d1] by (simp add: d2_def)
      ultimately show ?thesis using False by (auto simp: res)
    qed
  qed
qed

section \<open>A failing branch\<close>

lemma nested_fail_root:
  assumes "nested d [i] y" "branches d' = update_where p f (branches d)" "\<And>b. bm_id (f b) = bm_id b \<and> bm_execution (f b) = bm_execution b"
    and "executions d' = update_where (\<lambda>x. xm_id x = i) g (executions d)"
  shows "nested d' [i] y"
  using assms(1)
proof (induction rule: nested.induct)
  case (root j)
  then show ?case by (rule nested.root)
next
  case (child j b x)
  show ?case
  proof (cases "xm_id x = i")
    case True
    then show ?thesis by (simp add: nested.root)
  next
    case False
    then have "x \<in> set (executions d')" using child.hyps(4) by (auto simp: assms(4) set_update_where)
    moreover have "(if p b then f b else b) \<in> set (branches d')"
      using child.hyps(2) by (auto simp: assms(2) set_update_where)
    ultimately show ?thesis
      using child.IH child.hyps assms(3)
      by (intro nested.child [of d' "[i]" j "if p b then f b else b" x]) auto
  qed
qed

lemma fail_parent_frames:
  "fail_parent rt dbnow now i msg d = Inr (b, d') \<Longrightarrow> branches d' = branches d \<and> executions d' = executions d"
  by (auto simp: fail_parent_def Let_def core_def split: if_split_asm dest!: core_bind_enqueue)

lemma cascade_settles:
  assumes "failBranchCascadeTx rt dbnow now leaf msg d = Inr (b, d')" "distinct_ids d"
    and leaf: "find_branch (bm_id leaf) d = Some leaf" "live_branch leaf"
    and ex: "find_execution (bm_execution leaf) d = Some ex" "live_execution ex"
    and "nested d [bm_execution leaf] y"
  shows "settled d' y \<and> resolved_execution d' y"
proof -
  define d1 where "d1 = fail_branch now msg (bm_id leaf) d"
  define f1 where "f1 = update_executions (\<lambda>x. xm_id x = xm_id ex) (fail_execution_row now) d1"
  define d2 where "d2 = fail_execution_tree now (xm_id ex) d1"
  have id: "xm_id ex = bm_execution leaf" using by_key_SomeD [OF ex(1)] by simp
  have e1: "ends d d1" unfolding d1_def using leaf assms(2) by (rule ends_fail_branch)
  have dist1: "distinct_ids d1" using e1 assms(2) by (rule ends_distinct)
  have ex1: "find_execution (bm_execution leaf) d1 = Some ex" using ex(1) by (simp add: d1_def)
  have e2: "ends d1 d2" unfolding d2_def
    using ex1 ex(2) dist1 id by (intro ends_fail_tree [where x = ex]) simp_all
  have dist2: "distinct_ids d2" using e2 dist1 by (rule ends_distinct)
  have nt: "\<not> parallelExecutionTerminal (xm_status ex)" using ex(2) by (simp add: live_not_terminal)
  obtain ex1' d3 where climb: "climb_failure now msg ex d2 = (ex1', d3)" by (cases "climb_failure now msg ex d2")
  from assms(1) have fp: "fail_parent rt dbnow now (xm_instance ex1') (branch_failure_text (bm_name leaf) msg) d3 = Inr (b, d')"
    by (simp add: failBranchCascadeTx_def Let_def d1_def [symmetric] ex1 nt d2_def [symmetric] climb)
  have e3: "ends d2 d3" using dist2 climb by (rule ends_climb)
  have distf: "distinct_ids f1" using dist1 by (simp add: f1_def distinct_ids_def map_update_where_key fail_execution_row_def)
  have nf: "nested f1 [xm_id ex] y"
    using assms(7) unfolding id [symmetric]
    by (rule nested_fail_root [where f = "fail_branch_row now msg" and g = "fail_execution_row now"]) (simp_all add: f1_def d1_def fail_branch_def fail_branch_row_def)
  have c: "settled d2 y \<and> (y \<noteq> xm_id ex \<longrightarrow> resolved_execution d2 y)"
    using cancel_subtree_complete [OF distf nf, of now] by (simp add: d2_def fail_execution_tree_def f1_def)
  moreover have "resolved_execution d2 (xm_id ex)"
  proof (rule ends_resolved)
    show "ends f1 d2" unfolding d2_def fail_execution_tree_def f1_def [symmetric] using distf by (rule ends_cancel_subtree)
    show "resolved_execution f1 (xm_id ex)"
      by (auto simp: resolved_execution_def f1_def set_update_where live_execution_def fail_execution_row_def)
  qed
  ultimately have "settled d3 y \<and> resolved_execution d3 y" using ends_settled [OF e3] ends_resolved [OF e3] by blast
  with fail_parent_frames [OF fp] show ?thesis by (simp add: settled_def resolved_execution_def)
qed

text \<open>
  C28. Failing a branch settles its whole subtree: after a successful \<open>FailBranch\<close> of a
  live branch in a live execution, neither that execution nor any live one forked below
  it is live any more, and none of them has a live branch left.
\<close>

theorem FailBranch_settles:
  assumes "fresh_db d0" "repo_steps d0 d" "FailBranch rt dbnow now i w rv msg d = Inr (fp, d')"
    and "find_branch i d = Some leaf" "live_branch leaf"
    and "find_execution (bm_execution leaf) d = Some ex" "live_execution ex"
    and "nested d [bm_execution leaf] y"
  shows "(\<forall>b \<in> set (branches d'). bm_execution b = y \<longrightarrow> \<not> live_branch b) \<and>
    (\<forall>x \<in> set (executions d'). xm_id x = y \<longrightarrow> \<not> live_execution x)"
proof -
  have dist: "distinct_ids d" using reachable_inv [OF assms(1, 2)] by (simp add: sys_inv_def)
  have id: "bm_id leaf = i" using by_key_SomeD [OF assms(4)] by simp
  have nt: "\<not> parallelBranchTerminal (bm_status leaf)" using assms(5) by (simp add: live_not_terminal_branch)
  from assms(3) have "failBranchCascadeTx rt dbnow now leaf msg d = Inr (fp, d')"
    using nt by (auto simp: FailBranch_def assms(4) split: if_split_asm)
  from cascade_settles [OF this dist _ assms(5-8)] assms(4) id show ?thesis
    by (simp add: settled_def resolved_execution_def)
qed

lemma FailBranch_settles_witness:
  "list_all (\<lambda>b. \<not> live_branch b) (filter (\<lambda>b. bm_execution b = ''u'')
     (branches (snd (projr (FailBranch sample_rt 4 4 ''uu'' ''w1'' 1 ''boom'' db_branches)))))"
proof -
  let ?r = "FailBranch sample_rt 4 4 ''uu'' ''w1'' 1 ''boom'' db_branches"
  have v: "?r = Inr (True, snd (projr ?r))" "find_branch ''uu'' db_branches = Some (hd (branches db_branches))"
    "live_branch (hd (branches db_branches))" "bm_execution (hd (branches db_branches)) = ''u''"
    "find_execution ''u'' db_branches = Some (hd (executions db_branches))"
    "live_execution (hd (executions db_branches))" by code_simp+
  have "nested db_branches [bm_execution (hd (branches db_branches))] ''u''" by (rule nested.root) (simp add: v(4))
  from FailBranch_settles [OF start_fresh run_reaches(3) v(1, 2, 3) _ v(6) this] v(4, 5) show ?thesis
    by (simp add: list_all_iff)
qed

section \<open>Stop\<close>

lemma ball_update_where: "(\<forall>r \<in> set (update_where p f t). Q r) \<longleftrightarrow> (\<forall>r \<in> set t. Q (if p r then f r else r))"
  by (auto simp: update_where_def)

text \<open>
  A successful \<open>Stop\<close> leaves the instance stopped at the next revision, without a
  lease, and with no live branch or execution and no running branch attempt of it;
  termination is pending exactly when the instance or one of its branches was running,
  and stopping again changes nothing and reports the same.
\<close>

theorem Stop_exact:
  assumes "distinct (map wm_id (instances d))" "find_instance i d = Some m" "wm_status m \<noteq> WorkflowStopped"
    and "Stop rt now i reason d = Inr (pending, d')"
  shows "(\<exists>m'. find_instance i d' = Some m' \<and> wm_status m' = WorkflowStopped \<and> wm_leased_by m' = [] \<and>
      wm_lease_expiry m' = None \<and> wm_revision m' = wm_revision m + 1 \<and> wm_error m' = reason \<and>
      wm_termination_pending m' = pending) \<and>
    (pending \<longleftrightarrow> wm_status m = WorkflowRunning \<or>
      (\<exists>b \<in> set (branches d). bm_instance b = i \<and> bm_status b = BranchRunning)) \<and>
    (\<forall>b \<in> set (branches d'). bm_instance b = i \<longrightarrow> \<not> live_branch b) \<and>
    (\<forall>x \<in> set (executions d'). xm_instance x = i \<longrightarrow> \<not> live_execution x) \<and>
    (\<forall>n \<in> set (node_instances d'). nm_instance n = i \<and> nm_branch n \<noteq> None \<longrightarrow> nm_status n \<noteq> NodeRunning) \<and>
    Stop rt2 now2 i reason2 d' = Inr (pending, d')"
proof -
  let ?run = "wm_status m = WorkflowRunning"
  define e where "e = update_instances (\<lambda>r. wm_id r = i) (stop_row now reason ?run) d"
  have core: "core d' = core (cancel_parallel True now i e)" using Stop_live(1) [OF assms(4, 2, 3)] by (simp add: e_def)
  have pend: "pending = (?run \<or> running_branches i e > 0)"
    using assms(4) Stop_live(2) [OF assms(4, 2, 3)]
    by (auto simp: Stop_def assms(2) Let_def e_def [symmetric] bindR_Inr_iff split: if_split_asm)
  have rb: "running_branches i e > 0 \<longleftrightarrow> (\<exists>b \<in> set (branches d). bm_instance b = i \<and> bm_status b = BranchRunning)"
    by (auto simp: running_branches_def e_def count_where_def filter_empty_conv)
  note tabs = core_eqD [OF core]
  have fe: "find_instance i e = Some (stop_row now reason ?run m)"
    using assms(2) by_key_SomeD [OF assms(2)] by (simp add: e_def by_key_update_where stop_row_def)
  define m' where "m' = (if running_branches i e > 0 then (stop_row now reason ?run m)\<lparr>wm_termination_pending := True\<rparr>
      else stop_row now reason ?run m)"
  have fm: "find_instance i d' = Some m'"
    using fe by_key_SomeD [OF fe] by (auto simp: tabs cancel_parallel_tables m'_def by_key_update_where)
  have m': "wm_status m' = WorkflowStopped" "wm_leased_by m' = []" "wm_lease_expiry m' = None"
    "wm_revision m' = wm_revision m + 1" "wm_error m' = reason" "wm_termination_pending m' = pending"
    using pend by (auto simp: m'_def stop_row_def)
  have "Stop rt2 now2 i reason2 d' = Inr (pending, d')" by (simp add: Stop_def fm m')
  moreover have "\<forall>b \<in> set (branches d'). bm_instance b = i \<longrightarrow> \<not> live_branch b"
    unfolding tabs cancel_parallel_tables ball_update_where by (simp add: live_branch_def cancel_branch_def)
  moreover have "\<forall>x \<in> set (executions d'). xm_instance x = i \<longrightarrow> \<not> live_execution x"
    unfolding tabs cancel_parallel_tables ball_update_where by (simp add: live_execution_def cancel_execution_def)
  moreover have "\<forall>n \<in> set (node_instances d'). nm_instance n = i \<and> nm_branch n \<noteq> None \<longrightarrow> nm_status n \<noteq> NodeRunning"
    unfolding tabs by (simp add: cancel_parallel_def Let_def update_nodes_def ball_update_where stop_node_def) auto
  moreover have "\<exists>m'. find_instance i d' = Some m' \<and> wm_status m' = WorkflowStopped \<and> wm_leased_by m' = [] \<and>
      wm_lease_expiry m' = None \<and> wm_revision m' = wm_revision m + 1 \<and> wm_error m' = reason \<and>
      wm_termination_pending m' = pending"
    using fm m' by blast
  moreover have "pending \<longleftrightarrow> wm_status m = WorkflowRunning \<or>
      (\<exists>b \<in> set (branches d). bm_instance b = i \<and> bm_status b = BranchRunning)"
    using pend rb by simp
  ultimately show ?thesis by (intro conjI)
qed

lemma Stop_exact_witness:
  "list_all (\<lambda>b. \<not> live_branch b) (filter (\<lambda>b. bm_instance b = ''wf'')
     (branches (snd (projr (Stop sample_rt 4 ''wf'' ''enough'' db_branches)))))"
proof -
  let ?r = "Stop sample_rt 4 ''wf'' ''enough'' db_branches"
  have v: "distinct (map wm_id (instances db_branches))"
    "find_instance ''wf'' db_branches = Some (hd (instances db_branches))"
    "wm_status (hd (instances db_branches)) \<noteq> WorkflowStopped" "?r = Inr (True, snd (projr ?r))" by code_simp+
  from Stop_exact [OF v, where ?rt2.0 = sample_rt and ?now2.0 = 5 and ?reason2.0 = "''again''"] show ?thesis
    by (simp add: list_all_iff)
qed

section \<open>Pause and resume\<close>

text \<open>
  A pause request meets the running worker's commit: \<open>Pause\<close> of a running instance
  is deferred and advances the revision, so the commit the worker prepared at the
  claimed revision is refused, be it a checkpoint, a join or a fork, while the worker
  keeps its lease and its heartbeat still renews it.
\<close>

theorem pause_conflicts_running:
  assumes "fresh_db d0" "repo_steps d0 d" "find_instance i d = Some m" "wm_status m = WorkflowRunning"
    and "commit_id c = i" "commit_revision c = wm_revision m"
  shows "\<exists>d1. Pause rt now i d = Inr (True, d1) \<and> (\<exists>e. commit_instance c d1 = Inl e) \<and>
    find_instance i d1 = Some (m\<lparr>wm_pause_requested := True, wm_revision := wm_revision m + 1, wm_updated_at := now\<rparr>) \<and>
    (\<exists>d2. RenewLease dbnow i (wm_leased_by m) lease d1 = Inr d2)"
proof -
  have inv: "sys_inv d" using reachable_inv [OF assms(1, 2)] .
  define d1 where "d1 = update_instances (\<lambda>r. wm_id r = i) (set_pause_requested now True) d"
  have id: "wm_id m = i" using by_key_SomeD [OF assms(3)] by simp
  have p: "Pause rt now i d = Inr (True, d1)" using assms(3, 4) by (simp add: Pause_def d1_def)
  have f: "find_instance i d1 = Some (set_pause_requested now True m)"
    using assms(3) id by (simp add: d1_def by_key_update_where set_pause_requested_def)
  have "sys_inv d1" using repo_step_preserves [OF repo_step.pause [OF p] inv] by simp
  moreover have "instance_lease i d1 = Some (wm_leased_by m, wm_revision m + 1)"
    using f by (simp add: instance_lease_def set_pause_requested_def)
  ultimately have "\<exists>e. commit_instance c d1 = Inl e" using assms(5, 6) by (intro stale_commit) auto
  moreover have "\<exists>d2. RenewLease dbnow i (wm_leased_by m) lease d1 = Inr d2"
  proof -
    have "set_pause_requested now True m \<in> set (instances d1)" using by_key_SomeD [OF f] by simp
    then have "count_where (\<lambda>r. wm_id r = i \<and> wm_leased_by r = wm_leased_by m \<and> wm_status r = WorkflowRunning) (instances d1) \<noteq> 0"
      using assms(4) id unfolding count_where_0_iff by (force simp: set_pause_requested_def)
    then show ?thesis by (simp add: RenewLease_def Let_def)
  qed
  ultimately show ?thesis using p f by (auto simp: set_pause_requested_def)
qed

lemma pause_conflicts_running_witness:
  "\<exists>d1. Pause sample_rt 2 ''wf'' db_claimed = Inr (True, d1) \<and>
     (\<exists>e. commit_instance (Forking sample_rt 3 3 sample_fork) d1 = Inl e)"
proof -
  have v: "find_instance ''wf'' db_claimed = Some (hd (instances db_claimed))"
    "wm_status (hd (instances db_claimed)) = WorkflowRunning"
    "commit_id (Forking sample_rt 3 3 sample_fork) = ''wf''"
    "commit_revision (Forking sample_rt 3 3 sample_fork) = wm_revision (hd (instances db_claimed))" by code_simp+
  from pause_conflicts_running [OF start_fresh run_reaches(1) v, of sample_rt 2 0 0] show ?thesis by blast
qed

text \<open>
  Pausing and resuming a waiting instance gives it back as it was, two revisions
  on, with no pause requested; the parked reason, cursor and context are untouched.
\<close>

theorem Pause_Resume:
  assumes "find_instance i d = Some m" "wm_status m = WorkflowWaiting"
    and "Pause rt now i d = Inr (deferred, d1)" "Resume rt now2 i d1 = Inr d2"
  shows "\<not> deferred \<and> find_instance i d2 =
    Some (m\<lparr>wm_pause_requested := False, wm_revision := wm_revision m + 2, wm_updated_at := now2\<rparr>)"
proof -
  have id: "wm_id m = i" using by_key_SomeD [OF assms(1)] by simp
  from assms(1, 2, 3) have c1: "core d1 = core (update_instances (\<lambda>r. wm_id r = i) (set_status now WorkflowPaused) d)"
    and b: "\<not> deferred" by (auto simp: Pause_def Let_def dest: core_bind_enqueue)
  have f1: "find_instance i d1 = Some (set_status now WorkflowPaused m)"
    using assms(1) id by (simp add: core_eqD [OF c1] by_key_update_where set_status_def)
  have "core d2 = core (update_instances (\<lambda>r. wm_id r = i) (set_status now2 WorkflowWaiting) d1)"
    using assms(4) f1 by (auto simp: Resume_def Let_def set_status_def dest: core_enqueue)
  from core_eqD(1) [OF this] f1 id b assms(2) show ?thesis
    by (simp add: by_key_update_where set_status_def)
qed

lemma Pause_Resume_witness:
  "find_instance ''wf'' (projr (Resume sample_rt 9 ''wf'' (snd (projr (Pause sample_rt 8 ''wf'' db_joined))))) =
   Some ((hd (instances db_joined))\<lparr>wm_pause_requested := False, wm_revision := 6, wm_updated_at := 9\<rparr>)"
proof -
  let ?p = "Pause sample_rt 8 ''wf'' db_joined"
  let ?r = "Resume sample_rt 9 ''wf'' (snd (projr ?p))"
  have v: "find_instance ''wf'' db_joined = Some (hd (instances db_joined))"
    "wm_status (hd (instances db_joined)) = WorkflowWaiting" "?p = Inr (False, snd (projr ?p))" "?r = Inr (projr ?r)"
    "wm_revision (hd (instances db_joined)) = 4" by code_simp+
  from Pause_Resume [OF v(1-4)] v(5) show ?thesis by simp
qed

end
