(* ===== verification/Delivery.thy ===== *)
theory Delivery
  imports Cascade
begin

text \<open>
  Input deliveries are idempotent: one row per instance and key, and a repeated key
  returns that row and moves nothing.
\<close>

section \<open>Frames\<close>

lemma deliveries_frames:
  "deliveries (update_instances p f d) = deliveries d" "deliveries (update_nodes q g d) = deliveries d"
  "deliveries (update_branches s h d) = deliveries d" "deliveries (update_executions u k d) = deliveries d"
  "deliveries (fail_branch now msg i d) = deliveries d"
  "deliveries (cancel_level now ids d) = deliveries d" "deliveries (cancel_nested now ids d) = deliveries d"
  by (simp_all add: update_instances_def update_nodes_def update_branches_def update_executions_def
      fail_branch_def cancel_level_def cancel_nested_def)

lemma deliveries_enqueue: "enqueueStatusUpdateTx rt i df rv frm to evs err ctx at d = Inr d' \<Longrightarrow> deliveries d' = deliveries d"
  by (erule enqueue_adds) simp

lemma deliveries_append_event: "append_event rt i typ payload actor now d = Inr d' \<Longrightarrow> deliveries d' = deliveries d"
  by (auto simp: append_event_def newRepoID_def bindR_Inr_iff)

lemma deliveries_appendHistory: "appendHistoryTx rt i h now d = Inr d' \<Longrightarrow> deliveries d' = deliveries d"
  by (auto simp: appendHistoryTx_def Let_def history_id_def newRepoID_def bindR_Inr_iff
      split: option.split_asm if_split_asm)

lemma deliveries_append_events: "append_events rt i actor now evs d = Inr d' \<Longrightarrow> deliveries d' = deliveries d"
  unfolding append_events_def
  by (rule foldR_invariant [where I = "\<lambda>s. deliveries s = deliveries d"]) (auto dest: deliveries_append_event)

lemma deliveries_cancel_subtree: "deliveries (cancelExecutionSubtreeTx now ids d) = deliveries d"
proof (induction now ids d rule: cancelExecutionSubtreeTx.induct)
  case (1 now ids d)
  then show ?case
    by (subst cancelExecutionSubtreeTx.simps) (simp add: Let_def deliveries_frames)
qed

lemma deliveries_fail_tree: "deliveries (fail_execution_tree now i d) = deliveries d"
  by (simp add: fail_execution_tree_def deliveries_cancel_subtree deliveries_frames)

lemma deliveries_climb: "climb_failure now msg ex d = (tp, d') \<Longrightarrow> deliveries d' = deliveries d"
proof (induction now msg ex d arbitrary: tp d' rule: climb_failure.induct)
  case (1 now msg ex d)
  from 1(2) show ?case
    by (subst (asm) climb_failure.simps)
      (auto simp: Let_def deliveries_frames deliveries_fail_tree split: option.split_asm if_split_asm dest!: 1(1))
qed

lemma deliveries_cascade: "failBranchCascadeTx rt dbnow now leaf msg d = Inr (b, d') \<Longrightarrow> deliveries d' = deliveries d"
  by (auto simp: failBranchCascadeTx_def fail_parent_def Let_def deliveries_frames deliveries_fail_tree bindR_Inr_iff
      split: option.split_asm if_split_asm prod.split_asm dest!: deliveries_climb deliveries_enqueue)

lemmas deliveries_dests = deliveries_append_event deliveries_appendHistory deliveries_enqueue deliveries_append_events
  deliveries_cascade

lemma deliveries_bodies:
  "deliver_body rt now c m d = Inr d' \<Longrightarrow> deliveries d' = deliveries d"
  "fail_body rt now c m d = Inr d' \<Longrightarrow> deliveries d' = deliveries d"
  "branch_deliver_body rt now c b d = Inr d' \<Longrightarrow> deliveries d' = deliveries d"
  "branch_fail_body rt dbnow now c b d = Inr d' \<Longrightarrow> deliveries d' = deliveries d"
  by (auto simp: deliver_body_def fail_body_def branch_deliver_body_def branch_fail_body_def Let_def bindR_Inr_iff
      must_update_nodes_def must_update_instances_def must_update_branches_def deliveries_frames
      split: if_split_asm dest!: deliveries_dests)

section \<open>One row per key\<close>

lemma deliver_once_result:
  assumes "deliver_once c r lock body d = Inr (q, d')" "\<And>l e e'. body l e = Inr e' \<Longrightarrow> deliveries e' = deliveries e"
  shows "(if delivery_key r \<in> delivery_key ` set (deliveries d)
    then d' = d \<and> getDelivery (ic_instance c) (ic_key c) d = Inr q
    else q = r \<and> deliveries d' = deliveries d @ [InputDeliveryToModel r])"
  using assms(1)
  by (auto simp: deliver_once_def insert_delivery_def bindR_Inr_iff dest!: assms(2) split: if_split_asm)

lemma DeliverInput_result:
  assumes "DeliverInput rt dbnow now c d = Inr (q, d')"
  shows "(if (ic_instance c, ic_key c) \<in> delivery_key ` set (deliveries d)
    then d' = snd (newRepoID rt d) \<and> getDelivery (ic_instance c) (ic_key c) (snd (newRepoID rt d)) = Inr q
    else q = delivery_of (fst (newRepoID rt d)) now c \<and> deliveries d' = deliveries d @ [InputDeliveryToModel q])"
proof -
  define r where "r = delivery_of (fst (newRepoID rt d)) now c"
  define e where "e = snd (newRepoID rt d)"
  have same: "deliveries e = deliveries d" by (simp add: e_def newRepoID_def)
  have key: "delivery_key r = (ic_instance c, ic_key c)" by (simp add: r_def delivery_of_def delivery_key_def)
  from assms have
    "reject_delivery c r e = Inr (q, d') \<or> failBranchInput rt dbnow now c r e = Inr (q, d') \<or>
     failInput rt now c r e = Inr (q, d') \<or> deliverBranchInput rt now c r e = Inr (q, d') \<or>
     deliverInstanceInput rt now c r e = Inr (q, d')"
    by (auto simp: DeliverInput_def case_prod_beta Let_def r_def e_def split: if_split_asm)
  then have "(if delivery_key r \<in> delivery_key ` set (deliveries e)
    then d' = e \<and> getDelivery (ic_instance c) (ic_key c) e = Inr q
    else q = r \<and> deliveries d' = deliveries e @ [InputDeliveryToModel r])"
    unfolding reject_delivery_def failBranchInput_def failInput_def deliverBranchInput_def deliverInstanceInput_def
    by (elim disjE) (erule deliver_once_result, simp add: deliveries_bodies)+
  then show ?thesis by (simp add: same key e_def [symmetric] r_def [symmetric])
qed

lemma filter_key: "distinct (map k t) \<Longrightarrow> r \<in> set t \<Longrightarrow> filter (\<lambda>q. k q = k r) t = [r]"
proof (induction t)
  case (Cons a t)
  show ?case
  proof (cases "a = r")
    case True
    with Cons.prems(1) have "\<forall>q \<in> set t. k q \<noteq> k r" by (metis distinct.simps(2) image_eqI list.set_map list.simps(9))
    with True show ?thesis by (simp add: filter_empty_conv)
  next
    case False
    with Cons.prems have r: "r \<in> set t" by simp
    then have "k a \<noteq> k r" using Cons.prems(1) by (metis distinct.simps(2) image_eqI list.set_map list.simps(9))
    with Cons r show ?thesis by simp
  qed
qed simp

lemma getDelivery_unique:
  assumes "distinct (map delivery_key (deliveries d))" "r \<in> set (deliveries d)" "delivery_key r = (i, k)"
  shows "getDelivery i k d = Inr r"
proof -
  have "filter (\<lambda>r. dm_instance r = i \<and> dm_key r = k) (deliveries d) = filter (\<lambda>q. delivery_key q = delivery_key r) (deliveries d)"
    using assms(3) by (simp add: delivery_key_def)
  also have "\<dots> = [r]" using assms(1, 2) by (rule filter_key)
  finally show ?thesis by (simp add: getDelivery_def order_by_def first_where_Cons)
qed


definition sample_input :: InputCompletion where
  "sample_input =
     \<lparr>ic_instance = ''wf'', ic_branch = [], ic_node_instance = ''n1'', ic_key = ''k1'', ic_payload = None,
      ic_accepted = False, ic_error = ''invalid'', ic_created_by = ''user'', ic_anonymous = False,
      ic_post_failure = False, ic_node_status = NodeFailed, ic_frame = NewFrame ''next'', ic_context = None,
      ic_status = WorkflowWaiting, ic_finished_at = None, ic_history = None\<rparr>"


end
