(* ===== verification/Executor.thy ===== *)
theory Executor
  imports InputRepo
begin

text \<open>
  Node executors of \<open>internal/workflow/executor\<close>: the sandbox entry (\<open>sandbox.go\<close>),
  lifecycle hooks (\<open>hooks.go\<close>), the script, condition, input, delay and external-call
  executors (\<open>nodes.go\<close>) and the output executor (\<open>output.go\<close>).

  The JavaScript engine is not part of the repository: \<open>vm i opts\<close> is what the \<open>i\<close>-th
  script run of a step does; so are the broker clients. The HTTP, command, poller and custom
  executors are seen here through their result (\<open>Outside\<close>), which the theories on outbound
  calls compute.
\<close>

section \<open>Errors\<close>

text \<open>
  Errors as the engine handles them. \<open>EUnavailable\<close> is a failed database call (or a
  cancelled one), \<open>EJson\<close> a value \<open>json.Marshal\<close> rejects, \<open>ENode\<close> is
  \<open>NodeError\<close> with the node's name, \<open>EWrap\<close> is \<open>fmt.Errorf\<close> with \<open>%w\<close>.
\<close>

datatype go_err =
    ERepo repo_err | EUnavailable string | EDecode decode_error | EDiff diff_error | EGraph graph_error
  | EPath path_error | ELimit limit_error | EJson | EText string
  | ENode string string go_err | EWrap string go_err

text \<open>\<open>err.Error()\<close>: the texts of the leaves come from their packages.\<close>

fun error_text :: "(go_err \<Rightarrow> string) \<Rightarrow> go_err \<Rightarrow> string" where
  "error_text leaf (EText s) = s"
| "error_text leaf (ENode name reason e) =
     ''executor: '' @ reason @ '' (node '' @ name @ ''): '' @ error_text leaf e"
| "error_text leaf (EWrap p e) = p @ '': '' @ error_text leaf e"
| "error_text leaf e = leaf e"

text \<open>\<open>errors.As(err, &ne)\<close> for a \<open>NodeError\<close>, and \<open>errors.Is\<close> for a repository sentinel.\<close>

fun node_error_reason :: "go_err \<Rightarrow> string option" where
  "node_error_reason (ENode name reason e) = Some reason"
| "node_error_reason (EWrap p e) = node_error_reason e"
| "node_error_reason _ = None"

fun is_repo :: "repo_err \<Rightarrow> go_err \<Rightarrow> bool" where
  "is_repo r (ERepo e) = (e = r)"
| "is_repo r (ENode name reason e) = is_repo r e"
| "is_repo r (EWrap p e) = is_repo r e"
| "is_repo r _ = False"

definition node_err :: "NodeContent \<Rightarrow> string \<Rightarrow> go_err \<Rightarrow> go_err" where
  "node_err n reason e = ENode (nName (nfields n)) reason e"

section \<open>The sandbox\<close>

record ScriptOptions =
  so_source :: string
  so_context :: gomap
  so_timeout :: duration
  so_frozen :: bool
  so_vars :: gomap
  so_frozen_vars :: "string list"

text \<open>
  What the interpreter reports: an interrupt (of the timer, or of the cancelled context),
  a script error, a context that is no longer an object, or the context and the value.
\<close>

datatype vm_outcome =
    VmInterrupted string bool | VmThrew string | VmNoObject string | VmReturned gomap json

type_synonym vm = "nat \<Rightarrow> ScriptOptions \<Rightarrow> vm_outcome"

definition ErrScriptTimeout :: go_err where
  "ErrScriptTimeout = EText ''executor: script timeout''"

fun check_frozen_vars :: "gomap \<Rightarrow> string list \<Rightarrow> go_err + unit" where
  "check_frozen_vars vars [] = Inr ()"
| "check_frozen_vars vars (name # names) =
     (case map_of vars name of
        None \<Rightarrow> Inl (EText (''executor: frozen var '' @ quoted name @ '' is not provided''))
      | Some v \<Rightarrow>
          if json_clean v then check_frozen_vars vars names
          else Inl (EWrap (''executor: encode frozen var '' @ quoted name) EJson))"

definition RunScript :: "(ScriptOptions \<Rightarrow> vm_outcome) \<Rightarrow> ScriptOptions \<Rightarrow> go_err + gomap \<times> json" where
  "RunScript run opts =
     (if so_timeout opts \<le> 0 then Inl (EText ''executor: script timeout must be > 0'')
      else if \<not> clean_ctx (so_context opts) then Inl (EWrap ''executor: encode context'' EJson)
      else bindR (check_frozen_vars (so_vars opts) (so_frozen_vars opts)) (\<lambda>_.
        case run opts of
          VmInterrupted cause cancelled \<Rightarrow>
            Inl (if cancelled then EWrap ''executor: script timeout'' (EText cause)
                 else EWrap ''executor: script interrupted'' (EText cause))
        | VmThrew msg \<Rightarrow> Inl (EWrap ''executor'' (EText msg))
        | VmNoObject msg \<Rightarrow> Inl (EWrap ''executor: export context'' (EText msg))
        | VmReturned out val \<Rightarrow>
            if \<not> json_clean val
            then Inl (EWrap ''executor: script return value is not JSON-serializable'' EJson)
            else if \<not> clean_ctx out
            then Inl (EWrap ''executor: script context is not JSON-serializable'' EJson)
            else Inr (out, val)))"

text \<open>What the engine persists after a script can be encoded.\<close>

lemma RunScript_clean:
  "RunScript run opts = Inr (out, val) \<Longrightarrow> clean_ctx out \<and> json_clean val"
  by (auto simp: RunScript_def bindR_Inr_iff split: if_split_asm vm_outcome.split_asm)

section \<open>Hooks\<close>

definition runHook :: "(ScriptOptions \<Rightarrow> vm_outcome) \<Rightarrow> HookScript \<Rightarrow> string \<Rightarrow> gomap \<Rightarrow> json option \<Rightarrow>
    NodeContent \<Rightarrow> go_err + gomap" where
  "runHook run h reason ctx output n =
     (case RunScript run
        \<lparr>so_source = hook_script h, so_context = ctx, so_timeout = hook_timeout h, so_frozen = False,
         so_vars = (case output of None \<Rightarrow> [] | Some v \<Rightarrow> [(''output'', v)]),
         so_frozen_vars = (case output of None \<Rightarrow> [] | Some v \<Rightarrow> [''output''])\<rparr> of
        Inl e \<Rightarrow> Inl (node_err n reason e)
      | Inr (out, _) \<Rightarrow> Inr out)"

definition RunPre :: "(ScriptOptions \<Rightarrow> vm_outcome) \<Rightarrow> NodeContent \<Rightarrow> gomap \<Rightarrow> go_err + gomap" where
  "RunPre run n ctx =
     (case nPreScript (nfields n) of None \<Rightarrow> Inr ctx | Some h \<Rightarrow> runHook run h ''pre-script'' ctx None n)"

definition RunPost :: "(ScriptOptions \<Rightarrow> vm_outcome) \<Rightarrow> NodeContent \<Rightarrow> gomap \<Rightarrow> json option \<Rightarrow> go_err + gomap" where
  "RunPost run n ctx output =
     (case nPostScript (nfields n) of None \<Rightarrow> Inr ctx | Some h \<Rightarrow> runHook run h ''post-script'' ctx output n)"

lemma runHook_clean: "runHook run h reason ctx output n = Inr out \<Longrightarrow> clean_ctx out"
  by (auto simp: runHook_def dest: RunScript_clean split: sum.split_asm)

lemma RunPre_clean: "RunPre run n ctx = Inr out \<Longrightarrow> clean_ctx ctx \<Longrightarrow> clean_ctx out"
  by (auto simp: RunPre_def dest: runHook_clean split: option.split_asm)

lemma RunPost_clean: "RunPost run n ctx output = Inr out \<Longrightarrow> clean_ctx ctx \<Longrightarrow> clean_ctx out"
  by (auto simp: RunPost_def dest: runHook_clean split: option.split_asm)

section \<open>Requests and results\<close>

record Request =
  rq_node :: NodeContent
  rq_context :: gomap
  rq_vars :: gomap
  rq_payload :: string
  rq_key :: string
  rq_instance :: uid
  rq_node_instance :: uid

record ConditionResult =
  cr_matched :: bool
  cr_index :: int
  cr_key :: string

text \<open>
  A result's output is a value or the condition result, the one type the engine tests
  for. A struct an executor returns stands as the document it encodes to.
\<close>

datatype node_output = OutValue json | OutCondition ConditionResult

record Result =
  re_output :: node_output
  re_context :: "gomap option"

fun output_json :: "node_output \<Rightarrow> json" where
  "output_json (OutValue v) = v"
| "output_json (OutCondition c) = JObj
     [(''Index'', JInt (cr_index c)), (''Key'', JStr (cr_key c)), (''Matched'', JBool (cr_matched c))]"

section \<open>Scripts and conditions\<close>

definition ScriptExecutor :: "vm \<Rightarrow> Request \<Rightarrow> go_err + Result" where
  "ScriptExecutor vm req =
     bindR (RunScript (vm 0)
       \<lparr>so_source = nScript (nfields (rq_node req)), so_context = rq_context req,
        so_timeout = nTimeout (nfields (rq_node req)), so_frozen = False, so_vars = rq_vars req,
        so_frozen_vars = []\<rparr>)
       (\<lambda>(out, val). Inr \<lparr>re_output = OutValue val, re_context = Some out\<rparr>)"

definition errConditionNotBoolean :: "nat \<Rightarrow> go_err" where
  "errConditionNotBoolean i = EText (''condition '' @ Itoa (int i) @ '' must return a boolean'')"

definition join_comma :: "string list \<Rightarrow> string" where
  "join_comma parts = concat (case parts of [] \<Rightarrow> [] | p # ps \<Rightarrow> p # map (\<lambda>q. '', '' @ q) ps)"

definition errMultipleConditionsMatched :: "uid \<Rightarrow> ConditionResult list \<Rightarrow> go_err" where
  "errMultipleConditionsMatched n ms = EText (''multiple conditions matched in node '' @ n @ '': '' @
     join_comma (map (\<lambda>m. ''index '' @ Itoa (cr_index m) @ '' key '' @ quoted (cr_key m)) ms))"

fun matching_conditions :: "vm \<Rightarrow> Request \<Rightarrow> nat \<Rightarrow> Condition list \<Rightarrow> go_err + ConditionResult list" where
  "matching_conditions vm req i [] = Inr []"
| "matching_conditions vm req i (c # cs) =
     (case RunScript (vm i)
        \<lparr>so_source = cond_script c, so_context = rq_context req,
         so_timeout = nTimeout (nfields (rq_node req)), so_frozen = True, so_vars = [], so_frozen_vars = []\<rparr> of
        Inl e \<Rightarrow> Inl (node_err (rq_node req) ''conditions'' e)
      | Inr (_, JBool b) \<Rightarrow>
          bindR (matching_conditions vm req (Suc i) cs) (\<lambda>ms.
            Inr ((if b then [\<lparr>cr_matched = True, cr_index = int i, cr_key = cond_key c\<rparr>] else []) @ ms))
      | Inr _ \<Rightarrow> Inl (node_err (rq_node req) ''conditions'' (errConditionNotBoolean i)))"

definition evaluate :: "vm \<Rightarrow> Request \<Rightarrow> go_err + ConditionResult" where
  "evaluate vm req =
     bindR (matching_conditions vm req 0 (nConditions (nfields (rq_node req)))) (\<lambda>ms.
       case ms of
         [] \<Rightarrow> Inr \<lparr>cr_matched = False, cr_index = -1, cr_key = []\<rparr>
       | [m] \<Rightarrow> Inr m
       | _ \<Rightarrow> Inl (node_err (rq_node req) ''conditions'' (errMultipleConditionsMatched (node_id (rq_node req)) ms)))"

definition ConditionExecutor :: "vm \<Rightarrow> Request \<Rightarrow> go_err + Result" where
  "ConditionExecutor vm req =
     bindR (evaluate vm req) (\<lambda>c. Inr \<lparr>re_output = OutCondition c, re_context = Some (rq_context req)\<rparr>)"

section \<open>Input validation\<close>

text \<open>The validation result: \<open>None\<close> accepts, \<open>Some msg\<close> rejects with a message.\<close>

definition ValidateInput :: "vm \<Rightarrow> Request \<Rightarrow> go_err + string option" where
  "ValidateInput vm req =
     (case nValidation (nfields (rq_node req)) of
        None \<Rightarrow> Inr None
      | Some src \<Rightarrow>
          if src = [] then Inr None
          else case RunScript (vm 0)
            \<lparr>so_source = src, so_context = rq_context req, so_timeout = nTimeout (nfields (rq_node req)),
             so_frozen = True, so_vars = [(''input'', JStr (rq_payload req))], so_frozen_vars = []\<rparr> of
            Inl e \<Rightarrow> Inl (node_err (rq_node req) ''input-validation'' e)
          | Inr (_, JStr msg) \<Rightarrow> Inr (if msg \<noteq> [] then Some msg else None)
          | Inr _ \<Rightarrow> Inr None)"

definition InputExecutor :: "vm \<Rightarrow> Request \<Rightarrow> go_err + Result" where
  "InputExecutor vm req =
     bindR (ValidateInput vm req) (\<lambda>r. Inr
       \<lparr>re_output = OutValue (JObj [(''Message'', JStr (case r of None \<Rightarrow> [] | Some msg \<Rightarrow> msg)),
                                    (''Valid'', JBool (r = None))]),
        re_context = Some (rq_context req)\<rparr>)"

section \<open>Output, delay and outside calls\<close>

text \<open>
  \<open>BrokerOutputPublisher\<close>: a client is absent when its broker is not configured; it
  gets the destination, the payload and the message id, and answers with an error or not.
\<close>

type_synonym broker_client = "string \<Rightarrow> json \<Rightarrow> string \<Rightarrow> string option"

record Broker =
  br_redis :: "broker_client option"
  br_rabbit :: "broker_client option"
  br_queue :: string

definition OutputChannel :: "uid \<Rightarrow> string" where
  "OutputChannel i = ''workflow:output:'' @ i"

definition receipt :: "string \<Rightarrow> string \<Rightarrow> string \<Rightarrow> json" where
  "receipt channel dest messageID = JObj
     [(''channel'', JStr channel), (''destination'', JStr dest), (''message_id'', JStr messageID)]"

definition publish_to :: "broker_client option \<Rightarrow> string \<Rightarrow> string \<Rightarrow> string \<Rightarrow> json \<Rightarrow> string \<Rightarrow> go_err + json" where
  "publish_to client missing channel dest payload messageID =
     (case client of
        None \<Rightarrow> Inl (EText missing)
      | Some send \<Rightarrow>
          (case send dest payload messageID of
             Some msg \<Rightarrow> Inl (EText msg)
           | None \<Rightarrow> Inr (receipt channel dest messageID)))"

definition Publish :: "Broker \<Rightarrow> string \<Rightarrow> uid \<Rightarrow> json \<Rightarrow> string \<Rightarrow> go_err + json" where
  "Publish b channel i payload messageID =
     (if channel = ''redis'' then
        publish_to (br_redis b) ''redis output publisher is not configured'' channel (OutputChannel i) payload messageID
      else if channel = ''rabbitmq'' then
        publish_to (br_rabbit b) ''rabbitmq output publisher is not configured'' channel (br_queue b) payload messageID
      else Inl (EText (''output channel '' @ quoted channel @ '' is not supported'')))"

definition OutputExecutor :: "(string \<Rightarrow> bool) \<Rightarrow> Broker option \<Rightarrow> Request \<Rightarrow> go_err + Result" where
  "OutputExecutor denied publisher req =
     (case publisher of
        None \<Rightarrow> Inl (node_err (rq_node req) ''output'' (EText ''output publisher is not configured''))
      | Some b \<Rightarrow>
          (case Get denied (rq_context req) (nContextPath (nfields (rq_node req))) of
             Inl e \<Rightarrow> Inl (node_err (rq_node req) ''output'' (EWrap (''resolve context_path '' @ quoted (nContextPath (nfields (rq_node req)))) (EPath e)))
           | Inr v \<Rightarrow>
               if \<not> json_clean v then Inl (node_err (rq_node req) ''output'' EJson)
               else (case Publish b (nChannel (nfields (rq_node req))) (rq_instance req) v (rq_key req) of
                       Inl e \<Rightarrow> Inl (node_err (rq_node req) ''output'' e)
                     | Inr r \<Rightarrow> Inr \<lparr>re_output = OutValue r, re_context = None\<rparr>)))"

definition DelayExecutor :: "Request \<Rightarrow> go_err + Result" where
  "DelayExecutor req = Inr \<lparr>re_output = OutValue JNull, re_context = None\<rparr>"

text \<open>
  The executors behind network and process calls: an error may come with a partial
  result, which failure routing records.
\<close>

type_synonym outside = "Request \<Rightarrow> (go_err \<times> Result option) + Result"

record Outside =
  ou_http :: outside
  ou_command :: outside
  ou_poller :: outside
  ou_custom :: "string \<Rightarrow> outside"

definition ExternalCallExecutor :: "Outside \<Rightarrow> Request \<Rightarrow> (go_err \<times> Result option) + Result" where
  "ExternalCallExecutor out req =
     (if nHTTP (nfields (rq_node req)) \<noteq> None then ou_http out req
      else if nExecution (nfields (rq_node req)) \<noteq> None then ou_command out req
      else Inl (node_err (rq_node req) ''external-call''
             (EText ''external_call node has neither http nor execution config''), None))"

definition no_result :: "go_err + Result \<Rightarrow> (go_err \<times> Result option) + Result" where
  "no_result r = (case r of Inl e \<Rightarrow> Inl (e, None) | Inr x \<Rightarrow> Inr x)"

text \<open>
  The executor table of \<open>NewExecutors\<close>: groups and parallel nodes have no entry, and the
  engine never executes them.
\<close>

definition Execute ::
  "(string \<Rightarrow> bool) \<Rightarrow> Broker option \<Rightarrow> Outside \<Rightarrow> vm \<Rightarrow> Request \<Rightarrow> (go_err \<times> Result option) + Result" where
  "Execute denied publisher out vm req =
     (case node_type (rq_node req) of
        NTScript \<Rightarrow> no_result (ScriptExecutor vm req)
      | NTConditions \<Rightarrow> no_result (ConditionExecutor vm req)
      | NTInput \<Rightarrow> no_result (InputExecutor vm req)
      | NTDelay \<Rightarrow> no_result (DelayExecutor req)
      | NTOutput \<Rightarrow> no_result (OutputExecutor denied publisher req)
      | NTExternalCall \<Rightarrow> ExternalCallExecutor out req
      | NTPoller \<Rightarrow> ou_poller out req
      | NTOther t \<Rightarrow> ou_custom out t req
      | _ \<Rightarrow> Inl (EText ''executor: no executor for the node type'', None))"

end
