(* ===== verification/Engine.thy ===== *)
theory Engine
  imports Executor "HOL-Library.State_Monad"
begin

text \<open>
  The transition engine, \<open>internal/workflow/engine\<close>: scopes (\<open>scope.go\<close>), commits
  and failures (\<open>engine.go\<close>). \<open>Transition\<close> has the node behaviours, \<open>Parallel\<close> fork
  and join, and the entry points.

  A transition is a state transformer over a \<open>world\<close>: the database, what the rest of the
  system does between its repository calls, and the log of executor requests. Before each
  call other workers may rewrite the database (\<open>ce_before\<close>), and the call itself may fail
  without effect (\<open>ce_fault\<close>: the connection, or a cancelled context).
\<close>

section \<open>The world of a transition\<close>

record call_env =
  ce_before :: "db \<Rightarrow> db"
  ce_fault :: "string option"

definition alone :: call_env where
  "alone = \<lparr>ce_before = (\<lambda>d. d), ce_fault = None\<rparr>"

record world =
  w_db :: db
  w_env :: "call_env list"
  w_tick :: nat
  w_calls :: "Request list"

text \<open>
  The engine's dependencies. What varies from call to call (clocks, fresh ids, scripts,
  outside executors, \<open>ctx.Err()\<close>) is indexed by the tick at which it is used.
\<close>

record engine =
  en_rt :: runtime
  en_clock :: "nat \<Rightarrow> time"
  en_dbclock :: "nat \<Rightarrow> time"
  en_newid :: "nat \<Rightarrow> uid"
  en_limits :: Limits
  en_anchor_every :: int
  en_actor :: uid
  en_loader :: "nat \<Rightarrow> uid \<Rightarrow> go_err + WorkflowContent"
  en_vm :: "nat \<Rightarrow> vm"
  en_outside :: "nat \<Rightarrow> Outside"
  en_broker :: "nat \<Rightarrow> Broker option"
  en_denied :: "string \<Rightarrow> bool"
  en_cancelled :: "nat \<Rightarrow> bool"
  en_leaf_text :: "go_err \<Rightarrow> string"

type_synonym 'a step = "(world, 'a) state"
type_synonym act = "(world, go_err + unit) state"

abbreviation ret :: "'a \<Rightarrow> 'a step" where
  "ret \<equiv> State_Monad.return"

definition tick :: "nat step" where
  "tick = State (\<lambda>w. (w_tick w, w\<lparr>w_tick := Suc (w_tick w)\<rparr>))"

definition log_call :: "Request \<Rightarrow> unit step" where
  "log_call req = State (\<lambda>w. ((), w\<lparr>w_calls := w_calls w @ [req]\<rparr>))"

text \<open>One repository call.\<close>

definition next_env :: "world \<Rightarrow> call_env" where
  "next_env w = (case w_env w of [] \<Rightarrow> alone | e # _ \<Rightarrow> e)"

definition call :: "(db \<Rightarrow> repo_err + 'a \<times> db) \<Rightarrow> (go_err + 'a) step" where
  "call f = State (\<lambda>w.
     let d = ce_before (next_env w) (w_db w);
         w1 = w\<lparr>w_db := d, w_env := tl (w_env w)\<rparr>
     in case ce_fault (next_env w) of
          Some msg \<Rightarrow> (Inl (EUnavailable msg), w1)
        | None \<Rightarrow>
            (case f d of
               Inl e \<Rightarrow> (Inl (ERepo e), w1)
             | Inr (x, d') \<Rightarrow> (Inr x, w1\<lparr>w_db := d'\<rparr>)))"

definition reads :: "(db \<Rightarrow> repo_err + 'a) \<Rightarrow> db \<Rightarrow> repo_err + 'a \<times> db" where
  "reads f d = bindR (f d) (\<lambda>x. Inr (x, d))"

definition writes :: "(db \<Rightarrow> repo_err + db) \<Rightarrow> db \<Rightarrow> repo_err + unit \<times> db" where
  "writes f d = bindR (f d) (\<lambda>d'. Inr ((), d'))"

definition always :: "(db \<Rightarrow> db) \<Rightarrow> db \<Rightarrow> repo_err + unit \<times> db" where
  "always f d = Inr ((), f d)"

definition now_of :: "engine \<Rightarrow> time step" where
  "now_of en = do { t \<leftarrow> tick; ret (en_clock en t) }"

definition newID :: "engine \<Rightarrow> uid step" where
  "newID en = do { t \<leftarrow> tick; ret (en_newid en t) }"

definition errorText :: "engine \<Rightarrow> go_err \<Rightarrow> string" where
  "errorText en = error_text (en_leaf_text en)"

section \<open>Scopes\<close>

record execScope =
  sc_instance :: uid
  sc_branch :: uid
  sc_execution :: uid
  sc_end_node :: uid
  sc_branch_name :: string
  sc_branch_index :: int
  sc_branch_start :: uid
  sc_depth :: int
  sc_mode :: string
  sc_leased_by :: string
  sc_revision :: int
  sc_from_status :: WorkflowStatus
  sc_from_reason :: WaitingReason
  sc_pause_requested :: bool
  sc_debug :: bool
  sc_context :: raw
  sc_frame :: raw
  sc_counters :: raw
  sc_definition :: uid

definition isBranch :: "execScope \<Rightarrow> bool" where
  "isBranch sc \<longleftrightarrow> sc_branch sc \<noteq> []"

abbreviation lean :: "execScope \<Rightarrow> bool" where
  "lean sc \<equiv> sc_mode sc = ContextModeLean"

definition obj :: "gomap \<Rightarrow> gomap" where
  "obj kvs = fold (\<lambda>(k, v). map_put k v) kvs []"

definition branchIdentity :: "execScope \<Rightarrow> gomap" where
  "branchIdentity sc = obj
     [(''branch_name'', JStr (sc_branch_name sc)), (''branch_index'', JInt (sc_branch_index sc)),
      (''start_node_id'', JStr (sc_branch_start sc)), (''end_node_id'', JStr (sc_end_node sc))]"

definition idempotencyKey :: "execScope \<Rightarrow> uid \<Rightarrow> string" where
  "idempotencyKey sc attemptID =
     (if isBranch sc then sc_instance sc @ '':'' @ sc_branch sc @ '':'' @ attemptID
      else sc_instance sc @ '':'' @ attemptID)"

definition instanceScope :: "WorkflowInstanceModel \<Rightarrow> execScope" where
  "instanceScope m =
     \<lparr>sc_instance = wm_id m, sc_branch = [], sc_execution = [], sc_end_node = [], sc_branch_name = [],
      sc_branch_index = 0, sc_branch_start = [], sc_depth = 0, sc_mode = wm_context_mode m,
      sc_leased_by = wm_leased_by m, sc_revision = wm_revision m, sc_from_status = wm_status m,
      sc_from_reason = wm_reason m, sc_pause_requested = wm_pause_requested m, sc_debug = wm_debug m,
      sc_context = wm_context m, sc_frame = wm_frame m, sc_counters = wm_counters m,
      sc_definition = wm_definition m\<rparr>"

text \<open>Unset fields are Go's zero values; a branch scope never feeds the outbox fields.\<close>

definition branchScope :: "ParallelBranchModel \<Rightarrow> ParallelExecutionModel \<Rightarrow> bool \<Rightarrow> execScope" where
  "branchScope b ex debug =
     \<lparr>sc_instance = bm_instance b, sc_branch = bm_id b, sc_execution = bm_execution b,
      sc_end_node = xm_end_node ex, sc_branch_name = bm_name b, sc_branch_index = bm_index b,
      sc_branch_start = bm_start_node b, sc_depth = xm_depth ex, sc_mode = ContextModeFull,
      sc_leased_by = bm_leased_by b, sc_revision = bm_revision b, sc_from_status = WorkflowWaiting,
      sc_from_reason = ReasonRunnable, sc_pause_requested = False, sc_debug = debug,
      sc_context = bm_context b, sc_frame = bm_frame b, sc_counters = bm_counters b, sc_definition = []\<rparr>"

section \<open>Events and attempts\<close>

definition event_row :: "uid \<Rightarrow> uid \<Rightarrow> string \<Rightarrow> gomap \<Rightarrow> uid \<Rightarrow> time \<Rightarrow> WorkflowInstanceEventModel" where
  "event_row i inst typ data actor now =
     \<lparr>em_id = i, em_instance = inst, em_type = typ, em_data = Some (JObj data), em_created_by = actor,
      em_created_at = now\<rparr>"

definition scope_data :: "execScope \<Rightarrow> gomap \<Rightarrow> gomap" where
  "scope_data sc data =
     (if isBranch sc
      then (let d = map_put ''branch_id'' (JStr (sc_branch sc)) data
            in if map_of d ''parallel_execution_id'' = None
               then map_put ''parallel_execution_id'' (JStr (sc_execution sc)) d else d)
      else data)"

text \<open>Every caller drops the error of \<open>appendEvent\<close>.\<close>

definition appendEvent :: "engine \<Rightarrow> execScope \<Rightarrow> string \<Rightarrow> gomap \<Rightarrow> unit step" where
  "appendEvent en sc typ data = do {
     i \<leftarrow> newID en;
     now \<leftarrow> now_of en;
     _ \<leftarrow> call (writes (AppendEvent (event_row i (sc_instance sc) typ (scope_data sc data) (en_actor en) now)));
     ret ()
   }"

definition appendBranchEvent :: "engine \<Rightarrow> ParallelBranchModel \<Rightarrow> string \<Rightarrow> unit step" where
  "appendBranchEvent en b typ = do {
     i \<leftarrow> newID en;
     now \<leftarrow> now_of en;
     _ \<leftarrow> call (writes (AppendEvent (event_row i (bm_instance b) typ (obj
        [(''branch_id'', JStr (bm_id b)), (''parallel_execution_id'', JStr (bm_execution b)),
         (''branch_name'', JStr (bm_name b)), (''branch_index'', JInt (bm_index b)),
         (''start_node_id'', JStr (bm_start_node b))]) (en_actor en) now)));
     ret ()
   }"

definition newAttempt :: "uid \<Rightarrow> execScope \<Rightarrow> NodeContent \<Rightarrow> time \<Rightarrow> NodeInstanceModel" where
  "newAttempt i sc nc now =
     \<lparr>nm_id = i, nm_instance = sc_instance sc, nm_branch = uuidPtr (sc_branch sc), nm_node = node_id nc,
      nm_definition = uuidPtr (nDefinitionID (nfields nc)), nm_name = nName (nfields nc),
      nm_type = type_str (node_type nc), nm_attempt = 1, nm_status = NodeWaiting,
      nm_input = Some JNull, nm_output = Some JNull, nm_error = [], nm_context_before = Some JNull,
      nm_context_after = Some JNull,
      nm_recovery_policy = (if nRetryOnRecovery (nfields nc) then ''retry'' else []),
      nm_recovery_result = [], nm_started_at = None, nm_finished_at = None, nm_stopped_at = None,
      nm_cancelled = False, nm_created_at = now, nm_updated_at = now\<rparr>"

definition marshalValue :: "json \<Rightarrow> go_err + raw" where
  "marshalValue v =
     (case marshal v of
        Inl _ \<Rightarrow> Inl (EWrap ''engine: value is not JSON-serializable'' EJson)
      | Inr r \<Rightarrow> Inr r)"

abbreviation marshalCtx :: "gomap \<Rightarrow> go_err + raw" where
  "marshalCtx m \<equiv> marshalValue (JObj m)"

definition contextMap :: "raw \<Rightarrow> go_err + gomap" where
  "contextMap r =
     (case unmarshalContext r of
        Inl e \<Rightarrow> Inl (EWrap ''engine: parse instance context'' (EDecode e))
      | Inr m \<Rightarrow> Inr m)"

definition cloneContextMap :: "gomap \<Rightarrow> go_err + gomap" where
  "cloneContextMap m = bindR (marshalCtx m) contextMap"

definition emptyDiffJSON :: raw where
  "emptyDiffJSON = Some (JObj [(''set'', JObj []), (''unset'', JArr [])])"

section \<open>Statuses\<close>

definition nextStatus :: "execScope \<Rightarrow> WorkflowStatus" where
  "nextStatus sc = (if sc_pause_requested sc \<or> sc_debug sc then WorkflowPaused else WorkflowWaiting)"

definition nextBranchReason :: "execScope \<Rightarrow> WaitingReason \<Rightarrow> WaitingReason" where
  "nextBranchReason sc reason =
     (if sc_debug sc \<and> reason = ReasonRunnable then ReasonPaused else reason)"

definition commitNodeID :: "contextCommit option \<Rightarrow> uid" where
  "commitNodeID co = (case co of None \<Rightarrow> [] | Some c \<Rightarrow> cc_node c)"

section \<open>Branch commits\<close>

definition lost :: "go_err + 'a \<Rightarrow> bool" where
  "lost r = (case r of Inl e \<Rightarrow> is_repo ErrLeaseLost e | Inr _ \<Rightarrow> False)"

definition conflict :: "go_err + 'a \<Rightarrow> bool" where
  "conflict r = (case r of Inl e \<Rightarrow> is_repo ErrRevisionConflict e | Inr _ \<Rightarrow> False)"

text \<open>Failing the branch, and the events of a failed parent.\<close>

definition fail_branch_scope :: "engine \<Rightarrow> execScope \<Rightarrow> string \<Rightarrow> act" where
  "fail_branch_scope en sc msg = do {
     appendEvent en sc ''parallel_branch_failed'' (map_put ''error'' (JStr msg) (branchIdentity sc));
     t \<leftarrow> tick;
     r \<leftarrow> call (FailBranch (en_rt en) (en_dbclock en t) (en_clock en t) (sc_branch sc) (sc_leased_by sc)
            (sc_revision sc) msg);
     case r of
       Inl e \<Rightarrow> ret (if is_repo ErrLeaseLost e then Inr () else Inl e)
     | Inr failedParent \<Rightarrow>
         if failedParent then do {
           appendEvent en sc ''parallel_failed''
             (obj [(''parallel_execution_id'', JStr (sc_execution sc)), (''error'', JStr msg)]);
           appendEvent en sc ''workflow_failed'' [(''error'', JStr msg)];
           ret (Inr ())
         } else ret (Inr ())
   }"

definition complete_branch_scope :: "engine \<Rightarrow> execScope \<Rightarrow> Frame \<Rightarrow> Counters \<Rightarrow> raw \<Rightarrow> act" where
  "complete_branch_scope en sc frame counters ctxRaw = do {
     t \<leftarrow> tick;
     r \<leftarrow> call (CompleteBranch (en_dbclock en t) (en_clock en t)
            \<lparr>bn_branch = sc_branch sc, bn_worker = sc_leased_by sc, bn_revision = sc_revision sc,
             bn_frame = frame, bn_counters = counters, bn_context = ctxRaw\<rparr>);
     case r of
       Inl e \<Rightarrow> ret (if is_repo ErrLeaseLost e then Inr () else Inl e)
     | Inr ready \<Rightarrow> do {
         appendEvent en sc ''parallel_branch_finished'' (branchIdentity sc);
         ret (Inr ())
       }
   }"

definition missing_join :: string where
  "missing_join = ''branch terminated without reaching its parallel_end''"

definition branchCheckpoint ::
  "engine \<Rightarrow> execScope \<Rightarrow> Frame \<Rightarrow> Counters \<Rightarrow> gomap \<Rightarrow> WorkflowStatus \<Rightarrow> WaitingReason \<Rightarrow> string \<Rightarrow>
   time option \<Rightarrow> act" where
  "branchCheckpoint en sc frame counters ctx status reason errMsg runAt =
     (if status = WorkflowFailed then fail_branch_scope en sc errMsg
      else if status = WorkflowFinished then fail_branch_scope en sc missing_join
      else case marshalCtx ctx of
        Inl e \<Rightarrow> ret (Inl e)
      | Inr ctxRaw \<Rightarrow>
          if CurrentNodeID frame = sc_end_node sc then complete_branch_scope en sc frame counters ctxRaw
          else do {
            t \<leftarrow> tick;
            r \<leftarrow> call (writes (CheckpointBranch (en_dbclock en t)
              \<lparr>bc_branch = sc_branch sc, bc_worker = sc_leased_by sc, bc_revision = sc_revision sc,
               bc_status = BranchWaiting, bc_reason = nextBranchReason sc reason, bc_frame = frame,
               bc_counters = counters, bc_context = ctxRaw, bc_error = errMsg, bc_run_at = runAt\<rparr>));
            ret (if lost r then Inr () else r)
          })"

section \<open>Instance commits\<close>

definition history_error :: "history_err \<Rightarrow> go_err" where
  "history_error e = (case e of
      HistoryDiffErr d \<Rightarrow> EDiff d
    | HistoryMarshalErr _ \<Rightarrow> EWrap ''engine: value is not JSON-serializable'' EJson)"

text \<open>The history row of a lean commit: the diff first, then the rows are loaded.\<close>

definition lean_history ::
  "engine \<Rightarrow> execScope \<Rightarrow> contextCommit option \<Rightarrow> gomap \<Rightarrow> (go_err + NodeContextHistoryModel) step" where
  "lean_history en sc co endCtx =
     (let c = commit_or_whole (sc_context sc) co endCtx
      in case DiffMaps (cc_start c) (the (cc_end c)) of
           Inl e \<Rightarrow> ret (Inl (EDiff e))
         | Inr _ \<Rightarrow> do {
             r \<leftarrow> call (\<lambda>d. Inr (historyForCommit (en_anchor_every en) (sc_instance sc) (sc_context sc) co endCtx d, d));
             ret (bindR r (\<lambda>h. case h of Inl e \<Rightarrow> Inl (history_error e) | Inr row \<Rightarrow> Inr row))
           })"

text \<open>\<open>maxCheckpointAttempts\<close>: the first commit and two retries.\<close>

definition maxCheckpointAttempts :: nat where
  "maxCheckpointAttempts = 3"

definition issue_checkpoint :: "engine \<Rightarrow> Checkpoint \<Rightarrow> act" where
  "issue_checkpoint en c = do {
     t \<leftarrow> tick;
     call (writes (CheckpointOp (en_rt en) (en_dbclock en t) (en_clock en t) c))
   }"

definition refresh_scope :: "WorkflowInstanceModel \<Rightarrow> execScope \<Rightarrow> execScope" where
  "refresh_scope m sc = sc\<lparr>sc_revision := wm_revision m, sc_pause_requested := wm_pause_requested m\<rparr>"

definition refresh_checkpoint :: "WorkflowInstanceModel \<Rightarrow> execScope \<Rightarrow> Checkpoint \<Rightarrow> Checkpoint" where
  "refresh_checkpoint m sc c = c
     \<lparr>cp_revision := wm_revision m, cp_pause_requested := wm_pause_requested m,
      cp_status := (if cp_status c \<in> {WorkflowWaiting, WorkflowPaused} then nextStatus sc else cp_status c)\<rparr>"

text \<open>
  The retry loop: \<open>Inl r\<close> is a return from inside it, \<open>Inr (r, sc)\<close> leaves it with the last
  result and the refreshed scope.
\<close>

fun checkpoint_retry ::
  "engine \<Rightarrow> nat \<Rightarrow> execScope \<Rightarrow> Checkpoint \<Rightarrow> go_err + unit \<Rightarrow>
   ((go_err + unit) + (go_err + unit) \<times> execScope) step" where
  "checkpoint_retry en 0 sc c r = ret (Inr (r, sc))"
| "checkpoint_retry en (Suc n) sc c r =
     (if \<not> conflict r then ret (Inr (r, sc))
      else do {
        fresh \<leftarrow> call (reads (GetByID (sc_instance sc)));
        case fresh of
          Inl _ \<Rightarrow> ret (Inl r)
        | Inr m \<Rightarrow>
            if wm_leased_by m \<noteq> sc_leased_by sc then ret (Inl (Inr ()))
            else if wm_status m \<noteq> WorkflowRunning then ret (Inl (Inr ()))
            else do {
              r' \<leftarrow> issue_checkpoint en (refresh_checkpoint m (refresh_scope m sc) c);
              if lost r' then ret (Inl (Inr ()))
              else checkpoint_retry en n (refresh_scope m sc) (refresh_checkpoint m (refresh_scope m sc) c) r'
            }
      })"

definition checkpoint_of ::
  "execScope \<Rightarrow> Frame \<Rightarrow> Counters \<Rightarrow> raw \<Rightarrow> WorkflowStatus \<Rightarrow> WaitingReason \<Rightarrow> string \<Rightarrow> time option \<Rightarrow>
   NodeContextHistoryModel option \<Rightarrow> time option \<Rightarrow> Checkpoint" where
  "checkpoint_of sc frame counters ctxRaw status reason errMsg finished hist runAt =
     \<lparr>cp_instance = sc_instance sc, cp_worker = sc_leased_by sc, cp_revision = sc_revision sc,
      cp_definition = sc_definition sc, cp_from_status = sc_from_status sc, cp_from_reason = sc_from_reason sc,
      cp_status = status, cp_reason = reason, cp_pause_requested = sc_pause_requested sc, cp_frame = frame,
      cp_counters = counters, cp_context = ctxRaw, cp_error = errMsg, cp_finished_at = finished,
      cp_run_at = runAt, cp_history = hist\<rparr>"

text \<open>After the retries: release on a persistent conflict, record a debug pause.\<close>

definition settle_checkpoint ::
  "engine \<Rightarrow> WorkflowStatus \<Rightarrow> WaitingReason \<Rightarrow> contextCommit option \<Rightarrow> execScope \<Rightarrow> go_err + unit \<Rightarrow> act" where
  "settle_checkpoint en status reason co sc r =
     (if conflict r then do {
        now \<leftarrow> now_of en;
        _ \<leftarrow> call (always (ReleaseLease now (sc_instance sc) (sc_leased_by sc)));
        ret (Inr ())
      }
      else case r of
        Inl e \<Rightarrow> ret (Inl e)
      | Inr _ \<Rightarrow>
          if status = WorkflowPaused \<and> reason \<noteq> ReasonInput \<and> sc_debug sc \<and> \<not> sc_pause_requested sc
          then do {
            appendEvent en sc ''paused'' (obj [(''debug'', JBool True), (''node_id'', JStr (commitNodeID co))]);
            ret (Inr ())
          } else ret (Inr ()))"

definition commit_instance ::
  "engine \<Rightarrow> execScope \<Rightarrow> contextCommit option \<Rightarrow> Checkpoint \<Rightarrow> act" where
  "commit_instance en sc co c = do {
     r \<leftarrow> issue_checkpoint en c;
     if lost r then ret (Inr ())
     else do {
       out \<leftarrow> checkpoint_retry en (maxCheckpointAttempts - 1) sc c r;
       case out of
         Inl r' \<Rightarrow> ret r'
       | Inr (r', sc') \<Rightarrow> settle_checkpoint en (cp_status c) (cp_reason c) co sc' r'
     }
   }"

definition checkpointAt ::
  "engine \<Rightarrow> execScope \<Rightarrow> Frame \<Rightarrow> Counters \<Rightarrow> gomap \<Rightarrow> WorkflowStatus \<Rightarrow> WaitingReason \<Rightarrow> string \<Rightarrow>
   time option \<Rightarrow> contextCommit option \<Rightarrow> time option \<Rightarrow> act" where
  "checkpointAt en sc frame counters ctx status reason errMsg finished co runAt =
     (if isBranch sc then branchCheckpoint en sc frame counters ctx status reason errMsg runAt
      else do {
        h \<leftarrow> (if lean sc then do { r \<leftarrow> lean_history en sc co ctx; ret (bindR r (\<lambda>x. Inr (Some x))) }
             else ret (Inr None));
        case bindR h (\<lambda>hist. bindR (marshalCtx ctx) (\<lambda>ctxRaw. Inr (hist, ctxRaw))) of
          Inl e \<Rightarrow> ret (Inl e)
        | Inr (hist, ctxRaw) \<Rightarrow>
            commit_instance en sc co
              (checkpoint_of sc frame counters ctxRaw status reason errMsg finished hist runAt)
      })"

definition checkpoint ::
  "engine \<Rightarrow> execScope \<Rightarrow> Frame \<Rightarrow> Counters \<Rightarrow> gomap \<Rightarrow> WorkflowStatus \<Rightarrow> WaitingReason \<Rightarrow> string \<Rightarrow>
   time option \<Rightarrow> contextCommit option \<Rightarrow> act" where
  "checkpoint en sc frame counters ctx status reason errMsg finished co =
     checkpointAt en sc frame counters ctx status reason errMsg finished co None"

definition inputCheckpoint ::
  "engine \<Rightarrow> execScope \<Rightarrow> Frame \<Rightarrow> Counters \<Rightarrow> gomap \<Rightarrow> contextCommit option \<Rightarrow> act" where
  "inputCheckpoint en sc frame counters ctx co =
     checkpoint en sc frame counters ctx
       (if sc_pause_requested sc then WorkflowPaused else WorkflowWaiting) ReasonInput [] None co"

definition ctx_commit :: "gomap \<Rightarrow> gomap \<Rightarrow> uid \<Rightarrow> uid \<Rightarrow> int \<Rightarrow> contextCommit option" where
  "ctx_commit from to occurrence node attempt = Some
     \<lparr>cc_start = from, cc_end = Some to, cc_occurrence = occurrence, cc_node = node, cc_attempt = attempt\<rparr>"

definition delayCheckpoint ::
  "engine \<Rightarrow> execScope \<Rightarrow> Frame \<Rightarrow> Counters \<Rightarrow> gomap \<Rightarrow> uid \<Rightarrow> time \<Rightarrow> act" where
  "delayCheckpoint en sc frame counters ctx nodeID deadline =
     checkpointAt en sc frame counters ctx (nextStatus sc) ReasonDelay [] None
       (ctx_commit ctx ctx [] nodeID 0) (Some deadline)"

section \<open>Failing a scope\<close>

definition scope_context :: "execScope \<Rightarrow> gomap" where
  "scope_context sc = (case contextMap (sc_context sc) of Inl e \<Rightarrow> [] | Inr m \<Rightarrow> m)"

definition scope_frame :: "execScope \<Rightarrow> Frame" where
  "scope_frame sc = (case ParseFrame (sc_frame sc) of Inl e \<Rightarrow> NewFrame [] | Inr f \<Rightarrow> f)"

definition scope_counters :: "execScope \<Rightarrow> Counters" where
  "scope_counters sc = (case ParseCounters (sc_counters sc) of Inl e \<Rightarrow> \<lparr>Total = 0, Nodes = []\<rparr> | Inr c \<Rightarrow> c)"

definition failWithContext ::
  "engine \<Rightarrow> execScope \<Rightarrow> go_err \<Rightarrow> gomap \<Rightarrow> contextCommit option \<Rightarrow> act" where
  "failWithContext en sc cause ctx co = do {
     now \<leftarrow> now_of en;
     _ \<leftarrow> (if isBranch sc then ret () else appendEvent en sc ''workflow_failed'' [(''error'', JStr (errorText en cause))]);
     checkpoint en sc (scope_frame sc) (scope_counters sc) ctx WorkflowFailed ReasonRunnable (errorText en cause) (Some now)
       (if lean sc \<and> co = None then ctx_commit (scope_context sc) ctx [] [] 0 else co)
   }"

definition fail_scope :: "engine \<Rightarrow> execScope \<Rightarrow> go_err \<Rightarrow> act" where
  "fail_scope en sc cause = failWithContext en sc cause (scope_context sc) None"

end
