(* ===== verification/Transition.thy ===== *)
theory Transition
  imports Engine
begin

text \<open>
  What a transition does at a node (\<open>internal/workflow/engine/engine.go\<close>): entering a
  group, parking on a delay or an input, running a node, recovering an interrupted
  attempt, routing or recording a failure, and the clean-up after a cancelled execution.
\<close>

section \<open>Attempts\<close>

text \<open>\<open>e.instances.UpdateNodeInstance\<close> and \<open>InsertNodeInstance\<close> as calls.\<close>

definition save_attempt :: "NodeInstanceModel \<Rightarrow> act" where
  "save_attempt n = call (always (UpdateNodeInstance n))"

definition insert_attempt :: "NodeInstanceModel \<Rightarrow> act" where
  "insert_attempt n = call (writes (InsertNodeInstance n))"

definition getAttemptByNode :: "execScope \<Rightarrow> uid \<Rightarrow> (go_err + NodeInstanceModel) step" where
  "getAttemptByNode sc node =
     (if isBranch sc then call (reads (GetBranchNodeInstanceByNode (sc_branch sc) node))
      else call (reads (GetNodeInstanceByNode (sc_instance sc) node)))"

definition attempt_data :: "NodeInstanceModel \<Rightarrow> gomap" where
  "attempt_data a = obj [(''node_id'', JStr (nm_node a)), (''occurrence_id'', JStr (nm_id a))]"

definition numbered :: "NodeInstanceModel \<Rightarrow> gomap" where
  "numbered a = map_put ''attempt'' (JInt (nm_attempt a)) (attempt_data a)"

definition failed_data :: "NodeInstanceModel \<Rightarrow> string \<Rightarrow> gomap" where
  "failed_data a msg = map_put ''error'' (JStr msg) (attempt_data a)"

text \<open>The context before a step: null in lean mode, the encoded context otherwise.\<close>

definition context_before :: "execScope \<Rightarrow> gomap \<Rightarrow> go_err + raw" where
  "context_before sc ctx = (if lean sc then Inr (Some JNull) else marshalCtx ctx)"

text \<open>
  The context columns of a step from \<open>from\<close> to \<open>to\<close>: the diff in lean mode, the encoded
  result otherwise.
\<close>

definition with_context :: "execScope \<Rightarrow> gomap \<Rightarrow> gomap \<Rightarrow> NodeInstanceModel \<Rightarrow> go_err + NodeInstanceModel" where
  "with_context sc from to a =
     (if lean sc
      then (case DiffMaps from to of
              Inl e \<Rightarrow> Inl (EDiff e)
            | Inr df \<Rightarrow> Inr (a\<lparr>nm_context_before := Some JNull, nm_context_after := Some (diffJSON df)\<rparr>))
      else bindR (marshalCtx to) (\<lambda>r. Inr (a\<lparr>nm_context_after := r\<rparr>)))"

definition finish_attempt :: "time \<Rightarrow> NodeStatus \<Rightarrow> NodeInstanceModel \<Rightarrow> NodeInstanceModel" where
  "finish_attempt now st a = a\<lparr>nm_status := st, nm_finished_at := Some now, nm_updated_at := now\<rparr>"

definition stop_attempt :: "time \<Rightarrow> NodeInstanceModel \<Rightarrow> NodeInstanceModel" where
  "stop_attempt now a = a\<lparr>nm_status := NodeStopped, nm_cancelled := True, nm_stopped_at := Some now, nm_updated_at := now\<rparr>"

definition attempt_commit :: "NodeInstanceModel \<Rightarrow> gomap \<Rightarrow> gomap \<Rightarrow> contextCommit option" where
  "attempt_commit a from to = ctx_commit from to (nm_id a) (nm_node a) (nm_attempt a)"

section \<open>Groups and delays\<close>

definition enterGroup ::
  "engine \<Rightarrow> execScope \<Rightarrow> workflowGraph \<Rightarrow> Frame \<Rightarrow> Counters \<Rightarrow> NodeContent \<Rightarrow> act" where
  "enterGroup en sc g frame counters nc =
     (case contextMap (sc_context sc) of
        Inl e \<Rightarrow> fail_scope en sc e
      | Inr ctx \<Rightarrow> do {
          t \<leftarrow> tick;
          case RunPre (en_vm en t 0) nc ctx of
            Inl e \<Rightarrow> failWithContext en sc e ctx None
          | Inr preCtx \<Rightarrow>
              (case EnterGroup (StartOf g) frame (node_id nc) of
                 (_, Inl e) \<Rightarrow> fail_scope en sc (EGraph e)
               | (frame', Inr _) \<Rightarrow> do {
                   appendEvent en sc ''group_entered'' [(''node_id'', JStr (node_id nc))];
                   checkpoint en sc frame' counters preCtx (nextStatus sc) ReasonRunnable [] None
                     (ctx_commit ctx preCtx [] (node_id nc) 0)
                 })
        })"

text \<open>The boolean is \<open>parked\<close>; the error of a parking commit is returned instead.\<close>

definition maybeParkDelay ::
  "engine \<Rightarrow> execScope \<Rightarrow> Frame \<Rightarrow> Counters \<Rightarrow> NodeContent \<Rightarrow> time option \<Rightarrow> (go_err + bool) step" where
  "maybeParkDelay en sc frame counters nc runAt = do {
     now \<leftarrow> now_of en;
     case runAt of
       Some t \<Rightarrow> ret (Inr (t > now))
     | None \<Rightarrow>
         (case contextMap (sc_context sc) of
            Inl e \<Rightarrow> do { r \<leftarrow> fail_scope en sc e; ret (bindR r (\<lambda>_. Inr True)) }
          | Inr ctx \<Rightarrow> do {
              appendEvent en sc ''node_delayed'' (obj
                [(''node_id'', JStr (node_id nc)),
                 (''run_at'', JStr (rt_time (en_rt en) (now + ArrivalWait nc)))]);
              r \<leftarrow> delayCheckpoint en sc frame counters ctx (node_id nc) (now + ArrivalWait nc);
              ret (bindR r (\<lambda>_. Inr True))
            })
   }"

section \<open>Input\<close>

definition fenceParkedAttempt :: "engine \<Rightarrow> execScope \<Rightarrow> NodeInstanceModel \<Rightarrow> act" where
  "fenceParkedAttempt en sc a =
     (if isBranch sc then ret (Inr ())
      else do {
        got \<leftarrow> call (reads (GetByID (sc_instance sc)));
        case got of
          Inl _ \<Rightarrow> ret (Inr ())
        | Inr m \<Rightarrow>
            if wm_status m \<noteq> WorkflowStopped then ret (Inr ())
            else do {
              now \<leftarrow> now_of en;
              r \<leftarrow> save_attempt (stop_attempt now a);
              case r of
                Inl e \<Rightarrow> ret (Inl e)
              | Inr _ \<Rightarrow> do {
                  now' \<leftarrow> now_of en;
                  call (always (ResolveTermination now' (sc_instance sc)))
                }
            }
      })"

text \<open>The parked attempt: the diff of the pre hook in lean mode, the context otherwise.\<close>

definition parked_attempt :: "execScope \<Rightarrow> time \<Rightarrow> gomap \<Rightarrow> gomap \<Rightarrow> NodeInstanceModel \<Rightarrow> go_err + NodeInstanceModel" where
  "parked_attempt sc now ctx preCtx a =
     (let a1 = a\<lparr>nm_status := NodeRunning, nm_started_at := Some now\<rparr>
      in if lean sc then with_context sc ctx preCtx a1
         else bindR (marshalCtx preCtx) (\<lambda>r. Inr (a1\<lparr>nm_context_before := r\<rparr>)))"

definition waitInput ::
  "engine \<Rightarrow> execScope \<Rightarrow> Frame \<Rightarrow> Counters \<Rightarrow> NodeContent \<Rightarrow> act" where
  "waitInput en sc frame counters nc = do {
     now \<leftarrow> now_of en;
     case contextMap (sc_context sc) of
       Inl e \<Rightarrow> fail_scope en sc e
     | Inr ctx \<Rightarrow> do {
         t \<leftarrow> tick;
         case RunPre (en_vm en t 0) nc ctx of
           Inl e \<Rightarrow> failWithContext en sc e ctx None
         | Inr preCtx \<Rightarrow> do {
             i \<leftarrow> newID en;
             case parked_attempt sc now ctx preCtx (newAttempt i sc nc now) of
               Inl e \<Rightarrow> fail_scope en sc e
             | Inr a \<Rightarrow> do {
                 r \<leftarrow> insert_attempt a;
                 case r of
                   Inl e \<Rightarrow> ret (Inl e)
                 | Inr _ \<Rightarrow> do {
                     appendEvent en sc ''node_started'' (numbered a);
                     appendEvent en sc ''input_waiting'' (attempt_data a);
                     r' \<leftarrow> inputCheckpoint en sc frame counters preCtx (attempt_commit a ctx preCtx);
                     case r' of Inl e \<Rightarrow> ret (Inl e) | Inr _ \<Rightarrow> fenceParkedAttempt en sc a
                   }
               }
           }
       }
   }"

section \<open>Failing a node\<close>

text \<open>
  The attempt row of a failed step. In full mode a context that cannot be encoded is
  replaced by the one before the step.
\<close>

definition failed_attempt ::
  "execScope \<Rightarrow> time \<Rightarrow> string \<Rightarrow> gomap \<Rightarrow> gomap \<Rightarrow> NodeInstanceModel \<Rightarrow> go_err + NodeInstanceModel" where
  "failed_attempt sc now msg startCtx ctx a =
     (let a1 = finish_attempt now NodeFailed (a\<lparr>nm_error := msg\<rparr>)
      in if lean sc then with_context sc startCtx ctx a1
         else case with_context sc startCtx ctx a1 of
                Inl _ \<Rightarrow> with_context sc startCtx startCtx a1
              | Inr a2 \<Rightarrow> Inr a2)"

definition failNode ::
  "engine \<Rightarrow> execScope \<Rightarrow> NodeInstanceModel \<Rightarrow> gomap \<Rightarrow> gomap \<Rightarrow> go_err \<Rightarrow> act" where
  "failNode en sc a startCtx ctx cause = do {
     now \<leftarrow> now_of en;
     case failed_attempt sc now (errorText en cause) startCtx ctx a of
       Inl e \<Rightarrow> ret (Inl e)
     | Inr a' \<Rightarrow> do {
         r \<leftarrow> save_attempt a';
         case r of
           Inl e \<Rightarrow> ret (Inl e)
         | Inr _ \<Rightarrow> do {
             appendEvent en sc ''node_failed'' (failed_data a (errorText en cause));
             if lean sc then failWithContext en sc cause ctx (attempt_commit a startCtx ctx)
             else fail_scope en sc cause
           }
       }
   }"

section \<open>Advancing past a node\<close>

primrec exit_events :: "engine \<Rightarrow> execScope \<Rightarrow> uid list \<Rightarrow> unit step" where
  "exit_events en sc [] = ret ()"
| "exit_events en sc (gid # gids) = do {
     appendEvent en sc ''group_exited'' [(''node_id'', JStr gid)];
     exit_events en sc gids
   }"

text \<open>
  The tail the two outcomes of an execution share: advance, run the post hooks of exited
  groups, commit. \<open>mk\<close> is the context commit for the final context.
\<close>

definition leave_node ::
  "engine \<Rightarrow> execScope \<Rightarrow> workflowGraph \<Rightarrow> Frame \<Rightarrow> Counters \<Rightarrow> NodeInstanceModel \<Rightarrow> uid \<Rightarrow> gomap \<Rightarrow> gomap \<Rightarrow>
   time \<Rightarrow> (gomap \<Rightarrow> contextCommit option) \<Rightarrow> act" where
  "leave_node en sc g frame counters a next startCtx outCtx now mk =
     (case Advance (NextOf g) frame next of
        (_, _, Inl e) \<Rightarrow> fail_scope en sc (EGraph e)
      | (frame', exited, Inr done) \<Rightarrow> do {
          t \<leftarrow> tick;
          case RunExitedGroupPosts (\<lambda>n c. RunPost (en_vm en t 0) n c None)
                 (\<lambda>i. case Node g i of Inl e \<Rightarrow> Inl (EGraph e) | Inr n \<Rightarrow> Inr n) exited outCtx of
            (ctx, Some e) \<Rightarrow> failWithContext en sc e ctx (attempt_commit a startCtx ctx)
          | (ctx, None) \<Rightarrow> do {
              exit_events en sc exited;
              if done then checkpoint en sc frame' counters ctx WorkflowFinished ReasonRunnable [] (Some now) (mk ctx)
              else checkpoint en sc frame' counters ctx (nextStatus sc) ReasonRunnable [] None (mk ctx)
            }
        })"

section \<open>Failure routing\<close>

definition failure_reason :: "go_err \<Rightarrow> string" where
  "failure_reason cause = (case node_error_reason cause of
      None \<Rightarrow> ''error'' | Some r \<Rightarrow> if r = [] then ''error'' else r)"

definition partial_output :: "Result option \<Rightarrow> json" where
  "partial_output res = (case res of None \<Rightarrow> JNull | Some x \<Rightarrow> output_json (re_output x))"

definition failure_payload :: "engine \<Rightarrow> go_err \<Rightarrow> Result option \<Rightarrow> json" where
  "failure_payload en cause res = JObj
     [(''message'', JStr (errorText en cause)),
      (''reason'', JStr (failure_reason cause)),
      (''result'', partial_output res)]"

text \<open>
  The row of a settled attempt with its output. An error comes with the attempt as far as
  it was written, which is the one \<open>failNode\<close> then saves.
\<close>

definition settled_attempt ::
  "execScope \<Rightarrow> json \<Rightarrow> gomap \<Rightarrow> gomap \<Rightarrow> NodeInstanceModel \<Rightarrow> (go_err \<times> NodeInstanceModel) + NodeInstanceModel" where
  "settled_attempt sc out startCtx outCtx a =
     (case marshalValue out of
        Inl e \<Rightarrow> Inl (e, a)
      | Inr r \<Rightarrow>
          (case with_context sc startCtx outCtx (a\<lparr>nm_output := r\<rparr>) of
             Inl e \<Rightarrow> Inl (e, a\<lparr>nm_output := r\<rparr>)
           | Inr a' \<Rightarrow> Inr a'))"

definition routeFailure ::
  "engine \<Rightarrow> execScope \<Rightarrow> workflowGraph \<Rightarrow> Frame \<Rightarrow> Counters \<Rightarrow> NodeContent \<Rightarrow> FailureRoute \<Rightarrow>
   NodeInstanceModel \<Rightarrow> gomap \<Rightarrow> gomap \<Rightarrow> go_err \<Rightarrow> Result option \<Rightarrow> act" where
  "routeFailure en sc g frame counters nc route a startCtx ctx cause res =
     (let outCtx = map_put (fr_output route) (failure_payload en cause res) ctx
      in do {
        now \<leftarrow> now_of en;
        case settled_attempt sc (partial_output res) startCtx outCtx
               (finish_attempt now NodeFailed (a\<lparr>nm_error := errorText en cause\<rparr>)) of
          Inl (e, a1) \<Rightarrow> failNode en sc a1 startCtx outCtx e
        | Inr a' \<Rightarrow> do {
            r \<leftarrow> save_attempt a';
            case r of
              Inl e \<Rightarrow> ret (Inl e)
            | Inr _ \<Rightarrow> do {
                appendEvent en sc ''node_failed'' (failed_data a (errorText en cause));
                appendEvent en sc ''node_failure_routed'' (obj
                  [(''node_id'', JStr (node_id nc)), (''occurrence_id'', JStr (nm_id a)),
                   (''target_node_id'', JStr (fr_next route)), (''output_property'', JStr (fr_output route)),
                   (''reason'', JStr (failure_reason cause))]);
                leave_node en sc g frame counters a (fr_next route) startCtx outCtx now (\<lambda>_. None)
              }
          }
      })"

section \<open>Interruption\<close>

definition scopeStopped :: "execScope \<Rightarrow> (go_err + bool) step" where
  "scopeStopped sc =
     (if isBranch sc then do {
        got \<leftarrow> call (reads (GetBranch (sc_branch sc)));
        ret (bindR got (\<lambda>b. Inr (bm_status b \<in> {BranchFailed, BranchCancelled, BranchCompleted})))
      }
      else do {
        got \<leftarrow> call (reads (GetByID (sc_instance sc)));
        ret (bindR got (\<lambda>m. Inr (wm_status m = WorkflowStopped)))
      })"

definition interrupted_attempt :: "time \<Rightarrow> NodeInstanceModel \<Rightarrow> NodeInstanceModel" where
  "interrupted_attempt now a =
     (stop_attempt now a)\<lparr>nm_error := (if nm_error a = [] then ''node interrupted by stop'' else nm_error a)\<rparr>"

definition interrupted :: "engine \<Rightarrow> execScope \<Rightarrow> NodeInstanceModel \<Rightarrow> act" where
  "interrupted en sc a = do {
     stopped \<leftarrow> scopeStopped sc;
     if stopped \<noteq> Inr True then ret (Inr ())
     else do {
       now \<leftarrow> now_of en;
       r \<leftarrow> save_attempt (interrupted_attempt now a);
       case r of
         Inl e \<Rightarrow> ret (Inl e)
       | Inr _ \<Rightarrow> do {
           appendEvent en sc ''node_stopped'' (failed_data a (nm_error (interrupted_attempt now a)));
           appendEvent en sc ''cancellation'' (map_put ''reason'' (JStr ''stop'') (attempt_data a));
           if isBranch sc then ret (Inr ())
           else do {
             now' \<leftarrow> now_of en;
             call (always (ResolveTermination now' (sc_instance sc)))
           }
         }
     }
   }"

section \<open>Executing a node\<close>

text \<open>The script variable fed by \<open>input_data\<close>.\<close>

definition request_vars :: "engine \<Rightarrow> NodeContent \<Rightarrow> gomap \<Rightarrow> go_err + gomap" where
  "request_vars en nc ctx =
     (case nInputData (nfields nc) of
        None \<Rightarrow> Inr []
      | Some path \<Rightarrow>
          (case Get (en_denied en) ctx path of
             Inl e \<Rightarrow> Inl (EPath e)
           | Inr v \<Rightarrow> Inr [(''input'', v)]))"

definition request_of :: "execScope \<Rightarrow> NodeContent \<Rightarrow> NodeInstanceModel \<Rightarrow> gomap \<Rightarrow> gomap \<Rightarrow> Request" where
  "request_of sc nc a ctx vars =
     \<lparr>rq_node = nc, rq_context = ctx, rq_vars = vars, rq_payload = [],
      rq_key = idempotencyKey sc (nm_id a), rq_instance = sc_instance sc, rq_node_instance = nm_id a\<rparr>"

text \<open>
  What an execution yields: the next node, the context it leaves, the output a post hook
  sees, or the error that fails the node. A condition node routes by its key.
\<close>

definition condition_outcome ::
  "workflowGraph \<Rightarrow> NodeContent \<Rightarrow> gomap \<Rightarrow> node_output \<Rightarrow> go_err + uid \<times> gomap \<times> json" where
  "condition_outcome g nc ctx out =
     (case out of
        OutValue _ \<Rightarrow> Inl (EText ''conditions executor returned an invalid result'')
      | OutCondition c \<Rightarrow>
          if \<not> cr_matched c then Inl (EText (''no condition matched in node '' @ node_id nc))
          else
            let hook = JObj [(''index'', JInt (cr_index c)), (''key'', JStr (cr_key c)),
                             (''matched'', JBool (cr_matched c))]
            in if cr_key c = [] then Inr ([], ctx, hook)
               else case KeyTarget g (node_id nc) (cr_key c) of
                      None \<Rightarrow> Inl (EText (''condition key '' @ quoted (cr_key c) @ '' of node '' @ node_id nc @
                        '' is not defined in its workflow or group''))
                    | Some target \<Rightarrow> Inr (target, ctx, hook))"

definition output_key :: "NodeContent \<Rightarrow> string" where
  "output_key nc = (let k = trim_space (nOutputProperty (nfields nc)) in if k = [] then node_id nc else k)"

definition value_outcome :: "NodeContent \<Rightarrow> gomap \<Rightarrow> Result \<Rightarrow> uid \<times> gomap \<times> json" where
  "value_outcome nc ctx res =
     (let out = output_json (re_output res);
          base = (case re_context res of None \<Rightarrow> ctx | Some c \<Rightarrow> c)
      in (nNextNode (nfields nc), map_put (output_key nc) out base, out))"

definition execution_outcome ::
  "workflowGraph \<Rightarrow> NodeContent \<Rightarrow> gomap \<Rightarrow> Result \<Rightarrow> go_err + uid \<times> gomap \<times> json" where
  "execution_outcome g nc ctx res =
     (if node_type nc = NTConditions then condition_outcome g nc ctx (re_output res)
      else Inr (value_outcome nc ctx res))"

text \<open>
  In full mode the start context is the same map as the working context until a hook or a
  script returns a fresh one, so the write of the output shows through it.
\<close>

definition start_after :: "execScope \<Rightarrow> NodeContent \<Rightarrow> Result \<Rightarrow> gomap \<Rightarrow> gomap \<Rightarrow> gomap" where
  "start_after sc nc res startCtx outCtx =
     (if \<not> lean sc \<and> nPreScript (nfields nc) = None \<and> re_context res = None \<and> node_type nc \<noteq> NTConditions
      then outCtx else startCtx)"

definition hook_output :: "json \<Rightarrow> json option" where
  "hook_output v = (if v = JNull then None else Some v)"

definition complete_step ::
  "engine \<Rightarrow> execScope \<Rightarrow> workflowGraph \<Rightarrow> Frame \<Rightarrow> Counters \<Rightarrow> NodeContent \<Rightarrow> NodeInstanceModel \<Rightarrow>
   gomap \<Rightarrow> gomap \<Rightarrow> Result \<Rightarrow> act" where
  "complete_step en sc g frame counters nc a startCtx ctx res =
     (case execution_outcome g nc ctx res of
        Inl e \<Rightarrow> failNode en sc a startCtx ctx e
      | Inr (next, outCtx, hookOutput) \<Rightarrow>
          let start = start_after sc nc res startCtx outCtx
          in do {
            t \<leftarrow> tick;
            case RunPost (en_vm en t 0) nc outCtx (hook_output hookOutput) of
              Inl e \<Rightarrow> failNode en sc a start outCtx e
            | Inr postCtx \<Rightarrow> do {
                now \<leftarrow> now_of en;
                case settled_attempt sc (output_json (re_output res)) start postCtx
                       (finish_attempt now NodeFinished a) of
                  Inl (e, a1) \<Rightarrow> failNode en sc a1 start postCtx e
                | Inr a' \<Rightarrow> do {
                    r \<leftarrow> save_attempt a';
                    case r of
                      Inl e \<Rightarrow> ret (Inl e)
                    | Inr _ \<Rightarrow> do {
                        appendEvent en sc ''node_finished'' (numbered a);
                        leave_node en sc g frame counters a next start postCtx now (attempt_commit a start)
                      }
                  }
              }
          })"

definition executeStep ::
  "engine \<Rightarrow> execScope \<Rightarrow> workflowGraph \<Rightarrow> Frame \<Rightarrow> Counters \<Rightarrow> NodeContent \<Rightarrow> NodeInstanceModel \<Rightarrow>
   gomap \<Rightarrow> gomap \<Rightarrow> act" where
  "executeStep en sc g frame counters nc a startCtx ctx0 = do {
     t \<leftarrow> tick;
     case RunPre (en_vm en t 0) nc ctx0 of
       Inl e \<Rightarrow> failNode en sc a startCtx ctx0 e
     | Inr ctx \<Rightarrow>
         (case request_vars en nc ctx of
            Inl e \<Rightarrow> failNode en sc a startCtx ctx e
          | Inr vars \<Rightarrow> do {
              log_call (request_of sc nc a ctx vars);
              u \<leftarrow> tick;
              case Execute (en_denied en) (en_broker en u) (en_outside en u) (en_vm en u)
                     (request_of sc nc a ctx vars) of
                Inl (cause, res) \<Rightarrow>
                  if en_cancelled en u then interrupted en sc a
                  else (case nOnFailure (nfields nc) of
                          Some route \<Rightarrow> routeFailure en sc g frame counters nc route a startCtx ctx cause res
                        | None \<Rightarrow> failNode en sc a startCtx ctx cause)
              | Inr res \<Rightarrow> complete_step en sc g frame counters nc a startCtx ctx res
            })
   }"

section \<open>Running and recovering\<close>

text \<open>A new attempt of a looped or recovered occurrence.\<close>

definition retry_attempt :: "time \<Rightarrow> raw \<Rightarrow> NodeInstanceModel \<Rightarrow> NodeInstanceModel" where
  "retry_attempt now before a = a
     \<lparr>nm_attempt := nm_attempt a + 1, nm_status := NodeRunning, nm_context_before := before,
      nm_output := Some JNull, nm_context_after := Some JNull, nm_error := [], nm_started_at := Some now,
      nm_finished_at := None, nm_stopped_at := None, nm_cancelled := False, nm_updated_at := now\<rparr>"

definition start_attempt :: "time \<Rightarrow> raw \<Rightarrow> NodeInstanceModel \<Rightarrow> NodeInstanceModel" where
  "start_attempt now before a = a\<lparr>nm_status := NodeRunning, nm_context_before := before, nm_started_at := Some now\<rparr>"

text \<open>Execution from a fresh copy of the context in lean mode.\<close>

definition start_step ::
  "engine \<Rightarrow> execScope \<Rightarrow> workflowGraph \<Rightarrow> Frame \<Rightarrow> Counters \<Rightarrow> NodeContent \<Rightarrow> NodeInstanceModel \<Rightarrow> gomap \<Rightarrow> act" where
  "start_step en sc g frame counters nc a ctx =
     (case (if lean sc then cloneContextMap ctx else Inr ctx) of
        Inl e \<Rightarrow> fail_scope en sc e
      | Inr startCtx \<Rightarrow> executeStep en sc g frame counters nc a startCtx ctx)"

text \<open>The row of this visit: fresh, or the next attempt of the occurrence found.\<close>

definition visit_attempt ::
  "engine \<Rightarrow> execScope \<Rightarrow> NodeContent \<Rightarrow> time \<Rightarrow> raw \<Rightarrow> NodeInstanceModel option \<Rightarrow>
   (go_err + NodeInstanceModel) step" where
  "visit_attempt en sc nc now before found =
     (case found of
        Some a \<Rightarrow>
          if nm_status a = NodeStopped \<and> nm_cancelled a
          then do {
            i \<leftarrow> newID en;
            r \<leftarrow> insert_attempt (start_attempt now before (newAttempt i sc nc now));
            ret (bindR r (\<lambda>_. Inr (start_attempt now before (newAttempt i sc nc now))))
          }
          else do {
            r \<leftarrow> save_attempt (retry_attempt now before a);
            ret (bindR r (\<lambda>_. Inr (retry_attempt now before a)))
          }
      | None \<Rightarrow> do {
          i \<leftarrow> newID en;
          r \<leftarrow> insert_attempt (start_attempt now before (newAttempt i sc nc now));
          ret (bindR r (\<lambda>_. Inr (start_attempt now before (newAttempt i sc nc now))))
        })"

definition run_visit ::
  "engine \<Rightarrow> execScope \<Rightarrow> workflowGraph \<Rightarrow> Frame \<Rightarrow> Counters \<Rightarrow> NodeContent \<Rightarrow> time \<Rightarrow> gomap \<Rightarrow>
   NodeInstanceModel option \<Rightarrow> act" where
  "run_visit en sc g frame counters nc now ctx found =
     (case context_before sc ctx of
        Inl e \<Rightarrow> fail_scope en sc e
      | Inr before \<Rightarrow> do {
          got \<leftarrow> visit_attempt en sc nc now before found;
          case got of
            Inl e \<Rightarrow> ret (Inl e)
          | Inr a \<Rightarrow> do {
              appendEvent en sc ''node_started'' (numbered a);
              start_step en sc g frame counters nc a ctx
            }
        })"

definition runNode ::
  "engine \<Rightarrow> execScope \<Rightarrow> workflowGraph \<Rightarrow> Frame \<Rightarrow> Counters \<Rightarrow> NodeContent \<Rightarrow> act" where
  "runNode en sc g frame counters nc =
     (case Record (en_limits en) (node_id nc) counters of
        Inl e \<Rightarrow> fail_scope en sc (ELimit e)
      | Inr counters' \<Rightarrow> do {
          now \<leftarrow> now_of en;
          case contextMap (sc_context sc) of
            Inl e \<Rightarrow> fail_scope en sc e
          | Inr ctx \<Rightarrow> do {
              found \<leftarrow> getAttemptByNode sc (node_id nc);
              case found of
                Inl e \<Rightarrow>
                  if is_repo ErrNodeInstanceNotFound e then run_visit en sc g frame counters' nc now ctx None
                  else ret (Inl e)
              | Inr a \<Rightarrow> run_visit en sc g frame counters' nc now ctx (Some a)
            }
        })"

text \<open>
  Recovery of an attempt left running. An input is parked again, on the attempt's own
  node when the cursor has moved; a script or a node with \<open>retry_on_recovery\<close> runs again;
  anything else fails.
\<close>

definition recovery_error :: go_err where
  "recovery_error = EText ''node interrupted by recovery; retry_on_recovery=false''"

definition reconcile_frame :: "workflowGraph \<Rightarrow> Frame \<Rightarrow> NodeInstanceModel \<Rightarrow> go_err + Frame \<times> uid" where
  "reconcile_frame g frame a =
     (if CurrentNodeID frame \<noteq> nm_node a
      then (case groupStack g (nm_node a) of
              Inl e \<Rightarrow> Inl (EGraph e)
            | Inr stack \<Rightarrow> Inr (\<lparr>CurrentNodeID = nm_node a, GroupStack = stack\<rparr>, CurrentNodeID frame))
      else Inr (frame, []))"

definition repark_attempt :: "execScope \<Rightarrow> time \<Rightarrow> raw \<Rightarrow> NodeInstanceModel \<Rightarrow> NodeInstanceModel" where
  "repark_attempt sc now before a = a
     \<lparr>nm_attempt := nm_attempt a + 1,
      nm_context_after := (if lean sc then emptyDiffJSON else nm_context_after a),
      nm_status := NodeRunning, nm_context_before := before, nm_started_at := Some now,
      nm_recovery_result := ''retried'', nm_updated_at := now\<rparr>"

definition recover_input ::
  "engine \<Rightarrow> execScope \<Rightarrow> workflowGraph \<Rightarrow> Frame \<Rightarrow> Counters \<Rightarrow> time \<Rightarrow> gomap \<Rightarrow> NodeInstanceModel \<Rightarrow> act" where
  "recover_input en sc g frame counters now ctx a =
     (case reconcile_frame g frame a of
        Inl e \<Rightarrow> fail_scope en sc e
      | Inr (frame', from) \<Rightarrow>
          (case context_before sc ctx of
             Inl e \<Rightarrow> fail_scope en sc e
           | Inr before \<Rightarrow> do {
               r \<leftarrow> save_attempt (repark_attempt sc now before a);
               case r of
                 Inl e \<Rightarrow> ret (Inl e)
               | Inr _ \<Rightarrow> do {
                   appendEvent en sc ''node_retried'' (numbered (repark_attempt sc now before a));
                   _ \<leftarrow> (if from = [] then ret ()
                     else appendEvent en sc ''cursor_reconciled'' (obj
                       [(''from_node'', JStr from), (''to_node'', JStr (nm_node a)),
                        (''occurrence_id'', JStr (nm_id a)), (''attempt'', JInt (nm_attempt a + 1))]));
                   inputCheckpoint en sc frame' counters ctx
                     (attempt_commit (repark_attempt sc now before a) ctx ctx)
                 }
             }))"

definition abandon_attempt :: "execScope \<Rightarrow> time \<Rightarrow> string \<Rightarrow> NodeInstanceModel \<Rightarrow> NodeInstanceModel" where
  "abandon_attempt sc now msg a =
     (let a1 = finish_attempt now NodeFailed (a\<lparr>nm_error := msg, nm_recovery_result := ''failed''\<rparr>)
      in if lean sc then a1\<lparr>nm_context_before := Some JNull, nm_context_after := emptyDiffJSON\<rparr> else a1)"

definition recover_fail ::
  "engine \<Rightarrow> execScope \<Rightarrow> workflowGraph \<Rightarrow> Frame \<Rightarrow> Counters \<Rightarrow> NodeContent \<Rightarrow> time \<Rightarrow> gomap \<Rightarrow>
   NodeInstanceModel \<Rightarrow> act" where
  "recover_fail en sc g frame counters nc now ctx a =
     (case nOnFailure (nfields nc) of
        Some route \<Rightarrow>
          routeFailure en sc g frame counters nc route (a\<lparr>nm_recovery_result := ''failed''\<rparr>) ctx ctx
            (node_err nc ''recovery'' recovery_error) None
      | None \<Rightarrow> do {
          r \<leftarrow> save_attempt (abandon_attempt sc now (errorText en recovery_error) a);
          case r of
            Inl e \<Rightarrow> ret (Inl e)
          | Inr _ \<Rightarrow> do {
              appendEvent en sc ''node_failed'' (failed_data a (errorText en recovery_error));
              failWithContext en sc recovery_error ctx (attempt_commit a ctx ctx)
            }
        })"

definition recover_retry ::
  "engine \<Rightarrow> execScope \<Rightarrow> workflowGraph \<Rightarrow> Frame \<Rightarrow> Counters \<Rightarrow> NodeContent \<Rightarrow> time \<Rightarrow> gomap \<Rightarrow>
   NodeInstanceModel \<Rightarrow> act" where
  "recover_retry en sc g frame counters nc now ctx a =
     (case context_before sc ctx of
        Inl e \<Rightarrow> fail_scope en sc e
      | Inr before \<Rightarrow>
          let a' = (retry_attempt now before a)\<lparr>nm_recovery_result := ''retried''\<rparr>
          in do {
            r \<leftarrow> save_attempt a';
            case r of
              Inl e \<Rightarrow> ret (Inl e)
            | Inr _ \<Rightarrow> do {
                appendEvent en sc ''node_retried'' (numbered a');
                case Record (en_limits en) (node_id nc) counters of
                  Inl e \<Rightarrow> fail_scope en sc (ELimit e)
                | Inr counters' \<Rightarrow> start_step en sc g frame counters' nc a' ctx
              }
          })"

definition retryable :: "NodeContent \<Rightarrow> NodeInstanceModel \<Rightarrow> bool" where
  "retryable nc a \<longleftrightarrow> nm_type a = ''script'' \<or> nRetryOnRecovery (nfields nc)"

definition recover ::
  "engine \<Rightarrow> execScope \<Rightarrow> workflowGraph \<Rightarrow> Frame \<Rightarrow> Counters \<Rightarrow> NodeInstanceModel \<Rightarrow> act" where
  "recover en sc g frame counters a =
     (case Node g (nm_node a) of
        Inl e \<Rightarrow> fail_scope en sc (EGraph e)
      | Inr nc \<Rightarrow>
          (case contextMap (sc_context sc) of
             Inl e \<Rightarrow> fail_scope en sc e
           | Inr ctx \<Rightarrow> do {
               now \<leftarrow> now_of en;
               if nm_type a = ''input'' then recover_input en sc g frame counters now ctx a
               else if retryable nc a then recover_retry en sc g frame counters nc now ctx a
               else recover_fail en sc g frame counters nc now ctx a
             }))"

end
