(* ===== verification/Parallel.thy ===== *)
theory Parallel
  imports Transition
begin

text \<open>
  Fork and join of the engine (\<open>fork.go\<close>, \<open>join.go\<close>), the entry points \<open>Process\<close> and
  \<open>ProcessBranch\<close> (\<open>engine.go\<close>, \<open>branch.go\<close>) and one round of the dispatcher
  (\<open>dispatcher.go\<close>). The worker pool runs the transitions of a round concurrently: from
  inside one of them the others are part of what happens between its calls.
\<close>

section \<open>Fork\<close>

definition fork_targets :: "engine \<Rightarrow> execScope \<Rightarrow> NodeContent \<Rightarrow> ForkBranch list" where
  "fork_targets en sc nc =
     (let targets = (case nParallelBranches (nfields nc) of None \<Rightarrow> [] | Some ts \<Rightarrow> ts);
          names = sort_strings (keys_of targets)
      in map (\<lambda>(i, name). let target = the (map_of targets name)
                in \<lparr>fb_name = name, fb_index = int i, fb_start_node = target, fb_frame = NewFrame target,
                    fb_context = sc_context sc\<rparr>)
           (enumerate 0 names))"

definition fork_request ::
  "engine \<Rightarrow> execScope \<Rightarrow> Frame \<Rightarrow> Counters \<Rightarrow> NodeContent \<Rightarrow> ForkParallel" where
  "fork_request en sc frame counters nc =
     \<lparr>fp_instance = sc_instance sc, fp_definition = sc_definition sc, fp_worker = sc_leased_by sc,
      fp_revision = sc_revision sc, fp_parent_branch = uuidPtr (sc_branch sc), fp_depth = sc_depth sc + 1,
      fp_start_node = node_id nc, fp_end_node = nParallelEndNodeID (nfields nc),
      fp_frame = \<lparr>CurrentNodeID = nParallelEndNodeID (nfields nc), GroupStack = GroupStack frame\<rparr>,
      fp_counters = counters, fp_context = sc_context sc, fp_branches = fork_targets en sc nc,
      fp_debug = sc_debug sc\<rparr>"

definition depth_error :: "engine \<Rightarrow> NodeContent \<Rightarrow> int \<Rightarrow> go_err" where
  "depth_error en nc depth = EText (''parallel_start '' @ quoted (node_id nc) @ '' nests '' @ Itoa depth @
     '' deep, at most '' @ Itoa (int (MaxParallelDepth (en_limits en))) @ '' allowed'')"

definition active_error :: "engine \<Rightarrow> NodeContent \<Rightarrow> nat \<Rightarrow> nat \<Rightarrow> go_err" where
  "active_error en nc active fresh = EText (''parallel_start '' @ quoted (node_id nc) @
     '' would exceed the active branch limit: '' @ Itoa (int active) @ '' active + '' @ Itoa (int fresh) @ '' new > '' @
     Itoa (int (MaxActiveBranchesPerInstance (en_limits en))))"

text \<open>The number of active branches, read only when a limit is set.\<close>

definition active_branches :: "engine \<Rightarrow> execScope \<Rightarrow> (go_err + nat option) step" where
  "active_branches en sc =
     (if MaxActiveBranchesPerInstance (en_limits en) = 0 then ret (Inr None)
      else do {
        n \<leftarrow> call (\<lambda>d. Inr (CountActiveBranches (sc_instance sc) d, d));
        ret (bindR n (\<lambda>k. Inr (Some k)))
      })"

definition commit_fork :: "engine \<Rightarrow> execScope \<Rightarrow> ForkParallel \<Rightarrow> act" where
  "commit_fork en sc f = do {
     t \<leftarrow> tick;
     r \<leftarrow> call (Fork (en_rt en) (en_dbclock en t) (en_clock en t) f);
     case r of
       Inl e \<Rightarrow> ret (if is_repo ErrLeaseLost e then Inr () else Inl e)
     | Inr (ex, _) \<Rightarrow> do {
         appendEvent en sc ''parallel_started'' (obj
           [(''node_id'', JStr (fp_start_node f)), (''parallel_execution_id'', JStr (xm_id ex)),
            (''branch_count'', JInt (int (length (fp_branches f)))), (''start_node_id'', JStr (fp_start_node f)),
            (''end_node_id'', JStr (fp_end_node f))]);
         ret (Inr ())
       }
   }"

definition forkParallel ::
  "engine \<Rightarrow> execScope \<Rightarrow> Frame \<Rightarrow> Counters \<Rightarrow> NodeContent \<Rightarrow> act" where
  "forkParallel en sc frame counters nc =
     (case Record (en_limits en) (node_id nc) counters of
        Inl e \<Rightarrow> fail_scope en sc (ELimit e)
      | Inr counters' \<Rightarrow>
          if MaxParallelDepth (en_limits en) > 0 \<and> sc_depth sc + 1 > int (MaxParallelDepth (en_limits en))
          then fail_scope en sc (depth_error en nc (sc_depth sc + 1))
          else do {
            got \<leftarrow> active_branches en sc;
            case got of
              Inl e \<Rightarrow> ret (Inl e)
            | Inr active \<Rightarrow>
                let fresh = length (fork_targets en sc nc)
                in if active \<noteq> None \<and> the active + fresh > MaxActiveBranchesPerInstance (en_limits en)
                   then fail_scope en sc (active_error en nc (the active) fresh)
                   else commit_fork en sc (fork_request en sc frame counters' nc)
          })"

section \<open>Join\<close>

definition no_execution :: "uid \<Rightarrow> go_err" where
  "no_execution n = EText (''no active parallel execution joins at '' @ quoted n)"

text \<open>The first execution at the end node, of the scope itself, that is not completed.\<close>

definition owned_by :: "execScope \<Rightarrow> ParallelExecutionModel \<Rightarrow> bool" where
  "owned_by sc x \<longleftrightarrow>
     (if isBranch sc then xm_parent_branch x = Some (sc_branch sc) else xm_parent_branch x = None)"

definition joinable :: "execScope \<Rightarrow> uid \<Rightarrow> ParallelExecutionModel list \<Rightarrow> ParallelExecutionModel option" where
  "joinable sc endNode xs =
     first_where (\<lambda>x. xm_end_node x = endNode \<and> owned_by sc x \<and> xm_status x \<noteq> ParallelExecutionCompleted) xs"

definition joinableExecution :: "execScope \<Rightarrow> uid \<Rightarrow> (go_err + ParallelExecutionModel) step" where
  "joinableExecution sc endNode = do {
     r \<leftarrow> call (\<lambda>d. Inr (ListExecutions (sc_instance sc) d, d));
     ret (bindR r (\<lambda>xs. case joinable sc endNode xs of None \<Rightarrow> Inl (no_execution endNode) | Some x \<Rightarrow> Inr x))
   }"

definition resolved_error :: "uid \<Rightarrow> string \<Rightarrow> ParallelExecutionStatus \<Rightarrow> go_err" where
  "resolved_error i link st = EText (''parallel execution '' @ i @ link @ execution_str st)"

definition joinConflict :: "engine \<Rightarrow> execScope \<Rightarrow> uid \<Rightarrow> act" where
  "joinConflict en sc i = do {
     got \<leftarrow> call (reads (GetExecution i));
     case got of
       Inl e \<Rightarrow> ret (Inl e)
     | Inr x \<Rightarrow>
         fail_scope en sc (resolved_error (xm_id x)
           (if xm_status x \<in> {ParallelExecutionFailed, ParallelExecutionCancelled} then '' '' else '' already '')
           (xm_status x))
   }"

definition failJoin :: "engine \<Rightarrow> execScope \<Rightarrow> uid \<Rightarrow> go_err \<Rightarrow> act" where
  "failJoin en sc i cause = do {
     now \<leftarrow> now_of en;
     r \<leftarrow> call (writes (FailExecution now i));
     case r of
       Inl e \<Rightarrow> ret (Inl e)
     | Inr _ \<Rightarrow> do {
         appendEvent en sc ''parallel_failed'' (obj
           [(''parallel_execution_id'', JStr i), (''error'', JStr (errorText en cause))]);
         fail_scope en sc cause
       }
   }"

text \<open>The frozen view of the branches, and \<open>json.Unmarshal\<close> of a branch context.\<close>

definition branch_context :: "raw \<Rightarrow> go_err + json" where
  "branch_context r =
     (case r of
        Some (JObj m) \<Rightarrow> Inr (JObj m)
      | Some JNull \<Rightarrow> Inr JNull
      | _ \<Rightarrow> Inl (EDecode (DecodeFailed ''context'')))"

definition view_branch :: "ParallelBranchModel \<Rightarrow> gomap \<Rightarrow> go_err + gomap" where
  "view_branch b view =
     bindR (branch_context (bm_context b)) (\<lambda>c. Inr (map_put (bm_name b) (JObj
       [(''branch_id'', JStr (bm_id b)), (''context'', c), (''start_node_id'', JStr (bm_start_node b)),
        (''status'', JStr (branch_str (bm_status b)))]) view))"

datatype join_outcome = JoinFailed go_err | JoinInterrupted | JoinMerged gomap

definition join_script :: "engine \<Rightarrow> ParallelBranchModel list \<Rightarrow> NodeContent \<Rightarrow> gomap \<Rightarrow> join_outcome step" where
  "join_script en bs nc ctx =
     (case foldR view_branch bs [] of
        Inl e \<Rightarrow> ret (JoinFailed e)
      | Inr view \<Rightarrow> do {
          t \<leftarrow> tick;
          case RunScript (en_vm en t 0)
            \<lparr>so_source = nCombiningScript (nfields nc), so_context = ctx,
             so_timeout = ConditionTimeout (en_limits en), so_frozen = False,
             so_vars = [(''branch'', JObj view)], so_frozen_vars = [''branch'']\<rparr> of
            Inl e \<Rightarrow> ret (if en_cancelled en t then JoinInterrupted else JoinFailed (EWrap ''combining_script'' e))
          | Inr (out, _) \<Rightarrow> ret (JoinMerged out)
        })"

text \<open>
  \<open>runJoinScript\<close> gets the counters by value: the visit it records reaches its caller
  through the shared node map, the total does not. An empty column has no map to share.
\<close>

definition visit_counters :: "execScope \<Rightarrow> Counters \<Rightarrow> Counters \<Rightarrow> Counters" where
  "visit_counters sc counters recorded =
     (if sc_counters sc = None then counters else counters\<lparr>Nodes := Nodes recorded\<rparr>)"

definition runJoinScript ::
  "engine \<Rightarrow> execScope \<Rightarrow> ParallelBranchModel list \<Rightarrow> NodeContent \<Rightarrow> gomap \<Rightarrow> Counters \<Rightarrow>
   (join_outcome \<times> Counters) step" where
  "runJoinScript en sc bs nc ctx counters =
     (case Record (en_limits en) (node_id nc) counters of
        Inl e \<Rightarrow> ret (JoinFailed (ELimit e), counters)
      | Inr recorded \<Rightarrow> do {
          out \<leftarrow> join_script en bs nc ctx;
          ret (out, visit_counters sc counters recorded)
        })"

text \<open>
  What both joins do up to the commit: resolve the execution, run the combining script,
  advance, run the post hooks of exited groups. \<open>nested\<close> is the branch scope, where an
  end of the workflow is an error.
\<close>

record join_plan =
  jp_execution :: ParallelExecutionModel
  jp_frame :: Frame
  jp_counters :: Counters
  jp_context :: gomap
  jp_done :: bool

definition join_advance ::
  "engine \<Rightarrow> execScope \<Rightarrow> workflowGraph \<Rightarrow> Frame \<Rightarrow> Counters \<Rightarrow> NodeContent \<Rightarrow> ParallelExecutionModel \<Rightarrow> gomap \<Rightarrow>
   (join_plan \<Rightarrow> act) \<Rightarrow> act" where
  "join_advance en sc g frame counters nc ex merged commit =
     (case Advance (NextOf g) frame (nNextNode (nfields nc)) of
        (_, _, Inl e) \<Rightarrow> failJoin en sc (xm_id ex) (EGraph e)
      | (frame', exited, Inr done) \<Rightarrow>
          if done \<and> isBranch sc then failJoin en sc (xm_id ex) (EText missing_join)
          else do {
            t \<leftarrow> tick;
            case RunExitedGroupPosts (\<lambda>n c. RunPost (en_vm en t 0) n c None)
                   (\<lambda>i. case Node g i of Inl e \<Rightarrow> Inl (EGraph e) | Inr n \<Rightarrow> Inr n) exited merged of
              (_, Some e) \<Rightarrow> failJoin en sc (xm_id ex) e
            | (ctx, None) \<Rightarrow>
                commit \<lparr>jp_execution = ex, jp_frame = frame', jp_counters = counters, jp_context = ctx, jp_done = done\<rparr>
          })"

definition join_merge ::
  "engine \<Rightarrow> execScope \<Rightarrow> workflowGraph \<Rightarrow> Frame \<Rightarrow> Counters \<Rightarrow> NodeContent \<Rightarrow> ParallelExecutionModel \<Rightarrow>
   (gomap \<Rightarrow> join_plan \<Rightarrow> act) \<Rightarrow> act" where
  "join_merge en sc g frame counters nc ex commit = do {
     got \<leftarrow> call (\<lambda>d. Inr (ListBranches (xm_id ex) d, d));
     case got of
       Inl e \<Rightarrow> ret (Inl e)
     | Inr bs \<Rightarrow>
         (case contextMap (sc_context sc) of
            Inl e \<Rightarrow> failJoin en sc (xm_id ex) e
          | Inr ctx \<Rightarrow> do {
              (out, counters') \<leftarrow> runJoinScript en sc bs nc ctx counters;
              case out of
                JoinFailed e \<Rightarrow> failJoin en sc (xm_id ex) e
              | JoinInterrupted \<Rightarrow> ret (Inr ())
              | JoinMerged merged \<Rightarrow> join_advance en sc g frame counters' nc ex merged (commit ctx)
            })
   }"

definition join_execution ::
  "engine \<Rightarrow> execScope \<Rightarrow> workflowGraph \<Rightarrow> Frame \<Rightarrow> Counters \<Rightarrow> NodeContent \<Rightarrow> (gomap \<Rightarrow> join_plan \<Rightarrow> act) \<Rightarrow> act" where
  "join_execution en sc g frame counters nc commit = do {
     got \<leftarrow> joinableExecution sc (node_id nc);
     case got of
       Inl e \<Rightarrow> fail_scope en sc e
     | Inr ex \<Rightarrow>
         (case xm_status ex of
            ParallelWaitingForBranches \<Rightarrow>
              (case contextMap (sc_context sc) of
                 Inl e \<Rightarrow> fail_scope en sc e
               | Inr ctx \<Rightarrow> checkpoint en sc frame counters ctx WorkflowWaiting ReasonParallel [] None None)
          | ParallelReadyToJoin \<Rightarrow> join_merge en sc g frame counters nc ex commit
          | ParallelExecutionCompleted \<Rightarrow> fail_scope en sc (no_execution (node_id nc))
          | st \<Rightarrow> fail_scope en sc (resolved_error (xm_id ex) '' '' st))
   }"

definition completed_data :: "join_plan \<Rightarrow> NodeContent \<Rightarrow> gomap" where
  "completed_data p nc = obj
     [(''node_id'', JStr (node_id nc)), (''parallel_execution_id'', JStr (xm_id (jp_execution p))),
      (''start_node_id'', JStr (xm_start_node (jp_execution p))), (''end_node_id'', JStr (node_id nc))]"

text \<open>The result of a join commit.\<close>

definition settle_join :: "engine \<Rightarrow> execScope \<Rightarrow> NodeContent \<Rightarrow> join_plan \<Rightarrow> go_err + unit \<Rightarrow> act" where
  "settle_join en sc nc p r =
     (case r of
        Inl e \<Rightarrow>
          if is_repo ErrLeaseLost e then ret (Inr ())
          else if is_repo ErrStatusConflict e then joinConflict en sc (xm_id (jp_execution p))
          else ret (Inl e)
      | Inr _ \<Rightarrow> do {
          appendEvent en sc ''parallel_completed'' (completed_data p nc);
          ret (Inr ())
        })"

definition join_checkpoint ::
  "execScope \<Rightarrow> time \<Rightarrow> join_plan \<Rightarrow> raw \<Rightarrow> NodeContextHistoryModel option \<Rightarrow> JoinCheckpoint" where
  "join_checkpoint sc now p ctxRaw hist =
     \<lparr>jc_checkpoint =
        (checkpoint_of sc (jp_frame p) (jp_counters p) ctxRaw
           (if jp_done p then WorkflowFinished else nextStatus sc) ReasonRunnable []
           (if jp_done p then Some now else None) hist None)
          \<lparr>cp_from_status := WorkflowRunning, cp_from_reason := ReasonRunnable\<rparr>,
      jc_execution = xm_id (jp_execution p)\<rparr>"

definition commit_join :: "engine \<Rightarrow> execScope \<Rightarrow> NodeContent \<Rightarrow> gomap \<Rightarrow> join_plan \<Rightarrow> act" where
  "commit_join en sc nc ctx p = do {
     now \<leftarrow> now_of en;
     h \<leftarrow> (if lean sc
          then do { r \<leftarrow> lean_history en sc (ctx_commit ctx (jp_context p) [] (node_id nc) 1) (jp_context p);
                    ret (bindR r (\<lambda>x. Inr (Some x))) }
          else ret (Inr None));
     case bindR h (\<lambda>hist. bindR (marshalCtx (jp_context p)) (\<lambda>ctxRaw. Inr (hist, ctxRaw))) of
       Inl e \<Rightarrow> failJoin en sc (xm_id (jp_execution p)) e
     | Inr (hist, ctxRaw) \<Rightarrow> do {
         t \<leftarrow> tick;
         r \<leftarrow> call (writes (JoinParallel (en_rt en) (en_dbclock en t) (en_clock en t)
                (join_checkpoint sc now p ctxRaw hist)));
         settle_join en sc nc p r
       }
   }"

definition joinParallel ::
  "engine \<Rightarrow> execScope \<Rightarrow> workflowGraph \<Rightarrow> Frame \<Rightarrow> Counters \<Rightarrow> NodeContent \<Rightarrow> act" where
  "joinParallel en sc g frame counters nc = join_execution en sc g frame counters nc (commit_join en sc nc)"

definition join_branch_checkpoint :: "execScope \<Rightarrow> join_plan \<Rightarrow> raw \<Rightarrow> JoinBranchCheckpoint" where
  "join_branch_checkpoint sc p ctxRaw =
     \<lparr>jb_checkpoint =
        \<lparr>bc_branch = sc_branch sc, bc_worker = sc_leased_by sc, bc_revision = sc_revision sc,
         bc_status = BranchWaiting, bc_reason = nextBranchReason sc ReasonRunnable, bc_frame = jp_frame p,
         bc_counters = jp_counters p, bc_context = ctxRaw, bc_error = [], bc_run_at = None\<rparr>,
      jb_execution = xm_id (jp_execution p)\<rparr>"

definition commit_branch_join :: "engine \<Rightarrow> execScope \<Rightarrow> NodeContent \<Rightarrow> gomap \<Rightarrow> join_plan \<Rightarrow> act" where
  "commit_branch_join en sc nc ctx p =
     (case marshalCtx (jp_context p) of
        Inl e \<Rightarrow> failJoin en sc (xm_id (jp_execution p)) e
      | Inr ctxRaw \<Rightarrow> do {
          t \<leftarrow> tick;
          r \<leftarrow> call (writes (JoinBranchParallel (en_dbclock en t) (en_clock en t) (join_branch_checkpoint sc p ctxRaw)));
          settle_join en sc nc p r
        })"

definition joinNestedParallel ::
  "engine \<Rightarrow> execScope \<Rightarrow> workflowGraph \<Rightarrow> Frame \<Rightarrow> Counters \<Rightarrow> NodeContent \<Rightarrow> act" where
  "joinNestedParallel en sc g frame counters nc =
     join_execution en sc g frame counters nc (commit_branch_join en sc nc)"

section \<open>The entry points\<close>

text \<open>
  The node switch. \<open>at_join\<close> is the join of the scope's kind, \<open>runAt\<close> the deadline of
  the row.
\<close>

definition at_node_type ::
  "engine \<Rightarrow> execScope \<Rightarrow> workflowGraph \<Rightarrow> Frame \<Rightarrow> Counters \<Rightarrow> NodeContent \<Rightarrow> act" where
  "at_node_type en sc g frame counters nc =
     (case node_type nc of
        NTGroup \<Rightarrow> enterGroup en sc g frame counters nc
      | NTInput \<Rightarrow> waitInput en sc frame counters nc
      | NTParallelStart \<Rightarrow> forkParallel en sc frame counters nc
      | NTParallelEnd \<Rightarrow>
          (if isBranch sc then joinNestedParallel en sc g frame counters nc
           else joinParallel en sc g frame counters nc)
      | _ \<Rightarrow> runNode en sc g frame counters nc)"

definition at_cursor ::
  "engine \<Rightarrow> execScope \<Rightarrow> workflowGraph \<Rightarrow> Frame \<Rightarrow> Counters \<Rightarrow> time option \<Rightarrow> act" where
  "at_cursor en sc g frame counters runAt =
     (case Node g (CurrentNodeID frame) of
        Inl e \<Rightarrow> fail_scope en sc (EGraph e)
      | Inr nc \<Rightarrow>
          if ArrivalWait nc > 0
          then do {
            parked \<leftarrow> maybeParkDelay en sc frame counters nc runAt;
            case parked of
              Inl e \<Rightarrow> ret (Inl e)
            | Inr b \<Rightarrow> if b then ret (Inr ()) else at_node_type en sc g frame counters nc
          }
          else at_node_type en sc g frame counters nc)"

text \<open>Recover the attempt left running, or run the cursor node.\<close>

definition resume_scope ::
  "engine \<Rightarrow> execScope \<Rightarrow> workflowGraph \<Rightarrow> Frame \<Rightarrow> Counters \<Rightarrow> time option \<Rightarrow>
   go_err + NodeInstanceModel \<Rightarrow> act" where
  "resume_scope en sc g frame counters runAt got =
     (case got of
        Inr a \<Rightarrow> recover en sc g frame counters a
      | Inl e \<Rightarrow>
          if is_repo ErrNodeInstanceNotFound e then at_cursor en sc g frame counters runAt
          else ret (Inl e))"

text \<open>The definition, the cursor and the counters of a scope.\<close>

definition load_scope ::
  "engine \<Rightarrow> execScope \<Rightarrow> (go_err + workflowGraph \<times> Frame \<times> Counters) step" where
  "load_scope en sc = do {
     t \<leftarrow> tick;
     ret (bindR (en_loader en t (sc_instance sc)) (\<lambda>wf.
       case ParseFrame (sc_frame sc) of
         Inl e \<Rightarrow> Inl (EDecode e)
       | Inr frame \<Rightarrow>
           (case ParseCounters (sc_counters sc) of
              Inl e \<Rightarrow> Inl (EDecode e)
            | Inr counters \<Rightarrow> Inr (buildGraph wf, frame, counters))))
   }"

definition process_scope :: "engine \<Rightarrow> execScope \<Rightarrow> time option \<Rightarrow> act" where
  "process_scope en sc runAt = do {
     loaded \<leftarrow> load_scope en sc;
     case loaded of
       Inl e \<Rightarrow> fail_scope en sc e
     | Inr (g, frame, counters) \<Rightarrow> do {
         got \<leftarrow> call (reads (GetRunningNodeInstance (sc_instance sc)));
         resume_scope en sc g frame counters runAt got
       }
   }"

definition Process :: "engine \<Rightarrow> uid \<Rightarrow> act" where
  "Process en i = do {
     got \<leftarrow> call (reads (GetByID i));
     case got of
       Inl e \<Rightarrow> ret (Inl e)
     | Inr cur \<Rightarrow>
         if wm_status cur \<noteq> WorkflowRunning then ret (Inr ())
         else process_scope en (instanceScope cur) (wm_run_at cur)
   }"

definition stale_context :: "raw \<Rightarrow> raw" where
  "stale_context r =
     (case contextMap r of
        Inl _ \<Rightarrow> r
      | Inr m \<Rightarrow> (case marshalCtx m of Inl _ \<Rightarrow> r | Inr c \<Rightarrow> c))"

definition cancelStaleBranch :: "engine \<Rightarrow> ParallelBranchModel \<Rightarrow> act" where
  "cancelStaleBranch en b = do {
     t \<leftarrow> tick;
     r \<leftarrow> call (writes (CheckpointBranch (en_dbclock en t)
            \<lparr>bc_branch = bm_id b, bc_worker = bm_leased_by b, bc_revision = bm_revision b,
             bc_status = BranchCancelled, bc_reason = ReasonRunnable,
             bc_frame = (case ParseFrame (bm_frame b) of Inl _ \<Rightarrow> NewFrame [] | Inr f \<Rightarrow> f),
             bc_counters = (case ParseCounters (bm_counters b) of Inl _ \<Rightarrow> \<lparr>Total = 0, Nodes = []\<rparr> | Inr c \<Rightarrow> c),
             bc_context = stale_context (bm_context b), bc_error = [], bc_run_at = None\<rparr>));
     case r of
       Inl e \<Rightarrow> ret (if is_repo ErrLeaseLost e then Inr () else Inl e)
     | Inr _ \<Rightarrow> do {
         appendBranchEvent en b ''parallel_branch_cancelled'';
         ret (Inr ())
       }
   }"

text \<open>A branch parked at its own join completes without executing.\<close>

definition process_branch_scope :: "engine \<Rightarrow> execScope \<Rightarrow> ParallelBranchModel \<Rightarrow> act" where
  "process_branch_scope en sc b = do {
     loaded \<leftarrow> load_scope en sc;
     case loaded of
       Inl e \<Rightarrow> fail_scope en sc e
     | Inr (g, frame, counters) \<Rightarrow>
         if CurrentNodeID frame = sc_end_node sc
         then complete_branch_scope en sc frame counters (bm_context b)
         else do {
           got \<leftarrow> call (reads (GetRunningBranchNodeInstance (bm_id b)));
           resume_scope en sc g frame counters (bm_run_at b) got
         }
   }"

definition claimed_branch :: "engine \<Rightarrow> ParallelBranchModel \<Rightarrow> ParallelExecutionModel \<Rightarrow> act" where
  "claimed_branch en b ex =
     (if xm_status ex \<noteq> ParallelWaitingForBranches then cancelStaleBranch en b
      else do {
        inst \<leftarrow> call (reads (GetByID (bm_instance b)));
        case inst of
          Inl e \<Rightarrow> ret (Inl e)
        | Inr m \<Rightarrow> process_branch_scope en (branchScope b ex (wm_debug m)) b
      })"

definition ProcessBranch :: "engine \<Rightarrow> uid \<Rightarrow> act" where
  "ProcessBranch en i = do {
     got \<leftarrow> call (reads (GetBranch i));
     case got of
       Inl e \<Rightarrow> ret (Inl e)
     | Inr b \<Rightarrow>
         if bm_status b \<noteq> BranchRunning then
           (if bm_status b = BranchCancelled
            then do { appendBranchEvent en b ''parallel_branch_cancelled''; ret (Inr ()) }
            else ret (Inr ()))
         else do {
           ex \<leftarrow> call (reads (GetExecution (bm_execution b)));
           case ex of
             Inl e \<Rightarrow> ret (Inl e)
           | Inr x \<Rightarrow> claimed_branch en b x
         }
   }"

section \<open>The dispatcher\<close>

text \<open>One round of the claim loop; a transition's error is logged.\<close>

primrec each :: "('a \<Rightarrow> act) \<Rightarrow> 'a list \<Rightarrow> unit step" where
  "each f [] = ret ()"
| "each f (x # xs) = do { _ \<leftarrow> f x; each f xs }"

definition claimBranches :: "engine \<Rightarrow> (uid \<Rightarrow> bool) \<Rightarrow> string \<Rightarrow> duration \<Rightarrow> nat \<Rightarrow> unit step" where
  "claimBranches en locked worker lease batch = do {
     t \<leftarrow> tick;
     got \<leftarrow> call (\<lambda>d. Inr (ClaimNextBranches locked (en_dbclock en t) (en_clock en t) worker lease batch d));
     case got of
       Inl _ \<Rightarrow> ret ()
     | Inr bs \<Rightarrow> each (\<lambda>b. ProcessBranch en (bm_id b)) bs
   }"

definition claimRound :: "engine \<Rightarrow> (uid \<Rightarrow> bool) \<Rightarrow> string \<Rightarrow> duration \<Rightarrow> nat \<Rightarrow> unit step" where
  "claimRound en locked worker lease batch = do {
     t \<leftarrow> tick;
     got \<leftarrow> call (\<lambda>d. Inr (ClaimNext locked (en_dbclock en t) (en_clock en t) worker lease batch d));
     case got of
       Inl _ \<Rightarrow> ret ()
     | Inr ms \<Rightarrow> do {
         each (\<lambda>m. Process en (wm_id m)) ms;
         claimBranches en locked worker lease batch
       }
   }"

text \<open>
  One heartbeat. The cancellations it fans out are local: the engine's cancel functions
  touch no database row, and reach a transition as \<open>en_cancelled\<close>.
\<close>

definition cancelBranches :: "uid \<Rightarrow> act" where
  "cancelBranches i = do {
     ids \<leftarrow> call (\<lambda>d. Inr (ListBranchIDs i d, d));
     ret (bindR ids (\<lambda>_. Inr ()))
   }"

definition pollTermination :: "engine \<Rightarrow> unit step" where
  "pollTermination en = do {
     pending \<leftarrow> call (\<lambda>d. Inr (ListTerminationPending d, d));
     case pending of
       Inl _ \<Rightarrow> ret ()
     | Inr ids \<Rightarrow> do {
         each cancelBranches ids;
         t \<leftarrow> tick;
         _ \<leftarrow> call (always (SweepTermination (en_dbclock en t)));
         ret ()
       }
   }"

definition heartbeat :: "engine \<Rightarrow> string \<Rightarrow> duration \<Rightarrow> unit step" where
  "heartbeat en worker lease = do {
     t \<leftarrow> tick;
     _ \<leftarrow> call (always (RenewLeases (en_dbclock en t) worker lease));
     u \<leftarrow> tick;
     _ \<leftarrow> call (always (RenewBranchLeases (en_dbclock en u) worker lease));
     pollTermination en
   }"

end
