(* ===== verification/EngineSample.thy ===== *)
theory EngineSample
  imports Parallel Sample
begin

text \<open>
  A concrete engine over the databases of \<open>Sample\<close>, for the witnesses: a workflow with one
  parallel block, a script node after it, an input and a custom node, a script interpreter
  that returns 7, a custom executor whose value cannot be encoded, and
  worlds in which another worker pauses or stops the instance between two calls.
\<close>

definition node_at :: "NodeType \<Rightarrow> uid \<Rightarrow> uid \<Rightarrow> node_fields" where
  "node_at t i next = (plain_node t i)\<lparr>nNextNode := next, nTimeout := seconds 1, nScript := ''return 7''\<rparr>"

definition sample_content :: WorkflowContent where
  "sample_content =
     \<lparr>wStartNodeID = ''par'', wKeys = [],
      wNodes =
        [NodeContent ((node_at NTParallelStart ''par'' [])\<lparr>
           nParallelBranches := Some [(''left'', ''l''), (''right'', ''r'')], nParallelEndNodeID := ''join''\<rparr>) None,
         NodeContent (node_at NTScript ''l'' ''join'') None,
         NodeContent (node_at NTPoller ''r'' ''join'') None,
         NodeContent (node_at NTParallelEnd ''join'' ''next'') None,
         NodeContent (node_at NTScript ''next'' []) None,
         NodeContent ((node_at NTInput ''ask'' ''next'')\<lparr>nChannel := ''http''\<rparr>) None,
         NodeContent (node_at (NTOther ''probe'') ''probe'' ''next'') None],
      wContextMode = None, wStatusUpdate = None\<rparr>"

definition no_outside :: Outside where
  "no_outside =
     (let ok = (\<lambda>req. Inr \<lparr>re_output = OutValue (JStr ''ok''), re_context = None\<rparr>)
      in \<lparr>ou_http = ok, ou_command = ok, ou_poller = ok,
          ou_custom = (\<lambda>_ req. Inr \<lparr>re_output = OutValue JUnsupported, re_context = None\<rparr>)\<rparr>)"

definition sample_engine :: engine where
  "sample_engine =
     \<lparr>en_rt = sample_rt, en_clock = (\<lambda>t. 100 + int t), en_dbclock = (\<lambda>t. 100 + int t),
      en_newid = (\<lambda>t. replicate (Suc t) CHR ''n''), en_limits = DefaultLimits, en_anchor_every = 0,
      en_actor = ''engine'', en_loader = (\<lambda>_ _. Inr sample_content),
      en_vm = (\<lambda>_ _ opts. VmReturned (so_context opts) (JInt 7)), en_outside = (\<lambda>_. no_outside),
      en_broker = (\<lambda>_. None), en_denied = (\<lambda>_. False), en_cancelled = (\<lambda>_. False),
      en_leaf_text = (\<lambda>_. ''error'')\<rparr>"

definition world_of :: "db \<Rightarrow> call_env list \<Rightarrow> world" where
  "world_of d env = \<lparr>w_db = d, w_env = env, w_tick = 0, w_calls = []\<rparr>"

text \<open>The instance, claimed at a node of its own.\<close>

definition db_at :: "uid \<Rightarrow> db" where
  "db_at node = snd (ClaimNext none_locked 1 1 ''w1'' 30 5
     (projr (Insert (sample_wf\<lparr>wm_frame := Some (FrameJSON (NewFrame node))\<rparr>) start_db)))"

definition pausing :: call_env where
  "pausing = \<lparr>ce_before = (\<lambda>d. case Pause sample_rt 50 ''wf'' d of Inl _ \<Rightarrow> d | Inr (_, d') \<Rightarrow> d'), ce_fault = None\<rparr>"

definition stopping :: call_env where
  "stopping = \<lparr>ce_before = (\<lambda>d. case Stop sample_rt 50 ''wf'' ''halt'' d of Inl _ \<Rightarrow> d | Inr (_, d') \<Rightarrow> d'), ce_fault = None\<rparr>"

definition unreachable :: call_env where
  "unreachable = \<lparr>ce_before = (\<lambda>d. d), ce_fault = Some ''connection refused''\<rparr>"

definition the_row :: "db \<Rightarrow> WorkflowStatus \<times> WaitingReason \<times> string \<times> int" where
  "the_row d = (case find_instance ''wf'' d of
      None \<Rightarrow> (WorkflowStopped, ReasonRunnable, [], 0)
    | Some m \<Rightarrow> (wm_status m, wm_reason m, wm_leased_by m, wm_revision m))"

end
