(* ===== verification/EngineSteps.thy ===== *)
theory EngineSteps
  imports EngineSample Lifecycle
begin

text \<open>
  Transitions as repository steps. Whatever the other workers do between its calls, a
  transition only ever changes the database through steps of \<open>repo_step\<close>: each commit it
  issues carries a fence read off a running row.
\<close>

section \<open>Tracked databases\<close>

definition good_env :: "call_env \<Rightarrow> bool" where
  "good_env ev \<longleftrightarrow> (\<forall>d. sys_inv d \<longrightarrow> repo_steps d (ce_before ev d))"

lemma good_alone [simp]: "good_env alone"
  by (simp add: good_env_def alone_def)

text \<open>A property of databases that no step of the repository destroys.\<close>

definition stable :: "(db \<Rightarrow> bool) \<Rightarrow> bool" where
  "stable P \<longleftrightarrow> (\<forall>d d'. sys_inv d \<longrightarrow> repo_step d d' \<longrightarrow> P d \<longrightarrow> P d')"

lemma stable_steps: "repo_steps d d' \<Longrightarrow> stable P \<Longrightarrow> sys_inv d \<Longrightarrow> P d \<Longrightarrow> P d'"
proof (induction rule: rtranclp_induct)
  case (step e f)
  then have "sys_inv e" using repo_steps_inv by blast
  with step show ?case by (auto simp: stable_def)
qed simp

lemma stable_True [simp]: "stable (\<lambda>_. True)"
  by (simp add: stable_def)

lemma stable_conj: "stable P \<Longrightarrow> stable Q \<Longrightarrow> stable (\<lambda>d. P d \<and> Q d)"
  by (simp add: stable_def)

text \<open>The worlds a transition passes through, started on database \<open>d0\<close>.\<close>

definition tracked :: "db \<Rightarrow> (db \<Rightarrow> bool) \<Rightarrow> world \<Rightarrow> bool" where
  "tracked d0 P w \<longleftrightarrow> repo_steps d0 (w_db w) \<and> sys_inv (w_db w) \<and> list_all good_env (w_env w) \<and> P (w_db w)"

definition keeps :: "db \<Rightarrow> (db \<Rightarrow> bool) \<Rightarrow> 'a step \<Rightarrow> bool" where
  "keeps d0 P m \<longleftrightarrow> (\<forall>w. tracked d0 P w \<longrightarrow> tracked d0 P (snd (run_state m w)))"

named_theorems keeps_intro \<open>transitions keep to the repository's steps\<close>

lemma keeps_ret [simp, keeps_intro]: "keeps d0 P (ret x)"
  by (simp add: keeps_def)

lemma keeps_bind [keeps_intro]:
  "keeps d0 P m \<Longrightarrow> (\<And>x. keeps d0 P (k x)) \<Longrightarrow> keeps d0 P (m \<bind> k)"
  by (auto simp: keeps_def split: prod.split)

lemma keeps_tick [keeps_intro]: "keeps d0 P tick"
  by (simp add: keeps_def tick_def tracked_def)

lemma keeps_log [keeps_intro]: "keeps d0 P (log_call req)"
  by (simp add: keeps_def log_call_def tracked_def)

lemma keeps_now [keeps_intro]: "keeps d0 P (now_of en)"
  unfolding now_of_def by (intro keeps_intro)

lemma keeps_newID [keeps_intro]: "keeps d0 P (newID en)"
  unfolding newID_def by (intro keeps_intro)

section \<open>Calls\<close>

text \<open>The database and the environments a call leaves before its operation runs.\<close>

lemma tracked_before:
  assumes "tracked d0 P w" "stable P"
  shows "repo_steps d0 (ce_before (next_env w) (w_db w))" "sys_inv (ce_before (next_env w) (w_db w))"
    "P (ce_before (next_env w) (w_db w))" "list_all good_env (tl (w_env w))"
proof -
  have ev: "good_env (next_env w)"
    using assms(1) by (cases "w_env w") (simp_all add: next_env_def tracked_def)
  then have st: "repo_steps (w_db w) (ce_before (next_env w) (w_db w))"
    using assms(1) by (simp add: good_env_def tracked_def)
  then show "repo_steps d0 (ce_before (next_env w) (w_db w))"
    using assms(1) by (auto simp: tracked_def)
  show "sys_inv (ce_before (next_env w) (w_db w))"
    using st assms(1) by (auto simp: tracked_def intro: repo_steps_inv)
  show "P (ce_before (next_env w) (w_db w))"
    using stable_steps [OF st assms(2)] assms(1) by (simp add: tracked_def)
  show "list_all good_env (tl (w_env w))"
    using assms(1) by (cases "w_env w") (simp_all add: tracked_def)
qed

lemma call_run:
  "run_state (call f) w =
     (let d = ce_before (next_env w) (w_db w); w1 = w\<lparr>w_db := d, w_env := tl (w_env w)\<rparr>
      in case ce_fault (next_env w) of
           Some msg \<Rightarrow> (Inl (EUnavailable msg), w1)
         | None \<Rightarrow> (case f d of Inl e \<Rightarrow> (Inl (ERepo e), w1) | Inr (x, d') \<Rightarrow> (Inr x, w1\<lparr>w_db := d'\<rparr>)))"
  by (simp add: call_def)

text \<open>An operation is allowed under \<open>P\<close> when its result is reached by steps.\<close>

definition allowed :: "(db \<Rightarrow> bool) \<Rightarrow> (db \<Rightarrow> repo_err + 'a \<times> db) \<Rightarrow> bool" where
  "allowed P f \<longleftrightarrow> (\<forall>d x d'. sys_inv d \<longrightarrow> P d \<longrightarrow> f d = Inr (x, d') \<longrightarrow> repo_steps d d')"

lemma keeps_call [keeps_intro]: "stable P \<Longrightarrow> allowed P f \<Longrightarrow> keeps d0 P (call f)"
  unfolding keeps_def
proof (intro allI impI)
  fix w assume st: "stable P" and al: "allowed P f" and t: "tracked d0 P w"
  let ?d = "ce_before (next_env w) (w_db w)"
  note b = tracked_before [OF t st]
  have idle: "tracked d0 P (w\<lparr>w_db := ?d, w_env := tl (w_env w)\<rparr>)" using b by (simp add: tracked_def)
  show "tracked d0 P (snd (run_state (call f) w))"
  proof (cases "ce_fault (next_env w) = None")
    case False
    with idle show ?thesis by (auto simp: call_run Let_def)
  next
    case None: True
    show ?thesis
    proof (cases "f ?d")
      case (Inl e)
      with None idle show ?thesis by (simp add: call_run Let_def)
    next
      case (Inr r)
      obtain x d' where r: "r = (x, d')" by (cases r)
      have "repo_steps ?d d'" using al b(2, 3) Inr r by (auto simp: allowed_def)
      with b st have "repo_steps d0 d' \<and> sys_inv d' \<and> P d'"
        by (auto intro: repo_steps_inv stable_steps)
      with None Inr r b(4) show ?thesis by (simp add: call_run Let_def tracked_def)
    qed
  qed
qed

text \<open>After a read, what it returned may be assumed of the database, as far as it is stable.\<close>

lemma keeps_read_bind:
  assumes "stable P" "\<And>x. stable (Q x)" "\<And>d x. sys_inv d \<Longrightarrow> P d \<Longrightarrow> f d = Inr x \<Longrightarrow> Q x d"
    and "\<And>x. keeps d0 (\<lambda>d. P d \<and> Q x d) (k (Inr x))" "\<And>e. keeps d0 P (k (Inl e))"
  shows "keeps d0 P (call (reads f) \<bind> k)"
  unfolding keeps_def
proof (intro allI impI)
  fix w assume t: "tracked d0 P w"
  let ?d = "ce_before (next_env w) (w_db w)"
  let ?w = "w\<lparr>w_db := ?d, w_env := tl (w_env w)\<rparr>"
  note b = tracked_before [OF t assms(1)]
  have idle: "tracked d0 P ?w" using b by (simp add: tracked_def)
  show "tracked d0 P (snd (run_state (call (reads f) \<bind> k) w))"
  proof (cases "ce_fault (next_env w) \<noteq> None \<or> isl (f ?d)")
    case True
    then obtain e where "run_state (call (reads f)) w = (Inl e, ?w)"
      by (cases "ce_fault (next_env w)") (auto simp: call_run Let_def reads_def isl_def)
    with assms(5) idle show ?thesis by (simp add: keeps_def)
  next
    case False
    then obtain x where x: "f ?d = Inr x" by (cases "f ?d") auto
    with False have r: "run_state (call (reads f)) w = (Inr x, ?w)"
      by (auto simp: call_run Let_def reads_def)
    have "tracked d0 (\<lambda>d. P d \<and> Q x d) ?w"
      using idle assms(3) [OF b(2, 3) x] by (simp add: tracked_def)
    then have "tracked d0 (\<lambda>d. P d \<and> Q x d) (snd (run_state (k (Inr x)) ?w))"
      using assms(4) by (simp add: keeps_def)
    with r show ?thesis by (simp add: tracked_def)
  qed
qed

section \<open>Held scopes\<close>

text \<open>
  The row a scope was read off: while its revision has not moved it is still running, so a
  fence on that revision only matches a running row.
\<close>

definition held_instance :: "uid \<Rightarrow> int \<Rightarrow> db \<Rightarrow> bool" where
  "held_instance i rv d \<longleftrightarrow> (\<exists>m \<in> set (instances d). wm_id m = i \<and> rv \<le> wm_revision m \<and>
     (wm_revision m = rv \<longrightarrow> wm_status m = WorkflowRunning))"

definition held_branch :: "uid \<Rightarrow> int \<Rightarrow> db \<Rightarrow> bool" where
  "held_branch i rv d \<longleftrightarrow> (\<exists>b \<in> set (branches d). bm_id b = i \<and> rv \<le> bm_revision b \<and>
     (bm_revision b = rv \<longrightarrow> bm_status b = BranchRunning))"

definition held :: "execScope \<Rightarrow> db \<Rightarrow> bool" where
  "held sc d \<longleftrightarrow> (if isBranch sc then held_branch (sc_branch sc) (sc_revision sc) d
     else held_instance (sc_instance sc) (sc_revision sc) d)"

lemma stable_held_instance [simp]: "stable (held_instance i rv)"
  unfolding stable_def
proof (intro allI impI)
  fix d d' assume inv: "sys_inv d" and st: "repo_step d d'" and h: "held_instance i rv d"
  from h obtain m where m: "m \<in> set (instances d)" "wm_id m = i" "rv \<le> wm_revision m"
    "wm_revision m = rv \<longrightarrow> wm_status m = WorkflowRunning" by (auto simp: held_instance_def)
  have "evolves d d'" using repo_step_preserves [OF st inv] by blast
  from evolves_rows(1) [OF this inv m(1)] obtain m' where m': "m' \<in> set (instances d')" "inst_later m m'" by blast
  with m show "held_instance i rv d'"
    unfolding held_instance_def by (intro bexI [of _ m']) (auto simp: inst_later_def)
qed

lemma stable_held_branch [simp]: "stable (held_branch i rv)"
  unfolding stable_def
proof (intro allI impI)
  fix d d' assume inv: "sys_inv d" and st: "repo_step d d'" and h: "held_branch i rv d"
  from h obtain b where b: "b \<in> set (branches d)" "bm_id b = i" "rv \<le> bm_revision b"
    "bm_revision b = rv \<longrightarrow> bm_status b = BranchRunning" by (auto simp: held_branch_def)
  have ok: "branch_ok b" using inv b(1) by (auto simp: sys_inv_def list_all_iff)
  have "evolves d d'" using repo_step_preserves [OF st inv] by blast
  from evolves_rows(2) [OF this inv b(1)] obtain b' where b': "b' \<in> set (branches d')" "branch_next b b'" by blast
  with b ok show "held_branch i rv d'"
    unfolding held_branch_def by (intro bexI [of _ b']) (auto simp: branch_next_def branch_ident_def)
qed

lemma stable_held [simp]: "stable (held sc)"
  by (cases "isBranch sc") (simp_all add: held_def [abs_def])

lemma held_fences:
  assumes "sys_inv d"
  shows "held_instance i rv d \<Longrightarrow> running_fence i rv w d"
    and "held_branch i rv d \<Longrightarrow> running_branch_fence i rv w d"
proof -
  have di: "distinct (map wm_id (instances d))" "distinct (map bm_id (branches d))"
    using assms by (simp_all add: sys_inv_def distinct_ids_def)
  show "running_fence i rv w d" if "held_instance i rv d"
    using that di(1) unfolding running_fence_def held_instance_def instance_fence_def
    by (metis by_key_distinct option.inject)
  show "running_branch_fence i rv w d" if "held_branch i rv d"
    using that di(2) unfolding running_branch_fence_def held_branch_def branch_fence_def
    by (metis by_key_distinct option.inject)
qed

section \<open>The operations\<close>

lemma allowed_reads [keeps_intro]: "allowed P (reads f)"
  by (auto simp: allowed_def reads_def bindR_Inr_iff)

lemma allowed_pure [keeps_intro]: "allowed P (\<lambda>d. Inr (g d, d))"
  by (simp add: allowed_def)

lemma allowed_always: "(\<And>d. repo_step d (g d)) \<Longrightarrow> allowed P (always g)"
  by (auto simp: allowed_def always_def)

lemma allowed_writes:
  "(\<And>d d'. sys_inv d \<Longrightarrow> P d \<Longrightarrow> g d = Inr d' \<Longrightarrow> repo_step d d') \<Longrightarrow> allowed P (writes g)"
  by (auto simp: allowed_def writes_def bindR_Inr_iff)

lemma allowed_op:
  "(\<And>d x d'. sys_inv d \<Longrightarrow> P d \<Longrightarrow> g d = Inr (x, d') \<Longrightarrow> repo_step d d') \<Longrightarrow> allowed P g"
  by (auto simp: allowed_def)

lemma allowed_events [keeps_intro]:
  "allowed P (writes (AppendEvent e))" "allowed P (writes (InsertNodeInstance n))"
  "allowed P (writes (FailExecution now i))"
  by (rule allowed_writes, erule repo_step.append repo_step.insert_node repo_step.fail_execution)+

lemma allowed_sweeps [keeps_intro]:
  "allowed P (always (UpdateNodeInstance n))" "allowed P (always (ResolveTermination now i))"
  "allowed P (always (ReleaseLease now i wk))" "allowed P (always (RenewLeases dbnow wk lease))"
  "allowed P (always (RenewBranchLeases dbnow wk lease))" "allowed P (always (SweepTermination dbnow))"
  by (rule allowed_always, rule repo_step.update_node repo_step.resolve repo_step.release repo_step.renew_all
      repo_step.renew_branches repo_step.sweep)+

lemma allowed_failures [keeps_intro]: "allowed P (FailBranch rt dbnow now i wk rv msg)"
  by (rule allowed_op, erule repo_step.fail_branch)

lemma allowed_claims [keeps_intro]:
  "allowed P (\<lambda>d. Inr (ClaimNext locked dbnow now wk lease limit d))"
  "allowed P (\<lambda>d. Inr (ClaimNextBranches locked dbnow now wk lease limit d))"
proof -
  show "allowed P (\<lambda>d. Inr (ClaimNext locked dbnow now wk lease limit d))"
    by (rule allowed_op) (metis repo_step.claim snd_conv sum.inject(2))
  show "allowed P (\<lambda>d. Inr (ClaimNextBranches locked dbnow now wk lease limit d))"
    by (rule allowed_op) (metis repo_step.claim_branches snd_conv sum.inject(2))
qed

text \<open>A commit is allowed to the scope whose row the fence names.\<close>

lemma allowed_checkpoint:
  "(\<And>d. P d \<Longrightarrow> held_instance (cp_instance c) (cp_revision c) d) \<Longrightarrow>
   CanWorkflowTransition WorkflowRunning (cp_status c) \<Longrightarrow> allowed P (writes (CheckpointOp rt dbnow now c))"
  by (rule allowed_writes, rule repo_step.checkpoint, assumption, rule held_fences(1), assumption, blast, assumption)

lemma allowed_join:
  "(\<And>d. P d \<Longrightarrow> held_instance (cp_instance (jc_checkpoint j)) (cp_revision (jc_checkpoint j)) d) \<Longrightarrow>
   CanWorkflowTransition WorkflowRunning (cp_status (jc_checkpoint j)) \<Longrightarrow>
   allowed P (writes (JoinParallel rt dbnow now j))"
  by (rule allowed_writes, rule repo_step.join, assumption, rule held_fences(1), assumption, blast, assumption)

lemma allowed_branch_checkpoint:
  "(\<And>d. P d \<Longrightarrow> held_branch (bc_branch c) (bc_revision c) d) \<Longrightarrow>
   bc_status c \<in> {BranchWaiting, BranchCancelled} \<Longrightarrow> allowed P (writes (CheckpointBranch dbnow c))"
  by (intro allowed_writes) (auto intro: repo_step.checkpoint_branch held_fences(2))

lemma allowed_branch_join:
  "(\<And>d. P d \<Longrightarrow> held_branch (bc_branch (jb_checkpoint j)) (bc_revision (jb_checkpoint j)) d) \<Longrightarrow>
   bc_status (jb_checkpoint j) \<in> {BranchWaiting, BranchCancelled} \<Longrightarrow>
   allowed P (writes (JoinBranchParallel dbnow now j))"
  by (intro allowed_writes) (auto intro: repo_step.join_branch held_fences(2))

lemma allowed_complete:
  "(\<And>d. P d \<Longrightarrow> held_branch (bn_branch c) (bn_revision c) d) \<Longrightarrow> allowed P (CompleteBranch dbnow now c)"
  by (intro allowed_op) (auto intro: repo_step.complete held_fences(2))

lemma allowed_fork:
  "(\<And>d. P d \<Longrightarrow> held sc d) \<Longrightarrow> fp_instance f = sc_instance sc \<Longrightarrow> fp_parent_branch f = uuidPtr (sc_branch sc) \<Longrightarrow>
   fp_revision f = sc_revision sc \<Longrightarrow> allowed P (Fork rt dbnow now f)"
proof (intro allowed_op, rule repo_step.fork)
  fix d x d' assume a: "\<And>d. P d \<Longrightarrow> held sc d" "fp_instance f = sc_instance sc"
    "fp_parent_branch f = uuidPtr (sc_branch sc)" "fp_revision f = sc_revision sc" "sys_inv d" "P d"
  then have "held sc d" by blast
  with a show "fork_fence f d"
    by (auto simp: fork_fence_def held_def isBranch_def uuidPtr_def held_fences split: if_splits)
qed

end
