(* ===== verification/EngineSafety.thy ===== *)
theory EngineSafety
  imports EngineSteps
begin

text \<open>
  Every function of the engine keeps to the repository's steps, bottom up to \<open>Process\<close>,
  \<open>ProcessBranch\<close> and the dispatcher's round.
\<close>

section \<open>Control flow\<close>

lemma keeps_sum [keeps_intro]:
  "(\<And>e. r = Inl e \<Longrightarrow> keeps d0 P (f e)) \<Longrightarrow> (\<And>x. r = Inr x \<Longrightarrow> keeps d0 P (g x)) \<Longrightarrow> keeps d0 P (case_sum f g r)"
  by (cases r) simp_all

lemma keeps_option [keeps_intro]:
  "(r = None \<Longrightarrow> keeps d0 P f) \<Longrightarrow> (\<And>x. r = Some x \<Longrightarrow> keeps d0 P (g x)) \<Longrightarrow> keeps d0 P (case_option f g r)"
  by (cases r) simp_all

lemma keeps_prod [keeps_intro]: "(\<And>a b. r = (a, b) \<Longrightarrow> keeps d0 P (f a b)) \<Longrightarrow> keeps d0 P (case_prod f r)"
  by (cases r) simp

lemma keeps_if [keeps_intro]:
  "(c \<Longrightarrow> keeps d0 P m) \<Longrightarrow> (\<not> c \<Longrightarrow> keeps d0 P n) \<Longrightarrow> keeps d0 P (if c then m else n)"
  by simp

lemma keeps_Let [keeps_intro]: "keeps d0 P (f a) \<Longrightarrow> keeps d0 P (Let a f)"
  by simp

text \<open>\<open>sc\<close> is the scope of the transition under \<open>P\<close>.\<close>

definition owns :: "(db \<Rightarrow> bool) \<Rightarrow> execScope \<Rightarrow> bool" where
  "owns P sc \<longleftrightarrow> stable P \<and> (\<forall>d. P d \<longrightarrow> held sc d)"

lemma owns_stable: "owns P sc \<Longrightarrow> stable P"
  by (simp add: owns_def)

lemma owns_held: "owns P sc \<Longrightarrow> P d \<Longrightarrow> held sc d"
  by (simp add: owns_def)

lemma owns_branch: "owns P sc \<Longrightarrow> isBranch sc \<Longrightarrow> P d \<Longrightarrow> held_branch (sc_branch sc) (sc_revision sc) d"
  by (auto dest: owns_held simp: held_def)

lemma owns_instance: "owns P sc \<Longrightarrow> \<not> isBranch sc \<Longrightarrow> P d \<Longrightarrow> held_instance (sc_instance sc) (sc_revision sc) d"
  by (auto dest: owns_held simp: held_def)

section \<open>Events and commits\<close>

lemma keeps_appendEvent [keeps_intro]: "stable P \<Longrightarrow> keeps d0 P (appendEvent en sc typ data)"
  unfolding appendEvent_def by (intro keeps_intro)

lemma keeps_appendBranchEvent [keeps_intro]: "stable P \<Longrightarrow> keeps d0 P (appendBranchEvent en b typ)"
  unfolding appendBranchEvent_def by (intro keeps_intro)

lemma keeps_fail_branch_scope [keeps_intro]: "stable P \<Longrightarrow> keeps d0 P (fail_branch_scope en sc msg)"
  unfolding fail_branch_scope_def by (intro keeps_intro)

lemma keeps_complete_branch_scope [keeps_intro]:
  "owns P sc \<Longrightarrow> isBranch sc \<Longrightarrow> keeps d0 P (complete_branch_scope en sc frame counters ctxRaw)"
  unfolding complete_branch_scope_def
  by (intro keeps_intro allowed_complete) (auto dest: owns_branch owns_stable)

lemma keeps_branchCheckpoint [keeps_intro]:
  "owns P sc \<Longrightarrow> isBranch sc \<Longrightarrow> keeps d0 P (branchCheckpoint en sc frame counters ctx status reason errMsg runAt)"
  unfolding branchCheckpoint_def
  by (intro keeps_intro allowed_branch_checkpoint) (auto dest: owns_branch owns_stable)

lemma keeps_lean_history [keeps_intro]: "stable P \<Longrightarrow> keeps d0 P (lean_history en sc co endCtx)"
  unfolding lean_history_def by (intro keeps_intro)

definition commit_status :: "WorkflowStatus \<Rightarrow> bool" where
  "commit_status st \<longleftrightarrow> CanWorkflowTransition WorkflowRunning st"

lemma commit_statuses [simp]:
  "commit_status WorkflowWaiting" "commit_status WorkflowPaused" "commit_status WorkflowFinished"
  "commit_status WorkflowFailed" "commit_status (nextStatus sc)"
  by (simp_all add: commit_status_def nextStatus_def)

lemma keeps_issue_checkpoint:
  "stable P \<Longrightarrow> (\<And>d. P d \<Longrightarrow> held_instance (cp_instance c) (cp_revision c) d) \<Longrightarrow> commit_status (cp_status c) \<Longrightarrow>
   keeps d0 P (issue_checkpoint en c)"
  unfolding issue_checkpoint_def by (intro keeps_intro allowed_checkpoint) (simp_all add: commit_status_def)

text \<open>A retry reads the row again and fences on what it read, off a running row.\<close>

lemma keeps_checkpoint_retry:
  "stable P \<Longrightarrow> cp_instance c = sc_instance sc \<Longrightarrow> commit_status (cp_status c) \<Longrightarrow>
   keeps d0 P (checkpoint_retry en n sc c r)"
proof (induction n arbitrary: P sc c r)
  case (Suc n)
  define Q where "Q = (\<lambda>(m :: WorkflowInstanceModel) d. wm_status m = WorkflowRunning \<longrightarrow> held_instance (sc_instance sc) (wm_revision m) d)"
  have stQ: "stable (Q m)" for m
    by (cases "wm_status m = WorkflowRunning") (simp_all add: Q_def)
  have read: "Q m d" if "GetByID (sc_instance sc) d = Inr m" for m d
    using that by (auto simp: Q_def GetByID_def held_instance_def split: option.split_asm dest: by_key_SomeD)
  have cst: "commit_status (cp_status (refresh_checkpoint m (refresh_scope m sc) c))" for m
    using Suc.prems(3) by (simp add: refresh_checkpoint_def)
  show ?case
    unfolding checkpoint_retry.simps
  proof (intro keeps_if keeps_read_bind [where Q = Q])
    fix m
    have st: "stable (\<lambda>d. P d \<and> Q m d)" using stable_conj [OF Suc.prems(1) stQ] .
    have issue: "wm_status m = WorkflowRunning \<Longrightarrow>
      keeps d0 (\<lambda>d. P d \<and> Q m d) (issue_checkpoint en (refresh_checkpoint m (refresh_scope m sc) c))"
      by (rule keeps_issue_checkpoint [OF st _ cst]) (simp add: Q_def refresh_checkpoint_def Suc.prems(2))
    have again: "keeps d0 (\<lambda>d. P d \<and> Q m d)
      (checkpoint_retry en n (refresh_scope m sc) (refresh_checkpoint m (refresh_scope m sc) c) r')" for r'
      by (rule Suc.IH [OF st _ cst]) (simp add: refresh_checkpoint_def refresh_scope_def Suc.prems(2))
    show "keeps d0 (\<lambda>d. P d \<and> Q m d) (case (Inr m :: go_err + WorkflowInstanceModel) of
        Inl _ \<Rightarrow> ret (Inl r)
      | Inr m \<Rightarrow>
          if wm_leased_by m \<noteq> sc_leased_by sc then ret (Inl (Inr ()))
          else if wm_status m \<noteq> WorkflowRunning then ret (Inl (Inr ()))
          else do {
            r' \<leftarrow> issue_checkpoint en (refresh_checkpoint m (refresh_scope m sc) c);
            if lost r' then ret (Inl (Inr ()))
            else checkpoint_retry en n (refresh_scope m sc) (refresh_checkpoint m (refresh_scope m sc) c) r'
          })"
      by (simp only: sum.case, intro keeps_intro again issue) simp
  qed (use Suc.prems(1) stQ read in simp_all)
qed simp

lemma keeps_settle_checkpoint [keeps_intro]: "stable P \<Longrightarrow> keeps d0 P (settle_checkpoint en status reason co sc r)"
  unfolding settle_checkpoint_def by (intro keeps_intro)

lemma keeps_commit_instance:
  assumes "owns P sc" "\<not> isBranch sc" "cp_instance c = sc_instance sc" "cp_revision c = sc_revision sc"
    "commit_status (cp_status c)"
  shows "keeps d0 P (commit_instance en sc co c)"
  unfolding commit_instance_def
  by (intro keeps_intro keeps_issue_checkpoint keeps_checkpoint_retry)
    (use assms in \<open>auto dest: owns_instance owns_stable\<close>)

lemma keeps_checkpointAt [keeps_intro]:
  "owns P sc \<Longrightarrow> commit_status status \<Longrightarrow>
   keeps d0 P (checkpointAt en sc frame counters ctx status reason errMsg finished co runAt)"
  unfolding checkpointAt_def
  by (intro keeps_intro keeps_commit_instance) (auto simp: checkpoint_of_def dest: owns_stable)

lemma keeps_checkpoint [keeps_intro]:
  "owns P sc \<Longrightarrow> commit_status status \<Longrightarrow>
   keeps d0 P (checkpoint en sc frame counters ctx status reason errMsg finished co)"
  unfolding checkpoint_def by (intro keeps_intro)

lemma keeps_inputCheckpoint [keeps_intro]: "owns P sc \<Longrightarrow> keeps d0 P (inputCheckpoint en sc frame counters ctx co)"
  unfolding inputCheckpoint_def by (intro keeps_intro) simp_all

lemma keeps_delayCheckpoint [keeps_intro]:
  "owns P sc \<Longrightarrow> keeps d0 P (delayCheckpoint en sc frame counters ctx node deadline)"
  unfolding delayCheckpoint_def by (intro keeps_intro) simp_all

lemma keeps_failWithContext [keeps_intro]: "owns P sc \<Longrightarrow> keeps d0 P (failWithContext en sc cause ctx co)"
  unfolding failWithContext_def by (intro keeps_intro) (auto dest: owns_stable)

lemma keeps_fail_scope [keeps_intro]: "owns P sc \<Longrightarrow> keeps d0 P (fail_scope en sc cause)"
  unfolding fail_scope_def by (intro keeps_intro)

section \<open>Transitions\<close>

lemma keeps_attempts [keeps_intro]:
  "stable P \<Longrightarrow> keeps d0 P (save_attempt n)" "stable P \<Longrightarrow> keeps d0 P (insert_attempt n)"
  "stable P \<Longrightarrow> keeps d0 P (getAttemptByNode sc node)" "stable P \<Longrightarrow> keeps d0 P (exit_events en sc gids)"
  "stable P \<Longrightarrow> keeps d0 P (scopeStopped sc)" "stable P \<Longrightarrow> keeps d0 P (interrupted en sc a)"
  "stable P \<Longrightarrow> keeps d0 P (fenceParkedAttempt en sc a)"
  "stable P \<Longrightarrow> keeps d0 P (visit_attempt en sc nc now before found)"
proof -
  assume st: "stable P"
  show save: "keeps d0 P (save_attempt n)" for n unfolding save_attempt_def by (intro keeps_intro st)
  show insert: "keeps d0 P (insert_attempt n)" for n unfolding insert_attempt_def by (intro keeps_intro st)
  show "keeps d0 P (getAttemptByNode sc node)" unfolding getAttemptByNode_def by (intro keeps_intro st)
  show "keeps d0 P (exit_events en sc gids)" by (induction gids) (auto intro!: keeps_intro st)
  show stopped: "keeps d0 P (scopeStopped sc)" unfolding scopeStopped_def by (intro keeps_intro st)
  show "keeps d0 P (interrupted en sc a)" unfolding interrupted_def by (intro keeps_intro save stopped st)
  show "keeps d0 P (fenceParkedAttempt en sc a)" unfolding fenceParkedAttempt_def by (intro keeps_intro save st)
  show "keeps d0 P (visit_attempt en sc nc now before found)"
    unfolding visit_attempt_def by (intro keeps_intro save insert st)
qed

lemma keeps_enterGroup [keeps_intro]: "owns P sc \<Longrightarrow> keeps d0 P (enterGroup en sc g frame counters nc)"
  unfolding enterGroup_def by (intro keeps_intro) (auto dest: owns_stable)

lemma keeps_maybeParkDelay [keeps_intro]:
  "owns P sc \<Longrightarrow> keeps d0 P (maybeParkDelay en sc frame counters nc runAt)"
  unfolding maybeParkDelay_def by (intro keeps_intro) (auto dest: owns_stable)

lemma keeps_waitInput [keeps_intro]: "owns P sc \<Longrightarrow> keeps d0 P (waitInput en sc frame counters nc)"
  unfolding waitInput_def by (intro keeps_intro) (auto dest: owns_stable)

lemma keeps_failNode [keeps_intro]: "owns P sc \<Longrightarrow> keeps d0 P (failNode en sc a startCtx ctx cause)"
  unfolding failNode_def by (intro keeps_intro) (auto dest: owns_stable)

lemma keeps_leave_node [keeps_intro]:
  "owns P sc \<Longrightarrow> keeps d0 P (leave_node en sc g frame counters a next startCtx outCtx now mk)"
  unfolding leave_node_def by (intro keeps_intro) (auto dest: owns_stable)

lemma keeps_routeFailure [keeps_intro]:
  "owns P sc \<Longrightarrow> keeps d0 P (routeFailure en sc g frame counters nc route a startCtx ctx cause res)"
  unfolding routeFailure_def by (intro keeps_intro) (auto dest: owns_stable)

lemma keeps_complete_step [keeps_intro]:
  "owns P sc \<Longrightarrow> keeps d0 P (complete_step en sc g frame counters nc a startCtx ctx res)"
  unfolding complete_step_def by (intro keeps_intro) (auto dest: owns_stable)

lemma keeps_executeStep [keeps_intro]:
  "owns P sc \<Longrightarrow> keeps d0 P (executeStep en sc g frame counters nc a startCtx ctx)"
  unfolding executeStep_def by (intro keeps_intro) (auto dest: owns_stable)

lemma keeps_start_step [keeps_intro]: "owns P sc \<Longrightarrow> keeps d0 P (start_step en sc g frame counters nc a ctx)"
  unfolding start_step_def by (intro keeps_intro)

lemma keeps_run_visit [keeps_intro]:
  "owns P sc \<Longrightarrow> keeps d0 P (run_visit en sc g frame counters nc now ctx found)"
  unfolding run_visit_def by (intro keeps_intro) (auto dest: owns_stable)

lemma keeps_runNode [keeps_intro]: "owns P sc \<Longrightarrow> keeps d0 P (runNode en sc g frame counters nc)"
  unfolding runNode_def by (intro keeps_intro) (auto dest: owns_stable)

lemma keeps_recover [keeps_intro]: "owns P sc \<Longrightarrow> keeps d0 P (recover en sc g frame counters a)"
  unfolding recover_def recover_input_def recover_retry_def recover_fail_def
  by (intro keeps_intro) (auto dest: owns_stable)

section \<open>Fork and join\<close>

lemma keeps_commit_fork: "owns P sc \<Longrightarrow> keeps d0 P (commit_fork en sc (fork_request en sc frame counters nc))"
  unfolding commit_fork_def
  by (intro keeps_intro allowed_fork) (auto simp: fork_request_def dest: owns_stable owns_held)

lemma keeps_forkParallel [keeps_intro]: "owns P sc \<Longrightarrow> keeps d0 P (forkParallel en sc frame counters nc)"
  unfolding forkParallel_def active_branches_def
  by (intro keeps_intro keeps_commit_fork) (auto dest: owns_stable)

lemma keeps_failJoin [keeps_intro]: "owns P sc \<Longrightarrow> keeps d0 P (failJoin en sc i cause)"
  unfolding failJoin_def by (intro keeps_intro) (auto dest: owns_stable)

lemma keeps_settle_join [keeps_intro]: "owns P sc \<Longrightarrow> keeps d0 P (settle_join en sc nc p r)"
  unfolding settle_join_def joinConflict_def by (intro keeps_intro) (auto dest: owns_stable)

lemma keeps_commit_join [keeps_intro]:
  "owns P sc \<Longrightarrow> \<not> isBranch sc \<Longrightarrow> keeps d0 P (commit_join en sc nc ctx p)"
  unfolding commit_join_def
  by (intro keeps_intro allowed_join)
    (auto simp: join_checkpoint_def checkpoint_of_def commit_status_def nextStatus_def dest: owns_stable owns_instance)

lemma keeps_commit_branch_join [keeps_intro]:
  "owns P sc \<Longrightarrow> isBranch sc \<Longrightarrow> keeps d0 P (commit_branch_join en sc nc ctx p)"
  unfolding commit_branch_join_def
  by (intro keeps_intro allowed_branch_join) (auto simp: join_branch_checkpoint_def dest: owns_stable owns_branch)

lemma keeps_join_cases [keeps_intro]:
  "keeps d0 P a \<Longrightarrow> keeps d0 P b \<Longrightarrow> keeps d0 P c \<Longrightarrow> keeps d0 P e \<Longrightarrow> keeps d0 P f \<Longrightarrow>
   keeps d0 P (case_ParallelExecutionStatus a b c e f st)"
  "(\<And>x. keeps d0 P (u x)) \<Longrightarrow> keeps d0 P a \<Longrightarrow> (\<And>x. keeps d0 P (v x)) \<Longrightarrow>
   keeps d0 P (case_join_outcome u a v out)"
  by (cases st; simp) (cases out; simp)

lemma keeps_join_execution:
  "owns P sc \<Longrightarrow> (\<And>ctx p. keeps d0 P (commit ctx p)) \<Longrightarrow>
   keeps d0 P (join_execution en sc g frame counters nc commit)"
  unfolding join_execution_def join_merge_def join_advance_def runJoinScript_def join_script_def joinableExecution_def
  by (intro keeps_intro) (auto dest: owns_stable)

lemma keeps_at_node_type [keeps_intro]: "owns P sc \<Longrightarrow> keeps d0 P (at_node_type en sc g frame counters nc)"
  unfolding at_node_type_def joinParallel_def joinNestedParallel_def
  by (cases "node_type nc") (auto intro!: keeps_intro keeps_join_execution)

section \<open>Entry points\<close>

lemma keeps_resume_scope [keeps_intro]:
  "owns P sc \<Longrightarrow> keeps d0 P (resume_scope en sc g frame counters runAt got)"
  unfolding resume_scope_def at_cursor_def by (intro keeps_intro) (auto dest: owns_stable)

lemma keeps_load_scope [keeps_intro]: "keeps d0 P (load_scope en sc)"
  unfolding load_scope_def by (intro keeps_intro)

lemma keeps_process_scope [keeps_intro]: "owns P sc \<Longrightarrow> keeps d0 P (process_scope en sc runAt)"
  unfolding process_scope_def by (intro keeps_intro) (auto dest: owns_stable)

lemma keeps_process_branch_scope [keeps_intro]:
  "owns P sc \<Longrightarrow> isBranch sc \<Longrightarrow> keeps d0 P (process_branch_scope en sc b)"
  unfolding process_branch_scope_def by (intro keeps_intro) (auto dest: owns_stable)

lemma keeps_Process:
  assumes "stable P"
  shows "keeps d0 P (Process en i)"
proof -
  define Q where "Q = (\<lambda>(m :: WorkflowInstanceModel) d. wm_status m = WorkflowRunning \<longrightarrow> held (instanceScope m) d)"
  have stQ: "stable (Q m)" for m
    by (cases "wm_status m = WorkflowRunning") (simp_all add: Q_def)
  have own: "owns (\<lambda>d. P d \<and> Q m d) (instanceScope m)" if "wm_status m = WorkflowRunning" for m
    using that stable_conj [OF assms stQ, of m] by (simp add: owns_def Q_def)
  have read: "Q m d" if "GetByID i d = Inr m" for m d
    using that by (auto simp: Q_def held_def isBranch_def instanceScope_def GetByID_def held_instance_def
        split: option.split_asm dest: by_key_SomeD)
  show ?thesis
    unfolding Process_def
  proof (rule keeps_read_bind [OF assms stQ read])
    fix m :: WorkflowInstanceModel
    show "keeps d0 (\<lambda>d. P d \<and> Q m d) (case (Inr m :: go_err + WorkflowInstanceModel) of
        Inl e \<Rightarrow> ret (Inl e)
      | Inr cur \<Rightarrow> if wm_status cur \<noteq> WorkflowRunning then ret (Inr ())
          else process_scope en (instanceScope cur) (wm_run_at cur))"
      by (auto intro!: keeps_intro own)
  qed simp_all
qed

lemma keeps_cancelStaleBranch:
  "stable P \<Longrightarrow> (\<And>d. P d \<Longrightarrow> held_branch (bm_id b) (bm_revision b) d) \<Longrightarrow> keeps d0 P (cancelStaleBranch en b)"
  unfolding cancelStaleBranch_def by (intro keeps_intro allowed_branch_checkpoint) auto

lemma keeps_claimed_branch:
  assumes "stable P" "\<And>d. P d \<Longrightarrow> held_branch (bm_id b) (bm_revision b) d" "bm_id b \<noteq> []"
  shows "keeps d0 P (claimed_branch en b ex)"
proof -
  have "owns P (branchScope b ex dbg)" "isBranch (branchScope b ex dbg)" for dbg
    using assms by (auto simp: owns_def held_def isBranch_def branchScope_def)
  then show ?thesis
    unfolding claimed_branch_def
    by (intro keeps_intro keeps_cancelStaleBranch assms allowed_reads)
qed

lemma keeps_ProcessBranch:
  assumes "stable P" "i \<noteq> []"
  shows "keeps d0 P (ProcessBranch en i)"
proof -
  define Q where "Q = (\<lambda>(b :: ParallelBranchModel) d. bm_id b = i \<and>
    (bm_status b = BranchRunning \<longrightarrow> held_branch (bm_id b) (bm_revision b) d))"
  have stQ: "stable (Q b)" for b
    by (cases "bm_status b = BranchRunning"; cases "bm_id b = i") (simp_all add: Q_def stable_def [of "\<lambda>_. False"])
  have st: "stable (\<lambda>d. P d \<and> Q b d)" for b using stable_conj [OF assms(1) stQ] .
  have read: "Q b d" if "GetBranch i d = Inr b" for b d
    using that by (auto simp: Q_def GetBranch_def held_branch_def split: option.split_asm dest: by_key_SomeD)
  have body: "keeps d0 (\<lambda>d. P d \<and> Q b d) (do {
      ex \<leftarrow> call (reads (GetExecution (bm_execution b)));
      case ex of Inl e \<Rightarrow> ret (Inl e) | Inr x \<Rightarrow> claimed_branch en b x })"
    if "bm_status b = BranchRunning" "bm_id b = i" for b
    using that assms(2)
    by (intro keeps_intro st keeps_claimed_branch allowed_reads) (auto simp: Q_def)
  show ?thesis
    unfolding ProcessBranch_def
  proof (rule keeps_read_bind [OF assms(1) stQ read])
    fix b :: ParallelBranchModel
    have idle: "keeps d0 (\<lambda>d. P d \<and> Q b d) (do { appendBranchEvent en b t; ret (Inr ()) })" for t
      by (intro keeps_intro st)
    show "keeps d0 (\<lambda>d. P d \<and> Q b d) (case (Inr b :: go_err + ParallelBranchModel) of
        Inl e \<Rightarrow> ret (Inl e)
      | Inr b \<Rightarrow>
          if bm_status b \<noteq> BranchRunning then
            (if bm_status b = BranchCancelled
             then do { appendBranchEvent en b ''parallel_branch_cancelled''; ret (Inr ()) }
             else ret (Inr ()))
          else do {
            ex \<leftarrow> call (reads (GetExecution (bm_execution b)));
            case ex of Inl e \<Rightarrow> ret (Inl e) | Inr x \<Rightarrow> claimed_branch en b x
          })"
    proof (cases "bm_id b = i")
      case True
      then show ?thesis by (auto intro!: keeps_if idle body)
    next
      case False
      then show ?thesis by (simp add: keeps_def tracked_def Q_def)
    qed
  qed simp_all
qed

section \<open>What a transition does to the database\<close>

lemma keeps_run:
  "keeps (w_db w) (\<lambda>_. True) m \<Longrightarrow> sys_inv (w_db w) \<Longrightarrow> list_all good_env (w_env w) \<Longrightarrow>
   repo_steps (w_db w) (w_db (snd (run_state m w)))"
  by (simp add: keeps_def tracked_def)


lemma good_samples: "good_env pausing" "good_env stopping"
  by (auto simp: good_env_def pausing_def stopping_def intro: repo_step.pause repo_step.stop split: sum.split)


end
