(* ===== verification/EngineLease.thy ===== *)
theory EngineLease
  imports EngineSafety
begin

text \<open>
  Revision conflicts and the lease: a checkpoint never hands a conflict to its caller, a
  fork does.
\<close>

section \<open>Checkpoints under interference\<close>

text \<open>Other workers may write what they like, but rows stay and no call fails.\<close>

definition calm :: "call_env \<Rightarrow> bool" where
  "calm ev \<longleftrightarrow> ce_fault ev = None \<and>
     (\<forall>d. wm_id ` set (instances d) \<subseteq> wm_id ` set (instances (ce_before ev d)))"

abbreviation has_row :: "uid \<Rightarrow> world \<Rightarrow> bool" where
  "has_row i w \<equiv> i \<in> wm_id ` set (instances (w_db w))"

lemma call_calm:
  assumes "list_all calm (w_env w)"
  obtains d where "wm_id ` set (instances (w_db w)) \<subseteq> wm_id ` set (instances d)"
    "\<And>f. run_state (call f) w = (case f d of
        Inl e \<Rightarrow> (Inl (ERepo e), w\<lparr>w_db := d, w_env := tl (w_env w)\<rparr>)
      | Inr (x, d') \<Rightarrow> (Inr x, w\<lparr>w_db := d', w_env := tl (w_env w)\<rparr>))"
    "list_all calm (tl (w_env w))"
proof
  let ?d = "ce_before (next_env w) (w_db w)"
  have c: "calm (next_env w)"
    using assms by (cases "w_env w") (simp_all add: next_env_def calm_def alone_def)
  then show "wm_id ` set (instances (w_db w)) \<subseteq> wm_id ` set (instances ?d)" by (simp add: calm_def)
  show "run_state (call f) w = (case f ?d of
        Inl e \<Rightarrow> (Inl (ERepo e), w\<lparr>w_db := ?d, w_env := tl (w_env w)\<rparr>)
      | Inr (x, d') \<Rightarrow> (Inr x, w\<lparr>w_db := d', w_env := tl (w_env w)\<rparr>))" for f
    using c by (auto simp: call_run Let_def calm_def split: sum.split)
  show "list_all calm (tl (w_env w))" using assms by (cases "w_env w") simp_all
qed

lemma run_tick: "run_state tick w = (w_tick w, w\<lparr>w_tick := Suc (w_tick w)\<rparr>)"
  by (simp add: tick_def)

text \<open>A conflict is only diagnosed on a row that exists.\<close>

lemma conflict_has_row:
  "CheckpointOp rt dbnow now c d = Inl ErrRevisionConflict \<Longrightarrow> cp_instance c \<in> wm_id ` set (instances d)"
proof (rule ccontr)
  assume r: "CheckpointOp rt dbnow now c d = Inl ErrRevisionConflict" and
    n: "cp_instance c \<notin> wm_id ` set (instances d)"
  then have "count_where (instance_fence (cp_instance c) (cp_revision c) (cp_worker c)) (instances d) = 0"
    by (force simp: count_where_0_iff instance_fence_def image_iff)
  moreover have "find_instance (cp_instance c) d = None" using n by (simp add: by_key_None_iff)
  ultimately show False
    using r by (simp add: CheckpointOp_def execInstanceCheckpointTx_def diagnoseInstanceFenceTx_def Let_def)
qed

lemma issue_checkpoint_calm:
  assumes "list_all calm (w_env w)" "run_state (issue_checkpoint en c) w = (r, w')"
  shows "list_all calm (w_env w')" "conflict r \<Longrightarrow> has_row (cp_instance c) w'"
proof -
  let ?w = "w\<lparr>w_tick := Suc (w_tick w)\<rparr>"
  obtain d where d: "\<And>f :: db \<Rightarrow> repo_err + unit \<times> db. run_state (call f) ?w = (case f d of
        Inl e \<Rightarrow> (Inl (ERepo e), ?w\<lparr>w_db := d, w_env := tl (w_env ?w)\<rparr>)
      | Inr (x, d') \<Rightarrow> (Inr x, ?w\<lparr>w_db := d', w_env := tl (w_env ?w)\<rparr>))"
    "list_all calm (tl (w_env ?w))"
    using assms(1) by (rule_tac w = ?w in call_calm) auto
  show "list_all calm (w_env w')"
    using assms(2) d by (auto simp: issue_checkpoint_def run_tick split: sum.splits prod.splits)
  show "conflict r \<Longrightarrow> has_row (cp_instance c) w'"
    using assms(2) d(1)
    by (auto simp: issue_checkpoint_def run_tick writes_def bindR_def conflict_def
        intro: conflict_has_row split: sum.split_asm prod.split_asm if_split_asm)
qed

lemma checkpoint_retry_no_conflict:
  "list_all calm (w_env w) \<Longrightarrow> (conflict r \<Longrightarrow> has_row (sc_instance sc) w) \<Longrightarrow> cp_instance c = sc_instance sc \<Longrightarrow>
   fst (run_state (checkpoint_retry en n sc c r) w) = Inl r' \<Longrightarrow> \<not> conflict r'"
proof (induction n arbitrary: sc c r w)
  case (Suc n)
  show ?case
  proof (cases "conflict r")
    case False
    with Suc.prems(4) show ?thesis by simp
  next
    case True
    obtain d where d: "wm_id ` set (instances (w_db w)) \<subseteq> wm_id ` set (instances d)"
      "run_state (call (reads (GetByID (sc_instance sc)))) w = (case reads (GetByID (sc_instance sc)) d of
          Inl e \<Rightarrow> (Inl (ERepo e), w\<lparr>w_db := d, w_env := tl (w_env w)\<rparr>)
        | Inr (x, d') \<Rightarrow> (Inr x, w\<lparr>w_db := d', w_env := tl (w_env w)\<rparr>))"
      "list_all calm (tl (w_env w))"
      using call_calm [OF Suc.prems(1)] by metis
    have "find_instance (sc_instance sc) d \<noteq> None"
      using Suc.prems(2) [OF True] d(1) by (auto simp: by_key_None_iff)
    then obtain m where m: "GetByID (sc_instance sc) d = Inr m" by (auto simp: GetByID_def)
    let ?w = "w\<lparr>w_db := d, w_env := tl (w_env w)\<rparr>"
    let ?sc = "refresh_scope m sc" let ?c = "refresh_checkpoint m ?sc c"
    have read: "run_state (call (reads (GetByID (sc_instance sc)))) w = (Inr m, ?w)"
      using d(2) m by (simp add: reads_def)
    obtain r1 w1 where iss: "run_state (issue_checkpoint en ?c) ?w = (r1, w1)" by fastforce
    note calm1 = issue_checkpoint_calm [OF _ iss]
    have env: "list_all calm (w_env ?w)" using d(3) by simp
    show ?thesis
    proof (cases "wm_leased_by m \<noteq> sc_leased_by sc \<or> wm_status m \<noteq> WorkflowRunning \<or> lost r1")
      case True
      with Suc.prems(4) \<open>conflict r\<close> read iss show ?thesis by (auto simp: conflict_def split: if_split_asm)
    next
      case False
      with Suc.prems(4) \<open>conflict r\<close> read iss
      have "fst (run_state (checkpoint_retry en n ?sc ?c r1) w1) = Inl r'" by simp
      from Suc.IH [OF calm1(1) [OF env] _ _ this] show ?thesis
        using calm1(2) [OF env] Suc.prems(3) by (simp add: refresh_scope_def refresh_checkpoint_def)
    qed
  qed
qed simp

lemma commit_instance_no_conflict:
  assumes "list_all calm (w_env w)" "cp_instance c = sc_instance sc"
  shows "\<not> conflict (fst (run_state (commit_instance en sc co c) w))"
proof -
  obtain r w1 where iss: "run_state (issue_checkpoint en c) w = (r, w1)" by fastforce
  note calm1 = issue_checkpoint_calm [OF assms(1) iss]
  obtain out w2 where out: "run_state (checkpoint_retry en (maxCheckpointAttempts - 1) sc c r) w1 = (out, w2)"
    by fastforce
  have ret: "out = Inl r' \<Longrightarrow> \<not> conflict r'" for r'
    using checkpoint_retry_no_conflict [OF calm1(1), of r sc c en "maxCheckpointAttempts - 1" r'] calm1(2) assms(2) out
    by auto
  have settle: "\<not> conflict (fst (run_state (settle_checkpoint en st reason co sc' r') w2))" for st reason sc' r'
    by (auto simp: settle_checkpoint_def conflict_def split: sum.split prod.split)
  show ?thesis
  proof (cases out)
    case (Inl r')
    with iss out ret [OF Inl] show ?thesis by (cases "lost r") (simp_all add: commit_instance_def conflict_def)
  next
    case (Inr p)
    with iss out settle show ?thesis
      by (cases "lost r"; cases p) (simp_all add: commit_instance_def conflict_def)
  qed
qed


lemma calm_samples: "calm alone" "calm pausing"
proof -
  show "calm alone" by (simp add: calm_def alone_def)
  have "map wm_id (instances d') = map wm_id (instances d)" if "Pause rt now i d = Inr (b, d')" for rt now i b d d'
  proof -
    have keep: "map wm_id (update_where (\<lambda>r. wm_id r = i) f t) = map wm_id t" if "\<And>r. wm_id (f r) = wm_id r" for f t
      using that by (simp add: map_update_where_key)
    have "instances d'' = instances d1" if "enqueueStatusUpdateTx rt i df rv frm to evs err ctx at d1 = Inr d''" for df rv frm to evs err ctx at d1 d''
      using core_enqueue [OF that] by (rule core_eqD(1))
    with that show ?thesis
      by (auto simp: Pause_def bindR_Inr_iff Let_def update_instances_def set_status_def set_pause_requested_def keep
          split: option.split_asm WorkflowStatus.split_asm)
  qed
  then have "wm_id ` set (instances d') = wm_id ` set (instances d)" if "Pause sample_rt 50 ''wf'' d = Inr (b, d')" for b d d'
    using that by (metis set_map)
  then show "calm pausing"
    by (auto simp: calm_def pausing_def split: sum.split)
qed

text \<open>The instance paused twice between the calls of one transition at a script node.\<close>

definition script_commit :: "(go_err + unit) \<times> world" where
  "script_commit = run_state
     (checkpointAt sample_engine (instanceScope (projr (GetByID ''wf'' (db_at ''next'')))) (NewFrame ''next'') no_counts []
        WorkflowWaiting ReasonRunnable [] None None None)
     (world_of (db_at ''next'') [pausing, alone, pausing])"


section \<open>Forks\<close>

text \<open>
  A fork whose instance was paused (or resumed) since it was claimed returns the
  revision conflict and leaves the row as it is, running and leased to the worker; the
  worker's heartbeat then renews that lease each time, so no claim takes the instance up
  again before the worker itself is gone.
\<close>

theorem fork_conflict_keeps_lease:
  assumes "w_env w = []" "fp_parent_branch f = None" "find_instance (fp_instance f) (w_db w) = Some m"
    "wm_status m = WorkflowRunning" "wm_leased_by m = fp_worker f" "wm_revision m \<noteq> fp_revision f"
    "distinct (map wm_id (instances (w_db w)))" "now < dbnow + whole_seconds lease"
  shows "fst (run_state (commit_fork en sc f) w) = Inl (ERepo ErrRevisionConflict) \<and>
    instances (w_db (snd (run_state (commit_fork en sc f) w))) = instances (w_db w) \<and>
    (\<exists>m'. find_instance (fp_instance f) (RenewLeases dbnow (fp_worker f) lease (w_db w)) = Some m' \<and>
       wm_status m' = WorkflowRunning \<and> \<not> claimable now m')"
proof -
  let ?d = "snd (fork_branches (en_rt en) (en_clock en (w_tick w)) (fst (newRepoID (en_rt en) (w_db w))) f (fp_branches f)
      (snd (newRepoID (en_rt en) (w_db w))))"
  have frame: "instances (snd (fork_branches rt n x f bs d)) = instances d" for rt n x bs d
  proof (induction bs arbitrary: d)
    case (Cons b bs)
    show ?case using Cons.IH [of "d\<lparr>next_id := Suc (next_id d)\<rparr>"]
      by (cases "fork_branches rt n x f bs (d\<lparr>next_id := Suc (next_id d)\<rparr>)") (simp add: newRepoID_def Let_def)
  qed simp
  have inst: "instances ?d = instances (w_db w)" by (simp add: frame newRepoID_def)
  have none: "count_where (instance_fence (fp_instance f) (fp_revision f) (fp_worker f)) (instances (w_db w)) = 0"
  proof -
    have "\<not> instance_fence (fp_instance f) (fp_revision f) (fp_worker f) r" if "r \<in> set (instances (w_db w))" for r
      using by_key_mem [OF assms(7) that, of "fp_instance f"] assms(3, 6) by (auto simp: instance_fence_def)
    then show ?thesis by (simp add: count_where_0_iff)
  qed
  have park: "fork_park dbnow f ?d = Inl ErrRevisionConflict" for dbnow
    using assms(2, 3, 5, 6) none
    by (simp add: fork_park_def inst diagnoseParallelFence_def instance_lease_def)
  have fork: "Fork (en_rt en) (en_dbclock en t) (en_clock en (w_tick w)) f (w_db w) = Inl ErrRevisionConflict" for t
    by (simp add: Fork_def Let_def case_prod_beta park)
  have run: "run_state (commit_fork en sc f) w = (Inl (ERepo ErrRevisionConflict), w\<lparr>w_tick := Suc (w_tick w)\<rparr>)"
    using assms(1) fork by (simp add: commit_fork_def run_tick call_run next_env_def alone_def)
  have ren: "find_instance (fp_instance f) (RenewLeases dbnow (fp_worker f) lease (w_db w)) =
      Some (m\<lparr>wm_lease_expiry := Some (dbnow + whole_seconds lease)\<rparr>)"
    using assms(3, 4, 5) by (simp add: RenewLeases_def by_key_update_where)
  show ?thesis
    unfolding run by (simp add: ren assms(4)) (use assms(4, 8) in \<open>simp add: claimable_def expired_def\<close>)
qed

lemma fork_conflict_keeps_lease_witness:
  "fst (run_state (commit_fork sample_engine (instanceScope sample_wf) (sample_fork\<lparr>fp_revision := 0\<rparr>)) (world_of db_claimed []))
     = Inl (ERepo ErrRevisionConflict)"
proof -
  have row: "the_row db_claimed = (WorkflowRunning, ReasonRunnable, ''w1'', 1)" by code_simp
  have ids: "distinct (map wm_id (instances db_claimed))" by code_simp
  from row obtain m where "find_instance ''wf'' db_claimed = Some m" "wm_status m = WorkflowRunning" "wm_leased_by m = ''w1''"
    "wm_revision m \<noteq> 0" by (auto simp: the_row_def split: option.split_asm)
  then show ?thesis
    using fork_conflict_keeps_lease [where w = "world_of db_claimed []" and f = "sample_fork\<lparr>fp_revision := 0\<rparr>"
        and m = m and now = 10 and dbnow = 5 and lease = "seconds 30" and en = sample_engine and sc = "instanceScope sample_wf"] ids
    by (simp add: world_of_def sample_fork_def whole_seconds_def seconds_def)
qed

end
