(* ===== verification/EngineAlone.thy ===== *)
theory EngineAlone
  imports EngineLease
begin

text \<open>
  A transition nobody interferes with gives its lease back: every path of \<open>Process\<close> that
  returns without an error ends in a commit, so the instance is parked or finished.
\<close>

section \<open>Operations that cannot lose the lease\<close>

definition fence_err :: "repo_err \<Rightarrow> bool" where
  "fence_err e \<longleftrightarrow> e = ErrLeaseLost \<or> e = ErrRevisionConflict"

lemma foldR_Inl: "foldR f xs s = Inl e \<Longrightarrow> \<exists>x s'. f x s' = Inl e"
proof (induction xs arbitrary: s)
  case (Cons x xs)
  then show ?case by (cases "f x s") auto
qed simp

lemma enqueue_err:
  "enqueueStatusUpdateTx rt i df rv frm to evs msg ctx at d = Inl e \<Longrightarrow> \<not> fence_err e"
proof -
  have ev: "enqueue_event rt i df rv frm to msg ctx at trs ie d = Inl e \<Longrightarrow> e = ErrUniqueViolation" for trs ie d
    unfolding enqueue_event_def Let_def
    by (auto dest!: foldR_Inl simp: create_outbox_def Let_def create_unique_def split: prod.split_asm if_split_asm)
  assume "enqueueStatusUpdateTx rt i df rv frm to evs msg ctx at d = Inl e"
  then show ?thesis
    unfolding enqueueStatusUpdateTx_def fence_err_def
    by (auto dest!: foldR_Inl ev split: if_split_asm option.split_asm sum.split_asm)
qed

lemma append_history_err: "appendHistoryTx rt i h now d = Inl e \<Longrightarrow> \<not> fence_err e"
  by (auto simp: appendHistoryTx_def fence_err_def Let_def create_def bindR_def split: option.split_asm if_split_asm prod.split_asm sum.split_asm)

text \<open>The row a scope stands for, still as the scope read it; and the row given back.\<close>

definition holds_row :: "execScope \<Rightarrow> db \<Rightarrow> bool" where
  "holds_row sc d \<longleftrightarrow> distinct (map wm_id (instances d)) \<and>
     (\<exists>m. find_instance (sc_instance sc) d = Some m \<and> wm_status m = WorkflowRunning \<and>
        wm_revision m = sc_revision sc \<and> wm_leased_by m = sc_leased_by sc)"

definition gave_back :: "execScope \<Rightarrow> db \<Rightarrow> bool" where
  "gave_back sc d \<longleftrightarrow>
     (\<exists>m. find_instance (sc_instance sc) d = Some m \<and> wm_status m \<noteq> WorkflowRunning \<and> wm_leased_by m = [])"

lemma holds_fence:
  assumes "holds_row sc d"
  shows "count_where (instance_fence (sc_instance sc) (sc_revision sc) (sc_leased_by sc)) (instances d) = 1"
proof -
  obtain m where "distinct (map wm_id (instances d))" "find_instance (sc_instance sc) d = Some m"
    "wm_revision m = sc_revision sc" "wm_leased_by m = sc_leased_by sc"
    using assms by (auto simp: holds_row_def)
  then show ?thesis
    using count_where_by_key [of wm_id "instances d" "instance_fence (sc_instance sc) (sc_revision sc) (sc_leased_by sc)" "sc_instance sc"]
    by (auto simp: instance_fence_def dest: by_key_SomeD)
qed

lemma fenced_update:
  assumes "holds_row sc d" "\<And>r. wm_id (f r) = wm_id r" "\<And>r. wm_status (f r) = st" "st \<noteq> WorkflowRunning"
    "\<And>r. wm_leased_by (f r) = []"
    and "instances d' = update_where (instance_fence (sc_instance sc) (sc_revision sc) (sc_leased_by sc)) f (instances d)"
  shows "gave_back sc d'"
proof -
  obtain m where m: "find_instance (sc_instance sc) d = Some m" "wm_revision m = sc_revision sc" "wm_leased_by m = sc_leased_by sc"
    using assms(1) by (auto simp: holds_row_def)
  then have "instance_fence (sc_instance sc) (sc_revision sc) (sc_leased_by sc) m"
    by (auto simp: instance_fence_def dest: by_key_SomeD)
  with m have "find_instance (sc_instance sc) d' = Some (f m)"
    using assms(2) by (simp add: assms(6) by_key_update_where)
  with assms(3-5) show ?thesis by (simp add: gave_back_def)
qed

lemma checkpoint_alone:
  assumes "holds_row sc d" "cp_instance c = sc_instance sc" "cp_revision c = sc_revision sc" "cp_worker c = sc_leased_by sc"
    "cp_status c \<noteq> WorkflowRunning"
  shows "case CheckpointOp rt dbnow now c d of Inl e \<Rightarrow> \<not> fence_err e | Inr d' \<Rightarrow> gave_back sc d'"
proof -
  let ?d1 = "update_instances (instance_fence (sc_instance sc) (sc_revision sc) (sc_leased_by sc)) (checkpoint_row dbnow c) d"
  have given: "gave_back sc d'" if "core d' = core ?d1" for d'
    by (rule fenced_update [OF assms(1), where f = "checkpoint_row dbnow c" and st = "cp_status c"])
      (use assms(5) core_eqD(1) [OF that] in \<open>simp_all add: checkpoint_row_def\<close>)
  show ?thesis
    using assms(2-4) holds_fence [OF assms(1)]
    by (auto simp: CheckpointOp_def execInstanceCheckpointTx_def Let_def bindR_def
        dest: append_history_err enqueue_err dest!: core_appendHistory core_enqueue intro: given split: sum.split)
qed

lemma join_alone:
  assumes "holds_row sc d" "cp_instance (jc_checkpoint j) = sc_instance sc" "cp_revision (jc_checkpoint j) = sc_revision sc"
    "cp_worker (jc_checkpoint j) = sc_leased_by sc" "cp_status (jc_checkpoint j) \<noteq> WorkflowRunning"
  shows "case JoinParallel rt dbnow now j d of Inl e \<Rightarrow> \<not> fence_err e | Inr d' \<Rightarrow> gave_back sc d'"
proof -
  have frame: "gave_back sc (complete_execution now i d') \<longleftrightarrow> gave_back sc d'" for i d'
    by (simp add: gave_back_def complete_execution_def)
  show ?thesis
    using checkpoint_alone [OF assms(1-5), of rt dbnow now]
    by (auto simp: JoinParallel_def join_ready_def CheckpointOp_def bindR_def fence_err_def frame
        split: option.split sum.split sum.split_asm)
qed

lemma fork_alone:
  assumes "holds_row sc d" "fp_instance f = sc_instance sc" "fp_revision f = sc_revision sc" "fp_worker f = sc_leased_by sc"
    "fp_parent_branch f = None"
  shows "case Fork rt dbnow now f d of Inl e \<Rightarrow> \<not> fence_err e | Inr (x, d') \<Rightarrow> gave_back sc d'"
proof -
  have rows: "instances (snd (fork_branches rt n x f bs e)) = instances e" for n x bs e
  proof (induction bs arbitrary: e)
    case (Cons b bs)
    show ?case using Cons.IH [of "e\<lparr>next_id := Suc (next_id e)\<rparr>"]
      by (cases "fork_branches rt n x f bs (e\<lparr>next_id := Suc (next_id e)\<rparr>)") (simp add: newRepoID_def Let_def)
  qed simp
  have make: "create_branches bs e = Inr e' \<Longrightarrow> instances e' = instances e"
    "create_branches bs e = Inl err \<Longrightarrow> err = ErrUniqueViolation" for bs e e' err
    by (induction bs arbitrary: e) (auto simp: bindR_def create_unique_def split: if_split_asm)
  obtain x d1 where x: "newRepoID rt d = (x, d1)" by fastforce
  obtain bs d2 where bs: "fork_branches rt now x f (fp_branches f) d1 = (bs, d2)" by fastforce
  have i2: "instances d2 = instances d"
    using rows [of now x "fp_branches f" d1] x bs by (auto simp: newRepoID_def)
  have h2: "holds_row sc d2" using assms(1) i2 by (simp add: holds_row_def)
  let ?p = "instance_fence (sc_instance sc) (sc_revision sc) (sc_leased_by sc)"
  have park: "fork_park dbnow f d2 = Inr (update_instances ?p (fork_parent_row dbnow f) d2)"
    using assms(2-5) holds_fence [OF h2] by (simp add: fork_park_def Let_def)
  have given: "gave_back sc d'" if "instances d' = update_where ?p (fork_parent_row dbnow f) (instances d2)" for d'
    by (rule fenced_update [OF h2, where f = "fork_parent_row dbnow f"
          and st = "if fp_debug f then WorkflowPaused else WorkflowWaiting"])
      (use that in \<open>simp_all add: fork_parent_row_def\<close>)
  show ?thesis
    using assms(5)
    by (auto simp: Fork_def x bs park bindR_def create_def Let_def fence_err_def
        dest!: make enqueue_err core_enqueue core_eqD(1) intro!: given split: sum.split if_split_asm sum.split_asm)
qed

section \<open>Steps that keep the row\<close>

definition pos :: "execScope \<Rightarrow> world \<Rightarrow> bool" where
  "pos sc w \<longleftrightarrow> w_env w = [] \<and> holds_row sc (w_db w)"

definition fin :: "execScope \<Rightarrow> world \<Rightarrow> bool" where
  "fin sc w \<longleftrightarrow> w_env w = [] \<and> gave_back sc (w_db w)"

definition quietly :: "execScope \<Rightarrow> 'a step \<Rightarrow> bool" where
  "quietly sc m \<longleftrightarrow> (\<forall>w. (pos sc w \<longrightarrow> pos sc (snd (run_state m w))) \<and> (fin sc w \<longrightarrow> fin sc (snd (run_state m w))))"

named_theorems quiet_intro \<open>steps that leave the instance rows alone\<close>
named_theorems settle_intro \<open>steps that end in a commit\<close>

definition rows_kept :: "(db \<Rightarrow> repo_err + 'a \<times> db) \<Rightarrow> bool" where
  "rows_kept f \<longleftrightarrow> (\<forall>d x d'. f d = Inr (x, d') \<longrightarrow> instances d' = instances d)"

lemma row_congs: "instances d' = instances d \<Longrightarrow> holds_row sc d' = holds_row sc d"
  "instances d' = instances d \<Longrightarrow> gave_back sc d' = gave_back sc d"
  by (simp_all add: holds_row_def gave_back_def)

text \<open>A call nobody gets in between of.\<close>

lemma call_alone:
  "w_env w = [] \<Longrightarrow> run_state (call f) w =
     (case f (w_db w) of Inl e \<Rightarrow> (Inl (ERepo e), w) | Inr (x, d') \<Rightarrow> (Inr x, w\<lparr>w_db := d'\<rparr>))"
  by (auto simp: call_run next_env_def alone_def Let_def split: sum.split)

lemma quietly_call [quiet_intro]: "rows_kept f \<Longrightarrow> quietly sc (call f)"
  unfolding quietly_def
proof
  fix w assume k: "rows_kept f"
  show "(pos sc w \<longrightarrow> pos sc (snd (run_state (call f) w))) \<and> (fin sc w \<longrightarrow> fin sc (snd (run_state (call f) w)))"
  proof (cases "w_env w = []")
    case True
    show ?thesis
    proof (cases "f (w_db w)")
      case (Inl e)
      with True show ?thesis by (simp add: call_alone)
    next
      case (Inr r)
      then obtain x d' where r: "f (w_db w) = Inr (x, d')" by (cases r) simp
      with k have i: "instances d' = instances (w_db w)" by (simp add: rows_kept_def)
      have "run_state (call f) w = (Inr x, w\<lparr>w_db := d'\<rparr>)" using True r by (simp add: call_alone)
      then show ?thesis by (simp add: pos_def fin_def row_congs [OF i])
    qed
  qed (simp add: pos_def fin_def)
qed

lemma rows_kept_ops [quiet_intro]:
  "rows_kept (reads g)" "rows_kept (\<lambda>d. Inr (h d, d))" "rows_kept (writes (AppendEvent e))"
  "rows_kept (writes (InsertNodeInstance n))" "rows_kept (always (UpdateNodeInstance n))"
  "rows_kept (writes (FailExecution now i))"
proof -
  show "rows_kept (reads g)" by (auto simp: rows_kept_def reads_def bindR_Inr_iff)
  show "rows_kept (\<lambda>d. Inr (h d, d))" by (simp add: rows_kept_def)
  show "rows_kept (writes (AppendEvent e))" by (auto simp: rows_kept_def writes_def bindR_Inr_iff AppendEvent_def)
  show "rows_kept (writes (InsertNodeInstance n))"
    by (auto simp: rows_kept_def writes_def bindR_Inr_iff InsertNodeInstance_def)
  show "rows_kept (always (UpdateNodeInstance n))" by (simp add: rows_kept_def always_def frames)
  show "rows_kept (writes (FailExecution now i))"
    by (auto simp: rows_kept_def writes_def bindR_Inr_iff FailExecution_def split: option.split_asm if_split_asm)
qed

lemma quietly_basic [quiet_intro]: "quietly sc (ret x)" "quietly sc tick" "quietly sc (log_call req)"
  by (auto simp: quietly_def tick_def log_call_def pos_def fin_def)

lemma quietly_bind [quiet_intro]: "quietly sc m \<Longrightarrow> (\<And>x. quietly sc (k x)) \<Longrightarrow> quietly sc (m \<bind> k)"
  by (auto simp: quietly_def split: prod.split)

lemma quietly_cases [quiet_intro]:
  "(\<And>e. r = Inl e \<Longrightarrow> quietly sc (f e)) \<Longrightarrow> (\<And>x. r = Inr x \<Longrightarrow> quietly sc (g x)) \<Longrightarrow> quietly sc (case_sum f g r)"
  "(p = None \<Longrightarrow> quietly sc n) \<Longrightarrow> (\<And>x. p = Some x \<Longrightarrow> quietly sc (h x)) \<Longrightarrow> quietly sc (case_option n h p)"
  "(\<And>a b. q = (a, b) \<Longrightarrow> quietly sc (k a b)) \<Longrightarrow> quietly sc (case_prod k q)"
  "(c \<Longrightarrow> quietly sc m) \<Longrightarrow> (\<not> c \<Longrightarrow> quietly sc m') \<Longrightarrow> quietly sc (if c then m else m')"
  "quietly sc (j z) \<Longrightarrow> quietly sc (Let z j)"
  by ((cases r; simp), (cases p; simp), (cases q; simp), simp_all)

lemma quietly_small [quiet_intro]:
  "quietly sc (now_of en)" "quietly sc (newID en)" "quietly sc (appendEvent en sc' t data)"
  "quietly sc (save_attempt n)" "quietly sc (insert_attempt n)" "quietly sc (getAttemptByNode sc' node)"
  "quietly sc (scopeStopped sc')" "quietly sc (load_scope en sc')" "quietly sc (lean_history en sc' co endCtx)"
  "quietly sc (active_branches en sc')" "quietly sc (joinableExecution sc' node)"
  unfolding now_of_def newID_def appendEvent_def save_attempt_def insert_attempt_def getAttemptByNode_def
    scopeStopped_def load_scope_def lean_history_def active_branches_def joinableExecution_def
  by (intro quiet_intro)+

lemma quietly_more [quiet_intro]:
  "quietly sc (exit_events en sc' gids)" "quietly sc (visit_attempt en sc' nc now prior found)"
  "quietly sc (runJoinScript en sc' bs nc ctx counters)"
proof -
  show "quietly sc (exit_events en sc' gids)" by (induction gids) (auto intro: quiet_intro)
  show "quietly sc (visit_attempt en sc' nc now prior found)" unfolding visit_attempt_def by (intro quiet_intro)
  show "quietly sc (runJoinScript en sc' bs nc ctx counters)"
    unfolding runJoinScript_def join_script_def by (intro quiet_intro)
qed

section \<open>Steps that settle the row\<close>

definition settles :: "execScope \<Rightarrow> act \<Rightarrow> bool" where
  "settles sc m \<longleftrightarrow> (\<forall>w. pos sc w \<longrightarrow> fst (run_state m w) = Inr () \<longrightarrow> fin sc (snd (run_state m w)))"

lemma settles_error [settle_intro]: "settles sc (ret (Inl e))"
  by (simp add: settles_def)

lemma settles_bind: "quietly sc m \<Longrightarrow> (\<And>x. settles sc (k x)) \<Longrightarrow> settles sc (m \<bind> k)"
  by (auto simp: quietly_def settles_def split: prod.split)

lemma settles_then:
  "settles sc m \<Longrightarrow> (\<And>w. fin sc w \<Longrightarrow> fin sc (snd (run_state (k (Inr ())) w))) \<Longrightarrow> (\<And>e. k (Inl e) = ret (Inl e)) \<Longrightarrow>
   settles sc (m \<bind> k)"
  unfolding settles_def
proof (intro allI impI)
  fix w
  assume a: "\<forall>w. pos sc w \<longrightarrow> fst (run_state m w) = Inr () \<longrightarrow> fin sc (snd (run_state m w))"
    "\<And>w. fin sc w \<Longrightarrow> fin sc (snd (run_state (k (Inr ())) w))" "\<And>e. k (Inl e) = ret (Inl e)" "pos sc w"
    "fst (run_state (m \<bind> k) w) = Inr ()"
  obtain r w1 where run: "run_state m w = (r, w1)" by fastforce
  show "fin sc (snd (run_state (m \<bind> k) w))"
  proof (cases r)
    case (Inl e)
    with a(3, 5) run show ?thesis by simp
  next
    case (Inr u)
    with a(1, 4) run have "fin sc w1" by (metis fst_conv snd_conv old.unit.exhaust)
    with a(2) Inr run show ?thesis by simp
  qed
qed

lemma settles_cases [settle_intro]:
  "(\<And>e. r = Inl e \<Longrightarrow> settles sc (f e)) \<Longrightarrow> (\<And>x. r = Inr x \<Longrightarrow> settles sc (g x)) \<Longrightarrow> settles sc (case_sum f g r)"
  "(p = None \<Longrightarrow> settles sc n) \<Longrightarrow> (\<And>x. p = Some x \<Longrightarrow> settles sc (h x)) \<Longrightarrow> settles sc (case_option n h p)"
  "(\<And>a b. q = (a, b) \<Longrightarrow> settles sc (k a b)) \<Longrightarrow> settles sc (case_prod k q)"
  "(c \<Longrightarrow> settles sc m) \<Longrightarrow> (\<not> c \<Longrightarrow> settles sc m') \<Longrightarrow> settles sc (if c then m else m')"
  "settles sc (j z) \<Longrightarrow> settles sc (Let z j)"
  "(st = ParallelWaitingForBranches \<Longrightarrow> settles sc s1) \<Longrightarrow> (st = ParallelReadyToJoin \<Longrightarrow> settles sc s2) \<Longrightarrow>
   settles sc s3 \<Longrightarrow> settles sc s4 \<Longrightarrow> settles sc s5 \<Longrightarrow> settles sc (case_ParallelExecutionStatus s1 s2 s3 s4 s5 st)"
  by ((cases r; simp), (cases p; simp), (cases q; simp), simp_all) (cases st; simp)

text \<open>A commit: when it is through the row is given back, when it fails the fence held.\<close>

lemma settles_commit_instance:
  assumes "cp_instance c = sc_instance sc" "cp_revision c = sc_revision sc" "cp_worker c = sc_leased_by sc"
    "cp_status c \<noteq> WorkflowRunning"
  shows "settles sc (commit_instance en sc co c)"
  unfolding settles_def
proof (intro allI impI)
  fix w assume p: "pos sc w" and ok: "fst (run_state (commit_instance en sc co c) w) = Inr ()"
  let ?w = "w\<lparr>w_tick := Suc (w_tick w)\<rparr>"
  let ?r = "CheckpointOp (en_rt en) (en_dbclock en (w_tick w)) (en_clock en (w_tick w)) c (w_db w)"
  have c: "case ?r of Inl e \<Rightarrow> \<not> fence_err e | Inr d' \<Rightarrow> gave_back sc d'"
    using checkpoint_alone [OF _ assms] p by (simp add: pos_def)
  have env: "w_env w = []" using p by (simp add: pos_def)
  have iss: "run_state (issue_checkpoint en c) w =
      (case ?r of Inl e \<Rightarrow> (Inl (ERepo e), ?w) | Inr d' \<Rightarrow> (Inr (), ?w\<lparr>w_db := d'\<rparr>))"
    using env by (auto simp: issue_checkpoint_def run_tick call_alone writes_def bindR_def split: sum.split)
  show "fin sc (snd (run_state (commit_instance en sc co c) w))"
  proof (cases ?r)
    case (Inl e)
    with iss c ok show ?thesis
      by (simp add: commit_instance_def maxCheckpointAttempts_def lost_def conflict_def fence_err_def numeral_2_eq_2
          settle_checkpoint_def)
  next
    case (Inr d')
    with c env have "fin sc (?w\<lparr>w_db := d'\<rparr>)" by (simp add: fin_def)
    moreover have "quietly sc (settle_checkpoint en st reason co sc (Inr ()))" for st reason
      unfolding settle_checkpoint_def conflict_def by (auto intro!: quiet_intro)
    ultimately show ?thesis
      using iss Inr by (simp add: commit_instance_def maxCheckpointAttempts_def lost_def conflict_def quietly_def
          numeral_2_eq_2)
  qed
qed

lemma settles_checkpointAt [settle_intro]:
  assumes "\<not> isBranch sc" "status \<noteq> WorkflowRunning"
  shows "settles sc (checkpointAt en sc frame counters ctx status reason errMsg finished co runAt)"
  using assms unfolding checkpointAt_def
  by (auto intro!: settle_intro settles_bind settles_commit_instance quiet_intro simp: checkpoint_of_def)

lemma settles_checkpoint [settle_intro]:
  "\<not> isBranch sc \<Longrightarrow> status \<noteq> WorkflowRunning \<Longrightarrow>
   settles sc (checkpoint en sc frame counters ctx status reason errMsg finished co)"
  unfolding checkpoint_def by (intro settle_intro)

lemma not_running [simp]: "nextStatus sc \<noteq> WorkflowRunning"
  by (simp add: nextStatus_def)

lemma settles_parks [settle_intro]:
  "\<not> isBranch sc \<Longrightarrow> settles sc (inputCheckpoint en sc frame counters ctx co)"
  "\<not> isBranch sc \<Longrightarrow> settles sc (delayCheckpoint en sc frame counters ctx node deadline)"
  "\<not> isBranch sc \<Longrightarrow> settles sc (failWithContext en sc cause ctx co)"
proof -
  assume b: "\<not> isBranch sc"
  show "settles sc (inputCheckpoint en sc frame counters ctx co)"
    unfolding inputCheckpoint_def by (intro settle_intro b) simp
  show "settles sc (delayCheckpoint en sc frame counters ctx node deadline)"
    unfolding delayCheckpoint_def by (intro settle_intro b) simp
  show "settles sc (failWithContext en sc cause ctx co)"
    unfolding failWithContext_def by (intro settles_bind settle_intro quiet_intro b) simp
qed

lemma settles_fail_scope [settle_intro]: "\<not> isBranch sc \<Longrightarrow> settles sc (fail_scope en sc cause)"
  unfolding fail_scope_def by (intro settle_intro)

section \<open>Transitions settle\<close>

text \<open>After the parking commit an input attempt is only cleaned up.\<close>

definition stays_fin :: "execScope \<Rightarrow> 'a step \<Rightarrow> bool" where
  "stays_fin sc m \<longleftrightarrow> (\<forall>w. fin sc w \<longrightarrow> fin sc (snd (run_state m w)))"

lemma stays_fin_rules:
  "quietly sc q \<Longrightarrow> stays_fin sc q"
  "stays_fin sc m \<Longrightarrow> (\<And>x. stays_fin sc (k x)) \<Longrightarrow> stays_fin sc (m \<bind> k)"
  "(\<And>e. r = Inl e \<Longrightarrow> stays_fin sc (f e)) \<Longrightarrow> (\<And>x. r = Inr x \<Longrightarrow> stays_fin sc (g x)) \<Longrightarrow> stays_fin sc (case_sum f g r)"
  "stays_fin sc n \<Longrightarrow> stays_fin sc n' \<Longrightarrow> stays_fin sc (if c then n else n')"
  by (auto simp: quietly_def stays_fin_def split: prod.split sum.split)

lemma gave_back_resolve:
  assumes "gave_back sc d"
  shows "gave_back sc (ResolveTermination now i d)"
proof -
  obtain m where m: "find_instance (sc_instance sc) d = Some m" "wm_status m \<noteq> WorkflowRunning" "wm_leased_by m = []"
    using assms by (auto simp: gave_back_def)
  then have "find_instance (sc_instance sc) (ResolveTermination now i d) =
      Some (if wm_id m = i \<and> wm_termination_pending m then clear_termination now m else m)"
    by (simp add: ResolveTermination_def by_key_update_where clear_termination_def)
  with m show ?thesis by (auto simp: gave_back_def clear_termination_def)
qed

lemma fin_fenceParkedAttempt: "stays_fin sc (fenceParkedAttempt en sc a)"
proof -
  have resolve: "stays_fin sc (call (always (ResolveTermination now i)))" for now i
    by (simp add: stays_fin_def fin_def call_alone always_def gave_back_resolve)
  note q = stays_fin_rules(1)
  show ?thesis
    unfolding fenceParkedAttempt_def
    by (intro stays_fin_rules(2-4) resolve; (rule q, intro quiet_intro))
qed

lemma settles_nodes [settle_intro]:
  assumes b: "\<not> isBranch sc"
  shows "settles sc (enterGroup en sc g frame counters nc)" "settles sc (waitInput en sc frame counters nc)"
    "settles sc (failNode en sc a startCtx ctx cause)"
    "settles sc (leave_node en sc g frame counters a nxt startCtx outCtx now mk)"
    "settles sc (routeFailure en sc g frame counters nc route a startCtx ctx cause res)"
    "settles sc (complete_step en sc g frame counters nc a startCtx ctx rs)"
proof -
  show "settles sc (enterGroup en sc g frame counters nc)"
    unfolding enterGroup_def by (auto intro!: settle_intro settles_bind quiet_intro b)
  have fence: "settles sc (do {
      r \<leftarrow> inputCheckpoint en sc frame counters ctx co;
      case r of Inl e \<Rightarrow> ret (Inl e) | Inr _ \<Rightarrow> fenceParkedAttempt en sc a })" for ctx co a
    by (rule settles_then [OF settles_parks(1) [OF b]]) (use fin_fenceParkedAttempt in \<open>simp_all add: stays_fin_def\<close>)
  show "settles sc (waitInput en sc frame counters nc)"
    unfolding waitInput_def by (auto intro!: fence settle_intro settles_bind quiet_intro b)
  show n: "settles sc (failNode en sc a startCtx ctx cause)" for a startCtx ctx cause
    unfolding failNode_def by (auto intro!: settle_intro settles_bind quiet_intro b)
  show l: "settles sc (leave_node en sc g frame counters a nxt startCtx outCtx now mk)" for nxt startCtx outCtx now mk
    unfolding leave_node_def by (auto intro!: settle_intro settles_bind quiet_intro b)
  show "settles sc (routeFailure en sc g frame counters nc route a startCtx ctx cause res)"
    unfolding routeFailure_def by (auto intro!: settle_intro settles_bind quiet_intro n l)
  show "settles sc (complete_step en sc g frame counters nc a startCtx ctx rs)"
    unfolding complete_step_def by (auto intro!: settle_intro settles_bind quiet_intro n l)
qed

text \<open>An execution that is not cancelled, and the recovery of an attempt.\<close>

lemma settles_runs [settle_intro]:
  assumes b: "\<not> isBranch sc" and live: "\<And>t. \<not> en_cancelled en t"
  shows "settles sc (executeStep en sc g frame counters nc a startCtx ctx)"
    "settles sc (start_step en sc g frame counters nc a ctx)"
    "settles sc (runNode en sc g frame counters nc)" "settles sc (recover en sc g frame counters a)"
proof -
  show e: "settles sc (executeStep en sc g frame counters nc a startCtx ctx)" for counters nc a startCtx ctx
    unfolding executeStep_def by (auto intro!: settle_intro settles_bind quiet_intro b simp: live)
  show st: "settles sc (start_step en sc g frame counters nc a ctx)" for counters nc a ctx
    unfolding start_step_def by (auto intro!: settle_intro b e)
  have v: "settles sc (run_visit en sc g frame counters nc now ctx found)" for counters now ctx found
    unfolding run_visit_def by (auto intro!: settle_intro settles_bind quiet_intro b st)
  show "settles sc (runNode en sc g frame counters nc)"
    unfolding runNode_def by (auto intro!: settle_intro settles_bind quiet_intro b v)
  show "settles sc (recover en sc g frame counters a)"
    unfolding recover_def recover_input_def recover_fail_def recover_retry_def
    by (auto intro!: settle_intro settles_bind quiet_intro b st)
qed

section \<open>Fork and join settle\<close>

lemma settles_forkParallel [settle_intro]:
  assumes b: "\<not> isBranch sc"
  shows "settles sc (forkParallel en sc frame counters nc)"
proof -
  have p: "uuidPtr (sc_branch sc) = None" using b by (simp add: isBranch_def uuidPtr_def)
  have "settles sc (commit_fork en sc (fork_request en sc frame counters' nc))" for counters'
    unfolding settles_def
  proof (intro allI impI)
    fix w assume a: "pos sc w" "fst (run_state (commit_fork en sc (fork_request en sc frame counters' nc)) w) = Inr ()"
    let ?f = "fork_request en sc frame counters' nc" let ?w = "w\<lparr>w_tick := Suc (w_tick w)\<rparr>"
    let ?r = "Fork (en_rt en) (en_dbclock en (w_tick w)) (en_clock en (w_tick w)) ?f (w_db w)"
    have c: "case ?r of Inl e \<Rightarrow> \<not> fence_err e | Inr (x, d') \<Rightarrow> gave_back sc d'"
      using fork_alone [of sc "w_db w" ?f] a(1) p by (simp add: pos_def fork_request_def)
    have env: "w_env w = []" using a(1) by (simp add: pos_def)
    show "fin sc (snd (run_state (commit_fork en sc ?f) w))"
    proof (cases ?r)
      case (Inl e)
      with c a(2) env show ?thesis by (simp add: commit_fork_def run_tick call_alone fence_err_def)
    next
      case (Inr r)
      then obtain ex bs d' where r: "?r = Inr ((ex, bs), d')" by (cases r) auto
      with c env have f: "fin sc (?w\<lparr>w_db := d'\<rparr>)" by (simp add: fin_def)
      have q: "quietly sc (appendEvent en sc t data)" for t data by (intro quiet_intro)
      with f r env show ?thesis
        by (simp add: commit_fork_def run_tick call_alone quietly_def case_prod_beta)
    qed
  qed
  then show ?thesis
    unfolding forkParallel_def by (auto intro!: settle_intro settles_bind quiet_intro b simp: Let_def)
qed

lemma settles_failJoin [settle_intro]: "\<not> isBranch sc \<Longrightarrow> settles sc (failJoin en sc i cause)"
  unfolding failJoin_def by (auto intro!: settle_intro settles_bind quiet_intro)

lemma settles_commit_join [settle_intro]:
  assumes b: "\<not> isBranch sc"
  shows "settles sc (commit_join en sc nc ctx p)"
proof -
  have commit: "settles sc (do { t \<leftarrow> tick;
      r \<leftarrow> call (writes (JoinParallel (en_rt en) (en_dbclock en t) (en_clock en t) (join_checkpoint sc now p ctxRaw hist)));
      settle_join en sc nc p r })" for now ctxRaw hist
    unfolding settles_def
  proof (intro allI impI)
    fix w :: world
    let ?j = "join_checkpoint sc now p ctxRaw hist" let ?w = "w\<lparr>w_tick := Suc (w_tick w)\<rparr>"
    let ?m = "do { t \<leftarrow> tick;
      r \<leftarrow> call (writes (JoinParallel (en_rt en) (en_dbclock en t) (en_clock en t) ?j)); settle_join en sc nc p r }"
    let ?r = "JoinParallel (en_rt en) (en_dbclock en (w_tick w)) (en_clock en (w_tick w)) ?j (w_db w)"
    assume a: "pos sc w" "fst (run_state ?m w) = Inr ()"
    have c: "case ?r of Inl e \<Rightarrow> \<not> fence_err e | Inr d' \<Rightarrow> gave_back sc d'"
      by (rule join_alone) (use a(1) in \<open>simp_all add: pos_def join_checkpoint_def checkpoint_of_def\<close>)
    have env: "w_env w = []" using a(1) by (simp add: pos_def)
    have conf: "settles sc (joinConflict en sc i)" for i
      unfolding joinConflict_def by (auto intro!: settle_intro settles_bind quiet_intro b)
    show "fin sc (snd (run_state ?m w))"
    proof (cases ?r)
      case (Inl e)
      have "pos sc ?w" using a(1) by (simp add: pos_def)
      with conf a(2) Inl c env show ?thesis
        by (auto simp: run_tick call_alone writes_def fence_err_def settle_join_def settles_def split: if_split_asm)
    next
      case (Inr d')
      with c env have f: "fin sc (?w\<lparr>w_db := d'\<rparr>)" by (simp add: fin_def)
      have q: "quietly sc (appendEvent en sc t data)" for t data by (intro quiet_intro)
      with f Inr env show ?thesis
        by (simp add: run_tick call_alone writes_def settle_join_def quietly_def case_prod_beta)
    qed
  qed
  show ?thesis
    unfolding commit_join_def by (intro commit settle_intro settles_bind quiet_intro b)
qed

lemma settles_joinParallel [settle_intro]:
  assumes b: "\<not> isBranch sc" and live: "\<And>t. \<not> en_cancelled en t"
  shows "settles sc (joinParallel en sc g frame counters nc)"
proof -
  have adv: "settles sc (join_advance en sc g frame counters nc ex merged (commit_join en sc nc ctx))" for counters ex merged ctx
    unfolding join_advance_def by (auto intro!: settle_intro settles_bind quiet_intro b)
  have script: "settles sc (runJoinScript en sc bs nc ctx counters \<bind> (\<lambda>(out, counters'). case out of
      JoinFailed e \<Rightarrow> failJoin en sc (xm_id ex) e
    | JoinInterrupted \<Rightarrow> ret (Inr ())
    | JoinMerged merged \<Rightarrow> join_advance en sc g frame counters' nc ex merged (commit_join en sc nc ctx)))" for bs ctx ex
    unfolding settles_def
  proof (intro allI impI)
    fix w
    let ?k = "\<lambda>(out, counters'). case out of
      JoinFailed e \<Rightarrow> failJoin en sc (xm_id ex) e
    | JoinInterrupted \<Rightarrow> ret (Inr ())
    | JoinMerged merged \<Rightarrow> join_advance en sc g frame counters' nc ex merged (commit_join en sc nc ctx)"
    assume a: "pos sc w" "fst (run_state (runJoinScript en sc bs nc ctx counters \<bind> ?k) w) = Inr ()"
    obtain out c' w1 where run: "run_state (runJoinScript en sc bs nc ctx counters) w = ((out, c'), w1)"
      by (metis prod.exhaust)
    have p1: "pos sc w1" using quietly_more(3) [of sc en sc bs nc ctx counters] a(1) run by (metis quietly_def snd_conv)
    have "out \<noteq> JoinInterrupted"
      using run live by (auto simp: runJoinScript_def join_script_def run_tick split: sum.split_asm if_split_asm prod.split_asm)
    with run a(2) p1 adv settles_failJoin [OF b] show "fin sc (snd (run_state (runJoinScript en sc bs nc ctx counters \<bind> ?k) w))"
      by (cases out) (simp_all add: settles_def)
  qed
  show ?thesis
    unfolding joinParallel_def join_execution_def join_merge_def
    by (auto intro!: settle_intro settles_bind quiet_intro b script)
qed

section \<open>The whole transition\<close>

lemma settles_at_node_type [settle_intro]:
  "\<not> isBranch sc \<Longrightarrow> (\<And>t. \<not> en_cancelled en t) \<Longrightarrow> settles sc (at_node_type en sc g frame counters nc)"
  unfolding at_node_type_def by (cases "node_type nc") (auto intro: settle_intro)

text \<open>A delay parks the row, or its deadline has passed and the node runs.\<close>

lemma settles_delay:
  assumes b: "\<not> isBranch sc" and past: "\<And>r t. runAt = Some r \<Longrightarrow> r \<le> en_clock en t"
    and k: "settles sc k"
  shows "settles sc (do { parked \<leftarrow> maybeParkDelay en sc frame counters nc runAt;
    case parked of Inl e \<Rightarrow> ret (Inl e) | Inr p \<Rightarrow> if p then ret (Inr ()) else k })"
proof (cases runAt)
  case (Some r)
  have le: "\<not> en_clock en t < r" for t using past [OF Some, of t] by simp
  then have "maybeParkDelay en sc frame counters nc runAt = do { now \<leftarrow> now_of en; ret (Inr (r > now)) }"
    by (simp add: maybeParkDelay_def Some)
  moreover have "settles sc (do { now \<leftarrow> now_of en; if r > now then ret (Inr ()) else k })"
    unfolding settles_def
    using k le by (auto simp: now_of_def run_tick settles_def pos_def)
  ultimately show ?thesis by simp
next
  case None
  have park: "settles sc (do { x \<leftarrow> do { r \<leftarrow> m; ret (bindR r (\<lambda>_. Inr True)) };
      case x of Inl e \<Rightarrow> ret (Inl e) | Inr p \<Rightarrow> if p then ret (Inr ()) else k })" if m: "settles sc m" for m :: act
  proof -
    have "do { x \<leftarrow> do { r \<leftarrow> m; ret (bindR r (\<lambda>_. Inr True)) };
        case x of Inl e \<Rightarrow> ret (Inl e) | Inr p \<Rightarrow> if p then ret (Inr ()) else k } = m"
      by (rule state_ext) (auto simp: bindR_def split: prod.split sum.split)
    with m show ?thesis by simp
  qed
  have dist: "(m \<bind> (\<lambda>now. case c of Inl e \<Rightarrow> f e | Inr x \<Rightarrow> g now x)) =
      (case c of Inl e \<Rightarrow> m \<bind> (\<lambda>_. f e) | Inr x \<Rightarrow> m \<bind> (\<lambda>now. g now x))" for m :: "time step" and c f and g :: "time \<Rightarrow> gomap \<Rightarrow> (go_err + bool) step"
    by (cases c) simp_all
  show ?thesis
  proof (cases "contextMap (sc_context sc)")
    case (Inl e)
    have "settles sc (now_of en \<bind> (\<lambda>_. (do { r \<leftarrow> fail_scope en sc e; ret (bindR r (\<lambda>_. Inr True)) }) \<bind>
        (\<lambda>x. case x of Inl e \<Rightarrow> ret (Inl e) | Inr p \<Rightarrow> if p then ret (Inr ()) else k)))"
      by (intro settles_bind quiet_intro park settle_intro b)
    then show ?thesis by (simp add: maybeParkDelay_def None Inl)
  next
    case (Inr ctx)
    have "settles sc (now_of en \<bind> (\<lambda>now. appendEvent en sc ''node_delayed'' (obj
          [(''node_id'', JStr (node_id nc)), (''run_at'', JStr (rt_time (en_rt en) (now + ArrivalWait nc)))]) \<bind>
        (\<lambda>_. (do { r \<leftarrow> delayCheckpoint en sc frame counters ctx (node_id nc) (now + ArrivalWait nc);
                 ret (bindR r (\<lambda>_. Inr True)) }) \<bind>
        (\<lambda>x. case x of Inl e \<Rightarrow> ret (Inl e) | Inr p \<Rightarrow> if p then ret (Inr ()) else k))))"
      by (intro settles_bind quiet_intro park settle_intro b)
    then show ?thesis by (simp add: maybeParkDelay_def None Inr)
  qed
qed

lemma settles_process_scope:
  assumes b: "\<not> isBranch sc" and live: "\<And>t. \<not> en_cancelled en t" and past: "\<And>r t. runAt = Some r \<Longrightarrow> r \<le> en_clock en t"
  shows "settles sc (process_scope en sc runAt)"
proof -
  have cur: "settles sc (at_cursor en sc g frame counters runAt)" for g frame counters
    unfolding at_cursor_def by (intro settle_intro settles_delay b live past) simp_all
  show ?thesis
    unfolding process_scope_def resume_scope_def
    by (auto intro!: settle_intro settles_bind quiet_intro b live cur)
qed

text \<open>
  C5. A transition nobody interferes with gives the lease back: if an instance is running
  under its lease and its deadline, if any, has passed, then \<open>Process\<close>, undisturbed and
  not cancelled, either returns an error or leaves the instance parked or finished with no
  holder. No path through the engine returns successfully and keeps the instance claimed.
\<close>

theorem transition_gives_back:
  assumes "w_env w = []" "distinct (map wm_id (instances (w_db w)))" "find_instance i (w_db w) = Some m"
    "wm_status m = WorkflowRunning" "\<And>t. \<not> en_cancelled en t" "\<And>r t. wm_run_at m = Some r \<Longrightarrow> r \<le> en_clock en t"
    and "fst (run_state (Process en i) w) = Inr ()"
  shows "\<exists>m'. find_instance i (w_db (snd (run_state (Process en i) w))) = Some m' \<and>
    wm_status m' \<noteq> WorkflowRunning \<and> wm_leased_by m' = []"
proof -
  let ?sc = "instanceScope m"
  have id: "wm_id m = i" using assms(3) by (auto dest: by_key_SomeD)
  have run: "run_state (Process en i) w = run_state (process_scope en ?sc (wm_run_at m)) w"
    using assms(1, 3, 4) by (simp add: Process_def call_alone reads_def GetByID_def)
  have "settles ?sc (process_scope en ?sc (wm_run_at m))"
    by (rule settles_process_scope) (use assms(5, 6) in \<open>simp_all add: isBranch_def instanceScope_def\<close>)
  moreover have "pos ?sc w"
    using assms(1-4) id by (simp add: pos_def holds_row_def instanceScope_def)
  ultimately have "fin ?sc (snd (run_state (Process en i) w))"
    using assms(7) run by (simp add: settles_def)
  then show ?thesis by (simp add: fin_def gave_back_def instanceScope_def id)
qed

definition undisturbed :: "uid \<Rightarrow> (go_err + unit) \<times> world" where
  "undisturbed node = run_state (Process sample_engine ''wf'') (world_of (db_at node) [])"

lemma transition_gives_back_witness:
  "\<exists>m'. find_instance ''wf'' (w_db (snd (undisturbed ''ask''))) = Some m' \<and>
     wm_status m' \<noteq> WorkflowRunning \<and> wm_leased_by m' = []"
proof -
  have ok: "fst (undisturbed ''ask'') = Inr ()" by code_simp
  have ids: "distinct (map wm_id (instances (db_at ''ask'')))" by code_simp
  have row: "map (\<lambda>m. (wm_id m, wm_status m, wm_run_at m)) (instances (db_at ''ask'')) = [(''wf'', WorkflowRunning, None)]"
    by code_simp
  then obtain m where m: "instances (db_at ''ask'') = [m]" "wm_id m = ''wf''" "wm_status m = WorkflowRunning" "wm_run_at m = None"
    by auto
  then have "find_instance ''wf'' (db_at ''ask'') = Some m" by (simp add: tab_simps)
  then show ?thesis
    unfolding undisturbed_def
    using transition_gives_back [of "world_of (db_at ''ask'') []" "''wf''" m sample_engine] m ids ok
    by (simp add: world_of_def sample_engine_def undisturbed_def)
qed

end
