(* ===== verification/EngineCalls.thy ===== *)
theory EngineCalls
  imports EngineSafety
begin

text \<open>
  Executor calls of a transition: at most one, under a key that names the attempt, and
  none for an interrupted attempt that must not run again.
\<close>

section \<open>Logs\<close>

text \<open>\<open>m\<close> appends to the log at most one request, one that satisfies \<open>P\<close>.\<close>

definition logs :: "(Request \<Rightarrow> bool) \<Rightarrow> 'a step \<Rightarrow> bool" where
  "logs P m \<longleftrightarrow> (\<forall>w. \<exists>reqs. w_calls (snd (run_state m w)) = w_calls w @ reqs \<and> length reqs \<le> 1 \<and> list_all P reqs)"

definition silent :: "'a step \<Rightarrow> bool" where
  "silent m \<longleftrightarrow> (\<forall>w. w_calls (snd (run_state m w)) = w_calls w)"

named_theorems silent_intro \<open>steps that call no executor\<close>
named_theorems logs_intro \<open>steps that call at most one executor\<close>

lemma silent_logs: "silent m \<Longrightarrow> logs P m"
  by (auto simp: silent_def logs_def)

lemma silent_logs_none: "logs (\<lambda>_. False) m \<Longrightarrow> silent m"
  unfolding silent_def logs_def
proof
  fix w assume "\<forall>w. \<exists>reqs. w_calls (snd (run_state m w)) = w_calls w @ reqs \<and> length reqs \<le> 1 \<and>
    list_all (\<lambda>_. False) reqs"
  then obtain reqs where "w_calls (snd (run_state m w)) = w_calls w @ reqs" "list_all (\<lambda>_. False) reqs" by blast
  then show "w_calls (snd (run_state m w)) = w_calls w" by (cases reqs) simp_all
qed

lemma silent_basic [silent_intro]:
  "silent (ret x)" "silent tick" "silent (call f)"
  by (auto simp: silent_def tick_def call_run Let_def split: option.split sum.split prod.split)

lemma silent_bind [silent_intro]: "silent m \<Longrightarrow> (\<And>x. silent (k x)) \<Longrightarrow> silent (m \<bind> k)"
  by (auto simp: silent_def split: prod.split) (metis snd_conv)

lemma silent_cases [silent_intro]:
  "(\<And>e. r = Inl e \<Longrightarrow> silent (f e)) \<Longrightarrow> (\<And>x. r = Inr x \<Longrightarrow> silent (g x)) \<Longrightarrow> silent (case_sum f g r)"
  "(p = None \<Longrightarrow> silent n) \<Longrightarrow> (\<And>x. p = Some x \<Longrightarrow> silent (h x)) \<Longrightarrow> silent (case_option n h p)"
  "(\<And>a b. q = (a, b) \<Longrightarrow> silent (k a b)) \<Longrightarrow> silent (case_prod k q)"
  "(c \<Longrightarrow> silent m) \<Longrightarrow> (\<not> c \<Longrightarrow> silent m') \<Longrightarrow> silent (if c then m else m')"
  "silent (j z) \<Longrightarrow> silent (Let z j)"
  by ((cases r; simp), (cases p; simp), (cases q; simp), simp_all)

lemma logs_cases [logs_intro]:
  "(\<And>e. r = Inl e \<Longrightarrow> logs P (f e)) \<Longrightarrow> (\<And>x. r = Inr x \<Longrightarrow> logs P (g x)) \<Longrightarrow> logs P (case_sum f g r)"
  "(p = None \<Longrightarrow> logs P n) \<Longrightarrow> (\<And>x. p = Some x \<Longrightarrow> logs P (h x)) \<Longrightarrow> logs P (case_option n h p)"
  "(\<And>a b. q = (a, b) \<Longrightarrow> logs P (k a b)) \<Longrightarrow> logs P (case_prod k q)"
  "(c \<Longrightarrow> logs P m) \<Longrightarrow> (\<not> c \<Longrightarrow> logs P m') \<Longrightarrow> logs P (if c then m else m')"
  "logs P (j z) \<Longrightarrow> logs P (Let z j)"
  by ((cases r; simp), (cases p; simp), (cases q; simp), simp_all)

lemma logs_after: "silent m \<Longrightarrow> (\<And>x. logs P (k x)) \<Longrightarrow> logs P (m \<bind> k)"
  unfolding silent_def logs_def by (auto split: prod.split) (metis snd_conv)

lemma logs_before: "logs P m \<Longrightarrow> (\<And>x. silent (k x)) \<Longrightarrow> logs P (m \<bind> k)"
  unfolding silent_def logs_def by (auto split: prod.split) (metis snd_conv)

lemma logs_call: "P req \<Longrightarrow> logs P (log_call req)"
  by (simp add: logs_def log_call_def)

section \<open>Silent functions\<close>

lemma silent_small [silent_intro]:
  "silent (now_of en)" "silent (newID en)" "silent (appendEvent en sc typ' data)" "silent (appendBranchEvent en b typ')"
  "silent (save_attempt n)" "silent (insert_attempt n)" "silent (getAttemptByNode sc node)"
  "silent (scopeStopped sc)" "silent (load_scope en sc)" "silent (issue_checkpoint en c)"
  "silent (lean_history en sc co endCtx)"
  unfolding now_of_def newID_def appendEvent_def appendBranchEvent_def save_attempt_def insert_attempt_def
    getAttemptByNode_def scopeStopped_def load_scope_def issue_checkpoint_def lean_history_def
  by (intro silent_intro)+

lemma silent_exit_events [silent_intro]: "silent (exit_events en sc gids)"
  by (induction gids) (auto intro: silent_intro)

lemma silent_branch [silent_intro]:
  "silent (fail_branch_scope en sc msg)" "silent (complete_branch_scope en sc frame counters ctxRaw)"
  "silent (branchCheckpoint en sc frame counters ctx status reason errMsg runAt)"
proof -
  show f: "silent (fail_branch_scope en sc msg)" for msg
    unfolding fail_branch_scope_def by (intro silent_intro)
  show c: "silent (complete_branch_scope en sc frame counters ctxRaw)" for ctxRaw
    unfolding complete_branch_scope_def by (intro silent_intro)
  show "silent (branchCheckpoint en sc frame counters ctx status reason errMsg runAt)"
    unfolding branchCheckpoint_def by (intro silent_intro f c)
qed

lemma silent_retry [silent_intro]: "silent (checkpoint_retry en n sc c r)"
proof (induction n arbitrary: sc c r)
  case (Suc n)
  show ?case unfolding checkpoint_retry.simps by (intro silent_intro Suc.IH)
qed (simp add: silent_basic)

lemma silent_commits [silent_intro]:
  "silent (settle_checkpoint en st reason co sc r)" "silent (commit_instance en sc co c)"
  "silent (checkpointAt en sc frame counters ctx st reason errMsg finished co runAt)"
  "silent (checkpoint en sc frame counters ctx st reason errMsg finished co)"
  "silent (inputCheckpoint en sc frame counters ctx co)"
  "silent (delayCheckpoint en sc frame counters ctx node deadline)"
  "silent (failWithContext en sc cause ctx co)" "silent (fail_scope en sc cause)"
proof -
  show s: "silent (settle_checkpoint en st reason co sc r)" for st reason co sc r
    unfolding settle_checkpoint_def by (intro silent_intro)
  show c: "silent (commit_instance en sc co c)" for co c
    unfolding commit_instance_def by (intro silent_intro s)
  show a: "silent (checkpointAt en sc frame counters ctx st reason errMsg finished co runAt)"
    for frame counters ctx st reason errMsg finished co runAt
    unfolding checkpointAt_def by (intro silent_intro c)
  show k: "silent (checkpoint en sc frame counters ctx st reason errMsg finished co)"
    for frame counters ctx st reason errMsg finished co
    unfolding checkpoint_def by (rule a)
  show "silent (inputCheckpoint en sc frame counters ctx co)" unfolding inputCheckpoint_def by (rule k)
  show "silent (delayCheckpoint en sc frame counters ctx node deadline)" unfolding delayCheckpoint_def by (rule a)
  show f: "silent (failWithContext en sc cause ctx co)" for ctx co
    unfolding failWithContext_def by (intro silent_intro k)
  show "silent (fail_scope en sc cause)" unfolding fail_scope_def by (rule f)
qed

lemma silent_transitions [silent_intro]:
  "silent (enterGroup en sc g frame counters nc)" "silent (maybeParkDelay en sc frame counters nc runAt)"
  "silent (fenceParkedAttempt en sc a)" "silent (waitInput en sc frame counters nc)"
  "silent (failNode en sc a startCtx ctx cause)"
  "silent (leave_node en sc g frame counters a next startCtx outCtx now mk)"
  "silent (routeFailure en sc g frame counters nc route a startCtx ctx cause res)"
  "silent (interrupted en sc a)" "silent (complete_step en sc g frame counters nc a startCtx ctx rs)"
  "silent (visit_attempt en sc nc now prior found)"
proof -
  show "silent (enterGroup en sc g frame counters nc)" unfolding enterGroup_def by (intro silent_intro)
  show "silent (maybeParkDelay en sc frame counters nc runAt)" unfolding maybeParkDelay_def by (intro silent_intro)
  show f: "silent (fenceParkedAttempt en sc a)" for a unfolding fenceParkedAttempt_def by (intro silent_intro)
  show "silent (waitInput en sc frame counters nc)" unfolding waitInput_def by (intro silent_intro f)
  show n: "silent (failNode en sc a startCtx ctx cause)" for a startCtx ctx cause
    unfolding failNode_def by (intro silent_intro)
  show l: "silent (leave_node en sc g frame counters a nxt startCtx outCtx now mk)" for nxt startCtx outCtx now mk
    unfolding leave_node_def by (intro silent_intro)
  show "silent (routeFailure en sc g frame counters nc route a startCtx ctx cause res)"
    unfolding routeFailure_def by (intro silent_intro n l)
  show "silent (interrupted en sc a)" unfolding interrupted_def by (intro silent_intro)
  show "silent (complete_step en sc g frame counters nc a startCtx ctx rs)"
    unfolding complete_step_def by (intro silent_intro n l)
  show "silent (visit_attempt en sc nc now prior found)" unfolding visit_attempt_def by (intro silent_intro)
qed

lemma silent_join_cases [silent_intro]:
  "silent a \<Longrightarrow> silent b \<Longrightarrow> silent c \<Longrightarrow> silent e \<Longrightarrow> silent f \<Longrightarrow>
   silent (case_ParallelExecutionStatus a b c e f st)"
  "(\<And>x. silent (u x)) \<Longrightarrow> silent a \<Longrightarrow> (\<And>x. silent (v x)) \<Longrightarrow> silent (case_join_outcome u a v out)"
  by ((cases st; simp), (cases out; simp))

lemma silent_parallel [silent_intro]:
  "silent (forkParallel en sc frame counters nc)" "silent (joinParallel en sc g frame counters nc)"
  "silent (joinNestedParallel en sc g frame counters nc)"
proof -
  have j: "silent (failJoin en sc i cause)" for i cause unfolding failJoin_def by (intro silent_intro)
  have s: "silent (settle_join en sc nc p r)" for p r
    unfolding settle_join_def joinConflict_def by (intro silent_intro)
  have e: "silent (join_execution en sc g frame counters nc commit)" if "\<And>ctx p. silent (commit ctx p)" for commit
    unfolding join_execution_def join_merge_def join_advance_def runJoinScript_def join_script_def joinableExecution_def
    by (intro silent_intro j that)
  show "silent (forkParallel en sc frame counters nc)"
    unfolding forkParallel_def active_branches_def commit_fork_def by (intro silent_intro)
  show "silent (joinParallel en sc g frame counters nc)"
    unfolding joinParallel_def commit_join_def by (intro e) (intro silent_intro j s)
  show "silent (joinNestedParallel en sc g frame counters nc)"
    unfolding joinNestedParallel_def commit_branch_join_def by (intro e) (intro silent_intro j s)
qed

section \<open>The one call\<close>

lemma logs_executeStep:
  "(\<And>ctx vars. P (request_of sc nc a ctx vars)) \<Longrightarrow> logs P (executeStep en sc g frame counters nc a startCtx ctx)"
  unfolding executeStep_def
  by (intro logs_after logs_before logs_cases logs_call silent_intro)
     (auto intro!: silent_logs silent_intro logs_before logs_call)

text \<open>Every request of scope \<open>sc\<close> names its attempt in the key it is sent under.\<close>

definition keyed :: "execScope \<Rightarrow> Request \<Rightarrow> bool" where
  "keyed sc req \<longleftrightarrow> rq_instance req = sc_instance sc \<and> rq_key req = idempotencyKey sc (rq_node_instance req)"

lemma keyed_request [simp]: "keyed sc (request_of sc nc a ctx vars)"
  by (simp add: keyed_def request_of_def)

lemma logs_start_step:
  "(\<And>ctx vars. P (request_of sc nc a ctx vars)) \<Longrightarrow> logs P (start_step en sc g frame counters nc a ctx)"
  unfolding start_step_def by (intro logs_intro logs_executeStep) (auto intro!: silent_logs silent_intro)

lemma logs_runNode: "logs (keyed sc) (runNode en sc g frame counters nc)"
proof -
  have v: "logs (keyed sc) (run_visit en sc g frame counters nc now ctx found)" for counters now ctx found
    unfolding run_visit_def
    by (intro logs_intro logs_after logs_start_step) (auto intro!: silent_logs silent_intro)
  show ?thesis
    unfolding runNode_def by (intro logs_intro logs_after v) (auto intro!: silent_logs silent_intro)
qed

text \<open>The request of a recovered attempt names that attempt.\<close>

definition recovers :: "execScope \<Rightarrow> NodeInstanceModel \<Rightarrow> Request \<Rightarrow> bool" where
  "recovers sc a req \<longleftrightarrow> keyed sc req \<and> rq_node_instance req = nm_id a"

lemma logs_recover_retry: "logs (recovers sc a) (recover_retry en sc g frame counters nc now ctx a)"
  unfolding recover_retry_def
  by (intro logs_intro logs_after logs_start_step)
    (auto intro!: silent_logs silent_intro simp: recovers_def request_of_def retry_attempt_def keyed_def)

lemma silent_recover [silent_intro]:
  "silent (recover_input en sc g frame counters now ctx a)" "silent (recover_fail en sc g frame counters nc now ctx a)"
  unfolding recover_input_def recover_fail_def by (intro silent_intro)+

lemma logs_recover:
  "logs (\<lambda>req. recovers sc a req \<and> nm_type a \<noteq> ''input'' \<and>
     (\<exists>nc. Node g (nm_node a) = Inr nc \<and> retryable nc a)) (recover en sc g frame counters a)"
proof (cases "\<exists>nc. Node g (nm_node a) = Inr nc \<and> retryable nc a \<and> nm_type a \<noteq> ''input''")
  case True
  then show ?thesis
    unfolding recover_def
    by (intro logs_intro logs_after logs_recover_retry)
       (auto intro!: silent_logs silent_intro logs_recover_retry)
next
  case False
  then have "silent (recover en sc g frame counters a)"
    unfolding recover_def by (intro silent_intro) auto
  then show ?thesis by (rule silent_logs)
qed

lemma logs_mono: "logs P m \<Longrightarrow> (\<And>r. P r \<Longrightarrow> Q r) \<Longrightarrow> logs Q m"
  unfolding logs_def by (metis (mono_tags, lifting) list_all_iff)

lemma logs_resume_scope: "logs (keyed sc) (resume_scope en sc g frame counters runAt got)"
proof -
  have t: "logs (keyed sc) (at_node_type en sc g frame counters nc)" for nc
    unfolding at_node_type_def by (cases "node_type nc") (auto intro: logs_runNode silent_logs silent_intro)
  have c: "logs (keyed sc) (at_cursor en sc g frame counters runAt)"
    unfolding at_cursor_def by (intro logs_intro logs_after t) (auto intro!: silent_logs silent_intro)
  have r: "logs (keyed sc) (recover en sc g frame counters a)" for a
    by (rule logs_mono [OF logs_recover]) (simp add: recovers_def)
  show ?thesis
    unfolding resume_scope_def by (intro logs_intro r c) (auto intro!: silent_logs silent_intro)
qed

lemma call_result: "fst (run_state (call (reads f)) w) = Inr x \<Longrightarrow> \<exists>d. f d = Inr x"
  by (auto simp: call_run Let_def reads_def bindR_def split: option.split_asm sum.split_asm)

text \<open>After a read: what holds of its result may be used.\<close>

lemma logs_read:
  assumes "\<And>e. silent (k (Inl e))" "\<And>x d. f d = Inr x \<Longrightarrow> logs P (k (Inr x))"
  shows "logs P (call (reads f) \<bind> k)"
  unfolding logs_def
proof
  fix w
  obtain r w1 where run: "run_state (call (reads f)) w = (r, w1)" by fastforce
  have s: "w_calls w1 = w_calls w" using silent_basic(3) run by (metis silent_def snd_conv)
  have "logs P (k r)"
  proof (cases r)
    case (Inl e)
    with assms(1) show ?thesis by (simp add: silent_logs)
  next
    case (Inr x)
    with run call_result [of f w x] obtain d where "f d = Inr x" by auto
    with assms(2) Inr show ?thesis by simp
  qed
  then show "\<exists>reqs. w_calls (snd (run_state (call (reads f) \<bind> k) w)) = w_calls w @ reqs \<and> length reqs \<le> 1 \<and> list_all P reqs"
    unfolding logs_def using run by (simp add: s [symmetric])
qed

lemma logs_Process: "logs (\<lambda>req. rq_instance req = i \<and> rq_key req = i @ '':'' @ rq_node_instance req) (Process en i)"
  unfolding Process_def
proof (rule logs_read)
  fix d and m :: WorkflowInstanceModel
  assume "GetByID i d = Inr m"
  then have "wm_id m = i" by (auto simp: GetByID_def split: option.split_asm dest: by_key_SomeD)
  then have k: "keyed (instanceScope m) = (\<lambda>req. rq_instance req = i \<and> rq_key req = i @ '':'' @ rq_node_instance req)"
    by (auto simp: keyed_def instanceScope_def idempotencyKey_def isBranch_def)
  have "logs (keyed (instanceScope m)) (process_scope en (instanceScope m) (wm_run_at m))"
    unfolding process_scope_def
    by (intro logs_intro logs_after logs_resume_scope) (auto intro!: silent_logs silent_intro)
  then show "logs (\<lambda>req. rq_instance req = i \<and> rq_key req = i @ '':'' @ rq_node_instance req)
      (case (Inr m :: go_err + WorkflowInstanceModel) of
         Inl e \<Rightarrow> ret (Inl e)
       | Inr cur \<Rightarrow> if wm_status cur \<noteq> WorkflowRunning then ret (Inr ())
           else process_scope en (instanceScope cur) (wm_run_at cur))"
    by (simp add: k silent_logs silent_intro)
qed (simp add: silent_intro)

section \<open>Properties\<close>


text \<open>
  C3. Recovering the attempt \<open>a\<close> a dead worker left running calls no executor unless the
  attempt is a script or its node opted in with \<open>retry_on_recovery\<close>; and then the one call
  goes out under the key of \<open>a\<close> itself, so the receiver can tell it is the same step.
\<close>

theorem recovery_is_at_most_once:
  "\<exists>reqs. w_calls (snd (run_state (recover en sc g frame counters a) w)) = w_calls w @ reqs \<and> length reqs \<le> 1 \<and>
     list_all (\<lambda>req. rq_key req = idempotencyKey sc (nm_id a) \<and>
       (nm_type a = ''script'' \<or>
        (\<exists>nc. Node g (nm_node a) = Inr nc \<and> nRetryOnRecovery (nfields nc)))) reqs"
proof -
  have "logs (\<lambda>req. rq_key req = idempotencyKey sc (nm_id a) \<and>
      (nm_type a = ''script'' \<or> (\<exists>nc. Node g (nm_node a) = Inr nc \<and> nRetryOnRecovery (nfields nc))))
      (recover en sc g frame counters a)"
    by (rule logs_mono [OF logs_recover]) (auto simp: recovers_def keyed_def retryable_def)
  then show ?thesis by (simp add: logs_def)
qed

end
