(* ===== verification/EngineRuns.thy ===== *)
theory EngineRuns
  imports EngineAlone EngineCalls
begin

text \<open>
  Whole runs of the engine on the sample workflow: what the parts do together, and three
  behaviours that differ from what the code's comments promise.
\<close>

section \<open>Joining\<close>

text \<open>The sample run at its join, with the cursor the engine's fork leaves.\<close>

definition db_at_join :: db where
  "db_at_join = db_reclaimed\<lparr>instances :=
     map (\<lambda>m. m\<lparr>wm_frame := Some (FrameJSON (NewFrame ''join'')),
       wm_counters := Some (CountersJSON \<lparr>Total = 1, Nodes = [(''par'', 1)]\<rparr>)\<rparr>) (instances db_reclaimed)\<rparr>"

definition joined :: world where
  "joined = snd (run_state (Process sample_engine ''wf'') (world_of db_at_join []))"

text \<open>
  A join visit is not counted in the total: \<open>runJoinScript\<close> records it on a copy of the
  counters, so of the two visits (the fork and the join) the stored node counts hold both
  and the stored total holds one. The limit on total executions is not charged for joins.
\<close>

theorem join_skips_total:
  "map (\<lambda>m. ParseCounters (wm_counters m)) (instances (w_db joined)) =
     [Inr \<lparr>Total = 1, Nodes = [(''join'', 1), (''par'', 1)]\<rparr>] \<and>
   the_row (w_db joined) = (WorkflowWaiting, ReasonRunnable, [], 4)"
  by code_simp

text \<open>An earlier execution of the block that failed before a rollback, still in the table.\<close>

definition old_failure :: ParallelExecutionModel where
  "old_failure =
     \<lparr>xm_id = ''old'', xm_instance = ''wf'', xm_parent_branch = None, xm_depth = 1, xm_start_node = ''par'',
      xm_end_node = ''join'', xm_status = ParallelExecutionFailed, xm_branch_count = 2, xm_completed_count = 0,
      xm_created_at = 0, xm_updated_at = 0\<rparr>"

definition rejoined :: world where
  "rejoined = snd (run_state (Process sample_engine ''wf'')
     (world_of (db_at_join\<lparr>executions := old_failure # executions db_at_join\<rparr>) []))"

text \<open>
  \<open>joinableExecution\<close> takes the oldest execution at the join that is not completed, a
  failed one included: with an execution left failed by an earlier visit, the join of a
  ready execution fails the instance.
\<close>

theorem join_takes_old_failure:
  "map wm_status (instances (w_db rejoined)) = [WorkflowFailed] \<and>
   map wm_error (instances (w_db rejoined)) = [''parallel execution old failed''] \<and>
   map (\<lambda>x. (xm_id x, xm_status x)) (executions (w_db rejoined)) =
     [(''old'', ParallelExecutionFailed), (''u'', ParallelReadyToJoin)]"
  by code_simp

section \<open>Values that cannot be encoded\<close>

text \<open>
  In full context mode a step whose output cannot be encoded is not failed: without a
  pre hook the start context is the map the output was written into, so the fallback of
  \<open>failNode\<close> cannot be encoded either. \<open>Process\<close> returns an error, the attempt stays
  running and the instance stays claimed.
\<close>

theorem unencodable_output_keeps_claim:
  "fst (undisturbed ''probe'') = Inl (EWrap ''engine: value is not JSON-serializable'' EJson) \<and>
   the_row (w_db (snd (undisturbed ''probe''))) = (WorkflowRunning, ReasonRunnable, ''w1'', 1) \<and>
   map nm_status (node_instances (w_db (snd (undisturbed ''probe'')))) = [NodeRunning]"
  by code_simp

end
