(* ===== verification/Access.thy ===== *)
theory Access
  imports InputRepo
begin

text \<open>
  Who is calling and what they may touch: principals and the role catalog
  (\<open>internal/workflow/auth/principal.go\<close>), the users table
  (\<open>repository/user.go\<close>), the authentication middleware (\<open>handler/auth.go\<close>,
  \<open>service/auth.go\<close>) and the ownership check (\<open>service/instance_authz.go\<close>).

  The token verifier of the identity provider, the digest of the API token and the check
  that a string is a UUID are parameters.
\<close>

section \<open>Principals and the catalog\<close>

record Principal =
  pr_subject :: string
  pr_issuer :: string
  pr_name :: string
  pr_email :: string
  pr_roles :: "string list"
  pr_service :: bool
  pr_user :: uid

definition anonymous_principal :: Principal where
  "anonymous_principal = \<lparr>pr_subject = [], pr_issuer = [], pr_name = [], pr_email = [], pr_roles = [],
     pr_service = False, pr_user = []\<rparr>"

definition SystemPrincipal :: "uid \<Rightarrow> Principal" where
  "SystemPrincipal u = \<lparr>pr_subject = [], pr_issuer = [], pr_name = ''system'', pr_email = [],
     pr_roles = [''admin''], pr_service = True, pr_user = u\<rparr>"

text \<open>A catalog maps a role to the actions it grants.\<close>

type_synonym Catalog = "(string \<times> string list) list"

definition trimmed :: "string list \<Rightarrow> string list" where
  "trimmed actions = filter (\<lambda>a. a \<noteq> []) (map trim_space actions)"

text \<open>\<open>NewCatalog\<close> ranges over a Go map: \<open>entries\<close> is the order of that range.\<close>

definition NewCatalog :: "(string \<times> string list) list \<Rightarrow> Catalog" where
  "NewCatalog entries = fold (\<lambda>(role, actions) c.
     if trim_space role = [] then c else map_put (trim_space role) (trimmed actions) c) entries []"

definition PermissionsFor :: "Catalog \<Rightarrow> string \<Rightarrow> string list" where
  "PermissionsFor c role = (case map_of c role of None \<Rightarrow> [] | Some actions \<Rightarrow> actions)"

definition HasRole :: "Catalog \<Rightarrow> string \<Rightarrow> bool" where
  "HasRole c role \<longleftrightarrow> map_of c role \<noteq> None"

definition Roles :: "Catalog \<Rightarrow> string list" where
  "Roles c = sort_strings (keys_of c)"

definition ActionInputDeliver :: string where
  "ActionInputDeliver = ''input:deliver''"

definition WildcardAction :: string where
  "WildcardAction = ''*''"

definition KnownActions :: "string list" where
  "KnownActions = sort_strings
     [''definitions:read'', ''definitions:write'', ''secrets:read'', ''secrets:write'', ''forms:read'',
      ''forms:write'', ''instances:create'', ''instances:read'', ''instances:update-context'',
      ActionInputDeliver, ''instances:control'', ''instances:migrate'', ''statistics:read'',
      ''roles:read'', ''schedules:read'', ''schedules:write'']"

definition Permissions :: "Principal \<Rightarrow> Catalog \<Rightarrow> string list" where
  "Permissions p c = (if pr_service p then KnownActions else concat (map (PermissionsFor c) (pr_roles p)))"

definition HasPermission :: "Principal \<Rightarrow> string \<Rightarrow> Catalog \<Rightarrow> bool" where
  "HasPermission p action c \<longleftrightarrow>
     action \<noteq> [] \<and>
     (pr_service p \<or> WildcardAction \<in> set (Permissions p c) \<or> action \<in> set (Permissions p c))"

definition CanSatisfyRoles :: "Principal \<Rightarrow> string list \<Rightarrow> bool" where
  "CanSatisfyRoles p allowed \<longleftrightarrow>
     pr_service p \<or> allowed = [] \<or> list_ex (\<lambda>role. role \<in> set allowed) (pr_roles p)"

definition Seed :: "Catalog \<Rightarrow> (string \<times> string list) list" where
  "Seed c = map (\<lambda>role. (role, sort_strings (remdups (PermissionsFor c role)))) (Roles c)"

section \<open>Users\<close>

record UserModel =
  um_id :: uid
  um_subject :: string
  um_issuer :: string
  um_name :: string
  um_email :: string
  um_metadata :: raw
  um_created_at :: time
  um_updated_at :: time

type_synonym users = "UserModel list"

definition UserToModel :: "UserModel \<Rightarrow> UserModel" where
  "UserToModel u = u\<lparr>um_metadata := jsonCol (um_metadata u) empty_obj\<rparr>"

text \<open>
  \<open>INSERT .. ON CONFLICT (subject, issuer) WHERE subject <> '' DO UPDATE .. RETURNING id\<close>:
  the row of a known identity keeps its id and its creation time.
\<close>

definition same_identity :: "UserModel \<Rightarrow> UserModel \<Rightarrow> bool" where
  "same_identity u r \<longleftrightarrow> um_subject r = um_subject u \<and> um_issuer r = um_issuer u"

definition refresh_user :: "UserModel \<Rightarrow> UserModel \<Rightarrow> UserModel" where
  "refresh_user u r = r\<lparr>um_name := um_name u, um_email := um_email u,
     um_metadata := um_metadata u, um_updated_at := um_updated_at u\<rparr>"

definition UpsertBySubject :: "(string \<Rightarrow> bool) \<Rightarrow> UserModel \<Rightarrow> users \<Rightarrow> string + uid \<times> users" where
  "UpsertBySubject valid u0 us =
     (let u = UserToModel u0
      in if um_subject u = [] \<or> um_issuer u = []
         then Inl ''repository: upsert user by subject requires subject and issuer''
         else if \<not> valid (um_id u) then Inl ''repository: upsert user by subject requires a valid uuid''
         else case first_where (same_identity u) us of
           Some r \<Rightarrow>
             if valid (um_id r) then Inr (um_id r, update_where (same_identity u) (refresh_user u) us)
             else Inl ''repository: upsert user by subject landed on no user row''
         | None \<Rightarrow>
             if um_id u \<in> um_id ` set us then Inl ''duplicate key value violates unique constraint''
             else Inr (um_id u, us @ [u]))"

section \<open>Authentication\<close>

datatype resolve_err = InvalidIdentity | ResolveFailed string

text \<open>\<open>authService.ResolvePrincipal\<close>: \<open>now\<close> and \<open>fresh\<close> are the clock and \<open>mustNewID()\<close>.\<close>

definition principal_metadata :: "Principal \<Rightarrow> json" where
  "principal_metadata p = JObj
     (optional_field ''issuer'' (pr_issuer p)
     (optional_field ''subject'' (pr_subject p)
       (if pr_roles p = [] then [] else [(''roles'', JArr (map JStr (pr_roles p)))])))"

definition ResolvePrincipal ::
  "(string \<Rightarrow> bool) \<Rightarrow> uid \<Rightarrow> time \<Rightarrow> uid \<Rightarrow> Principal \<Rightarrow> users \<Rightarrow> resolve_err + Principal \<times> users" where
  "ResolvePrincipal valid systemUser now fresh p us =
     (if pr_service p then Inr (p\<lparr>pr_user := systemUser\<rparr>, us)
      else if pr_subject p = [] \<or> pr_issuer p = [] then Inl InvalidIdentity
      else case UpsertBySubject valid
          \<lparr>um_id = fresh, um_subject = pr_subject p, um_issuer = pr_issuer p, um_name = pr_name p,
           um_email = pr_email p, um_metadata = Some (principal_metadata p), um_created_at = now,
           um_updated_at = now\<rparr> us of
        Inl msg \<Rightarrow> Inl (ResolveFailed msg)
      | Inr (i, us') \<Rightarrow> Inr (p\<lparr>pr_user := i\<rparr>, us'))"

text \<open>
  The middleware configuration; \<open>ac_resolve\<close> says whether an identity resolver is
  installed. \<open>ac_digest\<close> is SHA-256.
\<close>

record AuthConfig =
  ac_enabled :: bool
  ac_token :: string
  ac_verifier :: "(string \<Rightarrow> Principal option) option"
  ac_resolve :: bool
  ac_catalog :: Catalog
  ac_system_user :: uid
  ac_digest :: "string \<Rightarrow> string"
  ac_valid :: "string \<Rightarrow> bool"

text \<open>The headers of a request, an absent one empty, as \<open>GetHeader\<close> returns it.\<close>

record Headers =
  hd_api_key :: string
  hd_authorization :: string

definition tokensEqual :: "(string \<Rightarrow> string) \<Rightarrow> string \<Rightarrow> string \<Rightarrow> bool" where
  "tokensEqual digest got want \<longleftrightarrow> got \<noteq> [] \<and> digest got = digest want"

definition ascii_lower :: "char \<Rightarrow> char" where
  "ascii_lower c = (let n = of_char c :: nat in if 65 \<le> n \<and> n \<le> 90 then char_of (n + 32) else c)"

definition cut_space :: "string \<Rightarrow> (string \<times> string) option" where
  "cut_space s = (if CHR '' '' \<in> set s
     then Some (takeWhile (\<lambda>c. c \<noteq> CHR '' '') s, tl (dropWhile (\<lambda>c. c \<noteq> CHR '' '') s)) else None)"

definition bearerToken :: "string \<Rightarrow> string" where
  "bearerToken header =
     (case cut_space (trim_space header) of
        None \<Rightarrow> []
      | Some (scheme, token) \<Rightarrow> if map ascii_lower scheme = ''bearer'' then trim_space token else [])"

definition credentialError :: "AuthConfig \<Rightarrow> bool \<Rightarrow> string" where
  "credentialError cfg presentedAPIToken =
     (if presentedAPIToken then ''missing or invalid API token''
      else if ac_verifier cfg \<noteq> None then ''missing or invalid bearer token''
      else ''missing or invalid API token'')"

definition token_enabled :: "AuthConfig \<Rightarrow> bool" where
  "token_enabled cfg \<longleftrightarrow> ac_enabled cfg \<and> ac_token cfg \<noteq> []"

definition authenticate :: "AuthConfig \<Rightarrow> Headers \<Rightarrow> string + Principal" where
  "authenticate cfg h =
     (let err = Inl (credentialError cfg (hd_api_key h \<noteq> []));
          tokenOK = tokensEqual (ac_digest cfg) (hd_api_key h) (ac_token cfg)
      in if token_enabled cfg \<and> hd_api_key h \<noteq> [] \<and> tokenOK then Inr (SystemPrincipal (ac_system_user cfg))
         else case ac_verifier cfg of
           Some verify \<Rightarrow>
             if bearerToken (hd_authorization h) = [] then err
             else (case verify (bearerToken (hd_authorization h)) of
                     None \<Rightarrow> err
                   | Some p \<Rightarrow>
                       if \<not> pr_service p \<and> (pr_subject p = [] \<or> pr_issuer p = []) then err else Inr p)
         | None \<Rightarrow>
             if token_enabled cfg \<and> tokenOK then Inr (SystemPrincipal (ac_system_user cfg)) else err)"

text \<open>
  The outcome of a middleware: a refusal with its HTTP status, or the request passed on
  with the principal it stored, if any, and the anonymous mark.
\<close>

datatype admission = Refused nat string | Admitted "Principal option" bool

definition resolve_identity ::
  "AuthConfig \<Rightarrow> time \<Rightarrow> uid \<Rightarrow> Principal \<Rightarrow> users \<Rightarrow> admission \<times> users" where
  "resolve_identity cfg now fresh p us =
     (if \<not> ac_resolve cfg then (Admitted (Some p) False, us)
      else case ResolvePrincipal (ac_valid cfg) (ac_system_user cfg) now fresh p us of
        Inl InvalidIdentity \<Rightarrow> (Refused 401 ''cannot resolve the authenticated identity'', us)
      | Inl (ResolveFailed _) \<Rightarrow> (Refused 500 ''cannot resolve the authenticated identity'', us)
      | Inr (p', us') \<Rightarrow> (Admitted (Some p') False, us'))"

definition RequireAuth :: "AuthConfig \<Rightarrow> Headers \<Rightarrow> time \<Rightarrow> uid \<Rightarrow> users \<Rightarrow> admission \<times> users" where
  "RequireAuth cfg h now fresh us =
     (case authenticate cfg h of
        Inl msg \<Rightarrow> (Refused 401 msg, us)
      | Inr p \<Rightarrow> resolve_identity cfg now fresh p us)"

definition RequirePermission :: "string \<Rightarrow> Catalog \<Rightarrow> Principal option \<Rightarrow> (nat \<times> string) option" where
  "RequirePermission action c caller =
     (case caller of
        None \<Rightarrow> Some (401, ''missing or invalid API token'')
      | Some p \<Rightarrow>
          if HasPermission p action c then None
          else Some (403, ''the '' @ action @ '' permission is required''))"

definition authPresented :: "AuthConfig \<Rightarrow> Headers \<Rightarrow> bool" where
  "authPresented cfg h \<longleftrightarrow>
     ac_enabled cfg \<and> trim_space (hd_api_key h) \<noteq> [] \<or> trim_space (hd_authorization h) \<noteq> []"

definition TryAuth :: "AuthConfig \<Rightarrow> Headers \<Rightarrow> time \<Rightarrow> uid \<Rightarrow> users \<Rightarrow> admission \<times> users" where
  "TryAuth cfg h now fresh us =
     (if \<not> authPresented cfg h then (Admitted None True, us)
      else case authenticate cfg h of
        Inl msg \<Rightarrow> (Refused 401 msg, us)
      | Inr p \<Rightarrow>
          if \<not> HasPermission p ActionInputDeliver (ac_catalog cfg)
          then (Refused 403 (''the '' @ ActionInputDeliver @ '' permission is required''), us)
          else resolve_identity cfg now fresh p us)"

section \<open>Ownership\<close>

text \<open>\<open>None\<close> is no error; every refusal is the model's \<open>ErrNotFound\<close>.\<close>

definition authorizeInstance :: "WorkflowInstanceModel option \<Rightarrow> Principal \<Rightarrow> string option" where
  "authorizeInstance inst p =
     (case inst of
        None \<Rightarrow> Some ''instance not found''
      | Some m \<Rightarrow>
          if pr_service p \<or> pr_user p = [] \<or> wm_created_by m = [] \<or> wm_created_by m = pr_user p then None
          else Some (''instance '' @ wm_id m))"

text \<open>The owner an instance listing is restricted to, given the one the query asked for.\<close>

definition ownedInstances :: "Principal \<Rightarrow> uid \<Rightarrow> uid" where
  "ownedInstances p createdBy = (if pr_service p \<or> pr_user p = [] then createdBy else pr_user p)"

definition isAdmin :: "Principal \<Rightarrow> bool" where
  "isAdmin p \<longleftrightarrow> list_ex (\<lambda>role. role = ''admin'') (pr_roles p)"

definition ownedStatistics :: "Principal \<Rightarrow> uid \<Rightarrow> uid" where
  "ownedStatistics p createdBy =
     (if pr_service p \<or> pr_user p = [] \<or> isAdmin p then createdBy else pr_user p)"

end
