(* ===== verification/Redaction.thy ===== *)
theory Redaction
  imports Access Sample
begin

text \<open>
  Secrets and environment snapshots of an instance context: the glob deny list of
  \<open>pkg/envsnapshot\<close>, and the secret root of the context, how it is stored, read back and
  masked on the way out (\<open>service/secret_redaction.go\<close>).

  A \<open>map[string]string\<close> is a list with ascending keys. Ranging over one visits its entries
  in an order the runtime picks: \<open>rng\<close>.
\<close>

section \<open>Environment snapshots\<close>

text \<open>
  \<open>path.Match\<close>: a star matches any run without a slash, a question mark one character
  that is no slash, brackets one character of a class, a backslash quotes. \<open>None\<close> below is
  a malformed class; \<open>matchAny\<close> treats a malformed pattern as no match.
\<close>

definition get_esc :: "string \<Rightarrow> (char \<times> string) option" where
  "get_esc p =
     (case p of
        [] \<Rightarrow> None
      | c # p' \<Rightarrow>
          if c = CHR ''-'' \<or> c = CHR '']'' then None
          else if c = CHR 0x5C then (case p' of q # r # p'' \<Rightarrow> Some (q, r # p'') | _ \<Rightarrow> None)
          else (case p' of [] \<Rightarrow> None | r # p'' \<Rightarrow> Some (c, r # p'')))"

fun class_ranges :: "nat \<Rightarrow> char \<Rightarrow> string \<Rightarrow> bool \<Rightarrow> bool \<Rightarrow> (bool \<times> string) option" where
  "class_ranges 0 x p seen hit = None"
| "class_ranges (Suc n) x p seen hit =
     (if seen \<and> p \<noteq> [] \<and> hd p = CHR '']'' then Some (hit, tl p)
      else case get_esc p of
        None \<Rightarrow> None
      | Some (lo, rest) \<Rightarrow>
          if hd rest = CHR ''-''
          then (case get_esc (tl rest) of
                  None \<Rightarrow> None
                | Some (hi, rest') \<Rightarrow> class_ranges n x rest' True (hit \<or> lo \<le> x \<and> x \<le> hi))
          else class_ranges n x rest True (hit \<or> x = lo))"

definition class_match :: "char \<Rightarrow> string \<Rightarrow> (bool \<times> string) option" where
  "class_match x p =
     (case p of
        [] \<Rightarrow> None
      | c # p' \<Rightarrow>
          if c = CHR ''^''
          then map_option (\<lambda>(hit, rest). (\<not> hit, rest)) (class_ranges (Suc (length p')) x p' False False)
          else class_ranges (Suc (length p)) x p False False)"

lemma get_esc_length: "get_esc p = Some (c, rest) \<Longrightarrow> length rest < length p"
  by (auto simp: get_esc_def split: list.split_asm if_split_asm)

lemma class_ranges_length: "class_ranges n x p seen hit = Some (b, rest) \<Longrightarrow> length rest < length p"
proof (induction n x p seen hit arbitrary: b rest rule: class_ranges.induct)
  case (2 n x p seen hit)
  show ?case
  proof (cases "seen \<and> p \<noteq> [] \<and> hd p = CHR '']''")
    case True
    with 2(3) show ?thesis by (cases p) auto
  next
    case False
    with 2(3) obtain lo r where r: "get_esc p = Some (lo, r)" by (auto split: option.split_asm)
    from get_esc_length [OF this] have l: "length r < length p" .
    show ?thesis
    proof (cases "hd r = CHR ''-''")
      case True
      with 2(3) False r obtain hi r' where r': "get_esc (tl r) = Some (hi, r')"
        "class_ranges n x r' True (hit \<or> lo \<le> x \<and> x \<le> hi) = Some (b, rest)"
        by (auto split: option.split_asm)
      have "length rest < length r'" by (rule 2(1) [OF False r _ True r'(1) _ r'(2)]) simp_all
      with get_esc_length [OF r'(1)] l show ?thesis by (simp add: less_diff_conv)
    next
      case not_range: False
      with 2(3) False r have "class_ranges n x r True (hit \<or> x = lo) = Some (b, rest)" by auto
      then have "length rest < length r" by (rule 2(2) [OF False r _ not_range, rotated 1]) simp_all
      with l show ?thesis by simp
    qed
  qed
qed simp

lemma class_match_length: "class_match x p = Some (b, rest) \<Longrightarrow> length rest < length p"
  by (auto simp: class_match_def simp del: class_ranges.simps dest!: class_ranges_length
      split: list.split_asm if_split_asm)

function path_match :: "string \<Rightarrow> string \<Rightarrow> bool" where
  "path_match [] s = (s = [])"
| "path_match (c # p) s =
     (if c = CHR ''*'' then path_match p s \<or> (case s of [] \<Rightarrow> False | x # s' \<Rightarrow> x \<noteq> CHR ''/'' \<and> path_match (c # p) s')
      else case s of
        [] \<Rightarrow> False
      | x # s' \<Rightarrow>
          if c = CHR ''?'' then x \<noteq> CHR ''/'' \<and> path_match p s'
          else if c = CHR ''['' then
            (case class_match x p of None \<Rightarrow> False | Some (hit, rest) \<Rightarrow> hit \<and> path_match rest s')
          else if c = CHR 0x5C then (case p of [] \<Rightarrow> False | q # p' \<Rightarrow> x = q \<and> path_match p' s')
          else x = c \<and> path_match p s')"
  by pat_completeness auto
termination
  by (relation "measure (\<lambda>(p, s). length p + length s)") (auto dest: class_match_length)

definition matchAny :: "string list \<Rightarrow> string \<Rightarrow> bool" where
  "matchAny patterns name \<longleftrightarrow> list_ex (\<lambda>p. p \<noteq> [] \<and> path_match p name) patterns"

definition defaultDenied :: "string list" where
  "defaultDenied = [''SIMPWF_API_TOKEN'', ''SIMPWF_AUTH_*'', ''SIMPWF_SYSTEM_*'', ''SIMPWF_*_DSN'']"

text \<open>The operator's patterns installed at startup.\<close>

record env_override =
  ov_extra :: "string list"
  ov_allow :: "string list"

definition IsDenied :: "env_override \<Rightarrow> string \<Rightarrow> bool" where
  "IsDenied ov name \<longleftrightarrow>
     (matchAny defaultDenied name \<or> matchAny (ov_extra ov) name) \<and> \<not> matchAny (ov_allow ov) name"

text \<open>\<open>environ\<close> is \<open>os.Environ()\<close>, split at the first equals sign.\<close>

definition Snapshot :: "env_override \<Rightarrow> string \<Rightarrow> (string \<times> string) list \<Rightarrow> gomap" where
  "Snapshot ov prefix environ = fold (\<lambda>(name, val) out.
     if has_prefix name prefix \<and> \<not> IsDenied ov name then map_put name (JStr val) out else out) environ []"

definition StripDenied :: "env_override \<Rightarrow> json option \<Rightarrow> gomap" where
  "StripDenied ov base = (case base of Some (JObj m) \<Rightarrow> filter (\<lambda>(k, _). \<not> IsDenied ov k) m | _ \<Rightarrow> [])"

definition Merge :: "gomap \<Rightarrow> gomap \<Rightarrow> gomap" where
  "Merge base snapshot = fold (\<lambda>(k, v) out. map_put k v out) snapshot base"

section \<open>The secret root\<close>

type_synonym secrets = "(string \<times> string) list"

definition mergeSecretSnapshot :: "gomap \<Rightarrow> secrets \<Rightarrow> gomap" where
  "mergeSecretSnapshot obj ss =
     (if ss = [] then map_del ''secret'' obj
      else map_put ''secret'' (JObj (map (\<lambda>(k, v). (k, JStr v)) ss)) (map_del ''secret'' obj))"

definition decodeContextObject :: "raw \<Rightarrow> gomap option" where
  "decodeContextObject r = (case r of Some (JObj m) \<Rightarrow> Some m | _ \<Rightarrow> None)"

fun secret_texts :: "gomap \<Rightarrow> secrets option" where
  "secret_texts [] = Some []"
| "secret_texts ((k, v) # m) =
     (case v of JStr s \<Rightarrow> (case secret_texts m of None \<Rightarrow> None | Some ss \<Rightarrow> Some ((k, s) # ss)) | _ \<Rightarrow> None)"

text \<open>\<open>None\<close> is an untrusted snapshot.\<close>

definition secretValuesFromObject :: "gomap \<Rightarrow> secrets option" where
  "secretValuesFromObject obj =
     (case map_of obj ''secret'' of
        None \<Rightarrow> Some []
      | Some (JObj m) \<Rightarrow> secret_texts m
      | Some _ \<Rightarrow> None)"

definition secretValuesFromContext :: "raw \<Rightarrow> secrets option" where
  "secretValuesFromContext r =
     (case decodeContextObject r of None \<Rightarrow> None | Some obj \<Rightarrow> secretValuesFromObject obj)"

section \<open>Masking\<close>

definition SecretMask :: string where
  "SecretMask = ''********''"

definition redactSecretRoot :: "gomap \<Rightarrow> gomap" where
  "redactSecretRoot obj =
     (case map_of obj ''secret'' of
        None \<Rightarrow> obj
      | Some (JObj m) \<Rightarrow> map_put ''secret'' (JObj (map (\<lambda>(k, _). (k, JStr SecretMask)) m)) obj
      | Some _ \<Rightarrow> map_put ''secret'' (JObj []) obj)"

fun mask_each :: "secrets \<Rightarrow> string \<Rightarrow> string" where
  "mask_each [] s = s"
| "mask_each ((k, p) # ss) s = mask_each ss (if p = [] then s else replace_all s p SecretMask)"

definition redactText :: "(secrets \<Rightarrow> secrets) \<Rightarrow> secrets \<Rightarrow> string \<Rightarrow> string" where
  "redactText rng ss s = mask_each (rng ss) s"

fun redactDecodedValues :: "(string \<Rightarrow> string) \<Rightarrow> json \<Rightarrow> json" where
  "redactDecodedValues f (JObj m) = JObj (map (\<lambda>(k, v). (k, redactDecodedValues f v)) m)"
| "redactDecodedValues f (JArr xs) = JArr (map (redactDecodedValues f) xs)"
| "redactDecodedValues f (JStr s) = JStr (f s)"
| "redactDecodedValues f v = v"

definition redactJSONValues :: "(secrets \<Rightarrow> secrets) \<Rightarrow> secrets \<Rightarrow> raw \<Rightarrow> raw" where
  "redactJSONValues rng ss r =
     (case r of
        None \<Rightarrow> None
      | Some v \<Rightarrow> if ss = [] then Some v else Some (redactDecodedValues (redactText rng ss) v))"

definition mask_error :: "string \<Rightarrow> string" where
  "mask_error e = (if e = [] then [] else SecretMask)"

definition redactInstanceView :: "(secrets \<Rightarrow> secrets) \<Rightarrow> WorkflowInstanceModel \<Rightarrow> WorkflowInstanceModel" where
  "redactInstanceView rng m =
     (case wm_context m of
        None \<Rightarrow> m\<lparr>wm_error := mask_error (wm_error m)\<rparr>
      | Some JNull \<Rightarrow> m\<lparr>wm_error := mask_error (wm_error m)\<rparr>
      | Some (JObj obj) \<Rightarrow>
          if clean_ctx (redactSecretRoot obj)
          then m\<lparr>wm_error := (case secretValuesFromObject obj of
                    Some ss \<Rightarrow> redactText rng ss (wm_error m) | None \<Rightarrow> mask_error (wm_error m)),
                 wm_context := Some (JObj (redactSecretRoot obj))\<rparr>
          else m\<lparr>wm_context := Some (JObj []), wm_error := mask_error (wm_error m)\<rparr>
      | Some _ \<Rightarrow> m\<lparr>wm_context := Some (JObj []), wm_error := mask_error (wm_error m)\<rparr>)"

text \<open>The error of a list item, read against the context of its row.\<close>

definition redactInstanceListItem ::
  "(secrets \<Rightarrow> secrets) \<Rightarrow> (uid \<Rightarrow> raw) \<Rightarrow> WorkflowInstanceModel \<Rightarrow> WorkflowInstanceModel" where
  "redactInstanceListItem rng contexts m =
     (if wm_error m = [] then m
      else case secretValuesFromContext (contexts (wm_id m)) of
        Some ss \<Rightarrow> m\<lparr>wm_error := redactText rng ss (wm_error m)\<rparr>
      | None \<Rightarrow> m\<lparr>wm_error := SecretMask\<rparr>)"

text \<open>The debug view of an occurrence, as far as secrets may show in it.\<close>

record NodeDebugDetail =
  nd_context_before :: raw
  nd_context_after :: raw
  nd_input :: raw
  nd_output :: raw
  nd_error :: "string option"
  nd_policy :: "string option"
  nd_result :: "string option"

definition redactNodeDebugSecrets :: "(secrets \<Rightarrow> secrets) \<Rightarrow> secrets option \<Rightarrow> NodeDebugDetail \<Rightarrow> NodeDebugDetail" where
  "redactNodeDebugSecrets rng snapshot d =
     (case snapshot of
        None \<Rightarrow> \<lparr>nd_context_before = Some JNull, nd_context_after = Some JNull, nd_input = Some JNull,
           nd_output = Some JNull, nd_error = map_option (\<lambda>_. SecretMask) (nd_error d),
           nd_policy = map_option (\<lambda>_. SecretMask) (nd_policy d),
           nd_result = map_option (\<lambda>_. SecretMask) (nd_result d)\<rparr>
      | Some ss \<Rightarrow> \<lparr>nd_context_before = redactJSONValues rng ss (nd_context_before d),
           nd_context_after = redactJSONValues rng ss (nd_context_after d),
           nd_input = redactJSONValues rng ss (nd_input d), nd_output = redactJSONValues rng ss (nd_output d),
           nd_error = map_option (redactText rng ss) (nd_error d),
           nd_policy = map_option (redactText rng ss) (nd_policy d),
           nd_result = map_option (redactText rng ss) (nd_result d)\<rparr>)"

section \<open>Properties\<close>

lemma secret_texts_JStr [simp]: "secret_texts (map (\<lambda>(k, v). (k, JStr v)) ss) = Some ss"
  by (induction ss) auto

text \<open>
  The secret root of a context is the stored snapshot and nothing else: whatever a
  request body put under the reserved key, the merged context reads back exactly the
  snapshot it was given, and every other key is left alone.
\<close>

theorem secret_snapshot_roundtrip:
  assumes "wf_map obj"
  shows "secretValuesFromObject (mergeSecretSnapshot obj ss) = Some ss \<and>
    (k \<noteq> ''secret'' \<longrightarrow> map_of (mergeSecretSnapshot obj ss) k = map_of obj k)"
  using assms by (simp add: mergeSecretSnapshot_def secretValuesFromObject_def)

lemma secret_snapshot_roundtrip_witness:
  "secretValuesFromObject (mergeSecretSnapshot [(''env'', JNull), (''secret'', JObj [(''k'', JStr ''forged'')])]
     [(''k'', ''stored'')]) = Some [(''k'', ''stored'')]"
  using secret_snapshot_roundtrip [of "[(''env'', JNull), (''secret'', JObj [(''k'', JStr ''forged'')])]"
      "[(''k'', ''stored'')]" "''env''"] by simp

text \<open>A mask in the range of a substitution: none of its own letters can start a secret.\<close>

lemma SecretMask_stars: "SecretMask = replicate 8 CHR ''*''"
  by (simp add: SecretMask_def numeral_eq_Suc)

lemma mask_each_no_new:
  "contains_sub (mask_each ss s) p \<Longrightarrow> p \<noteq> [] \<Longrightarrow> CHR ''*'' \<notin> set p \<Longrightarrow> contains_sub s p"
proof (induction ss s rule: mask_each.induct)
  case (2 k q ss s)
  then have "contains_sub (if q = [] then s else replace_all s q SecretMask) p" by auto
  then show ?case using replace_all_contains [of s q 8 p] 2(3, 4) by (auto simp: SecretMask_stars split: if_splits)
qed simp

lemma mask_each_removes:
  "(k, p) \<in> set ss \<Longrightarrow> p \<noteq> [] \<Longrightarrow> CHR ''*'' \<notin> set p \<Longrightarrow> \<not> contains_sub (mask_each ss s) p"
proof (induction ss s rule: mask_each.induct)
  case (2 k' q ss s)
  show ?case
  proof (cases "(k, p) \<in> set ss")
    case True
    with 2 show ?thesis by simp
  next
    case False
    with 2 have "q = p" by auto
    with 2 show ?thesis
      using mask_each_no_new [of ss _ p] replace_all_removes [of p 8 s] by (auto simp: SecretMask_stars)
  qed
qed simp

text \<open>The strings among the values of a document.\<close>

fun value_strings :: "json \<Rightarrow> string list" where
  "value_strings (JObj m) = concat (map (\<lambda>(k, v). value_strings v) m)"
| "value_strings (JArr xs) = concat (map value_strings xs)"
| "value_strings (JStr s) = [s]"
| "value_strings _ = []"

lemma value_strings_redact: "value_strings (redactDecodedValues f v) = map f (value_strings v)"
proof (induction f v rule: redactDecodedValues.induct)
  case (1 f m)
  then have "value_strings (redactDecodedValues f (snd e)) = map f (value_strings (snd e))" if "e \<in> set m" for e
    using that by (cases e) simp
  then have "concat (map (\<lambda>e. value_strings (redactDecodedValues f (snd e))) m) = concat (map (\<lambda>e. map f (value_strings (snd e))) m)"
    by (intro arg_cong [of _ _ concat] map_cong refl) simp
  then show ?case by (simp add: map_concat comp_def case_prod_beta)
next
  case (2 f xs)
  then have "concat (map (\<lambda>v. value_strings (redactDecodedValues f v)) xs) = concat (map (\<lambda>v. map f (value_strings v)) xs)"
    by (intro arg_cong [of _ _ concat]) (auto intro!: map_cong)
  then show ?case by (simp add: map_concat comp_def)
qed simp_all


definition secret_row :: WorkflowInstanceModel where
  "secret_row = sample_wf\<lparr>wm_context := Some (JObj [(''secret'', JObj [(''db'', JStr ''pw'')])]),
     wm_error := ''login pw refused''\<rparr>"


text \<open>
  The mask covers values only: a secret used as the name of a field comes back as it is.
\<close>

theorem secret_names_leak:
  "redactJSONValues id [(''db'', ''pw'')] (Some (JObj [(''pw'', JStr ''pw'')])) =
   Some (JObj [(''pw'', JStr SecretMask)])"
  by code_simp

lemma Snapshot_keys:
  "map_of (fold (\<lambda>(name, val) out. if has_prefix name prefix \<and> \<not> IsDenied ov name then map_put name (JStr val) out
     else out) environ out) k \<noteq> None \<Longrightarrow> wf_map out \<Longrightarrow> map_of out k \<noteq> None \<or> \<not> IsDenied ov k"
proof (induction environ arbitrary: out)
  case (Cons e environ)
  obtain name val where e: "e = (name, val)" by (cases e)
  show ?case
  proof (cases "has_prefix name prefix \<and> \<not> IsDenied ov name")
    case True
    with Cons.prems Cons.IH [of "map_put name (JStr val) out"] e show ?thesis
      by (auto split: if_split_asm)
  next
    case False
    with Cons.prems Cons.IH [of out] e show ?thesis by auto
  qed
qed simp

lemma wf_Snapshot_fold:
  "wf_map out \<Longrightarrow> wf_map (fold (\<lambda>(name, val) out. if has_prefix name prefix \<and> \<not> IsDenied ov name
     then map_put name (JStr val) out else out) environ out)"
  by (induction environ arbitrary: out) (auto simp: case_prod_beta)

lemma map_of_Merge: "wf_map snapshot \<Longrightarrow> wf_map base \<Longrightarrow> map_of (Merge base snapshot) = map_of base ++ map_of snapshot"
  unfolding Merge_def
proof (induction snapshot arbitrary: base)
  case (Cons e snapshot)
  obtain k v where e: "e = (k, v)" by (cases e)
  have "k \<notin> set (keys_of snapshot)" using Cons.prems(1) e by auto
  then have "map_of snapshot k = None" by (simp add: map_of_None_keys)
  with Cons.IH [of "map_put k v base"] Cons.prems e show ?case
    by (auto simp: fun_eq_iff map_add_def split: option.split)
qed simp

text \<open>
  C4. A denied variable never reaches a context: neither the process environment nor a request
  body can put a name that matches a deny pattern, and no allow pattern, under the \<open>env\<close>
  root, and a name of both keeps the value of the process.
\<close>

theorem env_root_denies:
  assumes "IsDenied ov name" "wf_map body"
  shows "map_of (Merge (StripDenied ov (Some (JObj body))) (Snapshot ov prefix environ)) name = None \<and>
    map_of (Merge (StripDenied ov (Some (JObj body))) (Snapshot ov prefix environ)) other =
      (case map_of (Snapshot ov prefix environ) other of
         Some v \<Rightarrow> Some v | None \<Rightarrow> if IsDenied ov other then None else map_of body other)"
proof -
  have strip: "wf_map (StripDenied ov (Some (JObj body)))"
    "map_of (StripDenied ov (Some (JObj body))) k = (if IsDenied ov k then None else map_of body k)" for k
    using assms(2) by (induction body) (auto simp: StripDenied_def)
  have snap: "wf_map (Snapshot ov prefix environ)" by (simp add: Snapshot_def wf_Snapshot_fold)
  have "map_of (Snapshot ov prefix environ) name = None"
    using Snapshot_keys [of prefix ov environ "[]" name] assms(1)
    by (cases "map_of (Snapshot ov prefix environ) name") (simp_all add: Snapshot_def)
  with strip snap assms(1) show ?thesis
    by (simp add: map_of_Merge map_add_def split: option.split)
qed

lemma env_root_denies_witness:
  "map_of (Merge (StripDenied \<lparr>ov_extra = [], ov_allow = []\<rparr> (Some (JObj [(''SIMPWF_AUTH_KEY'', JStr ''x'')])))
     (Snapshot \<lparr>ov_extra = [], ov_allow = []\<rparr> ''SIMPWF_'' [(''SIMPWF_AUTH_KEY'', ''y''), (''SIMPWF_URL'', ''z'')]))
     ''SIMPWF_AUTH_KEY'' = None"
  by (rule conjunct1 [OF env_root_denies]) (code_simp, simp)

end
