(* ===== verification/Service.thy ===== *)
theory Service
  imports Redaction Engine
begin

text \<open>
  The use cases of \<open>internal/workflow/service/instance.go\<close>: creating an instance, replacing
  its context, and the control calls. \<open>ServiceViews\<close> has the read side, \<open>ServiceRollback\<close>
  rollback and migration, \<open>ServiceInput\<close> input deliveries.

  A use case is a state transformer over the \<open>world\<close> of the engine: it makes its repository
  calls one at a time, and other workers act between them.
\<close>

section \<open>Errors\<close>

text \<open>
  The sentinels of \<open>model/errors.go\<close> a use case wraps, with their message, and any other
  error passed through.
\<close>

datatype svc_err =
    Invalid string | Conflict string | NotFound string | Forbidden string | Failed go_err

section \<open>Dependencies\<close>

record WorkflowDefinition =
  wd_id :: uid
  wd_lineage :: uid
  wd_version :: int
  wd_content :: raw

record Form =
  fm_schema :: raw
  fm_ui :: raw

text \<open>
  \<open>instanceService\<close>: what varies from call to call is indexed by the tick of its use.
  \<open>sv_parse\<close> is \<open>ParseWorkflowContent\<close> under the configured limits, \<open>sv_definition\<close> the
  definition table, \<open>sv_resolve\<close> and \<open>sv_materialize\<close> the materializer, \<open>sv_secrets\<close> and
  \<open>sv_forms\<close> the optional secret and form stores, \<open>sv_environ\<close> the process environment.
\<close>

record service =
  sv_rt :: runtime
  sv_clock :: "nat \<Rightarrow> time"
  sv_dbclock :: "nat \<Rightarrow> time"
  sv_newid :: "nat \<Rightarrow> uid"
  sv_actor :: uid
  sv_parse :: "raw \<Rightarrow> string + WorkflowContent"
  sv_definition :: "nat \<Rightarrow> uid \<Rightarrow> svc_err + WorkflowDefinition"
  sv_resolve :: "nat \<Rightarrow> uid \<Rightarrow> svc_err + WorkflowContent"
  sv_materialize :: "nat \<Rightarrow> WorkflowContent \<Rightarrow> svc_err + WorkflowContent"
  sv_secrets :: "(nat \<Rightarrow> svc_err + secrets) option"
  sv_forms :: "(nat \<Rightarrow> uid \<Rightarrow> svc_err + Form) option"
  sv_environ :: "nat \<Rightarrow> (string \<times> string) list"
  sv_override :: env_override
  sv_vm :: "nat \<Rightarrow> vm"
  sv_replay_max :: int
  sv_lean_default :: bool
  sv_catalog :: Catalog
  sv_range :: "secrets \<Rightarrow> secrets"
  sv_leaf_text :: "go_err \<Rightarrow> string"

definition svc_text :: "service \<Rightarrow> svc_err \<Rightarrow> string" where
  "svc_text sv e = (case e of
      Invalid m \<Rightarrow> ''model: invalid: '' @ m
    | Conflict m \<Rightarrow> ''model: conflict: '' @ m
    | NotFound m \<Rightarrow> ''model: not found: '' @ m
    | Forbidden m \<Rightarrow> ''model: forbidden: '' @ m
    | Failed g \<Rightarrow> error_text (sv_leaf_text sv) g)"

type_synonym 'a svc = "(world, svc_err + 'a) state"

definition andThen :: "'a svc \<Rightarrow> ('a \<Rightarrow> 'b svc) \<Rightarrow> 'b svc" where
  "andThen m k = do { r \<leftarrow> m; case r of Inl e \<Rightarrow> ret (Inl e) | Inr x \<Rightarrow> k x }"

text \<open>A repository call whose error is returned as it is.\<close>

definition passing :: "(db \<Rightarrow> repo_err + 'a \<times> db) \<Rightarrow> 'a svc" where
  "passing f = do { r \<leftarrow> call f; ret (case r of Inl e \<Rightarrow> Inl (Failed e) | Inr x \<Rightarrow> Inr x) }"

definition check :: "bool \<Rightarrow> svc_err \<Rightarrow> unit svc" where
  "check ok e = ret (if ok then Inr () else Inl e)"

definition svc_now :: "service \<Rightarrow> time step" where
  "svc_now sv = do { t \<leftarrow> tick; ret (sv_clock sv t) }"

definition mustNewID :: "service \<Rightarrow> uid step" where
  "mustNewID sv = do { t \<leftarrow> tick; ret (sv_newid sv t) }"

definition record_event :: "service \<Rightarrow> uid \<Rightarrow> string \<Rightarrow> gomap \<Rightarrow> uid \<Rightarrow> unit step" where
  "record_event sv inst typ data actor = do {
     i \<leftarrow> mustNewID sv;
     now \<leftarrow> svc_now sv;
     _ \<leftarrow> call (writes (AppendEvent (event_row i inst typ data actor now)));
     ret ()
   }"

definition append_history :: "service \<Rightarrow> NodeContextHistoryModel \<Rightarrow> unit svc" where
  "append_history sv h = do { now \<leftarrow> svc_now sv; passing (writes (AppendHistory (sv_rt sv) now h)) }"

section \<open>Callers\<close>

text \<open>A request without a principal is a call of the service itself.\<close>

definition requestPrincipal :: "service \<Rightarrow> Principal option \<Rightarrow> Principal" where
  "requestPrincipal sv p = (case p of Some q \<Rightarrow> q | None \<Rightarrow> SystemPrincipal (sv_actor sv))"

definition resolveActor :: "uid \<Rightarrow> uid \<Rightarrow> uid" where
  "resolveActor actor fallback = (if actor \<noteq> [] then actor else fallback)"

definition actorOrDefault :: "service \<Rightarrow> uid \<Rightarrow> uid" where
  "actorOrDefault sv actor = resolveActor actor (sv_actor sv)"

definition requestActor :: "service \<Rightarrow> Principal option \<Rightarrow> uid \<Rightarrow> uid" where
  "requestActor sv p actor =
     (if actor \<noteq> [] then actor
      else case p of
        Some q \<Rightarrow> if pr_user q \<noteq> [] then pr_user q else sv_actor sv
      | None \<Rightarrow> sv_actor sv)"

definition authorize :: "WorkflowInstanceModel option \<Rightarrow> Principal \<Rightarrow> unit svc" where
  "authorize inst p =
     ret (case authorizeInstance inst p of None \<Rightarrow> Inr () | Some msg \<Rightarrow> Inl (NotFound msg))"

text \<open>\<open>instance\<close>: a missing row is the model's \<open>ErrNotFound\<close>.\<close>

definition load_instance :: "service \<Rightarrow> uid \<Rightarrow> WorkflowInstanceModel svc" where
  "load_instance sv i = do {
     r \<leftarrow> call (reads (GetByID i));
     ret (case r of
       Inl e \<Rightarrow> Inl (if is_repo ErrInstanceNotFound e then NotFound (''instance '' @ i) else Failed e)
     | Inr m \<Rightarrow> Inr m)
   }"

section \<open>Contexts\<close>

definition leanMode :: "WorkflowInstanceModel \<Rightarrow> bool" where
  "leanMode m \<longleftrightarrow> wm_context_mode m = ContextModeLean"

definition leanAnchorRow :: "uid \<Rightarrow> raw \<Rightarrow> NodeContextHistoryModel" where
  "leanAnchorRow inst restored =
     \<lparr>hm_id = [], hm_instance = inst, hm_occurrence = [], hm_node = [], hm_attempt = 0, hm_is_anchor = True,
      hm_snapshot = restored, hm_diff = Some JNull, hm_superseded = False, hm_created_at = 0\<rparr>"

definition toStringMap :: "json option \<Rightarrow> gomap" where
  "toStringMap v = (case v of Some (JObj m) \<Rightarrow> m | _ \<Rightarrow> [])"

text \<open>The reserved roots of a context: the environment under the caller's, the secrets over it.\<close>

definition with_reserved :: "service \<Rightarrow> gomap \<Rightarrow> secrets \<Rightarrow> gomap \<Rightarrow> gomap" where
  "with_reserved sv env ss body = mergeSecretSnapshot
     (map_put ''env'' (JObj (Merge (StripDenied (sv_override sv) (map_of body ''env'')) env)) body) ss"

definition env_prefix :: string where
  "env_prefix = ''SIMPWF_''"

definition env_snapshot :: "service \<Rightarrow> gomap step" where
  "env_snapshot sv = do { t \<leftarrow> tick; ret (Snapshot (sv_override sv) env_prefix (sv_environ sv t)) }"

definition secret_snapshot :: "service \<Rightarrow> secrets svc" where
  "secret_snapshot sv =
     (case sv_secrets sv of None \<Rightarrow> ret (Inr []) | Some get \<Rightarrow> do { t \<leftarrow> tick; ret (get t) })"

definition encode_context :: "gomap \<Rightarrow> svc_err + raw" where
  "encode_context body = (case marshal (JObj body) of Inl e \<Rightarrow> Inl (Invalid e) | Inr r \<Rightarrow> Inr r)"

definition context_mode :: "service \<Rightarrow> WorkflowContent \<Rightarrow> string" where
  "context_mode sv wc =
     (case wContextMode wc of
        Some m \<Rightarrow> m
      | None \<Rightarrow> if sv_lean_default sv then ContextModeLean else ContextModeFull)"

definition zero_counters :: Counters where
  "zero_counters = \<lparr>Total = 0, Nodes = []\<rparr>"

definition trimmed_empty :: "string \<Rightarrow> bool" where
  "trimmed_empty s \<longleftrightarrow> trim_space s = []"

section \<open>Creating an instance\<close>

record CreateInstance =
  ci_definition :: uid
  ci_context :: raw
  ci_debug :: bool
  ci_snapshot_forms :: bool
  ci_actor :: uid

definition createdEventData :: "uid \<Rightarrow> bool \<Rightarrow> gomap" where
  "createdEventData defID debug =
     (if debug then [(''debug'', JBool True), (''workflow_definition_id'', JStr defID)]
      else [(''workflow_definition_id'', JStr defID)])"

definition collectFormIDs :: "NodeContent list \<Rightarrow> uid list" where
  "collectFormIDs ns = fold (\<lambda>n ids.
     if nFormID (nfields n) \<noteq> [] \<and> nFormID (nfields n) \<notin> set ids then ids @ [nFormID (nfields n)] else ids)
     (forest_nodes ns) []"

fun ensureFormsExist :: "(nat \<Rightarrow> uid \<Rightarrow> svc_err + Form) \<Rightarrow> uid list \<Rightarrow> unit svc" where
  "ensureFormsExist get [] = ret (Inr ())"
| "ensureFormsExist get (i # ids) = do {
     t \<leftarrow> tick;
     case get t i of
       Inl (NotFound _) \<Rightarrow> ret (Inl (Invalid (''unknown form_id '' @ quoted i)))
     | Inl e \<Rightarrow> ret (Inl e)
     | Inr _ \<Rightarrow> ensureFormsExist get ids
   }"

definition formSnapshotEntry :: "Form \<Rightarrow> json" where
  "formSnapshotEntry f = JObj
     ((''schema'', the (fm_schema f)) # (case fm_ui f of None \<Rightarrow> [] | Some ui \<Rightarrow> [(''ui'', ui)]))"

fun freeze_forms :: "service \<Rightarrow> (nat \<Rightarrow> uid \<Rightarrow> svc_err + Form) \<Rightarrow> uid list \<Rightarrow> gomap \<Rightarrow> gomap svc" where
  "freeze_forms sv get [] snap = ret (Inr snap)"
| "freeze_forms sv get (i # ids) snap = do {
     t \<leftarrow> tick;
     case get t i of
       Inl e \<Rightarrow> ret (Inl (Invalid (''snapshot form '' @ quoted i @ '': '' @ svc_text sv e)))
     | Inr f \<Rightarrow>
         if fm_schema f = None then ret (Inl (Invalid (''snapshot form '' @ quoted i @ '' has no schema'')))
         else freeze_forms sv get ids (map_put i (formSnapshotEntry f) snap)
   }"

definition snapshot_forms :: "service \<Rightarrow> WorkflowContent \<Rightarrow> raw svc" where
  "snapshot_forms sv wc =
     (case sv_forms sv of
        None \<Rightarrow> ret (Inl (Invalid ''snapshot_forms requires a form repository''))
      | Some get \<Rightarrow>
          andThen (do { t \<leftarrow> tick; ret (sv_materialize sv t wc) }) (\<lambda>mat.
          let ids = collectFormIDs (wNodes mat)
          in andThen (ensureFormsExist get ids) (\<lambda>_.
             if ids = [] then ret (Inr None)
             else andThen (freeze_forms sv get ids []) (\<lambda>snap.
               ret (case marshal (JObj snap) of
                      Inl _ \<Rightarrow> Inl (Failed (EWrap ''snapshot forms'' EJson)) | Inr r \<Rightarrow> Inr r)))))"

definition new_instance ::
  "uid \<Rightarrow> uid \<Rightarrow> string \<Rightarrow> bool \<Rightarrow> WorkflowStatus \<Rightarrow> Frame \<Rightarrow> raw \<Rightarrow> raw \<Rightarrow> uid option \<Rightarrow> uid \<Rightarrow> time \<Rightarrow>
   WorkflowInstanceModel" where
  "new_instance i defID mode debug status frame ctxRaw forms source actor now =
     \<lparr>wm_id = i, wm_definition = defID, wm_context_mode = mode, wm_debug = debug, wm_status = status,
      wm_reason = ReasonRunnable, wm_pause_requested = False, wm_termination_pending = False,
      wm_current_group = None, wm_current_node = None, wm_frame = Some (FrameJSON frame), wm_context = ctxRaw,
      wm_counters = Some (CountersJSON zero_counters), wm_form_snapshot = forms, wm_migrated_from = source,
      wm_superseded_by = None, wm_revision = 0, wm_leased_by = [], wm_lease_expiry = None, wm_run_at = None,
      wm_error = [], wm_started_at = None, wm_finished_at = None, wm_created_by = actor,
      wm_updated_by = actor, wm_created_at = now, wm_updated_at = now\<rparr>"

text \<open>The context a create request brings: absent or null is the empty object.\<close>

definition request_object :: "raw \<Rightarrow> svc_err + gomap" where
  "request_object r =
     (case r of
        None \<Rightarrow> Inr []
      | Some JNull \<Rightarrow> Inr []
      | Some (JObj m) \<Rightarrow> Inr m
      | Some _ \<Rightarrow> Inl (Invalid ''context must be a JSON object''))"

definition created_context :: "service \<Rightarrow> CreateInstance \<Rightarrow> raw svc" where
  "created_context sv req =
     andThen (ret (request_object (ci_context req))) (\<lambda>body. do {
       env \<leftarrow> env_snapshot sv;
       andThen (secret_snapshot sv) (\<lambda>ss. ret (encode_context (with_reserved sv env ss body)))
     })"

definition store_created ::
  "service \<Rightarrow> CreateInstance \<Rightarrow> WorkflowDefinition \<Rightarrow> WorkflowInstanceModel \<Rightarrow> WorkflowInstanceModel svc" where
  "store_created sv req def w =
     andThen (passing (writes (Insert w))) (\<lambda>_.
     andThen (if leanMode w then append_history sv (leanAnchorRow (wm_id w) (wm_context w)) else ret (Inr ()))
       (\<lambda>_. do {
         i \<leftarrow> mustNewID sv;
         _ \<leftarrow> call (writes (AppendEvent (event_row i (wm_id w) ''instance_created''
                (createdEventData (wd_id def) (ci_debug req)) (wm_created_by w) (wm_created_at w))));
         ret (Inr w)
       }))"

definition svc_Create :: "service \<Rightarrow> CreateInstance \<Rightarrow> WorkflowInstanceModel svc" where
  "svc_Create sv req =
     andThen (check (\<not> trimmed_empty (ci_definition req)) (Invalid ''workflow_definition_id is required'')) (\<lambda>_.
     andThen (do { t \<leftarrow> tick; ret (sv_definition sv t (ci_definition req)) }) (\<lambda>def.
     andThen (ret (case sv_parse sv (wd_content def) of Inl m \<Rightarrow> Inl (Invalid m) | Inr wc \<Rightarrow> Inr wc)) (\<lambda>wc.
     andThen (created_context sv req) (\<lambda>ctxRaw. do {
       now \<leftarrow> svc_now sv;
       i \<leftarrow> mustNewID sv;
       let w = new_instance i (wd_id def) (context_mode sv wc) (ci_debug req)
                 (if ci_debug req then WorkflowPaused else WorkflowWaiting) (NewFrame (wStartNodeID wc))
                 ctxRaw None None (actorOrDefault sv (ci_actor req)) now;
       andThen (if ci_snapshot_forms req then snapshot_forms sv wc else ret (Inr None)) (\<lambda>forms.
         store_created sv req def (w\<lparr>wm_form_snapshot := forms\<rparr>))
     }))))"

section \<open>Replacing the context\<close>

record UpdateContext =
  uc_instance :: uid
  uc_context :: raw
  uc_reason :: string
  uc_principal :: "Principal option"
  uc_actor :: uid

definition not_object :: svc_err where
  "not_object = Invalid ''context must be a JSON object''"

text \<open>The stored environment and secrets; a missing instance has none, and is refused later.\<close>

definition stored_roots :: "WorkflowInstanceModel option \<Rightarrow> svc_err + json option \<times> secrets" where
  "stored_roots cur =
     (case cur of
        None \<Rightarrow> Inr (None, [])
      | Some m \<Rightarrow>
          (case decodeContextObject (wm_context m) of
             None \<Rightarrow> Inl (Conflict ''stored context is invalid'')
           | Some body \<Rightarrow>
               (case secretValuesFromObject body of
                  None \<Rightarrow> Inl (Conflict ''stored secret snapshot is invalid'')
                | Some ss \<Rightarrow> Inr (map_of body ''env'', ss))))"

definition find_current :: "uid \<Rightarrow> WorkflowInstanceModel option svc" where
  "find_current i = do {
     r \<leftarrow> call (reads (GetByID i));
     ret (case r of
       Inl e \<Rightarrow> if is_repo ErrInstanceNotFound e then Inr None else Inl (Failed e)
     | Inr m \<Rightarrow> Inr (Some m))
   }"

definition replace_context :: "service \<Rightarrow> UpdateContext \<Rightarrow> raw \<Rightarrow> WorkflowInstanceModel svc" where
  "replace_context sv req ctxRaw = do {
     now \<leftarrow> svc_now sv;
     r \<leftarrow> call (ReplaceContext (sv_rt sv) now
            \<lparr>cu_instance = uc_instance req, cu_context = ctxRaw,
             cu_actor = requestActor sv (uc_principal req) (uc_actor req), cu_reason = uc_reason req\<rparr>);
     ret (case r of
       Inl e \<Rightarrow> Inl (if is_repo ErrInstanceNotFound e then NotFound (''instance '' @ uc_instance req)
                   else if is_repo ErrStatusConflict e
                   then Conflict (''instance '' @ uc_instance req @ '' is not paused'') else Failed e)
     | Inr m \<Rightarrow> Inr m)
   }"

text \<open>In lean mode the new context becomes an anchor of the history.\<close>

definition svc_UpdateContext :: "service \<Rightarrow> UpdateContext \<Rightarrow> WorkflowInstanceModel svc" where
  "svc_UpdateContext sv req =
     andThen (check (\<not> trimmed_empty (uc_instance req)) (Invalid ''instance id is required'')) (\<lambda>_.
     andThen (ret (case uc_context req of Some (JObj m) \<Rightarrow> Inr m | _ \<Rightarrow> Inl not_object)) (\<lambda>body.
     andThen (find_current (uc_instance req)) (\<lambda>cur.
     andThen (ret (stored_roots cur)) (\<lambda>(env, ss).
     andThen (ret (encode_context (with_reserved sv (toStringMap env) ss body))) (\<lambda>ctxRaw.
     andThen (authorize cur (requestPrincipal sv (uc_principal req))) (\<lambda>_.
     andThen (replace_context sv req ctxRaw) (\<lambda>inst.
       if leanMode inst then
         andThen (append_history sv (leanAnchorRow (wm_id inst) ctxRaw)) (\<lambda>_.
         andThen (passing (reads (GetByID (uc_instance req)))) (\<lambda>updated.
           ret (Inr (redactInstanceView (sv_range sv) updated))))
       else ret (Inr (redactInstanceView (sv_range sv) inst)))))))))"

section \<open>Control calls\<close>

record ControlRequest =
  co_instance :: uid
  co_reason :: string
  co_principal :: "Principal option"
  co_actor :: uid

record ControlResult =
  ct_status :: WorkflowStatus
  ct_pause_requested :: bool
  ct_termination_pending :: bool

definition now_in :: "WorkflowStatus \<Rightarrow> ControlResult" where
  "now_in st = \<lparr>ct_status = st, ct_pause_requested = False, ct_termination_pending = False\<rparr>"

definition is_terminal :: "uid \<Rightarrow> svc_err" where
  "is_terminal i = Conflict (''instance '' @ i @ '' is terminal'')"

text \<open>A status conflict of the repository is a terminal instance.\<close>

definition controlling :: "uid \<Rightarrow> go_err + 'a \<Rightarrow> svc_err + 'a" where
  "controlling i r =
     (case r of
        Inl e \<Rightarrow> Inl (if is_repo ErrStatusConflict e then is_terminal i else Failed e)
      | Inr x \<Rightarrow> Inr x)"

text \<open>The instance of a control request, once its caller may touch it.\<close>

definition controlled :: "service \<Rightarrow> ControlRequest \<Rightarrow> WorkflowInstanceModel svc" where
  "controlled sv req =
     andThen (load_instance sv (co_instance req)) (\<lambda>m.
     andThen (authorize (Some m) (requestPrincipal sv (co_principal req))) (\<lambda>_. ret (Inr m)))"

abbreviation control_actor :: "service \<Rightarrow> ControlRequest \<Rightarrow> uid" where
  "control_actor sv req \<equiv> requestActor sv (co_principal req) (co_actor req)"

definition svc_Pause :: "service \<Rightarrow> ControlRequest \<Rightarrow> ControlResult svc" where
  "svc_Pause sv req =
     (let i = co_instance req
      in andThen (controlled sv req) (\<lambda>m.
         if wm_status m = WorkflowPaused then ret (Inr (now_in WorkflowPaused))
         else if wm_status m \<in> {WorkflowFinished, WorkflowFailed, WorkflowStopped} then ret (Inl (is_terminal i))
         else andThen (do { now \<leftarrow> svc_now sv; r \<leftarrow> call (Pause (sv_rt sv) now i); ret (controlling i r) }) (\<lambda>deferred.
           if deferred then do {
             record_event sv i ''pause_requested'' [] (control_actor sv req);
             ret (Inr ((now_in WorkflowRunning)\<lparr>ct_pause_requested := True\<rparr>))
           } else do {
             record_event sv i ''paused'' [] (control_actor sv req);
             ret (Inr (now_in WorkflowPaused))
           })))"

section \<open>Resuming\<close>

text \<open>The depth of an execution, 0 for one not listed.\<close>

definition depth_in :: "ParallelExecutionModel list \<Rightarrow> uid \<Rightarrow> int" where
  "depth_in exs x = (case map_of (map (\<lambda>e. (xm_id e, xm_depth e)) (rev exs)) x of None \<Rightarrow> 0 | Some n \<Rightarrow> n)"

definition debugPickBefore ::
  "(uid \<Rightarrow> int) \<Rightarrow> ParallelBranchModel \<Rightarrow> ParallelBranchModel \<Rightarrow> bool" where
  "debugPickBefore depth b pick =
     (if depth (bm_execution b) \<noteq> depth (bm_execution pick) then depth (bm_execution b) < depth (bm_execution pick)
      else if bm_index b \<noteq> bm_index pick then bm_index b < bm_index pick
      else if bm_created_at b \<noteq> bm_created_at pick then bm_created_at b < bm_created_at pick
      else bm_id b < bm_id pick)"

definition in_flight :: "ParallelBranchModel \<Rightarrow> bool" where
  "in_flight b \<longleftrightarrow> bm_status b = BranchRunning \<or> bm_status b = BranchWaiting \<and> bm_reason b = ReasonRunnable"

definition step_paused :: "ParallelBranchModel \<Rightarrow> bool" where
  "step_paused b \<longleftrightarrow> bm_status b = BranchWaiting \<and> bm_reason b = ReasonPaused"

text \<open>The branches of one execution: a step in flight is a conflict, else the pick so far.\<close>

fun pick_branch ::
  "(uid \<Rightarrow> int) \<Rightarrow> ParallelBranchModel list \<Rightarrow> ParallelBranchModel option \<Rightarrow>
   svc_err + ParallelBranchModel option" where
  "pick_branch depth [] pick = Inr pick"
| "pick_branch depth (b # bs) pick =
     (if in_flight b then Inl (Conflict (''branch '' @ quoted (bm_name b) @ '' has a step in flight''))
      else pick_branch depth bs
        (if step_paused b \<and> (case pick of None \<Rightarrow> True | Some p \<Rightarrow> debugPickBefore depth b p)
         then Some b else pick))"

fun pick_all ::
  "(uid \<Rightarrow> int) \<Rightarrow> ParallelExecutionModel list \<Rightarrow> ParallelBranchModel option \<Rightarrow>
   ParallelBranchModel option svc" where
  "pick_all depth [] pick = ret (Inr pick)"
| "pick_all depth (x # xs) pick =
     andThen (passing (\<lambda>d. Inr (ListBranches (xm_id x) d, d))) (\<lambda>bs.
     andThen (ret (pick_branch depth bs pick)) (\<lambda>pick'. pick_all depth xs pick'))"

definition wake_pick :: "service \<Rightarrow> ParallelBranchModel \<Rightarrow> unit svc" where
  "wake_pick sv b = do {
     t \<leftarrow> tick;
     r \<leftarrow> call (writes (WakePausedBranch (sv_dbclock sv t) (bm_id b)));
     ret (case r of
       Inl e \<Rightarrow> Inl (if is_repo ErrStatusConflict e \<or> is_repo ErrParallelBranchNotFound e
                   then Conflict (''branch '' @ quoted (bm_name b) @ '' is no longer paused'') else Failed e)
     | Inr _ \<Rightarrow> Inr ())
   }"

definition resumeDebugStep :: "service \<Rightarrow> WorkflowInstanceModel \<Rightarrow> uid \<Rightarrow> ControlResult option svc" where
  "resumeDebugStep sv m actor =
     andThen (passing (\<lambda>d. Inr (ListExecutions (wm_id m) d, d))) (\<lambda>exs.
     andThen (pick_all (depth_in exs) exs None) (\<lambda>pick.
       case pick of
         None \<Rightarrow> ret (Inr None)
       | Some b \<Rightarrow>
           andThen (wake_pick sv b) (\<lambda>_. do {
             record_event sv (wm_id m) ''parallel_branch_resumed'' (obj
               [(''branch_id'', JStr (bm_id b)), (''parallel_execution_id'', JStr (bm_execution b)),
                (''branch_name'', JStr (bm_name b)), (''branch_index'', JInt (bm_index b)),
                (''start_node_id'', JStr (bm_start_node b))]) actor;
             ret (Inr (Some (now_in (wm_status m))))
           })))"

definition steps_branches :: "WorkflowInstanceModel \<Rightarrow> bool" where
  "steps_branches m \<longleftrightarrow> wm_debug m \<and>
     (wm_status m = WorkflowPaused \<or> wm_status m = WorkflowWaiting \<and> wm_reason m = ReasonParallel)"

text \<open>The result of a resume is always \<open>waiting\<close>, also for a running instance.\<close>

definition resume_instance :: "service \<Rightarrow> ControlRequest \<Rightarrow> WorkflowInstanceModel \<Rightarrow> ControlResult svc" where
  "resume_instance sv req m =
     (let i = co_instance req
      in if wm_status m = WorkflowWaiting then ret (Inr (now_in WorkflowWaiting))
         else if wm_status m \<in> {WorkflowFinished, WorkflowFailed, WorkflowStopped} then ret (Inl (is_terminal i))
         else andThen (do { now \<leftarrow> svc_now sv; r \<leftarrow> call (writes (Resume (sv_rt sv) now i)); ret (controlling i r) }) (\<lambda>_. do {
           record_event sv i (if wm_status m = WorkflowRunning then ''resume'' else ''resumed'') [] (control_actor sv req);
           ret (Inr (now_in WorkflowWaiting))
         }))"

definition svc_Resume :: "service \<Rightarrow> ControlRequest \<Rightarrow> ControlResult svc" where
  "svc_Resume sv req =
     andThen (controlled sv req) (\<lambda>m.
       if steps_branches m then
         andThen (resumeDebugStep sv m (control_actor sv req)) (\<lambda>stepped.
           case stepped of Some c \<Rightarrow> ret (Inr c) | None \<Rightarrow> resume_instance sv req m)
       else resume_instance sv req m)"

section \<open>Stopping\<close>

text \<open>
  The second component says whether the local in-flight transition of the instance is
  cancelled (\<open>Canceller\<close>, when one is installed).
\<close>

definition svc_Stop :: "service \<Rightarrow> ControlRequest \<Rightarrow> (ControlResult \<times> bool) svc" where
  "svc_Stop sv req =
     (let i = co_instance req
      in andThen (controlled sv req) (\<lambda>m.
         if wm_status m = WorkflowStopped
         then ret (Inr ((now_in WorkflowStopped)\<lparr>ct_termination_pending := wm_termination_pending m\<rparr>, False))
         else if wm_status m \<in> {WorkflowFinished, WorkflowFailed} then ret (Inl (is_terminal i))
         else andThen (do { now \<leftarrow> svc_now sv; r \<leftarrow> call (Stop (sv_rt sv) now i (co_reason req)); ret (controlling i r) })
           (\<lambda>pending. do {
             record_event sv i ''stop'' [(''reason'', JStr (co_reason req))] (control_actor sv req);
             _ \<leftarrow> (if pending then ret (Inr ())
                  else do { now \<leftarrow> svc_now sv; call (always (StopRunningAttempts now i)) });
             ret (Inr ((now_in WorkflowStopped)\<lparr>ct_termination_pending := pending\<rparr>, pending))
           })))"

end
