(* ===== verification/ServiceViews.thy ===== *)
theory ServiceViews
  imports Service
begin

text \<open>
  The read side of \<open>service/instance.go\<close>: the status view with the occurrence of every
  node, the parallel tree and the pending input, and the debug view of one occurrence.
\<close>

section \<open>Nodes of a definition\<close>

text \<open>\<open>findNode\<close>, which \<open>contentGraph.Node\<close> repeats: the first node with the id, depth first.\<close>

function findNode :: "NodeContent list \<Rightarrow> uid \<Rightarrow> NodeContent option" where
  "findNode [] i = None"
| "findNode (n # ns) i =
     (if node_id n = i then Some n
      else case group_of n of
        None \<Rightarrow> findNode ns i
      | Some g \<Rightarrow> (case findNode (gNodes g) i of Some m \<Rightarrow> Some m | None \<Rightarrow> findNode ns i))"
  by pat_completeness auto
termination
  by (relation "measure (\<lambda>(ns, i). size_list size ns)")
    (auto dest!: size_group_nodes [rotated, of _ _ "_ # _"])

declare findNode.simps [simp del]

definition unknown_node :: "uid \<Rightarrow> string" where
  "unknown_node i = ''service: unknown node '' @ quoted i @ '' in workflow graph''"

definition content_node :: "WorkflowContent \<Rightarrow> uid \<Rightarrow> svc_err + NodeContent" where
  "content_node wc i =
     (case findNode (wNodes wc) i of None \<Rightarrow> Inl (Failed (EText (unknown_node i))) | Some n \<Rightarrow> Inr n)"

definition flattenNodeMap :: "NodeContent list \<Rightarrow> (uid \<times> NodeContent) list" where
  "flattenNodeMap ns = fold (\<lambda>n m. map_put (node_id n) n m) (forest_nodes ns) []"

section \<open>History of lean instances\<close>

definition mapHistoryError :: "service \<Rightarrow> go_err \<Rightarrow> svc_err" where
  "mapHistoryError sv e =
     (if is_repo ErrHistoryGap e \<or> is_repo ErrHistoryTooDeep e
      then Conflict (error_text (sv_leaf_text sv) e) else Failed e)"

definition for_occurrence :: "uid \<Rightarrow> int \<Rightarrow> NodeContextHistoryModel \<Rightarrow> bool" where
  "for_occurrence occ attempt h \<longleftrightarrow>
     \<not> hm_superseded h \<and> hm_occurrence h = occ \<and> \<not> (attempt > 0 \<and> hm_attempt h \<noteq> attempt)"

definition leanHistoryCursorForOccurrence ::
  "NodeContextHistoryModel list \<Rightarrow> uid \<Rightarrow> int \<Rightarrow> HistoryCursor option" where
  "leanHistoryCursorForOccurrence rows occ attempt = fold (\<lambda>h cursor.
     if \<not> for_occurrence occ attempt h then cursor
     else case cursor of
       None \<Rightarrow> Some (Cursor h)
     | Some c \<Rightarrow> if Before (Cursor h) c then Some (Cursor h) else Some c) rows None"

definition leanOccurrenceSet :: "NodeContextHistoryModel list \<Rightarrow> uid list" where
  "leanOccurrenceSet rows = map hm_occurrence (filter (\<lambda>h. \<not> hm_superseded h \<and> hm_occurrence h \<noteq> []) rows)"

definition load_history :: "uid \<Rightarrow> NodeContextHistoryModel list svc" where
  "load_history i = passing (\<lambda>d. Inr (LoadHistory i d, d))"

definition leanReconstructBefore :: "service \<Rightarrow> uid \<Rightarrow> HistoryCursor \<Rightarrow> raw svc" where
  "leanReconstructBefore sv i target = do {
     r \<leftarrow> call (reads (ReconstructBefore (sv_replay_max sv) i target (Some (JObj []))));
     ret (case r of Inl e \<Rightarrow> Inl (mapHistoryError sv e) | Inr x \<Rightarrow> Inr x)
   }"

definition validateRestoredObject :: "raw \<Rightarrow> gomap option" where
  "validateRestoredObject r = (case r of Some (JObj m) \<Rightarrow> Some m | _ \<Rightarrow> None)"

section \<open>Rollback targets\<close>

definition hasLiveExecution :: "ParallelExecutionModel list \<Rightarrow> bool" where
  "hasLiveExecution exs \<longleftrightarrow> list_ex (\<lambda>x. xm_status x \<notin>
     {ParallelExecutionCompleted, ParallelExecutionFailed, ParallelExecutionCancelled}) exs"

definition restorableContext :: "raw \<Rightarrow> bool" where
  "restorableContext r = (case r of Some (JObj m) \<Rightarrow> True | _ \<Rightarrow> False)"

definition terminal_occurrence :: "NodeType \<Rightarrow> NodeInstanceModel \<Rightarrow> bool" where
  "terminal_occurrence typ occ \<longleftrightarrow>
     typ \<noteq> NTGroup \<and> strVal (nm_branch occ) = [] \<and> nm_status occ \<in> {NodeFinished, NodeFailed, NodeStopped}"

definition leanRollbackableOccurrence :: "NodeType \<Rightarrow> NodeInstanceModel \<Rightarrow> uid list \<Rightarrow> bool" where
  "leanRollbackableOccurrence typ occ occs \<longleftrightarrow> terminal_occurrence typ occ \<and> nm_id occ \<in> set occs"

definition rollbackableOccurrence :: "NodeType \<Rightarrow> NodeInstanceModel \<Rightarrow> bool" where
  "rollbackableOccurrence typ occ \<longleftrightarrow> terminal_occurrence typ occ \<and> restorableContext (nm_context_before occ)"

section \<open>The status view\<close>

record NodeOccurrence =
  no_occurrence :: "uid option"
  no_status :: string
  no_attempt :: "int option"
  no_rollbackable :: bool

definition not_started :: NodeOccurrence where
  "not_started = \<lparr>no_occurrence = None, no_status = ''not_started'', no_attempt = None, no_rollbackable = False\<rparr>"

text \<open>The occurrence shown for a node is the last of the listing; \<open>lean\<close> is \<open>None\<close> outside lean mode.\<close>

definition occurrence_view ::
  "bool \<Rightarrow> uid list option \<Rightarrow> NodeInstanceModel list \<Rightarrow> NodeContent \<Rightarrow> NodeOccurrence" where
  "occurrence_view gate lean_set occs n =
     (case find (\<lambda>o'. nm_node o' = node_id n) (rev occs) of
        None \<Rightarrow> not_started
      | Some occ \<Rightarrow>
          \<lparr>no_occurrence = Some (nm_id occ), no_status = node_str (nm_status occ), no_attempt = Some (nm_attempt occ),
           no_rollbackable = (gate \<and>
             (case lean_set of
                Some s \<Rightarrow> leanRollbackableOccurrence (node_type n) occ s
              | None \<Rightarrow> rollbackableOccurrence (node_type n) occ))\<rparr>)"

definition rollback_gate :: "WorkflowInstanceModel \<Rightarrow> ParallelExecutionModel list option \<Rightarrow> bool" where
  "rollback_gate m exs \<longleftrightarrow>
     wm_status m \<in> {WorkflowPaused, WorkflowFailed} \<and> \<not> wm_termination_pending m \<and>
     \<not> (case exs of None \<Rightarrow> False | Some xs \<Rightarrow> hasLiveExecution xs)"

definition lean_set_of :: "WorkflowInstanceModel \<Rightarrow> bool \<Rightarrow> uid list option step" where
  "lean_set_of m gate =
     (if leanMode m \<and> gate then do {
        r \<leftarrow> load_history (wm_id m);
        ret (case r of Inl _ \<Rightarrow> None | Inr rows \<Rightarrow> Some (leanOccurrenceSet rows))
      } else ret None)"

definition statusNodes ::
  "WorkflowInstanceModel \<Rightarrow> WorkflowContent option \<Rightarrow> ParallelExecutionModel list option \<Rightarrow>
   (uid \<times> NodeOccurrence) list option step" where
  "statusNodes m wc exs =
     (case wc of
        None \<Rightarrow> ret None
      | Some c \<Rightarrow>
          if wNodes c = [] then ret None
          else do {
            r \<leftarrow> call (\<lambda>d. Inr (ListNodeInstances (wm_id m) d, d));
            case r of
              Inl _ \<Rightarrow> ret None
            | Inr occs \<Rightarrow> do {
                s \<leftarrow> lean_set_of m (rollback_gate m exs);
                ret (Some (map (\<lambda>(i, n). (i, occurrence_view (rollback_gate m exs) s occs n))
                  (flattenNodeMap (wNodes c))))
              }
          })"

record ParallelBranchView =
  bv_id :: uid
  bv_name :: string
  bv_index :: int
  bv_start :: uid
  bv_status :: string
  bv_reason :: string
  bv_error :: string
  bv_updated_at :: time

record ParallelExecutionView =
  xv_id :: uid
  xv_parent :: "uid option"
  xv_depth :: int
  xv_start :: uid
  xv_end :: uid
  xv_status :: string
  xv_count :: int
  xv_completed :: int
  xv_branches :: "ParallelBranchView list"

definition branch_view :: "ParallelBranchModel \<Rightarrow> ParallelBranchView" where
  "branch_view b = \<lparr>bv_id = bm_id b, bv_name = bm_name b, bv_index = bm_index b, bv_start = bm_start_node b,
     bv_status = branch_str (bm_status b), bv_reason = reason_str (bm_reason b), bv_error = bm_error b,
     bv_updated_at = bm_updated_at b\<rparr>"

definition execution_view :: "(uid \<Rightarrow> ParallelBranchModel list) \<Rightarrow> ParallelExecutionModel \<Rightarrow> ParallelExecutionView" where
  "execution_view branches_of x =
     \<lparr>xv_id = xm_id x, xv_parent = xm_parent_branch x, xv_depth = xm_depth x, xv_start = xm_start_node x,
      xv_end = xm_end_node x, xv_status = execution_str (xm_status x), xv_count = xm_branch_count x,
      xv_completed = xm_completed_count x, xv_branches = map branch_view (branches_of (xm_id x))\<rparr>"

definition statusParallel ::
  "ParallelExecutionModel list \<Rightarrow> (uid \<Rightarrow> ParallelBranchModel list) \<Rightarrow> ParallelExecutionView list" where
  "statusParallel exs branches_of = map (execution_view branches_of) exs"

text \<open>
  \<open>ListBranchesByExecutionIDs\<close> of \<open>repository/parallel.go\<close>: one query, grouped by execution.
\<close>

definition ListBranchesByExecutionIDs :: "uid list \<Rightarrow> db \<Rightarrow> uid \<Rightarrow> ParallelBranchModel list" where
  "ListBranchesByExecutionIDs ids d = (\<lambda>x.
     filter (\<lambda>b. bm_execution b = x) (order_by (\<lambda>b. (bm_execution b, bm_index b))
       (filter (\<lambda>b. bm_execution b \<in> set ids) (branches d))))"

record SnapshotForm =
  sf_schema :: raw
  sf_ui :: raw

record PendingInput =
  pi_node :: uid
  pi_channel :: string
  pi_output :: string
  pi_form_id :: uid
  pi_form :: "SnapshotForm option"
  pi_allowed :: "string list"
  pi_record_actor :: bool
  pi_public :: bool

definition form_entry :: "json \<Rightarrow> SnapshotForm option" where
  "form_entry v =
     (case v of
        JObj m \<Rightarrow> Some \<lparr>sf_schema = map_of m ''schema'', sf_ui = map_of m ''ui''\<rparr>
      | JNull \<Rightarrow> Some \<lparr>sf_schema = None, sf_ui = None\<rparr>
      | _ \<Rightarrow> None)"

text \<open>A corrupt snapshot is no snapshot.\<close>

definition parseFormSnapshot :: "raw \<Rightarrow> (uid \<times> SnapshotForm) list" where
  "parseFormSnapshot r =
     (case r of
        Some (JObj m) \<Rightarrow>
          if list_all (\<lambda>(_, v). form_entry v \<noteq> None) m then map (\<lambda>(k, v). (k, the (form_entry v))) m else []
      | _ \<Rightarrow> [])"

definition output_key :: "NodeContent \<Rightarrow> string" where
  "output_key n =
     (if trim_space (nOutputProperty (nfields n)) = [] then node_id n else trim_space (nOutputProperty (nfields n)))"

definition pendingInput :: "WorkflowContent option \<Rightarrow> WorkflowInstanceModel \<Rightarrow> uid \<Rightarrow> PendingInput option" where
  "pendingInput wc m current =
     (if wm_status m \<noteq> WorkflowWaiting \<or> wm_reason m \<noteq> ReasonInput then None
      else case wc of
        None \<Rightarrow> None
      | Some c \<Rightarrow>
          (case content_node c current of
             Inl _ \<Rightarrow> None
           | Inr n \<Rightarrow>
               if node_type n \<noteq> NTInput then None
               else let f = nfields n in Some
                 \<lparr>pi_node = node_id n, pi_channel = nChannel f, pi_output = output_key n, pi_form_id = nFormID f,
                  pi_form = (if nFormID f \<noteq> [] \<and> wm_form_snapshot m \<noteq> None
                    then map_of (parseFormSnapshot (wm_form_snapshot m)) (nFormID f) else None),
                  pi_allowed = nAllowedRoles f, pi_record_actor = nRecordActor f, pi_public = nPublic f\<rparr>))"

record StatusDetail =
  sd_instance :: WorkflowInstanceModel
  sd_occurrence :: "uid option"
  sd_attempt :: int
  sd_nodes :: "(uid \<times> NodeOccurrence) list option"
  sd_pending :: "PendingInput option"
  sd_parallel :: "ParallelExecutionView list"

definition svc_GetStatus :: "service \<Rightarrow> uid \<Rightarrow> Principal \<Rightarrow> WorkflowInstanceModel svc" where
  "svc_GetStatus sv i p =
     andThen (passing (reads (GetByID i))) (\<lambda>m.
     andThen (authorize (Some m) p) (\<lambda>_. ret (Inr (redactInstanceView (sv_range sv) m))))"

definition svc_GetContext :: "service \<Rightarrow> uid \<Rightarrow> Principal \<Rightarrow> WorkflowInstanceModel svc" where
  "svc_GetContext sv i p =
     andThen (passing (reads (GetByID i))) (\<lambda>m.
     andThen (authorize (Some m) p) (\<lambda>_. ret (Inr (redactInstanceView (sv_range sv) m))))"

text \<open>The executions of an instance with their branches; \<open>None\<close> where a load failed.\<close>

definition load_parallel ::
  "uid \<Rightarrow> (ParallelExecutionModel list option \<times> (uid \<Rightarrow> ParallelBranchModel list) option) step" where
  "load_parallel i = do {
     r \<leftarrow> call (\<lambda>d. Inr (ListExecutions i d, d));
     case r of
       Inl _ \<Rightarrow> ret (None, None)
     | Inr exs \<Rightarrow>
         if exs = [] then ret (Some exs, Some (\<lambda>_. []))
         else do {
           b \<leftarrow> call (\<lambda>d. Inr (ListBranchesByExecutionIDs (map xm_id exs) d, d));
           ret (Some exs, case b of Inl _ \<Rightarrow> None | Inr f \<Rightarrow> Some f)
         }
   }"

definition with_cursor :: "WorkflowContent option \<Rightarrow> WorkflowInstanceModel \<Rightarrow> StatusDetail \<Rightarrow> StatusDetail step" where
  "with_cursor wc m d =
     (case ParseFrame (wm_frame m) of
        Inl _ \<Rightarrow> ret d
      | Inr frame \<Rightarrow>
          if CurrentNodeID frame = [] then ret d
          else do {
            r \<leftarrow> call (reads (GetNodeInstanceByNode (wm_id m) (CurrentNodeID frame)));
            ret (case r of
              Inl _ \<Rightarrow> d
            | Inr a \<Rightarrow> d\<lparr>sd_occurrence := Some (nm_id a), sd_attempt := nm_attempt a,
                sd_pending := pendingInput wc m (CurrentNodeID frame)\<rparr>)
          })"

definition svc_GetStatusDetail :: "service \<Rightarrow> uid \<Rightarrow> Principal \<Rightarrow> StatusDetail svc" where
  "svc_GetStatusDetail sv i p =
     andThen (passing (reads (GetByID i))) (\<lambda>m.
     andThen (authorize (Some m) p) (\<lambda>_. do {
       t \<leftarrow> tick;
       let wc = (case sv_resolve sv t (wm_definition m) of Inl _ \<Rightarrow> None | Inr c \<Rightarrow> Some c);
       (exs, bs) \<leftarrow> load_parallel (wm_id m);
       nodes \<leftarrow> statusNodes m wc exs;
       d \<leftarrow> with_cursor wc m
         \<lparr>sd_instance = redactInstanceView (sv_range sv) m, sd_occurrence = None, sd_attempt = 0, sd_nodes = nodes,
          sd_pending = None,
          sd_parallel = (case (exs, bs) of (Some xs, Some f) \<Rightarrow> statusParallel xs f | _ \<Rightarrow> [])\<rparr>;
       ret (Inr d)
     }))"

section \<open>The debug view\<close>

record DebugView =
  dv_occurrence :: uid
  dv_source :: uid
  dv_name :: string
  dv_type :: string
  dv_selected :: "int option"
  dv_latest :: "int option"
  dv_count :: int
  dv_status :: string
  dv_secret :: NodeDebugDetail
  dv_cancelled :: bool
  dv_started_at :: "time option"
  dv_finished_at :: "time option"
  dv_stopped_at :: "time option"
  dv_duration_ms :: "int option"
  dv_created_at :: time
  dv_updated_at :: time

definition nullableString :: "string \<Rightarrow> string option" where
  "nullableString s = (if s = [] then None else Some s)"

definition no_such_node :: "uid \<Rightarrow> uid \<Rightarrow> svc_err" where
  "no_such_node node i = NotFound (''node '' @ quoted node @ '' does not exist in instance '' @ i)"

text \<open>A node id, or else the id of an occurrence; a node that never ran has no occurrence.\<close>

definition debug_target :: "WorkflowContent \<Rightarrow> uid \<Rightarrow> uid \<Rightarrow> (NodeContent \<times> NodeInstanceModel option) svc" where
  "debug_target wc i node =
     (case content_node wc node of
        Inl _ \<Rightarrow> do {
          r \<leftarrow> call (reads (GetNodeInstance i node));
          ret (case r of
            Inl _ \<Rightarrow> Inl (no_such_node node i)
          | Inr occ \<Rightarrow>
              (case content_node wc (nm_node occ) of
                 Inl _ \<Rightarrow> Inl (no_such_node node i)
               | Inr n \<Rightarrow> Inr (n, Some occ)))
        }
      | Inr n \<Rightarrow> do {
          r \<leftarrow> call (reads (GetNodeInstanceByNode i (node_id n)));
          ret (case r of
            Inl e \<Rightarrow> if is_repo ErrNodeInstanceNotFound e then Inr (n, None) else Inl (Failed e)
          | Inr occ \<Rightarrow> Inr (n, Some occ))
        })"

definition no_history :: "uid \<Rightarrow> svc_err" where
  "no_history occ = Conflict (''occurrence '' @ quoted occ @ '' has no history'')"

text \<open>The context after a history row, given the one before it.\<close>

definition row_after :: "raw \<Rightarrow> NodeContextHistoryModel \<Rightarrow> svc_err + raw" where
  "row_after before h =
     (if hm_is_anchor h then
        (case validateRestoredObject (hm_snapshot h) of
           None \<Rightarrow> Inl (Conflict ''restored context is not a JSON object'')
         | Some _ \<Rightarrow> Inr (hm_snapshot h))
      else case historyDiff (hm_diff h) of
        Inl _ \<Rightarrow> Inl (Conflict ''diff'')
      | Inr df \<Rightarrow>
          (case unmarshalContext before of
             Inl _ \<Rightarrow> Inl (Conflict ''context'')
           | Inr m \<Rightarrow>
               (case Apply m df of
                  Inl _ \<Rightarrow> Inl (Conflict ''apply'')
                | Inr m' \<Rightarrow> (case marshal (JObj m') of Inl e \<Rightarrow> Inl (Conflict e) | Inr r \<Rightarrow> Inr r))))"

text \<open>The selected attempt is not looked at: the earliest row of the occurrence decides.\<close>

definition leanNodeDebugContexts :: "service \<Rightarrow> uid \<Rightarrow> NodeInstanceModel \<Rightarrow> (raw \<times> raw) svc" where
  "leanNodeDebugContexts sv i occ =
     andThen (load_history i) (\<lambda>rows.
       case leanHistoryCursorForOccurrence rows (nm_id occ) 0 of
         None \<Rightarrow> ret (Inl (no_history (nm_id occ)))
       | Some target \<Rightarrow>
           andThen (leanReconstructBefore sv i target) (\<lambda>before.
             ret (case find (\<lambda>h. for_occurrence (nm_id occ) 0 h \<and> Cursor h = target) rows of
               None \<Rightarrow> Inl (no_history (nm_id occ))
             | Some h \<Rightarrow> bindR (row_after before h) (\<lambda>after. Inr (before, after)))))"

definition milliseconds :: "duration \<Rightarrow> int" where
  "milliseconds l = (if l \<ge> 0 then l div 1000000 else - ((- l) div 1000000))"

definition debug_view ::
  "NodeContent \<Rightarrow> NodeInstanceModel \<Rightarrow> int \<Rightarrow> raw \<Rightarrow> raw \<Rightarrow> DebugView" where
  "debug_view n occ selected before after =
     \<lparr>dv_occurrence = nm_id occ, dv_source = nDefinitionID (nfields n), dv_name = nName (nfields n),
      dv_type = type_str (node_type n), dv_selected = Some selected, dv_latest = Some (nm_attempt occ),
      dv_count = nm_attempt occ, dv_status = node_str (nm_status occ),
      dv_secret = \<lparr>nd_context_before = before, nd_context_after = after, nd_input = nm_input occ,
        nd_output = nm_output occ, nd_error = nullableString (nm_error occ),
        nd_policy = nullableString (nm_recovery_policy occ), nd_result = nullableString (nm_recovery_result occ)\<rparr>,
      dv_cancelled = nm_cancelled occ, dv_started_at = nm_started_at occ, dv_finished_at = nm_finished_at occ,
      dv_stopped_at = nm_stopped_at occ,
      dv_duration_ms = (case (nm_started_at occ, nm_finished_at occ) of
        (Some s, Some f) \<Rightarrow> Some (milliseconds (f - s)) | _ \<Rightarrow> None),
      dv_created_at = nm_created_at occ, dv_updated_at = nm_updated_at occ\<rparr>"

text \<open>A node that never ran: no documents, and Go's zero times.\<close>

definition unstarted_view :: "NodeContent \<Rightarrow> DebugView" where
  "unstarted_view n =
     \<lparr>dv_occurrence = node_id n, dv_source = nDefinitionID (nfields n), dv_name = nName (nfields n),
      dv_type = type_str (node_type n), dv_selected = None, dv_latest = None, dv_count = 0,
      dv_status = ''not_started'',
      dv_secret = \<lparr>nd_context_before = None, nd_context_after = None, nd_input = None, nd_output = None,
        nd_error = None, nd_policy = None, nd_result = None\<rparr>,
      dv_cancelled = False, dv_started_at = None, dv_finished_at = None, dv_stopped_at = None,
      dv_duration_ms = None, dv_created_at = 0, dv_updated_at = 0\<rparr>"

definition debug_contexts :: "service \<Rightarrow> WorkflowInstanceModel \<Rightarrow> NodeInstanceModel \<Rightarrow> (raw \<times> raw) svc" where
  "debug_contexts sv m occ =
     (if leanMode m then leanNodeDebugContexts sv (wm_id m) occ
      else ret (Inr (nm_context_before occ, nm_context_after occ)))"

definition never_ran :: "int \<Rightarrow> uid \<Rightarrow> int \<Rightarrow> svc_err" where
  "never_ran attempt node latest = NotFound (''attempt '' @ Itoa attempt @ '' of node '' @ quoted node @
     '' never ran (latest '' @ Itoa latest @ '')'')"

definition svc_NodeDebug :: "service \<Rightarrow> uid \<Rightarrow> uid \<Rightarrow> int \<Rightarrow> Principal \<Rightarrow> DebugView svc" where
  "svc_NodeDebug sv i node attempt p =
     andThen (load_instance sv i) (\<lambda>m.
     andThen (authorize (Some m) p) (\<lambda>_.
     andThen (do { t \<leftarrow> tick; ret (sv_definition sv t (wm_definition m)) }) (\<lambda>def.
     andThen (ret (case sv_parse sv (wd_content def) of Inl e \<Rightarrow> Inl (Invalid e) | Inr wc \<Rightarrow> Inr wc)) (\<lambda>wc.
     andThen (debug_target wc i node) (\<lambda>(n, occ).
       case occ of
         None \<Rightarrow> ret (Inr (unstarted_view n))
       | Some o' \<Rightarrow>
           if attempt > nm_attempt o' then ret (Inl (never_ran attempt node (nm_attempt o')))
           else andThen (debug_contexts sv m o') (\<lambda>(before, after).
             let v = debug_view n o' (if attempt \<le> 0 then nm_attempt o' else attempt) before after
             in ret (Inr (v\<lparr>dv_secret := redactNodeDebugSecrets (sv_range sv)
                  (secretValuesFromContext (wm_context m)) (dv_secret v)\<rparr>))))))))"

end
