(* ===== verification/Interior.thy ===== *)
theory Interior
  imports Validate
begin

text \<open>
  \<open>ParallelInterior\<close> of \<open>internal/workflow/model/parallel.go\<close>: the nodes a branch of some
  parallel block can reach before its join. The walk is the one of \<open>walkBranch\<close> without
  its complaints: a cursor that leads nowhere is dropped.
\<close>

text \<open>The closure \<open>advance\<close> of \<open>collectBranch\<close>: the cursors it adds, none or one.\<close>

definition collect_advance :: "parallelTreeIndex \<Rightarrow> NodeContent \<Rightarrow> uid list \<Rightarrow> uid \<Rightarrow> cursor list" where
  "collect_advance idx s stack next =
     (case climb (ix_byID idx) (length (base_of idx (node_id s))) next (rev stack) of
        Inl g \<Rightarrow> []
      | Inr (next', rest) \<Rightarrow> if next' = [] then [] else [(next', rev rest)])"

text \<open>The cursors of a node by its type; \<open>None\<close> is the \<open>continue\<close> at the block's own start.\<close>

definition collect_type_moves :: "parallelTreeIndex \<Rightarrow> NodeContent \<Rightarrow> NodeContent \<Rightarrow> uid list \<Rightarrow> cursor list option" where
  "collect_type_moves idx s nc stack =
     (case node_type nc of
        NTParallelStart \<Rightarrow>
          if node_id nc = node_id s then None else Some [(nParallelEndNodeID (nfields nc), stack)]
      | NTConditions \<Rightarrow> Some (concat (map (\<lambda>c.
          if cond_key c = [] then collect_advance idx s stack []
          else case map_of (scope_keys idx (node_id nc)) (cond_key c) of
            None \<Rightarrow> [] | Some t \<Rightarrow> collect_advance idx s stack t) (nConditions (nfields nc))))
      | NTGroup \<Rightarrow> Some (case group_of nc of None \<Rightarrow> [] | Some g \<Rightarrow> [(gStart g, stack @ [node_id nc])])
      | _ \<Rightarrow> Some (collect_advance idx s stack (nNextNode (nfields nc))))"

definition collect_moves :: "parallelTreeIndex \<Rightarrow> NodeContent \<Rightarrow> NodeContent \<Rightarrow> uid list \<Rightarrow> cursor list" where
  "collect_moves idx s nc stack =
     (case collect_type_moves idx s nc stack of
        None \<Rightarrow> []
      | Some ms \<Rightarrow>
          ms @ (case nOnFailure (nfields nc) of None \<Rightarrow> [] | Some r \<Rightarrow> collect_advance idx s stack (fr_next r)))"

text \<open>The loop over the work list, with fuel; \<open>None\<close> is running out of it.\<close>

fun collect_loop ::
  "nat \<Rightarrow> parallelTreeIndex \<Rightarrow> NodeContent \<Rightarrow> cursor list \<Rightarrow> cursor list \<Rightarrow> uid list \<Rightarrow> uid list option" where
  "collect_loop fuel idx s [] visited interior = Some interior"
| "collect_loop 0 idx s (c # work) visited interior = None"
| "collect_loop (Suc fuel) idx s (c # work) visited interior =
     (if fst c = nParallelEndNodeID (nfields s) \<or> c \<in> set visited then collect_loop fuel idx s work visited interior
      else case ix_byID idx (fst c) of
        None \<Rightarrow> collect_loop fuel idx s work (c # visited) interior
      | Some nc \<Rightarrow>
          let interior' = List.insert (fst c) interior
          in if parallelOpaque nc then collect_loop fuel idx s work (c # visited) interior'
             else collect_loop fuel idx s (rev (collect_moves idx s nc (snd c)) @ work) (c # visited) interior')"

definition collectBranch :: "nat \<Rightarrow> parallelTreeIndex \<Rightarrow> NodeContent \<Rightarrow> uid \<Rightarrow> uid list \<Rightarrow> uid list option" where
  "collectBranch fuel idx s target interior =
     collect_loop fuel idx s [(target, base_of idx (node_id s))] [] interior"

fun collect_branches :: "nat \<Rightarrow> parallelTreeIndex \<Rightarrow> (NodeContent \<times> uid) list \<Rightarrow> uid list \<Rightarrow> uid list option" where
  "collect_branches fuel idx [] interior = Some interior"
| "collect_branches fuel idx ((s, target) # bs) interior =
     (case collectBranch fuel idx s target interior of
        None \<Rightarrow> None
      | Some interior' \<Rightarrow> collect_branches fuel idx bs interior')"

text \<open>The starts and the ends of the blocks, which are no interior nodes.\<close>

definition block_boundary :: "NodeContent list \<Rightarrow> uid list" where
  "block_boundary ns = concat (map (\<lambda>nc.
     if node_type nc = NTParallelStart \<and> \<not> parallelUnresolved nc
     then [node_id nc, nParallelEndNodeID (nfields nc)]
     else if node_type nc = NTParallelEnd then [node_id nc] else []) (forest_nodes ns))"

definition ParallelInterior :: "WorkflowContent \<Rightarrow> uid list option" where
  "ParallelInterior wc = map_option (filter (\<lambda>i. i \<notin> set (block_boundary (wNodes wc))))
     (collect_branches (walk_fuel wc) (indexParallelTree wc)
        (concat (map (\<lambda>s. map (\<lambda>b. (s, snd b)) (branches_of s)) (resolved_starts (wNodes wc)))) [])"

section \<open>The interior of a validated workflow\<close>

text \<open>A validated walk meets no complaint, so the two walks push the same cursors.\<close>

lemma collect_advance_ok:
  "walk_advance idx s branch from stack next = Inr m \<Longrightarrow> collect_advance idx s stack next = [m]"
  by (auto simp: walk_advance_def collect_advance_def split: sum.split_asm prod.split_asm if_split_asm)

lemma condition_moves_ok:
  "condition_moves (walk_advance idx s branch from stack) keys i cs = Inr ms \<Longrightarrow>
   concat (map (\<lambda>c. if cond_key c = [] then collect_advance idx s stack []
      else case map_of keys (cond_key c) of None \<Rightarrow> [] | Some t \<Rightarrow> collect_advance idx s stack t) cs) = ms"
proof (induction cs arbitrary: ms)
  case (Cons c cs)
  then obtain m ms' where m: "(if cond_key c = [] then walk_advance idx s branch from stack []
      else case map_of keys (cond_key c) of None \<Rightarrow> Inl (ConditionKeyUndefined (cond_key c) i)
        | Some t \<Rightarrow> walk_advance idx s branch from stack t) = Inr m"
    and ms': "condition_moves (walk_advance idx s branch from stack) keys i cs = Inr ms'" "ms = m # ms'"
    by (auto simp: bindR_Inr_iff)
  show ?case using m ms' Cons.IH [OF ms'(1)]
    by (auto dest: collect_advance_ok split: if_split_asm option.split_asm)
qed simp

lemma collect_moves_ok:
  assumes "walk_moves idx s branch nc stack = Inr ms"
  shows "collect_moves idx s nc stack = ms"
proof -
  obtain ts where ts: "type_moves idx s branch nc stack = Inr ts"
    and ms: "(case nOnFailure (nfields nc) of None \<Rightarrow> Inr ts
      | Some r \<Rightarrow> bindR (walk_advance idx s branch (node_id nc) stack (fr_next r)) (\<lambda>m. Inr (ts @ [m]))) = Inr ms"
    using assms by (auto simp: walk_moves_def bindR_Inr_iff)
  have "collect_type_moves idx s nc stack = Some ts"
    using ts unfolding type_moves_def collect_type_moves_def
    by (auto simp: bindR_Inr_iff dest: collect_advance_ok condition_moves_ok
        split: NodeType.split_asm if_split_asm option.split_asm)
  then show ?thesis
    using ms by (auto simp: collect_moves_def bindR_Inr_iff dest: collect_advance_ok split: option.split_asm)
qed

lemma walk_loop_visited:
  "walk_loop fuel idx s branch work visited reached ps = Inr (visited', reached', ps') \<Longrightarrow> set visited \<subseteq> set visited'"
proof (induction fuel idx s branch work visited reached ps rule: walk_loop.induct)
  case (3 fuel idx s branch c work visited reached ps)
  then show ?case by (auto simp: bindR_Inr_iff split: if_split_asm option.split_asm)
qed simp_all

text \<open>The walk of \<open>collectBranch\<close> ends within the fuel of the one of validation, on the same nodes.\<close>

lemma collect_loop_visits:
  "walk_loop fuel idx s branch work visited reached ps = Inr (visited', reached', ps') \<Longrightarrow>
   fst ` set visited \<subseteq> set interior \<Longrightarrow>
   \<exists>interior'. collect_loop fuel idx s work visited interior = Some interior' \<and>
     set interior' = set interior \<union> fst ` set visited'"
proof (induction fuel idx s branch work visited reached ps arbitrary: interior rule: walk_loop.induct)
  case (3 fuel idx s branch c work visited reached ps)
  show ?case
  proof (cases "fst c = nParallelEndNodeID (nfields s) \<or> c \<in> set visited")
    case True
    with 3 show ?thesis by (auto split: if_split_asm)
  next
    case False
    with 3(5) obtain nc where nc: "ix_byID idx (fst c) = Some nc" by (auto split: option.split_asm)
    let ?ins = "List.insert (fst c) interior"
    have sub: "fst ` set (c # visited) \<subseteq> set ?ins" using 3(6) by auto
    have mem: "set ?ins \<union> fst ` set visited' = set interior \<union> fst ` set visited'" if "fst c \<in> fst ` set visited'"
      using that by auto
    show ?thesis
    proof (cases "parallelOpaque nc")
      case True
      with 3(5) False nc have w: "walk_loop fuel idx s branch work (c # visited) reached ps = Inr (visited', reached', ps')"
        by simp
      from 3(3) [OF _ _ nc True w sub] False obtain interior' where
        "collect_loop fuel idx s work (c # visited) ?ins = Some interior'" "set interior' = set ?ins \<union> fst ` set visited'"
        by auto
      with walk_loop_visited [OF w] False nc True mem show ?thesis by auto
    next
      case not_opaque: False
      with 3(5) False nc obtain ms where ms: "walk_moves idx s branch nc (snd c) = Inr ms"
        "walk_loop fuel idx s branch (rev ms @ work) (c # visited) reached (note_parent s nc ps) = Inr (visited', reached', ps')"
        by (auto simp: bindR_Inr_iff)
      from 3(4) [OF _ _ nc not_opaque ms(2) sub] False obtain interior' where
        "collect_loop fuel idx s (rev ms @ work) (c # visited) ?ins = Some interior'"
        "set interior' = set ?ins \<union> fst ` set visited'" by auto
      with walk_loop_visited [OF ms(2)] False nc not_opaque mem collect_moves_ok [OF ms(1)] show ?thesis by auto
    qed
  qed
qed auto

end
