(* ===== verification/ServiceRollback.thy ===== *)
theory ServiceRollback
  imports ServiceViews Interior
begin

text \<open>
  Rollback and migration of \<open>service/instance.go\<close>: moving the cursor of a paused or failed
  instance back to an executed occurrence, and replacing an instance by one of a newer
  definition of the same lineage.
\<close>

section \<open>The groups around a node\<close>

text \<open>The walk of \<open>groupStack\<close>: the groups on the way to the first node with the id.\<close>

function ancestor_stack :: "NodeContent list \<Rightarrow> uid \<Rightarrow> uid list \<Rightarrow> uid list option" where
  "ancestor_stack [] i ancestors = None"
| "ancestor_stack (n # ns) i ancestors =
     (if node_id n = i then Some ancestors
      else case group_of n of
        None \<Rightarrow> ancestor_stack ns i ancestors
      | Some g \<Rightarrow>
          (case ancestor_stack (gNodes g) i (ancestors @ [node_id n]) of
             Some st \<Rightarrow> Some st
           | None \<Rightarrow> ancestor_stack ns i ancestors))"
  by pat_completeness auto
termination
  by (relation "measure (\<lambda>(ns, i, st). size_list size ns)")
    (auto dest!: size_group_nodes [rotated, of _ _ "_ # _"])

declare ancestor_stack.simps [simp del]

definition content_stack :: "WorkflowContent \<Rightarrow> uid \<Rightarrow> string + uid list" where
  "content_stack wc i =
     (if i = wStartNodeID wc
      then (case findNode (wNodes wc) i of None \<Rightarrow> Inl (unknown_node i) | Some _ \<Rightarrow> Inr [])
      else case ancestor_stack (wNodes wc) i [] of None \<Rightarrow> Inl (unknown_node i) | Some st \<Rightarrow> Inr st)"

section \<open>Rollback\<close>

record RollbackRequest =
  rr_instance :: uid
  rr_target :: uid
  rr_reason :: string
  rr_principal :: "Principal option"
  rr_actor :: uid

record RollbackResult =
  rs_status :: WorkflowStatus
  rs_current :: uid
  rs_stack :: "uid list"

definition hasLiveParallel :: "uid \<Rightarrow> bool svc" where
  "hasLiveParallel i =
     andThen (passing (\<lambda>d. Inr (ListExecutions i d, d))) (\<lambda>exs. ret (Inr (hasLiveExecution exs)))"

text \<open>The context to restore and, in lean mode, the history cursor it stands before.\<close>

definition resolveRollbackContext ::
  "service \<Rightarrow> WorkflowInstanceModel \<Rightarrow> NodeInstanceModel \<Rightarrow> uid \<Rightarrow> (raw \<times> HistoryCursor option) svc" where
  "resolveRollbackContext sv m occ target =
     (if \<not> leanMode m then
        ret (if restorableContext (nm_context_before occ) then Inr (nm_context_before occ, None)
             else Inl (Invalid (''occurrence '' @ quoted target @ '' has no restorable context'')))
      else andThen (load_history (wm_id m)) (\<lambda>rows.
        case leanHistoryCursorForOccurrence rows (nm_id occ) 0 of
          None \<Rightarrow> ret (Inl (no_history target))
        | Some cursor \<Rightarrow>
            andThen (leanReconstructBefore sv (wm_id m) cursor) (\<lambda>restored.
              ret (if validateRestoredObject restored = None
                   then Inl (Conflict ''restored context is not a JSON object'')
                   else Inr (restored, Some cursor)))))"

text \<open>The occurrence a rollback names: one of the instance itself, not of a branch.\<close>

definition rollback_occurrence :: "uid \<Rightarrow> uid \<Rightarrow> NodeInstanceModel svc" where
  "rollback_occurrence i target = do {
     r \<leftarrow> call (reads (GetNodeInstance i target));
     ret (case r of
       Inl e \<Rightarrow> Inl (if is_repo ErrNodeInstanceNotFound e
                   then NotFound (''occurrence '' @ quoted target @ '' of instance '' @ i) else Failed e)
     | Inr occ \<Rightarrow>
         if nm_instance occ \<noteq> i then Inl (NotFound (''occurrence '' @ quoted target @ '' of instance '' @ i))
         else if strVal (nm_branch occ) \<noteq> []
         then Inl (Invalid (''occurrence '' @ quoted target @
           '' ran inside a parallel branch; roll back to a node before or after the parallel block''))
         else Inr occ)
   }"

definition rollback_node :: "WorkflowContent \<Rightarrow> uid \<Rightarrow> svc_err + NodeContent" where
  "rollback_node wc node =
     (case findNode (wNodes wc) node of
        None \<Rightarrow> Inl (Invalid (''occurrence node '' @ quoted node @ '' is not in the workflow definition''))
      | Some n \<Rightarrow>
          if node_type n = NTGroup then Inl (Invalid ''group nodes cannot be rollback targets'') else Inr n)"

definition running_attempt :: "uid \<Rightarrow> NodeInstanceModel option svc" where
  "running_attempt i = do {
     r \<leftarrow> call (reads (GetRunningNodeInstance i));
     ret (case r of
       Inl e \<Rightarrow> if is_repo ErrNodeInstanceNotFound e then Inr None else Inl (Failed e)
     | Inr n \<Rightarrow> Inr (Some n))
   }"

definition rollback_update ::
  "service \<Rightarrow> RollbackRequest \<Rightarrow> WorkflowInstanceModel \<Rightarrow> NodeContent \<Rightarrow> NodeInstanceModel \<Rightarrow>
   NodeInstanceModel option \<Rightarrow> Frame \<Rightarrow> uid list \<Rightarrow> raw \<Rightarrow> RollbackUpdate" where
  "rollback_update sv req m target occ running frame stack restore =
     (let rearm = (node_type target = NTInput);
          supersede = (case running of None \<Rightarrow> False | Some r \<Rightarrow> \<not> rearm \<or> nm_id r \<noteq> nm_id occ)
      in \<lparr>ru_instance = wm_id m, ru_frame = \<lparr>CurrentNodeID = node_id target, GroupStack = stack\<rparr>,
          ru_context = restore, ru_actor = requestActor sv (rr_principal req) (rr_actor req),
          ru_reason = rr_reason req, ru_from_node = CurrentNodeID frame, ru_to_node = node_id target,
          ru_to_occurrence = nm_id occ,
          ru_waiting_reason = (if rearm then ReasonInput else ReasonRunnable), ru_rearm = rearm,
          ru_supersede = supersede,
          ru_superseded_occurrence = (if supersede then nm_id (the running) else []),
          ru_superseded_node = (if supersede then nm_node (the running) else [])\<rparr>)"

definition rollback_instance :: "service \<Rightarrow> RollbackRequest \<Rightarrow> RollbackUpdate \<Rightarrow> WorkflowInstanceModel svc" where
  "rollback_instance sv req u = do {
     now \<leftarrow> svc_now sv;
     r \<leftarrow> call (RollbackInstance (sv_rt sv) now u);
     ret (case r of
       Inl e \<Rightarrow> Inl (if is_repo ErrInstanceNotFound e then NotFound (''instance '' @ rr_instance req)
                   else if is_repo ErrStatusConflict e
                   then Conflict (''instance '' @ rr_instance req @ '' is not paused or failed'') else Failed e)
     | Inr m \<Rightarrow> Inr m)
   }"

text \<open>Lean mode: the target's row and what follows are superseded, the restored context anchored.\<close>

definition rewind_history :: "service \<Rightarrow> uid \<Rightarrow> raw \<Rightarrow> HistoryCursor option \<Rightarrow> unit svc" where
  "rewind_history sv i restore cursor =
     (case cursor of
        None \<Rightarrow> ret (Inr ())
      | Some c \<Rightarrow>
          andThen (do {
              r \<leftarrow> call (always (SupersedeAfter i c));
              ret (case r of Inl e \<Rightarrow> Inl (mapHistoryError sv e) | Inr _ \<Rightarrow> Inr ())
            }) (\<lambda>_. append_history sv (leanAnchorRow i restore)))"

definition parse_frame :: "raw \<Rightarrow> svc_err + Frame" where
  "parse_frame r = (case ParseFrame r of Inl e \<Rightarrow> Inl (Failed (EDecode e)) | Inr f \<Rightarrow> Inr f)"

text \<open>The part of the handler behind the checks on the target.\<close>

definition move_cursor ::
  "service \<Rightarrow> RollbackRequest \<Rightarrow> WorkflowInstanceModel \<Rightarrow> WorkflowContent \<Rightarrow> NodeContent \<Rightarrow> NodeInstanceModel \<Rightarrow>
   NodeInstanceModel option \<Rightarrow> Frame \<Rightarrow> RollbackResult svc" where
  "move_cursor sv req m wc target occ running frame =
     andThen (ret (case content_stack wc (nm_node occ) of Inl e \<Rightarrow> Inl (Invalid e) | Inr st \<Rightarrow> Inr st)) (\<lambda>stack.
     andThen (resolveRollbackContext sv m occ (rr_target req)) (\<lambda>(restore, cursor).
     andThen (rollback_instance sv req (rollback_update sv req m target occ running frame stack restore)) (\<lambda>rolled.
     andThen (rewind_history sv (wm_id m) restore (if leanMode m then cursor else None)) (\<lambda>_.
     andThen (ret (parse_frame (wm_frame rolled))) (\<lambda>f.
       ret (Inr \<lparr>rs_status = wm_status rolled, rs_current = CurrentNodeID f, rs_stack = GroupStack f\<rparr>))))))"

definition self_rollback ::
  "WorkflowInstanceModel \<Rightarrow> NodeContent \<Rightarrow> NodeInstanceModel \<Rightarrow> NodeInstanceModel option \<Rightarrow> Frame \<Rightarrow> bool" where
  "self_rollback m target occ running frame \<longleftrightarrow>
     (case running of
        None \<Rightarrow> False
      | Some r \<Rightarrow> wm_status m = WorkflowPaused \<and> nm_id r = nm_id occ \<and> CurrentNodeID frame = node_id target)"

definition rollback_to ::
  "service \<Rightarrow> RollbackRequest \<Rightarrow> WorkflowInstanceModel \<Rightarrow> RollbackResult svc" where
  "rollback_to sv req m =
     andThen (rollback_occurrence (wm_id m) (rr_target req)) (\<lambda>occ.
     andThen (do { t \<leftarrow> tick; ret (sv_resolve sv t (wm_definition m)) }) (\<lambda>wc.
     andThen (ret (rollback_node wc (nm_node occ))) (\<lambda>target.
     andThen (running_attempt (wm_id m)) (\<lambda>running.
     andThen (ret (parse_frame (wm_frame m))) (\<lambda>frame.
       if self_rollback m target occ running frame
       then ret (Inr \<lparr>rs_status = WorkflowPaused, rs_current = node_id target, rs_stack = GroupStack frame\<rparr>)
       else if node_type target = NTInput \<and> nm_status occ \<noteq> NodeFinished
       then ret (Inl (Conflict (''input occurrence '' @ quoted (rr_target req) @ '' is not finished'')))
       else move_cursor sv req m wc target occ running frame)))))"

definition rollback_status :: "uid \<Rightarrow> WorkflowInstanceModel \<Rightarrow> svc_err + unit" where
  "rollback_status i m =
     (if wm_status m \<notin> {WorkflowPaused, WorkflowFailed}
      then Inl (Conflict (''instance '' @ i @ '' is not paused or failed''))
      else if wm_termination_pending m then Inl (Conflict (''instance '' @ i @ '' has termination pending''))
      else Inr ())"

definition live_branches :: "uid \<Rightarrow> svc_err" where
  "live_branches i = Conflict (''instance '' @ i @ '' has live parallel branches; rollback is supported '' @
     ''only before a parallel block or after it completes'')"

definition svc_Rollback :: "service \<Rightarrow> RollbackRequest \<Rightarrow> RollbackResult svc" where
  "svc_Rollback sv req =
     andThen (check (\<not> trimmed_empty (rr_instance req)) (Invalid ''instance id is required'')) (\<lambda>_.
     andThen (check (\<not> trimmed_empty (rr_target req)) (Invalid ''target_occurrence_id is required'')) (\<lambda>_.
     andThen (load_instance sv (rr_instance req)) (\<lambda>m.
     andThen (authorize (Some m) (requestPrincipal sv (rr_principal req))) (\<lambda>_.
     andThen (ret (rollback_status (rr_instance req) m)) (\<lambda>_.
     andThen (hasLiveParallel (wm_id m)) (\<lambda>live.
       if live then ret (Inl (live_branches (rr_instance req))) else rollback_to sv req m))))))"

section \<open>Migration\<close>

record MigrateRequest =
  mg_source :: uid
  mg_definition :: uid
  mg_start :: uid
  mg_patch :: raw
  mg_paused :: bool
  mg_reason :: string
  mg_principal :: "Principal option"
  mg_actor :: uid

text \<open>
  \<open>deepMerge\<close>: objects merge, everything else replaces. Go changes the map in place; a
  nested object of the destination belongs to it alone.
\<close>

function deepMerge :: "gomap \<Rightarrow> gomap \<Rightarrow> gomap" where
  "deepMerge dst [] = dst"
| "deepMerge dst ((k, v) # patch) =
     deepMerge (map_put k (case (v, map_of dst k) of
         (JObj pv, Some (JObj dv)) \<Rightarrow> JObj (deepMerge dv pv) | _ \<Rightarrow> v) dst) patch"
  by pat_completeness auto
termination
  by (relation "measure (\<lambda>(dst, patch). size_list (size_prod (\<lambda>_. 0) size) patch)") auto

definition migrate_status :: "uid \<Rightarrow> WorkflowInstanceModel \<Rightarrow> svc_err + unit" where
  "migrate_status i m =
     (if wm_status m = WorkflowRunning then Inl (Conflict (''instance '' @ i @ '' is running; pause first''))
      else if \<not> (wm_status m \<in> {WorkflowPaused, WorkflowFailed} \<or>
                 wm_status m = WorkflowWaiting \<and> wm_reason m = ReasonInput)
      then Inl (Conflict (''instance '' @ i @ '' is not paused, failed, or input-parked''))
      else if wm_termination_pending m then Inl (Conflict (''instance '' @ i @ '' has termination pending''))
      else Inr ())"

definition same_lineage :: "uid \<Rightarrow> WorkflowDefinition \<Rightarrow> WorkflowDefinition \<Rightarrow> svc_err + unit" where
  "same_lineage defID target source =
     (if wd_lineage target \<noteq> wd_lineage source
      then Inl (Invalid (''definition '' @ defID @ '' is not in the source lineage''))
      else if wd_version target \<le> wd_version source
      then Inl (Invalid (''definition '' @ defID @ '' must be newer than version '' @ Itoa (wd_version source)))
      else Inr ())"

text \<open>The start node must be in the graph and outside every parallel block.\<close>

definition migrate_start :: "WorkflowContent \<Rightarrow> uid \<Rightarrow> svc_err + uid list" where
  "migrate_start wc start =
     (if findNode (wNodes wc) start = None
      then Inl (Invalid (''start node '' @ quoted start @ '' is not in the target definition''))
      else if (case ParallelInterior wc of None \<Rightarrow> False | Some interior \<Rightarrow> start \<in> set interior)
      then Inl (Invalid (''start node '' @ quoted start @ '' is inside a parallel region''))
      else case content_stack wc start of Inl e \<Rightarrow> Inl (Invalid e) | Inr st \<Rightarrow> Inr st)"

text \<open>
  \<open>unmarshalJSON\<close>: no document is the empty map. A null document makes the map nil, and the
  first write to it panics.
\<close>

definition nil_map :: svc_err where
  "nil_map = Failed (EText ''assignment to entry in nil map'')"

definition carried_context :: "service \<Rightarrow> WorkflowInstanceModel \<Rightarrow> raw \<Rightarrow> svc_err + gomap" where
  "carried_context sv m patch =
     (case unmarshalContext (wm_context m) of
        Inl e \<Rightarrow> Inl (Failed (EWrap ''migrate: source context is not a JSON object'' (EDecode e)))
      | Inr carried \<Rightarrow>
          if wm_context m = Some JNull then Inl nil_map
          else if patch = None \<or> patch = Some JNull then Inr carried
          else case decodeContextObject patch of
            None \<Rightarrow> Inl (Invalid ''context_patch must be a JSON object'')
          | Some p \<Rightarrow> Inr (deepMerge carried p))"

definition migrated_context :: "service \<Rightarrow> WorkflowInstanceModel \<Rightarrow> raw \<Rightarrow> raw svc" where
  "migrated_context sv m patch =
     andThen (ret (carried_context sv m patch)) (\<lambda>carried. do {
       env \<leftarrow> env_snapshot sv;
       andThen (secret_snapshot sv) (\<lambda>ss. ret (encode_context (with_reserved sv env ss carried)))
     })"

definition migrate_update ::
  "MigrateRequest \<Rightarrow> WorkflowInstanceModel \<Rightarrow> WorkflowInstanceModel \<Rightarrow> uid \<Rightarrow> MigrateUpdate" where
  "migrate_update req m w actor =
     \<lparr>mu_new = w, mu_source = wm_id m, mu_source_revision = wm_revision m, mu_actor = actor,
      mu_new_event = Some (JObj (obj
        [(''workflow_definition_id'', JStr (wm_definition w)), (''migrated_from'', JStr (wm_id m)),
         (''source_definition_id'', JStr (wm_definition m)), (''reason'', JStr (mg_reason req))])),
      mu_source_event = Some (JObj (obj
        [(''new_instance_id'', JStr (wm_id w)), (''workflow_definition_id'', JStr (wm_definition w)),
         (''start_node_id'', JStr (mg_start req)), (''reason'', JStr (mg_reason req))]))\<rparr>"

definition migrate_instance :: "service \<Rightarrow> MigrateRequest \<Rightarrow> MigrateUpdate \<Rightarrow> unit svc" where
  "migrate_instance sv req u = do {
     now \<leftarrow> svc_now sv;
     r \<leftarrow> call (writes (MigrateInstance (sv_rt sv) now u));
     ret (case r of
       Inl e \<Rightarrow> Inl (if is_repo ErrInstanceNotFound e then NotFound (''instance '' @ mg_source req)
                   else if is_repo ErrStatusConflict e
                   then Conflict (''instance '' @ mg_source req @
                     '' is no longer migratable (concurrent transition won)'') else Failed e)
     | Inr _ \<Rightarrow> Inr ())
   }"

definition replace_instance ::
  "service \<Rightarrow> MigrateRequest \<Rightarrow> WorkflowInstanceModel \<Rightarrow> WorkflowDefinition \<Rightarrow> WorkflowContent \<Rightarrow> uid list \<Rightarrow>
   raw \<Rightarrow> WorkflowInstanceModel svc" where
  "replace_instance sv req m target wc stack ctxRaw = do {
     now \<leftarrow> svc_now sv;
     i \<leftarrow> mustNewID sv;
     let actor = requestActor sv (mg_principal req) (mg_actor req);
     let w = new_instance i (wd_id target) (context_mode sv wc) False
               (if mg_paused req then WorkflowPaused else WorkflowWaiting)
               \<lparr>CurrentNodeID = mg_start req, GroupStack = stack\<rparr> ctxRaw (wm_form_snapshot m) (Some (wm_id m)) actor now;
     andThen (migrate_instance sv req (migrate_update req m w actor)) (\<lambda>_.
     andThen (if leanMode w then append_history sv (leanAnchorRow (wm_id w) ctxRaw) else ret (Inr ())) (\<lambda>_.
       ret (Inr w)))
   }"

text \<open>The result is the replacement; the source is then stopped, and its local transition cancelled.\<close>

definition svc_Migrate :: "service \<Rightarrow> MigrateRequest \<Rightarrow> WorkflowInstanceModel svc" where
  "svc_Migrate sv req =
     andThen (check (\<not> trimmed_empty (mg_source req)) (Invalid ''source instance id is required'')) (\<lambda>_.
     andThen (check (\<not> trimmed_empty (mg_definition req)) (Invalid ''workflow_definition_id is required'')) (\<lambda>_.
     andThen (check (\<not> trimmed_empty (mg_start req)) (Invalid ''start_node_id is required'')) (\<lambda>_.
     andThen (load_instance sv (mg_source req)) (\<lambda>m.
     andThen (authorize (Some m) (requestPrincipal sv (mg_principal req))) (\<lambda>_.
     andThen (ret (migrate_status (mg_source req) m)) (\<lambda>_.
     andThen (do { t \<leftarrow> tick; ret (sv_definition sv t (mg_definition req)) }) (\<lambda>target.
     andThen (do { t \<leftarrow> tick; ret (sv_definition sv t (wm_definition m)) }) (\<lambda>source.
     andThen (ret (same_lineage (mg_definition req) target source)) (\<lambda>_.
     andThen (do { t \<leftarrow> tick; ret (sv_resolve sv t (wd_id target)) }) (\<lambda>wc.
     andThen (ret (migrate_start wc (mg_start req))) (\<lambda>stack.
     andThen (migrated_context sv m (mg_patch req)) (\<lambda>ctxRaw.
       replace_instance sv req m target wc stack ctxRaw))))))))))))"

end
