(* ===== verification/ServiceInput.thy ===== *)
theory ServiceInput
  imports ServiceRollback
begin

text \<open>
  Input deliveries of \<open>service/instance.go\<close>: finding the parked input node, the two
  authorization gates, the validation script, the merge into the context, the post hooks
  and the commit through \<open>InputRepo\<close>.
\<close>

section \<open>Requests\<close>

text \<open>The body of a delivery: its text and, when it is a JSON document, the document.\<close>

record payload =
  pl_text :: string
  pl_json :: raw

record DeliverRequest =
  dr_instance :: uid
  dr_branch :: uid
  dr_key :: string
  dr_payload :: payload
  dr_source :: string
  dr_principal :: "Principal option"
  dr_actor :: uid
  dr_anonymous :: bool

definition deliveryPrincipal :: "service \<Rightarrow> DeliverRequest \<Rightarrow> Principal" where
  "deliveryPrincipal sv req = (case dr_principal req of Some p \<Rightarrow> p | None \<Rightarrow> SystemPrincipal (sv_actor sv))"

definition isAnonymousDelivery :: "DeliverRequest \<Rightarrow> bool" where
  "isAnonymousDelivery req \<longleftrightarrow> dr_anonymous req \<and> dr_principal req = None \<and> dr_actor req = []"

definition deliveryActor :: "service \<Rightarrow> DeliverRequest \<Rightarrow> Principal \<Rightarrow> uid" where
  "deliveryActor sv req p =
     (if dr_actor req \<noteq> [] then dr_actor req else if pr_user p \<noteq> [] then pr_user p else sv_actor sv)"

definition deliveryActorType :: "Principal \<Rightarrow> string" where
  "deliveryActorType p =
     (if pr_service p then ''service''
      else if pr_user p \<noteq> [] \<or> pr_subject p \<noteq> [] then ''user'' else ''anonymous'')"

section \<open>The gates\<close>

definition denyInputAs ::
  "service \<Rightarrow> WorkflowInstanceModel \<Rightarrow> NodeContent \<Rightarrow> Principal \<Rightarrow> string \<Rightarrow> bool \<Rightarrow> unit svc" where
  "denyInputAs sv m n p reason anonymous = do {
     record_event sv (wm_id m) ''input_forbidden'' (obj
       [(''node_id'', JStr (node_id n)), (''channel'', JStr (nChannel (nfields n))), (''reason'', JStr reason),
        (''roles'', JArr (map JStr (pr_roles p))), (''subject'', JStr (pr_subject p)),
        (''delivered_by'', JStr (if anonymous then ''anonymous'' else deliveryActorType p))])
       (if pr_user p = [] then sv_actor sv else pr_user p);
     ret (Inl (Forbidden reason))
   }"

fun join_space :: "string list \<Rightarrow> string" where
  "join_space [] = []"
| "join_space [s] = s"
| "join_space (s # t # ss) = s @ '' '' @ join_space (t # ss)"

text \<open>\<open>None\<close> admits; \<open>Some\<close> is the reason of the refusal and whether it is an anonymous one.\<close>

definition input_refusal :: "Catalog \<Rightarrow> NodeContent \<Rightarrow> Principal \<Rightarrow> bool \<Rightarrow> (string \<times> bool) option" where
  "input_refusal catalog n p anonymous =
     (if anonymous then
        (if nPublic (nfields n) then None else Some (''anonymous delivery requires a public input node'', True))
      else if pr_service p then None
      else if \<not> HasPermission p ActionInputDeliver catalog
      then Some (''the '' @ ActionInputDeliver @ '' permission is required'', False)
      else if \<not> CanSatisfyRoles p (nAllowedRoles (nfields n))
      then Some (''roles ['' @ join_space (nAllowedRoles (nfields n)) @
        ''] are required to deliver to this input node'', False)
      else None)"

definition authorizeDelivery ::
  "service \<Rightarrow> WorkflowInstanceModel \<Rightarrow> NodeContent \<Rightarrow> Principal \<Rightarrow> bool \<Rightarrow> unit svc" where
  "authorizeDelivery sv m n p anonymous =
     (case input_refusal (sv_catalog sv) n p anonymous of
        None \<Rightarrow> ret (Inr ())
      | Some (reason, anon) \<Rightarrow> denyInputAs sv m n p reason anon)"

section \<open>Replays\<close>

text \<open>
  \<open>jsonEqual\<close> against a stored document: a body that is no JSON cannot have the same bytes.
\<close>

definition payload_equal :: "raw \<Rightarrow> payload \<Rightarrow> bool" where
  "payload_equal stored pl \<longleftrightarrow> pl_json pl \<noteq> None \<and> stored = pl_json pl"

definition replay_node ::
  "WorkflowContent \<Rightarrow> DeliverRequest \<Rightarrow> InputDeliveryModel \<Rightarrow> go_err + NodeInstanceModel \<Rightarrow> svc_err + NodeContent" where
  "replay_node wc req existing occ =
     (case occ of
        Inl _ \<Rightarrow> Inl (Forbidden (''delivery '' @ dm_id existing @ '' targets an unresolvable node instance''))
      | Inr o' \<Rightarrow>
          if strVal (nm_branch o') \<noteq> dr_branch req
          then Inl (Conflict (''Idempotency-Key '' @ quoted (dr_key req) @ '' was already used for a different branch''))
          else case findNode (wNodes wc) (nm_node o') of
            None \<Rightarrow> Inl (Forbidden (''delivery '' @ dm_id existing @ '' targets an unknown node '' @ quoted (nm_node o')))
          | Some n \<Rightarrow>
              if node_type n \<noteq> NTInput
              then Inl (Forbidden (''delivery '' @ dm_id existing @ '' targets node '' @ quoted (nm_node o') @
                '', which is not an input node''))
              else Inr n)"

definition replayDelivery ::
  "service \<Rightarrow> WorkflowInstanceModel \<Rightarrow> WorkflowContent \<Rightarrow> InputDeliveryModel \<Rightarrow> DeliverRequest \<Rightarrow> Principal \<Rightarrow>
   InputDeliveryModel svc" where
  "replayDelivery sv m wc existing req p =
     (if \<not> payload_equal (dm_payload existing) (dr_payload req)
      then ret (Inl (Conflict (''Idempotency-Key '' @ quoted (dr_key req) @
        '' was already used with a different payload'')))
      else do {
        occ \<leftarrow> call (reads (GetNodeInstance (wm_id m) (dm_node_instance existing)));
        andThen (ret (replay_node wc req existing occ)) (\<lambda>n.
        andThen (authorizeDelivery sv m n p (isAnonymousDelivery req)) (\<lambda>_. ret (Inr existing)))
      })"

section \<open>The target\<close>

record inputTarget =
  tg_frame :: Frame
  tg_node :: NodeContent
  tg_branch :: "ParallelBranchModel option"

definition branch_id_of :: "inputTarget \<Rightarrow> uid" where
  "branch_id_of tgt = (case tg_branch tgt of None \<Rightarrow> [] | Some b \<Rightarrow> bm_id b)"

definition target_at :: "WorkflowContent \<Rightarrow> raw \<Rightarrow> ParallelBranchModel option \<Rightarrow> svc_err + inputTarget" where
  "target_at wc frameRaw branch =
     bindR (parse_frame frameRaw) (\<lambda>frame.
     bindR (content_node wc (CurrentNodeID frame)) (\<lambda>n.
       if node_type n \<noteq> NTInput then Inl (Conflict ''current node is not an input node'')
       else Inr \<lparr>tg_frame = frame, tg_node = n, tg_branch = branch\<rparr>))"

definition resolveInputTarget ::
  "WorkflowInstanceModel \<Rightarrow> WorkflowContent \<Rightarrow> DeliverRequest \<Rightarrow> inputTarget svc" where
  "resolveInputTarget m wc req =
     (if dr_branch req = [] then ret (target_at wc (wm_frame m) None)
      else do {
        r \<leftarrow> call (reads (GetBranch (dr_branch req)));
        ret (case r of
          Inl e \<Rightarrow> Inl (if is_repo ErrParallelBranchNotFound e
                      then NotFound (''branch '' @ dr_branch req @ '' not found'') else Failed e)
        | Inr b \<Rightarrow>
            if bm_instance b \<noteq> wm_id m
            then Inl (Conflict (''branch '' @ dr_branch req @ '' does not belong to instance '' @ dr_instance req))
            else target_at wc (bm_frame b) (Some b))
      })"

definition not_waiting :: svc_err where
  "not_waiting = Conflict ''input node is not waiting for input''"

definition live_attempt :: "(db \<Rightarrow> repo_err + NodeInstanceModel) \<Rightarrow> NodeInstanceModel svc" where
  "live_attempt f = do {
     r \<leftarrow> call (reads f);
     ret (case r of
       Inl e \<Rightarrow> Inl (if is_repo ErrNodeInstanceNotFound e then not_waiting else Failed e)
     | Inr a \<Rightarrow> Inr a)
   }"

definition parked_context :: "raw \<Rightarrow> svc_err + gomap" where
  "parked_context r =
     (case unmarshalContext r of
        Inl e \<Rightarrow> Inl (Failed (EWrap ''service: parse context'' (EDecode e)))
      | Inr c \<Rightarrow> Inr c)"

text \<open>A branch takes input while its instance is parked on the join, waiting or paused.\<close>

definition parked_on_join :: "WorkflowInstanceModel \<Rightarrow> bool" where
  "parked_on_join m \<longleftrightarrow> wm_reason m = ReasonParallel \<and> wm_status m \<in> {WorkflowWaiting, WorkflowPaused}"

definition assertInputParked ::
  "WorkflowInstanceModel \<Rightarrow> inputTarget \<Rightarrow> DeliverRequest \<Rightarrow> (NodeInstanceModel \<times> gomap) svc" where
  "assertInputParked m tgt req =
     (case tg_branch tgt of
        None \<Rightarrow>
          andThen (live_attempt (GetLiveNodeInstanceByNode (wm_id m) (node_id (tg_node tgt)))) (\<lambda>a.
            ret (if wm_status m \<noteq> WorkflowWaiting \<or> wm_reason m \<noteq> ReasonInput
                 then Inl (Conflict (''instance '' @ dr_instance req @ '' is not waiting for input''))
                 else bindR (parked_context (wm_context m)) (\<lambda>c. Inr (a, c))))
      | Some b \<Rightarrow>
          andThen (check (parked_on_join m)
            (Conflict (''instance '' @ dr_instance req @ '' is not parked on a parallel join''))) (\<lambda>_.
          andThen (check (bm_status b = BranchWaiting \<and> bm_reason b = ReasonInput)
            (Conflict (''branch '' @ bm_id b @ '' is not waiting for input''))) (\<lambda>_.
          andThen (live_attempt (GetLiveBranchNodeInstanceByNode (bm_id b) (node_id (tg_node tgt)))) (\<lambda>a.
            ret (bindR (parked_context (bm_context b)) (\<lambda>c. Inr (a, c)))))))"

section \<open>What a delivery writes\<close>

text \<open>The value under the node's output property: the payload, or the attribution envelope.\<close>

definition inputContextValue :: "NodeContent \<Rightarrow> Principal \<Rightarrow> uid \<Rightarrow> json \<Rightarrow> json" where
  "inputContextValue n p actor v =
     (if \<not> nRecordActor (nfields n) then v
      else JObj [(''input_data'', v), (''user_id'', JStr (if actor = [] then pr_user p else actor))])"

text \<open>A diff that fails is recorded as an empty one.\<close>

definition leanInputHistory ::
  "WorkflowInstanceModel \<Rightarrow> gomap \<Rightarrow> gomap \<Rightarrow> NodeInstanceModel \<Rightarrow> NodeContextHistoryModel option" where
  "leanInputHistory m before after a =
     (if \<not> leanMode m then None
      else Some \<lparr>hm_id = [], hm_instance = wm_id m, hm_occurrence = nm_id a, hm_node = nm_node a,
        hm_attempt = nm_attempt a, hm_is_anchor = False, hm_snapshot = None,
        hm_diff = (case DiffMaps before after of
          Inl _ \<Rightarrow> Some (diffJSON \<lparr>d_set = [], d_unset = []\<rparr>) | Inr df \<Rightarrow> Some (diffJSON df)),
        hm_superseded = False, hm_created_at = 0\<rparr>)"

definition mustMarshal :: "json \<Rightarrow> raw" where
  "mustMarshal v = (case marshal v of Inl _ \<Rightarrow> Some JNull | Inr r \<Rightarrow> r)"

definition deliver_call :: "service \<Rightarrow> InputCompletion \<Rightarrow> InputDeliveryModel svc" where
  "deliver_call sv c = do {
     t \<leftarrow> tick;
     passing (DeliverInput (sv_rt sv) (sv_dbclock sv t) (sv_clock sv t) c)
   }"

text \<open>Fields a completion leaves out are Go's zero values, which its transaction does not read.\<close>

definition completion_of ::
  "service \<Rightarrow> DeliverRequest \<Rightarrow> WorkflowInstanceModel \<Rightarrow> inputTarget \<Rightarrow> NodeInstanceModel \<Rightarrow> InputCompletion" where
  "completion_of sv req m tgt a =
     \<lparr>ic_instance = wm_id m, ic_branch = branch_id_of tgt, ic_node_instance = nm_id a, ic_key = dr_key req,
      ic_payload = pl_json (dr_payload req), ic_accepted = True, ic_error = [],
      ic_created_by = deliveryActor sv req (deliveryPrincipal sv req), ic_anonymous = isAnonymousDelivery req,
      ic_post_failure = False, ic_node_status = NodeFinished, ic_frame = \<lparr>CurrentNodeID = [], GroupStack = []\<rparr>,
      ic_context = None, ic_status = WorkflowWaiting, ic_finished_at = None, ic_history = None\<rparr>"

text \<open>
  A rejected delivery. A body that is no JSON does not fit the column, so its insert fails.
\<close>

definition rejectInput ::
  "service \<Rightarrow> DeliverRequest \<Rightarrow> WorkflowInstanceModel \<Rightarrow> inputTarget \<Rightarrow> NodeInstanceModel \<Rightarrow> string \<Rightarrow>
   InputDeliveryModel svc" where
  "rejectInput sv req m tgt a msg =
     (if pl_json (dr_payload req) = None
      then ret (Inl (Failed (EUnavailable ''invalid input syntax for type json'')))
      else deliver_call sv ((completion_of sv req m tgt a)
        \<lparr>ic_branch := [], ic_accepted := False, ic_error := msg\<rparr>))"

text \<open>The anonymous mark is not carried over.\<close>

definition failAcceptedInput ::
  "service \<Rightarrow> DeliverRequest \<Rightarrow> WorkflowInstanceModel \<Rightarrow> inputTarget \<Rightarrow> NodeInstanceModel \<Rightarrow> gomap \<Rightarrow> NodeStatus \<Rightarrow>
   gomap \<Rightarrow> go_err \<Rightarrow> InputDeliveryModel svc" where
  "failAcceptedInput sv req m tgt a start nodeStatus ctx cause =
     deliver_call sv ((completion_of sv req m tgt a)
       \<lparr>ic_post_failure := True, ic_node_status := nodeStatus, ic_context := mustMarshal (JObj ctx),
        ic_error := error_text (sv_leaf_text sv) cause, ic_anonymous := False,
        ic_history := (if branch_id_of tgt = [] then leanInputHistory m start ctx a else None)\<rparr>)"

section \<open>Advancing\<close>

definition content_next :: "WorkflowContent \<Rightarrow> uid \<Rightarrow> graph_error + uid" where
  "content_next wc i =
     (case findNode (wNodes wc) i of None \<Rightarrow> Inl (UnknownNode i) | Some n \<Rightarrow> Inr (nNextNode (nfields n)))"

definition content_lookup :: "WorkflowContent \<Rightarrow> uid \<Rightarrow> go_err + NodeContent" where
  "content_lookup wc i =
     (case findNode (wNodes wc) i of None \<Rightarrow> Inl (EText (unknown_node i)) | Some n \<Rightarrow> Inr n)"

text \<open>Where an instance stands after a delivery that did not fail.\<close>

definition delivered_status :: "WorkflowInstanceModel \<Rightarrow> bool \<Rightarrow> WorkflowStatus" where
  "delivered_status m done =
     (if done then WorkflowFinished else if wm_debug m then WorkflowPaused else WorkflowWaiting)"

definition no_join :: go_err where
  "no_join = EText ''branch terminated without reaching its parallel_end''"

definition commit_delivery ::
  "service \<Rightarrow> DeliverRequest \<Rightarrow> WorkflowInstanceModel \<Rightarrow> inputTarget \<Rightarrow> NodeInstanceModel \<Rightarrow> gomap \<Rightarrow> gomap \<Rightarrow>
   Frame \<Rightarrow> bool \<Rightarrow> InputDeliveryModel svc" where
  "commit_delivery sv req m tgt a start ctx frame done =
     (let c = (completion_of sv req m tgt a)\<lparr>ic_frame := frame, ic_context := mustMarshal (JObj ctx)\<rparr>
      in if branch_id_of tgt \<noteq> [] then
           (if done then failAcceptedInput sv req m tgt a start NodeFinished ctx no_join else deliver_call sv c)
         else do {
           finished \<leftarrow> (if done then do { now \<leftarrow> svc_now sv; ret (Some now) } else ret None);
           deliver_call sv (c\<lparr>ic_status := delivered_status m done, ic_finished_at := finished,
             ic_history := leanInputHistory m start ctx a\<rparr>)
         })"

definition advance_delivery ::
  "service \<Rightarrow> WorkflowContent \<Rightarrow> DeliverRequest \<Rightarrow> WorkflowInstanceModel \<Rightarrow> inputTarget \<Rightarrow> NodeInstanceModel \<Rightarrow>
   gomap \<Rightarrow> gomap \<Rightarrow> InputDeliveryModel svc" where
  "advance_delivery sv wc req m tgt a start ctx =
     (case Advance (content_next wc) (tg_frame tgt) (nNextNode (nfields (tg_node tgt))) of
        (_, _, Inl e) \<Rightarrow> ret (Inl (Failed (EGraph e)))
      | (frame, exited, Inr done) \<Rightarrow> do {
          t \<leftarrow> tick;
          case RunExitedGroupPosts (\<lambda>n c. RunPost (sv_vm sv t 0) n c None) (content_lookup wc) exited ctx of
            (final, Some e) \<Rightarrow> failAcceptedInput sv req m tgt a start NodeFinished final e
          | (final, None) \<Rightarrow> commit_delivery sv req m tgt a start final frame done
        })"

text \<open>The merge of the payload and the node's own post hook, which sees the raw payload.\<close>

definition hook_value :: "json \<Rightarrow> json option" where
  "hook_value v = (if v = JNull then None else Some v)"

definition accept_delivery ::
  "service \<Rightarrow> WorkflowContent \<Rightarrow> DeliverRequest \<Rightarrow> WorkflowInstanceModel \<Rightarrow> inputTarget \<Rightarrow> NodeInstanceModel \<Rightarrow>
   gomap \<Rightarrow> raw \<Rightarrow> InputDeliveryModel svc" where
  "accept_delivery sv wc req m tgt a start ctxRaw =
     (case pl_json (dr_payload req) of
        None \<Rightarrow> ret (Inl (Invalid ''input body must be valid JSON''))
      | Some v \<Rightarrow>
          if ctxRaw = Some JNull then ret (Inl nil_map)
          else let p = deliveryPrincipal sv req; n = tg_node tgt;
                   ctx = map_put (output_key n) (inputContextValue n p (deliveryActor sv req p) v) start
               in do {
                    t \<leftarrow> tick;
                    case RunPost (sv_vm sv t 0) n ctx (hook_value v) of
                      Inl e \<Rightarrow> failAcceptedInput sv req m tgt a start NodeFailed ctx e
                    | Inr post \<Rightarrow> advance_delivery sv wc req m tgt a start post
                  })"

section \<open>The handler\<close>

definition input_request :: "DeliverRequest \<Rightarrow> NodeContent \<Rightarrow> gomap \<Rightarrow> Request" where
  "input_request req n ctx = \<lparr>rq_node = n, rq_context = ctx, rq_vars = [], rq_payload = pl_text (dr_payload req),
     rq_key = [], rq_instance = [], rq_node_instance = []\<rparr>"

definition target_context :: "WorkflowInstanceModel \<Rightarrow> inputTarget \<Rightarrow> raw" where
  "target_context m tgt = (case tg_branch tgt of None \<Rightarrow> wm_context m | Some b \<Rightarrow> bm_context b)"

definition channel_of :: "DeliverRequest \<Rightarrow> string" where
  "channel_of req = (if dr_source req = [] then ''http'' else dr_source req)"

definition wrong_channel :: "DeliverRequest \<Rightarrow> NodeContent \<Rightarrow> svc_err" where
  "wrong_channel req n = Conflict (''input source '' @ quoted (channel_of req) @
     '' does not match input node channel '' @ quoted (nChannel (nfields n)))"

definition deliver_fresh ::
  "service \<Rightarrow> WorkflowContent \<Rightarrow> DeliverRequest \<Rightarrow> WorkflowInstanceModel \<Rightarrow> InputDeliveryModel svc" where
  "deliver_fresh sv wc req m =
     andThen (resolveInputTarget m wc req) (\<lambda>tgt.
     andThen (authorizeDelivery sv m (tg_node tgt) (deliveryPrincipal sv req) (isAnonymousDelivery req)) (\<lambda>_.
     andThen (check (nChannel (nfields (tg_node tgt)) = channel_of req) (wrong_channel req (tg_node tgt))) (\<lambda>_.
     andThen (assertInputParked m tgt req) (\<lambda>(a, start). do {
       t \<leftarrow> tick;
       case ValidateInput (sv_vm sv t) (input_request req (tg_node tgt) start) of
         Inl e \<Rightarrow> ret (Inl (Invalid (''input validation failed: '' @ error_text (sv_leaf_text sv) e)))
       | Inr (Some msg) \<Rightarrow> rejectInput sv req m tgt a msg
       | Inr None \<Rightarrow> accept_delivery sv wc req m tgt a start (target_context m tgt)
     }))))"

definition resolve_content :: "service \<Rightarrow> WorkflowInstanceModel \<Rightarrow> WorkflowContent svc" where
  "resolve_content sv m = do { t \<leftarrow> tick; ret (sv_resolve sv t (wm_definition m)) }"

definition deliver_authorized :: "service \<Rightarrow> DeliverRequest \<Rightarrow> WorkflowInstanceModel \<Rightarrow> InputDeliveryModel svc" where
  "deliver_authorized sv req m = do {
     r \<leftarrow> call (reads (GetDeliveryByKey (wm_id m) (dr_key req)));
     case r of
       Inr existing \<Rightarrow>
         andThen (resolve_content sv m) (\<lambda>wc. replayDelivery sv m wc existing req (deliveryPrincipal sv req))
     | Inl e \<Rightarrow>
         if \<not> is_repo ErrDeliveryNotFound e then ret (Inl (Failed e))
         else if wm_status m \<in> {WorkflowFinished, WorkflowFailed, WorkflowStopped}
         then ret (Inl (is_terminal (dr_instance req)))
         else andThen (resolve_content sv m) (\<lambda>wc. deliver_fresh sv wc req m)
   }"

definition svc_DeliverInput :: "service \<Rightarrow> DeliverRequest \<Rightarrow> InputDeliveryModel svc" where
  "svc_DeliverInput sv req =
     andThen (check (\<not> trimmed_empty (dr_key req)) (Invalid ''Idempotency-Key header is required'')) (\<lambda>_.
     andThen (check (pl_text (dr_payload req) \<noteq> []) (Invalid ''input body is required'')) (\<lambda>_.
     andThen (passing (reads (GetByID (dr_instance req)))) (\<lambda>m.
     andThen (authorize (Some m) (deliveryPrincipal sv req)) (\<lambda>_. deliver_authorized sv req m))))"

end
