(* ===== verification/ServiceSample.thy ===== *)
theory ServiceSample
  imports ServiceInput EngineSample
begin

text \<open>
  A concrete service over the databases of \<open>Sample\<close>, for the witnesses: it resolves every
  definition to the workflow of \<open>EngineSample\<close> and keeps one secret.
\<close>

definition sample_service :: service where
  "sample_service =
     \<lparr>sv_rt = sample_rt, sv_clock = (\<lambda>t. 200 + int t), sv_dbclock = (\<lambda>t. 200 + int t),
      sv_newid = (\<lambda>t. replicate (Suc t) CHR ''s''), sv_actor = ''service'',
      sv_parse = (\<lambda>_. Inr sample_content),
      sv_definition = (\<lambda>_ i. Inr \<lparr>wd_id = i, wd_lineage = ''family'', wd_version = int (length i), wd_content = None\<rparr>),
      sv_resolve = (\<lambda>_ _. Inr sample_content), sv_materialize = (\<lambda>_ wc. Inr wc),
      sv_secrets = Some (\<lambda>_. Inr [(''token'', ''hush'')]), sv_forms = None,
      sv_environ = (\<lambda>_. [(''SIMPWF_REGION'', ''eu'')]), sv_override = \<lparr>ov_extra = [], ov_allow = []\<rparr>,
      sv_vm = (\<lambda>_ _ opts. VmReturned (so_context opts) (JBool True)), sv_replay_max = 3, sv_lean_default = False,
      sv_catalog = [(''agent'', [''input:deliver''])], sv_range = (\<lambda>ss. ss), sv_leaf_text = (\<lambda>_. ''error'')\<rparr>"

definition user_called :: "uid \<Rightarrow> Principal" where
  "user_called u = \<lparr>pr_subject = u, pr_issuer = ''idp'', pr_name = u, pr_email = [], pr_roles = [''agent''],
     pr_service = False, pr_user = u\<rparr>"

definition control_by :: "uid \<Rightarrow> ControlRequest" where
  "control_by u = \<lparr>co_instance = ''wf'', co_reason = ''halt'', co_principal = Some (user_called u), co_actor = u\<rparr>"

definition status_of :: "uid \<Rightarrow> db \<Rightarrow> WorkflowStatus option" where
  "status_of i d = map_option wm_status (find_instance i d)"

text \<open>An instance of ''user'' parked at its input node, and an answer to it.\<close>

definition db_asking :: db where
  "db_asking = w_db (snd (run_state (Process sample_engine ''wf'') (world_of (db_at ''ask'') [])))"

definition answer_by :: "uid \<Rightarrow> DeliverRequest" where
  "answer_by u = \<lparr>dr_instance = ''wf'', dr_branch = [], dr_key = ''k1'', dr_payload = \<lparr>pl_text = ''5'', pl_json = Some (JInt 5)\<rparr>,
     dr_source = [], dr_principal = Some (user_called u), dr_actor = u, dr_anonymous = False\<rparr>"

text \<open>A paused instance, and its migration to a newer definition.\<close>

definition db_paused :: db where
  "db_paused = snd (projr (Pause sample_rt 3 ''wf'' db_inserted))"

definition move_to :: "uid \<Rightarrow> MigrateRequest" where
  "move_to start = \<lparr>mg_source = ''wf'', mg_definition = ''def2'', mg_start = start, mg_patch = None, mg_paused = False,
     mg_reason = ''fix'', mg_principal = Some (user_called ''user''), mg_actor = []\<rparr>"

end
