(* ===== verification/ServiceSafety.thy ===== *)
theory ServiceSafety
  imports ServiceSample EngineSafety
begin

text \<open>
  Every use case keeps to the repository's steps whatever other workers do between its
  calls, the read side writes nothing, and neither does a call by someone who may not touch
  the instance.
\<close>

section \<open>Use cases as commands\<close>

datatype command =
    DoCreate CreateInstance | DoUpdateContext UpdateContext | DoPause ControlRequest
  | DoResume ControlRequest | DoStop ControlRequest | DoRollback RollbackRequest
  | DoMigrate MigrateRequest | DoDeliver DeliverRequest
  | SeeStatus uid Principal | SeeDetail uid Principal | SeeContext uid Principal
  | SeeNode uid uid int Principal

definition discard :: "'a svc \<Rightarrow> unit svc" where
  "discard m = andThen m (\<lambda>_. ret (Inr ()))"

fun perform :: "service \<Rightarrow> command \<Rightarrow> unit svc" where
  "perform sv (DoCreate r) = discard (svc_Create sv r)"
| "perform sv (DoUpdateContext r) = discard (svc_UpdateContext sv r)"
| "perform sv (DoPause r) = discard (svc_Pause sv r)"
| "perform sv (DoResume r) = discard (svc_Resume sv r)"
| "perform sv (DoStop r) = discard (svc_Stop sv r)"
| "perform sv (DoRollback r) = discard (svc_Rollback sv r)"
| "perform sv (DoMigrate r) = discard (svc_Migrate sv r)"
| "perform sv (DoDeliver r) = discard (svc_DeliverInput sv r)"
| "perform sv (SeeStatus i p) = discard (svc_GetStatus sv i p)"
| "perform sv (SeeDetail i p) = discard (svc_GetStatusDetail sv i p)"
| "perform sv (SeeContext i p) = discard (svc_GetContext sv i p)"
| "perform sv (SeeNode i n a p) = discard (svc_NodeDebug sv i n a p)"

section \<open>Steps of the repository\<close>

lemma keeps_andThen [keeps_intro]:
  "keeps d0 P m \<Longrightarrow> (\<And>x. keeps d0 P (k x)) \<Longrightarrow> keeps d0 P (andThen m k)"
  unfolding andThen_def by (intro keeps_intro)

lemma keeps_passing [keeps_intro]: "stable P \<Longrightarrow> allowed P f \<Longrightarrow> keeps d0 P (passing f)"
  unfolding passing_def by (intro keeps_intro)

lemma keeps_small [keeps_intro]:
  "keeps d0 P (check ok e)" "keeps d0 P (svc_now sv)" "keeps d0 P (mustNewID sv)" "keeps d0 P (authorize inst p)"
  "keeps d0 P (env_snapshot sv)" "keeps d0 P (secret_snapshot sv)" "keeps d0 P (resolve_content sv m)"
  "keeps d0 P (created_context sv req)" "keeps d0 P (migrated_context sv m patch)"
  unfolding check_def svc_now_def mustNewID_def authorize_def env_snapshot_def secret_snapshot_def
    resolve_content_def created_context_def migrated_context_def
  by (intro keeps_intro)+

lemma keeps_forms [keeps_intro]:
  "keeps d0 P (ensureFormsExist get ids)" "keeps d0 P (freeze_forms sv get ids snap)" "keeps d0 P (snapshot_forms sv wc)"
proof -
  show e: "keeps d0 P (ensureFormsExist get ids)" for get ids
    by (induction ids) (auto intro!: keeps_intro split: sum.split svc_err.split)
  show f: "keeps d0 P (freeze_forms sv get ids snap)" for get ids snap
    by (induction ids arbitrary: snap) (auto intro!: keeps_intro)
  show "keeps d0 P (snapshot_forms sv wc)"
    unfolding snapshot_forms_def by (intro keeps_intro e f)
qed

lemma allowed_history [keeps_intro]:
  "allowed P (writes (AppendHistory rt now h))" "allowed P (always (SupersedeAfter i c))"
  "allowed P (always (StopRunningAttempts now i))"
  by (rule allowed_writes, erule repo_step.append_history)
    (rule allowed_always, rule repo_step.supersede repo_step.stop_attempts)+

lemma allowed_controls [keeps_intro]:
  "allowed P (Pause rt now i)" "allowed P (writes (Resume rt now i))" "allowed P (Stop rt now i reason)"
  "allowed P (writes (WakePausedBranch dbnow b))" "allowed P (ReplaceContext rt now cu)"
  "allowed P (RollbackInstance rt now ru)"
  by (rule allowed_op allowed_writes, erule repo_step.intros)+

lemma allowed_insert: "inst_ok w \<Longrightarrow> allowed P (writes (Insert w))"
  by (rule allowed_writes, rule repo_step.insert)

lemma allowed_migrate: "inst_ok (mu_new u) \<Longrightarrow> allowed P (writes (MigrateInstance rt now u))"
  by (rule allowed_writes, rule repo_step.migrate)

lemma allowed_deliver:
  "ic_status c \<in> {WorkflowWaiting, WorkflowPaused, WorkflowFinished} \<Longrightarrow> allowed P (DeliverInput rt dbnow now c)"
  by (rule allowed_op, rule repo_step.deliver)

lemma new_instance_ok:
  "st \<noteq> WorkflowRunning \<Longrightarrow> inst_ok (new_instance i defID mode debug st frame ctxRaw forms source actor now)"
  by (simp add: inst_ok_def new_instance_def)

lemma keeps_event [keeps_intro]: "stable P \<Longrightarrow> keeps d0 P (record_event sv i typ data actor)"
  unfolding record_event_def by (intro keeps_intro)

lemma keeps_append_history [keeps_intro]: "stable P \<Longrightarrow> keeps d0 P (append_history sv h)"
  unfolding append_history_def by (intro keeps_intro)

lemma keeps_loads [keeps_intro]:
  assumes "stable P"
  shows "keeps d0 P (load_instance sv i)" "keeps d0 P (find_current i)" "keeps d0 P (load_history i)"
    "keeps d0 P (leanReconstructBefore sv i c)" "keeps d0 P (controlled sv req)" "keeps d0 P (load_parallel i)"
    "keeps d0 P (hasLiveParallel i)" "keeps d0 P (running_attempt i)" "keeps d0 P (rollback_occurrence i t)"
    "keeps d0 P (live_attempt f)"
  unfolding load_instance_def find_current_def load_history_def leanReconstructBefore_def controlled_def
    load_parallel_def hasLiveParallel_def running_attempt_def rollback_occurrence_def live_attempt_def
  by (intro keeps_intro assms)+

lemma keeps_create: "stable P \<Longrightarrow> keeps d0 P (svc_Create sv req)"
  unfolding svc_Create_def store_created_def Let_def
  by (intro keeps_intro allowed_insert) (auto simp: new_instance_def inst_ok_def)

lemma keeps_update: "stable P \<Longrightarrow> keeps d0 P (svc_UpdateContext sv req)"
  unfolding svc_UpdateContext_def replace_context_def by (intro keeps_intro)

lemma keeps_pause: "stable P \<Longrightarrow> keeps d0 P (svc_Pause sv req)"
  unfolding svc_Pause_def by (intro keeps_intro)

lemma keeps_pick_all [keeps_intro]: "stable P \<Longrightarrow> keeps d0 P (pick_all depth xs pick)"
  by (induction xs arbitrary: pick) (auto intro!: keeps_intro)

lemma keeps_resume: "stable P \<Longrightarrow> keeps d0 P (svc_Resume sv req)"
  unfolding svc_Resume_def resumeDebugStep_def wake_pick_def resume_instance_def by (intro keeps_intro)

lemma keeps_stop: "stable P \<Longrightarrow> keeps d0 P (svc_Stop sv req)"
  unfolding svc_Stop_def by (intro keeps_intro)

lemma keeps_rollback: "stable P \<Longrightarrow> keeps d0 P (svc_Rollback sv req)"
  unfolding svc_Rollback_def rollback_to_def move_cursor_def resolveRollbackContext_def rollback_instance_def
    rewind_history_def
  by (intro keeps_intro)

lemma keeps_migrate: "stable P \<Longrightarrow> keeps d0 P (svc_Migrate sv req)"
  unfolding svc_Migrate_def replace_instance_def migrate_instance_def Let_def
  by (intro keeps_intro allowed_migrate) (auto simp: migrate_update_def new_instance_def inst_ok_def)

lemma keeps_deliver_call:
  "stable P \<Longrightarrow> ic_status c \<in> {WorkflowWaiting, WorkflowPaused, WorkflowFinished} \<Longrightarrow> keeps d0 P (deliver_call sv c)"
  unfolding deliver_call_def by (intro keeps_intro allowed_deliver)

lemma keeps_gate [keeps_intro]: "stable P \<Longrightarrow> keeps d0 P (authorizeDelivery sv m n p anonymous)"
  unfolding authorizeDelivery_def denyInputAs_def by (intro keeps_intro)

lemma keeps_fail_accepted [keeps_intro]: "stable P \<Longrightarrow> keeps d0 P (failAcceptedInput sv req m tgt a start st ctx e)"
  unfolding failAcceptedInput_def by (intro keeps_deliver_call) (simp_all add: completion_of_def)

lemma keeps_reject [keeps_intro]: "stable P \<Longrightarrow> keeps d0 P (rejectInput sv req m tgt a msg)"
  unfolding rejectInput_def by (intro keeps_intro keeps_deliver_call) (simp_all add: completion_of_def)

lemma keeps_commit [keeps_intro]: "stable P \<Longrightarrow> keeps d0 P (commit_delivery sv req m tgt a start ctx frame done)"
  unfolding commit_delivery_def Let_def
  by (intro keeps_intro keeps_deliver_call) (simp_all add: completion_of_def delivered_status_def)

lemma keeps_target [keeps_intro]:
  "stable P \<Longrightarrow> keeps d0 P (resolveInputTarget m wc req)" "stable P \<Longrightarrow> keeps d0 P (assertInputParked m tgt req)"
  unfolding resolveInputTarget_def assertInputParked_def by (intro keeps_intro, assumption?)+

lemma keeps_deliver: "stable P \<Longrightarrow> keeps d0 P (svc_DeliverInput sv req)"
  unfolding svc_DeliverInput_def deliver_authorized_def deliver_fresh_def replayDelivery_def accept_delivery_def
    advance_delivery_def Let_def
  by (intro keeps_intro)

lemma keeps_views:
  assumes "stable P"
  shows "keeps d0 P (svc_GetStatus sv i p)" "keeps d0 P (svc_GetContext sv i p)"
    "keeps d0 P (svc_GetStatusDetail sv i p)" "keeps d0 P (svc_NodeDebug sv i n a p)"
  unfolding svc_GetStatus_def svc_GetContext_def svc_GetStatusDetail_def statusNodes_def lean_set_of_def
    with_cursor_def svc_NodeDebug_def debug_target_def debug_contexts_def leanNodeDebugContexts_def Let_def
  by (intro keeps_intro assms)+

lemma keeps_perform: "stable P \<Longrightarrow> keeps d0 P (perform sv c)"
  by (cases c) (simp_all add: discard_def keeps_andThen keeps_create keeps_update keeps_pause keeps_resume
    keeps_stop keeps_rollback keeps_migrate keeps_deliver keeps_views)

text \<open>
  C6. The API keeps to the repository: whatever other workers do to the database between its
  calls, and whichever of its calls fail, a use case takes the database only through the
  operations of \<open>repo_step\<close>, so it preserves the invariant of the system and every property
  no repository step destroys.
\<close>

theorem service_refines_steps:
  assumes "sys_inv (w_db w)" "list_all good_env (w_env w)"
  shows "repo_steps (w_db w) (w_db (snd (run_state (perform sv c) w))) \<and>
    sys_inv (w_db (snd (run_state (perform sv c) w))) \<and>
    (stable P \<longrightarrow> P (w_db w) \<longrightarrow> P (w_db (snd (run_state (perform sv c) w))))"
proof -
  have "tracked (w_db w) Q (snd (run_state (perform sv c) w))" if "stable Q" "Q (w_db w)" for Q
    using keeps_perform [OF that(1), of "w_db w" sv c] that(2) assms by (simp add: keeps_def tracked_def)
  from this [of "\<lambda>_. True"] this [of P] show ?thesis by (auto simp: tracked_def)
qed

section \<open>Reading\<close>

text \<open>The database after the first \<open>k\<close> moves of the other workers, and nothing else.\<close>

definition env_db :: "nat \<Rightarrow> world \<Rightarrow> db" where
  "env_db k w = fold ce_before (take k (w_env w)) (w_db w)"

definition observed :: "world \<Rightarrow> world \<Rightarrow> bool" where
  "observed w w' \<longleftrightarrow> (\<exists>k. w_db w' = env_db k w \<and> w_env w' = drop k (w_env w))"

definition observes :: "'a step \<Rightarrow> bool" where
  "observes m \<longleftrightarrow> (\<forall>w. observed w (snd (run_state m w)))"

lemma observed_refl [simp]: "observed w w"
  by (auto simp: observed_def env_db_def intro: exI [of _ 0])

lemma observed_trans: "observed w w' \<Longrightarrow> observed w' w'' \<Longrightarrow> observed w w''"
  unfolding observed_def env_db_def
  by (elim exE conjE, rule_tac x = "k + ka" in exI) (simp add: take_add add.commute)

lemma observed_one:
  "w_db w' = ce_before (next_env w) (w_db w) \<Longrightarrow> w_env w' = tl (w_env w) \<Longrightarrow> observed w w'"
  unfolding observed_def env_db_def
  by (rule exI [of _ 1], cases "w_env w") (simp_all add: next_env_def alone_def drop_Suc)

lemma observed_before: "observed w (w\<lparr>w_db := ce_before (next_env w) (w_db w), w_env := tl (w_env w)\<rparr>)"
  by (rule observed_one) simp_all

named_theorems observes_intro \<open>steps that write nothing\<close>

lemma observes_basic [observes_intro]:
  "observes (ret x)" "observes tick"
  by (auto simp: observes_def tick_def observed_def env_db_def intro: exI [of _ 0])

lemma observes_bind [observes_intro]: "observes m \<Longrightarrow> (\<And>x. observes (k x)) \<Longrightarrow> observes (m \<bind> k)"
  unfolding observes_def by (auto split: prod.split) (metis observed_trans snd_conv)

lemma observes_call [observes_intro]:
  "observes (call (reads f))" "observes (call (\<lambda>d. Inr (g d, d)))"
  unfolding observes_def
  by (intro allI observed_one; auto simp: call_run Let_def reads_def bindR_def split: option.split sum.split sum.split_asm)+

lemma observes_cases [observes_intro]:
  "(\<And>e. r = Inl e \<Longrightarrow> observes (f e)) \<Longrightarrow> (\<And>x. r = Inr x \<Longrightarrow> observes (g x)) \<Longrightarrow> observes (case_sum f g r)"
  "(p = None \<Longrightarrow> observes n) \<Longrightarrow> (\<And>x. p = Some x \<Longrightarrow> observes (h x)) \<Longrightarrow> observes (case_option n h p)"
  "(\<And>a b. q = (a, b) \<Longrightarrow> observes (k a b)) \<Longrightarrow> observes (case_prod k q)"
  "(c \<Longrightarrow> observes m) \<Longrightarrow> (\<not> c \<Longrightarrow> observes m') \<Longrightarrow> observes (if c then m else m')"
  "observes (j z) \<Longrightarrow> observes (Let z j)"
  by ((cases r; simp), (cases p; simp), (cases q; simp), simp_all)

lemma observes_andThen [observes_intro]: "observes m \<Longrightarrow> (\<And>x. observes (k x)) \<Longrightarrow> observes (andThen m k)"
  unfolding andThen_def by (intro observes_intro)

lemma observes_small [observes_intro]:
  "observes (passing (reads f))" "observes (passing (\<lambda>d. Inr (g d, d)))" "observes (authorize inst p)"
  "observes (load_instance sv i)" "observes (load_history i)" "observes (leanReconstructBefore sv i c)"
  "observes (load_parallel i)"
  unfolding passing_def authorize_def load_instance_def load_history_def leanReconstructBefore_def load_parallel_def
  by (intro observes_intro)+

fun is_view :: "command \<Rightarrow> bool" where
  "is_view (SeeStatus i p) = True"
| "is_view (SeeDetail i p) = True"
| "is_view (SeeContext i p) = True"
| "is_view (SeeNode i n a p) = True"
| "is_view _ = False"

lemma observes_views:
  "observes (svc_GetStatus sv i p)" "observes (svc_GetContext sv i p)"
  "observes (svc_GetStatusDetail sv i p)" "observes (svc_NodeDebug sv i n a p)"
  unfolding svc_GetStatus_def svc_GetContext_def svc_GetStatusDetail_def statusNodes_def lean_set_of_def
    with_cursor_def svc_NodeDebug_def debug_target_def debug_contexts_def leanNodeDebugContexts_def Let_def
  by (intro observes_intro)+

section \<open>Refusals\<close>

text \<open>Under \<open>P\<close> the use case ends in an error, and nothing was written.\<close>

definition refused :: "db \<Rightarrow> (db \<Rightarrow> bool) \<Rightarrow> 'a svc \<Rightarrow> bool" where
  "refused d0 P m \<longleftrightarrow> (\<forall>w. tracked d0 P w \<longrightarrow>
     isl (fst (run_state m w)) \<and> observed w (snd (run_state m w)))"

named_theorems refused_intro \<open>use cases that end in a refusal\<close>

lemma refused_then [refused_intro]: "refused d0 P m \<Longrightarrow> refused d0 P (andThen m k)"
  unfolding refused_def andThen_def
  by (auto split: prod.split sum.split)

lemma refused_ret: "refused d0 P (ret (Inl e))"
  by (simp add: refused_def)

lemma refused_after_ret: "(\<And>x. r = Inr x \<Longrightarrow> refused d0 P (k x)) \<Longrightarrow> refused d0 P (andThen (ret r) k)"
  by (cases r) (simp_all add: andThen_def refused_def)

lemma refused_check [refused_intro]: "refused d0 P (k ()) \<Longrightarrow> refused d0 P (andThen (check ok e) k)"
  unfolding check_def by (rule refused_after_ret) (simp split: if_split_asm)

lemma refused_authorize [refused_intro]:
  "authorizeInstance inst p \<noteq> None \<Longrightarrow> refused d0 P (andThen (authorize inst p) k)"
  unfolding authorize_def by (rule refused_after_ret) (auto split: option.split_asm)

text \<open>After a read, what it returned may be assumed.\<close>

lemma refused_read:
  assumes "stable P" "\<And>d x. sys_inv d \<Longrightarrow> P d \<Longrightarrow> f d = Inr x \<Longrightarrow> refused d0 P (k (Inr x))"
    and "\<And>d e. sys_inv d \<Longrightarrow> P d \<Longrightarrow> f d = Inl e \<Longrightarrow> refused d0 P (k (Inl (ERepo e)))"
    and "\<And>msg. refused d0 P (k (Inl (EUnavailable msg)))"
  shows "refused d0 P (call (reads f) \<bind> k)"
  unfolding refused_def
proof (intro allI impI)
  fix w assume t: "tracked d0 P w"
  let ?d = "ce_before (next_env w) (w_db w)"
  let ?w = "w\<lparr>w_db := ?d, w_env := tl (w_env w)\<rparr>"
  note b = tracked_before [OF t assms(1)]
  have tw: "tracked d0 P ?w" using b by (simp add: tracked_def)
  obtain r where r: "run_state (call (reads f)) w = (r, ?w)" "refused d0 P (k r)"
  proof (cases "ce_fault (next_env w)")
    case (Some msg)
    with assms(4) show thesis by (intro that) (auto simp: call_run Let_def)
  next
    case None
    show thesis
    proof (cases "f ?d")
      case (Inl e)
      with None assms(3) [OF b(2, 3)] show thesis by (intro that) (auto simp: call_run Let_def reads_def)
    next
      case (Inr x)
      with None assms(2) [OF b(2, 3)] show thesis by (intro that) (auto simp: call_run Let_def reads_def)
    qed
  qed
  from r(2) tw have "isl (fst (run_state (k r) ?w)) \<and> observed ?w (snd (run_state (k r) ?w))"
    by (simp add: refused_def)
  with r(1) show "isl (fst (run_state (call (reads f) \<bind> k) w)) \<and> observed w (snd (run_state (call (reads f) \<bind> k) w))"
    using observed_trans [OF observed_before [of w]] by auto
qed

text \<open>The owner of an instance is fixed when it is created.\<close>

definition owned_by :: "uid \<Rightarrow> uid \<Rightarrow> db \<Rightarrow> bool" where
  "owned_by i u d \<longleftrightarrow> (\<exists>m \<in> set (instances d). wm_id m = i \<and> wm_created_by m = u)"

lemma stable_owned [simp]: "stable (owned_by i u)"
  unfolding stable_def
proof (intro allI impI)
  fix d d' assume inv: "sys_inv d" and st: "repo_step d d'" and o': "owned_by i u d"
  from o' obtain m where m: "m \<in> set (instances d)" "wm_id m = i" "wm_created_by m = u" by (auto simp: owned_by_def)
  have "evolves d d'" using repo_step_preserves [OF st inv] by blast
  from evolves_rows(1) [OF this inv m(1)] obtain m' where "m' \<in> set (instances d')" "inst_later m m'" by blast
  with m show "owned_by i u d'" unfolding owned_by_def by (intro bexI [of _ m']) (auto simp: inst_later_def)
qed

lemma owned_found:
  assumes "sys_inv d" "owned_by i u d"
  shows "GetByID i d = Inl e \<Longrightarrow> False" "GetByID i d = Inr m \<Longrightarrow> wm_created_by m = u"
proof -
  from assms obtain n where "n \<in> set (instances d)" "wm_id n = i" "wm_created_by n = u" by (auto simp: owned_by_def)
  moreover have "distinct (map wm_id (instances d))" using assms(1) by (simp add: sys_inv_def distinct_ids_def)
  ultimately have n: "find_instance i d = Some n" "wm_created_by n = u" by (auto intro: by_key_mem)
  then show "GetByID i d = Inl e \<Longrightarrow> False" "GetByID i d = Inr m \<Longrightarrow> wm_created_by m = u"
    by (auto simp: GetByID_def)
qed

lemma refused_found:
  assumes "\<And>m. wm_created_by m = u \<Longrightarrow> refused d0 (owned_by i u) (k m)"
  shows "refused d0 (owned_by i u) (andThen (load_instance sv i) k)"
    and "refused d0 (owned_by i u) (andThen (passing (reads (GetByID i))) k)"
    and "(\<And>m. wm_created_by m = u \<Longrightarrow> refused d0 (owned_by i u) (l (Some m))) \<Longrightarrow>
      refused d0 (owned_by i u) (andThen (find_current i) l)"
proof -
  show "refused d0 (owned_by i u) (andThen (load_instance sv i) k)"
    unfolding andThen_def load_instance_def bind_assoc
    by (rule refused_read) (use assms in \<open>auto simp: refused_ret dest: owned_found\<close>)
  show "refused d0 (owned_by i u) (andThen (passing (reads (GetByID i))) k)"
    unfolding andThen_def passing_def bind_assoc
    by (rule refused_read) (use assms in \<open>auto simp: refused_ret dest: owned_found\<close>)
  show "refused d0 (owned_by i u) (andThen (find_current i) l)"
    if "\<And>m. wm_created_by m = u \<Longrightarrow> refused d0 (owned_by i u) (l (Some m))"
    unfolding andThen_def find_current_def bind_assoc
    by (rule refused_read) (use that in \<open>auto simp: refused_ret dest: owned_found\<close>)
qed

text \<open>The instance a command is about, and who asks.\<close>

fun addressed :: "service \<Rightarrow> command \<Rightarrow> (uid \<times> Principal) option" where
  "addressed sv (DoCreate r) = None"
| "addressed sv (DoUpdateContext r) = Some (uc_instance r, requestPrincipal sv (uc_principal r))"
| "addressed sv (DoPause r) = Some (co_instance r, requestPrincipal sv (co_principal r))"
| "addressed sv (DoResume r) = Some (co_instance r, requestPrincipal sv (co_principal r))"
| "addressed sv (DoStop r) = Some (co_instance r, requestPrincipal sv (co_principal r))"
| "addressed sv (DoRollback r) = Some (rr_instance r, requestPrincipal sv (rr_principal r))"
| "addressed sv (DoMigrate r) = Some (mg_source r, requestPrincipal sv (mg_principal r))"
| "addressed sv (DoDeliver r) = Some (dr_instance r, deliveryPrincipal sv r)"
| "addressed sv (SeeStatus i p) = Some (i, p)"
| "addressed sv (SeeDetail i p) = Some (i, p)"
| "addressed sv (SeeContext i p) = Some (i, p)"
| "addressed sv (SeeNode i n a p) = Some (i, p)"

text \<open>A user who is neither the owner nor a service.\<close>

definition outsider :: "uid \<Rightarrow> Principal \<Rightarrow> bool" where
  "outsider u p \<longleftrightarrow> \<not> pr_service p \<and> pr_user p \<noteq> [] \<and> u \<noteq> [] \<and> u \<noteq> pr_user p"

lemma outsider_refused:
  "outsider (wm_created_by m) p \<Longrightarrow> refused d0 P (andThen (authorize (Some m) p) k)"
  by (rule refused_authorize) (auto simp: outsider_def authorizeInstance_def)

lemma refused_controlled:
  assumes "outsider u (requestPrincipal sv (co_principal req))"
  shows "refused d0 (owned_by (co_instance req) u) (andThen (controlled sv req) k)"
  unfolding controlled_def
  by (rule refused_then, rule refused_found) (use assms in \<open>auto intro: outsider_refused\<close>)

lemma refused_after: "(\<And>x. r = Inr x \<Longrightarrow> refused d0 P (k x)) \<Longrightarrow> refused d0 P (andThen (ret r) k)"
  by (rule refused_after_ret)

lemma outsider_update:
  "outsider u (requestPrincipal sv (uc_principal r)) \<Longrightarrow>
    refused d0 (owned_by (uc_instance r) u) (svc_UpdateContext sv r)"
  unfolding svc_UpdateContext_def
  by (intro refused_check refused_after_ret refused_found) (auto intro!: refused_after_ret outsider_refused)

lemma outsider_controls:
  assumes "outsider u (requestPrincipal sv (co_principal r))"
  shows "refused d0 (owned_by (co_instance r) u) (svc_Pause sv r)"
    and "refused d0 (owned_by (co_instance r) u) (svc_Resume sv r)"
    and "refused d0 (owned_by (co_instance r) u) (svc_Stop sv r)"
  unfolding svc_Pause_def svc_Resume_def svc_Stop_def Let_def by (rule refused_controlled [OF assms])+

lemma outsider_rollback:
  "outsider u (requestPrincipal sv (rr_principal r)) \<Longrightarrow>
    refused d0 (owned_by (rr_instance r) u) (svc_Rollback sv r)"
  unfolding svc_Rollback_def by (intro refused_check refused_found) (auto intro: outsider_refused)

lemma outsider_migrate:
  "outsider u (requestPrincipal sv (mg_principal r)) \<Longrightarrow>
    refused d0 (owned_by (mg_source r) u) (svc_Migrate sv r)"
  unfolding svc_Migrate_def by (intro refused_check refused_found) (auto intro: outsider_refused)

lemma outsider_deliver:
  "outsider u (deliveryPrincipal sv r) \<Longrightarrow> refused d0 (owned_by (dr_instance r) u) (svc_DeliverInput sv r)"
  unfolding svc_DeliverInput_def by (intro refused_check refused_found) (auto intro: outsider_refused)

lemma outsider_views:
  assumes "outsider u p"
  shows "refused d0 (owned_by i u) (svc_GetStatus sv i p)" "refused d0 (owned_by i u) (svc_GetContext sv i p)"
    "refused d0 (owned_by i u) (svc_GetStatusDetail sv i p)" "refused d0 (owned_by i u) (svc_NodeDebug sv i n a p)"
  unfolding svc_GetStatus_def svc_GetContext_def svc_GetStatusDetail_def svc_NodeDebug_def
  by (intro refused_found, use assms in \<open>auto intro: outsider_refused\<close>)+

lemma outsider_perform:
  "addressed sv c = Some (i, p) \<Longrightarrow> outsider u p \<Longrightarrow> refused d0 (owned_by i u) (perform sv c)"
  by (cases c) (auto simp: discard_def intro!: refused_then
    intro: outsider_update outsider_controls outsider_rollback outsider_migrate outsider_deliver outsider_views)

text \<open>
  C7. A call about an instance made by a user who neither owns it nor is a service ends in an
  error and writes nothing: the database is what the other workers made of it while the call
  ran. This holds for every use case that names an instance, reads included.
\<close>

theorem strangers_change_nothing:
  assumes "sys_inv (w_db w)" "list_all good_env (w_env w)" "addressed sv c = Some (i, p)"
    and "owned_by i u (w_db w)" "outsider u p"
  shows "isl (fst (run_state (perform sv c) w)) \<and>
    (\<exists>k. w_db (snd (run_state (perform sv c) w)) = env_db k w)"
proof -
  have "tracked (w_db w) (owned_by i u) w" using assms(1, 2, 4) by (simp add: tracked_def)
  with outsider_perform [OF assms(3, 5), of "w_db w"] show ?thesis
    unfolding refused_def observed_def by blast
qed

text \<open>
  Reading an instance writes nothing: after a status, status detail, context or node debug
  view, whoever asked and whatever the outcome, the database is what the other workers made
  of it while the view was built.
\<close>

theorem views_write_nothing:
  assumes "is_view c"
  shows "\<exists>k. w_db (snd (run_state (perform sv c) w)) = env_db k w"
proof -
  have "observes (perform sv c)"
    using assms by (cases c) (auto simp: discard_def intro!: observes_intro intro: observes_views)
  then show ?thesis by (auto simp: observes_def observed_def)
qed

section \<open>Witnesses\<close>

text \<open>A claimed instance of ''user'', while another worker pauses and stops it.\<close>

definition busy_world :: world where
  "busy_world = world_of db_claimed [pausing, alone, stopping]"

lemma busy_good: "sys_inv (w_db busy_world)" "list_all good_env (w_env busy_world)"
  by (simp_all add: busy_world_def world_of_def reachable_inv [OF start_fresh run_reaches(1)] good_samples)

lemma service_refines_steps_witness:
  "repo_steps db_claimed (w_db (snd (run_state (perform sample_service (DoStop (control_by ''user''))) busy_world)))"
  using service_refines_steps [OF busy_good, of sample_service "DoStop (control_by ''user'')" "\<lambda>_. True"]
  by (simp add: busy_world_def world_of_def)

lemma strangers_change_nothing_witness:
  "isl (fst (run_state (perform sample_service (DoStop (control_by ''mallory''))) busy_world)) \<and>
   \<not> isl (fst (run_state (perform sample_service (DoStop (control_by ''user''))) busy_world))"
proof
  have o': "owned_by ''wf'' ''user'' (w_db busy_world)" unfolding owned_by_def by code_simp
  show "isl (fst (run_state (perform sample_service (DoStop (control_by ''mallory''))) busy_world))"
    using strangers_change_nothing [OF busy_good _ o',
        of sample_service "DoStop (control_by ''mallory'')" "user_called ''mallory''"]
    by (simp add: control_by_def requestPrincipal_def outsider_def user_called_def)
qed code_simp

lemma views_write_nothing_witness:
  "\<exists>k. w_db (snd (run_state (perform sample_service (SeeDetail ''wf'' (user_called ''user''))) busy_world)) =
     env_db k busy_world"
  by (rule views_write_nothing) simp

end
