(* ===== verification/InteriorSafety.thy ===== *)
theory InteriorSafety
  imports Interior ParallelSafety
begin

text \<open>
  What \<open>ParallelInterior\<close> means for the engine: it covers every node a branch of a validated
  block can stand on before its join, except the starts and ends of blocks, and this
  exception lets a migration start inside a block that contains another one.
\<close>

lemma collect_branches_covers:
  assumes "\<And>s t I. (s, t) \<in> set bs \<Longrightarrow> \<exists>I' V. collectBranch fuel idx s t I = Some I' \<and> set I' = set I \<union> W s t"
  shows "\<exists>I'. collect_branches fuel idx bs I = Some I' \<and> set I' = set I \<union> (\<Union>(s, t) \<in> set bs. W s t)"
  using assms
proof (induction bs arbitrary: I)
  case (Cons b bs)
  obtain s t where b: "b = (s, t)" by (cases b)
  from Cons.prems [of s t I] b obtain I1 where I1: "collectBranch fuel idx s t I = Some I1" "set I1 = set I \<union> W s t"
    by auto
  from Cons.IH [of I1] Cons.prems obtain I' where "collect_branches fuel idx bs I1 = Some I'"
    "set I' = set I1 \<union> (\<Union>(s, t) \<in> set bs. W s t)" by auto
  with I1 b show ?case by auto
qed simp

text \<open>The branches of a workflow, as \<open>ParallelInterior\<close> visits them.\<close>

definition all_branches :: "WorkflowContent \<Rightarrow> (NodeContent \<times> uid) list" where
  "all_branches wc = concat (map (\<lambda>s. map (\<lambda>b. (s, snd b)) (branches_of s)) (resolved_starts (wNodes wc)))"

lemma all_branches_mem: "(s, t) \<in> set (all_branches wc) \<longleftrightarrow>
    s \<in> set (resolved_starts (wNodes wc)) \<and> (\<exists>name. (name, t) \<in> set (branches_of s))"
  by (force simp: all_branches_def)

text \<open>What the walk of one branch adds, for any nodes collected before.\<close>

lemma collectBranch_adds:
  assumes v: "ValidateWorkflowContent valid_id wc limits = Inr ()" and p: "parsed_tree wc"
    and s: "s \<in> set (resolved_starts (wNodes wc))" and b: "(name, target) \<in> set (branches_of s)"
  obtains base V where "groupStack (buildGraph wc) (node_id s) = Inr base" "workflow_ok wc"
    "closed (indexParallelTree wc) s name V []"
    "target = nParallelEndNodeID (nfields s) \<or> (target, base) \<in> set V"
    "\<forall>I. \<exists>I'. collectBranch (walk_fuel wc) (indexParallelTree wc) s target I = Some I' \<and> set I' = set I \<union> fst ` set V"
proof -
  obtain base V r' ps ps' where ok: "workflow_ok wc" and st: "groupStack (buildGraph wc) (node_id s) = Inr base"
    and bs: "base_of (indexParallelTree wc) (node_id s) = base"
    and walk: "walk_loop (walk_fuel wc) (indexParallelTree wc) s name [(target, base)] [] False ps = Inr (V, True, ps')"
    by (rule validated_walk [OF v p s b]) auto
  have cl0: "closed (indexParallelTree wc) s name [] [(target, base)]" by (simp add: closed_def)
  show thesis
    by (rule that [OF st ok]) (use walk_loop_closed [OF walk cl0] collect_loop_visits [OF walk] bs in
      \<open>auto simp: collectBranch_def\<close>)
qed

text \<open>
  C20. A migration cannot start inside a parallel block: in a validated workflow every node a
  cursor can stand on between a branch target and the block's end is in \<open>ParallelInterior\<close>,
  unless it starts or ends a block.
\<close>

theorem parallel_interior_covers:
  assumes v: "ValidateWorkflowContent valid_id wc limits = Inr ()" and p: "parsed_tree wc"
    and s: "s \<in> set (resolved_starts (wNodes wc))" and b: "(name, target) \<in> set (branches_of s)"
    and base: "groupStack (buildGraph wc) (node_id s) = Inr base"
    and reach: "(region_step (buildGraph wc) s)\<^sup>*\<^sup>* \<lparr>CurrentNodeID = target, GroupStack = base\<rparr> f"
    and inside: "CurrentNodeID f \<notin> set (block_boundary (wNodes wc))"
  shows "\<exists>interior. ParallelInterior wc = Some interior \<and> CurrentNodeID f \<in> set interior"
proof -
  let ?cb = "collectBranch (walk_fuel wc) (indexParallelTree wc)"
  let ?W = "\<lambda>s t. set (the (?cb s t []))"
  have all: "\<exists>I'. ?cb s t I = Some I' \<and> set I' = set I \<union> ?W s t" if "(s, t) \<in> set (all_branches wc)" for s t I
  proof -
    from that obtain name where st: "s \<in> set (resolved_starts (wNodes wc))" "(name, t) \<in> set (branches_of s)"
      by (auto simp: all_branches_mem)
    show ?thesis
    proof (rule collectBranch_adds [OF v p st])
      fix V :: "cursor list"
      assume V: "\<forall>I. \<exists>I'. ?cb s t I = Some I' \<and> set I' = set I \<union> fst ` set V"
      from spec [OF V, of "[]"] spec [OF V, of I] show ?thesis by auto
    qed
  qed
  from collect_branches_covers [of "all_branches wc" "walk_fuel wc" "indexParallelTree wc" ?W "[]"] all
  obtain I where I: "collect_branches (walk_fuel wc) (indexParallelTree wc) (all_branches wc) [] = Some I"
    "set I = (\<Union>(s, t) \<in> set (all_branches wc). ?W s t)" by auto
  obtain base' V where V: "groupStack (buildGraph wc) (node_id s) = Inr base'" "workflow_ok wc"
    "closed (indexParallelTree wc) s name V []"
    "target = nParallelEndNodeID (nfields s) \<or> (target, base') \<in> set V"
    "\<forall>I. \<exists>I'. ?cb s target I = Some I' \<and> set I' = set I \<union> fst ` set V"
    by (rule collectBranch_adds [OF v p s b])
  have "nParallelEndNodeID (nfields s) \<in> set (block_boundary (wNodes wc))"
    using s by (auto simp: resolved_starts_def block_boundary_def)
  moreover have "CurrentNodeID f = nParallelEndNodeID (nfields s) \<or> (CurrentNodeID f, GroupStack f) \<in> set V"
    by (rule closed_region [OF V(2, 3), of "(target, base)"]) (use V(1, 4) base reach in auto)
  ultimately have "CurrentNodeID f \<in> ?W s target" using spec [OF V(5), of "[]"] inside by force
  moreover have "(s, target) \<in> set (all_branches wc)" using s b by (auto simp: all_branches_mem)
  ultimately have "CurrentNodeID f \<in> set I" using I(2) by auto
  with I(1) inside show ?thesis by (auto simp: ParallelInterior_def all_branches_def)
qed

lemma parallel_interior_covers_witness:
  "\<exists>interior. ParallelInterior parallel_workflow = Some interior \<and> ''q'' \<in> set interior"
proof -
  have s: "sample_block \<in> set (resolved_starts (wNodes parallel_workflow))"
    by (simp add: resolved_starts_def parallel_workflow_def sample_block_def plain_node_def parallelUnresolved_def)
  have b: "(''b'', ''q'') \<in> set (branches_of sample_block)" by (simp add: branches_of_def sample_block_def)
  have base: "groupStack (buildGraph parallel_workflow) (node_id sample_block) = Inr []" by code_simp
  have "CurrentNodeID \<lparr>CurrentNodeID = ''q'', GroupStack = []\<rparr> \<notin> set (block_boundary (wNodes parallel_workflow))"
    by code_simp
  from parallel_interior_covers [OF parallel_workflow_valid parallel_workflow_parsed s b base rtranclp.rtrancl_refl this]
  show ?thesis by simp
qed

text \<open>A branch that holds a second block.\<close>

definition inner_block :: NodeContent where
  "inner_block = NodeContent ((plain_node NTParallelStart ''i'')\<lparr>nNextNode := ''e'',
     nParallelBranches := Some [(''a'', ''x''), (''b'', ''y'')], nParallelEndNodeID := ''j''\<rparr>) None"

definition outer_block :: NodeContent where
  "outer_block = NodeContent ((plain_node NTParallelStart ''o'')\<lparr>
     nParallelBranches := Some [(''a'', ''i''), (''b'', ''z'')], nParallelEndNodeID := ''e''\<rparr>) None"

definition nested_workflow :: WorkflowContent where
  "nested_workflow = \<lparr>wStartNodeID = ''o'', wKeys = [],
     wNodes = [outer_block, inner_block,
       NodeContent ((plain_node NTScript ''x'')\<lparr>nNextNode := ''j''\<rparr>) None,
       NodeContent ((plain_node NTScript ''y'')\<lparr>nNextNode := ''j''\<rparr>) None,
       NodeContent ((plain_node NTParallelEnd ''j'')\<lparr>nNextNode := ''e'', nCombiningScript := ''m''\<rparr>) None,
       NodeContent ((plain_node NTScript ''z'')\<lparr>nNextNode := ''e''\<rparr>) None,
       NodeContent ((plain_node NTParallelEnd ''e'')\<lparr>nCombiningScript := ''m''\<rparr>) None],
     wContextMode = None, wStatusUpdate = None\<rparr>"

text \<open>
  The start of a nested block is not counted as interior of the block around it: in a valid
  workflow a migration may start at a node that is a branch target of another block.
\<close>

theorem nested_start_not_interior:
  "ValidateWorkflowContent (\<lambda>i. i \<noteq> []) nested_workflow DefaultParallelLimits = Inr () \<and>
   (''a'', ''i'') \<in> set (branches_of outer_block) \<and> outer_block \<in> set (resolved_starts (wNodes nested_workflow)) \<and>
   ParallelInterior nested_workflow = Some [''y'', ''x'', ''z''] "
  by code_simp

end
