(* ===== verification/ServiceCursor.thy ===== *)
theory ServiceCursor
  imports ServiceRollback InteriorSafety
begin

text \<open>
  The service finds nodes and the groups around them by walking the content itself. On a
  validated workflow it finds what the engine's graph holds, so a cursor set by a rollback or
  a migration is one the engine can continue from.
\<close>

section \<open>The two walks\<close>

lemma walk_entries_Cons:
  "walk_entries keys anc (n # ns) =
     (n, keys, anc) # (case group_of n of None \<Rightarrow> [] | Some g \<Rightarrow> walk_entries (group_keys g) (anc @ [node_id n]) (gNodes g)) @
     walk_entries keys anc ns"
  by (simp add: walk_entries.simps [of keys anc "n # ns"] walk_entries.simps [of keys anc ns])

lemma walk_entries_Nil [simp]: "walk_entries keys anc [] = []"
  by (simp add: walk_entries.simps)

lemma find_append_case: "find P (xs @ ys) = (case find P xs of None \<Rightarrow> find P ys | Some x \<Rightarrow> Some x)"
  by (induction xs) auto

abbreviation entry_at :: "uid \<Rightarrow> graph_entry list \<Rightarrow> graph_entry option" where
  "entry_at i \<equiv> find (\<lambda>e. node_id (fst e) = i)"

lemma ancestor_stack_find:
  "ancestor_stack ns i anc = map_option (\<lambda>e. snd (snd e)) (entry_at i (walk_entries keys anc ns))"
proof (induction ns i anc arbitrary: keys rule: ancestor_stack.induct)
  case (2 n ns i anc)
  show ?case
  proof (cases "group_of n")
    case None
    then show ?thesis using 2(1) by (simp add: ancestor_stack.simps walk_entries_Cons)
  next
    case (Some g)
    then show ?thesis using 2(2) [of g "group_keys g"] 2(3) [of g keys]
      by (simp add: ancestor_stack.simps walk_entries_Cons find_append_case split: option.split)
  qed
qed (simp add: ancestor_stack.simps)

lemma findNode_find: "findNode ns i = map_option fst (entry_at i (walk_entries keys anc ns))"
proof (induction ns i arbitrary: keys anc rule: findNode.induct)
  case (2 n ns i)
  show ?case
  proof (cases "group_of n")
    case None
    then show ?thesis using 2(1) [of keys anc] by (simp add: findNode.simps walk_entries_Cons)
  next
    case (Some g)
    then show ?thesis using 2(2) [of g "group_keys g" "anc @ [node_id n]"] 2(3) [of g keys anc]
      by (simp add: findNode.simps walk_entries_Cons find_append_case split: option.split)
  qed
qed (simp add: findNode.simps)

lemma ancestor_stack_None: "ancestor_stack ns i anc = None \<longleftrightarrow> findNode ns i = None"
  by (simp add: ancestor_stack_find [of _ _ _ "[]"] findNode_find [of _ _ "[]" anc])

lemma graph_finds:
  assumes "workflow_ok wc"
  shows "byID (buildGraph wc) i = findNode (wNodes wc) i"
    and "stackByNode (buildGraph wc) i = ancestor_stack (wNodes wc) i []"
proof -
  let ?E = "walk_entries (wKeys wc) [] (wNodes wc)"
  have "distinct (map node_id (map fst ?E))" using assms by (simp add: walk_entries_nodes workflow_ok_def)
  then have "distinct (map (\<lambda>e. node_id (fst e)) ?E)" by (simp add: comp_def)
  from fold_add_entry [OF this, of "\<lparr>byID = Map.empty, keysByNode = Map.empty, stackByNode = Map.empty\<rparr>" i]
  show "byID (buildGraph wc) i = findNode (wNodes wc) i"
    and "stackByNode (buildGraph wc) i = ancestor_stack (wNodes wc) i []"
    by (simp_all add: buildGraph_def findNode_find [of _ _ "wKeys wc" "[]"] ancestor_stack_find [of _ _ _ "wKeys wc"]
      split: option.split)
qed

text \<open>
  C1. The service's walks agree with the engine's graph: on a validated workflow \<open>findNode\<close>
  returns what the graph's index returns, and the group stack a rollback or a migration
  computes for a node, the start node included, is exactly the one the graph stores, an
  unknown node being an error in both.
\<close>

theorem service_walks_agree:
  assumes "ValidateWorkflowContent valid_id wc limits = Inr ()" "parsed_tree wc"
  shows "findNode (wNodes wc) i = byID (buildGraph wc) i \<and>
    (content_stack wc i = Inr st \<longleftrightarrow> groupStack (buildGraph wc) i = Inr st) \<and>
    (isl (content_stack wc i) \<longleftrightarrow> isl (groupStack (buildGraph wc) i))"
proof -
  have ok: "workflow_ok wc" by (rule Validate_workflow_ok [OF assms])
  note f = graph_finds [OF ok] and start = groupStack_start [OF ok]
  show ?thesis
  proof (cases "i = wStartNodeID wc")
    case True
    with start have "stackByNode (buildGraph wc) i = Some []" by (simp add: groupStack_Inr_iff)
    moreover have "findNode (wNodes wc) i \<noteq> None"
      using calculation f(2) ancestor_stack_None [of "wNodes wc" i "[]"] by auto
    ultimately show ?thesis using f True by (auto simp: content_stack_def groupStack_def)
  next
    case False
    then show ?thesis using f by (auto simp: content_stack_def groupStack_def split: option.split)
  qed
qed

lemma service_walks_agree_witness:
  "content_stack sample_workflow ''c'' = Inr [''g'']"
proof -
  have "groupStack (buildGraph sample_workflow) ''c'' = Inr [''g'']" by code_simp
  with service_walks_agree [OF sample_workflow_valid sample_workflow_parsed, of "''c''" "[''g'']"] show ?thesis by blast
qed

text \<open>
  A migration starts at a sound cursor: when the checks on the start node of a validated
  target definition pass, the cursor the new instance gets stands on a node of the target with
  exactly the groups around it, and on no node the scan of the parallel blocks found.
\<close>

theorem migration_cursor_sound:
  assumes "ValidateWorkflowContent valid_id wc limits = Inr ()" "parsed_tree wc" "migrate_start wc start = Inr st"
  shows "kg.at_node (buildGraph wc) \<lparr>CurrentNodeID = start, GroupStack = st\<rparr> \<and>
    (\<forall>interior. ParallelInterior wc = Some interior \<longrightarrow> start \<notin> set interior)"
  using assms(3) service_walks_agree [OF assms(1, 2), of start st]
  by (auto simp: migrate_start_def kg.at_node_def split: if_split_asm sum.split_asm)

lemma migration_cursor_sound_witness:
  "kg.at_node (buildGraph sample_workflow) \<lparr>CurrentNodeID = ''c'', GroupStack = [''g'']\<rparr>"
proof -
  have "migrate_start sample_workflow ''c'' = Inr [''g'']" by code_simp
  from migration_cursor_sound [OF sample_workflow_valid sample_workflow_parsed this] show ?thesis by blast
qed

end
