(* ===== verification/ServiceGates.thy ===== *)
theory ServiceGates
  imports ServiceSafety ServiceCursor
begin

text \<open>
  What a use case has established when it succeeds: the gates an accepted input passed, and
  what a migration checked and committed. The cursor both migration and rollback set is the
  one the engine's graph gives.
\<close>

section \<open>Success\<close>

text \<open>A success of the step has the property, for a step reached by reads alone, and for any.\<close>

definition grants :: "world \<Rightarrow> ('a \<Rightarrow> bool) \<Rightarrow> 'a svc \<Rightarrow> bool" where
  "grants w0 Q m \<longleftrightarrow> (\<forall>w x. observed w0 w \<longrightarrow> fst (run_state m w) = Inr x \<longrightarrow> Q x)"

definition yields :: "('a \<Rightarrow> bool) \<Rightarrow> 'a svc \<Rightarrow> bool" where
  "yields Q m \<longleftrightarrow> (\<forall>w x. fst (run_state m w) = Inr x \<longrightarrow> Q x)"

lemma yields_grants: "yields Q m \<Longrightarrow> grants w0 Q m"
  by (simp add: yields_def grants_def)

lemma yields_known: "(\<And>x. Q x) \<Longrightarrow> yields Q m"
  by (simp add: yields_def)

lemma yields_ret [simp]: "yields Q (ret r) \<longleftrightarrow> (\<forall>x. r = Inr x \<longrightarrow> Q x)"
  by (simp add: yields_def)

lemma yields_then: "(\<And>x. yields Q (k x)) \<Longrightarrow> yields Q (andThen m k)"
  unfolding yields_def andThen_def by (auto split: prod.splits sum.splits)

lemma grants_ret: "grants w0 Q (ret r) \<longleftrightarrow> (\<forall>x. r = Inr x \<longrightarrow> Q x)"
  by (auto simp: grants_def intro: observed_refl)

lemma grants_after_ret: "(\<And>x. r = Inr x \<Longrightarrow> grants w0 Q (k x)) \<Longrightarrow> grants w0 Q (andThen (ret r) k)"
  by (cases r) (simp_all add: andThen_def grants_def)

lemma grants_check: "(ok \<Longrightarrow> grants w0 Q (k ())) \<Longrightarrow> grants w0 Q (andThen (check ok e) k)"
  unfolding check_def by (rule grants_after_ret) (simp split: if_split_asm)

lemma grants_authorize:
  "(authorizeInstance m p = None \<Longrightarrow> grants w0 Q (k ())) \<Longrightarrow> grants w0 Q (andThen (authorize m p) k)"
  unfolding authorize_def by (rule grants_after_ret) (simp split: option.split_asm)

lemma grants_tick: "(\<And>t. grants w0 Q (k t)) \<Longrightarrow> grants w0 Q (tick \<bind> k)"
  unfolding grants_def tick_def
proof (intro allI impI)
  fix w x assume g: "\<And>t. \<forall>w x. observed w0 w \<longrightarrow> fst (run_state (k t) w) = Inr x \<longrightarrow> Q x"
    and o': "observed w0 w" and r: "fst (run_state (State (\<lambda>w. (w_tick w, w\<lparr>w_tick := Suc (w_tick w)\<rparr>)) \<bind> k) w) = Inr x"
  have "observed w0 (w\<lparr>w_tick := Suc (w_tick w)\<rparr>)" using o' by (simp add: observed_def)
  with g r show "Q x" by auto
qed

lemma grants_observe: "observes m \<Longrightarrow> (\<And>x. grants w0 Q (k x)) \<Longrightarrow> grants w0 Q (m \<bind> k)"
  unfolding grants_def observes_def by (auto split: prod.splits) (metis observed_trans snd_conv)

lemma observed_call:
  assumes "observed w0 w"
  shows "\<exists>k. ce_before (next_env w) (w_db w) = env_db k w0"
    and "w_db w' = ce_before (next_env w) (w_db w) \<Longrightarrow> w_env w' = tl (w_env w) \<Longrightarrow> observed w0 w'"
proof -
  let ?w = "w\<lparr>w_db := ce_before (next_env w) (w_db w), w_env := tl (w_env w)\<rparr>"
  have "observed w0 ?w" using observed_trans [OF assms observed_before] .
  then show "\<exists>k. ce_before (next_env w) (w_db w) = env_db k w0" by (auto simp: observed_def)
  show "observed w0 w'" if "w_db w' = ce_before (next_env w) (w_db w)" "w_env w' = tl (w_env w)"
    by (rule observed_trans [OF assms observed_one [OF that]])
qed

lemma grants_read:
  assumes "\<And>n x. f (env_db n w0) = Inr x \<Longrightarrow> grants w0 Q (k (Inr x))" "\<And>e. grants w0 Q (k (Inl e))"
  shows "grants w0 Q (call (reads f) \<bind> k)"
  unfolding grants_def
proof (intro allI impI)
  fix w x assume o': "observed w0 w" and r: "fst (run_state (call (reads f) \<bind> k) w) = Inr x"
  obtain res w' where c: "run_state (call (reads f)) w = (res, w')" by (metis surj_pair)
  have w': "w_db w' = ce_before (next_env w) (w_db w)" "w_env w' = tl (w_env w)"
    and res: "isl res \<or> (\<exists>y. f (ce_before (next_env w) (w_db w)) = Inr y \<and> res = Inr y)"
    using c by (auto simp: call_run Let_def reads_def bindR_def split: option.split_asm sum.splits)
  have "grants w0 Q (k res)"
    using res assms observed_call(1) [OF o'] by (cases res) auto
  moreover have "fst (run_state (k res) w') = Inr x" using r c by simp
  ultimately show "Q x" using observed_call(2) [OF o' w'] by (auto simp: grants_def)
qed

lemma grants_write:
  assumes "\<And>n y. f (env_db n w0) = Inr y \<Longrightarrow> yields Q (k (Inr (fst y)))" "\<And>e. yields Q (k (Inl e))"
  shows "grants w0 Q (call f \<bind> k)"
  unfolding grants_def
proof (intro allI impI)
  fix w x assume o': "observed w0 w" and r: "fst (run_state (call f \<bind> k) w) = Inr x"
  obtain res w' where c: "run_state (call f) w = (res, w')" by (metis surj_pair)
  have res: "isl res \<or> (\<exists>y. f (ce_before (next_env w) (w_db w)) = Inr y \<and> res = Inr (fst y))"
    using c by (auto simp: call_run Let_def split: option.split_asm sum.splits prod.splits)
  have "yields Q (k res)" using res assms observed_call(1) [OF o'] by (cases res) auto
  moreover have "fst (run_state (k res) w') = Inr x" using r c by simp
  ultimately show "Q x" by (auto simp: yields_def)
qed

lemma grants_load:
  assumes "\<And>n m. GetByID i (env_db n w0) = Inr m \<Longrightarrow> grants w0 Q (k m)"
  shows "grants w0 Q (andThen (load_instance sv i) k)" "grants w0 Q (andThen (passing (reads (GetByID i))) k)"
  unfolding andThen_def load_instance_def passing_def bind_assoc
  by (rule grants_read; use assms in \<open>auto simp: grants_ret\<close>)+

section \<open>Input deliveries\<close>

text \<open>
  The gates a delivery has passed: the instance admits its principal, the node is an input
  node of the definition the instance runs, and its input gate admits the principal too.
\<close>

definition admitted :: "service \<Rightarrow> DeliverRequest \<Rightarrow> world \<Rightarrow> bool" where
  "admitted sv req w \<longleftrightarrow> (\<exists>k t m wc n i.
     GetByID (dr_instance req) (env_db k w) = Inr m \<and> authorizeInstance (Some m) (deliveryPrincipal sv req) = None \<and>
     sv_resolve sv t (wm_definition m) = Inr wc \<and> findNode (wNodes wc) i = Some n \<and> node_type n = NTInput \<and>
     input_refusal (sv_catalog sv) n (deliveryPrincipal sv req) (isAnonymousDelivery req) = None)"

lemma grants_gate:
  "(input_refusal (sv_catalog sv) n p anonymous = None \<Longrightarrow> grants w0 Q (k ())) \<Longrightarrow>
    grants w0 Q (andThen (authorizeDelivery sv m n p anonymous) k)"
  by (auto simp: authorizeDelivery_def denyInputAs_def andThen_def grants_def split: option.split prod.splits)

lemma target_at_input:
  "target_at wc r b = Inr tgt \<Longrightarrow> \<exists>i. findNode (wNodes wc) i = Some (tg_node tgt) \<and> node_type (tg_node tgt) = NTInput"
  unfolding target_at_def content_node_def bindR_Inr_iff
  by (elim exE conjE) (auto split: option.split_asm if_split_asm)

lemma grants_target:
  assumes "\<And>tgt i. findNode (wNodes wc) i = Some (tg_node tgt) \<Longrightarrow> node_type (tg_node tgt) = NTInput \<Longrightarrow> grants w0 Q (k tgt)"
  shows "grants w0 Q (andThen (resolveInputTarget m wc req) k)"
proof (cases "dr_branch req = []")
  case True
  then show ?thesis
    unfolding resolveInputTarget_def using assms by (auto intro!: grants_after_ret dest: target_at_input)
next
  case False
  then show ?thesis
    unfolding resolveInputTarget_def andThen_def
    by (simp add: bind_assoc) (rule grants_read;
      use assms in \<open>auto simp: grants_ret dest: target_at_input split: sum.split\<close>)
qed

lemma grants_ticked:
  "(\<And>t x. f t = Inr x \<Longrightarrow> grants w0 Q (k x)) \<Longrightarrow> grants w0 Q (andThen (do { t \<leftarrow> tick; ret (f t) }) k)"
  unfolding andThen_def bind_assoc bind_left_identity
  by (rule grants_tick) (auto simp: grants_ret split: sum.split)

lemma replay_node_input:
  "replay_node wc req q occ = Inr n \<Longrightarrow> \<exists>i. findNode (wNodes wc) i = Some n \<and> node_type n = NTInput"
  by (auto simp: replay_node_def split: sum.split_asm if_split_asm option.split_asm)

lemma grants_replay:
  assumes "\<And>n i. findNode (wNodes wc) i = Some n \<Longrightarrow> node_type n = NTInput \<Longrightarrow>
    input_refusal (sv_catalog sv) n p (isAnonymousDelivery req) = None \<Longrightarrow> Q q"
  shows "grants w0 Q (replayDelivery sv m wc q req p)"
proof (cases "payload_equal (dm_payload q) (dr_payload req)")
  case True
  show ?thesis
    unfolding replayDelivery_def using True
    by (simp, intro grants_observe observes_call grants_after_ret grants_gate)
      (use assms in \<open>auto simp: grants_ret dest!: replay_node_input\<close>)
qed (simp add: replayDelivery_def grants_ret)

lemma grants_deliver: "grants w0 (\<lambda>_. admitted sv req w0) (svc_DeliverInput sv req)"
  unfolding svc_DeliverInput_def
proof (intro grants_check grants_load grants_authorize)
  fix n m
  assume m: "GetByID (dr_instance req) (env_db n w0) = Inr m" "authorizeInstance (Some m) (deliveryPrincipal sv req) = None"
  have ok: "admitted sv req w0" if "sv_resolve sv t (wm_definition m) = Inr wc" "findNode (wNodes wc) i = Some nd"
    "node_type nd = NTInput" "input_refusal (sv_catalog sv) nd (deliveryPrincipal sv req) (isAnonymousDelivery req) = None"
    for t wc i nd
    unfolding admitted_def using m that by blast
  have fresh: "grants w0 (\<lambda>_. admitted sv req w0) (deliver_fresh sv wc req m)"
    if "sv_resolve sv t (wm_definition m) = Inr wc" for t wc
    unfolding deliver_fresh_def
    by (intro grants_target grants_gate yields_grants yields_known) (use ok [OF that] in blast)
  show "grants w0 (\<lambda>_. admitted sv req w0) (deliver_authorized sv req m)"
    unfolding deliver_authorized_def
  proof (rule grants_read)
    fix e
    show "grants w0 (\<lambda>_. admitted sv req w0)
      (case Inl e of Inr existing \<Rightarrow> andThen (resolve_content sv m) (\<lambda>wc. replayDelivery sv m wc existing req (deliveryPrincipal sv req))
       | Inl e \<Rightarrow> if \<not> is_repo ErrDeliveryNotFound e then ret (Inl (Failed e))
           else if wm_status m \<in> {WorkflowFinished, WorkflowFailed, WorkflowStopped} then ret (Inl (is_terminal (dr_instance req)))
           else andThen (resolve_content sv m) (\<lambda>wc. deliver_fresh sv wc req m))"
      by (auto simp: grants_ret resolve_content_def intro!: grants_ticked fresh)
  qed (auto simp: resolve_content_def intro!: grants_ticked grants_replay ok)
qed

text \<open>
  C8. An input is taken only through both gates: if \<open>DeliverInput\<close> returns a delivery, new or
  repeated, accepted or rejected by its validation, the instance it was read from admits the
  principal, and a definition resolved for that instance has an input node that admits it: a
  service, a public node for an anonymous caller, or a holder of the delivery permission with
  one of the node's roles. So a key cannot be used to read a recorded delivery either.
\<close>

theorem delivered_only_if_admitted:
  assumes "fst (run_state (svc_DeliverInput sv req) w) = Inr x"
  shows "\<exists>k t m wc n i.
    GetByID (dr_instance req) (env_db k w) = Inr m \<and> authorizeInstance (Some m) (deliveryPrincipal sv req) = None \<and>
    sv_resolve sv t (wm_definition m) = Inr wc \<and> findNode (wNodes wc) i = Some n \<and> node_type n = NTInput \<and>
    (isAnonymousDelivery req \<and> nPublic (nfields n) \<or>
     \<not> isAnonymousDelivery req \<and> (pr_service (deliveryPrincipal sv req) \<or>
       HasPermission (deliveryPrincipal sv req) ActionInputDeliver (sv_catalog sv) \<and>
       CanSatisfyRoles (deliveryPrincipal sv req) (nAllowedRoles (nfields n))))"
proof -
  have "admitted sv req w" using grants_deliver [of w sv req] assms unfolding grants_def by (metis observed_refl)
  then show ?thesis unfolding admitted_def by (elim ex_forward) (auto simp: input_refusal_def split: if_split_asm)
qed

section \<open>Migration\<close>

lemma env_db_inv: "sys_inv (w_db w) \<Longrightarrow> list_all good_env (w_env w) \<Longrightarrow> sys_inv (env_db k w)"
proof -
  have "sys_inv (fold ce_before evs d)" if "sys_inv d" "list_all good_env evs" for evs d
    using that by (induction evs arbitrary: d) (auto simp: good_env_def dest: repo_steps_inv)
  then show "sys_inv (w_db w) \<Longrightarrow> list_all good_env (w_env w) \<Longrightarrow> sys_inv (env_db k w)"
    unfolding env_db_def by (metis append_take_drop_id list_all_append)
qed

lemma Migrate_rows:
  assumes "MigrateInstance rt now u d = Inr d'"
  obtains s s' where "s \<in> set (instances d)" "migratable u s" "s' \<in> set (instances d')" "wm_id s' = mu_source u"
    "wm_status s' = WorkflowStopped" "wm_superseded_by s' = Some (wm_id (mu_new u))"
    "WorkflowInstanceToModel (mu_new u) \<in> set (instances d')"
proof -
  define e where "e = update_instances (migratable u) (migrate_row now u) d"
  define f where "f = update_nodes (\<lambda>n. nm_instance n = mu_source u \<and> nm_branch n = None \<and> nm_status n = NodeRunning)
    (stop_node now ''superseded by migrate'') (cancel_parallel False now (mu_source u) e)"
  from assms have "count_where (migratable u) (instances d) \<noteq> 0"
    by (auto simp: MigrateInstance_def Let_def split: if_split_asm)
  then obtain s where s: "s \<in> set (instances d)" "migratable u s" using count_where_nonzero by blast
  from assms obtain g where g: "Insert (mu_new u) f = Inr g" "core d' = core g"
    by (auto simp: MigrateInstance_def Let_def bindR_Inr_iff e_def [symmetric] f_def [symmetric]
        split: if_split_asm dest!: core_append_event)
  have "migrate_row now u s \<in> set (instances e)"
    using s by (auto simp: e_def update_where_def intro!: rev_image_eqI)
  moreover have "instances f = instances (cancel_parallel False now (mu_source u) e)" by (simp add: f_def)
  ultimately have "\<exists>s'. s' \<in> set (instances f) \<and> (s' = migrate_row now u s \<or>
      s' = (migrate_row now u s)\<lparr>wm_termination_pending := True\<rparr>)"
    unfolding cancel_parallel_tables(3) by (auto simp: update_where_def intro: rev_image_eqI)
  then obtain s' where s': "s' \<in> set (instances f)" "wm_id s' = wm_id s" "wm_status s' = WorkflowStopped"
    "wm_superseded_by s' = Some (wm_id (mu_new u))"
    by (auto simp: migrate_row_def)
  have "instances g = instances f @ [WorkflowInstanceToModel (mu_new u)]"
    using g(1) by (auto simp: Insert_def create_def bindR_Inr_iff split: if_split_asm)
  then have "instances d' = instances f @ [WorkflowInstanceToModel (mu_new u)]" using core_eqD(1) [OF g(2)] by simp
  with s s' show thesis by (intro that [of s s']) (auto simp: migratable_def)
qed

lemma grants_ret_then: "grants w0 Q (andThen (ret r) k) \<longleftrightarrow> (\<forall>x. r = Inr x \<longrightarrow> grants w0 Q (k x))"
  by (cases r) (simp_all add: andThen_def grants_def)

lemma observes_created [observes_intro]:
  "observes (env_snapshot sv)" "observes (secret_snapshot sv)" "observes (migrated_context sv m patch)"
  "observes (svc_now sv)" "observes (mustNewID sv)"
  unfolding env_snapshot_def secret_snapshot_def migrated_context_def svc_now_def mustNewID_def
  by (intro observes_intro)+

lemma grants_then: "observes m \<Longrightarrow> (\<And>x. grants w0 Q (k x)) \<Longrightarrow> grants w0 Q (andThen m k)"
  unfolding andThen_def by (rule grants_observe) (auto simp: grants_ret split: sum.split)

text \<open>What a migration checked before it was committed, and the transaction that did it.\<close>

definition migration_checks ::
  "service \<Rightarrow> MigrateRequest \<Rightarrow> WorkflowInstanceModel \<Rightarrow> WorkflowDefinition \<Rightarrow> WorkflowDefinition \<Rightarrow> uid list \<Rightarrow> bool" where
  "migration_checks sv req m target source st \<longleftrightarrow>
     (\<exists>t t' t'' wc. authorizeInstance (Some m) (requestPrincipal sv (mg_principal req)) = None \<and>
       sv_definition sv t (mg_definition req) = Inr target \<and> sv_definition sv t' (wm_definition m) = Inr source \<and>
       wd_lineage target = wd_lineage source \<and> wd_version source < wd_version target \<and>
       sv_resolve sv t'' (wd_id target) = Inr wc \<and> migrate_start wc (mg_start req) = Inr st)"

definition migrated :: "service \<Rightarrow> MigrateRequest \<Rightarrow> world \<Rightarrow> WorkflowInstanceModel \<Rightarrow> bool" where
  "migrated sv req w0 new \<longleftrightarrow> (\<exists>j k m target source st u now d.
     GetByID (mg_source req) (env_db j w0) = Inr m \<and> migration_checks sv req m target source st \<and>
     MigrateInstance (sv_rt sv) now u (env_db k w0) = Inr d \<and> mu_new u = new \<and> inst_ok new \<and> mu_source u = wm_id m \<and>
     mu_source_revision u = wm_revision m \<and> wm_definition new = wd_id target \<and> wm_migrated_from new = Some (wm_id m) \<and>
     wm_frame new = Some (FrameJSON \<lparr>CurrentNodeID = mg_start req, GroupStack = st\<rparr>))"

lemma grants_commit:
  assumes "\<And>now k d. MigrateInstance (sv_rt sv) now u (env_db k w0) = Inr d \<Longrightarrow> Q new"
  shows "grants w0 Q (andThen (migrate_instance sv req u) (\<lambda>_. andThen m2 (\<lambda>_. ret (Inr new))))"
  unfolding migrate_instance_def svc_now_def
proof (subst andThen_def, simp only: bind_assoc bind_left_identity, rule grants_tick, rule grants_write)
  show "yields Q (case case Inr (fst y) of Inl e \<Rightarrow> Inl (if is_repo ErrInstanceNotFound e then NotFound (''instance '' @ mg_source req)
       else if is_repo ErrStatusConflict e then Conflict (''instance '' @ mg_source req @
         '' is no longer migratable (concurrent transition won)'') else Failed e) | Inr _ \<Rightarrow> Inr () of
       Inl e \<Rightarrow> ret (Inl e) | Inr x \<Rightarrow> andThen m2 (\<lambda>_. ret (Inr new)))"
    if "writes (MigrateInstance (sv_rt sv) (sv_clock sv t) u) (env_db n w0) = Inr y" for n y t
    using that assms by (auto simp: writes_def bindR_Inr_iff intro!: yields_then)
qed simp

lemma grants_replace:
  assumes "GetByID (mg_source req) (env_db j w0) = Inr m" "migration_checks sv req m target source st"
  shows "grants w0 (migrated sv req w0) (replace_instance sv req m target wc st ctxRaw)"
  unfolding replace_instance_def Let_def
proof (intro grants_observe observes_intro grants_commit)
  fix now i now' k d
  let ?a = "requestActor sv (mg_principal req) (mg_actor req)"
  let ?new = "new_instance i (wd_id target) (context_mode sv wc) False
     (if mg_paused req then WorkflowPaused else WorkflowWaiting)
     \<lparr>CurrentNodeID = mg_start req, GroupStack = st\<rparr> ctxRaw (wm_form_snapshot m) (Some (wm_id m)) ?a now"
  assume "MigrateInstance (sv_rt sv) now' (migrate_update req m ?new ?a) (env_db k w0) = Inr d"
  moreover have "inst_ok ?new" by (simp add: inst_ok_def new_instance_def)
  ultimately show "migrated sv req w0 ?new" unfolding migrated_def using assms
    by (intro exI conjI) (assumption | simp add: migrate_update_def new_instance_def)+
qed

lemma grants_migrate: "grants w0 (migrated sv req w0) (svc_Migrate sv req)"
  unfolding svc_Migrate_def
proof (intro grants_check grants_load grants_authorize grants_ticked grants_after_ret grants_then observes_intro)
  fix n m x t target t' source y t'' wc stack ctxRaw
  assume "GetByID (mg_source req) (env_db n w0) = Inr m" "authorizeInstance (Some m) (requestPrincipal sv (mg_principal req)) = None"
    "sv_definition sv t (mg_definition req) = Inr target" "sv_definition sv t' (wm_definition m) = Inr source"
    "same_lineage (mg_definition req) target source = Inr y" "sv_resolve sv t'' (wd_id target) = Inr wc"
    "migrate_start wc (mg_start req) = Inr stack"
  then show "grants w0 (migrated sv req w0) (replace_instance sv req m target wc stack ctxRaw)"
    by (intro grants_replace) (auto simp: migration_checks_def same_lineage_def split: if_split_asm)
qed


section \<open>Witnesses\<close>

lemma delivered_only_if_admitted_witness:
  "\<exists>m. authorizeInstance (Some m) (user_called ''user'') = None \<and>
     HasPermission (user_called ''user'') ActionInputDeliver (sv_catalog sample_service)"
proof -
  let ?r = "fst (run_state (svc_DeliverInput sample_service (answer_by ''user'')) (world_of db_asking []))"
  have "\<not> isl ?r" by code_simp
  then have "?r = Inr (projr ?r)" by (cases ?r) auto
  from delivered_only_if_admitted [OF this] show ?thesis
    by (auto simp: answer_by_def isAnonymousDelivery_def deliveryPrincipal_def) (simp add: user_called_def)
qed


end
