(* ===== verification/AccessSafety.thy ===== *)
theory AccessSafety
  imports Access
begin

text \<open>
  Who a request runs as: the users table names every identity once, so the user id a
  principal gets is that of its identity for good.
\<close>

section \<open>The users table\<close>

definition users_ok :: "(string \<Rightarrow> bool) \<Rightarrow> users \<Rightarrow> bool" where
  "users_ok valid us \<longleftrightarrow> distinct (map um_id us) \<and> distinct (map (\<lambda>u. (um_subject u, um_issuer u)) us) \<and>
     list_all (\<lambda>u. valid (um_id u)) us"

definition names :: "users \<Rightarrow> string \<Rightarrow> string \<Rightarrow> uid \<Rightarrow> bool" where
  "names us subject issuer i \<longleftrightarrow> (\<exists>u \<in> set us. um_subject u = subject \<and> um_issuer u = issuer \<and> um_id u = i)"

lemma users_ok_names:
  assumes "users_ok valid us" "names us s t i" "names us s' t' j"
  shows "i = j \<longleftrightarrow> s = s' \<and> t = t'"
proof -
  from assms obtain u v where uv: "u \<in> set us" "um_subject u = s" "um_issuer u = t" "um_id u = i"
    "v \<in> set us" "um_subject v = s'" "um_issuer v = t'" "um_id v = j"
    by (auto simp: names_def)
  have "inj_on um_id (set us)" "inj_on (\<lambda>u. (um_subject u, um_issuer u)) (set us)"
    using assms(1) by (auto simp: users_ok_def distinct_map)
  with uv show ?thesis by (auto dest: inj_onD)
qed

lemma upsert_keys:
  "map um_id (update_where p (refresh_user u) us) = map um_id us"
  "map (\<lambda>u. (um_subject u, um_issuer u)) (update_where p (refresh_user u) us) = map (\<lambda>u. (um_subject u, um_issuer u)) us"
  by (auto simp: update_where_def refresh_user_def)

lemma names_keys:
  "names us s t i \<longleftrightarrow> (s, t, i) \<in> set (map (\<lambda>u. (um_subject u, um_issuer u, um_id u)) us)"
  by (auto simp: names_def)

lemma names_refresh: "names (update_where p (refresh_user u) us) s t i \<longleftrightarrow> names us s t i"
  unfolding names_keys by (auto simp: update_where_def refresh_user_def)

lemma Upsert_names:
  assumes "UpsertBySubject valid u us = Inr (i, us')" "users_ok valid us"
  shows "users_ok valid us'" "names us s t j \<Longrightarrow> names us' s t j" "names us' (um_subject u) (um_issuer u) i" "valid i"
proof -
  let ?u = "UserToModel u"
  have s: "um_subject ?u = um_subject u" "um_issuer ?u = um_issuer u" "um_id ?u = um_id u"
    by (simp_all add: UserToModel_def)
  have "users_ok valid us' \<and> (names us s t j \<longrightarrow> names us' s t j) \<and> names us' (um_subject u) (um_issuer u) i \<and> valid i"
  proof (cases "first_where (same_identity ?u) us")
    case (Some r)
    then have r: "r \<in> set us" "same_identity ?u r" by (auto dest: first_where_SomeD)
    have us': "us' = update_where (same_identity ?u) (refresh_user ?u) us" "i = um_id r" "valid i"
      using assms(1) Some by (auto simp: UpsertBySubject_def Let_def split: if_split_asm)
    have "names us (um_subject u) (um_issuer u) i" using r s us'(2) by (auto simp: names_def same_identity_def)
    moreover have "users_ok valid us'" using assms(2) upsert_keys [of "same_identity ?u" ?u us]
      by (simp add: users_ok_def us'(1) list_all_iff) (auto simp: update_where_def refresh_user_def)
    ultimately show ?thesis using us' by (simp add: names_refresh)
  next
    case None
    then have none: "\<forall>r \<in> set us. \<not> same_identity ?u r" by (simp add: first_where_None_iff)
    have us': "us' = us @ [?u]" "i = um_id u" "valid i" "um_id u \<notin> um_id ` set us"
      using assms(1) None s by (auto simp: UpsertBySubject_def Let_def split: if_split_asm)
    with assms(2) none s show ?thesis by (auto simp: users_ok_def names_def same_identity_def)
  qed
  then show "users_ok valid us'" "names us s t j \<Longrightarrow> names us' s t j" "names us' (um_subject u) (um_issuer u) i" "valid i"
    by auto
qed

section \<open>Requests\<close>

text \<open>A request through one of the two middlewares, at a time and with a fresh id.\<close>

record auth_request =
  ar_public :: bool
  ar_headers :: Headers
  ar_now :: time
  ar_fresh :: uid

definition admit :: "AuthConfig \<Rightarrow> auth_request \<Rightarrow> users \<Rightarrow> admission \<times> users" where
  "admit cfg r us = (if ar_public r then TryAuth cfg (ar_headers r) (ar_now r) (ar_fresh r) us
     else RequireAuth cfg (ar_headers r) (ar_now r) (ar_fresh r) us)"

definition after_requests :: "AuthConfig \<Rightarrow> auth_request list \<Rightarrow> users \<Rightarrow> users" where
  "after_requests cfg rs us = fold (\<lambda>r us. snd (admit cfg r us)) rs us"

lemma resolve_identity_names:
  assumes "resolve_identity cfg now fresh p us = (a, us')" "users_ok (ac_valid cfg) us"
  shows "users_ok (ac_valid cfg) us' \<and> (names us s t j \<longrightarrow> names us' s t j) \<and>
    (\<forall>q anon. ac_resolve cfg \<longrightarrow> a = Admitted (Some q) anon \<longrightarrow> \<not> pr_service q \<longrightarrow>
       names us' (pr_subject q) (pr_issuer q) (pr_user q) \<and> ac_valid cfg (pr_user q))"
proof (cases "ac_resolve cfg \<and> \<not> pr_service p \<and> pr_subject p \<noteq> [] \<and> pr_issuer p \<noteq> []")
  case False
  then consider "\<not> ac_resolve cfg" | "pr_service p" | "\<not> pr_service p" "pr_subject p = [] \<or> pr_issuer p = []" by blast
  then show ?thesis
    by cases (use assms in \<open>auto simp: resolve_identity_def ResolvePrincipal_def split: if_split_asm\<close>)
next
  case True
  define u where "u = \<lparr>um_id = fresh, um_subject = pr_subject p, um_issuer = pr_issuer p, um_name = pr_name p,
    um_email = pr_email p, um_metadata = Some (principal_metadata p), um_created_at = now, um_updated_at = now\<rparr>"
  show ?thesis
  proof (cases "UpsertBySubject (ac_valid cfg) u us")
    case (Inl e)
    with True assms show ?thesis by (auto simp: resolve_identity_def ResolvePrincipal_def u_def)
  next
    case (Inr r)
    then obtain i us'' where up: "UpsertBySubject (ac_valid cfg) u us = Inr (i, us'')" by (cases r) auto
    note n = Upsert_names [OF up assms(2)]
    have "a = Admitted (Some (p\<lparr>pr_user := i\<rparr>)) False" "us' = us''"
      using True assms(1) up by (auto simp: resolve_identity_def ResolvePrincipal_def u_def)
    with n show ?thesis by (simp add: u_def)
  qed
qed

lemma admit_names:
  assumes "admit cfg r us = (a, us')" "users_ok (ac_valid cfg) us"
  shows "users_ok (ac_valid cfg) us'" "names us s t j \<Longrightarrow> names us' s t j"
    and "ac_resolve cfg \<Longrightarrow> a = Admitted (Some q) anon \<Longrightarrow> \<not> pr_service q \<Longrightarrow>
      names us' (pr_subject q) (pr_issuer q) (pr_user q) \<and> ac_valid cfg (pr_user q)"
  using assms
  by (auto simp: admit_def TryAuth_def RequireAuth_def split: if_split_asm sum.split_asm dest: resolve_identity_names)

lemma after_names:
  assumes "users_ok (ac_valid cfg) us"
  shows "users_ok (ac_valid cfg) (after_requests cfg rs us)"
    and "names us s t j \<Longrightarrow> names (after_requests cfg rs us) s t j"
proof -
  have "users_ok (ac_valid cfg) (after_requests cfg rs us) \<and> (names us s t j \<longrightarrow> names (after_requests cfg rs us) s t j)"
    using assms
  proof (induction rs arbitrary: us)
    case (Cons r rs)
    obtain a us' where r: "admit cfg r us = (a, us')" by (metis surj_pair)
    from Cons.IH [OF admit_names(1) [OF r Cons.prems]] admit_names(2) [OF r Cons.prems] r
    show ?case by (auto simp: after_requests_def)
  qed (simp add: after_requests_def)
  then show "users_ok (ac_valid cfg) (after_requests cfg rs us)"
    "names us s t j \<Longrightarrow> names (after_requests cfg rs us) s t j" by auto
qed

text \<open>
  C38. Callers keep their identity: of two users admitted at any two requests, whatever requests
  came in between, both have a user id, and they have the same one exactly if they have the
  same subject and issuer. So ownership, which compares user ids, is ownership by identity.
\<close>

theorem caller_identity_stable:
  assumes "users_ok (ac_valid cfg) us" "ac_resolve cfg" "\<not> ac_valid cfg []"
    and "admit cfg r us = (Admitted (Some p) a, us')" "\<not> pr_service p"
    and "admit cfg r' (after_requests cfg rs us') = (Admitted (Some q) b, us'')" "\<not> pr_service q"
  shows "pr_user p \<noteq> [] \<and> pr_user q \<noteq> [] \<and>
    (pr_user p = pr_user q \<longleftrightarrow> pr_subject p = pr_subject q \<and> pr_issuer p = pr_issuer q)"
proof -
  note p = admit_names [OF assms(4, 1)]
  note q = admit_names [OF assms(6) after_names(1) [OF p(1)]]
  have "names us'' (pr_subject p) (pr_issuer p) (pr_user p)" "ac_valid cfg (pr_user p)"
    using p(3) [OF assms(2) refl assms(5)] by (auto intro: q(2) after_names(2) [OF p(1)])
  with users_ok_names [OF q(1)] q(3) [OF assms(2) refl assms(7)] assms(3) show ?thesis by metis
qed

text \<open>
  C39. Who gets in: a request is admitted without a principal only through the public middleware
  and only if it presents no credential, a credential that is presented and wrong is never
  taken for an anonymous call, and an admitted principal is the one authenticated.
\<close>

theorem admission_exact:
  "(fst (admit cfg r us) = Admitted caller anon \<longrightarrow>
     (caller = None \<longleftrightarrow> ar_public r \<and> \<not> authPresented cfg (ar_headers r)) \<and> (anon \<longleftrightarrow> caller = None) \<and>
     (caller \<noteq> None \<longrightarrow> (\<exists>p. authenticate cfg (ar_headers r) = Inr p \<and>
        (caller = Some p \<or> (\<exists>i. caller = Some (p\<lparr>pr_user := i\<rparr>))) \<and>
        (ar_public r \<longrightarrow> HasPermission p ActionInputDeliver (ac_catalog cfg))))) \<and>
   (isl (authenticate cfg (ar_headers r)) \<and> (\<not> ar_public r \<or> authPresented cfg (ar_headers r)) \<longrightarrow>
     (\<exists>msg. admit cfg r us = (Refused 401 msg, us)))"
  by (auto simp: admit_def TryAuth_def RequireAuth_def resolve_identity_def ResolvePrincipal_def
      split: if_splits sum.splits resolve_err.splits prod.splits)

section \<open>Witnesses\<close>

definition sample_auth :: AuthConfig where
  "sample_auth = \<lparr>ac_enabled = True, ac_token = ''secret'',
     ac_verifier = Some (\<lambda>t. Some \<lparr>pr_subject = t, pr_issuer = ''idp'', pr_name = t, pr_email = [], pr_roles = [''agent''],
       pr_service = False, pr_user = []\<rparr>),
     ac_resolve = True, ac_catalog = [(''agent'', [ActionInputDeliver])], ac_system_user = ''system'',
     ac_digest = (\<lambda>t. t), ac_valid = (\<lambda>i. i \<noteq> [])\<rparr>"

definition login :: "string \<Rightarrow> uid \<Rightarrow> auth_request" where
  "login t fresh = \<lparr>ar_public = False, ar_headers = \<lparr>hd_api_key = [], hd_authorization = ''Bearer '' @ t\<rparr>,
     ar_now = 1, ar_fresh = fresh\<rparr>"

definition user_of :: "admission \<Rightarrow> uid" where
  "user_of a = (case a of Admitted (Some p) _ \<Rightarrow> pr_user p | _ \<Rightarrow> [])"

lemma caller_identity_stable_witness:
  "user_of (fst (admit sample_auth (login ''ann'' ''u3'')
      (after_requests sample_auth [login ''ann'' ''u1'', login ''bob'' ''u2''] []))) = ''u1''"
proof -
  let ?us = "snd (admit sample_auth (login ''ann'' ''u1'') [])"
  let ?r = "admit sample_auth (login ''ann'' ''u3'') (after_requests sample_auth [login ''bob'' ''u2''] ?us)"
  let ?ann = "\<lparr>pr_subject = ''ann'', pr_issuer = ''idp'', pr_name = ''ann'', pr_email = [], pr_roles = [''agent''],
    pr_service = False, pr_user = ''u1''\<rparr>"
  have p: "admit sample_auth (login ''ann'' ''u1'') [] = (Admitted (Some ?ann) False, ?us)" by code_simp
  have q: "?r = (Admitted (Some (?ann\<lparr>pr_user := user_of (fst ?r)\<rparr>)) False, snd ?r)" by code_simp
  have same: "pr_user ?ann = user_of (fst ?r)"
    using caller_identity_stable [OF _ _ _ p _ q] by (simp add: sample_auth_def users_ok_def)
  have "after_requests sample_auth [login ''ann'' ''u1'', login ''bob'' ''u2''] [] = after_requests sample_auth [login ''bob'' ''u2''] ?us"
    by (simp only: after_requests_def fold.simps comp_apply)
  then show ?thesis using same by (simp only: UserModel.simps Principal.simps)
qed

lemma admission_exact_witness:
  "fst (admit sample_auth (login [] ''u1'') []) = Refused 401 ''missing or invalid bearer token''"
proof -
  have "isl (authenticate sample_auth (ar_headers (login [] ''u1'')))" by code_simp
  then obtain msg where "admit sample_auth (login [] ''u1'') [] = (Refused 401 msg, [])"
    using admission_exact [of sample_auth "login [] ''u1''" "[]"] by (auto simp: login_def)
  moreover have "fst (admit sample_auth (login [] ''u1'') []) = Refused 401 ''missing or invalid bearer token''" by code_simp
  ultimately show ?thesis by simp
qed

end
