(* ===== verification/Schedule.thy ===== *)
theory Schedule
  imports Service
begin

text \<open>
  Cron schedules: the schedule dialect (\<open>model/cron.go\<close>), the tables \<open>cron_schedules\<close> and
  \<open>schedule_fires\<close> (\<open>repository/schedule.go\<close>) and their use cases (\<open>service/schedule.go\<close>).

  The cron library (robfig/cron) and the time zone database are parameters. Times are
  nanoseconds since Go's zero time.
\<close>

section \<open>Schedules\<close>

record CronSchedule =
  cs_id :: uid
  cs_definition :: uid
  cs_crontab :: string
  cs_timezone :: string
  cs_context :: raw
  cs_enabled :: bool
  cs_created_by :: uid
  cs_updated_by :: uid
  cs_created_at :: time
  cs_updated_at :: time

record ScheduleFireModel =
  sf_schedule :: uid
  sf_fire_at :: time
  sf_fired_by :: string
  sf_instance :: "uid option"
  sf_created_at :: time
  sf_updated_at :: time

record sched_db =
  cron_schedules :: "CronSchedule list"
  schedule_fires :: "ScheduleFireModel list"

text \<open>
  The cron library: \<open>cl_zone\<close> says whether \<open>time.LoadLocation\<close> knows a zone, \<open>cl_parse\<close> is the
  error of the five-field parser, if any, \<open>cl_duration\<close> is \<open>time.ParseDuration\<close>; the rest are
  the methods of a \<open>cron.Cron\<close> with state \<open>'c\<close>, which runs jobs on schedules.
\<close>

record 'c cronlib =
  cl_zone :: "string \<Rightarrow> bool"
  cl_parse :: "string \<Rightarrow> string option"
  cl_duration :: "string \<Rightarrow> duration option"
  cl_add_job :: "string \<Rightarrow> CronSchedule \<Rightarrow> 'c \<Rightarrow> string + int \<times> 'c"
  cl_schedule :: "duration \<Rightarrow> CronSchedule \<Rightarrow> 'c \<Rightarrow> int \<times> 'c"
  cl_remove :: "int \<Rightarrow> 'c \<Rightarrow> 'c"

section \<open>The dialect\<close>

text \<open>\<open>strings.CutPrefix\<close> and \<open>strings.Cut\<close>.\<close>

definition cut_prefix :: "string \<Rightarrow> string \<Rightarrow> string option" where
  "cut_prefix s p = (if has_prefix s p then Some (drop (length p) s) else None)"

fun cut_sub :: "string \<Rightarrow> string \<Rightarrow> (string \<times> string) option" where
  "cut_sub [] sep = (if sep = [] then Some ([], []) else None)"
| "cut_sub (c # s) sep =
     (if has_prefix (c # s) sep then Some ([], drop (length sep) (c # s))
      else map_option (\<lambda>(a, b). (c # a, b)) (cut_sub s sep))"

definition splitInlineTimezone :: "string \<Rightarrow> (string \<times> string) option" where
  "splitInlineTimezone crontab =
     (case (case cut_prefix crontab ''CRON_TZ='' of None \<Rightarrow> cut_prefix crontab ''TZ='' | Some r \<Rightarrow> Some r) of
        None \<Rightarrow> None
      | Some rest \<Rightarrow>
          (case cut_sub rest '' '' of
             None \<Rightarrow> Some (trim_space rest, [])
           | Some (zone, schedule) \<Rightarrow> Some (trim_space zone, trim_space schedule)))"

definition check_spec :: "'c cronlib \<Rightarrow> string \<Rightarrow> string \<Rightarrow> string \<Rightarrow> svc_err + string \<times> string" where
  "check_spec lib zone parsed spec =
     (if \<not> cl_zone lib zone then Inl (Invalid (''invalid timezone '' @ quoted zone))
      else case cl_parse lib parsed of
        Some e \<Rightarrow> Inl (Invalid (''invalid crontab: '' @ e))
      | None \<Rightarrow> Inr (spec, zone))"

definition ResolveCronSpec :: "'c cronlib \<Rightarrow> string \<Rightarrow> string \<Rightarrow> svc_err + string \<times> string" where
  "ResolveCronSpec lib crontab0 timezone =
     (let crontab = trim_space crontab0
      in if crontab = [] then Inl (Invalid ''crontab is required'')
         else case splitInlineTimezone crontab of
           Some (zone, schedule) \<Rightarrow>
             if zone = [] \<or> schedule = []
             then Inl (Invalid ''invalid crontab: a TZ prefix needs a zone and a schedule'')
             else check_spec lib zone crontab crontab
         | None \<Rightarrow>
             let tz = (if trim_space timezone = [] then ''UTC'' else trim_space timezone);
                 spec = ''CRON_TZ='' @ tz @ '' '' @ crontab
             in check_spec lib tz spec spec)"

section \<open>The tables\<close>

definition CronScheduleToModel :: "CronSchedule \<Rightarrow> CronSchedule" where
  "CronScheduleToModel s = s\<lparr>cs_context := jsonCol (cs_context s) empty_obj\<rparr>"

definition no_schedule :: "uid \<Rightarrow> svc_err" where
  "no_schedule i = NotFound (''cron schedule '' @ i)"

definition schedule_Create :: "CronSchedule \<Rightarrow> sched_db \<Rightarrow> svc_err + sched_db" where
  "schedule_Create s d =
     (case create cs_id (CronScheduleToModel s) (cron_schedules d) of
        Inl _ \<Rightarrow> Inl (Conflict (''cron schedule '' @ quoted (cs_id s) @ '' already exists''))
      | Inr t \<Rightarrow> Inr (d\<lparr>cron_schedules := t\<rparr>))"

definition schedule_GetByID :: "uid \<Rightarrow> sched_db \<Rightarrow> svc_err + CronSchedule" where
  "schedule_GetByID i d =
     (case by_key cs_id i (cron_schedules d) of None \<Rightarrow> Inl (no_schedule i) | Some s \<Rightarrow> Inr s)"

record ScheduleListQuery =
  sq_page :: int
  sq_per_page :: int
  sq_enabled :: "bool option"

text \<open>The rows of a page, newest first, and the number of rows on all pages.\<close>

definition newest_first :: "bool option \<Rightarrow> sched_db \<Rightarrow> CronSchedule list" where
  "newest_first enabled d = order_by (\<lambda>s. (- cs_created_at s, cs_id s))
     (filter (\<lambda>s. case enabled of None \<Rightarrow> True | Some e \<Rightarrow> cs_enabled s = e) (cron_schedules d))"

definition schedule_List :: "ScheduleListQuery \<Rightarrow> sched_db \<Rightarrow> CronSchedule list \<times> int" where
  "schedule_List q d =
     (let rows = newest_first (sq_enabled q) d;
          page = (if sq_page q < 1 then 1 else sq_page q);
          perPage = (if sq_per_page q < 1 then 50 else sq_per_page q)
      in (take (nat perPage) (drop (nat ((page - 1) * perPage)) rows), int (length rows)))"

definition schedule_Delete :: "uid \<Rightarrow> sched_db \<Rightarrow> svc_err + sched_db" where
  "schedule_Delete i d =
     (if count_where (\<lambda>s. cs_id s = i) (cron_schedules d) = 0 then Inl (no_schedule i)
      else Inr (d\<lparr>cron_schedules := filter (\<lambda>s. cs_id s \<noteq> i) (cron_schedules d)\<rparr>))"

definition SetEnabled :: "uid \<Rightarrow> bool \<Rightarrow> uid \<Rightarrow> time \<Rightarrow> sched_db \<Rightarrow> svc_err + CronSchedule \<times> sched_db" where
  "SetEnabled i enabled actor now d =
     (if count_where (\<lambda>s. cs_id s = i) (cron_schedules d) = 0 then Inl (no_schedule i)
      else let d' = d\<lparr>cron_schedules := update_where (\<lambda>s. cs_id s = i)
                (\<lambda>s. s\<lparr>cs_enabled := enabled, cs_updated_by := actor, cs_updated_at := now\<rparr>) (cron_schedules d)\<rparr>
           in bindR (schedule_GetByID i d') (\<lambda>s. Inr (s, d')))"

text \<open>\<open>False\<close> when the claim of the tick is taken.\<close>

definition fire_key :: "ScheduleFireModel \<Rightarrow> uid \<times> time" where
  "fire_key f = (sf_schedule f, sf_fire_at f)"

definition ClaimFire :: "uid \<Rightarrow> time \<Rightarrow> string \<Rightarrow> time \<Rightarrow> sched_db \<Rightarrow> bool \<times> sched_db" where
  "ClaimFire sid fireAt worker now d =
     (case create fire_key \<lparr>sf_schedule = sid, sf_fire_at = fireAt, sf_fired_by = worker, sf_instance = None,
          sf_created_at = now, sf_updated_at = now\<rparr> (schedule_fires d) of
        Inl _ \<Rightarrow> (False, d)
      | Inr t \<Rightarrow> (True, d\<lparr>schedule_fires := t\<rparr>))"

definition RecordFireInstance :: "uid \<Rightarrow> time \<Rightarrow> uid \<Rightarrow> time \<Rightarrow> sched_db \<Rightarrow> svc_err + sched_db" where
  "RecordFireInstance sid fireAt inst now d =
     (if count_where (\<lambda>f. fire_key f = (sid, fireAt)) (schedule_fires d) = 0
      then Inl (NotFound (''schedule fire '' @ sid))
      else Inr (d\<lparr>schedule_fires := update_where (\<lambda>f. fire_key f = (sid, fireAt))
        (\<lambda>f. f\<lparr>sf_instance := Some inst, sf_updated_at := now\<rparr>) (schedule_fires d)\<rparr>))"

definition SweepFires :: "time \<Rightarrow> sched_db \<Rightarrow> int \<times> sched_db" where
  "SweepFires olderThan d =
     (int (count_where (\<lambda>f. sf_fire_at f < olderThan) (schedule_fires d)),
      d\<lparr>schedule_fires := filter (\<lambda>f. \<not> sf_fire_at f < olderThan) (schedule_fires d)\<rparr>)"

section \<open>The use cases\<close>

record CreateSchedule =
  cr_definition :: uid
  cr_crontab :: string
  cr_timezone :: string
  cr_context :: raw
  cr_enabled :: "bool option"
  cr_actor :: uid

text \<open>
  \<open>ss_definition\<close> looks the workflow definition up; \<open>ss_change\<close> is the callback \<open>onChange\<close>, which
  refreshes a registry \<open>'r\<close> from the database after a mutation.
\<close>

record ('c, 'r) schedule_service =
  ss_cron :: "'c cronlib"
  ss_definition :: "uid \<Rightarrow> svc_err option"
  ss_actor :: uid
  ss_change :: "(sched_db \<Rightarrow> 'r \<Rightarrow> 'r) option"

definition notify :: "('c, 'r) schedule_service \<Rightarrow> sched_db \<Rightarrow> 'r \<Rightarrow> 'r" where
  "notify ss d r = (case ss_change ss of None \<Rightarrow> r | Some f \<Rightarrow> f d r)"

definition schedule_context :: "raw \<Rightarrow> svc_err + raw" where
  "schedule_context r =
     (case (if r = None \<or> r = Some JNull then Some (JObj []) else r) of
        Some (JObj m) \<Rightarrow> Inr (Some (JObj m))
      | _ \<Rightarrow> Inl (Invalid ''context must be a JSON object''))"

definition new_schedule :: "('c, 'r) schedule_service \<Rightarrow> CreateSchedule \<Rightarrow> uid \<Rightarrow> time \<Rightarrow> svc_err + CronSchedule" where
  "new_schedule ss req i now =
     (if trim_space (cr_definition req) = [] then Inl (Invalid ''workflow_definition_id is required'')
      else bindR (ResolveCronSpec (ss_cron ss) (cr_crontab req) (cr_timezone req)) (\<lambda>(_, tz).
           bindR (schedule_context (cr_context req)) (\<lambda>ctx.
           case ss_definition ss (cr_definition req) of
             Some e \<Rightarrow> Inl e
           | None \<Rightarrow> let actor = resolveActor (cr_actor req) (ss_actor ss)
               in Inr \<lparr>cs_id = i, cs_definition = cr_definition req, cs_crontab = trim_space (cr_crontab req),
                    cs_timezone = tz, cs_context = ctx,
                    cs_enabled = (case cr_enabled req of None \<Rightarrow> True | Some e \<Rightarrow> e),
                    cs_created_by = actor, cs_updated_by = actor, cs_created_at = now, cs_updated_at = now\<rparr>)))"

definition svc_schedule_Create ::
  "('c, 'r) schedule_service \<Rightarrow> CreateSchedule \<Rightarrow> uid \<Rightarrow> time \<Rightarrow> sched_db \<times> 'r \<Rightarrow> (svc_err + CronSchedule) \<times> sched_db \<times> 'r" where
  "svc_schedule_Create ss req i now = (\<lambda>(d, r).
     case bindR (new_schedule ss req i now) (\<lambda>s. bindR (schedule_Create s d) (\<lambda>d'. Inr (s, d'))) of
       Inl e \<Rightarrow> (Inl e, d, r)
     | Inr (s, d') \<Rightarrow> (Inr s, d', notify ss d' r))"

definition svc_schedule_Delete ::
  "('c, 'r) schedule_service \<Rightarrow> uid \<Rightarrow> sched_db \<times> 'r \<Rightarrow> (svc_err + unit) \<times> sched_db \<times> 'r" where
  "svc_schedule_Delete ss i = (\<lambda>(d, r).
     case schedule_Delete i d of Inl e \<Rightarrow> (Inl e, d, r) | Inr d' \<Rightarrow> (Inr (), d', notify ss d' r))"

definition svc_schedule_Switch ::
  "('c, 'r) schedule_service \<Rightarrow> bool \<Rightarrow> uid \<Rightarrow> uid \<Rightarrow> time \<Rightarrow> sched_db \<times> 'r \<Rightarrow> (svc_err + CronSchedule) \<times> sched_db \<times> 'r" where
  "svc_schedule_Switch ss enabled i actor now = (\<lambda>(d, r).
     case SetEnabled i enabled (resolveActor actor (ss_actor ss)) now d of
       Inl e \<Rightarrow> (Inl e, d, r)
     | Inr (s, d') \<Rightarrow> (Inr s, d', notify ss d' r))"

definition svc_schedule_Pause where
  "svc_schedule_Pause ss = svc_schedule_Switch ss False"

definition svc_schedule_Resume where
  "svc_schedule_Resume ss = svc_schedule_Switch ss True"

section \<open>Properties\<close>

lemma trim_idem [simp]: "trim_space (trim_space s) = trim_space s"
proof -
  have d: "dropWhile P (dropWhile P xs) = dropWhile P xs" for P and xs :: string by (induction xs) auto
  have "dropWhile is_space (rev (dropWhile is_space (rev (dropWhile is_space s)))) =
    rev (dropWhile is_space (rev (dropWhile is_space s)))"
  proof (cases "rev (dropWhile is_space (rev (dropWhile is_space s)))")
    case (Cons c t)
    then have "dropWhile is_space (rev (dropWhile is_space s)) = rev t @ [c]" by (metis rev.simps(2) rev_rev_ident)
    moreover obtain pre where "rev (dropWhile is_space s) = pre @ dropWhile is_space (rev (dropWhile is_space s))"
      by (metis takeWhile_dropWhile_id)
    ultimately have "dropWhile is_space s = c # t @ rev pre" by (metis append.assoc rev_append rev_rev_ident rev.simps(2) append_Cons append_Nil)
    then have "\<not> is_space c" by (metis dropWhile_eq_Cons_conv)
    with Cons show ?thesis by simp
  next
    case Nil
    then show ?thesis by (simp only: dropWhile.simps)
  qed
  then show ?thesis by (simp add: trim_space_def d)
qed

text \<open>
  A stored schedule still parses: the crontab and the zone a schedule is created with
  resolve to the same specification again, whether the zone came from the request, from a
  prefix of the crontab or from the default, so the scheduler never skips a stored row.
\<close>

theorem stored_spec_resolves:
  assumes "ResolveCronSpec lib crontab timezone = Inr (spec, zone)"
  shows "ResolveCronSpec lib (trim_space crontab) zone = Inr (spec, zone)"
proof (cases "splitInlineTimezone (trim_space crontab)")
  case None
  have "trim_space ''UTC'' = ''UTC''" by code_simp
  with assms None show ?thesis
    by (auto simp: ResolveCronSpec_def Let_def check_spec_def split: if_split_asm option.split_asm)
next
  case (Some a)
  with assms show ?thesis
    by (auto simp: ResolveCronSpec_def Let_def check_spec_def split: if_split_asm option.split_asm prod.split)
qed

definition sample_cron :: "(int \<times> string \<times> CronSchedule) list cronlib" where
  "sample_cron =
     \<lparr>cl_zone = (\<lambda>z. z \<in> {''UTC'', ''Asia/Tokyo''}), cl_parse = (\<lambda>s. if s = [] then Some ''empty'' else None),
      cl_duration = (\<lambda>s. if s = ''5m'' then Some (300 * seconds 1) else None),
      cl_add_job = (\<lambda>s row c. let i = 1 + fold max (map fst c) 0 in Inr (i, (i, s, row) # c)),
      cl_schedule = (\<lambda>e row c. let i = 1 + fold max (map fst c) 0 in (i, (i, ''every'', row) # c)),
      cl_remove = (\<lambda>i. filter (\<lambda>e. fst e \<noteq> i))\<rparr>"

lemma stored_spec_resolves_witness:
  "ResolveCronSpec sample_cron ''0 9 * * *'' ''Asia/Tokyo'' = Inr (''CRON_TZ=Asia/Tokyo 0 9 * * *'', ''Asia/Tokyo'')"
proof -
  have "ResolveCronSpec sample_cron '' 0 9 * * * '' '' Asia/Tokyo'' = Inr (''CRON_TZ=Asia/Tokyo 0 9 * * *'', ''Asia/Tokyo'')"
    by code_simp
  from stored_spec_resolves [OF this] show ?thesis by (simp add: trim_space_def is_space_def)
qed

end
