(* ===== verification/Scheduler.thy ===== *)
theory Scheduler
  imports Schedule
begin

text \<open>
  The scheduler, \<open>internal/workflow/scheduler/scheduler.go\<close>: loading the enabled schedules,
  converging the cron registry on them, wall-clock aligned intervals, and the jobs that
  create an instance on every tick, one per tick in the whole fleet.
\<close>

section \<open>Loading the enabled schedules\<close>

text \<open>
  \<open>page n\<close> is the answer of the database to the query of page \<open>n\<close>. \<open>None\<close> is a loop that does
  not end.
\<close>

partial_function (option) load_pages ::
  "(int \<Rightarrow> svc_err + CronSchedule list \<times> int) \<Rightarrow> int \<Rightarrow> CronSchedule list \<Rightarrow> (svc_err + CronSchedule list) option" where
  "load_pages page n all =
     (case page n of
        Inl e \<Rightarrow> Some (Inl e)
      | Inr (items, tot) \<Rightarrow>
          if int (length (all @ items)) \<ge> tot then Some (Inr (all @ items))
          else load_pages page (n + 1) (all @ items))"

declare load_pages.simps [code]

definition loadEnabled :: "(int \<Rightarrow> svc_err + CronSchedule list \<times> int) \<Rightarrow> (svc_err + CronSchedule list) option" where
  "loadEnabled page = load_pages page 1 []"

text \<open>The answers of a database nobody writes to meanwhile.\<close>

definition pages_of :: "sched_db \<Rightarrow> int \<Rightarrow> svc_err + CronSchedule list \<times> int" where
  "pages_of d n = Inr (schedule_List \<lparr>sq_page = n, sq_per_page = 100, sq_enabled = Some True\<rparr> d)"

section \<open>The registry\<close>

text \<open>The live entries map a schedule to the id of its cron entry and the specification it was added with.\<close>

record 'c scheduler =
  sr_inner :: 'c
  sr_entries :: "(uid \<times> int \<times> string) list"

text \<open>\<open>time.Time.Truncate\<close>, and the next fire time of an aligned interval.\<close>

definition truncate_time :: "duration \<Rightarrow> time \<Rightarrow> time" where
  "truncate_time d t = (if d \<le> 0 then t else t - t mod d)"

definition aligned_next :: "duration \<Rightarrow> time \<Rightarrow> time" where
  "aligned_next d t = truncate_time d t + d"

definition addAligned :: "'c cronlib \<Rightarrow> string \<Rightarrow> CronSchedule \<Rightarrow> 'c \<Rightarrow> string + int \<times> 'c" where
  "addAligned lib spec job c =
     (case cut_sub spec ''@every '' of
        None \<Rightarrow> cl_add_job lib spec job c
      | Some (_, rest) \<Rightarrow>
          (case cl_duration lib (trim_space rest) of
             None \<Rightarrow> cl_add_job lib spec job c
           | Some d \<Rightarrow> if d > 0 then Inr (cl_schedule lib d job c) else cl_add_job lib spec job c))"

text \<open>Entries of rows that are gone, no longer parse or changed are dropped.\<close>

definition drop_stale ::
  "'c cronlib \<Rightarrow> (uid \<Rightarrow> CronSchedule option) \<Rightarrow> uid \<times> int \<times> string \<Rightarrow> 'c scheduler \<Rightarrow> 'c scheduler" where
  "drop_stale lib want e s =
     (case e of (i, entry, spec) \<Rightarrow>
        let dropped = s\<lparr>sr_inner := cl_remove lib entry (sr_inner s), sr_entries := map_del i (sr_entries s)\<rparr>
        in case want i of
             None \<Rightarrow> dropped
           | Some row \<Rightarrow>
               (case ResolveCronSpec lib (cs_crontab row) (cs_timezone row) of
                  Inl _ \<Rightarrow> dropped
                | Inr (spec', _) \<Rightarrow> if spec' \<noteq> spec then dropped else s))"

definition add_row :: "'c cronlib \<Rightarrow> CronSchedule \<Rightarrow> 'c scheduler \<Rightarrow> 'c scheduler" where
  "add_row lib row s =
     (if map_of (sr_entries s) (cs_id row) \<noteq> None then s
      else case ResolveCronSpec lib (cs_crontab row) (cs_timezone row) of
        Inl _ \<Rightarrow> s
      | Inr (spec, _) \<Rightarrow>
          (case addAligned lib spec row (sr_inner s) of
             Inl _ \<Rightarrow> s
           | Inr (entry, c) \<Rightarrow> s\<lparr>sr_inner := c, sr_entries := map_put (cs_id row) (entry, spec) (sr_entries s)\<rparr>))"

definition wanted :: "CronSchedule list \<Rightarrow> uid \<Rightarrow> CronSchedule option" where
  "wanted rows = fold (\<lambda>row w. w(cs_id row \<mapsto> row)) rows Map.empty"

text \<open>The loop over the entries visits them in the order \<open>rng\<close> the runtime picks.\<close>

definition converge ::
  "'c cronlib \<Rightarrow> ((uid \<times> int \<times> string) list \<Rightarrow> (uid \<times> int \<times> string) list) \<Rightarrow> CronSchedule list \<Rightarrow> 'c scheduler \<Rightarrow>
   'c scheduler" where
  "converge lib rng rows s =
     fold (add_row lib) rows (fold (drop_stale lib (wanted rows)) (rng (sr_entries s)) s)"

definition scheduler_sync where
  "scheduler_sync lib rng page s =
     map_option (\<lambda>r. bindR r (\<lambda>rows. Inr (converge lib rng rows s))) (loadEnabled page)"

text \<open>\<open>Refresh\<close> keeps the old entries when the load fails.\<close>

definition Refresh where
  "Refresh lib rng page s =
     map_option (\<lambda>r. case r of Inl _ \<Rightarrow> s | Inr s' \<Rightarrow> s') (scheduler_sync lib rng page s)"

section \<open>Ticks\<close>

text \<open>The clock as a job reads it, and the failures of its two calls of the schedule repository.\<close>

record fire_env =
  fe_start :: time
  fe_claim_at :: time
  fe_record_at :: time
  fe_claim_fault :: "string option"
  fe_record_fault :: "string option"

datatype fire_outcome =
    ClaimFailed string | AlreadyClaimed | TickFailed svc_err | Fired uid "svc_err option"

definition fire_at :: "fire_env \<Rightarrow> time" where
  "fire_at ev = truncate_time (seconds 1) (fe_start ev)"

definition record_fire :: "CronSchedule \<Rightarrow> fire_env \<Rightarrow> uid \<Rightarrow> sched_db \<Rightarrow> svc_err option \<times> sched_db" where
  "record_fire row ev inst d =
     (case fe_record_fault ev of
        Some m \<Rightarrow> (Some (Failed (EUnavailable m)), d)
      | None \<Rightarrow>
          (case RecordFireInstance (cs_id row) (fire_at ev) inst (fe_record_at ev) d of
             Inl e \<Rightarrow> (Some e, d)
           | Inr d' \<Rightarrow> (None, d')))"

definition fire_request :: "CronSchedule \<Rightarrow> CreateInstance" where
  "fire_request row = \<lparr>ci_definition = cs_definition row, ci_context = cs_context row, ci_debug = False,
     ci_snapshot_forms = False, ci_actor = cs_created_by row\<rparr>"

definition fireJob_Run ::
  "service \<Rightarrow> string \<Rightarrow> CronSchedule \<Rightarrow> fire_env \<Rightarrow> sched_db \<times> world \<Rightarrow> fire_outcome \<times> sched_db \<times> world" where
  "fireJob_Run sv worker row ev = (\<lambda>(d, w).
     case fe_claim_fault ev of
       Some m \<Rightarrow> (ClaimFailed m, d, w)
     | None \<Rightarrow>
         (case ClaimFire (cs_id row) (fire_at ev) worker (fe_claim_at ev) d of
            (False, d') \<Rightarrow> (AlreadyClaimed, d', w)
          | (True, d') \<Rightarrow>
              (case run_state (svc_Create sv (fire_request row)) w of
                 (Inl e, w') \<Rightarrow> (TickFailed e, d', w')
               | (Inr inst, w') \<Rightarrow>
                   (case record_fire row ev (wm_id inst) d' of (warn, d'') \<Rightarrow> (Fired (wm_id inst) warn, d'', w')))))"

text \<open>Claims older than a day are swept on every refresh.\<close>

definition fireClaimRetention :: duration where
  "fireClaimRetention = 24 * 3600 * seconds 1"

definition scheduler_sweep :: "time \<Rightarrow> sched_db \<Rightarrow> sched_db" where
  "scheduler_sweep now d = snd (SweepFires (now - fireClaimRetention) d)"

end
