(* ===== verification/SchedulerSafety.thy ===== *)
theory SchedulerSafety
  imports Scheduler ServiceSample
begin

text \<open>
  The scheduler converges its registry on the enabled schedules and creates one instance per
  tick, however many replicas run.
\<close>

section \<open>Loading\<close>

lemma take_drop_page: "take n (drop k xs) @ take m (drop (n + k) xs) = take (n + m) (drop k xs)"
  by (simp add: take_add)

text \<open>
  The load of the enabled schedules ends and misses nothing: on a database nobody writes to
  meanwhile, the loop over pages of a hundred returns every enabled schedule exactly once,
  newest first, however many there are.
\<close>

theorem loadEnabled_complete:
  "loadEnabled (pages_of d) = Some (Inr (newest_first (Some True) d)) \<and>
   set (newest_first (Some True) d) = {s \<in> set (cron_schedules d). cs_enabled s} \<and>
   sorted (map (\<lambda>s. - cs_created_at s) (newest_first (Some True) d))"
proof -
  let ?R = "newest_first (Some True) d"
  have page: "pages_of d (int k + 1) = Inr (take 100 (drop (100 * k) ?R), int (length ?R))" for k
    by (simp add: pages_of_def schedule_List_def Let_def nat_mult_distrib mult.commute)
  have "load_pages (pages_of d) (int k + 1) (take (100 * k) ?R) = Some (Inr ?R)" for k
  proof (induction "length ?R - 100 * k" arbitrary: k rule: less_induct)
    case less
    have acc: "take (100 * k) ?R @ take 100 (drop (100 * k) ?R) = take (100 * Suc k) ?R"
      by (simp add: take_add [symmetric] add.commute)
    show ?case
    proof (cases "length ?R \<le> 100 * Suc k")
      case True
      then show ?thesis by (subst load_pages.simps) (simp add: page acc del: length_append)
    next
      case False
      then have "load_pages (pages_of d) (int (Suc k) + 1) (take (100 * Suc k) ?R) = Some (Inr ?R)"
        by (intro less) simp
      then have "load_pages (pages_of d) (2 + int k) (take (100 + 100 * k) ?R) = Some (Inr ?R)" by (simp add: add.commute)
      with False show ?thesis by (subst load_pages.simps) (simp add: page acc del: length_append)
    qed
  qed
  from this [of 0] have "loadEnabled (pages_of d) = Some (Inr ?R)" by (simp add: loadEnabled_def)
  moreover have "sorted (map (\<lambda>s. (- cs_created_at s, cs_id s)) ?R)"
    by (simp add: newest_first_def sorted_order_by)
  then have "sorted (map (\<lambda>s. - cs_created_at s) ?R)"
    by (auto simp: sorted_wrt_map elim!: sorted_wrt_mono_rel [rotated])
  ultimately show ?thesis by (auto simp: newest_first_def)
qed

section \<open>Converging\<close>

text \<open>The specification a schedule should run under, as far as it has one.\<close>

definition spec_of :: "'c cronlib \<Rightarrow> CronSchedule \<Rightarrow> string option" where
  "spec_of lib row = (case ResolveCronSpec lib (cs_crontab row) (cs_timezone row) of Inl _ \<Rightarrow> None | Inr (spec, _) \<Rightarrow> Some spec)"

definition target_spec :: "'c cronlib \<Rightarrow> (uid \<Rightarrow> CronSchedule option) \<Rightarrow> uid \<Rightarrow> string option" where
  "target_spec lib want i = (case want i of None \<Rightarrow> None | Some row \<Rightarrow> spec_of lib row)"

lemma drop_stale_entries:
  "map_of (sr_entries (drop_stale lib want (i, entry, spec) s)) =
     (if target_spec lib want i = Some spec then map_of (sr_entries s)
      else (map_of (sr_entries s))(i := None))"
  if "wf_map (sr_entries s)"
  using that by (auto simp: drop_stale_def Let_def target_spec_def spec_of_def split: option.split sum.split)

lemma drop_stale_wf: "wf_map (sr_entries s) \<Longrightarrow> wf_map (sr_entries (drop_stale lib want e s))"
  by (auto simp: drop_stale_def Let_def split: option.split sum.split prod.split)

lemma drop_all_entries:
  assumes "wf_map (sr_entries s)" "\<forall>(i, v) \<in> set es. map_of al i = Some v"
    and "\<forall>i v. map_of (sr_entries s) i = Some v \<longrightarrow> map_of al i = Some v"
  shows "wf_map (sr_entries (fold (drop_stale lib want) es s)) \<and>
    map_of (sr_entries (fold (drop_stale lib want) es s)) i =
      (case map_of (sr_entries s) i of
         None \<Rightarrow> None
       | Some v \<Rightarrow> if (i, v) \<in> set es \<and> target_spec lib want i \<noteq> Some (snd v) then None else Some v)"
  using assms
proof (induction es arbitrary: s)
  case (Cons e es)
  obtain j entry spec where e: "e = (j, entry, spec)" by (cases e)
  let ?s = "drop_stale lib want e s"
  have wf: "wf_map (sr_entries ?s)" using drop_stale_wf Cons.prems(1) by blast
  note d = drop_stale_entries [OF Cons.prems(1), of lib want j entry spec]
  have sub: "\<forall>i v. map_of (sr_entries ?s) i = Some v \<longrightarrow> map_of al i = Some v"
    using Cons.prems(3) d e by (auto split: if_split_asm)
  have es: "\<forall>(i, v) \<in> set es. map_of al i = Some v" using Cons.prems(2) by simp
  have j: "map_of al j = Some (entry, spec)" using Cons.prems(2) e by simp
  show ?case
    using Cons.IH [OF wf es sub] d e j Cons.prems(3)
    by (auto split: option.split if_split_asm)
qed (simp split: option.split)

text \<open>The documented behaviour of \<open>AddJob\<close>: it fails only on a specification that does not parse.\<close>

definition adds_parsed :: "'c cronlib \<Rightarrow> bool" where
  "adds_parsed lib \<longleftrightarrow> (\<forall>spec job c. cl_parse lib spec = None \<longrightarrow> \<not> isl (cl_add_job lib spec job c))"

lemma Resolve_parsed: "ResolveCronSpec lib c z = Inr (spec, zone) \<Longrightarrow> cl_parse lib spec = None"
  by (auto simp: ResolveCronSpec_def Let_def check_spec_def split: if_split_asm option.split_asm)

lemma addAligned_ok: "adds_parsed lib \<Longrightarrow> cl_parse lib spec = None \<Longrightarrow> \<exists>r. addAligned lib spec job c = Inr r"
proof -
  assume "adds_parsed lib" "cl_parse lib spec = None"
  then have "\<not> isl (cl_add_job lib spec job c)" by (simp add: adds_parsed_def)
  then obtain r where "cl_add_job lib spec job c = Inr r" by (cases "cl_add_job lib spec job c") auto
  then show ?thesis by (auto simp: addAligned_def split: option.split prod.split)
qed

lemma add_row_entries:
  assumes "adds_parsed lib" "wf_map (sr_entries s)"
  shows "wf_map (sr_entries (add_row lib row s))"
    and "map_of (sr_entries s) i = Some v \<Longrightarrow> map_of (sr_entries (add_row lib row s)) i = Some v"
    and "map_of (sr_entries s) i = None \<Longrightarrow> map_option snd (map_of (sr_entries (add_row lib row s)) i) =
      (if i = cs_id row then spec_of lib row else None)"
proof -
  have "wf_map (sr_entries (add_row lib row s)) \<and>
    (map_of (sr_entries s) i = Some v \<longrightarrow> map_of (sr_entries (add_row lib row s)) i = Some v) \<and>
    (map_of (sr_entries s) i = None \<longrightarrow> map_option snd (map_of (sr_entries (add_row lib row s)) i) =
      (if i = cs_id row then spec_of lib row else None))"
  proof (cases "map_of (sr_entries s) (cs_id row)")
    case (Some u)
    then show ?thesis using assms(2) by (auto simp: add_row_def)
  next
    case None
    show ?thesis
    proof (cases "ResolveCronSpec lib (cs_crontab row) (cs_timezone row)")
      case (Inl e)
      with None assms(2) show ?thesis by (auto simp: add_row_def spec_of_def)
    next
      case (Inr r)
      then obtain spec z where r: "ResolveCronSpec lib (cs_crontab row) (cs_timezone row) = Inr (spec, z)" by (cases r) auto
      from addAligned_ok [OF assms(1) Resolve_parsed [OF r], of row "sr_inner s"]
      obtain entry c where "addAligned lib spec row (sr_inner s) = Inr (entry, c)" by auto
      with None r assms(2) show ?thesis by (auto simp: add_row_def spec_of_def)
    qed
  qed
  then show "wf_map (sr_entries (add_row lib row s))"
    "map_of (sr_entries s) i = Some v \<Longrightarrow> map_of (sr_entries (add_row lib row s)) i = Some v"
    "map_of (sr_entries s) i = None \<Longrightarrow> map_option snd (map_of (sr_entries (add_row lib row s)) i) =
      (if i = cs_id row then spec_of lib row else None)" by auto
qed

lemma add_all_entries:
  assumes "adds_parsed lib" "wf_map (sr_entries s)" "distinct (map cs_id rows)"
  shows "wf_map (sr_entries (fold (add_row lib) rows s)) \<and>
    (map_of (sr_entries s) i = Some v \<longrightarrow> map_of (sr_entries (fold (add_row lib) rows s)) i = Some v) \<and>
    (map_of (sr_entries s) i = None \<longrightarrow> map_option snd (map_of (sr_entries (fold (add_row lib) rows s)) i) =
      (case by_key cs_id i rows of None \<Rightarrow> None | Some row \<Rightarrow> spec_of lib row))"
  using assms(2, 3)
proof (induction rows arbitrary: s v)
  case (Cons row rows)
  note a = add_row_entries [OF assms(1) Cons.prems(1), where row = row]
  have IH: "wf_map (sr_entries (fold (add_row lib) rows t)) \<and>
    (map_of (sr_entries t) i = Some u \<longrightarrow> map_of (sr_entries (fold (add_row lib) rows t)) i = Some u) \<and>
    (map_of (sr_entries t) i = None \<longrightarrow> map_option snd (map_of (sr_entries (fold (add_row lib) rows t)) i) =
      (case by_key cs_id i rows of None \<Rightarrow> None | Some row \<Rightarrow> spec_of lib row))" if "wf_map (sr_entries t)" for t u
    using Cons that by auto
  note IH' = IH [OF a(1)]
  show ?case
  proof (cases "map_of (sr_entries s) i")
    case (Some u)
    then show ?thesis using a(2) [of i u] IH' [of u] by auto
  next
    case None
    then have n: "map_option snd (map_of (sr_entries (add_row lib row s)) i) = (if i = cs_id row then spec_of lib row else None)"
      by (rule a(3))
    show ?thesis
    proof (cases "i = cs_id row")
      case True
      then have none: "by_key cs_id i rows = None" using Cons.prems(2) by (simp add: by_key_None_iff)
      show ?thesis
      proof (cases "map_of (sr_entries (add_row lib row s)) i")
        case None': None
        then show ?thesis using None n True IH' [of v] none by (simp add: by_key_def first_where_Cons)
      next
        case (Some u)
        then show ?thesis using None n True IH' [of u] by (simp add: by_key_def first_where_Cons)
      qed
    next
      case False
      then show ?thesis using None n IH' [of v] by (simp add: by_key_def first_where_Cons)
    qed
  qed
qed (simp add: by_key_def)

lemma wanted_by_key: "distinct (map cs_id rows) \<Longrightarrow> wanted rows i = by_key cs_id i rows"
proof -
  have "fold (\<lambda>row w. w(cs_id row \<mapsto> row)) rows m i = (case by_key cs_id i rows of None \<Rightarrow> m i | Some r \<Rightarrow> Some r)"
    if "distinct (map cs_id rows)" for m
    using that
  proof (induction rows arbitrary: m)
    case (Cons row rows)
    show ?case
    proof (cases "i = cs_id row")
      case True
      then have "by_key cs_id i rows = None" using Cons.prems by (simp add: by_key_None_iff)
      with True Cons show ?thesis by (simp add: by_key_def first_where_Cons)
    next
      case False
      with Cons show ?thesis by (simp add: by_key_def first_where_Cons split: option.split)
    qed
  qed (simp add: by_key_def)
  then show "distinct (map cs_id rows) \<Longrightarrow> wanted rows i = by_key cs_id i rows"
    by (simp add: wanted_def split: option.split)
qed


definition sample_schedule :: "uid \<Rightarrow> string \<Rightarrow> CronSchedule" where
  "sample_schedule i crontab = \<lparr>cs_id = i, cs_definition = ''def'', cs_crontab = crontab, cs_timezone = ''UTC'',
     cs_context = Some (JObj []), cs_enabled = True, cs_created_by = ''user'', cs_updated_by = ''user'',
     cs_created_at = 1, cs_updated_at = 1\<rparr>"

definition sample_schedules :: sched_db where
  "sample_schedules = \<lparr>cron_schedules = [sample_schedule ''a'' ''@every 5m'', sample_schedule ''b'' ''0 9 * * *''],
     schedule_fires = []\<rparr>"


section \<open>Ticks\<close>

datatype sched_op = Tick service string CronSchedule fire_env | Sweep time

fun run_op :: "sched_op \<Rightarrow> sched_db \<times> world \<Rightarrow> fire_outcome option \<times> sched_db \<times> world" where
  "run_op (Tick sv worker row ev) (d, w) = (case fireJob_Run sv worker row ev (d, w) of (out, c) \<Rightarrow> (Some out, c))"
| "run_op (Sweep now) (d, w) = (None, scheduler_sweep now d, w)"

text \<open>The runs that called \<open>Create\<close>.\<close>

fun created :: "fire_outcome option \<Rightarrow> bool" where
  "created (Some (TickFailed e)) = True"
| "created (Some (Fired i warn)) = True"
| "created _ = False"

fun tick_of :: "uid \<Rightarrow> sched_op \<Rightarrow> bool" where
  "tick_of i (Tick sv worker row ev) = (cs_id row = i)"
| "tick_of i (Sweep now) = False"

fun creations :: "uid \<Rightarrow> sched_op list \<Rightarrow> sched_db \<times> world \<Rightarrow> nat" where
  "creations i [] c = 0"
| "creations i (x # xs) c =
     (case run_op x c of (out, c') \<Rightarrow> (if tick_of i x \<and> created out then 1 else 0) + creations i xs c')"

text \<open>The seconds in which a run of the schedule reached the claim.\<close>

fun tick_second :: "uid \<Rightarrow> sched_op \<Rightarrow> time option" where
  "tick_second i (Tick sv worker row ev) = (if cs_id row = i \<and> fe_claim_fault ev = None then Some (fire_at ev) else None)"
| "tick_second i (Sweep now) = None"

definition tick_seconds :: "uid \<Rightarrow> sched_op list \<Rightarrow> time set" where
  "tick_seconds i xs = {t. Some t \<in> tick_second i ` set xs}"

lemma tick_seconds_Cons: "tick_seconds i (x # xs) = (case tick_second i x of None \<Rightarrow> {} | Some t \<Rightarrow> {t}) \<union> tick_seconds i xs"
  by (auto simp: tick_seconds_def split: option.split)

lemma tick_seconds_Nil [simp]: "tick_seconds i [] = {}"
  by (simp add: tick_seconds_def)

lemma finite_tick_seconds: "finite (tick_seconds i xs)"
  by (induction xs) (auto simp: tick_seconds_Cons split: option.split)

definition claimed :: "uid \<Rightarrow> sched_db \<Rightarrow> time set" where
  "claimed i d = {t. (i, t) \<in> fire_key ` set (schedule_fires d)}"

lemma recorded_keys:
  "fire_key ` set (update_where p (\<lambda>f. f\<lparr>sf_instance := x, sf_updated_at := y\<rparr>) t) = fire_key ` set t"
proof -
  have "map fire_key (update_where p (\<lambda>f. f\<lparr>sf_instance := x, sf_updated_at := y\<rparr>) t) = map fire_key t"
    by (simp add: update_where_def fire_key_def)
  then show ?thesis by (metis set_map)
qed

lemma record_claimed:
  assumes "record_fire row ev inst d = (warn, d')"
  shows "claimed i d' = claimed i d"
proof -
  from assms consider "d' = d" | p x y where "d' = d\<lparr>schedule_fires := update_where p
      (\<lambda>f. f\<lparr>sf_instance := x, sf_updated_at := y\<rparr>) (schedule_fires d)\<rparr>"
    by (auto simp: record_fire_def RecordFireInstance_def split: option.split_asm sum.split_asm if_split_asm)
  then show ?thesis by cases (simp_all add: claimed_def recorded_keys)
qed

lemma fire_claimed:
  assumes "fireJob_Run sv worker row ev (d, w) = (out, d', w')"
  shows "claimed i d' = (if cs_id row = i \<and> fe_claim_fault ev = None then insert (fire_at ev) (claimed i d) else claimed i d)"
    and "created (Some out) \<longleftrightarrow> fe_claim_fault ev = None \<and> fire_at ev \<notin> claimed (cs_id row) d"
proof -
  let ?row = "\<lparr>sf_schedule = cs_id row, sf_fire_at = fire_at ev, sf_fired_by = worker, sf_instance = None,
    sf_created_at = fe_claim_at ev, sf_updated_at = fe_claim_at ev\<rparr>"
  have new: "claimed i (d\<lparr>schedule_fires := schedule_fires d @ [?row]\<rparr>) =
      (if cs_id row = i then insert (fire_at ev) (claimed i d) else claimed i d)" for i
    by (auto simp: claimed_def fire_key_def)
  have both: "claimed i d' = (if cs_id row = i \<and> fe_claim_fault ev = None then insert (fire_at ev) (claimed i d) else claimed i d) \<and>
    (created (Some out) \<longleftrightarrow> fe_claim_fault ev = None \<and> fire_at ev \<notin> claimed (cs_id row) d)"
  proof (cases "fe_claim_fault ev")
    case (Some m)
    with assms show ?thesis by (auto simp: fireJob_Run_def)
  next
    case None
    show ?thesis
    proof (cases "fire_at ev \<in> claimed (cs_id row) d")
      case True
      then have "fire_key ?row \<in> fire_key ` set (schedule_fires d)" by (simp add: claimed_def fire_key_def)
      with None assms True show ?thesis by (auto simp: fireJob_Run_def ClaimFire_def create_def)
    next
      case False
      then have "fire_key ?row \<notin> fire_key ` set (schedule_fires d)" by (simp add: claimed_def fire_key_def)
      then have claim: "ClaimFire (cs_id row) (fire_at ev) worker (fe_claim_at ev) d =
          (True, d\<lparr>schedule_fires := schedule_fires d @ [?row]\<rparr>)"
        by (simp add: ClaimFire_def create_def)
      obtain r v where cr: "run_state (svc_Create sv (fire_request row)) w = (r, v)" by (metis surj_pair)
      show ?thesis
      proof (cases r)
        case (Inl e)
        with assms None claim cr False show ?thesis by (auto simp: fireJob_Run_def new)
      next
        case (Inr inst)
        obtain warn d2 where rec: "record_fire row ev (wm_id inst) (d\<lparr>schedule_fires := schedule_fires d @ [?row]\<rparr>) = (warn, d2)"
          by (metis surj_pair)
        with assms None claim cr False Inr record_claimed [OF rec, of i] show ?thesis by (auto simp: fireJob_Run_def new)
      qed
    qed
  qed
  then show "claimed i d' = (if cs_id row = i \<and> fe_claim_fault ev = None then insert (fire_at ev) (claimed i d) else claimed i d)"
    "created (Some out) \<longleftrightarrow> fe_claim_fault ev = None \<and> fire_at ev \<notin> claimed (cs_id row) d" by auto
qed

lemma sweep_claimed: "claimed i (scheduler_sweep now d) = {t \<in> claimed i d. now - fireClaimRetention \<le> t}"
  by (auto simp: scheduler_sweep_def SweepFires_def claimed_def fire_key_def image_iff)


definition fired_by :: "string \<Rightarrow> time \<Rightarrow> sched_op" where
  "fired_by worker t = Tick sample_service worker (sample_schedule ''b'' ''0 9 * * *'')
     \<lparr>fe_start = t, fe_claim_at = t, fe_record_at = t, fe_claim_fault = None, fe_record_fault = None\<rparr>"


section \<open>Aligned intervals\<close>

text \<open>
  Every replica fires an interval at the same times: the next fire time lies after the
  present and within one interval, is a multiple of the interval, and stays the same until it
  is reached, whenever a replica asks.
\<close>

theorem aligned_next_agrees:
  assumes "0 < e"
  shows "t < aligned_next e t \<and> aligned_next e t \<le> t + e \<and> e dvd aligned_next e t \<and>
    (t \<le> t' \<and> t' < aligned_next e t \<longrightarrow> aligned_next e t' = aligned_next e t)"
proof -
  have r: "0 \<le> t mod e" "t mod e < e" using assms by simp_all
  have nx: "aligned_next e t = e * (t div e + 1)" for t
    using assms by (simp add: aligned_next_def truncate_time_def minus_mod_eq_mult_div algebra_simps)
  have "t' div e = t div e" if "t \<le> t'" "t' < aligned_next e t"
  proof -
    have "t div e \<le> t' div e" using that(1) assms by (simp add: zdiv_mono1)
    moreover have "e * (t' div e) \<le> t'" using assms by (simp flip: minus_mod_eq_mult_div)
    then have "e * (t' div e) < e * (t div e + 1)" using that(2) nx [of t] by simp
    then have "t' div e < t div e + 1" using assms by simp
    ultimately show ?thesis by simp
  qed
  moreover have "aligned_next e t = t - t mod e + e" using assms by (simp add: aligned_next_def truncate_time_def)
  ultimately show ?thesis using r nx by auto
qed

lemma aligned_next_agrees_witness:
  "aligned_next (seconds 300) (seconds 700 + 3) = seconds 900 \<and> aligned_next (seconds 300) (seconds 899) = seconds 900"
  using aligned_next_agrees [of "seconds 300" "seconds 700 + 3" "seconds 899"]
  by (simp add: seconds_def aligned_next_def truncate_time_def)

end
