(* ===== verification/NodeParse.thy ===== *)
theory NodeParse
  imports Content ContextPath
begin

text \<open>
  The parser of node content, \<open>internal/workflow/model/nodecontent.go\<close>: decoding of a node
  document into \<open>rawNode\<close>, the fields every node has, and the fields of each type. The group
  case and workflows are in \<open>WorkflowParse\<close>.

  Documents are decoded JSON whose keys are spelled as the struct tags. A field of type
  \<open>json.RawMessage\<close> is absent (\<open>None\<close>) or a document, an explicit null included; a pointer or
  slice field is \<open>None\<close> when absent or null.
\<close>

section \<open>Environment\<close>

record NodeLimits =
  DefaultTimeout :: duration
  MaxTimeout :: duration
  CondTimeout :: duration
  ParallelBounds :: ParallelLimits

text \<open>
  \<open>pe_valid\<close> is \<open>ids.Valid\<close>; \<open>pe_custom\<close> the registry of custom node types, with the validator
  of each, which returns the text of its error.
\<close>

record parse_env =
  pe_lib :: golib
  pe_valid :: "uid \<Rightarrow> bool"
  pe_custom :: "string \<Rightarrow> (json \<Rightarrow> string option) option"
  pe_limits :: NodeLimits

text \<open>Errors: a message, or one that wraps an error of the JSON decoder.\<close>

datatype parse_err = PText string | PDecode string decode_error

definition custom_type :: "parse_env \<Rightarrow> NodeType \<Rightarrow> bool" where
  "custom_type env t = (pe_custom env (type_str t) \<noteq> None)"

fun node_type_of :: "string \<Rightarrow> NodeType" where
  "node_type_of s =
     (if s = ''script'' then NTScript else if s = ''conditions'' then NTConditions
      else if s = ''input'' then NTInput else if s = ''group'' then NTGroup
      else if s = ''external_call'' then NTExternalCall else if s = ''output'' then NTOutput
      else if s = ''poller'' then NTPoller else if s = ''parallel_start'' then NTParallelStart
      else if s = ''parallel_end'' then NTParallelEnd else if s = ''delay'' then NTDelay else NTOther s)"

definition valid_type :: "parse_env \<Rightarrow> string \<Rightarrow> bool" where
  "valid_type env s = ValidNodeType (\<lambda>t. pe_custom env t \<noteq> None) (node_type_of s)"

section \<open>Decoding\<close>

record rawCondition =
  rc_condition :: string
  rc_key :: "string option"
  rc_next :: "string option"

record rawHTTPConfig =
  rh_url :: string
  rh_method :: string
  rh_headers :: "(string \<times> string) list"
  rh_body :: raw

record rawExecutionConfig =
  re_command :: "string list"
  re_stdin :: string

record rawPollerHTTPConfig = rawHTTPConfig +
  rp_delay :: raw
  rp_request_timeout :: raw
  rp_max_attempts :: "int option"
  rp_until :: "string option"

record rawPollerRedisConfig =
  rr_method :: string
  rr_key :: "string option"
  rr_channel :: "string option"
  rr_delay :: raw
  rr_request_timeout :: raw
  rr_max_attempts :: "int option"
  rr_max_wait :: raw
  rr_until :: "string option"

record rawPollerRabbitMQConfig =
  rq_queue :: string
  rq_max_wait :: raw
  rq_until :: "string option"

record rawNode =
  rn_type :: string
  rn_id :: string
  rn_definition :: "string option"
  rn_name :: string
  rn_timeout :: raw
  rn_input_data :: "string option"
  rn_script :: "string option"
  rn_conditions :: "rawCondition list option"
  rn_branches :: raw
  rn_parallel_end :: "string option"
  rn_combining_script :: "string option"
  rn_keys :: raw
  rn_channel :: "string option"
  rn_context_path :: "string option"
  rn_validation :: "string option"
  rn_form_id :: "string option"
  rn_form :: raw
  rn_allowed_roles :: "string list"
  rn_record_actor :: "bool option"
  rn_public :: "bool option"
  rn_http_config :: "rawHTTPConfig option"
  rn_execution_config :: "rawExecutionConfig option"
  rn_poller_http :: "rawPollerHTTPConfig option"
  rn_poller_redis :: "rawPollerRedisConfig option"
  rn_poller_rabbitmq :: "rawPollerRabbitMQConfig option"
  rn_config :: raw
  rn_output_property :: "string option"
  rn_next_node :: "string option"
  rn_on_failure :: raw
  rn_metadata :: "gomap option"
  rn_pre_script :: raw
  rn_post_script :: raw
  rn_start_delay :: raw
  rn_delay :: raw
  rn_start_node :: "string option"
  rn_nodes :: "json list option"
  rn_retry :: "bool option"

definition dec_bool :: "json option \<Rightarrow> decode_error + bool" where
  "dec_bool f = (case f of
      None \<Rightarrow> Inr False | Some JNull \<Rightarrow> Inr False | Some (JBool b) \<Rightarrow> Inr b
    | _ \<Rightarrow> Inl (DecodeFailed ''bool''))"

definition dec_object :: "json option \<Rightarrow> decode_error + gomap" where
  "dec_object f = (case f of Some (JObj m) \<Rightarrow> Inr m | _ \<Rightarrow> Inl (DecodeFailed ''object''))"

definition dec_array :: "json option \<Rightarrow> decode_error + json list" where
  "dec_array f = (case f of Some (JArr js) \<Rightarrow> Inr js | _ \<Rightarrow> Inl (DecodeFailed ''array''))"

text \<open>The struct behind an array element or a field; a null leaves it zero.\<close>

definition dec_fields_of :: "(gomap \<Rightarrow> decode_error + 'a) \<Rightarrow> json option \<Rightarrow> decode_error + 'a" where
  "dec_fields_of f v = (case v of None \<Rightarrow> f [] | Some j \<Rightarrow> bindR (dec_struct j) f)"

abbreviation dec_text :: "gomap \<Rightarrow> string \<Rightarrow> decode_error + string option" where
  "dec_text m k \<equiv> dec_opt dec_string (map_of m k)"

definition decode_condition :: "gomap \<Rightarrow> decode_error + rawCondition" where
  "decode_condition m =
     bindR (dec_string (map_of m ''condition'')) (\<lambda>c.
     bindR (dec_text m ''key'') (\<lambda>k.
     bindR (dec_text m ''next_node'') (\<lambda>n. Inr \<lparr>rc_condition = c, rc_key = k, rc_next = n\<rparr>)))"

definition decode_validation :: "gomap \<Rightarrow> decode_error + string" where
  "decode_validation m = dec_string (map_of m ''script'')"

definition decode_http :: "gomap \<Rightarrow> decode_error + rawHTTPConfig" where
  "decode_http m =
     bindR (dec_string (map_of m ''url'')) (\<lambda>u.
     bindR (dec_string (map_of m ''method'')) (\<lambda>meth.
     bindR (dec_map dec_string (map_of m ''headers'')) (\<lambda>h.
       Inr \<lparr>rh_url = u, rh_method = meth, rh_headers = h, rh_body = map_of m ''body''\<rparr>)))"

definition decode_execution :: "gomap \<Rightarrow> decode_error + rawExecutionConfig" where
  "decode_execution m =
     bindR (dec_list dec_string (map_of m ''command'')) (\<lambda>c.
     bindR (dec_string (map_of m ''stdin'')) (\<lambda>i. Inr \<lparr>re_command = c, re_stdin = i\<rparr>))"

definition decode_poller_http :: "gomap \<Rightarrow> decode_error + rawPollerHTTPConfig" where
  "decode_poller_http m =
     bindR (decode_http m) (\<lambda>h.
     bindR (dec_opt dec_int (map_of m ''max_attempts'')) (\<lambda>a.
     bindR (dec_text m ''until'') (\<lambda>u.
       Inr (rawHTTPConfig.extend h
         (rawPollerHTTPConfig.fields (map_of m ''delay'') (map_of m ''request_timeout'') a u)))))"

definition decode_poller_redis :: "gomap \<Rightarrow> decode_error + rawPollerRedisConfig" where
  "decode_poller_redis m =
     bindR (dec_string (map_of m ''method'')) (\<lambda>meth.
     bindR (dec_text m ''key'') (\<lambda>k.
     bindR (dec_text m ''channel'') (\<lambda>c.
     bindR (dec_opt dec_int (map_of m ''max_attempts'')) (\<lambda>a.
     bindR (dec_text m ''until'') (\<lambda>u.
       Inr \<lparr>rr_method = meth, rr_key = k, rr_channel = c, rr_delay = map_of m ''delay'',
         rr_request_timeout = map_of m ''request_timeout'', rr_max_attempts = a,
         rr_max_wait = map_of m ''max_wait_time'', rr_until = u\<rparr>)))))"

definition decode_poller_rabbitmq :: "gomap \<Rightarrow> decode_error + rawPollerRabbitMQConfig" where
  "decode_poller_rabbitmq m =
     bindR (dec_string (map_of m ''queue'')) (\<lambda>q.
     bindR (dec_text m ''until'') (\<lambda>u.
       Inr \<lparr>rq_queue = q, rq_max_wait = map_of m ''max_wait_time'', rq_until = u\<rparr>))"

text \<open>The parts of a node document: names and texts, transports, and the rest.\<close>

definition decode_blocks :: "gomap \<Rightarrow> rawNode \<Rightarrow> decode_error + rawNode" where
  "decode_blocks m r =
     bindR (dec_opt (dec_list (dec_fields_of decode_condition)) (map_of m ''conditions'')) (\<lambda>cs.
     bindR (dec_opt (dec_fields_of decode_validation) (map_of m ''validation'')) (\<lambda>v.
     bindR (dec_opt (dec_fields_of decode_http) (map_of m ''http_config'')) (\<lambda>h.
     bindR (dec_opt (dec_fields_of decode_execution) (map_of m ''execution_config'')) (\<lambda>e.
     bindR (dec_opt (dec_fields_of decode_poller_http) (map_of m ''http'')) (\<lambda>ph.
     bindR (dec_opt (dec_fields_of decode_poller_redis) (map_of m ''redis'')) (\<lambda>pr.
     bindR (dec_opt (dec_fields_of decode_poller_rabbitmq) (map_of m ''rabbitmq'')) (\<lambda>pq.
       Inr (r\<lparr>rn_conditions := cs, rn_validation := v, rn_http_config := h, rn_execution_config := e,
         rn_poller_http := ph, rn_poller_redis := pr, rn_poller_rabbitmq := pq\<rparr>))))))))"

definition decode_texts :: "gomap \<Rightarrow> rawNode \<Rightarrow> decode_error + rawNode" where
  "decode_texts m r =
     bindR (dec_text m ''node_definition_id'') (\<lambda>d.
     bindR (dec_text m ''input_data'') (\<lambda>i.
     bindR (dec_text m ''script'') (\<lambda>s.
     bindR (dec_text m ''parallel_end_node_id'') (\<lambda>p.
     bindR (dec_text m ''combining_script'') (\<lambda>c.
     bindR (dec_text m ''channel'') (\<lambda>ch.
     bindR (dec_text m ''context_path'') (\<lambda>cp.
     bindR (dec_text m ''form_id'') (\<lambda>f.
     bindR (dec_text m ''output_property'') (\<lambda>out.
     bindR (dec_text m ''next_node'') (\<lambda>n.
     bindR (dec_text m ''start_node_id'') (\<lambda>st.
       Inr (r\<lparr>rn_definition := d, rn_input_data := i, rn_script := s, rn_parallel_end := p,
         rn_combining_script := c, rn_channel := ch, rn_context_path := cp, rn_form_id := f,
         rn_output_property := out, rn_next_node := n, rn_start_node := st\<rparr>))))))))))))"

definition decode_node :: "json \<Rightarrow> decode_error + rawNode" where
  "decode_node j =
     bindR (dec_struct j) (\<lambda>m.
     bindR (dec_string (map_of m ''type'')) (\<lambda>t.
     bindR (dec_string (map_of m ''id'')) (\<lambda>i.
     bindR (dec_string (map_of m ''name'')) (\<lambda>n.
     bindR (dec_list dec_string (map_of m ''allowed_roles'')) (\<lambda>roles.
     bindR (dec_opt dec_bool (map_of m ''record_actor'')) (\<lambda>ra.
     bindR (dec_opt dec_bool (map_of m ''public'')) (\<lambda>pub.
     bindR (dec_opt dec_object (map_of m ''metadata'')) (\<lambda>meta.
     bindR (dec_opt dec_array (map_of m ''nodes'')) (\<lambda>nodes.
     bindR (dec_opt dec_bool (map_of m ''retry_on_recovery'')) (\<lambda>retry.
     bindR (decode_texts m
       \<lparr>rn_type = t, rn_id = i, rn_definition = None, rn_name = n, rn_timeout = map_of m ''timeout'',
        rn_input_data = None, rn_script = None, rn_conditions = None, rn_branches = map_of m ''branches'',
        rn_parallel_end = None, rn_combining_script = None, rn_keys = map_of m ''keys'', rn_channel = None,
        rn_context_path = None, rn_validation = None, rn_form_id = None, rn_form = map_of m ''form'',
        rn_allowed_roles = roles, rn_record_actor = ra, rn_public = pub, rn_http_config = None,
        rn_execution_config = None, rn_poller_http = None, rn_poller_redis = None, rn_poller_rabbitmq = None,
        rn_config = map_of m ''config'', rn_output_property = None, rn_next_node = None,
        rn_on_failure = map_of m ''on_failure'', rn_metadata = meta, rn_pre_script = map_of m ''pre_script'',
        rn_post_script = map_of m ''post_script'', rn_start_delay = map_of m ''start_delay'',
        rn_delay = map_of m ''delay'', rn_start_node = None, rn_nodes = nodes, rn_retry = retry\<rparr>)
       (decode_blocks m)))))))))))"

section \<open>Fields\<close>

text \<open>
  The first of the checks that fails gives the error. A message that prints a duration or a
  document keeps its words only.
\<close>

definition checks :: "(bool \<times> string) list \<Rightarrow> parse_err + unit" where
  "checks cs = (case find fst cs of None \<Rightarrow> Inr () | Some (_, msg) \<Rightarrow> Inl (PText msg))"

lemma checks_simps:
  "checks [] = Inr ()"
  "checks ((b, msg) # cs) = (if b then Inl (PText msg) else checks cs)"
  by (simp_all add: checks_def)

lemma checks_Inr [simp]:
  "checks [] = Inr u"
  "checks ((b, msg) # cs) = Inr u \<longleftrightarrow> \<not> b \<and> checks cs = Inr u"
  by (simp_all add: checks_def)

definition blank :: "string \<Rightarrow> bool" where
  "blank s \<longleftrightarrow> trim_space s = []"

definition blank_opt :: "string option \<Rightarrow> bool" where
  "blank_opt v = (case v of None \<Rightarrow> True | Some s \<Rightarrow> blank s)"

definition strOf :: "string option \<Rightarrow> string" where
  "strOf v = (case v of None \<Rightarrow> [] | Some s \<Rightarrow> s)"

definition valid_opt :: "parse_env \<Rightarrow> string option \<Rightarrow> bool" where
  "valid_opt env v = (case v of None \<Rightarrow> False | Some i \<Rightarrow> pe_valid env i)"

definition decoding :: "string \<Rightarrow> decode_error + 'a \<Rightarrow> parse_err + 'a" where
  "decoding what r = (case r of Inl e \<Rightarrow> Inl (PDecode what e) | Inr x \<Rightarrow> Inr x)"

fun prefixed :: "string \<Rightarrow> parse_err \<Rightarrow> parse_err" where
  "prefixed p (PText s) = PText (p @ s)"
| "prefixed p (PDecode s e) = PDecode (p @ s) e"

definition under :: "string \<Rightarrow> parse_err + 'a \<Rightarrow> parse_err + 'a" where
  "under p r = (case r of Inl e \<Rightarrow> Inl (prefixed p e) | Inr x \<Rightarrow> Inr x)"

definition duration_text :: "parse_env \<Rightarrow> string \<Rightarrow> duration option \<Rightarrow> json \<Rightarrow> parse_err + duration" where
  "duration_text env name cap v =
     (case v of
        JStr s \<Rightarrow>
          (case lib_duration (pe_lib env) s of
             None \<Rightarrow> Inl (PText (''invalid '' @ name @ '' '' @ quoted s))
           | Some d \<Rightarrow>
               if d \<le> 0 then Inl (PText (name @ '' must be positive''))
               else if (case cap of None \<Rightarrow> False | Some c \<Rightarrow> d > c) then Inl (PText (name @ '' exceeds the cap''))
               else Inr d)
      | _ \<Rightarrow> Inl (PText (name @ '' must be a duration string'')))"

definition nodeTimeout :: "parse_env \<Rightarrow> raw \<Rightarrow> parse_err + duration" where
  "nodeTimeout env r =
     (case r of
        None \<Rightarrow> Inr (DefaultTimeout (pe_limits env))
      | Some JNull \<Rightarrow> Inr (DefaultTimeout (pe_limits env))
      | Some v \<Rightarrow> duration_text env ''timeout'' (Some (MaxTimeout (pe_limits env))) v)"

definition optionalCappedDuration :: "parse_env \<Rightarrow> string \<Rightarrow> raw \<Rightarrow> parse_err + duration \<times> bool" where
  "optionalCappedDuration env name r =
     (case r of
        None \<Rightarrow> Inr (0, False)
      | Some JNull \<Rightarrow> Inr (0, True)
      | Some v \<Rightarrow> bindR (duration_text env name (Some (MaxTimeout (pe_limits env))) v) (\<lambda>d. Inr (d, True)))"

definition pollerDuration :: "parse_env \<Rightarrow> string \<Rightarrow> duration \<Rightarrow> raw \<Rightarrow> parse_err + duration" where
  "pollerDuration env name def r =
     (case r of
        None \<Rightarrow> Inr def
      | Some JNull \<Rightarrow> Inr def
      | Some v \<Rightarrow> duration_text env name None v)"

definition parseHookScript :: "parse_env \<Rightarrow> string \<Rightarrow> raw \<Rightarrow> parse_err + HookScript option \<times> bool" where
  "parseHookScript env name r =
     (case r of
        None \<Rightarrow> Inr (None, False)
      | Some JNull \<Rightarrow> Inr (None, True)
      | Some v \<Rightarrow>
          bindR (decoding (name @ '' must be an object'')
            (bindR (dec_struct v) (\<lambda>m. bindR (dec_text m ''script'') (\<lambda>s. Inr (s, map_of m ''timeout''))))) (\<lambda>(script, t).
          bindR (checks [(blank_opt script, name @ ''.script is required'')]) (\<lambda>_.
          bindR (under (name @ ''.'') (nodeTimeout env t)) (\<lambda>d.
            Inr (Some \<lparr>hook_script = strOf script, hook_timeout = d\<rparr>, True)))))"

text \<open>The loop over the decoded map, in ascending order of the keys.\<close>

fun check_key_targets :: "parse_env \<Rightarrow> (string \<times> string option) list \<Rightarrow> parse_err + (string \<times> uid) list" where
  "check_key_targets env [] = Inr []"
| "check_key_targets env ((k, v) # m) =
     bindR (checks
       [(blank k, ''workflow key name must be non-empty''),
        (strOf v \<noteq> [] \<and> \<not> pe_valid env (strOf v), ''workflow key target '' @ quoted (strOf v) @ '' is not a valid uuid'')]) (\<lambda>_.
     bindR (check_key_targets env m) (\<lambda>ks. Inr ((k, strOf v) # ks)))"

definition parseKeys :: "parse_env \<Rightarrow> raw \<Rightarrow> parse_err + (string \<times> uid) list option" where
  "parseKeys env r =
     (case r of
        None \<Rightarrow> Inr None
      | Some JNull \<Rightarrow> Inr None
      | Some v \<Rightarrow>
          bindR (decoding ''keys must be an object'' (dec_map (dec_opt dec_string) (Some v))) (\<lambda>m.
          bindR (check_key_targets env m) (\<lambda>ks. Inr (Some ks))))"

definition parseFailureRoute :: "parse_env \<Rightarrow> raw \<Rightarrow> parse_err + FailureRoute option" where
  "parseFailureRoute env r =
     (case r of
        None \<Rightarrow> Inr None
      | Some JNull \<Rightarrow> Inr None
      | Some v \<Rightarrow>
          bindR (decoding ''on_failure must be an object''
            (bindR (dec_struct v) (\<lambda>m. bindR (dec_text m ''next_node'') (\<lambda>n.
             bindR (dec_text m ''output_property'') (\<lambda>out. Inr (n, out)))))) (\<lambda>(n, out).
          bindR (checks
            [(blank_opt n, ''on_failure.next_node is required''),
             (\<not> valid_opt env n, ''on_failure.next_node '' @ quoted (strOf n) @ '' is not a valid uuid''),
             (blank_opt out, ''on_failure.output_property is required'')]) (\<lambda>_.
            Inr (Some \<lparr>fr_next = strOf n, fr_output = trim_space (strOf out)\<rparr>))))"

definition requiredUntil :: "string option \<Rightarrow> parse_err + string" where
  "requiredUntil v = bindR (checks [(blank_opt v, ''until is required'')]) (\<lambda>_. Inr (strOf v))"

definition maxAllowedRoles :: nat where
  "maxAllowedRoles = 64"

fun collect_roles :: "string list \<Rightarrow> string list \<Rightarrow> parse_err + string list" where
  "collect_roles [] out = Inr out"
| "collect_roles (role # roles) out =
     (let r = trim_space role
      in if r = [] then Inl (PText ''allowed_roles must be a non-empty role name'')
         else collect_roles roles (if r \<in> set out then out else out @ [r]))"

definition parseAllowedRoles :: "string list \<Rightarrow> parse_err + string list" where
  "parseAllowedRoles raw =
     (if raw = [] then Inr []
      else if length raw > maxAllowedRoles then Inl (PText ''allowed_roles has too many entries'')
      else collect_roles raw [])"

text \<open>\<open>contextpath.HasTemplate\<close>: two opening braces, text without a closing one, two closing braces.\<close>

fun HasTemplate :: "string \<Rightarrow> bool" where
  "HasTemplate [] = False"
| "HasTemplate (c # s) =
     (has_prefix (c # s) ''{{'' \<and>
        (let rest = drop 1 s
         in rest \<noteq> [] \<and> hd rest \<noteq> CHR ''}'' \<and> has_prefix (dropWhile (\<lambda>x. x \<noteq> CHR ''}'') rest) ''}}'') \<or>
      HasTemplate s)"

definition http_method_of :: "string \<Rightarrow> string" where
  "http_method_of meth = (if meth = [] then ''GET'' else if HasTemplate meth then meth else to_upper meth)"

definition check_url :: "parse_env \<Rightarrow> string \<Rightarrow> string \<Rightarrow> parse_err + unit" where
  "check_url env name u = checks
     [(blank u, name @ '' is required''),
      (\<not> HasTemplate u \<and> \<not> lib_http_url (pe_lib env) u, name @ '' '' @ quoted u @ '' must be an absolute http(s) url'')]"

section \<open>What every node has\<close>

definition on_failure_allowed :: "parse_env \<Rightarrow> NodeType \<Rightarrow> bool" where
  "on_failure_allowed env t \<longleftrightarrow> t = NTExternalCall \<or> t = NTPoller \<or> custom_type env t"

definition parse_common :: "parse_env \<Rightarrow> rawNode \<Rightarrow> parse_err + node_fields" where
  "parse_common env r =
     bindR (checks [(rn_form r \<notin> {None, Some JNull},
       ''form is no longer supported; reference a form from the library with form_id'')]) (\<lambda>_.
     bindR (parseHookScript env ''pre_script'' (rn_pre_script r)) (\<lambda>(pre, preSet).
     bindR (parseHookScript env ''post_script'' (rn_post_script r)) (\<lambda>(post, postSet).
     bindR (optionalCappedDuration env ''start_delay'' (rn_start_delay r)) (\<lambda>(delay, delaySet).
     bindR (parseFailureRoute env (rn_on_failure r)) (\<lambda>onFailure.
     bindR (checks
       [(rn_id r \<noteq> [] \<and> \<not> pe_valid env (rn_id r), ''node id '' @ quoted (rn_id r) @ '' is not a valid uuid''),
        (strOf (rn_next_node r) \<noteq> [] \<and> \<not> pe_valid env (strOf (rn_next_node r)),
         ''next_node '' @ quoted (strOf (rn_next_node r)) @ '' is not a valid uuid'')]) (\<lambda>_.
       Inr ((plain_node (NTOther []) (rn_id r))
         \<lparr>nName := rn_name r, nMetadata := rn_metadata r, nPreScript := pre, nPreScriptSet := preSet,
          nPostScript := post, nPostScriptSet := postSet, nStartDelay := delay, nStartDelaySet := delaySet,
          nOnFailure := onFailure, nNextNode := strOf (rn_next_node r),
          nOutputProperty := strOf (rn_output_property r), nInputData := rn_input_data r,
          nRetryOnRecovery := (rn_retry r = Some True)\<rparr>)))))))"

text \<open>The authorization surface of input nodes, which every other node refuses.\<close>

definition has_input_gate :: "rawNode \<Rightarrow> bool" where
  "has_input_gate r \<longleftrightarrow> rn_allowed_roles r \<noteq> [] \<or> rn_record_actor r \<noteq> None \<or> rn_public r \<noteq> None"

definition has_parallel_fields :: "rawNode \<Rightarrow> bool" where
  "has_parallel_fields r \<longleftrightarrow> rn_branches r \<noteq> None \<or> rn_parallel_end r \<noteq> None \<or> rn_combining_script r \<noteq> None"

definition has_transport :: "rawNode \<Rightarrow> bool" where
  "has_transport r \<longleftrightarrow> rn_http_config r \<noteq> None \<or> rn_execution_config r \<noteq> None \<or> rn_poller_http r \<noteq> None \<or>
     rn_poller_redis r \<noteq> None \<or> rn_poller_rabbitmq r \<noteq> None"

text \<open>A node that refers to a registered definition carries graph fields only.\<close>

definition parse_reference :: "parse_env \<Rightarrow> rawNode \<Rightarrow> string \<Rightarrow> node_fields \<Rightarrow> parse_err + NodeContent" where
  "parse_reference env r definition nc =
     (let t = node_type_of (rn_type r)
      in bindR (checks
       [(\<not> pe_valid env definition, ''node_definition_id '' @ quoted definition @ '' is not a valid uuid''),
        (rn_type r \<noteq> [] \<and> \<not> valid_type env (rn_type r), ''node type '' @ quoted (rn_type r) @ '' is not supported''),
        (rn_type r \<noteq> [] \<and> nOnFailure nc \<noteq> None \<and> \<not> on_failure_allowed env t,
         ''node type '' @ quoted (rn_type r) @ '' does not support on_failure''),
        (rn_context_path r \<noteq> None, ''input node does not support context_path; use output_property''),
        (rn_script r \<noteq> None \<or> rn_conditions r \<noteq> None \<or> rn_channel r \<noteq> None \<or> rn_form_id r \<noteq> None \<or> rn_nodes r \<noteq> None \<or>
         has_transport r \<or> rn_config r \<noteq> None \<or> has_parallel_fields r \<or> rn_delay r \<noteq> None \<or> has_input_gate r,
         ''node referencing a node_definition_id cannot carry inline executable fields'')]) (\<lambda>_.
     bindR (if rn_keys r = None then Inr None
            else bindR (parseKeys env (rn_keys r)) (\<lambda>ks. Inr (Some (GroupContent [] ks [])))) (\<lambda>g.
       Inr (NodeContent (nc\<lparr>nDefinitionID := definition, nType := t\<rparr>) g))))"

section \<open>The types\<close>

definition parse_script :: "parse_env \<Rightarrow> rawNode \<Rightarrow> node_fields \<Rightarrow> parse_err + node_fields" where
  "parse_script env r nc =
     bindR (checks [(blank_opt (rn_script r), ''script node requires a non-empty script'')]) (\<lambda>_.
     bindR (nodeTimeout env (rn_timeout r)) (\<lambda>d.
       Inr (nc\<lparr>nScript := strOf (rn_script r), nTimeout := d\<rparr>)))"

fun parse_condition_list :: "rawCondition list \<Rightarrow> string list \<Rightarrow> parse_err + Condition list" where
  "parse_condition_list [] keys = Inr []"
| "parse_condition_list (rc # rcs) keys =
     (let key = (if blank_opt (rc_key rc) then [] else strOf (rc_key rc))
      in bindR (checks
           [(blank (rc_condition rc), ''condition script must be non-empty''),
            (key \<noteq> [] \<and> key \<in> set keys, ''duplicate condition key '' @ quoted key),
            (rc_next rc \<noteq> None, ''condition next_node is not supported; use workflow or group keys'')]) (\<lambda>_.
         bindR (parse_condition_list rcs (key # keys)) (\<lambda>cs.
           Inr (\<lparr>cond_script = rc_condition rc, cond_key = key\<rparr> # cs))))"

definition parse_conditions :: "parse_env \<Rightarrow> rawNode \<Rightarrow> node_fields \<Rightarrow> parse_err + node_fields" where
  "parse_conditions env r nc =
     (let rcs = (case rn_conditions r of None \<Rightarrow> [] | Some cs \<Rightarrow> cs)
      in bindR (checks
           [(length rcs < 2, ''conditions node requires at least two conditions''),
            (rn_next_node r \<noteq> None, ''conditions node cannot have next_node''),
            (rn_output_property r \<noteq> None, ''conditions node cannot have output_property'')]) (\<lambda>_.
         bindR (parse_condition_list rcs []) (\<lambda>cs.
           Inr (nc\<lparr>nConditions := cs, nTimeout := CondTimeout (pe_limits env)\<rparr>))))"

definition input_channels :: "string list" where
  "input_channels = [''http'', ''redis'', ''rabbitmq'']"

definition parse_input :: "parse_env \<Rightarrow> rawNode \<Rightarrow> node_fields \<Rightarrow> parse_err + node_fields" where
  "parse_input env r nc =
     bindR (checks
       [(nStartDelaySet nc, ''input node does not support start_delay''),
        (blank_opt (rn_channel r), ''input node requires a channel''),
        (strOf (rn_channel r) \<notin> set input_channels,
         ''input channel '' @ quoted (strOf (rn_channel r)) @ '' is not supported (allowed: http, redis, rabbitmq)''),
        (rn_context_path r \<noteq> None, ''input node does not support context_path; use output_property''),
        (\<not> blank_opt (rn_output_property r) \<and> \<not> ValidKey (trim_space (strOf (rn_output_property r))),
         ''input output_property must be a bare key''),
        (rn_validation r \<noteq> None \<and> blank_opt (rn_validation r), ''input validation script must be non-empty''),
        (rn_form_id r \<noteq> None \<and> \<not> valid_opt env (rn_form_id r),
         ''form_id '' @ quoted (strOf (rn_form_id r)) @ '' is not a valid uuid'')]) (\<lambda>_.
     bindR (parseAllowedRoles (rn_allowed_roles r)) (\<lambda>roles.
     bindR (checks [(rn_public r = Some True \<and> (roles \<noteq> [] \<or> rn_record_actor r = Some True),
         ''public input node must have empty allowed_roles and record_actor=false'')]) (\<lambda>_.
       Inr (nc\<lparr>nChannel := strOf (rn_channel r), nOutputProperty := trim_space (nOutputProperty nc),
         nValidation := rn_validation r, nFormID := strOf (rn_form_id r), nAllowedRoles := roles,
         nRecordActor := (rn_record_actor r = Some True), nPublic := (rn_public r = Some True),
         nTimeout := CondTimeout (pe_limits env)\<rparr>))))"

definition parse_output :: "parse_env \<Rightarrow> rawNode \<Rightarrow> node_fields \<Rightarrow> parse_err + node_fields" where
  "parse_output env r nc =
     bindR (checks
       [(rn_channel r = None, ''output node requires a channel''),
        (strOf (rn_channel r) \<notin> {''redis'', ''rabbitmq''},
         ''output channel '' @ quoted (strOf (rn_channel r)) @ '' is not supported (allowed: redis, rabbitmq)''),
        (blank_opt (rn_context_path r), ''output node requires a context_path'')]) (\<lambda>_.
     bindR (nodeTimeout env (rn_timeout r)) (\<lambda>d.
       Inr (nc\<lparr>nChannel := strOf (rn_channel r), nContextPath := strOf (rn_context_path r), nTimeout := d\<rparr>)))"

definition parse_external_http :: "parse_env \<Rightarrow> rawHTTPConfig \<Rightarrow> node_fields \<Rightarrow> parse_err + node_fields" where
  "parse_external_http env cfg nc =
     bindR (check_url env ''http_config.url'' (rh_url cfg)) (\<lambda>_.
       Inr (nc\<lparr>nHTTP := Some \<lparr>http_url = rh_url cfg, http_method = http_method_of (rh_method cfg),
         http_headers = rh_headers cfg, http_body = rh_body cfg\<rparr>\<rparr>))"

definition parse_external_exec :: "rawExecutionConfig \<Rightarrow> node_fields \<Rightarrow> parse_err + node_fields" where
  "parse_external_exec cfg nc =
     bindR (checks
       [(re_command cfg = [], ''execution_config.command must be non-empty''),
        (list_ex blank (re_command cfg), ''execution_config.command arguments must be non-empty'')]) (\<lambda>_.
       Inr (nc\<lparr>nExecution := Some \<lparr>exec_command = re_command cfg, exec_stdin = re_stdin cfg\<rparr>\<rparr>))"

definition parse_external :: "parse_env \<Rightarrow> rawNode \<Rightarrow> node_fields \<Rightarrow> parse_err + node_fields" where
  "parse_external env r nc =
     bindR (case (rn_http_config r, rn_execution_config r) of
         (Some cfg, None) \<Rightarrow> parse_external_http env cfg nc
       | (None, Some cfg) \<Rightarrow> parse_external_exec cfg nc
       | _ \<Rightarrow> Inl (PText ''external_call node requires exactly one of http_config or execution_config'')) (\<lambda>nc'.
     bindR (nodeTimeout env (rn_timeout r)) (\<lambda>d. Inr (nc'\<lparr>nTimeout := d\<rparr>)))"

definition max_attempts :: "string \<Rightarrow> int option \<Rightarrow> parse_err + int" where
  "max_attempts name v =
     (case v of
        None \<Rightarrow> Inr 10
      | Some n \<Rightarrow> if n \<le> 0 then Inl (PText (name @ ''.max_attempts must be greater than zero'')) else Inr n)"

definition parse_poller_http :: "parse_env \<Rightarrow> rawPollerHTTPConfig \<Rightarrow> parse_err + PollerHTTPConfig" where
  "parse_poller_http env cfg =
     bindR (check_url env ''http.url'' (rh_url cfg)) (\<lambda>_.
     bindR (under ''http.'' (pollerDuration env ''delay'' (seconds 5) (rp_delay cfg))) (\<lambda>delay.
     bindR (under ''http.'' (pollerDuration env ''request_timeout'' (seconds 30) (rp_request_timeout cfg))) (\<lambda>timeout.
     bindR (max_attempts ''http'' (rp_max_attempts cfg)) (\<lambda>n.
     bindR (requiredUntil (rp_until cfg)) (\<lambda>until.
       Inr \<lparr>ph_url = rh_url cfg, ph_method = http_method_of (rh_method cfg), ph_headers = rh_headers cfg,
         ph_body = rh_body cfg, ph_delay = delay, ph_request_timeout = timeout, ph_max_attempts = n,
         ph_until = until\<rparr>)))))"

definition parse_redis_get :: "parse_env \<Rightarrow> rawPollerRedisConfig \<Rightarrow> parse_err + PollerRedisConfig" where
  "parse_redis_get env cfg =
     bindR (checks
       [(rr_channel cfg \<noteq> None, ''redis GET does not support channel''),
        (rr_max_wait cfg \<noteq> None, ''redis GET does not support max_wait_time''),
        (blank_opt (rr_key cfg), ''redis GET requires a key'')]) (\<lambda>_.
     bindR (under ''redis.'' (pollerDuration env ''delay'' (seconds 5) (rr_delay cfg))) (\<lambda>delay.
     bindR (under ''redis.'' (pollerDuration env ''request_timeout'' (seconds 30) (rr_request_timeout cfg))) (\<lambda>timeout.
     bindR (max_attempts ''redis'' (rr_max_attempts cfg)) (\<lambda>n.
     bindR (requiredUntil (rr_until cfg)) (\<lambda>until.
       Inr \<lparr>pr_method = ''GET'', pr_key = strOf (rr_key cfg), pr_channel = [], pr_delay = delay,
         pr_request_timeout = timeout, pr_max_attempts = n, pr_max_wait = 0, pr_until = until\<rparr>)))))"

definition parse_redis_sub :: "parse_env \<Rightarrow> rawPollerRedisConfig \<Rightarrow> parse_err + PollerRedisConfig" where
  "parse_redis_sub env cfg =
     bindR (checks
       [(rr_key cfg \<noteq> None, ''redis SUB does not support key''),
        (rr_delay cfg \<noteq> None, ''redis SUB does not support delay''),
        (rr_request_timeout cfg \<noteq> None, ''redis SUB does not support request_timeout''),
        (rr_max_attempts cfg \<noteq> None, ''redis SUB does not support max_attempts''),
        (blank_opt (rr_channel cfg), ''redis SUB requires a channel'')]) (\<lambda>_.
     bindR (under ''redis.'' (pollerDuration env ''max_wait_time'' (seconds 300) (rr_max_wait cfg))) (\<lambda>wait.
     bindR (requiredUntil (rr_until cfg)) (\<lambda>until.
       Inr \<lparr>pr_method = ''SUB'', pr_key = [], pr_channel = strOf (rr_channel cfg), pr_delay = 0,
         pr_request_timeout = 0, pr_max_attempts = 0, pr_max_wait = wait, pr_until = until\<rparr>)))"

definition parse_poller_redis :: "parse_env \<Rightarrow> rawPollerRedisConfig \<Rightarrow> parse_err + PollerRedisConfig" where
  "parse_poller_redis env cfg =
     (let meth = to_upper (trim_space (rr_method cfg))
      in if meth = ''GET'' then parse_redis_get env cfg
         else if meth = ''SUB'' then parse_redis_sub env cfg
         else Inl (PText (''redis method '' @ quoted (rr_method cfg) @ '' is not supported (allowed: GET, SUB)'')))"

definition parse_poller_rabbitmq :: "parse_env \<Rightarrow> rawPollerRabbitMQConfig \<Rightarrow> parse_err + PollerRabbitMQConfig" where
  "parse_poller_rabbitmq env cfg =
     bindR (checks [(blank (rq_queue cfg), ''rabbitmq.queue is required'')]) (\<lambda>_.
     bindR (under ''rabbitmq.'' (pollerDuration env ''max_wait_time'' (seconds 300) (rq_max_wait cfg))) (\<lambda>wait.
     bindR (requiredUntil (rq_until cfg)) (\<lambda>until.
       Inr \<lparr>pq_queue = rq_queue cfg, pq_max_wait = wait, pq_until = until\<rparr>)))"

text \<open>Pollers and delays restart after an interruption unless the node says otherwise.\<close>

definition restarts :: "rawNode \<Rightarrow> node_fields \<Rightarrow> node_fields" where
  "restarts r nc = (if rn_retry r = None then nc\<lparr>nRetryOnRecovery := True\<rparr> else nc)"

definition parse_poller :: "parse_env \<Rightarrow> rawNode \<Rightarrow> node_fields \<Rightarrow> parse_err + node_fields" where
  "parse_poller env r nc =
     bindR (case (rn_poller_http r, rn_poller_redis r, rn_poller_rabbitmq r) of
         (Some cfg, None, None) \<Rightarrow> bindR (parse_poller_http env cfg) (\<lambda>c. Inr (nc\<lparr>nPollerHTTP := Some c\<rparr>))
       | (None, Some cfg, None) \<Rightarrow> bindR (parse_poller_redis env cfg) (\<lambda>c. Inr (nc\<lparr>nPollerRedis := Some c\<rparr>))
       | (None, None, Some cfg) \<Rightarrow> bindR (parse_poller_rabbitmq env cfg) (\<lambda>c. Inr (nc\<lparr>nPollerRabbitMQ := Some c\<rparr>))
       | _ \<Rightarrow> Inl (PText ''poller node requires exactly one of http, redis, or rabbitmq'')) (\<lambda>nc'.
       Inr ((restarts r nc')\<lparr>nPredicateTimeout := CondTimeout (pe_limits env)\<rparr>))"

text \<open>The loop over the branches, in ascending order of their names.\<close>

fun check_branches :: "parse_env \<Rightarrow> (string \<times> string) list \<Rightarrow> parse_err + unit" where
  "check_branches env [] = Inr ()"
| "check_branches env ((name, target) # bs) =
     bindR (checks
       [(blank name, ''parallel_start branch names must be non-empty''),
        (\<not> pe_valid env target,
         ''parallel_start branch '' @ quoted name @ '' target '' @ quoted target @ '' is not a valid uuid'')]) (\<lambda>_.
     check_branches env bs)"

definition parse_parallel_start :: "parse_env \<Rightarrow> rawNode \<Rightarrow> node_fields \<Rightarrow> parse_err + node_fields" where
  "parse_parallel_start env r nc =
     bindR (checks
       [(rn_combining_script r \<noteq> None, ''parallel_start node does not support combining_script''),
        (rn_next_node r \<noteq> None, ''parallel_start node cannot have next_node''),
        (rn_output_property r \<noteq> None, ''parallel_start node cannot have output_property'')]) (\<lambda>_.
     bindR (decoding ''parallel_start branches must be an object of branch name to node id''
       (dec_map dec_string (rn_branches r))) (\<lambda>bs.
     bindR (checks
       [(length bs < 2, ''parallel_start node requires at least two branches''),
        (int (length bs) > MaxBranchesPerParallel (effectiveParallelLimits (ParallelBounds (pe_limits env))),
         ''parallel_start node has too many branches'')]) (\<lambda>_.
     bindR (check_branches env bs) (\<lambda>_.
     bindR (checks [(\<not> valid_opt env (rn_parallel_end r),
         ''parallel_start node requires a valid parallel_end_node_id'')]) (\<lambda>_.
       Inr (nc\<lparr>nParallelBranches := Some bs, nParallelEndNodeID := strOf (rn_parallel_end r),
         nTimeout := CondTimeout (pe_limits env)\<rparr>))))))"

definition parse_parallel_end :: "parse_env \<Rightarrow> rawNode \<Rightarrow> node_fields \<Rightarrow> parse_err + node_fields" where
  "parse_parallel_end env r nc =
     bindR (checks
       [(rn_branches r \<noteq> None, ''parallel_end node does not support branches''),
        (rn_parallel_end r \<noteq> None, ''parallel_end node does not support parallel_end_node_id''),
        (blank_opt (rn_combining_script r), ''parallel_end node requires a non-empty combining_script'')]) (\<lambda>_.
       Inr (nc\<lparr>nCombiningScript := strOf (rn_combining_script r), nTimeout := CondTimeout (pe_limits env)\<rparr>))"

definition parse_delay :: "parse_env \<Rightarrow> rawNode \<Rightarrow> node_fields \<Rightarrow> parse_err + node_fields" where
  "parse_delay env r nc =
     bindR (checks
       [(nStartDelaySet nc, ''delay node does not support start_delay''),
        (rn_delay r \<in> {None, Some JNull}, ''delay node requires a delay'')]) (\<lambda>_.
     bindR (optionalCappedDuration env ''delay'' (rn_delay r)) (\<lambda>(d, _).
       Inr ((restarts r (nc\<lparr>nDelay := d\<rparr>))\<lparr>nTimeout := CondTimeout (pe_limits env)\<rparr>)))"

definition parseCustomNode :: "parse_env \<Rightarrow> rawNode \<Rightarrow> node_fields \<Rightarrow> parse_err + node_fields" where
  "parseCustomNode env r nc =
     (let t = ''node type '' @ quoted (type_str (nType nc))
      in bindR (checks
        [(rn_script r \<noteq> None \<or> rn_conditions r \<noteq> None \<or> rn_channel r \<noteq> None \<or> rn_validation r \<noteq> None \<or> rn_form_id r \<noteq> None \<or>
          has_transport r \<or> has_parallel_fields r \<or> rn_nodes r \<noteq> None \<or> rn_start_node r \<noteq> None \<or>
          rn_context_path r \<noteq> None \<or> rn_delay r \<noteq> None \<or> has_input_gate r,
          t @ '' does not support that field; custom nodes carry only type and config''),
         (rn_config r \<in> {None, Some JNull}, t @ '': config is required'')]) (\<lambda>_.
      bindR (case (pe_custom env (type_str (nType nc)), rn_config r) of
          (Some validate, Some config) \<Rightarrow>
            (case validate config of None \<Rightarrow> Inr () | Some e \<Rightarrow> Inl (PText (t @ '': invalid config: '' @ e)))
        | _ \<Rightarrow> Inl (PText (t @ '' is not supported''))) (\<lambda>_.
      bindR (nodeTimeout env (rn_timeout r)) (\<lambda>d.
        Inr (nc\<lparr>nTimeout := d, nCustomConfig := rn_config r\<rparr>)))))"

text \<open>Every type but a group.\<close>

definition parse_typed :: "parse_env \<Rightarrow> rawNode \<Rightarrow> node_fields \<Rightarrow> parse_err + node_fields" where
  "parse_typed env r nc =
     (case nType nc of
        NTScript \<Rightarrow> parse_script env r nc
      | NTConditions \<Rightarrow> parse_conditions env r nc
      | NTInput \<Rightarrow> parse_input env r nc
      | NTOutput \<Rightarrow> parse_output env r nc
      | NTExternalCall \<Rightarrow> parse_external env r nc
      | NTPoller \<Rightarrow> parse_poller env r nc
      | NTParallelStart \<Rightarrow> parse_parallel_start env r nc
      | NTParallelEnd \<Rightarrow> parse_parallel_end env r nc
      | NTDelay \<Rightarrow> parse_delay env r nc
      | NTGroup \<Rightarrow> Inr nc
      | NTOther s \<Rightarrow> Inr nc)"

text \<open>The checks before and after the fields of a built-in type.\<close>

definition check_type :: "parse_env \<Rightarrow> rawNode \<Rightarrow> node_fields \<Rightarrow> parse_err + NodeType" where
  "check_type env r nc =
     (let t = node_type_of (rn_type r)
      in bindR (checks
       [(rn_type r = [], ''node type is required''),
        (\<not> valid_type env (rn_type r), ''node type '' @ quoted (rn_type r) @ '' is not supported (allowed: script, '' @
          ''conditions, input, group, external_call, output, poller, parallel_start, parallel_end, delay)''),
        (nOnFailure nc \<noteq> None \<and> \<not> on_failure_allowed env t,
         ''node type '' @ quoted (type_str t) @ '' does not support on_failure''),
        (t \<noteq> NTGroup \<and> rn_keys r \<noteq> None, ''keys are only valid for group nodes'')]) (\<lambda>_. Inr t))"

definition foreign_fields :: "rawNode \<Rightarrow> NodeType \<Rightarrow> parse_err + unit" where
  "foreign_fields r t =
     (let no = (\<lambda>what. ''node type '' @ quoted (type_str t) @ '' does not support '' @ what);
          parallel = (t = NTParallelStart \<or> t = NTParallelEnd)
      in checks
       [(t \<noteq> NTInput \<and> rn_form_id r \<noteq> None, no ''form_id''),
        (t \<noteq> NTInput \<and> has_input_gate r, no ''allowed_roles, record_actor, or public''),
        (rn_config r \<noteq> None, no ''config''),
        (\<not> parallel \<and> rn_branches r \<noteq> None, no ''branches''),
        (\<not> parallel \<and> rn_parallel_end r \<noteq> None, no ''parallel_end_node_id''),
        (\<not> parallel \<and> rn_combining_script r \<noteq> None, no ''combining_script'')])"

end
