(* ===== verification/WorkflowParse.thy ===== *)
theory WorkflowParse
  imports ParallelSafety NodeParse
begin

text \<open>
  The recursive part of the parser, \<open>parseRawNode\<close> of
  \<open>internal/workflow/model/nodecontent.go\<close>, and \<open>ParseWorkflowContent\<close> of
  \<open>workflowcontent.go\<close>, with what a parsed node is known to satisfy.
\<close>

section \<open>Sizes\<close>

lemma bindR_cong:
  "m = m' \<Longrightarrow> (\<And>x. m' = Inr x \<Longrightarrow> k x = k' x) \<Longrightarrow> bindR m k = bindR m' k'"
  by (cases m') auto

text \<open>The documents below a node document are smaller than it.\<close>

definition raw_size :: "rawNode \<Rightarrow> nat" where
  "raw_size r = (case rn_nodes r of None \<Rightarrow> 0 | Some js \<Rightarrow> Suc (size_list size js))"

lemma size_field:
  fixes m :: gomap
  shows "map_of m k = Some j \<Longrightarrow> size j \<le> size_list (size_prod (\<lambda>x. 0) size) m"
  by (induction m) (auto split: if_splits)

lemma decode_blocks_nodes: "decode_blocks m r = Inr r' \<Longrightarrow> rn_nodes r' = rn_nodes r"
  by (auto simp: decode_blocks_def bindR_Inr_iff)

lemma decode_texts_nodes: "decode_texts m r = Inr r' \<Longrightarrow> rn_nodes r' = rn_nodes r"
  by (auto simp: decode_texts_def bindR_Inr_iff)

lemma decode_node_nodes:
  assumes "decode_node j = Inr r"
  obtains m where "dec_struct j = Inr m" "dec_opt dec_array (map_of m ''nodes'') = Inr (rn_nodes r)"
  using assms unfolding decode_node_def bindR_Inr_iff
  by (elim exE conjE) (drule decode_blocks_nodes decode_texts_nodes, drule decode_texts_nodes, simp)

lemma decode_node_size: "decode_node j = Inr r \<Longrightarrow> raw_size r \<le> size j"
proof (erule decode_node_nodes)
  fix m assume m: "dec_struct j = Inr m" "dec_opt dec_array (map_of m ''nodes'') = Inr (rn_nodes r)"
  show ?thesis
  proof (cases "rn_nodes r")
    case (Some js)
    with m(2) have f: "map_of m ''nodes'' = Some (JArr js)"
      by (auto simp: dec_opt_def dec_array_def bindR_Inr_iff split: option.splits json.splits)
    with m(1) have "j = JObj m" by (auto simp: dec_struct_def split: json.splits)
    with size_field [OF f] Some show ?thesis by (simp add: raw_size_def)
  qed (simp add: raw_size_def)
qed

lemma size_mem: "j \<in> set js \<Longrightarrow> size j < Suc (size_list size js)"
  by (induction js) auto

section \<open>Nodes and their children\<close>

text \<open>
  The loop over the node documents of a group or a workflow: \<open>f\<close> parses one node, \<open>seen\<close> holds
  the identifiers so far.
\<close>

fun parse_nodes ::
  "parse_env \<Rightarrow> string \<Rightarrow> string \<Rightarrow> (rawNode \<Rightarrow> parse_err + NodeContent) \<Rightarrow> uid list \<Rightarrow> json list \<Rightarrow>
   parse_err + NodeContent list \<times> uid list" where
  "parse_nodes env owner label f seen [] = Inr ([], seen)"
| "parse_nodes env owner label f seen (j # js) =
     bindR (decoding (''parse '' @ owner @ '' node'') (decode_node j)) (\<lambda>rn.
     bindR (checks
       [(rn_id rn = [] \<or> \<not> pe_valid env (rn_id rn), label @ quoted (rn_id rn) @ '' is not a valid uuid''),
        (rn_id rn \<in> set seen, ''duplicate node id '' @ quoted (rn_id rn) @ '' in '' @ owner)]) (\<lambda>_.
     bindR (f rn) (\<lambda>nc.
     bindR (parse_nodes env owner label f (rn_id rn # seen) js) (\<lambda>(ns, seen'). Inr (nc # ns, seen')))))"

lemma parse_nodes_cong [fundef_cong]:
  "js = js' \<Longrightarrow> (\<And>j r. j \<in> set js' \<Longrightarrow> decode_node j = Inr r \<Longrightarrow> f r = g r) \<Longrightarrow>
   parse_nodes env owner label f seen js = parse_nodes env owner label g seen js'"
proof (induction js' arbitrary: js seen)
  case (Cons j js')
  have "parse_nodes env owner label f s js' = parse_nodes env owner label g s js'" for s
    by (rule Cons.IH [OF refl]) (rule Cons.prems(2) [OF list.set_intros(2)], assumption+)
  moreover have "decode_node j = Inr r \<Longrightarrow> f r = g r" for r
    by (rule Cons.prems(2) [OF list.set_intros(1)])
  ultimately show ?case unfolding Cons.prems(1) parse_nodes.simps
    by (intro bindR_cong refl) (auto simp: decoding_def split: sum.splits)
qed simp

text \<open>The checks of a group before and after its children.\<close>

definition group_head :: "parse_env \<Rightarrow> rawNode \<Rightarrow> parse_err + (string \<times> uid) list option" where
  "group_head env r =
     bindR (checks
       [(\<not> valid_opt env (rn_start_node r), ''group node requires a valid start_node_id''),
        (rn_nodes r = None \<or> rn_nodes r = Some [], ''group node requires a non-empty nodes array'')]) (\<lambda>_.
     parseKeys env (rn_keys r))"

definition group_of_nodes ::
  "rawNode \<Rightarrow> (string \<times> uid) list option \<Rightarrow> NodeContent list \<times> uid list \<Rightarrow> parse_err + GroupContent" where
  "group_of_nodes r keys p =
     (let start = strOf (rn_start_node r)
      in bindR (checks
       [(start \<notin> set (snd p),
         ''group start_node_id '' @ quoted start @ '' does not match any node in the group'')]) (\<lambda>_.
       Inr (GroupContent start keys (fst p))))"

function parseRawNode :: "parse_env \<Rightarrow> rawNode \<Rightarrow> parse_err + NodeContent" where
  "parseRawNode env r =
     bindR (parse_common env r) (\<lambda>nc.
     case rn_definition r of
       Some d \<Rightarrow> parse_reference env r d nc
     | None \<Rightarrow>
         bindR (check_type env r nc) (\<lambda>t.
         if custom_type env t
         then bindR (parseCustomNode env r (nc\<lparr>nType := t\<rparr>)) (\<lambda>f. Inr (NodeContent f None))
         else if t = NTGroup
         then bindR (group_head env r) (\<lambda>keys.
              bindR (parse_nodes env ''group'' ''group node child id '' (parseRawNode env) []
                (case rn_nodes r of None \<Rightarrow> [] | Some js \<Rightarrow> js)) (\<lambda>p.
              bindR (group_of_nodes r keys p) (\<lambda>g.
              bindR (foreign_fields r t) (\<lambda>_. Inr (NodeContent (nc\<lparr>nType := t\<rparr>) (Some g))))))
         else bindR (parse_typed env r (nc\<lparr>nType := t\<rparr>)) (\<lambda>f.
              bindR (foreign_fields r t) (\<lambda>_. Inr (NodeContent f None)))))"
  by pat_completeness auto
termination
proof (relation "measure (\<lambda>(env, r). raw_size r)")
  fix env :: parse_env and r :: rawNode and j child
  assume j: "j \<in> set (case rn_nodes r of None \<Rightarrow> [] | Some js \<Rightarrow> js)" and c: "decode_node j = Inr child"
  from j obtain js where "rn_nodes r = Some js" "j \<in> set js" by (cases "rn_nodes r") auto
  with decode_node_size [OF c] show "((env, child), env, r) \<in> measure (\<lambda>(env, r). raw_size r)"
    by (auto simp: raw_size_def dest!: size_mem)
qed simp

declare parseRawNode.simps [simp del]

definition ParseNodeContent :: "parse_env \<Rightarrow> raw \<Rightarrow> parse_err + NodeContent" where
  "ParseNodeContent env content =
     (case content of
        None \<Rightarrow> Inl (PText ''node content is required'')
      | Some j \<Rightarrow> bindR (decoding ''parse node content'' (decode_node j)) (parseRawNode env))"

section \<open>Workflows\<close>

text \<open>Errors: of the parser, of the notification block, of the context mode, of the validation.\<close>

datatype workflow_err = WParse parse_err | WStatus status_update_error
  | WMode mode_error | WInvalid val_error

definition parsing :: "parse_err + 'a \<Rightarrow> workflow_err + 'a" where
  "parsing r = (case r of Inl e \<Rightarrow> Inl (WParse e) | Inr x \<Rightarrow> Inr x)"

definition notifying :: "status_update_error + 'a \<Rightarrow> workflow_err + 'a" where
  "notifying r = (case r of Inl e \<Rightarrow> Inl (WStatus e) | Inr x \<Rightarrow> Inr x)"

definition in_mode :: "mode_error + 'a \<Rightarrow> workflow_err + 'a" where
  "in_mode r = (case r of Inl e \<Rightarrow> Inl (WMode e) | Inr x \<Rightarrow> Inr x)"

definition validating :: "val_error + 'a \<Rightarrow> workflow_err + 'a" where
  "validating r = (case r of Inl e \<Rightarrow> Inl (WInvalid e) | Inr x \<Rightarrow> Inr x)"

definition parse_top :: "parse_env \<Rightarrow> json \<Rightarrow> parse_err + uid \<times> NodeContent list \<times> (string \<times> uid) list" where
  "parse_top env j =
     bindR (decoding ''parse workflow content'' (bindR (dec_struct j) (\<lambda>m.
       bindR (dec_text m ''start_node_id'') (\<lambda>s.
       bindR (dec_opt dec_array (map_of m ''nodes'')) (\<lambda>js. Inr (s, js, map_of m ''keys'')))))) (\<lambda>(s, js, k).
     bindR (checks
       [(\<not> valid_opt env s, ''workflow requires a valid start_node_id''),
        (js = None \<or> js = Some [], ''workflow requires a non-empty nodes array'')]) (\<lambda>_.
     bindR (parse_nodes env ''workflow'' ''workflow node id '' (parseRawNode env) []
       (case js of None \<Rightarrow> [] | Some raws \<Rightarrow> raws)) (\<lambda>(nodes, seen).
     bindR (checks
       [(strOf s \<notin> set seen, ''workflow start_node_id '' @ quoted (strOf s) @ '' does not match any node'')]) (\<lambda>_.
     bindR (parseKeys env k) (\<lambda>keys.
       Inr (strOf s, nodes, case keys of None \<Rightarrow> [] | Some ks \<Rightarrow> ks))))))"

definition ParseWorkflowContent :: "parse_env \<Rightarrow> raw \<Rightarrow> workflow_err + WorkflowContent" where
  "ParseWorkflowContent env content =
     (case content of
        None \<Rightarrow> Inl (WParse (PText ''workflow content is required''))
      | Some j \<Rightarrow>
          bindR (parsing (parse_top env j)) (\<lambda>(start, nodes, keys).
          bindR (notifying (ParseStatusUpdate (pe_lib env) content)) (\<lambda>su.
          bindR (in_mode (ParseContextMode content)) (\<lambda>mode.
          let wc = \<lparr>wStartNodeID = start, wKeys = keys, wNodes = nodes, wContextMode = mode, wStatusUpdate = su\<rparr>
          in bindR (validating (ValidateWorkflowContent (pe_valid env) wc (ParallelBounds (pe_limits env)))) (\<lambda>_.
             Inr wc)))))"

end
