(* ===== verification/NodeTypes.thy ===== *)
theory NodeTypes
  imports NodeParse
begin

text \<open>
  \<open>internal/workflow/model/custom_registry.go\<close>: the registries of custom node types, filled at
  start-up. The parser's \<open>pe_custom\<close> is the lookup in the first. A Go map is an association list
  in order of registration, whose keys are distinct. Compiling a JSON schema and wrapping it into
  the node envelope are the functions \<open>compile\<close> and \<open>envelope\<close>.
\<close>

type_synonym validator = "json \<Rightarrow> string option"

type_synonym type_registry = "(string \<times> validator) list"

definition IsBuiltinNodeType :: "string \<Rightarrow> bool" where
  "IsBuiltinNodeType s = (case node_type_of s of NTOther _ \<Rightarrow> False | _ \<Rightarrow> True)"

definition maxCustomTypeNameLen :: nat where
  "maxCustomTypeNameLen = 64"

definition name_start :: "char \<Rightarrow> bool" where
  "name_start c = (let n = of_char c :: nat in 97 \<le> n \<and> n \<le> 122)"

definition name_char :: "char \<Rightarrow> bool" where
  "name_char c = (let n = of_char c :: nat in 97 \<le> n \<and> n \<le> 122 \<or> 48 \<le> n \<and> n \<le> 57 \<or> n = 95)"

definition customTypeNameRe :: "string \<Rightarrow> bool" where
  "customTypeNameRe s = (case s of [] \<Rightarrow> False | c # cs \<Rightarrow> name_start c \<and> list_all name_char cs)"

definition ValidateCustomTypeName :: "string \<Rightarrow> parse_err + unit" where
  "ValidateCustomTypeName t = checks
     [(t = [], ''custom node type must be non-empty''),
      (length t > maxCustomTypeNameLen, ''custom node type '' @ quoted t @ '' exceeds 64 characters''),
      (\<not> customTypeNameRe t, ''custom node type '' @ quoted t @ '' must match ^[a-z][a-z0-9_]*$''),
      (IsBuiltinNodeType t, ''custom node type '' @ quoted t @ '' collides with a builtin node type'')]"

definition RegisterCustomType :: "string \<Rightarrow> validator option \<Rightarrow> type_registry \<Rightarrow> parse_err + type_registry" where
  "RegisterCustomType t v reg =
     (case v of
        None \<Rightarrow> Inl (PText (''custom node type '' @ quoted t @ '' requires a validator''))
      | Some validate \<Rightarrow>
          bindR (ValidateCustomTypeName t) (\<lambda>_.
          if map_of reg t \<noteq> None
          then Inl (PText (''custom node type '' @ quoted t @ '' is already registered''))
          else Inr (reg @ [(t, validate)])))"

record schema_entry =
  se_config :: json
  se_full :: json

type_synonym schema_registry = "(string \<times> schema_entry) list"

definition RegisterCustomSchema ::
  "(json \<Rightarrow> string option) \<Rightarrow> (string \<Rightarrow> json \<Rightarrow> string + json) \<Rightarrow> string \<Rightarrow> raw \<Rightarrow> schema_registry \<Rightarrow>
   parse_err + schema_registry" where
  "RegisterCustomSchema compile envelope t schema reg =
     (case schema of
        None \<Rightarrow> Inl (PText (''custom node type '' @ quoted t @ '' requires a Schema''))
      | Some j \<Rightarrow>
          bindR (ValidateCustomTypeName t) (\<lambda>_.
          case compile j of
            Some e \<Rightarrow> Inl (PText (''custom node type '' @ quoted t @ '': invalid Schema: '' @ e))
          | None \<Rightarrow>
              (case envelope t j of
                 Inl e \<Rightarrow> Inl (PText (''custom node type '' @ quoted t @ '': invalid Schema: '' @ e))
               | Inr full \<Rightarrow>
                   if map_of reg t \<noteq> None
                   then Inl (PText (''custom node type '' @ quoted t @ '' is already registered''))
                   else Inr (reg @ [(t, \<lparr>se_config = j, se_full = full\<rparr>)]))))"

text \<open>Removal from the two registries.\<close>

definition UnregisterCustomType :: "string \<Rightarrow> type_registry \<times> schema_registry \<Rightarrow> type_registry \<times> schema_registry" where
  "UnregisterCustomType t regs =
     (filter (\<lambda>(k, _). k \<noteq> t) (fst regs), filter (\<lambda>(k, _). k \<noteq> t) (snd regs))"

definition UnregisterCustomSchema :: "string \<Rightarrow> schema_registry \<Rightarrow> schema_registry" where
  "UnregisterCustomSchema t reg = filter (\<lambda>(k, _). k \<noteq> t) reg"

definition LookupCustomType :: "type_registry \<Rightarrow> string \<Rightarrow> validator option" where
  "LookupCustomType reg t = map_of reg t"

definition LookupCustomSchema :: "schema_registry \<Rightarrow> string \<Rightarrow> json option" where
  "LookupCustomSchema reg t = map_option se_full (map_of reg t)"

definition LookupCustomConfigSchema :: "schema_registry \<Rightarrow> string \<Rightarrow> json option" where
  "LookupCustomConfigSchema reg t = map_option se_config (map_of reg t)"

section \<open>What registration keeps\<close>

definition registry_ok :: "type_registry \<Rightarrow> bool" where
  "registry_ok reg \<longleftrightarrow> distinct (map fst reg) \<and> list_all (\<lambda>(t, _). ValidateCustomTypeName t = Inr ()) reg"

lemma registry_ok_empty [simp]: "registry_ok []"
  by (simp add: registry_ok_def)

lemma RegisterCustomType_keeps: "RegisterCustomType t v reg = Inr reg' \<Longrightarrow> registry_ok reg \<Longrightarrow> registry_ok reg'"
  by (auto simp: RegisterCustomType_def registry_ok_def bindR_Inr_iff map_of_eq_None_iff
      split: option.splits if_splits)

lemma UnregisterCustomType_keeps: "registry_ok reg \<Longrightarrow> registry_ok (fst (UnregisterCustomType t (reg, ss)))"
  by (auto simp: UnregisterCustomType_def registry_ok_def list_all_iff distinct_map_filter)

lemma LookupCustomType_other:
  "registry_ok reg \<Longrightarrow> LookupCustomType reg (type_str t) \<noteq> None \<Longrightarrow> \<exists>s. t = NTOther s"
  by (cases t) (auto simp: LookupCustomType_def registry_ok_def list_all_iff ValidateCustomTypeName_def
      IsBuiltinNodeType_def dest!: map_of_SomeD split: if_splits)

end
