(* ===== verification/ParseSafety.thy ===== *)
theory ParseSafety
  imports WorkflowParse NodeTypes
begin

text \<open>
  What a parsed workflow satisfies: every node of the tree has the fields its type needs, within
  their bounds, and the tree is well scoped, which is what the theorems on the cursor and on
  parallel blocks assume.
\<close>

section \<open>Well-formed nodes\<close>

definition in_span :: "parse_env \<Rightarrow> duration \<Rightarrow> bool" where
  "in_span env d \<longleftrightarrow> 0 < d \<and> d \<le> MaxTimeout (pe_limits env)"

definition hook_wf :: "parse_env \<Rightarrow> HookScript option \<Rightarrow> bool" where
  "hook_wf env h = (case h of None \<Rightarrow> True | Some s \<Rightarrow> \<not> blank (hook_script s) \<and> in_span env (hook_timeout s))"

definition route_wf :: "parse_env \<Rightarrow> FailureRoute option \<Rightarrow> bool" where
  "route_wf env r = (case r of None \<Rightarrow> True
     | Some fr \<Rightarrow> pe_valid env (fr_next fr) \<and> fr_output fr \<noteq> [])"

definition uid_wf :: "parse_env \<Rightarrow> uid \<Rightarrow> bool" where
  "uid_wf env i \<longleftrightarrow> i = [] \<or> pe_valid env i"

definition common_wf :: "parse_env \<Rightarrow> node_fields \<Rightarrow> bool" where
  "common_wf env f \<longleftrightarrow>
     hook_wf env (nPreScript f) \<and> hook_wf env (nPostScript f) \<and>
     (nStartDelay f = 0 \<or> in_span env (nStartDelay f)) \<and> route_wf env (nOnFailure f) \<and>
     uid_wf env (nID f) \<and> uid_wf env (nNextNode f)"

definition roles_wf :: "string list \<Rightarrow> bool" where
  "roles_wf rs \<longleftrightarrow> distinct rs \<and> length rs \<le> maxAllowedRoles \<and> [] \<notin> set rs"

text \<open>Only an input node has an authorization surface, and a public one has no gate.\<close>

definition gate_wf :: "node_fields \<Rightarrow> bool" where
  "gate_wf f \<longleftrightarrow>
     (if nType f = NTInput
      then roles_wf (nAllowedRoles f) \<and> (nPublic f \<longrightarrow> nAllowedRoles f = [] \<and> \<not> nRecordActor f)
      else nAllowedRoles f = [] \<and> \<not> nRecordActor f \<and> \<not> nPublic f)"

definition conditions_wf :: "Condition list \<Rightarrow> bool" where
  "conditions_wf cs \<longleftrightarrow> 2 \<le> length cs \<and> (\<forall>c \<in> set cs. \<not> blank (cond_script c)) \<and>
     distinct (filter (\<lambda>k. k \<noteq> []) (map cond_key cs))"

definition poller_wf :: "node_fields \<Rightarrow> bool" where
  "poller_wf f =
     (case (nPollerHTTP f, nPollerRedis f, nPollerRabbitMQ f) of
        (Some c, None, None) \<Rightarrow> 0 < ph_delay c \<and> 0 < ph_request_timeout c \<and> 0 < ph_max_attempts c \<and> \<not> blank (ph_until c)
      | (None, Some c, None) \<Rightarrow>
          \<not> blank (pr_until c) \<and>
          (if pr_method c = ''GET''
           then \<not> blank (pr_key c) \<and> 0 < pr_delay c \<and> 0 < pr_request_timeout c \<and> 0 < pr_max_attempts c
           else pr_method c = ''SUB'' \<and> \<not> blank (pr_channel c) \<and> 0 < pr_max_wait c)
      | (None, None, Some c) \<Rightarrow> \<not> blank (pq_queue c) \<and> 0 < pq_max_wait c \<and> \<not> blank (pq_until c)
      | _ \<Rightarrow> False)"

definition branches_wf :: "parse_env \<Rightarrow> node_fields \<Rightarrow> bool" where
  "branches_wf env f =
     (case nParallelBranches f of
        None \<Rightarrow> False
      | Some bs \<Rightarrow>
          2 \<le> length bs \<and>
          int (length bs) \<le> MaxBranchesPerParallel (effectiveParallelLimits (ParallelBounds (pe_limits env))) \<and>
          (\<forall>(name, target) \<in> set bs. \<not> blank name \<and> pe_valid env target) \<and> pe_valid env (nParallelEndNodeID f))"

definition type_wf :: "parse_env \<Rightarrow> node_fields \<Rightarrow> bool" where
  "type_wf env f =
     (case nType f of
        NTScript \<Rightarrow> \<not> blank (nScript f) \<and> in_span env (nTimeout f)
      | NTConditions \<Rightarrow> conditions_wf (nConditions f)
      | NTInput \<Rightarrow> nChannel f \<in> set input_channels \<and> (nOutputProperty f = [] \<or> ValidKey (nOutputProperty f)) \<and>
          (nFormID f = [] \<or> pe_valid env (nFormID f))
      | NTGroup \<Rightarrow> True
      | NTExternalCall \<Rightarrow> (nHTTP f = None) \<noteq> (nExecution f = None) \<and> in_span env (nTimeout f)
      | NTOutput \<Rightarrow> nChannel f \<in> {''redis'', ''rabbitmq''} \<and> \<not> blank (nContextPath f) \<and> in_span env (nTimeout f)
      | NTPoller \<Rightarrow> poller_wf f
      | NTParallelStart \<Rightarrow> branches_wf env f
      | NTParallelEnd \<Rightarrow> \<not> blank (nCombiningScript f)
      | NTDelay \<Rightarrow> in_span env (nDelay f) \<and> \<not> nStartDelaySet f
      | NTOther s \<Rightarrow> (\<exists>validate config. pe_custom env s = Some validate \<and> nCustomConfig f = Some config \<and>
          validate config = None) \<and> in_span env (nTimeout f))"

definition failure_wf :: "parse_env \<Rightarrow> node_fields \<Rightarrow> bool" where
  "failure_wf env f \<longleftrightarrow> nOnFailure f = None \<or> on_failure_allowed env (nType f)"

text \<open>The limits of a configuration, and a registry that only holds registered types.\<close>

definition env_ok :: "parse_env \<Rightarrow> bool" where
  "env_ok env \<longleftrightarrow> in_span env (DefaultTimeout (pe_limits env)) \<and> \<not> pe_valid env [] \<and>
     (\<exists>reg. registry_ok reg \<and> pe_custom env = LookupCustomType reg)"

lemma env_ok_custom: "env_ok env \<Longrightarrow> custom_type env t \<Longrightarrow> \<exists>s. t = NTOther s"
  unfolding env_ok_def custom_type_def using LookupCustomType_other by metis

section \<open>Fields\<close>

lemma duration_text_positive: "duration_text env name c v = Inr d \<Longrightarrow> 0 < d"
  by (auto simp: duration_text_def split: json.splits option.splits if_splits)

lemma duration_text_capped:
  "duration_text env name (Some (MaxTimeout (pe_limits env))) v = Inr d \<Longrightarrow> in_span env d"
  by (auto simp: duration_text_def in_span_def split: json.splits option.splits if_splits)

lemma nodeTimeout_span: "nodeTimeout env r = Inr d \<Longrightarrow> env_ok env \<Longrightarrow> in_span env d"
  by (auto simp: nodeTimeout_def env_ok_def dest: duration_text_capped split: option.splits json.splits)

lemma optionalCappedDuration_span:
  "optionalCappedDuration env name r = Inr (d, s) \<Longrightarrow> d = 0 \<or> in_span env d"
  by (auto simp: optionalCappedDuration_def bindR_Inr_iff dest: duration_text_capped split: option.splits json.splits)

lemma optionalCappedDuration_value:
  "optionalCappedDuration env name r = Inr (d, s) \<Longrightarrow> r \<notin> {None, Some JNull} \<Longrightarrow> in_span env d"
  by (auto simp: optionalCappedDuration_def bindR_Inr_iff dest: duration_text_capped split: option.splits json.splits)

lemma pollerDuration_positive: "pollerDuration env name d r = Inr d' \<Longrightarrow> 0 < d \<Longrightarrow> 0 < d'"
  by (auto simp: pollerDuration_def dest: duration_text_positive split: option.splits json.splits)

lemma decoding_Inr [simp]: "decoding what r = Inr x \<longleftrightarrow> r = Inr x"
  by (auto simp: decoding_def split: sum.splits)

lemma under_Inr [simp]: "under p r = Inr x \<longleftrightarrow> r = Inr x"
  by (auto simp: under_def split: sum.splits)

lemma blank_opt_Some: "\<not> blank_opt v \<Longrightarrow> \<not> blank (strOf v)"
  by (auto simp: blank_opt_def strOf_def split: option.splits)

lemma valid_opt_Some: "valid_opt env v \<Longrightarrow> pe_valid env (strOf v)"
  by (auto simp: valid_opt_def strOf_def split: option.splits)

lemma parseHookScript_wf: "parseHookScript env name r = Inr (h, s) \<Longrightarrow> env_ok env \<Longrightarrow> hook_wf env h"
  by (auto simp: parseHookScript_def hook_wf_def bindR_Inr_iff
      dest: blank_opt_Some nodeTimeout_span split: option.splits json.splits if_splits)

lemma parseFailureRoute_wf: "parseFailureRoute env r = Inr fr \<Longrightarrow> route_wf env fr"
  by (auto simp: parseFailureRoute_def route_wf_def bindR_Inr_iff blank_def
      dest: valid_opt_Some blank_opt_Some split: option.splits json.splits if_splits)

lemma collect_roles_wf:
  "collect_roles rs out = Inr out' \<Longrightarrow> distinct out \<Longrightarrow> [] \<notin> set out \<Longrightarrow>
   distinct out' \<and> [] \<notin> set out' \<and> length out' \<le> length out + length rs"
  by (induction rs out rule: collect_roles.induct) (fastforce simp: Let_def split: if_splits)+

lemma parseAllowedRoles_wf: "parseAllowedRoles raw = Inr rs \<Longrightarrow> roles_wf rs"
  by (auto simp: parseAllowedRoles_def roles_wf_def dest!: collect_roles_wf split: if_splits)

lemma parse_common_wf:
  assumes "parse_common env r = Inr nc" "env_ok env"
  shows "common_wf env nc \<and> nAllowedRoles nc = [] \<and> \<not> nRecordActor nc \<and> \<not> nPublic nc \<and> nID nc = rn_id r \<and>
    nDefinitionID nc = []"
  using assms unfolding parse_common_def common_wf_def
  by (auto simp: bindR_Inr_iff plain_node_def uid_wf_def
      dest: parseHookScript_wf parseFailureRoute_wf optionalCappedDuration_span split: if_splits)

section \<open>The types\<close>

definition shape_wf :: "parse_env \<Rightarrow> node_fields \<Rightarrow> bool" where
  "shape_wf env f \<longleftrightarrow> common_wf env f \<and> gate_wf f \<and> type_wf env f"

text \<open>What \<open>parse_typed\<close> starts from: the common fields, and zero elsewhere.\<close>

definition fresh :: "parse_env \<Rightarrow> node_fields \<Rightarrow> bool" where
  "fresh env nc \<longleftrightarrow> common_wf env nc \<and> nAllowedRoles nc = [] \<and> \<not> nRecordActor nc \<and> \<not> nPublic nc \<and>
     nHTTP nc = None \<and> nExecution nc = None \<and>
     nPollerHTTP nc = None \<and> nPollerRedis nc = None \<and> nPollerRabbitMQ nc = None"

lemma parse_common_fresh:
  assumes "parse_common env r = Inr nc" "env_ok env"
  shows "fresh env (nc\<lparr>nType := t\<rparr>)"
  using parse_common_wf [OF assms] assms(1) unfolding fresh_def parse_common_def common_wf_def
  by (auto simp: bindR_Inr_iff plain_node_def split: if_splits)

lemmas typed_wf = shape_wf_def fresh_def common_wf_def gate_wf_def type_wf_def bindR_Inr_iff

lemma parse_script_wf:
  "parse_script env r nc = Inr f \<Longrightarrow> nType nc = NTScript \<Longrightarrow> fresh env nc \<Longrightarrow> env_ok env \<Longrightarrow> shape_wf env f"
  by (auto simp: parse_script_def typed_wf dest: blank_opt_Some nodeTimeout_span split: if_splits)

lemma parse_condition_list_wf:
  "parse_condition_list rcs keys = Inr cs \<Longrightarrow>
   length cs = length rcs \<and> (\<forall>c \<in> set cs. \<not> blank (cond_script c)) \<and>
   distinct (filter (\<lambda>k. k \<noteq> []) (map cond_key cs)) \<and>
   (\<forall>c \<in> set cs. cond_key c \<noteq> [] \<longrightarrow> cond_key c \<notin> set keys)"
proof (induction rcs keys arbitrary: cs rule: parse_condition_list.induct)
  case (2 rc rcs keys)
  then show ?case by (fastforce simp: Let_def bindR_Inr_iff split: if_splits)
qed simp

lemma parse_conditions_wf:
  "parse_conditions env r nc = Inr f \<Longrightarrow> nType nc = NTConditions \<Longrightarrow> fresh env nc \<Longrightarrow> shape_wf env f"
  by (auto simp: parse_conditions_def typed_wf conditions_wf_def Let_def dest!: parse_condition_list_wf
      split: if_splits)

lemma parse_input_fields:
  assumes "parse_input env r nc = Inr f"
  obtains roles where "parseAllowedRoles (rn_allowed_roles r) = Inr roles"
    "\<not> (rn_public r = Some True \<and> (roles \<noteq> [] \<or> rn_record_actor r = Some True))"
    "strOf (rn_channel r) \<in> set input_channels"
    "blank_opt (rn_output_property r) \<or> ValidKey (trim_space (strOf (rn_output_property r)))"
    "rn_form_id r = None \<or> valid_opt env (rn_form_id r)"
    "f = nc\<lparr>nChannel := strOf (rn_channel r), nOutputProperty := trim_space (nOutputProperty nc),
      nValidation := rn_validation r, nFormID := strOf (rn_form_id r), nAllowedRoles := roles,
      nRecordActor := (rn_record_actor r = Some True), nPublic := (rn_public r = Some True),
      nTimeout := CondTimeout (pe_limits env)\<rparr>"
  using assms unfolding parse_input_def bindR_Inr_iff checks_Inr de_Morgan_conj not_not by blast

lemma blank_opt_trim: "blank_opt v \<Longrightarrow> trim_space (strOf v) = []"
  by (auto simp: blank_opt_def blank_def strOf_def trim_space_def split: option.splits)

lemma parse_input_wf:
  assumes "parse_input env r nc = Inr f" "nType nc = NTInput" "fresh env nc"
    "nOutputProperty nc = strOf (rn_output_property r)"
  shows "shape_wf env f"
  using assms(1)
proof (rule parse_input_fields)
  fix roles
  assume a: "parseAllowedRoles (rn_allowed_roles r) = Inr roles"
    "\<not> (rn_public r = Some True \<and> (roles \<noteq> [] \<or> rn_record_actor r = Some True))"
    "strOf (rn_channel r) \<in> set input_channels"
    "blank_opt (rn_output_property r) \<or> ValidKey (trim_space (strOf (rn_output_property r)))"
    "rn_form_id r = None \<or> valid_opt env (rn_form_id r)"
    and f: "f = nc\<lparr>nChannel := strOf (rn_channel r), nOutputProperty := trim_space (nOutputProperty nc),
      nValidation := rn_validation r, nFormID := strOf (rn_form_id r), nAllowedRoles := roles,
      nRecordActor := (rn_record_actor r = Some True), nPublic := (rn_public r = Some True),
      nTimeout := CondTimeout (pe_limits env)\<rparr>"
  have "common_wf env f" using assms(3) f by (simp add: fresh_def common_wf_def)
  moreover have "gate_wf f" using parseAllowedRoles_wf [OF a(1)] a(2) assms(2) f by (auto simp: gate_wf_def)
  moreover have "nFormID f = [] \<or> pe_valid env (nFormID f)"
    using a(5) valid_opt_Some f by (auto simp: strOf_def)
  moreover have "nOutputProperty f = [] \<or> ValidKey (nOutputProperty f)"
    using a(4) blank_opt_trim assms(4) f by auto
  ultimately show ?thesis using a(3) f assms(2) by (simp add: shape_wf_def type_wf_def)
qed

lemma parse_output_wf:
  "parse_output env r nc = Inr f \<Longrightarrow> nType nc = NTOutput \<Longrightarrow> fresh env nc \<Longrightarrow> env_ok env \<Longrightarrow> shape_wf env f"
  by (auto simp: parse_output_def typed_wf dest: blank_opt_Some nodeTimeout_span split: if_splits)

lemma parse_external_wf:
  "parse_external env r nc = Inr f \<Longrightarrow> nType nc = NTExternalCall \<Longrightarrow> fresh env nc \<Longrightarrow> env_ok env \<Longrightarrow> shape_wf env f"
  by (auto simp: parse_external_def parse_external_http_def parse_external_exec_def typed_wf
      dest: nodeTimeout_span split: if_splits option.splits)

lemma max_attempts_positive: "max_attempts name v = Inr n \<Longrightarrow> 0 < n"
  by (auto simp: max_attempts_def split: option.splits if_splits)

lemma requiredUntil_text: "requiredUntil v = Inr u \<Longrightarrow> \<not> blank u"
  by (auto simp: requiredUntil_def bindR_Inr_iff dest: blank_opt_Some)

lemmas waits_positive = pollerDuration_positive max_attempts_positive

lemma parse_poller_http_wf:
  "parse_poller_http env cfg = Inr c \<Longrightarrow>
   0 < ph_delay c \<and> 0 < ph_request_timeout c \<and> 0 < ph_max_attempts c \<and> \<not> blank (ph_until c)"
  unfolding parse_poller_http_def bindR_Inr_iff under_Inr
  by (elim exE conjE, drule pollerDuration_positive, simp add: seconds_def, drule pollerDuration_positive,
      simp add: seconds_def, drule max_attempts_positive, drule requiredUntil_text, auto)

lemma parse_redis_get_wf:
  "parse_redis_get env cfg = Inr c \<Longrightarrow> \<not> blank (pr_until c) \<and> pr_method c = ''GET'' \<and>
   \<not> blank (pr_key c) \<and> 0 < pr_delay c \<and> 0 < pr_request_timeout c \<and> 0 < pr_max_attempts c"
  unfolding parse_redis_get_def bindR_Inr_iff under_Inr checks_Inr
  by (elim exE conjE, drule pollerDuration_positive, simp add: seconds_def, drule pollerDuration_positive,
      simp add: seconds_def, drule max_attempts_positive, drule requiredUntil_text, auto dest: blank_opt_Some)

lemma parse_redis_sub_wf:
  "parse_redis_sub env cfg = Inr c \<Longrightarrow> \<not> blank (pr_until c) \<and> pr_method c = ''SUB'' \<and>
   \<not> blank (pr_channel c) \<and> 0 < pr_max_wait c"
  unfolding parse_redis_sub_def bindR_Inr_iff under_Inr checks_Inr
  by (elim exE conjE, drule pollerDuration_positive, simp add: seconds_def,
      drule requiredUntil_text, auto dest: blank_opt_Some)

lemma parse_poller_redis_wf:
  "parse_poller_redis env cfg = Inr c \<Longrightarrow> \<not> blank (pr_until c) \<and>
   (if pr_method c = ''GET''
    then \<not> blank (pr_key c) \<and> 0 < pr_delay c \<and> 0 < pr_request_timeout c \<and> 0 < pr_max_attempts c
    else pr_method c = ''SUB'' \<and> \<not> blank (pr_channel c) \<and> 0 < pr_max_wait c)"
  by (auto simp: parse_poller_redis_def Let_def dest: parse_redis_get_wf parse_redis_sub_wf split: if_split_asm)

lemma parse_poller_rabbitmq_wf:
  "parse_poller_rabbitmq env cfg = Inr c \<Longrightarrow> \<not> blank (pq_queue c) \<and> 0 < pq_max_wait c \<and> \<not> blank (pq_until c)"
  unfolding parse_poller_rabbitmq_def bindR_Inr_iff under_Inr checks_Inr
  by (elim exE conjE, drule pollerDuration_positive, simp add: seconds_def, drule requiredUntil_text, auto)

lemma poller_shape:
  "nType f = NTPoller \<Longrightarrow> poller_wf f \<Longrightarrow> common_wf env f \<Longrightarrow> gate_wf f \<Longrightarrow>
   shape_wf env ((restarts r f)\<lparr>nPredicateTimeout := d\<rparr>)"
  by (auto simp: restarts_def shape_wf_def common_wf_def gate_wf_def type_wf_def poller_wf_def)

lemma parse_poller_wf:
  assumes p: "parse_poller env r nc = Inr f" and t: "nType nc = NTPoller" and fr: "fresh env nc"
  shows "shape_wf env f"
proof -
  from p obtain nc' where n: "(case (rn_poller_http r, rn_poller_redis r, rn_poller_rabbitmq r) of
         (Some cfg, None, None) \<Rightarrow> bindR (parse_poller_http env cfg) (\<lambda>c. Inr (nc\<lparr>nPollerHTTP := Some c\<rparr>))
       | (None, Some cfg, None) \<Rightarrow> bindR (parse_poller_redis env cfg) (\<lambda>c. Inr (nc\<lparr>nPollerRedis := Some c\<rparr>))
       | (None, None, Some cfg) \<Rightarrow> bindR (parse_poller_rabbitmq env cfg) (\<lambda>c. Inr (nc\<lparr>nPollerRabbitMQ := Some c\<rparr>))
       | _ \<Rightarrow> Inl (PText ''poller node requires exactly one of http, redis, or rabbitmq'')) = Inr nc'"
    and f: "f = (restarts r nc')\<lparr>nPredicateTimeout := CondTimeout (pe_limits env)\<rparr>"
    unfolding parse_poller_def bindR_Inr_iff by (elim exE conjE) simp
  have "nType nc' = NTPoller" "common_wf env nc'" "gate_wf nc'"
    using n t fr by (auto simp: bindR_Inr_iff fresh_def common_wf_def gate_wf_def split: option.splits)
  moreover have "poller_wf nc'"
    using n fr by (auto simp: bindR_Inr_iff fresh_def poller_wf_def split: option.splits
        dest: parse_poller_http_wf parse_poller_redis_wf parse_poller_rabbitmq_wf)
  ultimately show ?thesis unfolding f by (intro poller_shape)
qed

lemma check_branches_wf:
  "check_branches env bs = Inr u \<Longrightarrow> \<forall>(name, target) \<in> set bs. \<not> blank name \<and> pe_valid env target"
  by (induction bs rule: check_branches.induct) (auto simp: bindR_Inr_iff)

lemma parse_parallel_start_wf:
  assumes "parse_parallel_start env r nc = Inr f" "nType nc = NTParallelStart" "fresh env nc"
  shows "shape_wf env f"
proof -
  from assms(1) obtain bs where "2 \<le> length bs"
    "int (length bs) \<le> MaxBranchesPerParallel (effectiveParallelLimits (ParallelBounds (pe_limits env)))"
    "\<exists>u. check_branches env bs = Inr u" "valid_opt env (rn_parallel_end r)"
    "f = nc\<lparr>nParallelBranches := Some bs, nParallelEndNodeID := strOf (rn_parallel_end r),
         nTimeout := CondTimeout (pe_limits env)\<rparr>"
    unfolding parse_parallel_start_def bindR_Inr_iff checks_Inr
    by (elim exE conjE) (simp add: not_less)
  with assms(2,3) check_branches_wf [of env bs] valid_opt_Some show ?thesis
    by (auto simp: shape_wf_def fresh_def common_wf_def gate_wf_def type_wf_def branches_wf_def)
qed

lemma parse_parallel_end_wf:
  "parse_parallel_end env r nc = Inr f \<Longrightarrow> nType nc = NTParallelEnd \<Longrightarrow> fresh env nc \<Longrightarrow> shape_wf env f"
  by (auto simp: parse_parallel_end_def typed_wf dest: blank_opt_Some)

lemma parse_delay_wf:
  assumes "parse_delay env r nc = Inr f" "nType nc = NTDelay" "fresh env nc"
  shows "shape_wf env f"
proof -
  from assms(1) obtain d s where "optionalCappedDuration env ''delay'' (rn_delay r) = Inr (d, s)"
    "rn_delay r \<notin> {None, Some JNull}" "\<not> nStartDelaySet nc"
    and f: "f = (restarts r (nc\<lparr>nDelay := d\<rparr>))\<lparr>nTimeout := CondTimeout (pe_limits env)\<rparr>"
    unfolding parse_delay_def bindR_Inr_iff checks_Inr by (elim exE conjE) (simp split: prod.splits)
  with optionalCappedDuration_value have "in_span env d" "\<not> nStartDelaySet nc" by blast+
  with assms(2,3) show ?thesis unfolding f
    by (auto simp: shape_wf_def fresh_def common_wf_def gate_wf_def type_wf_def restarts_def)
qed

lemma parseCustomNode_wf:
  assumes "parseCustomNode env r nc = Inr f" "nType nc = NTOther s" "fresh env nc" "env_ok env"
  shows "shape_wf env f"
proof -
  from assms(1,2) obtain validate config d where "pe_custom env s = Some validate" "validate config = None"
    "nodeTimeout env (rn_timeout r) = Inr d" and f: "f = nc\<lparr>nTimeout := d, nCustomConfig := Some config\<rparr>"
    unfolding parseCustomNode_def Let_def bindR_Inr_iff
    by (elim exE conjE) (auto split: option.splits)
  with nodeTimeout_span assms(2-4) show ?thesis unfolding f
    by (auto simp: shape_wf_def fresh_def common_wf_def gate_wf_def type_wf_def)
qed

lemma parse_typed_wf:
  assumes "parse_typed env r nc = Inr f" "fresh env nc" "env_ok env" "nType nc \<noteq> NTGroup"
    "nOutputProperty nc = strOf (rn_output_property r)" "\<forall>s. nType nc \<noteq> NTOther s"
  shows "shape_wf env f"
  using assms unfolding parse_typed_def
  by (cases "nType nc")
    (auto intro: parse_script_wf parse_conditions_wf parse_input_wf parse_output_wf parse_external_wf
      parse_poller_wf parse_parallel_start_wf parse_parallel_end_wf parse_delay_wf)

section \<open>Trees\<close>

definition node_wf :: "parse_env \<Rightarrow> NodeContent \<Rightarrow> bool" where
  "node_wf env n \<longleftrightarrow>
     (let f = nfields n in
      common_wf env f \<and> gate_wf f \<and>
      (if nDefinitionID f \<noteq> [] then pe_valid env (nDefinitionID f) \<and> children n = []
       else type_wf env f \<and> failure_wf env f \<and> (nType f = NTGroup \<longleftrightarrow> group_of n \<noteq> None) \<and>
         (case group_of n of None \<Rightarrow> True
          | Some g \<Rightarrow> gStart g \<in> set (map node_id (gNodes g)) \<and> distinct (map node_id (gNodes g)))))"

definition same_node :: "node_fields \<Rightarrow> node_fields \<Rightarrow> bool" where
  "same_node f g \<longleftrightarrow> nType f = nType g \<and> nID f = nID g \<and> nDefinitionID f = nDefinitionID g \<and>
     nOnFailure f = nOnFailure g"

lemmas same_intro = same_node_def bindR_Inr_iff

lemma parse_external_same: "parse_external env r nc = Inr f \<Longrightarrow> same_node f nc"
  by (auto simp: parse_external_def parse_external_http_def parse_external_exec_def same_intro
      split: option.splits)

lemma parse_poller_same: "parse_poller env r nc = Inr f \<Longrightarrow> same_node f nc"
  by (auto simp: parse_poller_def restarts_def same_intro split: option.splits)

lemma parse_input_same: "parse_input env r nc = Inr f \<Longrightarrow> same_node f nc"
  by (erule parse_input_fields) (simp add: same_node_def)

lemma parse_delay_same: "parse_delay env r nc = Inr f \<Longrightarrow> same_node f nc"
  by (auto simp: parse_delay_def restarts_def same_intro split: prod.splits)

lemma parse_typed_same: "parse_typed env r nc = Inr f \<Longrightarrow> same_node f nc"
  unfolding parse_typed_def
  by (cases "nType nc")
    (auto simp: parse_script_def parse_conditions_def parse_output_def parse_parallel_start_def
      parse_parallel_end_def Let_def same_intro
      dest: parse_external_same parse_poller_same parse_input_same parse_delay_same)

lemma parseCustomNode_same: "parseCustomNode env r nc = Inr f \<Longrightarrow> same_node f nc"
  by (auto simp: parseCustomNode_def Let_def same_intro split: option.splits)

lemma parse_reference_wf:
  assumes p: "parse_reference env r d nc = Inr n" and c: "parse_common env r = Inr nc" and e: "env_ok env"
  shows "node_id n = rn_id r \<and> node_wf env n \<and> children n = []"
proof -
  from p obtain g where "pe_valid env d" and n: "n = NodeContent (nc\<lparr>nDefinitionID := d, nType := node_type_of (rn_type r)\<rparr>) g"
    and g: "g = None \<or> (\<exists>ks. g = Some (GroupContent [] ks []))"
    unfolding parse_reference_def Let_def bindR_Inr_iff
    by (auto simp: bindR_Inr_iff split: if_split_asm)
  moreover have "children n = []" using n g by (auto simp: children_def)
  moreover have "d \<noteq> []" using \<open>pe_valid env d\<close> e by (auto simp: env_ok_def)
  ultimately show ?thesis using parse_common_wf [OF c e]
    by (auto simp: node_wf_def common_wf_def gate_wf_def roles_wf_def Let_def)
qed

lemma check_type_failure:
  "check_type env r nc = Inr t \<Longrightarrow> failure_wf env (nc\<lparr>nType := t\<rparr>)"
  by (auto simp: check_type_def Let_def failure_wf_def bindR_Inr_iff)

lemma parse_common_output: "parse_common env r = Inr nc \<Longrightarrow> nOutputProperty nc = strOf (rn_output_property r)"
  unfolding parse_common_def by (auto simp: bindR_Inr_iff)

lemma leaf_wf:
  assumes s: "shape_wf env f" and k: "same_node f (nc\<lparr>nType := t\<rparr>)" and c: "parse_common env r = Inr nc"
    and e: "env_ok env" and t: "check_type env r nc = Inr t" "t \<noteq> NTGroup"
  shows "node_id (NodeContent f None) = rn_id r \<and> node_wf env (NodeContent f None)"
  using assms parse_common_wf [OF c e] check_type_failure [OF t(1)]
  by (auto simp: node_wf_def shape_wf_def same_node_def failure_wf_def Let_def)

lemma parse_nodes_facts:
  "parse_nodes env owner label f seen js = Inr (ns, seen') \<Longrightarrow>
   (\<forall>j r n. j \<in> set js \<longrightarrow> decode_node j = Inr r \<longrightarrow> f r = Inr n \<longrightarrow> node_id n = rn_id r \<and> Q n) \<Longrightarrow>
   seen' = rev (map node_id ns) @ seen \<and> (\<forall>n \<in> set ns. pe_valid env (node_id n) \<and> Q n) \<and>
   (distinct seen \<longrightarrow> distinct seen')"
proof (induction js arbitrary: seen ns seen')
  case (Cons j js)
  from Cons.prems(1) obtain rn n ms where j: "decode_node j = Inr rn" "f rn = Inr n"
    and v: "pe_valid env (rn_id rn)" "rn_id rn \<notin> set seen"
    and rest: "parse_nodes env owner label f (rn_id rn # seen) js = Inr (ms, seen')" and ns: "ns = n # ms"
    by (auto simp: bindR_Inr_iff)
  from Cons.prems(2) j have n: "node_id n = rn_id rn" "Q n" by auto
  have "seen' = rev (map node_id ms) @ rn_id rn # seen \<and> (\<forall>n \<in> set ms. pe_valid env (node_id n) \<and> Q n) \<and>
    (distinct (rn_id rn # seen) \<longrightarrow> distinct seen')"
    by (rule Cons.IH [OF rest]) (use Cons.prems(2) in auto)
  with ns n v show ?case by (auto simp: disjoint_iff)
qed simp

text \<open>Every node of a parsed tree, by induction over the parser.\<close>

definition tree_wf :: "parse_env \<Rightarrow> NodeContent \<Rightarrow> bool" where
  "tree_wf env n \<longleftrightarrow> (\<forall>m \<in> set (tree_nodes n). node_wf env m) \<and>
     (\<forall>m \<in> set (forest_nodes (children n)). pe_valid env (node_id m))"

lemma tree_wf_leaf: "node_wf env n \<Longrightarrow> children n = [] \<Longrightarrow> tree_wf env n"
  by (simp add: tree_wf_def tree_nodes_children)

lemma tree_wf_children:
  "node_wf env n \<Longrightarrow> \<forall>c \<in> set (children n). pe_valid env (node_id c) \<and> tree_wf env c \<Longrightarrow> tree_wf env n"
proof -
  assume n: "node_wf env n" and c: "\<forall>c \<in> set (children n). pe_valid env (node_id c) \<and> tree_wf env c"
  have "node_wf env m \<and> pe_valid env (node_id m)" if m: "m \<in> set (forest_nodes (children n))" for m
  proof -
    from m obtain d where d: "d \<in> set (children n)" "m \<in> set (tree_nodes d)" by (auto simp: forest_nodes_def)
    then have "m = d \<or> m \<in> set (forest_nodes (children d))" by (simp add: tree_nodes_children)
    with c d show ?thesis by (auto simp: tree_wf_def)
  qed
  with n show ?thesis by (simp add: tree_wf_def tree_nodes_children [of n])
qed

lemma group_node_wf:
  assumes c: "parse_common env r = Inr nc" and e: "env_ok env" and t: "check_type env r nc = Inr NTGroup"
    and kids: "parse_nodes env owner label f [] js = Inr p" and g: "group_of_nodes r keys p = Inr g"
    and f: "\<forall>j r n. j \<in> set js \<longrightarrow> decode_node j = Inr r \<longrightarrow> f r = Inr n \<longrightarrow> node_id n = rn_id r \<and> tree_wf env n"
  shows "node_id (NodeContent (nc\<lparr>nType := NTGroup\<rparr>) (Some g)) = rn_id r \<and>
    tree_wf env (NodeContent (nc\<lparr>nType := NTGroup\<rparr>) (Some g))"
proof -
  obtain ns seen where p: "p = (ns, seen)" by (cases p)
  from parse_nodes_facts [OF kids [unfolded p] f]
  have k: "seen = rev (map node_id ns)" "\<forall>n \<in> set ns. pe_valid env (node_id n) \<and> tree_wf env n"
    "distinct (map node_id ns)"
    by auto
  from g p have g': "g = GroupContent (strOf (rn_start_node r)) keys ns" "strOf (rn_start_node r) \<in> set seen"
    by (auto simp: group_of_nodes_def Let_def bindR_Inr_iff)
  have "node_wf env (NodeContent (nc\<lparr>nType := NTGroup\<rparr>) (Some g))"
    using parse_common_wf [OF c e] check_type_failure [OF t] g' k
    by (auto simp: node_wf_def Let_def common_wf_def gate_wf_def type_wf_def)
  moreover have "children (NodeContent (nc\<lparr>nType := NTGroup\<rparr>) (Some g)) = ns"
    by (simp add: children_def g')
  ultimately show ?thesis using tree_wf_children k(2) parse_common_wf [OF c e] by simp
qed

lemma parseRawNode_wf:
  "parseRawNode env r = Inr n \<Longrightarrow> env_ok env \<Longrightarrow> node_id n = rn_id r \<and> tree_wf env n"
proof (induction env r arbitrary: n rule: parseRawNode.induct)
  case (1 env r)
  from "1.prems"(1) obtain nc where c: "parse_common env r = Inr nc"
    by (subst (asm) parseRawNode.simps) (auto simp: bindR_Inr_iff)
  note run = "1.prems"(1) [unfolded parseRawNode.simps [of env r] c bindR_simps]
  note fresh = parse_common_fresh [OF c "1.prems"(2)]
  show ?case
  proof (cases "rn_definition r")
    case (Some d)
    with run have "parse_reference env r d nc = Inr n" by simp
    from parse_reference_wf [OF this c "1.prems"(2)] show ?thesis by (blast intro: tree_wf_leaf)
  next
    case None
    with run obtain t where t: "check_type env r nc = Inr t" by (auto simp: bindR_Inr_iff)
    note run' = run [unfolded None option.case t bindR_simps]
    consider "custom_type env t" | "\<not> custom_type env t" "t = NTGroup" | "\<not> custom_type env t" "t \<noteq> NTGroup" by blast
    then show ?thesis
    proof cases
      case 1
      with run' obtain f where f: "parseCustomNode env r (nc\<lparr>nType := t\<rparr>) = Inr f" "n = NodeContent f None"
        by (auto simp: bindR_Inr_iff)
      obtain s where s: "t = NTOther s" using env_ok_custom [OF "1.prems"(2) 1] by blast
      have "shape_wf env f" by (rule parseCustomNode_wf [OF f(1) _ fresh "1.prems"(2)]) (simp add: s)
      from leaf_wf [OF this parseCustomNode_same [OF f(1)] c "1.prems"(2) t] s f(2)
      show ?thesis by (auto intro!: tree_wf_leaf simp: children_def)
    next
      case 2
      with run' obtain keys p g where
        kids: "parse_nodes env ''group'' ''group node child id '' (parseRawNode env) []
          (case rn_nodes r of None \<Rightarrow> [] | Some js \<Rightarrow> js) = Inr p"
        and g: "group_of_nodes r keys p = Inr g" and n: "n = NodeContent (nc\<lparr>nType := NTGroup\<rparr>) (Some g)"
        by (auto simp: bindR_Inr_iff)
      show ?thesis unfolding n
        by (rule group_node_wf [OF c "1.prems"(2) t [unfolded 2(2)] kids g])
          (use "1.IH" [OF None 2] "1.prems"(2) in blast)
    next
      case 3
      with run' obtain f where f: "parse_typed env r (nc\<lparr>nType := t\<rparr>) = Inr f" "n = NodeContent f None"
        by (auto simp: bindR_Inr_iff)
      have "\<forall>s. t \<noteq> NTOther s" using t 3 by (auto simp: check_type_def Let_def bindR_Inr_iff valid_type_def
        ValidNodeType_def custom_type_def)
      then have "shape_wf env f"
        using parse_common_output [OF c] 3 by (intro parse_typed_wf [OF f(1) fresh "1.prems"(2)]) auto
      from leaf_wf [OF this parse_typed_same [OF f(1)] c "1.prems"(2) t 3(2)] f(2)
      show ?thesis by (auto intro!: tree_wf_leaf simp: children_def)
    qed
  qed
qed

section \<open>Workflows\<close>

lemma parse_top_wf:
  assumes "parse_top env j = Inr (start, ns, keys)" "env_ok env"
  shows "\<forall>n \<in> set ns. pe_valid env (node_id n) \<and> tree_wf env n"
proof -
  obtain js seen where "parse_nodes env ''workflow'' ''workflow node id '' (parseRawNode env) [] js = Inr (ns, seen)"
    using assms(1) unfolding parse_top_def bindR_Inr_iff by (auto simp: bindR_Inr_iff split: prod.splits)
  from parse_nodes_facts [OF this, of "tree_wf env"] show ?thesis
    using parseRawNode_wf assms(2) by blast
qed

lemma stage_Inr [simp]:
  "parsing r = Inr x \<longleftrightarrow> r = Inr x" "notifying q = Inr y \<longleftrightarrow> q = Inr y" "in_mode m = Inr w \<longleftrightarrow> m = Inr w"
  "validating v = Inr z \<longleftrightarrow> v = Inr z"
  by (auto simp: parsing_def notifying_def in_mode_def validating_def split: sum.splits)

lemma ParseWorkflowContent_nodes:
  assumes "ParseWorkflowContent env content = Inr wc" "env_ok env"
  shows "\<forall>n \<in> set (forest_nodes (wNodes wc)). pe_valid env (node_id n) \<and> node_wf env n"
proof -
  from assms(1) obtain j start ns keys where "parse_top env j = Inr (start, ns, keys)" "wNodes wc = ns"
    by (auto simp: ParseWorkflowContent_def bindR_Inr_iff Let_def split: option.splits)
  with parse_top_wf [OF _ assms(2)] have "\<forall>n \<in> set (wNodes wc). pe_valid env (node_id n) \<and> tree_wf env n" by blast
  then have "pe_valid env (node_id m) \<and> node_wf env m" if "n \<in> set (wNodes wc)" "m \<in> set (tree_nodes n)" for n m
    using that by (cases "m = n") (auto simp: tree_wf_def tree_nodes_children [of n])
  then show ?thesis by (auto simp: forest_nodes_def)
qed

lemma ParseWorkflowContent_valid:
  "ParseWorkflowContent env content = Inr wc \<Longrightarrow>
   ValidateWorkflowContent (pe_valid env) wc (ParallelBounds (pe_limits env)) = Inr ()"
  by (auto simp: ParseWorkflowContent_def bindR_Inr_iff Let_def split: option.splits)

text \<open>A document with a group, a poller, a public form and a failure route, and what it parses to.\<close>

definition sample_env :: parse_env where
  "sample_env = \<lparr>pe_lib = sample_lib, pe_valid = (\<lambda>i. i \<noteq> []), pe_custom = LookupCustomType [],
     pe_limits = \<lparr>DefaultTimeout = seconds 30, MaxTimeout = seconds 60, CondTimeout = seconds 5,
       ParallelBounds = DefaultParallelLimits\<rparr>\<rparr>"

definition sample_document :: json where
  "sample_document = JObj [
     (''start_node_id'', JStr ''ask''),
     (''context_mode'', JStr '' Lean ''),
     (''nodes'', JArr [
       JObj [(''type'', JStr ''input''), (''id'', JStr ''ask''), (''channel'', JStr ''http''),
         (''public'', JBool True), (''output_property'', JStr '' answer ''), (''next_node'', JStr ''g'')],
       JObj [(''type'', JStr ''group''), (''id'', JStr ''g''), (''start_node_id'', JStr ''poll''),
         (''next_node'', JStr ''late''), (''keys'', JObj [(''done'', JNull)]),
         (''nodes'', JArr [
           JObj [(''type'', JStr ''poller''), (''id'', JStr ''poll''),
             (''redis'', JObj [(''method'', JStr '' get ''), (''key'', JStr ''k''), (''until'', JStr ''ok'')]),
             (''on_failure'', JObj [(''next_node'', JStr ''log''), (''output_property'', JStr '' err '')])],
           JObj [(''type'', JStr ''script''), (''id'', JStr ''log''), (''script'', JStr ''x''),
             (''timeout'', JStr ''1s'')]])],
       JObj [(''type'', JStr ''delay''), (''id'', JStr ''late''), (''delay'', JStr ''1s'')]])]"

definition sample_parsed :: WorkflowContent where
  "sample_parsed = \<lparr>wStartNodeID = ''ask'', wKeys = [],
     wNodes = [
       NodeContent ((plain_node NTInput ''ask'')\<lparr>nChannel := ''http'', nPublic := True,
         nOutputProperty := ''answer'', nNextNode := ''g'', nTimeout := seconds 5\<rparr>) None,
       NodeContent ((plain_node NTGroup ''g'')\<lparr>nNextNode := ''late''\<rparr>)
         (Some (GroupContent ''poll'' (Some [(''done'', [])]) [
           NodeContent ((plain_node NTPoller ''poll'')\<lparr>nRetryOnRecovery := True,
             nPredicateTimeout := seconds 5, nOnFailure := Some \<lparr>fr_next = ''log'', fr_output = ''err''\<rparr>,
             nPollerRedis := Some \<lparr>pr_method = ''GET'', pr_key = ''k'', pr_channel = [], pr_delay = seconds 5,
               pr_request_timeout = seconds 30, pr_max_attempts = 10, pr_max_wait = 0, pr_until = ''ok''\<rparr>\<rparr>) None,
           NodeContent ((plain_node NTScript ''log'')\<lparr>nScript := ''x'', nTimeout := seconds 1\<rparr>) None])),
       NodeContent ((plain_node NTDelay ''late'')\<lparr>nDelay := seconds 1, nRetryOnRecovery := True,
         nTimeout := seconds 5\<rparr>) None],
     wContextMode = Some ContextModeLean, wStatusUpdate = None\<rparr>"

lemma sample_document_parses:
  "ParseWorkflowContent sample_env (Some sample_document) = Inr sample_parsed"
  by code_simp

lemma sample_env_ok: "env_ok sample_env"
  by (auto simp: env_ok_def sample_env_def in_span_def seconds_def intro: exI [of _ "[]"])

section \<open>Properties\<close>

text \<open>
  C14. Every node of a parsed workflow, at every depth, is well formed: its identifier and links are
  valid, hooks and delays lie within their bounds, an inline node has the fields its type needs
  within their bounds and a failure route only if its type may fail, and an authorization surface
  stands only on an input node, where a public one has neither roles nor a recorded actor.
\<close>

theorem parsed_nodes_well_formed:
  assumes "ParseWorkflowContent env content = Inr wc" "env_ok env"
  shows "list_all (\<lambda>n. pe_valid env (node_id n) \<and> node_wf env n) (forest_nodes (wNodes wc))"
  using ParseWorkflowContent_nodes [OF assms] by (simp add: list_all_iff)

lemma parsed_nodes_well_formed_witness:
  "list_all (\<lambda>n. node_id n \<noteq> [] \<and> node_wf sample_env n) (forest_nodes (wNodes sample_parsed))"
  using parsed_nodes_well_formed [OF sample_document_parses sample_env_ok]
  by (simp add: list_all_iff sample_env_def)

text \<open>
  What the parser accepts is what the engine assumes: a parsed workflow whose nodes are all
  inline passes the validation of a materialized tree again, every group starts at one of its
  children, and the tree is well scoped.
\<close>

theorem parsed_workflow_ok:
  assumes "ParseWorkflowContent env content = Inr wc" "env_ok env"
    and "list_all (\<lambda>n. nDefinitionID (nfields n) = []) (forest_nodes (wNodes wc))"
  shows "ValidateWorkflowContent (pe_valid env) wc (ParallelBounds (pe_limits env)) = Inr () \<and>
    parsed_tree wc \<and> workflow_ok wc"
proof -
  have "parsed_tree wc"
    using ParseWorkflowContent_nodes [OF assms(1,2)] assms(2,3)
    by (auto simp: parsed_tree_def list_all_iff node_wf_def Let_def env_ok_def split: option.splits)
  with ParseWorkflowContent_valid [OF assms(1)] Validate_workflow_ok show ?thesis by blast
qed

lemma parsed_workflow_ok_witness:
  "parsed_tree sample_parsed \<and> workflow_ok sample_parsed"
proof -
  have "list_all (\<lambda>n. nDefinitionID (nfields n) = []) (forest_nodes (wNodes sample_parsed))" by code_simp
  from parsed_workflow_ok [OF sample_document_parses sample_env_ok this] show ?thesis by blast
qed

end
