(* ===== verification/Materialize.thy ===== *)
theory Materialize
  imports WorkflowParse
begin

text \<open>
  \<open>internal/workflow/kernel/materialize.go\<close>: references to node definitions are replaced by the
  executable fields of the definition, and \<open>internal/workflow/defcache/defcache.go\<close>, the cache of
  materialized trees. \<open>get\<close> is \<open>GetByID\<close> of the node definition repository.
\<close>

section \<open>Lists with errors\<close>

fun mapR :: "('a \<Rightarrow> 'e + 'b) \<Rightarrow> 'a list \<Rightarrow> 'e + 'b list" where
  "mapR f [] = Inr []"
| "mapR f (x # xs) = bindR (f x) (\<lambda>y. bindR (mapR f xs) (\<lambda>ys. Inr (y # ys)))"

lemma mapR_cong [fundef_cong]:
  "xs = ys \<Longrightarrow> (\<And>x. x \<in> set ys \<Longrightarrow> f x = g x) \<Longrightarrow> mapR f xs = mapR g ys"
  by (induction ys arbitrary: xs) auto

lemma mapR_forall2: "mapR f xs = Inr ys \<Longrightarrow> list_all2 (\<lambda>x y. f x = Inr y) xs ys"
  by (induction xs arbitrary: ys) (auto simp: bindR_Inr_iff)

section \<open>References\<close>

text \<open>\<open>model.WorkflowDefinition\<close>, and \<open>model.NodeDefinition\<close>, which has a type.\<close>

record definition_row =
  df_id :: uid
  df_name :: string
  df_version :: int
  df_previous :: "uid option"
  df_lineage :: uid
  df_content :: raw
  df_created_by :: uid
  df_updated_by :: uid
  df_created_at :: time
  df_updated_at :: time

record NodeDefinition = definition_row +
  nd_type :: string

text \<open>The errors, all of kind \<open>ErrInvalid\<close>.\<close>

datatype 'e mat_error =
    MNoDefinition uid 'e
  | MBadContent uid parse_err
  | MCarriesKeys uid
  | MTypeMismatch uid NodeType uid NodeType
  | MStartDelay uid NodeType
  | MFailureRoute uid NodeType
  | MNotGroup uid uid
  | MInvalidTree val_error

function NodeCarriesKeys :: "NodeContent \<Rightarrow> bool" where
  "NodeCarriesKeys n =
     (case group_of n of
        None \<Rightarrow> False
      | Some g \<Rightarrow> gKeys g \<noteq> None \<or> list_ex NodeCarriesKeys (gNodes g))"
  by pat_completeness auto
termination
  by (relation "measure size") (auto intro!: size_children simp: children_def)

declare NodeCarriesKeys.simps [simp del]

text \<open>
  The fields of the definition under those of the occurrence: hooks and start delay are replaced
  or disabled when the occurrence has the field, links always come from the occurrence.
\<close>

definition merge_fields :: "node_fields \<Rightarrow> node_fields \<Rightarrow> node_fields" where
  "merge_fields n d = d\<lparr>
     nID := nID n, nDefinitionID := nDefinitionID n,
     nName := (if nName n \<noteq> [] then nName n else nName d),
     nOutputProperty := (if trim_space (nOutputProperty n) \<noteq> [] then nOutputProperty n else nOutputProperty d),
     nNextNode := nNextNode n,
     nOnFailure := (if nOnFailure n \<noteq> None then nOnFailure n else nOnFailure d),
     nMetadata := (if nMetadata n \<noteq> None then nMetadata n else nMetadata d),
     nPreScript := (if nPreScriptSet n then nPreScript n else nPreScript d),
     nPostScript := (if nPostScriptSet n then nPostScript n else nPostScript d),
     nPreScriptSet := (nPreScriptSet n \<or> nPreScriptSet d),
     nPostScriptSet := (nPostScriptSet n \<or> nPostScriptSet d),
     nStartDelay := (if nStartDelaySet n then nStartDelay n else nStartDelay d),
     nStartDelaySet := (nStartDelaySet n \<or> nStartDelaySet d),
     nRetryOnRecovery := (nRetryOnRecovery n \<or> nRetryOnRecovery d)\<rparr>"

definition merge_group :: "GroupContent option \<Rightarrow> GroupContent option \<Rightarrow> GroupContent option" where
  "merge_group n d =
     (case (n, d) of
        (Some g, Some h) \<Rightarrow> Some (GroupContent (gStart h) (gKeys g) (gNodes h))
      | _ \<Rightarrow> d)"

definition merge_reference :: "parse_env \<Rightarrow> NodeContent \<Rightarrow> NodeContent \<Rightarrow> 'e mat_error + NodeContent" where
  "merge_reference env n dc =
     (let i = node_id n; d = nDefinitionID (nfields n); t = node_type dc; f = merge_fields (nfields n) (nfields dc) in
      if NodeCarriesKeys dc then Inl (MCarriesKeys d)
      else if node_type n \<noteq> NTOther [] \<and> node_type n \<noteq> t then Inl (MTypeMismatch i (node_type n) d t)
      else if (t = NTInput \<or> t = NTDelay) \<and> (nStartDelay f > 0 \<or> nStartDelaySet (nfields n))
      then Inl (MStartDelay i t)
      else if nOnFailure (nfields n) \<noteq> None \<and> \<not> on_failure_allowed env t then Inl (MFailureRoute i t)
      else if group_of n \<noteq> None \<and> group_of dc = None then Inl (MNotGroup i d)
      else Inr (NodeContent f (merge_group (group_of n) (group_of dc))))"

definition resolve_reference ::
  "parse_env \<Rightarrow> (uid \<Rightarrow> 'e + NodeDefinition) \<Rightarrow> NodeContent \<Rightarrow> 'e mat_error + NodeContent" where
  "resolve_reference env get n =
     (let d = nDefinitionID (nfields n) in
      case get d of
        Inl e \<Rightarrow> Inl (MNoDefinition d e)
      | Inr stored \<Rightarrow>
          (case ParseNodeContent env (df_content stored) of
             Inl e \<Rightarrow> Inl (MBadContent d e)
           | Inr dc \<Rightarrow> merge_reference env n dc))"

function materializeNode ::
  "parse_env \<Rightarrow> (uid \<Rightarrow> 'e + NodeDefinition) \<Rightarrow> NodeContent \<Rightarrow> 'e mat_error + NodeContent" where
  "materializeNode env get n =
     (if nDefinitionID (nfields n) \<noteq> [] then resolve_reference env get n
      else
        case group_of n of
          None \<Rightarrow> Inr n
        | Some g \<Rightarrow>
            bindR (mapR (materializeNode env get) (gNodes g)) (\<lambda>ns.
            Inr (NodeContent (nfields n) (Some (GroupContent (gStart g) (gKeys g) ns)))))"
  by pat_completeness auto
termination
  by (relation "measure (\<lambda>(env, get, n). size n)") (auto intro!: size_children simp: children_def)

declare materializeNode.simps [simp del]

definition Materialize ::
  "parse_env \<Rightarrow> (uid \<Rightarrow> 'e + NodeDefinition) \<Rightarrow> WorkflowContent \<Rightarrow> 'e mat_error + WorkflowContent" where
  "Materialize env get wc =
     bindR (mapR (materializeNode env get) (wNodes wc)) (\<lambda>ns.
     let wc' = wc\<lparr>wNodes := ns\<rparr>
     in case ValidateWorkflowContent (pe_valid env) wc' (ParallelBounds (pe_limits env)) of
          Inl e \<Rightarrow> Inl (MInvalidTree e)
        | Inr _ \<Rightarrow> Inr wc')"

section \<open>The cache\<close>

text \<open>\<open>items\<close> is the map, \<open>order\<close> its keys, oldest first.\<close>

record ('k, 'v) cache =
  ca_max :: nat
  ca_items :: "('k \<times> 'v) list"
  ca_order :: "'k list"
  ca_hits :: nat
  ca_misses :: nat

definition cache_New :: "int \<Rightarrow> ('k, 'v) cache" where
  "cache_New maxEntries =
     \<lparr>ca_max = (if maxEntries \<le> 0 then 1 else nat maxEntries), ca_items = [], ca_order = [],
      ca_hits = 0, ca_misses = 0\<rparr>"

text \<open>Eviction of the oldest entry when the cache is full.\<close>

definition evict :: "('k, 'v) cache \<Rightarrow> ('k, 'v) cache" where
  "evict c =
     (if length (ca_items c) \<ge> ca_max c
      then c\<lparr>ca_items := filter (\<lambda>(k, _). k \<noteq> hd (ca_order c)) (ca_items c), ca_order := tl (ca_order c)\<rparr>
      else c)"

definition GetOrCompute :: "'k \<Rightarrow> (unit \<Rightarrow> 'e + 'v) \<Rightarrow> ('k, 'v) cache \<Rightarrow> ('e + 'v) \<times> ('k, 'v) cache" where
  "GetOrCompute key compute c =
     (case map_of (ca_items c) key of
        Some v \<Rightarrow> (Inr v, c\<lparr>ca_hits := ca_hits c + 1\<rparr>)
      | None \<Rightarrow>
          let c' = c\<lparr>ca_misses := ca_misses c + 1\<rparr>
          in case compute () of
               Inl e \<Rightarrow> (Inl e, c')
             | Inr v \<Rightarrow>
                 let c'' = evict c'
                 in (Inr v, c''\<lparr>ca_items := (key, v) # ca_items c'', ca_order := ca_order c'' @ [key]\<rparr>))"

section \<open>What the cache keeps\<close>

definition cache_inv :: "('k \<Rightarrow> 'e + 'v) \<Rightarrow> ('k, 'v) cache \<Rightarrow> bool" where
  "cache_inv f c \<longleftrightarrow>
     0 < ca_max c \<and> length (ca_items c) \<le> ca_max c \<and> length (ca_order c) = length (ca_items c) \<and>
     distinct (ca_order c) \<and> distinct (map fst (ca_items c)) \<and> set (ca_order c) = fst ` set (ca_items c) \<and>
     (\<forall>(k, v) \<in> set (ca_items c). f k = Inr v)"

lemma cache_inv_New: "cache_inv f (cache_New n)"
  by (simp add: cache_inv_def cache_New_def)

lemma length_filter_key:
  "distinct (map fst xs) \<Longrightarrow> z \<in> fst ` set xs \<Longrightarrow> Suc (length (filter (\<lambda>(k, _). k \<noteq> z) xs)) = length xs"
proof (induction xs)
  case (Cons x xs)
  show ?case
  proof (cases "fst x = z")
    case True
    with Cons.prems(1) have "filter (\<lambda>a. fst a \<noteq> z) xs = xs" by (auto simp: filter_id_conv image_iff)
    with True show ?thesis by (auto simp: split_beta)
  next
    case False
    with Cons show ?thesis by (auto simp: split_beta)
  qed
qed simp

lemma distinct_filter_key: "distinct (map fst xs) \<Longrightarrow> distinct (map fst (filter P xs))"
  by (induction xs) auto

lemma keys_filter_key: "fst ` set (filter (\<lambda>(k, _). k \<noteq> z) xs) = fst ` set xs - {z}"
  by force

lemma evict_inv:
  assumes "cache_inv f c"
  shows "cache_inv f (evict c)" "length (ca_items (evict c)) < ca_max c" "ca_max (evict c) = ca_max c"
    "map_of (ca_items c) k = None \<Longrightarrow> k \<notin> set (ca_order (evict c))"
proof -
  let ?o = "hd (ca_order c)"
  show "ca_max (evict c) = ca_max c" by (simp add: evict_def)
  show "map_of (ca_items c) k = None \<Longrightarrow> k \<notin> set (ca_order (evict c))"
    using assms by (auto simp: evict_def cache_inv_def map_of_eq_None_iff dest: list.set_sel(2) [rotated])
  show "cache_inv f (evict c)" "length (ca_items (evict c)) < ca_max c"
  proof -
    have "cache_inv f (evict c) \<and> length (ca_items (evict c)) < ca_max c"
    proof (cases "length (ca_items c) \<ge> ca_max c")
      case True
      with assms have ne: "ca_order c \<noteq> []" by (auto simp: cache_inv_def)
      let ?is = "filter (\<lambda>(k, _). k \<noteq> ?o) (ca_items c)"
      have o: "?o \<in> fst ` set (ca_items c)" "distinct (map fst (ca_items c))"
        using assms ne by (auto simp: cache_inv_def intro: hd_in_set)
      note len = length_filter_key [OF o(2,1)]
      have "set (tl (ca_order c)) = fst ` set ?is"
        unfolding keys_filter_key using assms ne by (cases "ca_order c") (auto simp: cache_inv_def)
      moreover have "distinct (map fst ?is)" using o(2) by (rule distinct_filter_key)
      ultimately show ?thesis using assms True len ne
        by (auto simp: cache_inv_def evict_def distinct_tl)
    next
      case False
      then show ?thesis using assms by (simp add: evict_def)
    qed
    then show "cache_inv f (evict c)" "length (ca_items (evict c)) < ca_max c" by blast+
  qed
qed

lemma evict_subset: "set (ca_items (evict c)) \<subseteq> set (ca_items c)"
  by (auto simp: evict_def)

lemma GetOrCompute_inv:
  assumes inv: "cache_inv f c" and ok: "\<forall>v. compute () = Inr v \<longrightarrow> f key = Inr v"
  shows "cache_inv f (snd (GetOrCompute key compute c))"
    and "fst (GetOrCompute key compute c) = f key \<or> fst (GetOrCompute key compute c) = compute ()"
    and "ca_max (snd (GetOrCompute key compute c)) = ca_max c"
proof -
  let ?c = "c\<lparr>ca_misses := ca_misses c + 1\<rparr>"
  have inv': "cache_inv f ?c" using inv by (simp add: cache_inv_def)
  note ev = evict_inv [OF inv']
  show "fst (GetOrCompute key compute c) = f key \<or> fst (GetOrCompute key compute c) = compute ()"
    using inv by (auto simp: GetOrCompute_def cache_inv_def Let_def dest!: map_of_SomeD
        split: option.split sum.split)
  show "ca_max (snd (GetOrCompute key compute c)) = ca_max c"
    using ev(3) by (auto simp: GetOrCompute_def Let_def split: option.split sum.split)
  show "cache_inv f (snd (GetOrCompute key compute c))"
  proof (cases "map_of (ca_items c) key")
    case None
    then have k: "key \<notin> set (ca_order (evict ?c))" using ev(4) by simp
    then have k': "key \<notin> fst ` set (ca_items (evict ?c))" using ev(1) by (simp add: cache_inv_def)
    show ?thesis using None inv' ev(1,2,3) k k' ok
      by (auto simp: GetOrCompute_def Let_def cache_inv_def split: sum.split)
  qed (use inv in \<open>simp add: GetOrCompute_def cache_inv_def\<close>)
qed

text \<open>A sequence of requests, each with what its computation would return.\<close>

fun serve :: "('k \<times> ('e + 'v)) list \<Rightarrow> ('k, 'v) cache \<Rightarrow> ('e + 'v) list \<times> ('k, 'v) cache" where
  "serve [] c = ([], c)"
| "serve ((k, r) # rs) c =
     (case GetOrCompute k (\<lambda>_. r) c of (a, c') \<Rightarrow> case serve rs c' of (as, c'') \<Rightarrow> (a # as, c''))"

lemma serve_inv:
  "cache_inv f c \<Longrightarrow> \<forall>(k, r) \<in> set reqs. \<forall>v. r = Inr v \<longrightarrow> f k = Inr v \<Longrightarrow>
   list_all2 (\<lambda>(k, r) a. a = f k \<or> a = r) reqs (fst (serve reqs c)) \<and>
   cache_inv f (snd (serve reqs c)) \<and> ca_max (snd (serve reqs c)) = ca_max c"
proof (induction reqs c rule: serve.induct)
  case (2 k r rs c)
  obtain a c' where g: "GetOrCompute k (\<lambda>_. r) c = (a, c')" by (cases "GetOrCompute k (\<lambda>_. r) c")
  from "2.prems" have "\<forall>v. (\<lambda>_. r) () = Inr v \<longrightarrow> f k = Inr v" by auto
  from GetOrCompute_inv [of f c "\<lambda>_. r" k, OF "2.prems"(1) this] g
  have "cache_inv f c'" "a = f k \<or> a = r" "ca_max c' = ca_max c" by auto
  with "2.IH" [OF g [symmetric]] "2.prems"(2) g show ?case by (auto split: prod.split)
qed simp

section \<open>Trees\<close>

text \<open>The references below a definition: the service only rejects one at its root.\<close>

definition self_contained :: "parse_env \<Rightarrow> (uid \<Rightarrow> 'e + NodeDefinition) \<Rightarrow> bool" where
  "self_contained env get \<longleftrightarrow>
     (\<forall>i stored dc. get i = Inr stored \<longrightarrow> ParseNodeContent env (df_content stored) = Inr dc \<longrightarrow>
        list_all (\<lambda>n. nDefinitionID (nfields n) = []) (tree_nodes dc))"

end
