(* ===== verification/MaterializeSafety.thy ===== *)
theory MaterializeSafety
  imports ParseSafety Materialize
begin

text \<open>
  What the engine runs: every node of a materialized tree is executable and the tree is well
  scoped. The cache returns what the computation would.
\<close>

section \<open>Executable nodes\<close>

text \<open>
  A reference may give an input node an output property the parser would refuse, so the field is
  left out.
\<close>

definition exec_wf :: "parse_env \<Rightarrow> node_fields \<Rightarrow> bool" where
  "exec_wf env f = type_wf env (f\<lparr>nOutputProperty := []\<rparr>)"

definition group_wf :: "NodeContent \<Rightarrow> bool" where
  "group_wf n \<longleftrightarrow> (node_type n = NTGroup \<longleftrightarrow> group_of n \<noteq> None) \<and>
     (case group_of n of None \<Rightarrow> True
      | Some g \<Rightarrow> gStart g \<in> set (map node_id (gNodes g)) \<and> distinct (map node_id (gNodes g)))"

definition run_wf :: "parse_env \<Rightarrow> NodeContent \<Rightarrow> bool" where
  "run_wf env n \<longleftrightarrow> common_wf env (nfields n) \<and> gate_wf (nfields n) \<and> exec_wf env (nfields n) \<and>
     failure_wf env (nfields n) \<and> group_wf n"

definition run_tree :: "parse_env \<Rightarrow> NodeContent \<Rightarrow> bool" where
  "run_tree env n \<longleftrightarrow> (\<forall>m \<in> set (tree_nodes n). run_wf env m) \<and>
     (\<forall>m \<in> set (forest_nodes (children n)). pe_valid env (node_id m))"

lemma exec_wf_type: "type_wf env f \<Longrightarrow> exec_wf env f"
  by (cases "nType f")
    (simp_all add: exec_wf_def type_wf_def poller_wf_def branches_wf_def cong: option.case_cong)

lemma inline_run_wf: "node_wf env n \<Longrightarrow> nDefinitionID (nfields n) = [] \<Longrightarrow> run_wf env n"
  by (auto simp: node_wf_def run_wf_def group_wf_def Let_def intro: exec_wf_type)

lemma inline_run_tree:
  "tree_wf env n \<Longrightarrow> list_all (\<lambda>m. nDefinitionID (nfields m) = []) (tree_nodes n) \<Longrightarrow> run_tree env n"
  by (auto simp: run_tree_def tree_wf_def list_all_iff intro: inline_run_wf)

lemma run_tree_children:
  "run_wf env n \<Longrightarrow> \<forall>c \<in> set (children n). pe_valid env (node_id c) \<and> run_tree env c \<Longrightarrow> run_tree env n"
proof -
  assume n: "run_wf env n" and c: "\<forall>c \<in> set (children n). pe_valid env (node_id c) \<and> run_tree env c"
  have "run_wf env m \<and> pe_valid env (node_id m)" if m: "m \<in> set (forest_nodes (children n))" for m
  proof -
    from m obtain d where d: "d \<in> set (children n)" "m \<in> set (tree_nodes d)" by (auto simp: forest_nodes_def)
    then have "m = d \<or> m \<in> set (forest_nodes (children d))" by (simp add: tree_nodes_children)
    with c d show ?thesis by (auto simp: run_tree_def)
  qed
  with n show ?thesis by (simp add: run_tree_def tree_nodes_children [of n])
qed

lemma run_tree_child:
  "run_tree env n \<Longrightarrow> c \<in> set (children n) \<Longrightarrow> pe_valid env (node_id c) \<and> run_tree env c"
  unfolding run_tree_def tree_nodes_children [of n]
  by (auto simp: forest_nodes_def tree_nodes_children [of c])

section \<open>Merging\<close>

lemma merge_common: "common_wf env n \<Longrightarrow> common_wf env d \<Longrightarrow> common_wf env (merge_fields n d)"
  by (auto simp: common_wf_def merge_fields_def)

lemma merge_gate: "gate_wf d \<Longrightarrow> gate_wf (merge_fields n d)"
  by (simp add: gate_wf_def merge_fields_def)

lemma merge_exec:
  assumes "exec_wf env d" "nType d = NTDelay \<Longrightarrow> \<not> nStartDelaySet n"
  shows "exec_wf env (merge_fields n d)"
  using assms
  by (cases "nType d") (simp_all add: exec_wf_def type_wf_def merge_fields_def poller_wf_def branches_wf_def
      cong: option.case_cong)

lemma merge_failure:
  "failure_wf env d \<Longrightarrow> nOnFailure n = None \<or> on_failure_allowed env (nType d) \<Longrightarrow> failure_wf env (merge_fields n d)"
  by (auto simp: failure_wf_def merge_fields_def)

lemma merge_children: "children (NodeContent f (merge_group g (group_of d))) = children d"
  by (cases d) (auto simp: children_def merge_group_def split: option.split)

lemma merge_group_wf:
  "group_wf d \<Longrightarrow> group_wf (NodeContent (merge_fields n (nfields d)) (merge_group g (group_of d)))"
  by (cases d) (auto simp: group_wf_def merge_group_def merge_fields_def split: option.split)

lemma merge_reference_run:
  assumes "merge_reference env n dc = Inr n'" "common_wf env (nfields n)" "run_tree env dc"
  shows "node_id n' = node_id n \<and> run_tree env n'"
proof -
  from assms(1) have n': "n' = NodeContent (merge_fields (nfields n) (nfields dc)) (merge_group (group_of n) (group_of dc))"
    and d: "node_type dc = NTDelay \<Longrightarrow> \<not> nStartDelaySet (nfields n)"
    and f: "nOnFailure (nfields n) = None \<or> on_failure_allowed env (node_type dc)"
    by (auto simp: merge_reference_def Let_def split: if_split_asm)
  have dc: "run_wf env dc" using assms(3) by (simp add: run_tree_def tree_nodes_children)
  have "run_wf env n'"
    using assms(2) dc merge_exec [of env "nfields dc" "nfields n"] d f unfolding n'
    by (auto simp: run_wf_def intro: merge_common merge_gate merge_failure merge_group_wf)
  moreover have "children n' = children dc" unfolding n' by (rule merge_children)
  ultimately have "run_tree env n'"
    using run_tree_children run_tree_child [OF assms(3)] by metis
  then show ?thesis by (simp add: n' merge_fields_def)
qed

lemma resolve_reference_run:
  fixes get :: "uid \<Rightarrow> 'e + NodeDefinition"
  assumes r: "resolve_reference env get n = Inr n'" and n: "common_wf env (nfields n)"
    and e: "env_ok env" and s: "self_contained env get"
  shows "node_id n' = node_id n \<and> run_tree env n'"
proof -
  obtain stored where g1: "get (nDefinitionID (nfields n)) = Inr stored"
    using r by (cases "get (nDefinitionID (nfields n))") (auto simp: resolve_reference_def Let_def)
  obtain dc where g2: "ParseNodeContent env (df_content stored) = Inr dc"
    using r g1 by (cases "ParseNodeContent env (df_content stored)") (auto simp: resolve_reference_def Let_def)
  from r g1 g2 have m: "merge_reference env n dc = (Inr n' :: 'e mat_error + NodeContent)"
    by (simp add: resolve_reference_def Let_def)
  note g = g1 g2
  from g(2) obtain rn where "parseRawNode env rn = Inr dc"
    by (auto simp: ParseNodeContent_def bindR_Inr_iff split: option.splits)
  with e have "tree_wf env dc" using parseRawNode_wf by blast
  moreover have "list_all (\<lambda>m. nDefinitionID (nfields m) = []) (tree_nodes dc)"
    using s g unfolding self_contained_def by blast
  ultimately show ?thesis using merge_reference_run [OF m n] inline_run_tree by blast
qed

section \<open>Trees\<close>

lemma mapR_nodes:
  "mapR f ns = Inr ms \<Longrightarrow> \<forall>n m. n \<in> set ns \<longrightarrow> f n = Inr m \<longrightarrow> node_id m = node_id n \<and> Q m \<Longrightarrow>
   map node_id ms = map node_id ns \<and> (\<forall>m \<in> set ms. Q m)"
  by (induction ns arbitrary: ms) (auto simp: bindR_Inr_iff)

lemma materializeNode_run:
  "materializeNode env get n = Inr n' \<Longrightarrow> tree_wf env n \<Longrightarrow> env_ok env \<Longrightarrow> self_contained env get \<Longrightarrow>
   node_id n' = node_id n \<and> run_tree env n'"
proof (induction env get n arbitrary: n' rule: materializeNode.induct)
  case (1 env get n)
  note run = "1.prems"(1) [unfolded materializeNode.simps [of env get n]]
  have n: "node_wf env n" using "1.prems"(2) by (simp add: tree_wf_def tree_nodes_children)
  show ?case
  proof (cases "nDefinitionID (nfields n) = []")
    case False
    with run have "resolve_reference env get n = Inr n'" by simp
    then show ?thesis
      by (rule resolve_reference_run) (use n "1.prems" in \<open>auto simp: node_wf_def Let_def\<close>)
  next
    case True
    show ?thesis
    proof (cases "group_of n")
      case None
      with run True have "n' = n" by simp
      moreover have "children n = []" using None by (simp add: children_def)
      ultimately show ?thesis using inline_run_wf [OF n True] run_tree_children [of env n] by simp
    next
      case (Some g)
      with run True obtain ms where ms: "mapR (materializeNode env get) (gNodes g) = Inr ms"
        and n': "n' = NodeContent (nfields n) (Some (GroupContent (gStart g) (gKeys g) ms))"
        by (auto simp: bindR_Inr_iff)
      have kids: "children n = gNodes g" using Some by (simp add: children_def)
      have child: "node_id m = node_id c \<and> run_tree env m" if "c \<in> set (gNodes g)" "materializeNode env get c = Inr m" for c m
      proof (rule "1.IH" [OF _ Some that _ "1.prems"(3,4)])
        show "tree_wf env c" using "1.prems"(2) that(1) kids
          by (fastforce simp: tree_wf_def tree_nodes_children [of n] forest_nodes_def tree_nodes_children [of c])
      qed (simp add: True)
      from mapR_nodes [OF ms, of "run_tree env"] child
      have m: "map node_id ms = map node_id (gNodes g)" "\<forall>m \<in> set ms. run_tree env m" by blast+
      have valid: "\<forall>m \<in> set ms. pe_valid env (node_id m)"
      proof
        fix m assume "m \<in> set ms"
        then have "node_id m \<in> set (map node_id (gNodes g))" unfolding m(1) [symmetric] by simp
        then obtain c where "c \<in> set (gNodes g)" "node_id m = node_id c" by auto
        with kids "1.prems"(2) show "pe_valid env (node_id m)"
          by (auto simp: tree_wf_def forest_nodes_mem)
      qed
      have "run_wf env n'" using inline_run_wf [OF n True] Some m(1)
        by (simp add: run_wf_def group_wf_def n')
      moreover have "children n' = ms" by (simp add: n' children_def)
      ultimately have "run_tree env n'" using m(2) valid by (intro run_tree_children) auto
      then show ?thesis by (simp add: n')
    qed
  qed
qed

lemma Materialize_parts:
  assumes "Materialize env get wc = Inr wc'"
  shows "mapR (materializeNode env get) (wNodes wc) = Inr (wNodes wc')"
    and "ValidateWorkflowContent (pe_valid env) wc' (ParallelBounds (pe_limits env)) = Inr ()"
proof -
  from assms obtain ns where ns: "mapR (materializeNode env get) (wNodes wc) = Inr ns"
    by (auto simp: Materialize_def bindR_Inr_iff)
  let ?v = "ValidateWorkflowContent (pe_valid env) (wc\<lparr>wNodes := ns\<rparr>) (ParallelBounds (pe_limits env))"
  obtain u where "?v = Inr u" "wc' = wc\<lparr>wNodes := ns\<rparr>"
    using assms ns by (cases ?v) (auto simp: Materialize_def)
  with ns show "mapR (materializeNode env get) (wNodes wc) = Inr (wNodes wc')"
    "ValidateWorkflowContent (pe_valid env) wc' (ParallelBounds (pe_limits env)) = Inr ()" by auto
qed

lemma Materialize_nodes:
  assumes m: "Materialize env get wc = Inr wc'" and e: "env_ok env" and s: "self_contained env get"
    and wc: "\<forall>n \<in> set (wNodes wc). pe_valid env (node_id n) \<and> tree_wf env n"
  shows "\<forall>n \<in> set (forest_nodes (wNodes wc')). pe_valid env (node_id n) \<and> run_wf env n"
proof -
  have r: "map node_id (wNodes wc') = map node_id (wNodes wc) \<and> (\<forall>n \<in> set (wNodes wc'). run_tree env n)"
    by (rule mapR_nodes [OF Materialize_parts(1) [OF m]]) (use materializeNode_run e s wc in blast)
  have valid: "pe_valid env (node_id n)" if "n \<in> set (wNodes wc')" for n
  proof -
    from that have "node_id n \<in> set (map node_id (wNodes wc'))" by simp
    then have "node_id n \<in> set (map node_id (wNodes wc))" unfolding conjunct1 [OF r] .
    with wc show ?thesis by auto
  qed
  have "pe_valid env (node_id m) \<and> run_wf env m" if "n \<in> set (wNodes wc')" "m \<in> set (tree_nodes n)" for n m
    using that valid r by (cases "m = n") (auto simp: run_tree_def tree_nodes_children [of n])
  then show ?thesis by (auto simp: forest_nodes_def)
qed

section \<open>Properties\<close>


text \<open>A workflow that refers to a poller definition, and what it runs.\<close>

definition poller_definition :: NodeDefinition where
  "poller_definition = \<lparr>df_id = ''d'', df_name = ''wait'', df_version = 1, df_previous = None, df_lineage = ''l'',
     df_content = Some (JObj [(''type'', JStr ''poller''), (''name'', JStr ''wait''),
       (''rabbitmq'', JObj [(''queue'', JStr ''q''), (''until'', JStr ''ok'')]),
       (''start_delay'', JStr ''1s'')]),
     df_created_by = ''u'', df_updated_by = ''u'', df_created_at = 0, df_updated_at = 0, nd_type = ''poller''\<rparr>"

definition sample_get :: "uid \<Rightarrow> string + NodeDefinition" where
  "sample_get i = (if i = ''d'' then Inr poller_definition else Inl ''no such definition'')"

definition reference_document :: json where
  "reference_document = JObj [(''start_node_id'', JStr ''a''), (''nodes'', JArr [
     JObj [(''id'', JStr ''a''), (''node_definition_id'', JStr ''d''), (''next_node'', JStr ''b''),
       (''start_delay'', JNull)],
     JObj [(''type'', JStr ''delay''), (''id'', JStr ''b''), (''delay'', JStr ''1s'')]])]"

definition reference_parsed :: WorkflowContent where
  "reference_parsed = \<lparr>wStartNodeID = ''a'', wKeys = [],
     wNodes = [
       NodeContent ((plain_node (NTOther []) ''a'')\<lparr>nDefinitionID := ''d'', nNextNode := ''b'',
         nStartDelaySet := True\<rparr>) None,
       NodeContent ((plain_node NTDelay ''b'')\<lparr>nDelay := seconds 1, nRetryOnRecovery := True,
         nTimeout := seconds 5\<rparr>) None],
     wContextMode = None, wStatusUpdate = None\<rparr>"

definition reference_tree :: WorkflowContent where
  "reference_tree = reference_parsed\<lparr>wNodes := [
       NodeContent ((plain_node NTPoller ''a'')\<lparr>nDefinitionID := ''d'', nName := ''wait'', nNextNode := ''b'',
         nStartDelaySet := True, nRetryOnRecovery := True, nPredicateTimeout := seconds 5,
         nPollerRabbitMQ := Some \<lparr>pq_queue = ''q'', pq_max_wait = seconds 300, pq_until = ''ok''\<rparr>\<rparr>) None,
       NodeContent ((plain_node NTDelay ''b'')\<lparr>nDelay := seconds 1, nRetryOnRecovery := True,
         nTimeout := seconds 5\<rparr>) None]\<rparr>"

lemma reference_parses: "ParseWorkflowContent sample_env (Some reference_document) = Inr reference_parsed"
  by code_simp

lemma reference_materializes: "Materialize sample_env sample_get reference_parsed = Inr reference_tree"
  by code_simp

lemma sample_self_contained: "self_contained sample_env sample_get"
proof -
  have "case ParseNodeContent sample_env (df_content poller_definition) of Inl e \<Rightarrow> True
    | Inr dc \<Rightarrow> list_all (\<lambda>n. nDefinitionID (nfields n) = []) (tree_nodes dc)" by code_simp
  then show ?thesis by (auto simp: self_contained_def sample_get_def split: if_split_asm)
qed


text \<open>
  The cache is transparent: over any requests in any order, every answer is the value of its
  key or what its own computation returned, failures are never remembered, and the cache never
  holds more entries than its bound, provided a key always stands for the same value, which
  immutable definitions give.
\<close>

theorem cache_transparent:
  fixes reqs :: "('k \<times> ('e + 'v)) list"
  assumes "\<forall>(k, r) \<in> set reqs. \<forall>v. r = Inr v \<longrightarrow> value_of k = v"
  shows "list_all2 (\<lambda>(k, r) a. a = Inr (value_of k) \<or> a = r) reqs (fst (serve reqs (cache_New n))) \<and>
    int (length (ca_items (snd (serve reqs (cache_New n))))) \<le> max 1 n"
proof -
  have "\<forall>(k, r) \<in> set reqs. \<forall>v. r = Inr v \<longrightarrow> (Inr (value_of k) :: 'e + 'v) = Inr v" using assms by auto
  from serve_inv [OF cache_inv_New this, of n]
  show ?thesis by (auto simp: cache_inv_def cache_New_def)
qed

lemma cache_transparent_witness:
  "fst (serve [(1 :: nat, Inl ()), (1, Inr ''a''), (2, Inr ''b''), (1, Inl ())] (cache_New 2)) =
     [Inl (), Inr ''a'', Inr ''b'', Inr ''a''] \<and>
   int (length (ca_items (snd (serve [(1 :: nat, Inl ()), (1, Inr ''a''), (2, Inr ''b''), (1, Inl ())] (cache_New 2))))) \<le> max 1 2"
proof -
  let ?reqs = "[(1 :: nat, Inl ()), (1, Inr ''a''), (2, Inr ''b''), (1, Inl ())]"
  have "\<forall>(k, r) \<in> set ?reqs. \<forall>v. r = Inr v \<longrightarrow> (if k = 1 then ''a'' else ''b'') = v" by simp
  from cache_transparent [OF this, of 2]
  show ?thesis by (simp add: cache_New_def GetOrCompute_def evict_def)
qed

end
