(* ===== verification/Definitions.thy ===== *)
theory Definitions
  imports Schedule Materialize
begin

text \<open>
  The tables of node definitions, workflow definitions and forms:
  \<open>repository/node_definition.go\<close>, \<open>workflow_definition.go\<close>, \<open>form.go\<close>,
  \<open>definition_query.go\<close> and \<open>order.go\<close>, with the unique indexes and foreign keys of
  \<open>src/migrations\<close>, all of them \<open>ON DELETE RESTRICT\<close>.

  An operation is a transaction: a function of the tables that returns an error or the new
  tables. \<open>lb_instances\<close>, \<open>lb_node_instances\<close>, \<open>lb_schedules\<close> are the rows of other tables that
  hold a key to a definition, \<open>lb_requests\<close> the keys of \<open>workflow_requests\<close>. The order of a
  list query is the database's; it is a parameter, a function of the \<open>ORDER BY\<close> clause.
\<close>

section \<open>Rows\<close>

record RefModel =
  rf_owner :: uid
  rf_target :: uid
  rf_created_at :: time

record FormModel =
  fo_id :: uid
  fo_name :: string
  fo_schema :: raw
  fo_ui :: raw
  fo_created_at :: time
  fo_updated_at :: time

record lib_db =
  lb_nodes :: "NodeDefinition list"
  lb_workflows :: "definition_row list"
  lb_forms :: "FormModel list"
  lb_node_refs :: "RefModel list"
  lb_workflow_forms :: "RefModel list"
  lb_node_forms :: "RefModel list"
  lb_requests :: "uid list"
  lb_instances :: "WorkflowInstanceModel list"
  lb_schedules :: "CronSchedule list"
  lb_node_instances :: "NodeInstanceModel list"

definition fk_violation :: "string \<Rightarrow> svc_err" where
  "fk_violation what = Failed (EWrap what (EText ''violates foreign key constraint''))"

text \<open>\<open>isUniqueViolation\<close>: the two unique indexes of a definition table, then its foreign key.\<close>

definition insert_definition ::
  "string \<Rightarrow> 'a definition_row_scheme \<Rightarrow> 'a definition_row_scheme list \<Rightarrow> svc_err + 'a definition_row_scheme list" where
  "insert_definition what r t =
     (if df_id r \<in> df_id ` set t \<or> (df_previous r \<noteq> None \<and> df_previous r \<in> df_previous ` set t)
      then Inl (Conflict (what @ '' '' @ quoted (df_name r) @ '' version '' @ Itoa (df_version r) @ '' already exists''))
      else if df_previous r \<noteq> None \<and> the (df_previous r) \<notin> df_id ` set (t @ [r])
      then Inl (fk_violation (what @ '' create''))
      else Inr (t @ [r]))"

definition get_definition ::
  "string \<Rightarrow> uid \<Rightarrow> 'a definition_row_scheme list \<Rightarrow> svc_err + 'a definition_row_scheme" where
  "get_definition what i t =
     (case by_key df_id i t of None \<Rightarrow> Inl (NotFound (what @ '' '' @ i)) | Some r \<Rightarrow> Inr r)"

text \<open>
  \<open>DELETE\<close> of one row: a missing row is \<open>ErrNotFound\<close>, a row another row refers to violates a
  foreign key.
\<close>

definition delete_definition ::
  "string \<Rightarrow> bool \<Rightarrow> uid \<Rightarrow> 'a definition_row_scheme list \<Rightarrow> svc_err + 'a definition_row_scheme list" where
  "delete_definition what referenced i t =
     (if count_where (\<lambda>r. df_id r = i) t = 0 then Inl (NotFound (what @ '' '' @ i))
      else if referenced \<or> (\<exists>r \<in> set t. df_id r \<noteq> i \<and> df_previous r = Some i)
      then Inl (fk_violation (what @ '' delete''))
      else Inr (filter (\<lambda>r. df_id r \<noteq> i) t))"

text \<open>
  The rows that replace those of an owner: cleared, then inserted in one statement, which fails
  on a duplicate key or a missing end.
\<close>

definition replace_refs ::
  "string \<Rightarrow> uid list \<Rightarrow> uid list \<Rightarrow> time \<Rightarrow> uid \<Rightarrow> uid list \<Rightarrow> RefModel list \<Rightarrow> svc_err + RefModel list" where
  "replace_refs what owners targets now i ids t =
     (let kept = filter (\<lambda>r. rf_owner r \<noteq> i) t
      in if ids = [] then Inr kept
         else if \<not> distinct ids then Inl (Failed (EWrap (what @ '' create'') (ERepo ErrUniqueViolation)))
         else if i \<notin> set owners \<or> \<not> set ids \<subseteq> set targets then Inl (fk_violation (what @ '' create''))
         else Inr (kept @ map (\<lambda>j. \<lparr>rf_owner = i, rf_target = j, rf_created_at = now\<rparr>) ids))"

definition refs_of :: "uid \<Rightarrow> RefModel list \<Rightarrow> uid list" where
  "refs_of i t = map rf_target (filter (\<lambda>r. rf_owner r = i) t)"

abbreviation node_ids :: "lib_db \<Rightarrow> uid list" where
  "node_ids d \<equiv> map df_id (lb_nodes d)"

abbreviation workflow_ids :: "lib_db \<Rightarrow> uid list" where
  "workflow_ids d \<equiv> map df_id (lb_workflows d)"

abbreviation form_ids :: "lib_db \<Rightarrow> uid list" where
  "form_ids d \<equiv> map fo_id (lb_forms d)"

section \<open>Lists\<close>

record DefinitionListQuery =
  dq_page :: int
  dq_per_page :: int
  dq_order :: string
  dq_ids :: "uid list"
  dq_name :: string
  dq_lineage :: uid
  dq_version :: "int option"
  dq_latest_only :: bool
  dq_type :: string

definition orderSQL :: "string \<Rightarrow> string list \<Rightarrow> string" where
  "orderSQL ord allowed =
     (let desc = has_prefix ord ''-''; field = (if desc then drop 1 ord else ord)
      in if field \<notin> set allowed \<or> field = [] then []
         else [CHR 0x22] @ field @ [CHR 0x22] @ '' '' @ (if desc then ''DESC'' else ''ASC''))"

definition definitionOrderFields :: "string list" where
  "definitionOrderFields = [''id'', ''name'', ''version'', ''lineage_id'', ''type'', ''created_at'', ''updated_at'']"

definition definitionOrderSQL :: "string \<Rightarrow> string" where
  "definitionOrderSQL ord = orderSQL ord definitionOrderFields"

definition order_clause :: "DefinitionListQuery \<Rightarrow> string" where
  "order_clause q =
     (let ord = definitionOrderSQL (dq_order q)
      in (if ord = [] then [CHR 0x22] @ ''created_at'' @ [CHR 0x22] @ '' DESC'' else ord) @
         '', '' @ [CHR 0x22] @ ''id'' @ [CHR 0x22] @ '' ASC'')"

definition applyDefinitionFilters ::
  "('a definition_row_scheme \<Rightarrow> string) \<Rightarrow> DefinitionListQuery \<Rightarrow> 'a definition_row_scheme list \<Rightarrow>
   'a definition_row_scheme list" where
  "applyDefinitionFilters type_of q = filter (\<lambda>r.
     (dq_ids q = [] \<or> df_id r \<in> set (dq_ids q)) \<and> (dq_name q = [] \<or> df_name r = dq_name q) \<and>
     (dq_lineage q = [] \<or> df_lineage r = dq_lineage q) \<and>
     (case dq_version q of None \<Rightarrow> True | Some v \<Rightarrow> df_version r = v) \<and>
     (dq_type q = [] \<or> type_of r = dq_type q))"

text \<open>\<open>(lineage_id, version) IN (SELECT lineage_id, MAX(version) ... GROUP BY lineage_id)\<close>.\<close>

definition latest :: "'a definition_row_scheme list \<Rightarrow> 'a definition_row_scheme \<Rightarrow> bool" where
  "latest t r \<longleftrightarrow> (\<forall>s \<in> set t. df_lineage s = df_lineage r \<longrightarrow> df_version s \<le> df_version r)"

text \<open>The offset of a page is computed in 64 bits; the database layer drops one that is not positive.\<close>

definition page_offset :: "int \<Rightarrow> int \<Rightarrow> int" where
  "page_offset page perPage = ((page - 1) * perPage + 2 ^ 63) mod 2 ^ 64 - 2 ^ 63"

definition page_of :: "int \<Rightarrow> int \<Rightarrow> 'r list \<Rightarrow> 'r list" where
  "page_of page0 perPage0 rows =
     (let page = (if page0 < 1 then 1 else page0); perPage = (if perPage0 < 1 then 50 else perPage0)
      in take (nat perPage) (drop (nat (page_offset page perPage)) rows))"

definition list_definitions ::
  "(string \<Rightarrow> 'a definition_row_scheme list \<Rightarrow> 'a definition_row_scheme list) \<Rightarrow>
   ('a definition_row_scheme \<Rightarrow> string) \<Rightarrow> DefinitionListQuery \<Rightarrow> 'a definition_row_scheme list \<Rightarrow>
   'a definition_row_scheme list \<times> int" where
  "list_definitions ord type_of q t =
     (let rows = filter (\<lambda>r. dq_latest_only q \<longrightarrow> latest t r) (applyDefinitionFilters type_of q t)
      in (page_of (dq_page q) (dq_per_page q) (ord (order_clause q) rows), int (length rows)))"

section \<open>Node definitions\<close>

definition node_Create :: "NodeDefinition \<Rightarrow> lib_db \<Rightarrow> svc_err + unit \<times> lib_db" where
  "node_Create def d =
     bindR (insert_definition ''node definition'' def (lb_nodes d)) (\<lambda>t. Inr ((), d\<lparr>lb_nodes := t\<rparr>))"

definition node_GetByID :: "uid \<Rightarrow> lib_db \<Rightarrow> svc_err + NodeDefinition \<times> lib_db" where
  "node_GetByID i d = bindR (get_definition ''node definition'' i (lb_nodes d)) (\<lambda>r. Inr (r, d))"

definition node_List ::
  "(string \<Rightarrow> NodeDefinition list \<Rightarrow> NodeDefinition list) \<Rightarrow> DefinitionListQuery \<Rightarrow> lib_db \<Rightarrow>
   svc_err + (NodeDefinition list \<times> int) \<times> lib_db" where
  "node_List ord q d = Inr (list_definitions ord nd_type q (lb_nodes d), d)"

definition node_Delete :: "uid \<Rightarrow> lib_db \<Rightarrow> svc_err + unit \<times> lib_db" where
  "node_Delete i d =
     (if count_where (\<lambda>r. rf_target r = i) (lb_node_refs d) > 0
      then Inl (Conflict (''node definition '' @ i @ '' is referenced by workflow definitions''))
      else if count_where (\<lambda>n. nm_definition n = Some i) (lb_node_instances d) > 0
      then Inl (Conflict (''node definition '' @ i @ '' is referenced by node instances''))
      else
        bindR (delete_definition ''node definition'' False i (lb_nodes d)) (\<lambda>t.
        Inr ((), d\<lparr>lb_node_forms := filter (\<lambda>r. rf_owner r \<noteq> i) (lb_node_forms d), lb_nodes := t\<rparr>)))"

section \<open>Workflow definitions\<close>

definition workflow_Create :: "definition_row \<Rightarrow> lib_db \<Rightarrow> svc_err + unit \<times> lib_db" where
  "workflow_Create def d =
     bindR (insert_definition ''workflow definition'' def (lb_workflows d)) (\<lambda>t. Inr ((), d\<lparr>lb_workflows := t\<rparr>))"

definition workflow_GetByID :: "uid \<Rightarrow> lib_db \<Rightarrow> svc_err + definition_row \<times> lib_db" where
  "workflow_GetByID i d = bindR (get_definition ''workflow definition'' i (lb_workflows d)) (\<lambda>r. Inr (r, d))"

text \<open>Workflow definitions have no type column: the filter is dropped.\<close>

definition workflow_List ::
  "(string \<Rightarrow> definition_row list \<Rightarrow> definition_row list) \<Rightarrow> DefinitionListQuery \<Rightarrow> lib_db \<Rightarrow>
   svc_err + (definition_row list \<times> int) \<times> lib_db" where
  "workflow_List ord q d = Inr (list_definitions ord (\<lambda>_. []) (q\<lparr>dq_type := []\<rparr>) (lb_workflows d), d)"

definition workflow_Delete :: "uid \<Rightarrow> lib_db \<Rightarrow> svc_err + unit \<times> lib_db" where
  "workflow_Delete i d =
     (if count_where (\<lambda>r. r = i) (lb_requests d) > 0
      then Inl (Conflict (''workflow definition '' @ i @ '' is referenced by workflow requests''))
      else if count_where (\<lambda>m. wm_definition m = i) (lb_instances d) > 0
      then Inl (Conflict (''workflow definition '' @ i @ '' is referenced by workflow instances''))
      else if count_where (\<lambda>s. cs_definition s = i) (lb_schedules d) > 0
      then Inl (Conflict (''workflow definition '' @ i @ '' is referenced by cron schedules''))
      else
        bindR (delete_definition ''workflow definition'' (\<exists>r \<in> set (lb_node_refs d). rf_owner r = i) i
          (lb_workflows d)) (\<lambda>t.
        Inr ((), d\<lparr>lb_workflow_forms := filter (\<lambda>r. rf_owner r \<noteq> i) (lb_workflow_forms d), lb_workflows := t\<rparr>)))"

definition SetNodeRefs :: "time \<Rightarrow> uid \<Rightarrow> uid list \<Rightarrow> lib_db \<Rightarrow> svc_err + unit \<times> lib_db" where
  "SetNodeRefs now i ids d =
     bindR (replace_refs ''workflow definition node refs'' (workflow_ids d) (node_ids d) now i ids (lb_node_refs d))
       (\<lambda>t. Inr ((), d\<lparr>lb_node_refs := t\<rparr>))"

definition WorkflowDefinitionNodeRefs :: "uid \<Rightarrow> lib_db \<Rightarrow> uid list" where
  "WorkflowDefinitionNodeRefs i d = refs_of i (lb_node_refs d)"

section \<open>Forms\<close>

definition form_Create :: "uid \<Rightarrow> time \<Rightarrow> string \<Rightarrow> raw \<Rightarrow> raw \<Rightarrow> lib_db \<Rightarrow> svc_err + FormModel \<times> lib_db" where
  "form_Create i now name schema ui d =
     (let row = \<lparr>fo_id = i, fo_name = name, fo_schema = schema, fo_ui = ui, fo_created_at = now, fo_updated_at = now\<rparr>
      in case create fo_id row (lb_forms d) of
           Inl e \<Rightarrow> Inl (Failed (EWrap ''form create'' (ERepo e)))
         | Inr t \<Rightarrow> Inr (row, d\<lparr>lb_forms := t\<rparr>))"

definition no_form :: "uid \<Rightarrow> svc_err" where
  "no_form i = NotFound (''form '' @ i)"

definition form_GetByID :: "uid \<Rightarrow> lib_db \<Rightarrow> svc_err + FormModel \<times> lib_db" where
  "form_GetByID i d = (case by_key fo_id i (lb_forms d) of None \<Rightarrow> Inl (no_form i) | Some r \<Rightarrow> Inr (r, d))"

definition form_List :: "int \<Rightarrow> int \<Rightarrow> lib_db \<Rightarrow> svc_err + (FormModel list \<times> int) \<times> lib_db" where
  "form_List page perPage d =
     (let rows = order_by (\<lambda>r. (fo_created_at r, fo_id r)) (lb_forms d)
      in Inr ((page_of page perPage rows, int (length rows)), d))"

definition form_Update :: "uid \<Rightarrow> time \<Rightarrow> string \<Rightarrow> raw \<Rightarrow> raw \<Rightarrow> lib_db \<Rightarrow> svc_err + FormModel \<times> lib_db" where
  "form_Update i now name schema ui d =
     (if count_where (\<lambda>r. fo_id r = i) (lb_forms d) = 0 then Inl (no_form i)
      else form_GetByID i (d\<lparr>lb_forms := update_where (\<lambda>r. fo_id r = i)
        (\<lambda>r. r\<lparr>fo_name := name, fo_schema := schema, fo_ui := ui, fo_updated_at := now\<rparr>) (lb_forms d)\<rparr>))"

definition form_Delete :: "uid \<Rightarrow> lib_db \<Rightarrow> svc_err + unit \<times> lib_db" where
  "form_Delete i d =
     (if count_where (\<lambda>r. rf_target r = i) (lb_workflow_forms d) > 0 \<or>
         count_where (\<lambda>r. rf_target r = i) (lb_node_forms d) > 0
      then Inl (Conflict (''form '' @ i @ '' is referenced by definitions''))
      else if count_where (\<lambda>r. fo_id r = i) (lb_forms d) = 0 then Inl (no_form i)
      else Inr ((), d\<lparr>lb_forms := filter (\<lambda>r. fo_id r \<noteq> i) (lb_forms d)\<rparr>))"

definition SaveWorkflowFormRefs :: "time \<Rightarrow> uid \<Rightarrow> uid list \<Rightarrow> lib_db \<Rightarrow> svc_err + unit \<times> lib_db" where
  "SaveWorkflowFormRefs now i ids d =
     bindR (replace_refs ''workflow definition form refs'' (workflow_ids d) (form_ids d) now i ids (lb_workflow_forms d))
       (\<lambda>t. Inr ((), d\<lparr>lb_workflow_forms := t\<rparr>))"

definition SaveNodeFormRefs :: "time \<Rightarrow> uid \<Rightarrow> uid list \<Rightarrow> lib_db \<Rightarrow> svc_err + unit \<times> lib_db" where
  "SaveNodeFormRefs now i ids d =
     bindR (replace_refs ''node definition form refs'' (node_ids d) (form_ids d) now i ids (lb_node_forms d))
       (\<lambda>t. Inr ((), d\<lparr>lb_node_forms := t\<rparr>))"

definition WorkflowFormRefs :: "uid \<Rightarrow> lib_db \<Rightarrow> uid list" where
  "WorkflowFormRefs i d = refs_of i (lb_workflow_forms d)"

definition NodeFormRefs :: "uid \<Rightarrow> lib_db \<Rightarrow> uid list" where
  "NodeFormRefs i d = refs_of i (lb_node_forms d)"

definition dedupeIDs :: "uid list list \<Rightarrow> uid list" where
  "dedupeIDs sets = fold (\<lambda>i out. if i \<in> set out then out else out @ [i]) (concat sets) []"

text \<open>The definitions that use a form: by a row of their own, or through a node definition.\<close>

definition direct_users :: "uid \<Rightarrow> lib_db \<Rightarrow> uid list" where
  "direct_users f d = map rf_owner (filter (\<lambda>r. rf_target r = f) (lb_workflow_forms d))"

definition indirect_users :: "uid \<Rightarrow> lib_db \<Rightarrow> uid list" where
  "indirect_users f d = remdups (map rf_owner (filter (\<lambda>w. \<exists>n \<in> set (lb_node_forms d).
     rf_owner n = rf_target w \<and> rf_target n = f) (lb_node_refs d)))"

record form_usage =
  us_workflows :: "definition_row list"
  us_nodes :: "NodeDefinition list"
  us_instances :: "WorkflowInstanceModel list"
  us_total :: int

definition form_Usage :: "uid \<Rightarrow> int \<Rightarrow> int \<Rightarrow> lib_db \<Rightarrow> svc_err + form_usage \<times> lib_db" where
  "form_Usage f page perPage d =
     (let ids = dedupeIDs [direct_users f d, indirect_users f d];
          rows = order_by (\<lambda>m. (wm_created_at m, wm_id m)) (filter (\<lambda>m. wm_definition m \<in> set ids) (lb_instances d))
      in Inr (\<lparr>us_workflows = order_by (\<lambda>r. (df_created_at r, df_id r)) (filter (\<lambda>r. df_id r \<in> set ids) (lb_workflows d)),
          us_nodes = order_by (\<lambda>r. (df_created_at r, df_id r))
            (filter (\<lambda>r. \<exists>n \<in> set (lb_node_forms d). rf_owner n = df_id r \<and> rf_target n = f) (lb_nodes d)),
          us_instances = page_of page perPage rows, us_total = int (length rows)\<rparr>, d))"

end
