(* ===== verification/DefinitionService.thy ===== *)
theory DefinitionService
  imports Definitions
begin

text \<open>
  The use cases of the definition library: \<open>service/node_definition.go\<close>,
  \<open>workflow_definition.go\<close> and \<open>form.go\<close>, with the schema check of \<open>form/form.go\<close>.

  A use case makes its repository calls one at a time. Before call \<open>k\<close> other replicas change
  the tables by \<open>la_moves la k\<close>, and the call fails without effect if \<open>la_fault la k\<close> is an
  error. The reads of one materialization are one call. What the tick indexes otherwise (the
  clock, fresh identifiers) belongs to the process.
\<close>

section \<open>Calls\<close>

record library =
  la_moves :: "nat \<Rightarrow> lib_db \<Rightarrow> lib_db"
  la_fault :: "nat \<Rightarrow> go_err option"
  la_clock :: "nat \<Rightarrow> time"
  la_newid :: "nat \<Rightarrow> uid"
  la_env :: parse_env
  la_actor :: uid
  la_parse_text :: "workflow_err \<Rightarrow> string"
  la_merge_text :: "svc_err mat_error \<Rightarrow> string"
  la_node_schema :: "string \<Rightarrow> json option"
  la_compile :: "json \<Rightarrow> string option"

text \<open>The tables, the tick, and the process-wide cache of materialized trees.\<close>

record lib_world =
  lw_db :: lib_db
  lw_tick :: nat
  lw_cache :: "(uid, WorkflowContent) cache"

type_synonym 'a lib = "(lib_world, svc_err + 'a) state"

definition lib_ret :: "svc_err + 'a \<Rightarrow> 'a lib" where
  "lib_ret r = State_Monad.return r"

definition lib_then :: "'a lib \<Rightarrow> ('a \<Rightarrow> 'b lib) \<Rightarrow> 'b lib" where
  "lib_then m k = do { r \<leftarrow> m; case r of Inl e \<Rightarrow> lib_ret (Inl e) | Inr x \<Rightarrow> k x }"

definition lib_call :: "library \<Rightarrow> (lib_db \<Rightarrow> svc_err + 'a \<times> lib_db) \<Rightarrow> 'a lib" where
  "lib_call la f = State (\<lambda>w.
     let d = la_moves la (lw_tick w) (lw_db w); w' = w\<lparr>lw_db := d, lw_tick := Suc (lw_tick w)\<rparr>
     in case la_fault la (lw_tick w) of
          Some e \<Rightarrow> (Inl (Failed e), w')
        | None \<Rightarrow> (case f d of Inl e \<Rightarrow> (Inl e, w') | Inr (x, d') \<Rightarrow> (Inr x, w'\<lparr>lw_db := d'\<rparr>)))"

definition lib_tick :: "nat lib" where
  "lib_tick = State (\<lambda>w. (Inr (lw_tick w), w\<lparr>lw_tick := Suc (lw_tick w)\<rparr>))"

definition lib_check :: "bool \<Rightarrow> svc_err \<Rightarrow> unit lib" where
  "lib_check ok e = lib_ret (if ok then Inr () else Inl e)"

definition wrapped :: "string \<Rightarrow> svc_err \<Rightarrow> svc_err" where
  "wrapped what e = (case e of Failed g \<Rightarrow> Failed (EWrap what g) | _ \<Rightarrow> e)"

definition lib_wrap :: "string \<Rightarrow> 'a lib \<Rightarrow> 'a lib" where
  "lib_wrap what m = do { r \<leftarrow> m; lib_ret (case r of Inl e \<Rightarrow> Inl (wrapped what e) | Inr x \<Rightarrow> Inr x) }"

section \<open>Walks\<close>

definition collectNodeRefs :: "WorkflowContent \<Rightarrow> uid list" where
  "collectNodeRefs wc =
     dedupeIDs [filter (\<lambda>i. i \<noteq> []) (map (\<lambda>n. nDefinitionID (nfields n)) (forest_nodes (wNodes wc)))]"

fun lib_ensureFormsExist :: "library \<Rightarrow> uid list \<Rightarrow> unit lib" where
  "lib_ensureFormsExist la [] = lib_ret (Inr ())"
| "lib_ensureFormsExist la (i # is) = do {
     r \<leftarrow> lib_call la (form_GetByID i);
     case r of
       Inl (NotFound m) \<Rightarrow> lib_ret (Inl (Invalid (''unknown form_id '' @ quoted i)))
     | Inl e \<Rightarrow> lib_ret (Inl e)
     | Inr f \<Rightarrow> lib_ensureFormsExist la is
   }"

section \<open>Node definitions\<close>

record CreateNodeDefinition =
  cn_name :: string
  cn_type :: string
  cn_previous :: "uid option"
  cn_content :: raw
  cn_actor :: uid

text \<open>The content of a definition: it parses, carries no keys, and is not itself a reference.\<close>

definition node_content :: "library \<Rightarrow> CreateNodeDefinition \<Rightarrow> svc_err + NodeContent" where
  "node_content la req =
     (if blank (cn_name req) then Inl (Invalid ''node definition name is required'')
      else if \<not> valid_type (la_env la) (cn_type req)
      then Inl (Invalid (''node type '' @ quoted (cn_type req) @ '' is not supported''))
      else case ParseNodeContent (la_env la) (cn_content req) of
        Inl e \<Rightarrow> Inl (Invalid (la_parse_text la (WParse e)))
      | Inr nc \<Rightarrow>
          if NodeCarriesKeys nc then Inl (Invalid ''node definitions cannot carry workflow or group keys'')
          else if nDefinitionID (nfields nc) \<noteq> []
          then Inl (Invalid ''node definitions cannot carry node_definition_id; the content must be self-contained'')
          else Inr nc)"

text \<open>The version, lineage and predecessor of a new definition.\<close>

definition next_version ::
  "library \<Rightarrow> (uid \<Rightarrow> lib_db \<Rightarrow> svc_err + 'r definition_row_scheme \<times> lib_db) \<Rightarrow> uid option \<Rightarrow>
   (int \<times> uid \<times> uid option) lib" where
  "next_version la get previous =
     (case previous of
        Some p \<Rightarrow> lib_then (lib_call la (get p)) (\<lambda>prev.
          lib_ret (Inr (df_version prev + 1, df_lineage prev, Some (df_id prev))))
      | None \<Rightarrow> lib_then lib_tick (\<lambda>k. lib_ret (Inr (1, la_newid la k, None))))"

definition svc_node_Create :: "library \<Rightarrow> CreateNodeDefinition \<Rightarrow> NodeDefinition lib" where
  "svc_node_Create la req =
     lib_then (lib_ret (node_content la req)) (\<lambda>nc.
     let forms = collectFormIDs [nc] in
     lib_then (lib_ensureFormsExist la forms) (\<lambda>_.
     lib_then lib_tick (\<lambda>k.
     let now = la_clock la k; i = la_newid la k; actor = resolveActor (cn_actor req) (la_actor la) in
     lib_then (next_version la node_GetByID (cn_previous req)) (\<lambda>(version, lineage, previous).
     let def = \<lparr>df_id = i, df_name = cn_name req, df_version = version, df_previous = previous,
           df_lineage = lineage, df_content = cn_content req, df_created_by = actor, df_updated_by = actor,
           df_created_at = now, df_updated_at = now, nd_type = cn_type req\<rparr> in
     lib_then (lib_call la (node_Create def)) (\<lambda>_.
     lib_then lib_tick (\<lambda>t.
     lib_then (lib_wrap ''record form refs'' (lib_call la (SaveNodeFormRefs (la_clock la t) i forms))) (\<lambda>_.
     lib_ret (Inr def))))))))"

definition svc_node_Get :: "library \<Rightarrow> uid \<Rightarrow> NodeDefinition lib" where
  "svc_node_Get la i = lib_call la (node_GetByID i)"

definition svc_node_Delete :: "library \<Rightarrow> uid \<Rightarrow> unit lib" where
  "svc_node_Delete la i = lib_call la (node_Delete i)"

section \<open>Workflow definitions\<close>

record CreateWorkflowDefinition =
  cw_name :: string
  cw_previous :: "uid option"
  cw_content :: raw
  cw_actor :: uid

definition node_source :: "lib_db \<Rightarrow> uid \<Rightarrow> svc_err + NodeDefinition" where
  "node_source d i = bindR (node_GetByID i d) (\<lambda>(r, _). Inr r)"

definition svc_Materialize :: "library \<Rightarrow> WorkflowContent \<Rightarrow> WorkflowContent lib" where
  "svc_Materialize la wc = lib_call la (\<lambda>d.
     case Materialize (la_env la) (node_source d) wc of
       Inl e \<Rightarrow> Inl (Invalid (la_merge_text la e))
     | Inr tree \<Rightarrow> Inr (tree, d))"

definition workflow_content :: "library \<Rightarrow> CreateWorkflowDefinition \<Rightarrow> svc_err + WorkflowContent" where
  "workflow_content la req =
     (if blank (cw_name req) then Inl (Invalid ''workflow definition name is required'')
      else case ParseWorkflowContent (la_env la) (cw_content req) of
        Inl e \<Rightarrow> Inl (Invalid (la_parse_text la e))
      | Inr wc \<Rightarrow> Inr wc)"

definition svc_workflow_Create :: "library \<Rightarrow> CreateWorkflowDefinition \<Rightarrow> definition_row lib" where
  "svc_workflow_Create la req =
     lib_then (lib_ret (workflow_content la req)) (\<lambda>wc.
     lib_then (svc_Materialize la wc) (\<lambda>_.
     let forms = collectFormIDs (wNodes wc) in
     lib_then (lib_ensureFormsExist la forms) (\<lambda>_.
     lib_then lib_tick (\<lambda>k.
     let now = la_clock la k; i = la_newid la k; actor = resolveActor (cw_actor req) (la_actor la) in
     lib_then (next_version la workflow_GetByID (cw_previous req)) (\<lambda>(version, lineage, previous).
     let def = \<lparr>df_id = i, df_name = cw_name req, df_version = version, df_previous = previous,
           df_lineage = lineage, df_content = cw_content req, df_created_by = actor, df_updated_by = actor,
           df_created_at = now, df_updated_at = now\<rparr> in
     lib_then (lib_call la (workflow_Create def)) (\<lambda>_.
     lib_then lib_tick (\<lambda>t.
     lib_then (lib_wrap ''record node refs'' (lib_call la (SetNodeRefs (la_clock la t) i (collectNodeRefs wc)))) (\<lambda>_.
     lib_then lib_tick (\<lambda>u.
     lib_then (lib_wrap ''record form refs'' (lib_call la (SaveWorkflowFormRefs (la_clock la u) i forms))) (\<lambda>_.
     lib_ret (Inr def)))))))))))"

definition svc_workflow_Get :: "library \<Rightarrow> uid \<Rightarrow> definition_row lib" where
  "svc_workflow_Get la i = lib_call la (workflow_GetByID i)"

definition svc_workflow_Delete :: "library \<Rightarrow> uid \<Rightarrow> unit lib" where
  "svc_workflow_Delete la i = lib_call la (workflow_Delete i)"

text \<open>\<open>Resolve\<close>: a cached tree, or the computation, whose success is cached.\<close>

definition resolve_stored :: "library \<Rightarrow> uid \<Rightarrow> WorkflowContent lib" where
  "resolve_stored la i =
     lib_then (lib_call la (workflow_GetByID i)) (\<lambda>def.
     case ParseWorkflowContent (la_env la) (df_content def) of
       Inl e \<Rightarrow> lib_ret (Inl (Invalid (la_parse_text la e)))
     | Inr wc \<Rightarrow> svc_Materialize la wc)"

definition resolveCacheSize :: int where
  "resolveCacheSize = 1024"

definition svc_Resolve :: "library \<Rightarrow> uid \<Rightarrow> WorkflowContent lib" where
  "svc_Resolve la i = do {
     w \<leftarrow> State_Monad.get;
     r \<leftarrow> (if map_of (ca_items (lw_cache w)) i = None then resolve_stored la i
           else lib_ret (Inl (NotFound i)));
     State (\<lambda>w. case GetOrCompute i (\<lambda>_. r) (lw_cache w) of (a, c) \<Rightarrow> (a, w\<lparr>lw_cache := c\<rparr>))
   }"

text \<open>The types whose schemas a client needs.\<close>

definition used_type :: "(uid \<Rightarrow> svc_err + NodeDefinition) \<Rightarrow> NodeContent \<Rightarrow> string" where
  "used_type get n =
     (let t = type_str (node_type n) in
      if t = [] \<and> nDefinitionID (nfields n) \<noteq> []
      then (case get (nDefinitionID (nfields n)) of Inl e \<Rightarrow> [] | Inr def \<Rightarrow> nd_type def)
      else t)"

definition collectNodeTypes :: "(uid \<Rightarrow> svc_err + NodeDefinition) \<Rightarrow> NodeContent list \<Rightarrow> string list" where
  "collectNodeTypes get ns = filter (\<lambda>t. t \<noteq> []) (map (used_type get) (forest_nodes ns))"

definition declared_fields :: "json \<Rightarrow> decode_error + string \<times> json list" where
  "declared_fields j =
     bindR (dec_struct j) (\<lambda>m.
     bindR (dec_string (map_of m ''type'')) (\<lambda>t.
     bindR (dec_opt dec_array (map_of m ''nodes'')) (\<lambda>ns.
       Inr (t, case ns of None \<Rightarrow> [] | Some js \<Rightarrow> js))))"

lemma declared_fields_size: "declared_fields j = Inr (t, js) \<Longrightarrow> size_list size js < Suc (size j)"
proof -
  assume "declared_fields j = Inr (t, js)"
  then obtain m ns where m: "dec_struct j = Inr m" "dec_opt dec_array (map_of m ''nodes'') = Inr ns"
    and js: "js = (case ns of None \<Rightarrow> [] | Some js \<Rightarrow> js)"
    by (auto simp: declared_fields_def bindR_Inr_iff)
  show ?thesis
  proof (cases ns)
    case (Some ks)
    with m(2) have f: "map_of m ''nodes'' = Some (JArr ks)"
      by (auto simp: dec_opt_def dec_array_def bindR_Inr_iff split: option.splits json.splits)
    with m(1) have "j = JObj m" by (auto simp: dec_struct_def split: json.splits)
    with size_field [OF f] Some js show ?thesis by simp
  qed (simp add: js)
qed

function declared_types :: "json list \<Rightarrow> string list" where
  "declared_types [] = []"
| "declared_types (j # js) =
     (case declared_fields j of
        Inl e \<Rightarrow> []
      | Inr (t, ks) \<Rightarrow> (if t = [] then [] else [t]) @ declared_types ks) @ declared_types js"
  by pat_completeness auto
termination
  by (relation "measure (size_list size)") (auto dest: declared_fields_size)

definition declaredNodeTypes :: "raw \<Rightarrow> string list" where
  "declaredNodeTypes content =
     (case content of
        None \<Rightarrow> []
      | Some j \<Rightarrow>
          (case bindR (dec_struct j) (\<lambda>m. dec_opt dec_array (map_of m ''nodes'')) of
             Inr (Some js) \<Rightarrow> declared_types js
           | _ \<Rightarrow> []))"

text \<open>A Go map from types to schemas.\<close>

definition schemasForTypes :: "library \<Rightarrow> string list \<Rightarrow> string \<Rightarrow> json option" where
  "schemasForTypes la used t = (if t \<in> set used then la_node_schema la t else None)"

definition svc_Schemas :: "library \<Rightarrow> raw \<Rightarrow> lib_db \<Rightarrow> string \<Rightarrow> json option" where
  "svc_Schemas la content d =
     schemasForTypes la
       (case ParseWorkflowContent (la_env la) content of
          Inl e \<Rightarrow> declaredNodeTypes content
        | Inr wc \<Rightarrow> collectNodeTypes (node_source d) (wNodes wc))"

section \<open>Forms\<close>

definition CheckSchema :: "library \<Rightarrow> raw \<Rightarrow> string option" where
  "CheckSchema la schema =
     (case schema of
        None \<Rightarrow> Some ''schema is required''
      | Some JNull \<Rightarrow> Some ''schema is required''
      | Some (JObj m) \<Rightarrow>
          if m = [] then Some ''schema must be a non-empty object''
          else (case la_compile la (JObj m) of
            None \<Rightarrow> None | Some e \<Rightarrow> Some (''schema is not a valid JSON Schema: '' @ e))
      | Some _ \<Rightarrow> Some ''schema must be an object'')"

definition validateFormInput :: "library \<Rightarrow> string \<Rightarrow> raw \<Rightarrow> raw \<Rightarrow> svc_err + unit" where
  "validateFormInput la name schema ui =
     (if blank name then Inl (Invalid ''form name is required'')
      else case CheckSchema la schema of
        Some e \<Rightarrow> Inl (Invalid e)
      | None \<Rightarrow>
          (case ui of
             None \<Rightarrow> Inr ()
           | Some (JObj m) \<Rightarrow> Inr ()
           | Some _ \<Rightarrow> Inl (Invalid ''ui must be an object'')))"

definition svc_form_Create :: "library \<Rightarrow> string \<Rightarrow> raw \<Rightarrow> raw \<Rightarrow> FormModel lib" where
  "svc_form_Create la name schema ui =
     lib_then (lib_ret (validateFormInput la name schema ui)) (\<lambda>_.
     lib_then lib_tick (\<lambda>k. lib_call la (form_Create (la_newid la k) (la_clock la k) name schema ui)))"

definition svc_form_Update :: "library \<Rightarrow> uid \<Rightarrow> string \<Rightarrow> raw \<Rightarrow> raw \<Rightarrow> FormModel lib" where
  "svc_form_Update la i name schema ui =
     lib_then (lib_ret (validateFormInput la name schema ui)) (\<lambda>_.
     lib_then lib_tick (\<lambda>k. lib_call la (form_Update i (la_clock la k) name schema ui)))"

definition svc_form_Delete :: "library \<Rightarrow> uid \<Rightarrow> unit lib" where
  "svc_form_Delete la i = lib_call la (form_Delete i)"

record usage_node =
  un_node :: uid
  un_name :: string
  un_definition :: uid

definition collectUsageNodes :: "uid \<Rightarrow> NodeContent list \<Rightarrow> usage_node list" where
  "collectUsageNodes f ns =
     map (\<lambda>n. \<lparr>un_node = node_id n, un_name = nName (nfields n), un_definition = nDefinitionID (nfields n)\<rparr>)
       (filter (\<lambda>n. nFormID (nfields n) = f) (forest_nodes ns))"

definition findUsageNode :: "NodeContent list \<Rightarrow> uid \<Rightarrow> NodeContent option" where
  "findUsageNode ns i = find (\<lambda>n. node_id n = i) (forest_nodes ns)"

definition waiting_on :: "uid \<Rightarrow> WorkflowInstanceModel \<Rightarrow> bool" where
  "waiting_on f m \<longleftrightarrow> wm_status m = WorkflowWaiting \<and> wm_current_node m \<notin> {None, Some []}"

text \<open>
  The trees of the definitions in turn; an error of one ends the request. The map of trees a
  request keeps holds what the cache holds, so it is left out.
\<close>

fun usage_workflows :: "library \<Rightarrow> uid \<Rightarrow> definition_row list \<Rightarrow> (definition_row \<times> usage_node list) list lib" where
  "usage_workflows la f [] = lib_ret (Inr [])"
| "usage_workflows la f (def # defs) =
     lib_then (svc_Resolve la (df_id def)) (\<lambda>tree.
     lib_then (usage_workflows la f defs) (\<lambda>us.
     lib_ret (Inr ((def, collectUsageNodes f (wNodes tree)) # us))))"

fun usage_instances :: "library \<Rightarrow> uid \<Rightarrow> WorkflowInstanceModel list \<Rightarrow> (WorkflowInstanceModel \<times> bool) list lib" where
  "usage_instances la f [] = lib_ret (Inr [])"
| "usage_instances la f (m # ms) =
     lib_then
       (if waiting_on f m
        then lib_then (svc_Resolve la (wm_definition m)) (\<lambda>tree.
          lib_ret (Inr (case findUsageNode (wNodes tree) (the (wm_current_node m)) of
            None \<Rightarrow> False | Some n \<Rightarrow> nFormID (nfields n) = f)))
        else lib_ret (Inr False)) (\<lambda>b.
     lib_then (usage_instances la f ms) (\<lambda>us. lib_ret (Inr ((m, b) # us))))"

record FormUsage =
  fu_form :: uid
  fu_workflows :: "(definition_row \<times> usage_node list) list"
  fu_nodes :: "NodeDefinition list"
  fu_instances :: "(WorkflowInstanceModel \<times> bool) list"
  fu_total :: int
  fu_page :: int
  fu_per_page :: int

definition svc_form_Usage :: "library \<Rightarrow> uid \<Rightarrow> int \<Rightarrow> int \<Rightarrow> FormUsage lib" where
  "svc_form_Usage la f page perPage =
     lib_then (lib_call la (form_GetByID f)) (\<lambda>_.
     lib_then (lib_call la (form_Usage f page perPage)) (\<lambda>u.
     lib_then (usage_workflows la f (us_workflows u)) (\<lambda>ws.
     lib_then (usage_instances la f (us_instances u)) (\<lambda>is.
     lib_ret (Inr \<lparr>fu_form = f, fu_workflows = ws, fu_nodes = us_nodes u, fu_instances = is,
       fu_total = us_total u, fu_page = page, fu_per_page = perPage\<rparr>)))))"

end
