(* ===== verification/DefinitionSafety.thy ===== *)
theory DefinitionSafety
  imports DefinitionService
begin

text \<open>
  The definition library keeps its references: whatever use cases run on any number of replicas,
  every key names a stored row, and the versions of a lineage form a chain without gaps or forks.
\<close>

section \<open>Lineages\<close>

definition chain :: "'a definition_row_scheme list \<Rightarrow> bool" where
  "chain t \<longleftrightarrow> distinct (map df_id t) \<and>
     (\<forall>r \<in> set t. 1 \<le> df_version r \<and> (case df_previous r of
        None \<Rightarrow> df_version r = 1
      | Some p \<Rightarrow> \<exists>q \<in> set t. df_id q = p \<and> df_version r = df_version q + 1 \<and> df_lineage r = df_lineage q)) \<and>
     (\<forall>r \<in> set t. \<forall>s \<in> set t. df_previous r = df_previous s \<longrightarrow> df_previous r \<noteq> None \<longrightarrow> r = s) \<and>
     (\<forall>r \<in> set t. \<forall>s \<in> set t. df_previous r = None \<longrightarrow> df_previous s = None \<longrightarrow> df_lineage r = df_lineage s \<longrightarrow> r = s)"

lemma chain_Nil [simp]: "chain []"
  by (simp add: chain_def)

lemma chain_distinct: "chain t \<Longrightarrow> distinct (map df_id t)"
  by (simp add: chain_def)

lemma chain_version: "chain t \<Longrightarrow> r \<in> set t \<Longrightarrow> 1 \<le> df_version r"
  by (simp add: chain_def)

lemma chain_root: "chain t \<Longrightarrow> r \<in> set t \<Longrightarrow> df_previous r = None \<Longrightarrow> df_version r = 1"
  by (fastforce simp: chain_def)

lemma chain_previous:
  assumes "chain t" "r \<in> set t" "df_previous r = Some p"
  obtains q where "q \<in> set t" "df_id q = p" "df_version r = df_version q + 1" "df_lineage r = df_lineage q"
  using assms unfolding chain_def by fastforce

text \<open>A version of a lineage is one row.\<close>

lemma chain_linear:
  assumes "chain t" "r \<in> set t" "s \<in> set t" "df_lineage r = df_lineage s" "df_version r = df_version s"
  shows "r = s"
  using assms(2-)
proof (induction "nat (df_version r)" arbitrary: r s)
  case 0
  with chain_version [OF assms(1)] have False by fastforce
  then show ?case ..
next
  case (Suc n)
  show ?case
  proof (cases "df_previous r")
    case None
    then have "df_version s = 1" using chain_root [OF assms(1)] Suc.prems by simp
    have "df_previous s = None"
    proof (rule ccontr)
      assume "df_previous s \<noteq> None"
      then obtain p where "df_previous s = Some p" by blast
      then obtain q where "q \<in> set t" "df_version s = df_version q + 1"
        using chain_previous [OF assms(1) Suc.prems(2)] by metis
      with chain_version [OF assms(1)] \<open>df_version s = 1\<close> show False by fastforce
    qed
    with None Suc.prems assms(1) show ?thesis unfolding chain_def by blast
  next
    case (Some p)
    then obtain q where q: "q \<in> set t" "df_id q = p" "df_version r = df_version q + 1" "df_lineage r = df_lineage q"
      using chain_previous [OF assms(1) Suc.prems(1)] by metis
    have "df_previous s \<noteq> None"
      using chain_root [OF assms(1) Suc.prems(2)] chain_version [OF assms(1) q(1)] q(3) Suc.prems(4) by fastforce
    then obtain p' where p': "df_previous s = Some p'" by blast
    then obtain q' where q': "q' \<in> set t" "df_id q' = p'" "df_version s = df_version q' + 1" "df_lineage s = df_lineage q'"
      using chain_previous [OF assms(1) Suc.prems(2)] by metis
    have "n = nat (df_version q)" using Suc.hyps(2) q(3) by simp
    then have "q = q'" by (rule Suc.hyps(1)) (use q q' Suc.prems in simp_all)
    then have "df_previous r = df_previous s" using Some p' q(2) q'(2) by simp
    with Some Suc.prems(1,2) assms(1) show ?thesis unfolding chain_def by blast
  qed
qed

text \<open>Every earlier version is there.\<close>

lemma chain_gapless:
  assumes "chain t" "r \<in> set t" "1 \<le> k" "k \<le> df_version r"
  shows "\<exists>s \<in> set t. df_lineage s = df_lineage r \<and> df_version s = k"
  using assms(2-)
proof (induction "nat (df_version r - k)" arbitrary: r)
  case 0
  then show ?case by auto
next
  case (Suc n)
  then have "df_version r \<noteq> 1" by auto
  with chain_root [OF assms(1) Suc.prems(1)] obtain p where "df_previous r = Some p" by fastforce
  then obtain q where q: "q \<in> set t" "df_version r = df_version q + 1" "df_lineage r = df_lineage q"
    using chain_previous [OF assms(1) Suc.prems(1)] by metis
  have "\<exists>s \<in> set t. df_lineage s = df_lineage q \<and> df_version s = k"
    by (rule Suc.hyps(1)) (use Suc.hyps(2) Suc.prems q in auto)
  with q(3) show ?case by simp
qed

text \<open>What a new row satisfies besides the constraints of the table.\<close>

definition lawful :: "'a definition_row_scheme \<Rightarrow> 'a definition_row_scheme list \<Rightarrow> bool" where
  "lawful r t \<longleftrightarrow> df_previous r \<noteq> Some (df_id r) \<and>
     (case df_previous r of
        None \<Rightarrow> df_version r = 1 \<and> df_lineage r \<notin> df_lineage ` set t
      | Some p \<Rightarrow> \<forall>q \<in> set t. df_id q = p \<longrightarrow> df_version r = df_version q + 1 \<and> df_lineage r = df_lineage q)"

lemma insert_definition_Inr:
  "insert_definition what r t = Inr t' \<longleftrightarrow> df_id r \<notin> df_id ` set t \<and>
     (df_previous r = None \<or> df_previous r \<notin> df_previous ` set t) \<and>
     (df_previous r = None \<or> the (df_previous r) \<in> df_id ` set (t @ [r])) \<and> t' = t @ [r]"
  by (auto simp: insert_definition_def)

lemma insert_chain:
  assumes c: "chain t" and i: "insert_definition what r t = Inr t'" and l: "lawful r t"
  shows "chain t'"
proof -
  note ins = i [unfolded insert_definition_Inr]
  have row: "1 \<le> df_version r \<and> (case df_previous r of
        None \<Rightarrow> df_version r = 1
      | Some p \<Rightarrow> \<exists>q \<in> set t'. df_id q = p \<and> df_version r = df_version q + 1 \<and> df_lineage r = df_lineage q)"
  proof (cases "df_previous r")
    case None
    with l show ?thesis by (simp add: lawful_def)
  next
    case (Some p)
    with ins l obtain q where q: "q \<in> set t" "df_id q = p" by (auto simp: lawful_def)
    with l Some have "df_version r = df_version q + 1" "df_lineage r = df_lineage q" by (auto simp: lawful_def)
    with q chain_version [OF c q(1)] Some ins show ?thesis by auto
  qed
  have old: "1 \<le> df_version s \<and> (case df_previous s of
        None \<Rightarrow> df_version s = 1
      | Some p \<Rightarrow> \<exists>q \<in> set t'. df_id q = p \<and> df_version s = df_version q + 1 \<and> df_lineage s = df_lineage q)"
    if s: "s \<in> set t" for s
  proof (cases "df_previous s")
    case None
    with chain_root [OF c s] show ?thesis by simp
  next
    case (Some p)
    then obtain q where "q \<in> set t" "df_id q = p" "df_version s = df_version q + 1" "df_lineage s = df_lineage q"
      using chain_previous [OF c s] by metis
    with Some ins chain_version [OF c s] show ?thesis by auto
  qed
  show ?thesis
    unfolding chain_def
  proof (intro conjI ballI impI)
    show "distinct (map df_id t')" using c ins by (auto simp: chain_def)
  next
    fix s assume "s \<in> set t'"
    then have "s = r \<or> s \<in> set t" using ins by auto
    with row old show "1 \<le> df_version s" "case df_previous s of
        None \<Rightarrow> df_version s = 1
      | Some p \<Rightarrow> \<exists>q \<in> set t'. df_id q = p \<and> df_version s = df_version q + 1 \<and> df_lineage s = df_lineage q" by auto
  next
    fix a b assume ab: "a \<in> set t'" "b \<in> set t'" "df_previous a = df_previous b" "df_previous a \<noteq> None"
    have "a \<in> set t \<or> a = r" "b \<in> set t \<or> b = r" using ab ins by auto
    moreover have "df_previous s \<noteq> df_previous r" if "df_previous r \<noteq> None" "s \<in> set t" for s
      using ins that by (metis imageI)
    moreover have "a = b" if "a \<in> set t" "b \<in> set t"
      using c ab(3,4) that unfolding chain_def by blast
    ultimately show "a = b" using ab(3,4) by metis
  next
    fix a b assume ab: "a \<in> set t'" "b \<in> set t'" "df_previous a = None" "df_previous b = None" "df_lineage a = df_lineage b"
    have "a \<in> set t \<or> a = r" "b \<in> set t \<or> b = r" using ab ins by auto
    moreover have "df_lineage s \<noteq> df_lineage r" if "df_previous r = None" "s \<in> set t" for s
      using l that by (simp add: lawful_def) (metis imageI)
    moreover have "a = b" if "a \<in> set t" "b \<in> set t"
      using c ab(3-5) that unfolding chain_def by blast
    ultimately show "a = b" using ab(3-5) by metis
  qed
qed

lemma delete_definition_Inr:
  "delete_definition what ref i t = Inr t' \<longleftrightarrow> i \<in> df_id ` set t \<and> \<not> ref \<and>
     (\<forall>r \<in> set t. df_id r = i \<or> df_previous r \<noteq> Some i) \<and> t' = filter (\<lambda>r. df_id r \<noteq> i) t"
  by (auto simp: delete_definition_def count_where_0_iff)

lemma delete_chain:
  assumes c: "chain t" and d: "delete_definition what ref i t = Inr t'"
  shows "chain t'"
proof -
  note del = d [unfolded delete_definition_Inr]
  have prev: "case df_previous s of
        None \<Rightarrow> df_version s = 1
      | Some p \<Rightarrow> \<exists>q \<in> set t'. df_id q = p \<and> df_version s = df_version q + 1 \<and> df_lineage s = df_lineage q"
    if s: "s \<in> set t'" for s
  proof (cases "df_previous s")
    case None
    with chain_root [OF c] s del show ?thesis by auto
  next
    case (Some p)
    from s del have "s \<in> set t" "df_id s \<noteq> i" by auto
    with Some obtain q where q: "q \<in> set t" "df_id q = p" "df_version s = df_version q + 1" "df_lineage s = df_lineage q"
      using chain_previous [OF c] by metis
    have "p \<noteq> i" using del \<open>s \<in> set t\<close> \<open>df_id s \<noteq> i\<close> Some by auto
    with q del Some show ?thesis by auto
  qed
  show ?thesis
    unfolding chain_def
  proof (intro conjI ballI impI)
    show "distinct (map df_id t')" using c del by (auto simp: chain_def distinct_map intro: inj_on_subset)
  next
    fix s assume s: "s \<in> set t'"
    show "1 \<le> df_version s" using chain_version [OF c] s del by auto
    show "case df_previous s of
        None \<Rightarrow> df_version s = 1
      | Some p \<Rightarrow> \<exists>q \<in> set t'. df_id q = p \<and> df_version s = df_version q + 1 \<and> df_lineage s = df_lineage q"
      by (rule prev [OF s])
  next
    fix a b assume "a \<in> set t'" "b \<in> set t'" "df_previous a = df_previous b" "df_previous a \<noteq> None"
    with del c show "a = b" unfolding chain_def by auto
  next
    fix a b assume "a \<in> set t'" "b \<in> set t'" "df_previous a = None" "df_previous b = None" "df_lineage a = df_lineage b"
    with del c show "a = b" unfolding chain_def by auto
  qed
qed

section \<open>The library's invariant\<close>

definition refs_ok :: "RefModel list \<Rightarrow> uid list \<Rightarrow> uid list \<Rightarrow> bool" where
  "refs_ok t owners targets \<longleftrightarrow> distinct (map (\<lambda>r. (rf_owner r, rf_target r)) t) \<and>
     (\<forall>r \<in> set t. rf_owner r \<in> set owners \<and> rf_target r \<in> set targets)"

definition users_ok :: "lib_db \<Rightarrow> bool" where
  "users_ok d \<longleftrightarrow> set (lb_requests d) \<subseteq> set (workflow_ids d) \<and>
     wm_definition ` set (lb_instances d) \<subseteq> set (workflow_ids d) \<and>
     cs_definition ` set (lb_schedules d) \<subseteq> set (workflow_ids d) \<and>
     (\<forall>n \<in> set (lb_node_instances d). \<forall>i. nm_definition n = Some i \<longrightarrow> i \<in> set (node_ids d))"

definition lib_inv :: "lib_db \<Rightarrow> bool" where
  "lib_inv d \<longleftrightarrow> chain (lb_nodes d) \<and> chain (lb_workflows d) \<and> distinct (form_ids d) \<and>
     refs_ok (lb_node_refs d) (workflow_ids d) (node_ids d) \<and>
     refs_ok (lb_workflow_forms d) (workflow_ids d) (form_ids d) \<and>
     refs_ok (lb_node_forms d) (node_ids d) (form_ids d) \<and> users_ok d"

lemma distinct_map_filtered: "distinct (map f t) \<Longrightarrow> distinct (map f (filter P t))"
  by (induction t) auto

lemma replace_refs_ok:
  assumes r: "replace_refs what owners targets now i ids t = Inr t'" and ok: "refs_ok t owners targets"
  shows "refs_ok t' owners targets"
proof -
  let ?key = "\<lambda>r. (rf_owner r, rf_target r)"
  let ?kept = "filter (\<lambda>r. rf_owner r \<noteq> i) t"
  have kept: "refs_ok ?kept owners targets"
    using ok by (auto simp: refs_ok_def intro: distinct_map_filtered)
  show ?thesis
  proof (cases "ids = []")
    case True
    with r kept show ?thesis by (simp add: replace_refs_def)
  next
    case False
    with r have d: "distinct ids" "i \<in> set owners" "set ids \<subseteq> set targets"
      and t': "t' = ?kept @ map (\<lambda>j. \<lparr>rf_owner = i, rf_target = j, rf_created_at = now\<rparr>) ids"
      by (auto simp: replace_refs_def Let_def split: if_split_asm)
    have "distinct (map ?key (map (\<lambda>j. \<lparr>rf_owner = i, rf_target = j, rf_created_at = now\<rparr>) ids))"
      using d(1) by (simp add: comp_def distinct_map inj_on_def)
    then show ?thesis using kept d unfolding t' refs_ok_def by auto
  qed
qed

lemma refs_ok_mono:
  "refs_ok t owners targets \<Longrightarrow> set owners \<subseteq> set owners' \<Longrightarrow> set targets \<subseteq> set targets' \<Longrightarrow> refs_ok t owners' targets'"
  by (auto simp: refs_ok_def)

lemma refs_ok_filter:
  "refs_ok t owners targets \<Longrightarrow> (\<And>r. r \<in> set t \<Longrightarrow> P r \<Longrightarrow> rf_owner r \<in> set owners' \<and> rf_target r \<in> set targets') \<Longrightarrow>
   refs_ok (filter P t) owners' targets'"
  by (auto simp: refs_ok_def intro: distinct_map_filtered)

section \<open>Steps\<close>

text \<open>
  What the library and the rest of the program do to its tables: the writes of the repositories,
  and other tables gaining and losing rows within their foreign keys.
\<close>

text \<open>The references a definition is stored with are those its content names.\<close>

definition refs_of_content :: "parse_env \<Rightarrow> uid \<Rightarrow> uid list \<Rightarrow> lib_db \<Rightarrow> bool" where
  "refs_of_content env i ids d \<longleftrightarrow> (\<forall>r \<in> set (lb_workflows d). df_id r = i \<longrightarrow>
     (\<forall>wc. ParseWorkflowContent env (df_content r) = Inr wc \<longrightarrow> ids = collectNodeRefs wc))"

inductive lib_step :: "parse_env \<Rightarrow> lib_db \<Rightarrow> lib_db \<Rightarrow> bool" for env where
  NodeCreated: "node_Create r d = Inr (u, d') \<Longrightarrow> lawful r (lb_nodes d) \<Longrightarrow> lib_step env d d'"
| NodeDeleted: "node_Delete i d = Inr (u, d') \<Longrightarrow> lib_step env d d'"
| WorkflowCreated: "workflow_Create s d = Inr (u, d') \<Longrightarrow> lawful s (lb_workflows d) \<Longrightarrow> lib_step env d d'"
| WorkflowDeleted: "workflow_Delete i d = Inr (u, d') \<Longrightarrow> lib_step env d d'"
| NodeRefsSet: "SetNodeRefs now i ids d = Inr (u, d') \<Longrightarrow> refs_of_content env i ids d \<Longrightarrow> lib_step env d d'"
| WorkflowFormsSet: "SaveWorkflowFormRefs now i ids d = Inr (u, d') \<Longrightarrow> lib_step env d d'"
| NodeFormsSet: "SaveNodeFormRefs now i ids d = Inr (u, d') \<Longrightarrow> lib_step env d d'"
| FormCreated: "form_Create i now name schema ui d = Inr (f, d') \<Longrightarrow> lib_step env d d'"
| FormUpdated: "form_Update i now name schema ui d = Inr (f, d') \<Longrightarrow> lib_step env d d'"
| FormDeleted: "form_Delete i d = Inr (u, d') \<Longrightarrow> lib_step env d d'"
| Used: "users_ok (d\<lparr>lb_requests := rs, lb_instances := ms, lb_schedules := ss, lb_node_instances := ns\<rparr>) \<Longrightarrow>
    lib_step env d (d\<lparr>lb_requests := rs, lb_instances := ms, lb_schedules := ss, lb_node_instances := ns\<rparr>)"

lemma users_ok_mono:
  "users_ok d \<Longrightarrow> set (workflow_ids d) \<subseteq> set (workflow_ids d') \<Longrightarrow> set (node_ids d) \<subseteq> set (node_ids d') \<Longrightarrow>
   lb_requests d' = lb_requests d \<Longrightarrow> lb_instances d' = lb_instances d \<Longrightarrow> lb_schedules d' = lb_schedules d \<Longrightarrow>
   lb_node_instances d' = lb_node_instances d \<Longrightarrow> users_ok d'"
  unfolding users_ok_def by (elim conjE, intro conjI) (metis subset_trans, metis subset_trans, metis subset_trans, metis subsetD)

lemma users_ok_frame [simp]:
  "users_ok (d\<lparr>lb_forms := fs\<rparr>) = users_ok d" "users_ok (d\<lparr>lb_node_refs := t\<rparr>) = users_ok d"
  "users_ok (d\<lparr>lb_workflow_forms := t\<rparr>) = users_ok d" "users_ok (d\<lparr>lb_node_forms := t\<rparr>) = users_ok d"
  by (simp_all add: users_ok_def)

lemma node_Create_inv:
  assumes n: "node_Create r d = Inr (u, d')" and l: "lawful r (lb_nodes d)" and i: "lib_inv d"
  shows "lib_inv d'"
proof -
  from n obtain t where t: "insert_definition ''node definition'' r (lb_nodes d) = Inr t" and d': "d' = d\<lparr>lb_nodes := t\<rparr>"
    by (auto simp: node_Create_def bindR_Inr_iff)
  have c: "chain t" by (rule insert_chain [OF _ t l]) (use i in \<open>simp add: lib_inv_def\<close>)
  have ids: "set (node_ids d) \<subseteq> set (map df_id t)" using t by (auto simp: insert_definition_Inr)
  have "refs_ok (lb_node_refs d) (workflow_ids d) (map df_id t)"
    by (rule refs_ok_mono [of _ "workflow_ids d" "node_ids d"]) (use i ids in \<open>auto simp: lib_inv_def\<close>)
  moreover have "refs_ok (lb_node_forms d) (map df_id t) (form_ids d)"
    by (rule refs_ok_mono [of _ "node_ids d" "form_ids d"]) (use i ids in \<open>auto simp: lib_inv_def\<close>)
  ultimately show ?thesis using i c ids users_ok_mono [of d d'] by (simp add: d' lib_inv_def)
qed

lemma workflow_Create_inv:
  assumes n: "workflow_Create r d = Inr (u, d')" and l: "lawful r (lb_workflows d)" and i: "lib_inv d"
  shows "lib_inv d'"
proof -
  from n obtain t where t: "insert_definition ''workflow definition'' r (lb_workflows d) = Inr t"
    and d': "d' = d\<lparr>lb_workflows := t\<rparr>"
    by (auto simp: workflow_Create_def bindR_Inr_iff)
  have c: "chain t" by (rule insert_chain [OF _ t l]) (use i in \<open>simp add: lib_inv_def\<close>)
  have ids: "set (workflow_ids d) \<subseteq> set (map df_id t)" using t by (auto simp: insert_definition_Inr)
  have "refs_ok (lb_node_refs d) (map df_id t) (node_ids d)"
    by (rule refs_ok_mono [of _ "workflow_ids d" "node_ids d"]) (use i ids in \<open>auto simp: lib_inv_def\<close>)
  moreover have "refs_ok (lb_workflow_forms d) (map df_id t) (form_ids d)"
    by (rule refs_ok_mono [of _ "workflow_ids d" "form_ids d"]) (use i ids in \<open>auto simp: lib_inv_def\<close>)
  ultimately show ?thesis using i c ids users_ok_mono [of d d'] by (simp add: d' lib_inv_def)
qed

lemma node_Delete_inv:
  assumes n: "node_Delete i d = Inr (u, d')" and i: "lib_inv d"
  shows "lib_inv d'"
proof -
  from n obtain t where free: "\<forall>r \<in> set (lb_node_refs d). rf_target r \<noteq> i"
      "\<forall>n \<in> set (lb_node_instances d). nm_definition n \<noteq> Some i"
    and t: "delete_definition ''node definition'' False i (lb_nodes d) = Inr t"
    and d': "d' = d\<lparr>lb_node_forms := filter (\<lambda>r. rf_owner r \<noteq> i) (lb_node_forms d), lb_nodes := t\<rparr>"
    by (auto simp: node_Delete_def bindR_Inr_iff count_where_0_iff split: if_split_asm)
  have ids: "set (map df_id t) = set (node_ids d) - {i}" using t by (auto simp: delete_definition_Inr)
  have "chain t" by (rule delete_chain [OF _ t]) (use i in \<open>simp add: lib_inv_def\<close>)
  moreover have "refs_ok (lb_node_refs d) (workflow_ids d) (map df_id t)"
    using i free(1) ids by (auto simp: lib_inv_def refs_ok_def)
  moreover have "refs_ok (filter (\<lambda>r. rf_owner r \<noteq> i) (lb_node_forms d)) (map df_id t) (form_ids d)"
    by (rule refs_ok_filter [of _ "node_ids d" "form_ids d"]) (use i ids in \<open>auto simp: lib_inv_def refs_ok_def\<close>)
  moreover have "users_ok d'" using i free(2) ids unfolding d' by (auto simp: lib_inv_def users_ok_def)
  ultimately show ?thesis using i unfolding d' by (simp add: lib_inv_def)
qed

lemma workflow_Delete_inv:
  assumes n: "workflow_Delete i d = Inr (u, d')" and i: "lib_inv d"
  shows "lib_inv d'"
proof -
  from n obtain t where free: "i \<notin> set (lb_requests d)" "\<forall>m \<in> set (lb_instances d). wm_definition m \<noteq> i"
      "\<forall>s \<in> set (lb_schedules d). cs_definition s \<noteq> i" "\<forall>r \<in> set (lb_node_refs d). rf_owner r \<noteq> i"
    and t: "delete_definition ''workflow definition'' False i (lb_workflows d) = Inr t"
    and d': "d' = d\<lparr>lb_workflow_forms := filter (\<lambda>r. rf_owner r \<noteq> i) (lb_workflow_forms d), lb_workflows := t\<rparr>"
    by (auto simp: workflow_Delete_def bindR_Inr_iff count_where_0_iff delete_definition_Inr split: if_split_asm)
  have ids: "set (map df_id t) = set (workflow_ids d) - {i}" using t by (auto simp: delete_definition_Inr)
  have "chain t" by (rule delete_chain [OF _ t]) (use i in \<open>simp add: lib_inv_def\<close>)
  moreover have "refs_ok (lb_node_refs d) (map df_id t) (node_ids d)"
    using i free(4) ids by (auto simp: lib_inv_def refs_ok_def)
  moreover have "refs_ok (filter (\<lambda>r. rf_owner r \<noteq> i) (lb_workflow_forms d)) (map df_id t) (form_ids d)"
    by (rule refs_ok_filter [of _ "workflow_ids d" "form_ids d"]) (use i ids in \<open>auto simp: lib_inv_def refs_ok_def\<close>)
  moreover have "users_ok d'" using i free(1-3) ids unfolding d' by (auto simp: lib_inv_def users_ok_def)
  ultimately show ?thesis using i unfolding d' by (simp add: lib_inv_def)
qed

lemma refs_set_inv:
  "SetNodeRefs now i ids d = Inr (u, d') \<Longrightarrow> lib_inv d \<Longrightarrow> lib_inv d'"
  "SaveWorkflowFormRefs now i ids d = Inr (u, d') \<Longrightarrow> lib_inv d \<Longrightarrow> lib_inv d'"
  "SaveNodeFormRefs now i ids d = Inr (u, d') \<Longrightarrow> lib_inv d \<Longrightarrow> lib_inv d'"
  by (auto simp: SetNodeRefs_def SaveWorkflowFormRefs_def SaveNodeFormRefs_def bindR_Inr_iff lib_inv_def
      dest: replace_refs_ok)

lemma form_Create_inv: "form_Create i now name schema ui d = Inr (f, d') \<Longrightarrow> lib_inv d \<Longrightarrow> lib_inv d'"
proof -
  assume f: "form_Create i now name schema ui d = Inr (f, d')" and inv: "lib_inv d"
  then obtain r where d': "d' = d\<lparr>lb_forms := lb_forms d @ [r]\<rparr>" and r: "fo_id r \<notin> set (form_ids d)"
    by (auto simp: form_Create_def Let_def create_def split: if_split_asm)
  have "set (form_ids d) \<subseteq> set (form_ids d')" by (auto simp: d')
  then have "refs_ok (lb_workflow_forms d) (workflow_ids d) (form_ids d')"
    "refs_ok (lb_node_forms d) (node_ids d) (form_ids d')"
    using inv refs_ok_mono [of _ _ "form_ids d" _ "form_ids d'"] by (auto simp: lib_inv_def)
  then show ?thesis using inv r by (simp add: d' lib_inv_def)
qed

lemma form_Update_ids:
  "form_Update i now name schema ui d = Inr (f, d') \<Longrightarrow> \<exists>t. d' = d\<lparr>lb_forms := t\<rparr> \<and> map fo_id t = form_ids d"
  by (auto simp: form_Update_def form_GetByID_def map_update_where_key split: if_split_asm option.splits)

lemma form_Update_inv: "form_Update i now name schema ui d = Inr (f, d') \<Longrightarrow> lib_inv d \<Longrightarrow> lib_inv d'"
  by (drule form_Update_ids) (auto simp: lib_inv_def)

lemma form_Delete_inv:
  assumes n: "form_Delete i d = Inr (u, d')" and i: "lib_inv d"
  shows "lib_inv d'"
proof -
  from n have free: "\<forall>r \<in> set (lb_workflow_forms d). rf_target r \<noteq> i" "\<forall>r \<in> set (lb_node_forms d). rf_target r \<noteq> i"
    and d': "d' = d\<lparr>lb_forms := filter (\<lambda>r. fo_id r \<noteq> i) (lb_forms d)\<rparr>"
    by (auto simp: form_Delete_def count_where_0_iff split: if_split_asm)
  have ids: "set (form_ids d') = set (form_ids d) - {i}" by (auto simp: d')
  have "refs_ok (lb_workflow_forms d) (workflow_ids d) (form_ids d')"
    "refs_ok (lb_node_forms d) (node_ids d) (form_ids d')"
    using i free ids by (auto simp: lib_inv_def refs_ok_def)
  moreover have "distinct (form_ids d')" using i by (auto simp: d' lib_inv_def intro: distinct_map_filtered)
  ultimately show ?thesis using i by (simp add: lib_inv_def d')
qed

lemma lib_step_inv: "lib_step env d d' \<Longrightarrow> lib_inv d \<Longrightarrow> lib_inv d'"
proof (induction rule: lib_step.induct)
  case (Used d rs ms ss ns)
  then show ?case by (simp add: lib_inv_def)
qed (auto elim: node_Create_inv node_Delete_inv workflow_Create_inv workflow_Delete_inv refs_set_inv
    form_Create_inv form_Update_inv form_Delete_inv)

abbreviation lib_steps :: "parse_env \<Rightarrow> lib_db \<Rightarrow> lib_db \<Rightarrow> bool" where
  "lib_steps env \<equiv> (lib_step env)\<^sup>*\<^sup>*"

lemma lib_steps_inv: "lib_steps env d d' \<Longrightarrow> lib_inv d \<Longrightarrow> lib_inv d'"
  by (induction rule: rtranclp_induct) (auto intro: lib_step_inv)

end
