(* ===== verification/DefinitionTrees.thy ===== *)
theory DefinitionTrees
  imports DefinitionSafety
begin

text \<open>
  The materialized tree of a stored definition is a constant: once the references of the
  definition are stored, no step of the library changes what they name.
\<close>

section \<open>What materialization reads\<close>

definition reads_alike :: "(uid \<Rightarrow> 'e + NodeDefinition) \<Rightarrow> (uid \<Rightarrow> 'e + NodeDefinition) \<Rightarrow> NodeContent list \<Rightarrow> bool" where
  "reads_alike get get' ns \<longleftrightarrow>
     (\<forall>n \<in> set ns. nDefinitionID (nfields n) \<noteq> [] \<longrightarrow> get (nDefinitionID (nfields n)) = get' (nDefinitionID (nfields n)))"

lemma materializeNode_reads: "reads_alike get get' (tree_nodes n) \<Longrightarrow> materializeNode env get n = materializeNode env get' n"
proof (induction n rule: node_induct)
  case (node n)
  show ?case
  proof (cases "nDefinitionID (nfields n) = []")
    case False
    moreover have "n \<in> set (tree_nodes n)" by (simp add: tree_nodes_children)
    ultimately have "get (nDefinitionID (nfields n)) = get' (nDefinitionID (nfields n))"
      using node.prems by (auto simp: reads_alike_def)
    then have "resolve_reference env get n = resolve_reference env get' n" by (simp add: resolve_reference_def Let_def)
    with False show ?thesis by (simp add: materializeNode.simps [of env _ n])
  next
    case True
    show ?thesis
    proof (cases "group_of n")
      case None
      with True show ?thesis by (simp add: materializeNode.simps [of env _ n])
    next
      case (Some g)
      have "materializeNode env get c = materializeNode env get' c" if "c \<in> set (gNodes g)" for c
      proof (rule node.IH)
        show c: "c \<in> set (children n)" using that Some by (simp add: children_def)
        show "reads_alike get get' (tree_nodes c)" using node.prems c
          by (subst (asm) tree_nodes_children) (auto simp: reads_alike_def forest_nodes_def)
      qed
      then have "mapR (materializeNode env get) (gNodes g) = mapR (materializeNode env get') (gNodes g)"
        by (intro mapR_cong) simp_all
      with True Some show ?thesis by (simp add: materializeNode.simps [of env _ n])
    qed
  qed
qed

lemma set_dedupeIDs: "set (dedupeIDs sets) = set (concat sets)"
proof -
  have "set (fold (\<lambda>i out. if i \<in> set out then out else out @ [i]) is out) = set out \<union> set is" for "is" out :: "uid list"
    by (induction "is" arbitrary: out) auto
  then show ?thesis by (simp add: dedupeIDs_def)
qed

lemma Materialize_reads:
  assumes "\<forall>i \<in> set (collectNodeRefs wc). get i = get' i"
  shows "Materialize env get wc = Materialize env get' wc"
proof -
  have "reads_alike get get' (tree_nodes n)" if "n \<in> set (wNodes wc)" for n
    using assms that by (auto simp: reads_alike_def collectNodeRefs_def set_dedupeIDs forest_nodes_def)
  then have "mapR (materializeNode env get) (wNodes wc) = mapR (materializeNode env get') (wNodes wc)"
    by (intro mapR_cong) (auto intro: materializeNode_reads)
  then show ?thesis by (simp add: Materialize_def)
qed

section \<open>Stored references\<close>

text \<open>A definition whose references are stored, in tables that answer for them as \<open>get\<close> does.\<close>

definition settled ::
  "definition_row \<Rightarrow> WorkflowContent \<Rightarrow> (uid \<Rightarrow> svc_err + NodeDefinition) \<Rightarrow> lib_db \<Rightarrow> bool" where
  "settled r wc get d \<longleftrightarrow> r \<in> set (lb_workflows d) \<and>
     set (collectNodeRefs wc) \<subseteq> set (WorkflowDefinitionNodeRefs (df_id r) d) \<and>
     (\<forall>i \<in> set (collectNodeRefs wc). node_source d i = get i)"

lemma node_source_eq:
  "node_source d i = (case by_key df_id i (lb_nodes d) of
     None \<Rightarrow> Inl (NotFound (''node definition '' @ i)) | Some r \<Rightarrow> Inr r)"
  by (simp add: node_source_def node_GetByID_def get_definition_def split: option.split)

lemma by_key_filter: "(\<And>r. k r = x \<Longrightarrow> P r) \<Longrightarrow> by_key k x (filter P t) = by_key k x t"
  by (induction t) (auto simp: by_key_Cons)

lemma settled_frame:
  "settled r wc get d \<Longrightarrow> lb_workflows d' = lb_workflows d \<Longrightarrow> lb_node_refs d' = lb_node_refs d \<Longrightarrow>
   lb_nodes d' = lb_nodes d \<Longrightarrow> settled r wc get d'"
  by (simp add: settled_def WorkflowDefinitionNodeRefs_def node_source_eq)

lemma settled_node_created:
  assumes s: "settled r wc get d" and inv: "lib_inv d" and n: "node_Create n d = Inr (u, d')"
  shows "settled r wc get d'"
proof -
  from n have d': "d' = d\<lparr>lb_nodes := lb_nodes d @ [n]\<rparr>"
    by (auto simp: node_Create_def bindR_Inr_iff insert_definition_Inr)
  have "node_source d' i = node_source d i" if "i \<in> set (collectNodeRefs wc)" for i
  proof -
    from that s have "i \<in> rf_target ` set (lb_node_refs d)"
      by (auto simp: settled_def WorkflowDefinitionNodeRefs_def refs_of_def)
    then have "i \<in> set (node_ids d)" using inv by (auto simp: lib_inv_def refs_ok_def)
    then have "by_key df_id i (lb_nodes d) \<noteq> None" by (simp add: by_key_None_iff)
    then show ?thesis by (auto simp: d' node_source_eq by_key_append)
  qed
  with s show ?thesis by (simp add: settled_def d' WorkflowDefinitionNodeRefs_def)
qed

lemma settled_node_deleted:
  assumes s: "settled r wc get d" and n: "node_Delete i d = Inr (u, d')"
  shows "settled r wc get d'"
proof -
  from n have free: "\<forall>f \<in> set (lb_node_refs d). rf_target f \<noteq> i"
    and d': "d' = d\<lparr>lb_node_forms := filter (\<lambda>f. rf_owner f \<noteq> i) (lb_node_forms d), lb_nodes := filter (\<lambda>r. df_id r \<noteq> i) (lb_nodes d)\<rparr>"
    by (auto simp: node_Delete_def bindR_Inr_iff count_where_0_iff delete_definition_Inr split: if_split_asm)
  have "node_source d' j = node_source d j" if "j \<in> set (collectNodeRefs wc)" for j
  proof -
    from that s free have "j \<noteq> i" by (auto simp: settled_def WorkflowDefinitionNodeRefs_def refs_of_def)
    then have "by_key df_id j (lb_nodes d') = by_key df_id j (lb_nodes d)" unfolding d' by (simp add: by_key_filter)
    then show ?thesis by (simp add: node_source_eq)
  qed
  with s show ?thesis by (simp add: settled_def d' WorkflowDefinitionNodeRefs_def)
qed

lemma settled_workflow_deleted:
  assumes s: "settled r wc get d" and refs: "collectNodeRefs wc \<noteq> []" and n: "workflow_Delete i d = Inr (u, d')"
  shows "settled r wc get d'"
proof -
  from n have free: "\<forall>f \<in> set (lb_node_refs d). rf_owner f \<noteq> i"
    and d': "d' = d\<lparr>lb_workflow_forms := filter (\<lambda>f. rf_owner f \<noteq> i) (lb_workflow_forms d),
      lb_workflows := filter (\<lambda>r. df_id r \<noteq> i) (lb_workflows d)\<rparr>"
    by (auto simp: workflow_Delete_def bindR_Inr_iff delete_definition_Inr split: if_split_asm)
  from s refs have "\<exists>f \<in> set (lb_node_refs d). rf_owner f = df_id r"
    by (cases "collectNodeRefs wc") (auto simp: settled_def WorkflowDefinitionNodeRefs_def refs_of_def)
  with free have "df_id r \<noteq> i" by auto
  with s show ?thesis by (simp add: settled_def d' WorkflowDefinitionNodeRefs_def node_source_eq)
qed

lemma settled_refs_set:
  assumes s: "settled r wc get d" and wc: "ParseWorkflowContent env (df_content r) = Inr wc"
    and n: "SetNodeRefs now i ids d = Inr (u, d')" and ids: "refs_of_content env i ids d"
  shows "settled r wc get d'"
proof -
  from n have d': "d' = d\<lparr>lb_node_refs := filter (\<lambda>f. rf_owner f \<noteq> i) (lb_node_refs d) @
      map (\<lambda>j. \<lparr>rf_owner = i, rf_target = j, rf_created_at = now\<rparr>) ids\<rparr>"
    by (auto simp: SetNodeRefs_def bindR_Inr_iff replace_refs_def Let_def split: if_split_asm)
  have "set (collectNodeRefs wc) \<subseteq> set (WorkflowDefinitionNodeRefs (df_id r) d')"
  proof (cases "df_id r = i")
    case True
    with s wc ids have "ids = collectNodeRefs wc" by (auto simp: refs_of_content_def settled_def)
    with True show ?thesis by (auto simp: d' WorkflowDefinitionNodeRefs_def refs_of_def image_iff)
  next
    case False
    with s show ?thesis
      by (fastforce simp: d' settled_def WorkflowDefinitionNodeRefs_def refs_of_def)
  qed
  with s show ?thesis by (simp add: settled_def d' node_source_eq)
qed

lemma settled_step:
  assumes "lib_step env d d'" "lib_inv d" "settled r wc get d" "collectNodeRefs wc \<noteq> []"
    and "ParseWorkflowContent env (df_content r) = Inr wc"
  shows "settled r wc get d'"
  using assms
proof (induction rule: lib_step.induct)
  case (NodeCreated n d u d')
  then show ?case by (blast intro: settled_node_created)
next
  case (NodeDeleted i d u d')
  then show ?case by (blast intro: settled_node_deleted)
next
  case (WorkflowCreated s d u d')
  from WorkflowCreated.hyps(1) have "d' = d\<lparr>lb_workflows := lb_workflows d @ [s]\<rparr>"
    by (auto simp: workflow_Create_def bindR_Inr_iff insert_definition_Inr)
  with WorkflowCreated.prems(2) show ?case by (simp add: settled_def WorkflowDefinitionNodeRefs_def node_source_eq)
next
  case (WorkflowDeleted i d u d')
  then show ?case by (blast intro: settled_workflow_deleted)
next
  case (NodeRefsSet now i ids d u d')
  then show ?case by (blast intro: settled_refs_set)
next
  case (WorkflowFormsSet now i ids d u d')
  then show ?case by (auto intro: settled_frame simp: SaveWorkflowFormRefs_def bindR_Inr_iff)
next
  case (NodeFormsSet now i ids d u d')
  then show ?case by (auto intro: settled_frame simp: SaveNodeFormRefs_def bindR_Inr_iff)
next
  case (FormCreated i now name schema ui d f d')
  then show ?case by (auto intro: settled_frame simp: form_Create_def Let_def split: sum.splits)
next
  case (FormUpdated i now name schema ui d f d')
  then show ?case by (auto intro: settled_frame dest!: form_Update_ids)
next
  case (FormDeleted i d u d')
  then show ?case by (auto intro: settled_frame simp: form_Delete_def split: if_split_asm)
next
  case (Used d rs ms ss ns)
  then show ?case by (auto intro: settled_frame)
qed

lemma settled_steps:
  assumes "lib_steps env d d'" "lib_inv d" "settled r wc get d" "collectNodeRefs wc \<noteq> []"
    and "ParseWorkflowContent env (df_content r) = Inr wc"
  shows "settled r wc get d'"
  using assms(1)
proof (induction rule: rtranclp_induct)
  case (step y z)
  with lib_steps_inv [OF step.hyps(1) assms(2)] assms(4,5) show ?case by (blast intro: settled_step)
qed (use assms in simp)

lemma settled_tree: "settled r wc get d \<Longrightarrow> Materialize env (node_source d) wc = Materialize env get wc"
  by (rule Materialize_reads) (simp add: settled_def)

end
