(* ===== verification/LibraryLogic.thy ===== *)
theory LibraryLogic
  imports DefinitionTrees
begin

text \<open>
  A logic for the use cases of the definition library: what a use case establishes when other
  replicas change the tables before each of its calls, with rules for its calls, the operations
  that take no new identifier, and, once for both tables of definitions, the creation of a
  version.
\<close>

section \<open>Other replicas\<close>

text \<open>
  Every identifier in the library. A replica never takes an identifier another one generates
  later, an identifier never comes back for another row, and a replica creates no row under an
  identifier of this process: they are random UUIDs.
\<close>

definition lib_ids :: "lib_db \<Rightarrow> uid set" where
  "lib_ids d = df_id ` set (lb_nodes d) \<union> df_lineage ` set (lb_nodes d) \<union>
     df_id ` set (lb_workflows d) \<union> df_lineage ` set (lb_workflows d) \<union> set (form_ids d)"

definition same_rows :: "lib_db \<Rightarrow> lib_db \<Rightarrow> bool" where
  "same_rows d d' \<longleftrightarrow>
     (\<forall>r \<in> set (lb_nodes d). \<forall>s \<in> set (lb_nodes d'). df_id r = df_id s \<longrightarrow> r = s) \<and>
     (\<forall>r \<in> set (lb_workflows d). \<forall>s \<in> set (lb_workflows d'). df_id r = df_id s \<longrightarrow> r = s)"

definition peers_ok :: "library \<Rightarrow> bool" where
  "peers_ok la \<longleftrightarrow> inj (la_newid la) \<and>
     (\<forall>k d. lib_inv d \<longrightarrow> lib_steps (la_env la) d (la_moves la k d) \<and> same_rows d (la_moves la k d) \<and>
        (\<forall>j. la_newid la j \<notin> lib_ids d \<longrightarrow> la_newid la j \<notin> lib_ids (la_moves la k d)) \<and>
        (\<forall>j. \<forall>s \<in> set (lb_workflows (la_moves la k d)). df_id s = la_newid la j \<longrightarrow> s \<in> set (lb_workflows d)))"

definition good :: "library \<Rightarrow> lib_world \<Rightarrow> bool" where
  "good la w \<longleftrightarrow> lib_inv (lw_db w) \<and> (\<forall>j \<ge> lw_tick w. la_newid la j \<notin> lib_ids (lw_db w))"

text \<open>Identifiers generated at the ticks \<open>K\<close> and not yet used.\<close>

definition hold :: "library \<Rightarrow> nat set \<Rightarrow> lib_world \<Rightarrow> bool" where
  "hold la K w \<longleftrightarrow> (\<forall>k \<in> K. k < lw_tick w \<and> la_newid la k \<notin> lib_ids (lw_db w))"

lemma hold_empty [simp]: "hold la {} = (\<lambda>_. True)"
  by (simp add: hold_def fun_eq_iff)

section \<open>A logic of use cases\<close>

text \<open>A tree some reads of the tables after \<open>d\<close> give for definition \<open>i\<close>.\<close>

definition resolves :: "library \<Rightarrow> lib_db \<Rightarrow> uid \<Rightarrow> WorkflowContent \<Rightarrow> bool" where
  "resolves la d i t \<longleftrightarrow> (\<exists>d1 d2 r wc. lib_steps (la_env la) d d1 \<and> lib_steps (la_env la) d1 d2 \<and>
     r \<in> set (lb_workflows d1) \<and> df_id r = i \<and> ParseWorkflowContent (la_env la) (df_content r) = Inr wc \<and>
     Materialize (la_env la) (node_source d2) wc = Inr t)"

text \<open>The tables take steps, and the cache only gains such trees.\<close>

definition passes :: "library \<Rightarrow> lib_world \<Rightarrow> lib_world \<Rightarrow> bool" where
  "passes la w w' \<longleftrightarrow> lib_steps (la_env la) (lw_db w) (lw_db w') \<and>
     (\<forall>i t. (i, t) \<in> set (ca_items (lw_cache w')) \<longrightarrow>
        (i, t) \<in> set (ca_items (lw_cache w)) \<or> resolves la (lw_db w) i t)"

lemma resolves_before:
  assumes "lib_steps (la_env la) d d'" "resolves la d' i t"
  shows "resolves la d i t"
proof -
  from assms(2) obtain d1 d2 r wc where d: "lib_steps (la_env la) d' d1" "lib_steps (la_env la) d1 d2"
    "r \<in> set (lb_workflows d1)" "df_id r = i" "ParseWorkflowContent (la_env la) (df_content r) = Inr wc"
    "Materialize (la_env la) (node_source d2) wc = Inr t" unfolding resolves_def by blast
  have "lib_steps (la_env la) d d1" using assms(1) d(1) by (rule rtranclp_trans)
  with d show ?thesis unfolding resolves_def by blast
qed

lemma passes_trans: "passes la w w1 \<Longrightarrow> passes la w1 w2 \<Longrightarrow> passes la w w2"
  unfolding passes_def by (meson resolves_before rtranclp_trans)

lemma passes_steps [simp]: "lw_cache w' = lw_cache w \<Longrightarrow> passes la w w' = lib_steps (la_env la) (lw_db w) (lw_db w')"
  by (simp add: passes_def)

definition ltriple ::
  "library \<Rightarrow> (lib_world \<Rightarrow> bool) \<Rightarrow> (lib_world, 'a) state \<Rightarrow> ('a \<Rightarrow> lib_world \<Rightarrow> bool) \<Rightarrow> bool" where
  "ltriple la P m Q \<longleftrightarrow> (\<forall>w. good la w \<longrightarrow> P w \<longrightarrow>
     (case run_state m w of (r, w') \<Rightarrow> good la w' \<and> passes la w w' \<and> Q r w'))"

definition on_success :: "('a \<Rightarrow> lib_world \<Rightarrow> bool) \<Rightarrow> svc_err + 'a \<Rightarrow> lib_world \<Rightarrow> bool" where
  "on_success Q r w = (case r of Inl e \<Rightarrow> True | Inr x \<Rightarrow> Q x w)"

lemma on_success_simps [simp]: "on_success Q (Inl e) = (\<lambda>_. True)" "on_success Q (Inr x) = Q x"
  by (auto simp: on_success_def)

lemma on_success_any: "on_success (\<lambda>_ _. True) r w"
  by (cases r) simp_all

lemma ltriple_bind:
  "ltriple la P m R \<Longrightarrow> (\<And>x. ltriple la (R x) (k x) Q) \<Longrightarrow> ltriple la P (State_Monad.bind m k) Q"
proof -
  assume m: "ltriple la P m R" and k: "\<And>x. ltriple la (R x) (k x) Q"
  show ?thesis
    unfolding ltriple_def
  proof (intro allI impI)
    fix w assume "good la w" "P w"
    moreover obtain x w1 where x: "run_state m w = (x, w1)" by (cases "run_state m w")
    ultimately have w1: "good la w1" "passes la w w1" "R x w1"
      using m unfolding ltriple_def by fastforce+
    obtain r w2 where r: "run_state (k x) w1 = (r, w2)" by (cases "run_state (k x) w1")
    with k [of x] w1 have "good la w2" "passes la w1 w2" "Q r w2"
      unfolding ltriple_def by fastforce+
    with w1(2) x r show "case run_state (State_Monad.bind m k) w of (r, w') \<Rightarrow>
        good la w' \<and> passes la w w' \<and> Q r w'"
      by (auto simp: State_Monad.bind_def intro: passes_trans)
  qed
qed

lemma ltriple_ret: "(\<And>w. P w \<Longrightarrow> Q r w) \<Longrightarrow> ltriple la P (lib_ret r) Q"
  by (simp add: ltriple_def lib_ret_def)

lemma ltriple_weaken: "ltriple la P m Q \<Longrightarrow> (\<And>w. P' w \<Longrightarrow> P w) \<Longrightarrow> (\<And>r w. Q r w \<Longrightarrow> Q' r w) \<Longrightarrow> ltriple la P' m Q'"
  unfolding ltriple_def by (fastforce split: prod.splits)

lemma ltriple_answer: "(\<And>x w. r = Inr x \<Longrightarrow> P w \<Longrightarrow> Q x w) \<Longrightarrow> ltriple la P (lib_ret r) (on_success Q)"
  by (rule ltriple_ret) (cases r; simp)

lemma ltriple_pre: "ltriple la P m Q \<Longrightarrow> (\<And>w. P' w \<Longrightarrow> P w) \<Longrightarrow> ltriple la P' m Q"
  by (erule ltriple_weaken)

lemma ltriple_Ex: "\<forall>L. ltriple la (P L) m Q \<Longrightarrow> ltriple la (\<lambda>w. \<exists>L. P L w) m Q"
proof -
  assume t: "\<forall>L. ltriple la (P L) m Q"
  show ?thesis
    unfolding ltriple_def
  proof (intro allI impI, elim exE)
    fix w L
    assume "good la w" "P L w"
    with t [rule_format, of L] show "case run_state m w of (r, w') \<Rightarrow> good la w' \<and> passes la w w' \<and> Q r w'"
      unfolding ltriple_def by simp
  qed
qed

lemma ltriple_then:
  assumes "ltriple la P m (on_success R)" "\<And>x. ltriple la (R x) (k x) (on_success Q)"
  shows "ltriple la P (lib_then m k) (on_success Q)"
  unfolding lib_then_def
proof (rule ltriple_bind [OF assms(1)])
  fix r
  show "ltriple la (on_success R r) (case r of Inl e \<Rightarrow> lib_ret (Inl e) | Inr x \<Rightarrow> k x) (on_success Q)"
    using assms(2) by (cases r) (simp_all add: ltriple_ret)
qed

lemma ltriple_tick:
  "ltriple la (hold la K) lib_tick (on_success (\<lambda>k. hold la (insert k K)))"
  unfolding ltriple_def lib_tick_def good_def hold_def by (auto simp: less_Suc_eq)

text \<open>The state a call starts from, after the other replicas have moved.\<close>

definition moved :: "library \<Rightarrow> lib_world \<Rightarrow> lib_world" where
  "moved la w = w\<lparr>lw_db := la_moves la (lw_tick w) (lw_db w), lw_tick := Suc (lw_tick w)\<rparr>"

lemma moved_good:
  assumes "peers_ok la" "good la w"
  shows "good la (moved la w)" "lib_steps (la_env la) (lw_db w) (lw_db (moved la w))" "same_rows (lw_db w) (lw_db (moved la w))"
    "hold la K w \<Longrightarrow> hold la K (moved la w)" "lw_cache (moved la w) = lw_cache w"
    "s \<in> set (lb_workflows (lw_db (moved la w))) \<Longrightarrow> df_id s = la_newid la j \<Longrightarrow> s \<in> set (lb_workflows (lw_db w))"
  using assms lib_steps_inv [of "la_env la"] unfolding peers_ok_def good_def hold_def moved_def by auto

lemma lib_call_run:
  "run_state (lib_call la f) w =
     (case la_fault la (lw_tick w) of
        Some e \<Rightarrow> (Inl (Failed e), moved la w)
      | None \<Rightarrow> (case f (lw_db (moved la w)) of
          Inl e \<Rightarrow> (Inl e, moved la w) | Inr (x, d') \<Rightarrow> (Inr x, (moved la w)\<lparr>lw_db := d'\<rparr>)))"
  by (simp add: lib_call_def moved_def Let_def cong: option.case_cong sum.case_cong)

lemma ltriple_call:
  assumes peers: "peers_ok la"
    and f: "\<And>w x d'. good la (moved la w) \<Longrightarrow> good la w \<Longrightarrow> P w \<Longrightarrow> f (lw_db (moved la w)) = Inr (x, d') \<Longrightarrow>
      good la ((moved la w)\<lparr>lw_db := d'\<rparr>) \<and> lib_steps (la_env la) (lw_db (moved la w)) d' \<and> Q x ((moved la w)\<lparr>lw_db := d'\<rparr>)"
  shows "ltriple la P (lib_call la f) (on_success Q)"
  unfolding ltriple_def
proof (intro allI impI)
  fix w assume w: "good la w" "P w"
  note m = moved_good(1,2,5) [OF peers w(1)]
  show "case run_state (lib_call la f) w of (r, w') \<Rightarrow>
      good la w' \<and> passes la w w' \<and> on_success Q r w'"
  proof (cases "la_fault la (lw_tick w)")
    case (Some e)
    with m show ?thesis by (simp add: lib_call_run)
  next
    case None
    show ?thesis
    proof (cases "f (lw_db (moved la w))")
      case (Inl e)
      with None m show ?thesis by (simp add: lib_call_run)
    next
      case (Inr p)
      obtain x d' where p: "p = (x, d')" by (cases p)
      from f [OF m(1) w Inr [unfolded p]] m(2,3) None Inr p show ?thesis
        by (auto simp: lib_call_run intro: rtranclp_trans)
    qed
  qed
qed

text \<open>An operation that takes steps and no new identifier.\<close>

definition plain_op :: "parse_env \<Rightarrow> (lib_db \<Rightarrow> svc_err + 'a \<times> lib_db) \<Rightarrow> bool" where
  "plain_op env f \<longleftrightarrow> (\<forall>d x d'. f d = Inr (x, d') \<longrightarrow> lib_steps env d d' \<and> lib_ids d' \<subseteq> lib_ids d)"

lemma plain_opI: "(\<And>d x d'. f d = Inr (x, d') \<Longrightarrow> lib_steps env d d' \<and> lib_ids d' \<subseteq> lib_ids d) \<Longrightarrow> plain_op env f"
  by (simp add: plain_op_def)

lemma ltriple_plain:
  assumes "peers_ok la" "plain_op (la_env la) f"
  shows "ltriple la (hold la K) (lib_call la f) (on_success (\<lambda>_. hold la K))"
proof (rule ltriple_call [OF assms(1)])
  fix w x d'
  assume g: "good la (moved la w)" "good la w" and h: "hold la K w" and f: "f (lw_db (moved la w)) = Inr (x, d')"
  from assms(2) f have s: "lib_steps (la_env la) (lw_db (moved la w)) d'" "lib_ids d' \<subseteq> lib_ids (lw_db (moved la w))"
    by (auto simp: plain_op_def)
  with g(1) have "good la ((moved la w)\<lparr>lw_db := d'\<rparr>)"
    using lib_steps_inv by (auto simp: good_def)
  moreover have "hold la K ((moved la w)\<lparr>lw_db := d'\<rparr>)"
    using moved_good(4) [OF assms(1) g(2) h] s(2) by (auto simp: hold_def)
  ultimately show "good la ((moved la w)\<lparr>lw_db := d'\<rparr>) \<and> lib_steps (la_env la) (lw_db (moved la w)) d' \<and>
      hold la K ((moved la w)\<lparr>lw_db := d'\<rparr>)" using s(1) by blast
qed

section \<open>Operations without new identifiers\<close>

named_theorems plain_intro

lemma plain_read: "(\<And>d x d'. f d = Inr (x, d') \<Longrightarrow> d' = d) \<Longrightarrow> plain_op env f"
  by (rule plain_opI) auto

lemma plain_reads [plain_intro]:
  "plain_op env (node_GetByID i)" "plain_op env (workflow_GetByID i)" "plain_op env (form_GetByID i)"
  "plain_op env (form_Usage i page perPage)" "plain_op env (node_List on q)" "plain_op env (workflow_List ow q)"
  "plain_op env (form_List page perPage)"
  "plain_op env (\<lambda>d. case Materialize penv (get d) wc of Inl e \<Rightarrow> Inl (err e) | Inr tree \<Rightarrow> Inr (tree, d))"
  by (rule plain_read; auto simp: node_GetByID_def workflow_GetByID_def form_GetByID_def form_Usage_def node_List_def
      workflow_List_def form_List_def Let_def bindR_Inr_iff split: option.splits sum.splits)+

lemma plain_step:
  "(\<And>d x d'. f d = Inr (x, d') \<Longrightarrow> lib_step env d d' \<and> lib_ids d' \<subseteq> lib_ids d) \<Longrightarrow> plain_op env f"
  by (rule plain_opI) auto

lemma delete_ids:
  "node_Delete i d = Inr (u, d') \<Longrightarrow> lib_ids d' \<subseteq> lib_ids d"
  "workflow_Delete i d = Inr (u, d') \<Longrightarrow> lib_ids d' \<subseteq> lib_ids d"
  "form_Delete i d = Inr (u, d') \<Longrightarrow> lib_ids d' \<subseteq> lib_ids d"
  by (auto simp: node_Delete_def workflow_Delete_def form_Delete_def bindR_Inr_iff delete_definition_Inr lib_ids_def
      split: if_split_asm)

lemma refs_ids:
  "SetNodeRefs now i ids d = Inr (u, d') \<Longrightarrow> lib_ids d' \<subseteq> lib_ids d"
  "SaveWorkflowFormRefs now i ids d = Inr (u, d') \<Longrightarrow> lib_ids d' \<subseteq> lib_ids d"
  "SaveNodeFormRefs now i ids d = Inr (u, d') \<Longrightarrow> lib_ids d' \<subseteq> lib_ids d"
  by (auto simp: SetNodeRefs_def SaveWorkflowFormRefs_def SaveNodeFormRefs_def bindR_Inr_iff lib_ids_def)

lemma plain_writes [plain_intro]:
  "plain_op env (node_Delete i)" "plain_op env (workflow_Delete i)" "plain_op env (form_Delete i)"
  "plain_op env (SaveWorkflowFormRefs now i ids)" "plain_op env (SaveNodeFormRefs now i ids)"
  by (rule plain_step; rule conjI; (erule lib_step.intros | erule delete_ids | erule refs_ids))+

lemma plain_update [plain_intro]: "plain_op env (form_Update i now name schema ui)"
proof (rule plain_step)
  fix d f d' assume f: "form_Update i now name schema ui d = Inr (f, d')"
  then obtain t where "d' = d\<lparr>lb_forms := t\<rparr>" "map fo_id t = form_ids d" using form_Update_ids by blast
  then have "lib_ids d' \<subseteq> lib_ids d" by (simp add: lib_ids_def flip: set_map)
  with f show "lib_step env d d' \<and> lib_ids d' \<subseteq> lib_ids d" by (blast intro: lib_step.intros)
qed

section \<open>Rules for use cases\<close>

abbreviation runs :: "library \<Rightarrow> (lib_world, svc_err + 'a) state \<Rightarrow> bool" where
  "runs la m \<equiv> ltriple la (\<lambda>_. True) m (on_success (\<lambda>_ _. True))"

lemma ltriple_any: "runs la m \<Longrightarrow> ltriple la P m (on_success (\<lambda>_ _. True))"
  by (erule ltriple_weaken) (simp_all add: on_success_any)

lemma ltriple_wrap: "ltriple la P m (on_success Q) \<Longrightarrow> ltriple la P (lib_wrap what m) (on_success Q)"
  unfolding lib_wrap_def
  by (erule ltriple_bind) (auto intro!: ltriple_answer split: sum.splits)

lemma runs_then: "runs la m \<Longrightarrow> (\<And>x. runs la (k x)) \<Longrightarrow> runs la (lib_then m k)"
  by (rule ltriple_then)

lemma runs_ret: "runs la (lib_ret r)"
  by (rule ltriple_answer) simp

lemma runs_tick: "runs la lib_tick"
  using ltriple_weaken [OF ltriple_tick [of la "{}"]] by (simp add: on_success_any)

lemma runs_call: "peers_ok la \<Longrightarrow> plain_op (la_env la) f \<Longrightarrow> runs la (lib_call la f)"
  using ltriple_plain [of la f "{}"] by simp

lemma runs_bind: "ltriple la (\<lambda>_. True) m (\<lambda>_ _. True) \<Longrightarrow> (\<And>x. runs la (k x)) \<Longrightarrow> runs la (State_Monad.bind m k)"
  by (rule ltriple_bind)

lemmas runs_intro = runs_then runs_ret runs_tick runs_call ltriple_wrap plain_intro

lemma runs_ensure:
  assumes "peers_ok la"
  shows "runs la (lib_ensureFormsExist la is)"
proof (induction "is")
  case (Cons i "is")
  show ?case unfolding lib_ensureFormsExist.simps
  proof (rule ltriple_bind [OF runs_call [OF assms]])
    show "plain_op (la_env la) (form_GetByID i)" by (rule plain_intro)
    fix r
    show "ltriple la (on_success (\<lambda>_ _. True) r)
      (case r of Inl (NotFound m) \<Rightarrow> lib_ret (Inl (Invalid (''unknown form_id '' @ quoted i)))
        | Inl e \<Rightarrow> lib_ret (Inl e) | Inr f \<Rightarrow> lib_ensureFormsExist la is) (on_success (\<lambda>_ _. True))"
      using Cons.IH by (cases r) (auto simp: ltriple_ret split: svc_err.splits)
  qed
qed (simp add: ltriple_ret)

section \<open>Tables of definitions\<close>

text \<open>
  What the use cases rely on of a definition table: \<open>rows\<close> of the library, with a lookup and an
  insert that refuses a missing predecessor.
\<close>

locale definition_table =
  fixes rows :: "lib_db \<Rightarrow> 'a definition_row_scheme list"
    and find_row :: "uid \<Rightarrow> lib_db \<Rightarrow> svc_err + 'a definition_row_scheme \<times> lib_db"
    and add_row :: "'a definition_row_scheme \<Rightarrow> lib_db \<Rightarrow> svc_err + unit \<times> lib_db"
  assumes row_ids: "r \<in> set (rows d) \<Longrightarrow> df_id r \<in> lib_ids d \<and> df_lineage r \<in> lib_ids d"
    and row_stays: "same_rows d d' \<Longrightarrow> r \<in> set (rows d) \<Longrightarrow> s \<in> set (rows d') \<Longrightarrow> df_id r = df_id s \<Longrightarrow> r = s"
    and find_found: "find_row i d = Inr (r, d') \<Longrightarrow> d' = d \<and> r \<in> set (rows d) \<and> df_id r = i"
    and add_ids: "add_row r d = Inr (u, d') \<Longrightarrow> lib_ids d' \<subseteq> insert (df_id r) (insert (df_lineage r) (lib_ids d))"
    and add_step: "add_row r d = Inr (u, d') \<Longrightarrow> lawful r (rows d) \<Longrightarrow> lib_step env d d'"
    and add_previous: "add_row r d = Inr (u, d') \<Longrightarrow> df_previous r = Some p \<Longrightarrow> p \<noteq> df_id r \<Longrightarrow>
      \<exists>q \<in> set (rows d). df_id q = p"
    and add_alone: "add_row r d = Inr (u, d') \<Longrightarrow> s \<in> set (rows d') \<Longrightarrow> df_id s = df_id r \<Longrightarrow> s = r"
begin

definition alone :: "'a definition_row_scheme \<Rightarrow> lib_world \<Rightarrow> bool" where
  "alone r w \<longleftrightarrow> (\<forall>s \<in> set (rows (lw_db w)). df_id s = df_id r \<longrightarrow> s = r)"

text \<open>A version that was computed from a row of the table, or starts a lineage.\<close>

definition versioned :: "library \<Rightarrow> nat set \<Rightarrow> int \<times> uid \<times> uid option \<Rightarrow> lib_world \<Rightarrow> bool" where
  "versioned la K p w =
     (case p of (v, l, previous) \<Rightarrow>
        case previous of
          None \<Rightarrow> v = 1 \<and> (\<exists>j \<in> K. l = la_newid la j)
        | Some q \<Rightarrow> \<exists>r \<in> set (rows (lw_db w)). df_id r = q \<and> v = df_version r + 1 \<and> l = df_lineage r)"

lemma next_version_triple:
  assumes "peers_ok la"
  shows "ltriple la (hold la K) (next_version la find_row previous)
    (on_success (\<lambda>p w. \<exists>L. K \<subseteq> L \<and> hold la L w \<and> versioned la L p w))"
proof (cases previous)
  case None
  show ?thesis unfolding next_version_def None option.case
  proof (rule ltriple_then [OF ltriple_tick], rule ltriple_answer)
    fix k w and x :: "int \<times> uid \<times> uid option"
    assume h: "hold la (insert k K) w" and x: "Inr (1, la_newid la k, None) = Inr x"
    then have "versioned la (insert k K) x w" by (auto simp: versioned_def)
    with h show "\<exists>L. K \<subseteq> L \<and> hold la L w \<and> versioned la L x w" by (meson subset_insertI)
  qed
next
  case (Some q)
  have call: "ltriple la (hold la K) (lib_call la (find_row q))
    (on_success (\<lambda>r w. hold la K w \<and> r \<in> set (rows (lw_db w)) \<and> df_id r = q))"
  proof (rule ltriple_call [OF assms])
    fix w x d'
    assume "good la (moved la w)" "good la w" "hold la K w" "find_row q (lw_db (moved la w)) = Inr (x, d')"
    with find_found moved_good(4) [OF assms] show "good la ((moved la w)\<lparr>lw_db := d'\<rparr>) \<and>
        lib_steps (la_env la) (lw_db (moved la w)) d' \<and> (hold la K ((moved la w)\<lparr>lw_db := d'\<rparr>) \<and>
        x \<in> set (rows (lw_db ((moved la w)\<lparr>lw_db := d'\<rparr>))) \<and> df_id x = q)" by fastforce
  qed
  show ?thesis unfolding next_version_def Some option.case
  proof (rule ltriple_then [OF call], rule ltriple_answer)
    fix r w and x :: "int \<times> uid \<times> uid option"
    assume h: "hold la K w \<and> r \<in> set (rows (lw_db w)) \<and> df_id r = q"
      and x: "Inr (df_version r + 1, df_lineage r, Some (df_id r)) = Inr x"
    then have "versioned la K x w" by (auto simp: versioned_def)
    with h show "\<exists>L. K \<subseteq> L \<and> hold la L w \<and> versioned la L x w" by blast
  qed
qed

text \<open>The insert of a row with a fresh identifier and such a version is a step.\<close>

lemma add_triple:
  assumes peers: "peers_ok la" and k: "k \<in> K" "df_id r = la_newid la k"
    and p: "(df_version r, df_lineage r, df_previous r) = p"
  shows "ltriple la (\<lambda>w. hold la K w \<and> versioned la K p w) (lib_call la (add_row r)) (on_success (\<lambda>_. alone r))"
proof (rule ltriple_call [OF peers])
  fix w x d'
  let ?d = "lw_db (moved la w)"
  assume g: "good la (moved la w)" "good la w" and pre: "hold la K w \<and> versioned la K p w" and add: "add_row r ?d = Inr (x, d')"
  have h: "hold la K (moved la w)" using moved_good(4) [OF peers g(2)] pre by blast
  have inj: "inj (la_newid la)" using peers by (simp add: peers_ok_def)
  have fresh: "df_id r \<notin> lib_ids ?d" "df_id r \<notin> lib_ids (lw_db w)" using h pre k by (auto simp: hold_def)
  have law: "lawful r (rows ?d) \<and> ((\<exists>j \<in> K. df_lineage r = la_newid la j) \<or> df_lineage r \<in> lib_ids ?d)"
  proof (cases "df_previous r")
    case None
    with p pre obtain j where j: "df_version r = 1" "j \<in> K" "df_lineage r = la_newid la j"
      by (auto simp: versioned_def)
    with h have "df_lineage r \<notin> lib_ids ?d" by (auto simp: hold_def)
    with row_ids have "df_lineage r \<notin> df_lineage ` set (rows ?d)" by (auto simp: image_iff)
    with None j show ?thesis by (auto simp: lawful_def)
  next
    case (Some q)
    with p pre obtain s where s: "s \<in> set (rows (lw_db w))" "df_id s = q" "df_version r = df_version s + 1"
      "df_lineage r = df_lineage s" by (auto simp: versioned_def)
    have q: "q \<noteq> df_id r" using row_ids [OF s(1)] s(2) fresh(2) by auto
    obtain t where t: "t \<in> set (rows ?d)" "df_id t = q" using add_previous [OF add Some q] by blast
    have same: "u = s" if "u \<in> set (rows ?d)" "df_id u = q" for u
      using row_stays [OF moved_good(3) [OF peers g(2)] s(1) that(1)] s(2) that(2) by simp
    have "lawful r (rows ?d)" using Some q same s by (auto simp: lawful_def)
    moreover have "df_lineage r \<in> lib_ids ?d" using row_ids [OF t(1)] same [OF t] s(4) by simp
    ultimately show ?thesis by blast
  qed
  have step: "lib_step (la_env la) ?d d'" by (rule add_step [OF add]) (use law in blast)
  have "la_newid la j \<notin> lib_ids d'" if j: "lw_tick (moved la w) \<le> j" for j
  proof -
    have old: "la_newid la j \<notin> lib_ids ?d" using g(1) j by (simp add: good_def)
    have new: "\<forall>i \<in> K. la_newid la i \<noteq> la_newid la j"
      using h j inj by (fastforce simp: hold_def inj_eq)
    have "df_id r \<noteq> la_newid la j" using new k by metis
    moreover have "df_lineage r \<noteq> la_newid la j" using conjunct2 [OF law] new old by (elim disjE bexE) auto
    ultimately show ?thesis using old subsetD [OF add_ids [OF add], of "la_newid la j"] by (metis insertE)
  qed
  with step g(1) lib_step_inv show "good la ((moved la w)\<lparr>lw_db := d'\<rparr>) \<and> lib_steps (la_env la) ?d d' \<and>
      alone r ((moved la w)\<lparr>lw_db := d'\<rparr>)"
    using add_alone [OF add] by (auto simp: good_def alone_def)
qed

text \<open>A use case that creates a row: a fresh identifier, a version, the insert, and the rest.\<close>

lemma create_triple:
  assumes peers: "peers_ok la"
    and row: "\<And>k p. df_id (row k p) = la_newid la k"
      "\<And>k p. (df_version (row k p), df_lineage (row k p), df_previous (row k p)) = p"
    and rest: "\<And>k p. ltriple la (alone (row k p)) (rest k p) (on_success (\<lambda>_ _. True))"
  shows "runs la (lib_then lib_tick (\<lambda>k. lib_then (next_version la find_row previous)
    (\<lambda>p. lib_then (lib_call la (add_row (row k p))) (\<lambda>_. rest k p))))"
proof -
  have "ltriple la (hold la {}) (lib_then lib_tick (\<lambda>k. lib_then (next_version la find_row previous)
    (\<lambda>p. lib_then (lib_call la (add_row (row k p))) (\<lambda>_. rest k p)))) (on_success (\<lambda>_ _. True))"
  proof (rule ltriple_then [OF ltriple_tick])
    fix k
    show "ltriple la (hold la {k}) (lib_then (next_version la find_row previous)
      (\<lambda>p. lib_then (lib_call la (add_row (row k p))) (\<lambda>_. rest k p))) (on_success (\<lambda>_ _. True))"
    proof (rule ltriple_then [OF next_version_triple [OF peers]], intro ltriple_Ex allI)
      fix p L
      show "ltriple la (\<lambda>w. {k} \<subseteq> L \<and> hold la L w \<and> versioned la L p w)
        (lib_then (lib_call la (add_row (row k p))) (\<lambda>_. rest k p)) (on_success (\<lambda>_ _. True))"
      proof (cases "k \<in> L")
        case True
        show ?thesis
          by (rule ltriple_pre [OF ltriple_then [OF add_triple [OF peers True row] rest]]) blast
      qed (simp add: ltriple_def)
    qed
  qed
  then show ?thesis by simp
qed

end

lemma table_laws:
  "node_GetByID i d = Inr (r, d') \<Longrightarrow> d' = d \<and> r \<in> set (lb_nodes d) \<and> df_id r = i"
  "workflow_GetByID i d = Inr (s, d') \<Longrightarrow> d' = d \<and> s \<in> set (lb_workflows d) \<and> df_id s = i"
  by (auto simp: node_GetByID_def workflow_GetByID_def get_definition_def bindR_Inr_iff dest: by_key_SomeD
      split: option.splits)

lemma create_ids:
  "node_Create r d = Inr (u, d') \<Longrightarrow> lib_ids d' \<subseteq> insert (df_id r) (insert (df_lineage r) (lib_ids d))"
  "workflow_Create s d = Inr (u, d') \<Longrightarrow> lib_ids d' \<subseteq> insert (df_id s) (insert (df_lineage s) (lib_ids d))"
  by (auto simp: node_Create_def workflow_Create_def bindR_Inr_iff insert_definition_Inr lib_ids_def)

lemma create_previous:
  "node_Create r d = Inr (u, d') \<Longrightarrow> df_previous r = Some p \<Longrightarrow> p \<noteq> df_id r \<Longrightarrow> \<exists>q \<in> set (lb_nodes d). df_id q = p"
  "workflow_Create s d = Inr (u, d') \<Longrightarrow> df_previous s = Some p \<Longrightarrow> p \<noteq> df_id s \<Longrightarrow>
     \<exists>q \<in> set (lb_workflows d). df_id q = p"
  by (auto simp: node_Create_def workflow_Create_def bindR_Inr_iff insert_definition_Inr)

lemma table_ids:
  "r \<in> set (lb_nodes d) \<Longrightarrow> df_id r \<in> lib_ids d \<and> df_lineage r \<in> lib_ids d"
  "s \<in> set (lb_workflows d) \<Longrightarrow> df_id s \<in> lib_ids d \<and> df_lineage s \<in> lib_ids d"
  by (simp_all add: lib_ids_def)

lemma table_stays:
  "same_rows d d' \<Longrightarrow> r \<in> set (lb_nodes d) \<Longrightarrow> r' \<in> set (lb_nodes d') \<Longrightarrow> df_id r = df_id r' \<Longrightarrow> r = r'"
  "same_rows d d' \<Longrightarrow> s \<in> set (lb_workflows d) \<Longrightarrow> s' \<in> set (lb_workflows d') \<Longrightarrow> df_id s = df_id s' \<Longrightarrow> s = s'"
  by (auto simp: same_rows_def)

lemma insert_alone:
  assumes "insert_definition what r t = Inr t'" "s \<in> set t'" "df_id s = df_id r"
  shows "s = r"
proof -
  have "df_id s \<notin> df_id ` set t" "s \<in> set t \<or> s = r" using assms by (auto simp: insert_definition_Inr)
  then show ?thesis by auto
qed

lemma create_alone:
  "node_Create r d = Inr (u, d') \<Longrightarrow> r' \<in> set (lb_nodes d') \<Longrightarrow> df_id r' = df_id r \<Longrightarrow> r' = r"
  "workflow_Create s d = Inr (u, d') \<Longrightarrow> s' \<in> set (lb_workflows d') \<Longrightarrow> df_id s' = df_id s \<Longrightarrow> s' = s"
  by (auto simp: node_Create_def workflow_Create_def bindR_Inr_iff dest: insert_alone)

interpretation node_table: definition_table lb_nodes node_GetByID node_Create
  by unfold_locales
    ((erule (1) lib_step.NodeCreated | erule table_ids table_laws create_ids | erule (3) table_stays
      | erule (2) create_previous create_alone)+)

interpretation workflow_table: definition_table lb_workflows workflow_GetByID workflow_Create
  by unfold_locales
    ((erule (1) lib_step.WorkflowCreated | erule table_ids table_laws create_ids | erule (3) table_stays
      | erule (2) create_previous create_alone)+)

end
