(* ===== verification/DefinitionRuns.thy ===== *)
theory DefinitionRuns
  imports LibraryLogic MaterializeSafety
begin

text \<open>
  Every use case of the definition library only takes the library's steps, whatever other
  replicas do between its calls, so the library keeps its invariant, its lineages and the trees
  of its definitions.
\<close>

section \<open>Use cases\<close>

lemma runs_node_Create: "peers_ok la \<Longrightarrow> runs la (svc_node_Create la req)"
  unfolding svc_node_Create_def Let_def case_prod_beta'
  by (rule runs_then [OF runs_ret], rule runs_then [OF runs_ensure], assumption, rule node_table.create_triple, assumption,
    simp, simp, rule ltriple_any, intro runs_intro)

lemma runs_Materialize: "peers_ok la \<Longrightarrow> runs la (svc_Materialize la wc)"
  unfolding svc_Materialize_def by (intro runs_intro)

text \<open>The references are stored under a row that is still the one created.\<close>

lemma alone_moved:
  "peers_ok la \<Longrightarrow> good la w \<Longrightarrow> df_id r = la_newid la k \<Longrightarrow> workflow_table.alone r w \<Longrightarrow> workflow_table.alone r (moved la w)"
  using moved_good(6) unfolding workflow_table.alone_def by metis

lemma refs_triple:
  assumes peers: "peers_ok la" and k: "df_id r = la_newid la k"
    and wc: "ParseWorkflowContent (la_env la) (df_content r) = Inr wc"
  shows "ltriple la (workflow_table.alone r) (lib_call la (SetNodeRefs now (df_id r) (collectNodeRefs wc)))
    (on_success (\<lambda>_ _. True))"
proof (rule ltriple_call [OF peers])
  fix w x d'
  let ?d = "lw_db (moved la w)"
  assume g: "good la (moved la w)" "good la w" and alone: "workflow_table.alone r w"
    and set_refs: "SetNodeRefs now (df_id r) (collectNodeRefs wc) ?d = Inr (x, d')"
  have "workflow_table.alone r (moved la w)" by (rule alone_moved [OF peers g(2) k alone])
  then have "refs_of_content (la_env la) (df_id r) (collectNodeRefs wc) ?d"
    using wc by (auto simp: workflow_table.alone_def refs_of_content_def)
  then have "lib_step (la_env la) ?d d'" by (rule lib_step.NodeRefsSet [OF set_refs])
  then show "good la ((moved la w)\<lparr>lw_db := d'\<rparr>) \<and> lib_steps (la_env la) ?d d' \<and> True"
    using g(1) lib_step_inv refs_ids(1) [OF set_refs] by (auto simp: good_def)
qed

lemma tick_alone: "ltriple la (workflow_table.alone r) lib_tick (on_success (\<lambda>_. workflow_table.alone r))"
  unfolding ltriple_def lib_tick_def good_def workflow_table.alone_def by auto

lemma runs_workflow_Create:
  assumes "peers_ok la"
  shows "runs la (svc_workflow_Create la req)"
  unfolding svc_workflow_Create_def
proof (rule ltriple_then [where R = "\<lambda>wc _. workflow_content la req = Inr wc"])
  show "ltriple la (\<lambda>_. True) (lib_ret (workflow_content la req)) (on_success (\<lambda>wc _. workflow_content la req = Inr wc))"
    by (rule ltriple_answer)
next
  fix wc
  show "ltriple la (\<lambda>_. workflow_content la req = Inr wc) (lib_then (svc_Materialize la wc) (\<lambda>_.
     let forms = collectFormIDs (wNodes wc) in
     lib_then (lib_ensureFormsExist la forms) (\<lambda>_.
     lib_then lib_tick (\<lambda>k.
     let now = la_clock la k; i = la_newid la k; actor = resolveActor (cw_actor req) (la_actor la) in
     lib_then (next_version la workflow_GetByID (cw_previous req)) (\<lambda>(version, lineage, previous).
     let def = \<lparr>df_id = i, df_name = cw_name req, df_version = version, df_previous = previous,
           df_lineage = lineage, df_content = cw_content req, df_created_by = actor, df_updated_by = actor,
           df_created_at = now, df_updated_at = now\<rparr> in
     lib_then (lib_call la (workflow_Create def)) (\<lambda>_.
     lib_then lib_tick (\<lambda>t.
     lib_then (lib_wrap ''record node refs'' (lib_call la (SetNodeRefs (la_clock la t) i (collectNodeRefs wc)))) (\<lambda>_.
     lib_then lib_tick (\<lambda>u.
     lib_then (lib_wrap ''record form refs'' (lib_call la (SaveWorkflowFormRefs (la_clock la u) i forms))) (\<lambda>_.
     lib_ret (Inr def))))))))))) (on_success (\<lambda>_ _. True))"
  proof (cases "workflow_content la req = Inr wc")
    case True
    then have wc: "ParseWorkflowContent (la_env la) (cw_content req) = Inr wc"
      by (auto simp: workflow_content_def split: if_split_asm sum.splits)
    have refs: "ltriple la (workflow_table.alone r) (lib_call la (SetNodeRefs now (la_newid la k) (collectNodeRefs wc)))
        (on_success (\<lambda>_ _. True))" if "df_id r = la_newid la k" "df_content r = cw_content req" for r now k
      using refs_triple [OF assms that(1), unfolded that, OF wc] by (simp add: that)
    show ?thesis unfolding Let_def case_prod_beta'
      by (rule ltriple_any, rule runs_then [OF runs_Materialize [OF assms]], rule runs_then [OF runs_ensure [OF assms]],
        rule workflow_table.create_triple [OF assms], simp, simp, rule ltriple_then [OF tick_alone],
        rule ltriple_then [OF ltriple_wrap [OF refs]], simp, simp, intro runs_intro assms)
  qed (simp add: ltriple_def)
qed

text \<open>\<open>Resolve\<close> answers with a tree of the cache or a new one, and caches nothing else.\<close>

lemma stored_triple:
  assumes "peers_ok la"
  shows "ltriple la (\<lambda>w. lib_steps (la_env la) d (lw_db w)) (resolve_stored la i) (on_success (\<lambda>t _. resolves la d i t))"
  unfolding resolve_stored_def
proof (rule ltriple_then)
  let ?R = "\<lambda>r w. \<exists>d1. lib_steps (la_env la) d d1 \<and> lib_steps (la_env la) d1 (lw_db w) \<and> r \<in> set (lb_workflows d1) \<and> df_id r = i"
  show "ltriple la (\<lambda>w. lib_steps (la_env la) d (lw_db w)) (lib_call la (workflow_GetByID i)) (on_success ?R)"
  proof (rule ltriple_call [OF assms])
    fix w r d'
    assume g: "good la (moved la w)" "good la w" and d: "lib_steps (la_env la) d (lw_db w)"
      and r: "workflow_GetByID i (lw_db (moved la w)) = Inr (r, d')"
    have "lib_steps (la_env la) d (lw_db (moved la w))" using d moved_good(2) [OF assms g(2)] by (rule rtranclp_trans)
    moreover note table_laws(2) [OF r]
    ultimately show "good la ((moved la w)\<lparr>lw_db := d'\<rparr>) \<and> lib_steps (la_env la) (lw_db (moved la w)) d' \<and>
        ?R r ((moved la w)\<lparr>lw_db := d'\<rparr>)" using g(1) by auto
  qed
  fix r
  show "ltriple la (?R r) (case ParseWorkflowContent (la_env la) (df_content r) of
      Inl e \<Rightarrow> lib_ret (Inl (Invalid (la_parse_text la e))) | Inr wc \<Rightarrow> svc_Materialize la wc)
      (on_success (\<lambda>t _. resolves la d i t))"
  proof (cases "ParseWorkflowContent (la_env la) (df_content r)")
    case (Inr wc)
    have "ltriple la (?R r) (svc_Materialize la wc) (on_success (\<lambda>t _. resolves la d i t))"
      unfolding svc_Materialize_def
    proof (rule ltriple_call [OF assms])
      fix w t d'
      assume g: "good la (moved la w)" "good la w" and pre: "?R r w"
        and m: "(case Materialize (la_env la) (node_source (lw_db (moved la w))) wc of
          Inl e \<Rightarrow> Inl (Invalid (la_merge_text la e)) | Inr tree \<Rightarrow> Inr (tree, lw_db (moved la w))) = Inr (t, d')"
      from m have t: "Materialize (la_env la) (node_source (lw_db (moved la w))) wc = Inr t" "d' = lw_db (moved la w)"
        by (auto split: sum.splits)
      from pre obtain d1 where d1: "lib_steps (la_env la) d d1" "lib_steps (la_env la) d1 (lw_db w)"
        "r \<in> set (lb_workflows d1)" "df_id r = i" by blast
      have "lib_steps (la_env la) d1 (lw_db (moved la w))"
        using d1(2) moved_good(2) [OF assms g(2)] by (rule rtranclp_trans)
      with d1 Inr t(1) have "resolves la d i t" unfolding resolves_def by blast
      with g t(2) show "good la ((moved la w)\<lparr>lw_db := d'\<rparr>) \<and> lib_steps (la_env la) (lw_db (moved la w)) d' \<and>
        resolves la d i t" by simp
    qed
    with Inr show ?thesis by simp
  qed (simp add: ltriple_ret)
qed

lemma GetOrCompute_items:
  assumes "GetOrCompute k (\<lambda>_. r) c = (a, c')"
  shows "a = Inr v \<Longrightarrow> (k, v) \<in> set (ca_items c) \<or> r = Inr v"
    and "(k', v) \<in> set (ca_items c') \<Longrightarrow> (k', v) \<in> set (ca_items c) \<or> k' = k \<and> r = Inr v"
proof -
  have ev: "set (ca_items (evict x)) \<subseteq> set (ca_items x)" for x :: "('k, 'v) cache" by (rule evict_subset)
  show "a = Inr v \<Longrightarrow> (k, v) \<in> set (ca_items c) \<or> r = Inr v"
    using assms by (auto simp: GetOrCompute_def Let_def dest: map_of_SomeD split: option.splits sum.splits)
  show "(k', v) \<in> set (ca_items c') \<Longrightarrow> (k', v) \<in> set (ca_items c) \<or> k' = k \<and> r = Inr v"
    using assms ev [of "c\<lparr>ca_misses := ca_misses c + 1\<rparr>"]
    by (auto simp: GetOrCompute_def Let_def split: option.splits sum.splits)
qed

lemma Resolve_run:
  assumes peers: "peers_ok la" and w: "good la w" and run: "run_state (svc_Resolve la i) w = (a, w')"
  shows "good la w' \<and> passes la w w' \<and> (\<forall>t. a = Inr t \<longrightarrow> (i, t) \<in> set (ca_items (lw_cache w)) \<or> resolves la (lw_db w) i t)"
proof -
  let ?m = "if map_of (ca_items (lw_cache w)) i = None then resolve_stored la i else lib_ret (Inl (NotFound i))"
  obtain r v where r: "run_state ?m w = (r, v)" by (cases "run_state ?m w")
  obtain c where c: "GetOrCompute i (\<lambda>_. r) (lw_cache v) = (a, c)" and w': "w' = v\<lparr>lw_cache := c\<rparr>"
    using run r by (auto simp: svc_Resolve_def State_Monad.bind_def State_Monad.get_def split: prod.splits)
  have "ltriple la (\<lambda>w'. lib_steps (la_env la) (lw_db w) (lw_db w')) ?m (on_success (\<lambda>t _. resolves la (lw_db w) i t))"
    using stored_triple [OF peers] by (simp add: ltriple_ret)
  then have v: "good la v" "passes la w v" "\<forall>t. r = Inr t \<longrightarrow> resolves la (lw_db w) i t"
    using w r by (fastforce simp: ltriple_def)+
  have items: "(j, t) \<in> set (ca_items (lw_cache w)) \<or> resolves la (lw_db w) j t" if "(j, t) \<in> set (ca_items (lw_cache v))" for j t
    using v(2) that by (auto simp: passes_def)
  have "passes la w w'"
    using v(2,3) items GetOrCompute_items(2) [OF c] by (fastforce simp: passes_def w')
  moreover have "good la w'" using v(1) by (simp add: good_def w')
  moreover have "(i, t) \<in> set (ca_items (lw_cache w)) \<or> resolves la (lw_db w) i t" if "a = Inr t" for t
    using GetOrCompute_items(1) [OF c that] items v(3) by blast
  ultimately show ?thesis by blast
qed

lemma runs_Resolve: "peers_ok la \<Longrightarrow> runs la (svc_Resolve la i)"
  unfolding ltriple_def
proof (intro allI impI)
  fix w assume peers: "peers_ok la" and w: "good la w"
  obtain a w' where run: "run_state (svc_Resolve la i) w = (a, w')" by (cases "run_state (svc_Resolve la i) w")
  with Resolve_run [OF peers w run] show "case run_state (svc_Resolve la i) w of (r, w') \<Rightarrow>
      good la w' \<and> passes la w w' \<and> on_success (\<lambda>_ _. True) r w'" by (simp add: on_success_any)
qed

lemma form_Create_ids:
  "form_Create i now name schema ui d = Inr (f, d') \<Longrightarrow> lib_ids d' = insert i (lib_ids d)"
  by (auto simp: form_Create_def Let_def create_def lib_ids_def split: if_split_asm)

lemma form_Create_triple:
  assumes peers: "peers_ok la"
  shows "ltriple la (hold la {k}) (lib_call la (form_Create (la_newid la k) now name schema ui)) (on_success (\<lambda>_ _. True))"
proof (rule ltriple_call [OF peers])
  fix w f d'
  let ?d = "lw_db (moved la w)"
  assume g: "good la (moved la w)" "good la w" and h: "hold la {k} w"
    and f: "form_Create (la_newid la k) now name schema ui ?d = Inr (f, d')"
  have "k < lw_tick (moved la w)" using moved_good(4) [OF peers g(2) h] by (simp add: hold_def)
  moreover have "inj (la_newid la)" using peers by (simp add: peers_ok_def)
  ultimately have "\<forall>j \<ge> lw_tick (moved la w). la_newid la j \<notin> lib_ids d'"
    using g(1) by (auto simp: good_def form_Create_ids [OF f] inj_eq)
  moreover have "lib_step (la_env la) ?d d'" by (rule lib_step.FormCreated [OF f])
  ultimately show "good la ((moved la w)\<lparr>lw_db := d'\<rparr>) \<and> lib_steps (la_env la) ?d d' \<and> True"
    using g(1) lib_step_inv by (auto simp: good_def)
qed

lemma runs_form_Create:
  assumes "peers_ok la"
  shows "runs la (svc_form_Create la name schema ui)"
  unfolding svc_form_Create_def
proof (rule runs_then [OF runs_ret])
  have "ltriple la (hold la {}) (lib_then lib_tick (\<lambda>k. lib_call la (form_Create (la_newid la k) (la_clock la k) name schema ui)))
      (on_success (\<lambda>_ _. True))"
    by (rule ltriple_then [OF ltriple_tick form_Create_triple [OF assms]])
  then show "runs la (lib_then lib_tick (\<lambda>k. lib_call la (form_Create (la_newid la k) (la_clock la k) name schema ui)))"
    by (simp add: hold_def)
qed

lemma runs_form_Update: "peers_ok la \<Longrightarrow> runs la (svc_form_Update la i name schema ui)"
  unfolding svc_form_Update_def by (intro runs_intro)

lemma runs_usage_workflows: "peers_ok la \<Longrightarrow> runs la (usage_workflows la f defs)"
  by (induction defs) (auto intro!: runs_then runs_ret runs_Resolve)

lemma runs_usage_instances: "peers_ok la \<Longrightarrow> runs la (usage_instances la f ms)"
  by (induction ms) (auto intro!: runs_then runs_ret runs_Resolve)

lemma runs_form_Usage: "peers_ok la \<Longrightarrow> runs la (svc_form_Usage la i page perPage)"
  unfolding svc_form_Usage_def by (intro runs_then runs_usage_workflows runs_usage_instances runs_intro)

text \<open>What a client asks of the library.\<close>

datatype lib_command =
  NodeCreate CreateNodeDefinition | NodeGet uid | NodeDelete uid
| WorkflowCreate CreateWorkflowDefinition | WorkflowGet uid | WorkflowDelete uid | Resolve uid
| FormCreate string raw raw | FormUpdate uid string raw raw | FormDelete uid | FormUsageOf uid int int

definition done_with :: "'a lib \<Rightarrow> unit lib" where
  "done_with m = lib_then m (\<lambda>_. lib_ret (Inr ()))"

fun lib_perform :: "library \<Rightarrow> lib_command \<Rightarrow> unit lib" where
  "lib_perform la (NodeCreate req) = done_with (svc_node_Create la req)"
| "lib_perform la (NodeGet i) = done_with (svc_node_Get la i)"
| "lib_perform la (NodeDelete i) = svc_node_Delete la i"
| "lib_perform la (WorkflowCreate req) = done_with (svc_workflow_Create la req)"
| "lib_perform la (WorkflowGet i) = done_with (svc_workflow_Get la i)"
| "lib_perform la (WorkflowDelete i) = svc_workflow_Delete la i"
| "lib_perform la (Resolve i) = done_with (svc_Resolve la i)"
| "lib_perform la (FormCreate name schema ui) = done_with (svc_form_Create la name schema ui)"
| "lib_perform la (FormUpdate i name schema ui) = done_with (svc_form_Update la i name schema ui)"
| "lib_perform la (FormDelete i) = svc_form_Delete la i"
| "lib_perform la (FormUsageOf i page perPage) = done_with (svc_form_Usage la i page perPage)"

lemma runs_perform: "peers_ok la \<Longrightarrow> runs la (lib_perform la c)"
  by (cases c)
    (auto simp: done_with_def svc_node_Get_def svc_node_Delete_def svc_workflow_Get_def svc_workflow_Delete_def
      svc_form_Delete_def intro!: runs_then runs_ret runs_call plain_intro runs_node_Create runs_workflow_Create
      runs_Resolve runs_form_Create runs_form_Update runs_form_Usage)

fun lib_session :: "library \<Rightarrow> lib_command list \<Rightarrow> lib_world \<Rightarrow> lib_world" where
  "lib_session la [] w = w"
| "lib_session la (c # cs) w = lib_session la cs (snd (run_state (lib_perform la c) w))"

lemma session_runs:
  "peers_ok la \<Longrightarrow> good la w \<Longrightarrow> good la (lib_session la cs w) \<and> passes la w (lib_session la cs w)"
proof (induction cs arbitrary: w)
  case (Cons c cs)
  obtain r v where r: "run_state (lib_perform la c) w = (r, v)" by (cases "run_state (lib_perform la c) w")
  have v: "good la v" "passes la w v"
    using runs_perform [OF Cons.prems(1), of c] Cons.prems(2) r by (auto simp: ltriple_def)
  with Cons.IH [OF Cons.prems(1) v(1)] r show ?case by (auto intro: passes_trans)
qed simp

section \<open>A library\<close>

text \<open>Another replica stores a form before call 5. The definition refers to the poller stored first.\<close>

definition peer_form :: "nat \<Rightarrow> lib_db \<Rightarrow> lib_db" where
  "peer_form k d =
     (if k = 5
      then (case form_Create ''f'' 0 ''peer'' None None d of Inl e \<Rightarrow> d | Inr (f, d') \<Rightarrow> d')
      else d)"

definition sample_library :: library where
  "sample_library = \<lparr>la_moves = peer_form, la_fault = (\<lambda>k. None), la_clock = int,
     la_newid = (\<lambda>k. CHR ''d'' # replicate k CHR ''0''), la_env = sample_env, la_actor = ''u'',
     la_parse_text = (\<lambda>e. ''invalid content''), la_merge_text = (\<lambda>e. ''invalid reference''),
     la_node_schema = (\<lambda>t. None), la_compile = (\<lambda>j. None)\<rparr>"

definition empty_library :: lib_world where
  "empty_library = \<lparr>lw_db = \<lparr>lb_nodes = [], lb_workflows = [], lb_forms = [], lb_node_refs = [], lb_workflow_forms = [],
       lb_node_forms = [], lb_requests = [], lb_instances = [], lb_schedules = [], lb_node_instances = []\<rparr>,
     lw_tick = 0, lw_cache = cache_New resolveCacheSize\<rparr>"

definition poller_request :: CreateNodeDefinition where
  "poller_request = \<lparr>cn_name = ''wait'', cn_type = ''poller'', cn_previous = None,
     cn_content = df_content poller_definition, cn_actor = []\<rparr>"

definition workflow_request :: "uid option \<Rightarrow> CreateWorkflowDefinition" where
  "workflow_request previous = \<lparr>cw_name = ''poll'', cw_previous = previous, cw_content = Some reference_document, cw_actor = []\<rparr>"

definition sample_commands :: "lib_command list" where
  "sample_commands = [NodeCreate poller_request, WorkflowCreate (workflow_request None),
     WorkflowCreate (workflow_request (Some (la_newid sample_library 6))), NodeDelete ''d'']"

definition stored_library :: lib_world where
  "stored_library = lib_session sample_library (take 2 sample_commands) empty_library"

lemma sample_peers: "peers_ok sample_library"
proof -
  have inj: "inj (la_newid sample_library)"
    by (rule injI) (auto simp: sample_library_def replicate_eq_replicate)
  have id: "la_newid sample_library j \<noteq> ''f''" for j by (simp add: sample_library_def)
  have step: "peer_form k d = d \<or> (\<exists>f. form_Create ''f'' 0 ''peer'' None None d = Inr (f, peer_form k d))" for k d
    by (auto simp: peer_form_def split: sum.split)
  have tables: "lb_nodes (peer_form k d) = lb_nodes d \<and> lb_workflows (peer_form k d) = lb_workflows d \<and>
      set (form_ids (peer_form k d)) \<subseteq> insert ''f'' (set (form_ids d))" for k d
    by (auto simp: peer_form_def form_Create_def create_def Let_def split: sum.split)
  have moves: "la_moves sample_library = peer_form" by (simp add: sample_library_def)
  show ?thesis
    unfolding peers_ok_def moves
  proof (intro conjI allI impI inj ballI)
    fix k d assume inv: "lib_inv d"
    show "lib_steps (la_env sample_library) d (peer_form k d)"
      using step [of k d] by (auto dest: lib_step.FormCreated)
    show "same_rows d (peer_form k d)"
      using inv tables [of k d] by (auto simp: same_rows_def lib_inv_def chain_def distinct_map dest: inj_onD)
    fix j
    show "la_newid sample_library j \<notin> lib_ids (peer_form k d)" if "la_newid sample_library j \<notin> lib_ids d"
      using that tables [of k d] id [of j] by (auto simp: lib_ids_def)
    show "s \<in> set (lb_workflows d)" if "s \<in> set (lb_workflows (peer_form k d))" for s
      using that tables [of k d] by simp
  qed
qed

lemma sample_start: "good sample_library empty_library"
  by (simp add: good_def empty_library_def lib_inv_def refs_ok_def users_ok_def lib_ids_def)

lemma sample_stored: "good sample_library stored_library"
  unfolding stored_library_def using session_runs [OF sample_peers sample_start] by blast

section \<open>Properties\<close>

text \<open>
  C12. The library keeps its invariant: whatever commands a process runs, and whatever the other
  replicas do between its calls, every reference names a stored row, no reference is stored
  twice, a version names the version before it, and no version has two successors.
\<close>

theorem library_invariant:
  assumes "peers_ok la" "good la w"
  shows "lib_inv (lw_db (lib_session la cs w))"
  using session_runs [OF assms] by (simp add: good_def)

lemma library_invariant_witness:
  "lib_inv (lw_db (lib_session sample_library sample_commands empty_library)) \<and>
   map df_id (lb_nodes (lw_db (lib_session sample_library sample_commands empty_library))) = [''d''] \<and>
   map rf_target (lb_node_refs (lw_db (lib_session sample_library sample_commands empty_library))) = [''d'', ''d''] \<and>
   map fo_id (lb_forms (lw_db (lib_session sample_library sample_commands empty_library))) = [''f'']"
proof -
  have "map df_id (lb_nodes (lw_db (lib_session sample_library sample_commands empty_library))) = [''d''] \<and>
    map rf_target (lb_node_refs (lw_db (lib_session sample_library sample_commands empty_library))) = [''d'', ''d''] \<and>
    map fo_id (lb_forms (lw_db (lib_session sample_library sample_commands empty_library))) = [''f'']" by code_simp
  with library_invariant [OF sample_peers sample_start, of sample_commands] show ?thesis by blast
qed



text \<open>
  C11. The cache of materialized trees needs no invalidation: once a definition's references are
  stored, whatever commands run, and whatever the other replicas do, every tree
  \<open>Resolve\<close> answers with, cached or not, is the tree the definition had then.
\<close>

theorem resolve_stable:
  assumes "peers_ok la" "good la w" "r \<in> set (lb_workflows (lw_db w))"
    and "ParseWorkflowContent (la_env la) (df_content r) = Inr wc" "collectNodeRefs wc \<noteq> []"
    and "set (collectNodeRefs wc) \<subseteq> set (WorkflowDefinitionNodeRefs (df_id r) (lw_db w))"
    and "Materialize (la_env la) (node_source (lw_db w)) wc = Inr tree" "lw_cache w = cache_New n"
    and "fst (run_state (svc_Resolve la (df_id r)) (lib_session la cs w)) = Inr t"
  shows "t = tree"
proof -
  let ?v = "lib_session la cs w"
  have inv: "lib_inv (lw_db w)" using assms(2) by (simp add: good_def)
  have s: "settled r wc (node_source (lw_db w)) (lw_db w)" using assms(3,6) by (simp add: settled_def)
  note v = session_runs [OF assms(1,2), of cs]
  obtain w' where "run_state (svc_Resolve la (df_id r)) ?v = (Inr t, w')"
    using assms(9) by (cases "run_state (svc_Resolve la (df_id r)) ?v") simp
  from Resolve_run [OF assms(1) conjunct1 [OF v] this] v assms(8) have "resolves la (lw_db w) (df_id r) t"
    by (auto simp: passes_def cache_New_def intro: resolves_before)
  then obtain d1 d2 q wc' where d: "lib_steps (la_env la) (lw_db w) d1" "lib_steps (la_env la) d1 d2"
    "q \<in> set (lb_workflows d1)" "df_id q = df_id r" "ParseWorkflowContent (la_env la) (df_content q) = Inr wc'"
    "Materialize (la_env la) (node_source d2) wc' = Inr t" unfolding resolves_def by blast
  have s1: "settled r wc (node_source (lw_db w)) d1" by (rule settled_steps [OF d(1) inv s assms(5,4)])
  have inv1: "lib_inv d1" by (rule lib_steps_inv [OF d(1) inv])
  then have "distinct (workflow_ids d1)" by (simp add: lib_inv_def chain_def)
  then have "q = r" using s1 d(3,4) by (auto simp: settled_def distinct_map dest: inj_onD)
  with d(5) assms(4) have "wc' = wc" by simp
  have "settled r wc (node_source (lw_db w)) d2" by (rule settled_steps [OF d(2) inv1 s1 assms(5,4)])
  from settled_tree [OF this, of "la_env la"] d(6) assms(7) \<open>wc' = wc\<close> show ?thesis by simp
qed

lemma resolve_stable_witness:
  "fst (run_state (svc_Resolve sample_library (la_newid sample_library 6))
     (lib_session sample_library [Resolve (la_newid sample_library 6), NodeDelete ''d''] stored_library)) = Inr reference_tree"
proof -
  let ?a = "fst (run_state (svc_Resolve sample_library (la_newid sample_library 6))
     (lib_session sample_library [Resolve (la_newid sample_library 6), NodeDelete ''d''] stored_library))"
  let ?rows = "lb_workflows (lw_db stored_library)"
  have env: "la_env sample_library = sample_env" by (simp add: sample_library_def)
  have rows: "map (\<lambda>r. (df_id r, df_content r)) ?rows = [(la_newid sample_library 6, Some reference_document)]" by code_simp
  then obtain r where r: "?rows = [r]" "df_id r = la_newid sample_library 6" "df_content r = Some reference_document" by auto
  have parse: "ParseWorkflowContent (la_env sample_library) (df_content r) = Inr reference_parsed"
    using reference_parses by (simp add: env r)
  have refs: "collectNodeRefs reference_parsed = [''d''] \<and>
      WorkflowDefinitionNodeRefs (la_newid sample_library 6) (lw_db stored_library) = [''d'']" by code_simp
  have tree: "Materialize (la_env sample_library) (node_source (lw_db stored_library)) reference_parsed = Inr reference_tree"
    by code_simp
  have cache: "lw_cache stored_library = cache_New resolveCacheSize" by code_simp
  have "case ?a of Inl e \<Rightarrow> False | Inr t \<Rightarrow> True" by code_simp
  then obtain t where t: "?a = Inr t" by (auto split: sum.splits)
  have "t = reference_tree"
    by (rule resolve_stable [OF sample_peers sample_stored _ parse _ _ tree cache, of
        "[Resolve (la_newid sample_library 6), NodeDelete ''d'']" t]) (use r refs t in simp_all)
  with t show ?thesis by simp
qed

end
