(* ===== verification/Template.thy ===== *)
theory Template
  imports ContextPath Materialize
begin

text \<open>
  The templates of \<open>pkg/contextpath\<close>: \<open>{{ path }}\<close> placeholders in strings and JSON documents.
  \<open>fmt\<close> is what \<open>%v\<close> prints for a value that is not a string; \<open>denied\<close> as in \<open>Get\<close>.
\<close>

section \<open>Placeholders\<close>

text \<open>\<open>tplRe\<close> at the start of a string: two braces, text without a closing one, two braces.\<close>

definition placeholder_at :: "string \<Rightarrow> (string \<times> string) option" where
  "placeholder_at s =
     (if has_prefix s ''{{''
      then let body = drop 2 s; inner = takeWhile (\<lambda>x. x \<noteq> CHR ''}'') body; rest = dropWhile (\<lambda>x. x \<noteq> CHR ''}'') body
           in if inner \<noteq> [] \<and> has_prefix rest ''}}'' then Some (inner, drop 2 rest) else None
      else None)"

text \<open>The text before the first placeholder, what is in it, and the rest.\<close>

fun first_placeholder :: "string \<Rightarrow> (string \<times> string \<times> string) option" where
  "first_placeholder [] = None"
| "first_placeholder (c # s) =
     (case placeholder_at (c # s) of
        Some (inner, rest) \<Rightarrow> Some ([], inner, rest)
      | None \<Rightarrow> map_option (\<lambda>(before, inner, rest). (c # before, inner, rest)) (first_placeholder s))"

lemma placeholder_at_shorter: "placeholder_at s = Some (inner, rest) \<Longrightarrow> length rest < length s"
proof -
  assume "placeholder_at s = Some (inner, rest)"
  then have "inner \<noteq> []" "inner = takeWhile (\<lambda>x. x \<noteq> CHR ''}'') (drop 2 s)"
    "rest = drop 2 (dropWhile (\<lambda>x. x \<noteq> CHR ''}'') (drop 2 s))"
    by (auto simp: placeholder_at_def Let_def split: if_split_asm)
  moreover have "length (dropWhile (\<lambda>x. x \<noteq> CHR ''}'') (drop 2 s)) \<le> length (drop 2 s)" by (rule length_dropWhile_le)
  ultimately show ?thesis by (cases s) auto
qed

lemma first_placeholder_shorter: "first_placeholder s = Some (before, inner, rest) \<Longrightarrow> length rest < length s"
proof (induction s arbitrary: before)
  case (Cons c s)
  then show ?case
    by (cases "placeholder_at (c # s)") (force dest: placeholder_at_shorter)+
qed simp

function placeholders :: "string \<Rightarrow> string list" where
  "placeholders s =
     (case first_placeholder s of
        None \<Rightarrow> []
      | Some (before, inner, rest) \<Rightarrow> inner # placeholders rest)"
  by pat_completeness auto
termination
  by (relation "measure length") (auto dest: first_placeholder_shorter)

declare placeholders.simps [simp del]

section \<open>Rendering\<close>

definition go_text :: "(json \<Rightarrow> string) \<Rightarrow> json \<Rightarrow> string" where
  "go_text fmt v = (case v of JStr s \<Rightarrow> s | _ \<Rightarrow> fmt v)"

definition has_suffix :: "string \<Rightarrow> string \<Rightarrow> bool" where
  "has_suffix s t = has_prefix (rev s) (rev t)"

function render_text :: "(string \<Rightarrow> bool) \<Rightarrow> (json \<Rightarrow> string) \<Rightarrow> gomap \<Rightarrow> string \<Rightarrow> path_error + string" where
  "render_text denied fmt ctx s =
     (case first_placeholder s of
        None \<Rightarrow> Inr s
      | Some (before, inner, rest) \<Rightarrow>
          bindR (Get denied ctx (trim_space inner)) (\<lambda>v.
          bindR (render_text denied fmt ctx rest) (\<lambda>t.
          Inr (before @ go_text fmt v @ t))))"
  by pat_completeness auto
termination
  by (relation "measure (\<lambda>(_, _, _, s). length s)") (auto dest: first_placeholder_shorter)

declare render_text.simps [simp del]

definition RenderTemplate :: "(string \<Rightarrow> bool) \<Rightarrow> (json \<Rightarrow> string) \<Rightarrow> gomap \<Rightarrow> string \<Rightarrow> path_error + json" where
  "RenderTemplate denied fmt ctx s =
     (let t = trim_space s in
      case placeholders s of
        [] \<Rightarrow> Inr (JStr s)
      | [inner] \<Rightarrow>
          if has_prefix t ''{{'' \<and> has_suffix t ''}}'' \<and> first_placeholder t \<noteq> None
          then Get denied ctx (trim_space inner)
          else bindR (render_text denied fmt ctx s) (\<lambda>r. Inr (JStr r))
      | _ \<Rightarrow> bindR (render_text denied fmt ctx s) (\<lambda>r. Inr (JStr r)))"

text \<open>The members of a Go map come in any order; an error is that of the first in key order.\<close>

fun renderValue :: "(string \<Rightarrow> bool) \<Rightarrow> (json \<Rightarrow> string) \<Rightarrow> gomap \<Rightarrow> json \<Rightarrow> path_error + json" where
  "renderValue denied fmt ctx (JStr s) = RenderTemplate denied fmt ctx s"
| "renderValue denied fmt ctx (JObj m) =
     bindR (mapR (\<lambda>(k, v). bindR (renderValue denied fmt ctx v) (\<lambda>r. Inr (k, r))) m) (\<lambda>out. Inr (JObj out))"
| "renderValue denied fmt ctx (JArr xs) =
     bindR (mapR (renderValue denied fmt ctx) xs) (\<lambda>out. Inr (JArr out))"
| "renderValue denied fmt ctx v = Inr v"

datatype render_err = RenderPath path_error | RenderEncode

definition RenderJSON :: "(string \<Rightarrow> bool) \<Rightarrow> (json \<Rightarrow> string) \<Rightarrow> gomap \<Rightarrow> json \<Rightarrow> render_err + json" where
  "RenderJSON denied fmt ctx j =
     (case renderValue denied fmt ctx j of
        Inl e \<Rightarrow> Inl (RenderPath e)
      | Inr v \<Rightarrow> if json_clean v then Inr v else Inl RenderEncode)"

end
