(* ===== verification/Outbound.thy ===== *)
theory Outbound
  imports Template Executor "HOL-Library.Word" "HOL-Library.State_Monad"
begin

text \<open>
  \<open>executor/http.go\<close> and the waiting side of \<open>httpbulkhead.go\<close>: outbound HTTP calls under the
  target policy, with templates, form bodies, redirects, retries and the permits of the
  bulkhead (whose own states are in \<open>Bulkhead\<close>).

  The network is a parameter, and so are the parsers of the standard library that only read text
  (URLs, media types, dates): \<open>he_reply t q\<close> is what the transport answers at tick \<open>t\<close> to the
  request \<open>q\<close>: an error, a redirect with the request the client would send next, or a response.
\<close>

section \<open>The outside\<close>

record url =
  u_scheme :: string
  u_host :: string
  u_hostname :: string
  u_port :: string

text \<open>A request body: none, a document, or encoded form fields.\<close>

datatype body = NoBody | Document json | Encoded string

record wire =
  wi_method :: string
  wi_url :: url
  wi_headers :: "(string \<times> string) list"
  wi_body :: body

record response =
  rs_status :: int
  rs_headers :: "(string \<times> string list) list"
  rs_body :: string

datatype reply = Broken string | Redirected wire | Answered response

record http_env =
  he_denied :: "string \<Rightarrow> bool"
  he_fmt :: "json \<Rightarrow> string"
  he_parse :: "string \<Rightarrow> string + url"
  he_lookup :: "nat \<Rightarrow> string \<Rightarrow> string option"
  he_media :: "string \<Rightarrow> string option"
  he_urlencode :: "(string \<times> string) list \<Rightarrow> string"
  he_multipart :: "(string \<times> string) list \<Rightarrow> string \<times> string"
  he_json :: "json \<Rightarrow> string"
  he_decode :: "string \<Rightarrow> json option"
  he_date :: "string \<Rightarrow> time option"
  he_clock :: "nat \<Rightarrow> time"
  he_cancelled :: "nat \<Rightarrow> bool"
  he_admits :: "nat \<Rightarrow> string \<Rightarrow> bool"
  he_reply :: "nat \<Rightarrow> wire \<Rightarrow> reply"

record http_limits =
  hl_allowlist :: "string list"
  hl_max_redirects :: int
  hl_max_body :: int

text \<open>
  A tick that indexes the outside, the requests sent, the permits the call holds, the keys read
  and the deliveries acknowledged by a poller, and the commands run.
\<close>

record out_world =
  ow_tick :: nat
  ow_sent :: "wire list"
  ow_held :: int
  ow_reads :: "string list"
  ow_acks :: nat
  ow_ran :: "(string \<times> string list) list"

type_synonym 'a out = "(out_world, 'a) state"

definition out_ret :: "'a \<Rightarrow> 'a out" where
  "out_ret x = State_Monad.return x"

definition out_tick :: "nat out" where
  "out_tick = State (\<lambda>w. (ow_tick w, w\<lparr>ow_tick := Suc (ow_tick w)\<rparr>))"

definition transmit :: "http_env \<Rightarrow> wire \<Rightarrow> reply out" where
  "transmit he q = State (\<lambda>w.
     (he_reply he (ow_tick w) q, w\<lparr>ow_tick := Suc (ow_tick w), ow_sent := ow_sent w @ [q]\<rparr>))"

datatype http_err = HttpOverloaded string | HttpFailed go_err

section \<open>The policy\<close>

definition portOf :: "url \<Rightarrow> string" where
  "portOf u = (if u_port u \<noteq> [] then u_port u else if u_scheme u = ''https'' then ''443'' else ''80'')"

definition JoinHostPort :: "string \<Rightarrow> string \<Rightarrow> string" where
  "JoinHostPort host port = (if CHR '':'' \<in> set host then ''['' @ host @ '']:'' @ port else host @ '':'' @ port)"

definition allowed :: "http_limits \<Rightarrow> string \<Rightarrow> string \<Rightarrow> bool" where
  "allowed lim host port = list_ex (\<lambda>e. e = ''*'' \<or> host = e \<or> e = JoinHostPort host port) (hl_allowlist lim)"

definition web_scheme :: "string \<Rightarrow> bool" where
  "web_scheme s \<longleftrightarrow> s = ''http'' \<or> s = ''https''"

definition validateTarget :: "http_env \<Rightarrow> http_limits \<Rightarrow> url \<Rightarrow> go_err option out" where
  "validateTarget he lim u =
     (if \<not> web_scheme (u_scheme u) then out_ret (Some (EText (''scheme '' @ quoted (u_scheme u) @ '' not allowed'')))
      else if \<not> allowed lim (u_hostname u) (portOf u)
      then out_ret (Some (EText (''target '' @ u_host u @ '' not in HTTP allowlist'')))
      else do {
        t \<leftarrow> out_tick;
        out_ret (case he_lookup he t (u_hostname u) of
          None \<Rightarrow> None
        | Some e \<Rightarrow> Some (EWrap (''target '' @ u_hostname u @ '' does not resolve'') (EText e)))
      })"

definition ValidateTarget :: "http_env \<Rightarrow> http_limits \<Rightarrow> string \<Rightarrow> go_err option out" where
  "ValidateTarget he lim target =
     (case he_parse he target of
        Inl e \<Rightarrow> out_ret (Some (EText e))
      | Inr u \<Rightarrow> validateTarget he lim u)"

section \<open>Building a request\<close>

definition str_of :: "json \<Rightarrow> string option" where
  "str_of v = (case v of JStr s \<Rightarrow> Some s | _ \<Rightarrow> None)"

definition is_content_type :: "string \<Rightarrow> bool" where
  "is_content_type k \<longleftrightarrow> to_lower k = ''content-type''"

fun render_headers :: "http_env \<Rightarrow> gomap \<Rightarrow> bool \<Rightarrow> (string \<times> string) list \<Rightarrow> go_err + (string \<times> string) list" where
  "render_headers he ctx seen [] = Inr []"
| "render_headers he ctx seen ((k, v) # hs) =
     (if is_content_type k \<and> seen then Inl (EText ''duplicate Content-Type header'')
      else case RenderTemplate (he_denied he) (he_fmt he) ctx v of
        Inl e \<Rightarrow> Inl (EWrap (''render header '' @ quoted k) (EPath e))
      | Inr r \<Rightarrow> bindR (render_headers he ctx (seen \<or> is_content_type k) hs) (\<lambda>out.
          Inr ((k, go_text (he_fmt he) r) # out)))"

text \<open>The body of a form: the members of an object in key order, one field per array item.\<close>

definition formValue :: "http_env \<Rightarrow> json \<Rightarrow> string" where
  "formValue he v =
     (case v of
        JStr s \<Rightarrow> s
      | JInt i \<Rightarrow> Itoa i
      | JDec s \<Rightarrow> s
      | JBool b \<Rightarrow> (if b then ''true'' else ''false'')
      | _ \<Rightarrow> he_json he v)"

definition field_values :: "http_env \<Rightarrow> json \<Rightarrow> string list" where
  "field_values he v =
     (case v of
        JNull \<Rightarrow> []
      | JArr xs \<Rightarrow> map (formValue he) (filter (\<lambda>x. x \<noteq> JNull) xs)
      | _ \<Rightarrow> [formValue he v])"

definition formFields :: "http_env \<Rightarrow> body \<Rightarrow> go_err + (string \<times> string) list" where
  "formFields he b =
     (case b of
        Document (JObj m) \<Rightarrow> Inr (concat (map (\<lambda>(k, v). map (\<lambda>s. (k, s)) (field_values he v)) m))
      | _ \<Rightarrow> Inl (EText ''form body must render to a JSON object''))"

definition headerValue :: "(string \<times> string) list \<Rightarrow> string \<Rightarrow> string \<times> string" where
  "headerValue hs name =
     (case find (\<lambda>(k, v). to_lower k = to_lower name) hs of None \<Rightarrow> (name, []) | Some kv \<Rightarrow> kv)"

definition urlencoded_type :: string where
  "urlencoded_type = ''application/x-www-form-urlencoded''"

definition multipart_type :: string where
  "multipart_type = ''multipart/form-data''"

definition isFormMediaType :: "string \<Rightarrow> bool" where
  "isFormMediaType contentType =
     (let ct = to_lower (trim_space contentType)
      in list_ex (\<lambda>mt. ct = mt \<or>
           has_prefix ct mt \<and> hd (drop (length mt) ct) \<in> {CHR '';'', CHR '','', CHR '' '', CHR 0x09})
         [urlencoded_type, multipart_type])"

definition encodeHTTPBody ::
  "http_env \<Rightarrow> body \<Rightarrow> (string \<times> string) list \<Rightarrow> go_err + body \<times> (string \<times> string) list" where
  "encodeHTTPBody he b hs =
     (case headerValue hs ''Content-Type'' of (key, ct) \<Rightarrow>
        if ct = [] then Inr (b, hs)
        else case he_media he ct of
          None \<Rightarrow> if \<not> isFormMediaType ct then Inr (b, hs) else Inl (EText ''parse Content-Type'')
        | Some mt \<Rightarrow>
            if to_lower mt = urlencoded_type
            then bindR (formFields he b) (\<lambda>fs. Inr (Encoded (he_urlencode he fs), hs))
            else if to_lower mt = multipart_type
            then bindR (formFields he b) (\<lambda>fs. case he_multipart he fs of (s, t) \<Rightarrow> Inr (Encoded s, map_put key t hs))
            else Inr (b, hs))"

record http_config =
  hc_target :: string
  hc_method :: string
  hc_headers :: "(string \<times> string) list"
  hc_body :: body

definition render_string :: "http_env \<Rightarrow> string \<Rightarrow> gomap \<Rightarrow> string \<Rightarrow> go_err + string" where
  "render_string he what ctx s =
     (case RenderTemplate (he_denied he) (he_fmt he) ctx s of
        Inl e \<Rightarrow> Inl (EWrap (''render '' @ what) (EPath e))
      | Inr v \<Rightarrow> (case str_of v of None \<Rightarrow> Inl (EText (what @ '' rendered to a value, want string'')) | Some r \<Rightarrow> Inr r))"

definition render_target :: "http_env \<Rightarrow> gomap \<Rightarrow> string \<Rightarrow> go_err + string" where
  "render_target he ctx target =
     bindR (render_string he ''url'' ctx target) (\<lambda>s.
     case he_parse he s of
       Inl e \<Rightarrow> Inl (EWrap ''parse url'' (EText e))
     | Inr u \<Rightarrow>
         if \<not> web_scheme (u_scheme u) then Inl (EText (''url scheme '' @ quoted (u_scheme u) @ '' not allowed''))
         else if u_host u = [] then Inl (EText ''url has no host'')
         else Inr s)"

definition render_body :: "http_env \<Rightarrow> gomap \<Rightarrow> raw \<Rightarrow> go_err + body" where
  "render_body he ctx b =
     (case b of
        None \<Rightarrow> Inr NoBody
      | Some j \<Rightarrow> (case RenderJSON (he_denied he) (he_fmt he) ctx j of
          Inl (RenderPath e) \<Rightarrow> Inl (EWrap ''render body'' (EPath e))
        | Inl RenderEncode \<Rightarrow> Inl (EWrap ''render body'' EJson)
        | Inr v \<Rightarrow> Inr (Document v)))"

definition buildConfig ::
  "http_env \<Rightarrow> string \<Rightarrow> string \<Rightarrow> (string \<times> string) list \<Rightarrow> raw \<Rightarrow> gomap \<Rightarrow> go_err + http_config" where
  "buildConfig he target method headers body ctx =
     bindR (render_target he ctx target) (\<lambda>t.
     bindR (render_string he ''method'' ctx method) (\<lambda>ms.
     let m = to_upper (trim_space ms) in
     if m = [] then Inl (EText ''method is empty after rendering'')
     else
       bindR (render_headers he ctx False headers) (\<lambda>hs.
       bindR (render_body he ctx body) (\<lambda>b.
       case encodeHTTPBody he b hs of
         Inl e \<Rightarrow> Inl (EWrap ''encode body'' e)
       | Inr (b', hs') \<Rightarrow> Inr \<lparr>hc_target = t, hc_method = m, hc_headers = hs', hc_body = b'\<rparr>))))"

section \<open>Retries\<close>

text \<open>A \<open>time.Duration\<close>: 64 bits, so products wrap.\<close>

definition wrap64 :: "int \<Rightarrow> int" where
  "wrap64 i = sint (word_of_int i :: 64 word)"

text \<open>\<open>strconv.Atoi\<close>: an optional sign and digits within 64 bits.\<close>

definition Atoi :: "string \<Rightarrow> int option" where
  "Atoi s =
     (let neg = has_prefix s ''-''; d = (if neg \<or> has_prefix s ''+'' then drop 1 s else s); n = nat_of_digits d
      in if d = [] \<or> \<not> list_all is_digit d then None
         else if neg then (if n \<le> 2 ^ 63 then Some (- int n) else None)
         else if n < 2 ^ 63 then Some (int n) else None)"

definition parseRetryAfter :: "http_env \<Rightarrow> time \<Rightarrow> string \<Rightarrow> duration option" where
  "parseRetryAfter he now header =
     (let s = trim_space header in
      if s = [] then None
      else case Atoi s of
        Some secs \<Rightarrow> if secs < 0 then None else Some (wrap64 (seconds secs))
      | None \<Rightarrow> (case he_date he s of None \<Rightarrow> None | Some t \<Rightarrow> Some (max 0 (t - now))))"

definition retryBackoff :: "http_env \<Rightarrow> time \<Rightarrow> string \<Rightarrow> nat \<Rightarrow> duration" where
  "retryBackoff he now header attempt =
     (case parseRetryAfter he now header of Some d \<Rightarrow> d | None \<Rightarrow> 500000000 * 2 ^ attempt)"

text \<open>Whether the deadline of the call, or of its caller, has passed.\<close>

definition expired_at :: "http_env \<Rightarrow> time \<Rightarrow> nat \<Rightarrow> bool" where
  "expired_at he deadline t \<longleftrightarrow> he_cancelled he t \<or> deadline \<le> he_clock he t"

definition sleepForRetry :: "http_env \<Rightarrow> time \<Rightarrow> duration \<Rightarrow> bool out" where
  "sleepForRetry he deadline d = do {
     t \<leftarrow> out_tick;
     if d \<le> 0 then out_ret (\<not> expired_at he deadline t)
     else if deadline < he_clock he t + d then out_ret False
     else do { t' \<leftarrow> out_tick; out_ret (\<not> expired_at he deadline t') }
   }"

section \<open>Requests\<close>

definition acquire :: "http_env \<Rightarrow> string \<Rightarrow> http_err option out" where
  "acquire he host = do {
     t \<leftarrow> out_tick;
     if he_admits he t (to_lower host)
     then State (\<lambda>w. (None, w\<lparr>ow_held := ow_held w + 1\<rparr>))
     else out_ret (Some (HttpOverloaded ''executor: http bulkhead saturated''))
   }"

definition release :: "unit out" where
  "release = State (\<lambda>w. ((), w\<lparr>ow_held := ow_held w - 1\<rparr>))"

text \<open>\<open>client.Do\<close>: the request, and up to \<open>n\<close> redirects, each checked before it is followed.\<close>

fun follow :: "http_env \<Rightarrow> http_limits \<Rightarrow> nat \<Rightarrow> wire \<Rightarrow> (go_err + response) out" where
  "follow he lim 0 q = do {
     r \<leftarrow> transmit he q;
     case r of
       Broken e \<Rightarrow> out_ret (Inl (EText e))
     | Answered rs \<Rightarrow> out_ret (Inr rs)
     | Redirected q' \<Rightarrow> out_ret (Inl (EText ''too many redirects''))
   }"
| "follow he lim (Suc n) q = do {
     r \<leftarrow> transmit he q;
     case r of
       Broken e \<Rightarrow> out_ret (Inl (EText e))
     | Answered rs \<Rightarrow> out_ret (Inr rs)
     | Redirected q' \<Rightarrow> do {
         v \<leftarrow> validateTarget he lim (wi_url q');
         case v of Some e \<Rightarrow> out_ret (Inl e) | None \<Rightarrow> follow he lim n q'
       }
   }"

definition is_token :: "char \<Rightarrow> bool" where
  "is_token c \<longleftrightarrow> is_word c \<or> c \<in> set ''!#$%&*+-.^|~'' \<or> c = CHR 0x27 \<or> c = CHR 0x60"

definition cappedReader :: "int \<Rightarrow> string \<Rightarrow> string" where
  "cappedReader m s = (if m \<le> 0 then s else take (nat m) s)"

definition with_default :: "(string \<times> string) list \<Rightarrow> body \<Rightarrow> (string \<times> string) list" where
  "with_default hs b =
     (if b \<noteq> NoBody \<and> snd (headerValue hs ''Content-Type'') = []
      then map_put ''Content-Type'' ''application/json'' hs else hs)"

text \<open>A redirect is the second request at the earliest: \<open>len(via)\<close> is at least 1.\<close>

definition roundTrip :: "http_env \<Rightarrow> http_limits \<Rightarrow> http_config \<Rightarrow> (go_err + response) out" where
  "roundTrip he lim c =
     (if \<not> list_all is_token (hc_method c) then out_ret (Inl (EText (''invalid method '' @ quoted (hc_method c))))
      else case he_parse he (hc_target c) of
        Inl e \<Rightarrow> out_ret (Inl (EText e))
      | Inr u \<Rightarrow> do {
          r \<leftarrow> follow he lim (nat (hl_max_redirects lim - 1))
            \<lparr>wi_method = hc_method c, wi_url = u, wi_headers = with_default (hc_headers c) (hc_body c), wi_body = hc_body c\<rparr>;
          out_ret (case r of
            Inl e \<Rightarrow> Inl e
          | Inr rs \<Rightarrow> Inr (rs\<lparr>rs_body := cappedReader (hl_max_body lim) (rs_body rs)\<rparr>))
        })"

definition first_header :: "(string \<times> string list) list \<Rightarrow> string \<Rightarrow> string" where
  "first_header hs name = (case map_of hs name of Some (v # vs) \<Rightarrow> v | _ \<Rightarrow> [])"

definition maxHTTPRetries :: nat where
  "maxHTTPRetries = 2"

definition throttled :: "int \<Rightarrow> bool" where
  "throttled status \<longleftrightarrow> status = 429 \<or> status = 503"

text \<open>The loop of \<open>Do\<close> under a permit, with the number of retries left.\<close>

fun attempts :: "http_env \<Rightarrow> http_limits \<Rightarrow> http_config \<Rightarrow> string \<Rightarrow> time \<Rightarrow> bool \<Rightarrow> nat \<Rightarrow> (http_err + response) out" where
  "attempts he lim c host deadline retryable 0 = do {
     r \<leftarrow> roundTrip he lim c;
     _ \<leftarrow> release;
     out_ret (case r of Inl e \<Rightarrow> Inl (HttpFailed e) | Inr rs \<Rightarrow> Inr rs)
   }"
| "attempts he lim c host deadline retryable (Suc n) = do {
     r \<leftarrow> roundTrip he lim c;
     case r of
       Inl e \<Rightarrow> do { _ \<leftarrow> release; out_ret (Inl (HttpFailed e)) }
     | Inr rs \<Rightarrow>
         if \<not> retryable \<or> \<not> throttled (rs_status rs) then do { _ \<leftarrow> release; out_ret (Inr rs) }
         else do {
           t \<leftarrow> out_tick;
           _ \<leftarrow> release;
           again \<leftarrow> sleepForRetry he deadline
             (retryBackoff he (he_clock he t) (first_header (rs_headers rs) ''Retry-After'') (maxHTTPRetries - Suc n));
           if \<not> again then out_ret (Inr rs)
           else do {
             a \<leftarrow> acquire he host;
             case a of
               Some e \<Rightarrow> out_ret (Inr rs)
             | None \<Rightarrow> attempts he lim c host deadline retryable n
           }
         }
   }"

definition http_Do :: "http_env \<Rightarrow> http_limits \<Rightarrow> http_config \<Rightarrow> duration \<Rightarrow> (http_err + response) out" where
  "http_Do he lim c timeout =
     (case he_parse he (hc_target c) of
        Inl e \<Rightarrow> out_ret (Inl (HttpFailed (EText e)))
      | Inr u \<Rightarrow> do {
          v \<leftarrow> validateTarget he lim u;
          case v of
            Some e \<Rightarrow> out_ret (Inl (HttpFailed e))
          | None \<Rightarrow> do {
              t \<leftarrow> out_tick;
              a \<leftarrow> acquire he (u_host u);
              case a of
                Some e \<Rightarrow> out_ret (Inl e)
              | None \<Rightarrow> attempts he lim c (u_host u) (he_clock he t + timeout)
                  (to_upper (trim_space (hc_method c)) \<in> {''GET'', ''HEAD''}) maxHTTPRetries
            }
        })"

section \<open>External calls over HTTP\<close>

definition nodeTimeoutOf :: "NodeContent \<Rightarrow> duration" where
  "nodeTimeoutOf n = (if nTimeout (nfields n) > 0 then nTimeout (nfields n) else seconds 30)"

definition keyed_headers :: "string \<Rightarrow> (string \<times> string) list \<Rightarrow> (string \<times> string) list" where
  "keyed_headers key hs =
     fold (\<lambda>(k, v). map_put k v) hs (if key \<noteq> [] then [(''Idempotency-Key'', key)] else [])"

definition json_headers :: "(string \<times> string list) list \<Rightarrow> json" where
  "json_headers hs = JObj (map (\<lambda>(k, vs). (k, JArr (map JStr vs))) hs)"

definition body_value :: "http_env \<Rightarrow> string \<Rightarrow> json" where
  "body_value he s = (case he_decode he s of Some j \<Rightarrow> j | None \<Rightarrow> JStr s)"

definition http_result :: "http_env \<Rightarrow> response \<Rightarrow> json" where
  "http_result he rs = JObj
     [(''Body'', body_value he (rs_body rs)), (''Headers'', json_headers (rs_headers rs)), (''Status'', JInt (rs_status rs))]"

definition http_Execute :: "http_env \<Rightarrow> http_limits \<Rightarrow> Request \<Rightarrow> ((go_err \<times> Result option) + Result) out" where
  "http_Execute he lim req =
     (let n = rq_node req in
      case nHTTP (nfields n) of
        None \<Rightarrow> out_ret (Inl (node_err n ''http'' (EText ''no http config''), None))
      | Some cfg \<Rightarrow>
          case buildConfig he (http_url cfg) (http_method cfg) (http_headers cfg) (http_body cfg) (rq_context req) of
            Inl e \<Rightarrow> out_ret (Inl (node_err n ''http'' e, None))
          | Inr c \<Rightarrow> do {
              r \<leftarrow> http_Do he lim (c\<lparr>hc_headers := keyed_headers (rq_key req) (hc_headers c)\<rparr>) (nodeTimeoutOf n);
              out_ret (case r of
                Inl (HttpOverloaded m) \<Rightarrow> Inl (node_err n ''http-overload'' (EText m), None)
              | Inl (HttpFailed e) \<Rightarrow> Inl (node_err n ''http'' e, None)
              | Inr rs \<Rightarrow>
                  let res = \<lparr>re_output = OutValue (http_result he rs), re_context = None\<rparr> in
                  if nOnFailure (nfields n) \<noteq> None \<and> rs_status rs \<ge> 300
                  then Inl (node_err n ''http-status'' (EText (''http request failed with status '' @ Itoa (rs_status rs))), Some res)
                  else Inr res)
            })"

end
