(* ===== verification/Poller.thy ===== *)
theory Poller
  imports Outbound
begin

text \<open>
  \<open>executor/poller.go\<close>: HTTP, Redis and RabbitMQ pollers, which repeat a call or wait for a
  message until a predicate matches; and \<open>executor/command.go\<close>. The clients are parameters: a
  subscription is the list of what its \<open>select\<close> sees, in order.
\<close>

section \<open>Predicates\<close>

definition NormalizePollerBody :: "http_env \<Rightarrow> string \<Rightarrow> json" where
  "NormalizePollerBody he s = (if s \<noteq> [] then body_value he s else JStr s)"

definition NewHTTPPollerResponse :: "int \<Rightarrow> (string \<times> string list) list \<Rightarrow> json \<Rightarrow> json" where
  "NewHTTPPollerResponse status hs b = JObj
     ([(''body'', b), (''headers'', json_headers hs)] @ (if status = 0 then [] else [(''status'', JInt status)]))"

definition NewRedisPollerResponse :: "json \<Rightarrow> json" where
  "NewRedisPollerResponse b = JObj [(''body'', b)]"

definition NewRabbitPollerResponse :: "(string \<times> string) list \<Rightarrow> json \<Rightarrow> json" where
  "NewRabbitPollerResponse hs b = JObj [(''body'', b), (''headers'', JObj (map (\<lambda>(k, v). (k, JStr v)) hs))]"

text \<open>The \<open>i\<close>-th evaluation of the predicate of a node.\<close>

definition Evaluate :: "vm \<Rightarrow> nat \<Rightarrow> Request \<Rightarrow> string \<Rightarrow> json \<Rightarrow> go_err + bool" where
  "Evaluate vm i req until response =
     (case RunScript (vm i)
        \<lparr>so_source = until, so_context = rq_context req, so_timeout = nPredicateTimeout (nfields (rq_node req)),
         so_frozen = True, so_vars = [(''response'', response)], so_frozen_vars = [''response'']\<rparr> of
        Inl e \<Rightarrow> Inl e
      | Inr (_, JBool b) \<Rightarrow> Inr b
      | Inr _ \<Rightarrow> Inl (EText ''until must return a boolean''))"

definition templateData :: "Request \<Rightarrow> gomap" where
  "templateData req = map_put ''node_instance_id'' (JStr (rq_node_instance req))
     (map_put ''workflow_instance_id'' (JStr (rq_instance req)) (rq_context req))"

definition renderString :: "http_env \<Rightarrow> string \<Rightarrow> gomap \<Rightarrow> go_err + string" where
  "renderString he tpl ctx =
     (case RenderTemplate (he_denied he) (he_fmt he) ctx tpl of
        Inl e \<Rightarrow> Inl (EPath e)
      | Inr v \<Rightarrow> (case str_of v of None \<Rightarrow> Inl (EText ''template rendered to a value, want string'') | Some s \<Rightarrow> Inr (trim_space s)))"

section \<open>Attempts\<close>

text \<open>\<open>ctx.Err()\<close>.\<close>

definition ctx_err :: "http_env \<Rightarrow> go_err option out" where
  "ctx_err he = do { t \<leftarrow> out_tick; out_ret (if he_cancelled he t then Some (EText ''context canceled'') else None) }"

definition sleepCtx :: "http_env \<Rightarrow> duration \<Rightarrow> go_err option out" where
  "sleepCtx he d = (if d \<le> 0 then out_ret None else ctx_err he)"

definition poller_err :: "Request \<Rightarrow> go_err \<Rightarrow> go_err" where
  "poller_err req e = node_err (rq_node req) ''poller'' e"

definition exhausted :: "string \<Rightarrow> go_err option \<Rightarrow> go_err" where
  "exhausted name cause =
     (case cause of
        None \<Rightarrow> EText (name @ '' polling exhausted its attempts without a match'')
      | Some e \<Rightarrow> EWrap (name @ '' polling exhausted its attempts'') e)"

text \<open>The loop over attempts, with those left after this one and the number of this one.\<close>

fun poll_loop ::
  "http_env \<Rightarrow> vm \<Rightarrow> Request \<Rightarrow> string \<Rightarrow> duration \<Rightarrow> string \<Rightarrow> (go_err + json) out \<Rightarrow> nat \<Rightarrow> nat \<Rightarrow>
   (go_err + json) out" where
  "poll_loop he vm req until delay name fetch i 0 =
     out_ret (Inl (poller_err req (EText (name @ '' polling exhausted attempts''))))"
| "poll_loop he vm req until delay name fetch i (Suc n) = do {
     r \<leftarrow> fetch;
     case r of
       Inl e \<Rightarrow> do {
         c \<leftarrow> ctx_err he;
         case c of
           Some ce \<Rightarrow> out_ret (Inl ce)
         | None \<Rightarrow>
             if n = 0 then out_ret (Inl (poller_err req (exhausted name (Some e))))
             else do {
               s \<leftarrow> sleepCtx he delay;
               case s of Some se \<Rightarrow> out_ret (Inl se) | None \<Rightarrow> poll_loop he vm req until delay name fetch (Suc i) n
             }
       }
     | Inr resp \<Rightarrow>
         (case Evaluate vm i req until resp of
            Inl e \<Rightarrow> out_ret (Inl (node_err (rq_node req) ''poller-until'' e))
          | Inr matched \<Rightarrow>
              if matched then out_ret (Inr resp)
              else if n = 0 then out_ret (Inl (poller_err req (exhausted name None)))
              else do {
                s \<leftarrow> sleepCtx he delay;
                case s of Some se \<Rightarrow> out_ret (Inl se) | None \<Rightarrow> poll_loop he vm req until delay name fetch (Suc i) n
              })
   }"

definition fetch_http :: "http_env \<Rightarrow> http_limits \<Rightarrow> http_config \<Rightarrow> duration \<Rightarrow> (go_err + json) out" where
  "fetch_http he lim c timeout = do {
     r \<leftarrow> http_Do he lim c timeout;
     out_ret (case r of
       Inl (HttpOverloaded m) \<Rightarrow> Inl (EText m)
     | Inl (HttpFailed e) \<Rightarrow> Inl e
     | Inr rs \<Rightarrow> Inr (NewHTTPPollerResponse (rs_status rs) (rs_headers rs) (NormalizePollerBody he (rs_body rs))))
   }"

definition pollHTTP :: "http_env \<Rightarrow> http_limits \<Rightarrow> vm \<Rightarrow> Request \<Rightarrow> PollerHTTPConfig \<Rightarrow> (go_err + json) out" where
  "pollHTTP he lim vm req cfg =
     (case buildConfig he (ph_url cfg) (ph_method cfg) (ph_headers cfg) (ph_body cfg) (templateData req) of
        Inl e \<Rightarrow> out_ret (Inl (poller_err req e))
      | Inr c \<Rightarrow>
          poll_loop he vm req (ph_until cfg) (ph_delay cfg) ''http''
            (fetch_http he lim (c\<lparr>hc_headers := keyed_headers (rq_key req) (hc_headers c)\<rparr>) (ph_request_timeout cfg))
            0 (nat (ph_max_attempts cfg)))"

section \<open>Redis and RabbitMQ\<close>

datatype sub_event = SubMessage "(string \<times> string) list" string | SubElapsed | SubEnded "string option"

record poll_clients =
  pl_get :: "(nat \<Rightarrow> string \<Rightarrow> string + string option) option"
  pl_subscribe :: "nat \<Rightarrow> string \<Rightarrow> sub_event list"
  pl_consume :: "(nat \<Rightarrow> string \<Rightarrow> sub_event list) option"

text \<open>\<open>GET\<close> of a key; a missing key is a response with a null body.\<close>

definition fetch_redis :: "http_env \<Rightarrow> (nat \<Rightarrow> string \<Rightarrow> string + string option) \<Rightarrow> string \<Rightarrow> (go_err + json) out" where
  "fetch_redis he get key = do {
     t \<leftarrow> out_tick;
     _ \<leftarrow> State (\<lambda>w. ((), w\<lparr>ow_reads := ow_reads w @ [key]\<rparr>));
     out_ret (case get t key of
       Inl e \<Rightarrow> Inl (EText e)
     | Inr None \<Rightarrow> Inr (NewRedisPollerResponse JNull)
     | Inr (Some v) \<Rightarrow> Inr (NewRedisPollerResponse (NormalizePollerBody he v)))
   }"

definition rendered_name :: "http_env \<Rightarrow> Request \<Rightarrow> string \<Rightarrow> string \<Rightarrow> go_err + string" where
  "rendered_name he req what tpl =
     (case renderString he tpl (templateData req) of
        Inl e \<Rightarrow> Inl (poller_err req e)
      | Inr s \<Rightarrow> if s = [] then Inl (poller_err req (EText (what @ '' is empty after rendering''))) else Inr s)"

definition redisGet ::
  "http_env \<Rightarrow> (nat \<Rightarrow> string \<Rightarrow> string + string option) \<Rightarrow> vm \<Rightarrow> Request \<Rightarrow> PollerRedisConfig \<Rightarrow> (go_err + json) out" where
  "redisGet he get vm req cfg =
     (case rendered_name he req ''redis key'' (pr_key cfg) of
        Inl e \<Rightarrow> out_ret (Inl e)
      | Inr key \<Rightarrow>
          poll_loop he vm req (pr_until cfg) (pr_delay cfg) ''redis'' (fetch_redis he get key) 0 (nat (pr_max_attempts cfg)))"

text \<open>Messages in turn until one matches; the result and the number of messages handled.\<close>

fun consume ::
  "vm \<Rightarrow> Request \<Rightarrow> string \<Rightarrow> ((string \<times> string) list \<Rightarrow> string \<Rightarrow> json) \<Rightarrow> string \<Rightarrow> bool \<Rightarrow> nat \<Rightarrow> sub_event list \<Rightarrow>
   (go_err + json) \<times> nat" where
  "consume vm req until resp name cancelled i [] =
     (Inl (if cancelled then EText ''context canceled'' else poller_err req (EText (name @ '' elapsed without a match''))), i)"
| "consume vm req until resp name cancelled i (SubElapsed # es) =
     (Inl (if cancelled then EText ''context canceled'' else poller_err req (EText (name @ '' elapsed without a match''))), i)"
| "consume vm req until resp name cancelled i (SubEnded e # es) =
     (Inl (case e of
        Some m \<Rightarrow> poller_err req (EText m)
      | None \<Rightarrow> if cancelled then EText ''context canceled'' else poller_err req (EText (name @ '' ended without a match''))), i)"
| "consume vm req until resp name cancelled i (SubMessage hs b # es) =
     (case Evaluate vm i req until (resp hs b) of
        Inl e \<Rightarrow> (Inl (node_err (rq_node req) ''poller-until'' e), Suc i)
      | Inr True \<Rightarrow> (Inr (resp hs b), Suc i)
      | Inr False \<Rightarrow> consume vm req until resp name cancelled (Suc i) es)"

definition redisSub ::
  "http_env \<Rightarrow> poll_clients \<Rightarrow> vm \<Rightarrow> Request \<Rightarrow> PollerRedisConfig \<Rightarrow> (go_err + json) out" where
  "redisSub he cl vm req cfg =
     (case rendered_name he req ''redis channel'' (pr_channel cfg) of
        Inl e \<Rightarrow> out_ret (Inl e)
      | Inr channel \<Rightarrow> do {
          t \<leftarrow> out_tick;
          out_ret (fst (consume vm req (pr_until cfg) (\<lambda>_ b. NewRedisPollerResponse (NormalizePollerBody he b))
            ''redis subscription'' (he_cancelled he t) 0 (pl_subscribe cl t channel)))
        })"

definition pollRedis ::
  "http_env \<Rightarrow> poll_clients \<Rightarrow> vm \<Rightarrow> Request \<Rightarrow> PollerRedisConfig \<Rightarrow> (go_err + json) out" where
  "pollRedis he cl vm req cfg =
     (case pl_get cl of
        None \<Rightarrow> out_ret (Inl (poller_err req (EText ''redis polling client is not configured'')))
      | Some get \<Rightarrow> if pr_method cfg = ''SUB'' then redisSub he cl vm req cfg else redisGet he get vm req cfg)"

text \<open>Every delivery the handler saw is acknowledged, the one that matched or failed included.\<close>

definition pollRabbit ::
  "http_env \<Rightarrow> poll_clients \<Rightarrow> vm \<Rightarrow> Request \<Rightarrow> PollerRabbitMQConfig \<Rightarrow> (go_err + json) out" where
  "pollRabbit he cl vm req cfg =
     (case pl_consume cl of
        None \<Rightarrow> out_ret (Inl (poller_err req (EText ''rabbitmq polling client is not configured'')))
      | Some consumer \<Rightarrow>
          (case rendered_name he req ''rabbitmq queue'' (pq_queue cfg) of
             Inl e \<Rightarrow> out_ret (Inl e)
           | Inr queue \<Rightarrow> do {
               t \<leftarrow> out_tick;
               case consume vm req (pq_until cfg) (\<lambda>hs b. NewRabbitPollerResponse hs (NormalizePollerBody he b))
                 ''rabbitmq consumption'' (he_cancelled he t) 0 (consumer t queue) of
                 (r, n) \<Rightarrow> do { _ \<leftarrow> State (\<lambda>w. ((), w\<lparr>ow_acks := ow_acks w + n\<rparr>)); out_ret r }
             }))"

definition poller_Execute ::
  "http_env \<Rightarrow> http_limits \<Rightarrow> poll_clients \<Rightarrow> vm \<Rightarrow> Request \<Rightarrow> ((go_err \<times> Result option) + Result) out" where
  "poller_Execute he lim cl vm req = do {
     r \<leftarrow> (let f = nfields (rq_node req) in
       case nPollerHTTP f of
         Some cfg \<Rightarrow> pollHTTP he lim vm req cfg
       | None \<Rightarrow> (case nPollerRedis f of
           Some cfg \<Rightarrow> pollRedis he cl vm req cfg
         | None \<Rightarrow> (case nPollerRabbitMQ f of
             Some cfg \<Rightarrow> pollRabbit he cl vm req cfg
           | None \<Rightarrow> out_ret (Inl (poller_err req (EText ''poller node has no transport config''))))));
     out_ret (case r of Inl e \<Rightarrow> Inl (e, None) | Inr v \<Rightarrow> Inr \<lparr>re_output = OutValue v, re_context = None\<rparr>)
   }"

section \<open>Commands\<close>

text \<open>
  The file system and the processes: \<open>co_canonical\<close> resolves an absolute path through its links,
  \<open>co_run\<close> is what a process does: it does not start, or the chunks it writes to its two outputs,
  its exit code, whether it was still running at the deadline, and the error of waiting for it.
\<close>

datatype process = NotStarted string | Ended "string list" "string list" int bool "string option"

record commands =
  co_canonical :: "string \<Rightarrow> string option"
  co_run :: "nat \<Rightarrow> string \<Rightarrow> string list \<Rightarrow> string \<Rightarrow> process"
  co_allowlist :: "string list"
  co_max_output :: int

definition canonicalizeExecutable :: "commands \<Rightarrow> string \<Rightarrow> string option" where
  "canonicalizeExecutable co exe = (if has_prefix exe ''/'' then co_canonical co exe else None)"

text \<open>\<open>NewCommandExecutor\<close>: the canonical list, or a panic.\<close>

definition NewCommandExecutor :: "commands \<Rightarrow> string list option" where
  "NewCommandExecutor co =
     (let cs = map (canonicalizeExecutable co) (co_allowlist co)
      in if None \<in> set cs then None else Some (map the cs))"

definition allowedExecutable :: "commands \<Rightarrow> string list \<Rightarrow> string \<Rightarrow> string option" where
  "allowedExecutable co canonical exe =
     (case canonicalizeExecutable co exe of
        None \<Rightarrow> None
      | Some c \<Rightarrow> if c \<in> set canonical then Some c else None)"

record cappedBuffer =
  cb_buf :: string
  cb_truncated :: bool

definition cappedBuffer_Write :: "int \<Rightarrow> string \<Rightarrow> cappedBuffer \<Rightarrow> cappedBuffer" where
  "cappedBuffer_Write m p b =
     (if m > 0 \<and> int (length (cb_buf b)) + int (length p) > m
      then let remaining = m - int (length (cb_buf b))
           in b\<lparr>cb_buf := (if remaining > 0 then cb_buf b @ take (nat remaining) p else cb_buf b), cb_truncated := True\<rparr>
      else b\<lparr>cb_buf := cb_buf b @ p\<rparr>)"

definition captured :: "int \<Rightarrow> string list \<Rightarrow> cappedBuffer" where
  "captured m ps = fold (cappedBuffer_Write m) ps \<lparr>cb_buf = [], cb_truncated = False\<rparr>"

definition command_result :: "int \<Rightarrow> cappedBuffer \<Rightarrow> cappedBuffer \<Rightarrow> bool \<Rightarrow> json" where
  "command_result code stdout stderr timedOut = JObj
     [(''ExitCode'', JInt code), (''Stderr'', JStr (cb_buf stderr)), (''Stdout'', JStr (cb_buf stdout)),
      (''TimedOut'', JBool timedOut), (''Truncated'', JBool (cb_truncated stdout \<or> cb_truncated stderr))]"

definition render_stdin :: "http_env \<Rightarrow> gomap \<Rightarrow> string \<Rightarrow> go_err + string" where
  "render_stdin he ctx s =
     (if s = [] then Inr []
      else case RenderTemplate (he_denied he) (he_fmt he) ctx s of
        Inl e \<Rightarrow> Inl (EWrap ''render stdin'' (EPath e))
      | Inr v \<Rightarrow> Inr (go_text (he_fmt he) v))"

definition run_process :: "commands \<Rightarrow> string \<Rightarrow> string list \<Rightarrow> string \<Rightarrow> process out" where
  "run_process co exe args stdin = State (\<lambda>w.
     (co_run co (ow_tick w) exe args stdin, w\<lparr>ow_tick := Suc (ow_tick w), ow_ran := ow_ran w @ [(exe, args)]\<rparr>))"

definition command_Execute ::
  "http_env \<Rightarrow> commands \<Rightarrow> string list \<Rightarrow> Request \<Rightarrow> ((go_err \<times> Result option) + Result) out" where
  "command_Execute he co canonical req =
     (let n = rq_node req; fail = (\<lambda>e res. Inl (node_err n ''command'' e, res));
          cmd = (case nExecution (nfields n) of None \<Rightarrow> [] | Some c \<Rightarrow> exec_command c);
          tpl = (case nExecution (nfields n) of None \<Rightarrow> [] | Some c \<Rightarrow> exec_stdin c)
      in case cmd of
        [] \<Rightarrow> out_ret (fail (EText ''empty command'') None)
      | exe # args \<Rightarrow>
          (case allowedExecutable co canonical exe of
             None \<Rightarrow> out_ret (fail (EText (''executable '' @ quoted exe @ '' not in allowlist'')) None)
           | Some c \<Rightarrow>
               (case render_stdin he (rq_context req) tpl of
                  Inl e \<Rightarrow> out_ret (fail e None)
                | Inr stdin \<Rightarrow> do {
                    p \<leftarrow> run_process co c args stdin;
                    out_ret (case p of
                      NotStarted e \<Rightarrow> fail (EText e) None
                    | Ended outs errs code timedOut waitErr \<Rightarrow>
                        let res = \<lparr>re_output = OutValue (command_result code (captured (co_max_output co) outs)
                              (captured (co_max_output co) errs) timedOut), re_context = None\<rparr> in
                        if timedOut then fail (EText ''command timed out'') (Some res)
                        else (case waitErr of
                          Some e \<Rightarrow> fail (EWrap ''command failed'' (EText e)) (Some res)
                        | None \<Rightarrow> Inr res))
                  })))"

section \<open>The outside of the engine\<close>

text \<open>The executors as the engine's dispatch sees them, from a state of the outside.\<close>

definition outside_of ::
  "http_env \<Rightarrow> http_limits \<Rightarrow> poll_clients \<Rightarrow> commands \<Rightarrow> string list \<Rightarrow> vm \<Rightarrow> (string \<Rightarrow> outside) \<Rightarrow> out_world \<Rightarrow> Outside" where
  "outside_of he lim cl co canonical vm custom w =
     \<lparr>ou_http = (\<lambda>req. fst (run_state (http_Execute he lim req) w)),
      ou_command = (\<lambda>req. fst (run_state (command_Execute he co canonical req) w)),
      ou_poller = (\<lambda>req. fst (run_state (poller_Execute he lim cl vm req) w)), ou_custom = custom\<rparr>"

end
