(* ===== verification/OutboundSafety.thy ===== *)
theory OutboundSafety
  imports Poller
begin

text \<open>
  What reaches the outside: every request of an HTTP node or poller clears the target policy,
  redirects and retries included, permits are given back, a poller ends with a response its
  predicate accepted, and a command runs an allowed executable.
\<close>

section \<open>A logic of outside calls\<close>

definition url_ok :: "http_env \<Rightarrow> http_limits \<Rightarrow> url \<Rightarrow> bool" where
  "url_ok he lim u \<longleftrightarrow> web_scheme (u_scheme u) \<and> allowed lim (u_hostname u) (portOf u) \<and>
     (\<exists>t. he_lookup he t (u_hostname u) = None)"

text \<open>At most \<open>b\<close> calls out, and every request cleared; \<open>R\<close> relates the result and the permits gained.\<close>

definition obeys :: "http_env \<Rightarrow> http_limits \<Rightarrow> nat \<Rightarrow> 'a out \<Rightarrow> ('a \<Rightarrow> int \<Rightarrow> bool) \<Rightarrow> bool" where
  "obeys he lim b m R \<longleftrightarrow> (\<forall>w. case run_state m w of (r, w') \<Rightarrow>
     R r (ow_held w' - ow_held w) \<and>
     (\<exists>qs ks. ow_sent w' = ow_sent w @ qs \<and> ow_reads w' = ow_reads w @ ks \<and> length qs + length ks \<le> b \<and>
        list_all (\<lambda>q. url_ok he lim (wi_url q)) qs))"

lemma obeys_bind:
  assumes m: "obeys he lim p m T" and f: "\<And>x d. T x d \<Longrightarrow> obeys he lim k (f x) (\<lambda>y e. R y (d + e))"
    and b: "p + k \<le> b"
  shows "obeys he lim b (State_Monad.bind m f) R"
  unfolding obeys_def
proof
  fix w
  obtain x w1 where x: "run_state m w = (x, w1)" by (cases "run_state m w")
  obtain y w2 where y: "run_state (f x) w1 = (y, w2)" by (cases "run_state (f x) w1")
  from m x obtain qs ks where qs: "T x (ow_held w1 - ow_held w)" "ow_sent w1 = ow_sent w @ qs" "ow_reads w1 = ow_reads w @ ks"
    "length qs + length ks \<le> p" "list_all (\<lambda>q. url_ok he lim (wi_url q)) qs" unfolding obeys_def by (auto dest!: spec [of _ w])
  from f [OF qs(1)] y obtain ps ls where ps: "R y (ow_held w1 - ow_held w + (ow_held w2 - ow_held w1))"
    "ow_sent w2 = ow_sent w1 @ ps" "ow_reads w2 = ow_reads w1 @ ls" "length ps + length ls \<le> k"
    "list_all (\<lambda>q. url_ok he lim (wi_url q)) ps"
    unfolding obeys_def by (auto dest!: spec [of _ w1])
  show "case run_state (State_Monad.bind m f) w of (r, w') \<Rightarrow> R r (ow_held w' - ow_held w) \<and>
      (\<exists>qs ks. ow_sent w' = ow_sent w @ qs \<and> ow_reads w' = ow_reads w @ ks \<and> length qs + length ks \<le> b \<and>
        list_all (\<lambda>q. url_ok he lim (wi_url q)) qs)"
    using x y qs(2-5) ps b by (auto simp: State_Monad.bind_def intro!: exI [of _ "qs @ ps"])
qed

lemma obeys_weaken:
  assumes "obeys he lim b m R" "b \<le> c" "\<And>x d. R x d \<Longrightarrow> S x d"
  shows "obeys he lim c m S"
  unfolding obeys_def
proof
  fix w
  obtain r w' where r: "run_state m w = (r, w')" by (cases "run_state m w")
  with assms(1) obtain qs ks where "R r (ow_held w' - ow_held w)" "ow_sent w' = ow_sent w @ qs" "ow_reads w' = ow_reads w @ ks"
    "length qs + length ks \<le> b" "list_all (\<lambda>q. url_ok he lim (wi_url q)) qs" unfolding obeys_def by (auto dest!: spec [of _ w])
  with assms(2,3) r show "case run_state m w of (r, w') \<Rightarrow> S r (ow_held w' - ow_held w) \<and>
      (\<exists>qs ks. ow_sent w' = ow_sent w @ qs \<and> ow_reads w' = ow_reads w @ ks \<and> length qs + length ks \<le> c \<and>
        list_all (\<lambda>q. url_ok he lim (wi_url q)) qs)" by auto
qed

lemma obeys_ret: "R x 0 \<Longrightarrow> obeys he lim b (out_ret x) R"
  by (auto simp: obeys_def out_ret_def)

lemma obeys_tick: "obeys he lim b out_tick (\<lambda>_ d. d = 0)"
  by (auto simp: obeys_def out_tick_def)

lemma obeys_transmit: "url_ok he lim (wi_url q) \<Longrightarrow> obeys he lim 1 (transmit he q) (\<lambda>_ d. d = 0)"
  by (auto simp: obeys_def transmit_def)

lemma obeys_release: "obeys he lim b release (\<lambda>_ d. d = - 1)"
  by (auto simp: obeys_def release_def)

lemma obeys_acquire: "obeys he lim 0 (acquire he host) (\<lambda>a d. d = (if a = None then 1 else 0))"
  unfolding acquire_def
  by (rule obeys_bind [OF obeys_tick [of _ _ 0], where k = 0]) (auto simp: obeys_def out_ret_def)

lemma obeys_validate: "obeys he lim 0 (validateTarget he lim u) (\<lambda>v d. d = 0 \<and> (v = None \<longrightarrow> url_ok he lim u))"
  unfolding validateTarget_def
  by (auto intro!: obeys_ret obeys_bind [OF obeys_tick [of _ _ 0], where k = 0] simp: url_ok_def split: option.splits)

section \<open>Requests\<close>

lemma obeys_follow: "url_ok he lim (wi_url q) \<Longrightarrow> obeys he lim (Suc n) (follow he lim n q) (\<lambda>_ d. d = 0)"
proof (induction n arbitrary: q)
  case 0
  show ?case unfolding follow.simps
    by (rule obeys_bind [OF obeys_transmit [OF 0], where k = 0]) (auto intro: obeys_ret split: reply.split)
next
  case (Suc n)
  have step: "obeys he lim (Suc n) (do { v \<leftarrow> validateTarget he lim (wi_url q');
      case v of Some e \<Rightarrow> out_ret (Inl e) | None \<Rightarrow> follow he lim n q' }) (\<lambda>_ d. d = 0)" for q'
    by (rule obeys_bind [OF obeys_validate, where k = "Suc n"]) (auto intro: obeys_ret Suc.IH split: option.split)
  show ?case unfolding follow.simps
    by (rule obeys_bind [OF obeys_transmit [OF Suc.prems], where k = "Suc n"]) (auto intro: obeys_ret step split: reply.split)
qed

definition per_trip :: "http_limits \<Rightarrow> nat" where
  "per_trip lim = Suc (nat (hl_max_redirects lim - 1))"

definition target_ok :: "http_env \<Rightarrow> http_limits \<Rightarrow> http_config \<Rightarrow> bool" where
  "target_ok he lim c \<longleftrightarrow> (\<exists>u. he_parse he (hc_target c) = Inr u \<and> url_ok he lim u)"

lemma obeys_roundTrip: "target_ok he lim c \<Longrightarrow> obeys he lim (per_trip lim) (roundTrip he lim c) (\<lambda>_ d. d = 0)"
  unfolding roundTrip_def target_ok_def per_trip_def
  by (auto intro!: obeys_ret obeys_bind [OF obeys_follow, where k = 0] split: sum.split)

lemma obeys_sleep: "obeys he lim 0 (sleepForRetry he deadline d) (\<lambda>_ d. d = 0)"
  unfolding sleepForRetry_def
  by (rule obeys_bind [OF obeys_tick [of _ _ 0], where k = 0])
    (auto intro!: obeys_ret obeys_bind [OF obeys_tick [of _ _ 0], where k = 0])

lemma obeys_attempts:
  assumes c: "target_ok he lim c"
  shows "obeys he lim (Suc n * per_trip lim) (attempts he lim c host deadline retryable n) (\<lambda>_ d. d = - 1)"
proof (induction n)
  case 0
  show ?case unfolding attempts.simps
    by (rule obeys_bind [OF obeys_roundTrip [OF c], where k = 0], rule obeys_bind [OF obeys_release [of _ _ 0], where k = 0])
      (auto intro: obeys_ret)
next
  case (Suc n)
  have fin: "obeys he lim b (do { _ \<leftarrow> release; out_ret x }) (\<lambda>_ d. d = - 1)" for x :: "http_err + response" and b
    by (rule obeys_bind [OF obeys_release [of _ _ 0], where k = 0]) (auto intro: obeys_ret)
  have again: "obeys he lim (Suc n * per_trip lim) (do { a \<leftarrow> acquire he host;
      case a of Some e \<Rightarrow> out_ret x | None \<Rightarrow> attempts he lim c host deadline retryable n }) (\<lambda>_ d. d = 0)"
    for x :: "http_err + response"
    by (rule obeys_bind [OF obeys_acquire, where k = "Suc n * per_trip lim"])
      (auto intro: obeys_ret obeys_weaken [OF Suc.IH] split: option.split)
  have slept: "obeys he lim (Suc n * per_trip lim) (do { t \<leftarrow> out_tick; _ \<leftarrow> release; s \<leftarrow> sleepForRetry he deadline (f t);
      if \<not> s then out_ret x else do { a \<leftarrow> acquire he host;
        case a of Some e \<Rightarrow> out_ret x | None \<Rightarrow> attempts he lim c host deadline retryable n } }) (\<lambda>_ d. d = - 1)"
    for x :: "http_err + response" and f
    by (rule obeys_bind [OF obeys_tick [of _ _ 0], where k = "Suc n * per_trip lim"],
        rule obeys_bind [OF obeys_release [of _ _ 0], where k = "Suc n * per_trip lim"],
        rule obeys_bind [OF obeys_sleep, where k = "Suc n * per_trip lim"])
      (auto intro: obeys_ret obeys_weaken [OF again])
  show ?case unfolding attempts.simps
    by (rule obeys_bind [OF obeys_roundTrip [OF c], where k = "Suc n * per_trip lim"])
      (auto intro: fin obeys_weaken [OF fin] obeys_weaken [OF slept] split: sum.split)
qed

text \<open>Only \<open>GET\<close> and \<open>HEAD\<close> are sent again.\<close>

lemma obeys_once:
  assumes c: "target_ok he lim c"
  shows "obeys he lim (per_trip lim) (attempts he lim c host deadline False n) (\<lambda>_ d. d = - 1)"
proof (cases n)
  case 0
  with obeys_attempts [OF c, of 0] show ?thesis by simp
next
  case (Suc k)
  have fin: "obeys he lim 0 (do { _ \<leftarrow> release; out_ret x }) (\<lambda>_ d. d = - 1)" for x :: "http_err + response"
    by (rule obeys_bind [OF obeys_release [of _ _ 0], where k = 0]) (auto intro: obeys_ret)
  show ?thesis unfolding Suc attempts.simps
    by (rule obeys_bind [OF obeys_roundTrip [OF c], where k = 0]) (auto intro: fin split: sum.split)
qed

definition safe_method :: "http_config \<Rightarrow> bool" where
  "safe_method c \<longleftrightarrow> to_upper (trim_space (hc_method c)) \<in> {''GET'', ''HEAD''}"

definition do_bound :: "http_limits \<Rightarrow> http_config \<Rightarrow> nat" where
  "do_bound lim c = (if safe_method c then Suc maxHTTPRetries else 1) * per_trip lim"

lemma obeys_Do: "obeys he lim (do_bound lim c) (http_Do he lim c timeout) (\<lambda>_ d. d = 0)"
proof -
  have run: "obeys he lim (do_bound lim c) (do { t \<leftarrow> out_tick; a \<leftarrow> acquire he (u_host u);
      case a of Some e \<Rightarrow> out_ret (Inl e)
      | None \<Rightarrow> attempts he lim c (u_host u) (he_clock he t + timeout) (safe_method c) maxHTTPRetries }) (\<lambda>_ d. d = 0)"
    if "he_parse he (hc_target c) = Inr u" "url_ok he lim u" for u
  proof -
    have c: "target_ok he lim c" using that by (auto simp: target_ok_def)
    have go: "obeys he lim (do_bound lim c)
        (attempts he lim c (u_host u) deadline (safe_method c) maxHTTPRetries) (\<lambda>_ d. d = - 1)" for deadline
      using obeys_attempts [OF c, of maxHTTPRetries] obeys_once [OF c] by (simp add: do_bound_def)
    show ?thesis
      by (rule obeys_bind [OF obeys_tick [of _ _ 0], where k = "do_bound lim c"],
          rule obeys_bind [OF obeys_acquire, where k = "do_bound lim c"])
        (auto intro: obeys_ret obeys_weaken [OF go] split: option.split)
  qed
  show ?thesis
    unfolding http_Do_def safe_method_def [symmetric]
    by (auto intro!: obeys_ret obeys_bind [OF obeys_validate, where k = "do_bound lim c"] run split: sum.split option.split)
qed

text \<open>A node sends what one call may send, a poller that for each attempt.\<close>

definition node_bound :: "http_limits \<Rightarrow> nat" where
  "node_bound lim = Suc maxHTTPRetries * per_trip lim"

lemma do_bound_node: "do_bound lim c \<le> node_bound lim"
  by (simp add: do_bound_def node_bound_def)

lemma obeys_Do_node: "obeys he lim (node_bound lim) (http_Do he lim c timeout) (\<lambda>_ d. d = 0)"
  by (rule obeys_weaken [OF obeys_Do do_bound_node])

lemma obeys_http: "obeys he lim (node_bound lim) (http_Execute he lim req) (\<lambda>_ d. d = 0)"
  unfolding http_Execute_def Let_def
  by (auto intro!: obeys_ret obeys_bind [OF obeys_Do_node, where k = 0] split: option.split sum.split)

section \<open>Pollers\<close>

definition matched :: "vm \<Rightarrow> Request \<Rightarrow> string \<Rightarrow> go_err + json \<Rightarrow> bool" where
  "matched vm req until r \<longleftrightarrow> (\<forall>v. r = Inr v \<longrightarrow> (\<exists>i. Evaluate vm i req until v = Inr True))"

lemma matched_Inl [simp]: "matched vm req until (Inl e)"
  by (simp add: matched_def)

lemma obeys_ctx_err: "obeys he lim 0 (ctx_err he) (\<lambda>_ d. d = 0)"
  unfolding ctx_err_def by (rule obeys_bind [OF obeys_tick [of _ _ 0], where k = 0]) (auto intro: obeys_ret)

lemma obeys_sleepCtx: "obeys he lim 0 (sleepCtx he delay) (\<lambda>_ d. d = 0)"
  unfolding sleepCtx_def by (auto intro: obeys_ret obeys_ctx_err)

lemma obeys_poll:
  assumes f: "obeys he lim b fetch (\<lambda>_ d. d = 0)"
  shows "obeys he lim (n * b) (poll_loop he vm req until delay name fetch i n) (\<lambda>r d. d = 0 \<and> matched vm req until r)"
proof (induction n arbitrary: i)
  case 0
  show ?case by (auto intro: obeys_ret)
next
  case (Suc n)
  let ?loop = "poll_loop he vm req until delay name fetch (Suc i) n"
  have nap: "obeys he lim (n * b) (do { s \<leftarrow> sleepCtx he delay; case s of Some se \<Rightarrow> out_ret (Inl se) | None \<Rightarrow> ?loop })
      (\<lambda>r d. d = 0 \<and> matched vm req until r)"
    by (rule obeys_bind [OF obeys_sleepCtx, where k = "n * b"]) (auto intro: obeys_ret Suc.IH split: option.split)
  have failed: "obeys he lim (n * b) (do { c \<leftarrow> ctx_err he; case c of Some ce \<Rightarrow> out_ret (Inl ce)
      | None \<Rightarrow> if n = 0 then out_ret (Inl (g e)) else do { s \<leftarrow> sleepCtx he delay;
          case s of Some se \<Rightarrow> out_ret (Inl se) | None \<Rightarrow> ?loop } }) (\<lambda>r d. d = 0 \<and> matched vm req until r)"
    for g and e :: go_err
    by (rule obeys_bind [OF obeys_ctx_err, where k = "n * b"]) (auto intro: obeys_ret nap split: option.split)
  have hit: "matched vm req until (Inr resp)" if "Evaluate vm i req until resp = Inr True" for resp
    using that by (auto simp: matched_def)
  show ?case unfolding poll_loop.simps
  proof (rule obeys_bind [OF f, where k = "n * b"], goal_cases)
    case (1 r d)
    show ?case
    proof (cases r)
      case (Inl e)
      show ?thesis unfolding Inl sum.case 1 add_0 by (rule failed)
    next
      case (Inr resp)
      show ?thesis unfolding Inr sum.case 1 add_0 by (auto intro: obeys_ret nap hit split: sum.split)
    qed
  qed simp
qed

lemma obeys_fetch_http: "obeys he lim (node_bound lim) (fetch_http he lim c timeout) (\<lambda>_ d. d = 0)"
  unfolding fetch_http_def
  by (rule obeys_bind [OF obeys_Do_node, where k = 0]) (auto intro: obeys_ret)

lemma obeys_read: "obeys he lim 1 (State (\<lambda>w. ((), w\<lparr>ow_reads := ow_reads w @ [key]\<rparr>))) (\<lambda>_ d. d = 0)"
  by (auto simp: obeys_def)

lemma obeys_frame: "(\<And>w. ow_sent (f w) = ow_sent w \<and> ow_held (f w) = ow_held w \<and> ow_reads (f w) = ow_reads w) \<Longrightarrow>
    obeys he lim 0 (State (\<lambda>w. ((), f w))) (\<lambda>_ d. d = 0)"
  by (auto simp: obeys_def)

lemma obeys_fetch_redis: "obeys he lim 1 (fetch_redis he get key) (\<lambda>_ d. d = 0)"
  unfolding fetch_redis_def
  by (rule obeys_bind [OF obeys_tick [of _ _ 0], where k = 1], rule obeys_bind [OF obeys_read, where k = 0])
    (auto intro: obeys_ret)

lemma consume_matched: "matched vm req until (fst (consume vm req until resp name cancelled i es))"
  by (induction vm req until resp name cancelled i es rule: consume.induct)
    (auto simp: matched_def split: sum.split bool.split)

text \<open>The predicate of a poller node, and how often it may call out.\<close>

definition until_of :: "node_fields \<Rightarrow> string" where
  "until_of f = (case nPollerHTTP f of Some c \<Rightarrow> ph_until c | None \<Rightarrow> (case nPollerRedis f of Some c \<Rightarrow> pr_until c
     | None \<Rightarrow> (case nPollerRabbitMQ f of Some c \<Rightarrow> pq_until c | None \<Rightarrow> [])))"

definition poller_bound :: "http_limits \<Rightarrow> node_fields \<Rightarrow> nat" where
  "poller_bound lim f = (case nPollerHTTP f of Some c \<Rightarrow> nat (ph_max_attempts c) * node_bound lim
     | None \<Rightarrow> (case nPollerRedis f of Some c \<Rightarrow> nat (pr_max_attempts c) | None \<Rightarrow> 0))"

lemma obeys_redis: "obeys he lim (nat (pr_max_attempts cfg)) (pollRedis he cl vm req cfg) (\<lambda>r d. d = 0 \<and> matched vm req (pr_until cfg) r)"
proof -
  have get: "obeys he lim (nat (pr_max_attempts cfg)) (redisGet he get vm req cfg) (\<lambda>r d. d = 0 \<and> matched vm req (pr_until cfg) r)"
    for get unfolding redisGet_def using obeys_poll [OF obeys_fetch_redis, where n = "nat (pr_max_attempts cfg)"]
    by (auto intro: obeys_ret split: sum.split)
  have sub: "obeys he lim 0 (redisSub he cl vm req cfg) (\<lambda>r d. d = 0 \<and> matched vm req (pr_until cfg) r)"
    unfolding redisSub_def
    by (auto intro!: obeys_ret obeys_bind [OF obeys_tick [of _ _ 0], where k = 0] consume_matched split: sum.split)
  show ?thesis unfolding pollRedis_def
    by (auto intro: get obeys_weaken [OF sub, of "nat (pr_max_attempts cfg)"] obeys_ret split: option.split)
qed

lemma obeys_rabbit: "obeys he lim 0 (pollRabbit he cl vm req cfg) (\<lambda>r d. d = 0 \<and> matched vm req (pq_until cfg) r)"
proof -
  have "obeys he lim 0 (case consume vm req (pq_until cfg) resp name cancelled i es of
      (r, n) \<Rightarrow> do { _ \<leftarrow> State (\<lambda>w. ((), w\<lparr>ow_acks := ow_acks w + n\<rparr>)); out_ret r })
      (\<lambda>r d. d = 0 \<and> matched vm req (pq_until cfg) r)" for resp name cancelled i es
    using consume_matched [of vm req "pq_until cfg" resp name cancelled i es]
    by (auto intro!: obeys_ret obeys_bind [OF obeys_frame, where k = 0] split: prod.split)
  then show ?thesis unfolding pollRabbit_def
    by (auto intro!: obeys_ret obeys_bind [OF obeys_tick [of _ _ 0], where k = 0] split: option.split sum.split)
qed

lemma obeys_poller:
  "obeys he lim (poller_bound lim (nfields (rq_node req))) (poller_Execute he lim cl vm req)
     (\<lambda>r d. d = 0 \<and> (case r of Inl e \<Rightarrow> True | Inr res \<Rightarrow>
        \<exists>v i. re_output res = OutValue v \<and> Evaluate vm i req (until_of (nfields (rq_node req))) v = Inr True))"
proof -
  let ?f = "nfields (rq_node req)"
  have http: "obeys he lim (nat (ph_max_attempts cfg) * node_bound lim) (pollHTTP he lim vm req cfg)
      (\<lambda>r d. d = 0 \<and> matched vm req (ph_until cfg) r)" for cfg
    unfolding pollHTTP_def by (auto intro: obeys_ret obeys_poll [OF obeys_fetch_http] split: sum.split)
  show ?thesis
    unfolding poller_Execute_def Let_def
  proof (rule obeys_bind [where k = 0])
    show "obeys he lim (poller_bound lim ?f) (case nPollerHTTP ?f of
        None \<Rightarrow> (case nPollerRedis ?f of
          None \<Rightarrow> (case nPollerRabbitMQ ?f of
            None \<Rightarrow> out_ret (Inl (poller_err req (EText ''poller node has no transport config'')))
          | Some x \<Rightarrow> pollRabbit he cl vm req x)
        | Some x \<Rightarrow> pollRedis he cl vm req x)
      | Some x \<Rightarrow> pollHTTP he lim vm req x) (\<lambda>r d. d = 0 \<and> matched vm req (until_of ?f) r)"
      by (auto intro: obeys_ret http obeys_redis obeys_rabbit simp: poller_bound_def until_of_def split: option.split)
  qed (auto intro!: obeys_ret simp: matched_def split: sum.split)
qed

section \<open>Commands\<close>

text \<open>A capped buffer holds the first \<open>m\<close> bytes written, however they were cut into chunks.\<close>

lemma Write_capped:
  "b = \<lparr>cb_buf = cappedReader m s, cb_truncated = (0 < m \<and> m < int (length s))\<rparr> \<Longrightarrow>
   cappedBuffer_Write m p b = \<lparr>cb_buf = cappedReader m (s @ p), cb_truncated = (0 < m \<and> m < int (length (s @ p)))\<rparr>"
  by (cases "m \<le> 0"; cases "int (length s) \<le> m")
    (auto simp: cappedBuffer_Write_def cappedReader_def Let_def nat_diff_distrib')

lemma captured_from:
  "fold (cappedBuffer_Write m) ps \<lparr>cb_buf = cappedReader m s, cb_truncated = (0 < m \<and> m < int (length s))\<rparr> =
   \<lparr>cb_buf = cappedReader m (s @ concat ps), cb_truncated = (0 < m \<and> m < int (length (s @ concat ps)))\<rparr>"
proof (induction ps arbitrary: s)
  case (Cons p ps)
  show ?case using Cons.IH [of "s @ p"] by (simp add: Write_capped [OF refl] del: length_append)
qed simp

lemma captured_exact:
  "captured m ps = \<lparr>cb_buf = cappedReader m (concat ps), cb_truncated = (0 < m \<and> m < int (length (concat ps)))\<rparr>"
proof -
  have empty: "cappedReader m [] = []" "(0 < m \<and> m < int (length ([] :: string))) = False" by (simp_all add: cappedReader_def)
  show ?thesis using captured_from [of m ps "[]"] unfolding captured_def empty append_Nil .
qed

definition command_allowed :: "commands \<Rightarrow> string \<times> string list \<Rightarrow> bool" where
  "command_allowed co p \<longleftrightarrow> (case p of (c, args) \<Rightarrow> Some c \<in> canonicalizeExecutable co ` set (co_allowlist co))"

lemma command_runs:
  assumes "NewCommandExecutor co = Some cs"
  shows "case run_state (command_Execute he co cs req) w of (r, w') \<Rightarrow>
    \<exists>ps. ow_ran w' = ow_ran w @ ps \<and> length ps \<le> 1 \<and> list_all (command_allowed co) ps"
proof -
  have cs: "Some c \<in> canonicalizeExecutable co ` set (co_allowlist co)" if "c \<in> set cs" for c
    using assms that by (auto simp: NewCommandExecutor_def Let_def image_iff split: if_split_asm) (metis option.exhaust_sel)
  show ?thesis
    using cs by (auto simp: command_Execute_def Let_def out_ret_def run_process_def State_Monad.bind_def
        allowedExecutable_def command_allowed_def split: option.splits list.splits sum.splits prod.splits if_splits)
qed

section \<open>Properties\<close>

text \<open>
  C15. Nothing leaves the process unchecked: every request an HTTP node or a poller sends, those
  after redirects, retries and between attempts included, goes over http or https to a target of
  the allowlist that resolves, their number is bounded by the retries, redirects and attempts, a
  request other than GET and HEAD is not sent again, and every permit of the bulkhead is given back.
\<close>

theorem outbound_policy:
  "(case run_state (http_Execute he lim req) w of (r, w') \<Rightarrow> ow_held w' = ow_held w \<and>
     (\<exists>qs. ow_sent w' = ow_sent w @ qs \<and> length qs \<le> 3 * (1 + nat (hl_max_redirects lim - 1)) \<and>
        list_all (\<lambda>q. url_ok he lim (wi_url q)) qs)) \<and>
   (case run_state (poller_Execute he lim cl vm req) w of (r, w') \<Rightarrow> ow_held w' = ow_held w \<and>
     (\<exists>qs. ow_sent w' = ow_sent w @ qs \<and> length qs \<le> poller_bound lim (nfields (rq_node req)) \<and>
        list_all (\<lambda>q. url_ok he lim (wi_url q)) qs)) \<and>
   (case run_state (http_Do he lim c timeout) w of (r, w') \<Rightarrow>
     safe_method c \<or> length (ow_sent w') \<le> length (ow_sent w) + (1 + nat (hl_max_redirects lim - 1)))"
proof (intro conjI)
  have b: "node_bound lim = 3 * (1 + nat (hl_max_redirects lim - 1))"
    by (simp add: node_bound_def per_trip_def maxHTTPRetries_def)
  show "case run_state (http_Execute he lim req) w of (r, w') \<Rightarrow> ow_held w' = ow_held w \<and>
     (\<exists>qs. ow_sent w' = ow_sent w @ qs \<and> length qs \<le> 3 * (1 + nat (hl_max_redirects lim - 1)) \<and>
        list_all (\<lambda>q. url_ok he lim (wi_url q)) qs)"
    using obeys_http [where he = he and lim = lim and req = req] unfolding obeys_def b [symmetric]
    by (auto dest!: spec [of _ w])
  show "case run_state (poller_Execute he lim cl vm req) w of (r, w') \<Rightarrow> ow_held w' = ow_held w \<and>
     (\<exists>qs. ow_sent w' = ow_sent w @ qs \<and> length qs \<le> poller_bound lim (nfields (rq_node req)) \<and>
        list_all (\<lambda>q. url_ok he lim (wi_url q)) qs)"
    using obeys_poller [of he lim req cl vm] unfolding obeys_def by (auto dest!: spec [of _ w])
  show "case run_state (http_Do he lim c timeout) w of (r, w') \<Rightarrow>
     safe_method c \<or> length (ow_sent w') \<le> length (ow_sent w) + (1 + nat (hl_max_redirects lim - 1))"
    using obeys_Do [of he lim c timeout] unfolding obeys_def
    by (cases "safe_method c") (auto dest!: spec [of _ w] simp: do_bound_def per_trip_def)
qed

text \<open>
  C17. A poller succeeds only with a response its predicate accepted, and calls out at most as
  often as its attempts allow.
\<close>

theorem poller_contract:
  assumes "run_state (poller_Execute he lim cl vm req) w = (r, w')"
  shows "length (ow_sent w') + length (ow_reads w') \<le>
      length (ow_sent w) + length (ow_reads w) + poller_bound lim (nfields (rq_node req)) \<and>
    (case r of
       Inl e \<Rightarrow> True
     | Inr res \<Rightarrow> \<exists>v i. re_output res = OutValue v \<and> Evaluate vm i req (until_of (nfields (rq_node req))) v = Inr True)"
  using obeys_poller [of he lim req cl vm] assms unfolding obeys_def by (auto dest!: spec [of _ w])

text \<open>A poller of a Redis key that holds the awaited value at the second attempt.\<close>

definition quiet_http :: http_env where
  "quiet_http = \<lparr>he_denied = (\<lambda>_. False), he_fmt = (\<lambda>_. []), he_parse = (\<lambda>_. Inl ''no url''), he_lookup = (\<lambda>_ _. None),
     he_media = (\<lambda>_. None), he_urlencode = (\<lambda>_. []), he_multipart = (\<lambda>_. ([], [])), he_json = (\<lambda>_. []),
     he_decode = (\<lambda>_. None), he_date = (\<lambda>_. None), he_clock = int, he_cancelled = (\<lambda>_. False),
     he_admits = (\<lambda>_ _. True), he_reply = (\<lambda>_ _. Broken ''refused'')\<rparr>"

definition quiet_limits :: http_limits where
  "quiet_limits = \<lparr>hl_allowlist = [], hl_max_redirects = 5, hl_max_body = 1024\<rparr>"

definition key_get :: "nat \<Rightarrow> string \<Rightarrow> string + string option" where
  "key_get t key = Inr (if t < 2 then None else Some ''ready'')"

definition key_clients :: poll_clients where
  "key_clients = \<lparr>pl_get = Some key_get, pl_subscribe = (\<lambda>_ _. []), pl_consume = None\<rparr>"

definition key_config :: PollerRedisConfig where
  "key_config = \<lparr>pr_method = ''GET'', pr_key = ''job:{{ workflow_instance_id }}'', pr_channel = [], pr_delay = seconds 1,
     pr_request_timeout = seconds 5, pr_max_attempts = 3, pr_max_wait = 0, pr_until = ''response.body != null''\<rparr>"

definition key_request :: Request where
  "key_request = \<lparr>rq_node = NodeContent ((plain_node NTPoller ''p'')\<lparr>nPredicateTimeout := seconds 5,
       nPollerRedis := Some key_config\<rparr>) None,
     rq_context = [], rq_vars = [], rq_payload = [], rq_key = ''k'', rq_instance = ''i'', rq_node_instance = ''n''\<rparr>"

definition key_vm :: vm where
  "key_vm i opts = VmReturned [] (JBool (map_of (so_vars opts) ''response'' \<noteq> Some (JObj [(''body'', JNull)])))"

definition start_out :: out_world where
  "start_out = \<lparr>ow_tick = 0, ow_sent = [], ow_held = 0, ow_reads = [], ow_acks = 0, ow_ran = []\<rparr>"

lemma key_rendered: "rendered_name quiet_http key_request ''redis key'' (pr_key key_config) = Inr ''job:i''"
  by (simp add: rendered_name_def renderString_def RenderTemplate_def placeholders.simps render_text.simps placeholder_at_def
      Get_def Parse_def trim_space_def is_space_def match_token_def is_word_def go_text_def Let_def templateData_def str_of_def
      key_config_def key_request_def)

lemma key_polled:
  "poller_Execute quiet_http lim key_clients vm key_request = do {
     r \<leftarrow> poll_loop quiet_http vm key_request (pr_until key_config) (pr_delay key_config) ''redis''
       (fetch_redis quiet_http key_get ''job:i'') 0 3;
     out_ret (case r of Inl e \<Rightarrow> Inl (e, None) | Inr v \<Rightarrow> Inr \<lparr>re_output = OutValue v, re_context = None\<rparr>) }"
proof -
  have "nPollerHTTP (nfields (rq_node key_request)) = None" "nPollerRedis (nfields (rq_node key_request)) = Some key_config"
    by (simp_all add: key_request_def plain_node_def)
  moreover have "pr_method key_config \<noteq> ''SUB''" "nat (pr_max_attempts key_config) = 3" by (simp_all add: key_config_def)
  ultimately show ?thesis
    by (simp add: poller_Execute_def pollRedis_def redisGet_def key_rendered key_clients_def)
qed

lemma poller_contract_witness:
  "\<exists>w'. run_state (poller_Execute quiet_http quiet_limits key_clients key_vm key_request) start_out =
      (Inr \<lparr>re_output = OutValue (JObj [(''body'', JStr ''ready'')]), re_context = None\<rparr>, w') \<and>
    ow_reads w' = [''job:i'', ''job:i''] \<and> length (ow_sent w') + length (ow_reads w') \<le> 3"
proof -
  let ?l = "run_state (poll_loop quiet_http key_vm key_request (pr_until key_config) (pr_delay key_config) ''redis''
       (fetch_redis quiet_http key_get ''job:i'') 0 3) start_out"
  have "fst ?l = Inr (JObj [(''body'', JStr ''ready'')]) \<and> ow_reads (snd ?l) = [''job:i'', ''job:i'']" by code_simp
  then obtain w' where l: "?l = (Inr (JObj [(''body'', JStr ''ready'')]), w')" "ow_reads w' = [''job:i'', ''job:i'']"
    by (cases ?l) simp
  have run: "run_state (poller_Execute quiet_http quiet_limits key_clients key_vm key_request) start_out =
      (Inr \<lparr>re_output = OutValue (JObj [(''body'', JStr ''ready'')]), re_context = None\<rparr>, w')"
    using l(1) by (simp add: key_polled State_Monad.bind_def out_ret_def)
  have "poller_bound quiet_limits (nfields (rq_node key_request)) = 3"
    by (simp add: poller_bound_def key_request_def plain_node_def key_config_def)
  with poller_contract [OF run] have "length (ow_sent w') + length (ow_reads w') \<le> 3" by (simp add: start_out_def)
  with run l(2) show ?thesis by blast
qed

text \<open>
  Commands are contained: only an executable whose resolved path is that of an entry of the
  allowlist runs, at most one for a node, and of what it writes exactly the first bytes up to the
  cap are kept, however it wrote them, with a mark when bytes were dropped.
\<close>

theorem commands_contained:
  assumes "NewCommandExecutor co = Some cs"
  shows "(case run_state (command_Execute he co cs req) w of (r, w') \<Rightarrow>
      \<exists>ps. ow_ran w' = ow_ran w @ ps \<and> length ps \<le> 1 \<and> list_all (command_allowed co) ps) \<and>
    captured m outs = \<lparr>cb_buf = cappedReader m (concat outs), cb_truncated = (0 < m \<and> m < int (length (concat outs)))\<rparr>"
  using command_runs [OF assms, where he = he and req = req and w = w] captured_exact [of m outs] by simp

text \<open>An allowlist with a link, and the command it names.\<close>

definition sample_exec :: commands where
  "sample_exec = \<lparr>co_canonical = (\<lambda>p. if p = ''/bin/tool'' \<or> p = ''/usr/bin/tool'' then Some ''/usr/bin/tool'' else Some p),
     co_run = (\<lambda>_ _ _ _. Ended [''abc'', ''def''] [] 0 False None), co_allowlist = [''/bin/tool''], co_max_output = 4\<rparr>"

definition tool_request :: Request where
  "tool_request = key_request\<lparr>rq_node := NodeContent ((plain_node NTExternalCall ''c'')\<lparr>nExecution :=
     Some \<lparr>exec_command = [''/usr/bin/tool'', ''-v''], exec_stdin = []\<rparr>\<rparr>) None\<rparr>"

lemma commands_contained_witness:
  "ow_ran (snd (run_state (command_Execute quiet_http sample_exec [''/usr/bin/tool''] tool_request) start_out)) =
     [(''/usr/bin/tool'', [''-v''])] \<and>
   list_all (command_allowed sample_exec) [(''/usr/bin/tool'', [''-v''])] \<and>
   captured 4 [''abc'', ''def''] = \<lparr>cb_buf = ''abcd'', cb_truncated = True\<rparr>"
proof -
  have new: "NewCommandExecutor sample_exec = Some [''/usr/bin/tool'']" by code_simp
  have ran: "ow_ran (snd (run_state (command_Execute quiet_http sample_exec [''/usr/bin/tool''] tool_request) start_out)) =
     [(''/usr/bin/tool'', [''-v''])]"
    by (simp add: command_Execute_def tool_request_def key_request_def plain_node_def allowedExecutable_def
        canonicalizeExecutable_def sample_exec_def render_stdin_def run_process_def State_Monad.bind_def out_ret_def
        start_out_def Let_def)
  from commands_contained [OF new, where he = quiet_http and req = tool_request and w = start_out and m = 4
      and outs = "[''abc'', ''def'']"] ran
  show ?thesis by (auto simp: start_out_def cappedReader_def split: prod.splits)
qed

text \<open>
  A delay of the header past the 64 bits of a duration wraps to a negative one, so the retry the
  header asked to put off is sent at once.
\<close>

lemma retry_after_wraps:
  "retryBackoff he now ''10000000000'' attempt = -8446744073709551616"
  by (simp add: retryBackoff_def parseRetryAfter_def trim_space_def is_space_def Atoi_def nat_of_digits_def is_digit_def
      Let_def wrap64_def seconds_def)

end
