(* ===== verification/Bulkhead.thy ===== *)
theory Bulkhead
  imports Cursor
begin

text \<open>
  \<open>executor/httpbulkhead.go\<close>: the caps on outbound calls in flight, one for the process and one per
  host, shared by any number of concurrent calls. A call takes a global slot, then a slot of its
  host's bucket, and gives both back; a wait ends when its deadline passes. Each channel operation
  and each locked section is one step.
\<close>

section \<open>The caps\<close>

definition DefaultHTTPMaxInFlight :: int where
  "DefaultHTTPMaxInFlight = 128"

definition DefaultHTTPMaxInFlightPerHost :: int where
  "DefaultHTTPMaxInFlightPerHost = 16"

definition maxHTTPHostBuckets :: nat where
  "maxHTTPHostBuckets = 4096"

datatype bucket = HostBucket string | OverflowBucket

text \<open>Slots used: of the process, and of each bucket; the hosts that have a bucket of their own.\<close>

record HTTPBulkhead =
  bh_cap :: nat
  bh_per_host :: nat
  bh_global :: nat
  bh_hosts :: "string list"
  bh_used :: "bucket \<Rightarrow> nat"

definition NewHTTPBulkhead :: "int \<Rightarrow> int \<Rightarrow> HTTPBulkhead" where
  "NewHTTPBulkhead global perHost =
     \<lparr>bh_cap = nat (if global \<le> 0 then DefaultHTTPMaxInFlight else global),
      bh_per_host = nat (if perHost \<le> 0 then DefaultHTTPMaxInFlightPerHost else perHost),
      bh_global = 0, bh_hosts = [], bh_used = (\<lambda>_. 0)\<rparr>"

definition bucketFor :: "string \<Rightarrow> HTTPBulkhead \<Rightarrow> bucket \<times> HTTPBulkhead" where
  "bucketFor host b =
     (let h = to_lower host in
      if h \<in> set (bh_hosts b) then (HostBucket h, b)
      else if length (bh_hosts b) \<ge> maxHTTPHostBuckets then (OverflowBucket, b)
      else (HostBucket h, b\<lparr>bh_hosts := bh_hosts b @ [h]\<rparr>))"

text \<open>The sends and receives of the two channels; a send on a full channel blocks.\<close>

definition take_global :: "HTTPBulkhead \<Rightarrow> HTTPBulkhead option" where
  "take_global b = (if bh_global b < bh_cap b then Some (b\<lparr>bh_global := bh_global b + 1\<rparr>) else None)"

definition give_global :: "HTTPBulkhead \<Rightarrow> HTTPBulkhead" where
  "give_global b = b\<lparr>bh_global := bh_global b - 1\<rparr>"

definition take_bucket :: "bucket \<Rightarrow> HTTPBulkhead \<Rightarrow> HTTPBulkhead option" where
  "take_bucket k b =
     (if bh_used b k < bh_per_host b then Some (b\<lparr>bh_used := (bh_used b)(k := bh_used b k + 1)\<rparr>) else None)"

definition give_bucket :: "bucket \<Rightarrow> HTTPBulkhead \<Rightarrow> HTTPBulkhead" where
  "give_bucket k b = b\<lparr>bh_used := (bh_used b)(k := bh_used b k - 1)\<rparr>"

section \<open>Concurrent calls\<close>

text \<open>Where a call stands in \<open>Acquire\<close>, and whether it holds its permit.\<close>

datatype phase = Waits string | Entered string | Queued bucket | Holds bucket | Over

record calls =
  ca_bulkhead :: HTTPBulkhead
  ca_phases :: "phase list"

definition move :: "nat \<Rightarrow> phase \<Rightarrow> HTTPBulkhead \<Rightarrow> calls \<Rightarrow> calls" where
  "move i p b c = c\<lparr>ca_bulkhead := b, ca_phases := (ca_phases c)[i := p]\<rparr>"

text \<open>
  The next step of call \<open>i\<close>, if it can take one: \<open>expired\<close> says that its deadline has passed. A
  call that holds its permit gives it back when it is done; a second release does nothing.
\<close>

definition call_step :: "nat \<Rightarrow> bool \<Rightarrow> calls \<Rightarrow> calls option" where
  "call_step i expired c =
     (let b = ca_bulkhead c in
      if length (ca_phases c) \<le> i then None
      else case ca_phases c ! i of
        Waits host \<Rightarrow>
          if expired then Some (move i Over b c)
          else map_option (\<lambda>b'. move i (Entered host) b' c) (take_global b)
      | Entered host \<Rightarrow> (case bucketFor host b of (k, b') \<Rightarrow> Some (move i (Queued k) b' c))
      | Queued k \<Rightarrow>
          if expired then Some (move i Over (give_global b) c)
          else map_option (\<lambda>b'. move i (Holds k) b' c) (take_bucket k b)
      | Holds k \<Rightarrow> Some (move i Over (give_global (give_bucket k b)) c)
      | Over \<Rightarrow> None)"

inductive calls_step :: "calls \<Rightarrow> calls \<Rightarrow> bool" where
  Arrives: "calls_step c (c\<lparr>ca_phases := ca_phases c @ [Waits host]\<rparr>)"
| Proceeds: "call_step i expired c = Some c' \<Longrightarrow> calls_step c c'"

definition new_calls :: "int \<Rightarrow> int \<Rightarrow> calls" where
  "new_calls global perHost = \<lparr>ca_bulkhead = NewHTTPBulkhead global perHost, ca_phases = []\<rparr>"

section \<open>The invariant\<close>

definition inside :: "phase \<Rightarrow> bool" where
  "inside p = (case p of Waits h \<Rightarrow> False | Over \<Rightarrow> False | _ \<Rightarrow> True)"

definition holding :: "bucket \<Rightarrow> calls \<Rightarrow> nat" where
  "holding k c = length (filter (\<lambda>p. p = Holds k) (ca_phases c))"

definition entered :: "calls \<Rightarrow> nat" where
  "entered c = length (filter inside (ca_phases c))"

definition calls_inv :: "calls \<Rightarrow> bool" where
  "calls_inv c \<longleftrightarrow> (let b = ca_bulkhead c in
     bh_global b = entered c \<and> (\<forall>k. bh_used b k = holding k c) \<and>
     bh_global b \<le> bh_cap b \<and> (\<forall>k. bh_used b k \<le> bh_per_host b) \<and> 0 < bh_cap b \<and> 0 < bh_per_host b \<and>
     distinct (bh_hosts b) \<and> length (bh_hosts b) \<le> maxHTTPHostBuckets)"

lemma filter_update:
  assumes "i < length xs"
  shows "length (filter P (xs[i := x])) + (if P (xs ! i) then 1 else 0) = length (filter P xs) + (if P x then 1 else 0)"
  using assms
proof (induction xs arbitrary: i)
  case (Cons y ys)
  then show ?case by (cases i) auto
qed simp

lemma entered_move:
  assumes "i < length (ca_phases c)"
  shows "entered (move i p b c) + (if inside (ca_phases c ! i) then 1 else 0) = entered c + (if inside p then 1 else 0)"
  using filter_update [OF assms, of inside p] by (simp add: entered_def move_def)

lemma holding_move:
  assumes "i < length (ca_phases c)"
  shows "holding k (move i p b c) + (if ca_phases c ! i = Holds k then 1 else 0) = holding k c + (if p = Holds k then 1 else 0)"
  using filter_update [OF assms, of "\<lambda>p. p = Holds k" p] by (simp add: holding_def move_def)

lemma bucketFor_counts:
  "bucketFor host b = (k, b') \<Longrightarrow> bh_global b' = bh_global b \<and> bh_used b' = bh_used b \<and> bh_cap b' = bh_cap b \<and>
     bh_per_host b' = bh_per_host b"
  by (auto simp: bucketFor_def Let_def split: if_split_asm)

lemma bucketFor_hosts:
  "bucketFor host b = (k, b') \<Longrightarrow> distinct (bh_hosts b) \<Longrightarrow> length (bh_hosts b) \<le> maxHTTPHostBuckets \<Longrightarrow>
   distinct (bh_hosts b') \<and> length (bh_hosts b') \<le> maxHTTPHostBuckets"
  by (auto simp: bucketFor_def Let_def split: if_split_asm)

definition same_caps :: "HTTPBulkhead \<Rightarrow> HTTPBulkhead \<Rightarrow> bool" where
  "same_caps b b' \<longleftrightarrow> bh_cap b' = bh_cap b \<and> bh_per_host b' = bh_per_host b"

text \<open>A step that moves one call keeps the invariant when it moves the counters with it.\<close>

lemma move_inv:
  assumes i: "i < length (ca_phases c)" and inv: "calls_inv c" and caps: "same_caps (ca_bulkhead c) b'"
    and global: "bh_global b' + (if inside (ca_phases c ! i) then 1 else 0) = bh_global (ca_bulkhead c) + (if inside p then 1 else 0)"
    and used: "\<And>k. bh_used b' k + (if ca_phases c ! i = Holds k then 1 else 0) = bh_used (ca_bulkhead c) k + (if p = Holds k then 1 else 0)"
    and bounds: "bh_global b' \<le> bh_cap b'" "\<And>k. bh_used b' k \<le> bh_per_host b'"
    and hosts: "distinct (bh_hosts b')" "length (bh_hosts b') \<le> maxHTTPHostBuckets"
  shows "calls_inv (move i p b' c)"
proof -
  have b: "ca_bulkhead (move i p b' c) = b'" by (simp add: move_def)
  have e: "bh_global b' = entered (move i p b' c)"
    using entered_move [OF i, of p b'] global inv by (simp add: calls_inv_def Let_def)
  have h: "bh_used b' k = holding k (move i p b' c)" for k
    using holding_move [OF i, of k p b'] used [of k] inv by (simp add: calls_inv_def Let_def)
  show ?thesis unfolding calls_inv_def b Let_def
    using e h bounds hosts caps inv by (simp add: calls_inv_def Let_def same_caps_def)
qed

lemma inside_phase [simp]:
  "inside (Entered h)" "inside (Queued k)" "inside (Holds k)" "\<not> inside (Waits h)" "\<not> inside Over"
  by (simp_all add: inside_def)

text \<open>A call inside is counted.\<close>

lemma inside_counted:
  assumes "i < length (ca_phases c)" "calls_inv c"
  shows "inside (ca_phases c ! i) \<Longrightarrow> 0 < bh_global (ca_bulkhead c)"
    and "ca_phases c ! i = Holds k \<Longrightarrow> 0 < bh_used (ca_bulkhead c) k"
proof -
  have mem: "ca_phases c ! i \<in> set (ca_phases c)" using assms(1) by simp
  show "inside (ca_phases c ! i) \<Longrightarrow> 0 < bh_global (ca_bulkhead c)"
    using mem assms(2) by (auto simp: calls_inv_def Let_def entered_def filter_empty_conv)
  show "ca_phases c ! i = Holds k \<Longrightarrow> 0 < bh_used (ca_bulkhead c) k"
    using mem assms(2) by (auto simp: calls_inv_def Let_def holding_def filter_empty_conv)
qed

lemma call_step_inv:
  assumes step: "call_step i expired c = Some c'" and inv: "calls_inv c"
  shows "calls_inv c'"
proof -
  let ?b = "ca_bulkhead c"
  have i: "i < length (ca_phases c)" using step by (auto simp: call_step_def Let_def split: if_split_asm)
  have b: "bh_global ?b \<le> bh_cap ?b" "\<And>k. bh_used ?b k \<le> bh_per_host ?b" "distinct (bh_hosts ?b)"
    "length (bh_hosts ?b) \<le> maxHTTPHostBuckets" using inv by (auto simp: calls_inv_def Let_def)
  note counted = inside_counted [OF i inv]
  show ?thesis
  proof (cases "ca_phases c ! i")
    case (Waits host)
    show ?thesis
    proof (cases expired)
      case True
      with Waits step i have "c' = move i Over ?b c" by (simp add: call_step_def)
      then show ?thesis using Waits b by (auto intro!: move_inv [OF i inv] simp: same_caps_def)
    next
      case False
      with Waits step i have "bh_global ?b < bh_cap ?b" "c' = move i (Entered host) (?b\<lparr>bh_global := bh_global ?b + 1\<rparr>) c"
        by (auto simp: call_step_def take_global_def Let_def split: if_split_asm)
      then show ?thesis using Waits b by (auto intro!: move_inv [OF i inv] simp: same_caps_def)
    qed
  next
    case (Entered host)
    obtain k b' where k: "bucketFor host ?b = (k, b')" by (cases "bucketFor host ?b")
    with Entered step i have "c' = move i (Queued k) b' c" by (simp add: call_step_def)
    then show ?thesis using Entered b bucketFor_counts [OF k] bucketFor_hosts [OF k b(3,4)]
      by (auto intro!: move_inv [OF i inv] simp: same_caps_def)
  next
    case (Queued k)
    show ?thesis
    proof (cases expired)
      case True
      with Queued step i have "c' = move i Over (give_global ?b) c" by (simp add: call_step_def)
      then show ?thesis using Queued b counted(1) by (auto intro!: move_inv [OF i inv] simp: same_caps_def give_global_def)
    next
      case False
      with Queued step i have "bh_used ?b k < bh_per_host ?b"
        "c' = move i (Holds k) (?b\<lparr>bh_used := (bh_used ?b)(k := bh_used ?b k + 1)\<rparr>) c"
        by (auto simp: call_step_def take_bucket_def Let_def split: if_split_asm)
      then show ?thesis using Queued b by (auto intro!: move_inv [OF i inv] simp: same_caps_def)
    qed
  next
    case (Holds k)
    with step i have "c' = move i Over (give_global (give_bucket k ?b)) c" by (simp add: call_step_def)
    moreover have "bh_used ?b k - 1 \<le> bh_per_host ?b" using b(2) [of k] by simp
    ultimately show ?thesis using Holds b counted(1) counted(2) [of k]
      by (auto intro!: move_inv [OF i inv] simp: same_caps_def give_global_def give_bucket_def)
  next
    case Over
    with step i show ?thesis by (simp add: call_step_def)
  qed
qed

text \<open>A waiting call can go on, or one that holds its permit can give it back.\<close>

lemma no_deadlock:
  assumes inv: "calls_inv c"
  shows "list_all (\<lambda>p. p = Over) (ca_phases c) \<or> (\<exists>i. call_step i False c \<noteq> None)"
proof -
  let ?b = "ca_bulkhead c"
  have counts: "bh_global ?b = entered c" "\<And>k. bh_used ?b k = holding k c" "0 < bh_cap ?b" "0 < bh_per_host ?b"
    using inv by (auto simp: calls_inv_def Let_def)
  have at: "\<exists>i < length (ca_phases c). ca_phases c ! i = p" if "p \<in> set (ca_phases c)" for p
    using that by (simp add: in_set_conv_nth)
  have kinds: "p = Over \<or> (\<exists>h. p = Waits h)" if "\<nexists>k. p = Holds k" "\<nexists>h. p = Entered h" "\<nexists>k. p = Queued k" for p
    using that by (cases p) auto
  have quiet: "\<not> inside p" if "p = Over \<or> (\<exists>h. p = Waits h)" for p
    using that by auto
  consider (holds) k where "Holds k \<in> set (ca_phases c)" | (entered) h where "Entered h \<in> set (ca_phases c)"
    | (queued) k where "Queued k \<in> set (ca_phases c)" "\<forall>j. Holds j \<notin> set (ca_phases c)"
    | (waits) h where "Waits h \<in> set (ca_phases c)" "\<forall>p \<in> set (ca_phases c). \<not> inside p"
    | (over) "\<forall>p \<in> set (ca_phases c). p = Over"
    using kinds quiet by metis
  then show ?thesis
  proof cases
    case holds
    with at obtain i where "i < length (ca_phases c)" "ca_phases c ! i = Holds k" by blast
    then have "call_step i False c \<noteq> None" by (simp add: call_step_def Let_def)
    then show ?thesis by blast
  next
    case entered
    with at obtain i where "i < length (ca_phases c)" "ca_phases c ! i = Entered h" by blast
    then have "call_step i False c \<noteq> None" by (simp add: call_step_def Let_def split: prod.split)
    then show ?thesis by blast
  next
    case queued
    with at obtain i where i: "i < length (ca_phases c)" "ca_phases c ! i = Queued k" by blast
    have "holding k c = 0" using queued(2) by (auto simp: holding_def filter_empty_conv)
    with i counts have "call_step i False c \<noteq> None" by (simp add: call_step_def take_bucket_def Let_def)
    then show ?thesis by blast
  next
    case waits
    with at obtain i where i: "i < length (ca_phases c)" "ca_phases c ! i = Waits h" by blast
    have "entered c = 0" using waits(2) by (auto simp: entered_def filter_empty_conv)
    with i counts have "call_step i False c \<noteq> None" by (simp add: call_step_def take_global_def Let_def)
    then show ?thesis by blast
  next
    case over
    then show ?thesis by (simp add: list_all_iff)
  qed
qed

lemma new_calls_inv: "calls_inv (new_calls global perHost)"
  by (simp add: calls_inv_def new_calls_def NewHTTPBulkhead_def entered_def holding_def Let_def
      DefaultHTTPMaxInFlight_def DefaultHTTPMaxInFlightPerHost_def)

lemma calls_step_inv: "calls_step c c' \<Longrightarrow> calls_inv c \<Longrightarrow> calls_inv c'"
proof (induction rule: calls_step.induct)
  case (Arrives c host)
  then show ?case by (auto simp: calls_inv_def entered_def holding_def Let_def)
next
  case (Proceeds i expired c c')
  then show ?case by (rule call_step_inv)
qed

definition reachable_calls :: "int \<Rightarrow> int \<Rightarrow> calls \<Rightarrow> bool" where
  "reachable_calls global perHost c \<longleftrightarrow> calls_step\<^sup>*\<^sup>* (new_calls global perHost) c"

lemma reachable_calls_inv:
  assumes "reachable_calls global perHost c"
  shows "calls_inv c"
    and "same_caps (NewHTTPBulkhead global perHost) (ca_bulkhead c)"
  using assms unfolding reachable_calls_def
proof (induction rule: rtranclp_induct)
  case base
  {
    case 1
    show ?case by (rule new_calls_inv)
  next
    case 2
    show ?case by (simp add: same_caps_def new_calls_def)
  }
next
  case (step y z)
  {
    case 1
    from step(2,3) show ?case by (rule calls_step_inv)
  next
    case 2
    from step(2) have "same_caps (ca_bulkhead y) (ca_bulkhead z)"
      by (cases rule: calls_step.cases)
        (auto simp: same_caps_def call_step_def Let_def move_def take_global_def take_bucket_def give_global_def give_bucket_def
          dest: bucketFor_counts split: if_split_asm phase.split_asm prod.split_asm)
    with step(4) show ?case by (simp add: same_caps_def)
  }
qed

section \<open>Properties\<close>

text \<open>
  C16. The bulkhead bounds what is in flight: whatever calls arrive, wait, give up and finish in any
  order, at most the global cap of them hold a permit, at most the cap of a host those of one
  bucket, the buckets stay bounded, and no state is a deadlock: while a call waits for a permit,
  a call can proceed without a deadline passing, be it only to give its permit back.
\<close>

theorem bulkhead_bounds:
  assumes "reachable_calls global perHost c"
  shows "entered c \<le> bh_cap (NewHTTPBulkhead global perHost) \<and> holding k c \<le> bh_per_host (NewHTTPBulkhead global perHost) \<and>
    length (bh_hosts (ca_bulkhead c)) \<le> maxHTTPHostBuckets \<and>
    (list_all (\<lambda>p. p = Over) (ca_phases c) \<or> (\<exists>i. call_step i False c \<noteq> None))"
proof -
  note inv = reachable_calls_inv(1) [OF assms] and caps = reachable_calls_inv(2) [OF assms]
  have "list_all (\<lambda>p. p = Over) (ca_phases c) \<or> (\<exists>i. call_step i False c \<noteq> None)" by (rule no_deadlock [OF inv])
  with inv caps show ?thesis by (auto simp: calls_inv_def same_caps_def Let_def)
qed

text \<open>Three calls to one host with a cap of one: one is in flight, one queues, one waits outside.\<close>

fun run_calls :: "(string + nat) list \<Rightarrow> calls \<Rightarrow> calls option" where
  "run_calls [] c = Some c"
| "run_calls (Inl host # es) c = run_calls es (c\<lparr>ca_phases := ca_phases c @ [Waits host]\<rparr>)"
| "run_calls (Inr i # es) c = (case call_step i False c of None \<Rightarrow> None | Some c' \<Rightarrow> run_calls es c')"

lemma run_calls_steps: "run_calls es c = Some c' \<Longrightarrow> calls_step\<^sup>*\<^sup>* c c'"
proof (induction es c rule: run_calls.induct)
  case (2 host es c)
  then show ?case by (auto intro: converse_rtranclp_into_rtranclp Arrives)
next
  case (3 i es c)
  then show ?case by (auto intro: converse_rtranclp_into_rtranclp Proceeds split: option.splits)
qed simp

definition sample_events :: "(string + nat) list" where
  "sample_events = [Inl ''a'', Inl ''A'', Inl ''a'', Inr 0, Inr 0, Inr 1, Inr 1, Inr 0]"

lemma bulkhead_bounds_witness:
  "\<exists>c. run_calls sample_events (new_calls 2 1) = Some c \<and>
     ca_phases c = [Holds (HostBucket ''a''), Queued (HostBucket ''a''), Waits ''a''] \<and>
     entered c \<le> 2 \<and> holding (HostBucket ''a'') c \<le> 1 \<and> (\<exists>i. call_step i False c \<noteq> None)"
proof -
  have "map_option ca_phases (run_calls sample_events (new_calls 2 1)) =
      Some [Holds (HostBucket ''a''), Queued (HostBucket ''a''), Waits ''a'']" by code_simp
  then obtain c where c: "run_calls sample_events (new_calls 2 1) = Some c"
    "ca_phases c = [Holds (HostBucket ''a''), Queued (HostBucket ''a''), Waits ''a'']" by auto
  have "reachable_calls 2 1 c" unfolding reachable_calls_def by (rule run_calls_steps [OF c(1)])
  from bulkhead_bounds [OF this] c show ?thesis by (auto simp: NewHTTPBulkhead_def)
qed

end
