(* ===== verification/CustomExecutors.thy ===== *)
theory CustomExecutors
  imports NodeTypes Executor
begin

text \<open>
  \<open>executor/custom_registry.go\<close> and the executor table of \<open>executor.go\<close>: factories of custom node
  types, registered by name, and the executors they build at startup. A factory stands for what it
  returns: an error, no executor, or an executor.
\<close>

section \<open>Factories\<close>

datatype 'x factory = FactoryFails string | BuildsNothing | Builds 'x

type_synonym 'x factories = "(string \<times> 'x factory) list"

definition RegisterCustomFactory :: "string \<Rightarrow> 'x factory option \<Rightarrow> 'x factories \<Rightarrow> string + 'x factories" where
  "RegisterCustomFactory t f fs =
     (case f of
        None \<Rightarrow> Inl (''custom executor factory for '' @ quoted t @ '' must be non-nil'')
      | Some b \<Rightarrow>
          if t = [] then Inl ''custom executor factory requires a non-empty node type''
          else if IsBuiltinNodeType t then Inl (''custom executor factory '' @ quoted t @ '' collides with a builtin node type'')
          else if map_of fs t \<noteq> None then Inl (''custom executor factory '' @ quoted t @ '' is already registered'')
          else Inr (map_put t b fs))"

definition UnregisterCustomFactory :: "string \<Rightarrow> 'x factories \<Rightarrow> 'x factories" where
  "UnregisterCustomFactory t fs = map_del t fs"

definition LookupCustomFactory :: "string \<Rightarrow> 'x factories \<Rightarrow> 'x factory option" where
  "LookupCustomFactory t fs = map_of fs t"

definition CustomFactoryTypes :: "'x factories \<Rightarrow> string list" where
  "CustomFactoryTypes fs = keys_of fs"

section \<open>The table\<close>

fun BuildCustomExecutors :: "'x factories \<Rightarrow> string + (string \<times> 'x) list" where
  "BuildCustomExecutors [] = Inr []"
| "BuildCustomExecutors ((t, f) # fs) =
     (case f of
        FactoryFails e \<Rightarrow> Inl (''custom node type '' @ quoted t @ '': build executor: '' @ e)
      | BuildsNothing \<Rightarrow> Inl (''custom node type '' @ quoted t @ '': factory returned nil executor'')
      | Builds x \<Rightarrow> bindR (BuildCustomExecutors fs) (\<lambda>out. Inr ((t, x) # out)))"

definition BuildCustomExecutorsExcept :: "string list \<Rightarrow> 'x factories \<Rightarrow> string + (string \<times> 'x) list" where
  "BuildCustomExecutorsExcept exclude fs = BuildCustomExecutors (filter (\<lambda>(t, _). t \<notin> set exclude) fs)"

text \<open>The types with an executor of their own, and \<open>NewExecutors\<close>, which panics on a failure (\<open>None\<close>).\<close>

definition builtin_executors :: "string list" where
  "builtin_executors = [''script'', ''conditions'', ''input'', ''external_call'', ''output'', ''poller'', ''delay'']"

definition NewExecutors :: "(string \<Rightarrow> 'x) \<Rightarrow> 'x factories \<Rightarrow> (string \<times> 'x) list option" where
  "NewExecutors builtin fs =
     (case BuildCustomExecutors fs of
        Inl e \<Rightarrow> None
      | Inr customs \<Rightarrow>
          if list_ex (\<lambda>(t, _). t \<in> set builtin_executors) customs then None
          else Some (map (\<lambda>t. (t, builtin t)) builtin_executors @ customs))"

section \<open>Registered types\<close>

text \<open>What registration guarantees of the registry, from the empty one on.\<close>

definition factories_ok :: "'x factories \<Rightarrow> bool" where
  "factories_ok fs \<longleftrightarrow> wf_map fs \<and> [] \<notin> fst ` set fs \<and> (\<forall>t \<in> fst ` set fs. \<not> IsBuiltinNodeType t)"

lemma Register_ok:
  assumes "RegisterCustomFactory t f fs = Inr fs'" "factories_ok fs"
  shows "factories_ok fs'"
proof -
  from assms(1) obtain x where x: "fs' = map_put t x fs" "t \<noteq> []" "\<not> IsBuiltinNodeType t"
    by (auto simp: RegisterCustomFactory_def split: option.splits if_split_asm)
  show ?thesis unfolding x(1) factories_ok_def fst_set_map_put
    using assms(2) x(2,3) by (auto simp: factories_ok_def)
qed

lemma Unregister_ok: "factories_ok fs \<Longrightarrow> factories_ok (UnregisterCustomFactory t fs)"
  unfolding UnregisterCustomFactory_def factories_ok_def
  by (intro conjI) (simp, auto simp: map_del_def)

lemma builtin_executors_builtin: "t \<in> set builtin_executors \<Longrightarrow> IsBuiltinNodeType t"
  by (auto simp: builtin_executors_def IsBuiltinNodeType_def)

lemma Build_keys: "BuildCustomExecutors fs = Inr out \<Longrightarrow> keys_of out = keys_of fs"
  by (induction fs arbitrary: out rule: BuildCustomExecutors.induct) (auto simp: bindR_Inr_iff split: factory.splits)

text \<open>Startup only panics on a factory of its own: registered types never collide with the table.\<close>

lemma NewExecutors_total:
  assumes "factories_ok fs" "BuildCustomExecutors fs = Inr customs"
  shows "NewExecutors builtin fs = Some (map (\<lambda>t. (t, builtin t)) builtin_executors @ customs)"
proof -
  have "t \<notin> set builtin_executors" if "(t, x) \<in> set customs" for t x
  proof -
    from that have "t \<in> set (keys_of customs)" by force
    then have "\<not> IsBuiltinNodeType t" using assms(1) unfolding Build_keys [OF assms(2)] by (auto simp: factories_ok_def)
    with builtin_executors_builtin show ?thesis by blast
  qed
  then show ?thesis using assms(2) by (auto simp: NewExecutors_def list_ex_iff)
qed

end
