(* ===== verification/Spec2Isabelle.thy ===== *)
theory Spec2Isabelle
  imports Status ContextDiff ParallelSafety Delivery EngineRuns ServiceGates AccessSafety SchedulerSafety
    MaterializeSafety DefinitionRuns OutboundSafety Bulkhead CustomExecutors
begin

text \<open>
  A model of simpwf, a workflow engine in Go: workflows are trees of nodes, instances of them
  run in steps that are persisted in PostgreSQL, and any number of worker processes share the
  database. Every file named below is under \<open>src/internal/workflow\<close> unless it starts with
  \<open>pkg\<close>.

  How the program works. A definition is parsed and validated (\<open>model\<close>); \<open>service\<close> creates an
  instance with a context document and a cursor at the start node. A dispatcher (\<open>engine\<close>)
  claims runnable instances under a lease; a transition runs the node under the cursor through
  an executor (\<open>executor\<close>), computes the next cursor (\<open>kernel\<close>) and commits both with a fence
  on the lease and the revision (\<open>repository\<close>). A parallel block forks branch rows that are
  claimed on their own and meet at a join barrier. Commits append audit events, lean context
  history and status updates for an outbox. \<open>service\<close> also pauses, resumes, stops, rolls back
  and migrates instances, delivers input and builds the views; \<open>handler\<close> authenticates.

  Theories, in the order of the code:
  \<^item> \<open>Prelude\<close>, \<open>Json\<close>: results with errors, tables as lists of rows with the SQL operations
    on them, the Go string functions, decoded JSON (a Go map is an association list with
    ascending keys, \<open>wf_map\<close>).
  \<^item> \<open>Status\<close>, \<open>Cursor\<close>, \<open>Content\<close>, \<open>Notify\<close>, \<open>Validate\<close>: \<open>model/status.go\<close>, \<open>state.go\<close>,
    \<open>nodecontent.go\<close> and \<open>workflowcontent.go\<close> (the tree), \<open>statusupdate.go\<close>, and the checks of
    \<open>workflowcontent.go\<close> and \<open>parallel.go\<close>. \<open>Interior\<close> is \<open>ParallelInterior\<close>. \<open>NodeParse\<close>,
    \<open>NodeTypes\<close>, \<open>WorkflowParse\<close>: the parser of \<open>nodecontent.go\<close> and \<open>workflowcontent.go\<close>
    with the registry of \<open>custom_registry.go\<close>, from decoded JSON to the tree. \<open>Materialize\<close>:
    \<open>kernel/materialize.go\<close>, which puts node definitions in place of references, and the cache of
    \<open>defcache/defcache.go\<close>.
  \<^item> \<open>ContextPath\<close>, \<open>Template\<close>, \<open>ContextDiff\<close>: \<open>pkg/contextpath\<close> and \<open>pkg/contextdiff\<close>.
  \<^item> \<open>Kernel\<close>: \<open>kernel/machine.go\<close>, \<open>groups.go\<close> and the graph of \<open>engine/graph.go\<close>.
  \<^item> \<open>Store\<close>, \<open>InstanceRepo\<close>, \<open>ParallelRepo\<close>, \<open>InputRepo\<close>, \<open>History\<close>, \<open>Outbox\<close>: the rows and
    mappers, \<open>repository/instance.go\<close>, \<open>parallel.go\<close>, \<open>history.go\<close>, \<open>status_update.go\<close> and one
    delivery of \<open>statusupdate/dispatcher.go\<close>. An operation is a function of the database; an
    error is a value, and the transaction then leaves the database as it was.
  \<^item> \<open>Executor\<close>, \<open>Engine\<close>, \<open>Transition\<close>, \<open>Parallel\<close>: \<open>executor\<close> (sandbox entry, hooks and
    the built-in nodes) and \<open>engine\<close> (\<open>scope.go\<close>, \<open>engine.go\<close>, \<open>branch.go\<close>, \<open>fork.go\<close>, \<open>join.go\<close>
    and a round of \<open>dispatcher.go\<close>), in the state monad over \<open>world\<close>: the database, the moves
    of the rest of the system before each call and the failures of calls (\<open>w_env\<close>), a tick
    that indexes clocks and fresh ids, and the executor calls made.
  \<^item> \<open>Access\<close>, \<open>Redaction\<close>, \<open>Service\<close>, \<open>ServiceViews\<close>, \<open>ServiceRollback\<close>, \<open>ServiceInput\<close>:
    \<open>auth/principal.go\<close>, \<open>repository/user.go\<close>, \<open>handler/auth.go\<close>, \<open>service/auth.go\<close>,
    \<open>instance_authz.go\<close>, \<open>secret_redaction.go\<close>, \<open>pkg/envsnapshot\<close>, and the use cases of
    \<open>service/instance.go\<close> over the same \<open>world\<close>.
  \<^item> \<open>Schedule\<close>, \<open>Scheduler\<close>: \<open>model/cron.go\<close>, \<open>repository/schedule.go\<close>, \<open>service/schedule.go\<close>
    and \<open>scheduler/scheduler.go\<close>: schedules, the claims of their ticks, and the converging registry
    of each replica.
  \<^item> \<open>Definitions\<close>, \<open>DefinitionService\<close>: \<open>repository/node_definition.go\<close>,
    \<open>workflow_definition.go\<close>, \<open>form.go\<close>, \<open>definition_query.go\<close>, \<open>order.go\<close> with the indexes and
    foreign keys of their tables (\<open>lib_db\<close>), and the use cases of \<open>service/node_definition.go\<close>,
    \<open>workflow_definition.go\<close>, \<open>form.go\<close> with \<open>form/form.go\<close>, over \<open>lib_world\<close>: the tables, a tick,
    and the cache of resolved trees.

  \<^item> \<open>Outbound\<close>, \<open>Poller\<close>, \<open>Bulkhead\<close>, \<open>CustomExecutors\<close>: the executors that reach outside,
    \<open>executor/http.go\<close>, \<open>poller.go\<close>, \<open>command.go\<close>, in a state monad over \<open>out_world\<close> (requests sent,
    commands run, clients read, permits held, a tick that indexes the answers), which \<open>outside_of\<close>
    hands to the engine; \<open>httpbulkhead.go\<close> as a step relation; \<open>custom_registry.go\<close>.

  What the lemmas show:
  \<^item> \<open>Steps\<close> states the repository as a step relation (\<open>repo_step\<close>, one rule per operation that
    writes); \<open>Evolution\<close>, \<open>System\<close>, \<open>Barrier\<close> prove what each rule does to every row and the
    invariant \<open>sys_inv\<close>; \<open>Lifecycle\<close>, \<open>Leases\<close>, \<open>Claims\<close>, \<open>Cascade\<close>, \<open>JoinSpec\<close>,
    \<open>Delivery\<close>, \<open>Fencing\<close> draw the consequences: statuses follow their tables, a revision
    admits one commit, claims exclude each other, a join is ready exactly when its branches
    are done, keys are delivered once.
  \<^item> \<open>ParallelSafety\<close>, \<open>InteriorSafety\<close>, \<open>ServiceCursor\<close>: what validation guarantees of every
    cursor the engine, a rollback or a migration can set.
  \<^item> \<open>EngineSteps\<close>, \<open>EngineSafety\<close>, \<open>EngineCalls\<close>, \<open>EngineLease\<close>, \<open>EngineAlone\<close>,
    \<open>EngineRuns\<close>: transitions only take repository steps, whatever else happens; they call an
    executor at most once; they give the lease back.
  \<^item> \<open>ServiceSafety\<close>, \<open>ServiceGates\<close>, \<open>AccessSafety\<close>: the same for the use cases; who may do
    what; what a success implies.
  \<^item> \<open>ParseSafety\<close>: every node of a parsed workflow is well formed, and the tree is what the
    theorems on validated workflows assume (\<open>parsed_tree\<close>). \<open>MaterializeSafety\<close>: so is the
    materialized tree, every node of it executable; the cache is transparent.
  \<^item> \<open>SchedulerSafety\<close>: a refresh converges on the enabled schedules; one instance per second
    of a tick over any replicas.
  \<^item> \<open>DefinitionSafety\<close>, \<open>DefinitionTrees\<close>, \<open>LibraryLogic\<close>, \<open>DefinitionRuns\<close>: the steps of the
    definition library (\<open>lib_step\<close>) keep its references and lineages; what a stored definition
    resolves to never changes; the use cases take only such steps, whatever other replicas do.
  \<^item> \<open>OutboundSafety\<close>, \<open>Bulkhead\<close>: every request of a node, its redirects and retries too, clears
    the target policy, within a bounded number of calls; pollers end with what their predicate
    accepted; commands run an allowed executable; the caps on calls in flight hold and give back.
  \<^item> \<open>Sample\<close>, \<open>EngineSample\<close>, \<open>ServiceSample\<close>: one concrete run for the witnesses.

  Interfaces are locales, each interpreted on the model: \<open>lifecycle\<close> (the four status tables),
  \<open>cursor_graph\<close> (what the cursor machine needs of a graph), \<open>fenced_commit\<close> (the commits of
  an instance and of a branch), \<open>definition_table\<close> (what creating a version needs of a table, met
  by node and workflow definitions).

  Bounds and fuel. Loops over data are structural or have a measure. The work lists of
  \<open>walkBranch\<close> and \<open>collectBranch\<close> take the fuel \<open>walk_fuel\<close>, which counts every node with
  every group stack; \<open>Validate_terminates\<close> shows it is never exhausted. A character class of
  \<open>path.Match\<close> takes fuel from the length of its pattern, each round consuming a character.
  Integers of the code are \<open>int\<close>: its counters, versions and times are far from 64 bits; durations
  computed from a response header wrap as Go's do (\<open>wrap64\<close>).

  Not modelled, as the arguments of the definitions that use them: the JavaScript interpreter,
  the network, processes, brokers and custom node types behind the outside executors, clocks, fresh ids,
  the identity provider, JSON and YAML syntax, the schema compiler, the cron library, and, for
  the use cases of instances, the resolution of definitions, forms and secrets. Not modelled at
  all: the request binding and rendering of \<open>handler\<close>, secrets, roles and statistics, goroutines,
  tickers and shutdown, static documentation.
  Concurrency is at the granularity of database calls: a transaction is one step, which is
  what its row locks give.
\<close>

end
